(* ===== verification/Prelude.thy ===== *)
theory Prelude
  imports Complex_Main "HOL-Library.Word" "HOL-Library.Log_Nat"
begin

unbundle bit_operations_syntax

text \<open>
  Shared vocabulary of the development: the IEC type names of \<^verbatim>\<open>src/shared/types.h\<close> as
  machine words, flag tests on bit sets, the truncating integer division of C, the result
  codes the components return and the collections of hints (\<open>flag_simps\<close>, \<open>comp_defs\<close>)
  that the component theories use.
\<close>

section \<open>Hint collections\<close>

named_theorems flag_simps "facts about bit flags"
named_theorems comp_defs "definitions a component proof unfolds"

section \<open>Integer types of the source\<close>

type_synonym USINT = "8 word"
type_synonym UINT = "16 word"
type_synonym UDINT = "32 word"
type_synonym INT = "16 word"
type_synonym DINT = "32 word"
type_synonym byte = "8 word"
type_synonym bytes = "8 word list"

section \<open>Bit flags\<close>

text \<open>C's \<^verbatim>\<open>if (value & flag)\<close>.\<close>

definition has :: "'a::len word \<Rightarrow> 'a word \<Rightarrow> bool" where
  "has v f \<longleftrightarrow> v AND f \<noteq> 0"

lemma has_zero [simp]: "\<not> has 0 f" "\<not> has v 0"
  by (simp_all add: has_def)

lemma has_iff_bit: "has v f \<longleftrightarrow> (\<exists>n. bit v n \<and> bit f n)"
proof -
  have "v AND f = 0 \<longleftrightarrow> (\<forall>n. \<not> bit (v AND f) n)"
    by (metis bit_0_eq bit_eqI bot_apply bot_bool_def)
  then show ?thesis by (auto simp: has_def bit_and_iff)
qed

lemma has_self [flag_simps]: "has f f \<longleftrightarrow> f \<noteq> 0"
  by (simp add: has_def)

lemma has_or [flag_simps]: "has (v OR w) f \<longleftrightarrow> has v f \<or> has w f"
  by (auto simp: has_iff_bit bit_or_iff)

lemma has_clear_self [flag_simps]: "\<not> has (v AND NOT f) f"
  by (auto simp: has_iff_bit bit_and_iff bit_not_iff)

lemma has_clear_other [flag_simps]: "f AND g = 0 \<Longrightarrow> has (v AND NOT f) g \<longleftrightarrow> has v g"
proof -
  assume "f AND g = 0"
  then have "\<not> (bit f n \<and> bit g n)" for n
    by (metis bit_0_eq bit_and_iff bot_apply bot_bool_def)
  then show ?thesis
    by (auto simp: has_iff_bit bit_and_iff bit_not_iff) (metis bit_imp_le_length)
qed

lemma has_clearD: "has (v AND NOT f) g \<Longrightarrow> has v g"
  by (auto simp: has_iff_bit bit_and_iff)

section \<open>Integer division of C\<close>

text \<open>C truncates towards zero; the remainder takes the sign of the dividend.\<close>

definition cdiv :: "int \<Rightarrow> int \<Rightarrow> int" where
  "cdiv a b = sgn a * sgn b * (\<bar>a\<bar> div \<bar>b\<bar>)"

definition crem :: "int \<Rightarrow> int \<Rightarrow> int" where
  "crem a b = a - cdiv a b * b"

lemma cdiv_pos: "0 \<le> a \<Longrightarrow> 0 < b \<Longrightarrow> cdiv a b = a div b"
  by (cases "a = 0") (simp_all add: cdiv_def)

lemma crem_pos: "0 \<le> a \<Longrightarrow> 0 < b \<Longrightarrow> crem a b = a mod b"
  by (simp add: crem_def cdiv_pos minus_div_mult_eq_mod)

lemma cdiv_neg: "a \<le> 0 \<Longrightarrow> 0 < b \<Longrightarrow> cdiv a b = - ((- a) div b)"
  by (cases "a = 0") (simp_all add: cdiv_def)

lemma crem_neg: "a \<le> 0 \<Longrightarrow> 0 < b \<Longrightarrow> crem a b = - ((- a) mod b)"
proof -
  assume a: "a \<le> 0" and b: "0 < b"
  have "(- a) mod b = (- a) - (- a) div b * b"
    by (simp add: minus_div_mult_eq_mod)
  with a b show ?thesis by (simp add: crem_def cdiv_neg)
qed

lemma cdiv_crem: "cdiv a b * b + crem a b = a"
  by (simp add: crem_def)

lemma crem_bounds: "0 < b \<Longrightarrow> - b < crem a b \<and> crem a b < b"
proof (cases "0 \<le> a")
  case True
  assume b: "0 < b"
  then have "0 \<le> a mod b" "a mod b < b" by simp_all
  with True b show ?thesis unfolding crem_pos [OF True b] by linarith
next
  case False
  assume "0 < b"
  then have "0 \<le> (- a) mod b" "(- a) mod b < b" by simp_all
  with False \<open>0 < b\<close> show ?thesis
    unfolding crem_neg [OF less_imp_le [OF not_le_imp_less [OF False]] \<open>0 < b\<close>] by linarith
qed

section \<open>Results\<close>

text \<open>
  \<^verbatim>\<open>TRITONN_RESULT_OK\<close> is 0; every other code is an error. \<open>word_of_bool\<close> is what
  C stores for a truth value.
\<close>

definition TRITONN_RESULT_OK :: UDINT where
  "TRITONN_RESULT_OK = 0"

definition word_of_bool :: "bool \<Rightarrow> 'a::len word" where
  "word_of_bool b = (if b then 1 else 0)"

lemma word_of_bool_simps [simp]: "word_of_bool True = 1" "word_of_bool False = 0"
  by (simp_all add: word_of_bool_def)

text \<open>
  Where the code does what C leaves undefined and what stops the process in practice, the model
  returns the reason in place of a result.
\<close>

datatype trap = Div_by_zero | Null_pointer | Out_of_bounds | Endless_loop

section \<open>Lists updated by index\<close>

lemma nth_list_update_if: "j < length xs \<Longrightarrow> xs[i := x] ! j = (if i = j then x else xs ! j)"
  by (simp add: nth_list_update)

lemma foldl_invariant:
  assumes "P s" and "\<And>s x. P s \<Longrightarrow> x \<in> set xs \<Longrightarrow> P (f s x)"
  shows "P (foldl f s xs)"
  using assms by (induction xs arbitrary: s) auto

end
