(* ===== verification/Types.thy ===== *)
theory Types
  imports Prelude
begin

text \<open>
  The data types a configured variable, a Modbus register or an event parameter can have:
  \<^verbatim>\<open>TYPE\<close>, \<^verbatim>\<open>getTypeSize\<close>, \<^verbatim>\<open>getTypeName\<close> and \<^verbatim>\<open>getTypeByName\<close> of
  \<^verbatim>\<open>src/shared/types.h\<close> and \<^verbatim>\<open>types.cpp\<close>, and the \<^verbatim>\<open>int\<close> codes of the enumeration,
  since the code casts raw bytes to \<^verbatim>\<open>TYPE\<close> and back.
\<close>

datatype TYPEID = T_UNDEF | T_SINT | T_USINT | T_INT | T_UINT | T_DINT | T_UDINT | T_REAL | T_LREAL | T_STRID | T_END
  | T_other USINT

text \<open>
  The enumeration has \<^verbatim>\<open>USINT\<close> as underlying type: a cast of any byte is defined, and a byte
  above \<^verbatim>\<open>_END\<close> is a value of the type without a name (\<open>T_other\<close>).
\<close>

definition TYPE_of_code :: "USINT \<Rightarrow> TYPEID" where
  "TYPE_of_code c =
     (if c = 0 then T_UNDEF else if c = 1 then T_SINT else if c = 2 then T_USINT
      else if c = 3 then T_INT else if c = 4 then T_UINT else if c = 5 then T_DINT
      else if c = 6 then T_UDINT else if c = 7 then T_REAL else if c = 8 then T_LREAL
      else if c = 9 then T_STRID else if c = 10 then T_END else T_other c)"

fun TYPE_code :: "TYPEID \<Rightarrow> USINT" where
  "TYPE_code T_UNDEF = 0"
| "TYPE_code T_SINT = 1"
| "TYPE_code T_USINT = 2"
| "TYPE_code T_INT = 3"
| "TYPE_code T_UINT = 4"
| "TYPE_code T_DINT = 5"
| "TYPE_code T_UDINT = 6"
| "TYPE_code T_REAL = 7"
| "TYPE_code T_LREAL = 8"
| "TYPE_code T_STRID = 9"
| "TYPE_code T_END = 10"
| "TYPE_code (T_other c) = c"

lemma TYPE_code_of_code [simp]: "TYPE_code (TYPE_of_code c) = c"
  by (simp add: TYPE_of_code_def)

fun getTypeSize :: "TYPEID \<Rightarrow> UDINT" where
  "getTypeSize T_SINT = 1"
| "getTypeSize T_USINT = 1"
| "getTypeSize T_INT = 2"
| "getTypeSize T_UINT = 2"
| "getTypeSize T_DINT = 4"
| "getTypeSize T_UDINT = 4"
| "getTypeSize T_REAL = 4"
| "getTypeSize T_LREAL = 8"
| "getTypeSize T_STRID = 4"
| "getTypeSize _ = 255"

fun getTypeName :: "TYPEID \<Rightarrow> string" where
  "getTypeName T_SINT = ''sint''"
| "getTypeName T_USINT = ''usint''"
| "getTypeName T_INT = ''int''"
| "getTypeName T_UINT = ''uint''"
| "getTypeName T_DINT = ''dint''"
| "getTypeName T_UDINT = ''udint''"
| "getTypeName T_REAL = ''real''"
| "getTypeName T_LREAL = ''lreal''"
| "getTypeName T_STRID = ''strid''"
| "getTypeName _ = ''undef''"

definition getTypeByName :: "string \<Rightarrow> TYPEID" where
  "getTypeByName str =
     (if str = ''usint'' then T_USINT else if str = ''sint'' then T_SINT
      else if str = ''uint'' then T_UINT else if str = ''int'' then T_INT
      else if str = ''udint'' then T_UDINT else if str = ''dint'' then T_DINT
      else if str = ''real'' then T_REAL else if str = ''lreal'' then T_LREAL
      else if str = ''strid'' then T_STRID else T_UNDEF)"

text \<open>The types that have a value: every enumerator but \<^verbatim>\<open>UNDEF\<close> and \<^verbatim>\<open>_END\<close>.\<close>

definition isValueType :: "TYPEID \<Rightarrow> bool" where
  "isValueType t \<longleftrightarrow> t \<in> {T_SINT, T_USINT, T_INT, T_UINT, T_DINT, T_UDINT, T_REAL, T_LREAL, T_STRID}"

lemma getTypeSize_255_iff: "getTypeSize t = 255 \<longleftrightarrow> \<not> isValueType t"
  by (cases t) (simp_all add: isValueType_def)

lemma getTypeSize_bounds: "1 \<le> unat (getTypeSize t) \<and> unat (getTypeSize t) \<le> 255"
  by (cases t) simp_all

lemma getTypeSize_value: "isValueType t \<Longrightarrow> unat (getTypeSize t) \<in> {1, 2, 4, 8}"
  by (auto simp: isValueType_def)

text \<open>
  The type names of the configuration parse back to the type they were printed from, and
  exactly the nine value types do: a value type is read back from its printed name, every other
  code prints as \<open>undef\<close> and is read back as \<^verbatim>\<open>UNDEF\<close>, and a name that is not one of the
  nine is read as \<^verbatim>\<open>UNDEF\<close>, so the parser never invents a type.
\<close>

theorem type_name_roundtrip:
  "getTypeByName (getTypeName t) = (if isValueType t then t else T_UNDEF)
   \<and> (getTypeByName s \<noteq> T_UNDEF \<longleftrightarrow> (\<exists>u. isValueType u \<and> s = getTypeName u))
   \<and> (getTypeSize t = 255 \<longleftrightarrow> getTypeName t = ''undef'')"
proof (intro conjI)
  have rt: "getTypeByName (getTypeName t) = (if isValueType t then t else T_UNDEF)" for t
    by (cases t) (simp_all add: getTypeByName_def isValueType_def)
  then show "getTypeByName (getTypeName t) = (if isValueType t then t else T_UNDEF)" .
  have "getTypeByName s \<noteq> T_UNDEF \<Longrightarrow>
    isValueType (getTypeByName s) \<and> s = getTypeName (getTypeByName s)"
    by (simp add: getTypeByName_def isValueType_def split: if_splits)
  moreover have "isValueType u \<Longrightarrow> u \<noteq> T_UNDEF" for u
    by (auto simp: isValueType_def)
  ultimately show "getTypeByName s \<noteq> T_UNDEF \<longleftrightarrow> (\<exists>u. isValueType u \<and> s = getTypeName u)"
    using rt by metis
  show "getTypeSize t = 255 \<longleftrightarrow> getTypeName t = ''undef''"
    by (cases t) simp_all
qed

end
