(* ===== verification/Eid.thy ===== *)
theory Eid
  imports Types
begin

text \<open>
  The event identifiers of \<^verbatim>\<open>src/tritonn/event/eid.h\<close>: the packing macro
  \<^verbatim>\<open>MAKE_EID\<close>, the accessors of \<^verbatim>\<open>rEvent\<close> that unpack it, and every identifier the header
  creates, in the header's order. \<open>eid_list\<close> lists them by object and number; it is what the
  distinctness property quantifies over.
\<close>

section \<open>Packing and unpacking\<close>

definition MAKE_EID :: "'a::len word \<Rightarrow> 'b::len word \<Rightarrow> 'c::len word \<Rightarrow> UDINT" where
  "MAKE_EID t o' i =
     push_bit 30 (ucast t AND 0x3) OR 0x20000000 OR push_bit 16 (ucast o' AND 0x03FF) OR (ucast i AND 0xFFFF)"

text \<open>The event keeps the identifier as a signed \<^verbatim>\<open>DINT\<close>, so \<^verbatim>\<open>>>\<close> shifts the sign in.\<close>

definition eid_getType :: "DINT \<Rightarrow> DINT" where
  "eid_getType e = signed_drop_bit 30 e AND 0x0003"

definition eid_getSource :: "DINT \<Rightarrow> DINT" where
  "eid_getSource e = signed_drop_bit 29 e AND 0x0001"

definition eid_getObject :: "DINT \<Rightarrow> DINT" where
  "eid_getObject e = signed_drop_bit 16 e AND 0x03FF"

definition eid_getID :: "DINT \<Rightarrow> DINT" where
  "eid_getID e = e AND 0xFFFF"

section \<open>Types and objects\<close>

definition EMT_SUCCESS :: USINT where "EMT_SUCCESS = 0"

definition EMT_INFO :: USINT where "EMT_INFO = 1"

definition EMT_WARNING :: USINT where "EMT_WARNING = 2"

definition EMT_ERROR :: USINT where "EMT_ERROR = 3"

definition EVENT_OBJ_UNDEF :: UINT where "EVENT_OBJ_UNDEF = 0"

definition EVENT_OBJ_SYSTEM :: UINT where "EVENT_OBJ_SYSTEM = 1"

definition EVENT_OBJ_TCP :: UINT where "EVENT_OBJ_TCP = 2"

definition EVENT_OBJ_LOG :: UINT where "EVENT_OBJ_LOG = 3"

definition EVENT_OBJ_EVENT :: UINT where "EVENT_OBJ_EVENT = 4"

definition EVENT_OBJ_SELECTOR :: UINT where "EVENT_OBJ_SELECTOR = 5"

definition EVENT_OBJ_AI :: UINT where "EVENT_OBJ_AI = 6"

definition EVENT_OBJ_FI :: UINT where "EVENT_OBJ_FI = 7"

definition EVENT_OBJ_DENSSOL :: UINT where "EVENT_OBJ_DENSSOL = 8"

definition EVENT_OBJ_RDCDENS :: UINT where "EVENT_OBJ_RDCDENS = 9"

definition EVENT_OBJ_STREAM :: UINT where "EVENT_OBJ_STREAM = 10"

definition EVENT_OBJ_STATION :: UINT where "EVENT_OBJ_STATION = 11"

definition EVENT_OBJ_TEST :: UINT where "EVENT_OBJ_TEST = 12"

definition EVENT_OBJ_REPORT :: UINT where "EVENT_OBJ_REPORT = 13"

definition EVENT_OBJ_VAR :: UINT where "EVENT_OBJ_VAR = 14"

definition EVENT_OBJ_DI :: UINT where "EVENT_OBJ_DI = 15"

definition EVENT_OBJ_DO :: UINT where "EVENT_OBJ_DO = 16"

definition EVENT_OBJ_AO :: UINT where "EVENT_OBJ_AO = 17"

definition EVENT_OBJ_SAMPLER :: UINT where "EVENT_OBJ_SAMPLER = 18"

definition EVENT_OBJ_PROVE :: UINT where "EVENT_OBJ_PROVE = 19"

definition EVENT_OBJ_MASWTR :: UINT where "EVENT_OBJ_MASWTR = 20"

definition EVENT_OBJ_VOLWTR :: UINT where "EVENT_OBJ_VOLWTR = 21"

definition EVENT_OBJ_CINVISC :: UINT where "EVENT_OBJ_CINVISC = 22"

definition EVENT_OBJ_DYNVISC :: UINT where "EVENT_OBJ_DYNVISC = 23"

definition EVENT_OBJ_HARWARE :: UINT where "EVENT_OBJ_HARWARE = 24"

definition EVENT_OBJ_END :: UINT where "EVENT_OBJ_END = 25"

definition EVENT_OBJ_MAX :: UINT where "EVENT_OBJ_MAX = 63"

definition EID_UNDEF :: UDINT where "EID_UNDEF = 0"

lemmas eid_const_defs =
  EMT_SUCCESS_def
  EMT_INFO_def
  EMT_WARNING_def
  EMT_ERROR_def
  EVENT_OBJ_UNDEF_def
  EVENT_OBJ_SYSTEM_def
  EVENT_OBJ_TCP_def
  EVENT_OBJ_LOG_def
  EVENT_OBJ_EVENT_def
  EVENT_OBJ_SELECTOR_def
  EVENT_OBJ_AI_def
  EVENT_OBJ_FI_def
  EVENT_OBJ_DENSSOL_def
  EVENT_OBJ_RDCDENS_def
  EVENT_OBJ_STREAM_def
  EVENT_OBJ_STATION_def
  EVENT_OBJ_TEST_def
  EVENT_OBJ_REPORT_def
  EVENT_OBJ_VAR_def
  EVENT_OBJ_DI_def
  EVENT_OBJ_DO_def
  EVENT_OBJ_AO_def
  EVENT_OBJ_SAMPLER_def
  EVENT_OBJ_PROVE_def
  EVENT_OBJ_MASWTR_def
  EVENT_OBJ_VOLWTR_def
  EVENT_OBJ_CINVISC_def
  EVENT_OBJ_DYNVISC_def
  EVENT_OBJ_HARWARE_def
  EVENT_OBJ_END_def
  EVENT_OBJ_MAX_def

section \<open>Identifiers\<close>

definition EID_SYSTEM_START_WARM :: UDINT where "EID_SYSTEM_START_WARM = MAKE_EID EMT_INFO EVENT_OBJ_SYSTEM (1 :: UINT)"

definition EID_SYSTEM_START_COLD :: UDINT where "EID_SYSTEM_START_COLD = MAKE_EID EMT_WARNING EVENT_OBJ_SYSTEM (2 :: UINT)"

definition EID_SYSTEM_RUNNING :: UDINT where "EID_SYSTEM_RUNNING = MAKE_EID EMT_INFO EVENT_OBJ_SYSTEM (3 :: UINT)"

definition EID_SYSTEM_HALT :: UDINT where "EID_SYSTEM_HALT = MAKE_EID EMT_ERROR EVENT_OBJ_SYSTEM (4 :: UINT)"

definition EID_SYSTEM_ERRUNIT :: UDINT where "EID_SYSTEM_ERRUNIT = MAKE_EID EMT_ERROR EVENT_OBJ_SYSTEM (10 :: UINT)"

definition EID_SYSTEM_ERROUTPUT :: UDINT where "EID_SYSTEM_ERROUTPUT = MAKE_EID EMT_ERROR EVENT_OBJ_SYSTEM (11 :: UINT)"

definition EID_SYSTEM_ERROUTVAL :: UDINT where "EID_SYSTEM_ERROUTVAL = MAKE_EID EMT_ERROR EVENT_OBJ_SYSTEM (12 :: UINT)"

definition EID_SYSTEM_CFGERROR :: UDINT where "EID_SYSTEM_CFGERROR = MAKE_EID EMT_ERROR EVENT_OBJ_SYSTEM (20 :: UINT)"

definition EID_SYSTEM_FILEIOERROR :: UDINT where "EID_SYSTEM_FILEIOERROR = MAKE_EID EMT_ERROR EVENT_OBJ_SYSTEM (21 :: UINT)"

definition EID_SYSTEM_DUMPERROR :: UDINT where "EID_SYSTEM_DUMPERROR = MAKE_EID EMT_ERROR EVENT_OBJ_SYSTEM (22 :: UINT)"

definition EID_SYSTEM_RESTART_WARM :: UDINT where "EID_SYSTEM_RESTART_WARM = MAKE_EID EMT_WARNING EVENT_OBJ_SYSTEM (30 :: UINT)"

definition EID_SYSTEM_RESTART_COLD :: UDINT where "EID_SYSTEM_RESTART_COLD = MAKE_EID EMT_WARNING EVENT_OBJ_SYSTEM (31 :: UINT)"

definition EID_SYSTEM_RESTART_UNKNOW :: UDINT where "EID_SYSTEM_RESTART_UNKNOW = MAKE_EID EMT_ERROR EVENT_OBJ_SYSTEM (32 :: UINT)"

definition EID_HARDWARE_MODULE_ISNULL :: UDINT where "EID_HARDWARE_MODULE_ISNULL = MAKE_EID EMT_ERROR EVENT_OBJ_HARWARE (1 :: UINT)"

definition EID_HARDWARE_MODULE_FAULT :: UDINT where "EID_HARDWARE_MODULE_FAULT = MAKE_EID EMT_ERROR EVENT_OBJ_HARWARE (2 :: UINT)"

definition EID_SELECTOR_ERROR :: UDINT where "EID_SELECTOR_ERROR = MAKE_EID EMT_ERROR EVENT_OBJ_SELECTOR (1 :: UINT)"

definition EID_SELECTOR_NOCHANGE :: UDINT where "EID_SELECTOR_NOCHANGE = MAKE_EID EMT_ERROR EVENT_OBJ_SELECTOR (2 :: UINT)"

definition EID_SELECTOR_TOFAULT :: UDINT where "EID_SELECTOR_TOFAULT = MAKE_EID EMT_ERROR EVENT_OBJ_SELECTOR (3 :: UINT)"

definition EID_SELECTOR_TONEXT :: UDINT where "EID_SELECTOR_TONEXT = MAKE_EID EMT_INFO EVENT_OBJ_SELECTOR (4 :: UINT)"

definition EID_SELECTOR_NOTHINGNEXT :: UDINT where "EID_SELECTOR_NOTHINGNEXT = MAKE_EID EMT_ERROR EVENT_OBJ_SELECTOR (5 :: UINT)"

definition EID_SELECTOR_CLEARERROR :: UDINT where "EID_SELECTOR_CLEARERROR = MAKE_EID EMT_SUCCESS EVENT_OBJ_SELECTOR (6 :: UINT)"

definition EID_SELECTOR_SELECTED :: UDINT where "EID_SELECTOR_SELECTED = MAKE_EID EMT_INFO EVENT_OBJ_SELECTOR (7 :: UINT)"

definition EID_SELECTOR_MODE :: UDINT where "EID_SELECTOR_MODE = MAKE_EID EMT_INFO EVENT_OBJ_SELECTOR (8 :: UINT)"

definition EID_SELECTOR_NEW_AMIN :: UDINT where "EID_SELECTOR_NEW_AMIN = MAKE_EID EMT_SUCCESS EVENT_OBJ_SELECTOR (100 :: UINT)"

definition EID_SELECTOR_NEW_WMIN :: UDINT where "EID_SELECTOR_NEW_WMIN = MAKE_EID EMT_SUCCESS EVENT_OBJ_SELECTOR (101 :: UINT)"

definition EID_SELECTOR_NEW_WMAX :: UDINT where "EID_SELECTOR_NEW_WMAX = MAKE_EID EMT_SUCCESS EVENT_OBJ_SELECTOR (102 :: UINT)"

definition EID_SELECTOR_NEW_AMAX :: UDINT where "EID_SELECTOR_NEW_AMAX = MAKE_EID EMT_SUCCESS EVENT_OBJ_SELECTOR (103 :: UINT)"

definition EID_SELECTOR_NEW_HYST :: UDINT where "EID_SELECTOR_NEW_HYST = MAKE_EID EMT_SUCCESS EVENT_OBJ_SELECTOR (104 :: UINT)"

definition EID_SELECTOR_NEW_SETUP :: UDINT where "EID_SELECTOR_NEW_SETUP = MAKE_EID EMT_SUCCESS EVENT_OBJ_SELECTOR (105 :: UINT)"

definition EID_SELECTOR_AMIN :: UDINT where "EID_SELECTOR_AMIN = MAKE_EID EMT_ERROR EVENT_OBJ_SELECTOR (110 :: UINT)"

definition EID_SELECTOR_WMIN :: UDINT where "EID_SELECTOR_WMIN = MAKE_EID EMT_WARNING EVENT_OBJ_SELECTOR (111 :: UINT)"

definition EID_SELECTOR_AMAX :: UDINT where "EID_SELECTOR_AMAX = MAKE_EID EMT_ERROR EVENT_OBJ_SELECTOR (112 :: UINT)"

definition EID_SELECTOR_WMAX :: UDINT where "EID_SELECTOR_WMAX = MAKE_EID EMT_WARNING EVENT_OBJ_SELECTOR (113 :: UINT)"

definition EID_SELECTOR_NORMAL :: UDINT where "EID_SELECTOR_NORMAL = MAKE_EID EMT_SUCCESS EVENT_OBJ_SELECTOR (114 :: UINT)"

definition EID_SELECTOR_NAN :: UDINT where "EID_SELECTOR_NAN = MAKE_EID EMT_ERROR EVENT_OBJ_SELECTOR (115 :: UINT)"

definition EID_AI_NEW_MIN :: UDINT where "EID_AI_NEW_MIN = MAKE_EID EMT_SUCCESS EVENT_OBJ_AI (1 :: UINT)"

definition EID_AI_NEW_MAX :: UDINT where "EID_AI_NEW_MAX = MAKE_EID EMT_SUCCESS EVENT_OBJ_AI (2 :: UINT)"

definition EID_AI_NEW_SIMULATE :: UDINT where "EID_AI_NEW_SIMULATE = MAKE_EID EMT_SUCCESS EVENT_OBJ_AI (3 :: UINT)"

definition EID_AI_CH_FAULT :: UDINT where "EID_AI_CH_FAULT = MAKE_EID EMT_ERROR EVENT_OBJ_AI (4 :: UINT)"

definition EID_AI_CH_OK :: UDINT where "EID_AI_CH_OK = MAKE_EID EMT_SUCCESS EVENT_OBJ_AI (5 :: UINT)"

definition EID_AI_SIM_MANUAL :: UDINT where "EID_AI_SIM_MANUAL = MAKE_EID EMT_WARNING EVENT_OBJ_AI (6 :: UINT)"

definition EID_AI_SIM_AUTO :: UDINT where "EID_AI_SIM_AUTO = MAKE_EID EMT_WARNING EVENT_OBJ_AI (7 :: UINT)"

definition EID_AI_SIM_LAST :: UDINT where "EID_AI_SIM_LAST = MAKE_EID EMT_WARNING EVENT_OBJ_AI (8 :: UINT)"

definition EID_AI_SIM_OFF :: UDINT where "EID_AI_SIM_OFF = MAKE_EID EMT_WARNING EVENT_OBJ_AI (9 :: UINT)"

definition EID_AI_MIN :: UDINT where "EID_AI_MIN = MAKE_EID EMT_ERROR EVENT_OBJ_AI (10 :: UINT)"

definition EID_AI_MAX :: UDINT where "EID_AI_MAX = MAKE_EID EMT_ERROR EVENT_OBJ_AI (11 :: UINT)"

definition EID_AI_MODULE :: UDINT where "EID_AI_MODULE = MAKE_EID EMT_ERROR EVENT_OBJ_AI (12 :: UINT)"

definition EID_AI_NEW_AMIN :: UDINT where "EID_AI_NEW_AMIN = MAKE_EID EMT_SUCCESS EVENT_OBJ_AI (100 :: UINT)"

definition EID_AI_NEW_WMIN :: UDINT where "EID_AI_NEW_WMIN = MAKE_EID EMT_SUCCESS EVENT_OBJ_AI (101 :: UINT)"

definition EID_AI_NEW_WMAX :: UDINT where "EID_AI_NEW_WMAX = MAKE_EID EMT_SUCCESS EVENT_OBJ_AI (102 :: UINT)"

definition EID_AI_NEW_AMAX :: UDINT where "EID_AI_NEW_AMAX = MAKE_EID EMT_SUCCESS EVENT_OBJ_AI (103 :: UINT)"

definition EID_AI_NEW_HYST :: UDINT where "EID_AI_NEW_HYST = MAKE_EID EMT_SUCCESS EVENT_OBJ_AI (104 :: UINT)"

definition EID_AI_NEW_SETUP :: UDINT where "EID_AI_NEW_SETUP = MAKE_EID EMT_SUCCESS EVENT_OBJ_AI (105 :: UINT)"

definition EID_AI_AMIN :: UDINT where "EID_AI_AMIN = MAKE_EID EMT_ERROR EVENT_OBJ_AI (110 :: UINT)"

definition EID_AI_WMIN :: UDINT where "EID_AI_WMIN = MAKE_EID EMT_WARNING EVENT_OBJ_AI (111 :: UINT)"

definition EID_AI_AMAX :: UDINT where "EID_AI_AMAX = MAKE_EID EMT_ERROR EVENT_OBJ_AI (112 :: UINT)"

definition EID_AI_WMAX :: UDINT where "EID_AI_WMAX = MAKE_EID EMT_WARNING EVENT_OBJ_AI (113 :: UINT)"

definition EID_AI_NORMAL :: UDINT where "EID_AI_NORMAL = MAKE_EID EMT_SUCCESS EVENT_OBJ_AI (114 :: UINT)"

definition EID_AI_NAN :: UDINT where "EID_AI_NAN = MAKE_EID EMT_ERROR EVENT_OBJ_AI (115 :: UINT)"

definition EID_COUNTER_CH_FAULT :: UDINT where "EID_COUNTER_CH_FAULT = MAKE_EID EMT_ERROR EVENT_OBJ_FI (1 :: UINT)"

definition EID_COUNTER_CH_OK :: UDINT where "EID_COUNTER_CH_OK = MAKE_EID EMT_SUCCESS EVENT_OBJ_FI (2 :: UINT)"

definition EID_COUNTER_MODULE :: UDINT where "EID_COUNTER_MODULE = MAKE_EID EMT_ERROR EVENT_OBJ_FI (3 :: UINT)"

definition EID_COUNTER_NEW_AMIN :: UDINT where "EID_COUNTER_NEW_AMIN = MAKE_EID EMT_SUCCESS EVENT_OBJ_FI (100 :: UINT)"

definition EID_COUNTER_NEW_WMIN :: UDINT where "EID_COUNTER_NEW_WMIN = MAKE_EID EMT_SUCCESS EVENT_OBJ_FI (101 :: UINT)"

definition EID_COUNTER_NEW_WMAX :: UDINT where "EID_COUNTER_NEW_WMAX = MAKE_EID EMT_SUCCESS EVENT_OBJ_FI (102 :: UINT)"

definition EID_COUNTER_NEW_AMAX :: UDINT where "EID_COUNTER_NEW_AMAX = MAKE_EID EMT_SUCCESS EVENT_OBJ_FI (103 :: UINT)"

definition EID_COUNTER_NEW_HYST :: UDINT where "EID_COUNTER_NEW_HYST = MAKE_EID EMT_SUCCESS EVENT_OBJ_FI (104 :: UINT)"

definition EID_COUNTER_NEW_SETUP :: UDINT where "EID_COUNTER_NEW_SETUP = MAKE_EID EMT_SUCCESS EVENT_OBJ_FI (105 :: UINT)"

definition EID_COUNTER_AMIN :: UDINT where "EID_COUNTER_AMIN = MAKE_EID EMT_ERROR EVENT_OBJ_FI (110 :: UINT)"

definition EID_COUNTER_WMIN :: UDINT where "EID_COUNTER_WMIN = MAKE_EID EMT_WARNING EVENT_OBJ_FI (111 :: UINT)"

definition EID_COUNTER_AMAX :: UDINT where "EID_COUNTER_AMAX = MAKE_EID EMT_ERROR EVENT_OBJ_FI (112 :: UINT)"

definition EID_COUNTER_WMAX :: UDINT where "EID_COUNTER_WMAX = MAKE_EID EMT_WARNING EVENT_OBJ_FI (113 :: UINT)"

definition EID_COUNTER_NORMAL :: UDINT where "EID_COUNTER_NORMAL = MAKE_EID EMT_SUCCESS EVENT_OBJ_FI (114 :: UINT)"

definition EID_COUNTER_NAN :: UDINT where "EID_COUNTER_NAN = MAKE_EID EMT_ERROR EVENT_OBJ_FI (115 :: UINT)"

definition EID_DENSSOL_CALIBR :: UDINT where "EID_DENSSOL_CALIBR = MAKE_EID EMT_WARNING EVENT_OBJ_DENSSOL (1 :: UINT)"

definition EID_DENSSOL_K0 :: UDINT where "EID_DENSSOL_K0 = MAKE_EID EMT_WARNING EVENT_OBJ_DENSSOL (2 :: UINT)"

definition EID_DENSSOL_K1 :: UDINT where "EID_DENSSOL_K1 = MAKE_EID EMT_WARNING EVENT_OBJ_DENSSOL (3 :: UINT)"

definition EID_DENSSOL_K2 :: UDINT where "EID_DENSSOL_K2 = MAKE_EID EMT_WARNING EVENT_OBJ_DENSSOL (4 :: UINT)"

definition EID_DENSSOL_K18 :: UDINT where "EID_DENSSOL_K18 = MAKE_EID EMT_WARNING EVENT_OBJ_DENSSOL (5 :: UINT)"

definition EID_DENSSOL_K19 :: UDINT where "EID_DENSSOL_K19 = MAKE_EID EMT_WARNING EVENT_OBJ_DENSSOL (6 :: UINT)"

definition EID_DENSSOL_K20A :: UDINT where "EID_DENSSOL_K20A = MAKE_EID EMT_WARNING EVENT_OBJ_DENSSOL (7 :: UINT)"

definition EID_DENSSOL_K20B :: UDINT where "EID_DENSSOL_K20B = MAKE_EID EMT_WARNING EVENT_OBJ_DENSSOL (8 :: UINT)"

definition EID_DENSSOL_K21A :: UDINT where "EID_DENSSOL_K21A = MAKE_EID EMT_WARNING EVENT_OBJ_DENSSOL (9 :: UINT)"

definition EID_DENSSOL_K21B :: UDINT where "EID_DENSSOL_K21B = MAKE_EID EMT_WARNING EVENT_OBJ_DENSSOL (10 :: UINT)"

definition EID_DENSSOL_ACCEPT :: UDINT where "EID_DENSSOL_ACCEPT = MAKE_EID EMT_WARNING EVENT_OBJ_DENSSOL (11 :: UINT)"

definition EID_DENSSOL_FAULT_INPUTS :: UDINT where "EID_DENSSOL_FAULT_INPUTS = MAKE_EID EMT_ERROR EVENT_OBJ_DENSSOL (12 :: UINT)"

definition EID_DENSSOL_GOOD_INPUTS :: UDINT where "EID_DENSSOL_GOOD_INPUTS = MAKE_EID EMT_SUCCESS EVENT_OBJ_DENSSOL (13 :: UINT)"

definition EID_DENSSOL_FAULT_PERIOD :: UDINT where "EID_DENSSOL_FAULT_PERIOD = MAKE_EID EMT_ERROR EVENT_OBJ_DENSSOL (14 :: UINT)"

definition EID_DENSSOL_GOOD_PERIOD :: UDINT where "EID_DENSSOL_GOOD_PERIOD = MAKE_EID EMT_SUCCESS EVENT_OBJ_DENSSOL (15 :: UINT)"

definition EID_DENSSOL_FAULT_VALUE :: UDINT where "EID_DENSSOL_FAULT_VALUE = MAKE_EID EMT_ERROR EVENT_OBJ_DENSSOL (16 :: UINT)"

definition EID_DENSSOL_GOOD_VALUE :: UDINT where "EID_DENSSOL_GOOD_VALUE = MAKE_EID EMT_SUCCESS EVENT_OBJ_DENSSOL (17 :: UINT)"

definition EID_DENSSOL_FAULT_ITERATION :: UDINT where "EID_DENSSOL_FAULT_ITERATION = MAKE_EID EMT_ERROR EVENT_OBJ_DENSSOL (18 :: UINT)"

definition EID_DENSSOL_GOOD_ITERATION :: UDINT where "EID_DENSSOL_GOOD_ITERATION = MAKE_EID EMT_SUCCESS EVENT_OBJ_DENSSOL (19 :: UINT)"

definition EID_DENSSOL_FAULT_STATION :: UDINT where "EID_DENSSOL_FAULT_STATION = MAKE_EID EMT_SUCCESS EVENT_OBJ_DENSSOL (20 :: UINT)"

definition EID_DENSSOL_NEW_AMIN :: UDINT where "EID_DENSSOL_NEW_AMIN = MAKE_EID EMT_SUCCESS EVENT_OBJ_DENSSOL (100 :: UINT)"

definition EID_DENSSOL_NEW_WMIN :: UDINT where "EID_DENSSOL_NEW_WMIN = MAKE_EID EMT_SUCCESS EVENT_OBJ_DENSSOL (101 :: UINT)"

definition EID_DENSSOL_NEW_WMAX :: UDINT where "EID_DENSSOL_NEW_WMAX = MAKE_EID EMT_SUCCESS EVENT_OBJ_DENSSOL (102 :: UINT)"

definition EID_DENSSOL_NEW_AMAX :: UDINT where "EID_DENSSOL_NEW_AMAX = MAKE_EID EMT_SUCCESS EVENT_OBJ_DENSSOL (103 :: UINT)"

definition EID_DENSSOL_NEW_HYST :: UDINT where "EID_DENSSOL_NEW_HYST = MAKE_EID EMT_SUCCESS EVENT_OBJ_DENSSOL (104 :: UINT)"

definition EID_DENSSOL_NEW_SETUP :: UDINT where "EID_DENSSOL_NEW_SETUP = MAKE_EID EMT_SUCCESS EVENT_OBJ_DENSSOL (105 :: UINT)"

definition EID_DENSSOL_AMIN :: UDINT where "EID_DENSSOL_AMIN = MAKE_EID EMT_ERROR EVENT_OBJ_DENSSOL (110 :: UINT)"

definition EID_DENSSOL_WMIN :: UDINT where "EID_DENSSOL_WMIN = MAKE_EID EMT_WARNING EVENT_OBJ_DENSSOL (111 :: UINT)"

definition EID_DENSSOL_AMAX :: UDINT where "EID_DENSSOL_AMAX = MAKE_EID EMT_ERROR EVENT_OBJ_DENSSOL (112 :: UINT)"

definition EID_DENSSOL_WMAX :: UDINT where "EID_DENSSOL_WMAX = MAKE_EID EMT_WARNING EVENT_OBJ_DENSSOL (113 :: UINT)"

definition EID_DENSSOL_NORMAL :: UDINT where "EID_DENSSOL_NORMAL = MAKE_EID EMT_SUCCESS EVENT_OBJ_DENSSOL (114 :: UINT)"

definition EID_DENSSOL_NAN :: UDINT where "EID_DENSSOL_NAN = MAKE_EID EMT_ERROR EVENT_OBJ_DENSSOL (115 :: UINT)"

definition EID_RDCDDENS_FAULT_INPUTS :: UDINT where "EID_RDCDDENS_FAULT_INPUTS = MAKE_EID EMT_ERROR EVENT_OBJ_RDCDENS (1 :: UINT)"

definition EID_RDCDDENS_GOOD_INPUTS :: UDINT where "EID_RDCDDENS_GOOD_INPUTS = MAKE_EID EMT_SUCCESS EVENT_OBJ_RDCDENS (2 :: UINT)"

definition EID_RDCDDENS_FAULT_DENSITY :: UDINT where "EID_RDCDDENS_FAULT_DENSITY = MAKE_EID EMT_ERROR EVENT_OBJ_RDCDENS (3 :: UINT)"

definition EID_RDCDDENS_GOOD_DENSITY :: UDINT where "EID_RDCDDENS_GOOD_DENSITY = MAKE_EID EMT_SUCCESS EVENT_OBJ_RDCDENS (4 :: UINT)"

definition EID_RDCDDENS_NEW_AMIN :: UDINT where "EID_RDCDDENS_NEW_AMIN = MAKE_EID EMT_SUCCESS EVENT_OBJ_RDCDENS (100 :: UINT)"

definition EID_RDCDDENS_NEW_WMIN :: UDINT where "EID_RDCDDENS_NEW_WMIN = MAKE_EID EMT_SUCCESS EVENT_OBJ_RDCDENS (101 :: UINT)"

definition EID_RDCDDENS_NEW_WMAX :: UDINT where "EID_RDCDDENS_NEW_WMAX = MAKE_EID EMT_SUCCESS EVENT_OBJ_RDCDENS (102 :: UINT)"

definition EID_RDCDDENS_NEW_AMAX :: UDINT where "EID_RDCDDENS_NEW_AMAX = MAKE_EID EMT_SUCCESS EVENT_OBJ_RDCDENS (103 :: UINT)"

definition EID_RDCDDENS_NEW_HYST :: UDINT where "EID_RDCDDENS_NEW_HYST = MAKE_EID EMT_SUCCESS EVENT_OBJ_RDCDENS (104 :: UINT)"

definition EID_RDCDDENS_NEW_SETUP :: UDINT where "EID_RDCDDENS_NEW_SETUP = MAKE_EID EMT_SUCCESS EVENT_OBJ_RDCDENS (105 :: UINT)"

definition EID_RDCDDENS_AMIN :: UDINT where "EID_RDCDDENS_AMIN = MAKE_EID EMT_ERROR EVENT_OBJ_RDCDENS (110 :: UINT)"

definition EID_RDCDDENS_WMIN :: UDINT where "EID_RDCDDENS_WMIN = MAKE_EID EMT_WARNING EVENT_OBJ_RDCDENS (111 :: UINT)"

definition EID_RDCDDENS_AMAX :: UDINT where "EID_RDCDDENS_AMAX = MAKE_EID EMT_ERROR EVENT_OBJ_RDCDENS (112 :: UINT)"

definition EID_RDCDDENS_WMAX :: UDINT where "EID_RDCDDENS_WMAX = MAKE_EID EMT_WARNING EVENT_OBJ_RDCDENS (113 :: UINT)"

definition EID_RDCDDENS_NORMAL :: UDINT where "EID_RDCDDENS_NORMAL = MAKE_EID EMT_SUCCESS EVENT_OBJ_RDCDENS (114 :: UINT)"

definition EID_RDCDDENS_NAN :: UDINT where "EID_RDCDDENS_NAN = MAKE_EID EMT_ERROR EVENT_OBJ_RDCDENS (115 :: UINT)"

definition EID_STREAM_FAULT_INPUTS :: UDINT where "EID_STREAM_FAULT_INPUTS = MAKE_EID EMT_ERROR EVENT_OBJ_STREAM (1 :: UINT)"

definition EID_STREAM_GOOD_INPUTS :: UDINT where "EID_STREAM_GOOD_INPUTS = MAKE_EID EMT_SUCCESS EVENT_OBJ_STREAM (2 :: UINT)"

definition EID_STREAM_ACCOUNTING_ON :: UDINT where "EID_STREAM_ACCOUNTING_ON = MAKE_EID EMT_WARNING EVENT_OBJ_STREAM (3 :: UINT)"

definition EID_STREAM_ACCOUNTING_OFF :: UDINT where "EID_STREAM_ACCOUNTING_OFF = MAKE_EID EMT_WARNING EVENT_OBJ_STREAM (4 :: UINT)"

definition EID_STREAM_KEYPADKF_ON :: UDINT where "EID_STREAM_KEYPADKF_ON = MAKE_EID EMT_WARNING EVENT_OBJ_STREAM (5 :: UINT)"

definition EID_STREAM_KEYPADKF_OFF :: UDINT where "EID_STREAM_KEYPADKF_OFF = MAKE_EID EMT_WARNING EVENT_OBJ_STREAM (6 :: UINT)"

definition EID_STREAM_ACCEPT :: UDINT where "EID_STREAM_ACCEPT = MAKE_EID EMT_WARNING EVENT_OBJ_STREAM (7 :: UINT)"

definition EID_STREAM_KEYPADKF :: UDINT where "EID_STREAM_KEYPADKF = MAKE_EID EMT_WARNING EVENT_OBJ_STREAM (8 :: UINT)"

definition EID_STREAM_KEYPADMF :: UDINT where "EID_STREAM_KEYPADMF = MAKE_EID EMT_WARNING EVENT_OBJ_STREAM (9 :: UINT)"

definition EID_STREAM_POINT_HZ :: UDINT where "EID_STREAM_POINT_HZ = MAKE_EID EMT_WARNING EVENT_OBJ_STREAM (10 :: UINT)"

definition EID_STREAM_POINT_KF :: UDINT where "EID_STREAM_POINT_KF = MAKE_EID EMT_WARNING EVENT_OBJ_STREAM (11 :: UINT)"

definition EID_STREAM_TOTAL_MASS :: UDINT where "EID_STREAM_TOTAL_MASS = MAKE_EID EMT_WARNING EVENT_OBJ_STREAM (12 :: UINT)"

definition EID_STREAM_TOTAL_VOLUME :: UDINT where "EID_STREAM_TOTAL_VOLUME = MAKE_EID EMT_WARNING EVENT_OBJ_STREAM (13 :: UINT)"

definition EID_STREAM_TOTAL_VOLUME15 :: UDINT where "EID_STREAM_TOTAL_VOLUME15 = MAKE_EID EMT_WARNING EVENT_OBJ_STREAM (14 :: UINT)"

definition EID_STREAM_TOTAL_VOLUME20 :: UDINT where "EID_STREAM_TOTAL_VOLUME20 = MAKE_EID EMT_WARNING EVENT_OBJ_STREAM (15 :: UINT)"

definition EID_STREAM_RESET_TOTALS :: UDINT where "EID_STREAM_RESET_TOTALS = MAKE_EID EMT_WARNING EVENT_OBJ_STREAM (16 :: UINT)"

definition EID_STREAM_NEW_AMIN :: UDINT where "EID_STREAM_NEW_AMIN = MAKE_EID EMT_SUCCESS EVENT_OBJ_STREAM (100 :: UINT)"

definition EID_STREAM_NEW_WMIN :: UDINT where "EID_STREAM_NEW_WMIN = MAKE_EID EMT_SUCCESS EVENT_OBJ_STREAM (101 :: UINT)"

definition EID_STREAM_NEW_WMAX :: UDINT where "EID_STREAM_NEW_WMAX = MAKE_EID EMT_SUCCESS EVENT_OBJ_STREAM (102 :: UINT)"

definition EID_STREAM_NEW_AMAX :: UDINT where "EID_STREAM_NEW_AMAX = MAKE_EID EMT_SUCCESS EVENT_OBJ_STREAM (103 :: UINT)"

definition EID_STREAM_NEW_HYST :: UDINT where "EID_STREAM_NEW_HYST = MAKE_EID EMT_SUCCESS EVENT_OBJ_STREAM (104 :: UINT)"

definition EID_STREAM_NEW_SETUP :: UDINT where "EID_STREAM_NEW_SETUP = MAKE_EID EMT_SUCCESS EVENT_OBJ_STREAM (105 :: UINT)"

definition EID_STREAM_AMIN :: UDINT where "EID_STREAM_AMIN = MAKE_EID EMT_ERROR EVENT_OBJ_STREAM (110 :: UINT)"

definition EID_STREAM_WMIN :: UDINT where "EID_STREAM_WMIN = MAKE_EID EMT_WARNING EVENT_OBJ_STREAM (111 :: UINT)"

definition EID_STREAM_AMAX :: UDINT where "EID_STREAM_AMAX = MAKE_EID EMT_ERROR EVENT_OBJ_STREAM (112 :: UINT)"

definition EID_STREAM_WMAX :: UDINT where "EID_STREAM_WMAX = MAKE_EID EMT_WARNING EVENT_OBJ_STREAM (113 :: UINT)"

definition EID_STREAM_NORMAL :: UDINT where "EID_STREAM_NORMAL = MAKE_EID EMT_SUCCESS EVENT_OBJ_STREAM (114 :: UINT)"

definition EID_STREAM_NAN :: UDINT where "EID_STREAM_NAN = MAKE_EID EMT_ERROR EVENT_OBJ_STREAM (115 :: UINT)"

definition EID_STATION_TOTAL_MASS :: UDINT where "EID_STATION_TOTAL_MASS = MAKE_EID EMT_WARNING EVENT_OBJ_STATION (1 :: UINT)"

definition EID_STATION_TOTAL_VOLUME :: UDINT where "EID_STATION_TOTAL_VOLUME = MAKE_EID EMT_WARNING EVENT_OBJ_STATION (2 :: UINT)"

definition EID_STATION_TOTAL_VOLUME15 :: UDINT where "EID_STATION_TOTAL_VOLUME15 = MAKE_EID EMT_WARNING EVENT_OBJ_STATION (3 :: UINT)"

definition EID_STATION_TOTAL_VOLUME20 :: UDINT where "EID_STATION_TOTAL_VOLUME20 = MAKE_EID EMT_WARNING EVENT_OBJ_STATION (4 :: UINT)"

definition EID_STATION_RESET_TOTALS :: UDINT where "EID_STATION_RESET_TOTALS = MAKE_EID EMT_WARNING EVENT_OBJ_STATION (5 :: UINT)"

definition EID_STATION_NEW_AMIN :: UDINT where "EID_STATION_NEW_AMIN = MAKE_EID EMT_SUCCESS EVENT_OBJ_STATION (100 :: UINT)"

definition EID_STATION_NEW_WMIN :: UDINT where "EID_STATION_NEW_WMIN = MAKE_EID EMT_SUCCESS EVENT_OBJ_STATION (101 :: UINT)"

definition EID_STATION_NEW_WMAX :: UDINT where "EID_STATION_NEW_WMAX = MAKE_EID EMT_SUCCESS EVENT_OBJ_STATION (102 :: UINT)"

definition EID_STATION_NEW_AMAX :: UDINT where "EID_STATION_NEW_AMAX = MAKE_EID EMT_SUCCESS EVENT_OBJ_STATION (103 :: UINT)"

definition EID_STATION_NEW_HYST :: UDINT where "EID_STATION_NEW_HYST = MAKE_EID EMT_SUCCESS EVENT_OBJ_STATION (104 :: UINT)"

definition EID_STATION_NEW_SETUP :: UDINT where "EID_STATION_NEW_SETUP = MAKE_EID EMT_SUCCESS EVENT_OBJ_STATION (105 :: UINT)"

definition EID_STATION_AMIN :: UDINT where "EID_STATION_AMIN = MAKE_EID EMT_ERROR EVENT_OBJ_STATION (110 :: UINT)"

definition EID_STATION_WMIN :: UDINT where "EID_STATION_WMIN = MAKE_EID EMT_WARNING EVENT_OBJ_STATION (111 :: UINT)"

definition EID_STATION_AMAX :: UDINT where "EID_STATION_AMAX = MAKE_EID EMT_ERROR EVENT_OBJ_STATION (112 :: UINT)"

definition EID_STATION_WMAX :: UDINT where "EID_STATION_WMAX = MAKE_EID EMT_WARNING EVENT_OBJ_STATION (113 :: UINT)"

definition EID_STATION_NORMAL :: UDINT where "EID_STATION_NORMAL = MAKE_EID EMT_SUCCESS EVENT_OBJ_STATION (114 :: UINT)"

definition EID_STATION_NAN :: UDINT where "EID_STATION_NAN = MAKE_EID EMT_ERROR EVENT_OBJ_STATION (115 :: UINT)"

definition EID_TEST_SUCCESS :: UDINT where "EID_TEST_SUCCESS = MAKE_EID EMT_SUCCESS EVENT_OBJ_TEST (1 :: UINT)"

definition EID_TEST_INFO :: UDINT where "EID_TEST_INFO = MAKE_EID EMT_INFO EVENT_OBJ_TEST (2 :: UINT)"

definition EID_TEST_WARNING :: UDINT where "EID_TEST_WARNING = MAKE_EID EMT_WARNING EVENT_OBJ_TEST (3 :: UINT)"

definition EID_TEST_ERROR :: UDINT where "EID_TEST_ERROR = MAKE_EID EMT_ERROR EVENT_OBJ_TEST (4 :: UINT)"

definition EID_REPORT_GENERATED :: UDINT where "EID_REPORT_GENERATED = MAKE_EID EMT_SUCCESS EVENT_OBJ_REPORT (1 :: UINT)"

definition EID_REPORT_CANTSAVE :: UDINT where "EID_REPORT_CANTSAVE = MAKE_EID EMT_ERROR EVENT_OBJ_REPORT (2 :: UINT)"

definition EID_VAR_NEW_AMIN :: UDINT where "EID_VAR_NEW_AMIN = MAKE_EID EMT_SUCCESS EVENT_OBJ_VAR (100 :: UINT)"

definition EID_VAR_NEW_WMIN :: UDINT where "EID_VAR_NEW_WMIN = MAKE_EID EMT_SUCCESS EVENT_OBJ_VAR (101 :: UINT)"

definition EID_VAR_NEW_WMAX :: UDINT where "EID_VAR_NEW_WMAX = MAKE_EID EMT_SUCCESS EVENT_OBJ_VAR (102 :: UINT)"

definition EID_VAR_NEW_AMAX :: UDINT where "EID_VAR_NEW_AMAX = MAKE_EID EMT_SUCCESS EVENT_OBJ_VAR (103 :: UINT)"

definition EID_VAR_NEW_HYST :: UDINT where "EID_VAR_NEW_HYST = MAKE_EID EMT_SUCCESS EVENT_OBJ_VAR (104 :: UINT)"

definition EID_VAR_NEW_SETUP :: UDINT where "EID_VAR_NEW_SETUP = MAKE_EID EMT_SUCCESS EVENT_OBJ_VAR (105 :: UINT)"

definition EID_VAR_AMIN :: UDINT where "EID_VAR_AMIN = MAKE_EID EMT_ERROR EVENT_OBJ_VAR (110 :: UINT)"

definition EID_VAR_WMIN :: UDINT where "EID_VAR_WMIN = MAKE_EID EMT_WARNING EVENT_OBJ_VAR (111 :: UINT)"

definition EID_VAR_AMAX :: UDINT where "EID_VAR_AMAX = MAKE_EID EMT_ERROR EVENT_OBJ_VAR (112 :: UINT)"

definition EID_VAR_WMAX :: UDINT where "EID_VAR_WMAX = MAKE_EID EMT_WARNING EVENT_OBJ_VAR (113 :: UINT)"

definition EID_VAR_NORMAL :: UDINT where "EID_VAR_NORMAL = MAKE_EID EMT_SUCCESS EVENT_OBJ_VAR (114 :: UINT)"

definition EID_VAR_NAN :: UDINT where "EID_VAR_NAN = MAKE_EID EMT_ERROR EVENT_OBJ_VAR (115 :: UINT)"

definition EID_DI_SUCCESS_ON :: UDINT where "EID_DI_SUCCESS_ON = MAKE_EID EMT_SUCCESS EVENT_OBJ_DI (1 :: UINT)"

definition EID_DI_SUCCESS_OFF :: UDINT where "EID_DI_SUCCESS_OFF = MAKE_EID EMT_SUCCESS EVENT_OBJ_DI (2 :: UINT)"

definition EID_DI_WARNING_ON :: UDINT where "EID_DI_WARNING_ON = MAKE_EID EMT_WARNING EVENT_OBJ_DI (3 :: UINT)"

definition EID_DI_WARNING_OFF :: UDINT where "EID_DI_WARNING_OFF = MAKE_EID EMT_WARNING EVENT_OBJ_DI (4 :: UINT)"

definition EID_DI_ALARM_ON :: UDINT where "EID_DI_ALARM_ON = MAKE_EID EMT_ERROR EVENT_OBJ_DI (5 :: UINT)"

definition EID_DI_ALARM_OFF :: UDINT where "EID_DI_ALARM_OFF = MAKE_EID EMT_ERROR EVENT_OBJ_DI (6 :: UINT)"

definition EID_DI_NEW_SIMULATE :: UDINT where "EID_DI_NEW_SIMULATE = MAKE_EID EMT_SUCCESS EVENT_OBJ_DI (10 :: UINT)"

definition EID_DI_CH_FAULT :: UDINT where "EID_DI_CH_FAULT = MAKE_EID EMT_ERROR EVENT_OBJ_DI (11 :: UINT)"

definition EID_DI_CH_OK :: UDINT where "EID_DI_CH_OK = MAKE_EID EMT_SUCCESS EVENT_OBJ_DI (12 :: UINT)"

definition EID_DI_KEYPAD_ON :: UDINT where "EID_DI_KEYPAD_ON = MAKE_EID EMT_WARNING EVENT_OBJ_DI (13 :: UINT)"

definition EID_DI_KEYPAD_OFF :: UDINT where "EID_DI_KEYPAD_OFF = MAKE_EID EMT_WARNING EVENT_OBJ_DI (14 :: UINT)"

definition EID_DI_MODULE :: UDINT where "EID_DI_MODULE = MAKE_EID EMT_ERROR EVENT_OBJ_DI (15 :: UINT)"

definition EID_DI_NEW_SETUP :: UDINT where "EID_DI_NEW_SETUP = MAKE_EID EMT_SUCCESS EVENT_OBJ_DI (16 :: UINT)"

definition EID_DO_SUCCESS_ON :: UDINT where "EID_DO_SUCCESS_ON = MAKE_EID EMT_SUCCESS EVENT_OBJ_DO (1 :: UINT)"

definition EID_DO_SUCCESS_OFF :: UDINT where "EID_DO_SUCCESS_OFF = MAKE_EID EMT_SUCCESS EVENT_OBJ_DO (2 :: UINT)"

definition EID_DO_WARNING_ON :: UDINT where "EID_DO_WARNING_ON = MAKE_EID EMT_WARNING EVENT_OBJ_DO (3 :: UINT)"

definition EID_DO_WARNING_OFF :: UDINT where "EID_DO_WARNING_OFF = MAKE_EID EMT_WARNING EVENT_OBJ_DO (4 :: UINT)"

definition EID_DO_ALARM_ON :: UDINT where "EID_DO_ALARM_ON = MAKE_EID EMT_ERROR EVENT_OBJ_DO (5 :: UINT)"

definition EID_DO_ALARM_OFF :: UDINT where "EID_DO_ALARM_OFF = MAKE_EID EMT_ERROR EVENT_OBJ_DO (6 :: UINT)"

definition EID_DO_CH_FAULT :: UDINT where "EID_DO_CH_FAULT = MAKE_EID EMT_ERROR EVENT_OBJ_DO (10 :: UINT)"

definition EID_DO_CH_OK :: UDINT where "EID_DO_CH_OK = MAKE_EID EMT_SUCCESS EVENT_OBJ_DO (11 :: UINT)"

definition EID_DO_KEYPAD_ON :: UDINT where "EID_DO_KEYPAD_ON = MAKE_EID EMT_WARNING EVENT_OBJ_DO (12 :: UINT)"

definition EID_DO_KEYPAD_OFF :: UDINT where "EID_DO_KEYPAD_OFF = MAKE_EID EMT_WARNING EVENT_OBJ_DO (13 :: UINT)"

definition EID_DO_MODULE :: UDINT where "EID_DO_MODULE = MAKE_EID EMT_ERROR EVENT_OBJ_DO (14 :: UINT)"

definition EID_DO_NEW_SETUP :: UDINT where "EID_DO_NEW_SETUP = MAKE_EID EMT_SUCCESS EVENT_OBJ_DO (15 :: UINT)"

definition EID_AO_NEW_MIN :: UDINT where "EID_AO_NEW_MIN = MAKE_EID EMT_SUCCESS EVENT_OBJ_AO (1 :: UINT)"

definition EID_AO_NEW_MAX :: UDINT where "EID_AO_NEW_MAX = MAKE_EID EMT_SUCCESS EVENT_OBJ_AO (2 :: UINT)"

definition EID_AO_SIM_ON :: UDINT where "EID_AO_SIM_ON = MAKE_EID EMT_WARNING EVENT_OBJ_AO (3 :: UINT)"

definition EID_AO_SIM_OFF :: UDINT where "EID_AO_SIM_OFF = MAKE_EID EMT_WARNING EVENT_OBJ_AO (4 :: UINT)"

definition EID_AO_MODULE :: UDINT where "EID_AO_MODULE = MAKE_EID EMT_ERROR EVENT_OBJ_AO (5 :: UINT)"

definition EID_AO_NEW_AMIN :: UDINT where "EID_AO_NEW_AMIN = MAKE_EID EMT_SUCCESS EVENT_OBJ_AO (100 :: UINT)"

definition EID_AO_NEW_WMIN :: UDINT where "EID_AO_NEW_WMIN = MAKE_EID EMT_SUCCESS EVENT_OBJ_AO (101 :: UINT)"

definition EID_AO_NEW_WMAX :: UDINT where "EID_AO_NEW_WMAX = MAKE_EID EMT_SUCCESS EVENT_OBJ_AO (102 :: UINT)"

definition EID_AO_NEW_AMAX :: UDINT where "EID_AO_NEW_AMAX = MAKE_EID EMT_SUCCESS EVENT_OBJ_AO (103 :: UINT)"

definition EID_AO_NEW_HYST :: UDINT where "EID_AO_NEW_HYST = MAKE_EID EMT_SUCCESS EVENT_OBJ_AO (104 :: UINT)"

definition EID_AO_NEW_SETUP :: UDINT where "EID_AO_NEW_SETUP = MAKE_EID EMT_SUCCESS EVENT_OBJ_AO (105 :: UINT)"

definition EID_AO_AMIN :: UDINT where "EID_AO_AMIN = MAKE_EID EMT_ERROR EVENT_OBJ_AO (110 :: UINT)"

definition EID_AO_WMIN :: UDINT where "EID_AO_WMIN = MAKE_EID EMT_WARNING EVENT_OBJ_AO (111 :: UINT)"

definition EID_AO_AMAX :: UDINT where "EID_AO_AMAX = MAKE_EID EMT_ERROR EVENT_OBJ_AO (112 :: UINT)"

definition EID_AO_WMAX :: UDINT where "EID_AO_WMAX = MAKE_EID EMT_WARNING EVENT_OBJ_AO (113 :: UINT)"

definition EID_AO_NORMAL :: UDINT where "EID_AO_NORMAL = MAKE_EID EMT_SUCCESS EVENT_OBJ_AO (114 :: UINT)"

definition EID_AO_NAN :: UDINT where "EID_AO_NAN = MAKE_EID EMT_ERROR EVENT_OBJ_AO (115 :: UINT)"

definition EID_SAMPLER_START_PERIOD :: UDINT where "EID_SAMPLER_START_PERIOD = MAKE_EID EMT_SUCCESS EVENT_OBJ_SAMPLER (1 :: UINT)"

definition EID_SAMPLER_START_VOLUME :: UDINT where "EID_SAMPLER_START_VOLUME = MAKE_EID EMT_SUCCESS EVENT_OBJ_SAMPLER (2 :: UINT)"

definition EID_SAMPLER_START_MASS :: UDINT where "EID_SAMPLER_START_MASS = MAKE_EID EMT_SUCCESS EVENT_OBJ_SAMPLER (3 :: UINT)"

definition EID_SAMPLER_START_TEST :: UDINT where "EID_SAMPLER_START_TEST = MAKE_EID EMT_SUCCESS EVENT_OBJ_SAMPLER (4 :: UINT)"

definition EID_SAMPLER_STOP :: UDINT where "EID_SAMPLER_STOP = MAKE_EID EMT_SUCCESS EVENT_OBJ_SAMPLER (5 :: UINT)"

definition EID_SAMPLER_DONT_STOP :: UDINT where "EID_SAMPLER_DONT_STOP = MAKE_EID EMT_ERROR EVENT_OBJ_SAMPLER (6 :: UINT)"

definition EID_SAMPLER_FINISH :: UDINT where "EID_SAMPLER_FINISH = MAKE_EID EMT_WARNING EVENT_OBJ_SAMPLER (7 :: UINT)"

definition EID_SAMPLER_CONFIRM :: UDINT where "EID_SAMPLER_CONFIRM = MAKE_EID EMT_WARNING EVENT_OBJ_SAMPLER (8 :: UINT)"

definition EID_SAMPLER_MODE_FAULT :: UDINT where "EID_SAMPLER_MODE_FAULT = MAKE_EID EMT_ERROR EVENT_OBJ_SAMPLER (10 :: UINT)"

definition EID_SAMPLER_COMMAND_FAULT :: UDINT where "EID_SAMPLER_COMMAND_FAULT = MAKE_EID EMT_ERROR EVENT_OBJ_SAMPLER (11 :: UINT)"

definition EID_SAMPLER_SELECT_FAULT :: UDINT where "EID_SAMPLER_SELECT_FAULT = MAKE_EID EMT_ERROR EVENT_OBJ_SAMPLER (12 :: UINT)"

definition EID_SAMPLER_START_FAULT :: UDINT where "EID_SAMPLER_START_FAULT = MAKE_EID EMT_ERROR EVENT_OBJ_SAMPLER (13 :: UINT)"

definition EID_PROVE_BADCOMMAND :: UDINT where "EID_PROVE_BADCOMMAND = MAKE_EID EMT_ERROR EVENT_OBJ_PROVE (1 :: UINT)"

definition EID_PROVE_MODULE :: UDINT where "EID_PROVE_MODULE = MAKE_EID EMT_ERROR EVENT_OBJ_PROVE (2 :: UINT)"

definition EID_PROVE_ERRORSTABTEMP :: UDINT where "EID_PROVE_ERRORSTABTEMP = MAKE_EID EMT_ERROR EVENT_OBJ_PROVE (4 :: UINT)"

definition EID_PROVE_ERRORSTABPRES :: UDINT where "EID_PROVE_ERRORSTABPRES = MAKE_EID EMT_ERROR EVENT_OBJ_PROVE (5 :: UINT)"

definition EID_PROVE_ERRORSTABDENS :: UDINT where "EID_PROVE_ERRORSTABDENS = MAKE_EID EMT_ERROR EVENT_OBJ_PROVE (6 :: UINT)"

definition EID_PROVE_ERRORSTABFREQ :: UDINT where "EID_PROVE_ERRORSTABFREQ = MAKE_EID EMT_ERROR EVENT_OBJ_PROVE (7 :: UINT)"

definition EID_PROVE_BADSTREAMNUMBER :: UDINT where "EID_PROVE_BADSTREAMNUMBER = MAKE_EID EMT_ERROR EVENT_OBJ_PROVE (8 :: UINT)"

definition EID_PROVE_CANNOTMODIFYSETUP :: UDINT where "EID_PROVE_CANNOTMODIFYSETUP = MAKE_EID EMT_ERROR EVENT_OBJ_PROVE (9 :: UINT)"

definition EID_PROVE_COMMANDSTART :: UDINT where "EID_PROVE_COMMANDSTART = MAKE_EID EMT_SUCCESS EVENT_OBJ_PROVE (21 :: UINT)"

definition EID_PROVE_COMMANDABORT :: UDINT where "EID_PROVE_COMMANDABORT = MAKE_EID EMT_WARNING EVENT_OBJ_PROVE (22 :: UINT)"

definition EID_PROVE_COMMANDRESET :: UDINT where "EID_PROVE_COMMANDRESET = MAKE_EID EMT_SUCCESS EVENT_OBJ_PROVE (23 :: UINT)"

definition EID_PROVE_NOTSTARTED :: UDINT where "EID_PROVE_NOTSTARTED = MAKE_EID EMT_WARNING EVENT_OBJ_PROVE (24 :: UINT)"

definition EID_PROVE_ALREADYSTARTED :: UDINT where "EID_PROVE_ALREADYSTARTED = MAKE_EID EMT_WARNING EVENT_OBJ_PROVE (25 :: UINT)"

definition EID_PROVE_NOTERROR :: UDINT where "EID_PROVE_NOTERROR = MAKE_EID EMT_WARNING EVENT_OBJ_PROVE (26 :: UINT)"

definition EID_PROVE_ISERROR :: UDINT where "EID_PROVE_ISERROR = MAKE_EID EMT_WARNING EVENT_OBJ_PROVE (27 :: UINT)"

definition EID_PROVE_DETECTOR1 :: UDINT where "EID_PROVE_DETECTOR1 = MAKE_EID EMT_SUCCESS EVENT_OBJ_PROVE (31 :: UINT)"

definition EID_PROVE_DETECTOR2 :: UDINT where "EID_PROVE_DETECTOR2 = MAKE_EID EMT_SUCCESS EVENT_OBJ_PROVE (32 :: UINT)"

definition EID_PROVE_DETECTOR3 :: UDINT where "EID_PROVE_DETECTOR3 = MAKE_EID EMT_SUCCESS EVENT_OBJ_PROVE (33 :: UINT)"

definition EID_PROVE_DETECTOR4 :: UDINT where "EID_PROVE_DETECTOR4 = MAKE_EID EMT_SUCCESS EVENT_OBJ_PROVE (34 :: UINT)"

definition EID_PROVE_STATE_IDLE :: UDINT where "EID_PROVE_STATE_IDLE = MAKE_EID EMT_SUCCESS EVENT_OBJ_PROVE (41 :: UINT)"

definition EID_PROVE_STATE_START :: UDINT where "EID_PROVE_STATE_START = MAKE_EID EMT_SUCCESS EVENT_OBJ_PROVE (42 :: UINT)"

definition EID_PROVE_STATE_STAB :: UDINT where "EID_PROVE_STATE_STAB = MAKE_EID EMT_SUCCESS EVENT_OBJ_PROVE (43 :: UINT)"

definition EID_PROVE_STATE_RUNBALL :: UDINT where "EID_PROVE_STATE_RUNBALL = MAKE_EID EMT_SUCCESS EVENT_OBJ_PROVE (44 :: UINT)"

definition EID_PROVE_STATE_VALVETOUP :: UDINT where "EID_PROVE_STATE_VALVETOUP = MAKE_EID EMT_SUCCESS EVENT_OBJ_PROVE (45 :: UINT)"

definition EID_PROVE_STATE_WAITTOUP :: UDINT where "EID_PROVE_STATE_WAITTOUP = MAKE_EID EMT_SUCCESS EVENT_OBJ_PROVE (46 :: UINT)"

definition EID_PROVE_STATE_VALVETODOWN :: UDINT where "EID_PROVE_STATE_VALVETODOWN = MAKE_EID EMT_SUCCESS EVENT_OBJ_PROVE (47 :: UINT)"

definition EID_PROVE_STATE_WAITD1 :: UDINT where "EID_PROVE_STATE_WAITD1 = MAKE_EID EMT_SUCCESS EVENT_OBJ_PROVE (48 :: UINT)"

definition EID_PROVE_STATE_WAITD2 :: UDINT where "EID_PROVE_STATE_WAITD2 = MAKE_EID EMT_SUCCESS EVENT_OBJ_PROVE (49 :: UINT)"

definition EID_PROVE_STATE_CALCULATE :: UDINT where "EID_PROVE_STATE_CALCULATE = MAKE_EID EMT_SUCCESS EVENT_OBJ_PROVE (50 :: UINT)"

definition EID_PROVE_STATE_RETURNBALL :: UDINT where "EID_PROVE_STATE_RETURNBALL = MAKE_EID EMT_SUCCESS EVENT_OBJ_PROVE (51 :: UINT)"

definition EID_PROVE_STATE_WAITED1_RVS :: UDINT where "EID_PROVE_STATE_WAITED1_RVS = MAKE_EID EMT_SUCCESS EVENT_OBJ_PROVE (52 :: UINT)"

definition EID_PROVE_STATE_WAITED2_RVS :: UDINT where "EID_PROVE_STATE_WAITED2_RVS = MAKE_EID EMT_SUCCESS EVENT_OBJ_PROVE (53 :: UINT)"

definition EID_PROVE_STATE_WAYCOMPLTED :: UDINT where "EID_PROVE_STATE_WAYCOMPLTED = MAKE_EID EMT_SUCCESS EVENT_OBJ_PROVE (54 :: UINT)"

definition EID_PROVE_STATE_FINISH :: UDINT where "EID_PROVE_STATE_FINISH = MAKE_EID EMT_SUCCESS EVENT_OBJ_PROVE (55 :: UINT)"

definition EID_PROVE_STATE_ABORT :: UDINT where "EID_PROVE_STATE_ABORT = MAKE_EID EMT_WARNING EVENT_OBJ_PROVE (56 :: UINT)"

definition EID_PROVE_STATE_ERRORFLOW :: UDINT where "EID_PROVE_STATE_ERRORFLOW = MAKE_EID EMT_ERROR EVENT_OBJ_PROVE (57 :: UINT)"

definition EID_PROVE_STATE_ERRORSTAB :: UDINT where "EID_PROVE_STATE_ERRORSTAB = MAKE_EID EMT_ERROR EVENT_OBJ_PROVE (58 :: UINT)"

definition EID_PROVE_STATE_ERRORTOUP :: UDINT where "EID_PROVE_STATE_ERRORTOUP = MAKE_EID EMT_ERROR EVENT_OBJ_PROVE (59 :: UINT)"

definition EID_PROVE_STATE_ERRORTDOWN :: UDINT where "EID_PROVE_STATE_ERRORTDOWN = MAKE_EID EMT_ERROR EVENT_OBJ_PROVE (60 :: UINT)"

definition EID_PROVE_STATE_ERRORD1 :: UDINT where "EID_PROVE_STATE_ERRORD1 = MAKE_EID EMT_ERROR EVENT_OBJ_PROVE (61 :: UINT)"

definition EID_PROVE_STATE_ERRORD2 :: UDINT where "EID_PROVE_STATE_ERRORD2 = MAKE_EID EMT_ERROR EVENT_OBJ_PROVE (62 :: UINT)"

definition EID_PROVE_STATE_ERRORDETS :: UDINT where "EID_PROVE_STATE_ERRORDETS = MAKE_EID EMT_ERROR EVENT_OBJ_PROVE (63 :: UINT)"

definition EID_PROVE_STATE_ERRORRETURN :: UDINT where "EID_PROVE_STATE_ERRORRETURN = MAKE_EID EMT_ERROR EVENT_OBJ_PROVE (64 :: UINT)"

definition EID_PROVE_STATE_ERRORRSTRID :: UDINT where "EID_PROVE_STATE_ERRORRSTRID = MAKE_EID EMT_ERROR EVENT_OBJ_PROVE (65 :: UINT)"

definition EID_PROVE_STATE_ERRORD1_RVS :: UDINT where "EID_PROVE_STATE_ERRORD1_RVS = MAKE_EID EMT_ERROR EVENT_OBJ_PROVE (66 :: UINT)"

definition EID_PROVE_STATE_ERRORD2_RVS :: UDINT where "EID_PROVE_STATE_ERRORD2_RVS = MAKE_EID EMT_ERROR EVENT_OBJ_PROVE (67 :: UINT)"

definition EID_PROVE_NEW_AMIN :: UDINT where "EID_PROVE_NEW_AMIN = MAKE_EID EMT_SUCCESS EVENT_OBJ_PROVE (100 :: UINT)"

definition EID_PROVE_NEW_WMIN :: UDINT where "EID_PROVE_NEW_WMIN = MAKE_EID EMT_SUCCESS EVENT_OBJ_PROVE (101 :: UINT)"

definition EID_PROVE_NEW_WMAX :: UDINT where "EID_PROVE_NEW_WMAX = MAKE_EID EMT_SUCCESS EVENT_OBJ_PROVE (102 :: UINT)"

definition EID_PROVE_NEW_AMAX :: UDINT where "EID_PROVE_NEW_AMAX = MAKE_EID EMT_SUCCESS EVENT_OBJ_PROVE (103 :: UINT)"

definition EID_PROVE_NEW_HYST :: UDINT where "EID_PROVE_NEW_HYST = MAKE_EID EMT_SUCCESS EVENT_OBJ_PROVE (104 :: UINT)"

definition EID_PROVE_NEW_SETUP :: UDINT where "EID_PROVE_NEW_SETUP = MAKE_EID EMT_SUCCESS EVENT_OBJ_PROVE (105 :: UINT)"

definition EID_PROVE_AMIN :: UDINT where "EID_PROVE_AMIN = MAKE_EID EMT_ERROR EVENT_OBJ_PROVE (110 :: UINT)"

definition EID_PROVE_WMIN :: UDINT where "EID_PROVE_WMIN = MAKE_EID EMT_WARNING EVENT_OBJ_PROVE (111 :: UINT)"

definition EID_PROVE_AMAX :: UDINT where "EID_PROVE_AMAX = MAKE_EID EMT_ERROR EVENT_OBJ_PROVE (112 :: UINT)"

definition EID_PROVE_WMAX :: UDINT where "EID_PROVE_WMAX = MAKE_EID EMT_WARNING EVENT_OBJ_PROVE (113 :: UINT)"

definition EID_PROVE_NORMAL :: UDINT where "EID_PROVE_NORMAL = MAKE_EID EMT_SUCCESS EVENT_OBJ_PROVE (114 :: UINT)"

definition EID_PROVE_NAN :: UDINT where "EID_PROVE_NAN = MAKE_EID EMT_ERROR EVENT_OBJ_PROVE (115 :: UINT)"

definition EID_MASWTR_NEW_AMIN :: UDINT where "EID_MASWTR_NEW_AMIN = MAKE_EID EMT_SUCCESS EVENT_OBJ_MASWTR (100 :: UINT)"

definition EID_MASWTR_NEW_WMIN :: UDINT where "EID_MASWTR_NEW_WMIN = MAKE_EID EMT_SUCCESS EVENT_OBJ_MASWTR (101 :: UINT)"

definition EID_MASWTR_NEW_WMAX :: UDINT where "EID_MASWTR_NEW_WMAX = MAKE_EID EMT_SUCCESS EVENT_OBJ_MASWTR (102 :: UINT)"

definition EID_MASWTR_NEW_AMAX :: UDINT where "EID_MASWTR_NEW_AMAX = MAKE_EID EMT_SUCCESS EVENT_OBJ_MASWTR (103 :: UINT)"

definition EID_MASWTR_NEW_HYST :: UDINT where "EID_MASWTR_NEW_HYST = MAKE_EID EMT_SUCCESS EVENT_OBJ_MASWTR (104 :: UINT)"

definition EID_MASWTR_NEW_SETUP :: UDINT where "EID_MASWTR_NEW_SETUP = MAKE_EID EMT_SUCCESS EVENT_OBJ_MASWTR (105 :: UINT)"

definition EID_MASWTR_AMIN :: UDINT where "EID_MASWTR_AMIN = MAKE_EID EMT_ERROR EVENT_OBJ_MASWTR (110 :: UINT)"

definition EID_MASWTR_WMIN :: UDINT where "EID_MASWTR_WMIN = MAKE_EID EMT_WARNING EVENT_OBJ_MASWTR (111 :: UINT)"

definition EID_MASWTR_AMAX :: UDINT where "EID_MASWTR_AMAX = MAKE_EID EMT_ERROR EVENT_OBJ_MASWTR (112 :: UINT)"

definition EID_MASWTR_WMAX :: UDINT where "EID_MASWTR_WMAX = MAKE_EID EMT_WARNING EVENT_OBJ_MASWTR (113 :: UINT)"

definition EID_MASWTR_NORMAL :: UDINT where "EID_MASWTR_NORMAL = MAKE_EID EMT_SUCCESS EVENT_OBJ_MASWTR (114 :: UINT)"

definition EID_MASWTR_NAN :: UDINT where "EID_MASWTR_NAN = MAKE_EID EMT_ERROR EVENT_OBJ_MASWTR (115 :: UINT)"

definition EID_VOLWTR_NEW_AMIN :: UDINT where "EID_VOLWTR_NEW_AMIN = MAKE_EID EMT_SUCCESS EVENT_OBJ_VOLWTR (100 :: UINT)"

definition EID_VOLWTR_NEW_WMIN :: UDINT where "EID_VOLWTR_NEW_WMIN = MAKE_EID EMT_SUCCESS EVENT_OBJ_VOLWTR (101 :: UINT)"

definition EID_VOLWTR_NEW_WMAX :: UDINT where "EID_VOLWTR_NEW_WMAX = MAKE_EID EMT_SUCCESS EVENT_OBJ_VOLWTR (102 :: UINT)"

definition EID_VOLWTR_NEW_AMAX :: UDINT where "EID_VOLWTR_NEW_AMAX = MAKE_EID EMT_SUCCESS EVENT_OBJ_VOLWTR (103 :: UINT)"

definition EID_VOLWTR_NEW_HYST :: UDINT where "EID_VOLWTR_NEW_HYST = MAKE_EID EMT_SUCCESS EVENT_OBJ_VOLWTR (104 :: UINT)"

definition EID_VOLWTR_NEW_SETUP :: UDINT where "EID_VOLWTR_NEW_SETUP = MAKE_EID EMT_SUCCESS EVENT_OBJ_VOLWTR (105 :: UINT)"

definition EID_VOLWTR_AMIN :: UDINT where "EID_VOLWTR_AMIN = MAKE_EID EMT_ERROR EVENT_OBJ_VOLWTR (110 :: UINT)"

definition EID_VOLWTR_WMIN :: UDINT where "EID_VOLWTR_WMIN = MAKE_EID EMT_WARNING EVENT_OBJ_VOLWTR (111 :: UINT)"

definition EID_VOLWTR_AMAX :: UDINT where "EID_VOLWTR_AMAX = MAKE_EID EMT_ERROR EVENT_OBJ_VOLWTR (112 :: UINT)"

definition EID_VOLWTR_WMAX :: UDINT where "EID_VOLWTR_WMAX = MAKE_EID EMT_WARNING EVENT_OBJ_VOLWTR (113 :: UINT)"

definition EID_VOLWTR_NORMAL :: UDINT where "EID_VOLWTR_NORMAL = MAKE_EID EMT_SUCCESS EVENT_OBJ_VOLWTR (114 :: UINT)"

definition EID_VOLWTR_NAN :: UDINT where "EID_VOLWTR_NAN = MAKE_EID EMT_ERROR EVENT_OBJ_VOLWTR (115 :: UINT)"

definition EID_KINVISC_NEW_AMIN :: UDINT where "EID_KINVISC_NEW_AMIN = MAKE_EID EMT_SUCCESS EVENT_OBJ_CINVISC (100 :: UINT)"

definition EID_KINVISC_NEW_WMIN :: UDINT where "EID_KINVISC_NEW_WMIN = MAKE_EID EMT_SUCCESS EVENT_OBJ_CINVISC (101 :: UINT)"

definition EID_KINVISC_NEW_WMAX :: UDINT where "EID_KINVISC_NEW_WMAX = MAKE_EID EMT_SUCCESS EVENT_OBJ_CINVISC (102 :: UINT)"

definition EID_KINVISC_NEW_AMAX :: UDINT where "EID_KINVISC_NEW_AMAX = MAKE_EID EMT_SUCCESS EVENT_OBJ_CINVISC (103 :: UINT)"

definition EID_KINVISC_NEW_HYST :: UDINT where "EID_KINVISC_NEW_HYST = MAKE_EID EMT_SUCCESS EVENT_OBJ_CINVISC (104 :: UINT)"

definition EID_KINVISC_NEW_SETUP :: UDINT where "EID_KINVISC_NEW_SETUP = MAKE_EID EMT_SUCCESS EVENT_OBJ_CINVISC (105 :: UINT)"

definition EID_KINVISC_AMIN :: UDINT where "EID_KINVISC_AMIN = MAKE_EID EMT_ERROR EVENT_OBJ_CINVISC (110 :: UINT)"

definition EID_KINVISC_WMIN :: UDINT where "EID_KINVISC_WMIN = MAKE_EID EMT_WARNING EVENT_OBJ_CINVISC (111 :: UINT)"

definition EID_KINVISC_AMAX :: UDINT where "EID_KINVISC_AMAX = MAKE_EID EMT_ERROR EVENT_OBJ_CINVISC (112 :: UINT)"

definition EID_KINVISC_WMAX :: UDINT where "EID_KINVISC_WMAX = MAKE_EID EMT_WARNING EVENT_OBJ_CINVISC (113 :: UINT)"

definition EID_KINVISC_NORMAL :: UDINT where "EID_KINVISC_NORMAL = MAKE_EID EMT_SUCCESS EVENT_OBJ_CINVISC (114 :: UINT)"

definition EID_KINVISC_NAN :: UDINT where "EID_KINVISC_NAN = MAKE_EID EMT_ERROR EVENT_OBJ_CINVISC (115 :: UINT)"

definition EID_DYNVISC_NEW_AMIN :: UDINT where "EID_DYNVISC_NEW_AMIN = MAKE_EID EMT_SUCCESS EVENT_OBJ_DYNVISC (100 :: UINT)"

definition EID_DYNVISC_NEW_WMIN :: UDINT where "EID_DYNVISC_NEW_WMIN = MAKE_EID EMT_SUCCESS EVENT_OBJ_DYNVISC (101 :: UINT)"

definition EID_DYNVISC_NEW_WMAX :: UDINT where "EID_DYNVISC_NEW_WMAX = MAKE_EID EMT_SUCCESS EVENT_OBJ_DYNVISC (102 :: UINT)"

definition EID_DYNVISC_NEW_AMAX :: UDINT where "EID_DYNVISC_NEW_AMAX = MAKE_EID EMT_SUCCESS EVENT_OBJ_DYNVISC (103 :: UINT)"

definition EID_DYNVISC_NEW_HYST :: UDINT where "EID_DYNVISC_NEW_HYST = MAKE_EID EMT_SUCCESS EVENT_OBJ_DYNVISC (104 :: UINT)"

definition EID_DYNVISC_NEW_SETUP :: UDINT where "EID_DYNVISC_NEW_SETUP = MAKE_EID EMT_SUCCESS EVENT_OBJ_DYNVISC (105 :: UINT)"

definition EID_DYNVISC_AMIN :: UDINT where "EID_DYNVISC_AMIN = MAKE_EID EMT_ERROR EVENT_OBJ_DYNVISC (110 :: UINT)"

definition EID_DYNVISC_WMIN :: UDINT where "EID_DYNVISC_WMIN = MAKE_EID EMT_WARNING EVENT_OBJ_DYNVISC (111 :: UINT)"

definition EID_DYNVISC_AMAX :: UDINT where "EID_DYNVISC_AMAX = MAKE_EID EMT_ERROR EVENT_OBJ_DYNVISC (112 :: UINT)"

definition EID_DYNVISC_WMAX :: UDINT where "EID_DYNVISC_WMAX = MAKE_EID EMT_WARNING EVENT_OBJ_DYNVISC (113 :: UINT)"

definition EID_DYNVISC_NORMAL :: UDINT where "EID_DYNVISC_NORMAL = MAKE_EID EMT_SUCCESS EVENT_OBJ_DYNVISC (114 :: UINT)"

definition EID_DYNVISC_NAN :: UDINT where "EID_DYNVISC_NAN = MAKE_EID EMT_ERROR EVENT_OBJ_DYNVISC (115 :: UINT)"

lemmas eid_defs =
  EID_SYSTEM_START_WARM_def
  EID_SYSTEM_START_COLD_def
  EID_SYSTEM_RUNNING_def
  EID_SYSTEM_HALT_def
  EID_SYSTEM_ERRUNIT_def
  EID_SYSTEM_ERROUTPUT_def
  EID_SYSTEM_ERROUTVAL_def
  EID_SYSTEM_CFGERROR_def
  EID_SYSTEM_FILEIOERROR_def
  EID_SYSTEM_DUMPERROR_def
  EID_SYSTEM_RESTART_WARM_def
  EID_SYSTEM_RESTART_COLD_def
  EID_SYSTEM_RESTART_UNKNOW_def
  EID_HARDWARE_MODULE_ISNULL_def
  EID_HARDWARE_MODULE_FAULT_def
  EID_SELECTOR_ERROR_def
  EID_SELECTOR_NOCHANGE_def
  EID_SELECTOR_TOFAULT_def
  EID_SELECTOR_TONEXT_def
  EID_SELECTOR_NOTHINGNEXT_def
  EID_SELECTOR_CLEARERROR_def
  EID_SELECTOR_SELECTED_def
  EID_SELECTOR_MODE_def
  EID_SELECTOR_NEW_AMIN_def
  EID_SELECTOR_NEW_WMIN_def
  EID_SELECTOR_NEW_WMAX_def
  EID_SELECTOR_NEW_AMAX_def
  EID_SELECTOR_NEW_HYST_def
  EID_SELECTOR_NEW_SETUP_def
  EID_SELECTOR_AMIN_def
  EID_SELECTOR_WMIN_def
  EID_SELECTOR_AMAX_def
  EID_SELECTOR_WMAX_def
  EID_SELECTOR_NORMAL_def
  EID_SELECTOR_NAN_def
  EID_AI_NEW_MIN_def
  EID_AI_NEW_MAX_def
  EID_AI_NEW_SIMULATE_def
  EID_AI_CH_FAULT_def
  EID_AI_CH_OK_def
  EID_AI_SIM_MANUAL_def
  EID_AI_SIM_AUTO_def
  EID_AI_SIM_LAST_def
  EID_AI_SIM_OFF_def
  EID_AI_MIN_def
  EID_AI_MAX_def
  EID_AI_MODULE_def
  EID_AI_NEW_AMIN_def
  EID_AI_NEW_WMIN_def
  EID_AI_NEW_WMAX_def
  EID_AI_NEW_AMAX_def
  EID_AI_NEW_HYST_def
  EID_AI_NEW_SETUP_def
  EID_AI_AMIN_def
  EID_AI_WMIN_def
  EID_AI_AMAX_def
  EID_AI_WMAX_def
  EID_AI_NORMAL_def
  EID_AI_NAN_def
  EID_COUNTER_CH_FAULT_def
  EID_COUNTER_CH_OK_def
  EID_COUNTER_MODULE_def
  EID_COUNTER_NEW_AMIN_def
  EID_COUNTER_NEW_WMIN_def
  EID_COUNTER_NEW_WMAX_def
  EID_COUNTER_NEW_AMAX_def
  EID_COUNTER_NEW_HYST_def
  EID_COUNTER_NEW_SETUP_def
  EID_COUNTER_AMIN_def
  EID_COUNTER_WMIN_def
  EID_COUNTER_AMAX_def
  EID_COUNTER_WMAX_def
  EID_COUNTER_NORMAL_def
  EID_COUNTER_NAN_def
  EID_DENSSOL_CALIBR_def
  EID_DENSSOL_K0_def
  EID_DENSSOL_K1_def
  EID_DENSSOL_K2_def
  EID_DENSSOL_K18_def
  EID_DENSSOL_K19_def
  EID_DENSSOL_K20A_def
  EID_DENSSOL_K20B_def
  EID_DENSSOL_K21A_def
  EID_DENSSOL_K21B_def
  EID_DENSSOL_ACCEPT_def
  EID_DENSSOL_FAULT_INPUTS_def
  EID_DENSSOL_GOOD_INPUTS_def
  EID_DENSSOL_FAULT_PERIOD_def
  EID_DENSSOL_GOOD_PERIOD_def
  EID_DENSSOL_FAULT_VALUE_def
  EID_DENSSOL_GOOD_VALUE_def
  EID_DENSSOL_FAULT_ITERATION_def
  EID_DENSSOL_GOOD_ITERATION_def
  EID_DENSSOL_FAULT_STATION_def
  EID_DENSSOL_NEW_AMIN_def
  EID_DENSSOL_NEW_WMIN_def
  EID_DENSSOL_NEW_WMAX_def
  EID_DENSSOL_NEW_AMAX_def
  EID_DENSSOL_NEW_HYST_def
  EID_DENSSOL_NEW_SETUP_def
  EID_DENSSOL_AMIN_def
  EID_DENSSOL_WMIN_def
  EID_DENSSOL_AMAX_def
  EID_DENSSOL_WMAX_def
  EID_DENSSOL_NORMAL_def
  EID_DENSSOL_NAN_def
  EID_RDCDDENS_FAULT_INPUTS_def
  EID_RDCDDENS_GOOD_INPUTS_def
  EID_RDCDDENS_FAULT_DENSITY_def
  EID_RDCDDENS_GOOD_DENSITY_def
  EID_RDCDDENS_NEW_AMIN_def
  EID_RDCDDENS_NEW_WMIN_def
  EID_RDCDDENS_NEW_WMAX_def
  EID_RDCDDENS_NEW_AMAX_def
  EID_RDCDDENS_NEW_HYST_def
  EID_RDCDDENS_NEW_SETUP_def
  EID_RDCDDENS_AMIN_def
  EID_RDCDDENS_WMIN_def
  EID_RDCDDENS_AMAX_def
  EID_RDCDDENS_WMAX_def
  EID_RDCDDENS_NORMAL_def
  EID_RDCDDENS_NAN_def
  EID_STREAM_FAULT_INPUTS_def
  EID_STREAM_GOOD_INPUTS_def
  EID_STREAM_ACCOUNTING_ON_def
  EID_STREAM_ACCOUNTING_OFF_def
  EID_STREAM_KEYPADKF_ON_def
  EID_STREAM_KEYPADKF_OFF_def
  EID_STREAM_ACCEPT_def
  EID_STREAM_KEYPADKF_def
  EID_STREAM_KEYPADMF_def
  EID_STREAM_POINT_HZ_def
  EID_STREAM_POINT_KF_def
  EID_STREAM_TOTAL_MASS_def
  EID_STREAM_TOTAL_VOLUME_def
  EID_STREAM_TOTAL_VOLUME15_def
  EID_STREAM_TOTAL_VOLUME20_def
  EID_STREAM_RESET_TOTALS_def
  EID_STREAM_NEW_AMIN_def
  EID_STREAM_NEW_WMIN_def
  EID_STREAM_NEW_WMAX_def
  EID_STREAM_NEW_AMAX_def
  EID_STREAM_NEW_HYST_def
  EID_STREAM_NEW_SETUP_def
  EID_STREAM_AMIN_def
  EID_STREAM_WMIN_def
  EID_STREAM_AMAX_def
  EID_STREAM_WMAX_def
  EID_STREAM_NORMAL_def
  EID_STREAM_NAN_def
  EID_STATION_TOTAL_MASS_def
  EID_STATION_TOTAL_VOLUME_def
  EID_STATION_TOTAL_VOLUME15_def
  EID_STATION_TOTAL_VOLUME20_def
  EID_STATION_RESET_TOTALS_def
  EID_STATION_NEW_AMIN_def
  EID_STATION_NEW_WMIN_def
  EID_STATION_NEW_WMAX_def
  EID_STATION_NEW_AMAX_def
  EID_STATION_NEW_HYST_def
  EID_STATION_NEW_SETUP_def
  EID_STATION_AMIN_def
  EID_STATION_WMIN_def
  EID_STATION_AMAX_def
  EID_STATION_WMAX_def
  EID_STATION_NORMAL_def
  EID_STATION_NAN_def
  EID_TEST_SUCCESS_def
  EID_TEST_INFO_def
  EID_TEST_WARNING_def
  EID_TEST_ERROR_def
  EID_REPORT_GENERATED_def
  EID_REPORT_CANTSAVE_def
  EID_VAR_NEW_AMIN_def
  EID_VAR_NEW_WMIN_def
  EID_VAR_NEW_WMAX_def
  EID_VAR_NEW_AMAX_def
  EID_VAR_NEW_HYST_def
  EID_VAR_NEW_SETUP_def
  EID_VAR_AMIN_def
  EID_VAR_WMIN_def
  EID_VAR_AMAX_def
  EID_VAR_WMAX_def
  EID_VAR_NORMAL_def
  EID_VAR_NAN_def
  EID_DI_SUCCESS_ON_def
  EID_DI_SUCCESS_OFF_def
  EID_DI_WARNING_ON_def
  EID_DI_WARNING_OFF_def
  EID_DI_ALARM_ON_def
  EID_DI_ALARM_OFF_def
  EID_DI_NEW_SIMULATE_def
  EID_DI_CH_FAULT_def
  EID_DI_CH_OK_def
  EID_DI_KEYPAD_ON_def
  EID_DI_KEYPAD_OFF_def
  EID_DI_MODULE_def
  EID_DI_NEW_SETUP_def
  EID_DO_SUCCESS_ON_def
  EID_DO_SUCCESS_OFF_def
  EID_DO_WARNING_ON_def
  EID_DO_WARNING_OFF_def
  EID_DO_ALARM_ON_def
  EID_DO_ALARM_OFF_def
  EID_DO_CH_FAULT_def
  EID_DO_CH_OK_def
  EID_DO_KEYPAD_ON_def
  EID_DO_KEYPAD_OFF_def
  EID_DO_MODULE_def
  EID_DO_NEW_SETUP_def
  EID_AO_NEW_MIN_def
  EID_AO_NEW_MAX_def
  EID_AO_SIM_ON_def
  EID_AO_SIM_OFF_def
  EID_AO_MODULE_def
  EID_AO_NEW_AMIN_def
  EID_AO_NEW_WMIN_def
  EID_AO_NEW_WMAX_def
  EID_AO_NEW_AMAX_def
  EID_AO_NEW_HYST_def
  EID_AO_NEW_SETUP_def
  EID_AO_AMIN_def
  EID_AO_WMIN_def
  EID_AO_AMAX_def
  EID_AO_WMAX_def
  EID_AO_NORMAL_def
  EID_AO_NAN_def
  EID_SAMPLER_START_PERIOD_def
  EID_SAMPLER_START_VOLUME_def
  EID_SAMPLER_START_MASS_def
  EID_SAMPLER_START_TEST_def
  EID_SAMPLER_STOP_def
  EID_SAMPLER_DONT_STOP_def
  EID_SAMPLER_FINISH_def
  EID_SAMPLER_CONFIRM_def
  EID_SAMPLER_MODE_FAULT_def
  EID_SAMPLER_COMMAND_FAULT_def
  EID_SAMPLER_SELECT_FAULT_def
  EID_SAMPLER_START_FAULT_def
  EID_PROVE_BADCOMMAND_def
  EID_PROVE_MODULE_def
  EID_PROVE_ERRORSTABTEMP_def
  EID_PROVE_ERRORSTABPRES_def
  EID_PROVE_ERRORSTABDENS_def
  EID_PROVE_ERRORSTABFREQ_def
  EID_PROVE_BADSTREAMNUMBER_def
  EID_PROVE_CANNOTMODIFYSETUP_def
  EID_PROVE_COMMANDSTART_def
  EID_PROVE_COMMANDABORT_def
  EID_PROVE_COMMANDRESET_def
  EID_PROVE_NOTSTARTED_def
  EID_PROVE_ALREADYSTARTED_def
  EID_PROVE_NOTERROR_def
  EID_PROVE_ISERROR_def
  EID_PROVE_DETECTOR1_def
  EID_PROVE_DETECTOR2_def
  EID_PROVE_DETECTOR3_def
  EID_PROVE_DETECTOR4_def
  EID_PROVE_STATE_IDLE_def
  EID_PROVE_STATE_START_def
  EID_PROVE_STATE_STAB_def
  EID_PROVE_STATE_RUNBALL_def
  EID_PROVE_STATE_VALVETOUP_def
  EID_PROVE_STATE_WAITTOUP_def
  EID_PROVE_STATE_VALVETODOWN_def
  EID_PROVE_STATE_WAITD1_def
  EID_PROVE_STATE_WAITD2_def
  EID_PROVE_STATE_CALCULATE_def
  EID_PROVE_STATE_RETURNBALL_def
  EID_PROVE_STATE_WAITED1_RVS_def
  EID_PROVE_STATE_WAITED2_RVS_def
  EID_PROVE_STATE_WAYCOMPLTED_def
  EID_PROVE_STATE_FINISH_def
  EID_PROVE_STATE_ABORT_def
  EID_PROVE_STATE_ERRORFLOW_def
  EID_PROVE_STATE_ERRORSTAB_def
  EID_PROVE_STATE_ERRORTOUP_def
  EID_PROVE_STATE_ERRORTDOWN_def
  EID_PROVE_STATE_ERRORD1_def
  EID_PROVE_STATE_ERRORD2_def
  EID_PROVE_STATE_ERRORDETS_def
  EID_PROVE_STATE_ERRORRETURN_def
  EID_PROVE_STATE_ERRORRSTRID_def
  EID_PROVE_STATE_ERRORD1_RVS_def
  EID_PROVE_STATE_ERRORD2_RVS_def
  EID_PROVE_NEW_AMIN_def
  EID_PROVE_NEW_WMIN_def
  EID_PROVE_NEW_WMAX_def
  EID_PROVE_NEW_AMAX_def
  EID_PROVE_NEW_HYST_def
  EID_PROVE_NEW_SETUP_def
  EID_PROVE_AMIN_def
  EID_PROVE_WMIN_def
  EID_PROVE_AMAX_def
  EID_PROVE_WMAX_def
  EID_PROVE_NORMAL_def
  EID_PROVE_NAN_def
  EID_MASWTR_NEW_AMIN_def
  EID_MASWTR_NEW_WMIN_def
  EID_MASWTR_NEW_WMAX_def
  EID_MASWTR_NEW_AMAX_def
  EID_MASWTR_NEW_HYST_def
  EID_MASWTR_NEW_SETUP_def
  EID_MASWTR_AMIN_def
  EID_MASWTR_WMIN_def
  EID_MASWTR_AMAX_def
  EID_MASWTR_WMAX_def
  EID_MASWTR_NORMAL_def
  EID_MASWTR_NAN_def
  EID_VOLWTR_NEW_AMIN_def
  EID_VOLWTR_NEW_WMIN_def
  EID_VOLWTR_NEW_WMAX_def
  EID_VOLWTR_NEW_AMAX_def
  EID_VOLWTR_NEW_HYST_def
  EID_VOLWTR_NEW_SETUP_def
  EID_VOLWTR_AMIN_def
  EID_VOLWTR_WMIN_def
  EID_VOLWTR_AMAX_def
  EID_VOLWTR_WMAX_def
  EID_VOLWTR_NORMAL_def
  EID_VOLWTR_NAN_def
  EID_KINVISC_NEW_AMIN_def
  EID_KINVISC_NEW_WMIN_def
  EID_KINVISC_NEW_WMAX_def
  EID_KINVISC_NEW_AMAX_def
  EID_KINVISC_NEW_HYST_def
  EID_KINVISC_NEW_SETUP_def
  EID_KINVISC_AMIN_def
  EID_KINVISC_WMIN_def
  EID_KINVISC_AMAX_def
  EID_KINVISC_WMAX_def
  EID_KINVISC_NORMAL_def
  EID_KINVISC_NAN_def
  EID_DYNVISC_NEW_AMIN_def
  EID_DYNVISC_NEW_WMIN_def
  EID_DYNVISC_NEW_WMAX_def
  EID_DYNVISC_NEW_AMAX_def
  EID_DYNVISC_NEW_HYST_def
  EID_DYNVISC_NEW_SETUP_def
  EID_DYNVISC_AMIN_def
  EID_DYNVISC_WMIN_def
  EID_DYNVISC_AMAX_def
  EID_DYNVISC_WMAX_def
  EID_DYNVISC_NORMAL_def
  EID_DYNVISC_NAN_def

definition eid_list :: "UDINT list" where
  "eid_list =
    [EID_SYSTEM_START_WARM,
     EID_SYSTEM_START_COLD,
     EID_SYSTEM_RUNNING,
     EID_SYSTEM_HALT,
     EID_SYSTEM_ERRUNIT,
     EID_SYSTEM_ERROUTPUT,
     EID_SYSTEM_ERROUTVAL,
     EID_SYSTEM_CFGERROR,
     EID_SYSTEM_FILEIOERROR,
     EID_SYSTEM_DUMPERROR,
     EID_SYSTEM_RESTART_WARM,
     EID_SYSTEM_RESTART_COLD,
     EID_SYSTEM_RESTART_UNKNOW,
     EID_SELECTOR_ERROR,
     EID_SELECTOR_NOCHANGE,
     EID_SELECTOR_TOFAULT,
     EID_SELECTOR_TONEXT,
     EID_SELECTOR_NOTHINGNEXT,
     EID_SELECTOR_CLEARERROR,
     EID_SELECTOR_SELECTED,
     EID_SELECTOR_MODE,
     EID_SELECTOR_NEW_AMIN,
     EID_SELECTOR_NEW_WMIN,
     EID_SELECTOR_NEW_WMAX,
     EID_SELECTOR_NEW_AMAX,
     EID_SELECTOR_NEW_HYST,
     EID_SELECTOR_NEW_SETUP,
     EID_SELECTOR_AMIN,
     EID_SELECTOR_WMIN,
     EID_SELECTOR_AMAX,
     EID_SELECTOR_WMAX,
     EID_SELECTOR_NORMAL,
     EID_SELECTOR_NAN,
     EID_AI_NEW_MIN,
     EID_AI_NEW_MAX,
     EID_AI_NEW_SIMULATE,
     EID_AI_CH_FAULT,
     EID_AI_CH_OK,
     EID_AI_SIM_MANUAL,
     EID_AI_SIM_AUTO,
     EID_AI_SIM_LAST,
     EID_AI_SIM_OFF,
     EID_AI_MIN,
     EID_AI_MAX,
     EID_AI_MODULE,
     EID_AI_NEW_AMIN,
     EID_AI_NEW_WMIN,
     EID_AI_NEW_WMAX,
     EID_AI_NEW_AMAX,
     EID_AI_NEW_HYST,
     EID_AI_NEW_SETUP,
     EID_AI_AMIN,
     EID_AI_WMIN,
     EID_AI_AMAX,
     EID_AI_WMAX,
     EID_AI_NORMAL,
     EID_AI_NAN,
     EID_COUNTER_CH_FAULT,
     EID_COUNTER_CH_OK,
     EID_COUNTER_MODULE,
     EID_COUNTER_NEW_AMIN,
     EID_COUNTER_NEW_WMIN,
     EID_COUNTER_NEW_WMAX,
     EID_COUNTER_NEW_AMAX,
     EID_COUNTER_NEW_HYST,
     EID_COUNTER_NEW_SETUP,
     EID_COUNTER_AMIN,
     EID_COUNTER_WMIN,
     EID_COUNTER_AMAX,
     EID_COUNTER_WMAX,
     EID_COUNTER_NORMAL,
     EID_COUNTER_NAN,
     EID_DENSSOL_CALIBR,
     EID_DENSSOL_K0,
     EID_DENSSOL_K1,
     EID_DENSSOL_K2,
     EID_DENSSOL_K18,
     EID_DENSSOL_K19,
     EID_DENSSOL_K20A,
     EID_DENSSOL_K20B,
     EID_DENSSOL_K21A,
     EID_DENSSOL_K21B,
     EID_DENSSOL_ACCEPT,
     EID_DENSSOL_FAULT_INPUTS,
     EID_DENSSOL_GOOD_INPUTS,
     EID_DENSSOL_FAULT_PERIOD,
     EID_DENSSOL_GOOD_PERIOD,
     EID_DENSSOL_FAULT_VALUE,
     EID_DENSSOL_GOOD_VALUE,
     EID_DENSSOL_FAULT_ITERATION,
     EID_DENSSOL_GOOD_ITERATION,
     EID_DENSSOL_FAULT_STATION,
     EID_DENSSOL_NEW_AMIN,
     EID_DENSSOL_NEW_WMIN,
     EID_DENSSOL_NEW_WMAX,
     EID_DENSSOL_NEW_AMAX,
     EID_DENSSOL_NEW_HYST,
     EID_DENSSOL_NEW_SETUP,
     EID_DENSSOL_AMIN,
     EID_DENSSOL_WMIN,
     EID_DENSSOL_AMAX,
     EID_DENSSOL_WMAX,
     EID_DENSSOL_NORMAL,
     EID_DENSSOL_NAN,
     EID_RDCDDENS_FAULT_INPUTS,
     EID_RDCDDENS_GOOD_INPUTS,
     EID_RDCDDENS_FAULT_DENSITY,
     EID_RDCDDENS_GOOD_DENSITY,
     EID_RDCDDENS_NEW_AMIN,
     EID_RDCDDENS_NEW_WMIN,
     EID_RDCDDENS_NEW_WMAX,
     EID_RDCDDENS_NEW_AMAX,
     EID_RDCDDENS_NEW_HYST,
     EID_RDCDDENS_NEW_SETUP,
     EID_RDCDDENS_AMIN,
     EID_RDCDDENS_WMIN,
     EID_RDCDDENS_AMAX,
     EID_RDCDDENS_WMAX,
     EID_RDCDDENS_NORMAL,
     EID_RDCDDENS_NAN,
     EID_STREAM_FAULT_INPUTS,
     EID_STREAM_GOOD_INPUTS,
     EID_STREAM_ACCOUNTING_ON,
     EID_STREAM_ACCOUNTING_OFF,
     EID_STREAM_KEYPADKF_ON,
     EID_STREAM_KEYPADKF_OFF,
     EID_STREAM_ACCEPT,
     EID_STREAM_KEYPADKF,
     EID_STREAM_KEYPADMF,
     EID_STREAM_POINT_HZ,
     EID_STREAM_POINT_KF,
     EID_STREAM_TOTAL_MASS,
     EID_STREAM_TOTAL_VOLUME,
     EID_STREAM_TOTAL_VOLUME15,
     EID_STREAM_TOTAL_VOLUME20,
     EID_STREAM_RESET_TOTALS,
     EID_STREAM_NEW_AMIN,
     EID_STREAM_NEW_WMIN,
     EID_STREAM_NEW_WMAX,
     EID_STREAM_NEW_AMAX,
     EID_STREAM_NEW_HYST,
     EID_STREAM_NEW_SETUP,
     EID_STREAM_AMIN,
     EID_STREAM_WMIN,
     EID_STREAM_AMAX,
     EID_STREAM_WMAX,
     EID_STREAM_NORMAL,
     EID_STREAM_NAN,
     EID_STATION_TOTAL_MASS,
     EID_STATION_TOTAL_VOLUME,
     EID_STATION_TOTAL_VOLUME15,
     EID_STATION_TOTAL_VOLUME20,
     EID_STATION_RESET_TOTALS,
     EID_STATION_NEW_AMIN,
     EID_STATION_NEW_WMIN,
     EID_STATION_NEW_WMAX,
     EID_STATION_NEW_AMAX,
     EID_STATION_NEW_HYST,
     EID_STATION_NEW_SETUP,
     EID_STATION_AMIN,
     EID_STATION_WMIN,
     EID_STATION_AMAX,
     EID_STATION_WMAX,
     EID_STATION_NORMAL,
     EID_STATION_NAN,
     EID_TEST_SUCCESS,
     EID_TEST_INFO,
     EID_TEST_WARNING,
     EID_TEST_ERROR,
     EID_REPORT_GENERATED,
     EID_REPORT_CANTSAVE,
     EID_VAR_NEW_AMIN,
     EID_VAR_NEW_WMIN,
     EID_VAR_NEW_WMAX,
     EID_VAR_NEW_AMAX,
     EID_VAR_NEW_HYST,
     EID_VAR_NEW_SETUP,
     EID_VAR_AMIN,
     EID_VAR_WMIN,
     EID_VAR_AMAX,
     EID_VAR_WMAX,
     EID_VAR_NORMAL,
     EID_VAR_NAN,
     EID_DI_SUCCESS_ON,
     EID_DI_SUCCESS_OFF,
     EID_DI_WARNING_ON,
     EID_DI_WARNING_OFF,
     EID_DI_ALARM_ON,
     EID_DI_ALARM_OFF,
     EID_DI_NEW_SIMULATE,
     EID_DI_CH_FAULT,
     EID_DI_CH_OK,
     EID_DI_KEYPAD_ON,
     EID_DI_KEYPAD_OFF,
     EID_DI_MODULE,
     EID_DI_NEW_SETUP,
     EID_DO_SUCCESS_ON,
     EID_DO_SUCCESS_OFF,
     EID_DO_WARNING_ON,
     EID_DO_WARNING_OFF,
     EID_DO_ALARM_ON,
     EID_DO_ALARM_OFF,
     EID_DO_CH_FAULT,
     EID_DO_CH_OK,
     EID_DO_KEYPAD_ON,
     EID_DO_KEYPAD_OFF,
     EID_DO_MODULE,
     EID_DO_NEW_SETUP,
     EID_AO_NEW_MIN,
     EID_AO_NEW_MAX,
     EID_AO_SIM_ON,
     EID_AO_SIM_OFF,
     EID_AO_MODULE,
     EID_AO_NEW_AMIN,
     EID_AO_NEW_WMIN,
     EID_AO_NEW_WMAX,
     EID_AO_NEW_AMAX,
     EID_AO_NEW_HYST,
     EID_AO_NEW_SETUP,
     EID_AO_AMIN,
     EID_AO_WMIN,
     EID_AO_AMAX,
     EID_AO_WMAX,
     EID_AO_NORMAL,
     EID_AO_NAN,
     EID_SAMPLER_START_PERIOD,
     EID_SAMPLER_START_VOLUME,
     EID_SAMPLER_START_MASS,
     EID_SAMPLER_START_TEST,
     EID_SAMPLER_STOP,
     EID_SAMPLER_DONT_STOP,
     EID_SAMPLER_FINISH,
     EID_SAMPLER_CONFIRM,
     EID_SAMPLER_MODE_FAULT,
     EID_SAMPLER_COMMAND_FAULT,
     EID_SAMPLER_SELECT_FAULT,
     EID_SAMPLER_START_FAULT,
     EID_PROVE_BADCOMMAND,
     EID_PROVE_MODULE,
     EID_PROVE_ERRORSTABTEMP,
     EID_PROVE_ERRORSTABPRES,
     EID_PROVE_ERRORSTABDENS,
     EID_PROVE_ERRORSTABFREQ,
     EID_PROVE_BADSTREAMNUMBER,
     EID_PROVE_CANNOTMODIFYSETUP,
     EID_PROVE_COMMANDSTART,
     EID_PROVE_COMMANDABORT,
     EID_PROVE_COMMANDRESET,
     EID_PROVE_NOTSTARTED,
     EID_PROVE_ALREADYSTARTED,
     EID_PROVE_NOTERROR,
     EID_PROVE_ISERROR,
     EID_PROVE_DETECTOR1,
     EID_PROVE_DETECTOR2,
     EID_PROVE_DETECTOR3,
     EID_PROVE_DETECTOR4,
     EID_PROVE_STATE_IDLE,
     EID_PROVE_STATE_START,
     EID_PROVE_STATE_STAB,
     EID_PROVE_STATE_RUNBALL,
     EID_PROVE_STATE_VALVETOUP,
     EID_PROVE_STATE_WAITTOUP,
     EID_PROVE_STATE_VALVETODOWN,
     EID_PROVE_STATE_WAITD1,
     EID_PROVE_STATE_WAITD2,
     EID_PROVE_STATE_CALCULATE,
     EID_PROVE_STATE_RETURNBALL,
     EID_PROVE_STATE_WAITED1_RVS,
     EID_PROVE_STATE_WAITED2_RVS,
     EID_PROVE_STATE_WAYCOMPLTED,
     EID_PROVE_STATE_FINISH,
     EID_PROVE_STATE_ABORT,
     EID_PROVE_STATE_ERRORFLOW,
     EID_PROVE_STATE_ERRORSTAB,
     EID_PROVE_STATE_ERRORTOUP,
     EID_PROVE_STATE_ERRORTDOWN,
     EID_PROVE_STATE_ERRORD1,
     EID_PROVE_STATE_ERRORD2,
     EID_PROVE_STATE_ERRORDETS,
     EID_PROVE_STATE_ERRORRETURN,
     EID_PROVE_STATE_ERRORRSTRID,
     EID_PROVE_STATE_ERRORD1_RVS,
     EID_PROVE_STATE_ERRORD2_RVS,
     EID_PROVE_NEW_AMIN,
     EID_PROVE_NEW_WMIN,
     EID_PROVE_NEW_WMAX,
     EID_PROVE_NEW_AMAX,
     EID_PROVE_NEW_HYST,
     EID_PROVE_NEW_SETUP,
     EID_PROVE_AMIN,
     EID_PROVE_WMIN,
     EID_PROVE_AMAX,
     EID_PROVE_WMAX,
     EID_PROVE_NORMAL,
     EID_PROVE_NAN,
     EID_MASWTR_NEW_AMIN,
     EID_MASWTR_NEW_WMIN,
     EID_MASWTR_NEW_WMAX,
     EID_MASWTR_NEW_AMAX,
     EID_MASWTR_NEW_HYST,
     EID_MASWTR_NEW_SETUP,
     EID_MASWTR_AMIN,
     EID_MASWTR_WMIN,
     EID_MASWTR_AMAX,
     EID_MASWTR_WMAX,
     EID_MASWTR_NORMAL,
     EID_MASWTR_NAN,
     EID_VOLWTR_NEW_AMIN,
     EID_VOLWTR_NEW_WMIN,
     EID_VOLWTR_NEW_WMAX,
     EID_VOLWTR_NEW_AMAX,
     EID_VOLWTR_NEW_HYST,
     EID_VOLWTR_NEW_SETUP,
     EID_VOLWTR_AMIN,
     EID_VOLWTR_WMIN,
     EID_VOLWTR_AMAX,
     EID_VOLWTR_WMAX,
     EID_VOLWTR_NORMAL,
     EID_VOLWTR_NAN,
     EID_KINVISC_NEW_AMIN,
     EID_KINVISC_NEW_WMIN,
     EID_KINVISC_NEW_WMAX,
     EID_KINVISC_NEW_AMAX,
     EID_KINVISC_NEW_HYST,
     EID_KINVISC_NEW_SETUP,
     EID_KINVISC_AMIN,
     EID_KINVISC_WMIN,
     EID_KINVISC_AMAX,
     EID_KINVISC_WMAX,
     EID_KINVISC_NORMAL,
     EID_KINVISC_NAN,
     EID_DYNVISC_NEW_AMIN,
     EID_DYNVISC_NEW_WMIN,
     EID_DYNVISC_NEW_WMAX,
     EID_DYNVISC_NEW_AMAX,
     EID_DYNVISC_NEW_HYST,
     EID_DYNVISC_NEW_SETUP,
     EID_DYNVISC_AMIN,
     EID_DYNVISC_WMIN,
     EID_DYNVISC_AMAX,
     EID_DYNVISC_WMAX,
     EID_DYNVISC_NORMAL,
     EID_DYNVISC_NAN,
     EID_HARDWARE_MODULE_ISNULL,
     EID_HARDWARE_MODULE_FAULT]"

section \<open>The fields of an identifier\<close>

lemma eid_masks:
  "(0x3 :: 'a::len word) = mask 2" "(0x03FF :: 'a word) = mask 10" "(0xFFFF :: 'a word) = mask 16"
  "(0x0001 :: 'a word) = mask 1" "(0x20000000 :: 'a word) = push_bit 29 1"
  by (simp_all add: mask_eq_exp_minus_1 push_bit_eq_mult)

lemma eid_source_bit: "bit (0x20000000 :: UDINT) n \<longleftrightarrow> n = 29"
  unfolding eid_masks(5) bit_push_bit_iff by (auto simp: bit_1_iff)

lemma MAKE_EID_bit:
  "bit (MAKE_EID t o' i) n \<longleftrightarrow> n < 32 \<and>
     (if n < 16 then bit i n else if n < 26 then bit o' (n - 16)
      else if n < 30 then n = 29 else bit t (n - 30))"
  unfolding MAKE_EID_def eid_masks(1,2,3) bit_or_iff eid_source_bit
  by (auto simp: bit_and_iff bit_push_bit_iff bit_mask_iff bit_ucast_iff
      dest: bit_imp_le_length)

lemma sbit_drop: "k + n < 32 \<Longrightarrow> bit (signed_drop_bit k (e :: 32 word)) n \<longleftrightarrow> bit e (k + n)"
  by (auto simp: bit_signed_drop_bit_iff)

lemma sdrop_mask:
  "k + m \<le> 32 \<Longrightarrow> (\<And>n. n < m \<Longrightarrow> bit (e :: 32 word) (k + n) \<longleftrightarrow> bit w n) \<Longrightarrow>
   signed_drop_bit k e AND mask m = w AND mask m"
  by (rule bit_eqI) (auto simp: bit_and_iff bit_mask_iff sbit_drop)

lemma eid_decode_type: "eid_getType (MAKE_EID t o' i) = ucast t AND mask 2"
  unfolding eid_getType_def eid_masks
  by (rule sdrop_mask) (auto simp: MAKE_EID_bit bit_ucast_iff)

lemma eid_decode_source: "eid_getSource (MAKE_EID t o' i) = 1 AND mask 1"
  unfolding eid_getSource_def eid_masks
  by (rule sdrop_mask) (auto simp: MAKE_EID_bit bit_1_iff)

lemma eid_decode_object: "eid_getObject (MAKE_EID t o' i) = ucast o' AND mask 10"
  unfolding eid_getObject_def eid_masks
  by (rule sdrop_mask) (auto simp: MAKE_EID_bit bit_ucast_iff)

lemma eid_decode_id: "eid_getID (MAKE_EID t o' i) = ucast i AND mask 16"
  unfolding eid_getID_def eid_masks
  by (rule bit_eqI) (auto simp: MAKE_EID_bit bit_and_iff bit_mask_iff bit_ucast_iff)

lemma MAKE_EID_defined [simp]: "MAKE_EID t o' i \<noteq> EID_UNDEF"
proof -
  have "bit (MAKE_EID t o' i) 29" by (simp add: MAKE_EID_bit)
  then show ?thesis by (auto simp: EID_UNDEF_def)
qed

text \<open>
  An identifier unpacks to what it was packed from: the type is the low two bits of the type
  argument, the object the low ten bits of the object, the number the low sixteen bits of the
  number, and the source bit is always set, so no argument can spill into a neighbouring field.
\<close>

theorem eid_fields:
  "eid_getType (MAKE_EID t o' i) = ucast t AND 0x3
   \<and> eid_getSource (MAKE_EID t o' i) = 1
   \<and> eid_getObject (MAKE_EID t o' i) = ucast o' AND 0x03FF
   \<and> eid_getID (MAKE_EID t o' i) = ucast i AND 0xFFFF
   \<and> MAKE_EID t o' i \<noteq> EID_UNDEF"
  by (simp add: eid_decode_type eid_decode_source eid_decode_object eid_decode_id
      mask_eq_exp_minus_1)

section \<open>All identifiers of the header\<close>

text \<open>The object and the number, as one key: the part of an identifier that must be unique.\<close>

definition eid_key :: "UDINT \<Rightarrow> UDINT" where
  "eid_key e = e AND 0x03FFFFFF"

lemma sorted_less_distinct: "sorted_wrt (<) xs \<Longrightarrow> distinct xs" for xs :: "'a::linorder list"
  by (induction xs) auto

lemma eid_key_chain: "sorted_wrt (<) (map eid_key eid_list)"
  unfolding eid_list_def eid_defs eid_const_defs MAKE_EID_def eid_key_def
  by (simp add: sorted_wrt2 sorted_wrt1 del: sorted_wrt.simps)

lemma eid_list_objects:
  "list_all (\<lambda>e. e \<noteq> EID_UNDEF \<and> eid_getObject e < ucast EVENT_OBJ_END
        \<and> eid_getSource e = 1) eid_list"
  unfolding eid_list_def eid_defs list.pred_inject
  by (simp add: eid_decode_object eid_decode_source eid_const_defs mask_eq_exp_minus_1)

text \<open>
  The identifiers the header creates are pairwise different, also when the type bits are
  ignored: two events never share an object and a number. Every one names an object the
  description table has and none is the undefined identifier that the event manager refuses.
\<close>

theorem eid_list_unique:
  "distinct (map eid_key eid_list)
   \<and> list_all (\<lambda>e. e \<noteq> EID_UNDEF \<and> eid_getObject e < ucast EVENT_OBJ_END
        \<and> eid_getSource e = 1) eid_list"
  by (intro conjI sorted_less_distinct eid_key_chain eid_list_objects)

end
