(* ===== verification/Container.thy ===== *)
theory Container
  imports Prelude
begin

text \<open>
  The byte container of \<^verbatim>\<open>src/shared/container.cpp\<close>: values are appended as their
  little-endian bytes and read back in order. A \<open>codec\<close> locale states what a value type needs
  for its bytes to be read back; it is interpreted for the integer widths the container
  serialises. \<^verbatim>\<open>rDateTime\<close> (\<^verbatim>\<open>src/shared/datetime.cpp\<close>) is the pair of 64-bit counters
  of a \<^verbatim>\<open>timeval\<close>.
\<close>

section \<open>Little-endian bytes\<close>

definition le_bytes :: "nat \<Rightarrow> 'a::len word \<Rightarrow> bytes" where
  "le_bytes n w = map (\<lambda>i. ucast (drop_bit (8 * i) w)) [0..<n]"

fun le_word :: "bytes \<Rightarrow> 'a::len word" where
  "le_word [] = 0"
| "le_word (b # bs) = ucast b OR push_bit 8 (le_word bs)"

lemma length_le_bytes [simp]: "length (le_bytes n w) = n"
  by (simp add: le_bytes_def)

lemma le_bytes_nth: "i < n \<Longrightarrow> le_bytes n w ! i = ucast (drop_bit (8 * i) w)"
  by (simp add: le_bytes_def)

lemma bit_le_word:
  "bit (le_word bs :: 'a::len word) k \<longleftrightarrow>
     k < LENGTH('a) \<and> k < 8 * length bs \<and> bit (bs ! (k div 8)) (k mod 8)"
proof (induction bs arbitrary: k)
  case (Cons b bs)
  show ?case
  proof (cases "k < 8")
    case True
    then show ?thesis by (auto simp: bit_or_iff bit_ucast_iff bit_push_bit_iff)
  next
    case False
    then obtain j where k: "k = j + 8" by (metis add.commute le_Suc_ex linorder_not_less)
    show ?thesis
      using Cons.IH [of j] bit_imp_le_length [of b "j + 8"]
      by (auto simp: k bit_or_iff bit_ucast_iff bit_push_bit_iff bit_imp_le_length)
  qed
qed simp

lemma le_word_le_bytes:
  fixes w :: "'a::len word"
  assumes "LENGTH('a) \<le> 8 * n"
  shows "le_word (le_bytes n w) = w"
proof (rule bit_eqI)
  fix k assume "possible_bit TYPE('a word) k"
  then have k: "k < LENGTH('a)" by simp
  with assms have "k div 8 < n" "k < 8 * n" by auto
  with k show "bit (le_word (le_bytes n w) :: 'a word) k \<longleftrightarrow> bit w k"
    by (simp add: bit_le_word le_bytes_nth bit_ucast_iff bit_drop_bit_eq)
qed

section \<open>The container\<close>

record Container =
  m_data :: bytes
  m_readpos :: nat
  m_isEOF :: bool

text \<open>\<^verbatim>\<open>Container()\<close>: the constructor leaves \<^verbatim>\<open>m_isEOF\<close> to what memory holds.\<close>

definition container_new :: "bool \<Rightarrow> Container" where
  "container_new garbage = \<lparr>m_data = [], m_readpos = 0, m_isEOF = garbage\<rparr>"

definition container_add :: "bytes \<Rightarrow> Container \<Rightarrow> Container" where
  "container_add buff c = c\<lparr>m_data := m_data c @ buff, m_isEOF := False\<rparr>"

text \<open>\<open>get\<close> yields the bytes it copies, or \<^term>\<open>None\<close> when it leaves the buffer as it was.\<close>

definition container_get :: "nat \<Rightarrow> Container \<Rightarrow> bytes option \<times> Container" where
  "container_get n c =
     (if m_isEOF c then (None, c)
      else if m_readpos c + n > length (m_data c) then (None, c\<lparr>m_isEOF := True\<rparr>)
      else (Some (take n (drop (m_readpos c) (m_data c))),
            c\<lparr>m_readpos := m_readpos c + n\<rparr>))"

definition container_isEnd :: "Container \<Rightarrow> bool" where
  "container_isEnd c \<longleftrightarrow> m_readpos c \<ge> length (m_data c)"

text \<open>\<^verbatim>\<open>setReadPos\<close> ignores its argument.\<close>

definition container_setReadPos :: "nat \<Rightarrow> Container \<Rightarrow> Container" where
  "container_setReadPos pos c = c\<lparr>m_readpos := 0\<rparr>"

text \<open>\<open>cnt << val\<close> and \<open>cnt >> val\<close>; a failed read leaves the variable's old value.\<close>

definition cnt_put :: "nat \<Rightarrow> 'a::len word \<Rightarrow> Container \<Rightarrow> Container" where
  "cnt_put n w c = container_add (le_bytes n w) c"

definition cnt_take :: "nat \<Rightarrow> 'a::len word \<Rightarrow> Container \<Rightarrow> 'a word \<times> Container" where
  "cnt_take n old c = (case container_get n c of
     (Some bs, c') \<Rightarrow> (le_word bs, c') | (None, c') \<Rightarrow> (old, c'))"

section \<open>Reading what was written\<close>

text \<open>
  \<open>pending c bs\<close>: the container can be read and \<open>bs\<close> are the bytes still to be read. Reads and
  writes are steps of a queue of bytes.
\<close>

definition pending :: "Container \<Rightarrow> bytes \<Rightarrow> bool" where
  "pending c bs \<longleftrightarrow> \<not> m_isEOF c \<and> m_readpos c \<le> length (m_data c) \<and> drop (m_readpos c) (m_data c) = bs"

lemma pending_add: "m_readpos c \<le> length (m_data c) \<Longrightarrow>
    pending (container_add bs c) (drop (m_readpos c) (m_data c) @ bs)"
  by (simp add: pending_def container_add_def)

lemma pending_get:
  assumes "pending c (bs @ rest)" "length bs = n"
  shows "\<exists>c'. container_get n c = (Some bs, c') \<and> pending c' rest \<and> m_data c' = m_data c"
proof -
  have "length (drop (m_readpos c) (m_data c)) = n + length rest"
    using assms by (auto simp: pending_def)
  then have "m_readpos c + n \<le> length (m_data c)"
    using assms(1) unfolding pending_def length_drop by linarith
  moreover have "take n (drop (m_readpos c) (m_data c)) = bs"
    using assms by (auto simp: pending_def)
  moreover have "drop (m_readpos c + n) (m_data c) = rest"
    using assms by (metis add.commute append_eq_conv_conj drop_drop pending_def)
  ultimately show ?thesis
    using assms by (simp add: container_get_def pending_def)
qed

lemma get_short: "\<not> m_isEOF c \<Longrightarrow> length (m_data c) < m_readpos c + n \<Longrightarrow>
    container_get n c = (None, c\<lparr>m_isEOF := True\<rparr>)"
  by (simp add: container_get_def)

text \<open>The contract of a fixed-size value type and what the container makes of it.\<close>

locale codec =
  fixes enc :: "'a \<Rightarrow> bytes" and dec :: "bytes \<Rightarrow> 'a" and width :: nat
  assumes enc_length: "length (enc x) = width"
    and dec_enc: "dec (enc x) = x"
begin

definition put :: "'a \<Rightarrow> Container \<Rightarrow> Container" where
  "put x c = container_add (enc x) c"

definition tke :: "'a \<Rightarrow> Container \<Rightarrow> 'a \<times> Container" where
  "tke old c = (case container_get width c of
     (Some bs, c') \<Rightarrow> (dec bs, c') | (None, c') \<Rightarrow> (old, c'))"

lemma take_pending:
  assumes "pending c (enc x @ rest)"
  shows "\<exists>c'. tke old c = (x, c') \<and> pending c' rest \<and> m_data c' = m_data c"
  using pending_get [OF assms enc_length] by (auto simp: tke_def dec_enc)

lemma take_short:
  assumes "\<not> m_isEOF c" "length (m_data c) < m_readpos c + width"
  shows "tke old c = (old, c\<lparr>m_isEOF := True\<rparr>)"
  using get_short [OF assms] by (simp add: tke_def)

lemma take_EOF: "m_isEOF c \<Longrightarrow> tke old c = (old, c)"
  by (simp add: tke_def container_get_def)

end

interpretation u8: codec "le_bytes 1 :: 8 word \<Rightarrow> bytes" le_word 1
  by unfold_locales (simp_all add: le_word_le_bytes)

interpretation u16: codec "le_bytes 2 :: 16 word \<Rightarrow> bytes" le_word 2
  by unfold_locales (simp_all add: le_word_le_bytes)

interpretation u32: codec "le_bytes 4 :: 32 word \<Rightarrow> bytes" le_word 4
  by unfold_locales (simp_all add: le_word_le_bytes)

interpretation u64: codec "le_bytes 8 :: 64 word \<Rightarrow> bytes" le_word 8
  by unfold_locales (simp_all add: le_word_le_bytes)

lemma cnt_take_eq:
  "cnt_take 1 = u8.tke" "cnt_take 2 = u16.tke" "cnt_take 4 = u32.tke" "cnt_take 8 = u64.tke"
  by (intro ext, simp only: cnt_take_def u8.tke_def u16.tke_def u32.tke_def u64.tke_def)+

lemmas take_pending =
  u8.take_pending [folded cnt_take_eq] u16.take_pending [folded cnt_take_eq]
  u32.take_pending [folded cnt_take_eq] u64.take_pending [folded cnt_take_eq]

section \<open>Time stamps\<close>

record rDateTime =
  tv_sec :: "64 word"
  tv_usec :: "64 word"

definition SEC_IN_DAY :: UDINT where "SEC_IN_DAY = 24 * 60 * 60"

definition dt_clear :: "rDateTime" where
  "dt_clear = \<lparr>tv_sec = 0, tv_usec = 0\<rparr>"

definition dt_getSec :: "rDateTime \<Rightarrow> UDINT" where
  "dt_getSec d = ucast (tv_sec d)"

definition dt_getUsec :: "rDateTime \<Rightarrow> UDINT" where
  "dt_getUsec d = ucast (tv_usec d)"

definition dt_toContainer :: "rDateTime \<Rightarrow> Container \<Rightarrow> Container" where
  "dt_toContainer d c = cnt_put 8 (tv_usec d) (cnt_put 8 (tv_sec d) c)"

definition dt_fromContainer :: "rDateTime \<Rightarrow> Container \<Rightarrow> rDateTime \<times> Container" where
  "dt_fromContainer d c =
     (let (s, c1) = cnt_take 8 (tv_sec d) c; (u, c2) = cnt_take 8 (tv_usec d) c1
      in (\<lparr>tv_sec = s, tv_usec = u\<rparr>, c2))"

end
