(* ===== verification/Lreal.thy ===== *)
theory Lreal
  imports Prelude
begin

text \<open>
  The \<^verbatim>\<open>LREAL\<close> (\<^verbatim>\<open>double\<close>) and \<^verbatim>\<open>REAL\<close> (\<^verbatim>\<open>float\<close>) values of the source:
  a finite real, an infinity or a NaN. Every arithmetic operation computes the exact real
  result and rounds it to the nearest value of the format, ties to even, as IEEE 754
  prescribes; overflow gives an infinity. Comparisons with a NaN are false. The two zeros are
  one value here (a quotient by zero takes its sign from the dividend), and NaN payloads are
  not kept.
\<close>

datatype lreal = Fin real | PInf | NInf | NaN

fun isfinite :: "lreal \<Rightarrow> bool" where
  "isfinite (Fin _) = True"
| "isfinite _ = False"

section \<open>Rounding\<close>

text \<open>\<open>rne\<close> rounds to the nearest integer, ties to even; \<open>ilog2 x\<close> is the exponent of \<open>x > 0\<close>.\<close>

definition rne :: "real \<Rightarrow> int" where
  "rne y = (let f = \<lfloor>y\<rfloor>; d = y - of_int f in
     if d < 1 / 2 then f else if 1 / 2 < d then f + 1 else if even f then f else f + 1)"

definition ilog2 :: "real \<Rightarrow> int" where
  "ilog2 x = (if 1 \<le> x then int (floorlog 2 (nat \<lfloor>x\<rfloor>)) - 1
              else - int (floorlog 2 (nat (\<lceil>1 / x\<rceil> - 1))))"

text \<open>A format has \<open>p\<close> bits of precision, least exponent \<open>emin\<close> (of the last bit) and overflows at \<open>2 ^ emax\<close>.\<close>

definition ulp_exp :: "int \<Rightarrow> int \<Rightarrow> real \<Rightarrow> int" where
  "ulp_exp p emin x = max (ilog2 \<bar>x\<bar> - (p - 1)) emin"

definition round_raw :: "int \<Rightarrow> int \<Rightarrow> real \<Rightarrow> real" where
  "round_raw p emin x = (let u = 2 powi (ulp_exp p emin x) in of_int (rne (x / u)) * u)"

definition fround :: "int \<Rightarrow> int \<Rightarrow> int \<Rightarrow> real \<Rightarrow> lreal" where
  "fround p emin emax x = (let r = round_raw p emin x in
     if 2 powi emax \<le> r then PInf else if r \<le> - (2 powi emax) then NInf else Fin r)"

definition dround :: "real \<Rightarrow> lreal" where
  "dround = fround 53 (- 1074) 1024"

definition sround :: "real \<Rightarrow> lreal" where
  "sround = fround 24 (- 149) 128"

lemma rne_of_int [simp]: "rne (of_int k) = k"
  by (simp add: rne_def)

lemma rne_mono:
  assumes "x \<le> y"
  shows "rne x \<le> rne y"
proof (cases "\<lfloor>x\<rfloor> = \<lfloor>y\<rfloor>")
  case True
  with assms show ?thesis by (auto simp: rne_def Let_def)
next
  case False
  with assms have "\<lfloor>x\<rfloor> + 1 \<le> \<lfloor>y\<rfloor>" using floor_mono [OF assms] by linarith
  then show ?thesis by (auto simp: rne_def Let_def)
qed

lemma floorlog_real_bounds:
  assumes "0 < n"
  shows "2 powi (int (floorlog 2 n) - 1) \<le> real n" "real n < 2 powi (int (floorlog 2 n))"
proof -
  have f: "2 ^ (floorlog 2 n - 1) \<le> n \<and> n < 2 ^ floorlog 2 n"
    using floorlog_bounds [of n 2] assms by simp
  have pos: "0 < floorlog 2 n" using assms floorlog_eq_zero_iff [of 2 n] by simp
  have "real (2 ^ (floorlog 2 n - 1)) \<le> real n" using f of_nat_le_iff by blast
  moreover have "int (floorlog 2 n) - 1 = int (floorlog 2 n - 1)" using pos by simp
  ultimately show "2 powi (int (floorlog 2 n) - 1) \<le> real n"
    by (simp only: power_int_of_nat of_nat_power of_nat_numeral)
  have "real n < real (2 ^ floorlog 2 n)" using f of_nat_less_iff by blast
  then show "real n < 2 powi (int (floorlog 2 n))"
    by (simp only: power_int_of_nat of_nat_power of_nat_numeral)
qed

lemma ilog2_bounds:
  assumes "0 < x"
  shows "2 powi (ilog2 x) \<le> x" "x < 2 powi (ilog2 x + 1)"
proof -
  have "2 powi (ilog2 x) \<le> x \<and> x < 2 powi (ilog2 x + 1)"
  proof (cases "1 \<le> x")
    case True
    define n where "n = nat \<lfloor>x\<rfloor>"
    have n: "0 < n" "real n \<le> x" "x < real n + 1" using True by (auto simp: n_def)
    have fl: "int n < 2 ^ floorlog 2 n" using floorlog_bounds [of n 2] n(1)
      by (metis of_nat_less_numeral_power_cancel_iff one_less_numeral_iff semiring_norm(76))
    then have "real n + 1 \<le> 2 ^ floorlog 2 n"
      by (metis add.commute int_less_real_le of_int_of_nat_eq of_int_numeral of_int_power)
    with n floorlog_real_bounds [OF n(1)] True show ?thesis
      by (simp add: ilog2_def n_def [symmetric])
  next
    case False
    define n where "n = nat (\<lceil>1 / x\<rceil> - 1)"
    have inv: "1 < 1 / x" using False assms by (simp add: field_simps)
    have n: "0 < n" "real n < 1 / x" "1 / x \<le> real n + 1"
      using inv by (auto simp: n_def) linarith+
    let ?k = "floorlog 2 n"
    have "int n < 2 ^ ?k" using floorlog_bounds [of n 2] n(1)
      by (metis of_nat_less_numeral_power_cancel_iff one_less_numeral_iff semiring_norm(76))
    then have up: "real n + 1 \<le> 2 ^ ?k"
      by (metis add.commute int_less_real_le of_int_of_nat_eq of_int_numeral of_int_power)
    have "1 / x \<le> 2 ^ ?k" using n up by linarith
    then have a: "2 powi (- int ?k) \<le> x"
      using assms by (simp add: power_int_minus field_simps)
    have "2 powi (int ?k - 1) < 1 / x" using floorlog_real_bounds [OF n(1)] n by linarith
    then have "x < inverse (2 powi (int ?k - 1))"
      using assms by (simp add: field_simps)
    then have "x < 2 powi (- (int ?k - 1))" by (simp only: power_int_minus)
    with a False show ?thesis by (simp add: ilog2_def n_def [symmetric])
  qed
  then show "2 powi (ilog2 x) \<le> x" "x < 2 powi (ilog2 x + 1)" by auto
qed

lemma ilog2_le:
  assumes "0 < x" "x < 2 powi (k + 1)"
  shows "ilog2 x \<le> k"
proof -
  have "2 powi (ilog2 x) < (2::real) powi (k + 1)" using ilog2_bounds(1) [OF assms(1)] assms(2) by linarith
  then have "ilog2 x < k + 1"
    using power_int_increasing [of "k + 1" "ilog2 x" "2 :: real"] by force
  then show ?thesis by simp
qed

lemma ilog2_mono: "0 < x \<Longrightarrow> x \<le> y \<Longrightarrow> ilog2 x \<le> ilog2 y"
  using ilog2_bounds(2) [of y] by (intro ilog2_le) auto

subsection \<open>Representable values are exact\<close>

lemma round_raw_exact:
  assumes x: "x = of_int m * 2 powi e" and m: "\<bar>m\<bar> < 2 ^ p" and e: "emin \<le> e"
  shows "round_raw (int p) emin x = x"
proof (cases "x = 0")
  case True
  then show ?thesis using rne_of_int [of 0] by (simp add: round_raw_def)
next
  case False
  let ?e = "ulp_exp (int p) emin x"
  have "real_of_int \<bar>m\<bar> < real_of_int (2 ^ p)" using m of_int_less_iff by blast
  then have "\<bar>x\<bar> < 2 ^ p * 2 powi e" using x by (simp add: abs_mult)
  also have "\<dots> = 2 powi ((int p + e - 1) + 1)" by (simp add: power_int_add)
  finally have "ilog2 \<bar>x\<bar> \<le> int p + e - 1" using False by (intro ilog2_le) auto
  then have le: "?e \<le> e" using e by (simp add: ulp_exp_def)
  have "x / 2 powi ?e = of_int m * 2 powi (e - ?e)" by (simp add: x power_int_diff)
  also have "\<dots> = of_int (m * 2 ^ nat (e - ?e))" using le by (simp add: power_int_def)
  finally have "rne (x / 2 powi ?e) = m * 2 ^ nat (e - ?e)" by (simp only: rne_of_int)
  moreover have "real_of_int (m * 2 ^ nat (e - ?e)) * 2 powi ?e
      = of_int m * (2 powi (e - ?e) * 2 powi ?e)"
    using le by (simp add: power_int_def)
  moreover have "\<dots> = x" by (simp add: x flip: power_int_add)
  ultimately show ?thesis by (simp only: round_raw_def Let_def)
qed

lemma fround_exact:
  assumes "x = of_int m * 2 powi e" "\<bar>m\<bar> < 2 ^ p" "emin \<le> e" "\<bar>x\<bar> < 2 powi emax"
  shows "fround (int p) emin emax x = Fin x"
proof -
  have "\<not> 2 powi emax \<le> x" "\<not> x \<le> - (2 powi emax)" using assms(4) by linarith+
  then show ?thesis by (simp add: fround_def round_raw_exact [OF assms(1-3)])
qed

lemma dround_exact:
  assumes "x = of_int m * 2 powi e" "\<bar>m\<bar> < 2 ^ 53" "- 1074 \<le> e" "\<bar>x\<bar> < 2 powi 1024"
  shows "dround x = Fin x"
  using fround_exact [OF assms] by (simp add: dround_def)

lemma dround_of_int: "\<bar>k\<bar> < 2 ^ 53 \<Longrightarrow> dround (of_int k) = Fin (of_int k)"
proof (rule dround_exact [of _ k 0])
  assume k: "\<bar>k\<bar> < 2 ^ 53"
  then have "real_of_int \<bar>k\<bar> < real_of_int (2 ^ 53)" using of_int_less_iff by blast
  moreover have "(2::real) ^ 53 \<le> 2 powi 1024"
    using power_int_increasing [of 53 1024 "2 :: real"] by simp
  ultimately show "\<bar>real_of_int k\<bar> < 2 powi 1024" by simp
qed auto

lemma dround_numeral [simp]:
  "numeral n < (9007199254740992 :: int) \<Longrightarrow> dround (numeral n) = Fin (numeral n)"
  "numeral n < (9007199254740992 :: int) \<Longrightarrow> dround (- numeral n) = Fin (- numeral n)"
  "dround 0 = Fin 0" "dround 1 = Fin 1" "dround (- 1) = Fin (- 1)"
  using dround_of_int [of "numeral n"] dround_of_int [of "- numeral n"]
    dround_of_int [of 0] dround_of_int [of 1] dround_of_int [of "- 1"] by simp_all

subsection \<open>Rounding is monotone\<close>

lemma rne_minus: "rne (- y) = - rne y"
proof (cases "y = of_int \<lfloor>y\<rfloor>")
  case True
  then show ?thesis by (metis of_int_minus rne_of_int)
next
  case False
  then have "\<lfloor>- y\<rfloor> = - \<lfloor>y\<rfloor> - 1" by linarith
  then show ?thesis by (auto simp: rne_def Let_def)
qed

lemma round_raw_minus: "round_raw p emin (- x) = - round_raw p emin x"
  by (simp add: round_raw_def Let_def ulp_exp_def rne_minus)

lemma round_raw_nonneg: "0 \<le> x \<Longrightarrow> 0 \<le> round_raw p emin x"
  using rne_mono [of 0 "x / 2 powi (ulp_exp p emin x)"] rne_of_int [of 0]
  by (simp add: round_raw_def Let_def)

lemma round_raw_le_power:
  assumes "0 < x" "1 \<le> p"
  shows "round_raw p emin x \<le> 2 powi (ulp_exp p emin x + p)"
proof -
  let ?e = "ulp_exp p emin x"
  have "x < 2 powi (ilog2 x + 1)" using assms ilog2_bounds(2) by blast
  also have "\<dots> \<le> 2 powi (?e + p)"
    using assms by (intro power_int_increasing) (auto simp: ulp_exp_def)
  finally have "x / 2 powi ?e \<le> 2 powi p" by (simp add: power_int_add field_simps)
  then have "x / 2 powi ?e \<le> of_int (2 ^ nat p)" using assms by (simp add: power_int_def)
  then have "rne (x / 2 powi ?e) \<le> 2 ^ nat p" using rne_mono rne_of_int by metis
  then have "real_of_int (rne (x / 2 powi ?e)) \<le> 2 powi p"
    using assms by (simp add: power_int_def flip: of_int_le_iff)
  then show ?thesis
    by (simp add: round_raw_def Let_def power_int_add mult_right_mono mult.commute)
qed

lemma round_raw_ge_power:
  assumes "0 < x" "1 \<le> p" "emin < ulp_exp p emin x"
  shows "2 powi (ulp_exp p emin x + p - 1) \<le> round_raw p emin x"
proof -
  let ?e = "ulp_exp p emin x"
  have e: "?e + p - 1 = ilog2 x" using assms by (auto simp: ulp_exp_def)
  have "2 powi (p - 1) * 2 powi ?e \<le> x"
    using ilog2_bounds(1) [OF assms(1)] e by (simp flip: power_int_add add: algebra_simps)
  then have "2 powi (p - 1) \<le> x / 2 powi ?e" by (simp add: field_simps)
  then have "of_int (2 ^ nat (p - 1)) \<le> x / 2 powi ?e" using assms by (simp add: power_int_def)
  then have "2 ^ nat (p - 1) \<le> rne (x / 2 powi ?e)" using rne_mono rne_of_int by metis
  then have "2 powi (p - 1) \<le> real_of_int (rne (x / 2 powi ?e))"
    using assms by (simp add: power_int_def flip: of_int_le_iff)
  then have "2 powi (p - 1) * 2 powi ?e \<le> round_raw p emin x"
    by (simp add: round_raw_def Let_def mult_right_mono)
  then show ?thesis by (simp flip: power_int_add add: algebra_simps)
qed

lemma round_raw_mono_pos:
  assumes "0 < x" "x \<le> y" "1 \<le> p"
  shows "round_raw p emin x \<le> round_raw p emin y"
proof (cases "ulp_exp p emin x = ulp_exp p emin y")
  case True
  then show ?thesis using assms
    by (simp add: round_raw_def Let_def rne_mono divide_right_mono mult_right_mono)
next
  case False
  have "ulp_exp p emin x \<le> ulp_exp p emin y"
    using ilog2_mono [of x y] assms by (auto simp: ulp_exp_def)
  with False have lt: "ulp_exp p emin x < ulp_exp p emin y" by simp
  then have "emin < ulp_exp p emin y" by (auto simp: ulp_exp_def)
  then have "2 powi (ulp_exp p emin y + p - 1) \<le> round_raw p emin y"
    using assms by (intro round_raw_ge_power) auto
  moreover have "round_raw p emin x \<le> 2 powi (ulp_exp p emin x + p)"
    using assms by (intro round_raw_le_power) auto
  moreover have "2 powi (ulp_exp p emin x + p) \<le> (2::real) powi (ulp_exp p emin y + p - 1)"
    using lt by (intro power_int_increasing) auto
  ultimately show ?thesis by linarith
qed

lemma round_raw_mono: "x \<le> y \<Longrightarrow> 1 \<le> p \<Longrightarrow> round_raw p emin x \<le> round_raw p emin y"
  using round_raw_mono_pos [of x y p emin] round_raw_mono_pos [of "- y" "- x" p emin]
    round_raw_nonneg [of y p emin] round_raw_nonneg [of "- x" p emin]
  by (cases "0 < x"; cases "0 < - y") (auto simp: round_raw_minus)

section \<open>Comparison and arithmetic\<close>

text \<open>
  \<open>\<le>\<close> and \<open><\<close> on \<^typ>\<open>lreal\<close> are the comparisons of C, false where an operand is a NaN;
  \<open>deq\<close> is its \<^verbatim>\<open>==\<close>. \<open>+ - * /\<close> are the operations of \<^verbatim>\<open>double\<close>.
\<close>

instantiation lreal :: ord
begin

fun less_eq_lreal :: "lreal \<Rightarrow> lreal \<Rightarrow> bool" where
  "less_eq_lreal NaN _ = False"
| "less_eq_lreal _ NaN = False"
| "less_eq_lreal (Fin a) (Fin b) = (a \<le> b)"
| "less_eq_lreal NInf _ = True"
| "less_eq_lreal _ PInf = True"
| "less_eq_lreal _ _ = False"

fun less_lreal :: "lreal \<Rightarrow> lreal \<Rightarrow> bool" where
  "less_lreal NaN _ = False"
| "less_lreal _ NaN = False"
| "less_lreal (Fin a) (Fin b) = (a < b)"
| "less_lreal NInf b = (b \<noteq> NInf)"
| "less_lreal a PInf = (a \<noteq> PInf)"
| "less_lreal _ _ = False"

instance ..

end

instantiation lreal :: "{zero, one, plus, minus, uminus, times, inverse, abs}"
begin

definition zero_lreal :: lreal where "zero_lreal = Fin 0"

definition one_lreal :: lreal where "one_lreal = Fin 1"

fun uminus_lreal :: "lreal \<Rightarrow> lreal" where
  "uminus_lreal (Fin a) = Fin (- a)"
| "uminus_lreal PInf = NInf"
| "uminus_lreal NInf = PInf"
| "uminus_lreal NaN = NaN"

fun plus_lreal :: "lreal \<Rightarrow> lreal \<Rightarrow> lreal" where
  "plus_lreal (Fin a) (Fin b) = dround (a + b)"
| "plus_lreal NaN _ = NaN"
| "plus_lreal _ NaN = NaN"
| "plus_lreal PInf NInf = NaN"
| "plus_lreal NInf PInf = NaN"
| "plus_lreal (Fin _) b = b"
| "plus_lreal a _ = a"

definition minus_lreal :: "lreal \<Rightarrow> lreal \<Rightarrow> lreal" where
  "minus_lreal a b = a + (- b)"

fun times_lreal :: "lreal \<Rightarrow> lreal \<Rightarrow> lreal" where
  "times_lreal (Fin a) (Fin b) = dround (a * b)"
| "times_lreal NaN _ = NaN"
| "times_lreal _ NaN = NaN"
| "times_lreal (Fin a) PInf = (if a = 0 then NaN else if 0 < a then PInf else NInf)"
| "times_lreal (Fin a) NInf = (if a = 0 then NaN else if 0 < a then NInf else PInf)"
| "times_lreal PInf (Fin b) = (if b = 0 then NaN else if 0 < b then PInf else NInf)"
| "times_lreal NInf (Fin b) = (if b = 0 then NaN else if 0 < b then NInf else PInf)"
| "times_lreal PInf PInf = PInf"
| "times_lreal NInf NInf = PInf"
| "times_lreal _ _ = NInf"

fun divide_lreal :: "lreal \<Rightarrow> lreal \<Rightarrow> lreal" where
  "divide_lreal (Fin a) (Fin b) =
     (if b = 0 then (if a = 0 then NaN else if 0 < a then PInf else NInf) else dround (a / b))"
| "divide_lreal NaN _ = NaN"
| "divide_lreal _ NaN = NaN"
| "divide_lreal (Fin _) _ = Fin 0"
| "divide_lreal PInf (Fin b) = (if 0 \<le> b then PInf else NInf)"
| "divide_lreal NInf (Fin b) = (if 0 \<le> b then NInf else PInf)"
| "divide_lreal _ _ = NaN"

definition inverse_lreal :: "lreal \<Rightarrow> lreal" where
  "inverse_lreal a = divide (Fin 1) a"

fun abs_lreal :: "lreal \<Rightarrow> lreal" where
  "abs_lreal (Fin a) = Fin \<bar>a\<bar>"
| "abs_lreal NaN = NaN"
| "abs_lreal _ = PInf"

instance ..

end

fun deq :: "lreal \<Rightarrow> lreal \<Rightarrow> bool" where
  "deq NaN _ = False"
| "deq _ NaN = False"
| "deq a b = (a = b)"

lemma minus_Fin [simp]: "Fin a - Fin b = dround (a - b)"
  by (simp add: minus_lreal_def)

lemma deq_iff: "deq a b \<longleftrightarrow> a = b \<and> a \<noteq> NaN"
  by (cases a; cases b) auto

lemma lreal_le_less: "(a :: lreal) \<le> b \<longleftrightarrow> a < b \<or> deq a b"
  by (cases a; cases b) auto

lemma lreal_not_less: "a \<noteq> NaN \<Longrightarrow> b \<noteq> NaN \<Longrightarrow> \<not> a < b \<longleftrightarrow> (b :: lreal) \<le> a"
  by (cases a; cases b) auto

lemma lreal_le_not_less: "(a :: lreal) \<le> b \<Longrightarrow> \<not> b < a"
  by (cases a; cases b) auto

lemma lreal_abs_pos: "x \<noteq> Fin 0 \<Longrightarrow> x \<noteq> NaN \<Longrightarrow> Fin 0 < abs x"
  by (cases x) auto

lemma lreal_abs_nonneg: "\<not> abs (x :: lreal) < Fin 0"
  by (cases x) auto

lemma lreal_less_trans: "(a :: lreal) < b \<Longrightarrow> b < c \<Longrightarrow> a < c"
  by (cases a; cases b; cases c) auto

lemma lreal_le_trans: "(a :: lreal) \<le> b \<Longrightarrow> b \<le> c \<Longrightarrow> a \<le> c"
  by (cases a; cases b; cases c) auto

lemma lreal_le_less_trans: "(a :: lreal) \<le> b \<Longrightarrow> b < c \<Longrightarrow> a < c"
  by (cases a; cases b; cases c) auto

lemma lreal_less_le_trans: "(a :: lreal) < b \<Longrightarrow> b \<le> c \<Longrightarrow> a < c"
  by (cases a; cases b; cases c) auto

lemma lreal_less_irrefl [simp]: "\<not> (a :: lreal) < a"
  by (cases a) auto

lemma lreal_less_asym: "(a :: lreal) < b \<Longrightarrow> \<not> b < a"
  by (cases a; cases b) auto

lemma lreal_le_refl: "a \<noteq> NaN \<Longrightarrow> (a :: lreal) \<le> a"
  by (cases a) auto

lemma NaN_compare [simp]: "\<not> NaN < b" "\<not> a < NaN" "\<not> NaN \<le> b" "\<not> a \<le> NaN"
  by (cases a; cases b; simp)+

lemma NaN_arith [simp]: "NaN + b = NaN" "a + NaN = NaN" "NaN - b = NaN" "a - NaN = NaN"
  "NaN * b = NaN" "a * NaN = NaN" "NaN / b = NaN" "a / NaN = NaN"
  by (cases a; cases b; simp add: minus_lreal_def)+

lemma fround_not_NaN [simp]: "fround p emin emax x \<noteq> NaN"
  by (simp add: fround_def Let_def)

lemma dround_not_NaN [simp]: "dround x \<noteq> NaN"
  by (simp add: dround_def)

lemma fround_mono: "x \<le> y \<Longrightarrow> 1 \<le> p \<Longrightarrow> fround p emin emax x \<le> fround p emin emax y"
  using round_raw_mono [of x y p emin] by (auto simp: fround_def Let_def)

lemma dround_mono: "x \<le> y \<Longrightarrow> dround x \<le> dround y"
  by (simp add: dround_def fround_mono)

lemma dround_nonneg: "0 \<le> x \<Longrightarrow> Fin 0 \<le> dround x"
  using dround_mono [of 0 x] by simp

lemma dround_nonpos: "x \<le> 0 \<Longrightarrow> dround x \<le> Fin 0"
  using dround_mono [of x 0] by simp

lemma ilog2_eq:
  assumes "2 powi k \<le> x" "x < 2 powi (k + 1)"
  shows "ilog2 x = k"
proof (rule antisym)
  have "(0 :: real) < 2 powi k" by simp
  with assms(1) have x: "0 < x" by linarith
  with assms(2) show "ilog2 x \<le> k" by (intro ilog2_le)
  have "2 powi k < (2 :: real) powi (ilog2 x + 1)" using assms(1) ilog2_bounds(2) [OF x] by linarith
  then show "k \<le> ilog2 x"
    using power_int_increasing [of "ilog2 x + 1" k "2 :: real"] by force
qed

text \<open>Rounding of a value whose binary exponent is known.\<close>

lemma dround_eval:
  assumes "2 powi k \<le> x" "x < 2 powi (k + 1)" "- 1022 \<le> k" "k < 1023"
  shows "dround x = Fin (of_int (rne (x * 2 powi (52 - k))) * 2 powi (k - 52))"
proof -
  have "(0 :: real) < 2 powi k" by simp
  with assms(1) have x: "0 < x" by linarith
  then have u: "ulp_exp 53 (- 1074) x = k - 52"
    using ilog2_eq [OF assms(1,2)] assms(3) by (simp add: ulp_exp_def)
  have "x / 2 powi (k - 52) = x * 2 powi (52 - k)"
    by (simp add: power_int_diff)
  then have r: "round_raw 53 (- 1074) x = of_int (rne (x * 2 powi (52 - k))) * 2 powi (k - 52)"
    by (simp add: round_raw_def u)
  have e: "ulp_exp 53 (- 1074) x + 53 = k + 1" by (simp add: u)
  have "round_raw 53 (- 1074) x \<le> 2 powi (k + 1)"
    using round_raw_le_power [OF x, of 53 "- 1074", unfolded e] by linarith
  also have "\<dots> < 2 powi 1024" using assms(4) by (intro power_int_strict_increasing) auto
  finally have "\<not> 2 powi 1024 \<le> round_raw 53 (- 1074) x" by simp
  moreover have "\<not> round_raw 53 (- 1074) x \<le> - (2 powi 1024)"
  proof -
    have "(0 :: real) < 2 powi 1024" by simp
    moreover have "0 \<le> round_raw 53 (- 1074) x" using x by (intro round_raw_nonneg) simp
    ultimately show ?thesis by linarith
  qed
  ultimately show ?thesis by (simp add: dround_def fround_def r)
qed

lemma dround_between:
  assumes "0 \<le> x" "x \<le> y" "dround y = Fin b"
  shows "\<exists>a. dround x = Fin a \<and> 0 \<le> a \<and> a \<le> b"
  using dround_mono [OF assms(2)] dround_nonneg [OF assms(1)] assms(3)
  by (cases "dround x") auto

lemma dround_exact_small:
  assumes "x = of_int m * 2 powi e" "\<bar>m\<bar> < 2 ^ 53" "- 1074 \<le> e" "\<bar>x\<bar> \<le> 2 ^ 100"
  shows "dround x = Fin x"
proof (rule dround_exact [OF assms(1-3)])
  have "(2 :: real) ^ 100 < 2 powi 1024"
    using power_int_strict_increasing [of 100 1024 "2 :: real"] by simp
  with assms(4) show "\<bar>x\<bar> < 2 powi 1024" by linarith
qed

lemma dround_half [simp]: "dround (1 / 2) = Fin (1 / 2)"
  by (rule dround_exact_small [of _ 1 "- 1"]) simp_all

section \<open>Conversions\<close>

text \<open>
  An unsigned or signed word converts exactly. \<open>static_cast\<close> of a floating value truncates
  towards zero; where the truncated value does not fit the type (or is not finite) C leaves the
  result undefined, and \<open>ub\<close> is whatever the platform stores.
\<close>

definition lreal_of_word :: "'a::len word \<Rightarrow> lreal" where
  "lreal_of_word w = Fin (of_int (uint w))"

definition lreal_of_sword :: "'a::len word \<Rightarrow> lreal" where
  "lreal_of_sword w = Fin (of_int (sint w))"

definition lreal_of_bool :: "bool \<Rightarrow> lreal" where
  "lreal_of_bool b = (if b then Fin 1 else Fin 0)"

definition ctrunc :: "real \<Rightarrow> int" where
  "ctrunc r = (if 0 \<le> r then \<lfloor>r\<rfloor> else \<lceil>r\<rceil>)"

definition cast_word :: "'a::len word \<Rightarrow> lreal \<Rightarrow> 'a word" where
  "cast_word ub x = (case x of
     Fin r \<Rightarrow> (let t = ctrunc r in if 0 \<le> t \<and> t < 2 ^ LENGTH('a) then of_int t else ub)
   | _ \<Rightarrow> ub)"

definition cast_sword :: "'a::len word \<Rightarrow> lreal \<Rightarrow> 'a word" where
  "cast_sword ub x = (case x of
     Fin r \<Rightarrow> (let t = ctrunc r in
       if - (2 ^ (LENGTH('a) - 1)) \<le> t \<and> t < 2 ^ (LENGTH('a) - 1) then of_int t else ub)
   | _ \<Rightarrow> ub)"

lemma ctrunc_of_int [simp]: "ctrunc (of_int i) = i"
  by (simp add: ctrunc_def)

lemma cast_word_lreal_of_word [simp]: "cast_word ub (lreal_of_word w) = w"
  unfolding cast_word_def lreal_of_word_def lreal.case ctrunc_of_int Let_def
  by (simp add: uint_lt2p)

lemma cast_word_int:
  fixes ub :: "'a::len word"
  shows "0 \<le> i \<Longrightarrow> i < 2 ^ LENGTH('a) \<Longrightarrow> cast_word ub (Fin (of_int i)) = of_int i"
  unfolding cast_word_def lreal.case ctrunc_of_int Let_def by simp

text \<open>\<^verbatim>\<open>float\<close>: the result of each operation rounded to 24 bits.\<close>

fun to_real32 :: "lreal \<Rightarrow> lreal" where
  "to_real32 (Fin a) = sround a"
| "to_real32 x = x"

end
