(* ===== verification/Event.thy ===== *)
theory Event
  imports Eid Container Lreal
begin

text \<open>
  The event record of \<^verbatim>\<open>src/tritonn/event/event.cpp\<close> and \<^verbatim>\<open>event.h\<close>, at two levels. The
  raw level is the code's: a 64-byte buffer of type tags and payloads with a size byte, its
  \<^verbatim>\<open>add*\<close> functions, the scan \<^verbatim>\<open>getParamByID\<close> and the container format. The abstract level,
  which the component theories use, is the identifier with the list of parameters.
  \<open>ev_raw\<close> refines the second into the first, dropped parameters included.
\<close>

section \<open>Parameters\<close>

text \<open>
  A parameter is tagged by its type. The two floating types are type variables: values
  (\<^typ>\<open>lreal\<close>) at the abstract level, bit patterns at the raw one.
\<close>

datatype ('r, 'l) param =
    P_SINT "8 word" | P_USINT "8 word" | P_INT "16 word" | P_UINT "16 word"
  | P_DINT "32 word" | P_UDINT "32 word" | P_REAL 'r | P_LREAL 'l | P_STRID "32 word"

fun param_type :: "('r, 'l) param \<Rightarrow> TYPEID" where
  "param_type (P_SINT _) = T_SINT"
| "param_type (P_USINT _) = T_USINT"
| "param_type (P_INT _) = T_INT"
| "param_type (P_UINT _) = T_UINT"
| "param_type (P_DINT _) = T_DINT"
| "param_type (P_UDINT _) = T_UDINT"
| "param_type (P_REAL _) = T_REAL"
| "param_type (P_LREAL _) = T_LREAL"
| "param_type (P_STRID _) = T_STRID"

type_synonym rawparam = "(32 word, 64 word) param"
type_synonym eparam = "(lreal, lreal) param"

fun param_bytes :: "rawparam \<Rightarrow> bytes" where
  "param_bytes (P_SINT v) = le_bytes 1 v"
| "param_bytes (P_USINT v) = le_bytes 1 v"
| "param_bytes (P_INT v) = le_bytes 2 v"
| "param_bytes (P_UINT v) = le_bytes 2 v"
| "param_bytes (P_DINT v) = le_bytes 4 v"
| "param_bytes (P_UDINT v) = le_bytes 4 v"
| "param_bytes (P_REAL v) = le_bytes 4 v"
| "param_bytes (P_LREAL v) = le_bytes 8 v"
| "param_bytes (P_STRID v) = le_bytes 4 v"

text \<open>How the reader of a parameter interprets its bytes, by the type it is told.\<close>

fun param_read :: "TYPEID \<Rightarrow> bytes \<Rightarrow> rawparam option" where
  "param_read T_SINT bs = Some (P_SINT (le_word (take 1 bs)))"
| "param_read T_USINT bs = Some (P_USINT (le_word (take 1 bs)))"
| "param_read T_INT bs = Some (P_INT (le_word (take 2 bs)))"
| "param_read T_UINT bs = Some (P_UINT (le_word (take 2 bs)))"
| "param_read T_DINT bs = Some (P_DINT (le_word (take 4 bs)))"
| "param_read T_UDINT bs = Some (P_UDINT (le_word (take 4 bs)))"
| "param_read T_REAL bs = Some (P_REAL (le_word (take 4 bs)))"
| "param_read T_LREAL bs = Some (P_LREAL (le_word (take 8 bs)))"
| "param_read T_STRID bs = Some (P_STRID (le_word (take 4 bs)))"
| "param_read _ bs = None"

definition param_size :: "('r, 'l) param \<Rightarrow> nat" where
  "param_size p = unat (getTypeSize (param_type p))"

lemma length_param_bytes [simp]: "length (param_bytes p) = param_size p"
  by (cases p) (simp_all add: param_size_def)

lemma param_size_bounds: "1 \<le> param_size p" "param_size p \<le> 8"
  by (cases p; simp add: param_size_def)+

lemma param_type_value [simp]: "isValueType (param_type p)"
  by (cases p) (simp_all add: isValueType_def)

lemma param_read_bytes: "param_read (param_type p) (param_bytes p @ rest) = Some p"
  by (cases p) (simp_all add: le_word_le_bytes)

lemma param_size_map [simp]: "param_size (map_param f g p) = param_size p"
  by (cases p) (simp_all add: param_size_def)

lemma TYPE_of_code_param [simp]: "TYPE_of_code (TYPE_code (param_type p)) = param_type p"
  by (cases p) (simp_all add: TYPE_of_code_def)

section \<open>The raw event\<close>

definition DATA_SIZE :: nat where "DATA_SIZE = 64"

definition MAGIC :: UDINT where "MAGIC = 0xFFEEDDCC"

record rEvent =
  m_magic :: UDINT
  m_version :: USINT
  m_size :: USINT
  m_timestamp :: rDateTime
  m_EID :: DINT
  m_data :: bytes

text \<open>\<^verbatim>\<open>memcpy(xs + i, ys, ...)\<close>.\<close>

definition poke :: "nat \<Rightarrow> 'a list \<Rightarrow> 'a list \<Rightarrow> 'a list" where
  "poke i ys xs = take i xs @ ys @ drop (i + length ys) xs"

lemma length_poke [simp]: "i + length ys \<le> length xs \<Longrightarrow> length (poke i ys xs) = length xs"
  by (simp add: poke_def)

definition event_clear :: "rEvent \<Rightarrow> rEvent" where
  "event_clear e = e\<lparr>m_size := 0, m_EID := EID_UNDEF, m_data := replicate DATA_SIZE 0,
     m_timestamp := dt_clear\<rparr>"

text \<open>\<open>now\<close> is what \<^verbatim>\<open>gettimeofday\<close> answers.\<close>

definition event_reinit :: "rDateTime \<Rightarrow> UDINT \<Rightarrow> rEvent \<Rightarrow> rEvent" where
  "event_reinit now eid e = e\<lparr>m_EID := eid, m_size := 0, m_timestamp := now,
     m_data := replicate DATA_SIZE 0\<rparr>"

text \<open>\<^verbatim>\<open>rEvent()\<close> and \<^verbatim>\<open>rEvent(eid)\<close>.\<close>

definition event_new :: rEvent where
  "event_new = event_clear \<lparr>m_magic = MAGIC, m_version = 1, m_size = 0, m_timestamp = dt_clear,
     m_EID = EID_UNDEF, m_data = []\<rparr>"

definition event_new_eid :: "rDateTime \<Rightarrow> DINT \<Rightarrow> rEvent" where
  "event_new_eid now eid = event_reinit now eid \<lparr>m_magic = MAGIC, m_version = 1, m_size = 0,
     m_timestamp = now, m_EID = eid, m_data = []\<rparr>"

text \<open>\<^verbatim>\<open>operator =\<close>: magic and version stay.\<close>

definition event_assign :: "rEvent \<Rightarrow> rEvent \<Rightarrow> rEvent" where
  "event_assign this event = this\<lparr>m_EID := m_EID event, m_size := m_size event,
     m_timestamp := m_timestamp event, m_data := m_data event\<rparr>"

text \<open>
  \<^verbatim>\<open>EVENT_ADDDATA\<close> and \<^verbatim>\<open>addSTR\<close>. The guard counts the payload alone but compares with
  \<open>\<ge>\<close>, so the tag has room too.
\<close>

definition event_add :: "rawparam \<Rightarrow> rEvent \<Rightarrow> bool \<times> rEvent" where
  "event_add p e = (let ts = getTypeSize (param_type p) in
     if ucast (m_size e) + ts \<ge> of_nat DATA_SIZE then (False, e)
     else (let e1 = e\<lparr>m_data := poke (unat (m_size e)) [TYPE_code (param_type p)] (m_data e),
                      m_size := m_size e + 1\<rparr>;
               e2 = e1\<lparr>m_data := poke (unat (m_size e1)) (param_bytes p) (m_data e1)\<rparr>
           in (True, e2\<lparr>m_size := m_size e2 + ucast ts\<rparr>)))"

text \<open>
  \<^verbatim>\<open>getParamByID\<close>. The scan advances by at least two bytes, so it ends; a read behind
  the buffer (\<open>m_size\<close> above 64, from a received event) is \<^const>\<open>Inl\<close>. The value is
  the type with the position of the payload.
\<close>

datatype param_error = Out_of_buffer

function (sequential) param_scan ::
  "bytes \<Rightarrow> nat \<Rightarrow> UDINT \<Rightarrow> UDINT \<Rightarrow> nat \<Rightarrow> param_error + (TYPEID \<times> nat) option" where
  "param_scan dat sz ID curid pos =
     (if pos < sz then
        if pos < length dat then
          if ID = curid then Inr (Some (TYPE_of_code (dat ! pos), pos + 1))
          else param_scan dat sz ID (curid + 1) (pos + (1 + unat (getTypeSize (TYPE_of_code (dat ! pos)))))
        else Inl Out_of_buffer
      else Inr None)"
  by pat_completeness auto
termination
  by (relation "measure (\<lambda>(dat, sz, ID, curid, pos). sz - pos)") auto

declare param_scan.simps [simp del]

definition getParamByID :: "UDINT \<Rightarrow> rEvent \<Rightarrow> param_error + (TYPEID \<times> nat) option" where
  "getParamByID ID e = param_scan (m_data e) (unat (m_size e)) ID 0 0"

definition event_toContainer :: "rEvent \<Rightarrow> Container \<Rightarrow> Container" where
  "event_toContainer e c =
     container_add (m_data e)
       (cnt_put 4 (m_EID e) (dt_toContainer (m_timestamp e)
         (cnt_put 1 (m_size e) (cnt_put 1 (m_version e) (cnt_put 4 (m_magic e) c)))))"

definition event_fromContainer :: "rEvent \<Rightarrow> Container \<Rightarrow> rEvent \<times> Container" where
  "event_fromContainer e c =
     (let (mg, c1) = cnt_take 4 (m_magic e) c;
          (vr, c2) = cnt_take 1 (m_version e) c1;
          (sz, c3) = cnt_take 1 (m_size e) c2;
          (ts, c4) = dt_fromContainer (m_timestamp e) c3;
          (ei, c5) = cnt_take 4 (m_EID e) c4;
          (bs, c6) = container_get DATA_SIZE c5
      in (\<lparr>m_magic = mg, m_version = vr, m_size = sz, m_timestamp = ts, m_EID = ei,
           m_data = (case bs of Some d \<Rightarrow> d | None \<Rightarrow> m_data e)\<rparr>, c6))"

section \<open>The abstract event\<close>

text \<open>
  An identifier with the parameters that were accepted. \<open>ev_add\<close> is \<open><<\<close>: a parameter that
  does not fit any more is dropped without a trace.
\<close>

datatype 'p event = Ev (ev_eid: UDINT) (ev_params: "'p list")

definition params_size :: "('r, 'l) param list \<Rightarrow> nat" where
  "params_size ps = (\<Sum>p\<leftarrow>ps. 1 + param_size p)"

fun ev_add :: "('r, 'l) param event \<Rightarrow> ('r, 'l) param \<Rightarrow> ('r, 'l) param event" where
  "ev_add (Ev eid ps) p =
     (if params_size ps + param_size p \<ge> DATA_SIZE then Ev eid ps else Ev eid (ps @ [p]))"

definition ev_adds :: "('r, 'l) param event \<Rightarrow> ('r, 'l) param list \<Rightarrow> ('r, 'l) param event" where
  "ev_adds e ps = foldl ev_add e ps"

type_synonym cevent = "eparam event"

lemma ev_eid_add [simp]: "ev_eid (ev_add e p) = ev_eid e"
  by (cases e) simp

lemma params_size_simps [simp]:
  "params_size [] = 0" "params_size (p # ps) = 1 + param_size p + params_size ps"
  "params_size (ps @ qs) = params_size ps + params_size qs"
  by (simp_all add: params_size_def)

lemma ev_add_map:
  "ev_add (map_event (map_param f g) e) (map_param f g p) = map_event (map_param f g) (ev_add e p)"
proof -
  have "params_size (map (map_param f g) ps) = params_size ps" for ps
    by (induction ps) simp_all
  then show ?thesis by (cases e) simp
qed

section \<open>Refinement of the abstract event\<close>

definition enc_params :: "rawparam list \<Rightarrow> bytes" where
  "enc_params ps = concat (map (\<lambda>p. TYPE_code (param_type p) # param_bytes p) ps)"

lemma enc_params_simps [simp]:
  "enc_params [] = []"
  "enc_params (p # ps) = TYPE_code (param_type p) # param_bytes p @ enc_params ps"
  "enc_params (ps @ qs) = enc_params ps @ enc_params qs"
  by (simp_all add: enc_params_def)

lemma length_enc_params [simp]: "length (enc_params ps) = params_size ps"
  by (induction ps) simp_all

text \<open>The buffer holds exactly the encoding of the abstract parameters.\<close>

definition ev_raw :: "rEvent \<Rightarrow> rawparam event \<Rightarrow> bool" where
  "ev_raw e a \<longleftrightarrow> m_EID e = ev_eid a \<and> length (m_data e) = DATA_SIZE
     \<and> params_size (ev_params a) \<le> DATA_SIZE
     \<and> m_size e = of_nat (params_size (ev_params a))
     \<and> take (params_size (ev_params a)) (m_data e) = enc_params (ev_params a)"

lemma ev_raw_reinit: "ev_raw (event_reinit now eid e) (Ev eid [])"
  by (simp add: ev_raw_def event_reinit_def)

lemma unat_small: "n \<le> 64 \<Longrightarrow> unat (of_nat n :: 8 word) = n" "n \<le> 64 \<Longrightarrow> unat (of_nat n :: 32 word) = n"
  by (simp_all add: unat_of_nat)

lemma unat_size_ucast: "unat (of_nat (param_size p) :: 32 word) = param_size p"
  using param_size_bounds(2) [of p] by (simp add: unat_of_nat)

lemma ucast_small:
  "n \<le> 64 \<Longrightarrow> ucast (of_nat n :: 8 word) = (of_nat n :: 32 word)"
  "n \<le> 64 \<Longrightarrow> ucast (of_nat n :: 32 word) = (of_nat n :: 8 word)"
  by (simp_all add: unsigned_of_nat take_bit_nat_eq_self)

lemma size_of_nat: "getTypeSize (param_type p) = of_nat (param_size p)"
  by (simp add: param_size_def)

lemma take_poke: "i \<le> length xs \<Longrightarrow> i + length ys \<le> length xs \<Longrightarrow>
    take (i + length ys) (poke i ys xs) = take i xs @ ys"
  by (simp add: poke_def)

lemma add_guard:
  assumes "n \<le> 64"
  shows "ucast (of_nat n :: 8 word) + getTypeSize (param_type p) \<ge> (of_nat DATA_SIZE :: 32 word)
    \<longleftrightarrow> n + param_size p \<ge> DATA_SIZE"
proof -
  have "ucast (of_nat n :: 8 word) = (of_nat n :: 32 word)"
    using assms by (rule ucast_small)
  moreover have "unat (of_nat (n + param_size p) :: 32 word) = n + param_size p"
    using assms param_size_bounds(2) [of p] by (simp add: unat_of_nat del: of_nat_add)
  ultimately show ?thesis
    by (simp add: size_of_nat word_le_nat_alt DATA_SIZE_def flip: of_nat_add)
qed

lemma ev_raw_add:
  assumes "ev_raw e a"
  shows "ev_raw (snd (event_add p e)) (ev_add a p)
    \<and> fst (event_add p e) = (params_size (ev_params a) + param_size p < DATA_SIZE)"
proof -
  obtain eid ps where a: "a = Ev eid ps" by (cases a)
  define n where "n = params_size ps"
  have n: "n \<le> 64" and sz: "m_size e = of_nat n" and len: "length (m_data e) = DATA_SIZE"
    and tk: "take n (m_data e) = enc_params ps" and id: "m_EID e = eid"
    using assms by (simp_all add: ev_raw_def a n_def DATA_SIZE_def)
  show ?thesis
  proof (cases "n + param_size p \<ge> DATA_SIZE")
    case True
    then have "event_add p e = (False, e)"
      using add_guard [OF n, of p] by (simp add: event_add_def sz Let_def)
    with True assms show ?thesis by (simp add: a n_def)
  next
    case False
    define d1 where "d1 = poke n [TYPE_code (param_type p)] (m_data e)"
    define d2 where "d2 = poke (n + 1) (param_bytes p) d1"
    have room: "n + 1 + param_size p \<le> DATA_SIZE" using False by simp
    have l1: "length d1 = DATA_SIZE" "take (n + 1) d1 = enc_params ps @ [TYPE_code (param_type p)]"
      using room len take_poke [of n "m_data e" "[TYPE_code (param_type p)]"]
      by (simp_all add: d1_def tk)
    have l2: "length d2 = DATA_SIZE"
      "take (n + 1 + param_size p) d2 = enc_params ps @ TYPE_code (param_type p) # param_bytes p"
      using room l1 take_poke [of "n + 1" d1 "param_bytes p"] by (simp_all add: d2_def)
    have n1: "unat (of_nat n + 1 :: 8 word) = n + 1"
      using room unat_small(1) [of "n + 1"] by (simp add: DATA_SIZE_def add.commute)
    have "ucast (of_nat (param_size p) :: 32 word) = (of_nat (param_size p) :: 8 word)"
      using param_size_bounds(2) [of p] by (intro ucast_small) simp
    then have "event_add p e = (True, e\<lparr>m_data := d2, m_size := of_nat n + 1 + of_nat (param_size p)\<rparr>)"
      using add_guard [OF n, of p] False
      by (simp add: event_add_def sz Let_def unat_small(1) [OF n] n1 size_of_nat d2_def
          flip: d1_def)
    with False room l2 show ?thesis
      by (simp add: a ev_raw_def id n_def add.assoc add.commute)
  qed
qed

lemma ev_raw_adds:
  "ev_raw e a \<Longrightarrow> ev_raw (foldl (\<lambda>e p. snd (event_add p e)) e ps) (ev_adds a ps)"
  by (induction ps arbitrary: e a) (simp_all add: ev_adds_def ev_raw_add)

section \<open>Reading parameters\<close>

lemma param_scan_skip:
  assumes "length dat = DATA_SIZE" "sz = params_size qs + params_size (p # ps)"
    "take sz dat = enc_params qs @ enc_params (p # ps)" "sz \<le> DATA_SIZE" "ID \<noteq> curid"
  shows "param_scan dat sz ID curid (params_size qs)
    = param_scan dat sz ID (curid + 1) (params_size (qs @ [p]))"
proof -
  have "dat ! params_size qs = take sz dat ! params_size qs" using assms(2) by simp
  also have "\<dots> = TYPE_code (param_type p)"
    unfolding assms(3) by (simp add: nth_append)
  finally have "dat ! params_size qs = TYPE_code (param_type p)" .
  with assms show ?thesis
    by (subst param_scan.simps) (simp add: param_size_def)
qed

lemma param_scan_found:
  assumes "length dat = DATA_SIZE" "sz = params_size qs + params_size (p # ps)"
    "take sz dat = enc_params qs @ enc_params (p # ps)" "sz \<le> DATA_SIZE"
  shows "param_scan dat sz ID ID (params_size qs) = Inr (Some (param_type p, params_size qs + 1))"
    and "param_read (param_type p) (drop (params_size qs + 1) dat) = Some p"
proof -
  have "dat ! params_size qs = take sz dat ! params_size qs" using assms(2) by simp
  also have "\<dots> = TYPE_code (param_type p)"
    unfolding assms(3) by (simp add: nth_append)
  finally have "dat ! params_size qs = TYPE_code (param_type p)" .
  with assms show "param_scan dat sz ID ID (params_size qs) = Inr (Some (param_type p, params_size qs + 1))"
    by (subst param_scan.simps) simp
  have "drop (params_size qs + 1) dat = drop (params_size qs + 1) (take sz dat @ drop sz dat)"
    by simp
  also have "\<dots> = param_bytes p @ enc_params ps @ drop sz dat"
    unfolding assms(3) by simp
  finally show "param_read (param_type p) (drop (params_size qs + 1) dat) = Some p"
    by (simp only: param_read_bytes)
qed

lemma param_scan_walk:
  assumes "length dat = DATA_SIZE" "sz = params_size qs + params_size ps"
    "take sz dat = enc_params qs @ enc_params ps" "sz \<le> DATA_SIZE"
    "c = of_nat k" "ID = of_nat (k + i)" "k + i < 2 ^ 32" "k + length ps < 2 ^ 32"
  shows "param_scan dat sz ID c (params_size qs) =
    (if i < length ps
     then Inr (Some (param_type (ps ! i), params_size (qs @ take i ps) + 1)) else Inr None)
    \<and> (i < length ps \<longrightarrow>
        param_read (param_type (ps ! i)) (drop (params_size (qs @ take i ps) + 1) dat) = Some (ps ! i))"
  using assms
proof (induction ps arbitrary: qs k i c)
  case Nil
  then show ?case by (subst param_scan.simps) simp
next
  case (Cons p ps)
  show ?case
  proof (cases i)
    case 0
    then show ?thesis using Cons.prems param_scan_found [of dat sz qs p ps] by simp
  next
    case (Suc j)
    have ne: "ID \<noteq> c"
    proof
      assume "ID = c"
      then have "unat (of_nat (k + i) :: 32 word) = unat (of_nat k :: 32 word)"
        using Cons.prems(5,6) by (simp only:)
      then show False using Cons.prems(7) Suc unfolding unat_of_nat by simp
    qed
    show ?thesis
      using Cons.IH [of "qs @ [p]" "c + 1" "k + 1" j] Cons.prems Suc
        param_scan_skip [of dat sz qs p ps ID c] ne
      by (simp add: add.commute add.assoc)
  qed
qed

text \<open>
  C6. What the event text generator reads is what the code that raised the event wrote. After a
  reinitialisation and any sequence of \<open><<\<close>, the buffer holds the abstract event: the parameters
  that fit, in order. \<^verbatim>\<open>getParamByID\<close> ends for every number, never reads behind the buffer, and
  yields type and payload of exactly the accepted parameter with that number, or nothing.
\<close>

theorem event_param_refinement:
  "let a = ev_adds (Ev eid []) ps; qs = ev_params a;
       e = foldl (\<lambda>e p. snd (event_add p e)) (event_reinit now eid e0) ps
   in ev_raw e a
      \<and> (case getParamByID ID e of
           Inl _ \<Rightarrow> False
         | Inr None \<Rightarrow> length qs \<le> unat ID
         | Inr (Some (t, pos)) \<Rightarrow> unat ID < length qs \<and> t = param_type (qs ! unat ID)
             \<and> param_read t (drop pos (m_data e)) = Some (qs ! unat ID))"
proof -
  define a where "a = ev_adds (Ev eid []) ps"
  define qs where "qs = ev_params a"
  define e where "e = foldl (\<lambda>e p. snd (event_add p e)) (event_reinit now eid e0) ps"
  have raw: "ev_raw e a"
    unfolding a_def e_def by (rule ev_raw_adds) (rule ev_raw_reinit)
  have "length qs \<le> params_size qs"
    by (induction qs) simp_all
  with raw have le: "params_size qs \<le> 64" "length qs \<le> 64"
    by (simp_all add: ev_raw_def qs_def DATA_SIZE_def)
  have idlt: "unat ID < 2 ^ 32"
    by (rule order.strict_trans2 [OF unsigned_less]) simp
  have "unat (m_size e) = params_size qs"
    using raw le by (simp add: ev_raw_def qs_def unat_small(1))
  then have "getParamByID ID e =
      (if unat ID < length qs
       then Inr (Some (param_type (qs ! unat ID), params_size ([] @ take (unat ID) qs) + 1))
       else Inr None)
    \<and> (unat ID < length qs \<longrightarrow>
        param_read (param_type (qs ! unat ID))
          (drop (params_size ([] @ take (unat ID) qs) + 1) (m_data e)) = Some (qs ! unat ID))"
    using param_scan_walk [of "m_data e" "params_size qs" "[]" qs 0 0 ID "unat ID"] raw le
      idlt
    by (simp add: getParamByID_def ev_raw_def qs_def)
  with raw show ?thesis
    by (simp add: Let_def flip: a_def e_def qs_def)
qed

section \<open>The container format\<close>

definition event_bytes :: "rEvent \<Rightarrow> bytes" where
  "event_bytes e = le_bytes 4 (m_magic e) @ le_bytes 1 (m_version e) @ le_bytes 1 (m_size e)
     @ le_bytes 8 (tv_sec (m_timestamp e)) @ le_bytes 8 (tv_usec (m_timestamp e))
     @ le_bytes 4 (m_EID e) @ m_data e"

lemma event_toContainer_bytes:
  "event_toContainer e c = container_add (event_bytes e) c"
  by (simp add: event_toContainer_def event_bytes_def dt_toContainer_def cnt_put_def
      container_add_def)

lemma event_fromContainer_pending:
  assumes p: "pending c (event_bytes e @ rest)" and len: "length (m_data e) = DATA_SIZE"
  shows "\<exists>c'. event_fromContainer e0 c = (e, c') \<and> pending c' rest
    \<and> Container.m_data c' = Container.m_data c"
proof -
  note p' = p [unfolded event_bytes_def append_assoc]
  obtain c1 where 1: "cnt_take 4 (m_magic e0) c = (m_magic e, c1)"
    and d1: "Container.m_data c1 = Container.m_data c" and p1: "pending c1 (le_bytes 1 (m_version e) @ le_bytes 1 (m_size e)
     @ le_bytes 8 (tv_sec (m_timestamp e)) @ le_bytes 8 (tv_usec (m_timestamp e))
     @ le_bytes 4 (m_EID e) @ m_data e @ rest)"
    using take_pending(3) [OF p'] by blast
  obtain c2 where 2: "cnt_take 1 (m_version e0) c1 = (m_version e, c2)"
    and d2: "Container.m_data c2 = Container.m_data c1" and p2: "pending c2 (le_bytes 1 (m_size e)
     @ le_bytes 8 (tv_sec (m_timestamp e)) @ le_bytes 8 (tv_usec (m_timestamp e))
     @ le_bytes 4 (m_EID e) @ m_data e @ rest)"
    using take_pending(1) [OF p1] by blast
  obtain c3 where 3: "cnt_take 1 (m_size e0) c2 = (m_size e, c3)"
    and d3: "Container.m_data c3 = Container.m_data c2" and p3: "pending c3 (le_bytes 8 (tv_sec (m_timestamp e)) @ le_bytes 8 (tv_usec (m_timestamp e))
     @ le_bytes 4 (m_EID e) @ m_data e @ rest)"
    using take_pending(1) [OF p2] by blast
  obtain c4 where 4: "cnt_take 8 (tv_sec (m_timestamp e0)) c3 = (tv_sec (m_timestamp e), c4)"
    and d4: "Container.m_data c4 = Container.m_data c3" and p4: "pending c4 (le_bytes 8 (tv_usec (m_timestamp e)) @ le_bytes 4 (m_EID e) @ m_data e @ rest)"
    using take_pending(4) [OF p3] by blast
  obtain c5 where 5: "cnt_take 8 (tv_usec (m_timestamp e0)) c4 = (tv_usec (m_timestamp e), c5)"
    and d5: "Container.m_data c5 = Container.m_data c4" and p5: "pending c5 (le_bytes 4 (m_EID e) @ m_data e @ rest)"
    using take_pending(4) [OF p4] by blast
  obtain c6 where 6: "cnt_take 4 (m_EID e0) c5 = (m_EID e, c6)"
    and d6: "Container.m_data c6 = Container.m_data c5" and p6: "pending c6 (m_data e @ rest)"
    using take_pending(3) [OF p5] by blast
  obtain c7 where 7: "container_get DATA_SIZE c6 = (Some (m_data e), c7)"
    and "Container.m_data c7 = Container.m_data c6" "pending c7 rest"
    using pending_get [OF p6 len] by blast
  moreover have "\<lparr>tv_sec = tv_sec (m_timestamp e), tv_usec = tv_usec (m_timestamp e)\<rparr> = m_timestamp e"
    by simp
  ultimately show ?thesis
    using 1 2 3 4 5 6 d1 d2 d3 d4 d5 d6
    by (simp add: event_fromContainer_def dt_fromContainer_def)
qed

text \<open>
  The event server sends its list of events one after the other; a client reads them back with
  the same operator.
\<close>

definition send_events :: "rEvent list \<Rightarrow> Container \<Rightarrow> Container" where
  "send_events es c = foldl (\<lambda>c e. event_toContainer e c) c es"

fun recv_events :: "nat \<Rightarrow> rEvent \<Rightarrow> Container \<Rightarrow> rEvent list \<times> Container" where
  "recv_events 0 e0 c = ([], c)"
| "recv_events (Suc n) e0 c =
     (let (e, c') = event_fromContainer e0 c; (es, c'') = recv_events n e0 c' in (e # es, c''))"

lemma send_events_bytes:
  "Container.m_data (send_events es c) = Container.m_data c @ concat (map event_bytes es)
   \<and> m_readpos (send_events es c) = m_readpos c
   \<and> m_isEOF (send_events es c) = (es = [] \<and> m_isEOF c)"
  by (induction es arbitrary: c)
    (auto simp: send_events_def event_toContainer_bytes container_add_def split: if_splits)

lemma recv_events_pending:
  "pending c (concat (map event_bytes es) @ rest) \<Longrightarrow> \<forall>e\<in>set es. length (m_data e) = DATA_SIZE \<Longrightarrow>
   \<exists>c'. recv_events (length es) e0 c = (es, c') \<and> pending c' rest
     \<and> Container.m_data c' = Container.m_data c"
proof (induction es arbitrary: c)
  case (Cons e es)
  then obtain c1 where "event_fromContainer e0 c = (e, c1)"
    "pending c1 (concat (map event_bytes es) @ rest)" "Container.m_data c1 = Container.m_data c"
    using event_fromContainer_pending [of c e "concat (map event_bytes es) @ rest" e0] by auto
  with Cons show ?case by fastforce
qed auto

text \<open>
  C7. Serialisation loses nothing: the events sent into a fresh container, one after the other,
  are read back as the same list with every field, whatever events the receiver had before, and
  the container is then at its end.
\<close>

theorem event_container_roundtrip:
  assumes "\<forall>e\<in>set es. length (m_data e) = DATA_SIZE" and "es \<noteq> []"
  shows "\<exists>c'. recv_events (length es) e0 (send_events es (container_new garbage)) = (es, c')
    \<and> container_isEnd c' \<and> \<not> m_isEOF c'"
proof -
  let ?c = "send_events es (container_new garbage)"
  have "pending ?c (concat (map event_bytes es) @ [])"
    using send_events_bytes [of es "container_new garbage"] assms(2)
    by (simp add: pending_def container_new_def)
  from recv_events_pending [OF this assms(1), of e0] obtain c' where
    "recv_events (length es) e0 ?c = (es, c')" "pending c' []" by blast
  then show ?thesis by (auto simp: pending_def container_isEnd_def)
qed

theorem event_container_roundtrip_witness:
  "\<exists>c'. recv_events 2 event_new (send_events [event_new_eid dt_clear 7, event_new] (container_new True))
     = ([event_new_eid dt_clear 7, event_new], c') \<and> container_isEnd c' \<and> \<not> m_isEOF c'"
  using event_container_roundtrip [of "[event_new_eid dt_clear 7, event_new]" event_new True]
  by (simp add: event_new_eid_def event_new_def event_reinit_def event_clear_def numeral_2_eq_2)

end
