(* ===== verification/Common.thy ===== *)
theory Common
  imports Lreal
begin

text \<open>
  The numeric helpers of \<^verbatim>\<open>src/shared/common.cpp\<close> and the display precisions of
  \<^verbatim>\<open>src/tritonn/precision.cpp\<close>. \<open>oob\<close> is what the machine reads behind the table of powers
  in \<^verbatim>\<open>Round\<close>, whose clamp lets the index 6 through.
\<close>

section \<open>Floating helpers\<close>

fun lreal_floor :: "lreal \<Rightarrow> lreal" where
  "lreal_floor (Fin r) = Fin (of_int \<lfloor>r\<rfloor>)"
| "lreal_floor x = x"

fun lreal_ceil :: "lreal \<Rightarrow> lreal" where
  "lreal_ceil (Fin r) = Fin (of_int \<lceil>r\<rceil>)"
| "lreal_ceil x = x"

fun isValid :: "lreal \<Rightarrow> bool" where
  "isValid (Fin _) = True"
| "isValid _ = False"

definition COMPARE_LREAL_PREC :: lreal where
  "COMPARE_LREAL_PREC = dround (1 / 10 ^ 10)"

definition COMPARE_REAL_PREC :: lreal where
  "COMPARE_REAL_PREC = dround (1 / 10 ^ 7)"

definition isValidDelim :: "lreal \<Rightarrow> bool" where
  "isValidDelim value \<longleftrightarrow> isValid value \<and> abs value > COMPARE_LREAL_PREC"

definition isValidDelim_REAL :: "lreal \<Rightarrow> bool" where
  "isValidDelim_REAL value \<longleftrightarrow> isValid value \<and> abs value > COMPARE_REAL_PREC"

definition Round_mul :: "lreal \<Rightarrow> USINT \<Rightarrow> lreal" where
  "Round_mul oob prec =
     (if prec < 6 then [Fin 1, Fin 10, Fin 100, Fin 1000, Fin 10000, Fin 100000] ! unat prec else oob)"

definition Round :: "lreal \<Rightarrow> lreal \<Rightarrow> USINT \<Rightarrow> lreal" where
  "Round oob val prec = (let prec = (if prec > 6 then 6 else prec); m = Round_mul oob prec in
     if deq val (Fin 0) then val
     else (if val < Fin 0 then lreal_ceil (val * m - dround (1 / 2))
           else lreal_floor (val * m + dround (1 / 2))) / m)"

section \<open>Calendar helpers\<close>

text \<open>C's \<^verbatim>\<open>&&\<close> yields an \<^verbatim>\<open>int\<close> 0 or 1.\<close>

definition IsLeapYear :: "UINT \<Rightarrow> UINT" where
  "IsLeapYear year = word_of_bool (year mod 4 = 0 \<and> year mod 100 \<noteq> 0 \<and> year mod 400 = 0)"

definition month_days :: "UINT list" where
  "month_days = [31, 28, 31, 30, 31, 30, 31, 31, 30, 31, 30, 31]"

text \<open>The loop that brings the month below 13.\<close>

function DayInMonth_norm :: "UINT \<Rightarrow> UINT \<Rightarrow> UINT \<times> UINT" where
  "DayInMonth_norm year month = (if month > 12 then DayInMonth_norm (year + 1) (month - 12) else (year, month))"
  by pat_completeness auto
termination
proof (relation "measure (\<lambda>(y, m). unat m)")
  fix year month :: UINT
  assume "month > 12"
  then show "((year + 1, month - 12), (year, month)) \<in> measure (\<lambda>(y, m). unat m)"
    by (simp add: unat_sub word_less_nat_alt word_le_nat_alt)
qed simp

declare DayInMonth_norm.simps [simp del]

definition DayInMonthShift :: "UINT \<Rightarrow> UINT \<Rightarrow> UINT" where
  "DayInMonthShift year month =
     (if month = 0 then 0
      else (case DayInMonth_norm year month of (year, month) \<Rightarrow>
        if month = 2 then month_days ! 1 + IsLeapYear year
        else month_days ! unat (month - 1)))"

text \<open>The three conditions of \<^verbatim>\<open>IsLeapYear\<close> exclude each other.\<close>

lemma leap_never: "IsLeapYear year = 0"
proof -
  have "unat year mod 400 = 0 \<Longrightarrow> unat year mod 100 = 0"
    using mod_mod_cancel [of 100 400 "unat year"] by simp
  then show ?thesis by (auto simp: IsLeapYear_def word_unat_eq_iff unat_mod_distrib word_of_bool_def)
qed

section \<open>Precisions\<close>

definition PREC_DEFAULT :: USINT where "PREC_DEFAULT = 5"
definition MAX_UNITS_COUNT :: UDINT where "MAX_UNITS_COUNT = 512"

record rPrecision =
  m_defPrec :: USINT
  m_unitPrec :: "USINT list"

definition prec_reset :: "USINT \<Rightarrow> rPrecision \<Rightarrow> rPrecision" where
  "prec_reset d p = p\<lparr>m_defPrec := d, m_unitPrec := replicate 512 d\<rparr>"

definition prec_new :: rPrecision where
  "prec_new = prec_reset PREC_DEFAULT \<lparr>m_defPrec = PREC_DEFAULT, m_unitPrec = []\<rparr>"

definition prec_get :: "UDINT \<Rightarrow> rPrecision \<Rightarrow> USINT" where
  "prec_get unit p = (if unit \<ge> MAX_UNITS_COUNT then m_defPrec p else m_unitPrec p ! unat unit)"

text \<open>
  \<^verbatim>\<open>load\<close> after the XML attributes are read: the default and, per element, the unit, the value and
  whether reading it failed. The first bad element ends the load and what was set stays.
\<close>

fun prec_load_units :: "(UDINT \<times> USINT \<times> bool) list \<Rightarrow> rPrecision \<Rightarrow> bool \<times> rPrecision" where
  "prec_load_units [] p = (True, p)"
| "prec_load_units ((i, v, fault) # xs) p =
     (if i \<ge> MAX_UNITS_COUNT \<or> fault then (False, p)
      else prec_load_units xs (p\<lparr>m_unitPrec := (m_unitPrec p)[unat i := v]\<rparr>))"

definition prec_load :: "USINT \<Rightarrow> (UDINT \<times> USINT \<times> bool) list \<Rightarrow> rPrecision \<Rightarrow> bool \<times> rPrecision" where
  "prec_load dflt xs p = prec_load_units xs (p\<lparr>m_defPrec := dflt\<rparr>)"

definition prec_wf :: "rPrecision \<Rightarrow> bool" where
  "prec_wf p \<longleftrightarrow> length (m_unitPrec p) = 512"

lemma prec_wf_new: "prec_wf prec_new" and prec_wf_reset: "prec_wf (prec_reset d p)"
  by (simp_all add: prec_wf_def prec_new_def prec_reset_def)

lemma prec_wf_load_units: "prec_wf p \<Longrightarrow> prec_wf (snd (prec_load_units xs p))"
  by (induction xs p rule: prec_load_units.induct) (auto simp: prec_wf_def)

lemma prec_wf_load: "prec_wf p \<Longrightarrow> prec_wf (snd (prec_load d xs p))"
  using prec_wf_load_units [of "p\<lparr>m_defPrec := d\<rparr>" xs] by (simp add: prec_load_def prec_wf_def)

end
