(* ===== verification/Compared.thy ===== *)
theory Compared
  imports Event Common
begin

text \<open>
  The compared values of \<^verbatim>\<open>src/tritonn/compared_values.cpp\<close>: a setting an operator may
  change (\<open>Value\<close>) beside the value last reported (\<open>Saved\<close>). \<^verbatim>\<open>Compare\<close> reports a change through
  an event it is given by reference: the two values are appended to that event, which is
  returned changed together with the events sent.
\<close>

section \<open>State and operations\<close>

record 'a rCompared =
  Value :: 'a
  Saved :: 'a

definition cmp_new :: "'a \<Rightarrow> 'a rCompared" where
  "cmp_new v = \<lparr>Value = v, Saved = v\<rparr>"

definition cmp_Init :: "'a \<Rightarrow> 'a rCompared \<Rightarrow> 'a rCompared" where
  "cmp_Init v c = c\<lparr>Value := v, Saved := v\<rparr>"

definition cmp_isDiff :: "'a rCompared \<Rightarrow> bool" where
  "cmp_isDiff c \<longleftrightarrow> Value c \<noteq> Saved c"

text \<open>
  What every \<^verbatim>\<open>Compare\<close> does once it has decided: \<open>mk\<close> is the \<open><<\<close> of the value's type.
\<close>

definition cmp_report :: "('a \<Rightarrow> eparam) \<Rightarrow> bool \<Rightarrow> cevent \<Rightarrow> 'a rCompared
    \<Rightarrow> UDINT \<times> 'a rCompared \<times> cevent \<times> cevent list" where
  "cmp_report mk differs ev c =
     (if differs
      then (let ev' = ev_adds ev [mk (Value c), mk (Saved c)]
            in (1, c\<lparr>Saved := Value c\<rparr>, ev', [ev']))
      else (0, c, ev, []))"

text \<open>\<^verbatim>\<open>rCompared<T>::Compare\<close>, used by the integer types.\<close>

definition cmp_Compare :: "('a \<Rightarrow> eparam) \<Rightarrow> cevent \<Rightarrow> 'a rCompared
    \<Rightarrow> UDINT \<times> 'a rCompared \<times> cevent \<times> cevent list" where
  "cmp_Compare mk ev c = cmp_report mk (cmp_isDiff c) ev c"

text \<open>\<^verbatim>\<open>rCmpREAL::Compare\<close>: single precision, and the comparison as it is written.\<close>

definition cmp_Compare_REAL_prec :: "lreal \<Rightarrow> cevent \<Rightarrow> lreal rCompared
    \<Rightarrow> UDINT \<times> lreal rCompared \<times> cevent \<times> cevent list" where
  "cmp_Compare_REAL_prec prec ev c =
     cmp_report P_REAL (abs (to_real32 (Value c - Saved c)) < prec) ev c"

definition cmp_Compare_REAL :: "cevent \<Rightarrow> lreal rCompared
    \<Rightarrow> UDINT \<times> lreal rCompared \<times> cevent \<times> cevent list" where
  "cmp_Compare_REAL ev c = cmp_Compare_REAL_prec (Fin 0) ev c"

definition cmp_Compare_LREAL_prec :: "lreal \<Rightarrow> cevent \<Rightarrow> lreal rCompared
    \<Rightarrow> UDINT \<times> lreal rCompared \<times> cevent \<times> cevent list" where
  "cmp_Compare_LREAL_prec prec ev c =
     cmp_report P_LREAL (abs (Value c - Saved c) > prec) ev c"

definition cmp_Compare_LREAL :: "cevent \<Rightarrow> lreal rCompared
    \<Rightarrow> UDINT \<times> lreal rCompared \<times> cevent \<times> cevent list" where
  "cmp_Compare_LREAL ev c = cmp_Compare_LREAL_prec (Fin 0) ev c"

section \<open>The contract of a compared setting\<close>

text \<open>
  A report happens exactly when the two values differ in the sense of the type, is counted by the
  result, leaves the setting alone, and ends the difference.
\<close>

locale compared =
  fixes compare' :: "cevent \<Rightarrow> 'a rCompared \<Rightarrow> UDINT \<times> 'a rCompared \<times> cevent \<times> cevent list"
    and differs :: "'a \<Rightarrow> 'a \<Rightarrow> bool" and mk :: "'a \<Rightarrow> eparam" and valid :: "'a \<Rightarrow> bool"
  assumes compare_def: "compare' ev c = cmp_report mk (differs (Value c) (Saved c)) ev c"
    and same: "valid v \<Longrightarrow> \<not> differs v v"
begin

lemma compare_value: "Value (fst (snd (compare' ev c))) = Value c"
  by (simp add: compare_def cmp_report_def Let_def)

lemma compare_count: "fst (compare' ev c) = (if differs (Value c) (Saved c) then 1 else 0)"
  by (simp add: compare_def cmp_report_def Let_def)

lemma compare_silent: "\<not> differs (Value c) (Saved c) \<Longrightarrow> compare' ev c = (0, c, ev, [])"
  by (simp add: compare_def cmp_report_def)

lemma compare_events: "length (snd (snd (snd (compare' ev c)))) = unat (fst (compare' ev c))"
  by (simp add: compare_def cmp_report_def Let_def)

text \<open>A reported change is reported once: the next comparison is silent.\<close>

lemma compare_twice:
  assumes "valid (Value c)" and "compare' ev c = (r, c', ev', out)"
  shows "compare' ev' c' = (0, c', ev', [])"
proof (cases "differs (Value c) (Saved c)")
  case True
  with assms have "c' = c\<lparr>Saved := Value c\<rparr>"
    by (auto simp: compare_def cmp_report_def Let_def)
  with same [OF assms(1)] show ?thesis by (simp add: compare_silent)
next
  case False
  with assms show ?thesis by (auto simp: compare_silent)
qed

end

lemma lreal_diff_self: "\<not> COMPARE_LREAL_PREC < abs (v - v)" if "v \<noteq> NaN"
proof -
  have "Fin 0 \<le> COMPARE_LREAL_PREC"
    unfolding COMPARE_LREAL_PREC_def by (rule dround_nonneg) simp
  then show ?thesis
    using that by (cases v) (auto simp: minus_lreal_def dest: lreal_le_not_less)
qed

interpretation cmp_UINT: compared "cmp_Compare P_UINT" "\<lambda>v s. v \<noteq> s" P_UINT "\<lambda>_. True"
  by unfold_locales (simp_all add: cmp_Compare_def cmp_isDiff_def)

interpretation cmp_UDINT: compared "cmp_Compare P_UDINT" "\<lambda>v s. v \<noteq> s" P_UDINT "\<lambda>_. True"
  by unfold_locales (simp_all add: cmp_Compare_def cmp_isDiff_def)

interpretation cmp_LREAL: compared "cmp_Compare_LREAL_prec COMPARE_LREAL_PREC"
  "\<lambda>v s. COMPARE_LREAL_PREC < abs (v - s)" P_LREAL "\<lambda>v. v \<noteq> NaN"
  by unfold_locales (simp_all add: cmp_Compare_LREAL_prec_def lreal_diff_self)

section \<open>What the event carries\<close>

text \<open>
  The event is not reinitialised between two reports: the second change appends behind the
  first, so the parameters a reader finds first are those of the oldest change.
\<close>

lemma ev_adds_room:
  "params_size (ev_params ev) + params_size ps \<le> DATA_SIZE \<Longrightarrow>
   ev_adds ev ps = Ev (ev_eid ev) (ev_params ev @ ps)"
proof (induction ps arbitrary: ev)
  case Nil
  then show ?case by (cases ev) (simp add: ev_adds_def)
next
  case (Cons p ps)
  then show ?case by (cases ev) (simp add: ev_adds_def)
qed

text \<open>
  The single-precision comparison never reports a change: with the default precision zero no
  value at all makes \<^verbatim>\<open>rCmpREAL::Compare\<close> send an event or take the new value over, whereas the
  double-precision one reports exactly the values that differ.
\<close>

theorem real_compare_silent:
  "cmp_Compare_REAL ev c = (0, c, ev, [])
   \<and> (Value c = Fin a \<and> Saved c = Fin b \<and> dround (a - b) \<noteq> Fin 0 \<longrightarrow>
        fst (cmp_Compare_LREAL ev c) = 1 \<and> Saved (fst (snd (cmp_Compare_LREAL ev c))) = Fin a)"
  by (simp add: cmp_Compare_REAL_def cmp_Compare_REAL_prec_def cmp_Compare_LREAL_def
      cmp_Compare_LREAL_prec_def cmp_report_def Let_def lreal_abs_nonneg lreal_abs_pos)

theorem real_compare_silent_witness:
  "let c = \<lparr>Value = Fin 5, Saved = Fin 2\<rparr>
   in cmp_Compare_REAL (Ev 1 []) c = (0, c, Ev 1 [], []) \<and> fst (cmp_Compare_LREAL (Ev 1 []) c) = 1"
  using real_compare_silent [of "Ev 1 []" "\<lparr>Value = Fin 5, Saved = Fin 2\<rparr>" 5 2]
  by simp

end
