(* ===== verification/BitsArray.thy ===== *)
theory BitsArray
  imports Types
begin

text \<open>
  \<^verbatim>\<open>rBitsArray\<close> of \<^verbatim>\<open>src/shared/bits_array.cpp\<close>: the tables that translate the flag words
  of the configuration into names and back. The round trip through the textual form is the
  property; it is used with the tables of the components.
\<close>

section \<open>State and operations\<close>

record rBitFlag =
  bf_name :: string
  bf_value :: UDINT
  bf_comment :: string
  bf_type :: TYPEID

type_synonym rBitsArray = "rBitFlag list"

definition bits_add_UDINT :: "string \<Rightarrow> UDINT \<Rightarrow> string \<Rightarrow> rBitsArray \<Rightarrow> rBitsArray" where
  "bits_add_UDINT name v c l = l @ [\<lparr>bf_name = name, bf_value = v, bf_comment = c, bf_type = T_UDINT\<rparr>]"

definition bits_add_UINT :: "string \<Rightarrow> UINT \<Rightarrow> string \<Rightarrow> rBitsArray \<Rightarrow> rBitsArray" where
  "bits_add_UINT name v c l = l @ [\<lparr>bf_name = name, bf_value = ucast v, bf_comment = c, bf_type = T_UINT\<rparr>]"

definition bits_add_USINT :: "string \<Rightarrow> USINT \<Rightarrow> string \<Rightarrow> rBitsArray \<Rightarrow> rBitsArray" where
  "bits_add_USINT name v c l = l @ [\<lparr>bf_name = name, bf_value = ucast v, bf_comment = c, bf_type = T_USINT\<rparr>]"

text \<open>The loop of \<^verbatim>\<open>getNameByBits\<close>, with \<open>result\<close> carried along.\<close>

fun nameByBits :: "rBitsArray \<Rightarrow> UDINT \<Rightarrow> string \<Rightarrow> string \<Rightarrow> string" where
  "nameByBits [] v delim result = result"
| "nameByBits (item # l) v delim result =
     (if has (bf_value item) v \<and> bf_name item \<noteq> []
      then nameByBits l v delim (result @ ((if result \<noteq> [] then delim else []) @ bf_name item))
      else nameByBits l v delim result)"

definition getNameByBits :: "rBitsArray \<Rightarrow> UDINT \<Rightarrow> string \<Rightarrow> string" where
  "getNameByBits l v delim = nameByBits l v delim []"

fun getNameByValue :: "rBitsArray \<Rightarrow> UDINT \<Rightarrow> string" where
  "getNameByValue [] v = []"
| "getNameByValue (item # l) v =
     (if bf_value item = v \<and> bf_name item \<noteq> [] then bf_name item else getNameByValue l v)"

fun findBit :: "rBitsArray \<Rightarrow> string \<Rightarrow> UDINT option" where
  "findBit [] name = None"
| "findBit (item # l) name =
     (if bf_name item = name \<and> bf_name item \<noteq> [] then Some (bf_value item) else findBit l name)"

text \<open>\<^verbatim>\<open>err\<close> is a reference: the functions return it with their result.\<close>

definition getBit :: "rBitsArray \<Rightarrow> string \<Rightarrow> UDINT \<Rightarrow> UDINT \<times> UDINT" where
  "getBit l name err =
     (if err \<noteq> 0 then (0, err) else if name = [] then (0, err)
      else (case findBit l name of Some v \<Rightarrow> (v, err) | None \<Rightarrow> (0, 1)))"

text \<open>
  The loop of \<^verbatim>\<open>getValue\<close> over the characters; \<^verbatim>\<open>break\<close> leaves with \<open>name\<close> empty, so the
  code after the loop does nothing then.
\<close>

fun getValue_loop :: "rBitsArray \<Rightarrow> string \<Rightarrow> string \<Rightarrow> UDINT \<Rightarrow> UDINT \<Rightarrow> UDINT \<times> UDINT" where
  "getValue_loop l [] name result err =
     (if name \<noteq> [] then (case getBit l name err of (b, err') \<Rightarrow> (result OR b, err'))
      else (result, err))"
| "getValue_loop l (ch # str) name result err =
     (if ch = CHR '' '' \<or> ch = CHR ''|''
      then (if name \<noteq> []
            then (case getBit l name err of (b, err') \<Rightarrow>
                    if err' \<noteq> 0 then (result OR b, err')
                    else getValue_loop l str [] (result OR b) err')
            else getValue_loop l str name result err)
      else getValue_loop l str (name @ [ch]) result err)"

definition getValue :: "rBitsArray \<Rightarrow> string \<Rightarrow> UDINT \<Rightarrow> UDINT \<times> UDINT" where
  "getValue l str err =
     (if err \<noteq> 0 then (0, err) else if str = [] then (0, err) else getValue_loop l str [] 0 err)"

section \<open>The textual round trip\<close>

text \<open>A table can be read back when its names are different and hold no delimiter.\<close>

definition plain_name :: "string \<Rightarrow> bool" where
  "plain_name s \<longleftrightarrow> CHR '' '' \<notin> set s \<and> CHR ''|'' \<notin> set s"

definition bits_wf :: "rBitsArray \<Rightarrow> bool" where
  "bits_wf l \<longleftrightarrow> list_all (\<lambda>i. plain_name (bf_name i)) l
     \<and> distinct (map bf_name (filter (\<lambda>i. bf_name i \<noteq> []) l))"

definition bits_selected :: "rBitsArray \<Rightarrow> UDINT \<Rightarrow> rBitFlag list" where
  "bits_selected l v = filter (\<lambda>i. has (bf_value i) v \<and> bf_name i \<noteq> []) l"

definition bits_or :: "rBitFlag list \<Rightarrow> UDINT" where
  "bits_or l = foldl (\<lambda>r i. r OR bf_value i) 0 l"

lemma findBit_member:
  "i \<in> set l \<Longrightarrow> bf_name i \<noteq> [] \<Longrightarrow> distinct (map bf_name (filter (\<lambda>i. bf_name i \<noteq> []) l)) \<Longrightarrow>
   findBit l (bf_name i) = Some (bf_value i)"
  by (induction l) (auto split: if_splits)

lemma getValue_loop_name:
  "plain_name s \<Longrightarrow> getValue_loop l (s @ rest) name result err = getValue_loop l rest (name @ s) result err"
  by (induction s arbitrary: name) (auto simp: plain_name_def)

lemma nameByBits_selected:
  "nameByBits l v delim result =
     foldl (\<lambda>r i. r @ (if r \<noteq> [] then delim else []) @ bf_name i) result (bits_selected l v)"
  by (induction l arbitrary: result) (simp_all add: bits_selected_def)

lemma foldl_join:
  "result \<noteq> [] \<Longrightarrow> \<forall>i\<in>set is. bf_name i \<noteq> [] \<Longrightarrow>
   foldl (\<lambda>r i. r @ (if r \<noteq> [] then delim else []) @ bf_name i) result is
     = result @ concat (map (\<lambda>i. delim @ bf_name i) is)"
  by (induction "is" arbitrary: result) auto

lemma getValue_loop_items:
  assumes wf: "bits_wf l" and sel: "set is \<subseteq> set l" "\<forall>i\<in>set is. bf_name i \<noteq> []"
    and i: "i \<in> set l" "bf_name i \<noteq> []"
  shows "getValue_loop l (concat (map (\<lambda>j. ''|'' @ bf_name j) is)) (bf_name i) result 0
    = (foldl (\<lambda>r j. r OR bf_value j) (result OR bf_value i) is, 0)"
  using sel i
proof (induction "is" arbitrary: i result)
  case Nil
  with wf show ?case by (simp add: getBit_def findBit_member bits_wf_def)
next
  case (Cons j js)
  have j: "j \<in> set l" "bf_name j \<noteq> []" "plain_name (bf_name j)"
    using Cons.prems wf by (auto simp: bits_wf_def list_all_iff)
  have "getBit l (bf_name i) 0 = (bf_value i, 0)"
    using Cons.prems wf by (simp add: getBit_def findBit_member bits_wf_def)
  with Cons j show ?case
    by (simp add: getValue_loop_name)
qed

lemma getValue_names:
  assumes wf: "bits_wf l"
  shows "getValue l (getNameByBits l v ''|'') 0 = (bits_or (bits_selected l v), 0)"
proof (cases "bits_selected l v")
  case Nil
  then show ?thesis
    by (simp add: getNameByBits_def nameByBits_selected getValue_def bits_or_def)
next
  case (Cons i js)
  have sub: "set (i # js) \<subseteq> set l" and ne: "\<forall>j\<in>set (i # js). bf_name j \<noteq> []"
    unfolding Cons [symmetric] by (auto simp: bits_selected_def)
  have "plain_name (bf_name i)"
    using sub wf by (auto simp: bits_wf_def list_all_iff)
  then show ?thesis
    using ne sub getValue_loop_items [OF wf, of js i 0]
    by (simp add: getNameByBits_def nameByBits_selected Cons foldl_join getValue_def bits_or_def
        getValue_loop_name)
qed

text \<open>
  Flag words survive the configuration text. For a table with different, delimiter-free names,
  printing a word and reading the text back reports no error and yields exactly the union of the
  named flags that meet the word; so a word that is made of whole named flags comes back as it was.
\<close>

theorem bits_text_roundtrip:
  assumes "bits_wf l"
  shows "getValue l (getNameByBits l v ''|'') 0 = (bits_or (bits_selected l v), 0)"
  using getValue_names [OF assms] .

theorem bits_text_roundtrip_witness:
  "let l = bits_add_UINT ''HI'' 2 '''' (bits_add_UINT ''OFF'' 1 '''' [])
   in getValue l (getNameByBits l 3 ''|'') 0 = (3, 0)"
  using bits_text_roundtrip [of "bits_add_UINT ''HI'' 2 '''' (bits_add_UINT ''OFF'' 1 '''' [])" 3]
  by (simp add: bits_add_UINT_def bits_wf_def plain_name_def bits_or_def bits_selected_def has_def)

text \<open>A name that is not in the table is an error, and the error is kept.\<close>

lemma getValue_unknown:
  "plain_name s \<Longrightarrow> s \<noteq> [] \<Longrightarrow> findBit l s = None \<Longrightarrow> snd (getValue l s 0) = 1"
  using getValue_loop_name [of s l "[]" "[]" 0 0] by (simp add: getValue_def getBit_def)

end
