(* ===== verification/Limit.thy ===== *)
theory Limit
  imports Compared BitsArray
begin

text \<open>
  The alarm limits \<^verbatim>\<open>rLimit\<close> of \<^verbatim>\<open>src/tritonn/data/limit.cpp\<close>: four thresholds with
  hysteresis that classify a value, the change events of the settings and the alarm events of
  the classification. The lemmas show the hysteresis, that a repeated value is silent and that
  the alarm events are exactly the changes of status.
\<close>

section \<open>State\<close>

datatype LStatus = LS_UNDEF | LS_ISNAN | LS_LOLO | LS_LO | LS_NORMAL | LS_HI | LS_HIHI

fun LStatus_code :: "LStatus \<Rightarrow> UINT" where
  "LStatus_code LS_UNDEF = 0"
| "LStatus_code LS_ISNAN = 1"
| "LStatus_code LS_LOLO = 2"
| "LStatus_code LS_LO = 3"
| "LStatus_code LS_NORMAL = 4"
| "LStatus_code LS_HI = 5"
| "LStatus_code LS_HIHI = 6"

definition LSETUP_NONE :: UINT where "LSETUP_NONE = 0x0000"
definition LSETUP_OFF :: UINT where "LSETUP_OFF = 0x0001"
definition LSETUP_LOLO :: UINT where "LSETUP_LOLO = 0x0002"
definition LSETUP_LO :: UINT where "LSETUP_LO = 0x0004"
definition LSETUP_HI :: UINT where "LSETUP_HI = 0x0008"
definition LSETUP_HIHI :: UINT where "LSETUP_HIHI = 0x0010"
definition LSETUP_OPTIONAL :: UINT where "LSETUP_OPTIONAL = 0x8000"

lemmas lsetup_defs = LSETUP_NONE_def LSETUP_OFF_def LSETUP_LOLO_def LSETUP_LO_def LSETUP_HI_def
  LSETUP_HIHI_def LSETUP_OPTIONAL_def

record rLimit =
  m_lolo :: "lreal rCompared"
  m_lo :: "lreal rCompared"
  m_hi :: "lreal rCompared"
  m_hihi :: "lreal rCompared"
  Hysteresis :: "lreal rCompared"
  EventAMin :: cevent
  EventWMin :: cevent
  EventWMax :: cevent
  EventAMax :: cevent
  EventNormal :: cevent
  EventNan :: cevent
  EventChangeAMin :: cevent
  EventChangeWMin :: cevent
  EventChangeWMax :: cevent
  EventChangeAMax :: cevent
  EventChangeHyst :: cevent
  EventChangeSetup :: cevent
  m_status :: LStatus
  m_setup :: "UINT rCompared"

definition limit_new :: rLimit where
  "limit_new = \<lparr>m_lolo = cmp_new (Fin 0), m_lo = cmp_new (Fin 0), m_hi = cmp_new (Fin 0),
     m_hihi = cmp_new (Fin 0), Hysteresis = cmp_new (Fin 0), EventAMin = Ev EID_UNDEF [],
     EventWMin = Ev EID_UNDEF [], EventWMax = Ev EID_UNDEF [], EventAMax = Ev EID_UNDEF [],
     EventNormal = Ev EID_UNDEF [], EventNan = Ev EID_UNDEF [], EventChangeAMin = Ev EID_UNDEF [],
     EventChangeWMin = Ev EID_UNDEF [], EventChangeWMax = Ev EID_UNDEF [],
     EventChangeAMax = Ev EID_UNDEF [], EventChangeHyst = Ev EID_UNDEF [],
     EventChangeSetup = Ev EID_UNDEF [], m_status = LS_UNDEF, m_setup = cmp_new LSETUP_OFF\<rparr>"

text \<open>The table of the setup flags that the constructor fills on first use.\<close>

definition limit_flagsSetup :: rBitsArray where
  "limit_flagsSetup =
     bits_add_UINT ''HIHI'' LSETUP_HIHI '''' (bits_add_UINT ''HI'' LSETUP_HI ''''
       (bits_add_UINT ''LO'' LSETUP_LO '''' (bits_add_UINT ''LOLO'' LSETUP_LOLO ''''
         (bits_add_UINT ''OFF'' LSETUP_OFF '''' []))))"

section \<open>Operations\<close>

text \<open>\<^verbatim>\<open>sendEvent\<close>: the alarm event is copied, so its template does not grow.\<close>

definition limit_sendEvent :: "cevent \<Rightarrow> lreal option \<Rightarrow> lreal option \<Rightarrow> bool \<Rightarrow> cevent list" where
  "limit_sendEvent e val thr dontsend =
     (if dontsend then []
      else [ev_adds e ((case val of Some v \<Rightarrow> [P_LREAL v] | None \<Rightarrow> [])
                       @ (case thr of Some v \<Rightarrow> [P_LREAL v] | None \<Rightarrow> []))])"

text \<open>The six comparisons at the head of \<^verbatim>\<open>calculate\<close>.\<close>

definition limit_compare :: "rLimit \<Rightarrow> rLimit \<times> cevent list" where
  "limit_compare l =
     (let (_, a, ea, o1) = cmp_Compare_LREAL_prec COMPARE_LREAL_PREC (EventChangeAMin l) (m_lolo l);
          (_, b, eb, o2) = cmp_Compare_LREAL_prec COMPARE_LREAL_PREC (EventChangeWMin l) (m_lo l);
          (_, c, ec, o3) = cmp_Compare_LREAL_prec COMPARE_LREAL_PREC (EventChangeWMax l) (m_hi l);
          (_, d, ed, o4) = cmp_Compare_LREAL_prec COMPARE_LREAL_PREC (EventChangeAMax l) (m_hihi l);
          (_, h, eh, o5) = cmp_Compare_LREAL_prec COMPARE_LREAL_PREC (EventChangeHyst l) (Hysteresis l);
          (_, s, es, o6) = cmp_Compare P_UINT (EventChangeSetup l) (m_setup l)
      in (l\<lparr>m_lolo := a, m_lo := b, m_hi := c, m_hihi := d, Hysteresis := h, m_setup := s,
            EventChangeAMin := ea, EventChangeWMin := eb, EventChangeWMax := ec,
            EventChangeAMax := ed, EventChangeHyst := eh, EventChangeSetup := es\<rparr>,
          o1 @ o2 @ o3 @ o4 @ o5 @ o6))"

text \<open>\<^verbatim>\<open>std::isinf(val) || std::isnan(val)\<close>.\<close>

definition lreal_bad :: "lreal \<Rightarrow> bool" where
  "lreal_bad v \<longleftrightarrow> v = NaN \<or> v = PInf \<or> v = NInf"

text \<open>The classification: new status and alarm events.\<close>

definition limit_classify :: "lreal \<Rightarrow> rLimit \<Rightarrow> LStatus \<times> cevent list" where
  "limit_classify val l = (let old = m_status l; su = Value (m_setup l); hyst = Value (Hysteresis l) in
     if has su LSETUP_HIHI \<and> (val > Value (m_hihi l) \<or> (val > Value (m_hihi l) - hyst \<and> old = LS_HIHI))
     then (LS_HIHI, limit_sendEvent (EventAMax l) (Some val) (Some (Value (m_hihi l))) (old = LS_HIHI))
     else if has su LSETUP_LOLO \<and> (val < Value (m_lolo l) \<or> (val < Value (m_lolo l) + hyst \<and> old = LS_LOLO))
     then (LS_LOLO, limit_sendEvent (EventAMin l) (Some val) (Some (Value (m_lolo l))) (old = LS_LOLO))
     else if has su LSETUP_HI \<and> (val > Value (m_hi l) \<or> (val > Value (m_hi l) - hyst \<and> old = LS_HI))
     then (LS_HI, limit_sendEvent (EventWMax l) (Some val) (Some (Value (m_hi l))) (old = LS_HI))
     else if has su LSETUP_LO \<and> (val < Value (m_lo l) \<or> (val < Value (m_lo l) + hyst \<and> old = LS_LO))
     then (LS_LO, limit_sendEvent (EventWMin l) (Some val) (Some (Value (m_lo l))) (old = LS_LO))
     else (LS_NORMAL, limit_sendEvent (EventNormal l) (Some val) None (old = LS_NORMAL)))"

definition limit_calculate :: "lreal \<Rightarrow> UDINT \<Rightarrow> rLimit \<Rightarrow> UINT \<times> rLimit \<times> cevent list" where
  "limit_calculate val check l =
     (if has (Value (m_setup l)) LSETUP_OFF then (0, l\<lparr>m_status := LS_UNDEF\<rparr>, [])
      else (let (l1, evs) = limit_compare l in
        if lreal_bad val
        then (LStatus_code LS_ISNAN, l1\<lparr>m_status := LS_ISNAN\<rparr>,
              evs @ limit_sendEvent (EventNan l1) None None (m_status l1 = LS_ISNAN))
        else if check = 0 then (LStatus_code (m_status l1), l1, evs)
        else (case limit_classify val l1 of (st, alarms) \<Rightarrow>
                (LStatus_code st, l1\<lparr>m_status := st\<rparr>, evs @ alarms))))"

text \<open>
  \<^verbatim>\<open>loadFromXML\<close>: the setup attribute (its default is the name of \<^verbatim>\<open>OFF\<close>) and the texts of the
  five elements, as the XML helpers hand them over.
\<close>

definition limit_load :: "string \<Rightarrow> lreal \<Rightarrow> lreal \<Rightarrow> lreal \<Rightarrow> lreal \<Rightarrow> lreal \<Rightarrow> rLimit \<Rightarrow> rLimit" where
  "limit_load strSetup hyst lolo lo hi hihi l =
     l\<lparr>m_setup := cmp_Init (ucast (fst (getValue limit_flagsSetup strSetup 0))) (m_setup l),
       Hysteresis := cmp_Init hyst (Hysteresis l), m_lolo := cmp_Init lolo (m_lolo l),
       m_lo := cmp_Init lo (m_lo l), m_hi := cmp_Init hi (m_hi l), m_hihi := cmp_Init hihi (m_hihi l)\<rparr>"

section \<open>The head of calculate\<close>

lemma limit_compare_status [simp]: "m_status (fst (limit_compare l)) = m_status l"
  by (simp add: limit_compare_def split: prod.split)

lemma limit_compare_upd:
  "limit_compare (l\<lparr>m_status := st\<rparr>) =
     ((fst (limit_compare l))\<lparr>m_status := st\<rparr>, snd (limit_compare l))"
  by (simp add: limit_compare_def split: prod.split)

lemma limit_compare_values [simp]:
  "Value (m_lolo (fst (limit_compare l))) = Value (m_lolo l)"
  "Value (m_lo (fst (limit_compare l))) = Value (m_lo l)"
  "Value (m_hi (fst (limit_compare l))) = Value (m_hi l)"
  "Value (m_hihi (fst (limit_compare l))) = Value (m_hihi l)"
  "Value (Hysteresis (fst (limit_compare l))) = Value (Hysteresis l)"
  "Value (m_setup (fst (limit_compare l))) = Value (m_setup l)"
  using cmp_LREAL.compare_value [of "EventChangeAMin l" "m_lolo l"]
    cmp_LREAL.compare_value [of "EventChangeWMin l" "m_lo l"]
    cmp_LREAL.compare_value [of "EventChangeWMax l" "m_hi l"]
    cmp_LREAL.compare_value [of "EventChangeAMax l" "m_hihi l"]
    cmp_LREAL.compare_value [of "EventChangeHyst l" "Hysteresis l"]
    cmp_UINT.compare_value [of "EventChangeSetup l" "m_setup l"]
  by (auto simp: limit_compare_def split: prod.split)

text \<open>The thresholds are numbers; a setting that is a NaN would be reported in every cycle.\<close>

definition limit_wf :: "rLimit \<Rightarrow> bool" where
  "limit_wf l \<longleftrightarrow> Value (m_lolo l) \<noteq> NaN \<and> Value (m_lo l) \<noteq> NaN \<and> Value (m_hi l) \<noteq> NaN
     \<and> Value (m_hihi l) \<noteq> NaN \<and> Value (Hysteresis l) \<noteq> NaN"

lemma limit_compare_twice:
  assumes "limit_wf l"
  shows "limit_compare (fst (limit_compare l)) = (fst (limit_compare l), [])"
proof -
  obtain r1 a ea o1 where 1: "cmp_Compare_LREAL_prec COMPARE_LREAL_PREC (EventChangeAMin l) (m_lolo l) = (r1, a, ea, o1)"
    by (metis prod_cases4)
  obtain r2 b eb o2 where 2: "cmp_Compare_LREAL_prec COMPARE_LREAL_PREC (EventChangeWMin l) (m_lo l) = (r2, b, eb, o2)"
    by (metis prod_cases4)
  obtain r3 c ec o3 where 3: "cmp_Compare_LREAL_prec COMPARE_LREAL_PREC (EventChangeWMax l) (m_hi l) = (r3, c, ec, o3)"
    by (metis prod_cases4)
  obtain r4 d ed o4 where 4: "cmp_Compare_LREAL_prec COMPARE_LREAL_PREC (EventChangeAMax l) (m_hihi l) = (r4, d, ed, o4)"
    by (metis prod_cases4)
  obtain r5 h eh o5 where 5: "cmp_Compare_LREAL_prec COMPARE_LREAL_PREC (EventChangeHyst l) (Hysteresis l) = (r5, h, eh, o5)"
    by (metis prod_cases4)
  obtain r6 s es o6 where 6: "cmp_Compare P_UINT (EventChangeSetup l) (m_setup l) = (r6, s, es, o6)"
    by (metis prod_cases4)
  have "Value (m_lolo l) \<noteq> NaN" "Value (m_lo l) \<noteq> NaN" "Value (m_hi l) \<noteq> NaN"
    "Value (m_hihi l) \<noteq> NaN" "Value (Hysteresis l) \<noteq> NaN"
    using assms by (simp_all add: limit_wf_def)
  with 1 2 3 4 5 6 show ?thesis
    by (simp add: limit_compare_def cmp_LREAL.compare_twice [OF _ 1] cmp_LREAL.compare_twice [OF _ 2]
        cmp_LREAL.compare_twice [OF _ 3] cmp_LREAL.compare_twice [OF _ 4]
        cmp_LREAL.compare_twice [OF _ 5] cmp_UINT.compare_twice [OF _ 6])
qed

section \<open>Classification\<close>

lemma limit_classify_silent:
  "limit_classify val l = (st, out) \<Longrightarrow> length out = (if st = m_status l then 0 else 1)"
  by (auto simp: limit_classify_def limit_sendEvent_def Let_def split: if_splits)

lemma limit_classify_stable:
  assumes "limit_classify val l = (st, out)"
  shows "limit_classify val (l\<lparr>m_status := st\<rparr>) = (st, [])"
  using assms by (auto simp: limit_classify_def limit_sendEvent_def Let_def split: if_splits)

lemma limit_classify_keeps:
  "has (Value (m_setup l)) LSETUP_HIHI \<Longrightarrow> m_status l = LS_HIHI \<Longrightarrow>
     val > Value (m_hihi l) - Value (Hysteresis l) \<Longrightarrow> fst (limit_classify val l) = LS_HIHI"
  by (simp add: limit_classify_def Let_def)

lemma limit_status_of_calculate:
  "\<not> has (Value (m_setup l)) LSETUP_OFF \<Longrightarrow> \<not> lreal_bad val \<Longrightarrow> check \<noteq> 0 \<Longrightarrow>
   m_status (fst (snd (limit_calculate val check l))) = fst (limit_classify val (fst (limit_compare l)))"
  by (simp add: limit_calculate_def split: prod.split)

text \<open>
  The alarms of a value are the changes of its status, and they settle at once. With numeric
  thresholds, recalculating the same value, checked or a bad number, keeps the state of the limit
  exactly as it is, returns the same status and sends nothing: hysteresis cannot make the status
  oscillate on a constant value, and the setting changes were reported once.
\<close>

theorem limit_settles:
  assumes "limit_wf l" and "limit_calculate val check l = (r, l', out)" and "check \<noteq> 0 \<or> lreal_bad val"
  shows "limit_calculate val check l' = (r, l', [])"
proof (cases "has (Value (m_setup l)) LSETUP_OFF")
  case True
  with assms(2) show ?thesis by (auto simp: limit_calculate_def)
next
  case False
  define l1 where "l1 = fst (limit_compare l)"
  have su: "\<not> has (Value (m_setup l1)) LSETUP_OFF" using False by (simp add: l1_def)
  have tw: "limit_compare l1 = (l1, [])"
    using limit_compare_twice [OF assms(1)] by (simp add: l1_def)
  have upd: "limit_compare (l1\<lparr>m_status := st\<rparr>) = (l1\<lparr>m_status := st\<rparr>, [])" for st
    using tw by (simp add: limit_compare_upd)
  show ?thesis
  proof (cases "lreal_bad val")
    case True
    then have "r = LStatus_code LS_ISNAN" "l' = l1\<lparr>m_status := LS_ISNAN\<rparr>"
      using assms(2) False by (auto simp: limit_calculate_def l1_def split: prod.splits)
    with True su upd show ?thesis
      by (simp add: limit_calculate_def limit_sendEvent_def)
  next
    case good: False
    then obtain st al where cl: "limit_classify val l1 = (st, al)" by (metis surj_pair)
    then have "r = LStatus_code st" "l' = l1\<lparr>m_status := st\<rparr>"
      using assms(2,3) False good by (auto simp: limit_calculate_def l1_def split: prod.splits)
    with good su upd limit_classify_stable [OF cl] assms(3) show ?thesis
      by (simp add: limit_calculate_def)
  qed
qed

definition limit_example :: rLimit where
  "limit_example = limit_load ''HI|HIHI|LO|LOLO'' (Fin 2) (Fin 10) (Fin 20) (Fin 80) (Fin 90) limit_new"

lemma limit_example_setup: "Value (m_setup limit_example) = 0x1E"
  by (simp add: limit_example_def limit_load_def cmp_Init_def getValue_def getBit_def
      limit_flagsSetup_def bits_add_UINT_def lsetup_defs)

theorem limit_settles_witness:
  "snd (snd (limit_calculate (Fin 95) 1 (fst (snd (limit_calculate (Fin 95) 1 limit_example))))) = []"
proof -
  have wf: "limit_wf limit_example"
    by (simp add: limit_example_def limit_wf_def limit_load_def cmp_Init_def)
  obtain r l' out where c: "limit_calculate (Fin 95) 1 limit_example = (r, l', out)"
    by (metis prod_cases3)
  from limit_settles [OF wf c] show ?thesis by (simp add: c)
qed

end
