(* ===== verification/Units.thy ===== *)
theory Units
  imports Lreal
begin

text \<open>
  Unit conversion, \<^verbatim>\<open>src/tritonn/units.cpp\<close>: the table of factors \<^verbatim>\<open>Y = A + B * X\<close> from the
  base unit of a group and \<^verbatim>\<open>ConvertValue\<close>. Rows that \<^verbatim>\<open>Init\<close> leaves alone hold NaNs. \<open>oob\<close>
  is the row the machine reads behind the table, since the NaN test comes before the range test,
  and \<open>base\<close> the uninitialised local of the function.
\<close>

section \<open>The table\<close>

definition U_any :: UDINT where "U_any = 0"
definition U_DIMLESS :: UDINT where "U_DIMLESS = 512"

datatype unit_error = U_NONE | U_ISNAN | U_INCOMPATIBILITY

fun unit_error_code :: "unit_error \<Rightarrow> UDINT" where
  "unit_error_code U_NONE = 0"
| "unit_error_code U_ISNAN = 1"
| "unit_error_code U_INCOMPATIBILITY = 2"

text \<open>\<^verbatim>\<open>Init\<close>: unit, A and B, in source order; a later row of a unit overwrites the earlier.\<close>

definition units_init :: "(nat \<times> real \<times> real) list" where
  "units_init =
    [(0, 0, 1),
     (16, 0, 1), (17, 273.15, 1), (18, 32, 1.8),
     (32, 0, 1), (33, 0, 1000), (34, 0, 10.197162), (35, 0, 10), (36, 0, 10000),
     (37, 0, 9.869232667160128), (38, 0, 7500.637554192), (39, 0, 145.03773773022),
     (48, 0, 1), (49, 0, 0.001),
     (64, 0, 1), (65, 0, 0.01), (66, 0, 0.0001019716212978), (67, 0, 0.001),
     (80, 0, 1), (81, 0, 0.01), (82, 0, 0.000001),
     (96, 0, 1), (97, 0, 1000), (98, 0, 1000000),
     (112, 0, 1), (113, 0, 1000), (114, 0, 1000000),
     (128, 0, 1), (129, 0, 1000),
     (144, 0, 1), (145, 0, 1000),
     (160, 0, 1), (161, 0, 0.001),
     (176, 0, 1), (177, 0, 0.001),
     (192, 0, 1), (193, 0, 0.001), (194, 0, 0.000001),
     (208, 0, 1), (209, 0, 1 / 10 ^ 3), (210, 0, 1 / 10 ^ 6), (211, 0, 1 / 10 ^ 9),
     (224, 0, 1), (225, 0, 1024), (226, 0, 1048576), (226, 0, 1073741824), (227, 0, 1099511627776)]"

definition UnitsTable :: "UDINT \<Rightarrow> (lreal \<times> lreal) option" where
  "UnitsTable u = map_option (\<lambda>(a, b). (dround a, dround b)) (map_of (rev units_init) (unat u))"

definition units_row :: "lreal \<times> lreal \<Rightarrow> UDINT \<Rightarrow> lreal \<times> lreal" where
  "units_row oob u = (if u \<ge> U_DIMLESS then oob
     else (case UnitsTable u of Some ab \<Rightarrow> ab | None \<Rightarrow> (NaN, NaN)))"

definition ConvertValue :: "lreal \<times> lreal \<Rightarrow> lreal \<Rightarrow> lreal \<Rightarrow> UDINT \<Rightarrow> UDINT \<Rightarrow> unit_error \<times> lreal" where
  "ConvertValue oob base srcVal srcUnit dstUnit =
     (if srcUnit = dstUnit \<or> srcUnit = U_any \<or> dstUnit = U_any then (U_NONE, srcVal)
      else (let (sA, sB) = units_row oob srcUnit; (dA, dB) = units_row oob dstUnit in
        if sA = NaN \<or> sB = NaN \<or> dA = NaN \<or> dB = NaN then (U_ISNAN, srcVal)
        else if srcUnit \<ge> U_DIMLESS \<or> dstUnit \<ge> U_DIMLESS \<or> drop_bit 4 srcUnit \<noteq> drop_bit 4 dstUnit
        then (U_INCOMPATIBILITY, srcVal)
        else (let base1 = (if srcUnit AND 0x0F \<noteq> 0 then (srcVal - sA) / sB else base);
                  base2 = (if dstUnit AND 0x0F \<noteq> 0 then dA + srcVal * dB else base1)
              in (U_NONE, base2))))"

section \<open>Behaviour\<close>

lemma dstUnit_group_base:
  "drop_bit 4 (s :: UDINT) = drop_bit 4 d \<Longrightarrow> s AND 0x0F = 0 \<Longrightarrow> d AND 0x0F = 0 \<Longrightarrow> s = d"
proof (rule bit_eqI)
  fix n
  assume g: "drop_bit 4 s = drop_bit 4 d" and b: "s AND 0x0F = 0" "d AND 0x0F = 0"
  have m: "(0x0F :: UDINT) = mask 4" by (simp add: mask_eq_exp_minus_1)
  have z: "w AND mask 4 = 0 \<Longrightarrow> n < 4 \<Longrightarrow> \<not> bit (w :: UDINT) n" for w
  proof
    assume "w AND mask 4 = 0" "n < 4" "bit w n"
    from \<open>n < 4\<close> \<open>bit w n\<close> have "bit (w AND mask 4) n"
      by (simp add: bit_and_iff bit_mask_iff bit_imp_le_length)
    with \<open>w AND mask 4 = 0\<close> show False by simp
  qed
  show "bit s n \<longleftrightarrow> bit d n"
  proof (cases "n < 4")
    case True
    with b m z show ?thesis by metis
  next
    case False
    then obtain k where "n = 4 + k" by (metis le_Suc_ex linorder_not_less)
    with g show ?thesis by (metis bit_drop_bit_eq comp_apply)
  qed
qed

text \<open>
  A conversion never uses the uninitialised local, converts only within a group and keeps
  the value when it reports an error; between a unit and the base of its group it is the table's
  formula. Between two derived units of a group it applies the target's formula to the
  unconverted value, so it treats the source as if it were already in base units.
\<close>

theorem convert_value_cases:
  "(case ConvertValue oob base v s d of
      (U_NONE, r) \<Rightarrow>
        (s = d \<or> s = U_any \<or> d = U_any) \<and> r = v
        \<or> drop_bit 4 s = drop_bit 4 d \<and> s < U_DIMLESS \<and> d < U_DIMLESS
          \<and> (if d AND 0x0F \<noteq> 0 then r = fst (units_row oob d) + v * snd (units_row oob d)
             else r = (v - fst (units_row oob s)) / snd (units_row oob s))
    | (_, r) \<Rightarrow> r = v)
   \<and> ConvertValue oob base v s d = ConvertValue oob base' v s d"
  using dstUnit_group_base [of s d]
  by (auto simp: ConvertValue_def Let_def not_le split: prod.splits unit_error.splits if_splits)

lemma UnitsTable_pressure:
  "units_row oob 32 = (Fin 0, Fin 1)" "units_row oob 33 = (Fin 0, Fin 1000)"
  "units_row oob 35 = (Fin 0, Fin 10)"
  by (simp_all add: units_row_def U_DIMLESS_def UnitsTable_def units_init_def)

lemma convert_kPa_bar: "ConvertValue oob base (Fin 100) 33 35 = (U_NONE, Fin 1000)"
  by (simp add: ConvertValue_def U_any_def U_DIMLESS_def UnitsTable_pressure)

lemma convert_kPa_MPa: "ConvertValue oob base (Fin 3000) 33 32 = (U_NONE, Fin 3)"
  by (simp add: ConvertValue_def U_any_def U_DIMLESS_def UnitsTable_pressure)

end
