(* ===== verification/Source.thy ===== *)
theory Source
  imports Limit Units
begin

text \<open>
  The base class of all data objects, \<^verbatim>\<open>src/tritonn/data/source.cpp\<close>, and the links between
  them, \<^verbatim>\<open>link.cpp\<close>: the fault latches \<^verbatim>\<open>m_lockErr\<close> that make an object report an error
  once, the search and the reading of an output with unit conversion, the calculation of a link and
  the parsing of a tag. The \<open>latch\<close> locale is the contract of the latches; it is interpreted for
  every flag of the model.
\<close>

section \<open>Events of an object\<close>

text \<open>\<^verbatim>\<open>reinitEvent(eid)\<close> puts the object's number and description first.\<close>

definition reinitEvent :: "UDINT \<Rightarrow> UDINT \<Rightarrow> UDINT \<Rightarrow> cevent" where
  "reinitEvent ID descr eid = ev_adds (Ev eid []) [P_UDINT ID, P_STRID descr]"

lemma ev_eid_reinitEvent [simp]: "ev_eid (reinitEvent ID descr eid) = eid"
  by (simp add: reinitEvent_def ev_adds_def DATA_SIZE_def param_size_def)

section \<open>Fault latches\<close>

definition SOURCE_LE_OUTPUT :: UDINT where "SOURCE_LE_OUTPUT = 0x40000000"
definition SOURCE_LE_UNIT :: UDINT where "SOURCE_LE_UNIT = 0x80000000"

definition checkExpr :: "bool \<Rightarrow> UDINT \<Rightarrow> cevent \<Rightarrow> cevent \<Rightarrow> UDINT \<Rightarrow> UDINT \<times> UDINT \<times> cevent list" where
  "checkExpr expr flag event_fault event_success lockErr =
     (if expr
      then (if \<not> has lockErr flag then (1, lockErr OR flag, [event_fault]) else (1, lockErr, []))
      else (if has lockErr flag then (0, lockErr AND NOT flag, [event_success]) else (0, lockErr, [])))"

definition sendEventSetLE :: "UDINT \<Rightarrow> cevent \<Rightarrow> UDINT \<Rightarrow> UDINT \<times> UDINT \<times> cevent list" where
  "sendEventSetLE flag event lockErr =
     (if \<not> has lockErr flag then (1, lockErr OR flag, [event]) else (0, lockErr, []))"

definition sendEventClearLE :: "UDINT \<Rightarrow> cevent \<Rightarrow> UDINT \<Rightarrow> UDINT \<times> UDINT \<times> cevent list" where
  "sendEventClearLE flag event lockErr =
     (if has lockErr flag then (1, lockErr AND NOT flag, [event]) else (0, lockErr, []))"

text \<open>
  What a latch promises: a condition is a step on the state; the state remembers the last
  condition, and the step reports exactly its changes.
\<close>

locale latch =
  fixes step :: "bool \<Rightarrow> 's \<Rightarrow> 's \<times> 'e list" and on :: "'s \<Rightarrow> bool" and rise fall :: 'e
  assumes step_on: "on (fst (step b s)) \<longleftrightarrow> b"
    and step_out: "snd (step b s) = (if b \<and> \<not> on s then [rise] else if \<not> b \<and> on s then [fall] else [])"
begin

fun run :: "bool list \<Rightarrow> 's \<Rightarrow> 's \<times> 'e list" where
  "run [] s = (s, [])"
| "run (b # bs) s = (let (s1, o1) = step b s; (s2, o2) = run bs s1 in (s2, o1 @ o2))"

text \<open>The edges of a sequence of conditions.\<close>

fun edges :: "bool \<Rightarrow> bool list \<Rightarrow> 'e list" where
  "edges prev [] = []"
| "edges prev (b # bs) = (if b \<noteq> prev then [if b then rise else fall] else []) @ edges b bs"

lemma run_edges: "snd (run bs s) = edges (on s) bs"
proof (induction bs arbitrary: s)
  case (Cons b bs)
  obtain s1 o1 where st: "step b s = (s1, o1)" by (metis surj_pair)
  then have on: "on s1 \<longleftrightarrow> b" and ou: "o1 = (if b \<and> \<not> on s then [rise] else if \<not> b \<and> on s then [fall] else [])"
    using step_on [of b s] step_out [of b s] by simp_all
  obtain s2 o2 where r: "run bs s1 = (s2, o2)" by (metis surj_pair)
  with Cons [of s1] on have "o2 = edges b bs" by simp
  with st r ou show ?case by simp
qed simp

lemma run_on: "bs \<noteq> [] \<Longrightarrow> on (fst (run bs s)) \<longleftrightarrow> last bs"
proof (induction bs arbitrary: s)
  case (Cons b bs)
  obtain s1 o1 where st: "step b s = (s1, o1)" by (metis surj_pair)
  then have "on s1 \<longleftrightarrow> b" using step_on [of b s] by simp
  with st Cons.IH [of s1] show ?case
    by (cases "bs = []") (auto split: prod.split)
qed simp

lemma edges_constant: "\<forall>b\<in>set bs. b = prev \<Longrightarrow> edges prev bs = []"
  by (induction bs) auto

text \<open>Reports alternate: no two neighbours are equal when the two events differ.\<close>

lemma edges_alternate:
  "rise \<noteq> fall \<Longrightarrow> distinct_adj (edges prev bs)
    \<and> (edges prev bs \<noteq> [] \<longrightarrow> hd (edges prev bs) = (if prev then fall else rise))"
proof (induction bs arbitrary: prev)
  case (Cons b bs)
  then show ?case using Cons.IH [of b] by (cases "edges b bs") auto
qed simp

end

definition checkExpr_step :: "UDINT \<Rightarrow> cevent \<Rightarrow> cevent \<Rightarrow> bool \<Rightarrow> UDINT \<Rightarrow> UDINT \<times> cevent list" where
  "checkExpr_step flag ef es b s = snd (checkExpr b flag ef es s)"

text \<open>
  An interpretation needs a flag with a bit: \<open>flag OR 1\<close> ranges over all odd flags, and every
  other non-zero flag is reached through \<open>nz\<close>.
\<close>

definition nz :: "UDINT \<Rightarrow> UDINT" where
  "nz f = (if f = 0 then 1 else f)"

lemma nz_nonzero [simp]: "nz f \<noteq> 0"
  by (simp add: nz_def)

interpretation le: latch "checkExpr_step (nz flag) ef es" "\<lambda>s. has s (nz flag)" ef es
  for flag :: UDINT and ef es :: cevent
  by unfold_locales (auto simp: checkExpr_step_def checkExpr_def has_or has_self has_clear_self)

text \<open>The two separate halves are the same latch.\<close>

lemma checkExpr_halves:
  "checkExpr b flag ef es s =
     (if b then (1, snd (sendEventSetLE flag ef s)) else (0, snd (sendEventClearLE flag es s)))"
  by (simp add: checkExpr_def sendEventSetLE_def sendEventClearLE_def)

lemma checkExpr_other_flag:
  assumes "flag AND g = 0"
  shows "has (fst (snd (checkExpr b flag ef es s))) g \<longleftrightarrow> has s g"
proof -
  have "\<not> has flag g" using assms by (simp add: has_def)
  then show ?thesis by (simp add: checkExpr_def has_or has_clear_other [OF assms])
qed

text \<open>A whole history of \<^verbatim>\<open>checkExpr\<close> calls on one flag.\<close>

fun checkExpr_run :: "UDINT \<Rightarrow> cevent \<Rightarrow> cevent \<Rightarrow> bool list \<Rightarrow> UDINT \<Rightarrow> UDINT \<times> cevent list" where
  "checkExpr_run flag ef es [] s = (s, [])"
| "checkExpr_run flag ef es (b # bs) s =
     (let (_, s1, o1) = checkExpr b flag ef es s; (s2, o2) = checkExpr_run flag ef es bs s1
      in (s2, o1 @ o2))"

lemma checkExpr_run_Cons:
  "checkExpr_run flag ef es (b # bs) s =
     (let (s1, o1) = checkExpr_step flag ef es b s; (s2, o2) = checkExpr_run flag ef es bs s1
      in (s2, o1 @ o2))"
  by (simp add: checkExpr_step_def Let_def case_prod_beta)

lemma checkExpr_run_nz: "checkExpr_run (nz flag) ef es bs s = le.run flag ef es bs s"
proof (induction bs arbitrary: s)
  case (Cons b bs)
  then show ?case by (simp only: checkExpr_run_Cons le.run.simps)
qed simp

lemma checkExpr_run_le: "flag \<noteq> 0 \<Longrightarrow> checkExpr_run flag ef es bs s = le.run flag ef es bs s"
  using checkExpr_run_nz [of flag ef es bs s] by (simp add: nz_def)

text \<open>
  C27. An object reports a lasting fault once. Over any history of \<^verbatim>\<open>checkExpr\<close> calls on a flag the
  fault and success events alternate, starting with the one that the latch at the start leaves
  open; a history without a change reports nothing; after it the latch holds the last condition;
  and the latches of other flags are as before.
\<close>

theorem latch_reports_edges:
  assumes "flag \<noteq> 0" "flag AND g = 0" "ef \<noteq> es" "bs \<noteq> []"
    and "checkExpr_run flag ef es bs s = (s', out)"
  shows "distinct_adj out
    \<and> (out \<noteq> [] \<longrightarrow> hd out = (if has s flag then es else ef))
    \<and> ((\<forall>b\<in>set bs. b = has s flag) \<longrightarrow> out = [])
    \<and> (has s' flag \<longleftrightarrow> last bs) \<and> (has s' g \<longleftrightarrow> has s g)"
proof -
  have r: "le.run flag ef es bs s = (s', out)" and nzf: "nz flag = flag"
    using assms checkExpr_run_le [of flag ef es bs s] by (simp_all add: nz_def)
  have out: "out = le.edges ef es (has s flag) bs"
    using le.run_edges [of flag ef es bs s] r nzf by simp
  have "has (fst (checkExpr_run flag ef es bs s)) g \<longleftrightarrow> has s g"
  proof (induction bs arbitrary: s)
    case (Cons b bs)
    have "has (fst (snd (checkExpr b flag ef es s))) g \<longleftrightarrow> has s g"
      by (rule checkExpr_other_flag [OF assms(2)])
    with Cons show ?case by (simp add: Let_def case_prod_beta)
  qed simp
  with assms out le.edges_alternate [OF assms(3)] le.edges_constant [of bs "has s flag" ef es]
    le.run_on [OF assms(4), of flag ef es s] r nzf
  show ?thesis by simp
qed

theorem latch_reports_edges_witness:
  "\<exists>s' out. checkExpr_run 1 (Ev 7 []) (Ev 8 []) [True, True, False, True] 0 = (s', out)
     \<and> distinct_adj out \<and> hd out = Ev 7 [] \<and> has s' 1"
proof -
  obtain s' out where r: "checkExpr_run 1 (Ev 7 []) (Ev 8 []) [True, True, False, True] 0 = (s', out)"
    by (metis surj_pair)
  moreover have "out \<noteq> []" using r by (auto simp: checkExpr_def Let_def case_prod_beta has_def)
  ultimately show ?thesis
    using latch_reports_edges [of 1 2 "Ev 7 []" "Ev 8 []" "[True, True, False, True]" 0 s' out]
    by simp
qed

section \<open>Links\<close>

definition LINK_INPUT :: UINT where "LINK_INPUT = 0x0001"
definition LINK_OUTPUT :: UINT where "LINK_OUTPUT = 0x0002"
definition LINK_SIMPLE :: UINT where "LINK_SIMPLE = 0x0004"
definition LINK_NONAME :: UINT where "LINK_NONAME = 0x0008"
definition LINK_WRITABLE :: UINT where "LINK_WRITABLE = 0x0010"
definition LINK_VARNAME :: UINT where "LINK_VARNAME = 0x0020"
definition LINK_MUSTVIRT :: UINT where "LINK_MUSTVIRT = 0x0040"
definition LINK_DISABLE :: UINT where "LINK_DISABLE = 0x0080"

record rLink =
  l_alias :: string
  l_fullTag :: string
  l_param :: string
  l_ioName :: string
  l_valid :: bool
  l_unit :: UDINT
  l_value :: lreal
  l_limit :: rLimit
  l_setup :: UINT
  l_shadow :: string

definition link_init :: "UINT \<Rightarrow> UDINT \<Rightarrow> string \<Rightarrow> rLink \<Rightarrow> rLink" where
  "link_init setup u ioname l = l\<lparr>l_unit := u, l_ioName := ioname, l_setup := setup\<rparr>"

text \<open>
  \<^verbatim>\<open>calculate\<close>: \<open>got\<close> is what \<^verbatim>\<open>m_source->getValue\<close> answers, value and error. The limits see
  the value before a bad number is replaced by zero.
\<close>

definition link_calculate :: "lreal \<times> UDINT \<Rightarrow> rLink \<Rightarrow> UDINT \<times> rLink \<times> cevent list" where
  "link_calculate got l =
     (if \<not> l_valid l then (1, l, [])
      else if has (l_setup l) LINK_DISABLE then (TRITONN_RESULT_OK, l, [])
      else (case got of (v, err) \<Rightarrow> case limit_calculate v 1 (l_limit l) of (_, lm, evs) \<Rightarrow>
        (err, l\<lparr>l_limit := lm, l_value := (if v = PInf \<or> v = NInf \<or> v = NaN then Fin 0 else v)\<rparr>, evs)))"

definition link_calculateLimit :: "rLink \<Rightarrow> rLink \<times> cevent list" where
  "link_calculateLimit l = (case limit_calculate (l_value l) 1 (l_limit l) of (_, lm, evs) \<Rightarrow>
     (l\<lparr>l_limit := lm\<rparr>, evs))"

text \<open>The character loop of \<^verbatim>\<open>loadFromXML\<close>; \<open>param\<close> says which part is being filled.\<close>

fun link_split :: "string \<Rightarrow> bool \<Rightarrow> string \<Rightarrow> string \<Rightarrow> (string \<times> string) option" where
  "link_split [] param a p = Some (a, p)"
| "link_split (ch # tag) param a p =
     (if ch = CHR '':'' then (if param then None else link_split tag True a p)
      else if param then link_split tag True a (p @ [ch]) else link_split tag False (a @ [ch]) p)"

definition tolower_char :: "char \<Rightarrow> char" where
  "tolower_char c = (if 65 \<le> (of_char c :: nat) \<and> (of_char c :: nat) \<le> 90
     then char_of ((of_char c :: nat) + 32) else c)"

definition link_load_tag :: "string \<Rightarrow> rLink \<Rightarrow> bool \<times> rLink" where
  "link_load_tag alias l =
     (if alias = [] then (False, l\<lparr>l_fullTag := alias\<rparr>)
      else (let tag = List.map tolower_char alias; l1 = l\<lparr>l_fullTag := tag\<rparr> in
        case link_split tag False (l_alias l1) (l_param l1) of
          None \<Rightarrow> (False, l1)
        | Some (a, p) \<Rightarrow> (True, l1\<lparr>l_alias := a, l_param := p\<rparr>)))"

lemma link_split_param: "link_split t True a p = (if CHR '':'' \<in> set t then None else Some (a, p @ t))"
  by (induction t arbitrary: p) auto

lemma link_split_no_colon:
  "CHR '':'' \<notin> set t \<Longrightarrow> link_split (t @ rest) False a p = link_split rest False (a @ t) p"
  by (induction t arbitrary: a) auto

text \<open>
  A tag \<open>xxx:yyy\<close> splits into the object and the output exactly: joining the two parts with a
  colon gives the tag back, a tag without a colon is all object, and a second colon is refused.
\<close>

theorem link_tag_split:
  "link_split t False [] [] =
     (if count_list t CHR '':'' = 0 then Some (t, [])
      else if count_list t CHR '':'' = 1
      then Some (takeWhile (\<lambda>c. c \<noteq> CHR '':'') t, tl (dropWhile (\<lambda>c. c \<noteq> CHR '':'') t))
      else None)
   \<and> (case link_split t False [] [] of None \<Rightarrow> True | Some (a, p) \<Rightarrow> t = a \<or> t = a @ '':'' @ p)"
proof -
  let ?a = "takeWhile (\<lambda>c. c \<noteq> CHR '':'') t" and ?d = "dropWhile (\<lambda>c. c \<noteq> CHR '':'') t"
  have t: "t = ?a @ ?d" by simp
  have na: "CHR '':'' \<notin> set ?a" by (auto dest: set_takeWhileD)
  then have c: "count_list ?a CHR '':'' = 0" by (simp add: count_list_0_iff)
  have s: "link_split t False [] [] = link_split ?d False ?a []"
    using link_split_no_colon [OF na, of ?d "[]" "[]"] t by simp
  show ?thesis
  proof (cases ?d)
    case Nil
    have at: "?a = t" using takeWhile_dropWhile_id [of "\<lambda>c. c \<noteq> CHR '':''" t] unfolding Nil by simp
    have "link_split t False [] [] = Some (t, [])" using s unfolding Nil at by simp
    moreover have "count_list t CHR '':'' = 0" using c unfolding at .
    ultimately show ?thesis by simp
  next
    case (Cons x r)
    then have x: "x = CHR '':''" 
      using hd_dropWhile [of "\<lambda>c. c \<noteq> CHR '':''" t] by (metis list.distinct(1) list.sel(1))
    have ct: "count_list t CHR '':'' = Suc (count_list r CHR '':'')"
      using arg_cong [OF t, of "\<lambda>l. count_list l CHR '':''"] c Cons x
      by (metis add_0 count_list.simps(2) count_list_append Suc_eq_plus1)
    have st: "link_split t False [] [] = (if CHR '':'' \<in> set r then None else Some (?a, r))"
      using s Cons x by (simp add: link_split_param)
    have tt: "t = ?a @ '':'' @ r" using t Cons x by simp
    show ?thesis
    proof (cases "CHR '':'' \<in> set r")
      case True
      then have "count_list r CHR '':'' \<noteq> 0" by (simp add: count_list_0_iff)
      with ct st True show ?thesis by simp
    next
      case False
      then have "count_list r CHR '':'' = 0" by (simp add: count_list_0_iff)
      with ct st False Cons tt show ?thesis by simp
    qed
  qed
qed

end
