(* ===== verification/Total.thy ===== *)
theory Total
  imports Common Event
begin

text \<open>
  The growing totals of \<^verbatim>\<open>src/tritonn/total.cpp\<close>: the raw, present and past totals of a
  measuring line, the roll-over at \<^verbatim>\<open>MAX_TOTAL_LIMIT\<close> with its event, and the difference of two
  totals.
\<close>

section \<open>State\<close>

record rBaseTotal =
  Mass :: lreal
  Volume :: lreal
  Volume15 :: lreal
  Volume20 :: lreal
  m_count :: UDINT

record rTotal =
  m_past :: rBaseTotal
  m_raw :: rBaseTotal
  m_inc :: rBaseTotal
  m_present :: rBaseTotal
  m_eventMass :: cevent
  m_eventVolume :: cevent
  m_eventVolume15 :: cevent
  m_eventVolume20 :: cevent

text \<open>The double nearest to 9999999999.99999.\<close>

definition MAX_TOTAL_LIMIT :: lreal where
  "MAX_TOTAL_LIMIT = dround (999999999999999 / 100000)"

section \<open>Operations\<close>

definition total_clear_base :: rBaseTotal where
  "total_clear_base = \<lparr>Mass = Fin 0, Volume = Fin 0, Volume15 = Fin 0, Volume20 = Fin 0, m_count = 0\<rparr>"

text \<open>The constructor appends the limit to the four events; the totals keep what memory holds.\<close>

definition total_new :: "cevent \<Rightarrow> cevent \<Rightarrow> cevent \<Rightarrow> cevent \<Rightarrow> rTotal \<Rightarrow> rTotal" where
  "total_new mass volume volume15 volume20 t =
     t\<lparr>m_eventMass := ev_add mass (P_LREAL MAX_TOTAL_LIMIT),
       m_eventVolume := ev_add volume (P_LREAL MAX_TOTAL_LIMIT),
       m_eventVolume15 := ev_add volume15 (P_LREAL MAX_TOTAL_LIMIT),
       m_eventVolume20 := ev_add volume20 (P_LREAL MAX_TOTAL_LIMIT)\<rparr>"

text \<open>One of the four blocks of \<^verbatim>\<open>checkMax\<close>.\<close>

definition total_roll :: "cevent \<Rightarrow> lreal \<Rightarrow> lreal \<times> cevent list" where
  "total_roll ev v = (if v \<ge> MAX_TOTAL_LIMIT
     then (v - MAX_TOTAL_LIMIT, if ev_eid ev \<noteq> 0 then [ev] else []) else (v, []))"

definition total_checkMax :: "rTotal \<Rightarrow> rTotal \<times> cevent list" where
  "total_checkMax t =
     (let r = m_raw t; (m, o1) = total_roll (m_eventMass t) (Mass r);
          (v, o2) = total_roll (m_eventVolume t) (Volume r);
          (v15, o3) = total_roll (m_eventVolume15 t) (Volume15 r);
          (v20, o4) = total_roll (m_eventVolume20 t) (Volume20 r)
      in (t\<lparr>m_raw := r\<lparr>Mass := m, Volume := v, Volume15 := v15, Volume20 := v20\<rparr>\<rparr>,
          o1 @ o2 @ o3 @ o4))"

text \<open>\<open>pm\<close> and \<open>pv\<close> are the precisions of the mass and volume units.\<close>

definition total_calculate :: "lreal \<Rightarrow> USINT \<Rightarrow> USINT \<Rightarrow> rTotal \<Rightarrow> rTotal \<times> cevent list" where
  "total_calculate oob pm pv t =
     (let r = m_raw t; i = m_inc t;
          t1 = t\<lparr>m_past := m_present t,
                 m_raw := \<lparr>Mass = Round oob (Mass r + Mass i) 5,
                   Volume = Round oob (Volume r + Volume i) 5,
                   Volume15 = Round oob (Volume15 r + Volume15 i) 5,
                   Volume20 = Round oob (Volume20 r + Volume20 i) 5,
                   m_count = m_count r + m_count i\<rparr>\<rparr>;
          (t2, out) = total_checkMax t1; r2 = m_raw t2
      in (t2\<lparr>m_present := \<lparr>Mass = Round oob (Mass r2) pm, Volume = Round oob (Volume r2) pv,
             Volume15 = Round oob (Volume15 r2) pv, Volume20 = Round oob (Volume20 r2) pv,
             m_count = m_count r2\<rparr>\<rparr>, out))"

definition total_reset :: "rTotal \<Rightarrow> rTotal" where
  "total_reset t = t\<lparr>m_past := total_clear_base, m_raw := total_clear_base,
     m_inc := total_clear_base, m_present := total_clear_base\<rparr>"

definition total_inc :: "UDINT \<Rightarrow> rTotal \<Rightarrow> rTotal" where
  "total_inc impulse t = t\<lparr>m_inc := total_clear_base\<lparr>m_count := impulse\<rparr>\<rparr>"

definition total_sub :: "lreal \<Rightarrow> lreal \<Rightarrow> lreal" where
  "total_sub sub1 sub2 = (let result = sub1 - sub2 in
     if result \<ge> Fin 0 then result else (- result) + (MAX_TOTAL_LIMIT - sub2))"

text \<open>
  \<^verbatim>\<open>fromXmlBase\<close> and \<^verbatim>\<open>fromXml\<close>: a section that is missing or unreadable (\<^const>\<open>None\<close>) leaves the
  old total and makes the result false; the others are still taken.
\<close>

definition total_fromXmlBase :: "rBaseTotal option \<Rightarrow> rBaseTotal \<Rightarrow> bool \<times> rBaseTotal" where
  "total_fromXmlBase xml old = (case xml of None \<Rightarrow> (False, old) | Some bt \<Rightarrow> (True, bt))"

definition total_fromXml :: "(rBaseTotal option \<times> rBaseTotal option \<times> rBaseTotal option \<times> rBaseTotal option) option
    \<Rightarrow> rTotal \<Rightarrow> bool \<times> rTotal" where
  "total_fromXml item t = (case item of None \<Rightarrow> (False, t) | Some (p, r, i, q) \<Rightarrow>
     (let (b1, past) = total_fromXmlBase p (m_past t); (b2, raw) = total_fromXmlBase r (m_raw t);
          (b3, inc) = total_fromXmlBase i (m_inc t); (b4, pres) = total_fromXmlBase q (m_present t)
      in (b1 \<and> b2 \<and> b3 \<and> b4,
          t\<lparr>m_past := past, m_raw := raw, m_inc := inc, m_present := pres\<rparr>)))"

section \<open>The roll-over\<close>

definition MAX_real :: real where "MAX_real = 5242879999999995 / 524288"

lemma MAX_TOTAL_LIMIT_eq: "MAX_TOTAL_LIMIT = Fin MAX_real"
proof -
  have "dround (999999999999999 / 100000) =
      Fin (of_int (rne (999999999999999 / 100000 * 2 powi (52 - 33))) * 2 powi (33 - 52))"
    by (rule dround_eval) (simp_all add: power_int_def)
  also have "rne (999999999999999 / 100000 * 2 powi (52 - 33)) = 5242879999999995"
    by (simp add: rne_def power_int_def)
  finally show ?thesis by (simp add: MAX_TOTAL_LIMIT_def MAX_real_def power_int_def power_divide)
qed

lemma dround_MAX: "dround MAX_real = Fin MAX_real"
  by (rule dround_exact_small [of _ 5242879999999995 "- 19"])
    (simp_all add: MAX_real_def power_int_def power_divide)

lemma dround_2MAX: "dround (2 * MAX_real) = Fin (2 * MAX_real)"
  by (rule dround_exact_small [of _ 5242879999999995 "- 18"])
    (simp_all add: MAX_real_def power_int_def power_divide)

lemma MAX_real_pos: "0 < MAX_real"
  by (simp add: MAX_real_def)

text \<open>The three roundings inside \<^verbatim>\<open>Round(., 5)\<close> at twice the limit.\<close>

lemma round5_scale: "dround (2 * MAX_real * 100000) = Fin 1999999999999998"
proof -
  have "dround (2 * MAX_real * 100000) =
      Fin (of_int (rne (2 * MAX_real * 100000 * 2 powi (52 - 50))) * 2 powi (50 - 52))"
    by (rule dround_eval) (simp_all add: power_int_def MAX_real_def)
  also have "rne (2 * MAX_real * 100000 * 2 powi (52 - 50)) = 7999999999999992"
    by (simp add: rne_def power_int_def MAX_real_def)
  finally show ?thesis by (simp add: power_int_def power_divide)
qed

lemma round5_half: "dround (1999999999999998 + 1 / 2) = Fin (1999999999999998 + 1 / 2)"
  by (rule dround_exact_small [of _ 3999999999999997 "- 1"]) (simp_all add: power_int_def)

lemma round5_back: "dround (1999999999999998 / 100000) = Fin (2 * MAX_real)"
proof -
  have "dround (1999999999999998 / 100000) =
      Fin (of_int (rne (1999999999999998 / 100000 * 2 powi (52 - 34))) * 2 powi (34 - 52))"
    by (rule dround_eval) (simp_all add: power_int_def)
  also have "rne (1999999999999998 / 100000 * 2 powi (52 - 34)) = 5242879999999995"
    by (simp add: rne_def power_int_def)
  finally show ?thesis by (simp add: power_int_def power_divide MAX_real_def)
qed

lemma Round5_bounded:
  assumes "0 \<le> x" "x \<le> 2 * MAX_real"
  shows "\<exists>y. Round oob (Fin x) 5 = Fin y \<and> 0 \<le> y \<and> y \<le> 2 * MAX_real"
proof (cases "x = 0")
  case True
  then show ?thesis using MAX_real_pos by (simp add: Round_def)
next
  case False
  have "x * 100000 \<le> 2 * MAX_real * 100000" using assms by simp
  then obtain a where a: "dround (x * 100000) = Fin a" "0 \<le> a" "a \<le> 1999999999999998"
    using dround_between [OF _ _ round5_scale, of "x * 100000"] assms by auto
  obtain b where b: "dround (a + 1 / 2) = Fin b" "0 \<le> b" "b \<le> 1999999999999998 + 1 / 2"
    using dround_between [OF _ _ round5_half, of "a + 1 / 2"] a by auto
  have "\<lfloor>b\<rfloor> \<le> 1999999999999998" using b(3) by linarith
  then have "of_int \<lfloor>b\<rfloor> / 100000 \<le> (1999999999999998 / 100000 :: real)"
    by (intro divide_right_mono) simp_all
  then obtain c where c: "dround (of_int \<lfloor>b\<rfloor> / 100000) = Fin c" "0 \<le> c" "c \<le> 2 * MAX_real"
    using dround_between [OF _ _ round5_back, of "of_int \<lfloor>b\<rfloor> / 100000"] b by auto
  have "Round oob (Fin x) 5 = dround (of_int \<lfloor>b\<rfloor> / 100000)"
    using False assms a b by (simp add: Round_def Round_mul_def Let_def)
  with c show ?thesis by auto
qed

lemma total_roll_bounded:
  assumes "0 \<le> x" "x \<le> 2 * MAX_real"
  shows "\<exists>y. fst (total_roll ev (Fin x)) = Fin y \<and> 0 \<le> y \<and> y \<le> MAX_real"
proof (cases "MAX_real \<le> x")
  case True
  have "x - MAX_real \<le> MAX_real" using assms by simp
  with True obtain y where "dround (x - MAX_real) = Fin y" "0 \<le> y" "y \<le> MAX_real"
    using dround_between [OF _ _ dround_MAX, of "x - MAX_real"] by auto
  with True show ?thesis by (simp add: total_roll_def MAX_TOTAL_LIMIT_eq)
next
  case False
  with assms show ?thesis by (simp add: total_roll_def MAX_TOTAL_LIMIT_eq)
qed

definition total_in_range :: "lreal \<Rightarrow> bool" where
  "total_in_range v \<longleftrightarrow> Fin 0 \<le> v \<and> v \<le> MAX_TOTAL_LIMIT"

definition base_in_range :: "rBaseTotal \<Rightarrow> bool" where
  "base_in_range b \<longleftrightarrow> total_in_range (Mass b) \<and> total_in_range (Volume b)
     \<and> total_in_range (Volume15 b) \<and> total_in_range (Volume20 b)"

lemma total_in_range_iff: "total_in_range v \<longleftrightarrow> (\<exists>y. v = Fin y \<and> 0 \<le> y \<and> y \<le> MAX_real)"
  by (cases v) (auto simp: total_in_range_def MAX_TOTAL_LIMIT_eq)

lemma total_step_in_range:
  assumes "total_in_range r" "total_in_range i"
  shows "total_in_range (fst (total_roll ev (Round oob (r + i) 5)))"
proof -
  obtain a b where ab: "r = Fin a" "0 \<le> a" "a \<le> MAX_real" "i = Fin b" "0 \<le> b" "b \<le> MAX_real"
    using assms by (auto simp: total_in_range_iff)
  then obtain s where "r + i = Fin s" "0 \<le> s" "s \<le> 2 * MAX_real"
    using dround_between [OF _ _ dround_2MAX, of "a + b"] by auto
  moreover from this Round5_bounded obtain t where
    "Round oob (Fin s) 5 = Fin t" "0 \<le> t" "t \<le> 2 * MAX_real" by blast
  ultimately show ?thesis
    using total_roll_bounded [of t ev] by (auto simp: total_in_range_iff)
qed

lemma total_roll_event:
  "snd (total_roll ev v) = (if v \<ge> MAX_TOTAL_LIMIT \<and> ev_eid ev \<noteq> 0 then [ev] else [])"
  by (simp add: total_roll_def)

text \<open>
  C26. The raw totals never leave their range: with totals and an increment between zero and the
  limit, one calculation in double precision, with the rounding to five digits and the roll-over,
  leaves every raw total between zero and the limit again, whatever the precisions and the
  memory behind the table of powers; and it sends one roll-over event per total that passed the
  limit and has an event, and no other.
\<close>

theorem total_calculate_in_range:
  assumes "base_in_range (m_raw t)" "base_in_range (m_inc t)"
    and "total_calculate oob pm pv t = (t', out)"
  shows "base_in_range (m_raw t') \<and> m_inc t' = m_inc t \<and> m_past t' = m_present t
    \<and> out = concat (map (\<lambda>(ev, r, i). if Round oob (r + i) 5 \<ge> MAX_TOTAL_LIMIT \<and> ev_eid ev \<noteq> 0
                          then [ev] else [])
        [(m_eventMass t, Mass (m_raw t), Mass (m_inc t)),
         (m_eventVolume t, Volume (m_raw t), Volume (m_inc t)),
         (m_eventVolume15 t, Volume15 (m_raw t), Volume15 (m_inc t)),
         (m_eventVolume20 t, Volume20 (m_raw t), Volume20 (m_inc t))])"
proof -
  have t': "t' = fst (total_calculate oob pm pv t)" and out: "out = snd (total_calculate oob pm pv t)"
    using assms(3) by simp_all
  show ?thesis
    using assms(1,2) unfolding t' out total_calculate_def total_checkMax_def
    by (simp add: Let_def case_prod_beta base_in_range_def total_step_in_range total_roll_event)
qed

definition total_example :: rTotal where
  "total_example = \<lparr>m_past = total_clear_base, m_raw = total_clear_base\<lparr>Mass := Fin 9999999999\<rparr>,
     m_inc = total_clear_base\<lparr>Mass := Fin 5\<rparr>, m_present = total_clear_base,
     m_eventMass = Ev 1 [], m_eventVolume = Ev 2 [], m_eventVolume15 = Ev 3 [], m_eventVolume20 = Ev 4 []\<rparr>"

theorem total_calculate_in_range_witness:
  "base_in_range (m_raw (fst (total_calculate (Fin 0) 3 3 total_example)))"
proof -
  have "base_in_range (m_raw total_example)" "base_in_range (m_inc total_example)"
    by (simp_all add: total_example_def base_in_range_def total_in_range_def total_clear_base_def
        MAX_TOTAL_LIMIT_eq MAX_real_def)
  from total_calculate_in_range [OF this, of "Fin 0" 3 3] show ?thesis
    by (metis prod.collapse)
qed

end
