(* ===== verification/Sampler.thy ===== *)
theory Sampler
  imports Source Total
begin

text \<open>
  The automatic sampler, \<^verbatim>\<open>src/tritonn/data_sampler.cpp\<close>: one cycle (\<^verbatim>\<open>calculate\<close>) checks
  the start and stop inputs, runs the handler of the current state and consumes the command. The
  clock, the input links, the totals and the platform's undefined casts are the environment of a
  cycle. Integer division by zero and an index behind the two cans stop the cycle with a
  \<^typ>\<open>trap\<close>. The limits of the sampler's own outputs are switched off by its loader, so
  \<^verbatim>\<open>postCalculate\<close> has no effect here.
\<close>

section \<open>State\<close>

datatype Method = M_PERIOD | M_MASS | M_VOLUME | M_other UINT

datatype Command = C_NONE | C_START | C_STOP | C_TEST | C_CONFIRM | C_PAUSE | C_RESUME | C_other UINT

definition Method_of_code :: "UINT \<Rightarrow> Method" where
  "Method_of_code c = (if c = 0 then M_PERIOD else if c = 1 then M_MASS else if c = 2 then M_VOLUME
     else M_other c)"

fun Method_code :: "Method \<Rightarrow> UINT" where
  "Method_code M_PERIOD = 0"
| "Method_code M_MASS = 1"
| "Method_code M_VOLUME = 2"
| "Method_code (M_other c) = c"

definition Command_of_code :: "UINT \<Rightarrow> Command" where
  "Command_of_code c = (if c = 0 then C_NONE else if c = 1 then C_START else if c = 2 then C_STOP
     else if c = 3 then C_TEST else if c = 4 then C_CONFIRM else if c = 122 then C_PAUSE
     else if c = 145 then C_RESUME else C_other c)"

fun Command_code :: "Command \<Rightarrow> UINT" where
  "Command_code C_NONE = 0"
| "Command_code C_START = 1"
| "Command_code C_STOP = 2"
| "Command_code C_TEST = 3"
| "Command_code C_CONFIRM = 4"
| "Command_code C_PAUSE = 122"
| "Command_code C_RESUME = 145"
| "Command_code (C_other c) = c"

datatype State = S_IDLE | S_TEST | S_WORKTIME | S_WORKVOLUME | S_WORKMASS | S_PAUSE | S_FINISH | S_ERROR

definition CAN_MAX :: UINT where "CAN_MAX = 2"
definition LE_IO_START :: UDINT where "LE_IO_START = 0x00000001"
definition LE_IO_STOP :: UDINT where "LE_IO_STOP = 0x00000002"

record rSampler =
  m_ID :: UDINT
  m_descr :: UDINT
  m_isCalc :: bool
  m_lockErr :: UDINT
  m_grab :: lreal
  can_volume :: "lreal list"
  m_command :: Command
  m_select :: UINT
  m_method :: Method
  m_probePeriod :: UDINT
  m_probeVolume :: lreal
  m_probeMass :: lreal
  m_probeTest :: UDINT
  m_grabVol :: lreal
  m_canVolume :: lreal
  m_noflow :: UINT
  m_interval :: lreal
  m_canPresent :: lreal
  m_canRemain :: lreal
  m_timeRemain :: UDINT
  m_grabPresent :: UDINT
  m_grabRemain :: UDINT
  m_grabCount :: UDINT
  m_timeStart :: UDINT
  m_state :: State
  m_lastRawTotal :: rBaseTotal
  m_timerInterval :: UDINT
  m_resumeState :: State

text \<open>
  The environment of a cycle: the clock in milliseconds and seconds, the value of a linked input
  (\<^const>\<open>None\<close> when the link is not valid), the totals, and \<open>ub\<close>, the platform's casts.
\<close>

record sampler_env =
  SysTick :: UDINT
  UnixTime :: UDINT
  ioStart :: "lreal option"
  ioStop :: "lreal option"
  can_overflow :: "lreal option list"
  totals_raw :: rBaseTotal
  totals_incVolume :: lreal
  ub :: UDINT

definition sevent :: "rSampler \<Rightarrow> UDINT \<Rightarrow> cevent" where
  "sevent s eid = reinitEvent (m_ID s) (m_descr s) eid"

type_synonym 's act = "trap + 's \<times> cevent list"

section \<open>Handlers\<close>

definition isCanOverflow :: "sampler_env \<Rightarrow> rSampler \<Rightarrow> bool" where
  "isCanOverflow e s \<longleftrightarrow> m_select s < CAN_MAX
     \<and> (case can_overflow e ! unat (m_select s) of None \<Rightarrow> False | Some v \<Rightarrow> v > Fin 0)"

definition checkInterval :: "rSampler \<Rightarrow> bool \<times> cevent list" where
  "checkInterval s = (if m_interval s > Fin 1000 then (True, [])
     else (False, [sevent s EID_SAMPLER_START_FAULT]))"

text \<open>\<^verbatim>\<open>m_timeRemain / m_grabRemain\<close> is an unsigned integer division.\<close>

definition recalcInterval :: "rSampler \<Rightarrow> rSampler act" where
  "recalcInterval s =
     (if m_grabRemain s = 0 then Inl Div_by_zero
      else (let s1 = s\<lparr>m_interval := lreal_of_word (m_timeRemain s div m_grabRemain s)\<rparr>;
                (ok, out) = checkInterval s1
            in Inr (if ok then s1 else s1\<lparr>m_state := S_IDLE\<rparr>, out)))"

definition onStop :: "rSampler \<Rightarrow> rSampler \<times> cevent list" where
  "onStop s = (s\<lparr>m_state := S_IDLE\<rparr>, [sevent s EID_SAMPLER_STOP])"

definition start_clear :: "rSampler \<Rightarrow> rSampler" where
  "start_clear s = s\<lparr>m_interval := Fin 0, m_grabCount := 0, m_grabPresent := 0, m_grabRemain := 0,
     m_timeRemain := 0, m_canRemain := Fin 0, m_canPresent := Fin 0, m_noflow := 0,
     m_timeStart := 0, m_timerInterval := 0\<rparr>"

definition start_count :: "sampler_env \<Rightarrow> rSampler \<Rightarrow> UDINT" where
  "start_count e s = cast_word (ub e) (m_canVolume s / m_grabVol s + dround (1 / 2))"

text \<open>The assignments behind the \<^verbatim>\<open>switch\<close> of \<^verbatim>\<open>onStart\<close>.\<close>

definition start_finish :: "sampler_env \<Rightarrow> rSampler \<Rightarrow> rSampler" where
  "start_finish e s = s\<lparr>m_lastRawTotal := totals_raw e, m_grabRemain := m_grabCount s,
     m_canRemain := can_volume s ! unat (m_select s), m_timeStart := UnixTime e,
     m_timerInterval := SysTick e\<rparr>"

definition onStart :: "sampler_env \<Rightarrow> rSampler \<Rightarrow> rSampler act" where
  "onStart e s0 = (let s = start_clear s0 in
     if m_select s \<ge> CAN_MAX
     then Inr (s\<lparr>m_state := S_ERROR\<rparr>, [sevent s EID_SAMPLER_SELECT_FAULT])
     else (case m_method s of
       M_PERIOD \<Rightarrow>
         (let s1 = s\<lparr>m_grabCount := start_count e s\<rparr> in
          if m_grabRemain s1 = 0 then Inl Div_by_zero
          else (let s2 = s1\<lparr>m_interval := lreal_of_word (m_probePeriod s1 div m_grabRemain s1)\<rparr>;
                    (ok, out) = checkInterval s2;
                    (s3, out3) = (if ok then (s2\<lparr>m_state := S_WORKTIME\<rparr>, out @ [sevent s EID_SAMPLER_START_PERIOD])
                                  else (s2, out))
                in Inr (start_finish e s3, out3)))
     | M_VOLUME \<Rightarrow>
         (let s1 = s\<lparr>m_grabCount := start_count e s,
                     m_interval := m_probeVolume s / lreal_of_word (m_grabRemain s), m_state := S_WORKVOLUME\<rparr>
          in Inr (start_finish e s1, [sevent s EID_SAMPLER_START_VOLUME]))
     | M_MASS \<Rightarrow>
         (let s1 = s\<lparr>m_grabCount := start_count e s,
                     m_interval := m_probeMass s / lreal_of_word (m_grabRemain s), m_state := S_WORKMASS\<rparr>
          in Inr (start_finish e s1, [sevent s EID_SAMPLER_START_MASS]))
     | M_other c \<Rightarrow>
         Inr (s\<lparr>m_method := M_PERIOD, m_state := S_ERROR\<rparr>,
              [ev_add (sevent s EID_SAMPLER_MODE_FAULT) (P_UINT c)])))"

text \<open>\<^verbatim>\<open>onStartTest\<close> does not check the selection before it indexes the cans.\<close>

definition onStartTest :: "sampler_env \<Rightarrow> rSampler \<Rightarrow> rSampler act" where
  "onStartTest e s =
     (if m_select s \<ge> CAN_MAX then Inl Out_of_bounds
      else Inr (s\<lparr>m_noflow := 0, m_interval := lreal_of_word (2000 * m_probeTest s), m_state := S_TEST,
              m_lastRawTotal := totals_raw e, m_grabCount := m_probeTest s,
              m_grabRemain := m_probeTest s, m_grabPresent := 0,
              m_canRemain := can_volume s ! unat (m_select s), m_timeRemain := 0,
              m_timeStart := UnixTime e, m_timerInterval := SysTick e\<rparr>,
            [sevent s EID_SAMPLER_START_TEST]))"

definition onPause :: "rSampler \<Rightarrow> rSampler" where
  "onPause s = s\<lparr>m_resumeState := m_state s, m_state := S_PAUSE\<rparr>"

definition onResume :: "rSampler \<Rightarrow> rSampler" where
  "onResume s = s\<lparr>m_state := m_resumeState s, m_resumeState := S_IDLE\<rparr>"

definition onIdle :: "sampler_env \<Rightarrow> rSampler \<Rightarrow> rSampler act" where
  "onIdle e s = (case m_command s of
       C_NONE \<Rightarrow> Inr (s, [])
     | C_START \<Rightarrow> onStart e s
     | C_STOP \<Rightarrow> Inr (onStop s)
     | C_TEST \<Rightarrow> onStartTest e s
     | C_CONFIRM \<Rightarrow> Inr (s, [])
     | C_PAUSE \<Rightarrow> Inr (s, [])
     | C_RESUME \<Rightarrow> Inr (s, [])
     | C_other c \<Rightarrow> Inr (s, [ev_add (sevent s EID_SAMPLER_COMMAND_FAULT) (P_UINT c)]))"

definition onWorkError :: "rSampler \<Rightarrow> rSampler \<times> cevent list" where
  "onWorkError s = (case m_command s of
       C_NONE \<Rightarrow> (s, [])
     | C_CONFIRM \<Rightarrow> (s\<lparr>m_state := S_IDLE\<rparr>, [sevent s EID_SAMPLER_CONFIRM])
     | c \<Rightarrow> (s, [ev_add (sevent s EID_SAMPLER_COMMAND_FAULT) (P_UINT (Command_code c))]))"

text \<open>Taking a dose: the counters move together.\<close>

definition take_grab :: "sampler_env \<Rightarrow> rSampler \<Rightarrow> rSampler" where
  "take_grab e s = s\<lparr>m_grab := Fin 1, m_canPresent := m_canPresent s + m_grabVol s,
     m_canRemain := m_canRemain s - m_grabVol s, m_lastRawTotal := totals_raw e,
     m_grabPresent := m_grabPresent s + 1, m_grabRemain := m_grabRemain s - 1\<rparr>"

definition grab_timer :: "sampler_env \<Rightarrow> rSampler \<Rightarrow> rSampler" where
  "grab_timer e s = (let i = cast_word (ub e) (m_interval s) in
     (take_grab e s)\<lparr>m_timeRemain := m_timeRemain s - i, m_timerInterval := m_timerInterval s + i\<rparr>)"

definition no_dose_left :: "rSampler \<Rightarrow> bool" where
  "no_dose_left s \<longleftrightarrow> lreal_of_word (m_grabRemain s) < dround (1 / 1000)"

text \<open>The command switch shared by the two working handlers: \<^const>\<open>Inr\<close> leaves the handler.\<close>

definition work_command :: "rSampler \<Rightarrow> cevent list + (rSampler \<times> cevent list)" where
  "work_command s = (case m_command s of
       C_NONE \<Rightarrow> Inl []
     | C_STOP \<Rightarrow> Inr (s\<lparr>m_state := S_FINISH\<rparr>, [sevent s EID_SAMPLER_STOP])
     | C_PAUSE \<Rightarrow> Inr (onPause s, [])
     | _ \<Rightarrow> Inl [sevent s EID_SAMPLER_DONT_STOP])"

definition work_flow :: "sampler_env \<Rightarrow> bool \<Rightarrow> rSampler \<Rightarrow> rSampler act" where
  "work_flow e checkflow s =
     (if checkflow then
        if totals_incVolume e < dround (1 / 100000) then Inr (s\<lparr>m_noflow := 1\<rparr>, [])
        else if m_noflow s \<noteq> 0
        then (case recalcInterval s of Inl t \<Rightarrow> Inl t | Inr (s1, out) \<Rightarrow> Inr (s1\<lparr>m_noflow := 0\<rparr>, out))
        else Inr (s, [])
      else Inr (s, []))"

definition onWorkTimer :: "sampler_env \<Rightarrow> bool \<Rightarrow> rSampler \<Rightarrow> rSampler act" where
  "onWorkTimer e checkflow s =
     (case work_command s of
        Inr r \<Rightarrow> Inr r
      | Inl out0 \<Rightarrow> (case work_flow e checkflow s of
          Inl t \<Rightarrow> Inl t
        | Inr (s1, out1) \<Rightarrow>
            if checkflow \<and> m_noflow s1 \<noteq> 0 then Inr (s1, out0 @ out1)
            else (let s2 = (if lreal_of_word (SysTick e) \<ge> lreal_of_word (m_timerInterval s1) + m_interval s1
                            then grab_timer e s1 else s1)
                  in if UnixTime e > m_timeStart s2 + m_probePeriod s2 \<or> no_dose_left s2 \<or> isCanOverflow e s2
                     then Inr (s2\<lparr>m_state := S_FINISH\<rparr>, out0 @ out1 @ [sevent s EID_SAMPLER_FINISH])
                     else Inr (s2, out0 @ out1))))"

definition onWorkVolume :: "sampler_env \<Rightarrow> bool \<Rightarrow> rSampler \<Rightarrow> rSampler \<times> cevent list" where
  "onWorkVolume e isMass s =
     (case work_command s of
        Inr r \<Rightarrow> r
      | Inl out0 \<Rightarrow>
          (let currvol = (if isMass then Mass (totals_raw e) else Volume (totals_raw e));
               lastvol = (if isMass then Mass (m_lastRawTotal s) else Volume (m_lastRawTotal s));
               s1 = (if currvol > lastvol + m_interval s then take_grab e s else s)
           in if no_dose_left s1 \<or> isCanOverflow e s1
              then (s1\<lparr>m_state := S_FINISH\<rparr>, out0 @ [sevent s EID_SAMPLER_FINISH])
              else (s1, out0)))"

text \<open>\<^verbatim>\<open>checkIO\<close>; \<open>ub\<close> also stands for the cast of an input value to \<^verbatim>\<open>DINT\<close>.\<close>

definition io_zero :: "sampler_env \<Rightarrow> lreal \<Rightarrow> bool" where
  "io_zero e v \<longleftrightarrow> cast_sword (ub e) v = 0"

definition checkIO_start :: "sampler_env \<Rightarrow> rSampler \<Rightarrow> rSampler act" where
  "checkIO_start e s = (case ioStart e of
       None \<Rightarrow> Inr (s, [])
     | Some v \<Rightarrow>
         if v > Fin 0 \<and> \<not> has (m_lockErr s) LE_IO_START \<and> \<not> has (m_lockErr s OR LE_IO_START) LE_IO_STOP
         then onStart e (s\<lparr>m_lockErr := m_lockErr s OR LE_IO_START\<rparr>)
         else (let s1 = (if v > Fin 0 \<and> \<not> has (m_lockErr s) LE_IO_START
                         then s\<lparr>m_lockErr := m_lockErr s OR LE_IO_START\<rparr> else s)
               in Inr (if io_zero e v \<and> has (m_lockErr s1) LE_IO_START
                       then s1\<lparr>m_lockErr := m_lockErr s1 AND NOT LE_IO_START\<rparr> else s1, [])))"

definition checkIO :: "sampler_env \<Rightarrow> rSampler \<Rightarrow> rSampler act" where
  "checkIO e s = (case ioStop e of
       None \<Rightarrow> checkIO_start e s
     | Some v \<Rightarrow>
         if v > Fin 0 \<and> \<not> has (m_lockErr s) LE_IO_STOP \<and> \<not> has (m_lockErr s OR LE_IO_STOP) LE_IO_START
         then Inr (onStop (s\<lparr>m_lockErr := m_lockErr s OR LE_IO_STOP\<rparr>))
         else (let s1 = (if v > Fin 0 \<and> \<not> has (m_lockErr s) LE_IO_STOP
                         then s\<lparr>m_lockErr := m_lockErr s OR LE_IO_STOP\<rparr> else s);
                   s2 = (if io_zero e v \<and> has (m_lockErr s1) LE_IO_STOP
                         then s1\<lparr>m_lockErr := m_lockErr s1 AND NOT LE_IO_STOP\<rparr> else s1)
               in checkIO_start e s2))"

definition sampler_dispatch :: "sampler_env \<Rightarrow> rSampler \<Rightarrow> rSampler act" where
  "sampler_dispatch e s = (case m_state s of
       S_IDLE \<Rightarrow> onIdle e s
     | S_FINISH \<Rightarrow> onIdle e s
     | S_TEST \<Rightarrow> onWorkTimer e False s
     | S_WORKTIME \<Rightarrow> onWorkTimer e True s
     | S_WORKVOLUME \<Rightarrow> Inr (onWorkVolume e False s)
     | S_WORKMASS \<Rightarrow> Inr (onWorkVolume e True s)
     | S_PAUSE \<Rightarrow> Inr (s, [])
     | S_ERROR \<Rightarrow> Inr (onWorkError s))"

definition sampler_preCalculate :: "rSampler \<Rightarrow> rSampler" where
  "sampler_preCalculate s = s\<lparr>m_isCalc := False\<rparr>"

definition sampler_calculate :: "sampler_env \<Rightarrow> rSampler \<Rightarrow> rSampler act" where
  "sampler_calculate e s =
     (if m_isCalc s then Inr (s\<lparr>m_grab := Fin 0\<rparr>, [])
      else (case checkIO e (s\<lparr>m_grab := Fin 0, m_isCalc := True\<rparr>) of
          Inl t \<Rightarrow> Inl t
        | Inr (s1, out1) \<Rightarrow> (case sampler_dispatch e s1 of
            Inl t \<Rightarrow> Inl t
          | Inr (s2, out2) \<Rightarrow> Inr (s2\<lparr>m_command := C_NONE\<rparr>, out1 @ out2))))"

section \<open>The operator\<close>

text \<open>The variables of \<^verbatim>\<open>generateVars\<close> that are not read-only, written between two cycles.\<close>

record sampler_write =
  w_command :: UINT
  w_select :: UINT
  w_method :: UINT
  w_probePeriod :: UDINT
  w_probeVolume :: lreal
  w_probeMass :: lreal
  w_probeTest :: UDINT
  w_canVolume :: lreal
  w_can_volume :: "lreal list"

definition sampler_set :: "sampler_write \<Rightarrow> rSampler \<Rightarrow> rSampler" where
  "sampler_set w s = s\<lparr>m_command := Command_of_code (w_command w), m_select := w_select w,
     m_method := Method_of_code (w_method w), m_probePeriod := w_probePeriod w,
     m_probeVolume := w_probeVolume w, m_probeMass := w_probeMass w, m_probeTest := w_probeTest w,
     m_canVolume := w_canVolume w, can_volume := w_can_volume w\<rparr>"

text \<open>One scan of the device: the writes, \<^verbatim>\<open>preCalculate\<close>, \<^verbatim>\<open>calculate\<close>.\<close>

definition sampler_scan :: "sampler_write \<Rightarrow> sampler_env \<Rightarrow> rSampler \<Rightarrow> rSampler act" where
  "sampler_scan w e s = sampler_calculate e (sampler_preCalculate (sampler_set w s))"

text \<open>
  A constructed sampler is idle, with nothing to resume; the constructor leaves the dose counters, the
  interval and the method as it found them in the memory, so any values of them can be the first ones.
\<close>

inductive sampler_reach :: "rSampler \<Rightarrow> rSampler \<Rightarrow> bool" for s0 where
  init: "m_state s0 = S_IDLE \<Longrightarrow> m_resumeState s0 = S_IDLE \<Longrightarrow> sampler_reach s0 s0"
| scan: "sampler_reach s0 s \<Longrightarrow> sampler_scan w e s = Inr (s', out) \<Longrightarrow> sampler_reach s0 s'"

section \<open>Invariant\<close>

text \<open>
  Once the sampler was started the doses taken and left add up to the doses planned; the timed state is
  not entered; and in the volume and mass states the interval is not a number one could wait for.
\<close>

definition sampler_inv :: "rSampler \<Rightarrow> bool" where
  "sampler_inv s \<longleftrightarrow> m_grabPresent s + m_grabRemain s = m_grabCount s \<and> m_state s \<noteq> S_WORKTIME
     \<and> m_resumeState s \<noteq> S_WORKTIME
     \<and> (m_state s \<in> {S_WORKVOLUME, S_WORKMASS} \<longrightarrow> \<not> isValid (m_interval s))"

lemma div_zero_not_valid: "\<not> isValid (p / Fin 0)"
  by (cases p) auto

lemma lreal_of_word_zero: "lreal_of_word 0 = Fin 0"
  by (simp add: lreal_of_word_def)

lemma inv_onStart:
  "m_resumeState s \<noteq> S_WORKTIME \<Longrightarrow> onStart e s = Inr (s', out) \<Longrightarrow> sampler_inv s'"
  by (auto simp: onStart_def start_clear_def start_finish_def sampler_inv_def Let_def
      lreal_of_word_zero div_zero_not_valid split: Method.splits if_splits)

lemma onStart_period:
  "m_method s = M_PERIOD \<Longrightarrow> m_select s < CAN_MAX \<Longrightarrow> onStart e s = Inl Div_by_zero"
  by (simp add: onStart_def start_clear_def Let_def)

lemma inv_onStop: "sampler_inv s \<Longrightarrow> onStop s = (s', out) \<Longrightarrow> sampler_inv s'"
  by (auto simp: onStop_def sampler_inv_def)

lemma inv_onStartTest: "m_resumeState s \<noteq> S_WORKTIME \<Longrightarrow> onStartTest e s = Inr (s', out) \<Longrightarrow> sampler_inv s'"
  by (auto simp: onStartTest_def sampler_inv_def split: if_splits)

lemma inv_onIdle: "sampler_inv s \<Longrightarrow> onIdle e s = Inr (s', out) \<Longrightarrow> sampler_inv s'"
  using inv_onStart [of s e s' out] inv_onStop [of s s' out] inv_onStartTest [of s e s' out]
  by (auto simp: onIdle_def sampler_inv_def split: Command.splits)

lemma inv_onWorkError: "sampler_inv s \<Longrightarrow> onWorkError s = (s', out) \<Longrightarrow> sampler_inv s'"
  by (auto simp: onWorkError_def sampler_inv_def split: Command.splits)

lemma inv_work_command:
  "sampler_inv s \<Longrightarrow> work_command s = Inr (s', out) \<Longrightarrow> sampler_inv s'"
  by (auto simp: work_command_def sampler_inv_def onPause_def split: Command.splits)

lemma inv_take_grab: "sampler_inv s \<Longrightarrow> sampler_inv (take_grab e s)"
  by (simp add: sampler_inv_def take_grab_def)

lemma inv_state: "sampler_inv s \<Longrightarrow> st \<notin> {S_WORKTIME, S_WORKVOLUME, S_WORKMASS} \<Longrightarrow>
    sampler_inv (s\<lparr>m_state := st\<rparr>)"
  by (simp add: sampler_inv_def)

lemma inv_grab_timer: "sampler_inv s \<Longrightarrow> sampler_inv (grab_timer e s)"
  using inv_take_grab [of s e] by (simp add: sampler_inv_def grab_timer_def Let_def)

lemma inv_onWorkTimer_test:
  assumes "sampler_inv s" and "onWorkTimer e False s = Inr (s', out)"
  shows "sampler_inv s'"
proof (cases "work_command s")
  case (Inr r)
  with assms show ?thesis by (cases r) (auto simp: onWorkTimer_def intro: inv_work_command)
next
  case (Inl o0)
  with assms show ?thesis
    by (auto simp: onWorkTimer_def work_flow_def Let_def inv_state inv_grab_timer split: if_splits)
qed

lemma inv_onWorkVolume:
  assumes "sampler_inv s" and "onWorkVolume e m s = (s', out)"
  shows "sampler_inv s'"
proof (cases "work_command s")
  case (Inr r)
  with assms show ?thesis by (cases r) (auto simp: onWorkVolume_def intro: inv_work_command)
next
  case (Inl o0)
  with assms show ?thesis
    by (auto simp: onWorkVolume_def Let_def inv_state inv_take_grab split: if_splits)
qed

lemma inv_fields [simp]:
  "sampler_inv (s\<lparr>m_grab := g\<rparr>) = sampler_inv s" "sampler_inv (s\<lparr>m_isCalc := b\<rparr>) = sampler_inv s"
  "sampler_inv (s\<lparr>m_lockErr := l\<rparr>) = sampler_inv s" "sampler_inv (s\<lparr>m_command := c\<rparr>) = sampler_inv s"
  by (simp_all add: sampler_inv_def)

lemma inv_resume: "sampler_inv s \<Longrightarrow> m_resumeState s \<noteq> S_WORKTIME"
  by (simp add: sampler_inv_def)

lemma inv_checkIO_start:
  "sampler_inv s \<Longrightarrow> checkIO_start e s = Inr (s', out) \<Longrightarrow> sampler_inv s'"
  using inv_resume [of s]
  by (auto simp: checkIO_start_def Let_def intro: inv_onStart [rotated] split: option.splits if_splits)

lemma inv_onStop_lock: "sampler_inv s \<Longrightarrow> onStop (s\<lparr>m_lockErr := l\<rparr>) = (s', out) \<Longrightarrow> sampler_inv s'"
  by (rule inv_onStop [of "s\<lparr>m_lockErr := l\<rparr>"]) simp_all

lemma inv_checkIO:
  assumes "sampler_inv s" "checkIO e s = Inr (s', out)"
  shows "sampler_inv s'"
  using assms
  by (auto simp: checkIO_def Let_def inv_onStop_lock split: option.splits if_splits
      dest!: inv_checkIO_start [rotated])

lemma inv_dispatch:
  assumes "sampler_inv s" "sampler_dispatch e s = Inr (s', out)"
  shows "sampler_inv s'"
proof -
  have "m_state s \<noteq> S_WORKTIME" using assms(1) by (simp add: sampler_inv_def)
  then show ?thesis
    using assms(2) inv_onIdle [OF assms(1), of e s' out] inv_onWorkTimer_test [OF assms(1), of e s' out]
      inv_onWorkVolume [OF assms(1), of e False s' out] inv_onWorkVolume [OF assms(1), of e True s' out]
      inv_onWorkError [OF assms(1), of s' out] assms(1)
    unfolding sampler_dispatch_def
    by (cases "m_state s") simp_all
qed

lemma inv_calculate:
  assumes "sampler_inv s" "sampler_calculate e s = Inr (s', out)"
  shows "sampler_inv s'"
proof (cases "m_isCalc s")
  case True
  with assms show ?thesis by (auto simp: sampler_calculate_def)
next
  case False
  with assms(2) obtain s1 o1 s2 o2 where
    "checkIO e (s\<lparr>m_grab := Fin 0, m_isCalc := True\<rparr>) = Inr (s1, o1)"
    "sampler_dispatch e s1 = Inr (s2, o2)" "s' = s2\<lparr>m_command := C_NONE\<rparr>"
    by (auto simp: sampler_calculate_def split: sum.splits)
  with assms(1) inv_checkIO [of "s\<lparr>m_grab := Fin 0, m_isCalc := True\<rparr>" e s1 o1] inv_dispatch [of s1 e s2 o2]
  show ?thesis by simp
qed

lemma inv_set: "sampler_inv s \<Longrightarrow> sampler_inv (sampler_preCalculate (sampler_set w s))"
  by (simp add: sampler_inv_def sampler_preCalculate_def sampler_set_def)

text \<open>Before the first start the sampler is idle and its dose counters are those of the memory.\<close>

definition never_started :: "rSampler \<Rightarrow> rSampler \<Rightarrow> bool" where
  "never_started s0 s \<longleftrightarrow> m_state s = S_IDLE \<and> m_resumeState s = S_IDLE
     \<and> m_grabPresent s = m_grabPresent s0 \<and> m_grabRemain s = m_grabRemain s0 \<and> m_grabCount s = m_grabCount s0"

lemma never_started_fields [simp]:
  "never_started s0 (s\<lparr>m_grab := g\<rparr>) = never_started s0 s" "never_started s0 (s\<lparr>m_isCalc := b\<rparr>) = never_started s0 s"
  "never_started s0 (s\<lparr>m_lockErr := l\<rparr>) = never_started s0 s" "never_started s0 (s\<lparr>m_command := c\<rparr>) = never_started s0 s"
  by (simp_all add: never_started_def)

lemma never_started_resume: "never_started s0 s \<Longrightarrow> m_resumeState s \<noteq> S_WORKTIME"
  by (simp add: never_started_def)

lemma never_started_stop: "never_started s0 s \<Longrightarrow> onStop s = (s', out) \<Longrightarrow> never_started s0 s'"
  by (auto simp: onStop_def never_started_def)

lemma never_started_onIdle:
  "never_started s0 s \<Longrightarrow> onIdle e s = Inr (s', out) \<Longrightarrow> sampler_inv s' \<or> never_started s0 s'"
  using never_started_resume [of s0 s] inv_onStart [of s e s' out] never_started_stop [of s0 s s' out] inv_onStartTest [of s e s' out]
  by (auto simp: onIdle_def split: Command.splits)

lemma never_started_checkIO_start:
  "never_started s0 s \<Longrightarrow> checkIO_start e s = Inr (s', out) \<Longrightarrow> sampler_inv s' \<or> never_started s0 s'"
  using never_started_resume [of s0 s]
  by (auto simp: checkIO_start_def Let_def dest: inv_onStart [rotated] split: option.splits if_splits)

lemma never_started_checkIO:
  "never_started s0 s \<Longrightarrow> checkIO e s = Inr (s', out) \<Longrightarrow> sampler_inv s' \<or> never_started s0 s'"
  using never_started_stop [of s0 "s\<lparr>m_lockErr := m_lockErr s OR LE_IO_STOP\<rparr>" s' out]
  by (auto simp: checkIO_def Let_def split: option.splits if_splits dest!: never_started_checkIO_start [rotated])

lemma never_started_calculate:
  assumes n: "never_started s0 s" and r: "sampler_calculate e s = Inr (s', out)"
  shows "sampler_inv s' \<or> never_started s0 s'"
proof (cases "m_isCalc s")
  case True
  with assms show ?thesis by (auto simp: sampler_calculate_def)
next
  case False
  with r obtain s1 o1 s2 o2 where
    1: "checkIO e (s\<lparr>m_grab := Fin 0, m_isCalc := True\<rparr>) = Inr (s1, o1)"
    and 2: "sampler_dispatch e s1 = Inr (s2, o2)" and s': "s' = s2\<lparr>m_command := C_NONE\<rparr>"
    by (auto simp: sampler_calculate_def split: sum.splits)
  have "sampler_inv s2 \<or> never_started s0 s2"
  proof (cases "never_started s0 s1")
    case True
    then have "onIdle e s1 = Inr (s2, o2)" using 2 by (simp add: sampler_dispatch_def never_started_def)
    then show ?thesis by (rule never_started_onIdle [OF True])
  next
    case False
    then have "sampler_inv s1" using never_started_checkIO [OF _ 1, of s0] n by simp
    then show ?thesis using inv_dispatch [OF _ 2] by simp
  qed
  then show ?thesis by (simp add: s')
qed

lemma never_started_set: "never_started s0 s \<Longrightarrow> never_started s0 (sampler_preCalculate (sampler_set w s))"
  by (simp add: never_started_def sampler_preCalculate_def sampler_set_def)

lemma inv_reach: "sampler_reach s0 s \<Longrightarrow> sampler_inv s \<or> never_started s0 s"
proof (induction rule: sampler_reach.induct)
  case init
  then show ?case by (simp add: never_started_def)
next
  case (scan s w e s' out)
  then show ?case unfolding sampler_scan_def using inv_set inv_calculate never_started_set never_started_calculate by blast
qed

text \<open>
  C28. The dose counters of the sampler balance: whatever the memory held in which the sampler was
  constructed, and in every state that any scans, operator writes, inputs and clocks can produce, the
  doses taken and the doses left add up to the doses planned, or the sampler was never started: it is
  idle and the three counters still are what the memory held. And the timed sampling is out of reach:
  no such state works by time, since the only way into that state divides by a counter that was
  cleared just before.
\<close>

theorem sampler_doses_balance:
  assumes "sampler_reach s0 s"
  shows "(m_grabPresent s + m_grabRemain s = m_grabCount s
      \<or> m_state s = S_IDLE \<and> m_grabPresent s = m_grabPresent s0 \<and> m_grabRemain s = m_grabRemain s0 \<and> m_grabCount s = m_grabCount s0)
    \<and> m_state s \<noteq> S_WORKTIME
    \<and> (\<forall>e. m_method s = M_PERIOD \<and> m_select s < CAN_MAX \<longrightarrow> onStart e s = Inl Div_by_zero)"
  using inv_reach [OF assms] by (auto simp: sampler_inv_def never_started_def onStart_period)

text \<open>A sampler constructed in a memory whose values do not balance.\<close>

definition base0 :: rBaseTotal where "base0 = total_clear_base"

definition sampler_example :: rSampler where
  "sampler_example = \<lparr>m_ID = 1, m_descr = 2, m_isCalc = False, m_lockErr = 0, m_grab = Fin 0,
     can_volume = [Fin 3000, Fin 3000], m_command = C_NONE, m_select = 0, m_method = M_VOLUME,
     m_probePeriod = 43200, m_probeVolume = Fin 100, m_probeMass = Fin 100, m_probeTest = 100,
     m_grabVol = Fin 1, m_canVolume = Fin 10, m_noflow = 0, m_interval = Fin 0, m_canPresent = Fin 0,
     m_canRemain = Fin 0, m_timeRemain = 0, m_grabPresent = 7, m_grabRemain = 5, m_grabCount = 1,
     m_timeStart = 0, m_state = S_IDLE, m_lastRawTotal = base0, m_timerInterval = 0,
     m_resumeState = S_IDLE\<rparr>"

definition sampler_env_example :: sampler_env where
  "sampler_env_example = \<lparr>SysTick = 5, UnixTime = 1, ioStart = None, ioStop = None,
     can_overflow = [None, None], totals_raw = base0, totals_incVolume = Fin 0, ub = 0\<rparr>"

definition sampler_write_example :: "UINT \<Rightarrow> sampler_write" where
  "sampler_write_example cmd = \<lparr>w_command = cmd, w_select = 0, w_method = 2, w_probePeriod = 43200,
     w_probeVolume = Fin 100, w_probeMass = Fin 100, w_probeTest = 100, w_canVolume = Fin 10,
     w_can_volume = [Fin 3000, Fin 3000]\<rparr>"

lemma sampler_example_reach: "sampler_reach sampler_example sampler_example"
  by (rule sampler_reach.init) (simp_all add: sampler_example_def)

text \<open>Starting by volume in the example plans ten doses.\<close>

lemma dround_10_half: "dround (10 + 1 / 2) = Fin (10 + 1 / 2)"
  by (rule dround_exact_small [of _ 21 "- 1"]) simp_all

lemma sampler_example_start:
  "\<exists>s' out. sampler_scan (sampler_write_example 1) sampler_env_example sampler_example = Inr (s', out)
     \<and> m_state s' = S_WORKVOLUME \<and> m_interval s' = PInf \<and> m_grabCount s' = 10"
  using dround_10_half
  by (simp add: sampler_scan_def sampler_example_def sampler_write_example_def sampler_env_example_def
      sampler_set_def sampler_preCalculate_def sampler_calculate_def checkIO_def checkIO_start_def
      sampler_dispatch_def onIdle_def onStart_def start_clear_def start_finish_def start_count_def
      Command_of_code_def Method_of_code_def CAN_MAX_def lreal_of_word_zero cast_word_def ctrunc_def)

theorem sampler_doses_balance_witness:
  "\<exists>s'. sampler_reach sampler_example s' \<and> m_state s' = S_WORKVOLUME \<and> m_grabPresent s' + m_grabRemain s' = 10"
proof -
  obtain s' out where s: "sampler_scan (sampler_write_example 1) sampler_env_example sampler_example = Inr (s', out)"
    and st: "m_state s' = S_WORKVOLUME" and c: "m_grabCount s' = 10"
    using sampler_example_start by blast
  have r: "sampler_reach sampler_example s'" by (rule sampler_reach.scan [OF sampler_example_reach s])
  show ?thesis using sampler_doses_balance [OF r] r st c by auto
qed

section \<open>Sampling by volume and mass\<close>

lemma lreal_plus_PInf: "\<not> a > b + PInf"
  by (cases a; cases b) auto

lemma not_valid_wait:
  "\<not> isValid i \<Longrightarrow> i \<noteq> NInf \<Longrightarrow> \<not> a > b + i"
  by (cases i; cases a; cases b) auto

lemma onWorkVolume_no_grab:
  assumes "\<not> isValid (m_interval s)" "m_interval s \<noteq> NInf"
  shows "m_grab (fst (onWorkVolume e m s)) = m_grab s \<and> m_grabPresent (fst (onWorkVolume e m s)) = m_grabPresent s"
  using not_valid_wait [OF assms]
  by (simp add: onWorkVolume_def work_command_def onPause_def Let_def split: Command.split sum.split)

text \<open>
  Sampling by volume or by mass takes no dose. Whenever a reachable sampler is in one of these
  states, its interval is an infinity or a NaN, because the planned amount was divided by the
  cleared dose counter; and the handler of the state, for any totals, leaves the grab output and
  the dose counter alone, unless the planned amount was negative.
\<close>

theorem sampler_volume_never_grabs:
  assumes "sampler_reach s0 s" "m_state s \<in> {S_WORKVOLUME, S_WORKMASS}" "m_interval s \<noteq> NInf"
  shows "\<not> isValid (m_interval s)
    \<and> (\<forall>s' out. sampler_dispatch e s = Inr (s', out) \<longrightarrow>
          m_grab s' = m_grab s \<and> m_grabPresent s' = m_grabPresent s)"
proof
  show nv: "\<not> isValid (m_interval s)"
    using inv_reach [OF assms(1)] assms(2) by (auto simp: sampler_inv_def never_started_def)
  show "\<forall>s' out. sampler_dispatch e s = Inr (s', out) \<longrightarrow>
      m_grab s' = m_grab s \<and> m_grabPresent s' = m_grabPresent s"
    using assms(2) onWorkVolume_no_grab [OF nv assms(3), of e False]
      onWorkVolume_no_grab [OF nv assms(3), of e True]
    by (auto simp: sampler_dispatch_def)
qed

theorem sampler_volume_never_grabs_witness:
  "\<exists>s. sampler_reach sampler_example s \<and> m_state s = S_WORKVOLUME \<and> \<not> isValid (m_interval s)"
proof -
  obtain s' out where s: "sampler_scan (sampler_write_example 1) sampler_env_example sampler_example = Inr (s', out)"
    and st: "m_state s' = S_WORKVOLUME" and i: "m_interval s' = PInf"
    using sampler_example_start by blast
  have "sampler_reach sampler_example s'" by (rule sampler_reach.scan [OF sampler_example_reach s])
  with sampler_volume_never_grabs [of sampler_example s'] st i show ?thesis by auto
qed

section \<open>Pause\<close>

fun sampler_scans :: "(sampler_write \<times> sampler_env) list \<Rightarrow> rSampler \<Rightarrow> rSampler act" where
  "sampler_scans [] s = Inr (s, [])"
| "sampler_scans ((w, e) # wes) s = (case sampler_scan w e s of
     Inl t \<Rightarrow> Inl t
   | Inr (s1, o1) \<Rightarrow> (case sampler_scans wes s1 of Inl t \<Rightarrow> Inl t | Inr (s2, o2) \<Rightarrow> Inr (s2, o1 @ o2)))"

lemma pause_scan:
  assumes "m_state s = S_PAUSE" "ioStart e = None" "ioStop e = None"
  shows "\<exists>s'. sampler_scan w e s = Inr (s', []) \<and> m_state s' = S_PAUSE \<and> m_grab s' = Fin 0
    \<and> m_command s' = C_NONE"
  using assms
  by (simp add: sampler_scan_def sampler_set_def sampler_preCalculate_def sampler_calculate_def
      checkIO_def checkIO_start_def sampler_dispatch_def)

text \<open>
  A pause cannot be ended by command. Without start and stop inputs, a paused sampler stays
  paused through any number of scans, whatever the operator writes, \<^verbatim>\<open>RESUME\<close> and \<^verbatim>\<open>STOP\<close>
  included: the commands are consumed without an event and no dose is taken.
\<close>

theorem sampler_pause_is_final:
  assumes "m_state s = S_PAUSE" "\<forall>(w, e)\<in>set wes. ioStart e = None \<and> ioStop e = None"
  shows "\<exists>s'. sampler_scans wes s = Inr (s', []) \<and> m_state s' = S_PAUSE
    \<and> (wes \<noteq> [] \<longrightarrow> m_grab s' = Fin 0 \<and> m_command s' = C_NONE)"
  using assms
proof (induction wes arbitrary: s)
  case (Cons x wes)
  obtain w e where x: "x = (w, e)" by (cases x)
  obtain s1 where s1: "sampler_scan w e s = Inr (s1, [])" "m_state s1 = S_PAUSE" "m_grab s1 = Fin 0"
    "m_command s1 = C_NONE"
    using pause_scan [OF Cons.prems(1), of e w] Cons.prems(2) x by auto
  from Cons.IH [OF s1(2)] Cons.prems(2) obtain s2 where
    "sampler_scans wes s1 = Inr (s2, [])" "m_state s2 = S_PAUSE"
    "wes \<noteq> [] \<longrightarrow> m_grab s2 = Fin 0 \<and> m_command s2 = C_NONE" by auto
  with s1 x show ?case by (cases wes) auto
qed simp

theorem sampler_pause_is_final_witness:
  "\<exists>s'. sampler_scans [(sampler_write_example 145, sampler_env_example)]
     (sampler_example\<lparr>m_state := S_PAUSE\<rparr>) = Inr (s', []) \<and> m_state s' = S_PAUSE"
  using sampler_pause_is_final [of "sampler_example\<lparr>m_state := S_PAUSE\<rparr>"
      "[(sampler_write_example 145, sampler_env_example)]"]
  by (auto simp: sampler_env_example_def)

end
