(* ===== verification/TickCount.thy ===== *)
theory TickCount
  imports Prelude
begin

text \<open>
  The millisecond timer \<^verbatim>\<open>rTickCount\<close> of \<^verbatim>\<open>src/shared/tickcount.cpp\<close>. Every function that
  reads the clock takes what \<^verbatim>\<open>gettimeofday\<close> answers as an argument. Ticks are \<^verbatim>\<open>UDINT\<close>
  milliseconds, so they wrap after 49.7 days; the \<open>timer\<close> locale states what the users of a
  timer rely on, in terms of the wrapped difference, and is interpreted on the model.
\<close>

section \<open>State and operations\<close>

record timeval =
  sec :: int
  usec :: int

record rTickCount =
  m_tv :: timeval
  m_setting :: UDINT
  m_isStart :: bool

definition Tick :: "timeval \<Rightarrow> UDINT" where
  "Tick tv = of_int (sec tv * 1000 + cdiv (usec tv) 1000)"

definition TickUs :: "timeval \<Rightarrow> UDINT" where
  "TickUs tv = of_int (sec tv * 1000000 + usec tv)"

definition UnixTime :: "timeval \<Rightarrow> UDINT" where
  "UnixTime now = of_int (sec now)"

definition tick_new :: "timeval \<Rightarrow> rTickCount" where
  "tick_new now = \<lparr>m_tv = now, m_setting = 0, m_isStart = False\<rparr>"

definition tick_isStarted :: "rTickCount \<Rightarrow> bool" where
  "tick_isStarted t = m_isStart t"

definition tick_restart :: "timeval \<Rightarrow> rTickCount \<Rightarrow> rTickCount" where
  "tick_restart now t = t\<lparr>m_isStart := True, m_tv := now\<rparr>"

definition tick_start :: "timeval \<Rightarrow> UDINT \<Rightarrow> rTickCount \<Rightarrow> rTickCount" where
  "tick_start now msec t = (tick_restart now t)\<lparr>m_setting := msec\<rparr>"

definition tick_stop :: "rTickCount \<Rightarrow> rTickCount" where
  "tick_stop t = t\<lparr>m_isStart := False\<rparr>"

definition tick_getCount :: "timeval \<Rightarrow> UDINT \<Rightarrow> rTickCount \<Rightarrow> UDINT \<times> rTickCount" where
  "tick_getCount now reset t =
     (Tick now - Tick (m_tv t), if reset \<noteq> 0 then t\<lparr>m_tv := now\<rparr> else t)"

definition tick_count :: "timeval \<Rightarrow> rTickCount \<Rightarrow> UDINT" where
  "tick_count now t = fst (tick_getCount now 0 t)"

definition tick_isFinished :: "timeval \<Rightarrow> rTickCount \<Rightarrow> bool" where
  "tick_isFinished now t \<longleftrightarrow> m_isStart t \<and> tick_count now t \<ge> m_setting t"

section \<open>The contract of a timer\<close>

text \<open>
  \<open>elapsed\<close> is the clock difference the timer can see. A stopped timer never finishes; a started
  or restarted one finishes exactly when the visible difference reaches the setting.
\<close>

locale timer =
  fixes start :: "'c \<Rightarrow> UDINT \<Rightarrow> 't \<Rightarrow> 't" and restart :: "'c \<Rightarrow> 't \<Rightarrow> 't" and stop :: "'t \<Rightarrow> 't"
    and setting :: "'t \<Rightarrow> UDINT" and finished :: "'c \<Rightarrow> 't \<Rightarrow> bool"
    and started :: "'t \<Rightarrow> bool" and elapsed :: "'c \<Rightarrow> 'c \<Rightarrow> UDINT"
  assumes finished_stop: "\<not> finished c (stop t)"
    and finished_start: "finished c' (start c ms t) \<longleftrightarrow> ms \<le> elapsed c c'"
    and finished_restart: "finished c' (restart c t) \<longleftrightarrow> setting t \<le> elapsed c c'"
    and setting_start: "setting (start c ms t) = ms"
    and setting_restart: "setting (restart c t) = setting t"
    and setting_stop: "setting (stop t) = setting t"
    and started_start: "started (start c ms t)" and started_restart: "started (restart c t)"
    and started_stop: "\<not> started (stop t)"
    and elapsed_refl: "elapsed c c = 0"
begin

lemma start_zero: "finished c (start c 0 t)"
  by (simp add: finished_start)

lemma start_pending: "ms \<noteq> 0 \<Longrightarrow> \<not> finished c (start c ms t)"
  by (simp add: finished_start elapsed_refl)

lemma restart_as_start: "finished c' (restart c t) \<longleftrightarrow> finished c' (start c (setting t) u)"
  by (simp add: finished_restart finished_start)

lemma restart_after_stop: "finished c' (restart c (stop t)) \<longleftrightarrow> setting t \<le> elapsed c c'"
  by (simp add: finished_restart setting_stop)

lemma finished_started: "finished c (t' :: 't) \<Longrightarrow> t' \<noteq> stop t"
  using finished_stop by blast

end

definition tick_elapsed :: "timeval \<Rightarrow> timeval \<Rightarrow> UDINT" where
  "tick_elapsed from' to' = Tick to' - Tick from'"

lemma tick_count_eq: "tick_count now t = tick_elapsed (m_tv t) now"
  by (simp add: tick_count_def tick_getCount_def tick_elapsed_def)

interpretation tick: timer tick_start tick_restart tick_stop m_setting tick_isFinished
  tick_isStarted tick_elapsed
  by unfold_locales
    (simp_all add: tick_isFinished_def tick_stop_def tick_start_def tick_restart_def
      tick_count_eq tick_isStarted_def tick_elapsed_def)

section \<open>Wrap-around\<close>

text \<open>Whole milliseconds since the epoch.\<close>

definition msec_of :: "timeval \<Rightarrow> int" where
  "msec_of tv = sec tv * 1000 + cdiv (usec tv) 1000"

lemma tick_elapsed_msec: "tick_elapsed t0 t1 = of_int (msec_of t1 - msec_of t0)"
  by (simp add: tick_elapsed_def Tick_def msec_of_def)

lemma tick_elapsed_exact:
  assumes "0 \<le> msec_of t1 - msec_of t0" "msec_of t1 - msec_of t0 < 2 ^ 32"
  shows "uint (tick_elapsed t0 t1) = msec_of t1 - msec_of t0"
  using assms by (simp add: tick_elapsed_msec uint_word_of_int del: of_int_diff)

text \<open>
  C25. Timers survive the wrap-around of the 32-bit tick. A timer started at one instant is
  finished at a later one exactly when the real difference in milliseconds has reached its
  setting, wherever the instants lie relative to the wrap, as long as it is asked within 49.7
  days; a stopped timer is never finished, and a restart measures the old setting anew.
\<close>

theorem timer_exact:
  assumes "0 \<le> msec_of t1 - msec_of t0" "msec_of t1 - msec_of t0 < 2 ^ 32"
  shows "(tick_isFinished t1 (tick_start t0 ms t) \<longleftrightarrow> uint ms \<le> msec_of t1 - msec_of t0)
    \<and> (tick_isFinished t1 (tick_restart t0 (tick_start t' ms t)) \<longleftrightarrow> uint ms \<le> msec_of t1 - msec_of t0)
    \<and> \<not> tick_isFinished t1 (tick_stop t)"
  using tick_elapsed_exact [OF assms]
  by (simp_all add: tick.finished_start tick.finished_restart tick.finished_stop
      tick.setting_start word_le_def)

theorem timer_exact_witness:
  "tick_isFinished \<lparr>sec = 4294967, usec = 297000\<rparr>
     (tick_start \<lparr>sec = 4294967, usec = 290000\<rparr> 7 (tick_new \<lparr>sec = 0, usec = 0\<rparr>))"
  using timer_exact [of "\<lparr>sec = 4294967, usec = 297000\<rparr>" "\<lparr>sec = 4294967, usec = 290000\<rparr>" 7
      "tick_new \<lparr>sec = 0, usec = 0\<rparr>"]
  by (simp add: msec_of_def cdiv_pos)

end
