(* ===== verification/Prove.thy ===== *)
theory Prove
  imports Source TickCount
begin

text \<open>
  The prover, \<^verbatim>\<open>src/tritonn/data/prove.cpp\<close>: the state machine that drives a ball through a
  calibrated pipe. One \<^verbatim>\<open>calculate\<close> guards the setup, reads the pulse module, latches the
  detectors, averages the process values, and runs the handler of the state. The environment of a
  cycle is the clock, the module, the input links and the measured line; besides events a handler
  writes module variables, switches the frequency output or halts the system.
\<close>

section \<open>State\<close>

datatype PCommand = PC_NONE | PC_START | PC_ABORT | PC_RESET | PC_other UINT

definition PCommand_of_code :: "UINT \<Rightarrow> PCommand" where
  "PCommand_of_code c = (if c = 0 then PC_NONE else if c = 1 then PC_START else if c = 2 then PC_ABORT
     else if c = 3 then PC_RESET else PC_other c)"

definition PS_VALVE_4WAY :: UINT where "PS_VALVE_4WAY = 0x0001"
definition PS_STABILIZATION :: UINT where "PS_STABILIZATION = 0x0002"
definition PS_NOVALVE :: UINT where "PS_NOVALVE = 0x0004"
definition PS_ONEDETECTOR :: UINT where "PS_ONEDETECTOR = 0x0008"
definition PS_BOUNCE :: UINT where "PS_BOUNCE = 0x0010"
definition PS_NOSELECTSTR :: UINT where "PS_NOSELECTSTR = 0x0020"
definition PS_SIMULATE :: UINT where "PS_SIMULATE = 0x0040"

definition WAY_FORWARD :: USINT where "WAY_FORWARD = 1"
definition WAY_REVERSE :: USINT where "WAY_REVERSE = 2"

datatype PState = P_IDLE | P_START | P_STABILIZATION | P_RUNBALL | P_VALVETOUP | P_WAITTOUP
  | P_VALVETODOWN | P_WAITD1 | P_WAITD2 | P_CALCULATE | P_RETURNBALL | P_WAITD2_REVERSE
  | P_WAITD1_REVERSE | P_WAYCOMPLITED | P_FINISH | P_ABORT | P_ERRORFLOW | P_ERRORSTAB
  | P_ERRORTOUP | P_ERRORTODOWN | P_ERRORD1 | P_ERRORD2 | P_ERRORDETECTOR | P_ERRORRETURN
  | P_ERRORSTREAMID | P_ERRORD2_REVERSE | P_ERRORD1_REVERSE

record WayData =
  wd_count :: lreal
  wd_time :: lreal

record ProveVolume =
  pv_summ :: WayData
  pv_forward :: WayData
  pv_reverse :: WayData

definition way_clear :: WayData where "way_clear = \<lparr>wd_count = Fin 0, wd_time = Fin 0\<rparr>"

definition volume_clear :: ProveVolume where
  "volume_clear = \<lparr>pv_summ = way_clear, pv_forward = way_clear, pv_reverse = way_clear\<rparr>"

record rProve =
  p_ID :: UDINT
  p_descr :: UDINT
  p_isCalc :: bool
  p_open :: lreal
  p_close :: lreal
  p_inProgress :: lreal
  p_command :: PCommand
  p_setup :: "UINT rCompared"
  p_strIdx :: "UINT"
  p_module :: USINT
  prvFreq :: lreal
  prvTemp :: lreal
  prvPres :: lreal
  prvDens :: lreal
  strTemp :: lreal
  strPres :: lreal
  strDens :: lreal
  strKf :: lreal
  curDet :: UINT
  fixDet :: UINT
  maxStabTemp :: lreal
  maxStabPres :: lreal
  maxStabDens :: lreal
  maxStabFreq :: lreal
  tStart :: UDINT
  tStab :: UDINT
  tD1 :: UDINT
  tD2 :: UDINT
  tVolume :: UDINT
  tValve :: UDINT
  tAbort :: UDINT
  tBounce :: UDINT
  p_state :: PState
  p_way :: USINT
  p_volume :: "ProveVolume \<times> ProveVolume"
  stabDens :: lreal
  stabPres :: lreal
  stabTemp :: lreal
  stabFreq :: lreal
  averageCount :: UDINT
  moduleFreq :: lreal
  moduleDet :: UINT
  moduleCount :: UDINT
  p_timer :: rTickCount
  p_timerBounce :: rTickCount

text \<open>The line under test, as far as the averages read it.\<close>

record pstream =
  ps_temp :: lreal
  ps_pres :: lreal
  ps_dens :: lreal
  ps_kf :: lreal

text \<open>
  \<open>pe_module\<close> is \<^const>\<open>None\<close> when the module is not configured; otherwise the interface may be
  missing, in fault, or deliver frequency, detectors, counter and the counter's fault code.
\<close>

datatype module_reading = NoInterface | ModuleFault | Reading lreal UINT UDINT UDINT

record prove_env =
  pe_now :: timeval
  pe_module :: "module_reading option"
  pe_temp :: lreal
  pe_pres :: lreal
  pe_dens :: lreal
  pe_opened :: lreal
  pe_closed :: lreal
  pe_streamCount :: UDINT
  pe_stream :: "pstream option"

datatype prove_out = POut_event cevent | POut_halt UDINT UDINT | POut_freqOut UINT
  | POut_moduleStart | POut_moduleStop

definition HALT_RUNTIME :: UDINT where "HALT_RUNTIME = 0x00060000"
definition DATACFGERR_REALTIME_MODULELINK :: UDINT where "DATACFGERR_REALTIME_MODULELINK = 197"

type_synonym pact = "rProve \<times> prove_out list"

definition pevent :: "rProve \<Rightarrow> UDINT \<Rightarrow> prove_out" where
  "pevent s eid = POut_event (reinitEvent (p_ID s) (p_descr s) eid)"

section \<open>Helpers\<close>

definition lreal_true :: "lreal \<Rightarrow> bool" where
  "lreal_true v \<longleftrightarrow> \<not> deq v (Fin 0)"

definition isValveOpened :: "prove_env \<Rightarrow> bool" where
  "isValveOpened e \<longleftrightarrow> lreal_true (pe_opened e) \<and> deq (pe_closed e) (Fin 0)"

definition isValveClosed :: "prove_env \<Rightarrow> bool" where
  "isValveClosed e \<longleftrightarrow> deq (pe_opened e) (Fin 0) \<and> lreal_true (pe_closed e)"

text \<open>The test for simulation compares the whole setup word.\<close>

definition isSimulate :: "rProve \<Rightarrow> bool" where
  "isSimulate s \<longleftrightarrow> Value (p_setup s) = PS_SIMULATE"

text \<open>The two columns of \<^verbatim>\<open>setState\<close>.\<close>

fun state_progress :: "PState \<Rightarrow> bool" where
  "state_progress P_RUNBALL = True"
| "state_progress P_VALVETOUP = True"
| "state_progress P_WAITTOUP = True"
| "state_progress P_VALVETODOWN = True"
| "state_progress P_WAITD1 = True"
| "state_progress P_WAITD2 = True"
| "state_progress P_CALCULATE = True"
| "state_progress P_RETURNBALL = True"
| "state_progress P_WAITD1_REVERSE = True"
| "state_progress P_WAITD2_REVERSE = True"
| "state_progress P_WAYCOMPLITED = True"
| "state_progress _ = False"

fun state_eid :: "PState \<Rightarrow> UDINT" where
  "state_eid P_IDLE = EID_PROVE_STATE_IDLE"
| "state_eid P_START = EID_PROVE_STATE_START"
| "state_eid P_STABILIZATION = EID_PROVE_STATE_STAB"
| "state_eid P_RUNBALL = EID_PROVE_STATE_RUNBALL"
| "state_eid P_VALVETOUP = EID_PROVE_STATE_VALVETOUP"
| "state_eid P_WAITTOUP = EID_PROVE_STATE_WAITTOUP"
| "state_eid P_VALVETODOWN = EID_PROVE_STATE_VALVETODOWN"
| "state_eid P_WAITD1 = EID_PROVE_STATE_WAITD1"
| "state_eid P_WAITD2 = EID_PROVE_STATE_WAITD2"
| "state_eid P_CALCULATE = EID_PROVE_STATE_CALCULATE"
| "state_eid P_RETURNBALL = EID_PROVE_STATE_RETURNBALL"
| "state_eid P_WAITD1_REVERSE = EID_PROVE_STATE_WAITED1_RVS"
| "state_eid P_WAITD2_REVERSE = EID_PROVE_STATE_WAITED2_RVS"
| "state_eid P_WAYCOMPLITED = EID_PROVE_STATE_WAYCOMPLTED"
| "state_eid P_FINISH = EID_PROVE_STATE_FINISH"
| "state_eid P_ABORT = EID_PROVE_STATE_ABORT"
| "state_eid P_ERRORFLOW = EID_PROVE_STATE_ERRORFLOW"
| "state_eid P_ERRORSTAB = EID_PROVE_STATE_ERRORSTAB"
| "state_eid P_ERRORTOUP = EID_PROVE_STATE_ERRORTOUP"
| "state_eid P_ERRORTODOWN = EID_PROVE_STATE_ERRORTDOWN"
| "state_eid P_ERRORD1 = EID_PROVE_STATE_ERRORD1"
| "state_eid P_ERRORD2 = EID_PROVE_STATE_ERRORD2"
| "state_eid P_ERRORDETECTOR = EID_PROVE_STATE_ERRORDETS"
| "state_eid P_ERRORRETURN = EID_PROVE_STATE_ERRORRETURN"
| "state_eid P_ERRORSTREAMID = EID_PROVE_STATE_ERRORRSTRID"
| "state_eid P_ERRORD1_REVERSE = EID_PROVE_STATE_ERRORD1_RVS"
| "state_eid P_ERRORD2_REVERSE = EID_PROVE_STATE_ERRORD2_RVS"

definition prove_setState :: "PState \<Rightarrow> rProve \<Rightarrow> pact" where
  "prove_setState st s = (s\<lparr>p_state := st, p_inProgress := lreal_of_bool (state_progress st)\<rparr>,
     [POut_event (Ev (state_eid st) [])])"

definition timer_isStarted :: "rProve \<Rightarrow> bool" where
  "timer_isStarted s = tick_isStarted (p_timer s)"

definition timer_finished :: "prove_env \<Rightarrow> rProve \<Rightarrow> bool" where
  "timer_finished e s = tick_isFinished (pe_now e) (p_timer s)"

definition timer_start :: "prove_env \<Rightarrow> UDINT \<Rightarrow> rProve \<Rightarrow> rProve" where
  "timer_start e ms s = s\<lparr>p_timer := tick_start (pe_now e) ms (p_timer s)\<rparr>"

definition timer_stop :: "rProve \<Rightarrow> rProve" where
  "timer_stop s = s\<lparr>p_timer := tick_stop (p_timer s)\<rparr>"

definition clearAverage :: "rProve \<Rightarrow> rProve" where
  "clearAverage s = s\<lparr>fixDet := 0, prvFreq := Fin 0, prvTemp := Fin 0, prvPres := Fin 0,
     prvDens := Fin 0, strTemp := Fin 0, strPres := Fin 0, strDens := Fin 0, strKf := Fin 0,
     p_volume := (volume_clear, volume_clear)\<rparr>"

definition moduleStart :: "rProve \<Rightarrow> pact" where
  "moduleStart s = (s\<lparr>averageCount := moduleCount s\<rparr>, [POut_moduleStart])"

definition moduleStop :: "rProve \<Rightarrow> pact" where
  "moduleStop s = (s, [POut_moduleStop])"

definition connectToLine :: "prove_env \<Rightarrow> rProve \<Rightarrow> bool \<times> prove_out list" where
  "connectToLine e s =
     (if ucast (p_strIdx s) \<ge> pe_streamCount e then (False, [])
      else if has (Value (p_setup s)) PS_NOSELECTSTR then (True, [])
      else (True, [POut_freqOut (p_strIdx s)]))"

text \<open>The result is \<^verbatim>\<open>bool\<close> with the state it leaves.\<close>

definition checkCommand :: "rProve \<Rightarrow> bool \<times> pact" where
  "checkCommand s = (case p_command s of
       PC_START \<Rightarrow> (False, s, [pevent s EID_PROVE_ALREADYSTARTED])
     | PC_ABORT \<Rightarrow> (case prove_setState P_IDLE s of (s1, out) \<Rightarrow>
         (True, s1, pevent s EID_PROVE_COMMANDABORT # out))
     | PC_RESET \<Rightarrow> (False, s, [pevent s EID_PROVE_NOTERROR])
     | _ \<Rightarrow> (False, s, []))"

text \<open>\<open>- 1\<close> is the error answer.\<close>

definition checkDetectors :: "bool \<Rightarrow> rProve \<Rightarrow> int" where
  "checkDetectors first s =
     (let d1 = has (fixDet s) (0x0001 OR 0x0002); d2 = has (fixDet s) (0x0004 OR 0x0008) in
      if has (Value (p_setup s)) PS_ONEDETECTOR then of_bool (d1 \<or> d2)
      else (let (det1, det2) = (if p_way s = WAY_REVERSE then (d2, d1) else (d1, d2)) in
        if first then (if det2 then - 1 else of_bool det1)
        else (if det1 then - 1 else of_bool det2)))"

definition checkStab :: "lreal \<Rightarrow> lreal \<Rightarrow> lreal \<Rightarrow> UDINT \<Rightarrow> rProve \<Rightarrow> bool \<times> pact" where
  "checkStab start present maxstab eid s = (let delta = abs (present - start) in
     if delta > maxstab
     then (case prove_setState P_ERRORSTAB s of (s1, out) \<Rightarrow>
       (True, s1, POut_event (ev_adds (reinitEvent (p_ID s) (p_descr s) eid) [P_LREAL delta, P_LREAL maxstab]) # out))
     else (False, s, []))"

definition detectorsProcessing :: "prove_env \<Rightarrow> rProve \<Rightarrow> rProve" where
  "detectorsProcessing e s =
     (if \<not> tick_isStarted (p_timerBounce s)
      then (if fixDet s AND moduleDet s \<noteq> moduleDet s
            then (let s1 = s\<lparr>fixDet := fixDet s OR moduleDet s, curDet := moduleDet s\<rparr> in
                  if has (Value (p_setup s)) PS_BOUNCE
                  then s1\<lparr>p_timerBounce := tick_start (pe_now e) (tBounce s) (p_timerBounce s)\<rparr>
                  else s1)
            else s)
      else if tick_isFinished (pe_now e) (p_timerBounce s)
      then s\<lparr>p_timerBounce := tick_stop (p_timerBounce s)\<rparr> else s)"

text \<open>One line of \<^verbatim>\<open>calcAverage\<close>: only the second product is divided.\<close>

definition weighted :: "lreal \<Rightarrow> UDINT \<Rightarrow> lreal \<Rightarrow> UDINT \<Rightarrow> UDINT \<Rightarrow> lreal" where
  "weighted v dCount old acount mcount =
     (v * lreal_of_word dCount) + (old * lreal_of_word acount) / lreal_of_word mcount"

definition calcAverage :: "prove_env \<Rightarrow> rProve \<Rightarrow> pact" where
  "calcAverage e s =
     (if \<not> lreal_true (p_inProgress s) then (s, [])
      else (let dCount = moduleCount s - averageCount s in
        case pe_stream e of
          None \<Rightarrow> prove_setState P_ERRORSTREAMID s
        | Some str \<Rightarrow>
            if dCount \<noteq> 0
            then (let w = (\<lambda>v old. weighted v dCount old (averageCount s) (moduleCount s)) in
              (s\<lparr>prvFreq := w (moduleFreq s) (prvFreq s), prvDens := w (pe_dens e) (prvDens s),
                 prvTemp := w (pe_temp e) (prvTemp s), prvPres := w (pe_pres e) (prvPres s),
                 strDens := w (ps_dens str) (strDens s), strTemp := w (ps_temp str) (strTemp s),
                 strPres := w (ps_pres str) (strPres s),
                 strKf := w (ps_kf str) (w (ps_pres str) (strPres s))\<rparr>, []))
            else (s, [])))"

section \<open>Handlers\<close>

text \<open>\<^verbatim>\<open>if (checkCommand()) { return; }\<close> at the head of a handler.\<close>

definition guarded :: "(rProve \<Rightarrow> pact) \<Rightarrow> rProve \<Rightarrow> pact" where
  "guarded f s = (case checkCommand s of (stop, s1, o1) \<Rightarrow>
     if stop then (s1, o1) else (case f s1 of (s2, o2) \<Rightarrow> (s2, o1 @ o2)))"

definition prove_onIdle :: "rProve \<Rightarrow> pact" where
  "prove_onIdle s = (case p_command s of
       PC_START \<Rightarrow> (case prove_setState P_START s of (s1, out) \<Rightarrow> (s1, pevent s EID_PROVE_COMMANDSTART # out))
     | PC_ABORT \<Rightarrow> (s, [pevent s EID_PROVE_NOTSTARTED])
     | PC_RESET \<Rightarrow> (s, [pevent s EID_PROVE_COMMANDRESET])
     | _ \<Rightarrow> (s, []))"

definition prove_onStart :: "prove_env \<Rightarrow> rProve \<Rightarrow> pact" where
  "prove_onStart e = guarded (\<lambda>s.
     if \<not> timer_isStarted s then
       (let s1 = clearAverage s in case connectToLine e s1 of (ok, o1) \<Rightarrow>
         if \<not> ok
         then (case prove_setState P_ERRORSTREAMID s1 of (s2, o2) \<Rightarrow>
           (s2, o1 @ POut_event (ev_add (reinitEvent (p_ID s) (p_descr s) EID_PROVE_BADSTREAMNUMBER) (P_UINT (p_strIdx s))) # o2))
         else ((timer_start e (tStart s1) s1)\<lparr>p_way := WAY_FORWARD\<rparr>, o1))
     else if timer_finished e s then
       (let s1 = timer_stop s in
        if moduleFreq s1 < dround (1 / 1000) then prove_setState P_ERRORFLOW s1
        else if has (Value (p_setup s1)) PS_STABILIZATION then prove_setState P_STABILIZATION s1
        else prove_setState P_RUNBALL s1)
     else (s, []))"

definition prove_waitD1_of :: "rProve \<Rightarrow> PState" where
  "prove_waitD1_of s = (if p_way s = WAY_FORWARD then P_WAITD1 else P_WAITD1_REVERSE)"

definition prove_onRunBall :: "prove_env \<Rightarrow> rProve \<Rightarrow> pact" where
  "prove_onRunBall e = guarded (\<lambda>s.
     if \<not> timer_isStarted s \<and> \<not> has (Value (p_setup s)) PS_NOVALVE then prove_setState P_VALVETOUP s
     else (let s1 = (if \<not> timer_isStarted s then timer_start e (tValve s) s else s) in
       if timer_finished e s1 then prove_setState (prove_waitD1_of s1) (timer_stop s1) else (s1, [])))"

definition prove_onStabilization :: "prove_env \<Rightarrow> rProve \<Rightarrow> pact" where
  "prove_onStabilization e = guarded (\<lambda>s.
     if \<not> timer_isStarted s
     then (timer_start e (tStab s) (s\<lparr>stabTemp := pe_temp e, stabPres := pe_pres e, stabDens := pe_dens e,
             stabFreq := moduleFreq s\<rparr>), [])
     else if timer_finished e s then prove_setState P_RUNBALL (timer_stop s)
     else (case checkStab (stabTemp s) (pe_temp e) (maxStabTemp s) EID_PROVE_ERRORSTABTEMP s of
        (True, r) \<Rightarrow> r | (False, _) \<Rightarrow>
      (case checkStab (stabPres s) (pe_pres e) (maxStabPres s) EID_PROVE_ERRORSTABPRES s of
        (True, r) \<Rightarrow> r | (False, _) \<Rightarrow>
      (case checkStab (stabDens s) (pe_dens e) (maxStabDens s) EID_PROVE_ERRORSTABDENS s of
        (True, r) \<Rightarrow> r | (False, _) \<Rightarrow>
      (case checkStab (stabFreq s) (moduleFreq s) (maxStabFreq s) EID_PROVE_ERRORSTABFREQ s of
        (True, r) \<Rightarrow> r | (False, _) \<Rightarrow> (s, []))))))"

definition valve_up :: "rProve \<Rightarrow> rProve" where
  "valve_up s = (if \<not> isSimulate s then s\<lparr>p_close := Fin 0, p_open := Fin 1\<rparr> else s)"

definition valve_down :: "rProve \<Rightarrow> rProve" where
  "valve_down s = (if \<not> isSimulate s then s\<lparr>p_close := Fin 1, p_open := Fin 0\<rparr> else s)"

definition prove_onValveToUp :: "prove_env \<Rightarrow> rProve \<Rightarrow> pact" where
  "prove_onValveToUp e = guarded (\<lambda>s.
     if isValveOpened e \<or> isSimulate s then prove_setState P_VALVETODOWN s
     else prove_setState P_WAITTOUP (valve_up s))"

definition prove_onWaitToUp :: "prove_env \<Rightarrow> rProve \<Rightarrow> pact" where
  "prove_onWaitToUp e = guarded (\<lambda>s.
     if \<not> timer_isStarted s then (timer_start e (2 * (tD1 s + tD2 s + tVolume s)) s, [])
     else if timer_finished e s
     then (let s1 = timer_stop s in
       if isValveOpened e \<or> isSimulate s1 then prove_setState P_VALVETODOWN s1 else prove_setState P_ERRORTOUP s1)
     else (s, []))"

definition prove_onValveToDown :: "prove_env \<Rightarrow> rProve \<Rightarrow> pact" where
  "prove_onValveToDown e = guarded (\<lambda>s.
     if \<not> timer_isStarted s then (timer_start e (tValve s) (valve_down s), [])
     else if timer_finished e s then prove_setState P_ERRORTODOWN (timer_stop s)
     else if isValveClosed e \<or> isSimulate s then prove_setState (prove_waitD1_of s) (timer_stop s)
     else (s, []))"

definition prove_onWaitD1 :: "prove_env \<Rightarrow> rProve \<Rightarrow> pact" where
  "prove_onWaitD1 e = guarded (\<lambda>s.
     if \<not> timer_isStarted s then moduleStart (timer_start e (tD1 s) s)
     else if timer_finished e s
     then (case moduleStop s of (s1, o1) \<Rightarrow>
       case prove_setState (if p_way s = WAY_FORWARD then P_ERRORD1 else P_ERRORD2_REVERSE) (timer_stop s1) of
         (s2, o2) \<Rightarrow> (s2, o1 @ o2))
     else (let r = checkDetectors True s in
       if r = - 1 then prove_setState P_ERRORDETECTOR (timer_stop s)
       else if r \<noteq> 0
       then prove_setState (if p_way s = WAY_FORWARD then P_WAITD2 else P_WAITD2_REVERSE) (timer_stop s)
       else (s, [])))"

definition prove_onWaitD2 :: "prove_env \<Rightarrow> rProve \<Rightarrow> pact" where
  "prove_onWaitD2 e = guarded (\<lambda>s.
     if \<not> timer_isStarted s then (timer_start e (tVolume s) s, [])
     else if timer_finished e s
     then (case moduleStop s of (s1, o1) \<Rightarrow>
       case prove_setState (if p_way s = WAY_FORWARD then P_ERRORD2 else P_ERRORD1_REVERSE) (timer_stop s1) of
         (s2, o2) \<Rightarrow> (s2, o1 @ o2))
     else (let r = checkDetectors False s in
       if r = - 1 then prove_setState P_ERRORDETECTOR (timer_stop s)
       else if r \<noteq> 0 then prove_setState P_CALCULATE (timer_stop s)
       else (s, [])))"

definition prove_onCalculate :: "prove_env \<Rightarrow> rProve \<Rightarrow> pact" where
  "prove_onCalculate e = guarded (\<lambda>s.
     if \<not> timer_isStarted s then (timer_start e (tD2 s) s, [])
     else if timer_finished e s then prove_setState P_RETURNBALL (timer_stop s) else (s, []))"

definition prove_onReturnBall_NoValve :: "prove_env \<Rightarrow> rProve \<Rightarrow> pact" where
  "prove_onReturnBall_NoValve e s =
     (if \<not> timer_isStarted s then (timer_start e (tValve s) s, [])
      else if timer_finished e s then prove_setState P_WAYCOMPLITED (timer_stop s) else (s, []))"

definition prove_onReturnBall :: "prove_env \<Rightarrow> rProve \<Rightarrow> pact" where
  "prove_onReturnBall e = guarded (\<lambda>s.
     if has (Value (p_setup s)) PS_NOVALVE then prove_onReturnBall_NoValve e s
     else if \<not> timer_isStarted s then (timer_start e (tValve s) (valve_up s), [])
     else if timer_finished e s then prove_setState P_ERRORRETURN (timer_stop s)
     else if isValveOpened e \<or> isSimulate s then prove_setState P_WAYCOMPLITED (timer_stop s)
     else (s, []))"

definition prove_onWayComplited :: "rProve \<Rightarrow> pact" where
  "prove_onWayComplited s =
     (if has (Value (p_setup s)) PS_VALVE_4WAY \<and> p_way s = WAY_FORWARD
      then prove_setState P_RUNBALL (s\<lparr>p_way := WAY_REVERSE\<rparr>)
      else prove_setState P_FINISH s)"

definition prove_onAbort :: "prove_env \<Rightarrow> rProve \<Rightarrow> pact" where
  "prove_onAbort e s =
     (if \<not> timer_isStarted s then (timer_start e (tAbort s) s, [])
      else if timer_finished e s then prove_setState P_IDLE (timer_stop s) else (s, []))"

definition prove_onErrorState :: "rProve \<Rightarrow> pact" where
  "prove_onErrorState s = (case p_command s of
       PC_START \<Rightarrow> (s, [pevent s EID_PROVE_ISERROR])
     | PC_ABORT \<Rightarrow> prove_setState P_IDLE s
     | PC_RESET \<Rightarrow> (s\<lparr>p_state := P_IDLE\<rparr>, [pevent s EID_PROVE_COMMANDRESET])
     | _ \<Rightarrow> (s, []))"

fun prove_dispatch :: "prove_env \<Rightarrow> PState \<Rightarrow> rProve \<Rightarrow> pact" where
  "prove_dispatch e P_IDLE s = prove_onIdle s"
| "prove_dispatch e P_FINISH s = prove_onIdle s"
| "prove_dispatch e P_START s = prove_onStart e s"
| "prove_dispatch e P_RUNBALL s = prove_onRunBall e s"
| "prove_dispatch e P_STABILIZATION s = prove_onStabilization e s"
| "prove_dispatch e P_VALVETOUP s = prove_onValveToUp e s"
| "prove_dispatch e P_WAITTOUP s = prove_onWaitToUp e s"
| "prove_dispatch e P_VALVETODOWN s = prove_onValveToDown e s"
| "prove_dispatch e P_WAITD1 s = prove_onWaitD1 e s"
| "prove_dispatch e P_WAITD2 s = prove_onWaitD2 e s"
| "prove_dispatch e P_CALCULATE s = prove_onCalculate e s"
| "prove_dispatch e P_RETURNBALL s = prove_onReturnBall e s"
| "prove_dispatch e P_ABORT s = prove_onAbort e s"
| "prove_dispatch e P_WAITD1_REVERSE s = prove_onWaitD1 e s"
| "prove_dispatch e P_WAITD2_REVERSE s = prove_onWaitD2 e s"
| "prove_dispatch e P_WAYCOMPLITED s = prove_onWayComplited s"
| "prove_dispatch e _ s = prove_onErrorState s"

text \<open>The head of \<^verbatim>\<open>calculate\<close>: the setup may change in the idle state only.\<close>

definition prove_guard_setup :: "rProve \<Rightarrow> pact" where
  "prove_guard_setup s =
     (if p_state s = P_IDLE
      then (case cmp_Compare P_UINT (reinitEvent (p_ID s) (p_descr s) EID_AI_NEW_SETUP) (p_setup s) of
        (_, su, _, evs) \<Rightarrow> (s\<lparr>p_setup := su\<rparr>, map POut_event evs))
      else if cmp_isDiff (p_setup s)
      then (s\<lparr>p_setup := (p_setup s)\<lparr>Value := Saved (p_setup s)\<rparr>\<rparr>, [pevent s EID_PROVE_CANNOTMODIFYSETUP])
      else (s, []))"

text \<open>Reading the module; \<^const>\<open>Inl\<close> is the early return with its code.\<close>

definition prove_module_event :: "rProve \<Rightarrow> prove_out" where
  "prove_module_event s =
     POut_event (ev_add (reinitEvent (p_ID s) (p_descr s) EID_PROVE_MODULE) (P_USINT (p_module s)))"

definition prove_read_module :: "prove_env \<Rightarrow> rProve \<Rightarrow> (UDINT \<times> pact) + rProve" where
  "prove_read_module e s = (case pe_module e of
       None \<Rightarrow> Inr s
     | Some NoInterface \<Rightarrow> Inl (DATACFGERR_REALTIME_MODULELINK, s,
         [prove_module_event s, POut_halt HALT_RUNTIME DATACFGERR_REALTIME_MODULELINK])
     | Some ModuleFault \<Rightarrow> Inr s
     | Some (Reading freq det cnt fault) \<Rightarrow>
         (let s1 = s\<lparr>moduleFreq := freq, moduleDet := det, moduleCount := cnt\<rparr> in
          if fault \<noteq> TRITONN_RESULT_OK
          then Inl (fault, s1, [prove_module_event s, POut_halt HALT_RUNTIME fault])
          else Inr s1))"

definition prove_badcommand :: "rProve \<Rightarrow> prove_out list" where
  "prove_badcommand s = (case p_command s of
       PC_other c \<Rightarrow> [POut_event (ev_add (reinitEvent (p_ID s) (p_descr s) EID_PROVE_BADCOMMAND) (P_UINT c))]
     | _ \<Rightarrow> [])"

definition prove_calculate :: "prove_env \<Rightarrow> rProve \<Rightarrow> UDINT \<times> pact" where
  "prove_calculate e s =
     (if p_isCalc s then (TRITONN_RESULT_OK, s, [])
      else (case prove_guard_setup (s\<lparr>p_isCalc := True\<rparr>) of (s1, o1) \<Rightarrow>
        case prove_read_module e s1 of
          Inl (code, s2, o2) \<Rightarrow> (code, s2, o1 @ o2)
        | Inr s2 \<Rightarrow> (case calcAverage e (detectorsProcessing e s2) of (s3, o3) \<Rightarrow>
            case prove_dispatch e (p_state s3) s3 of (s4, o4) \<Rightarrow>
              (TRITONN_RESULT_OK, s4\<lparr>p_command := PC_NONE\<rparr>, o1 @ o3 @ prove_badcommand s3 @ o4))))"

definition prove_preCalculate :: "rProve \<Rightarrow> rProve" where
  "prove_preCalculate s = s\<lparr>p_isCalc := False\<rparr>"

section \<open>The operator\<close>

text \<open>The variables of \<^verbatim>\<open>generateVars\<close> that can be written.\<close>

record prove_write =
  pw_command :: UINT
  pw_setup :: UINT
  pw_timers :: "UDINT list"
  pw_stab :: "lreal list"

definition prove_set :: "prove_write \<Rightarrow> rProve \<Rightarrow> rProve" where
  "prove_set w s = s\<lparr>p_command := PCommand_of_code (pw_command w),
     p_setup := (p_setup s)\<lparr>Value := pw_setup w\<rparr>,
     tStart := pw_timers w ! 0, tStab := pw_timers w ! 1, tD1 := pw_timers w ! 2,
     tD2 := pw_timers w ! 3, tVolume := pw_timers w ! 4, tValve := pw_timers w ! 5,
     tBounce := pw_timers w ! 6, tAbort := pw_timers w ! 7, maxStabTemp := pw_stab w ! 0,
     maxStabPres := pw_stab w ! 1, maxStabDens := pw_stab w ! 2, maxStabFreq := pw_stab w ! 3\<rparr>"

definition prove_scan :: "prove_write \<Rightarrow> prove_env \<Rightarrow> rProve \<Rightarrow> UDINT \<times> pact" where
  "prove_scan w e s = prove_calculate e (prove_preCalculate (prove_set w s))"

text \<open>
  States reachable when every setup the operator writes satisfies \<open>ok\<close>.
\<close>

inductive prove_reach :: "(UINT \<Rightarrow> bool) \<Rightarrow> rProve \<Rightarrow> bool" for ok where
  init: "p_state s = P_IDLE \<Longrightarrow> p_inProgress s = Fin 0 \<Longrightarrow> p_way s = WAY_FORWARD \<Longrightarrow>
     ok (Value (p_setup s)) \<Longrightarrow> ok (Saved (p_setup s)) \<Longrightarrow> prove_reach ok s"
| scan: "prove_reach ok s \<Longrightarrow> ok (pw_setup w) \<Longrightarrow> prove_scan w e s = (r, s', out) \<Longrightarrow> prove_reach ok s'"

section \<open>Invariants of the handlers\<close>

lemma fst_setState [simp]:
  "fst (prove_setState st s) = s\<lparr>p_state := st, p_inProgress := lreal_of_bool (state_progress st)\<rparr>"
  by (simp add: prove_setState_def)

lemmas prove_steps = guarded_def checkCommand_def Let_def case_prod_beta timer_start_def
  timer_stop_def clearAverage_def moduleStart_def moduleStop_def checkStab_def valve_up_def
  valve_down_def

lemmas prove_handlers = prove_onIdle_def prove_onStart_def prove_onRunBall_def
  prove_onStabilization_def prove_onValveToUp_def prove_onWaitToUp_def prove_onValveToDown_def
  prove_onWaitD1_def prove_onWaitD2_def prove_onCalculate_def prove_onReturnBall_def
  prove_onReturnBall_NoValve_def prove_onWayComplited_def prove_onAbort_def prove_onErrorState_def

text \<open>
  The output \<^verbatim>\<open>inprogress\<close> mirrors the state, so a handler keeps it when it either leaves both
  alone or goes through \<^verbatim>\<open>setState\<close>.
\<close>

definition prog_ok :: "rProve \<Rightarrow> bool" where
  "prog_ok s \<longleftrightarrow> p_inProgress s = lreal_of_bool (state_progress (p_state s))"

definition prog_step :: "rProve \<Rightarrow> rProve \<Rightarrow> bool" where
  "prog_step s t \<longleftrightarrow> p_state t = p_state s \<and> p_inProgress t = p_inProgress s \<or> prog_ok t"

lemma prog_step_ok: "prog_ok s \<Longrightarrow> prog_step s t \<Longrightarrow> prog_ok t"
  by (auto simp: prog_step_def prog_ok_def)

lemma prog_idle: "prog_step s (fst (prove_onIdle s))"
  by (simp add: prove_onIdle_def prog_step_def prog_ok_def case_prod_beta split: PCommand.split)

lemma prog_guarded:
  assumes "\<And>s. prog_step s (fst (f s))"
  shows "prog_step s (fst (guarded f s))"
  using assms [of s]
  by (cases "p_command s")
    (simp_all add: guarded_def checkCommand_def case_prod_beta prog_step_def prog_ok_def)

lemma prog_start: "prog_step s (fst (prove_onStart e s))"
  unfolding prove_onStart_def
  by (rule prog_guarded) (simp add: prove_steps prog_step_def prog_ok_def)

lemma prog_runball: "prog_step s (fst (prove_onRunBall e s))"
  unfolding prove_onRunBall_def
  by (rule prog_guarded) (simp add: prove_steps prog_step_def prog_ok_def)

lemma prog_stab: "prog_step s (fst (prove_onStabilization e s))"
  unfolding prove_onStabilization_def
  by (rule prog_guarded) (simp add: prove_steps prog_step_def prog_ok_def)

lemma prog_up: "prog_step s (fst (prove_onValveToUp e s))"
  unfolding prove_onValveToUp_def
  by (rule prog_guarded) (simp add: prove_steps prog_step_def prog_ok_def)

lemma prog_waitup: "prog_step s (fst (prove_onWaitToUp e s))"
  unfolding prove_onWaitToUp_def
  by (rule prog_guarded) (simp add: prove_steps prog_step_def prog_ok_def)

lemma prog_down: "prog_step s (fst (prove_onValveToDown e s))"
  unfolding prove_onValveToDown_def
  by (rule prog_guarded) (simp add: prove_steps prog_step_def prog_ok_def)

lemma prog_d1: "prog_step s (fst (prove_onWaitD1 e s))"
  unfolding prove_onWaitD1_def
  by (rule prog_guarded) (simp add: prove_steps prog_step_def prog_ok_def)

lemma prog_d2: "prog_step s (fst (prove_onWaitD2 e s))"
  unfolding prove_onWaitD2_def
  by (rule prog_guarded) (simp add: prove_steps prog_step_def prog_ok_def)

lemma prog_calc: "prog_step s (fst (prove_onCalculate e s))"
  unfolding prove_onCalculate_def
  by (rule prog_guarded) (simp add: prove_steps prog_step_def prog_ok_def)

lemma prog_return: "prog_step s (fst (prove_onReturnBall e s))"
  unfolding prove_onReturnBall_def prove_onReturnBall_NoValve_def
  by (rule prog_guarded) (simp add: prove_steps prog_step_def prog_ok_def)

lemma prog_abort: "prog_step s (fst (prove_onAbort e s))"
  by (simp add: prove_onAbort_def prove_steps prog_step_def prog_ok_def)

lemma prog_way: "prog_step s (fst (prove_onWayComplited s))"
  by (simp add: prove_onWayComplited_def prog_step_def prog_ok_def)

lemma prog_error: "prog_ok s \<Longrightarrow> \<not> state_progress (p_state s) \<Longrightarrow> prog_ok (fst (prove_onErrorState s))"
  by (simp add: prove_onErrorState_def prog_ok_def split: PCommand.split)

lemma prog_dispatch: "prog_ok s \<Longrightarrow> prog_ok (fst (prove_dispatch e (p_state s) s))"
  using prog_step_ok [OF _ prog_idle, of s] prog_step_ok [OF _ prog_start, of s e]
    prog_step_ok [OF _ prog_runball, of s e] prog_step_ok [OF _ prog_stab, of s e]
    prog_step_ok [OF _ prog_up, of s e] prog_step_ok [OF _ prog_waitup, of s e]
    prog_step_ok [OF _ prog_down, of s e] prog_step_ok [OF _ prog_d1, of s e]
    prog_step_ok [OF _ prog_d2, of s e] prog_step_ok [OF _ prog_calc, of s e]
    prog_step_ok [OF _ prog_return, of s e] prog_step_ok [OF _ prog_abort, of s e]
    prog_step_ok [OF _ prog_way, of s] prog_error [of s]
  by (cases "p_state s") simp_all

lemma prog_average: "prog_ok s \<Longrightarrow> prog_ok (fst (calcAverage e s))"
  by (simp add: calcAverage_def prog_ok_def Let_def split: option.split)

lemma prog_detectors: "prog_ok (detectorsProcessing e s) = prog_ok s"
  by (simp add: detectorsProcessing_def prog_ok_def Let_def)

lemma prog_setup: "prog_ok (fst (prove_guard_setup s)) = prog_ok s"
  by (simp add: prove_guard_setup_def prog_ok_def case_prod_beta)

lemma prog_module: "prove_read_module e s = Inr t \<Longrightarrow> prog_ok t = prog_ok s"
  "prove_read_module e s = Inl (r, t, out) \<Longrightarrow> prog_ok t = prog_ok s"
  by (auto simp: prove_read_module_def prog_ok_def Let_def split: option.splits module_reading.splits if_splits)

text \<open>The cycle, as one case split.\<close>

lemma prove_calculate_cases:
  assumes "prove_calculate e s = (r, s', out)"
  obtains "p_isCalc s" "s' = s"
  | o2 where "\<not> p_isCalc s" "prove_read_module e (fst (prove_guard_setup (s\<lparr>p_isCalc := True\<rparr>))) = Inl (r, s', o2)"
  | s2 where "\<not> p_isCalc s" "prove_read_module e (fst (prove_guard_setup (s\<lparr>p_isCalc := True\<rparr>))) = Inr s2"
      "s' = (fst (prove_dispatch e (p_state (fst (calcAverage e (detectorsProcessing e s2))))
               (fst (calcAverage e (detectorsProcessing e s2)))))\<lparr>p_command := PC_NONE\<rparr>"
  using assms by (auto simp: prove_calculate_def case_prod_beta split: if_splits sum.splits)

lemma prog_calculate:
  assumes "prog_ok s" "prove_calculate e s = (r, s', out)"
  shows "prog_ok s'"
proof -
  have s1: "prog_ok (fst (prove_guard_setup (s\<lparr>p_isCalc := True\<rparr>)))"
    using assms(1) by (simp add: prog_setup) (simp add: prog_ok_def)
  show ?thesis
  proof (rule prove_calculate_cases [OF assms(2)])
    assume "s' = s"
    with assms(1) show ?thesis by simp
  next
    fix o2
    assume "prove_read_module e (fst (prove_guard_setup (s\<lparr>p_isCalc := True\<rparr>))) = Inl (r, s', o2)"
    with s1 prog_module(2) show ?thesis by blast
  next
    fix s2
    assume "prove_read_module e (fst (prove_guard_setup (s\<lparr>p_isCalc := True\<rparr>))) = Inr s2"
    with s1 prog_module(1) have "prog_ok s2" by blast
    then have "prog_ok (fst (calcAverage e (detectorsProcessing e s2)))"
      by (simp add: prog_average prog_detectors)
    then have "prog_ok (fst (prove_dispatch e (p_state (fst (calcAverage e (detectorsProcessing e s2))))
               (fst (calcAverage e (detectorsProcessing e s2)))))"
      by (rule prog_dispatch)
    moreover assume "s' = (fst (prove_dispatch e (p_state (fst (calcAverage e (detectorsProcessing e s2))))
               (fst (calcAverage e (detectorsProcessing e s2)))))\<lparr>p_command := PC_NONE\<rparr>"
    ultimately show ?thesis by (simp add: prog_ok_def)
  qed
qed

text \<open>
  The prover's progress output tells the truth. In every reachable state, whatever module,
  lines, timers, commands and settings, the output is one exactly in the eleven states in which
  the ball or the valve may be moving, and zero in all others, every error state included.
\<close>

theorem prove_progress_mirrors_state:
  assumes "prove_reach ok s"
  shows "p_inProgress s = (if state_progress (p_state s) then Fin 1 else Fin 0)"
proof -
  have "prog_ok s"
    using assms
  proof (induction rule: prove_reach.induct)
    case (init s)
    then show ?case by (simp add: prog_ok_def lreal_of_bool_def)
  next
    case (scan s w e r s' out)
    from scan.IH have "prog_ok (prove_preCalculate (prove_set w s))"
      by (simp add: prog_ok_def prove_preCalculate_def prove_set_def)
    from prog_calculate [OF this scan.hyps(3) [unfolded prove_scan_def]] show ?case .
  qed
  then show ?thesis by (simp add: prog_ok_def lreal_of_bool_def)
qed

definition prove_example :: rProve where
  "prove_example = \<lparr>p_ID = 1, p_descr = 2, p_isCalc = False, p_open = Fin 0, p_close = Fin 0,
     p_inProgress = Fin 0, p_command = PC_NONE, p_setup = cmp_new 0, p_strIdx = 0, p_module = 1,
     prvFreq = Fin 0, prvTemp = Fin 0, prvPres = Fin 0, prvDens = Fin 0, strTemp = Fin 0,
     strPres = Fin 0, strDens = Fin 0, strKf = Fin 0, curDet = 0, fixDet = 0, maxStabTemp = Fin 1,
     maxStabPres = Fin 1, maxStabDens = Fin 1, maxStabFreq = Fin 10, tStart = 1000, tStab = 10000,
     tD1 = 8000, tD2 = 8000, tVolume = 20000, tValve = 5000, tAbort = 5000, tBounce = 1000,
     p_state = P_IDLE, p_way = WAY_FORWARD, p_volume = (volume_clear, volume_clear), stabDens = Fin 0,
     stabPres = Fin 0, stabTemp = Fin 0, stabFreq = Fin 0, averageCount = 0, moduleFreq = Fin 0,
     moduleDet = 0, moduleCount = 0, p_timer = tick_new \<lparr>sec = 0, usec = 0\<rparr>,
     p_timerBounce = tick_new \<lparr>sec = 0, usec = 0\<rparr>\<rparr>"

lemma prove_example_reach: "ok 0 \<Longrightarrow> prove_reach ok prove_example"
  by (rule prove_reach.init) (simp_all add: prove_example_def cmp_new_def)

theorem prove_progress_mirrors_state_witness:
  "p_inProgress prove_example = (if state_progress (p_state prove_example) then Fin 1 else Fin 0)"
  by (rule prove_progress_mirrors_state [OF prove_example_reach, of "\<lambda>_. True"]) simp

section \<open>Proving with two detectors\<close>

text \<open>
  The detector flags are latched at the start of a run and never cleared before its end, and the
  wait for the second detector takes the first one's flag for an error.
\<close>

definition first_det :: "rProve \<Rightarrow> bool" where
  "first_det s \<longleftrightarrow> has (fixDet s) (0x0001 OR 0x0002)"

definition done_states :: "PState set" where
  "done_states = {P_CALCULATE, P_RETURNBALL, P_WAYCOMPLITED, P_FINISH, P_WAITD1_REVERSE, P_WAITD2_REVERSE}"

definition two_det :: "rProve \<Rightarrow> bool" where
  "two_det s \<longleftrightarrow> p_way s = WAY_FORWARD \<and> p_state s \<notin> done_states
     \<and> \<not> has (Value (p_setup s)) PS_ONEDETECTOR \<and> \<not> has (Saved (p_setup s)) PS_ONEDETECTOR
     \<and> (p_state s = P_WAITD2 \<longrightarrow> first_det s)"

lemmas two_det_defs = two_det_def done_states_def first_det_def

lemma two_guarded:
  assumes "two_det s" "\<And>s. two_det s \<Longrightarrow> p_state s = st \<Longrightarrow> two_det (fst (f s))" "p_state s = st"
  shows "two_det (fst (guarded f s))"
  using assms(1,3) assms(2) [OF assms(1,3)]
  by (cases "p_command s")
    (simp_all add: guarded_def checkCommand_def case_prod_beta two_det_def done_states_def)

lemma two_idle: "two_det s \<Longrightarrow> p_state s = P_IDLE \<Longrightarrow> two_det (fst (prove_onIdle s))"
  by (simp add: prove_onIdle_def two_det_defs case_prod_beta split: PCommand.split)

lemma two_start: "two_det s \<Longrightarrow> p_state s = P_START \<Longrightarrow> two_det (fst (prove_onStart e s))"
  unfolding prove_onStart_def
  by (rule two_guarded) (auto simp: prove_steps two_det_defs)

lemma waitD1_of_forward: "p_way s = WAY_FORWARD \<Longrightarrow> prove_waitD1_of s = P_WAITD1"
  by (simp add: prove_waitD1_of_def)

lemma two_runball: "two_det s \<Longrightarrow> p_state s = P_RUNBALL \<Longrightarrow> two_det (fst (prove_onRunBall e s))"
  unfolding prove_onRunBall_def
  by (rule two_guarded) (auto simp: prove_steps two_det_defs waitD1_of_forward)

lemma two_stab: "two_det s \<Longrightarrow> p_state s = P_STABILIZATION \<Longrightarrow> two_det (fst (prove_onStabilization e s))"
  unfolding prove_onStabilization_def
  by (rule two_guarded) (auto simp: prove_steps two_det_defs)

lemma two_up: "two_det s \<Longrightarrow> p_state s = P_VALVETOUP \<Longrightarrow> two_det (fst (prove_onValveToUp e s))"
  unfolding prove_onValveToUp_def
  by (rule two_guarded) (auto simp: prove_steps two_det_defs)

lemma two_waitup: "two_det s \<Longrightarrow> p_state s = P_WAITTOUP \<Longrightarrow> two_det (fst (prove_onWaitToUp e s))"
  unfolding prove_onWaitToUp_def
  by (rule two_guarded) (auto simp: prove_steps two_det_defs)

lemma two_down: "two_det s \<Longrightarrow> p_state s = P_VALVETODOWN \<Longrightarrow> two_det (fst (prove_onValveToDown e s))"
  unfolding prove_onValveToDown_def
  by (rule two_guarded) (auto simp: prove_steps two_det_defs waitD1_of_forward)

lemma detectors_first:
  "two_det s \<Longrightarrow> checkDetectors True s \<noteq> - 1 \<Longrightarrow> checkDetectors True s \<noteq> 0 \<Longrightarrow> first_det s"
  by (auto simp: checkDetectors_def two_det_defs Let_def WAY_FORWARD_def WAY_REVERSE_def split: if_splits)

lemma detectors_second: "two_det s \<Longrightarrow> first_det s \<Longrightarrow> checkDetectors False s = - 1"
  by (simp add: checkDetectors_def two_det_defs Let_def WAY_FORWARD_def WAY_REVERSE_def)

lemma two_d1: "two_det s \<Longrightarrow> p_state s = P_WAITD1 \<Longrightarrow> two_det (fst (prove_onWaitD1 e s))"
  unfolding prove_onWaitD1_def
proof (rule two_guarded [where st = P_WAITD1])
  fix s assume s: "two_det s" "p_state s = P_WAITD1"
  show "two_det (fst (if \<not> timer_isStarted s then moduleStart (timer_start e (tD1 s) s)
     else if timer_finished e s
     then (case moduleStop s of (s1, o1) \<Rightarrow>
       case prove_setState (if p_way s = WAY_FORWARD then P_ERRORD1 else P_ERRORD2_REVERSE) (timer_stop s1) of
         (s2, o2) \<Rightarrow> (s2, o1 @ o2))
     else (let r = checkDetectors True s in
       if r = - 1 then prove_setState P_ERRORDETECTOR (timer_stop s)
       else if r \<noteq> 0
       then prove_setState (if p_way s = WAY_FORWARD then P_WAITD2 else P_WAITD2_REVERSE) (timer_stop s)
       else (s, []))))"
    using s detectors_first [OF s(1)] by (auto simp: prove_steps two_det_defs)
qed

lemma two_d2: "two_det s \<Longrightarrow> p_state s = P_WAITD2 \<Longrightarrow> two_det (fst (prove_onWaitD2 e s))"
  unfolding prove_onWaitD2_def
proof (rule two_guarded [where st = P_WAITD2])
  fix s assume s: "two_det s" "p_state s = P_WAITD2"
  then have "checkDetectors False s = - 1"
    using detectors_second [OF s(1)] by (simp add: two_det_def)
  with s show "two_det (fst (if \<not> timer_isStarted s then (timer_start e (tVolume s) s, [])
     else if timer_finished e s
     then (case moduleStop s of (s1, o1) \<Rightarrow>
       case prove_setState (if p_way s = WAY_FORWARD then P_ERRORD2 else P_ERRORD1_REVERSE) (timer_stop s1) of
         (s2, o2) \<Rightarrow> (s2, o1 @ o2))
     else (let r = checkDetectors False s in
       if r = - 1 then prove_setState P_ERRORDETECTOR (timer_stop s)
       else if r \<noteq> 0 then prove_setState P_CALCULATE (timer_stop s)
       else (s, []))))"
    by (auto simp: prove_steps two_det_defs)
qed

lemma two_abort: "two_det s \<Longrightarrow> p_state s = P_ABORT \<Longrightarrow> two_det (fst (prove_onAbort e s))"
  by (auto simp: prove_onAbort_def prove_steps two_det_defs)

lemma two_error: "two_det s \<Longrightarrow> p_state s \<noteq> P_WAITD2 \<Longrightarrow> two_det (fst (prove_onErrorState s))"
  by (simp add: prove_onErrorState_def two_det_defs split: PCommand.split)

lemma two_dispatch: "two_det s \<Longrightarrow> two_det (fst (prove_dispatch e (p_state s) s))"
  using two_idle [of s] two_start [of s e] two_runball [of s e] two_stab [of s e] two_up [of s e]
    two_waitup [of s e] two_down [of s e] two_d1 [of s e] two_d2 [of s e] two_abort [of s e]
    two_error [of s]
  by (cases "p_state s") (simp_all, auto simp: two_det_def done_states_def)

lemma two_average: "two_det s \<Longrightarrow> two_det (fst (calcAverage e s))"
  by (auto simp: calcAverage_def two_det_defs Let_def split: option.split)

lemma two_detectors: "two_det s \<Longrightarrow> two_det (detectorsProcessing e s)"
  by (auto simp: detectorsProcessing_def two_det_defs Let_def has_or)

lemma two_setup: "two_det s \<Longrightarrow> two_det (fst (prove_guard_setup s))"
  by (auto simp: prove_guard_setup_def two_det_defs case_prod_beta cmp_UINT.compare_value
      cmp_Compare_def cmp_report_def Let_def)

lemma two_module: "prove_read_module e s = Inr t \<Longrightarrow> two_det s \<Longrightarrow> two_det t"
  "prove_read_module e s = Inl (r, t, out) \<Longrightarrow> two_det s \<Longrightarrow> two_det t"
  by (auto simp: prove_read_module_def two_det_defs Let_def split: option.splits module_reading.splits if_splits)

lemma two_calculate:
  assumes "two_det s" "prove_calculate e s = (r, s', out)"
  shows "two_det s'"
proof -
  have "two_det (s\<lparr>p_isCalc := True\<rparr>)" using assms(1) by (simp add: two_det_defs)
  then have s1: "two_det (fst (prove_guard_setup (s\<lparr>p_isCalc := True\<rparr>)))" by (rule two_setup)
  show ?thesis
  proof (rule prove_calculate_cases [OF assms(2)])
    assume "s' = s"
    with assms(1) show ?thesis by simp
  next
    fix o2
    assume "prove_read_module e (fst (prove_guard_setup (s\<lparr>p_isCalc := True\<rparr>))) = Inl (r, s', o2)"
    with s1 two_module(2) show ?thesis by blast
  next
    fix s2
    assume "prove_read_module e (fst (prove_guard_setup (s\<lparr>p_isCalc := True\<rparr>))) = Inr s2"
    with s1 two_module(1) have "two_det s2" by blast
    then have "two_det (fst (calcAverage e (detectorsProcessing e s2)))"
      by (intro two_average two_detectors)
    from two_dispatch [OF this]
    have "two_det (fst (prove_dispatch e (p_state (fst (calcAverage e (detectorsProcessing e s2))))
               (fst (calcAverage e (detectorsProcessing e s2)))))" .
    moreover assume "s' = (fst (prove_dispatch e (p_state (fst (calcAverage e (detectorsProcessing e s2))))
               (fst (calcAverage e (detectorsProcessing e s2)))))\<lparr>p_command := PC_NONE\<rparr>"
    ultimately show ?thesis by (simp add: two_det_defs)
  qed
qed

lemma two_reach:
  "prove_reach (\<lambda>su. \<not> has su PS_ONEDETECTOR) s \<Longrightarrow> two_det s"
proof (induction rule: prove_reach.induct)
  case (init s)
  then show ?case by (simp add: two_det_defs)
next
  case (scan s w e r s' out)
  from scan.IH scan.hyps(2) have "two_det (prove_preCalculate (prove_set w s))"
    by (simp add: two_det_defs prove_preCalculate_def prove_set_def)
  from two_calculate [OF this scan.hyps(3) [unfolded prove_scan_def]] show ?case .
qed

text \<open>
  C29. A proving run with two detectors cannot complete. As long as the operator never selects the
  one-detector setup, no reachable state calculates, returns the ball, finishes or runs backwards,
  whatever the detectors, clocks, valves and commands do; and a cycle that waits for the second
  detector, its timer running, ends in the detector error or in the timeout error.
\<close>

theorem prove_two_detectors_never_complete:
  assumes "prove_reach (\<lambda>su. \<not> has su PS_ONEDETECTOR) s"
  shows "p_state s \<notin> {P_CALCULATE, P_RETURNBALL, P_WAYCOMPLITED, P_FINISH, P_WAITD1_REVERSE, P_WAITD2_REVERSE}
    \<and> (p_state s = P_WAITD2 \<and> p_command s = PC_NONE \<and> timer_isStarted s \<longrightarrow>
        p_state (fst (prove_onWaitD2 e s)) \<in> {P_ERRORDETECTOR, P_ERRORD2})"
proof
  have td: "two_det s" by (rule two_reach [OF assms])
  then show "p_state s \<notin> {P_CALCULATE, P_RETURNBALL, P_WAYCOMPLITED, P_FINISH, P_WAITD1_REVERSE, P_WAITD2_REVERSE}"
    by (simp add: two_det_def done_states_def)
  show "p_state s = P_WAITD2 \<and> p_command s = PC_NONE \<and> timer_isStarted s \<longrightarrow>
        p_state (fst (prove_onWaitD2 e s)) \<in> {P_ERRORDETECTOR, P_ERRORD2}"
    using td detectors_second [OF td]
    by (auto simp: prove_onWaitD2_def prove_steps two_det_def)
qed

theorem prove_two_detectors_never_complete_witness:
  "p_state prove_example \<noteq> P_FINISH"
  using prove_two_detectors_never_complete [OF prove_example_reach] by simp

section \<open>Abort\<close>

text \<open>
  An aborted run leaves its timer running. From any state that watches the command, an abort
  goes to the idle state without touching the timer or the averages; and when the timer was
  running, the first cycle of the next run sees a started timer and so skips clearing the averages
  and detectors and selecting the line, whatever the line number is.
\<close>

theorem prove_abort_keeps_timer:
  assumes "p_command s = PC_ABORT"
    and "p_state s \<in> {P_START, P_RUNBALL, P_STABILIZATION, P_VALVETOUP, P_WAITTOUP, P_VALVETODOWN,
      P_WAITD1, P_WAITD2, P_CALCULATE, P_RETURNBALL, P_WAITD1_REVERSE, P_WAITD2_REVERSE}"
    and "prove_dispatch e (p_state s) s = (t, out)"
  shows "p_state t = P_IDLE \<and> p_timer t = p_timer s \<and> fixDet t = fixDet s
    \<and> (timer_isStarted s \<and> \<not> timer_finished e' (t\<lparr>p_command := PC_NONE\<rparr>) \<longrightarrow>
        prove_onStart e' (t\<lparr>p_state := P_START, p_command := PC_NONE\<rparr>)
          = (t\<lparr>p_state := P_START, p_command := PC_NONE\<rparr>, []))"
proof -
  have g: "guarded f s = (s\<lparr>p_state := P_IDLE, p_inProgress := Fin 0\<rparr>,
      [pevent s EID_PROVE_COMMANDABORT, POut_event (Ev EID_PROVE_STATE_IDLE [])])" for f
    using assms(1) by (simp add: guarded_def checkCommand_def prove_setState_def lreal_of_bool_def)
  have "prove_dispatch e (p_state s) s = (s\<lparr>p_state := P_IDLE, p_inProgress := Fin 0\<rparr>,
      [pevent s EID_PROVE_COMMANDABORT, POut_event (Ev EID_PROVE_STATE_IDLE [])])"
    using assms(2)
    by (auto simp: prove_onStart_def prove_onRunBall_def prove_onStabilization_def prove_onValveToUp_def
        prove_onWaitToUp_def prove_onValveToDown_def prove_onWaitD1_def prove_onWaitD2_def
        prove_onCalculate_def prove_onReturnBall_def g)
  with assms(3) have t: "t = s\<lparr>p_state := P_IDLE, p_inProgress := Fin 0\<rparr>" by simp
  show ?thesis
    by (simp add: t prove_onStart_def guarded_def checkCommand_def timer_isStarted_def timer_finished_def)
qed

definition prove_env_example :: prove_env where
  "prove_env_example = \<lparr>pe_now = \<lparr>sec = 10, usec = 0\<rparr>, pe_module = None, pe_temp = Fin 20, pe_pres = Fin 1,
     pe_dens = Fin 800, pe_opened = Fin 0, pe_closed = Fin 0, pe_streamCount = 1, pe_stream = None\<rparr>"

theorem prove_abort_keeps_timer_witness:
  "\<exists>t out. prove_dispatch prove_env_example P_WAITD1 (prove_example\<lparr>p_state := P_WAITD1, p_command := PC_ABORT\<rparr>) = (t, out)
     \<and> p_state t = P_IDLE \<and> p_timer t = p_timer prove_example"
proof -
  obtain t out where r: "prove_dispatch prove_env_example P_WAITD1 (prove_example\<lparr>p_state := P_WAITD1, p_command := PC_ABORT\<rparr>) = (t, out)"
    by (metis surj_pair)
  with prove_abort_keeps_timer [of "prove_example\<lparr>p_state := P_WAITD1, p_command := PC_ABORT\<rparr>" prove_env_example t out]
  show ?thesis by simp
qed

end
