(* ===== verification/Modbus.thy ===== *)
theory Modbus
  imports Container Types
begin

text \<open>
  The Modbus TCP slave: \<^verbatim>\<open>src/tritonn/interface/modbustcpslave_client.cpp\<close> assembles frames
  from the stream, \<^verbatim>\<open>modbustcpslave_manager.cpp\<close> answers them from a table of 65536 registers
  and hands writes to the variables linked to an address. Memory is bytes in the host's little
  endian order; an access outside the buffer the code works on, and a loop that does not end, are
  traps.
\<close>

section \<open>State\<close>

record rModbusSwap =
  sw_Byte :: USINT
  sw_Word :: USINT
  sw_DWord :: USINT

record rModbusLink =
  ml_name :: string
  ml_type :: TYPEID
  ml_address :: UINT
  ml_convert :: TYPEID

record mb_slave =
  mb_Modbus :: bytes
  mb_swap :: rModbusSwap
  mb_links :: "rModbusLink list"
  mb_SlaveID :: USINT

definition MODBUS_SIZE :: nat where "MODBUS_SIZE = 131072"
definition MODBUS_ERROR_FUNC :: USINT where "MODBUS_ERROR_FUNC = 1"
definition MODBUS_ERROR_DATA :: USINT where "MODBUS_ERROR_DATA = 3"

text \<open>The client: six header bytes, how many of them arrived, the body buffer and its fill.\<close>

record mb_client =
  cl_Header :: bytes
  cl_HeaderRead :: nat
  cl_Buff :: bytes
  cl_Size :: nat

datatype mb_out = MB_send bytes | MB_set string bytes

section \<open>Memory\<close>

definition mem_read :: "nat \<Rightarrow> nat \<Rightarrow> bytes \<Rightarrow> trap + bytes" where
  "mem_read off n m = (if off + n \<le> length m then Inr (take n (drop off m)) else Inl Out_of_bounds)"

definition mem_write :: "nat \<Rightarrow> bytes \<Rightarrow> bytes \<Rightarrow> trap + bytes" where
  "mem_write off bs m = (if off + length bs \<le> length m
     then Inr (take off m @ bs @ drop (off + length bs) m) else Inl Out_of_bounds)"

text \<open>Exchange of two adjacent items of \<open>w\<close> bytes.\<close>

definition mem_swap :: "nat \<Rightarrow> nat \<Rightarrow> bytes \<Rightarrow> trap + bytes" where
  "mem_swap w off m = (if off + 2 * w \<le> length m
     then Inr (take off m @ take w (drop (off + w) m) @ take w (drop off m) @ drop (off + 2 * w) m)
     else Inl Out_of_bounds)"

text \<open>
  The two loops of \<^verbatim>\<open>SwapBuffer\<close>: \<open>ii\<close> runs over the even numbers below \<open>size - 2\<close> and indexes
  items of \<open>w\<close> bytes, in the word loop as in the byte loop.
\<close>

fun swap_loop :: "nat \<Rightarrow> nat \<Rightarrow> nat list \<Rightarrow> bytes \<Rightarrow> trap + bytes" where
  "swap_loop w off [] m = Inr m"
| "swap_loop w off (ii # is) m = (case mem_swap w (off + ii * w) m of
     Inl t \<Rightarrow> Inl t | Inr m' \<Rightarrow> swap_loop w off is m')"

definition swap_indices :: "nat \<Rightarrow> nat list" where
  "swap_indices sz = filter even [0..<sz - 2]"

definition SwapBuffer :: "rModbusSwap \<Rightarrow> nat \<Rightarrow> nat \<Rightarrow> bytes \<Rightarrow> trap + bytes" where
  "SwapBuffer sw off sz m =
     (case (if sw_DWord sw \<noteq> 0 \<and> sz mod 8 = 0 \<and> sz \<ge> 8 then mem_swap 4 off m else Inr m) of
        Inl t \<Rightarrow> Inl t
      | Inr m1 \<Rightarrow>
      (case (if sw_Word sw \<noteq> 0 \<and> sz mod 4 = 0 \<and> sz \<ge> 4 then swap_loop 2 off (swap_indices sz) m1 else Inr m1) of
        Inl t \<Rightarrow> Inl t
      | Inr m2 \<Rightarrow>
      (if sw_Byte sw \<noteq> 0 \<and> sz mod 2 = 0 \<and> sz \<ge> 2 then swap_loop 1 off (swap_indices sz) m2 else Inr m2)))"

section \<open>The client\<close>

definition SwapUINT :: "UINT \<Rightarrow> UINT" where
  "SwapUINT v = ucast (drop_bit 8 v) OR push_bit 8 (v AND 0xFF)"

definition hdr_Length :: "bytes \<Rightarrow> nat" where
  "hdr_Length h = unat (le_word (drop 4 h) :: UINT)"

text \<open>\<^verbatim>\<open>SwapUINTPtr(&Header.Length, 2)\<close>.\<close>

definition hdr_swap :: "bytes \<Rightarrow> bytes" where
  "hdr_swap h = take 4 h @ [h ! 5, h ! 4]"

definition mb_client_new :: "bytes \<Rightarrow> mb_client" where
  "mb_client_new garbage = \<lparr>cl_Header = garbage, cl_HeaderRead = 0, cl_Buff = [], cl_Size = 0\<rparr>"

definition mb_complete :: "mb_client \<Rightarrow> bool" where
  "mb_complete c \<longleftrightarrow> cl_HeaderRead c \<ge> 6 \<and> cl_Size c = hdr_Length (cl_Header c)"

text \<open>
  \<^verbatim>\<open>Recv\<close>; \<open>fresh n\<close> is what \<^verbatim>\<open>new USINT[n]\<close> returns. The result is whether the frame is complete.
\<close>

definition mb_recv_header :: "(nat \<Rightarrow> bytes) \<Rightarrow> bytes \<Rightarrow> mb_client \<Rightarrow> trap + (bytes \<times> mb_client)" where
  "mb_recv_header fresh rd c =
     (let need = (if length rd \<le> 6 then length rd else 6 - cl_HeaderRead c) in
      case mem_write (cl_HeaderRead c) (take need rd) (cl_Header c) of
        Inl t \<Rightarrow> Inl t
      | Inr h \<Rightarrow> (let h' = hdr_swap h in
          Inr (drop need rd, c\<lparr>cl_Header := h', cl_HeaderRead := cl_HeaderRead c + need,
             cl_Buff := fresh (hdr_Length h'), cl_Size := 0\<rparr>)))"

definition mb_recv_body :: "bytes \<Rightarrow> mb_client \<Rightarrow> trap + mb_client" where
  "mb_recv_body rd c =
     (if cl_HeaderRead c \<ge> 6 \<and> rd \<noteq> []
      then (let readlen = (if length rd \<ge> hdr_Length (cl_Header c) - cl_Size c
                           then hdr_Length (cl_Header c) - cl_Size c else length rd) in
        case mem_write (cl_Size c) (take readlen rd) (cl_Buff c) of
          Inl t \<Rightarrow> Inl t
        | Inr b \<Rightarrow> Inr (c\<lparr>cl_Buff := b, cl_Size := cl_Size c + readlen\<rparr>))
      else Inr c)"

definition mb_recv :: "(nat \<Rightarrow> bytes) \<Rightarrow> bytes \<Rightarrow> mb_client \<Rightarrow> trap + (bool \<times> mb_client)" where
  "mb_recv fresh rd c0 =
     (let c = (if mb_complete c0 then c0\<lparr>cl_HeaderRead := 0, cl_Size := 0, cl_Buff := []\<rparr> else c0) in
      case (if cl_HeaderRead c < 6 then mb_recv_header fresh rd c else Inr (rd, c)) of
        Inl t \<Rightarrow> Inl t
      | Inr (rest, c1) \<Rightarrow> (case mb_recv_body rest c1 of
          Inl t \<Rightarrow> Inl t
        | Inr c2 \<Rightarrow> Inr (mb_complete c2, c2)))"

definition mb_send :: "mb_client \<Rightarrow> bytes \<Rightarrow> mb_out" where
  "mb_send c packet = MB_send (take 4 (cl_Header c) @ le_bytes 2 (SwapUINT (of_nat (length packet))) @ packet)"

section \<open>The functions\<close>

definition FindSnapshotItem :: "mb_slave \<Rightarrow> UINT \<Rightarrow> rModbusLink option" where
  "FindSnapshotItem s a = find (\<lambda>l. ml_address l = a) (mb_links s)"

fun TypeCountReg :: "TYPEID \<Rightarrow> UDINT" where
  "TypeCountReg T_SINT = 1"
| "TypeCountReg T_USINT = 1"
| "TypeCountReg T_INT = 1"
| "TypeCountReg T_UINT = 1"
| "TypeCountReg T_DINT = 2"
| "TypeCountReg T_UDINT = 2"
| "TypeCountReg T_REAL = 2"
| "TypeCountReg T_LREAL = 4"
| "TypeCountReg T_STRID = 2"
| "TypeCountReg _ = 0xFFFF"

definition Func_Error :: "mb_client \<Rightarrow> USINT \<Rightarrow> trap + mb_out list" where
  "Func_Error c err = (if length (cl_Buff c) < 2 then Inl Out_of_bounds
     else Inr [mb_send c [cl_Buff c ! 0, cl_Buff c ! 1 OR 0x80, err]])"

text \<open>The big-endian field at \<open>i\<close> of the request.\<close>

definition req_field :: "mb_client \<Rightarrow> nat \<Rightarrow> UINT" where
  "req_field c i = ucast (cl_Buff c ! (i + 1)) + push_bit 8 (ucast (cl_Buff c ! i))"

definition Func_0x03 :: "mb_slave \<Rightarrow> mb_client \<Rightarrow> trap + mb_out list" where
  "Func_0x03 s c =
     (if length (cl_Buff c) < 6 then Inl Out_of_bounds
      else (let adr = req_field c 2; count = (ucast (req_field c 4) :: USINT); sz = 3 + count * 2 in
        if count > 121 then Func_Error c MODBUS_ERROR_DATA
        else (case mem_read (2 * unat adr) (2 * unat count) (mb_Modbus s) of
            Inl t \<Rightarrow> Inl t
          | Inr d \<Rightarrow>
            (let answe = [cl_Buff c ! 0, cl_Buff c ! 1, sz] @ d @ replicate (253 - 2 * unat count) 0 in
             case SwapBuffer (mb_swap s) 3 (2 * unat count) answe of
               Inl t \<Rightarrow> Inl t
             | Inr a \<Rightarrow> Inr [mb_send c (take (unat sz) a)]))))"

definition Func_0x06 :: "mb_slave \<Rightarrow> mb_client \<Rightarrow> trap + (mb_slave \<times> mb_out list)" where
  "Func_0x06 s c =
     (if length (cl_Buff c) < 6 then Inl Out_of_bounds
      else (let adr = req_field c 2; val = req_field c 4; answe = take 6 (cl_Buff c) in
        case FindSnapshotItem s adr of
          None \<Rightarrow> (case mem_write (2 * unat adr) (le_bytes 2 val) (mb_Modbus s) of
              Inl t \<Rightarrow> Inl t
            | Inr m \<Rightarrow> Inr (s\<lparr>mb_Modbus := m\<rparr>, [mb_send c answe]))
        | Some ss \<Rightarrow>
            if TypeCountReg (ml_type ss) = 1
            then (case SwapBuffer (mb_swap s) 0 2 (le_bytes 2 val) of
                Inl t \<Rightarrow> Inl t
              | Inr v \<Rightarrow> Inr (s, [MB_set (ml_name ss) v, mb_send c answe]))
            else Inr (s, [mb_send c answe])))"

text \<open>
  The loop of \<^verbatim>\<open>Func_0x10\<close> with fuel: the two \<^verbatim>\<open>continue\<close> statements go round without
  advancing \<open>ii\<close>. \<^const>\<open>None\<close> is out of fuel; the inner sum is a trap or the state behind the
  loop: registers, request buffer and collected writes.
\<close>

fun func10_loop :: "nat \<Rightarrow> mb_slave \<Rightarrow> UINT \<Rightarrow> UINT \<Rightarrow> UDINT \<Rightarrow> bytes \<Rightarrow> mb_out list
    \<Rightarrow> (trap + (mb_slave \<times> bytes \<times> mb_out list)) option" where
  "func10_loop 0 s adr count ii buf acc = None"
| "func10_loop (Suc fuel) s adr count ii buf acc =
     (if ii < ucast count then
        (case FindSnapshotItem s (adr + ucast ii) of
           None \<Rightarrow>
             (case mem_read (7 + 2 * unat ii) 2 buf of
                Inl t \<Rightarrow> Some (Inl t)
              | Inr v \<Rightarrow> (case mem_write (2 * (unat adr + unat ii)) v (mb_Modbus s) of
                  Inl t \<Rightarrow> Some (Inl t)
                | Inr m \<Rightarrow> func10_loop fuel (s\<lparr>mb_Modbus := m\<rparr>) adr count ii buf acc))
         | Some ss \<Rightarrow>
             (let countregs = TypeCountReg (ml_type ss) in
              if countregs + ii \<ge> ucast count then func10_loop fuel s adr count ii buf acc
              else (case SwapBuffer (mb_swap s) (7 + 2 * unat ii) (2 * unat countregs) buf of
                  Inl t \<Rightarrow> Some (Inl t)
                | Inr buf' \<Rightarrow>
                    (case mem_read (7 + 2 * unat ii) (unat (getTypeSize (ml_type ss))) buf' of
                      Inl t \<Rightarrow> Some (Inl t)
                    | Inr v \<Rightarrow>
                        func10_loop fuel s adr count (ii + countregs) buf' (acc @ [MB_set (ml_name ss) v])))))
      else Some (Inr (s, buf, acc)))"

definition Func_0x10 :: "nat \<Rightarrow> mb_slave \<Rightarrow> mb_client \<Rightarrow> (trap + (mb_slave \<times> mb_out list)) option" where
  "Func_0x10 fuel s c =
     (if length (cl_Buff c) < 7 then Some (Inl Out_of_bounds)
      else (let adr = req_field c 2; count = req_field c 4; bytes = cl_Buff c ! 6 in
        if unat count * 2 \<noteq> unat bytes
        then (case Func_Error c MODBUS_ERROR_DATA of
            Inl t \<Rightarrow> Some (Inl t) | Inr out \<Rightarrow> Some (Inr (s, out)))
        else (case func10_loop fuel s adr count 0 (cl_Buff c) [] of
            None \<Rightarrow> None
          | Some (Inl t) \<Rightarrow> Some (Inl t)
          | Some (Inr (s', buf, acc)) \<Rightarrow>
              Some (Inr (s', acc @ [mb_send c (take 4 buf @ [bytes, 0])])))))"

definition mb_dispatch :: "nat \<Rightarrow> mb_slave \<Rightarrow> mb_client \<Rightarrow> (trap + (mb_slave \<times> mb_out list)) option" where
  "mb_dispatch fuel s c =
     (if length (cl_Buff c) < 2 then Some (Inl Out_of_bounds)
      else if cl_Buff c ! 0 = mb_SlaveID s \<or> mb_SlaveID s = 0
      then (if cl_Buff c ! 1 = 0x03 then (case Func_0x03 s c of Inl t \<Rightarrow> Some (Inl t) | Inr o1 \<Rightarrow> Some (Inr (s, o1)))
            else if cl_Buff c ! 1 = 0x06 then Some (Func_0x06 s c)
            else if cl_Buff c ! 1 = 0x10 then Func_0x10 fuel s c
            else (case Func_Error c MODBUS_ERROR_FUNC of Inl t \<Rightarrow> Some (Inl t) | Inr o1 \<Rightarrow> Some (Inr (s, o1))))
      else Some (Inr (s, [])))"

text \<open>
  \<^verbatim>\<open>ClientRecv\<close>: a chunk may hold several frames. The length the loop skips is that of the whole
  frame, also when its first part came with an earlier chunk.
\<close>

fun mb_clientRecv :: "nat \<Rightarrow> (nat \<Rightarrow> bytes) \<Rightarrow> bytes \<Rightarrow> mb_slave \<Rightarrow> mb_client
    \<Rightarrow> (trap + (mb_slave \<times> mb_client \<times> mb_out list)) option" where
  "mb_clientRecv 0 fresh rd s c = None"
| "mb_clientRecv (Suc fuel) fresh rd s c = (case mb_recv fresh rd c of
       Inl t \<Rightarrow> Some (Inl t)
     | Inr (False, c1) \<Rightarrow> Some (Inr (s, c1, []))
     | Inr (True, c1) \<Rightarrow> (case mb_dispatch fuel s c1 of
         None \<Rightarrow> None
       | Some (Inl t) \<Rightarrow> Some (Inl t)
       | Some (Inr (s1, out1)) \<Rightarrow>
           (let packet_len = cl_Size c1 + cl_HeaderRead c1 in
            if packet_len < length rd
            then (case mb_clientRecv fuel fresh (drop packet_len rd) s1 c1 of
                None \<Rightarrow> None
              | Some (Inl t) \<Rightarrow> Some (Inl t)
              | Some (Inr (s2, c2, out2)) \<Rightarrow> Some (Inr (s2, c2, out1 @ out2)))
            else Some (Inr (s1, c1, out1)))))"

text \<open>
  One link of \<^verbatim>\<open>Proccesing\<close>: \<open>val\<close> is the value as the snapshot delivers it, in the type of the
  conversion or, without one, of the variable.
\<close>

definition mb_refresh :: "rModbusLink \<Rightarrow> bytes \<Rightarrow> mb_slave \<Rightarrow> trap + mb_slave" where
  "mb_refresh l val s =
     (case mem_write (2 * unat (ml_address l)) [0, 0] (mb_Modbus s) of
        Inl t \<Rightarrow> Inl t
      | Inr m0 \<Rightarrow> (case mem_write (2 * unat (ml_address l)) val m0 of
          Inl t \<Rightarrow> Inl t
        | Inr m1 \<Rightarrow> (case SwapBuffer (mb_swap s) (2 * unat (ml_address l)) (length val) m1 of
            Inl t \<Rightarrow> Inl t
          | Inr m2 \<Rightarrow> Inr (s\<lparr>mb_Modbus := m2\<rparr>))))"

section \<open>The address map\<close>

text \<open>
  A line of the map: an optional variable (name and its type, \<^const>\<open>None\<close> inside when it does not
  exist) or white space, the address of the block for its first line (0 otherwise), and the type.
\<close>

record rTempLink =
  tl_var :: "(string \<times> TYPEID option) option"
  tl_Address :: UDINT
  tl_type :: TYPEID

datatype map_error = DATACFGERR_INTERFACES_NF_VAR | DATACFGERR_INTERFACES_ADDR_OVERFLOW

fun checkVars_loop :: "rTempLink list \<Rightarrow> UDINT \<Rightarrow> rModbusLink list \<Rightarrow> map_error + rModbusLink list" where
  "checkVars_loop [] address links = Inr links"
| "checkVars_loop (x # xs) address links = (case tl_var x of
       Some (name, None) \<Rightarrow> Inl DATACFGERR_INTERFACES_NF_VAR
     | Some (name, Some ty) \<Rightarrow>
         (let a = (if tl_Address x \<noteq> 0 then tl_Address x else address);
              links' = links @ [\<lparr>ml_name = name, ml_type = ty, ml_address = ucast a, ml_convert = tl_type x\<rparr>];
              a' = a + TypeCountReg ty
          in if a' > 0x0000FFFF then Inl DATACFGERR_INTERFACES_ADDR_OVERFLOW else checkVars_loop xs a' links')
     | None \<Rightarrow>
         (let a' = address + TypeCountReg (tl_type x)
          in if a' > 0x0000FFFF then Inl DATACFGERR_INTERFACES_ADDR_OVERFLOW else checkVars_loop xs a' links))"

text \<open>The address of a block in the configuration, 400000 to 465535.\<close>

definition block_address :: "UDINT \<Rightarrow> UDINT option" where
  "block_address a = (if a < 400000 \<or> a > 465535 then None else Some (a - 400000))"

section \<open>Lemmas\<close>

lemma length_le2 [simp]: "length (le_bytes 2 v) = 2"
  by (simp add: le_bytes_def)

lemma ucast_up_eq_0: "(ucast (v :: UINT) :: UDINT) = 0 \<longleftrightarrow> v = 0"
proof -
  have "unat v < 2 ^ LENGTH(16)" by (rule unsigned_less)
  then show ?thesis by (simp add: unat_eq_zero [symmetric] unsigned_ucast_eq take_bit_nat_eq_self)
qed

lemma func10_no_exit:
  "ii < ucast count \<Longrightarrow> func10_loop fuel s adr count ii buf acc \<noteq> Some (Inr r)"
proof (induction fuel arbitrary: s ii buf acc)
  case (Suc fuel)
  show ?case
  proof (cases "FindSnapshotItem s (adr + ucast ii)")
    case None
    then show ?thesis
      using Suc by (simp split: sum.split)
  next
    case (Some ss)
    then show ?thesis
      using Suc by (simp add: Let_def not_le add.commute split: sum.split)
  qed
qed simp

lemma swap_loop_append:
  "swap_loop w off (is @ js) m = (case swap_loop w off is m of Inl t \<Rightarrow> Inl t | Inr m' \<Rightarrow> swap_loop w off js m')"
  by (induction "is" arbitrary: m) (auto split: sum.splits)

lemma swap_indices_even: "swap_indices (2 * Suc n) = map ((*) 2) [0..<n]"
proof -
  have "filter even [0..<2 * n] = map ((*) 2) [0..<n]" for n :: nat
    by (induction n) simp_all
  then show ?thesis by (simp add: swap_indices_def)
qed

text \<open>The bytes of \<open>m\<close> from \<open>off\<close>, the first \<open>n\<close> pairs exchanged.\<close>

definition pairs_swapped :: "nat \<Rightarrow> bytes \<Rightarrow> bytes" where
  "pairs_swapped n d = concat (map (\<lambda>k. [d ! (2 * k + 1), d ! (2 * k)]) [0..<n]) @ drop (2 * n) d"

lemma length_pairs_prefix: "length (concat (map (\<lambda>k. [d ! Suc (2 * k), d ! (2 * k)]) [0..<n])) = 2 * n"
  by (induction n) simp_all

lemma drop_two_Cons:
  assumes "k + 2 \<le> length d" shows "drop k d = d ! k # d ! (k + 1) # drop (k + 2) d"
  using assms Cons_nth_drop_Suc [of k d] Cons_nth_drop_Suc [of "Suc k" d] by simp

lemma mem_swap_mid: "length c = off \<Longrightarrow> mem_swap 1 off (c @ x # y # r) = Inr (c @ y # x # r)"
  by (auto simp: mem_swap_def)

lemma swap_byte_pairs:
  assumes "2 * n \<le> length d"
  shows "swap_loop 1 (length p) (map ((*) 2) [0..<n]) (p @ d) = Inr (p @ pairs_swapped n d)"
  using assms
proof (induction n)
  case (Suc n)
  have d: "drop (2 * n) d = d ! (2 * n) # d ! (2 * n + 1) # drop (2 * n + 2) d"
    using Suc.prems by (intro drop_two_Cons) simp
  have "swap_loop 1 (length p) (map ((*) 2) [0..<Suc n]) (p @ d)
      = mem_swap 1 (length p + 2 * n) (p @ pairs_swapped n d)"
    using Suc by (simp add: swap_loop_append split: sum.split)
  also have "\<dots> = Inr (p @ pairs_swapped (Suc n) d)"
    using mem_swap_mid [of "p @ concat (map (\<lambda>k. [d ! (2 * k + 1), d ! (2 * k)]) [0..<n])"
        "length p + 2 * n"]
    by (simp add: pairs_swapped_def length_pairs_prefix d)
  finally show ?case .
qed (simp add: pairs_swapped_def)

section \<open>Writing several registers\<close>

text \<open>
  C30. A consistent request to write registers is never answered. For every request of function
  16 with a register count above zero that matches its byte count, whatever the registers, links
  and swap settings, no number of loop rounds reaches the reply: the loop goes on for ever or leaves
  its buffers. Only an inconsistent request, or one for no register at all, gets an answer.
\<close>

theorem func10_never_answers:
  assumes "req_field c 4 \<noteq> 0" "unat (req_field c 4) * 2 = unat (cl_Buff c ! 6)"
  shows "\<not> (\<exists>fuel s' out. Func_0x10 fuel s c = Some (Inr (s', out)))"
proof -
  have "(0 :: UDINT) < ucast (req_field c 4)"
    using assms(1) by (simp add: ucast_up_eq_0 word_neq_0_conv [symmetric])
  note none = func10_no_exit [OF this]
  have "Func_0x10 fuel s c \<noteq> Some (Inr (s', out))" for fuel s' out
    using assms(2) none
    by (auto simp: Func_0x10_def Let_def split: option.splits sum.splits if_splits)
  then show ?thesis by blast
qed

theorem func10_never_answers_witness:
  "\<not> (\<exists>fuel s' out. Func_0x10 fuel \<lparr>mb_Modbus = replicate MODBUS_SIZE 0, mb_swap = \<lparr>sw_Byte = 0, sw_Word = 0, sw_DWord = 0\<rparr>,
       mb_links = [], mb_SlaveID = 1\<rparr>
     \<lparr>cl_Header = [0, 1, 0, 0, 9, 0], cl_HeaderRead = 6, cl_Buff = [1, 16, 0, 5, 0, 1, 2, 0, 7], cl_Size = 9\<rparr>
     = Some (Inr (s', out)))"
  by (rule func10_never_answers) (simp_all add: req_field_def)

section \<open>Reading registers\<close>

lemma take_exact: "length (h @ b) = k \<Longrightarrow> take k (h @ b @ r) = h @ b"
  by auto

lemma func03_lengths: "n \<le> 121 \<Longrightarrow> unat (3 + (of_nat n :: USINT) * 2) = 3 + 2 * n"
  by (simp add: unat_word_ariths unat_of_nat)

lemma SwapBuffer_bytes:
  assumes "sw_Word sw = 0" "sw_DWord sw = 0" "length d = 2 * n" "0 < n" "length p = off"
  shows "SwapBuffer sw off (2 * n) (p @ d @ r)
    = Inr (p @ (if sw_Byte sw = 0 then d else pairs_swapped (n - 1) d) @ r)"
proof -
  have "pairs_swapped (n - 1) (d @ r) = pairs_swapped (n - 1) d @ r"
    using assms(3,4) by (auto simp: pairs_swapped_def nth_append intro!: arg_cong [where f = concat])
  moreover have "swap_indices (2 * n) = map ((*) 2) [0..<n - 1]"
    using swap_indices_even [of "n - 1"] assms(4) by (simp only: Suc_diff_1)
  ultimately show ?thesis
    using swap_byte_pairs [of "n - 1" "d @ r" p] assms
    by (simp add: SwapBuffer_def)
qed

text \<open>
  C31. The reply to a read of registers. For a register table of its full size, without word and
  double-word swapping, a request for one to 121 registers that ends inside the table is answered by
  unit, function, the length of the whole reply (three more than the bytes of registers that follow,
  where the protocol has their number) and the registers; with byte swapping every register is sent high byte
  first except the last one, which keeps the host's order, so that a single register is never
  swapped. More than 121 registers are refused with the data error.
\<close>

theorem func03_reply:
  assumes "length (cl_Buff c) \<ge> 6" "length (mb_Modbus s) = MODBUS_SIZE"
    "sw_Word (mb_swap s) = 0" "sw_DWord (mb_swap s) = 0"
    "n = unat (ucast (req_field c 4) :: USINT)" "0 < n" "unat (req_field c 2) + n \<le> 65536"
  shows "Func_0x03 s c = (if n > 121 then Inr [mb_send c [cl_Buff c ! 0, cl_Buff c ! 1 OR 0x80, MODBUS_ERROR_DATA]]
     else Inr [mb_send c ([cl_Buff c ! 0, cl_Buff c ! 1, of_nat (3 + 2 * n)] @
       (if sw_Byte (mb_swap s) = 0 then take (2 * n) (drop (2 * unat (req_field c 2)) (mb_Modbus s))
        else pairs_swapped (n - 1) (take (2 * n) (drop (2 * unat (req_field c 2)) (mb_Modbus s)))))])"
proof -
  let ?d = "take (2 * n) (drop (2 * unat (req_field c 2)) (mb_Modbus s))"
  have cnt: "ucast (req_field c 4) = (of_nat n :: USINT)" using assms(5) by simp
  have big: "(of_nat n > (121 :: USINT)) = (n > 121)"
    using assms(5) unsigned_less [of "ucast (req_field c 4) :: USINT"] by (simp add: word_less_nat_alt unat_of_nat)
  have len: "length ?d = 2 * n" using assms(2,7) by (simp add: MODBUS_SIZE_def)
  have lp: "length (pairs_swapped (n - 1) ?d) = 2 * n"
    using len assms(6) by (simp add: pairs_swapped_def length_pairs_prefix)
  show ?thesis
  proof (cases "n > 121")
    case True
    then show ?thesis using assms(1) cnt big by (simp add: Func_0x03_def Let_def Func_Error_def)
  next
    case False
    have rd: "mem_read (2 * unat (req_field c 2)) (2 * n) (mb_Modbus s) = Inr ?d"
      using assms(2,7) by (simp add: mem_read_def MODBUS_SIZE_def)
    have n': "unat (of_nat n :: USINT) = n" using False by (simp add: unat_of_nat)
    have sz: "unat (3 + (of_nat n :: USINT) * 2) = 3 + 2 * n" using False by (simp add: func03_lengths)
    let ?h = "[cl_Buff c ! 0, cl_Buff c ! 1, 3 + of_nat n * 2]"
    have sw: "SwapBuffer (mb_swap s) 3 (2 * n) (?h @ ?d @ replicate (253 - 2 * n) 0)
        = Inr (?h @ (if sw_Byte (mb_swap s) = 0 then ?d else pairs_swapped (n - 1) ?d) @ replicate (253 - 2 * n) 0)"
      by (rule SwapBuffer_bytes [OF assms(3,4) len assms(6)]) simp
    have body: "length (if sw_Byte (mb_swap s) = 0 then ?d else pairs_swapped (n - 1) ?d) = 2 * n"
      using len lp by simp
    have "Func_0x03 s c = Inr [mb_send c (take (3 + 2 * n)
        (?h @ (if sw_Byte (mb_swap s) = 0 then ?d else pairs_swapped (n - 1) ?d) @ replicate (253 - 2 * n) 0))]"
    proof -
      have "\<not> length (cl_Buff c) < 6" "\<not> (121 :: USINT) < of_nat n" using False assms(1) big by auto
      then show ?thesis by (simp only: Func_0x03_def cnt Let_def rd n' sw sz sum.case if_False)
    qed
    also have "\<dots> = Inr [mb_send c (?h @ (if sw_Byte (mb_swap s) = 0 then ?d else pairs_swapped (n - 1) ?d))]"
      by (subst take_exact) (use body in simp_all)
    finally show ?thesis using False by (simp add: mult.commute)
  qed
qed

theorem func03_reply_witness:
  "Func_0x03 \<lparr>mb_Modbus = replicate MODBUS_SIZE 0, mb_swap = \<lparr>sw_Byte = 0, sw_Word = 0, sw_DWord = 0\<rparr>,
       mb_links = [], mb_SlaveID = 1\<rparr>
     \<lparr>cl_Header = [0, 1, 0, 0, 6, 0], cl_HeaderRead = 6, cl_Buff = [1, 3, 0, 5, 0, 2], cl_Size = 6\<rparr>
   = Inr [mb_send \<lparr>cl_Header = [0, 1, 0, 0, 6, 0], cl_HeaderRead = 6, cl_Buff = [1, 3, 0, 5, 0, 2], cl_Size = 6\<rparr>
       ([1, 3, 7] @ replicate 4 0)]"
  by (subst func03_reply [where n = 2]) (simp_all add: req_field_def MODBUS_SIZE_def del: replicate.simps)

section \<open>Word swapping\<close>

lemma mem_swap_length: "mem_swap w off m = Inr m' \<Longrightarrow> length m' = length m"
  by (auto simp: mem_swap_def split: if_splits)

lemma swap_loop_overflow:
  assumes "i \<in> set is" "length m < off + i * w + 2 * w"
  shows "swap_loop w off is m = Inl Out_of_bounds"
  using assms
proof (induction "is" arbitrary: m)
  case (Cons j js)
  show ?case
  proof (cases "mem_swap w (off + j * w) m")
    case (Inl t)
    then show ?thesis by (auto simp: mem_swap_def split: if_splits)
  next
    case (Inr m')
    then have "length m' = length m" "j \<noteq> i"
      using Cons.prems(2) by (auto simp: mem_swap_def split: if_splits)
    then show ?thesis using Inr Cons by simp
  qed
qed simp

text \<open>
  Word swapping writes behind the reply. With word swapping on, a request for an even number of
  66 to 120 registers exchanges items behind the 256 bytes of the reply on the stack, because the
  loop's index counts bytes but is used for words.
\<close>

theorem func03_word_swap_overflows:
  assumes "length (cl_Buff c) \<ge> 6" "length (mb_Modbus s) = MODBUS_SIZE"
    "sw_Word (mb_swap s) \<noteq> 0" "sw_DWord (mb_swap s) = 0"
    "n = unat (ucast (req_field c 4) :: USINT)" "even n" "66 \<le> n" "n \<le> 120" "unat (req_field c 2) + n \<le> 65536"
  shows "Func_0x03 s c = Inl Out_of_bounds"
proof -
  let ?d = "take (2 * n) (drop (2 * unat (req_field c 2)) (mb_Modbus s))"
  let ?a = "[cl_Buff c ! 0, cl_Buff c ! 1, 3 + of_nat n * 2] @ ?d @ replicate (253 - 2 * n) 0"
  have cnt: "ucast (req_field c 4) = (of_nat n :: USINT)" using assms(5) by simp
  have n': "unat (of_nat n :: USINT) = n" using assms(8) by (simp add: unat_of_nat)
  have big: "\<not> (121 :: USINT) < of_nat n" using assms(8) n' by (simp add: word_less_nat_alt)
  have len: "length ?a = 256" using assms(2,7,8,9) by (simp add: MODBUS_SIZE_def)
  have mem: "2 * n - 4 \<in> set (swap_indices (2 * n))" using assms(6,7) by (auto simp: swap_indices_def)
  have "swap_loop 2 3 (swap_indices (2 * n)) ?a = Inl Out_of_bounds"
    by (rule swap_loop_overflow [OF mem]) (use len assms(7) in simp)
  then have "SwapBuffer (mb_swap s) 3 (2 * n) ?a = Inl Out_of_bounds"
    using assms(3,4,6,7) by (simp add: SwapBuffer_def mod_eq_0_iff_dvd)
  moreover have "mem_read (2 * unat (req_field c 2)) (2 * n) (mb_Modbus s) = Inr ?d"
    using assms(2,9) by (simp add: mem_read_def MODBUS_SIZE_def)
  moreover have "\<not> length (cl_Buff c) < 6" using assms(1) by simp
  ultimately show ?thesis using big by (simp only: Func_0x03_def cnt Let_def n' sum.case if_False)
qed

theorem func03_word_swap_overflows_witness:
  "Func_0x03 \<lparr>mb_Modbus = replicate MODBUS_SIZE 0, mb_swap = \<lparr>sw_Byte = 0, sw_Word = 1, sw_DWord = 0\<rparr>,
       mb_links = [], mb_SlaveID = 1\<rparr>
     \<lparr>cl_Header = [0, 1, 0, 0, 6, 0], cl_HeaderRead = 6, cl_Buff = [1, 3, 0, 5, 0, 66], cl_Size = 6\<rparr>
   = Inl Out_of_bounds"
  by (rule func03_word_swap_overflows [where n = 66]) (simp_all add: req_field_def MODBUS_SIZE_def del: replicate.simps)

section \<open>Reassembling frames\<close>

text \<open>Chunks read one after another; the answers of \<^const>\<open>mb_recv\<close> are collected.\<close>

fun mb_feed :: "(nat \<Rightarrow> bytes) \<Rightarrow> bytes list \<Rightarrow> mb_client \<Rightarrow> trap + (bool list \<times> mb_client)" where
  "mb_feed fresh [] c = Inr ([], c)"
| "mb_feed fresh (x # xs) c = (case mb_recv fresh x c of
     Inl t \<Rightarrow> Inl t
   | Inr (b, c1) \<Rightarrow> (case mb_feed fresh xs c1 of Inl t \<Rightarrow> Inl t | Inr (bs, c2) \<Rightarrow> Inr (b # bs, c2)))"

text \<open>A client in the middle of a body: \<open>got\<close> is there, \<open>n\<close> bytes are due.\<close>

definition mb_mid :: "nat \<Rightarrow> bytes \<Rightarrow> mb_client \<Rightarrow> bool" where
  "mb_mid n got c \<longleftrightarrow> length (cl_Header c) = 6 \<and> cl_HeaderRead c = 6 \<and> hdr_Length (cl_Header c) = n \<and> cl_Size c = length got
     \<and> length (cl_Buff c) = n \<and> take (length got) (cl_Buff c) = got \<and> length got \<le> n"

lemma mb_mid_complete: "mb_mid (length p) p c \<Longrightarrow> mb_complete c \<and> cl_Buff c = p"
  by (auto simp: mb_mid_def mb_complete_def)

lemma mb_recv_body_step:
  assumes "mb_mid n got c" "length got + length x \<le> n" "x \<noteq> []"
  shows "\<exists>c'. mb_recv_body x c = Inr c' \<and> mb_mid n (got @ x) c'"
  using assms by (auto simp: mb_recv_body_def mb_mid_def mem_write_def Let_def take_map)

lemma mb_recv_step:
  assumes "mb_mid n got c" "length got + length x \<le> n" "x \<noteq> []" "length got < n"
  shows "\<exists>c'. mb_recv fresh x c = Inr (length got + length x = n, c') \<and> mb_mid n (got @ x) c'"
proof -
  obtain c' where c': "mb_recv_body x c = Inr c'" "mb_mid n (got @ x) c'"
    using mb_recv_body_step [OF assms(1-3)] by blast
  have "\<not> mb_complete c" "\<not> cl_HeaderRead c < 6"
    using assms(1,4) by (auto simp: mb_mid_def mb_complete_def)
  moreover have "mb_complete c' \<longleftrightarrow> length got + length x = n"
    using c'(2) by (auto simp: mb_mid_def mb_complete_def)
  ultimately show ?thesis using c' by (simp add: mb_recv_def Let_def)
qed

lemma mb_feed_body:
  assumes "mb_mid n got c" "length got < n" "length got + length (concat xs) = n"
    "\<forall>x \<in> set xs. x \<noteq> []"
  shows "\<exists>c'. mb_feed fresh xs c = Inr (replicate (length xs - 1) False @ [True], c') \<and> mb_mid n (got @ concat xs) c'"
  using assms
proof (induction xs arbitrary: got c)
  case (Cons x xs)
  have le: "length got + length x \<le> n" using Cons.prems(3) by simp
  obtain c1 where c1: "mb_recv fresh x c = Inr (length got + length x = n, c1)" "mb_mid n (got @ x) c1"
    using mb_recv_step [OF Cons.prems(1) le _ Cons.prems(2)] Cons.prems(4) by auto
  show ?case
  proof (cases xs)
    case Nil
    then show ?thesis using c1 Cons.prems(3) by simp
  next
    case (Cons y ys)
    then have lt: "length (got @ x) < n" using Cons.prems(3,4) by (cases y) auto
    obtain c2 where "mb_feed fresh xs c1 = Inr (replicate (length xs - 1) False @ [True], c2)"
      "mb_mid n ((got @ x) @ concat xs) c2"
      using Cons.IH [OF c1(2) lt] Cons.prems(3,4) by auto
    then show ?thesis using c1(1) lt Cons by simp
  qed
qed simp

text \<open>A frame: transaction, protocol, length with the high byte first, body.\<close>

definition mb_frame :: "bytes \<Rightarrow> bytes \<Rightarrow> bytes" where
  "mb_frame ids body = ids @ rev (le_bytes 2 (of_nat (length body) :: UINT)) @ body"

definition mb_idle :: "mb_client \<Rightarrow> bool" where
  "mb_idle c \<longleftrightarrow> length (cl_Header c) = 6 \<and> (mb_complete c \<or> cl_HeaderRead c = 0)"

lemma mb_idle_new: "length g = 6 \<Longrightarrow> mb_idle (mb_client_new g)"
  by (simp add: mb_idle_def mb_client_new_def)

lemma mb_recv_first:
  assumes "mb_idle c" "length ids = 4" "length body < 65536" "\<forall>n. length (fresh n) = n" "length got \<le> length body"
  shows "\<exists>c'. mb_recv fresh (ids @ rev (le_bytes 2 (of_nat (length body) :: UINT)) @ got) c
      = Inr (length got = length body, c') \<and> mb_mid (length body) got c'"
proof -
  let ?L = "of_nat (length body) :: UINT" and ?x = "ids @ rev (le_bytes 2 (of_nat (length body) :: UINT)) @ got"
  define c0 where "c0 = (if mb_complete c then c\<lparr>cl_HeaderRead := 0, cl_Size := 0, cl_Buff := []\<rparr> else c)"
  have c0: "cl_HeaderRead c0 = 0" "length (cl_Header c0) = 6" using assms(1) by (auto simp: c0_def mb_idle_def)
  have bs: "le_bytes 2 ?L = [le_bytes 2 ?L ! 0, le_bytes 2 ?L ! 1]"
    by (simp add: le_bytes_def numeral_2_eq_2)
  have hdr: "hdr_swap (ids @ rev (le_bytes 2 ?L)) = ids @ le_bytes 2 ?L"
    using assms(2) by (subst (1 2) bs) (simp add: hdr_swap_def nth_append)
  have len: "hdr_Length (ids @ le_bytes 2 ?L) = length body"
    using assms(2,3) by (simp add: hdr_Length_def le_word_le_bytes unat_of_nat)
  have need: "(if length ?x \<le> 6 then length ?x else 6 - cl_HeaderRead c0) = 6"
    using assms(2) c0(1) by simp
  define c1 where "c1 = c0\<lparr>cl_Header := ids @ le_bytes 2 ?L, cl_HeaderRead := 6, cl_Buff := fresh (length body), cl_Size := 0\<rparr>"
  have h: "mb_recv_header fresh ?x c0 = Inr (got, c1)"
    using c0 assms(2)
    by (simp only: mb_recv_header_def Let_def need mem_write_def) (simp add: hdr len c1_def)
  have mid: "mb_mid (length body) [] c1" using assms(2,4) len by (simp add: mb_mid_def c1_def)
  obtain c2 where c2: "mb_recv_body got c1 = Inr c2" "mb_mid (length body) got c2"
  proof (cases "got = []")
    case True
    then show ?thesis using that [of c1] mid by (simp add: mb_recv_body_def)
  next
    case False
    then show ?thesis using that mb_recv_body_step [OF mid] assms(5) by auto
  qed
  have "mb_complete c2 \<longleftrightarrow> length got = length body"
    using c2(2) by (auto simp: mb_mid_def mb_complete_def)
  then show ?thesis
    using h c0 c2 unfolding mb_recv_def c0_def [symmetric] Let_def by simp
qed

text \<open>
  C32. A frame is reassembled from its chunks. When the first chunk holds at least the six header
  bytes, the rest may arrive in any non-empty pieces: no piece but the last completes the frame, the
  last one does, and the buffer then holds the body of the frame, no byte more or less. Afterwards the client is ready
  for the next frame, as a new client is. \<^verbatim>\<open>new USINT[n]\<close> delivers \<open>n\<close> bytes.
\<close>

theorem mb_frame_reassembled:
  assumes "mb_idle c" "length ids = 4" "length body < 65536" "\<forall>n. length (fresh n) = n"
    "x @ concat xs = mb_frame ids body" "6 \<le> length x" "\<forall>y \<in> set xs. y \<noteq> []"
  shows "\<exists>c'. mb_feed fresh (x # xs) c = Inr (replicate (length xs) False @ [True], c')
    \<and> cl_Buff c' = body \<and> mb_idle c'"
proof -
  let ?h = "ids @ rev (le_bytes 2 (of_nat (length body) :: UINT))"
  have h: "length ?h = 6" using assms(2) by simp
  define got where "got = drop 6 x"
  have "take 6 (x @ concat xs) = ?h" "drop 6 (x @ concat xs) = body"
    using h unfolding assms(5) mb_frame_def append_assoc [symmetric] by simp_all
  then have x: "x = ?h @ got" and body: "got @ concat xs = body"
    using assms(6) append_take_drop_id [of 6 x] unfolding got_def by simp_all
  then have le: "length got \<le> length body" by auto
  obtain c1 where c1: "mb_recv fresh x c = Inr (length got = length body, c1)" "mb_mid (length body) got c1"
    using mb_recv_first [OF assms(1-4) le] x by auto
  obtain c2 where c2: "mb_feed fresh (x # xs) c = Inr (replicate (length xs) False @ [True], c2)"
    "mb_mid (length body) body c2"
  proof (cases xs)
    case Nil
    then show ?thesis using that [of c1] c1 body by simp
  next
    case (Cons y ys)
    then have lt: "length got < length body" using body assms(7) by (cases y) auto
    have sum: "length got + length (concat xs) = length body" using body by (simp flip: length_append)
    obtain c2 where "mb_feed fresh xs c1 = Inr (replicate (length xs - 1) False @ [True], c2)"
      "mb_mid (length body) (got @ concat xs) c2"
      using mb_feed_body [OF c1(2) lt sum assms(7)] by blast
    then show ?thesis using that [of c2] c1(1) lt body Cons by simp
  qed
  then show ?thesis using mb_mid_complete [OF c2(2)] by (auto simp: mb_idle_def mb_mid_def)
qed

theorem mb_frame_reassembled_witness:
  "\<exists>c'. mb_feed (\<lambda>n. replicate n 0) [[0, 1, 0, 0, 0, 4, 1], [3], [0, 5]] (mb_client_new [9, 9, 9, 9, 9, 9])
      = Inr ([False, False, True], c')
    \<and> cl_Buff c' = [1, 3, 0, 5] \<and> mb_idle c'"
proof -
  have frame: "mb_frame [0, 1, 0, 0] [1, 3, 0, 5] = [0, 1, 0, 0, 0, 4, 1, 3, 0, 5]" by code_simp
  show ?thesis
    using mb_frame_reassembled [of "mb_client_new [9, 9, 9, 9, 9, 9]" "[0, 1, 0, 0]" "[1, 3, 0, 5]"
        "\<lambda>n. replicate n 0" "[0, 1, 0, 0, 0, 4, 1]" "[[3], [0, 5]]"]
    by (simp add: mb_idle_new frame del: mb_feed.simps)
qed

text \<open>
  A header that arrives in two short pieces runs over. When one to five bytes of the header came
  alone and the next chunk has at most six bytes but more than the header lacks, all of it is copied
  behind what is there, past the end of the header.
\<close>

theorem mb_split_header_overflows:
  assumes "cl_HeaderRead c = length x" "length (cl_Header c) = 6" "0 < length x" "length x < 6"
    "length y \<le> 6" "6 < length x + length y"
  shows "mb_recv fresh y c = Inl Out_of_bounds"
  using assms by (simp add: mb_recv_def mb_recv_header_def mb_complete_def mem_write_def)

theorem mb_split_header_overflows_witness:
  "mb_recv (\<lambda>n. replicate n 0) [0, 0, 0, 4] \<lparr>cl_Header = [0, 1, 0, 9, 9, 9], cl_HeaderRead = 3, cl_Buff = [], cl_Size = 0\<rparr>
    = Inl Out_of_bounds"
  by (rule mb_split_header_overflows [where x = "[0, 1, 0]"]) simp_all

section \<open>Addresses of the map\<close>

definition link_fits :: "rTempLink list \<Rightarrow> rModbusLink \<Rightarrow> bool" where
  "link_fits xs l \<longleftrightarrow> (\<exists>x \<in> set xs. \<exists>ty. tl_var x = Some (ml_name l, Some ty) \<and> ml_convert l = tl_type x
     \<and> unat (ml_address l) + unat (TypeCountReg ty) \<le> 0xFFFF)"

lemma TypeCountReg_bounds: "1 \<le> unat (TypeCountReg t) \<and> unat (TypeCountReg t) \<le> 0xFFFF"
  by (cases t) simp_all

lemma checkVars_address_fits:
  assumes "a + TypeCountReg ty \<le> 0x0000FFFF" "unat a \<le> 0x1FFFF"
  shows "unat (ucast a :: UINT) + unat (TypeCountReg ty) \<le> 0xFFFF \<and> unat (a + TypeCountReg ty) = unat a + unat (TypeCountReg ty)"
proof -
  have sum: "unat (a + TypeCountReg ty) = unat a + unat (TypeCountReg ty)"
    using assms(2) TypeCountReg_bounds [of ty] by (simp add: unat_word_ariths)
  then have "unat a + unat (TypeCountReg ty) \<le> 0xFFFF"
    using assms(1) by (simp add: word_le_nat_alt)
  moreover have "unat (ucast a :: UINT) \<le> unat a" by (simp add: unsigned_ucast_eq)
  ultimately show ?thesis using sum by linarith
qed

lemma link_fits_mono: "link_fits xs l \<Longrightarrow> link_fits (x # xs) l"
  by (auto simp: link_fits_def)

lemma checkVars_loop_fits:
  assumes "checkVars_loop xs address links = Inr res" "unat address \<le> 0xFFFF"
    "\<forall>x \<in> set xs. unat (tl_Address x) \<le> 0xFFFF"
  shows "\<exists>new. res = links @ new \<and> (\<forall>l \<in> set new. link_fits xs l)"
  using assms
proof (induction xs arbitrary: address links)
  case (Cons x xs)
  show ?case
  proof (cases "tl_var x")
    case None
    let ?a = "address + TypeCountReg (tl_type x)"
    have le: "?a \<le> 0x0000FFFF" and rec: "checkVars_loop xs ?a links = Inr res"
      using Cons.prems(1) None by (auto simp: Let_def not_less split: if_splits)
    have "unat ?a \<le> 0xFFFF" using le by (simp add: word_le_nat_alt)
    then obtain new where "res = links @ new" "\<forall>l \<in> set new. link_fits xs l"
      using Cons.IH [OF rec] Cons.prems(3) by auto
    then show ?thesis using link_fits_mono by blast
  next
    case (Some v)
    obtain name ty where v: "v = (name, Some ty)"
      using Cons.prems(1) Some by (cases v; cases "snd v") auto
    let ?b = "if tl_Address x \<noteq> 0 then tl_Address x else address"
    let ?l = "\<lparr>ml_name = name, ml_type = ty, ml_address = ucast ?b, ml_convert = tl_type x\<rparr>"
    have le: "?b + TypeCountReg ty \<le> 0x0000FFFF"
      and rec: "checkVars_loop xs (?b + TypeCountReg ty) (links @ [?l]) = Inr res"
      using Cons.prems(1) Some v by (auto simp: Let_def not_less split: if_splits)
    have ub: "unat ?b \<le> 0x1FFFF" using Cons.prems(2,3) by simp
    have fit: "link_fits (x # xs) ?l"
      using checkVars_address_fits [OF le ub] Some v by (auto simp: link_fits_def)
    have "unat (?b + TypeCountReg ty) \<le> 0xFFFF" using le by (simp add: word_le_nat_alt)
    then obtain new where "res = (links @ [?l]) @ new" "\<forall>l \<in> set new. link_fits xs l"
      using Cons.IH [OF rec] Cons.prems(3) by auto
    then show ?thesis using fit link_fits_mono by (intro exI [of _ "?l # new"]) auto
  qed
qed simp

text \<open>
  Every linked variable lies inside the register table. When the check of the address map
  succeeds, for lines whose block addresses are those the configuration accepts, each link stands for
  a line with an existing variable, keeps the line's conversion, and all registers of the variable's
  own type lie below the last register, whatever the number and order of lines and white space.
\<close>

theorem checkVars_links_fit:
  assumes "checkVars_loop lines 0 [] = Inr links"
    "\<forall>x \<in> set lines. tl_Address x = 0 \<or> (\<exists>a. block_address a = Some (tl_Address x))"
  shows "\<forall>l \<in> set links. link_fits lines l"
proof -
  have "unat (tl_Address x) \<le> 0xFFFF" if "x \<in> set lines" for x
  proof (cases "tl_Address x = 0")
    case False
    then obtain a where a: "block_address a = Some (tl_Address x)" using assms(2) \<open>x \<in> set lines\<close> by blast
    then have r: "400000 \<le> a" "a \<le> 465535" "tl_Address x = a - 400000"
      by (auto simp: block_address_def not_less split: if_splits)
    then show ?thesis by (simp add: unat_sub word_le_nat_alt)
  qed simp
  then show ?thesis using checkVars_loop_fits [OF assms(1)] by auto
qed

theorem checkVars_links_fit_witness:
  "link_fits [\<lparr>tl_var = Some (''ai.t'', Some T_LREAL), tl_Address = 100, tl_type = T_UNDEF\<rparr>,
       \<lparr>tl_var = None, tl_Address = 0, tl_type = T_UINT\<rparr>]
     \<lparr>ml_name = ''ai.t'', ml_type = T_LREAL, ml_address = 100, ml_convert = T_UNDEF\<rparr>"
proof -
  have "block_address 400100 = Some 100" by (simp add: block_address_def)
  then show ?thesis
    using checkVars_links_fit [of "[\<lparr>tl_var = Some (''ai.t'', Some T_LREAL), tl_Address = 100, tl_type = T_UNDEF\<rparr>,
       \<lparr>tl_var = None, tl_Address = 0, tl_type = T_UINT\<rparr>]"
       "[\<lparr>ml_name = ''ai.t'', ml_type = T_LREAL, ml_address = 100, ml_convert = T_UNDEF\<rparr>]"]
    by fastforce
qed

end
