(* ===== verification/CLayout.thy ===== *)
theory CLayout
  imports Container
begin

text \<open>
  The layout of C structures as the compiler of the controller lays them out: sizes, alignment under
  \<^verbatim>\<open>#pragma pack(4)\<close>, offsets of members, and reading and writing a member of a block of bytes.
  Enumerations carry the attribute of byte mode and take one byte; their enumerators keep the values
  the list gives them.
\<close>

section \<open>Types\<close>

datatype ctype =
    CU8 | CU16 | CU32 | CU64 | CF32
  | CEnum "(string \<times> nat) list"
  | CBits "string list"
  | CArr nat ctype
  | CStruct "(string \<times> ctype) list"
  | CUnion "(string \<times> ctype) list"

text \<open>Enumerators without a value take the one after their predecessor.\<close>

fun enum_from :: "nat \<Rightarrow> (string \<times> nat option) list \<Rightarrow> (string \<times> nat) list" where
  "enum_from n [] = []"
| "enum_from n ((e, None) # es) = (e, n) # enum_from (Suc n) es"
| "enum_from n ((e, Some v) # es) = (e, v) # enum_from (Suc v) es"

definition c_enum :: "(string \<times> nat option) list \<Rightarrow> ctype" where
  "c_enum es = CEnum (enum_from 0 es)"

fun enum_val :: "ctype \<Rightarrow> string \<Rightarrow> nat option" where
  "enum_val (CEnum es) e = map_of es e"
| "enum_val _ e = None"

definition pack :: nat where "pack = 4"

definition round_up :: "nat \<Rightarrow> nat \<Rightarrow> nat" where
  "round_up a n = ((n + a - 1) div a) * a"

fun align_of :: "ctype \<Rightarrow> nat" and align_list :: "(string \<times> ctype) list \<Rightarrow> nat" where
  "align_of CU8 = 1"
| "align_of CU16 = 2"
| "align_of CU32 = 4"
| "align_of CU64 = min 8 pack"
| "align_of CF32 = 4"
| "align_of (CEnum es) = 1"
| "align_of (CBits bs) = 4"
| "align_of (CArr n t) = align_of t"
| "align_of (CStruct fs) = align_list fs"
| "align_of (CUnion fs) = align_list fs"
| "align_list [] = 1"
| "align_list (f # fs) = max (align_of (snd f)) (align_list fs)"

text \<open>\<open>end_of off fs\<close> is the first byte behind members \<open>fs\<close> laid out from \<open>off\<close>.\<close>

fun size_of :: "ctype \<Rightarrow> nat" and end_of :: "nat \<Rightarrow> (string \<times> ctype) list \<Rightarrow> nat"
  and size_max :: "(string \<times> ctype) list \<Rightarrow> nat" where
  "size_of CU8 = 1"
| "size_of CU16 = 2"
| "size_of CU32 = 4"
| "size_of CU64 = 8"
| "size_of CF32 = 4"
| "size_of (CEnum es) = 1"
| "size_of (CBits bs) = 4"
| "size_of (CArr n t) = n * size_of t"
| "size_of (CStruct fs) = round_up (align_list fs) (end_of 0 fs)"
| "size_of (CUnion fs) = round_up (align_list fs) (size_max fs)"
| "end_of off [] = off"
| "end_of off (f # fs) = end_of (round_up (align_of (snd f)) off + size_of (snd f)) fs"
| "size_max [] = 0"
| "size_max (f # fs) = max (size_of (snd f)) (size_max fs)"

section \<open>Members\<close>

datatype sel = Fld string | Idx nat

fun member :: "nat \<Rightarrow> (string \<times> ctype) list \<Rightarrow> string \<Rightarrow> (nat \<times> ctype) option" where
  "member off [] n = None"
| "member off ((m, t) # fs) n = (if m = n then Some (round_up (align_of t) off, t)
     else member (round_up (align_of t) off + size_of t) fs n)"

fun select :: "ctype \<Rightarrow> sel \<Rightarrow> (nat \<times> ctype) option" where
  "select (CArr k t) (Idx i) = (if i < k then Some (i * size_of t, t) else None)"
| "select (CStruct fs) (Fld n) = member 0 fs n"
| "select (CUnion fs) (Fld n) = map_option (Pair 0) (map_of fs n)"
| "select _ _ = None"

fun locate :: "ctype \<Rightarrow> sel list \<Rightarrow> (nat \<times> ctype) option" where
  "locate t [] = Some (0, t)"
| "locate t (s # p) = (case select t s of None \<Rightarrow> None
     | Some (o1, t1) \<Rightarrow> (case locate t1 p of None \<Rightarrow> None | Some (o2, t2) \<Rightarrow> Some (o1 + o2, t2)))"

text \<open>Two paths part when they agree up to two different members or elements of a structure or
  array; members of a union lie over each other.\<close>

fun parted :: "ctype \<Rightarrow> sel list \<Rightarrow> sel list \<Rightarrow> bool" where
  "parted t (s # p) (s' # p') = (if s = s' then (case select t s of None \<Rightarrow> False | Some (_, t1) \<Rightarrow> parted t1 p p')
     else (case t of CUnion _ \<Rightarrow> False | _ \<Rightarrow> True))"
| "parted t _ _ = False"

definition fget :: "ctype \<Rightarrow> sel list \<Rightarrow> bytes \<Rightarrow> bytes option" where
  "fget t p m = (case locate t p of None \<Rightarrow> None | Some (off, t') \<Rightarrow> Some (take (size_of t') (drop off m)))"

definition fset :: "ctype \<Rightarrow> sel list \<Rightarrow> bytes \<Rightarrow> bytes \<Rightarrow> bytes option" where
  "fset t p v m = (case locate t p of None \<Rightarrow> None
     | Some (off, t') \<Rightarrow> (if length v = size_of t' then Some (take off m @ v @ drop (off + size_of t') m) else None))"

section \<open>Rounding\<close>

lemma round_up_ge: "0 < a \<Longrightarrow> n \<le> round_up a n"
  unfolding round_up_def using dividend_less_div_times [of a "n + a - 1"] by linarith

lemma dvd_round_up [simp]: "a dvd round_up a n"
  by (simp add: round_up_def)

lemma align_pos [simp]: "0 < align_of t" "0 < align_list fs"
  by (induction t and fs rule: align_of_align_list.induct) (simp_all add: pack_def)

lemma align_cases:
  "align_of t \<in> {1, 2, 4}" "align_list fs \<in> {1, 2, 4}"
  by (induction t and fs rule: align_of_align_list.induct) (auto simp: pack_def max_def)

lemma dvd_of_le_124: "a \<in> {1, 2, 4} \<Longrightarrow> b \<in> {1, 2, 4} \<Longrightarrow> a \<le> b \<Longrightarrow> a dvd (b :: nat)"
  by auto

lemma align_member_dvd: "f \<in> set fs \<Longrightarrow> align_of (snd f) dvd align_list fs"
proof (induction fs)
  case (Cons g fs)
  have le: "align_of (snd g) dvd align_list (g # fs)"
    by (rule dvd_of_le_124 [OF align_cases(1) align_cases(2)]) simp
  have "align_list fs dvd align_list (g # fs)"
    by (rule dvd_of_le_124 [OF align_cases(2) align_cases(2)]) simp
  then show ?case using Cons le by (auto intro: dvd_trans)
qed simp

lemma end_of_ge: "off \<le> end_of off fs"
proof (induction fs arbitrary: off)
  case (Cons f fs)
  have "off \<le> round_up (align_of (snd f)) off + size_of (snd f)"
    using round_up_ge [OF align_pos(1)] by (rule trans_le_add1)
  then show ?case using Cons.IH by (auto intro: order_trans)
qed simp

section \<open>A member lies inside its structure, aligned\<close>

lemma align_dvd_size: "align_of t dvd size_of t"
  by (induction t) (simp_all add: pack_def)

lemma member_bounds:
  "member off fs n = Some (q, t) \<Longrightarrow>
     off \<le> q \<and> q + size_of t \<le> end_of off fs \<and> align_of t dvd q \<and> align_of t dvd align_list fs"
proof (induction off fs n rule: member.induct)
  case (2 off m u fs n)
  let ?o = "round_up (align_of u) off"
  have ge: "off \<le> ?o" by (rule round_up_ge) simp
  show ?case
  proof (cases "m = n")
    case True
    then have "q = ?o" "t = u" using 2(2) by auto
    then show ?thesis
      using ge end_of_ge [of "?o + size_of u" fs] align_member_dvd [of "(m, u)" "(m, u) # fs"] by simp
  next
    case False
    then have IH: "?o + size_of u \<le> q" "q + size_of t \<le> end_of (?o + size_of u) fs" "align_of t dvd q"
      "align_of t dvd align_list fs"
      using 2 by auto
    have "align_list fs dvd align_list ((m, u) # fs)"
      by (rule dvd_of_le_124 [OF align_cases(2) align_cases(2)]) simp
    then have "align_of t dvd align_list ((m, u) # fs)" using IH(4) dvd_trans by blast
    then show ?thesis using ge IH by simp
  qed
qed simp

lemma size_max_ge: "(n, t) \<in> set fs \<Longrightarrow> size_of t \<le> size_max fs"
  by (induction fs) auto

lemma select_bounds:
  assumes "select t s = Some (q, u)"
  shows "q + size_of u \<le> size_of t \<and> align_of u dvd q"
proof (cases t)
  case (CArr k v)
  obtain i where i: "s = Idx i" using assms CArr by (cases s) simp_all
  have s: "i < k" "q = i * size_of v" "u = v"
    using assms unfolding CArr i by (auto split: if_splits)
  have "Suc i * size_of v \<le> k * size_of v" using s(1) by (intro mult_le_mono1) simp
  then have "i * size_of v + size_of v \<le> k * size_of v" by (simp add: add.commute)
  then show ?thesis unfolding CArr s(2,3) by (simp add: dvd_mult align_dvd_size)
next
  case (CStruct fs)
  obtain n where "member 0 fs n = Some (q, u)" using assms CStruct by (cases s) auto
  then have b: "q + size_of u \<le> end_of 0 fs \<and> align_of u dvd q" using member_bounds by blast
  have "end_of 0 fs \<le> round_up (align_list fs) (end_of 0 fs)" by (rule round_up_ge) simp
  then show ?thesis using b CStruct by (auto intro: order_trans)
next
  case (CUnion fs)
  obtain n where "map_of fs n = Some u" "q = 0" using assms CUnion by (cases s) auto
  then have "size_of u \<le> size_max fs" "q = 0" by (auto intro: size_max_ge dest: map_of_SomeD)
  moreover have "size_max fs \<le> round_up (align_list fs) (size_max fs)" by (rule round_up_ge) simp
  ultimately show ?thesis using CUnion by simp
qed (use assms in auto)

lemma select_align:
  assumes "select t s = Some (q, u)" shows "align_of u dvd align_of t"
proof (cases t)
  case (CArr k v) then show ?thesis using assms by (cases s) (auto split: if_splits)
next
  case (CStruct fs)
  then show ?thesis using assms by (cases s) (auto dest: member_bounds)
next
  case (CUnion fs)
  then obtain n where "map_of fs n = Some u" using assms by (cases s) auto
  then show ?thesis using CUnion align_member_dvd [of "(n, u)" fs] map_of_SomeD by fastforce
qed (use assms in auto)

lemma locate_Cons:
  assumes "locate t (s # p) = Some (q, u)"
  obtains o1 t1 o2 where "select t s = Some (o1, t1)" "locate t1 p = Some (o2, u)" "q = o1 + o2"
  using assms by (auto split: option.splits)

lemma locate_bounds:
  "locate t p = Some (q, u) \<Longrightarrow> q + size_of u \<le> size_of t \<and> align_of u dvd q \<and> align_of u dvd align_of t"
proof (induction p arbitrary: t q)
  case (Cons s p)
  obtain o1 t1 o2 where l: "select t s = Some (o1, t1)" "locate t1 p = Some (o2, u)" "q = o1 + o2"
    using Cons.prems by (rule locate_Cons)
  have IH: "o2 + size_of u \<le> size_of t1" "align_of u dvd o2" "align_of u dvd align_of t1"
    using Cons.IH [OF l(2)] by auto
  have sb: "o1 + size_of t1 \<le> size_of t" "align_of t1 dvd o1" using select_bounds [OF l(1)] by auto
  have "align_of u dvd o1" using IH(3) sb(2) by (rule dvd_trans)
  moreover have "align_of u dvd align_of t" using IH(3) select_align [OF l(1)] by (rule dvd_trans)
  ultimately show ?case using IH(1,2) sb(1) l(3) by (simp add: dvd_add)
qed simp

section \<open>Different members do not share bytes\<close>

definition apart :: "nat \<Rightarrow> nat \<Rightarrow> nat \<Rightarrow> nat \<Rightarrow> bool" where
  "apart o1 n1 o2 n2 \<longleftrightarrow> o1 + n1 \<le> o2 \<or> o2 + n2 \<le> o1"

lemma member_apart:
  "member off fs m = Some (o1, t1) \<Longrightarrow> member off fs n = Some (o2, t2) \<Longrightarrow> m \<noteq> n
    \<Longrightarrow> apart o1 (size_of t1) o2 (size_of t2)"
proof (induction off fs m rule: member.induct)
  case (2 off l u fs m)
  then show ?case
    using member_bounds [of "round_up (align_of u) off + size_of u" fs m o1 t1]
      member_bounds [of "round_up (align_of u) off + size_of u" fs n o2 t2]
    by (auto simp: apart_def split: if_splits)
qed simp

lemma array_apart:
  fixes i j k :: nat
  assumes "i \<noteq> j" shows "apart (i * k) k (j * k) k"
proof (cases "i < j")
  case True
  then have "Suc i * k \<le> j * k" by (intro mult_le_mono1) simp
  then show ?thesis by (simp add: apart_def add.commute)
next
  case False
  then have "Suc j * k \<le> i * k" using assms by (intro mult_le_mono1) simp
  then show ?thesis by (simp add: apart_def add.commute)
qed

lemma select_apart:
  assumes "select t s = Some (o1, t1)" "select t s' = Some (o2, t2)" "s \<noteq> s'" "\<nexists>fs. t = CUnion fs"
  shows "apart o1 (size_of t1) o2 (size_of t2)"
proof (cases t)
  case (CArr k v)
  then show ?thesis
    using assms by (cases s; cases s') (auto split: if_splits intro: array_apart)
next
  case (CStruct fs)
  then show ?thesis using assms by (cases s; cases s') (auto intro: member_apart)
qed (use assms in auto)

lemma apart_sub: "apart o1 n1 o2 n2 \<Longrightarrow> a + m1 \<le> n1 \<Longrightarrow> b + m2 \<le> n2 \<Longrightarrow> apart (o1 + a) m1 (o2 + b) m2"
  by (auto simp: apart_def)

lemma apart_shift: "apart o1 n1 o2 n2 \<Longrightarrow> apart (k + o1) n1 (k + o2) n2"
  by (auto simp: apart_def)

lemma parted_apart:
  "parted t p p' \<Longrightarrow> locate t p = Some (o1, t1) \<Longrightarrow> locate t p' = Some (o2, t2)
    \<Longrightarrow> apart o1 (size_of t1) o2 (size_of t2)"
proof (induction p arbitrary: t p' o1 o2)
  case (Cons s p)
  obtain s' r where p': "p' = s' # r" using Cons.prems(1) by (cases p') auto
  obtain a u a' where l: "select t s = Some (a, u)" "locate u p = Some (a', t1)" "o1 = a + a'"
    using Cons.prems(2) by (rule locate_Cons)
  obtain b v b' where r: "select t s' = Some (b, v)" "locate v r = Some (b', t2)" "o2 = b + b'"
    using Cons.prems(3) unfolding p' by (rule locate_Cons)
  show ?case
  proof (cases "s = s'")
    case True
    then have "u = v" "a = b" "parted u p r" using l(1) r(1) Cons.prems(1) p' by auto
    then show ?thesis using Cons.IH l(2,3) r(2,3) apart_shift by blast
  next
    case False
    then have "\<nexists>fs. t = CUnion fs" using Cons.prems(1) p' by auto
    then have "apart a (size_of u) b (size_of v)" using select_apart [OF l(1) r(1) False] by blast
    then show ?thesis
      using l(3) r(3) locate_bounds [OF l(2)] locate_bounds [OF r(2)] by (auto intro: apart_sub)
  qed
qed simp

section \<open>Reading what was written\<close>

lemma fset_length: "fset t p v m = Some m' \<Longrightarrow> length m = size_of t \<Longrightarrow> length m' = size_of t"
  using locate_bounds by (fastforce simp: fset_def split: option.splits if_splits)

lemma take_drop_other:
  assumes "apart o1 (length v) o2 n" "o1 + length v \<le> length m" "o2 + n \<le> length m"
  shows "take n (drop o2 (take o1 m @ v @ drop (o1 + length v) m)) = take n (drop o2 m)"
  using assms by (intro nth_equalityI) (auto simp: apart_def nth_append)

lemma fget_fset_same:
  assumes "fset t p v m = Some m'" "length m = size_of t"
  shows "fget t p m' = Some v"
proof -
  obtain q u where l: "locate t p = Some (q, u)" "length v = size_of u"
    "m' = take q m @ v @ drop (q + size_of u) m"
    using assms(1) by (auto simp: fset_def split: option.splits if_splits)
  then show ?thesis using locate_bounds [OF l(1)] assms(2) by (simp add: fget_def)
qed

lemma fget_fset_other:
  assumes "fset t p v m = Some m'" "length m = size_of t" "parted t p p'"
  shows "fget t p' m' = fget t p' m"
proof (cases "locate t p'")
  case None
  then show ?thesis by (simp add: fget_def)
next
  case (Some ou)
  obtain o2 w where l2: "locate t p' = Some (o2, w)" using Some by (cases ou) auto
  obtain q u where l: "locate t p = Some (q, u)" "length v = size_of u"
    "m' = take q m @ v @ drop (q + length v) m"
    using assms(1) by (auto simp: fset_def split: option.splits if_splits)
  have "apart q (length v) o2 (size_of w)" using parted_apart [OF assms(3) l(1) l2] l(2) by simp
  then have "take (size_of w) (drop o2 m') = take (size_of w) (drop o2 m)"
    unfolding l(3)
    by (rule take_drop_other) (use l(2) locate_bounds [OF l(1)] locate_bounds [OF l2] assms(2) in simp_all)
  then show ?thesis using l2 by (simp add: fget_def)
qed

lemma round_up_cases [simp]:
  "round_up (Suc 0) n = n" "round_up (Suc (Suc 0)) n = 2 * ((n + 1) div 2)" "round_up 2 n = 2 * ((n + 1) div 2)"
  "round_up 4 n = 4 * ((n + 3) div 4)"
  by (simp_all add: round_up_def numeral_2_eq_2)

lemmas c_layout = pack_def

end
