(* ===== verification/CanTypes.thy ===== *)
theory CanTypes
  imports CLayout
begin

text \<open>
  The shared header of the CAN modules, \<^verbatim>\<open>src/src/candrv/rpmsg_connector_common.h\<close>: every
  enumeration, the structure of every module, the message, and the codes of the module functions. The
  members under the \<^verbatim>\<open>_USE_SIMULATION\<close> switches, which no build file sets, are not in the
  structures.
\<close>

definition ModuleInfo_str :: ctype where
  "ModuleInfo_str = CStruct [
    (''InWork'', CU8),
    (''ModuleIndex'', CU8)]"

definition ModuleSysData_str :: ctype where
  "ModuleSysData_str = CStruct [
    (''NodeID'', CU16),
    (''IDVendor'', CU32),
    (''IDProdCode'', CU32),
    (''IDRevision'', CU32),
    (''IDSerial'', CU32),
    (''HeatrbeatState'', CU8),
    (''HeatrbeatFl'', CU8),
    (''PDOCounter'', CU32),
    (''PDOCycle'', CU8)]"

definition UL_RESULT :: ctype where
  "UL_RESULT = c_enum [
    (''UL_OK'', Some 0), (''UL_SUCCESS'', None), (''UL_ERROR'', None), (''UL_NO_OPERATION'', None),
    (''UL_CAN_SDO_ERROR'', None), (''UL_INDEX_NOT_AVAIL'', None), (''UL_MODULE_DISCONNECTED'', None),
    (''UL_TYPE_NOT_AVAIL'', None), (''UL_MEM_OVERFLOW'', None), (''UL_MEM_NOT_AVAIL'', None),
    (''UL_MB_WRONG_COM'', None), (''UL_MB_WRONG_TYPE'', None), (''UL_MB_LOW_TIMEOUT'', None),
    (''UL_MB_WRONG_INDEX'', None), (''UL_FSM_TIMEOUT'', None), (''UL_FSM_NOT_AVAIL'', None),
    (''UL_FSM_NOT_EDIT_MODE'', None), (''UL_FSM_NO_FILE'', None), (''UL_FSM_NO_PATH'', None),
    (''UL_I2C_TIMEOUT'', None), (''UL_I2C_NOT_AVAIL'', None)]"

definition DevTypeK15_AI8 :: nat where "DevTypeK15_AI8 = 0x0100"

definition DevTypeK15_AO2 :: nat where "DevTypeK15_AO2 = 0x0200"

definition DevTypeK15_DI16 :: nat where "DevTypeK15_DI16 = 0x0300"

definition DevTypeK15_DO16 :: nat where "DevTypeK15_DO16 = 0x0400"

definition DevTypeK15_NAMUR :: nat where "DevTypeK15_NAMUR = 0x0500"

definition DevTypeK15_AI6 :: nat where "DevTypeK15_AI6 = 0x0600"

definition DevTypeK19_AI6p :: nat where "DevTypeK19_AI6p = 0x0700"

definition DevTypeK19_AI6a :: nat where "DevTypeK19_AI6a = 0x0800"

definition DevTypeK15_DO8pwr :: nat where "DevTypeK15_DO8pwr = 0x0900"

definition DevTypeK19_DI16 :: nat where "DevTypeK19_DI16 = 0x0A00"

definition DevTypeK19_DO16 :: nat where "DevTypeK19_DO16 = 0x0B00"

definition DevTypeK19_FIO :: nat where "DevTypeK19_FIO = 0x0C00"

definition DevTypeK19_CRM :: nat where "DevTypeK19_CRM = 0x0D00"

definition DevTypeK19_AO4 :: nat where "DevTypeK19_AO4 = 0x0E00"

definition DevTypeK19_SCM :: nat where "DevTypeK19_SCM = 0x0F00"

definition DevTypeK19_DIDO8 :: nat where "DevTypeK19_DIDO8 = 0x1000"

definition DevTypeK15_DO8 :: nat where "DevTypeK15_DO8 = 0x1100"

definition DevTypeK15_FDI8 :: nat where "DevTypeK15_FDI8 = 0x1200"

definition DevTypeUNKNOWN :: nat where "DevTypeUNKNOWN = 0xFF00"

lemmas DeviceType_defs = DevTypeK15_AI8_def DevTypeK15_AO2_def DevTypeK15_DI16_def DevTypeK15_DO16_def
  DevTypeK15_NAMUR_def DevTypeK15_AI6_def DevTypeK19_AI6p_def DevTypeK19_AI6a_def DevTypeK15_DO8pwr_def
  DevTypeK19_DI16_def DevTypeK19_DO16_def DevTypeK19_FIO_def DevTypeK19_CRM_def DevTypeK19_AO4_def
  DevTypeK19_SCM_def DevTypeK19_DIDO8_def DevTypeK15_DO8_def DevTypeK15_FDI8_def DevTypeUNKNOWN_def

definition UL_K15_DO16_OutState :: ctype where
  "UL_K15_DO16_OutState = c_enum [
    (''UL_K15_DO16_OutLow'', Some 0), (''UL_K15_DO16_OutHigh'', Some 1)]"

definition UL_K15_DO16_ScState :: ctype where
  "UL_K15_DO16_ScState = c_enum [
    (''UL_K15_DO16_NoSc'', Some 0), (''UL_K15_DO16_ScOccur'', Some 1)]"

definition K15_DO16_str :: ctype where
  "K15_DO16_str = CStruct [
    (''ModuleInfo'', ModuleInfo_str),
    (''Read'', CStruct [
      (''Out'', CArr 16 UL_K15_DO16_OutState),
      (''Sc'', CArr 16 UL_K15_DO16_ScState),
      (''Frequency'', CArr 12 CF32),
      (''Counter'', CArr 12 CU32),
      (''Status'', CStruct [
        (''CAN'', CU16),
        (''Firmware'', CU16),
        (''Hardware'', CU16)])]),
    (''Write'', CStruct [
      (''Out'', CArr 16 UL_K15_DO16_OutState)]),
    (''System'', ModuleSysData_str)]"

definition UL_K15_DI16_Channels :: ctype where
  "UL_K15_DI16_Channels = c_enum [
    (''UL_K15_DI16_CH1'', Some 0), (''UL_K15_DI16_CH2'', None), (''UL_K15_DI16_CH3'', None),
    (''UL_K15_DI16_CH4'', None), (''UL_K15_DI16_CH5'', None), (''UL_K15_DI16_CH6'', None),
    (''UL_K15_DI16_CH7'', None), (''UL_K15_DI16_CH8'', None), (''UL_K15_DI16_CH9'', None),
    (''UL_K15_DI16_CH10'', None), (''UL_K15_DI16_CH11'', None), (''UL_K15_DI16_CH12'', None),
    (''UL_K15_DI16_CH13'', None), (''UL_K15_DI16_CH14'', None), (''UL_K15_DI16_CH15'', None),
    (''UL_K15_DI16_CH16'', None)]"

definition UL_K15_DI16_ChState :: ctype where
  "UL_K15_DI16_ChState = c_enum [
    (''UL_K15_DI16_ChStLow'', Some 0), (''UL_K15_DI16_ChStHigh'', Some 1)]"

definition UL_K15_DI16_ChFilter :: ctype where
  "UL_K15_DI16_ChFilter = c_enum [
    (''UL_K15_DI16_Filter100Hz'', Some 3), (''UL_K15_DI16_Filter250Hz'', Some 2),
    (''UL_K15_DI16_Filter1000Hz'', Some 1), (''UL_K15_DI16_FilterNone'', Some 0)]"

definition K15_DI16_str :: ctype where
  "K15_DI16_str = CStruct [
    (''ModuleInfo'', ModuleInfo_str),
    (''Read'', CStruct [
      (''In'', CArr 16 UL_K15_DI16_ChState),
      (''Filter'', CArr 16 UL_K15_DI16_ChFilter),
      (''Counter'', CArr 16 CU32),
      (''Frequency'', CArr 12 CF32),
      (''Status'', CStruct [
        (''CAN'', CU16),
        (''Special'', CU16),
        (''Firmware'', CU16),
        (''Hardware'', CU16)])]),
    (''Write'', CStruct [
      (''Filter'', CArr 16 UL_K15_DI16_ChFilter)]),
    (''System'', ModuleSysData_str)]"

definition UL_K15_AI8_ADC_Status :: ctype where
  "UL_K15_AI8_ADC_Status = c_enum [
    (''UL_K15_AI8_ADC_Disabled'', Some 0), (''UL_K15_AI8_ADC_Enabled'', Some 1)]"

definition K15_AI8_str :: ctype where
  "K15_AI8_str = CStruct [
    (''ModuleInfo'', ModuleInfo_str),
    (''Read'', CStruct [
      (''Adc'', CArr 8 CU16),
      (''Data'', CArr 8 CF32),
      (''Temp'', CF32),
      (''ADCEnable'', UL_K15_AI8_ADC_Status),
      (''Status'', CStruct [
        (''CAN'', CU16),
        (''Firmware'', CU16),
        (''Hardware'', CU16)])]),
    (''System'', ModuleSysData_str)]"

definition UL_K15_AO2_ChEnable :: ctype where
  "UL_K15_AO2_ChEnable = c_enum [
    (''UL_K15_AO2_Disable'', Some 0), (''UL_K15_AO2_Enable'', Some 1)]"

definition UL_K15_AO2_ChSource :: ctype where
  "UL_K15_AO2_ChSource = c_enum [
    (''UL_K15_AO2_Voltage'', Some 0), (''UL_K15_AO2_Current'', Some 1)]"

definition UL_K15_AO2_ChTestmode :: ctype where
  "UL_K15_AO2_ChTestmode = c_enum [
    (''UL_K15_AO2_TestmodeOff'', Some 0), (''UL_K15_AO2_TestmodeOn'', Some 1)]"

definition K15_AO2_str :: ctype where
  "K15_AO2_str = CStruct [
    (''ModuleInfo'', ModuleInfo_str),
    (''Read'', CStruct [
      (''Out'', CArr 2 CF32),
      (''Enable'', CArr 2 UL_K15_AO2_ChEnable),
      (''Source'', CArr 2 UL_K15_AO2_ChSource),
      (''Test'', CArr 2 UL_K15_AO2_ChTestmode),
      (''Calb'', CArr 2 CF32),
      (''Status'', CStruct [
        (''CAN'', CU16),
        (''Firmware'', CU16),
        (''Hardware'', CU16),
        (''Dac1'', CU16),
        (''Dac2'', CU16),
        (''SPI'', CU16)])]),
    (''Write'', CStruct [
      (''Out'', CArr 2 CF32),
      (''Enable'', CArr 2 UL_K15_AO2_ChEnable),
      (''Source'', CArr 2 UL_K15_AO2_ChSource),
      (''Test'', CArr 2 UL_K15_AO2_ChTestmode)]),
    (''System'', ModuleSysData_str)]"

definition UL_K15_AI6_ADC_Status :: ctype where
  "UL_K15_AI6_ADC_Status = c_enum [
    (''UL_K15_AI6_ADC_Disabled'', Some 0), (''UL_K15_AI6_ADC_Enabled'', Some 1)]"

definition UL_K15_AI6_Source :: ctype where
  "UL_K15_AI6_Source = c_enum [
    (''UL_K15_AI6_SourceCurrent'', Some 0), (''UL_K15_AI6_SourceVoltage'', Some 1)]"

definition UL_K15_AI6_MeasType :: ctype where
  "UL_K15_AI6_MeasType = c_enum [
    (''UL_K15_AI6_MeasTypeBipolar'', Some 0), (''UL_K15_AI6_MeasTypeUnipolar'', Some 1)]"

definition K15_AI6_str :: ctype where
  "K15_AI6_str = CStruct [
    (''ModuleInfo'', ModuleInfo_str),
    (''Read'', CStruct [
      (''Adc'', CArr 6 CU16),
      (''Data'', CArr 6 CF32),
      (''Source'', CArr 6 UL_K15_AI6_Source),
      (''Type'', CArr 6 UL_K15_AI6_MeasType),
      (''Temp'', CF32),
      (''ADCEnable'', UL_K15_AI6_ADC_Status),
      (''Status'', CStruct [
        (''CAN'', CU16),
        (''Firmware'', CU16),
        (''Hardware'', CU16)])]),
    (''Write'', CStruct [
      (''Type'', CArr 6 UL_K15_AI6_MeasType)]),
    (''System'', ModuleSysData_str)]"

definition UL_K15_DO8pwr_Channels :: ctype where
  "UL_K15_DO8pwr_Channels = c_enum [
    (''UL_K15_DO8pwr_Ch1'', None), (''UL_K15_DO8pwr_Ch2'', None), (''UL_K15_DO8pwr_Ch3'', None),
    (''UL_K15_DO8pwr_Ch4'', None), (''UL_K15_DO8pwr_Ch5'', None), (''UL_K15_DO8pwr_Ch6'', None),
    (''UL_K15_DO8pwr_Ch7'', None), (''UL_K15_DO8pwr_Ch8'', None)]"

definition UL_K15_DO8pwr_OutState :: ctype where
  "UL_K15_DO8pwr_OutState = c_enum [
    (''UL_K15_DO8pwr_OutLow'', Some 0), (''UL_K15_DO8pwr_OutHigh'', Some 1)]"

definition K15_DO8pwr_str :: ctype where
  "K15_DO8pwr_str = CStruct [
    (''ModuleInfo'', ModuleInfo_str),
    (''Read'', CStruct [
      (''Out'', CArr 8 UL_K15_DO8pwr_OutState),
      (''Frequency'', CArr 8 CF32),
      (''Counter'', CArr 8 CU32),
      (''Status'', CStruct [
        (''CAN'', CU16),
        (''Firmware'', CU16),
        (''Hardware'', CU16)])]),
    (''Write'', CStruct [
      (''Out'', CArr 8 UL_K15_DO8pwr_OutState)]),
    (''System'', ModuleSysData_str)]"

definition UL_K15_NAM_ChState :: ctype where
  "UL_K15_NAM_ChState = c_enum [
    (''UL_K15_NAM_ChLow'', Some 0), (''UL_K15_NAM_ChHigh'', Some 1)]"

definition UL_K15_NAM_ScState :: ctype where
  "UL_K15_NAM_ScState = c_enum [
    (''UL_K15_NAM_NoSc'', Some 0), (''UL_K15_NAM_ScOccur'', Some 1)]"

definition UL_K15_NAM_WbState :: ctype where
  "UL_K15_NAM_WbState = c_enum [
    (''UL_K15_NAM_NoWb'', Some 0), (''UL_K15_NAM_WbOccur'', Some 1)]"

definition UL_K15_NAM_Inversion :: ctype where
  "UL_K15_NAM_Inversion = c_enum [
    (''UL_K15_NAM_InversionOff'', Some 0), (''UL_K15_NAM_InversionOn'', Some 1)]"

definition K15_NAM_str :: ctype where
  "K15_NAM_str = CStruct [
    (''ModuleInfo'', ModuleInfo_str),
    (''Read'', CStruct [
      (''In'', CArr 4 UL_K15_NAM_ChState),
      (''Sc'', CArr 4 UL_K15_NAM_ScState),
      (''Wb'', CArr 4 UL_K15_NAM_WbState),
      (''Inv'', CArr 4 UL_K15_NAM_Inversion),
      (''Status'', CStruct [
        (''CAN'', CU16),
        (''Firmware'', CU16),
        (''Hardware'', CU16),
        (''I2CErr'', CU16),
        (''StatI2C'', CU16)])]),
    (''Write'', CStruct [
      (''Inv'', CArr 4 UL_K15_NAM_Inversion)]),
    (''System'', ModuleSysData_str)]"

definition K19_AI6p_ChType :: ctype where
  "K19_AI6p_ChType = c_enum [
    (''K19_AI6p_ChType_mA_0_20'', Some 0), (''K19_AI6p_ChType_mA_4_20'', None),
    (''K19_AI6p_ChType_V_m10_10'', None), (''K19_AI6p_ChType_V_0_10'', None)]"

definition K19_AI6p_OutADCType :: ctype where
  "K19_AI6p_OutADCType = c_enum [
    (''K19_AI6p_OutType_ReducedADC'', Some 0), (''K19_AI6p_OutType_TrueADC'', None)]"

definition K19_AI6p_OutDataType :: ctype where
  "K19_AI6p_OutDataType = c_enum [
    (''K19_AI6p_OutType_ReducedData'', Some 0), (''K19_AI6p_OutType_TrueData'', None)]"

definition K19_AI6p_RedLEDAction :: ctype where
  "K19_AI6p_RedLEDAction = c_enum [
    (''K19_AI6p_RedLEDNormal'', Some 0), (''K19_AI6p_RedLEDBlocked'', None)]"

definition K19_AI6p_StateCh :: ctype where
  "K19_AI6p_StateCh = c_enum [
    (''K19_AI6p_StateCh_Normal'', Some 0), (''K19_AI6p_StateCh_Alarm'', None)]"

definition K19_AI6p_StateType :: ctype where
  "K19_AI6p_StateType = c_enum [
    (''K19_AI6p_StateType_mA'', Some 0), (''K19_AI6p_StateType_V'', None)]"

definition K19_AI6p_StateActive :: ctype where
  "K19_AI6p_StateActive = c_enum [
    (''K19_AI6p_StateActive_False'', Some 0), (''K19_AI6p_StateActive_True'', None)]"

definition K19_AI6p_StateRedLED :: ctype where
  "K19_AI6p_StateRedLED = c_enum [
    (''K19_AI6p_StateRedLED_OFF'', Some 0), (''K19_AI6p_StateRedLED_ON'', None)]"

definition K19_AI6p_str :: ctype where
  "K19_AI6p_str = CStruct [
    (''ModuleInfo'', ModuleInfo_str),
    (''Read'', CStruct [
      (''Adc'', CArr 6 CU16),
      (''Data'', CArr 6 CF32),
      (''ChType'', CArr 6 K19_AI6p_ChType),
      (''OutADCType'', CArr 6 K19_AI6p_OutADCType),
      (''OutDataType'', CArr 6 K19_AI6p_OutDataType),
      (''RedLEDAction'', CArr 6 K19_AI6p_RedLEDAction),
      (''StateCh'', CArr 6 K19_AI6p_StateCh),
      (''StateType'', CArr 6 K19_AI6p_StateType),
      (''StateActive'', CArr 6 K19_AI6p_StateActive),
      (''StateRedLED'', CArr 6 K19_AI6p_StateRedLED),
      (''Temp'', CF32),
      (''Status'', CStruct [
        (''CAN'', CU16),
        (''Firmware'', CU16),
        (''Hardware'', CU16)])]),
    (''Write'', CStruct [
      (''ChType'', CArr 6 K19_AI6p_ChType),
      (''OutADCType'', CArr 6 K19_AI6p_OutADCType),
      (''OutDataType'', CArr 6 K19_AI6p_OutDataType),
      (''RedLEDAction'', CArr 6 K19_AI6p_RedLEDAction)]),
    (''System'', ModuleSysData_str)]"

definition K19_AI6a_ChType :: ctype where
  "K19_AI6a_ChType = c_enum [
    (''K19_AI6a_ChType_mA_0_20'', Some 0), (''K19_AI6a_ChType_mA_4_20'', None)]"

definition K19_AI6a_OutADCType :: ctype where
  "K19_AI6a_OutADCType = c_enum [
    (''K19_AI6a_OutType_ReducedADC'', Some 0), (''K19_AI6a_OutType_TrueADC'', None)]"

definition K19_AI6a_OutDataType :: ctype where
  "K19_AI6a_OutDataType = c_enum [
    (''K19_AI6a_OutType_ReducedData'', Some 0), (''K19_AI6a_OutType_TrueData'', None)]"

definition K19_AI6a_RedLEDAction :: ctype where
  "K19_AI6a_RedLEDAction = c_enum [
    (''K19_AI6a_RedLEDNormal'', Some 0), (''K19_AI6a_RedLEDBlocked'', None)]"

definition K19_AI6a_StateCh :: ctype where
  "K19_AI6a_StateCh = c_enum [
    (''K19_AI6a_StateCh_Normal'', Some 0), (''K19_AI6a_StateCh_Alarm'', None)]"

definition K19_AI6a_StateActive :: ctype where
  "K19_AI6a_StateActive = c_enum [
    (''K19_AI6a_StateActive_False'', Some 0), (''K19_AI6a_StateActive_True'', None)]"

definition K19_AI6a_StateRedLED :: ctype where
  "K19_AI6a_StateRedLED = c_enum [
    (''K19_AI6a_StateRedLED_OFF'', Some 0), (''K19_AI6a_StateRedLED_ON'', None)]"

definition K19_AI6a_str :: ctype where
  "K19_AI6a_str = CStruct [
    (''ModuleInfo'', ModuleInfo_str),
    (''Read'', CStruct [
      (''Adc'', CArr 6 CU16),
      (''Data'', CArr 6 CF32),
      (''ChType'', CArr 6 K19_AI6a_ChType),
      (''OutADCType'', CArr 6 K19_AI6a_OutADCType),
      (''OutDataType'', CArr 6 K19_AI6a_OutDataType),
      (''RedLEDAction'', CArr 6 K19_AI6a_RedLEDAction),
      (''StateCh'', CArr 6 K19_AI6a_StateCh),
      (''StateActive'', CArr 6 K19_AI6a_StateActive),
      (''StateRedLED'', CArr 6 K19_AI6a_StateRedLED),
      (''Temp'', CF32),
      (''Status'', CStruct [
        (''CAN'', CU16),
        (''Firmware'', CU16),
        (''Hardware'', CU16)])]),
    (''Write'', CStruct [
      (''ChType'', CArr 6 K19_AI6a_ChType),
      (''OutADCType'', CArr 6 K19_AI6a_OutADCType),
      (''OutDataType'', CArr 6 K19_AI6a_OutDataType),
      (''RedLEDAction'', CArr 6 K19_AI6a_RedLEDAction)]),
    (''System'', ModuleSysData_str)]"

definition UL_K19_DI16_Channels :: ctype where
  "UL_K19_DI16_Channels = c_enum [
    (''UL_K19_DI16_CH1'', Some 0), (''UL_K19_DI16_CH2'', None), (''UL_K19_DI16_CH3'', None),
    (''UL_K19_DI16_CH4'', None), (''UL_K19_DI16_CH5'', None), (''UL_K19_DI16_CH6'', None),
    (''UL_K19_DI16_CH7'', None), (''UL_K19_DI16_CH8'', None), (''UL_K19_DI16_CH9'', None),
    (''UL_K19_DI16_CH10'', None), (''UL_K19_DI16_CH11'', None), (''UL_K19_DI16_CH12'', None),
    (''UL_K19_DI16_CH13'', None), (''UL_K19_DI16_CH14'', None), (''UL_K19_DI16_CH15'', None),
    (''UL_K19_DI16_CH16'', None)]"

definition UL_K19_DI16_ChState :: ctype where
  "UL_K19_DI16_ChState = c_enum [
    (''UL_K19_DI16_ChStLow'', Some 0), (''UL_K19_DI16_ChStHigh'', Some 1)]"

definition K19_DI16_str :: ctype where
  "K19_DI16_str = CStruct [
    (''ModuleInfo'', ModuleInfo_str),
    (''Read'', CStruct [
      (''In'', CArr 16 UL_K19_DI16_ChState),
      (''Counter'', CArr 16 CU32),
      (''Filter'', CU16),
      (''Status'', CStruct [
        (''CAN'', CU16),
        (''Firmware'', CU16),
        (''Hardware'', CU16)])]),
    (''Write'', CStruct [
      (''Filter'', CU16)]),
    (''System'', ModuleSysData_str)]"

definition UL_K19_DO16_Channels :: ctype where
  "UL_K19_DO16_Channels = c_enum [
    (''UL_K19_DO16_Ch1'', None), (''UL_K19_DO16_Ch2'', None), (''UL_K19_DO16_Ch3'', None),
    (''UL_K19_DO16_Ch4'', None), (''UL_K19_DO16_Ch5'', None), (''UL_K19_DO16_Ch6'', None),
    (''UL_K19_DO16_Ch7'', None), (''UL_K19_DO16_Ch8'', None), (''UL_K19_DO16_Ch9'', None),
    (''UL_K19_DO16_Ch10'', None), (''UL_K19_DO16_Ch11'', None), (''UL_K19_DO16_Ch12'', None),
    (''UL_K19_DO16_Ch13'', None), (''UL_K19_DO16_Ch14'', None), (''UL_K19_DO16_Ch15'', None),
    (''UL_K19_DO16_Ch16'', None)]"

definition UL_K19_DO16_OutState :: ctype where
  "UL_K19_DO16_OutState = c_enum [
    (''UL_K19_DO16_OutLow'', Some 0), (''UL_K19_DO16_OutHigh'', Some 1)]"

definition K19_DO16_str :: ctype where
  "K19_DO16_str = CStruct [
    (''ModuleInfo'', ModuleInfo_str),
    (''Read'', CStruct [
      (''Out'', CArr 16 UL_K19_DO16_OutState),
      (''Status'', CStruct [
        (''CAN'', CU16),
        (''Firmware'', CU16),
        (''Hardware'', CU16)])]),
    (''Write'', CStruct [
      (''Out'', CArr 16 UL_K19_DO16_OutState)]),
    (''System'', ModuleSysData_str)]"

definition K19_AO4_DataSetType :: ctype where
  "K19_AO4_DataSetType = c_enum [
    (''K19_AO4_DST_ReducedDAC'', Some 0), (''K19_AO4_DST_TrueUA'', None)]"

definition K19_AO4_ChType :: ctype where
  "K19_AO4_ChType = c_enum [
    (''K19_AO4_CT_Active'', Some 0), (''K19_AO4_CT_Passive'', None)]"

definition K19_AO4_str :: ctype where
  "K19_AO4_str = CStruct [
    (''ModuleInfo'', ModuleInfo_str),
    (''Read'', CStruct [
      (''DataSetType'', CArr 4 K19_AO4_DataSetType),
      (''ChType'', CArr 4 K19_AO4_ChType),
      (''Data'', CArr 4 CU16),
      (''Status'', CStruct [
        (''CAN'', CU16),
        (''Firmware'', CU16),
        (''Hardware'', CU16)])]),
    (''Write'', CStruct [
      (''DataSetType'', CArr 4 K19_AO4_DataSetType),
      (''Data'', CArr 4 CU16)]),
    (''System'', ModuleSysData_str)]"

definition UL_K15_DO8_Channels :: ctype where
  "UL_K15_DO8_Channels = c_enum [
    (''UL_K15_DO8_Ch1'', None), (''UL_K15_DO8_Ch2'', None), (''UL_K15_DO8_Ch3'', None),
    (''UL_K15_DO8_Ch4'', None), (''UL_K15_DO8_Ch5'', None), (''UL_K15_DO8_Ch6'', None),
    (''UL_K15_DO8_Ch7'', None), (''UL_K15_DO8_Ch8'', None)]"

definition UL_K15_DO8_OutState :: ctype where
  "UL_K15_DO8_OutState = c_enum [
    (''UL_K15_DO8_OutLow'', Some 0), (''UL_K15_DO8_OutHigh'', Some 1)]"

definition K15_DO8_str :: ctype where
  "K15_DO8_str = CStruct [
    (''ModuleInfo'', ModuleInfo_str),
    (''Read'', CStruct [
      (''Out'', CArr 8 UL_K15_DO8_OutState),
      (''Frequency'', CArr 8 CF32),
      (''Counter'', CArr 8 CU32),
      (''Status'', CStruct [
        (''CAN'', CU16),
        (''Firmware'', CU16),
        (''Hardware'', CU16)])]),
    (''Write'', CStruct [
      (''Out'', CArr 8 UL_K15_DO8_OutState)]),
    (''System'', ModuleSysData_str)]"

definition UL_K19_DIDO8_DI_Channels :: ctype where
  "UL_K19_DIDO8_DI_Channels = c_enum [
    (''UL_K19_DIDO8_DI_CH1'', Some 0), (''UL_K19_DIDO8_DI_CH2'', None),
    (''UL_K19_DIDO8_DI_CH3'', None), (''UL_K19_DIDO8_DI_CH4'', None), (''UL_K19_DIDO8_DI_CH5'', None),
    (''UL_K19_DIDO8_DI_CH6'', None), (''UL_K19_DIDO8_DI_CH7'', None), (''UL_K19_DIDO8_DI_CH8'', None)]"

definition UL_K19_DIDO8_DO_Channels :: ctype where
  "UL_K19_DIDO8_DO_Channels = c_enum [
    (''UL_K19_DIDO8_DO_CH1'', Some 0), (''UL_K19_DIDO8_DO_CH2'', None),
    (''UL_K19_DIDO8_DO_CH3'', None), (''UL_K19_DIDO8_DO_CH4'', None), (''UL_K19_DIDO8_DO_CH5'', None),
    (''UL_K19_DIDO8_DO_CH6'', None), (''UL_K19_DIDO8_DO_CH7'', None), (''UL_K19_DIDO8_DO_CH8'', None)]"

definition UL_K19_DIDO8_ChState :: ctype where
  "UL_K19_DIDO8_ChState = c_enum [
    (''UL_K19_DIDO8_ChStLow'', Some 0), (''UL_K19_DIDO8_ChStHigh'', Some 1)]"

definition K19_DIDO8_str :: ctype where
  "K19_DIDO8_str = CStruct [
    (''ModuleInfo'', ModuleInfo_str),
    (''Read'', CStruct [
      (''DI'', CArr 8 UL_K19_DIDO8_ChState),
      (''DO'', CArr 8 UL_K19_DIDO8_ChState),
      (''DICounter'', CArr 8 CU32),
      (''DIFilter'', CU16),
      (''Status'', CStruct [
        (''CAN'', CU16),
        (''Firmware'', CU16),
        (''Hardware'', CU16)])]),
    (''Write'', CStruct [
      (''DIFilter'', CU16),
      (''DO'', CArr 8 UL_K19_DIDO8_ChState)]),
    (''System'', ModuleSysData_str)]"

definition UL_K15_FDI8_Channels :: ctype where
  "UL_K15_FDI8_Channels = c_enum [
    (''UL_K15_FDI8_DiCh1'', Some 0), (''UL_K15_FDI8_DiCh2'', None), (''UL_K15_FDI8_DiCh3'', None),
    (''UL_K15_FDI8_DiCh4'', None), (''UL_K15_FDI8_DiFiCh5'', None), (''UL_K15_FDI8_DiFiCh6'', None),
    (''UL_K15_FDI8_DiFiCh7'', None), (''UL_K15_FDI8_DiFiCh8'', None)]"

definition UL_K15_FDI8_DiState :: ctype where
  "UL_K15_FDI8_DiState = c_enum [
    (''UL_K15_FDI8_DiSt_Low'', Some 0), (''UL_K15_FDI8_DiSt_High'', None)]"

definition K15_FDI8_DiCh_t :: ctype where
  "K15_FDI8_DiCh_t = CStruct [
    (''In'', UL_K15_FDI8_DiState),
    (''Counter'', CU32),
    (''DiFilter'', CU16)]"

definition K15_FDI8_FiCh_t :: ctype where
  "K15_FDI8_FiCh_t = CStruct [
    (''In'', UL_K15_FDI8_DiState),
    (''Counter'', CU32),
    (''DiFilter'', CU16),
    (''Frequency'', CF32),
    (''FiFilter'', CU16)]"

definition K15_FDI8_str :: ctype where
  "K15_FDI8_str = CStruct [
    (''ModuleInfo'', ModuleInfo_str),
    (''Read'', CStruct [
      (''DiCh'', CArr 4 K15_FDI8_DiCh_t),
      (''FiCh'', CArr 4 K15_FDI8_FiCh_t),
      (''Status'', CStruct [
        (''CAN'', CU16),
        (''Firmware'', CU16),
        (''Hardware'', CU16)])]),
    (''System'', ModuleSysData_str)]"

definition UL_K19_FIO_InChannels :: ctype where
  "UL_K19_FIO_InChannels = c_enum [
    (''UL_K19_FIO_InCh1'', Some 0), (''UL_K19_FIO_InCh2'', None), (''UL_K19_FIO_InCh3'', None),
    (''UL_K19_FIO_InCh4'', None)]"

definition K19_FIO_OutType :: ctype where
  "K19_FIO_OutType = c_enum [
    (''K19_FIO_OUT_NONE'', Some 0), (''K19_FIO_OUT_CH1'', None), (''K19_FIO_OUT_CH2'', None),
    (''K19_FIO_OUT_CH3'', None), (''K19_FIO_OUT_CH4'', None), (''K19_FIO_OUT_SizeDef'', Some 0xFFFF)]"

definition K19_FIO_str :: ctype where
  "K19_FIO_str = CStruct [
    (''ModuleInfo'', ModuleInfo_str),
    (''Read'', CStruct [
      (''Frequency'', CArr 4 CF32),
      (''Counter'', CArr 4 CU32),
      (''Filter'', CArr 4 CU16),
      (''OutType'', K19_FIO_OutType),
      (''Status'', CStruct [
        (''CAN'', CU16),
        (''Firmware'', CU16),
        (''Hardware'', CU16)])]),
    (''Write'', CStruct [
      (''OutType'', K19_FIO_OutType)]),
    (''System'', ModuleSysData_str)]"

definition K19_CRM_MeasureState :: ctype where
  "K19_CRM_MeasureState = c_enum [
    (''K19_CRM_Meas_Idle'', Some 0), (''K19_CRM_Meas_WaitForFirst'', None),
    (''K19_CRM_Meas_WaitForSecond'', None), (''K19_CRM_Meas_Finished'', None),
    (''K19_CRM_Meas_Timeout'', None)]"

definition K19_CRM_Commands :: ctype where
  "K19_CRM_Commands = c_enum [
    (''K19_CRM_Command_Idle'', Some 0), (''K19_CRM_Command_StartMeasure'', None),
    (''K19_CRM_Command_StopMeasure'', None)]"

definition K19_CRM_str :: ctype where
  "K19_CRM_str = CStruct [
    (''ModuleInfo'', ModuleInfo_str),
    (''Read'', CStruct [
      (''Command'', K19_CRM_Commands),
      (''MeasureState'', CArr 2 K19_CRM_MeasureState),
      (''MeasureTimeUs'', CArr 2 CF32),
      (''MeasureImpulseNmb'', CArr 2 CF32),
      (''Frequency'', CF32),
      (''DIStat'', CBits [''Ch1Stat'', ''Ch2Stat'', ''Ch3Stat'', ''Ch4Stat'']),
      (''Filter'', CU16),
      (''Status'', CStruct [
        (''CAN'', CU16),
        (''Firmware'', CU16),
        (''Hardware'', CU16)])]),
    (''System'', ModuleSysData_str)]"

definition K19_SCM_Channel_t :: ctype where
  "K19_SCM_Channel_t = c_enum [
    (''K19_SCM_Ch1'', Some 0), (''K19_SCM_Ch2'', None), (''K19_SCM_Ch3'', None),
    (''K19_SCM_Ch4'', None), (''K19_SCM_Ch_SizeDef'', Some 0xFFFF)]"

definition K19_SCM_COMType :: ctype where
  "K19_SCM_COMType = c_enum [
    (''K19_SCM_COMT_485only'', Some 0), (''K19_SCM_COMT_485'', None), (''K19_SCM_COMT_232'', None),
    (''K19_SCM_COMT_SizeDef'', Some 0xFFFF)]"

definition K19_SCM_Baudrate :: ctype where
  "K19_SCM_Baudrate = c_enum [
    (''K19_SCM_BR_9600'', Some 0), (''K19_SCM_BR_14400'', None), (''K19_SCM_BR_19200'', None),
    (''K19_SCM_BR_28800'', None), (''K19_SCM_BR_38400'', None), (''K19_SCM_BR_56000'', None),
    (''K19_SCM_BR_57600'', None), (''K19_SCM_BR_115200'', None), (''K19_SCM_BR_Undef'', Some 0x0F),
    (''K19_SCM_BR_SizeDef'', Some 0xFFFF)]"

definition K19_SCM_StopBits :: ctype where
  "K19_SCM_StopBits = c_enum [
    (''K19_SCM_SB_1'', Some 0), (''K19_SCM_SB_2'', None), (''K19_SCM_SB_SizeDef'', Some 0xFFFF)]"

definition K19_SCM_Parity :: ctype where
  "K19_SCM_Parity = c_enum [
    (''K19_SCM_Parity_None'', Some 0), (''K19_SCM_Parity_Even'', None), (''K19_SCM_Parity_Odd'', None),
    (''K19_SCM_Parity_SizeDef'', Some 0xFFFF)]"

definition K19_SCM_BuffCfg :: ctype where
  "K19_SCM_BuffCfg = c_enum [
    (''K19_SCM_BC_16_64'', Some 0), (''K19_SCM_BC_8_128'', None), (''K19_SCM_BC_4_256'', None),
    (''K19_SCM_BC_SizeDef'', Some 0xFFFF)]"

definition K19_SCM_ExchangeResult :: ctype where
  "K19_SCM_ExchangeResult = c_enum [
    (''K19_SCM_ER_Success'', Some 0), (''K19_SCM_ER_WrongKey'', None),
    (''K19_SCM_ER_WrongIndex'', None), (''K19_SCM_ER_BufferEmpty'', None),
    (''K19_SCM_ER_BufferFull'', None), (''K19_SCM_ER_WrongStatus'', None),
    (''K19_SCM_ER_WrongPart'', None), (''K19_SCM_ER_WrongLen'', None), (''K19_SCM_ER_WrongCh'', None),
    (''K19_SCM_ER_NotDefined'', None), (''K19_SCM_ER_SizeDef'', Some 0xFFFF)]"

definition K19_SCM_WriteSettings_t :: ctype where
  "K19_SCM_WriteSettings_t = CStruct [
    (''Ch'', K19_SCM_Channel_t),
    (''Baudrate'', K19_SCM_Baudrate),
    (''StopBits'', K19_SCM_StopBits),
    (''Parity'', K19_SCM_Parity),
    (''COMType'', K19_SCM_COMType),
    (''SepDelayMs'', CU8),
    (''RxbuffCfg'', K19_SCM_BuffCfg),
    (''TxbuffCfg'', K19_SCM_BuffCfg)]"

definition K19_SCM_Ch_t :: ctype where
  "K19_SCM_Ch_t = CStruct [
    (''Baudrate'', CU16),
    (''StopBits'', CU16),
    (''Parity'', CU16),
    (''COMType'', CU16),
    (''SepDelayMs'', CU16),
    (''RxPacketsPending'', CU16),
    (''RxBuffCfg'', CU16),
    (''TxPacketsPending'', CU16),
    (''TxBuffCfg'', CU16)]"

definition K19_SCM_str :: ctype where
  "K19_SCM_str = CStruct [
    (''ModuleInfo'', ModuleInfo_str),
    (''Read'', CStruct [
      (''Ch'', CArr 4 K19_SCM_Ch_t),
      (''Status'', CStruct [
        (''CAN'', CU16),
        (''Firmware'', CU16),
        (''Hardware'', CU16)])]),
    (''System'', ModuleSysData_str)]"

definition k15do16_e :: ctype where
  "k15do16_e = c_enum [
    (''_M0'', Some 0), (''_M1'', None), (''_M2'', None), (''_M3'', None), (''_M4'', None),
    (''_M5'', None), (''_M6'', None), (''_M7'', None)]"

definition KXX_str :: ctype where
  "KXX_str = CStruct [
    (''ch'', CU16),
    (''enable'', CU16),
    (''type'', CU16),
    (''state'', CU16),
    (''firstDotUA'', CU16),
    (''secondDotUA'', CU16),
    (''diFilter'', CU16),
    (''fiFilter'', CU16),
    (''filter'', CU16),
    (''dot'', CU8),
    (''frequency'', CF32),
    (''out'', CF32),
    (''data'', CU32)]"

definition K19_SCMex_str :: ctype where
  "K19_SCMex_str = CStruct [
    (''Ch'', CU8),
    (''len'', CU16),
    (''exchangeResult'', K19_SCM_ExchangeResult),
    (''overflowFl'', CU8),
    (''data'', CArr 256 CU8)]"

definition THE_MESSAGE :: ctype where
  "THE_MESSAGE = CStruct [
    (''head'', CStruct [
      (''packet_id'', CU32),
      (''m_data_len'', CU32),
      (''packet_counter'', CU64),
      (''m_func'', CU32),
      (''m_status'', CU32),
      (''m_idx'', CU32),
      (''m_addr'', CU32)]),
    (''data'', CUnion [
      (''kxx_str'', KXX_str),
      (''scm_exchange_str'', K19_SCMex_str),
      (''scm_settings_str'', K19_SCM_WriteSettings_t),
      (''k15do16_str'', K15_DO16_str),
      (''k15di16_str'', K15_DI16_str),
      (''k15ai8_str'', K15_AI8_str),
      (''k15ao2_str'', K15_AO2_str),
      (''k15ai6_str'', K15_AI6_str),
      (''k15do8pwr_str'', K15_DO8pwr_str),
      (''k15nam_str'', K15_NAM_str),
      (''k19ai6p_str'', K19_AI6p_str),
      (''k19ai6a_str'', K19_AI6a_str),
      (''k19di16_str'', K19_DI16_str),
      (''k19do16_str'', K19_DO16_str),
      (''k19ao4_str'', K19_AO4_str),
      (''k15do8_str'', K15_DO8_str),
      (''k19dido8_str'', K19_DIDO8_str),
      (''k15fdi8_str'', K15_FDI8_str),
      (''k19fio_str'', K19_FIO_str),
      (''k19crm_str'', K19_CRM_str),
      (''k19scm_str'', K19_SCM_str),
      (''DATA8'', CArr 256 CU8),
      (''DATA16'', CArr 128 CU16),
      (''DATA32'', CArr 64 CU32)]),
    (''tail'', CArr 16 CU8)]"

definition K15_DI16_ModuleReadAll :: nat where "K15_DI16_ModuleReadAll = DevTypeK15_DI16 + 1"

definition K15_DI16_ModuleExchange :: nat where "K15_DI16_ModuleExchange = K15_DI16_ModuleReadAll + 1"

definition K15_DI16_ClearCounter :: nat where "K15_DI16_ClearCounter = K15_DI16_ModuleExchange + 1"

definition K15_DI16_ReceiveCounter :: nat where "K15_DI16_ReceiveCounter = K15_DI16_ClearCounter + 1"

definition K15_DI16_ReadData :: nat where "K15_DI16_ReadData = K15_DI16_ReceiveCounter + 1"

definition K15_DI16_WriteData :: nat where "K15_DI16_WriteData = K15_DI16_ReadData + 1"

definition K15_DO16_ModuleReadAll :: nat where "K15_DO16_ModuleReadAll = DevTypeK15_DO16 + 1"

definition K15_DO16_ModuleExchange :: nat where "K15_DO16_ModuleExchange = K15_DO16_ModuleReadAll + 1"

definition K15_DO16_ChSet :: nat where "K15_DO16_ChSet = K15_DO16_ModuleExchange + 1"

definition K15_DO16_ReadData :: nat where "K15_DO16_ReadData = K15_DO16_ChSet + 1"

definition K15_DO16_WriteData :: nat where "K15_DO16_WriteData = K15_DO16_ReadData + 1"

definition K15_AI8_ModuleReadAll :: nat where "K15_AI8_ModuleReadAll = DevTypeK15_AI8 + 1"

definition K15_AI8_ModuleExchange :: nat where "K15_AI8_ModuleExchange = K15_AI8_ModuleReadAll + 1"

definition K15_AI8_ADC_Enable :: nat where "K15_AI8_ADC_Enable = K15_AI8_ModuleExchange + 1"

definition K15_AI8_ADC_Disable :: nat where "K15_AI8_ADC_Disable = K15_AI8_ADC_Enable + 1"

definition K15_AO2_ModuleReadAll :: nat where "K15_AO2_ModuleReadAll = DevTypeK15_AO2 + 1"

definition K15_AO2_ModuleExchange :: nat where "K15_AO2_ModuleExchange = K15_AO2_ModuleReadAll + 1"

definition K15_AO2_DAC1_control :: nat where "K15_AO2_DAC1_control = K15_AO2_ModuleExchange + 1"

definition K15_AO2_DAC2_control :: nat where "K15_AO2_DAC2_control = K15_AO2_DAC1_control + 1"

definition K15_AO2_WriteData :: nat where "K15_AO2_WriteData = K15_AO2_DAC2_control + 1"

definition K15_AI6_ModuleReadAll :: nat where "K15_AI6_ModuleReadAll = DevTypeK15_AI6 + 1"

definition K15_AI6_ModuleExchange :: nat where "K15_AI6_ModuleExchange = K15_AI6_ModuleReadAll + 1"

definition K15_AI6_ADC_Enable :: nat where "K15_AI6_ADC_Enable = K15_AI6_ModuleExchange + 1"

definition K15_AI6_ADC_Disable :: nat where "K15_AI6_ADC_Disable = K15_AI6_ADC_Enable + 1"

definition K15_DO8pwr_ModuleReadAll :: nat where "K15_DO8pwr_ModuleReadAll = DevTypeK15_DO8pwr + 1"

definition K15_DO8pwr_ModuleExchange :: nat where "K15_DO8pwr_ModuleExchange = K15_DO8pwr_ModuleReadAll + 1"

definition K15_DO8pwr_ChSet :: nat where "K15_DO8pwr_ChSet = K15_DO8pwr_ModuleExchange + 1"

definition K15_DO8pwr_ReadData :: nat where "K15_DO8pwr_ReadData = K15_DO8pwr_ChSet + 1"

definition K15_DO8pwr_WriteData :: nat where "K15_DO8pwr_WriteData = K15_DO8pwr_ReadData + 1"

definition K15_NAM_ModuleReadAll :: nat where "K15_NAM_ModuleReadAll = DevTypeK15_NAMUR + 1"

definition K15_NAM_ModuleExchange :: nat where "K15_NAM_ModuleExchange = K15_NAM_ModuleReadAll + 1"

definition K15_NAM_WriteData :: nat where "K15_NAM_WriteData = K15_NAM_ModuleExchange + 1"

definition K19_AI6p_ModuleReadAll :: nat where "K19_AI6p_ModuleReadAll = DevTypeK19_AI6p + 1"

definition K19_AI6p_ModuleExchange :: nat where "K19_AI6p_ModuleExchange = K19_AI6p_ModuleReadAll + 1"

definition K19_AI6p_CorrSave :: nat where "K19_AI6p_CorrSave = K19_AI6p_ModuleExchange + 1"

definition K19_AI6p_CorrClear :: nat where "K19_AI6p_CorrClear = K19_AI6p_CorrSave + 1"

definition K19_AI6p_CorrSetDot :: nat where "K19_AI6p_CorrSetDot = K19_AI6p_CorrClear + 1"

definition K19_AI6a_ModuleReadAll :: nat where "K19_AI6a_ModuleReadAll = DevTypeK19_AI6a + 1"

definition K19_AI6a_ModuleExchange :: nat where "K19_AI6a_ModuleExchange = K19_AI6a_ModuleReadAll + 1"

definition K19_AI6a_CorrSave :: nat where "K19_AI6a_CorrSave = K19_AI6a_ModuleExchange + 1"

definition K19_AI6a_CorrClear :: nat where "K19_AI6a_CorrClear = K19_AI6a_CorrSave + 1"

definition K19_AI6a_CorrSetDot :: nat where "K19_AI6a_CorrSetDot = K19_AI6a_CorrClear + 1"

definition K19_DI16_ModuleReadAll :: nat where "K19_DI16_ModuleReadAll = DevTypeK19_DI16 + 1"

definition K19_DI16_ModuleExchange :: nat where "K19_DI16_ModuleExchange = K19_DI16_ModuleReadAll + 1"

definition K19_DI16_ClearCounter :: nat where "K19_DI16_ClearCounter = K19_DI16_ModuleExchange + 1"

definition K19_DI16_ReceiveCounter :: nat where "K19_DI16_ReceiveCounter = K19_DI16_ClearCounter + 1"

definition K19_DI16_ReadData :: nat where "K19_DI16_ReadData = K19_DI16_ReceiveCounter + 1"

definition K19_DI16_WriteData :: nat where "K19_DI16_WriteData = K19_DI16_ReadData + 1"

definition K19_DO16_ModuleReadAll :: nat where "K19_DO16_ModuleReadAll = DevTypeK19_DO16 + 1"

definition K19_DO16_ModuleExchange :: nat where "K19_DO16_ModuleExchange = K19_DO16_ModuleReadAll + 1"

definition K19_DO16_ReadData :: nat where "K19_DO16_ReadData = K19_DO16_ModuleExchange + 1"

definition K19_DO16_WriteData :: nat where "K19_DO16_WriteData = K19_DO16_ReadData + 1"

definition K19_AO4_ModuleReadAll :: nat where "K19_AO4_ModuleReadAll = DevTypeK19_AO4 + 1"

definition K19_AO4_ModuleExchange :: nat where "K19_AO4_ModuleExchange = K19_AO4_ModuleReadAll + 1"

definition K19_AO4_ReadData :: nat where "K19_AO4_ReadData = K19_AO4_ModuleExchange + 1"

definition K19_AO4_WriteData :: nat where "K19_AO4_WriteData = K19_AO4_ReadData + 1"

definition K19_AO4_CalibrationHandler :: nat where "K19_AO4_CalibrationHandler = K19_AO4_WriteData + 1"

definition K15_DO8_ModuleReadAll :: nat where "K15_DO8_ModuleReadAll = DevTypeK15_DO8 + 1"

definition K15_DO8_ModuleExchange :: nat where "K15_DO8_ModuleExchange = K15_DO8_ModuleReadAll + 1"

definition K15_DO8_ChSet :: nat where "K15_DO8_ChSet = K15_DO8_ModuleExchange + 1"

definition K15_DO8_ReadData :: nat where "K15_DO8_ReadData = K15_DO8_ChSet + 1"

definition K15_DO8_WriteData :: nat where "K15_DO8_WriteData = K15_DO8_ReadData + 1"

definition K19_DIDO8_ModuleReadAll :: nat where "K19_DIDO8_ModuleReadAll = DevTypeK19_DIDO8 + 1"

definition K19_DIDO8_ModuleExchange :: nat where "K19_DIDO8_ModuleExchange = K19_DIDO8_ModuleReadAll + 1"

definition K19_DIDO8_ClearCounter :: nat where "K19_DIDO8_ClearCounter = K19_DIDO8_ModuleExchange + 1"

definition K19_DIDO8_ReceiveCounter :: nat where "K19_DIDO8_ReceiveCounter = K19_DIDO8_ClearCounter + 1"

definition K19_DIDO8_ReadData :: nat where "K19_DIDO8_ReadData = K19_DIDO8_ReceiveCounter + 1"

definition K19_DIDO8_WriteData :: nat where "K19_DIDO8_WriteData = K19_DIDO8_ReadData + 1"

definition K15_FDI8_ModuleReadAll :: nat where "K15_FDI8_ModuleReadAll = DevTypeK15_FDI8 + 1"

definition K15_FDI8_ModuleExchange :: nat where "K15_FDI8_ModuleExchange = K15_FDI8_ModuleReadAll + 1"

definition K15_FDI8_ClearCounter :: nat where "K15_FDI8_ClearCounter = K15_FDI8_ModuleExchange + 1"

definition K15_FDI8_SetDiFilter :: nat where "K15_FDI8_SetDiFilter = K15_FDI8_ClearCounter + 1"

definition K15_FDI8_SetFiFilter :: nat where "K15_FDI8_SetFiFilter = K15_FDI8_SetDiFilter + 1"

definition K15_FDI8_ReadData :: nat where "K15_FDI8_ReadData = K15_FDI8_SetFiFilter + 1"

definition K15_FDI8_WriteData :: nat where "K15_FDI8_WriteData = K15_FDI8_ReadData + 1"

definition K19_FIO_ModuleReadAll :: nat where "K19_FIO_ModuleReadAll = DevTypeK19_FIO + 1"

definition K19_FIO_ModuleExchange :: nat where "K19_FIO_ModuleExchange = K19_FIO_ModuleReadAll + 1"

definition K19_FIO_ClearCounter :: nat where "K19_FIO_ClearCounter = K19_FIO_ModuleExchange + 1"

definition K19_FIO_SetFilter :: nat where "K19_FIO_SetFilter = K19_FIO_ClearCounter + 1"

definition K19_FIO_ReadData :: nat where "K19_FIO_ReadData = K19_FIO_SetFilter + 1"

definition K19_FIO_WriteData :: nat where "K19_FIO_WriteData = K19_FIO_ReadData + 1"

definition K19_CRM_ModuleReadAll :: nat where "K19_CRM_ModuleReadAll = DevTypeK19_CRM + 1"

definition K19_CRM_ModuleExchange :: nat where "K19_CRM_ModuleExchange = K19_CRM_ModuleReadAll + 1"

definition K19_CRM_SetFilter :: nat where "K19_CRM_SetFilter = K19_CRM_ModuleExchange + 1"

definition K19_CRM_MeasureStart :: nat where "K19_CRM_MeasureStart = K19_CRM_SetFilter + 1"

definition K19_CRM_MeasureStop :: nat where "K19_CRM_MeasureStop = K19_CRM_MeasureStart + 1"

definition K19_SCM_ModuleReadAll :: nat where "K19_SCM_ModuleReadAll = DevTypeK19_SCM + 1"

definition K19_SCM_ModuleExchange :: nat where "K19_SCM_ModuleExchange = K19_SCM_ModuleReadAll + 1"

definition K19_SCM_ReadPacket :: nat where "K19_SCM_ReadPacket = K19_SCM_ModuleExchange + 1"

definition K19_SCM_WritePacket :: nat where "K19_SCM_WritePacket = K19_SCM_ReadPacket + 1"

definition K19_SCM_WriteSettings :: nat where "K19_SCM_WriteSettings = K19_SCM_WritePacket + 1"

lemmas ModulesFunc_defs = K15_DI16_ModuleReadAll_def K15_DI16_ModuleExchange_def
  K15_DI16_ClearCounter_def K15_DI16_ReceiveCounter_def K15_DI16_ReadData_def K15_DI16_WriteData_def
  K15_DO16_ModuleReadAll_def K15_DO16_ModuleExchange_def K15_DO16_ChSet_def K15_DO16_ReadData_def
  K15_DO16_WriteData_def K15_AI8_ModuleReadAll_def K15_AI8_ModuleExchange_def K15_AI8_ADC_Enable_def
  K15_AI8_ADC_Disable_def K15_AO2_ModuleReadAll_def K15_AO2_ModuleExchange_def K15_AO2_DAC1_control_def
  K15_AO2_DAC2_control_def K15_AO2_WriteData_def K15_AI6_ModuleReadAll_def K15_AI6_ModuleExchange_def
  K15_AI6_ADC_Enable_def K15_AI6_ADC_Disable_def K15_DO8pwr_ModuleReadAll_def
  K15_DO8pwr_ModuleExchange_def K15_DO8pwr_ChSet_def K15_DO8pwr_ReadData_def K15_DO8pwr_WriteData_def
  K15_NAM_ModuleReadAll_def K15_NAM_ModuleExchange_def K15_NAM_WriteData_def K19_AI6p_ModuleReadAll_def
  K19_AI6p_ModuleExchange_def K19_AI6p_CorrSave_def K19_AI6p_CorrClear_def K19_AI6p_CorrSetDot_def
  K19_AI6a_ModuleReadAll_def K19_AI6a_ModuleExchange_def K19_AI6a_CorrSave_def K19_AI6a_CorrClear_def
  K19_AI6a_CorrSetDot_def K19_DI16_ModuleReadAll_def K19_DI16_ModuleExchange_def
  K19_DI16_ClearCounter_def K19_DI16_ReceiveCounter_def K19_DI16_ReadData_def K19_DI16_WriteData_def
  K19_DO16_ModuleReadAll_def K19_DO16_ModuleExchange_def K19_DO16_ReadData_def K19_DO16_WriteData_def
  K19_AO4_ModuleReadAll_def K19_AO4_ModuleExchange_def K19_AO4_ReadData_def K19_AO4_WriteData_def
  K19_AO4_CalibrationHandler_def K15_DO8_ModuleReadAll_def K15_DO8_ModuleExchange_def K15_DO8_ChSet_def
  K15_DO8_ReadData_def K15_DO8_WriteData_def K19_DIDO8_ModuleReadAll_def K19_DIDO8_ModuleExchange_def
  K19_DIDO8_ClearCounter_def K19_DIDO8_ReceiveCounter_def K19_DIDO8_ReadData_def
  K19_DIDO8_WriteData_def K15_FDI8_ModuleReadAll_def K15_FDI8_ModuleExchange_def
  K15_FDI8_ClearCounter_def K15_FDI8_SetDiFilter_def K15_FDI8_SetFiFilter_def K15_FDI8_ReadData_def
  K15_FDI8_WriteData_def K19_FIO_ModuleReadAll_def K19_FIO_ModuleExchange_def K19_FIO_ClearCounter_def
  K19_FIO_SetFilter_def K19_FIO_ReadData_def K19_FIO_WriteData_def K19_CRM_ModuleReadAll_def
  K19_CRM_ModuleExchange_def K19_CRM_SetFilter_def K19_CRM_MeasureStart_def K19_CRM_MeasureStop_def
  K19_SCM_ModuleReadAll_def K19_SCM_ModuleExchange_def K19_SCM_ReadPacket_def K19_SCM_WritePacket_def
  K19_SCM_WriteSettings_def

section \<open>Sizes and alignments\<close>

lemma c_enum_layout [simp]: "size_of (c_enum es) = 1" "align_of (c_enum es) = 1"
  by (simp_all add: c_enum_def)

lemma ModuleInfo_str_layout [simp]: "size_of ModuleInfo_str = 2" "align_of ModuleInfo_str = 1"
  by (simp_all add: ModuleInfo_str_def c_layout)

lemma ModuleSysData_str_layout [simp]: "size_of ModuleSysData_str = 32" "align_of ModuleSysData_str = 4"
  by (simp_all add: ModuleSysData_str_def c_layout)

lemma UL_RESULT_layout [simp]: "size_of UL_RESULT = 1" "align_of UL_RESULT = 1"
  by (simp_all add: UL_RESULT_def)

lemma UL_K15_DO16_OutState_layout [simp]: "size_of UL_K15_DO16_OutState = 1" "align_of UL_K15_DO16_OutState = 1"
  by (simp_all add: UL_K15_DO16_OutState_def)

lemma UL_K15_DO16_ScState_layout [simp]: "size_of UL_K15_DO16_ScState = 1" "align_of UL_K15_DO16_ScState = 1"
  by (simp_all add: UL_K15_DO16_ScState_def)

lemma K15_DO16_str_layout [simp]: "size_of K15_DO16_str = 188" "align_of K15_DO16_str = 4"
  by (simp_all add: K15_DO16_str_def c_layout)

lemma UL_K15_DI16_Channels_layout [simp]: "size_of UL_K15_DI16_Channels = 1" "align_of UL_K15_DI16_Channels = 1"
  by (simp_all add: UL_K15_DI16_Channels_def)

lemma UL_K15_DI16_ChState_layout [simp]: "size_of UL_K15_DI16_ChState = 1" "align_of UL_K15_DI16_ChState = 1"
  by (simp_all add: UL_K15_DI16_ChState_def)

lemma UL_K15_DI16_ChFilter_layout [simp]: "size_of UL_K15_DI16_ChFilter = 1" "align_of UL_K15_DI16_ChFilter = 1"
  by (simp_all add: UL_K15_DI16_ChFilter_def)

lemma K15_DI16_str_layout [simp]: "size_of K15_DI16_str = 204" "align_of K15_DI16_str = 4"
  by (simp_all add: K15_DI16_str_def c_layout)

lemma UL_K15_AI8_ADC_Status_layout [simp]: "size_of UL_K15_AI8_ADC_Status = 1" "align_of UL_K15_AI8_ADC_Status = 1"
  by (simp_all add: UL_K15_AI8_ADC_Status_def)

lemma K15_AI8_str_layout [simp]: "size_of K15_AI8_str = 96" "align_of K15_AI8_str = 4"
  by (simp_all add: K15_AI8_str_def c_layout)

lemma UL_K15_AO2_ChEnable_layout [simp]: "size_of UL_K15_AO2_ChEnable = 1" "align_of UL_K15_AO2_ChEnable = 1"
  by (simp_all add: UL_K15_AO2_ChEnable_def)

lemma UL_K15_AO2_ChSource_layout [simp]: "size_of UL_K15_AO2_ChSource = 1" "align_of UL_K15_AO2_ChSource = 1"
  by (simp_all add: UL_K15_AO2_ChSource_def)

lemma UL_K15_AO2_ChTestmode_layout [simp]: "size_of UL_K15_AO2_ChTestmode = 1" "align_of UL_K15_AO2_ChTestmode = 1"
  by (simp_all add: UL_K15_AO2_ChTestmode_def)

lemma K15_AO2_str_layout [simp]: "size_of K15_AO2_str = 88" "align_of K15_AO2_str = 4"
  by (simp_all add: K15_AO2_str_def c_layout)

lemma UL_K15_AI6_ADC_Status_layout [simp]: "size_of UL_K15_AI6_ADC_Status = 1" "align_of UL_K15_AI6_ADC_Status = 1"
  by (simp_all add: UL_K15_AI6_ADC_Status_def)

lemma UL_K15_AI6_Source_layout [simp]: "size_of UL_K15_AI6_Source = 1" "align_of UL_K15_AI6_Source = 1"
  by (simp_all add: UL_K15_AI6_Source_def)

lemma UL_K15_AI6_MeasType_layout [simp]: "size_of UL_K15_AI6_MeasType = 1" "align_of UL_K15_AI6_MeasType = 1"
  by (simp_all add: UL_K15_AI6_MeasType_def)

lemma K15_AI6_str_layout [simp]: "size_of K15_AI6_str = 104" "align_of K15_AI6_str = 4"
  by (simp_all add: K15_AI6_str_def c_layout)

lemma UL_K15_DO8pwr_Channels_layout [simp]: "size_of UL_K15_DO8pwr_Channels = 1" "align_of UL_K15_DO8pwr_Channels = 1"
  by (simp_all add: UL_K15_DO8pwr_Channels_def)

lemma UL_K15_DO8pwr_OutState_layout [simp]: "size_of UL_K15_DO8pwr_OutState = 1" "align_of UL_K15_DO8pwr_OutState = 1"
  by (simp_all add: UL_K15_DO8pwr_OutState_def)

lemma K15_DO8pwr_str_layout [simp]: "size_of K15_DO8pwr_str = 124" "align_of K15_DO8pwr_str = 4"
  by (simp_all add: K15_DO8pwr_str_def c_layout)

lemma UL_K15_NAM_ChState_layout [simp]: "size_of UL_K15_NAM_ChState = 1" "align_of UL_K15_NAM_ChState = 1"
  by (simp_all add: UL_K15_NAM_ChState_def)

lemma UL_K15_NAM_ScState_layout [simp]: "size_of UL_K15_NAM_ScState = 1" "align_of UL_K15_NAM_ScState = 1"
  by (simp_all add: UL_K15_NAM_ScState_def)

lemma UL_K15_NAM_WbState_layout [simp]: "size_of UL_K15_NAM_WbState = 1" "align_of UL_K15_NAM_WbState = 1"
  by (simp_all add: UL_K15_NAM_WbState_def)

lemma UL_K15_NAM_Inversion_layout [simp]: "size_of UL_K15_NAM_Inversion = 1" "align_of UL_K15_NAM_Inversion = 1"
  by (simp_all add: UL_K15_NAM_Inversion_def)

lemma K15_NAM_str_layout [simp]: "size_of K15_NAM_str = 64" "align_of K15_NAM_str = 4"
  by (simp_all add: K15_NAM_str_def c_layout)

lemma K19_AI6p_ChType_layout [simp]: "size_of K19_AI6p_ChType = 1" "align_of K19_AI6p_ChType = 1"
  by (simp_all add: K19_AI6p_ChType_def)

lemma K19_AI6p_OutADCType_layout [simp]: "size_of K19_AI6p_OutADCType = 1" "align_of K19_AI6p_OutADCType = 1"
  by (simp_all add: K19_AI6p_OutADCType_def)

lemma K19_AI6p_OutDataType_layout [simp]: "size_of K19_AI6p_OutDataType = 1" "align_of K19_AI6p_OutDataType = 1"
  by (simp_all add: K19_AI6p_OutDataType_def)

lemma K19_AI6p_RedLEDAction_layout [simp]: "size_of K19_AI6p_RedLEDAction = 1" "align_of K19_AI6p_RedLEDAction = 1"
  by (simp_all add: K19_AI6p_RedLEDAction_def)

lemma K19_AI6p_StateCh_layout [simp]: "size_of K19_AI6p_StateCh = 1" "align_of K19_AI6p_StateCh = 1"
  by (simp_all add: K19_AI6p_StateCh_def)

lemma K19_AI6p_StateType_layout [simp]: "size_of K19_AI6p_StateType = 1" "align_of K19_AI6p_StateType = 1"
  by (simp_all add: K19_AI6p_StateType_def)

lemma K19_AI6p_StateActive_layout [simp]: "size_of K19_AI6p_StateActive = 1" "align_of K19_AI6p_StateActive = 1"
  by (simp_all add: K19_AI6p_StateActive_def)

lemma K19_AI6p_StateRedLED_layout [simp]: "size_of K19_AI6p_StateRedLED = 1" "align_of K19_AI6p_StateRedLED = 1"
  by (simp_all add: K19_AI6p_StateRedLED_def)

lemma K19_AI6p_str_layout [simp]: "size_of K19_AI6p_str = 156" "align_of K19_AI6p_str = 4"
  by (simp_all add: K19_AI6p_str_def c_layout)

lemma K19_AI6a_ChType_layout [simp]: "size_of K19_AI6a_ChType = 1" "align_of K19_AI6a_ChType = 1"
  by (simp_all add: K19_AI6a_ChType_def)

lemma K19_AI6a_OutADCType_layout [simp]: "size_of K19_AI6a_OutADCType = 1" "align_of K19_AI6a_OutADCType = 1"
  by (simp_all add: K19_AI6a_OutADCType_def)

lemma K19_AI6a_OutDataType_layout [simp]: "size_of K19_AI6a_OutDataType = 1" "align_of K19_AI6a_OutDataType = 1"
  by (simp_all add: K19_AI6a_OutDataType_def)

lemma K19_AI6a_RedLEDAction_layout [simp]: "size_of K19_AI6a_RedLEDAction = 1" "align_of K19_AI6a_RedLEDAction = 1"
  by (simp_all add: K19_AI6a_RedLEDAction_def)

lemma K19_AI6a_StateCh_layout [simp]: "size_of K19_AI6a_StateCh = 1" "align_of K19_AI6a_StateCh = 1"
  by (simp_all add: K19_AI6a_StateCh_def)

lemma K19_AI6a_StateActive_layout [simp]: "size_of K19_AI6a_StateActive = 1" "align_of K19_AI6a_StateActive = 1"
  by (simp_all add: K19_AI6a_StateActive_def)

lemma K19_AI6a_StateRedLED_layout [simp]: "size_of K19_AI6a_StateRedLED = 1" "align_of K19_AI6a_StateRedLED = 1"
  by (simp_all add: K19_AI6a_StateRedLED_def)

lemma K19_AI6a_str_layout [simp]: "size_of K19_AI6a_str = 152" "align_of K19_AI6a_str = 4"
  by (simp_all add: K19_AI6a_str_def c_layout)

lemma UL_K19_DI16_Channels_layout [simp]: "size_of UL_K19_DI16_Channels = 1" "align_of UL_K19_DI16_Channels = 1"
  by (simp_all add: UL_K19_DI16_Channels_def)

lemma UL_K19_DI16_ChState_layout [simp]: "size_of UL_K19_DI16_ChState = 1" "align_of UL_K19_DI16_ChState = 1"
  by (simp_all add: UL_K19_DI16_ChState_def)

lemma K19_DI16_str_layout [simp]: "size_of K19_DI16_str = 128" "align_of K19_DI16_str = 4"
  by (simp_all add: K19_DI16_str_def c_layout)

lemma UL_K19_DO16_Channels_layout [simp]: "size_of UL_K19_DO16_Channels = 1" "align_of UL_K19_DO16_Channels = 1"
  by (simp_all add: UL_K19_DO16_Channels_def)

lemma UL_K19_DO16_OutState_layout [simp]: "size_of UL_K19_DO16_OutState = 1" "align_of UL_K19_DO16_OutState = 1"
  by (simp_all add: UL_K19_DO16_OutState_def)

lemma K19_DO16_str_layout [simp]: "size_of K19_DO16_str = 72" "align_of K19_DO16_str = 4"
  by (simp_all add: K19_DO16_str_def c_layout)

lemma K19_AO4_DataSetType_layout [simp]: "size_of K19_AO4_DataSetType = 1" "align_of K19_AO4_DataSetType = 1"
  by (simp_all add: K19_AO4_DataSetType_def)

lemma K19_AO4_ChType_layout [simp]: "size_of K19_AO4_ChType = 1" "align_of K19_AO4_ChType = 1"
  by (simp_all add: K19_AO4_ChType_def)

lemma K19_AO4_str_layout [simp]: "size_of K19_AO4_str = 68" "align_of K19_AO4_str = 4"
  by (simp_all add: K19_AO4_str_def c_layout)

lemma UL_K15_DO8_Channels_layout [simp]: "size_of UL_K15_DO8_Channels = 1" "align_of UL_K15_DO8_Channels = 1"
  by (simp_all add: UL_K15_DO8_Channels_def)

lemma UL_K15_DO8_OutState_layout [simp]: "size_of UL_K15_DO8_OutState = 1" "align_of UL_K15_DO8_OutState = 1"
  by (simp_all add: UL_K15_DO8_OutState_def)

lemma K15_DO8_str_layout [simp]: "size_of K15_DO8_str = 124" "align_of K15_DO8_str = 4"
  by (simp_all add: K15_DO8_str_def c_layout)

lemma UL_K19_DIDO8_DI_Channels_layout [simp]: "size_of UL_K19_DIDO8_DI_Channels = 1" "align_of UL_K19_DIDO8_DI_Channels = 1"
  by (simp_all add: UL_K19_DIDO8_DI_Channels_def)

lemma UL_K19_DIDO8_DO_Channels_layout [simp]: "size_of UL_K19_DIDO8_DO_Channels = 1" "align_of UL_K19_DIDO8_DO_Channels = 1"
  by (simp_all add: UL_K19_DIDO8_DO_Channels_def)

lemma UL_K19_DIDO8_ChState_layout [simp]: "size_of UL_K19_DIDO8_ChState = 1" "align_of UL_K19_DIDO8_ChState = 1"
  by (simp_all add: UL_K19_DIDO8_ChState_def)

lemma K19_DIDO8_str_layout [simp]: "size_of K19_DIDO8_str = 104" "align_of K19_DIDO8_str = 4"
  by (simp_all add: K19_DIDO8_str_def c_layout)

lemma UL_K15_FDI8_Channels_layout [simp]: "size_of UL_K15_FDI8_Channels = 1" "align_of UL_K15_FDI8_Channels = 1"
  by (simp_all add: UL_K15_FDI8_Channels_def)

lemma UL_K15_FDI8_DiState_layout [simp]: "size_of UL_K15_FDI8_DiState = 1" "align_of UL_K15_FDI8_DiState = 1"
  by (simp_all add: UL_K15_FDI8_DiState_def)

lemma K15_FDI8_DiCh_t_layout [simp]: "size_of K15_FDI8_DiCh_t = 12" "align_of K15_FDI8_DiCh_t = 4"
  by (simp_all add: K15_FDI8_DiCh_t_def c_layout)

lemma K15_FDI8_FiCh_t_layout [simp]: "size_of K15_FDI8_FiCh_t = 20" "align_of K15_FDI8_FiCh_t = 4"
  by (simp_all add: K15_FDI8_FiCh_t_def c_layout)

lemma K15_FDI8_str_layout [simp]: "size_of K15_FDI8_str = 172" "align_of K15_FDI8_str = 4"
  by (simp_all add: K15_FDI8_str_def c_layout)

lemma UL_K19_FIO_InChannels_layout [simp]: "size_of UL_K19_FIO_InChannels = 1" "align_of UL_K19_FIO_InChannels = 1"
  by (simp_all add: UL_K19_FIO_InChannels_def)

lemma K19_FIO_OutType_layout [simp]: "size_of K19_FIO_OutType = 1" "align_of K19_FIO_OutType = 1"
  by (simp_all add: K19_FIO_OutType_def)

lemma K19_FIO_str_layout [simp]: "size_of K19_FIO_str = 88" "align_of K19_FIO_str = 4"
  by (simp_all add: K19_FIO_str_def c_layout)

lemma K19_CRM_MeasureState_layout [simp]: "size_of K19_CRM_MeasureState = 1" "align_of K19_CRM_MeasureState = 1"
  by (simp_all add: K19_CRM_MeasureState_def)

lemma K19_CRM_Commands_layout [simp]: "size_of K19_CRM_Commands = 1" "align_of K19_CRM_Commands = 1"
  by (simp_all add: K19_CRM_Commands_def)

lemma K19_CRM_str_layout [simp]: "size_of K19_CRM_str = 72" "align_of K19_CRM_str = 4"
  by (simp_all add: K19_CRM_str_def c_layout)

lemma K19_SCM_Channel_t_layout [simp]: "size_of K19_SCM_Channel_t = 1" "align_of K19_SCM_Channel_t = 1"
  by (simp_all add: K19_SCM_Channel_t_def)

lemma K19_SCM_COMType_layout [simp]: "size_of K19_SCM_COMType = 1" "align_of K19_SCM_COMType = 1"
  by (simp_all add: K19_SCM_COMType_def)

lemma K19_SCM_Baudrate_layout [simp]: "size_of K19_SCM_Baudrate = 1" "align_of K19_SCM_Baudrate = 1"
  by (simp_all add: K19_SCM_Baudrate_def)

lemma K19_SCM_StopBits_layout [simp]: "size_of K19_SCM_StopBits = 1" "align_of K19_SCM_StopBits = 1"
  by (simp_all add: K19_SCM_StopBits_def)

lemma K19_SCM_Parity_layout [simp]: "size_of K19_SCM_Parity = 1" "align_of K19_SCM_Parity = 1"
  by (simp_all add: K19_SCM_Parity_def)

lemma K19_SCM_BuffCfg_layout [simp]: "size_of K19_SCM_BuffCfg = 1" "align_of K19_SCM_BuffCfg = 1"
  by (simp_all add: K19_SCM_BuffCfg_def)

lemma K19_SCM_ExchangeResult_layout [simp]: "size_of K19_SCM_ExchangeResult = 1" "align_of K19_SCM_ExchangeResult = 1"
  by (simp_all add: K19_SCM_ExchangeResult_def)

lemma K19_SCM_WriteSettings_t_layout [simp]: "size_of K19_SCM_WriteSettings_t = 8" "align_of K19_SCM_WriteSettings_t = 1"
  by (simp_all add: K19_SCM_WriteSettings_t_def c_layout)

lemma K19_SCM_Ch_t_layout [simp]: "size_of K19_SCM_Ch_t = 18" "align_of K19_SCM_Ch_t = 2"
  by (simp_all add: K19_SCM_Ch_t_def c_layout)

lemma K19_SCM_str_layout [simp]: "size_of K19_SCM_str = 112" "align_of K19_SCM_str = 4"
  by (simp_all add: K19_SCM_str_def c_layout)

lemma k15do16_e_layout [simp]: "size_of k15do16_e = 1" "align_of k15do16_e = 1"
  by (simp_all add: k15do16_e_def)

lemma KXX_str_layout [simp]: "size_of KXX_str = 32" "align_of KXX_str = 4"
  by (simp_all add: KXX_str_def c_layout)

lemma K19_SCMex_str_layout [simp]: "size_of K19_SCMex_str = 262" "align_of K19_SCMex_str = 2"
  by (simp_all add: K19_SCMex_str_def c_layout)

lemma THE_MESSAGE_layout [simp]: "size_of THE_MESSAGE = 312" "align_of THE_MESSAGE = 4"
  by (simp_all add: THE_MESSAGE_def c_layout)


end
