(* ===== verification/Candrv.thy ===== *)
theory Candrv
  imports CanTypes
begin

text \<open>
  The connection to the processor of the CAN modules, \<^verbatim>\<open>src/redist/candrv/rpmsg_connector.c\<close>:
  a command is one message with a head and the structure of a module as its data; the answer is
  awaited by polling. What \<^verbatim>\<open>read\<close> delivers is a list: \<^const>\<open>None\<close> for a call without data,
  the bytes otherwise. The opening of the device and its files is not modelled.
\<close>

section \<open>Lengths of the commands\<close>

text \<open>The \<^verbatim>\<open>switch\<close> of \<^verbatim>\<open>candrv_cmd\<close>: the cases in order, each with the structure it sends.\<close>

definition cases_K15_DI16 :: "(nat list \<times> ctype option) list" where
  "cases_K15_DI16 = [
    ([K15_DI16_ModuleReadAll, K15_DI16_ModuleExchange], Some K15_DI16_str),
    ([K15_DI16_ClearCounter], Some KXX_str),
    ([K15_DI16_ReceiveCounter], Some KXX_str),
    ([K15_DI16_ReadData], None),
    ([K15_DI16_WriteData], None)]"

definition cases_K15_DO16 :: "(nat list \<times> ctype option) list" where
  "cases_K15_DO16 = [
    ([K15_DO16_ChSet], Some KXX_str),
    ([K15_DO16_ModuleReadAll, K15_DO16_ModuleExchange], Some K15_DO16_str),
    ([K15_DO16_ReadData], None),
    ([K15_DO16_WriteData], None)]"

definition cases_K15_AI8 :: "(nat list \<times> ctype option) list" where
  "cases_K15_AI8 = [
    ([K15_AI8_ModuleReadAll, K15_AI8_ModuleExchange], Some K15_AI8_str),
    ([K15_AI8_ADC_Enable], None),
    ([K15_AI8_ADC_Disable], None)]"

definition cases_K15_AO2 :: "(nat list \<times> ctype option) list" where
  "cases_K15_AO2 = [
    ([K15_AO2_ModuleReadAll, K15_AO2_ModuleExchange], Some K15_AO2_str),
    ([K15_AO2_DAC1_control], Some KXX_str),
    ([K15_AO2_DAC2_control], Some KXX_str),
    ([K15_AO2_WriteData], None)]"

definition cases_K15_AI6 :: "(nat list \<times> ctype option) list" where
  "cases_K15_AI6 = [
    ([K15_AI6_ModuleReadAll, K15_AI6_ModuleExchange], Some K15_AI6_str),
    ([K15_AI6_ADC_Enable], None),
    ([K15_AI6_ADC_Disable], None)]"

definition cases_K15_DO8pwr :: "(nat list \<times> ctype option) list" where
  "cases_K15_DO8pwr = [
    ([K15_DO8pwr_ModuleReadAll, K15_DO8pwr_ModuleExchange], Some K15_DO8pwr_str),
    ([K15_DO8pwr_ChSet], Some KXX_str),
    ([K15_DO8pwr_ReadData], None),
    ([K15_DO8pwr_WriteData], None)]"

definition cases_K15_NAM :: "(nat list \<times> ctype option) list" where
  "cases_K15_NAM = [
    ([K15_NAM_ModuleReadAll, K15_NAM_ModuleExchange], Some K15_NAM_str),
    ([K15_NAM_WriteData], None)]"

definition cases_K19_AI6p :: "(nat list \<times> ctype option) list" where
  "cases_K19_AI6p = [
    ([K19_AI6p_ModuleReadAll, K19_AI6p_ModuleExchange], Some K19_AI6p_str),
    ([K19_AI6p_CorrSave], None),
    ([K19_AI6p_CorrClear], Some KXX_str),
    ([K19_AI6p_CorrSetDot], Some KXX_str)]"

definition cases_K19_AI6a :: "(nat list \<times> ctype option) list" where
  "cases_K19_AI6a = [
    ([K19_AI6a_ModuleReadAll, K19_AI6a_ModuleExchange], Some K19_AI6a_str),
    ([K19_AI6a_CorrSave], None),
    ([K19_AI6a_CorrClear], Some KXX_str),
    ([K19_AI6a_CorrSetDot], Some KXX_str)]"

definition cases_K19_DI16 :: "(nat list \<times> ctype option) list" where
  "cases_K19_DI16 = [
    ([K19_DI16_ModuleReadAll, K19_DI16_ModuleExchange], Some K19_DI16_str),
    ([K19_DI16_ClearCounter], Some KXX_str),
    ([K19_DI16_ReceiveCounter], Some KXX_str),
    ([K19_DI16_ReadData], None),
    ([K19_DI16_WriteData], None)]"

definition cases_K19_DO16 :: "(nat list \<times> ctype option) list" where
  "cases_K19_DO16 = [
    ([K19_DO16_ModuleReadAll, K19_DO16_ModuleExchange], Some K19_DO16_str),
    ([K19_DO16_ReadData], None),
    ([K19_DO16_WriteData], None)]"

definition cases_K19_AO4 :: "(nat list \<times> ctype option) list" where
  "cases_K19_AO4 = [
    ([K19_AO4_ModuleReadAll, K19_AO4_ModuleExchange], Some K19_AO4_str),
    ([K19_AO4_ReadData], None),
    ([K19_AO4_WriteData], None),
    ([K19_AO4_CalibrationHandler], Some KXX_str)]"

definition cases_K15_DO8 :: "(nat list \<times> ctype option) list" where
  "cases_K15_DO8 = [
    ([K15_DO8_ModuleReadAll, K15_DO8_ModuleExchange], Some K15_DO8_str),
    ([K15_DO8_ChSet], Some KXX_str),
    ([K15_DO8_ReadData], None),
    ([K15_DO8_WriteData], None)]"

definition cases_K19_DIDO8 :: "(nat list \<times> ctype option) list" where
  "cases_K19_DIDO8 = [
    ([K19_DIDO8_ModuleReadAll, K19_DIDO8_ModuleExchange], Some K19_DIDO8_str),
    ([K19_DIDO8_ClearCounter], Some KXX_str),
    ([K19_DIDO8_ReceiveCounter], Some KXX_str),
    ([K19_DIDO8_ReadData], None),
    ([K19_DIDO8_WriteData], None)]"

definition cases_K15_FDI8 :: "(nat list \<times> ctype option) list" where
  "cases_K15_FDI8 = [
    ([K15_FDI8_ModuleReadAll, K15_FDI8_ModuleExchange], Some K15_FDI8_str),
    ([K15_FDI8_ClearCounter], Some KXX_str),
    ([K15_FDI8_SetDiFilter], Some KXX_str),
    ([K15_FDI8_SetFiFilter], Some KXX_str),
    ([K15_FDI8_ReadData], None),
    ([K15_FDI8_WriteData], None)]"

definition cases_K19_FIO :: "(nat list \<times> ctype option) list" where
  "cases_K19_FIO = [
    ([K19_FIO_ModuleReadAll, K19_FIO_ModuleExchange], Some K19_FIO_str),
    ([K19_FIO_ClearCounter], Some KXX_str),
    ([K19_FIO_SetFilter], Some KXX_str),
    ([K19_FIO_ReadData], None),
    ([K19_FIO_WriteData], None)]"

definition cases_K19_CRM :: "(nat list \<times> ctype option) list" where
  "cases_K19_CRM = [
    ([K19_CRM_ModuleReadAll, K19_CRM_ModuleExchange], Some K19_CRM_str),
    ([K19_CRM_SetFilter], Some KXX_str),
    ([K19_CRM_MeasureStart], None),
    ([K19_CRM_MeasureStop], None)]"

definition cases_K19_SCM :: "(nat list \<times> ctype option) list" where
  "cases_K19_SCM = [
    ([K19_SCM_ModuleReadAll, K19_SCM_ModuleExchange], Some K19_SCM_str),
    ([K19_SCM_ReadPacket], Some K19_SCMex_str),
    ([K19_SCM_WritePacket], Some K19_SCMex_str),
    ([K19_SCM_WriteSettings], Some K19_SCM_WriteSettings_t)]"

definition candrv_table :: "(nat list \<times> ctype option) list" where
  "candrv_table = concat [cases_K15_DI16, cases_K15_DO16, cases_K15_AI8, cases_K15_AO2, cases_K15_AI6,
    cases_K15_DO8pwr, cases_K15_NAM, cases_K19_AI6p, cases_K19_AI6a, cases_K19_DI16,
    cases_K19_DO16, cases_K19_AO4, cases_K15_DO8, cases_K19_DIDO8, cases_K15_FDI8,
    cases_K19_FIO, cases_K19_CRM, cases_K19_SCM]"

lemmas candrv_table_defs = candrv_table_def cases_K15_DI16_def cases_K15_DO16_def cases_K15_AI8_def cases_K15_AO2_def cases_K15_AI6_def
  cases_K15_DO8pwr_def cases_K15_NAM_def cases_K19_AI6p_def cases_K19_AI6a_def cases_K19_DI16_def
  cases_K19_DO16_def cases_K19_AO4_def cases_K15_DO8_def cases_K19_DIDO8_def cases_K15_FDI8_def
  cases_K19_FIO_def cases_K19_CRM_def cases_K19_SCM_def

text \<open>\<^verbatim>\<open>i_payload->head.m_data_len\<close> for a function; the default case sends no data.\<close>

definition candrv_data_len :: "nat \<Rightarrow> nat" where
  "candrv_data_len f = (case find (\<lambda>r. f \<in> set (fst r)) candrv_table of
     Some (ls, Some t) \<Rightarrow> size_of t | _ \<Rightarrow> 0)"

definition RPMSG_MESSAGE_MAX_SIZE :: nat where
  "RPMSG_MESSAGE_MAX_SIZE = size_of THE_MESSAGE - 1 * 16"

definition MAX_RPMSG_BUFF_SIZE :: nat where "MAX_RPMSG_BUFF_SIZE = 512 - 16"

definition UL_IN_PROCESS :: "32 word" where "UL_IN_PROCESS = 0xFFFF"

section \<open>The command\<close>

definition hd_field :: "string \<Rightarrow> sel list" where "hd_field n = [Fld ''head'', Fld n]"

definition mput :: "sel list \<Rightarrow> bytes \<Rightarrow> bytes \<Rightarrow> bytes" where
  "mput p v m = (case fset THE_MESSAGE p v m of None \<Rightarrow> m | Some m' \<Rightarrow> m')"

definition mget :: "sel list \<Rightarrow> bytes \<Rightarrow> bytes" where
  "mget p m = (case fget THE_MESSAGE p m of None \<Rightarrow> [] | Some v \<Rightarrow> v)"

definition msg_data_off :: nat where
  "msg_data_off = (case locate THE_MESSAGE [Fld ''data''] of None \<Rightarrow> 0 | Some (q, t) \<Rightarrow> q)"

definition candrv_head :: "32 word \<Rightarrow> 32 word \<Rightarrow> bytes" where
  "candrv_head m_func m_idx =
     mput (hd_field ''m_data_len'') (le_bytes 4 (of_nat (candrv_data_len (unat m_func)) :: 32 word))
    (mput (hd_field ''m_addr'') (le_bytes 4 (0 :: 32 word))
    (mput (hd_field ''m_status'') (le_bytes 4 UL_IN_PROCESS)
    (mput (hd_field ''m_idx'') (le_bytes 4 m_idx)
    (mput (hd_field ''m_func'') (le_bytes 4 m_func)
    (mput (hd_field ''packet_counter'') (le_bytes 8 (0xBBCCDDEEAAFF9988 :: 64 word))
    (mput (hd_field ''packet_id'') (le_bytes 4 (0x11223344 :: 32 word))
    (replicate (size_of THE_MESSAGE) 0x55)))))))"

definition candrv_request :: "32 word \<Rightarrow> 32 word \<Rightarrow> bytes option \<Rightarrow> trap + bytes" where
  "candrv_request m_func m_idx data =
     (let h = candrv_head m_func m_idx; n = candrv_data_len (unat m_func) in
      if n = 0 then Inr h
      else (case data of
          None \<Rightarrow> Inl Null_pointer
        | Some d \<Rightarrow> if length d < n then Inl Out_of_bounds
                    else Inr (take msg_data_off h @ take n d @ drop (msg_data_off + n) h)))"

text \<open>The function returns a status, or its end is reached without a value.\<close>

datatype cmd_end = Ret int | NoRet

definition reply_into :: "bytes \<Rightarrow> bytes \<Rightarrow> bytes" where
  "reply_into bs r = (let b = take RPMSG_MESSAGE_MAX_SIZE bs in b @ drop (length b) r)"

definition reply_len :: "bytes \<Rightarrow> nat" where
  "reply_len r = unat (le_word (mget (hd_field ''m_data_len'') r) :: 32 word)"

definition reply_data :: "nat \<Rightarrow> bytes \<Rightarrow> bytes" where
  "reply_data n r = take n (drop msg_data_off r)"

text \<open>
  The waiting loop; the list of reads is what the device delivers. \<^const>\<open>None\<close> is still waiting
  when the list is used up. \<open>data\<close> is the caller's structure.
\<close>

fun candrv_wait :: "nat \<Rightarrow> nat \<Rightarrow> bytes option list \<Rightarrow> bytes \<Rightarrow> bytes \<Rightarrow> (cmd_end \<times> bytes) option" where
  "candrv_wait len cntr [] r data = None"
| "candrv_wait len cntr (None # xs) r data =
     (if cntr + 1 > 5000 then Some (Ret (- 1), data) else candrv_wait len (cntr + 1) xs r data)"
| "candrv_wait len cntr (Some bs # xs) r data =
     (let r' = reply_into bs r in
      if len = reply_len r' \<and> reply_len r' \<noteq> 0
      then Some (Ret 1, reply_data (reply_len r') r' @ drop (reply_len r') data)
      else if len \<noteq> reply_len r' then candrv_wait len cntr xs r' data
      else if cntr + 1 > 5000 then Some (Ret (- 1), data)
      else Some (NoRet, data))"

definition candrv_cmd :: "32 word \<Rightarrow> 32 word \<Rightarrow> bytes option \<Rightarrow> bytes option list
    \<Rightarrow> trap + (bytes \<times> (cmd_end \<times> bytes) option)" where
  "candrv_cmd m_func m_idx data reads = (case candrv_request m_func m_idx data of
     Inl t \<Rightarrow> Inl t
   | Inr m \<Rightarrow> Inr (take RPMSG_MESSAGE_MAX_SIZE m,
       candrv_wait (candrv_data_len (unat m_func)) 0 reads (replicate (size_of THE_MESSAGE) 0)
         (case data of None \<Rightarrow> [] | Some d \<Rightarrow> d)))"

section \<open>Lengths\<close>

lemma candrv_len_bound: "candrv_data_len f \<le> 264"
proof -
  have rows: "\<forall>r \<in> set candrv_table. \<forall>t. snd r = Some t \<longrightarrow> size_of t \<le> 264"
    by (simp add: candrv_table_defs)
  show ?thesis
  proof (cases "find (\<lambda>r. f \<in> set (fst r)) candrv_table")
    case (Some r)
    obtain ls t where r: "r = (ls, t)" by (cases r)
    have "r \<in> set candrv_table" using Some unfolding find_Some_iff by auto
    then have "\<forall>u. t = Some u \<longrightarrow> size_of u \<le> 264" using rows r by fastforce
    then show ?thesis using Some r by (cases t) (simp_all add: candrv_data_len_def)
  qed (simp add: candrv_data_len_def)
qed

lemma locate_head [simp]:
  "locate THE_MESSAGE (hd_field ''packet_id'') = Some (0, CU32)"
  "locate THE_MESSAGE (hd_field ''m_data_len'') = Some (4, CU32)"
  "locate THE_MESSAGE (hd_field ''packet_counter'') = Some (8, CU64)"
  "locate THE_MESSAGE (hd_field ''m_func'') = Some (16, CU32)"
  "locate THE_MESSAGE (hd_field ''m_status'') = Some (20, CU32)"
  "locate THE_MESSAGE (hd_field ''m_idx'') = Some (24, CU32)"
  "locate THE_MESSAGE (hd_field ''m_addr'') = Some (28, CU32)"
  by (simp_all add: THE_MESSAGE_def hd_field_def c_layout)

lemma locate_data: "\<exists>t. locate THE_MESSAGE [Fld ''data''] = Some (32, t) \<and> size_of t = 264"
  by (simp add: THE_MESSAGE_def c_layout)

lemma msg_data_off [simp]: "msg_data_off = 32"
  using locate_data by (auto simp: msg_data_off_def)

lemma MAX_SIZE [simp]: "RPMSG_MESSAGE_MAX_SIZE = 296"
  by (simp add: RPMSG_MESSAGE_MAX_SIZE_def)

section \<open>The request\<close>

lemma parted_head: "a \<noteq> b \<Longrightarrow> parted THE_MESSAGE (hd_field a) (hd_field b)"
  by (simp add: THE_MESSAGE_def hd_field_def)

lemma mput_length [simp]: "length m = 312 \<Longrightarrow> length (mput p v m) = 312"
  using fset_length [of THE_MESSAGE p v m] by (auto simp: mput_def split: option.split)

lemma mget_mput_same:
  assumes "length m = 312" "locate THE_MESSAGE p = Some (q, t)" "length v = size_of t"
  shows "mget p (mput p v m) = v"
proof -
  obtain m' where m': "fset THE_MESSAGE p v m = Some m'" using assms(2,3) by (simp add: fset_def)
  then have "fget THE_MESSAGE p m' = Some v" using assms(1) by (intro fget_fset_same) simp_all
  then show ?thesis using m' by (simp add: mget_def mput_def)
qed

lemma mget_mput_other:
  assumes "length m = 312" "parted THE_MESSAGE p p'"
  shows "mget p' (mput p v m) = mget p' m"
  using fget_fset_other [of THE_MESSAGE p v m _ p'] assms
  by (auto simp: mget_def mput_def split: option.split)

lemmas mput_simps = mget_mput_same mget_mput_other parted_head

lemma candrv_head_fields:
  "length (candrv_head f i) = 312"
  "mget (hd_field ''packet_id'') (candrv_head f i) = le_bytes 4 (0x11223344 :: 32 word)"
  "mget (hd_field ''m_data_len'') (candrv_head f i) = le_bytes 4 (of_nat (candrv_data_len (unat f)) :: 32 word)"
  "mget (hd_field ''packet_counter'') (candrv_head f i) = le_bytes 8 (0xBBCCDDEEAAFF9988 :: 64 word)"
  "mget (hd_field ''m_func'') (candrv_head f i) = le_bytes 4 f"
  "mget (hd_field ''m_status'') (candrv_head f i) = le_bytes 4 UL_IN_PROCESS"
  "mget (hd_field ''m_idx'') (candrv_head f i) = le_bytes 4 i"
  "mget (hd_field ''m_addr'') (candrv_head f i) = le_bytes 4 (0 :: 32 word)"
  by (simp_all add: candrv_head_def mput_simps)

text \<open>A member of the head is below the data.\<close>

lemma mget_head_data:
  assumes "locate THE_MESSAGE p = Some (q, t)" "q + size_of t \<le> 32" "length h = 312"
  shows "mget p (take 32 h @ x) = mget p h"
  using assms by (auto simp: mget_def fget_def drop_take min_def)

text \<open>
  What a command sends. For every function, index and a structure long enough, the message has
  the full size, fits the buffer of the channel, and carries the given function and index, the length
  of the function's structure, the state of being processed and no address, each in its own member of
  the head; its data starts with the bytes of the structure. Every length fits the data of a message.
\<close>

theorem candrv_request_fields:
  assumes "candrv_data_len (unat f) \<le> length d"
  shows "\<exists>m. candrv_request f i (Some d) = Inr m \<and> length m = size_of THE_MESSAGE
    \<and> RPMSG_MESSAGE_MAX_SIZE \<le> MAX_RPMSG_BUFF_SIZE
    \<and> mget (hd_field ''packet_id'') m = le_bytes 4 (0x11223344 :: 32 word)
    \<and> mget (hd_field ''m_func'') m = le_bytes 4 f
    \<and> mget (hd_field ''m_idx'') m = le_bytes 4 i
    \<and> mget (hd_field ''m_status'') m = le_bytes 4 UL_IN_PROCESS
    \<and> mget (hd_field ''m_addr'') m = le_bytes 4 (0 :: 32 word)
    \<and> reply_len m = candrv_data_len (unat f)
    \<and> reply_data (candrv_data_len (unat f)) m = take (candrv_data_len (unat f)) d"
proof -
  let ?n = "candrv_data_len (unat f)" and ?h = "candrv_head f i"
  define m where "m = take 32 ?h @ take ?n d @ drop (32 + ?n) ?h"
  have len: "length ?h = 312" by (rule candrv_head_fields)
  have n: "?n \<le> 264" by (rule candrv_len_bound)
  have req: "candrv_request f i (Some d) = Inr m"
  proof (cases "?n = 0")
    case True
    then show ?thesis by (simp add: candrv_request_def m_def Let_def)
  next
    case False
    then show ?thesis using assms by (simp add: candrv_request_def m_def Let_def)
  qed
  have head: "mget p m = mget p ?h" if "locate THE_MESSAGE p = Some (q, t)" "q + size_of t \<le> 32" for p q t
    unfolding m_def using that len by (rule mget_head_data)
  have dl: "unat (of_nat ?n :: 32 word) = ?n"
    using n by (simp add: unat_of_nat)
  have "length m = 312" using n assms len by (simp add: m_def)
  moreover have "reply_len m = ?n"
    by (simp add: reply_len_def head candrv_head_fields le_word_le_bytes dl)
  moreover have "reply_data ?n m = take ?n d"
    using assms len by (simp add: reply_data_def m_def)
  ultimately show ?thesis
    unfolding req by (simp add: head candrv_head_fields MAX_RPMSG_BUFF_SIZE_def)
qed

theorem candrv_request_fields_witness:
  "\<exists>m. candrv_request 0x0301 2 (Some (replicate 264 7)) = Inr m \<and> length m = size_of THE_MESSAGE
    \<and> reply_len m = candrv_data_len 0x0301"
  using candrv_request_fields [of "0x0301" "replicate 264 7" 2] candrv_len_bound [of "0x0301"] by auto

lemma candrv_len_DI16: "candrv_data_len 0x0301 = 204"
  by (simp add: candrv_data_len_def candrv_table_defs ModulesFunc_defs DeviceType_defs)

lemma candrv_len_CRM_start: "candrv_data_len 0x0D04 = 0"
  by (simp add: candrv_data_len_def candrv_table_defs ModulesFunc_defs DeviceType_defs)

section \<open>The cases\<close>

lemma find_row:
  "distinct (concat (map fst tab)) \<Longrightarrow> r \<in> set tab \<Longrightarrow> f \<in> set (fst r)
    \<Longrightarrow> find (\<lambda>r. f \<in> set (fst r)) tab = Some (r :: 'a list \<times> 'b)"
  by (induction tab) auto

text \<open>
  The cases of the commands are complete and do not overlap. Each of the 91 functions of the
  header has exactly one case; the code of a function holds the type of its module in the upper byte; and the length a
  command sends is the size of the structure its case names, or zero when it names none.
\<close>

theorem candrv_cases:
  "distinct (concat (map fst candrv_table)) \<and> length (concat (map fst candrv_table)) = 91
   \<and> (\<forall>r \<in> set candrv_table. \<forall>f \<in> set (fst r). f div 256 * 256 \<in> set [DevTypeK15_AI8, DevTypeK15_AO2, DevTypeK15_DI16,
       DevTypeK15_DO16, DevTypeK15_NAMUR, DevTypeK15_AI6, DevTypeK19_AI6p, DevTypeK19_AI6a, DevTypeK15_DO8pwr,
       DevTypeK19_DI16, DevTypeK19_DO16, DevTypeK19_FIO, DevTypeK19_CRM, DevTypeK19_AO4, DevTypeK19_SCM,
       DevTypeK19_DIDO8, DevTypeK15_DO8, DevTypeK15_FDI8]
     \<and> candrv_data_len f = (case snd r of None \<Rightarrow> 0 | Some t \<Rightarrow> size_of t))"
proof -
  have d: "distinct (concat (map fst candrv_table))"
    by (simp add: candrv_table_defs ModulesFunc_defs DeviceType_defs)
  have l: "length (concat (map fst candrv_table)) = 91"
    by (simp add: candrv_table_defs)
  have t: "\<forall>r \<in> set candrv_table. \<forall>f \<in> set (fst r). f div 256 * 256 \<in> set [DevTypeK15_AI8, DevTypeK15_AO2, DevTypeK15_DI16,
       DevTypeK15_DO16, DevTypeK15_NAMUR, DevTypeK15_AI6, DevTypeK19_AI6p, DevTypeK19_AI6a, DevTypeK15_DO8pwr,
       DevTypeK19_DI16, DevTypeK19_DO16, DevTypeK19_FIO, DevTypeK19_CRM, DevTypeK19_AO4, DevTypeK19_SCM,
       DevTypeK19_DIDO8, DevTypeK15_DO8, DevTypeK15_FDI8]"
    by (simp add: candrv_table_defs ModulesFunc_defs DeviceType_defs)
  have "candrv_data_len f = (case snd r of None \<Rightarrow> 0 | Some t \<Rightarrow> size_of t)"
    if "r \<in> set candrv_table" "f \<in> set (fst r)" for r f
    unfolding candrv_data_len_def find_row [OF d that] by (cases r) (auto split: option.split)
  then show ?thesis using d l t by blast
qed

theorem candrv_cases_witness:
  "candrv_data_len K19_CRM_SetFilter = size_of KXX_str"
proof -
  have "([K19_CRM_SetFilter], Some KXX_str) \<in> set candrv_table" by (simp add: candrv_table_defs)
  then show ?thesis using candrv_cases by fastforce
qed

section \<open>The answer\<close>

definition nones :: "bytes option list \<Rightarrow> nat" where
  "nones xs = length (filter (\<lambda>x. x = None) xs)"

text \<open>A read that is not the answer: nothing, or a message with another length of data.\<close>

definition no_answer :: "nat \<Rightarrow> bytes option \<Rightarrow> bool" where
  "no_answer n x \<longleftrightarrow> (case x of None \<Rightarrow> True
     | Some bs \<Rightarrow> 8 \<le> length bs \<and> length bs \<le> RPMSG_MESSAGE_MAX_SIZE \<and> reply_len bs \<noteq> n)"

lemma reply_len_alt: "reply_len r = unat (le_word (take 4 (drop 4 r)) :: 32 word)"
  by (simp add: reply_len_def mget_def fget_def)

lemma reply_len_into: "8 \<le> length bs \<Longrightarrow> length bs \<le> 296 \<Longrightarrow> reply_len (reply_into bs r) = reply_len bs"
  by (simp add: reply_len_alt reply_into_def Let_def)

lemma candrv_wait_skip:
  assumes "\<forall>x \<in> set xs. no_answer n x" "c + nones xs \<le> 5000"
  shows "\<exists>r'. candrv_wait n c (xs @ ys) r d = candrv_wait n (c + nones xs) ys r' d"
  using assms
proof (induction xs arbitrary: c r)
  case Nil
  then show ?case by (auto simp: nones_def)
next
  case (Cons x xs)
  show ?case
  proof (cases x)
    case None
    then show ?thesis using Cons.IH [of "Suc c" r] Cons.prems by (simp add: nones_def)
  next
    case (Some bs)
    then have "reply_len (reply_into bs r) \<noteq> n"
      using Cons.prems(1) by (simp add: no_answer_def reply_len_into)
    then show ?thesis using Some Cons by (simp add: nones_def Let_def)
  qed
qed

text \<open>
  C33. How a command with data ends. After any reads that are not its answer, of which at most 5000
  delivered nothing: a full message with the length that was sent ends it with status 1, the bytes of its data are
  the caller's structure, and what lies behind them is untouched; one more read without data, when
  there were 5000, ends it with status -1 and the structure as it was.
\<close>

theorem candrv_answer:
  assumes "\<forall>x \<in> set xs. no_answer n x" "nones xs \<le> 5000" "n = candrv_data_len f" "0 < n"
  shows "(length bs = RPMSG_MESSAGE_MAX_SIZE \<and> reply_len bs = n
      \<longrightarrow> candrv_wait n 0 (xs @ Some bs # ys) r d = Some (Ret 1, reply_data n bs @ drop n d))
    \<and> (nones xs = 5000 \<longrightarrow> candrv_wait n 0 (xs @ None # ys) r d = Some (Ret (- 1), d))"
proof (intro conjI impI)
  assume bs: "length bs = RPMSG_MESSAGE_MAX_SIZE \<and> reply_len bs = n"
  obtain r' where r': "candrv_wait n 0 (xs @ Some bs # ys) r d = candrv_wait n (nones xs) (Some bs # ys) r' d"
    using candrv_wait_skip [OF assms(1), of 0 "Some bs # ys" r d] assms(2) by auto
  have "reply_data n (reply_into bs r') = reply_data n bs"
    using bs candrv_len_bound [of f] assms(3) by (simp add: reply_data_def reply_into_def Let_def)
  moreover have "reply_len (reply_into bs r') = n" using bs by (simp add: reply_len_into)
  ultimately show "candrv_wait n 0 (xs @ Some bs # ys) r d = Some (Ret 1, reply_data n bs @ drop n d)"
    using r' assms(4) bs by (simp add: Let_def)
next
  assume "nones xs = 5000"
  then show "candrv_wait n 0 (xs @ None # ys) r d = Some (Ret (- 1), d)"
    using candrv_wait_skip [OF assms(1), of 0 "None # ys" r d] by auto
qed

theorem candrv_answer_witness:
  "candrv_wait 204 0 (replicate 2 None @ Some (replicate 4 0 @ le_bytes 4 (204 :: 32 word) @ replicate 288 9) # []) [] (replicate 204 0)
    = Some (Ret 1, reply_data 204 (replicate 4 0 @ le_bytes 4 (204 :: 32 word) @ replicate 288 9) @ drop 204 (replicate 204 0))"
proof -
  have "reply_len (replicate 4 0 @ le_bytes 4 (204 :: 32 word) @ replicate 288 9) = 204"
    by (simp add: reply_len_alt le_word_le_bytes)
  then show ?thesis
    by (intro candrv_answer [where f = "0x0301", THEN conjunct1, rule_format])
       (simp_all add: no_answer_def nones_def candrv_len_DI16 del: replicate.simps)
qed

text \<open>
  A command without data never succeeds. For a function that sends no data, whatever the device
  delivers, the command never returns status 1 and never changes the caller's memory; when the empty
  reply arrives within the first 5000 reads the function ends without returning any value, although
  its callers compare its result.
\<close>

theorem candrv_empty_no_status:
  assumes "candrv_data_len (unat f) = 0"
  shows "(\<forall>m res d'. candrv_cmd f i (Some d) reads = Inr (m, Some (res, d')) \<longrightarrow> res \<noteq> Ret 1 \<and> d' = d)
    \<and> (k < 5000 \<and> length bs = RPMSG_MESSAGE_MAX_SIZE \<and> reply_len bs = 0 \<longrightarrow>
        (\<exists>m. candrv_cmd f i (Some d) (replicate k None @ Some bs # rest) = Inr (m, Some (NoRet, d))))"
proof (intro conjI allI impI)
  fix m res d' assume a: "candrv_cmd f i (Some d) reads = Inr (m, Some (res, d'))"
  have "candrv_wait 0 c reads r d = Some (res, d') \<Longrightarrow> res \<noteq> Ret 1 \<and> d' = d" for c r
  proof (induction "0 :: nat" c reads r d rule: candrv_wait.induct)
    case (3 cntr bs xs r data)
    then show ?case by (auto simp: Let_def split: if_splits)
  qed (auto split: if_splits)
  then show "res \<noteq> Ret 1" "d' = d"
    using a assms by (auto simp: candrv_cmd_def candrv_request_def Let_def)
next
  assume k: "k < 5000 \<and> length bs = RPMSG_MESSAGE_MAX_SIZE \<and> reply_len bs = 0"
  obtain r' where r': "candrv_wait 0 0 (replicate k None @ Some bs # rest) (replicate 312 0) d
      = candrv_wait 0 k (Some bs # rest) r' d"
    using candrv_wait_skip [of "replicate k None" 0 0 "Some bs # rest" "replicate 312 0" d] k
    by (auto simp: no_answer_def nones_def)
  have "reply_len (reply_into bs r') = 0" using k by (simp add: reply_len_into)
  then have "candrv_wait 0 0 (replicate k None @ Some bs # rest) (replicate 312 0) d = Some (NoRet, d)"
    using r' k by (simp add: Let_def)
  then show "\<exists>m. candrv_cmd f i (Some d) (replicate k None @ Some bs # rest) = Inr (m, Some (NoRet, d))"
    using assms by (simp add: candrv_cmd_def candrv_request_def Let_def del: replicate.simps)
qed

theorem candrv_empty_no_status_witness:
  "\<exists>m. candrv_cmd 0x0D04 0 (Some []) (replicate 3 None @ Some (replicate 296 0) # []) = Inr (m, Some (NoRet, []))"
proof -
  have "reply_len (replicate 296 0) = 0" by (simp add: reply_len_alt numeral_eq_Suc)
  then show ?thesis
    using candrv_empty_no_status [of "0x0D04" 0 "[]" "[]" 3 "replicate 296 0" "[]"] candrv_len_CRM_start
    by (simp del: replicate.simps)
qed

text \<open>
  Foreign messages are waited out for ever. Messages with another length than the one sent do
  not count against the limit: however many arrive, and whatever arrived before, the command is still
  waiting.
\<close>

theorem candrv_foreign_messages_endless:
  assumes "\<forall>x \<in> set xs. x \<noteq> None \<and> no_answer n x" "\<forall>x \<in> set before. no_answer n x" "nones before \<le> 5000"
  shows "candrv_wait n 0 (before @ xs) r d = None"
proof -
  obtain r1 where "candrv_wait n 0 (before @ xs) r d = candrv_wait n (nones before) xs r1 d"
    using candrv_wait_skip [OF assms(2), of 0 xs r d] assms(3) by auto
  moreover have "nones xs = 0" using assms(1) by (auto simp: nones_def filter_empty_conv)
  then have "\<exists>r2. candrv_wait n (nones before) (xs @ []) r1 d = candrv_wait n (nones before) [] r2 d"
    using candrv_wait_skip [of xs n "nones before" "[]" r1 d] assms(1,3) by auto
  ultimately show ?thesis by auto
qed

theorem candrv_foreign_messages_endless_witness:
  "candrv_wait 204 0 ([None] @ replicate 7000 (Some (replicate 296 0))) [] [] = None"
proof -
  have "reply_len (replicate 296 0) = 0" by (simp add: reply_len_alt numeral_eq_Suc)
  then have "no_answer 204 (Some (replicate 296 0))" by (simp add: no_answer_def)
  then show ?thesis
    by (intro candrv_foreign_messages_endless) (simp_all add: no_answer_def nones_def del: replicate.simps)
qed

end
