(* ===== verification/Channels.thy ===== *)
theory Channels
  imports TickCount Common
begin

text \<open>
  The channels of the modules, \<^verbatim>\<open>src/tritonn/io/*_channel.cpp\<close>: discrete inputs and outputs,
  frequency inputs, analogue inputs and outputs, each with its processing and its simulation. Time is
  the clock of \<^verbatim>\<open>TickCount\<close>; \<^verbatim>\<open>rand()\<close> and \<^verbatim>\<open>sin()\<close> of the C library are arguments.
\<close>

section \<open>Discrete inputs\<close>

datatype channel_type = CT_UNDEF | CT_AI | CT_FI | CT_DI | CT_DO | CT_AO

record rIOBaseChannel =
  ch_simType :: USINT
  ch_index :: USINT
  ch_canIdx :: USINT
  ch_type :: channel_type

definition base_channel :: "channel_type \<Rightarrow> USINT \<Rightarrow> rIOBaseChannel" where
  "base_channel t i = \<lparr>ch_simType = 0, ch_index = i, ch_canIdx = 0xFF, ch_type = t\<rparr>"

definition DI_OFF :: UINT where "DI_OFF = 0x0001"
definition DI_FILTER :: UINT where "DI_FILTER = 0x0002"
definition DI_INVERSED :: UINT where "DI_INVERSED = 0x0004"

record rIODIChannel =
  di_base :: rIOBaseChannel
  di_phValue :: USINT
  di_filter :: UDINT
  di_setup :: UINT
  di_value :: USINT
  di_oldValue :: USINT
  di_timer :: rTickCount
  di_simValue :: UINT
  di_simBlink :: UDINT
  di_simTimer :: UDINT

definition di_new :: "timeval \<Rightarrow> USINT \<Rightarrow> rIODIChannel" where
  "di_new now i = \<lparr>di_base = base_channel CT_DI i, di_phValue = 0, di_filter = 0, di_setup = 0, di_value = 0,
     di_oldValue = 0, di_timer = tick_new now, di_simValue = 0, di_simBlink = 1000, di_simTimer = Tick now\<rparr>"

text \<open>The branch of the filter: the timer and the last accepted value, and the value to show.\<close>

definition di_debounce :: "timeval \<Rightarrow> rIODIChannel \<Rightarrow> rIODIChannel \<times> USINT" where
  "di_debounce now c =
     (if tick_isStarted (di_timer c)
      then (let c1 = (if di_oldValue c = di_phValue c then c\<lparr>di_timer := tick_stop (di_timer c)\<rparr> else c) in
        if tick_isFinished now (di_timer c1)
        then (c1\<lparr>di_oldValue := di_phValue c1, di_timer := tick_stop (di_timer c1)\<rparr>, di_phValue c1)
        else (c1, di_phValue c))
      else (if di_oldValue c \<noteq> di_phValue c then c\<lparr>di_timer := tick_start now (di_filter c) (di_timer c)\<rparr> else c,
            di_phValue c))"

definition di_processing :: "timeval \<Rightarrow> rIODIChannel \<Rightarrow> rIODIChannel" where
  "di_processing now c =
     (case (if has (di_setup c) DI_FILTER then di_debounce now c
            else (c\<lparr>di_oldValue := di_phValue c\<rparr>, di_phValue c)) of
        (c1, curvalue) \<Rightarrow>
          c1\<lparr>di_value := (if has (di_setup c) DI_INVERSED then word_of_bool (curvalue = 0) else curvalue)\<rparr>)"

text \<open>The simulation; the random number is only drawn in the last case.\<close>

definition di_simulate :: "timeval \<Rightarrow> int \<Rightarrow> rIODIChannel \<Rightarrow> rIODIChannel \<times> bool" where
  "di_simulate now rnd c =
     ((let ty = ch_simType (di_base c); due = Tick now - di_simTimer c \<ge> di_simBlink c in
       if ty = 1 then c\<lparr>di_phValue := ucast (di_simValue c)\<rparr>
       else if ty = 2 \<and> due
       then c\<lparr>di_simValue := word_of_bool (di_simValue c = 0), di_phValue := word_of_bool (di_simValue c = 0),
              di_simTimer := Tick now\<rparr>
       else if ty = 3 \<and> due
       then c\<lparr>di_simValue := word_of_bool (rnd mod 2 = 1), di_phValue := word_of_bool (rnd mod 2 = 1),
              di_simTimer := Tick now\<rparr>
       else c), True)"

section \<open>Discrete outputs\<close>

definition DO_OFF :: UINT where "DO_OFF = 0x0001"
definition DO_PULSE :: UINT where "DO_PULSE = 0x0002"
definition DO_INVERSED :: UINT where "DO_INVERSED = 0x0004"

record rIODOChannel =
  do_base :: rIOBaseChannel
  do_setup :: UINT
  do_value :: UINT
  do_pulse :: UDINT
  do_phValue :: USINT
  do_oldValue :: USINT
  do_timer :: rTickCount

definition do_new :: "timeval \<Rightarrow> USINT \<Rightarrow> rIODOChannel" where
  "do_new now i = \<lparr>do_base = base_channel CT_DO i, do_setup = 0, do_value = 0, do_pulse = 1000, do_phValue = 0,
     do_oldValue = 0, do_timer = tick_new now\<rparr>"

definition do_setValue :: "bool \<Rightarrow> rIODOChannel \<Rightarrow> rIODOChannel" where
  "do_setValue b c = c\<lparr>do_value := word_of_bool b\<rparr>"

definition do_pulse_step :: "timeval \<Rightarrow> rIODOChannel \<Rightarrow> rIODOChannel" where
  "do_pulse_step now c0 =
     (let c1 = (if tick_isFinished now (do_timer c0)
                then c0\<lparr>do_timer := tick_stop (do_timer c0), do_value := word_of_bool (do_value c0 = 0),
                        do_oldValue := word_of_bool (do_value c0 = 0)\<rparr>
                else c0) in
      if ucast (do_oldValue c1) \<noteq> do_value c1
      then (if \<not> tick_isStarted (do_timer c1) then c1\<lparr>do_timer := tick_start now (do_pulse c1) (do_timer c1)\<rparr> else c1)
      else c1\<lparr>do_timer := tick_stop (do_timer c1)\<rparr>)"

definition do_processing :: "timeval \<Rightarrow> rIODOChannel \<Rightarrow> rIODOChannel" where
  "do_processing now c =
     (let c1 = (if has (do_setup c) DO_PULSE then do_pulse_step now c else c\<lparr>do_oldValue := ucast (do_value c)\<rparr>) in
      c1\<lparr>do_phValue := (if has (do_setup c) DO_INVERSED then word_of_bool (do_value c1 = 0) else ucast (do_value c1))\<rparr>)"

definition do_simulate :: "rIODOChannel \<Rightarrow> rIODOChannel \<times> bool" where
  "do_simulate c = (c, True)"

section \<open>Simulated signals\<close>

text \<open>\<^verbatim>\<open>value += speed\<close> on 16 bits, brought below a full turn once.\<close>

definition sim_turn :: "UINT \<Rightarrow> 16 word \<Rightarrow> UINT" where
  "sim_turn v speed = (let v1 = v + speed in if v1 \<ge> 360 then v1 - 360 else v1)"

definition sim_scale :: "UINT \<Rightarrow> UINT \<Rightarrow> lreal \<Rightarrow> lreal" where
  "sim_scale lo hi x = lreal_of_word lo + Fin (of_int (uint hi - uint lo)) * x"

definition sim_sinus :: "(lreal \<Rightarrow> lreal) \<Rightarrow> UINT \<Rightarrow> UINT \<Rightarrow> UINT \<Rightarrow> lreal" where
  "sim_sinus csin lo hi v =
     sim_scale lo hi ((csin (lreal_of_word v * dround (17453293 / 10 ^ 9)) + Fin 1) / Fin 2)"

definition RAND_MAX :: int where "RAND_MAX = 2147483647"

definition sim_random :: "UINT \<Rightarrow> UINT \<Rightarrow> int \<Rightarrow> lreal" where
  "sim_random lo hi rnd = sim_scale lo hi (Fin (of_int rnd) / Fin (of_int RAND_MAX))"

text \<open>The mean of a list as the code sums it up.\<close>

definition list_mean :: "lreal list \<Rightarrow> lreal" where
  "list_mean xs = foldl (+) (Fin 0) xs / Fin (of_nat (length xs))"

section \<open>Frequency inputs\<close>

definition FI_OFF :: UINT where "FI_OFF = 0x0001"
definition FI_AVERAGE :: UINT where "FI_AVERAGE = 0x0002"
definition FI_MAX_AVERAGE :: nat where "FI_MAX_AVERAGE = 5"

record rIOFIChannel =
  fi_base :: rIOBaseChannel
  fi_setup :: UINT
  fi_counter :: UDINT
  fi_freq :: lreal
  fi_filter :: UINT
  fi_simMax :: UINT
  fi_simMin :: UINT
  fi_simValue :: UINT
  fi_simSpeed :: "16 word"
  fi_simTimer :: UDINT
  fi_average :: "lreal list"

definition fi_new :: "timeval \<Rightarrow> USINT \<Rightarrow> rIOFIChannel" where
  "fi_new now i = \<lparr>fi_base = base_channel CT_FI i, fi_setup = 0, fi_counter = 0, fi_freq = Fin 0, fi_filter = 0,
     fi_simMax = 10000, fi_simMin = 0, fi_simValue = 0, fi_simSpeed = 0, fi_simTimer = Tick now, fi_average = []\<rparr>"

definition fi_processing :: "rIOFIChannel \<Rightarrow> rIOFIChannel" where
  "fi_processing c =
     (if has (fi_setup c) FI_AVERAGE
      then (let xs = fi_average c @ [fi_freq c] in
        c\<lparr>fi_average := drop (length xs - FI_MAX_AVERAGE) xs, fi_freq := list_mean xs\<rparr>)
      else c)"

text \<open>
  The simulation runs once a second; the linear type has no case and counts nothing. \<open>ub\<close> is the
  conversion of a value outside the type.
\<close>

definition fi_simulate :: "(lreal \<Rightarrow> lreal) \<Rightarrow> UINT \<Rightarrow> timeval \<Rightarrow> int \<Rightarrow> rIOFIChannel \<Rightarrow> rIOFIChannel \<times> bool" where
  "fi_simulate csin ub now rnd c =
     (let ty = ch_simType (fi_base c); timer = Tick now in
      if timer - fi_simTimer c < 1000 then (c, False)
      else if ty = 0 then (c\<lparr>fi_counter := 0, fi_freq := Fin 0\<rparr>, True)
      else (let (v, count) =
          (if ty = 1 then (fi_simValue c, ucast (fi_simValue c))
           else if ty = 3 then (let v = sim_turn (fi_simValue c) (fi_simSpeed c) in
             (v, ucast (cast_word ub (sim_sinus csin (fi_simMin c) (fi_simMax c) v))))
           else if ty = 4 then (let v = cast_word ub (sim_random (fi_simMin c) (fi_simMax c) rnd) in (v, ucast v))
           else (fi_simValue c, 0 :: UDINT)) in
        (c\<lparr>fi_simValue := v, fi_counter := fi_counter c + count, fi_freq := lreal_of_word v, fi_simTimer := timer\<rparr>, True)))"

section \<open>Analogue outputs\<close>

definition AO_OFF :: UINT where "AO_OFF = 0x0001"

record rIOAOChannel =
  ao_base :: rIOBaseChannel
  ao_setup :: UINT
  ao_mode :: UINT
  ao_ADC :: UINT
  ao_current :: lreal
  ao_regime :: UINT

definition ao_new :: "USINT \<Rightarrow> rIOAOChannel" where
  "ao_new i = \<lparr>ao_base = base_channel CT_AO i, ao_setup = 0, ao_mode = 0, ao_ADC = 0, ao_current = Fin 0, ao_regime = 0\<rparr>"

definition ao_getMinValue :: "rIOAOChannel \<Rightarrow> UINT" where
  "ao_getMinValue c = (if ao_regime c = 0 then 0 else 4000)"

definition ao_getMaxValue :: "rIOAOChannel \<Rightarrow> UINT" where
  "ao_getMaxValue c = (if ao_regime c = 0 then 65535 else 24000)"

definition ao_getRange :: "rIOAOChannel \<Rightarrow> UINT" where
  "ao_getRange c = ao_getMaxValue c - ao_getMinValue c"

definition ao_processing :: "rIOAOChannel \<Rightarrow> rIOAOChannel" where
  "ao_processing c =
     (let c1 = (if ao_ADC c > ao_getMaxValue c then c\<lparr>ao_ADC := ao_getMaxValue c\<rparr> else c) in
      if ao_ADC c1 < ao_getMinValue c1 then c1\<lparr>ao_ADC := ao_getMinValue c1\<rparr> else c1)"

definition ao_simulate :: "rIOAOChannel \<Rightarrow> rIOAOChannel \<times> bool" where
  "ao_simulate c = (c, True)"

section \<open>Analogue inputs\<close>

definition AI_OFF :: UINT where "AI_OFF = 0x0001"
definition AI_AVERAGE :: UINT where "AI_AVERAGE = 0x0020"
definition AI_MAX_AVERAGE :: nat where "AI_MAX_AVERAGE = 3"

text \<open>The mode and the correction command are written as numbers by the operator.\<close>

definition mA_0_20 :: USINT where "mA_0_20 = 0"
definition mA_4_20 :: USINT where "mA_4_20 = 1"
definition V_m10_10 :: USINT where "V_m10_10 = 2"
definition V_0_10 :: USINT where "V_0_10 = 3"

record rIOAIChannel =
  ai_base :: rIOBaseChannel
  ai_setup :: UINT
  ai_state :: USINT
  ai_isActive :: bool
  ai_mode :: USINT
  ai_ADC :: UINT
  ai_current :: lreal
  ai_hardState :: USINT
  ai_stateRedLED :: USINT
  ai_correct :: UINT
  ai_simMax :: UINT
  ai_simMin :: UINT
  ai_simValue :: UINT
  ai_simSpeed :: "16 word"
  ai_average :: "UINT list"

definition ai_new :: "USINT \<Rightarrow> bool \<Rightarrow> rIOAIChannel" where
  "ai_new i act = \<lparr>ai_base = base_channel CT_AI i, ai_setup = 0, ai_state = 0, ai_isActive = act, ai_mode = mA_4_20,
     ai_ADC = 0, ai_current = Fin 0, ai_hardState = 0, ai_stateRedLED = 0, ai_correct = 0, ai_simMax = 65535,
     ai_simMin = 0, ai_simValue = 0, ai_simSpeed = 1, ai_average = []\<rparr>"

definition ai_getMinValue :: "rIOAIChannel \<Rightarrow> UINT" where
  "ai_getMinValue c = (let m = ai_mode c in
     if m = mA_0_20 then 0 else if m = mA_4_20 then 10922 else if m = V_m10_10 then 2979
     else if m = V_0_10 then 32767 else 0)"

definition ai_getMaxValue :: "rIOAIChannel \<Rightarrow> UINT" where
  "ai_getMaxValue c = (let m = ai_mode c in
     if m = mA_0_20 then 54612 else if m = mA_4_20 then 54612 else if m = V_m10_10 then 62556
     else if m = V_0_10 then 62556 else 0)"

definition ai_getRange :: "rIOAIChannel \<Rightarrow> UINT" where
  "ai_getRange c = ai_getMaxValue c - ai_getMinValue c"

definition ai_processing :: "UINT \<Rightarrow> rIOAIChannel \<Rightarrow> rIOAIChannel" where
  "ai_processing ub c =
     (let c0 = c\<lparr>ai_state := 0\<rparr> in
      if ai_ADC c0 < ai_getMinValue c0 \<or> ai_ADC c0 > ai_getMaxValue c0 \<or> ai_hardState c0 \<noteq> 0
      then c0\<lparr>ai_state := 1, ai_average := []\<rparr>
      else if has (ai_setup c0) AI_AVERAGE
      then (let xs = ai_average c0 @ [ai_ADC c0] in
        c0\<lparr>ai_average := drop (length xs - AI_MAX_AVERAGE) xs,
           ai_ADC := cast_word ub (list_mean (map lreal_of_word xs))\<rparr>)
      else c0\<lparr>ai_average := []\<rparr>)"

text \<open>Single precision: every operation rounds.\<close>

definition rmul :: "lreal \<Rightarrow> lreal \<Rightarrow> lreal" where "rmul a b = to_real32 (a * b)"
definition rdiv :: "lreal \<Rightarrow> lreal \<Rightarrow> lreal" where "rdiv a b = to_real32 (a / b)"
definition radd :: "lreal \<Rightarrow> lreal \<Rightarrow> lreal" where "radd a b = to_real32 (a + b)"

definition ai_sim_current :: "rIOAIChannel \<Rightarrow> lreal" where
  "ai_sim_current c =
     (let range = lreal_of_word (ai_getRange c); rel = Fin (of_int (uint (ai_ADC c) - uint (ai_getMinValue c))) in
      if ai_mode c = mA_0_20 then rmul (rdiv (Fin 20) range) (lreal_of_word (ai_ADC c))
      else if ai_mode c = mA_4_20 then radd (Fin 4) (rmul (rdiv (Fin 16) range) rel)
      else if ai_mode c = V_m10_10 then radd (Fin (- 10)) (rmul (rdiv (Fin 20) range) rel)
      else if ai_mode c = V_0_10 then rmul (rdiv (Fin 10) range) rel
      else ai_current c)"

definition ai_sim_linear :: "rIOAIChannel \<Rightarrow> UINT" where
  "ai_sim_linear c =
     (let tmp = uint (ai_simValue c) + sint (ai_simSpeed c);
          tmp' = (if sint (ai_simSpeed c) > 0 then (if tmp \<ge> uint (ai_simMax c) then uint (ai_simMin c) else tmp)
                  else if sint (ai_simSpeed c) < 0 then (if tmp \<le> uint (ai_simMin c) then uint (ai_simMax c) else tmp)
                  else tmp)
      in of_int tmp')"

definition ai_simulate :: "(lreal \<Rightarrow> lreal) \<Rightarrow> UINT \<Rightarrow> int \<Rightarrow> rIOAIChannel \<Rightarrow> rIOAIChannel \<times> bool" where
  "ai_simulate csin ub rnd c =
     (let ty = ch_simType (ai_base c); c0 = c\<lparr>ai_hardState := 0\<rparr>;
          c1 = (if ty = 1 then c0\<lparr>ai_ADC := ai_simValue c0\<rparr>
                else if ty = 2 then c0\<lparr>ai_ADC := ai_sim_linear c0, ai_simValue := ai_sim_linear c0\<rparr>
                else if ty = 3 then (let v = sim_turn (ai_simValue c0) (ai_simSpeed c0) in
                  c0\<lparr>ai_simValue := v, ai_ADC := cast_word ub (sim_sinus csin (ai_simMin c0) (ai_simMax c0) v)\<rparr>)
                else if ty = 4 then c0\<lparr>ai_ADC := cast_word ub (sim_random (ai_simMin c0) (ai_simMax c0) rnd)\<rparr>
                else c0)
      in (c1\<lparr>ai_current := ai_sim_current c1\<rparr>, True))"

section \<open>The input filter\<close>

text \<open>
  The filter of a discrete input keeps its result to itself. Whatever the setup, the timer and
  the history, the value shown after a processing is the module's value of that very moment, inverted
  when the setup says so; the accepted value, which no one reads, changes under the filter only when
  the timer ran out on a value that still differs.
\<close>

theorem di_filter_ineffective:
  "di_value (di_processing now c)
     = (if has (di_setup c) DI_INVERSED then word_of_bool (di_phValue c = 0) else di_phValue c)
   \<and> (has (di_setup c) DI_FILTER \<and> di_oldValue (di_processing now c) \<noteq> di_oldValue c
       \<longrightarrow> di_oldValue (di_processing now c) = di_phValue c \<and> tick_isFinished now (di_timer c))"
  by (auto simp: di_processing_def di_debounce_def Let_def tick_isFinished_def tick_stop_def)

theorem di_filter_ineffective_witness:
  "tick_isFinished \<lparr>sec = 1, usec = 500000\<rparr>
     (di_timer ((di_new \<lparr>sec = 1, usec = 0\<rparr> 0)\<lparr>di_phValue := 1, di_setup := DI_FILTER, di_filter := 300,
        di_timer := \<lparr>m_tv = \<lparr>sec = 1, usec = 0\<rparr>, m_setting = 300, m_isStart = True\<rparr>\<rparr>))"
proof -
  let ?c = "(di_new \<lparr>sec = 1, usec = 0\<rparr> 0)\<lparr>di_phValue := 1, di_setup := DI_FILTER, di_filter := 300,
        di_timer := \<lparr>m_tv = \<lparr>sec = 1, usec = 0\<rparr>, m_setting = 300, m_isStart = True\<rparr>\<rparr>"
  have "di_oldValue (di_processing \<lparr>sec = 1, usec = 500000\<rparr> ?c) = 1" "di_oldValue ?c = 0" "has (di_setup ?c) DI_FILTER"
    by code_simp+
  then show ?thesis using di_filter_ineffective [of "\<lparr>sec = 1, usec = 500000\<rparr>" ?c] by simp
qed

section \<open>The single pulse\<close>

definition do_idle :: "rIODOChannel \<Rightarrow> bool \<Rightarrow> bool" where
  "do_idle c b \<longleftrightarrow> do_value c = word_of_bool b \<and> do_oldValue c = word_of_bool b \<and> \<not> tick_isStarted (do_timer c)"

text \<open>A pulse that began at \<open>t0\<close> is running.\<close>

definition do_running :: "timeval \<Rightarrow> UDINT \<Rightarrow> rIODOChannel \<Rightarrow> bool \<Rightarrow> bool" where
  "do_running t0 ms c b \<longleftrightarrow> do_value c = word_of_bool (\<not> b) \<and> do_oldValue c = word_of_bool b
     \<and> do_timer c = tick_start t0 ms (do_timer c)"

definition do_image :: "rIODOChannel \<Rightarrow> bool \<Rightarrow> bool" where
  "do_image c v \<longleftrightarrow> do_phValue c = word_of_bool (if has (do_setup c) DO_INVERSED then \<not> v else v)"

lemmas do_defs = do_processing_def do_pulse_step_def do_idle_def do_running_def do_image_def Let_def

lemma tick_started_stop [simp]: "\<not> tick_isStarted (tick_stop t)" "\<not> tick_isFinished now (tick_stop t)"
  by (simp_all add: tick_isStarted_def tick_stop_def tick_isFinished_def)

lemma not_started_not_finished: "\<not> tick_isStarted t \<Longrightarrow> \<not> tick_isFinished now t"
  by (simp add: tick_isStarted_def tick_isFinished_def)

lemma tick_start_idem [simp]: "tick_start t0 ms (tick_start t0 ms t) = tick_start t0 ms t"
  by (simp add: tick_start_def tick_restart_def)

lemma tick_finished_running: "t = tick_start t0 ms t \<Longrightarrow> tick_isFinished now t \<longleftrightarrow> ms \<le> tick_elapsed t0 now"
  using tick.finished_start by metis

lemma tick_started_running: "t = tick_start t0 ms t \<Longrightarrow> tick_isStarted t"
  using tick.started_start by metis

lemma word_of_bool_eq [simp]: "(word_of_bool a :: 'a::len word) = word_of_bool b \<longleftrightarrow> a = b"
  "(word_of_bool a = (0 :: 'a::len word)) = (\<not> a)" "ucast (word_of_bool a :: 16 word) = (word_of_bool a :: 8 word)"
  "ucast (word_of_bool a :: 8 word) = (word_of_bool a :: 16 word)"
  by (simp_all add: word_of_bool_def)

lemma do_pulse_begin:
  assumes "do_idle c b" "has (do_setup c) DO_PULSE"
  shows "do_running t0 (do_pulse c) (do_processing t0 (do_setValue (\<not> b) c)) b"
    "do_image (do_processing t0 (do_setValue (\<not> b) c)) (\<not> b)"
  using assms not_started_not_finished by (auto simp: do_defs do_setValue_def)

lemma do_pulse_setup [simp]: "do_setup (do_processing t c) = do_setup c" "do_pulse (do_processing t c) = do_pulse c"
  "do_setup (do_setValue v c) = do_setup c" "do_pulse (do_setValue v c) = do_pulse c"
  by (simp_all add: do_defs do_setValue_def)

lemma do_pulse_hold:
  assumes "do_running t0 ms c b" "has (do_setup c) DO_PULSE" "tick_elapsed t0 t < ms"
  shows "do_running t0 ms (do_processing t c) b" "do_image (do_processing t c) (\<not> b)"
  using assms tick_finished_running [of "do_timer c" t0 ms t] tick_started_running [of "do_timer c" t0 ms]
  by (auto simp: do_defs)

lemma do_pulse_end:
  assumes "do_running t0 ms c b" "has (do_setup c) DO_PULSE" "ms \<le> tick_elapsed t0 t"
  shows "do_idle (do_processing t c) b" "do_image (do_processing t c) b"
  using assms tick_finished_running [of "do_timer c" t0 ms t] by (auto simp: do_defs)

lemma do_pulse_rest:
  assumes "do_idle c b" "has (do_setup c) DO_PULSE"
  shows "do_idle (do_processing t c) b" "do_image (do_processing t c) b"
  using assms not_started_not_finished by (auto simp: do_defs)

text \<open>All images of a run of processings.\<close>

fun do_run :: "timeval list \<Rightarrow> rIODOChannel \<Rightarrow> rIODOChannel \<times> USINT list" where
  "do_run [] c = (c, [])"
| "do_run (t # ts) c = (let c1 = do_processing t c; (c2, vs) = do_run ts c1 in (c2, do_phValue c1 # vs))"

definition do_shown :: "rIODOChannel \<Rightarrow> bool \<Rightarrow> USINT" where
  "do_shown c v = word_of_bool (if has (do_setup c) DO_INVERSED then \<not> v else v)"

lemma do_image_shown: "do_image c v \<longleftrightarrow> do_phValue c = do_shown c v"
  by (simp add: do_image_def do_shown_def)

lemma do_shown_processing [simp]: "do_shown (do_processing t c) v = do_shown c v"
  by (simp add: do_shown_def)

lemma do_run_hold:
  assumes "do_running t0 ms c b" "has (do_setup c) DO_PULSE" "\<forall>t \<in> set ts. tick_elapsed t0 t < ms"
  shows "\<exists>c'. do_run ts c = (c', replicate (length ts) (do_shown c (\<not> b))) \<and> do_running t0 ms c' b \<and> do_setup c' = do_setup c"
  using assms
proof (induction ts arbitrary: c)
  case (Cons t ts)
  let ?c = "do_processing t c"
  have step: "do_running t0 ms ?c b" "do_image ?c (\<not> b)" using Cons.prems do_pulse_hold by auto
  obtain c' where "do_run ts ?c = (c', replicate (length ts) (do_shown ?c (\<not> b)))" "do_running t0 ms c' b"
    "do_setup c' = do_setup ?c"
    using Cons.IH [OF step(1)] Cons.prems by auto
  then show ?case using step(2) by (simp add: do_image_shown)
qed simp

lemma do_run_rest:
  assumes "do_idle c b" "has (do_setup c) DO_PULSE"
  shows "\<exists>c'. do_run ts c = (c', replicate (length ts) (do_shown c b)) \<and> do_idle c' b"
  using assms
proof (induction ts arbitrary: c)
  case (Cons t ts)
  let ?c = "do_processing t c"
  have step: "do_idle ?c b" "do_image ?c b" using Cons.prems do_pulse_rest by auto
  obtain c' where "do_run ts ?c = (c', replicate (length ts) (do_shown ?c b))" "do_idle c' b"
    using Cons.IH [OF step(1)] Cons.prems by auto
  then show ?case using step(2) by (simp add: do_image_shown)
qed simp

lemma do_run_append:
  "do_run (ts @ us) c = (case do_run ts c of (c1, vs) \<Rightarrow> (case do_run us c1 of (c2, ws) \<Rightarrow> (c2, vs @ ws)))"
  by (induction ts arbitrary: c) (auto simp: Let_def split: prod.splits)

text \<open>
  C34. A discrete output gives one pulse of the set length. An output that rests at a value and is
  switched to the other one shows the other value from the first processing on, at every processing
  before the length of the pulse has gone by since then, and its old value at the first
  one after that and at all later ones, until it is switched again; the image is inverted when the setup says so.
\<close>

theorem do_pulse_once:
  assumes "do_idle c b" "has (do_setup c) DO_PULSE"
    "\<forall>t \<in> set ts. tick_elapsed t0 t < do_pulse c" "do_pulse c \<le> tick_elapsed t0 t1"
  shows "snd (do_run (t0 # ts @ t1 # us) (do_setValue (\<not> b) c))
    = do_shown c (\<not> b) # replicate (length ts) (do_shown c (\<not> b)) @ replicate (Suc (length us)) (do_shown c b)"
proof -
  let ?c = "do_processing t0 (do_setValue (\<not> b) c)"
  note first = do_pulse_begin [OF assms(1,2), of t0]
  have su: "do_setup ?c = do_setup c" by simp
  then have shown: "do_shown ?c v = do_shown c v" for v by (simp only: do_shown_def)
  obtain c2 where c2: "do_run ts ?c = (c2, replicate (length ts) (do_shown c (\<not> b)))"
    "do_running t0 (do_pulse c) c2 b" "do_setup c2 = do_setup c"
    using do_run_hold [OF first(1) _ assms(3)] assms(2) unfolding su shown by blast
  have shown2: "do_shown c2 v = do_shown c v" for v by (simp only: do_shown_def c2(3))
  have shown3: "do_shown (do_processing t1 c2) v = do_shown c v" for v by (simp add: shown2)
  have pulse2: "has (do_setup c2) DO_PULSE" using assms(2) c2(3) by simp
  note last = do_pulse_end [OF c2(2) pulse2 assms(4)]
  obtain c4 where "do_run us (do_processing t1 c2) = (c4, replicate (length us) (do_shown c b))"
    using do_run_rest [OF last(1), of us] pulse2 by (auto simp: shown2)
  then show ?thesis
    using first(2) last(2) c2(1) by (simp add: do_run_append do_image_shown shown shown3 Let_def del: do_shown_processing)
qed

theorem do_pulse_once_witness:
  "snd (do_run (\<lparr>sec = 9, usec = 0\<rparr> # [\<lparr>sec = 9, usec = 400000\<rparr>, \<lparr>sec = 9, usec = 999000\<rparr>] @ \<lparr>sec = 10, usec = 0\<rparr> # [\<lparr>sec = 14, usec = 0\<rparr>])
      (do_setValue (\<not> False) ((do_new \<lparr>sec = 1, usec = 0\<rparr> 3)\<lparr>do_setup := DO_PULSE\<rparr>))) = [1, 1, 1, 0, 0]"
proof (subst do_pulse_once)
  let ?c = "(do_new \<lparr>sec = 1, usec = 0\<rparr> 3)\<lparr>do_setup := DO_PULSE\<rparr>"
  show "do_idle ?c False" "has (do_setup ?c) DO_PULSE"
    by (simp_all add: do_idle_def do_new_def tick_isStarted_def tick_new_def has_def DO_PULSE_def)
  show "\<forall>t \<in> set [\<lparr>sec = 9, usec = 400000\<rparr>, \<lparr>sec = 9, usec = 999000\<rparr>]. tick_elapsed \<lparr>sec = 9, usec = 0\<rparr> t < do_pulse ?c"
    "do_pulse ?c \<le> tick_elapsed \<lparr>sec = 9, usec = 0\<rparr> \<lparr>sec = 10, usec = 0\<rparr>"
    by (simp_all add: tick_elapsed_def Tick_def cdiv_pos do_new_def)
  show "do_shown ?c (\<not> False) # replicate (length [\<lparr>sec = 9, usec = 400000\<rparr>, \<lparr>sec = 9, usec = 999000\<rparr>]) (do_shown ?c (\<not> False)) @
      replicate (Suc (length [\<lparr>sec = 14, usec = 0 :: int\<rparr>])) (do_shown ?c False) = [1, 1, 1, 0, 0]"
    by (simp add: do_shown_def has_def DO_PULSE_def DO_INVERSED_def do_new_def)
qed

section \<open>The average of an analogue input\<close>

lemma sum_words:
  assumes "length xs \<le> 4"
  shows "foldl (+) (Fin 0) (map lreal_of_word (xs :: UINT list)) = Fin (of_int (\<Sum>x \<leftarrow> xs. uint x))
    \<and> (\<Sum>x \<leftarrow> xs. uint x) \<le> 65535 * int (length xs) \<and> 0 \<le> (\<Sum>x \<leftarrow> xs. uint x)"
  using assms
proof (induction xs rule: rev_induct)
  case (snoc x xs)
  have x: "uint x \<le> 65535" "0 \<le> uint x" using uint_lt2p [of x] by simp_all
  have IH: "foldl (+) (Fin 0) (map lreal_of_word xs) = Fin (of_int (\<Sum>x \<leftarrow> xs. uint x))"
    "(\<Sum>x \<leftarrow> xs. uint x) \<le> 65535 * int (length xs)" "0 \<le> (\<Sum>x \<leftarrow> xs. uint x)"
    using snoc by auto
  have "\<bar>(\<Sum>x \<leftarrow> xs. uint x) + uint x\<bar> < 2 ^ 53" using IH(2,3) x snoc.prems by simp
  then have "dround (of_int ((\<Sum>x \<leftarrow> xs. uint x) + uint x)) = Fin (of_int ((\<Sum>x \<leftarrow> xs. uint x) + uint x))"
    by (rule dround_of_int)
  then have "foldl (+) (Fin 0) (map lreal_of_word xs) + lreal_of_word x = Fin (of_int ((\<Sum>x \<leftarrow> xs. uint x) + uint x))"
    unfolding IH(1) by (simp add: lreal_of_word_def [of x])
  then show ?case using IH x by (simp add: algebra_simps)
qed simp

lemma sum_bounds:
  assumes "\<forall>v \<in> set xs. lo \<le> v \<and> v \<le> (hi :: UINT)"
  shows "uint lo * int (length xs) \<le> (\<Sum>x \<leftarrow> xs. uint x) \<and> (\<Sum>x \<leftarrow> xs. uint x) \<le> uint hi * int (length xs)"
  using assms by (induction xs) (auto simp: word_le_def algebra_simps)

text \<open>A mean of values between two words is cast to a word between them.\<close>

lemma mean_between:
  assumes "xs \<noteq> []" "length xs \<le> 4" "\<forall>v \<in> set xs. lo \<le> v \<and> v \<le> (hi :: UINT)"
  shows "lo \<le> cast_word ub (list_mean (map lreal_of_word xs)) \<and> cast_word ub (list_mean (map lreal_of_word xs)) \<le> hi"
proof -
  let ?s = "\<Sum>x \<leftarrow> xs. uint x" and ?n = "int (length xs)"
  have n: "0 < ?n" using assms(1) by simp
  define q where "q = real_of_int ?s / real_of_int ?n"
  have mean: "list_mean (map lreal_of_word xs) = dround q"
    using sum_words [OF assms(2)] n by (simp add: list_mean_def q_def)
  have "real_of_int (uint lo * ?n) \<le> real_of_int ?s" "real_of_int ?s \<le> real_of_int (uint hi * ?n)"
    using sum_bounds [OF assms(3)] by (simp_all only: of_int_le_iff)
  then have q: "of_int (uint lo) \<le> q" "q \<le> of_int (uint hi)"
    using n by (simp_all add: q_def field_simps)
  have hi: "uint hi < 2 ^ 16" "0 \<le> uint lo" "uint lo < 2 ^ 16" using uint_lt2p [of hi] uint_lt2p [of lo] by simp_all
  have "Fin (of_int (uint lo)) \<le> dround q" "dround q \<le> Fin (of_int (uint hi))"
    using dround_mono [OF q(1)] dround_mono [OF q(2)] dround_of_int [of "uint lo"] dround_of_int [of "uint hi"] hi
    by simp_all
  then obtain r where r: "dround q = Fin r" "of_int (uint lo) \<le> r" "r \<le> of_int (uint hi)"
    by (cases "dround q") auto
  have t: "uint lo \<le> \<lfloor>r\<rfloor>" "\<lfloor>r\<rfloor> \<le> uint hi" using r(2,3) by (simp_all add: le_floor_iff floor_le_iff)
  have "0 \<le> r" using r(2) hi(2) by (meson of_int_0_le_iff order_trans)
  moreover have "real_of_int (uint hi) < real_of_int (2 ^ 16)" using hi(1) by (simp only: of_int_less_iff)
  then have "r < 2 ^ 16" using r(3) by (simp only: of_int_power of_int_numeral)
  then have "r < 65536" by simp
  ultimately have "cast_word ub (Fin r) = of_int \<lfloor>r\<rfloor>" using t hi by (simp add: cast_word_def ctrunc_def Let_def)
  moreover have "uint (of_int \<lfloor>r\<rfloor> :: UINT) = \<lfloor>r\<rfloor>"
    using order_trans [OF hi(2) t(1)] le_less_trans [OF t(2) hi(1)] by (simp add: uint_word_of_int)
  ultimately show ?thesis using t mean r(1) by (simp add: word_le_def)
qed

lemma ai_range_update [simp]:
  "ai_getMinValue (c\<lparr>ai_state := s, ai_average := xs, ai_ADC := a\<rparr>) = ai_getMinValue c"
  "ai_getMaxValue (c\<lparr>ai_state := s, ai_average := xs, ai_ADC := a\<rparr>) = ai_getMaxValue c"
  "ai_getMinValue (c\<lparr>ai_state := s\<rparr>) = ai_getMinValue c" "ai_getMaxValue (c\<lparr>ai_state := s\<rparr>) = ai_getMaxValue c"
  "ai_getMinValue (c\<lparr>ai_state := s, ai_average := xs\<rparr>) = ai_getMinValue c"
  "ai_getMaxValue (c\<lparr>ai_state := s, ai_average := xs\<rparr>) = ai_getMaxValue c"
  "ai_getMinValue (c\<lparr>ai_ADC := a\<rparr>) = ai_getMinValue c" "ai_getMaxValue (c\<lparr>ai_ADC := a\<rparr>) = ai_getMaxValue c"
  by (simp_all add: ai_getMinValue_def ai_getMaxValue_def)

fun ai_feed :: "UINT \<Rightarrow> (UINT \<times> USINT \<times> UINT) list \<Rightarrow> rIOAIChannel \<Rightarrow> rIOAIChannel" where
  "ai_feed ub [] c = c"
| "ai_feed ub ((adc, hard, su) # xs) c =
     ai_feed ub xs (ai_processing ub (c\<lparr>ai_ADC := adc, ai_hardState := hard, ai_setup := su\<rparr>))"

definition ai_fits :: "rIOAIChannel \<Rightarrow> UINT \<Rightarrow> bool" where
  "ai_fits c v \<longleftrightarrow> ai_getMinValue c \<le> v \<and> v \<le> ai_getMaxValue c"

lemma ai_range_mode: "ai_mode c = ai_mode d \<Longrightarrow> ai_fits c = ai_fits d"
  by (simp add: fun_eq_iff ai_fits_def ai_getMinValue_def ai_getMaxValue_def)

lemma ai_processing_mode [simp]: "ai_mode (ai_processing ub c) = ai_mode c"
  by (simp add: ai_processing_def Let_def)

lemma ai_feed_mode [simp]: "ai_mode (ai_feed ub xs c) = ai_mode c"
  by (induction ub xs c rule: ai_feed.induct) simp_all

lemma ai_feed_append: "ai_feed ub (xs @ ys) c = ai_feed ub ys (ai_feed ub xs c)"
  by (induction ub xs c rule: ai_feed.induct) simp_all

lemma ai_window:
  assumes "length xs \<le> 3" "\<forall>v \<in> set xs. ai_fits c v" "ai_fits c a"
  shows "length (drop (length xs - 2) (xs @ [a])) \<le> 3"
    "\<forall>v \<in> set (drop (length xs - 2) (xs @ [a])). ai_fits c v"
    "ai_fits c (cast_word ub (list_mean (map lreal_of_word (xs @ [a]))))"
proof -
  show "length (drop (length xs - 2) (xs @ [a])) \<le> 3" using assms(1) by simp
  show "\<forall>v \<in> set (drop (length xs - 2) (xs @ [a])). ai_fits c v"
    using assms(2,3) set_drop_subset [of "length xs - 2" "xs @ [a]"] by auto
  show "ai_fits c (cast_word ub (list_mean (map lreal_of_word (xs @ [a]))))"
    unfolding ai_fits_def using assms by (intro mean_between) (auto simp: ai_fits_def)
qed

lemma ai_step:
  fixes c :: rIOAIChannel and ub :: UINT
  assumes "length (ai_average c) \<le> 3" "\<forall>v \<in> set (ai_average c). ai_fits c v"
  defines "c' \<equiv> ai_processing ub c"
  shows "length (ai_average c') \<le> 3" "\<forall>v \<in> set (ai_average c'). ai_fits c' v"
    "if ai_fits c (ai_ADC c) \<and> ai_hardState c = 0 then ai_state c' = 0 \<and> ai_fits c' (ai_ADC c')
     else ai_state c' = 1 \<and> ai_average c' = []"
proof -
  have same: "ai_fits c' = ai_fits c" unfolding c'_def by (rule ai_range_mode) simp
  note facts = ai_window [OF assms(1,2)]
  consider (fault) "\<not> (ai_fits c (ai_ADC c) \<and> ai_hardState c = 0)"
    | (avg) "ai_fits c (ai_ADC c)" "ai_hardState c = 0" "has (ai_setup c) AI_AVERAGE"
    | (raw) "ai_fits c (ai_ADC c)" "ai_hardState c = 0" "\<not> has (ai_setup c) AI_AVERAGE" by blast
  then have "length (ai_average c') \<le> 3 \<and> (\<forall>v \<in> set (ai_average c'). ai_fits c v) \<and>
    (if ai_fits c (ai_ADC c) \<and> ai_hardState c = 0 then ai_state c' = 0 \<and> ai_fits c (ai_ADC c')
     else ai_state c' = 1 \<and> ai_average c' = [])"
  proof cases
    case fault
    then show ?thesis by (auto simp: c'_def ai_processing_def Let_def ai_fits_def not_le)
  next
    case avg
    have "\<not> ai_ADC c < ai_getMinValue c" "\<not> ai_getMaxValue c < ai_ADC c" using avg(1) by (simp_all add: ai_fits_def not_less)
    with avg have "c' = c\<lparr>ai_state := 0, ai_average := drop (length (ai_average c) - 2) (ai_average c @ [ai_ADC c]),
        ai_ADC := cast_word ub (list_mean (map lreal_of_word (ai_average c @ [ai_ADC c])))\<rparr>"
      by (simp add: c'_def ai_processing_def Let_def AI_MAX_AVERAGE_def del: drop_append)
    then show ?thesis using avg facts(1,2) [of "ai_ADC c"] facts(3) [of "ai_ADC c" ub] by (simp del: drop_append)
  next
    case raw
    then show ?thesis by (simp add: c'_def ai_processing_def Let_def ai_fits_def not_less)
  qed
  then show "length (ai_average c') \<le> 3" "\<forall>v \<in> set (ai_average c'). ai_fits c' v"
    "if ai_fits c (ai_ADC c) \<and> ai_hardState c = 0 then ai_state c' = 0 \<and> ai_fits c' (ai_ADC c')
     else ai_state c' = 1 \<and> ai_average c' = []"
    unfolding same by - (elim conjE, assumption)+
qed

lemma ai_fits_update [simp]: "ai_fits (c\<lparr>ai_ADC := a, ai_hardState := h, ai_setup := s\<rparr>) = ai_fits c"
  by (rule ai_range_mode) simp

lemma ai_feed_window:
  assumes "length (ai_average c) \<le> 3" "\<forall>v \<in> set (ai_average c). ai_fits c v"
  shows "length (ai_average (ai_feed ub xs c)) \<le> 3 \<and> (\<forall>v \<in> set (ai_average (ai_feed ub xs c)). ai_fits c v)"
  using assms
proof (induction ub xs c rule: ai_feed.induct)
  case (2 ub adc hard su xs c)
  let ?c = "c\<lparr>ai_ADC := adc, ai_hardState := hard, ai_setup := su\<rparr>"
  have same: "ai_fits (ai_processing ub ?c) = ai_fits c" by (rule ai_range_mode) simp
  have "length (ai_average ?c) \<le> 3" "\<forall>v \<in> set (ai_average ?c). ai_fits ?c v" using 2(2,3) by simp_all
  note step = ai_step(1,2) [OF this, of ub]
  show ?case using 2(1) [OF step] unfolding same by simp
qed simp

text \<open>
  C35. An analogue input never shows a code outside its scale without saying so. From a new channel on,
  whatever codes, hardware states and settings of the average arrive while the mode stays \<open>m\<close>, the window
  of the average holds at most three values, all inside the scale of the mode; the channel reports
  a fault, with an empty window, exactly when the last code is outside the scale or the hardware is at
  fault, and otherwise the code it shows, averaged in double precision or not, is inside the scale.
\<close>

theorem ai_shows_scale:
  "let c = ai_feed ub (xs @ [(adc, hard, su)]) ((ai_new i act)\<lparr>ai_mode := m\<rparr>); lo = ai_getMinValue c; hi = ai_getMaxValue c
   in length (ai_average c) \<le> 3 \<and> list_all (\<lambda>v. lo \<le> v \<and> v \<le> hi) (ai_average c)
     \<and> (if lo \<le> adc \<and> adc \<le> hi \<and> hard = 0 then ai_state c = 0 \<and> lo \<le> ai_ADC c \<and> ai_ADC c \<le> hi
        else ai_state c = 1 \<and> ai_average c = [])"
proof -
  let ?n = "(ai_new i act)\<lparr>ai_mode := m\<rparr>"
  define d where "d = (ai_feed ub xs ?n)\<lparr>ai_ADC := adc, ai_hardState := hard, ai_setup := su\<rparr>"
  have d: "ai_ADC d = adc" "ai_hardState d = hard" by (simp_all add: d_def)
  have fits: "ai_fits d = ai_fits ?n" "ai_fits (ai_processing ub d) = ai_fits d"
    by (rule ai_range_mode, simp add: d_def)+
  have "ai_average ?n = []" by (simp add: ai_new_def)
  then have "length (ai_average d) \<le> 3" "\<forall>v \<in> set (ai_average d). ai_fits d v"
    using ai_feed_window [of ?n ub xs] unfolding fits by (simp_all add: d_def)
  note step = ai_step [OF this, of ub]
  define c where "c = ai_processing ub d"
  have "length (ai_average c) \<le> 3 \<and> (\<forall>v \<in> set (ai_average c). ai_fits c v)
     \<and> (if ai_fits c adc \<and> hard = 0 then ai_state c = 0 \<and> ai_fits c (ai_ADC c) else ai_state c = 1 \<and> ai_average c = [])"
    using step unfolding fits(2) d c_def by (intro conjI)
  then have main: "length (ai_average c) \<le> 3
     \<and> (\<forall>v \<in> set (ai_average c). ai_getMinValue c \<le> v \<and> v \<le> ai_getMaxValue c)
     \<and> (if ai_getMinValue c \<le> adc \<and> adc \<le> ai_getMaxValue c \<and> hard = 0
        then ai_state c = 0 \<and> ai_getMinValue c \<le> ai_ADC c \<and> ai_ADC c \<le> ai_getMaxValue c
        else ai_state c = 1 \<and> ai_average c = [])"
    unfolding ai_fits_def conj_assoc .
  have fed: "ai_feed ub (xs @ [(adc, hard, su)]) ?n = c" by (simp add: ai_feed_append c_def d_def)
  show ?thesis unfolding fed Let_def list_all_iff by (rule main)
qed

end
