(* ===== verification/IoBase.thy ===== *)
theory IoBase
  imports CanTypes Channels Event
begin

text \<open>
  What all modules of the hardware share, \<^verbatim>\<open>src/tritonn/io/basemodule.cpp\<close>: the exchange with the
  CAN processor once a cycle, the fault flag and its events, and the contract of the interface the data
  objects read channels through (\<^verbatim>\<open>baseinterface.h\<close>). The structure of a module is the block
  of bytes of \<^verbatim>\<open>rpmsg_connector_common.h\<close>; the pointers into it are member paths.
\<close>

section \<open>Members of a block of bytes\<close>

definition rd :: "ctype \<Rightarrow> sel list \<Rightarrow> bytes \<Rightarrow> bytes" where
  "rd t p m = (case fget t p m of None \<Rightarrow> [] | Some b \<Rightarrow> b)"

definition rdw :: "ctype \<Rightarrow> sel list \<Rightarrow> bytes \<Rightarrow> 'a::len word" where
  "rdw t p m = le_word (rd t p m)"

definition wr :: "ctype \<Rightarrow> sel list \<Rightarrow> bytes \<Rightarrow> bytes \<Rightarrow> bytes" where
  "wr t p v m = (case fset t p v m of None \<Rightarrow> m | Some m' \<Rightarrow> m')"

lemma wr_length [simp]: "length m = size_of t \<Longrightarrow> length (wr t p v m) = size_of t"
  using fset_length [of t p v m] by (auto simp: wr_def split: option.split)

lemma rd_wr_same:
  assumes "locate t p = Some (q, u)" "length v = size_of u" "length m = size_of t"
  shows "rd t p (wr t p v m) = v"
proof -
  obtain m' where m': "fset t p v m = Some m'" using assms(1,2) by (simp add: fset_def)
  then have "fget t p m' = Some v" using assms(3) by (intro fget_fset_same) simp_all
  then show ?thesis using m' by (simp add: rd_def wr_def)
qed

lemma rd_wr_other:
  "parted t p p' \<Longrightarrow> length m = size_of t \<Longrightarrow> rd t p' (wr t p v m) = rd t p' m"
  using fget_fset_other [of t p v m _ p'] by (auto simp: rd_def wr_def split: option.split)

lemma le_word_single [simp]: "le_word [b] = (b :: 8 word)"
  by simp

section \<open>The base module\<close>

datatype module_type = MT_UNDEF | MT_CPU | MT_AI6a | MT_AI6p | MT_FI4 | MT_DI8DO8 | MT_DI16 | MT_DO16 | MT_CRM | MT_AO4

fun module_code :: "module_type \<Rightarrow> UINT" where
  "module_code MT_UNDEF = 0"
| "module_code MT_CPU = 1"
| "module_code MT_AI6a = 2"
| "module_code MT_AI6p = 3"
| "module_code MT_FI4 = 4"
| "module_code MT_DI8DO8 = 5"
| "module_code MT_DI16 = 6"
| "module_code MT_DO16 = 7"
| "module_code MT_CRM = 8"
| "module_code MT_AO4 = 9"

text \<open>
  \<^verbatim>\<open>setModule\<close> stores all pointers together: the layout of the structure and the paths of
  its information, system data and status. Without it they are null. \<open>md_data\<close> is the structure
  the derived class owns.
\<close>

record module_ptrs =
  mp_layout :: ctype
  mp_info :: "sel list"
  mp_system :: "sel list"
  mp_status :: "sel list"

record rIOBaseModule =
  md_pulling :: UDINT
  md_type :: module_type
  md_ID :: USINT
  md_ptrs :: "module_ptrs option"
  md_readAll :: nat
  md_exchange :: nat
  md_module :: bytes
  md_status :: bytes
  md_isFault :: bool
  md_data :: bytes

definition base_module :: "module_type \<Rightarrow> UDINT \<Rightarrow> bytes \<Rightarrow> rIOBaseModule" where
  "base_module t num g = \<lparr>md_pulling = 0, md_type = t, md_ID = ucast num, md_ptrs = None, md_readAll = 0,
     md_exchange = 0, md_module = g, md_status = replicate 6 0, md_isFault = False, md_data = []\<rparr>"

definition base_copy :: "rIOBaseModule \<Rightarrow> bytes \<Rightarrow> rIOBaseModule" where
  "base_copy m d = \<lparr>md_pulling = 0, md_type = md_type m, md_ID = md_ID m, md_ptrs = None, md_readAll = 0,
     md_exchange = 0, md_module = md_module m, md_status = replicate 6 0, md_isFault = False, md_data = d\<rparr>"

definition setModule :: "ctype \<Rightarrow> nat \<Rightarrow> nat \<Rightarrow> rIOBaseModule \<Rightarrow> rIOBaseModule" where
  "setModule t readAll exchange m = m\<lparr>md_ptrs := Some \<lparr>mp_layout = t, mp_info = [Fld ''ModuleInfo''],
       mp_system = [Fld ''System''], mp_status = [Fld ''Read'', Fld ''Status'']\<rparr>,
     md_readAll := readAll, md_exchange := exchange, md_data := replicate (size_of t) 0\<rparr>"

text \<open>
  A command to the CAN processor turns the structure of the module into the answer; outside the
  controller's build it returns at once.
\<close>

type_synonym can_link = "nat \<Rightarrow> USINT \<Rightarrow> bytes \<Rightarrow> bytes"

definition in_work :: "module_ptrs \<Rightarrow> bytes \<Rightarrow> bool" where
  "in_work p d \<longleftrightarrow> (rdw (mp_layout p) (mp_info p @ [Fld ''InWork'']) d :: byte) \<noteq> 0"

definition HARWARE_SHORT_UNKNOW :: UDINT where "HARWARE_SHORT_UNKNOW = 1450"
definition DATACFGERR_HARDWARE_MODULEISNULL :: UDINT where "DATACFGERR_HARDWARE_MODULEISNULL = 190"

definition module_event :: "UDINT \<Rightarrow> rIOBaseModule \<Rightarrow> cevent" where
  "module_event eid m = ev_adds (Ev eid []) [P_STRID (ucast (module_code (md_type m)) + HARWARE_SHORT_UNKNOW), P_USINT (md_ID m)]"

definition raise_fault :: "UDINT \<Rightarrow> rIOBaseModule \<Rightarrow> rIOBaseModule \<times> cevent list" where
  "raise_fault eid m = (m\<lparr>md_isFault := True\<rparr>, if md_isFault m then [] else [module_event eid m])"

definition base_processing :: "can_link \<Rightarrow> bool \<Rightarrow> rIOBaseModule \<Rightarrow> rIOBaseModule \<times> UDINT \<times> cevent list" where
  "base_processing can issim m =
     (if issim \<or> md_type m = MT_CPU then (m, TRITONN_RESULT_OK, [])
      else case md_ptrs m of
        None \<Rightarrow> (case raise_fault EID_HARDWARE_MODULE_ISNULL m of (m1, ev) \<Rightarrow> (m1, DATACFGERR_HARDWARE_MODULEISNULL, ev))
      | Some p \<Rightarrow>
        (let m1 = (if in_work p (md_data m) then m else m\<lparr>md_data := can (md_readAll m) (md_ID m) (md_data m)\<rparr>);
             (m2, ev) = (if in_work p (md_data m1)
               then (m1\<lparr>md_data := can (md_exchange m1) (md_ID m1) (md_data m1), md_isFault := False,
                        md_pulling := md_pulling m1 + 1\<rparr>, [])
               else raise_fault EID_HARDWARE_MODULE_FAULT m1)
         in (m2\<lparr>md_module := rd (mp_layout p) (mp_system p) (md_data m2),
                md_status := rd (mp_layout p) (mp_status p) (md_data m2)\<rparr>, TRITONN_RESULT_OK, ev)))"

text \<open>What the loops of the derived classes do with the result of the simulation.\<close>

definition pull :: "bool \<Rightarrow> rIOBaseModule \<Rightarrow> rIOBaseModule" where
  "pull need m = (if need then m\<lparr>md_pulling := md_pulling m + 1\<rparr> else m)"

definition md_status_field :: "string \<Rightarrow> rIOBaseModule \<Rightarrow> UINT" where
  "md_status_field n m = rdw (CStruct [(''CAN'', CU16), (''Firmware'', CU16), (''Hardware'', CU16)]) [Fld n] (md_status m)"

definition md_system_field :: "string \<Rightarrow> rIOBaseModule \<Rightarrow> UDINT" where
  "md_system_field n m = rdw ModuleSysData_str [Fld n] (md_module m)"

section \<open>The events of a fault\<close>

lemma raise_fault_simps [simp]:
  "md_isFault (fst (raise_fault eid m))" "md_ptrs (fst (raise_fault eid m)) = md_ptrs m"
  "md_type (fst (raise_fault eid m)) = md_type m" "md_ID (fst (raise_fault eid m)) = md_ID m"
  "md_data (fst (raise_fault eid m)) = md_data m" "md_exchange (fst (raise_fault eid m)) = md_exchange m"
  by (simp_all add: raise_fault_def)

lemma base_same [simp]:
  "md_ptrs (fst (base_processing can issim m)) = md_ptrs m"
  "md_type (fst (base_processing can issim m)) = md_type m"
  "md_ID (fst (base_processing can issim m)) = md_ID m"
  by (auto simp: base_processing_def raise_fault_def Let_def split: option.split)

lemma base_simulated [simp]: "base_processing can True m = (m, TRITONN_RESULT_OK, [])"
  by (simp add: base_processing_def)

lemma base_ok:
  "md_ptrs m = Some p \<Longrightarrow> fst (snd (base_processing can issim m)) = TRITONN_RESULT_OK"
  by (simp add: base_processing_def Let_def case_prod_beta)

text \<open>The data after a cycle: the last answer of the processor.\<close>

definition base_data :: "can_link \<Rightarrow> module_ptrs \<Rightarrow> rIOBaseModule \<Rightarrow> bytes" where
  "base_data can p m = (let d = (if in_work p (md_data m) then md_data m else can (md_readAll m) (md_ID m) (md_data m)) in
     if in_work p d then can (md_exchange m) (md_ID m) d else d)"

lemma base_data: "md_ptrs m = Some p \<Longrightarrow> md_type m \<noteq> MT_CPU
    \<Longrightarrow> md_data (fst (base_processing can False m)) = base_data can p m"
  by (simp add: base_processing_def base_data_def raise_fault_def Let_def)

text \<open>Whether the processor reports the module working in this cycle.\<close>

definition base_alive :: "can_link \<Rightarrow> module_ptrs \<Rightarrow> rIOBaseModule \<Rightarrow> bool" where
  "base_alive can p m \<longleftrightarrow> in_work p (if in_work p (md_data m) then md_data m else can (md_readAll m) (md_ID m) (md_data m))"

lemma base_fault:
  assumes "md_ptrs m = Some p" "md_type m \<noteq> MT_CPU"
  shows "md_isFault (fst (base_processing can False m)) = (\<not> base_alive can p m)"
    "snd (snd (base_processing can False m))
      = (if \<not> base_alive can p m \<and> \<not> md_isFault m then [module_event EID_HARDWARE_MODULE_FAULT m] else [])"
    "md_pulling (fst (base_processing can False m)) = md_pulling m + (if base_alive can p m then 1 else 0)"
  using assms by (simp_all add: base_processing_def base_alive_def raise_fault_def module_event_def Let_def)

text \<open>A run of cycles, the processor answering each in its own way, and what it reported in each.\<close>

fun base_run :: "can_link list \<Rightarrow> rIOBaseModule \<Rightarrow> rIOBaseModule \<times> cevent list" where
  "base_run [] m = (m, [])"
| "base_run (can # cans) m = (case base_processing can False m of (m1, res, ev) \<Rightarrow>
     case base_run cans m1 of (m2, ev') \<Rightarrow> (m2, ev @ ev'))"

fun alive_trace :: "can_link list \<Rightarrow> module_ptrs \<Rightarrow> rIOBaseModule \<Rightarrow> bool list" where
  "alive_trace [] p m = []"
| "alive_trace (can # cans) p m = base_alive can p m # alive_trace cans p (fst (base_processing can False m))"

fun failures :: "bool \<Rightarrow> bool list \<Rightarrow> nat" where
  "failures working [] = 0"
| "failures working (a # as) = (if working \<and> \<not> a then 1 else 0) + failures a as"

text \<open>
  C36. A module reports each failure once. Over any run of cycles of a module that is set up, whatever
  the processor answers in each of them, the events are one fault event for every cycle in which the
  module stopped working, none for the cycles it stayed away, and the fault flag at the end says whether
  it worked in the last cycle; a cycle in which it works counts as one more poll.
\<close>

theorem module_reports_failures:
  assumes "md_ptrs m = Some p" "md_type m \<noteq> MT_CPU"
  shows "snd (base_run cans m) = replicate (failures (\<not> md_isFault m) (alive_trace cans p m)) (module_event EID_HARDWARE_MODULE_FAULT m)
    \<and> md_isFault (fst (base_run cans m)) = (if cans = [] then md_isFault m else \<not> last (alive_trace cans p m))
    \<and> md_pulling (fst (base_run cans m)) = md_pulling m + of_nat (length (filter id (alive_trace cans p m)))"
  using assms
proof (induction cans arbitrary: m)
  case (Cons can cans)
  let ?m = "fst (base_processing can False m)"
  have same: "md_ptrs ?m = Some p" "md_type ?m \<noteq> MT_CPU"
    "module_event EID_HARDWARE_MODULE_FAULT ?m = module_event EID_HARDWARE_MODULE_FAULT m"
    using Cons.prems by (simp_all add: module_event_def)
  have tr: "alive_trace cans p ?m = [] \<longleftrightarrow> cans = []" by (cases cans) simp_all
  show ?case
    using Cons.IH [OF same(1,2)] base_fault [OF Cons.prems, of can] same(3) tr
    by (cases "base_alive can p m") (simp_all add: case_prod_beta)
qed simp

theorem module_reports_failures_witness:
  "snd (base_run [\<lambda>f i d. d, \<lambda>f i d. 1 # drop 1 d, \<lambda>f i d. 0 # drop 1 d, \<lambda>f i d. 0 # drop 1 d, \<lambda>f i d. d]
      (setModule K19_DO16_str 1 2 (base_module MT_DO16 3 [])))
    = replicate 2 (module_event EID_HARDWARE_MODULE_FAULT (setModule K19_DO16_str 1 2 (base_module MT_DO16 3 [])))"
proof -
  let ?m = "setModule K19_DO16_str 1 2 (base_module MT_DO16 3 [])"
  let ?p = "\<lparr>mp_layout = K19_DO16_str, mp_info = [Fld ''ModuleInfo''], mp_system = [Fld ''System''], mp_status = [Fld ''Read'', Fld ''Status'']\<rparr>"
  let ?cans = "[\<lambda>f i d. d, \<lambda>f i d. 1 # drop 1 d, \<lambda>f i d. 0 # drop 1 d, \<lambda>f i d. 0 # drop 1 d, \<lambda>f i d. d] :: can_link list"
  have work: "in_work ?p d \<longleftrightarrow> (le_word (take 1 d) :: byte) \<noteq> 0" for d
    by (simp add: in_work_def rdw_def rd_def fget_def K19_DO16_str_def ModuleInfo_str_def)
  have ptr: "md_ptrs ?m = Some ?p" and ty: "md_type ?m \<noteq> MT_CPU" "\<not> md_isFault ?m" and d: "md_data ?m = replicate 72 0"
    by (simp_all add: setModule_def base_module_def)
  have trace: "alive_trace ?cans ?p ?m = [False, True, True, False, False]"
    using ptr ty(1) d base_data [where p = ?p] by (simp add: base_alive_def base_data_def work)
  have "failures (\<not> md_isFault ?m) [False, True, True, False, False] = 2" using ty(2) by simp
  then show ?thesis using module_reports_failures [OF ptr ty(1), of ?cans, THEN conjunct1] unfolding trace by (simp only:)
qed

section \<open>The contract of a module\<close>

text \<open>
  The codes a data object sees when it asks for a channel. \<open>kind\<close> tells the type of each channel,
  \<open>look\<close> is \<^verbatim>\<open>getValue\<close>: the value and the fault variable of the caller afterwards.
\<close>

definition DATACFGERR_REALTIME_CHANNELLINK :: UDINT where "DATACFGERR_REALTIME_CHANNELLINK = 198"
definition DATACFGERR_REALTIME_WRONGCHANNEL :: UDINT where "DATACFGERR_REALTIME_WRONGCHANNEL = 199"

locale io_module =
  fixes good :: "'m \<Rightarrow> bool"
    and kind :: "nat \<Rightarrow> channel_type option"
    and look :: "'m \<Rightarrow> USINT \<Rightarrow> channel_type \<Rightarrow> UDINT \<Rightarrow> UDINT \<times> UDINT"
    and put :: "'m \<Rightarrow> USINT \<Rightarrow> channel_type \<Rightarrow> UDINT \<Rightarrow> 'm \<times> UDINT"
  assumes look_missing: "good m \<Longrightarrow> kind (unat n) = None \<Longrightarrow> snd (look m n t f) = DATACFGERR_REALTIME_CHANNELLINK"
    and look_wrong: "good m \<Longrightarrow> kind (unat n) = Some t' \<Longrightarrow> t' \<noteq> t \<Longrightarrow> snd (look m n t f) = DATACFGERR_REALTIME_WRONGCHANNEL"
    and look_fine: "good m \<Longrightarrow> kind (unat n) = Some t \<Longrightarrow> snd (look m n t f) \<in> {f, TRITONN_RESULT_OK}"
    and put_good: "good m \<Longrightarrow> good (fst (put m n t v))"
    and put_refused: "good m \<Longrightarrow> snd (put m n t v) \<noteq> TRITONN_RESULT_OK \<Longrightarrow> fst (put m n t v) = m"
    and put_fine: "good m \<Longrightarrow> snd (put m n t v) = TRITONN_RESULT_OK \<Longrightarrow> kind (unat n) = Some t"
begin

text \<open>A data object that starts with no fault learns exactly whether its channel is there.\<close>

lemma look_ok:
  assumes "good m"
  shows "snd (look m n t TRITONN_RESULT_OK) = TRITONN_RESULT_OK \<longleftrightarrow> kind (unat n) = Some t"
proof (cases "kind (unat n)")
  case None
  then show ?thesis using look_missing [OF assms None] by (simp add: TRITONN_RESULT_OK_def DATACFGERR_REALTIME_CHANNELLINK_def)
next
  case (Some t')
  show ?thesis
  proof (cases "t' = t")
    case True
    then show ?thesis using look_fine [OF assms] Some by auto
  next
    case False
    then show ?thesis using look_wrong [OF assms Some False] Some
      by (simp add: TRITONN_RESULT_OK_def DATACFGERR_REALTIME_WRONGCHANNEL_def)
  qed
qed

text \<open>Whoever writes a value successfully could also read that channel without a fault.\<close>

lemma put_then_look:
  assumes "good m" "snd (put m n t v) = TRITONN_RESULT_OK"
  shows "snd (look (fst (put m n t v)) n t TRITONN_RESULT_OK) = TRITONN_RESULT_OK"
  using look_ok [OF put_good [OF assms(1)]] put_fine [OF assms] by simp

end

end
