(* ===== verification/IoDiscrete.thy ===== *)
theory IoDiscrete
  imports IoBase
begin

text \<open>
  The discrete modules: sixteen inputs (\<^verbatim>\<open>module_di16.cpp\<close>), sixteen outputs
  (\<^verbatim>\<open>module_do16.cpp\<close>), and eight of each (\<^verbatim>\<open>module_di8do8.cpp\<close>). A cycle reads one
  clock; \<open>rnd\<close> is the number the random simulation of a channel draws.
\<close>

section \<open>Sixteen inputs\<close>

definition UL_K19_DI16_ChStHigh :: byte where "UL_K19_DI16_ChStHigh = 1"

record rModuleDI16 =
  di16_base :: rIOBaseModule
  di16_channel :: "rIODIChannel list"

definition DI16_COUNT :: nat where "DI16_COUNT = 16"

definition di_channel_at :: "timeval \<Rightarrow> nat \<Rightarrow> nat \<Rightarrow> rIODIChannel" where
  "di_channel_at now num idx = (let c = di_new now (of_nat num) in c\<lparr>di_base := (di_base c)\<lparr>ch_canIdx := of_nat idx\<rparr>\<rparr>)"

definition di16_new :: "timeval \<Rightarrow> UDINT \<Rightarrow> bytes \<Rightarrow> rModuleDI16" where
  "di16_new now num g = \<lparr>di16_base = setModule K19_DI16_str K19_DI16_ModuleReadAll K19_DI16_ModuleExchange (base_module MT_DI16 num g),
     di16_channel = map (\<lambda>i. di_channel_at now i i) [0..<DI16_COUNT]\<rparr>"

definition di16_copy :: "rModuleDI16 \<Rightarrow> bytes \<Rightarrow> rModuleDI16" where
  "di16_copy m d = \<lparr>di16_base = base_copy (di16_base m) d, di16_channel = di16_channel m\<rparr>"

definition di16_in :: "nat \<Rightarrow> sel list" where
  "di16_in i = [Fld ''Read'', Fld ''In'', Idx i]"

text \<open>One round of the loop over the channels: the new channel and whether it asks to be pulled.\<close>

definition di_round :: "bool \<Rightarrow> timeval \<Rightarrow> int \<Rightarrow> bool \<Rightarrow> rIODIChannel \<Rightarrow> rIODIChannel \<times> bool" where
  "di_round issim now rnd high c =
     (let (c1, p) = (if issim then di_simulate now rnd c else (c\<lparr>di_phValue := word_of_bool high\<rparr>, False)) in
      (di_processing now c1, p))"

definition di16_step :: "bool \<Rightarrow> timeval \<Rightarrow> (USINT \<Rightarrow> int) \<Rightarrow> bytes \<Rightarrow> rIODIChannel \<Rightarrow> rIODIChannel \<times> bool" where
  "di16_step issim now rnd d c = (let idx = ch_canIdx (di_base c) in
     di_round issim now (rnd idx) (rdw K19_DI16_str (di16_in (unat idx)) d = UL_K19_DI16_ChStHigh) c)"

definition di16_processing :: "can_link \<Rightarrow> bool \<Rightarrow> timeval \<Rightarrow> (USINT \<Rightarrow> int) \<Rightarrow> rModuleDI16 \<Rightarrow> rModuleDI16 \<times> UDINT \<times> cevent list" where
  "di16_processing can issim now rnd m =
     (case base_processing can issim (di16_base m) of (b, res, ev) \<Rightarrow>
       if res \<noteq> TRITONN_RESULT_OK then (m\<lparr>di16_base := b\<rparr>, res, ev)
       else (let rs = map (di16_step issim now rnd (md_data b)) (di16_channel m);
                 b1 = b\<lparr>md_data := wr K19_DI16_str [Fld ''Write'', Fld ''Filter''] (le_bytes 2 (0 :: UINT)) (md_data b)\<rparr>
             in (\<lparr>di16_base = pull (\<exists>r \<in> set rs. snd r) b1, di16_channel = map fst rs\<rparr>, TRITONN_RESULT_OK, ev)))"

definition di16_getValue :: "rModuleDI16 \<Rightarrow> USINT \<Rightarrow> channel_type \<Rightarrow> UDINT \<Rightarrow> UDINT \<times> UDINT" where
  "di16_getValue m num t f =
     (if unat num \<ge> DI16_COUNT then (0, DATACFGERR_REALTIME_CHANNELLINK)
      else if ch_type (di_base (di16_channel m ! unat num)) \<noteq> t then (0, DATACFGERR_REALTIME_WRONGCHANNEL)
      else (ucast (di_value (di16_channel m ! unat num)), f))"

definition di16_setValue :: "rModuleDI16 \<Rightarrow> USINT \<Rightarrow> channel_type \<Rightarrow> UDINT \<Rightarrow> rModuleDI16 \<times> UDINT" where
  "di16_setValue m num t v = (m, DATACFGERR_REALTIME_WRONGCHANNEL)"

section \<open>Sixteen outputs\<close>

definition UL_K19_DO16_OutLow :: byte where "UL_K19_DO16_OutLow = 0"
definition UL_K19_DO16_OutHigh :: byte where "UL_K19_DO16_OutHigh = 1"

record rModuleDO16 =
  do16_base :: rIOBaseModule
  do16_channel :: "rIODOChannel list"

definition DO16_COUNT :: nat where "DO16_COUNT = 16"

definition do_channel_at :: "timeval \<Rightarrow> nat \<Rightarrow> nat \<Rightarrow> rIODOChannel" where
  "do_channel_at now num idx = (let c = do_new now (of_nat num) in c\<lparr>do_base := (do_base c)\<lparr>ch_canIdx := of_nat idx\<rparr>\<rparr>)"

definition do16_new :: "timeval \<Rightarrow> UDINT \<Rightarrow> bytes \<Rightarrow> rModuleDO16" where
  "do16_new now num g = \<lparr>do16_base = setModule K19_DO16_str K19_DO16_ModuleReadAll K19_DO16_ModuleExchange (base_module MT_DO16 num g),
     do16_channel = map (\<lambda>i. do_channel_at now i i) [0..<DO16_COUNT]\<rparr>"

definition do16_copy :: "rModuleDO16 \<Rightarrow> bytes \<Rightarrow> rModuleDO16" where
  "do16_copy m d = \<lparr>do16_base = base_copy (do16_base m) d, do16_channel = do16_channel m\<rparr>"

definition do16_out :: "nat \<Rightarrow> sel list" where
  "do16_out i = [Fld ''Write'', Fld ''Out'', Idx i]"

fun do16_loop :: "bool \<Rightarrow> timeval \<Rightarrow> rIODOChannel list \<Rightarrow> bytes \<Rightarrow> rIODOChannel list \<times> bytes \<times> bool" where
  "do16_loop issim now [] d = ([], d, False)"
| "do16_loop issim now (c # cs) d =
     (let (c1, d1, p) = (if issim then (case do_simulate c of (c', p) \<Rightarrow> (c', d, p))
            else (c, wr K19_DO16_str (do16_out (unat (ch_canIdx (do_base c))))
                    [if do_value c \<noteq> 0 then UL_K19_DO16_OutHigh else UL_K19_DO16_OutLow] d, False));
          (cs', d', p') = do16_loop issim now cs d1
      in (do_processing now c1 # cs', d', p \<or> p'))"

definition do16_processing :: "can_link \<Rightarrow> bool \<Rightarrow> timeval \<Rightarrow> rModuleDO16 \<Rightarrow> rModuleDO16 \<times> UDINT \<times> cevent list" where
  "do16_processing can issim now m =
     (case base_processing can issim (do16_base m) of (b, res, ev) \<Rightarrow>
       if res \<noteq> TRITONN_RESULT_OK then (m\<lparr>do16_base := b\<rparr>, res, ev)
       else (case do16_loop issim now (do16_channel m) (md_data b) of (cs, d, p) \<Rightarrow>
         (\<lparr>do16_base = pull p (b\<lparr>md_data := d\<rparr>), do16_channel = cs\<rparr>, TRITONN_RESULT_OK, ev)))"

definition do16_getValue :: "rModuleDO16 \<Rightarrow> USINT \<Rightarrow> channel_type \<Rightarrow> UDINT \<Rightarrow> UDINT \<times> UDINT" where
  "do16_getValue m num t f =
     (if unat num \<ge> DO16_COUNT then (0, DATACFGERR_REALTIME_CHANNELLINK)
      else if ch_type (do_base (do16_channel m ! unat num)) \<noteq> t then (0, DATACFGERR_REALTIME_WRONGCHANNEL)
      else (ucast (do_value (do16_channel m ! unat num)), f))"

definition do16_setValue :: "rModuleDO16 \<Rightarrow> USINT \<Rightarrow> channel_type \<Rightarrow> UDINT \<Rightarrow> rModuleDO16 \<times> UDINT" where
  "do16_setValue m num t v =
     (if unat num \<ge> DO16_COUNT then (m, DATACFGERR_REALTIME_CHANNELLINK)
      else if ch_type (do_base (do16_channel m ! unat num)) \<noteq> t then (m, DATACFGERR_REALTIME_WRONGCHANNEL)
      else (m\<lparr>do16_channel := (do16_channel m)[unat num := (do16_channel m ! unat num)\<lparr>do_value := word_of_bool (v \<noteq> 0)\<rparr>]\<rparr>,
            TRITONN_RESULT_OK))"

section \<open>Eight inputs and eight outputs\<close>

definition UL_K19_DIDO8_ChStLow :: byte where "UL_K19_DIDO8_ChStLow = 0"
definition UL_K19_DIDO8_ChStHigh :: byte where "UL_K19_DIDO8_ChStHigh = 1"

record rModuleDI8DO8 =
  dido_base :: rIOBaseModule
  dido_DI :: "rIODIChannel list"
  dido_DO :: "rIODOChannel list"

definition CHANNEL_DI_COUNT :: nat where "CHANNEL_DI_COUNT = 8"
definition CHANNEL_DO_COUNT :: nat where "CHANNEL_DO_COUNT = 8"

definition dido_new :: "timeval \<Rightarrow> UDINT \<Rightarrow> bytes \<Rightarrow> rModuleDI8DO8" where
  "dido_new now num g = \<lparr>dido_base = setModule K19_DIDO8_str K19_DIDO8_ModuleReadAll K19_DIDO8_ModuleExchange (base_module MT_DI8DO8 num g),
     dido_DI = map (\<lambda>i. di_channel_at now i i) [0..<CHANNEL_DI_COUNT],
     dido_DO = map (\<lambda>i. do_channel_at now (CHANNEL_DI_COUNT + i) i) [0..<CHANNEL_DO_COUNT]\<rparr>"

definition dido_copy :: "rModuleDI8DO8 \<Rightarrow> bytes \<Rightarrow> rModuleDI8DO8" where
  "dido_copy m d = \<lparr>dido_base = base_copy (dido_base m) d, dido_DI = dido_DI m, dido_DO = dido_DO m\<rparr>"

definition dido_in :: "nat \<Rightarrow> sel list" where "dido_in i = [Fld ''Read'', Fld ''DI'', Idx i]"
definition dido_out :: "nat \<Rightarrow> sel list" where "dido_out i = [Fld ''Write'', Fld ''DO'', Idx i]"

definition dido_in_step :: "bool \<Rightarrow> timeval \<Rightarrow> (USINT \<Rightarrow> int) \<Rightarrow> bytes \<Rightarrow> rIODIChannel \<Rightarrow> rIODIChannel \<times> bool" where
  "dido_in_step issim now rnd d c = (let idx = ch_canIdx (di_base c) in
     di_round issim now (rnd idx) (rdw K19_DIDO8_str (dido_in (unat idx)) d = UL_K19_DIDO8_ChStHigh) c)"

fun dido_out_loop :: "bool \<Rightarrow> timeval \<Rightarrow> rIODOChannel list \<Rightarrow> bytes \<Rightarrow> rIODOChannel list \<times> bytes \<times> bool" where
  "dido_out_loop issim now [] d = ([], d, False)"
| "dido_out_loop issim now (c # cs) d =
     (let c0 = do_processing now c;
          (c1, d1, p) = (if issim then (case do_simulate c0 of (c', p) \<Rightarrow> (c', d, p))
            else (c0, wr K19_DIDO8_str (dido_out (unat (ch_canIdx (do_base c0))))
                    [if do_phValue c0 \<noteq> 0 then UL_K19_DIDO8_ChStHigh else UL_K19_DIDO8_ChStLow] d, False));
          (cs', d', p') = dido_out_loop issim now cs d1
      in (c1 # cs', d', p \<or> p'))"

definition dido_processing :: "can_link \<Rightarrow> bool \<Rightarrow> timeval \<Rightarrow> (USINT \<Rightarrow> int) \<Rightarrow> rModuleDI8DO8 \<Rightarrow> rModuleDI8DO8 \<times> UDINT \<times> cevent list" where
  "dido_processing can issim now rnd m =
     (case base_processing can issim (dido_base m) of (b, res, ev) \<Rightarrow>
       if res \<noteq> TRITONN_RESULT_OK then (m\<lparr>dido_base := b\<rparr>, res, ev)
       else (let rs = map (dido_in_step issim now rnd (md_data b)) (dido_DI m) in
         case dido_out_loop issim now (dido_DO m) (md_data b) of (cs, d, p) \<Rightarrow>
         (\<lparr>dido_base = pull ((\<exists>r \<in> set rs. snd r) \<or> p)
             (b\<lparr>md_data := wr K19_DIDO8_str [Fld ''Write'', Fld ''DIFilter''] (le_bytes 2 (0 :: UINT)) d\<rparr>),
           dido_DI = map fst rs, dido_DO = cs\<rparr>, TRITONN_RESULT_OK, ev)))"

definition dido_getValue :: "rModuleDI8DO8 \<Rightarrow> USINT \<Rightarrow> channel_type \<Rightarrow> UDINT \<Rightarrow> UDINT \<times> UDINT" where
  "dido_getValue m num t f =
     (if unat num \<ge> CHANNEL_DI_COUNT + CHANNEL_DO_COUNT then (0, DATACFGERR_REALTIME_CHANNELLINK)
      else if unat num < CHANNEL_DI_COUNT then
        (if ch_type (di_base (dido_DI m ! unat num)) \<noteq> t then (0, DATACFGERR_REALTIME_WRONGCHANNEL)
         else (ucast (di_value (dido_DI m ! unat num)), f))
      else (let n = unat num - CHANNEL_DI_COUNT in
         if ch_type (do_base (dido_DO m ! n)) \<noteq> t then (0, DATACFGERR_REALTIME_WRONGCHANNEL)
         else (ucast (do_value (dido_DO m ! n)), f)))"

definition dido_setValue :: "rModuleDI8DO8 \<Rightarrow> USINT \<Rightarrow> channel_type \<Rightarrow> UDINT \<Rightarrow> rModuleDI8DO8 \<times> UDINT" where
  "dido_setValue m num t v =
     (if unat num \<ge> CHANNEL_DI_COUNT + CHANNEL_DO_COUNT \<or> unat num < CHANNEL_DI_COUNT then (m, DATACFGERR_REALTIME_CHANNELLINK)
      else (let n = unat num - CHANNEL_DI_COUNT in
        if ch_type (do_base (dido_DO m ! n)) \<noteq> t then (m, DATACFGERR_REALTIME_WRONGCHANNEL)
        else (m\<lparr>dido_DO := (dido_DO m)[n := (dido_DO m ! n)\<lparr>do_value := word_of_bool (v \<noteq> 0)\<rparr>]\<rparr>, TRITONN_RESULT_OK)))"

section \<open>What every cycle keeps\<close>

text \<open>The CAN processor answers a structure with one of the same size.\<close>

definition keeps_length :: "can_link \<Rightarrow> bool" where
  "keeps_length can \<longleftrightarrow> (\<forall>f i d. length (can f i d) = length d)"

text \<open>A module whose pointers are set over a structure of its own.\<close>

definition base_good :: "module_type \<Rightarrow> ctype \<Rightarrow> rIOBaseModule \<Rightarrow> bool" where
  "base_good ty t b \<longleftrightarrow> md_type b = ty \<and> ty \<noteq> MT_CPU \<and> length (md_data b) = size_of t
     \<and> (\<exists>p. md_ptrs b = Some p \<and> mp_layout p = t)"

lemma base_good_new: "ty \<noteq> MT_CPU \<Longrightarrow> base_good ty t (setModule t r e (base_module ty num g))"
  by (simp add: base_good_def setModule_def base_module_def)

lemma base_good_data:
  assumes "base_good ty t b" "keeps_length can"
  shows "length (md_data (fst (base_processing can issim b))) = size_of t"
  using assms by (auto simp: base_good_def keeps_length_def base_processing_def raise_fault_def Let_def)

lemma base_good_processing:
  assumes "base_good ty t b" "keeps_length can"
  shows "base_good ty t (fst (base_processing can issim b))"
  using base_good_data [OF assms, of issim] assms(1) by (simp add: base_good_def)

lemma base_good_ok: "base_good ty t b \<Longrightarrow> fst (snd (base_processing can issim b)) = TRITONN_RESULT_OK"
  by (auto simp: base_good_def base_ok)

lemma base_good_pull [simp]: "base_good ty t (pull p b) = base_good ty t b"
  by (simp add: base_good_def pull_def)

lemma base_good_set: "base_good ty t b \<Longrightarrow> length d = size_of t \<Longrightarrow> base_good ty t (b\<lparr>md_data := d\<rparr>)"
  by (simp add: base_good_def)

definition di_at :: "nat \<Rightarrow> rIODIChannel \<Rightarrow> bool" where
  "di_at i c \<longleftrightarrow> ch_type (di_base c) = CT_DI \<and> ch_canIdx (di_base c) = of_nat i"

definition do_at :: "nat \<Rightarrow> rIODOChannel \<Rightarrow> bool" where
  "do_at i c \<longleftrightarrow> ch_type (do_base c) = CT_DO \<and> ch_canIdx (do_base c) = of_nat i"

definition placed :: "(nat \<Rightarrow> 'c \<Rightarrow> bool) \<Rightarrow> nat \<Rightarrow> 'c list \<Rightarrow> bool" where
  "placed P n cs \<longleftrightarrow> length cs = n \<and> (\<forall>i < n. P i (cs ! i))"

lemma placed_map: "placed P n cs \<Longrightarrow> (\<And>i c. P i c \<Longrightarrow> P i (f c)) \<Longrightarrow> placed P n (map f cs)"
  by (simp add: placed_def)

lemma placed_update: "placed P n cs \<Longrightarrow> (\<And>i c. P i c \<Longrightarrow> P i (f c)) \<Longrightarrow> placed P n (cs[j := f (cs ! j)])"
  by (auto simp: placed_def nth_list_update_if)

lemma di_base_processing [simp]: "di_base (di_processing now c) = di_base c"
  by (simp add: di_processing_def di_debounce_def Let_def split: prod.split)

lemma di_base_round [simp]: "di_base (fst (di_round issim now rnd high c)) = di_base c"
  by (simp add: di_round_def di_simulate_def Let_def)

lemma do_base_processing [simp]: "do_base (do_processing now c) = do_base c"
  by (simp add: do_processing_def do_pulse_step_def Let_def)

lemma di_at_round: "di_at i c \<Longrightarrow> di_at i (fst (di_round issim now rnd high c))"
  by (simp add: di_at_def)

lemma do_at_processing: "do_at i c \<Longrightarrow> do_at i (do_processing now c)"
  by (simp add: do_at_def)

lemma placed_new:
  "placed di_at n (map (\<lambda>i. di_channel_at now i i) [0..<n])"
  "placed do_at n (map (\<lambda>i. do_channel_at now (k + i) i) [0..<n])"
  "placed do_at n (map (\<lambda>i. do_channel_at now i i) [0..<n])"
  by (simp_all add: placed_def di_at_def do_at_def di_channel_at_def do_channel_at_def di_new_def do_new_def base_channel_def Let_def)

section \<open>The loops over the outputs\<close>

lemma locate_do16_out [simp]: "i < 16 \<Longrightarrow> locate K19_DO16_str (do16_out i) = Some (24 + i, UL_K19_DO16_OutState)"
  by (simp add: K19_DO16_str_def do16_out_def c_layout)

lemma locate_dido_out [simp]: "i < 8 \<Longrightarrow> locate K19_DIDO8_str (dido_out i) = Some (62 + i, UL_K19_DIDO8_ChState)"
  by (simp add: K19_DIDO8_str_def dido_out_def c_layout)

lemma parted_do16_out: "i \<noteq> j \<Longrightarrow> parted K19_DO16_str (do16_out i) (do16_out j)"
  by (simp add: K19_DO16_str_def do16_out_def)

lemma parted_dido_out: "i \<noteq> j \<Longrightarrow> parted K19_DIDO8_str (dido_out i) (dido_out j)"
  by (simp add: K19_DIDO8_str_def dido_out_def)

text \<open>Both loops write one byte after the other into an array of the structure.\<close>

fun put_outs :: "ctype \<Rightarrow> (nat \<Rightarrow> sel list) \<Rightarrow> nat \<Rightarrow> byte list \<Rightarrow> bytes \<Rightarrow> bytes" where
  "put_outs t p n [] d = d"
| "put_outs t p n (v # vs) d = put_outs t p (Suc n) vs (wr t (p n) [v] d)"

lemma put_outs_length [simp]: "length d = size_of t \<Longrightarrow> length (put_outs t p n vs d) = size_of t"
  by (induction t p n vs d rule: put_outs.induct) simp_all

lemma put_outs_before:
  assumes "\<And>i. n \<le> i \<Longrightarrow> parted t (p i) q" "length d = size_of t"
  shows "rd t q (put_outs t p n vs d) = rd t q d"
  using assms by (induction t p n vs d rule: put_outs.induct) (simp_all add: rd_wr_other)

lemma put_outs_rd:
  assumes "\<And>i. i < N \<Longrightarrow> \<exists>q u. locate t (p i) = Some (q, u) \<and> size_of u = 1"
    "\<And>i j. i \<noteq> j \<Longrightarrow> parted t (p i) (p j)" "length d = size_of t" "n + length vs \<le> N" "k < length vs"
  shows "rd t (p (n + k)) (put_outs t p n vs d) = [vs ! k]"
  using assms(3-)
proof (induction vs arbitrary: n d k)
  case (Cons v vs)
  let ?d = "wr t (p n) [v] d"
  have len: "length ?d = size_of t" using Cons.prems(1) by simp
  show ?case
  proof (cases k)
    case 0
    obtain q u where "locate t (p n) = Some (q, u)" "size_of u = 1" using assms(1) [of n] Cons.prems(2) by auto
    then have "rd t (p n) ?d = [v]" using Cons.prems(1) rd_wr_same [of t "p n" q u "[v]" d] by simp
    moreover have "rd t (p n) (put_outs t p (Suc n) vs ?d) = rd t (p n) ?d"
      by (rule put_outs_before) (use assms(2) len in auto)
    ultimately show ?thesis using 0 by simp
  next
    case (Suc k')
    then show ?thesis using Cons.IH [OF len, of "Suc n" k'] Cons.prems by simp
  qed
qed simp

definition out_byte :: "bool \<Rightarrow> byte" where "out_byte b = (if b then 1 else 0)"

lemma placed_rest:
  "\<forall>i < length (c # cs). P (n + i) ((c # cs) ! i) \<Longrightarrow> P n c \<and> (\<forall>i < length cs. P (Suc n + i) (cs ! i))"
proof
  assume a: "\<forall>i < length (c # cs). P (n + i) ((c # cs) ! i)"
  show "P n c" using a [rule_format, of 0] by simp
  show "\<forall>i < length cs. P (Suc n + i) (cs ! i)" using a [rule_format, of "Suc i" for i] by auto
qed

lemma do16_loop_outs:
  assumes "\<forall>i < length cs. do_at (n + i) (cs ! i)" "n + length cs \<le> 16"
  shows "do16_loop False now cs d = (map (do_processing now) cs,
    put_outs K19_DO16_str do16_out n (map (\<lambda>c. out_byte (do_value c \<noteq> 0)) cs) d, False)"
  using assms
proof (induction cs arbitrary: n d)
  case (Cons c cs)
  have at: "do_at n c" "\<forall>i < length cs. do_at (Suc n + i) (cs ! i)" using placed_rest [OF Cons.prems(1)] by auto
  have "unat (ch_canIdx (do_base c)) = n" using at(1) Cons.prems(2) by (simp add: do_at_def unat_of_nat)
  then show ?case using Cons.IH [OF at(2)] Cons.prems(2)
    by (simp add: out_byte_def UL_K19_DO16_OutHigh_def UL_K19_DO16_OutLow_def Let_def)
qed simp

lemma dido_loop_outs:
  assumes "\<forall>i < length cs. do_at (n + i) (cs ! i)" "n + length cs \<le> 8"
  shows "dido_out_loop False now cs d = (map (do_processing now) cs,
    put_outs K19_DIDO8_str dido_out n (map (\<lambda>c. out_byte (do_phValue (do_processing now c) \<noteq> 0)) cs) d, False)"
  using assms
proof (induction cs arbitrary: n d)
  case (Cons c cs)
  have at: "do_at n c" "\<forall>i < length cs. do_at (Suc n + i) (cs ! i)" using placed_rest [OF Cons.prems(1)] by auto
  have "unat (ch_canIdx (do_base c)) = n" using at(1) Cons.prems(2) by (simp add: do_at_def unat_of_nat)
  then show ?case using Cons.IH [OF at(2)] Cons.prems(2)
    by (simp add: out_byte_def UL_K19_DIDO8_ChStHigh_def UL_K19_DIDO8_ChStLow_def Let_def)
qed simp

section \<open>Modules in order\<close>

definition di16_good :: "rModuleDI16 \<Rightarrow> bool" where
  "di16_good m \<longleftrightarrow> base_good MT_DI16 K19_DI16_str (di16_base m) \<and> placed di_at DI16_COUNT (di16_channel m)"

definition do16_good :: "rModuleDO16 \<Rightarrow> bool" where
  "do16_good m \<longleftrightarrow> base_good MT_DO16 K19_DO16_str (do16_base m) \<and> placed do_at DO16_COUNT (do16_channel m)"

definition dido_good :: "rModuleDI8DO8 \<Rightarrow> bool" where
  "dido_good m \<longleftrightarrow> base_good MT_DI8DO8 K19_DIDO8_str (dido_base m)
     \<and> placed di_at CHANNEL_DI_COUNT (dido_DI m) \<and> placed do_at CHANNEL_DO_COUNT (dido_DO m)"

lemma good_new:
  "di16_good (di16_new now num g)" "do16_good (do16_new now num g)" "dido_good (dido_new now num g)"
  by (simp_all add: di16_good_def do16_good_def dido_good_def di16_new_def do16_new_def dido_new_def
      base_good_new placed_new)

text \<open>What a cycle with the processor makes of a module in order.\<close>

lemma di16_cycle:
  assumes "di16_good m" "keeps_length can"
  defines "b \<equiv> fst (base_processing can False (di16_base m))"
  shows "fst (di16_processing can False now rnd m)
    = \<lparr>di16_base = b\<lparr>md_data := wr K19_DI16_str [Fld ''Write'', Fld ''Filter''] (le_bytes 2 (0 :: UINT)) (md_data b)\<rparr>,
       di16_channel = map (\<lambda>c. fst (di16_step False now rnd (md_data b) c)) (di16_channel m)\<rparr>"
proof -
  have "fst (snd (base_processing can False (di16_base m))) = TRITONN_RESULT_OK"
    using assms(1) base_good_ok by (auto simp: di16_good_def)
  moreover have "\<not> snd (di16_step False now rnd d c)" for d c by (simp add: di16_step_def di_round_def)
  ultimately show ?thesis
    by (simp add: di16_processing_def b_def case_prod_beta Let_def pull_def comp_def)
qed

lemma do16_cycle:
  assumes "do16_good m" "keeps_length can"
  defines "b \<equiv> fst (base_processing can False (do16_base m))"
  shows "fst (do16_processing can False now m)
    = \<lparr>do16_base = b\<lparr>md_data := put_outs K19_DO16_str do16_out 0 (map (\<lambda>c. out_byte (do_value c \<noteq> 0)) (do16_channel m)) (md_data b)\<rparr>,
       do16_channel = map (do_processing now) (do16_channel m)\<rparr>"
proof -
  have "fst (snd (base_processing can False (do16_base m))) = TRITONN_RESULT_OK"
    using assms(1) base_good_ok by (auto simp: do16_good_def)
  moreover have "do16_loop False now (do16_channel m) d = (map (do_processing now) (do16_channel m),
      put_outs K19_DO16_str do16_out 0 (map (\<lambda>c. out_byte (do_value c \<noteq> 0)) (do16_channel m)) d, False)" for d
    using assms(1) by (intro do16_loop_outs) (simp_all add: do16_good_def placed_def DO16_COUNT_def)
  ultimately show ?thesis by (simp add: do16_processing_def b_def case_prod_beta pull_def)
qed

lemma dido_cycle:
  fixes now :: timeval
  assumes "dido_good m" "keeps_length can"
  defines "b \<equiv> fst (base_processing can False (dido_base m))"
  defines "d \<equiv> put_outs K19_DIDO8_str dido_out 0 (map (\<lambda>c. out_byte (do_phValue (do_processing now c) \<noteq> 0)) (dido_DO m)) (md_data b)"
  shows "fst (dido_processing can False now rnd m)
    = \<lparr>dido_base = b\<lparr>md_data := wr K19_DIDO8_str [Fld ''Write'', Fld ''DIFilter''] (le_bytes 2 (0 :: UINT)) d\<rparr>,
       dido_DI = map (\<lambda>c. fst (dido_in_step False now rnd (md_data b) c)) (dido_DI m),
       dido_DO = map (do_processing now) (dido_DO m)\<rparr>"
proof -
  have "fst (snd (base_processing can False (dido_base m))) = TRITONN_RESULT_OK"
    using assms(1) base_good_ok by (auto simp: dido_good_def)
  moreover have "dido_out_loop False now (dido_DO m) (md_data b) = (map (do_processing now) (dido_DO m), d, False)"
    unfolding d_def using assms(1)
    by (intro dido_loop_outs) (simp_all add: dido_good_def placed_def CHANNEL_DO_COUNT_def)
  moreover have "\<not> snd (dido_in_step False now rnd d c)" for d c by (simp add: dido_in_step_def di_round_def)
  ultimately show ?thesis
    by (simp add: dido_processing_def b_def case_prod_beta Let_def pull_def comp_def)
qed

text \<open>Also a simulated cycle keeps a module in order.\<close>

lemma placed_base:
  "map do_base cs = map do_base cs' \<Longrightarrow> placed do_at n cs = placed do_at n cs'"
proof -
  assume a: "map do_base cs = map do_base cs'"
  then have "length cs = length cs'" by (metis length_map)
  moreover have "do_base (cs ! i) = do_base (cs' ! i)" if "i < length cs" for i
    using a that \<open>length cs = length cs'\<close> by (metis nth_map)
  ultimately show ?thesis by (auto simp: placed_def do_at_def)
qed

lemma do16_loop_keeps: "map do_base (fst (do16_loop issim now cs d)) = map do_base cs
    \<and> (length d = size_of K19_DO16_str \<longrightarrow> length (fst (snd (do16_loop issim now cs d))) = size_of K19_DO16_str)"
  by (induction cs arbitrary: d) (simp_all add: Let_def case_prod_beta do_simulate_def wr_length [of _ K19_DO16_str, simplified])

lemma dido_loop_keeps: "map do_base (fst (dido_out_loop issim now cs d)) = map do_base cs
    \<and> (length d = size_of K19_DIDO8_str \<longrightarrow> length (fst (snd (dido_out_loop issim now cs d))) = size_of K19_DIDO8_str)"
  by (induction cs arbitrary: d) (simp_all add: Let_def case_prod_beta do_simulate_def wr_length [of _ K19_DIDO8_str, simplified])

lemma cycle_good:
  assumes "keeps_length can"
  shows "di16_good m \<Longrightarrow> di16_good (fst (di16_processing can issim now rnd m))"
    "do16_good n \<Longrightarrow> do16_good (fst (do16_processing can issim now n))"
    "dido_good k \<Longrightarrow> dido_good (fst (dido_processing can issim now rnd k))"
proof -
  assume g: "di16_good m"
  let ?b = "fst (base_processing can issim (di16_base m))"
  have b: "base_good MT_DI16 K19_DI16_str (di16_base m)" "placed di_at DI16_COUNT (di16_channel m)"
    using g by (simp_all add: di16_good_def)
  have "placed di_at DI16_COUNT (map (\<lambda>c. fst (di16_step issim now rnd (md_data ?b) c)) (di16_channel m))"
    using b(2) by (rule placed_map) (simp add: di16_step_def Let_def di_at_round)
  then show "di16_good (fst (di16_processing can issim now rnd m))"
    using base_good_set [OF base_good_processing [OF b(1) assms] wr_length [OF base_good_data [OF b(1) assms]]]
    by (simp add: di16_good_def di16_processing_def case_prod_beta base_good_ok [OF b(1)] Let_def comp_def)
next
  assume g: "do16_good n"
  let ?b = "fst (base_processing can issim (do16_base n))"
  have b: "base_good MT_DO16 K19_DO16_str (do16_base n)" "placed do_at DO16_COUNT (do16_channel n)"
    using g by (simp_all add: do16_good_def)
  note keep = do16_loop_keeps [of issim now "do16_channel n" "md_data ?b"]
  have "placed do_at DO16_COUNT (fst (do16_loop issim now (do16_channel n) (md_data ?b)))"
    using b(2) placed_base [OF conjunct1 [OF keep]] by simp
  then show "do16_good (fst (do16_processing can issim now n))"
    using base_good_set [OF base_good_processing [OF b(1) assms], of "fst (snd (do16_loop issim now (do16_channel n) (md_data ?b)))"]
      keep base_good_data [OF b(1) assms]
    by (simp add: do16_good_def do16_processing_def case_prod_beta base_good_ok [OF b(1)])
next
  assume g: "dido_good k"
  let ?b = "fst (base_processing can issim (dido_base k))"
  have b: "base_good MT_DI8DO8 K19_DIDO8_str (dido_base k)" "placed di_at CHANNEL_DI_COUNT (dido_DI k)"
    "placed do_at CHANNEL_DO_COUNT (dido_DO k)"
    using g by (simp_all add: dido_good_def)
  let ?l = "dido_out_loop issim now (dido_DO k) (md_data ?b)"
  note keep = dido_loop_keeps [of issim now "dido_DO k" "md_data ?b"]
  have "placed do_at CHANNEL_DO_COUNT (fst ?l)" using b(3) placed_base [OF conjunct1 [OF keep]] by simp
  moreover have "placed di_at CHANNEL_DI_COUNT (map (\<lambda>c. fst (dido_in_step issim now rnd (md_data ?b) c)) (dido_DI k))"
    using b(2) by (rule placed_map) (simp add: dido_in_step_def Let_def di_at_round)
  moreover have "length (fst (snd ?l)) = size_of K19_DIDO8_str" using keep base_good_data [OF b(1) assms] by blast
  ultimately show "dido_good (fst (dido_processing can issim now rnd k))"
    using base_good_set [OF base_good_processing [OF b(1) assms] wr_length, of "fst (snd ?l)"]
    by (simp add: dido_good_def dido_processing_def case_prod_beta base_good_ok [OF b(1)] Let_def comp_def)
qed

text \<open>A processor that reports every module working and changes nothing else.\<close>

fun can_alive :: can_link where
  "can_alive f i [] = []"
| "can_alive f i (b # d) = 1 # d"

lemma keeps_length_alive [simp]: "keeps_length can_alive"
  unfolding keeps_length_def by (metis can_alive.elims length_Cons)

text \<open>
  What the outputs get. In a cycle with the processor, a module with sixteen outputs sends for
  every channel the value set before the cycle, whatever the inversion and the pulse of the channel
  say; a module with eight outputs sends the value the channel shows after this very cycle.
\<close>

theorem outputs_image:
  assumes "keeps_length can" "do16_good m" "i < 16" "dido_good n" "j < 8"
  shows "rd K19_DO16_str (do16_out i) (md_data (do16_base (fst (do16_processing can False now m))))
      = [if do_value (do16_channel m ! i) \<noteq> 0 then UL_K19_DO16_OutHigh else UL_K19_DO16_OutLow]
    \<and> rd K19_DIDO8_str (dido_out j) (md_data (dido_base (fst (dido_processing can False now rnd n))))
      = [if do_phValue (dido_DO (fst (dido_processing can False now rnd n)) ! j) \<noteq> 0
         then UL_K19_DIDO8_ChStHigh else UL_K19_DIDO8_ChStLow]"
proof
  let ?d = "md_data (fst (base_processing can False (do16_base m)))"
  have len: "length ?d = size_of K19_DO16_str" "length (do16_channel m) = 16"
    using base_good_data [of MT_DO16 K19_DO16_str "do16_base m" can False] assms(1,2)
    by (simp_all add: do16_good_def placed_def DO16_COUNT_def)
  have "rd K19_DO16_str (do16_out (0 + i)) (put_outs K19_DO16_str do16_out 0 (map (\<lambda>c. out_byte (do_value c \<noteq> 0)) (do16_channel m)) ?d)
      = [map (\<lambda>c. out_byte (do_value c \<noteq> 0)) (do16_channel m) ! i]"
    by (rule put_outs_rd [where N = 16]) (use len assms(3) parted_do16_out in auto)
  then show "rd K19_DO16_str (do16_out i) (md_data (do16_base (fst (do16_processing can False now m))))
      = [if do_value (do16_channel m ! i) \<noteq> 0 then UL_K19_DO16_OutHigh else UL_K19_DO16_OutLow]"
    unfolding do16_cycle [OF assms(2,1)] using len(2) assms(3)
    by (simp add: out_byte_def UL_K19_DO16_OutHigh_def UL_K19_DO16_OutLow_def)
next
  let ?d = "md_data (fst (base_processing can False (dido_base n)))"
  let ?vs = "map (\<lambda>c. out_byte (do_phValue (do_processing now c) \<noteq> 0)) (dido_DO n)"
  let ?o = "put_outs K19_DIDO8_str dido_out 0 ?vs ?d"
  have len: "length ?d = size_of K19_DIDO8_str" "length (dido_DO n) = 8"
    using base_good_data [of MT_DI8DO8 K19_DIDO8_str "dido_base n" can False] assms(1,4)
    by (simp_all add: dido_good_def placed_def CHANNEL_DO_COUNT_def)
  have "rd K19_DIDO8_str (dido_out (0 + j)) ?o = [?vs ! j]"
    by (rule put_outs_rd [where N = 8]) (use len assms(5) parted_dido_out in auto)
  moreover have "parted K19_DIDO8_str [Fld ''Write'', Fld ''DIFilter''] (dido_out j)"
    by (simp add: K19_DIDO8_str_def dido_out_def)
  then have "rd K19_DIDO8_str (dido_out j) (wr K19_DIDO8_str [Fld ''Write'', Fld ''DIFilter''] (le_bytes 2 (0 :: UINT)) ?o)
      = rd K19_DIDO8_str (dido_out j) ?o"
    by (rule rd_wr_other) (use len(1) in simp)
  ultimately show "rd K19_DIDO8_str (dido_out j) (md_data (dido_base (fst (dido_processing can False now rnd n))))
      = [if do_phValue (dido_DO (fst (dido_processing can False now rnd n)) ! j) \<noteq> 0
         then UL_K19_DIDO8_ChStHigh else UL_K19_DIDO8_ChStLow]"
    unfolding dido_cycle [OF assms(4,1)] using len(2) assms(5)
    by (simp add: out_byte_def UL_K19_DIDO8_ChStHigh_def UL_K19_DIDO8_ChStLow_def)
qed

definition inverted_on :: "rIODOChannel \<Rightarrow> rIODOChannel" where
  "inverted_on c = c\<lparr>do_setup := DO_INVERSED, do_value := 1\<rparr>"

lemma do_at_inverted: "do_at i c \<Longrightarrow> do_at i (inverted_on c)"
  by (simp add: do_at_def inverted_on_def)

theorem outputs_image_witness:
  "rd K19_DO16_str (do16_out 5) (md_data (do16_base (fst (do16_processing can_alive False \<lparr>sec = 1, usec = 0\<rparr>
       ((do16_new \<lparr>sec = 1, usec = 0\<rparr> 0 [])\<lparr>do16_channel := map inverted_on (do16_channel (do16_new \<lparr>sec = 1, usec = 0\<rparr> 0 []))\<rparr>))))) = [1]
   \<and> rd K19_DIDO8_str (dido_out 5) (md_data (dido_base (fst (dido_processing can_alive False \<lparr>sec = 1, usec = 0\<rparr> (\<lambda>_. 0)
       ((dido_new \<lparr>sec = 1, usec = 0\<rparr> 0 [])\<lparr>dido_DO := map inverted_on (dido_DO (dido_new \<lparr>sec = 1, usec = 0\<rparr> 0 []))\<rparr>))))) = [0]"
proof -
  let ?t = "\<lparr>sec = 1, usec = 0\<rparr>"
  let ?m = "(do16_new ?t 0 [])\<lparr>do16_channel := map inverted_on (do16_channel (do16_new ?t 0 []))\<rparr>"
  let ?n = "(dido_new ?t 0 [])\<lparr>dido_DO := map inverted_on (dido_DO (dido_new ?t 0 []))\<rparr>"
  have good: "do16_good ?m" "dido_good ?n"
    using good_new [of ?t 0 "[]"] by (auto simp: do16_good_def dido_good_def intro: placed_map do_at_inverted)
  have len: "length (do16_channel (do16_new ?t 0 [])) = 16" "length (dido_DO (dido_new ?t 0 [])) = 8"
    by (simp_all add: do16_new_def dido_new_def DO16_COUNT_def CHANNEL_DO_COUNT_def)
  have "do_value (do16_channel ?m ! 5) = 1" using len by (simp add: inverted_on_def)
  moreover have "do_phValue (do_processing ?t (inverted_on c)) = 0" for c
    by (simp add: inverted_on_def do_processing_def has_def DO_PULSE_def DO_INVERSED_def Let_def)
  then have "do_phValue (dido_DO (fst (dido_processing can_alive False ?t (\<lambda>_. 0) ?n)) ! 5) = 0"
    unfolding dido_cycle [OF good(2) keeps_length_alive] using len by simp
  ultimately show ?thesis
    using outputs_image [OF keeps_length_alive good(1) _ good(2), of 5 5 ?t "\<lambda>_. 0"]
    by (simp add: UL_K19_DO16_OutHigh_def UL_K19_DIDO8_ChStLow_def)
qed

section \<open>The inputs and their readers\<close>

definition di16_kind :: "nat \<Rightarrow> channel_type option" where
  "di16_kind n = (if n < DI16_COUNT then Some CT_DI else None)"

definition do16_kind :: "nat \<Rightarrow> channel_type option" where
  "do16_kind n = (if n < DO16_COUNT then Some CT_DO else None)"

definition dido_kind :: "nat \<Rightarrow> channel_type option" where
  "dido_kind n = (if n < CHANNEL_DI_COUNT then Some CT_DI
     else if n < CHANNEL_DI_COUNT + CHANNEL_DO_COUNT then Some CT_DO else None)"

lemmas module_codes = TRITONN_RESULT_OK_def DATACFGERR_REALTIME_CHANNELLINK_def DATACFGERR_REALTIME_WRONGCHANNEL_def

lemma placed_do_value: "placed do_at n cs \<Longrightarrow> placed do_at n (cs[j := (cs ! j)\<lparr>do_value := v\<rparr>])"
  using placed_update [of do_at n cs "\<lambda>c. c\<lparr>do_value := v\<rparr>" j] by (simp add: do_at_def)

interpretation di16: io_module di16_good di16_kind di16_getValue di16_setValue
  by unfold_locales
    (auto simp: di16_good_def di16_kind_def di16_getValue_def di16_setValue_def placed_def di_at_def module_codes split: if_splits)

interpretation do16: io_module do16_good do16_kind do16_getValue do16_setValue
proof
  fix m n t v assume "do16_good m"
  then show "do16_good (fst (do16_setValue m n t v))"
    by (auto simp: do16_good_def do16_setValue_def intro: placed_do_value)
qed (auto simp: do16_good_def do16_kind_def do16_getValue_def do16_setValue_def placed_def do_at_def module_codes split: if_splits)

lemma dido_kind_at:
  assumes "dido_good m" "n < 16"
  shows "n < 8 \<Longrightarrow> ch_type (di_base (dido_DI m ! n)) = CT_DI"
    "\<not> n < 8 \<Longrightarrow> ch_type (do_base (dido_DO m ! (n - 8))) = CT_DO"
  using assms by (auto simp: dido_good_def placed_def di_at_def do_at_def CHANNEL_DI_COUNT_def CHANNEL_DO_COUNT_def)

interpretation dido: io_module dido_good dido_kind dido_getValue dido_setValue
proof
  fix m n t v assume "dido_good m"
  then show "dido_good (fst (dido_setValue m n t v))"
    by (auto simp: dido_good_def dido_setValue_def Let_def intro: placed_do_value)
qed (auto simp: dido_kind_def dido_getValue_def dido_setValue_def dido_kind_at CHANNEL_DI_COUNT_def CHANNEL_DO_COUNT_def
      module_codes Let_def split: if_splits)

lemma di_value_shown: "di_value (di_processing now c)
    = (if has (di_setup c) DI_INVERSED then word_of_bool (di_phValue c = 0) else di_phValue c)"
  by (auto simp: di_processing_def di_debounce_def Let_def tick_isFinished_def tick_stop_def)

lemma di_round_value:
  "di_value (fst (di_round False now r high c)) = word_of_bool (high \<noteq> has (di_setup c) DI_INVERSED)"
  by (simp add: di_round_def di_value_shown)

lemma locate_di16_in [simp]: "i < 16 \<Longrightarrow> locate K19_DI16_str (di16_in i) = Some (4 + i, UL_K19_DI16_ChState)"
  by (simp add: K19_DI16_str_def di16_in_def c_layout)

lemma parted_di16_in: "parted K19_DI16_str [Fld ''Write'', Fld ''Filter''] (di16_in i)"
  by (simp add: K19_DI16_str_def di16_in_def)

text \<open>
  What a reader gets from an input. After a cycle with the processor, asking a module of sixteen
  inputs for a discrete channel it has gives the state the processor delivered for that channel in this
  cycle, inverted when the channel is set so, whatever its filter says, and leaves the caller's fault
  variable as it was; the processor's data are still in the structure, behind the command the cycle wrote.
\<close>

theorem input_reaches_reader:
  assumes "keeps_length can" "di16_good m" "unat n < 16"
  shows "di16_getValue (fst (di16_processing can False now rnd m)) n CT_DI f
      = (word_of_bool ((rdw K19_DI16_str (di16_in (unat n)) (md_data (di16_base (fst (di16_processing can False now rnd m))))
            = UL_K19_DI16_ChStHigh) \<noteq> has (di_setup (di16_channel m ! unat n)) DI_INVERSED), f)"
proof -
  let ?b = "fst (base_processing can False (di16_base m))" and ?c = "di16_channel m ! unat n"
  have len: "length (md_data ?b) = size_of K19_DI16_str"
    using base_good_data [of MT_DI16 K19_DI16_str "di16_base m" can False] assms(1,2) by (simp add: di16_good_def)
  have chan: "length (di16_channel m) = 16" "di_at (unat n) ?c"
    using assms(2,3) by (simp_all add: di16_good_def placed_def DI16_COUNT_def)
  have idx: "ch_canIdx (di_base ?c) = n" "ch_type (di_base ?c) = CT_DI" using chan(2) by (simp_all add: di_at_def)
  have same: "rd K19_DI16_str (di16_in (unat n)) (wr K19_DI16_str [Fld ''Write'', Fld ''Filter''] (le_bytes 2 (0 :: UINT)) (md_data ?b))
      = rd K19_DI16_str (di16_in (unat n)) (md_data ?b)"
    by (rule rd_wr_other [OF parted_di16_in len])
  show ?thesis
    unfolding di16_cycle [OF assms(2,1)] di16_getValue_def
    using assms(3) chan(1) idx
    by (simp add: DI16_COUNT_def rdw_def same di16_step_def Let_def di_round_value word_of_bool_def not_le)
qed

text \<open>A processor that reports the module working and its first input high.\<close>

definition di16_answer :: can_link where
  "di16_answer f i d = (if length d = 128 then 1 # 0 # 0 # 0 # 1 # replicate 123 0 else d)"

lemma keeps_length_answer: "keeps_length di16_answer"
  by (simp add: keeps_length_def di16_answer_def)

lemma di16_in_work:
  "in_work \<lparr>mp_layout = K19_DI16_str, mp_info = [Fld ''ModuleInfo''], mp_system = s, mp_status = st\<rparr> d
    \<longleftrightarrow> (le_word (take 1 d) :: byte) \<noteq> 0"
  by (simp add: in_work_def rdw_def rd_def fget_def K19_DI16_str_def ModuleInfo_str_def)

lemma di16_answer_data:
  "md_data (fst (base_processing di16_answer False (di16_base (di16_new now num g)))) = 1 # 0 # 0 # 0 # 1 # replicate 123 0"
  by (simp add: di16_new_def setModule_def base_module_def base_processing_def di16_in_work raise_fault_def Let_def di16_answer_def)

theorem input_reaches_reader_witness:
  "fst (di16_getValue (fst (di16_processing di16_answer False \<lparr>sec = 1, usec = 0\<rparr> (\<lambda>_. 0)
     (di16_new \<lparr>sec = 1, usec = 0\<rparr> 0 []))) 0 CT_DI 0) = 1"
proof -
  let ?t = "\<lparr>sec = 1, usec = 0\<rparr>"
  let ?m = "di16_new ?t 0 []"
  have su: "di_setup (di16_channel ?m ! 0) = 0"
    by (simp add: di16_new_def DI16_COUNT_def di_channel_at_def di_new_def Let_def)
  have "di16_getValue (fst (di16_processing di16_answer False ?t (\<lambda>_. 0) ?m)) 0 CT_DI 0
      = (word_of_bool ((rdw K19_DI16_str (di16_in 0) (md_data (di16_base (fst (di16_processing di16_answer False ?t (\<lambda>_. 0) ?m))))
            = UL_K19_DI16_ChStHigh) \<noteq> has (di_setup (di16_channel ?m ! 0)) DI_INVERSED), 0)"
    using input_reaches_reader [OF keeps_length_answer good_new(1), of 0] by simp
  moreover have "rd K19_DI16_str (di16_in 0) (wr K19_DI16_str [Fld ''Write'', Fld ''Filter''] (le_bytes 2 (0 :: UINT)) d)
      = rd K19_DI16_str (di16_in 0) d" if "length d = 128" for d
    by (rule rd_wr_other [OF parted_di16_in]) (use that in simp)
  moreover have "rd K19_DI16_str (di16_in 0) (1 # 0 # 0 # 0 # 1 # replicate 123 0) = [1]"
    by (simp add: rd_def fget_def)
  ultimately show ?thesis
    unfolding di16_cycle [OF good_new(1) keeps_length_answer] su di16_answer_data
    by (simp add: UL_K19_DI16_ChStHigh_def rdw_def di16_answer_data)
qed

end
