(* ===== verification/IoAnalog.thy ===== *)
theory IoAnalog
  imports IoDiscrete
begin

text \<open>
  The analogue and frequency modules: six active and six passive inputs (\<^verbatim>\<open>module_ai6a.cpp\<close>,
  \<^verbatim>\<open>module_ai6p.cpp\<close>), four outputs (\<^verbatim>\<open>module_ao4.cpp\<close>) and four frequency
  inputs (\<^verbatim>\<open>module_fi4.cpp\<close>), as the build for the controller makes them. \<open>csin\<close>, \<open>ub\<close>
  and \<open>rnd\<close> are the sine of the C library, the value of a conversion out of range and the numbers the
  simulations draw.
\<close>

section \<open>Single precision numbers in a structure\<close>

definition f32_of_bits :: "UDINT \<Rightarrow> lreal" where
  "f32_of_bits w = (let s = (if bit w 31 then - 1 else 1 :: real); e = unat (drop_bit 23 w AND 0xFF); f = unat (w AND 0x7FFFFF) in
     if e = 255 then (if f \<noteq> 0 then NaN else if bit w 31 then NInf else PInf)
     else if e = 0 then Fin (s * real f / 2 ^ 149)
     else Fin (s * real (2 ^ 23 + f) * 2 ^ e / 2 ^ 150))"

definition at_idx :: "string \<Rightarrow> string \<Rightarrow> nat \<Rightarrow> sel list" where
  "at_idx part fld i = [Fld part, Fld fld, Idx i]"

section \<open>Six analogue inputs\<close>

text \<open>Both modules read and write members of the same names; the processor sees the command at once.\<close>

definition ai_take :: "ctype \<Rightarrow> bytes \<Rightarrow> nat \<Rightarrow> rIOAIChannel \<Rightarrow> rIOAIChannel" where
  "ai_take t d i c = c\<lparr>ai_ADC := rdw t (at_idx ''Read'' ''Adc'' i) d,
     ai_current := f32_of_bits (rdw t (at_idx ''Read'' ''Data'' i) d),
     ai_hardState := word_of_bool (rdw t (at_idx ''Read'' ''StateCh'' i) d \<noteq> (0 :: byte)),
     ai_stateRedLED := word_of_bool (rdw t (at_idx ''Read'' ''StateRedLED'' i) d = (1 :: byte))\<rparr>"

definition ai_give :: "ctype \<Rightarrow> byte \<Rightarrow> byte \<Rightarrow> byte \<Rightarrow> UINT \<Rightarrow> nat \<Rightarrow> bytes \<Rightarrow> bytes" where
  "ai_give t chtype outadc outdata su i d =
     wr t (at_idx ''Write'' ''RedLEDAction'' i) [if has su AI_OFF then 1 else 0]
       (wr t (at_idx ''Write'' ''OutDataType'' i) [outdata]
         (wr t (at_idx ''Write'' ''OutADCType'' i) [outadc]
           (wr t (at_idx ''Write'' ''ChType'' i) [chtype] d)))"

definition ai6a_ChType :: "bytes \<Rightarrow> nat \<Rightarrow> rIOAIChannel \<Rightarrow> byte" where
  "ai6a_ChType d i c = (if ai_mode c = mA_0_20 then 0 else if ai_mode c = mA_4_20 then 1
     else rdw K19_AI6a_str (at_idx ''Read'' ''ChType'' i) d)"

definition ai6p_ChType :: "bytes \<Rightarrow> nat \<Rightarrow> rIOAIChannel \<Rightarrow> byte" where
  "ai6p_ChType d i c = (if ai_mode c = mA_0_20 then 0 else if ai_mode c = mA_4_20 then 1
     else if ai_mode c = V_m10_10 then 2 else if ai_mode c = V_0_10 then 3
     else rdw K19_AI6p_str (at_idx ''Read'' ''ChType'' i) d)"

record rModuleAI6a =
  ai6a_base :: rIOBaseModule
  ai6a_channel :: "rIOAIChannel list"
  ai6a_correct :: UINT

record rModuleAI6p =
  ai6p_base :: rIOBaseModule
  ai6p_channel :: "rIOAIChannel list"

definition AI6_COUNT :: nat where "AI6_COUNT = 6"

definition ai_channel_at :: "bool \<Rightarrow> nat \<Rightarrow> rIOAIChannel" where
  "ai_channel_at act i = (let c = ai_new (of_nat i) act in c\<lparr>ai_base := (ai_base c)\<lparr>ch_canIdx := of_nat i\<rparr>\<rparr>)"

definition ai6a_new :: "UDINT \<Rightarrow> bytes \<Rightarrow> rModuleAI6a" where
  "ai6a_new num g = \<lparr>ai6a_base = setModule K19_AI6a_str K19_AI6a_ModuleReadAll K19_AI6a_ModuleExchange (base_module MT_AI6a num g),
     ai6a_channel = map (ai_channel_at True) [0..<AI6_COUNT], ai6a_correct = 0\<rparr>"

definition ai6a_copy :: "rModuleAI6a \<Rightarrow> bytes \<Rightarrow> rModuleAI6a" where
  "ai6a_copy m d = \<lparr>ai6a_base = base_copy (ai6a_base m) d, ai6a_channel = ai6a_channel m, ai6a_correct = 0\<rparr>"

definition ai6p_new :: "UDINT \<Rightarrow> bytes \<Rightarrow> rModuleAI6p" where
  "ai6p_new num g = \<lparr>ai6p_base = setModule K19_AI6p_str K19_AI6p_ModuleReadAll K19_AI6p_ModuleExchange (base_module MT_AI6p num g),
     ai6p_channel = map (ai_channel_at False) [0..<AI6_COUNT]\<rparr>"

definition ai6p_copy :: "rModuleAI6p \<Rightarrow> bytes \<Rightarrow> rModuleAI6p" where
  "ai6p_copy m d = \<lparr>ai6p_base = base_copy (ai6p_base m) d, ai6p_channel = ai6p_channel m\<rparr>"

text \<open>
  The corrections of an active module: a point of one channel is set through a structure on the
  stack, of which only the channel and the point are written (\<open>g\<close> is what was there), saving and
  clearing go with the module's own structure. The commands are listed with the structure they send.
\<close>

definition dot_setting :: "bytes \<Rightarrow> UINT \<Rightarrow> byte \<Rightarrow> bytes" where
  "dot_setting g ch dot = wr KXX_str [Fld ''dot''] [dot] (wr KXX_str [Fld ''ch''] (le_bytes 2 ch) g)"

type_synonym can_command = "nat \<times> USINT \<times> bytes"

definition correct_dot :: "bytes \<Rightarrow> USINT \<Rightarrow> USINT \<Rightarrow> rIOAIChannel \<Rightarrow> rIOAIChannel \<times> can_command list" where
  "correct_dot g mid idx c = (c\<lparr>ai_correct := 0\<rparr>,
     if ai_correct c = 1 then [(K19_AI6a_CorrSetDot, mid, dot_setting g (ucast idx) 0)]
     else if ai_correct c = 2 then [(K19_AI6a_CorrSetDot, mid, dot_setting g (ucast idx) 1)]
     else if ai_correct c = 3 then [(K19_AI6a_CorrSetDot, mid, dot_setting g (ucast idx) 2)]
     else [])"

definition correct_module :: "can_link \<Rightarrow> USINT \<Rightarrow> UINT \<Rightarrow> bytes \<Rightarrow> bytes \<times> can_command list" where
  "correct_module can mid corr d =
     (if corr = 1 then (can K19_AI6a_CorrSave mid d, [(K19_AI6a_CorrSave, mid, d)])
      else if corr = 2 then (can K19_AI6a_CorrClear mid d, [(K19_AI6a_CorrClear, mid, d)])
      else (d, []))"

text \<open>The loop of the active module; the command of the module is taken in the first round.\<close>

fun ai6a_loop :: "can_link \<Rightarrow> (lreal \<Rightarrow> lreal) \<Rightarrow> UINT \<Rightarrow> (USINT \<Rightarrow> int) \<Rightarrow> bytes \<Rightarrow> bool \<Rightarrow> USINT
    \<Rightarrow> rIOAIChannel list \<Rightarrow> UINT \<Rightarrow> bytes \<Rightarrow> rIOAIChannel list \<times> UINT \<times> bytes \<times> bool \<times> can_command list" where
  "ai6a_loop can csin ub rnd g issim mid [] corr d = ([], corr, d, False, [])"
| "ai6a_loop can csin ub rnd g issim mid (c # cs) corr d =
     (let idx = ch_index (ai_base c);
          (c1, corr1, d1, p, out) =
            (if issim then (case ai_simulate csin ub (rnd idx) c of (c', p) \<Rightarrow> (c', corr, d, p, []))
             else (let i = unat idx; c' = ai_take K19_AI6a_str d i c;
                       d' = ai_give K19_AI6a_str (ai6a_ChType d i c') 0 0 (ai_setup c') i d;
                       (c'', o1) = correct_dot g mid idx c';
                       (d'', o2) = correct_module can mid corr d'
                   in (c'', 0, d'', False, o1 @ o2)));
          (cs', corr', d', p', out') = ai6a_loop can csin ub rnd g issim mid cs corr1 d1
      in (ai_processing ub c1 # cs', corr', d', p \<or> p', out @ out'))"

definition ai6a_processing :: "can_link \<Rightarrow> (lreal \<Rightarrow> lreal) \<Rightarrow> UINT \<Rightarrow> (USINT \<Rightarrow> int) \<Rightarrow> bytes \<Rightarrow> bool \<Rightarrow> rModuleAI6a
    \<Rightarrow> rModuleAI6a \<times> UDINT \<times> cevent list \<times> can_command list" where
  "ai6a_processing can csin ub rnd g issim m =
     (case base_processing can issim (ai6a_base m) of (b, res, ev) \<Rightarrow>
       if res \<noteq> TRITONN_RESULT_OK then (m\<lparr>ai6a_base := b\<rparr>, res, ev, [])
       else (case ai6a_loop can csin ub rnd g issim (md_ID b) (ai6a_channel m) (ai6a_correct m) (md_data b) of
         (cs, corr, d, p, out) \<Rightarrow>
           (\<lparr>ai6a_base = pull p (b\<lparr>md_data := d\<rparr>), ai6a_channel = cs, ai6a_correct = corr\<rparr>, TRITONN_RESULT_OK, ev, out)))"

fun ai6p_loop :: "(lreal \<Rightarrow> lreal) \<Rightarrow> UINT \<Rightarrow> (USINT \<Rightarrow> int) \<Rightarrow> bool \<Rightarrow> rIOAIChannel list \<Rightarrow> bytes
    \<Rightarrow> rIOAIChannel list \<times> bytes \<times> bool" where
  "ai6p_loop csin ub rnd issim [] d = ([], d, False)"
| "ai6p_loop csin ub rnd issim (c # cs) d =
     (let idx = ch_canIdx (ai_base c);
          (c1, d1, p) = (if issim then (case ai_simulate csin ub (rnd idx) c of (c', p) \<Rightarrow> (c', d, p))
            else (let i = unat idx; c' = ai_take K19_AI6p_str d i c in
              (c', ai_give K19_AI6p_str (ai6p_ChType d i c') 1 0 (ai_setup c') i d, False)));
          (cs', d', p') = ai6p_loop csin ub rnd issim cs d1
      in (ai_processing ub c1 # cs', d', p \<or> p'))"

definition ai6p_processing :: "can_link \<Rightarrow> (lreal \<Rightarrow> lreal) \<Rightarrow> UINT \<Rightarrow> (USINT \<Rightarrow> int) \<Rightarrow> bool \<Rightarrow> rModuleAI6p
    \<Rightarrow> rModuleAI6p \<times> UDINT \<times> cevent list" where
  "ai6p_processing can csin ub rnd issim m =
     (case base_processing can issim (ai6p_base m) of (b, res, ev) \<Rightarrow>
       if res \<noteq> TRITONN_RESULT_OK then (m\<lparr>ai6p_base := b\<rparr>, res, ev)
       else (case ai6p_loop csin ub rnd issim (ai6p_channel m) (md_data b) of (cs, d, p) \<Rightarrow>
         (\<lparr>ai6p_base = pull p (b\<lparr>md_data := d\<rparr>), ai6p_channel = cs\<rparr>, TRITONN_RESULT_OK, ev)))"

text \<open>The access of all modules with one kind of channels; the value of a refused access is one.\<close>

definition checkChannelAccess :: "channel_type list \<Rightarrow> USINT \<Rightarrow> channel_type \<Rightarrow> UDINT" where
  "checkChannelAccess tys num t =
     (if unat num \<ge> length tys then DATACFGERR_REALTIME_CHANNELLINK
      else if tys ! unat num \<noteq> t then DATACFGERR_REALTIME_WRONGCHANNEL
      else TRITONN_RESULT_OK)"

definition checked :: "'r \<Rightarrow> 'c list \<Rightarrow> ('c \<Rightarrow> channel_type) \<Rightarrow> USINT \<Rightarrow> channel_type \<Rightarrow> ('c \<Rightarrow> 'r) \<Rightarrow> 'r \<times> UDINT" where
  "checked refused cs ty num t get =
     (let fault = checkChannelAccess (map ty cs) num t in
      (if fault \<noteq> TRITONN_RESULT_OK then refused else get (cs ! unat num), fault))"

definition ai_type :: "rIOAIChannel \<Rightarrow> channel_type" where "ai_type c = ch_type (ai_base c)"

definition ai6_getValue :: "rIOAIChannel list \<Rightarrow> USINT \<Rightarrow> channel_type \<Rightarrow> UDINT \<Rightarrow> UDINT \<times> UDINT" where
  "ai6_getValue cs num t f = checked 1 cs ai_type num t (\<lambda>c. ucast (ai_ADC c))"

definition ai6_setValue :: "'m \<Rightarrow> USINT \<Rightarrow> channel_type \<Rightarrow> UDINT \<Rightarrow> 'm \<times> UDINT" where
  "ai6_setValue m num t v = (m, DATACFGERR_REALTIME_WRONGCHANNEL)"

definition ai6_getCurrent :: "rIOAIChannel list \<Rightarrow> USINT \<Rightarrow> channel_type \<Rightarrow> lreal \<times> UDINT" where
  "ai6_getCurrent cs num t = checked (Fin 1) cs ai_type num t ai_current"

definition ai6_getMinValue :: "rIOAIChannel list \<Rightarrow> USINT \<Rightarrow> channel_type \<Rightarrow> UINT \<times> UDINT" where
  "ai6_getMinValue cs num t = checked 1 cs ai_type num t ai_getMinValue"

definition ai6_getMaxValue :: "rIOAIChannel list \<Rightarrow> USINT \<Rightarrow> channel_type \<Rightarrow> UINT \<times> UDINT" where
  "ai6_getMaxValue cs num t = checked 1 cs ai_type num t ai_getMaxValue"

definition ai6_getRange :: "rIOAIChannel list \<Rightarrow> USINT \<Rightarrow> channel_type \<Rightarrow> UINT \<times> UDINT" where
  "ai6_getRange cs num t = checked 1 cs ai_type num t ai_getRange"

definition ai6_getState :: "rIOAIChannel list \<Rightarrow> USINT \<Rightarrow> channel_type \<Rightarrow> USINT \<times> UDINT" where
  "ai6_getState cs num t = checked 1 cs ai_type num t ai_state"

section \<open>Four analogue outputs\<close>

record rModuleAO4 =
  ao4_base :: rIOBaseModule
  ao4_channel :: "rIOAOChannel list"

definition AO4_COUNT :: nat where "AO4_COUNT = 4"

definition ao_channel_at :: "nat \<Rightarrow> rIOAOChannel" where
  "ao_channel_at i = (let c = ao_new (of_nat i) in c\<lparr>ao_base := (ao_base c)\<lparr>ch_canIdx := of_nat i\<rparr>\<rparr>)"

definition ao4_new :: "UDINT \<Rightarrow> bytes \<Rightarrow> rModuleAO4" where
  "ao4_new num g = \<lparr>ao4_base = setModule K19_AO4_str K19_AO4_ModuleReadAll K19_AO4_ModuleExchange (base_module MT_AO4 num g),
     ao4_channel = map ao_channel_at [0..<AO4_COUNT]\<rparr>"

definition ao4_copy :: "rModuleAO4 \<Rightarrow> bytes \<Rightarrow> rModuleAO4" where
  "ao4_copy m d = \<lparr>ao4_base = base_copy (ao4_base m) d, ao4_channel = ao4_channel m\<rparr>"

definition ao4_current :: "UINT \<Rightarrow> lreal" where
  "ao4_current adc = (let x = Fin 24 / Fin 65535 * lreal_of_word adc; y = (if x < Fin 4 then Fin 4 else x) in
     if y > Fin 20 then Fin 20 else y)"

fun ao4_loop :: "bool \<Rightarrow> rIOAOChannel list \<Rightarrow> bytes \<Rightarrow> rIOAOChannel list \<times> bytes \<times> bool" where
  "ao4_loop issim [] d = ([], d, False)"
| "ao4_loop issim (c # cs) d =
     (let i = unat (ch_canIdx (ao_base c));
          (c1, d1, p) = (if issim then (case ao_simulate c of (c', p) \<Rightarrow> (c', d, p))
            else (c\<lparr>ao_mode := (if rdw K19_AO4_str (at_idx ''Read'' ''ChType'' i) d = (0 :: byte) then 0 else 1),
                    ao_current := ao4_current (ao_ADC c)\<rparr>,
                  wr K19_AO4_str (at_idx ''Write'' ''DataSetType'' i) [if ao_regime c = 0 then 0 else 1]
                    (wr K19_AO4_str (at_idx ''Write'' ''Data'' i) (le_bytes 2 (ao_ADC c)) d), False));
          (cs', d', p') = ao4_loop issim cs d1
      in (ao_processing c1 # cs', d', p \<or> p'))"

definition ao4_processing :: "can_link \<Rightarrow> bool \<Rightarrow> rModuleAO4 \<Rightarrow> rModuleAO4 \<times> UDINT \<times> cevent list" where
  "ao4_processing can issim m =
     (case base_processing can issim (ao4_base m) of (b, res, ev) \<Rightarrow>
       if res \<noteq> TRITONN_RESULT_OK then (m\<lparr>ao4_base := b\<rparr>, res, ev)
       else (case ao4_loop issim (ao4_channel m) (md_data b) of (cs, d, p) \<Rightarrow>
         (\<lparr>ao4_base = pull p (b\<lparr>md_data := d\<rparr>), ao4_channel = cs\<rparr>, TRITONN_RESULT_OK, ev)))"

definition ao_type :: "rIOAOChannel \<Rightarrow> channel_type" where "ao_type c = ch_type (ao_base c)"

definition ao4_getValue :: "rModuleAO4 \<Rightarrow> USINT \<Rightarrow> channel_type \<Rightarrow> UDINT \<Rightarrow> UDINT \<times> UDINT" where
  "ao4_getValue m num t f = checked 1 (ao4_channel m) ao_type num t (\<lambda>c. ucast (ao_ADC c))"

definition ao4_setValue :: "rModuleAO4 \<Rightarrow> USINT \<Rightarrow> channel_type \<Rightarrow> UDINT \<Rightarrow> rModuleAO4 \<times> UDINT" where
  "ao4_setValue m num t v = (let fault = checkChannelAccess (map ao_type (ao4_channel m)) num t in
     if fault \<noteq> TRITONN_RESULT_OK then (m, fault)
     else (m\<lparr>ao4_channel := (ao4_channel m)[unat num := (ao4_channel m ! unat num)\<lparr>ao_ADC := ucast v\<rparr>]\<rparr>, TRITONN_RESULT_OK))"

definition ao4_getMinValue :: "rModuleAO4 \<Rightarrow> USINT \<Rightarrow> channel_type \<Rightarrow> UINT \<times> UDINT" where
  "ao4_getMinValue m num t = checked 1 (ao4_channel m) ao_type num t ao_getMinValue"

definition ao4_getMaxValue :: "rModuleAO4 \<Rightarrow> USINT \<Rightarrow> channel_type \<Rightarrow> UINT \<times> UDINT" where
  "ao4_getMaxValue m num t = checked 1 (ao4_channel m) ao_type num t ao_getMaxValue"

definition ao4_getRange :: "rModuleAO4 \<Rightarrow> USINT \<Rightarrow> channel_type \<Rightarrow> UINT \<times> UDINT" where
  "ao4_getRange m num t = checked 1 (ao4_channel m) ao_type num t ao_getRange"

section \<open>Four frequency inputs\<close>

record rModuleFI4 =
  fi4_base :: rIOBaseModule
  fi4_channel :: "rIOFIChannel list"
  fi4_outtype :: USINT

definition FI4_COUNT :: nat where "FI4_COUNT = 4"

definition fi_channel_at :: "timeval \<Rightarrow> nat \<Rightarrow> rIOFIChannel" where
  "fi_channel_at now i = (let c = fi_new now (of_nat i) in c\<lparr>fi_base := (fi_base c)\<lparr>ch_canIdx := of_nat i\<rparr>\<rparr>)"

definition fi4_new :: "timeval \<Rightarrow> UDINT \<Rightarrow> bytes \<Rightarrow> rModuleFI4" where
  "fi4_new now num g = \<lparr>fi4_base = setModule K19_FIO_str K19_FIO_ModuleReadAll K19_FIO_ModuleExchange (base_module MT_FI4 num g),
     fi4_channel = map (fi_channel_at now) [0..<FI4_COUNT], fi4_outtype = 0\<rparr>"

definition fi4_copy :: "rModuleFI4 \<Rightarrow> bytes \<Rightarrow> rModuleFI4" where
  "fi4_copy m d = \<lparr>fi4_base = base_copy (fi4_base m) d, fi4_channel = fi4_channel m, fi4_outtype = 0\<rparr>"

definition fi_take :: "bytes \<Rightarrow> nat \<Rightarrow> rIOFIChannel \<Rightarrow> rIOFIChannel" where
  "fi_take d i c = c\<lparr>fi_freq := f32_of_bits (rdw K19_FIO_str (at_idx ''Read'' ''Frequency'' i) d),
     fi_counter := rdw K19_FIO_str (at_idx ''Read'' ''Counter'' i) d,
     fi_filter := rdw K19_FIO_str (at_idx ''Read'' ''Filter'' i) d\<rparr>"

definition fi4_step :: "(lreal \<Rightarrow> lreal) \<Rightarrow> UINT \<Rightarrow> timeval \<Rightarrow> (USINT \<Rightarrow> int) \<Rightarrow> bool \<Rightarrow> bytes \<Rightarrow> rIOFIChannel \<Rightarrow> rIOFIChannel \<times> bool" where
  "fi4_step csin ub now rnd issim d c =
     (let idx = ch_canIdx (fi_base c);
          (c1, p) = (if issim then fi_simulate csin ub now (rnd idx) c else (fi_take d (unat idx) c, False))
      in (fi_processing c1, p))"

definition fi4_getOutType :: "USINT \<Rightarrow> byte" where
  "fi4_getOutType o' = (if o' \<in> {1, 2, 3, 4} then o' else 0)"

definition fi4_processing :: "can_link \<Rightarrow> (lreal \<Rightarrow> lreal) \<Rightarrow> UINT \<Rightarrow> timeval \<Rightarrow> (USINT \<Rightarrow> int) \<Rightarrow> bool \<Rightarrow> rModuleFI4
    \<Rightarrow> rModuleFI4 \<times> UDINT \<times> cevent list" where
  "fi4_processing can csin ub now rnd issim m =
     (case base_processing can issim (fi4_base m) of (b, res, ev) \<Rightarrow>
       if res \<noteq> TRITONN_RESULT_OK then (m\<lparr>fi4_base := b\<rparr>, res, ev)
       else (let rs = map (fi4_step csin ub now rnd issim (md_data b)) (fi4_channel m);
                 d = wr K19_FIO_str [Fld ''Write'', Fld ''OutType''] [fi4_getOutType (fi4_outtype m)] (md_data b)
             in (\<lparr>fi4_base = pull (\<exists>r \<in> set rs. snd r) (b\<lparr>md_data := d\<rparr>), fi4_channel = map fst rs,
                  fi4_outtype = fi4_outtype m\<rparr>, TRITONN_RESULT_OK, ev)))"

definition fi_type :: "rIOFIChannel \<Rightarrow> channel_type" where "fi_type c = ch_type (fi_base c)"

definition fi4_getValue :: "rModuleFI4 \<Rightarrow> USINT \<Rightarrow> channel_type \<Rightarrow> UDINT \<Rightarrow> UDINT \<times> UDINT" where
  "fi4_getValue m num t f = checked 1 (fi4_channel m) fi_type num t fi_counter"

definition fi4_setValue :: "rModuleFI4 \<Rightarrow> USINT \<Rightarrow> channel_type \<Rightarrow> UDINT \<Rightarrow> rModuleFI4 \<times> UDINT" where
  "fi4_setValue m num t v = (m, DATACFGERR_REALTIME_WRONGCHANNEL)"

definition fi4_getFreq :: "rModuleFI4 \<Rightarrow> USINT \<Rightarrow> channel_type \<Rightarrow> lreal \<times> UDINT" where
  "fi4_getFreq m num t = checked (Fin 0) (fi4_channel m) fi_type num t fi_freq"

definition fi4_setOut :: "USINT \<Rightarrow> rModuleFI4 \<Rightarrow> rModuleFI4 \<times> UDINT" where
  "fi4_setOut num m = (if unat num \<ge> FI4_COUNT then (m, DATACFGERR_REALTIME_CHANNELLINK)
     else (m\<lparr>fi4_outtype := num + 1\<rparr>, TRITONN_RESULT_OK))"

section \<open>The contract\<close>

definition all_type :: "('c \<Rightarrow> channel_type) \<Rightarrow> channel_type \<Rightarrow> nat \<Rightarrow> 'c list \<Rightarrow> bool" where
  "all_type ty t n cs \<longleftrightarrow> map ty cs = replicate n t"

definition kind_of :: "nat \<Rightarrow> channel_type \<Rightarrow> nat \<Rightarrow> channel_type option" where
  "kind_of k t n = (if n < k then Some t else None)"

definition ai6_good :: "rIOAIChannel list \<Rightarrow> bool" where "ai6_good cs \<longleftrightarrow> all_type ai_type CT_AI AI6_COUNT cs"
definition ao4_good :: "rModuleAO4 \<Rightarrow> bool" where "ao4_good m \<longleftrightarrow> all_type ao_type CT_AO AO4_COUNT (ao4_channel m)"
definition fi4_good :: "rModuleFI4 \<Rightarrow> bool" where "fi4_good m \<longleftrightarrow> all_type fi_type CT_FI FI4_COUNT (fi4_channel m)"

lemma access_uniform:
  "checkChannelAccess (replicate k t') n t = (if unat n \<ge> k then DATACFGERR_REALTIME_CHANNELLINK
     else if t' \<noteq> t then DATACFGERR_REALTIME_WRONGCHANNEL else TRITONN_RESULT_OK)"
  by (simp add: checkChannelAccess_def)

lemma checked_code [simp]: "snd (checked r cs ty n t get) = checkChannelAccess (map ty cs) n t"
  by (simp add: checked_def Let_def)

interpretation ai6: io_module ai6_good "kind_of AI6_COUNT CT_AI" ai6_getValue ai6_setValue
  by unfold_locales
    (auto simp: ai6_good_def all_type_def kind_of_def ai6_getValue_def ai6_setValue_def access_uniform module_codes split: if_splits)

lemma ao_type_update: "map ao_type (cs[i := (cs ! i)\<lparr>ao_ADC := v\<rparr>]) = map ao_type cs"
  by (rule nth_equalityI) (auto simp: ao_type_def nth_list_update_if)

interpretation ao4: io_module ao4_good "kind_of AO4_COUNT CT_AO" ao4_getValue ao4_setValue
  by unfold_locales
    (auto simp: ao4_good_def all_type_def kind_of_def ao4_getValue_def ao4_setValue_def access_uniform module_codes
      ao_type_update Let_def split: if_splits)

interpretation fi4: io_module fi4_good "kind_of FI4_COUNT CT_FI" fi4_getValue fi4_setValue
  by unfold_locales
    (auto simp: fi4_good_def all_type_def kind_of_def fi4_getValue_def fi4_setValue_def access_uniform module_codes split: if_splits)

lemma ai_type_processing [simp]: "ai_type (ai_processing ub c) = ai_type c"
  by (simp add: ai_type_def ai_processing_def Let_def)

lemma ai_type_simulate [simp]: "ai_type (fst (ai_simulate csin ub r c)) = ai_type c"
  by (simp add: ai_type_def ai_simulate_def Let_def)

lemma ai_type_take [simp]: "ai_type (ai_take t d i c) = ai_type c" "ai_type (fst (correct_dot g mid idx c)) = ai_type c"
  by (simp_all add: ai_type_def ai_take_def correct_dot_def)

lemma ai6a_loop_type: "map ai_type (fst (ai6a_loop can csin ub rnd g issim mid cs corr d)) = map ai_type cs"
  by (induction cs arbitrary: corr d) (simp_all add: Let_def case_prod_beta)

lemma ai6p_loop_type: "map ai_type (fst (ai6p_loop csin ub rnd issim cs d)) = map ai_type cs"
  by (induction cs arbitrary: d) (simp_all add: Let_def case_prod_beta)

lemma ao4_loop_type: "map ao_type (fst (ao4_loop issim cs d)) = map ao_type cs"
  by (induction cs arbitrary: d)
    (simp_all add: Let_def case_prod_beta ao_simulate_def ao_processing_def ao_type_def)

lemma fi4_step_type: "fi_type (fst (fi4_step csin ub now rnd issim d c)) = fi_type c"
  by (auto simp: fi4_step_def fi_type_def fi_processing_def fi_simulate_def fi_take_def Let_def case_prod_beta)

lemma analog_cycle_good:
  "ai6_good (ai6a_channel a) \<Longrightarrow> ai6_good (ai6a_channel (fst (ai6a_processing can csin ub rnd g issim a)))"
  "ai6_good (ai6p_channel p) \<Longrightarrow> ai6_good (ai6p_channel (fst (ai6p_processing can csin ub rnd issim p)))"
  "ao4_good q \<Longrightarrow> ao4_good (fst (ao4_processing can issim q))"
  "fi4_good f \<Longrightarrow> fi4_good (fst (fi4_processing can csin ub now rnd issim f))"
  by (simp_all add: ai6_good_def ao4_good_def fi4_good_def all_type_def ai6a_processing_def ai6p_processing_def
      ao4_processing_def fi4_processing_def case_prod_beta ai6a_loop_type ai6p_loop_type ao4_loop_type fi4_step_type
      comp_def Let_def)

lemma analog_new_good:
  "ai6_good (ai6a_channel (ai6a_new n g))" "ai6_good (ai6p_channel (ai6p_new n g))" "ao4_good (ao4_new n g)" "fi4_good (fi4_new now n g)"
  by (simp_all add: ai6_good_def ao4_good_def fi4_good_def all_type_def ai6a_new_def ai6p_new_def ao4_new_def fi4_new_def
      ai_channel_at_def ao_channel_at_def fi_channel_at_def ai_new_def ao_new_def fi_new_def ai_type_def ao_type_def fi_type_def
      base_channel_def Let_def map_replicate_const comp_def)

end
