(* ===== verification/IoCrm.thy ===== *)
theory IoCrm
  imports IoAnalog Prove
begin

text \<open>
  The prover module, \<^verbatim>\<open>module_crm.cpp\<close>: four detectors, one pulse input and the measurement
  the processor runs; and how the prover of \<^verbatim>\<open>Prove\<close> sees it through the interface of
  \<^verbatim>\<open>crminterface.h\<close>.
\<close>

section \<open>The module\<close>

definition Det1 :: UINT where "Det1 = 0x0001"
definition Det2 :: UINT where "Det2 = 0x0002"
definition Det3 :: UINT where "Det3 = 0x0004"
definition Det4 :: UINT where "Det4 = 0x0008"

record rModuleCRM =
  crm_base :: rIOBaseModule
  crm_DI :: "rIODIChannel list"
  crm_FI :: rIOFIChannel

definition CRM_DI_COUNT :: nat where "CRM_DI_COUNT = 4"

definition crm_new :: "timeval \<Rightarrow> UDINT \<Rightarrow> bytes \<Rightarrow> rModuleCRM" where
  "crm_new now num g = \<lparr>crm_base = setModule K19_CRM_str K19_CRM_ModuleReadAll K19_CRM_ModuleExchange (base_module MT_CRM num g),
     crm_DI = map (\<lambda>i. di_channel_at now i i) [0..<CRM_DI_COUNT],
     crm_FI = (let c = fi_new now (of_nat CRM_DI_COUNT) in c\<lparr>fi_base := (fi_base c)\<lparr>ch_canIdx := 0\<rparr>\<rparr>)\<rparr>"

definition crm_copy :: "rModuleCRM \<Rightarrow> bytes \<Rightarrow> rModuleCRM" where
  "crm_copy m d = \<lparr>crm_base = base_copy (crm_base m) d, crm_DI = crm_DI m, crm_FI = crm_FI m\<rparr>"

definition crm_read :: "string \<Rightarrow> sel list" where "crm_read n = [Fld ''Read'', Fld n]"

text \<open>The states of the detectors are bit fields, from the lowest bit on; a channel keeps its value
  when its number is none of the four.\<close>

definition crm_stat :: "bytes \<Rightarrow> USINT \<Rightarrow> USINT \<Rightarrow> USINT" where
  "crm_stat d idx old = (if idx < 4 then word_of_bool (bit (rdw K19_CRM_str (crm_read ''DIStat'') d :: 32 word) (unat idx)) else old)"

definition crm_di_step :: "bool \<Rightarrow> timeval \<Rightarrow> (USINT \<Rightarrow> int) \<Rightarrow> bytes \<Rightarrow> rIODIChannel \<Rightarrow> rIODIChannel \<times> bool" where
  "crm_di_step issim now rnd d c =
     (if has (di_setup c) DI_OFF then (c, False)
      else (let idx = ch_canIdx (di_base c);
                (c1, p) = (if issim then di_simulate now (rnd idx) c
                           else (c\<lparr>di_phValue := crm_stat d idx (di_phValue c)\<rparr>, False))
            in (di_processing now c1, p)))"

definition crm_fi_step :: "(lreal \<Rightarrow> lreal) \<Rightarrow> UINT \<Rightarrow> bool \<Rightarrow> timeval \<Rightarrow> int \<Rightarrow> bytes \<Rightarrow> rIOFIChannel \<Rightarrow> rIOFIChannel \<times> bool" where
  "crm_fi_step csin ub issim now rnd d c =
     (if has (fi_setup c) FI_OFF then (c, False)
      else (let (c1, p) = (if issim then fi_simulate csin ub now rnd c
                           else (c\<lparr>fi_freq := f32_of_bits (rdw K19_CRM_str (crm_read ''Frequency'') d),
                                   fi_filter := rdw K19_CRM_str (crm_read ''Filter'') d, fi_counter := 0\<rparr>, False))
            in (fi_processing c1, p)))"

text \<open>The result of the base class is not looked at.\<close>

definition crm_processing :: "can_link \<Rightarrow> (lreal \<Rightarrow> lreal) \<Rightarrow> UINT \<Rightarrow> bool \<Rightarrow> timeval \<Rightarrow> (USINT \<Rightarrow> int) \<Rightarrow> int \<Rightarrow> rModuleCRM
    \<Rightarrow> rModuleCRM \<times> UDINT \<times> cevent list" where
  "crm_processing can csin ub issim now rnd frnd m =
     (case base_processing can issim (crm_base m) of (b, res, ev) \<Rightarrow>
       (let rs = map (crm_di_step issim now rnd (md_data b)) (crm_DI m);
            (f, fp) = crm_fi_step csin ub issim now frnd (md_data b) (crm_FI m)
        in (\<lparr>crm_base = pull ((\<exists>r \<in> set rs. snd r) \<or> fp) b, crm_DI = map fst rs, crm_FI = f\<rparr>, TRITONN_RESULT_OK, ev)))"

definition crm_getValue :: "rModuleCRM \<Rightarrow> USINT \<Rightarrow> channel_type \<Rightarrow> UDINT \<Rightarrow> UDINT \<times> UDINT" where
  "crm_getValue m num t f =
     (if unat num \<ge> CRM_DI_COUNT + 1 then (0, DATACFGERR_REALTIME_CHANNELLINK)
      else if unat num < CRM_DI_COUNT then
        (if ch_type (di_base (crm_DI m ! unat num)) \<noteq> t then (0, DATACFGERR_REALTIME_WRONGCHANNEL)
         else (ucast (di_value (crm_DI m ! unat num)), f))
      else if fi_type (crm_FI m) \<noteq> t then (0, DATACFGERR_REALTIME_WRONGCHANNEL)
      else (fi_counter (crm_FI m), f))"

definition crm_setValue :: "rModuleCRM \<Rightarrow> USINT \<Rightarrow> channel_type \<Rightarrow> UDINT \<Rightarrow> rModuleCRM \<times> UDINT" where
  "crm_setValue m num t v = (m, DATACFGERR_REALTIME_WRONGCHANNEL)"

definition crm_getFreq :: "rModuleCRM \<Rightarrow> lreal" where "crm_getFreq m = fi_freq (crm_FI m)"

definition crm_on :: "rModuleCRM \<Rightarrow> nat \<Rightarrow> bool" where
  "crm_on m i \<longleftrightarrow> di_value (crm_DI m ! i) \<noteq> 0"

definition crm_getDetectors :: "rModuleCRM \<Rightarrow> UINT" where
  "crm_getDetectors m =
     push_bit (unat Det1) (word_of_bool (crm_on m 0)) OR push_bit (unat Det2) (word_of_bool (crm_on m 1))
     OR push_bit (unat Det3) (word_of_bool (crm_on m 2)) OR push_bit (unat Det4) (word_of_bool (crm_on m 3))"

datatype crm_state = CRM_IDLE | CRM_WAIT_1 | CRM_WAIT_2 | CRM_FINISH | CRM_TIMEOUT

definition crm_convertState :: "byte \<Rightarrow> crm_state" where
  "crm_convertState s = (if s = 0 then CRM_IDLE else if s = 1 then CRM_WAIT_1 else if s = 2 then CRM_WAIT_2
     else if s = 3 then CRM_FINISH else if s = 4 then CRM_TIMEOUT else CRM_IDLE)"

definition crm_pair :: "string \<Rightarrow> UINT \<Rightarrow> sel list" where
  "crm_pair n idx = at_idx ''Read'' n (if idx = 0 then 0 else 1)"

definition crm_getState :: "rModuleCRM \<Rightarrow> UINT \<Rightarrow> crm_state" where
  "crm_getState m idx = crm_convertState (rdw K19_CRM_str (crm_pair ''MeasureState'' idx) (md_data (crm_base m)))"

definition crm_getTime :: "rModuleCRM \<Rightarrow> UINT \<Rightarrow> lreal" where
  "crm_getTime m idx = f32_of_bits (rdw K19_CRM_str (crm_pair ''MeasureTimeUs'' idx) (md_data (crm_base m)))"

definition crm_getImp :: "rModuleCRM \<Rightarrow> UINT \<Rightarrow> lreal" where
  "crm_getImp m idx = f32_of_bits (rdw K19_CRM_str (crm_pair ''MeasureImpulseNmb'' idx) (md_data (crm_base m)))"

text \<open>Starting and stopping the measurement; \<open>sim\<close> is the argument of the program. The pointer to the
  module information is only followed outside the simulation.\<close>

definition crm_command :: "nat \<Rightarrow> can_link \<Rightarrow> bool \<Rightarrow> rModuleCRM \<Rightarrow> trap + (bool \<times> rModuleCRM)" where
  "crm_command func can sim m =
     (if sim then Inr (True, m)
      else case md_ptrs (crm_base m) of None \<Rightarrow> Inl Null_pointer
      | Some p \<Rightarrow> if in_work p (md_data (crm_base m))
          then Inr (True, m\<lparr>crm_base := (crm_base m)\<lparr>md_data := can func (md_ID (crm_base m)) (md_data (crm_base m))\<rparr>\<rparr>)
          else Inr (False, m))"

definition crm_start :: "can_link \<Rightarrow> bool \<Rightarrow> rModuleCRM \<Rightarrow> trap + (bool \<times> rModuleCRM)" where
  "crm_start = crm_command K19_CRM_MeasureStart"

definition crm_abort :: "can_link \<Rightarrow> bool \<Rightarrow> rModuleCRM \<Rightarrow> trap + (bool \<times> rModuleCRM)" where
  "crm_abort = crm_command K19_CRM_MeasureStop"

section \<open>The contract\<close>

definition crm_kind :: "nat \<Rightarrow> channel_type option" where
  "crm_kind n = (if n < CRM_DI_COUNT then Some CT_DI else if n = CRM_DI_COUNT then Some CT_FI else None)"

definition crm_good :: "rModuleCRM \<Rightarrow> bool" where
  "crm_good m \<longleftrightarrow> base_good MT_CRM K19_CRM_str (crm_base m) \<and> placed di_at CRM_DI_COUNT (crm_DI m) \<and> fi_type (crm_FI m) = CT_FI"

lemma crm_good_new: "crm_good (crm_new now num g)"
  by (simp add: crm_good_def crm_new_def base_good_new placed_new fi_type_def fi_new_def base_channel_def Let_def)

lemma crm_fi_type [simp]: "fi_type (fst (crm_fi_step csin ub issim now r d c)) = fi_type c"
  by (auto simp: crm_fi_step_def fi_type_def fi_processing_def fi_simulate_def Let_def case_prod_beta)

lemma crm_di_at: "di_at i c \<Longrightarrow> di_at i (fst (crm_di_step issim now rnd d c))"
  by (simp add: di_at_def crm_di_step_def di_simulate_def Let_def)

lemma crm_cycle_good:
  assumes "crm_good m" "keeps_length can"
  shows "crm_good (fst (crm_processing can csin ub issim now rnd frnd m))"
proof -
  let ?b = "fst (base_processing can issim (crm_base m))"
  have b: "base_good MT_CRM K19_CRM_str ?b" using base_good_processing assms by (auto simp: crm_good_def)
  have "placed di_at CRM_DI_COUNT (map (\<lambda>c. fst (crm_di_step issim now rnd (md_data ?b) c)) (crm_DI m))"
    by (rule placed_map) (use assms(1) in \<open>auto simp: crm_good_def crm_di_at\<close>)
  then show ?thesis using b assms(1)
    by (simp add: crm_good_def crm_processing_def case_prod_beta Let_def comp_def)
qed

interpretation crm: io_module crm_good crm_kind crm_getValue crm_setValue
  by unfold_locales
    (auto simp: crm_good_def crm_kind_def crm_getValue_def crm_setValue_def placed_def di_at_def CRM_DI_COUNT_def
      module_codes split: if_splits)

section \<open>What the prover sees\<close>

text \<open>One read of the module by \<^verbatim>\<open>rProve::calculate\<close>.\<close>

definition crm_reading :: "rModuleCRM \<Rightarrow> module_reading" where
  "crm_reading m = (if md_isFault (crm_base m) then ModuleFault
     else case crm_getValue m 4 CT_FI TRITONN_RESULT_OK of (cnt, fault) \<Rightarrow>
       Reading (crm_getFreq m) (crm_getDetectors m) cnt fault)"

lemma det_bits:
  "crm_getDetectors m = (if crm_on m 0 then 2 else 0) OR (if crm_on m 1 then 4 else 0)
     OR (if crm_on m 2 then 16 else 0) OR (if crm_on m 3 then 256 else 0)"
  by (simp add: crm_getDetectors_def Det1_def Det2_def Det3_def Det4_def word_of_bool_def push_bit_eq_mult)

text \<open>The groups the prover tests are those of the flags, not those of the shifted bits.\<close>

lemma det_groups:
  "has (crm_getDetectors m) (0x0001 OR 0x0002) = crm_on m 0" "has (crm_getDetectors m) (0x0004 OR 0x0008) = crm_on m 1"
  unfolding det_bits by (cases "crm_on m 0"; cases "crm_on m 1"; cases "crm_on m 2"; cases "crm_on m 3"; simp add: has_def)+

text \<open>
  The prover and its module disagree on the detectors. When a prover without the setup of one detector
  moves forward with no detector latched, its next look at a module that works, started by the module's
  own reading, takes the second detector for a detector of the wrong end, passes on with the first,
  and misses the third and the fourth altogether, although it means the first two to be one end and the last two the other.
\<close>

theorem crm_detectors_seen:
  assumes "crm_good m" "\<not> md_isFault (crm_base m)" "pe_module e = Some (crm_reading m)"
    "fixDet s = 0" "\<not> tick_isStarted (p_timerBounce s)" "\<not> has (Value (p_setup s)) PS_ONEDETECTOR" "p_way s = WAY_FORWARD"
  shows "\<exists>s1. prove_read_module e s = Inr s1
    \<and> checkDetectors True (detectorsProcessing e s1) = (if crm_on m 1 then - 1 else of_bool (crm_on m 0))"
proof -
  obtain cnt where cnt: "crm_getValue m 4 CT_FI TRITONN_RESULT_OK = (cnt, TRITONN_RESULT_OK)"
    using crm.look_ok [OF assms(1), of 4 CT_FI] by (cases "crm_getValue m 4 CT_FI TRITONN_RESULT_OK") (simp add: crm_kind_def CRM_DI_COUNT_def)
  let ?s1 = "s\<lparr>moduleFreq := crm_getFreq m, moduleDet := crm_getDetectors m, moduleCount := cnt\<rparr>"
  have read: "prove_read_module e s = Inr ?s1"
    by (simp add: prove_read_module_def assms(2,3) crm_reading_def cnt Let_def)
  have latch: "fixDet (detectorsProcessing e ?s1) = crm_getDetectors m"
    and same: "p_way (detectorsProcessing e ?s1) = WAY_FORWARD" "Value (p_setup (detectorsProcessing e ?s1)) = Value (p_setup s)"
    using assms(4,5,7) by (auto simp: detectorsProcessing_def Let_def)
  have "checkDetectors True (detectorsProcessing e ?s1) = (if crm_on m 1 then - 1 else of_bool (crm_on m 0))"
    unfolding checkDetectors_def latch same det_groups using assms(6) by (simp add: WAY_FORWARD_def WAY_REVERSE_def Let_def)
  with read show ?thesis by blast
qed

definition third_on :: rModuleCRM where
  "third_on = (let m = crm_new \<lparr>sec = 0, usec = 0\<rparr> 0 [] in
     m\<lparr>crm_DI := (crm_DI m)[2 := (crm_DI m ! 2)\<lparr>di_value := 1\<rparr>]\<rparr>)"

theorem crm_detectors_seen_witness:
  "crm_on third_on 2 \<and> (\<exists>s1. prove_read_module (prove_env_example\<lparr>pe_module := Some (crm_reading third_on)\<rparr>) prove_example = Inr s1
    \<and> checkDetectors True (detectorsProcessing (prove_env_example\<lparr>pe_module := Some (crm_reading third_on)\<rparr>) s1) = 0)"
proof -
  have "placed di_at 4 ((crm_DI (crm_new t 0 []))[2 := (crm_DI (crm_new t 0 []) ! 2)\<lparr>di_value := 1\<rparr>])" for t
    using crm_good_new [of t 0 "[]"] placed_update [of di_at 4 "crm_DI (crm_new t 0 [])" "\<lambda>c. c\<lparr>di_value := 1\<rparr>" 2]
    by (simp add: crm_good_def CRM_DI_COUNT_def di_at_def)
  then have good: "crm_good third_on"
    using crm_good_new [of "\<lparr>sec = 0, usec = 0\<rparr>" 0 "[]"] by (simp add: third_on_def crm_good_def CRM_DI_COUNT_def Let_def)
  have chans: "crm_DI third_on = [di_channel_at \<lparr>sec = 0, usec = 0\<rparr> 0 0, di_channel_at \<lparr>sec = 0, usec = 0\<rparr> 1 1,
      (di_channel_at \<lparr>sec = 0, usec = 0\<rparr> 2 2)\<lparr>di_value := 1\<rparr>, di_channel_at \<lparr>sec = 0, usec = 0\<rparr> 3 3]"
    by (simp add: third_on_def crm_new_def CRM_DI_COUNT_def Let_def upt_rec numeral_2_eq_2 numeral_3_eq_3)
  have on: "\<not> crm_on third_on 0" "\<not> crm_on third_on 1" "crm_on third_on 2"
    unfolding crm_on_def chans by (simp_all add: di_channel_at_def di_new_def Let_def)
  have idle: "fixDet prove_example = 0" "\<not> tick_isStarted (p_timerBounce prove_example)"
    "\<not> has (Value (p_setup prove_example)) PS_ONEDETECTOR" "p_way prove_example = WAY_FORWARD"
    by (simp_all add: prove_example_def tick_isStarted_def tick_new_def cmp_new_def)
  have "\<not> md_isFault (crm_base third_on)"
    by (simp add: third_on_def crm_new_def setModule_def base_module_def Let_def)
  with crm_detectors_seen [OF good, of "prove_env_example\<lparr>pe_module := Some (crm_reading third_on)\<rparr>" prove_example] idle on
  show ?thesis by simp
qed

end
