(* ===== verification/IoManager.thy ===== *)
theory IoManager
  imports IoCrm
begin

text \<open>
  The manager of the modules, \<^verbatim>\<open>src/tritonn/io/manager.cpp\<close>: adding the modules the
  configuration names, one cycle over all of them, and handing out their interfaces; with the loop of
  \<^verbatim>\<open>rDataConfig::loadHardware\<close> that fills it. The thread and the XML are not modelled.
\<close>

section \<open>Modules\<close>

datatype io_object = M_CPU rIOBaseModule | M_AI6a rModuleAI6a | M_AI6p rModuleAI6p | M_AO4 rModuleAO4
  | M_DI16 rModuleDI16 | M_DO16 rModuleDO16 | M_DI8DO8 rModuleDI8DO8 | M_FI4 rModuleFI4 | M_CRM rModuleCRM

fun obj_base :: "io_object \<Rightarrow> rIOBaseModule" where
  "obj_base (M_CPU m) = m"
| "obj_base (M_AI6a m) = ai6a_base m"
| "obj_base (M_AI6p m) = ai6p_base m"
| "obj_base (M_AO4 m) = ao4_base m"
| "obj_base (M_DI16 m) = di16_base m"
| "obj_base (M_DO16 m) = do16_base m"
| "obj_base (M_DI8DO8 m) = dido_base m"
| "obj_base (M_FI4 m) = fi4_base m"
| "obj_base (M_CRM m) = crm_base m"

definition getType :: "io_object \<Rightarrow> module_type" where "getType m = md_type (obj_base m)"

section \<open>The processor's module\<close>

definition cpu_new :: "UDINT \<Rightarrow> bytes \<Rightarrow> rIOBaseModule" where "cpu_new num g = base_module MT_CPU num g"

definition cpu_processing :: "can_link \<Rightarrow> bool \<Rightarrow> rIOBaseModule \<Rightarrow> rIOBaseModule \<times> UDINT \<times> cevent list" where
  "cpu_processing can issim m = (case base_processing can issim m of (m1, res, ev) \<Rightarrow> (m1, TRITONN_RESULT_OK, ev))"

definition cpu_getValue :: "rIOBaseModule \<Rightarrow> USINT \<Rightarrow> channel_type \<Rightarrow> UDINT \<Rightarrow> UDINT \<times> UDINT" where
  "cpu_getValue m num t f = (0, DATACFGERR_REALTIME_WRONGCHANNEL)"

definition cpu_setValue :: "rIOBaseModule \<Rightarrow> USINT \<Rightarrow> channel_type \<Rightarrow> UDINT \<Rightarrow> rIOBaseModule \<times> UDINT" where
  "cpu_setValue m num t v = (m, DATACFGERR_REALTIME_WRONGCHANNEL)"

section \<open>Adding modules\<close>

definition DATACFGERR_HARDWARE_UNKNOWNMODULE :: UDINT where "DATACFGERR_HARDWARE_UNKNOWNMODULE = 185"
definition DATACFGERR_HARDWARE_CPU_FAULT :: UDINT where "DATACFGERR_HARDWARE_CPU_FAULT = 186"
definition DATACFGERR_HARDWARE_MODULE_IS_EMPTY :: UDINT where "DATACFGERR_HARDWARE_MODULE_IS_EMPTY = 187"
definition DATACFGERR_HARDWARE_CPU_NF :: UDINT where "DATACFGERR_HARDWARE_CPU_NF = 188"

text \<open>The names the classes answer with \<^verbatim>\<open>getRTTI\<close>, in the order of the code's tests.\<close>

definition module_names :: "(string \<times> module_type) list" where
  "module_names = [(''ai6a'', MT_AI6a), (''ai6p'', MT_AI6p), (''ao4'', MT_AO4), (''di16'', MT_DI16), (''do16'', MT_DO16),
     (''di8do8'', MT_DI8DO8), (''fi4'', MT_FI4), (''crm'', MT_CRM)]"

text \<open>The \<^verbatim>\<open>new\<close> of a type; \<open>now\<close> is the clock and \<open>g\<close> what the memory held.\<close>

fun new_module :: "timeval \<Rightarrow> bytes \<Rightarrow> module_type \<Rightarrow> UDINT \<Rightarrow> io_object option" where
  "new_module now g MT_CPU n = Some (M_CPU (cpu_new n g))"
| "new_module now g MT_AI6a n = Some (M_AI6a (ai6a_new n g))"
| "new_module now g MT_AI6p n = Some (M_AI6p (ai6p_new n g))"
| "new_module now g MT_AO4 n = Some (M_AO4 (ao4_new n g))"
| "new_module now g MT_DI16 n = Some (M_DI16 (di16_new now n g))"
| "new_module now g MT_DO16 n = Some (M_DO16 (do16_new now n g))"
| "new_module now g MT_DI8DO8 n = Some (M_DI8DO8 (dido_new now n g))"
| "new_module now g MT_FI4 n = Some (M_FI4 (fi4_new now n g))"
| "new_module now g MT_CRM n = Some (M_CRM (crm_new now n g))"
| "new_module now g MT_UNDEF n = None"

record io_manager =
  io_modules :: "io_object list"
  io_maxmap :: "string \<Rightarrow> UDINT"

definition io_push :: "string \<Rightarrow> io_object option \<Rightarrow> io_manager \<Rightarrow> io_manager" where
  "io_push name obj mg = (case obj of None \<Rightarrow> mg
     | Some x \<Rightarrow> \<lparr>io_modules = io_modules mg @ [x], io_maxmap = (io_maxmap mg)(name := io_maxmap mg name + 1)\<rparr>)"

definition addModule :: "timeval \<Rightarrow> bytes \<Rightarrow> string \<Rightarrow> io_manager \<Rightarrow> UDINT + io_manager" where
  "addModule now g name mg =
     (if name = ''cpu''
      then (if io_modules mg \<noteq> [] then Inl DATACFGERR_HARDWARE_CPU_FAULT
            else Inr (io_push name (new_module now g MT_CPU (io_maxmap mg name)) mg))
      else if io_modules mg = [] then Inl DATACFGERR_HARDWARE_CPU_NF
      else case map_of module_names name of
        None \<Rightarrow> Inl DATACFGERR_HARDWARE_UNKNOWNMODULE
      | Some t \<Rightarrow> Inr (io_push name (new_module now g t (io_maxmap mg name)) mg))"

text \<open>The modules of the configuration, by their lower-case names with the result of reading the
  rest of their element; the loop ends at the first error.\<close>

fun loadHardware :: "timeval \<Rightarrow> bytes \<Rightarrow> (string \<times> UDINT) list \<Rightarrow> io_manager \<Rightarrow> UDINT \<times> io_manager" where
  "loadHardware now g [] mg = (TRITONN_RESULT_OK, mg)"
| "loadHardware now g ((name, loaded) # ms) mg =
     (if name = '''' then (DATACFGERR_HARDWARE_MODULE_IS_EMPTY, mg)
      else case addModule now g name mg of
        Inl e \<Rightarrow> (e, mg)
      | Inr mg1 \<Rightarrow> if loaded \<noteq> TRITONN_RESULT_OK then (loaded, mg1) else loadHardware now g ms mg1)"

definition getModuleInterface :: "io_manager \<Rightarrow> USINT \<Rightarrow> module_type \<Rightarrow> io_object option" where
  "getModuleInterface mg num t =
     (if unat num \<ge> length (io_modules mg) then None
      else if getType (io_modules mg ! unat num) \<noteq> t \<and> t \<noteq> MT_UNDEF then None
      else Some (io_modules mg ! unat num))"

section \<open>One cycle\<close>

record io_env =
  ie_sim :: bool
  ie_can :: can_link
  ie_sin :: "lreal \<Rightarrow> lreal"
  ie_ub :: UINT
  ie_now :: timeval
  ie_rnd :: "USINT \<Rightarrow> int"
  ie_frnd :: int
  ie_stack :: bytes

definition with_obj :: "('m \<Rightarrow> io_object) \<Rightarrow> 'm \<times> UDINT \<times> cevent list \<Rightarrow> io_object \<times> UDINT \<times> cevent list \<times> can_command list" where
  "with_obj C r = (case r of (m, res, ev) \<Rightarrow> (C m, res, ev, []))"

fun obj_processing :: "io_env \<Rightarrow> io_object \<Rightarrow> io_object \<times> UDINT \<times> cevent list \<times> can_command list" where
  "obj_processing e (M_CPU m) = with_obj M_CPU (cpu_processing (ie_can e) (ie_sim e) m)"
| "obj_processing e (M_AI6a m) =
     (case ai6a_processing (ie_can e) (ie_sin e) (ie_ub e) (ie_rnd e) (ie_stack e) (ie_sim e) m of (m1, res, ev, out) \<Rightarrow> (M_AI6a m1, res, ev, out))"
| "obj_processing e (M_AI6p m) = with_obj M_AI6p (ai6p_processing (ie_can e) (ie_sin e) (ie_ub e) (ie_rnd e) (ie_sim e) m)"
| "obj_processing e (M_AO4 m) = with_obj M_AO4 (ao4_processing (ie_can e) (ie_sim e) m)"
| "obj_processing e (M_DI16 m) = with_obj M_DI16 (di16_processing (ie_can e) (ie_sim e) (ie_now e) (ie_rnd e) m)"
| "obj_processing e (M_DO16 m) = with_obj M_DO16 (do16_processing (ie_can e) (ie_sim e) (ie_now e) m)"
| "obj_processing e (M_DI8DO8 m) = with_obj M_DI8DO8 (dido_processing (ie_can e) (ie_sim e) (ie_now e) (ie_rnd e) m)"
| "obj_processing e (M_FI4 m) = with_obj M_FI4 (fi4_processing (ie_can e) (ie_sin e) (ie_ub e) (ie_now e) (ie_rnd e) (ie_sim e) m)"
| "obj_processing e (M_CRM m) = with_obj M_CRM (crm_processing (ie_can e) (ie_sin e) (ie_ub e) (ie_sim e) (ie_now e) (ie_rnd e) (ie_frnd e) m)"

text \<open>The first module that fails stops the round; its code halts the program.\<close>

fun manager_round :: "(nat \<Rightarrow> io_env) \<Rightarrow> nat \<Rightarrow> io_object list \<Rightarrow> io_object list \<times> UDINT option \<times> cevent list \<times> can_command list" where
  "manager_round env k [] = ([], None, [], [])"
| "manager_round env k (m # ms) =
     (case obj_processing (env k) m of (m1, res, ev, out) \<Rightarrow>
        if res \<noteq> TRITONN_RESULT_OK then (m1 # ms, Some res, ev, out)
        else (case manager_round env (Suc k) ms of (ms', halt, ev', out') \<Rightarrow> (m1 # ms', halt, ev @ ev', out @ out')))"

text \<open>The access of a data object: \<^verbatim>\<open>getValue\<close> and \<^verbatim>\<open>setValue\<close> of whatever module it is.\<close>

fun obj_getValue :: "io_object \<Rightarrow> USINT \<Rightarrow> channel_type \<Rightarrow> UDINT \<Rightarrow> UDINT \<times> UDINT" where
  "obj_getValue (M_CPU m) = cpu_getValue m"
| "obj_getValue (M_AI6a m) = ai6_getValue (ai6a_channel m)"
| "obj_getValue (M_AI6p m) = ai6_getValue (ai6p_channel m)"
| "obj_getValue (M_AO4 m) = ao4_getValue m"
| "obj_getValue (M_DI16 m) = di16_getValue m"
| "obj_getValue (M_DO16 m) = do16_getValue m"
| "obj_getValue (M_DI8DO8 m) = dido_getValue m"
| "obj_getValue (M_FI4 m) = fi4_getValue m"
| "obj_getValue (M_CRM m) = crm_getValue m"

fun obj_setValue :: "io_object \<Rightarrow> USINT \<Rightarrow> channel_type \<Rightarrow> UDINT \<Rightarrow> io_object \<times> UDINT" where
  "obj_setValue (M_CPU m) n t v = (case cpu_setValue m n t v of (m1, r) \<Rightarrow> (M_CPU m1, r))"
| "obj_setValue (M_AI6a m) n t v = (case ai6_setValue m n t v of (m1, r) \<Rightarrow> (M_AI6a m1, r))"
| "obj_setValue (M_AI6p m) n t v = (case ai6_setValue m n t v of (m1, r) \<Rightarrow> (M_AI6p m1, r))"
| "obj_setValue (M_AO4 m) n t v = (case ao4_setValue m n t v of (m1, r) \<Rightarrow> (M_AO4 m1, r))"
| "obj_setValue (M_DI16 m) n t v = (case di16_setValue m n t v of (m1, r) \<Rightarrow> (M_DI16 m1, r))"
| "obj_setValue (M_DO16 m) n t v = (case do16_setValue m n t v of (m1, r) \<Rightarrow> (M_DO16 m1, r))"
| "obj_setValue (M_DI8DO8 m) n t v = (case dido_setValue m n t v of (m1, r) \<Rightarrow> (M_DI8DO8 m1, r))"
| "obj_setValue (M_FI4 m) n t v = (case fi4_setValue m n t v of (m1, r) \<Rightarrow> (M_FI4 m1, r))"
| "obj_setValue (M_CRM m) n t v = (case crm_setValue m n t v of (m1, r) \<Rightarrow> (M_CRM m1, r))"

section \<open>Numbers of the modules\<close>

definition all_names :: "(string \<times> module_type) list" where
  "all_names = (''cpu'', MT_CPU) # module_names"

definition same_type :: "module_type \<Rightarrow> io_object list \<Rightarrow> nat" where
  "same_type t ms = length (filter (\<lambda>m. getType m = t) ms)"

lemma same_type_simps [simp]:
  "same_type t [] = 0" "same_type t (ms @ [m]) = same_type t ms + (if getType m = t then 1 else 0)"
  by (simp_all add: same_type_def)

definition io_inv :: "io_manager \<Rightarrow> bool" where
  "io_inv mg \<longleftrightarrow> (\<forall>(n, t) \<in> set all_names. io_maxmap mg n = of_nat (same_type t (io_modules mg)))
     \<and> (\<forall>i < length (io_modules mg). md_ID (obj_base (io_modules mg ! i))
           = of_nat (same_type (getType (io_modules mg ! i)) (take i (io_modules mg))))
     \<and> (\<forall>i < length (io_modules mg). getType (io_modules mg ! i) = MT_CPU \<longleftrightarrow> i = 0)"

lemma new_module_type:
  "new_module now g t n = Some x \<Longrightarrow> getType x = t \<and> md_ID (obj_base x) = ucast n"
  by (cases t)
    (auto simp: getType_def cpu_new_def ai6a_new_def ai6p_new_def ao4_new_def di16_new_def do16_new_def dido_new_def
      fi4_new_def crm_new_def setModule_def base_module_def)

lemma new_module_ex: "t \<noteq> MT_UNDEF \<Longrightarrow> \<exists>x. new_module now g t n = Some x"
  by (cases t) auto

lemma all_names_unique: "(n, t) \<in> set all_names \<Longrightarrow> (n', t') \<in> set all_names \<Longrightarrow> n = n' \<longleftrightarrow> t = t'"
  by (auto simp: all_names_def module_names_def)

lemma ucast_of_nat_8: "ucast (of_nat k :: 32 word) = (of_nat k :: 8 word)"
  by (simp add: unsigned_of_nat word_of_nat_eq_iff)

lemma io_push_inv:
  assumes "io_inv mg" "(name, t) \<in> set all_names" "new_module now g t (io_maxmap mg name) = Some x"
    "t = MT_CPU \<longleftrightarrow> io_modules mg = []"
  shows "io_inv (io_push name (new_module now g t (io_maxmap mg name)) mg)"
proof -
  let ?ms = "io_modules mg"
  have x: "getType x = t" "md_ID (obj_base x) = ucast (io_maxmap mg name)" using new_module_type [OF assms(3)] by auto
  have cnt: "io_maxmap mg n = of_nat (same_type t' ?ms)" if "(n, t') \<in> set all_names" for n t'
    using assms(1) that by (auto simp: io_inv_def)
  have num: "md_ID (obj_base x) = of_nat (same_type t ?ms)" unfolding x(2) cnt [OF assms(2)] by (rule ucast_of_nat_8)
  let ?mg = "\<lparr>io_modules = ?ms @ [x], io_maxmap = (io_maxmap mg)(name := io_maxmap mg name + 1)\<rparr>"
  have a: "io_maxmap ?mg n = of_nat (same_type t' (io_modules ?mg))" if "(n, t') \<in> set all_names" for n t'
    using cnt [OF that] cnt [OF assms(2)] all_names_unique [OF that assms(2)] x(1) by (auto simp: add.commute)
  have b: "md_ID (obj_base (io_modules ?mg ! i)) = of_nat (same_type (getType (io_modules ?mg ! i)) (take i (io_modules ?mg)))"
    if "i < length (io_modules ?mg)" for i
    using assms(1) that num x(1) by (auto simp: io_inv_def nth_append less_Suc_eq)
  have c: "getType (io_modules ?mg ! i) = MT_CPU \<longleftrightarrow> i = 0" if "i < length (io_modules ?mg)" for i
    using assms(1,4) that x(1) by (auto simp: io_inv_def nth_append less_Suc_eq)
  have "io_push name (new_module now g t (io_maxmap mg name)) mg = ?mg" unfolding assms(3) by (simp add: io_push_def)
  moreover have "io_inv mg'" if "\<And>n t'. (n, t') \<in> set all_names \<Longrightarrow> io_maxmap mg' n = of_nat (same_type t' (io_modules mg'))"
    "\<And>i. i < length (io_modules mg') \<Longrightarrow>
      md_ID (obj_base (io_modules mg' ! i)) = of_nat (same_type (getType (io_modules mg' ! i)) (take i (io_modules mg')))"
    "\<And>i. i < length (io_modules mg') \<Longrightarrow> getType (io_modules mg' ! i) = MT_CPU \<longleftrightarrow> i = 0" for mg'
    using that by (auto simp: io_inv_def)
  ultimately show ?thesis using a b c by (simp only:)
qed

lemma addModule_inv: "io_inv mg \<Longrightarrow> addModule now g name mg = Inr mg' \<Longrightarrow> io_inv mg'"
proof -
  assume inv: "io_inv mg" and add: "addModule now g name mg = Inr mg'"
  have "name = ''cpu'' \<and> io_modules mg = [] \<or> (\<exists>t. name \<noteq> ''cpu'' \<and> io_modules mg \<noteq> [] \<and> map_of module_names name = Some t)"
    using add by (auto simp: addModule_def split: if_splits option.splits)
  then obtain t where t: "(name, t) \<in> set all_names" "t = MT_CPU \<longleftrightarrow> io_modules mg = []" "t \<noteq> MT_UNDEF"
    "mg' = io_push name (new_module now g t (io_maxmap mg name)) mg"
  proof (elim disjE exE conjE)
    assume "name = ''cpu''" "io_modules mg = []"
    then show ?thesis using add that [of MT_CPU] by (simp add: addModule_def all_names_def)
  next
    fix t assume a: "name \<noteq> ''cpu''" "io_modules mg \<noteq> []" "map_of module_names name = Some t"
    have "(name, t) \<in> set module_names" using a(3) by (rule map_of_SomeD)
    moreover have "\<forall>r \<in> set module_names. snd r \<noteq> MT_CPU \<and> snd r \<noteq> MT_UNDEF" by (simp add: module_names_def)
    ultimately show ?thesis using add a that [of t] by (auto simp: addModule_def all_names_def)
  qed
  obtain x where "new_module now g t (io_maxmap mg name) = Some x" using new_module_ex [OF t(3)] by blast
  then show ?thesis using io_push_inv [OF inv t(1) _ t(2)] unfolding t(4) by blast
qed

lemma loadHardware_inv: "io_inv mg \<Longrightarrow> io_inv (snd (loadHardware now g ms mg))"
  by (induction now g ms mg rule: loadHardware.induct)
    (auto simp: addModule_inv split: sum.split)

lemma io_inv_empty: "io_inv \<lparr>io_modules = [], io_maxmap = \<lambda>_. 0\<rparr>"
  by (simp add: io_inv_def)

lemma same_type_take_mono: "i \<le> j \<Longrightarrow> same_type t (take i ms) \<le> same_type t (take j ms)"
proof -
  assume "i \<le> j"
  then have "take j ms = take i ms @ drop i (take j ms)" by (metis append_take_drop_id min.absorb1 take_take)
  then have "filter (\<lambda>m. getType m = t) (take j ms)
      = filter (\<lambda>m. getType m = t) (take i ms) @ filter (\<lambda>m. getType m = t) (drop i (take j ms))"
    by (metis filter_append)
  then show ?thesis by (simp add: same_type_def)
qed

lemma same_type_bound: "same_type t (take i ms) \<le> length ms"
  unfolding same_type_def by (rule le_trans [OF length_filter_le]) simp

lemma same_type_grows:
  assumes "i < j" "j < length ms" "getType (ms ! i) = t"
  shows "same_type t (take i ms) < same_type t (take j ms)"
proof -
  have "same_type t (take (Suc i) ms) \<le> same_type t (take j ms)" by (rule same_type_take_mono) (use assms(1) in simp)
  then show ?thesis using assms by (simp add: take_Suc_conv_app_nth)
qed

text \<open>
  The modules of a configuration are numbered without gaps. Whatever names the configuration lists and
  whatever goes wrong while they are read, the modules the manager holds afterwards begin with the processor's
  module and have no other one; each bears as its number how many modules of its own type come before it; so
  with at most 256 modules no two have both type and number in common, and each is handed out under its
  position exactly to those who ask for its type or for any.
\<close>

theorem modules_numbered:
  assumes "snd (loadHardware now g ms \<lparr>io_modules = [], io_maxmap = \<lambda>_. 0\<rparr>) = mg" "length (io_modules mg) \<le> 256" "i < length (io_modules mg)"
  shows "(getType (io_modules mg ! i) = MT_CPU \<longleftrightarrow> i = 0)
    \<and> unat (md_ID (obj_base (io_modules mg ! i))) = same_type (getType (io_modules mg ! i)) (take i (io_modules mg))
    \<and> (\<forall>j < i. \<not> (getType (io_modules mg ! j) = getType (io_modules mg ! i)
          \<and> md_ID (obj_base (io_modules mg ! j)) = md_ID (obj_base (io_modules mg ! i))))
    \<and> getModuleInterface mg (of_nat i) t = (if t \<in> {MT_UNDEF, getType (io_modules mg ! i)} then Some (io_modules mg ! i) else None)"
proof -
  let ?ms = "io_modules mg" and ?n = "\<lambda>k. same_type (getType (io_modules mg ! k)) (take k (io_modules mg))"
  have inv: "io_inv mg" using loadHardware_inv [OF io_inv_empty, of now g ms] assms(1) by simp
  have small: "?n k < 256" if "k < length ?ms" for k
  proof -
    have "?n k \<le> k" unfolding same_type_def by (rule le_trans [OF length_filter_le]) simp
    with that assms(2) show ?thesis by linarith
  qed
  have num: "unat (md_ID (obj_base (?ms ! k))) = ?n k" if "k < length ?ms" for k
    using inv that small [OF that] by (simp add: io_inv_def unat_of_nat)
  have "\<not> (getType (?ms ! j) = getType (?ms ! i) \<and> md_ID (obj_base (?ms ! j)) = md_ID (obj_base (?ms ! i)))" if "j < i" for j
  proof
    assume a: "getType (?ms ! j) = getType (?ms ! i) \<and> md_ID (obj_base (?ms ! j)) = md_ID (obj_base (?ms ! i))"
    have "?n j < ?n i" using same_type_grows [OF that assms(3), of "getType (?ms ! i)"] a by simp
    then show False using num [of i] num [of j] a that assms(3) by simp
  qed
  moreover have "unat (of_nat i :: USINT) = i" using assms(2,3) by (simp add: unat_of_nat)
  then have "getModuleInterface mg (of_nat i) t = (if t \<in> {MT_UNDEF, getType (?ms ! i)} then Some (?ms ! i) else None)"
    using assms(3) by (auto simp: getModuleInterface_def)
  moreover have "getType (?ms ! i) = MT_CPU \<longleftrightarrow> i = 0" using inv assms(3) by (simp add: io_inv_def)
  ultimately show ?thesis using num [OF assms(3)] by blast
qed

theorem modules_numbered_witness:
  "unat (md_ID (obj_base (io_modules (snd (loadHardware \<lparr>sec = 0, usec = 0\<rparr> [] [(''cpu'', 0), (''di16'', 0), (''crm'', 0), (''di16'', 0), (''cpu'', 0)]
     \<lparr>io_modules = [], io_maxmap = \<lambda>_. 0\<rparr>)) ! 3))) = 1"
proof -
  let ?t = "\<lparr>sec = 0, usec = 0\<rparr>"
  let ?mg = "snd (loadHardware ?t [] [(''cpu'', 0), (''di16'', 0), (''crm'', 0), (''di16'', 0), (''cpu'', 0)] \<lparr>io_modules = [], io_maxmap = \<lambda>_. 0\<rparr>)"
  have ms: "io_modules ?mg = [M_CPU (cpu_new 0 []), M_DI16 (di16_new ?t 0 []), M_CRM (crm_new ?t 0 []), M_DI16 (di16_new ?t 1 [])]"
    by (simp add: addModule_def module_names_def io_push_def TRITONN_RESULT_OK_def)
  have "same_type (getType (io_modules ?mg ! 3)) (take 3 (io_modules ?mg)) = 1"
    unfolding ms by (simp add: same_type_def getType_def cpu_new_def di16_new_def crm_new_def setModule_def base_module_def)
  then show ?thesis using modules_numbered [of ?t "[]" _ ?mg 3, OF refl] unfolding ms by simp
qed

section \<open>Channels and their types\<close>

fun obj_kind :: "module_type \<Rightarrow> nat \<Rightarrow> channel_type option" where
  "obj_kind MT_AI6a = kind_of AI6_COUNT CT_AI"
| "obj_kind MT_AI6p = kind_of AI6_COUNT CT_AI"
| "obj_kind MT_AO4 = kind_of AO4_COUNT CT_AO"
| "obj_kind MT_DI16 = di16_kind"
| "obj_kind MT_DO16 = do16_kind"
| "obj_kind MT_DI8DO8 = dido_kind"
| "obj_kind MT_FI4 = kind_of FI4_COUNT CT_FI"
| "obj_kind MT_CRM = crm_kind"
| "obj_kind _ = (\<lambda>_. None)"

fun obj_good :: "io_object \<Rightarrow> bool" where
  "obj_good (M_CPU m) = (md_type m = MT_CPU)"
| "obj_good (M_AI6a m) = (ai6_good (ai6a_channel m) \<and> md_type (ai6a_base m) = MT_AI6a)"
| "obj_good (M_AI6p m) = (ai6_good (ai6p_channel m) \<and> md_type (ai6p_base m) = MT_AI6p)"
| "obj_good (M_AO4 m) = (ao4_good m \<and> md_type (ao4_base m) = MT_AO4)"
| "obj_good (M_DI16 m) = di16_good m"
| "obj_good (M_DO16 m) = do16_good m"
| "obj_good (M_DI8DO8 m) = dido_good m"
| "obj_good (M_FI4 m) = (fi4_good m \<and> md_type (fi4_base m) = MT_FI4)"
| "obj_good (M_CRM m) = crm_good m"

lemma good_types:
  "di16_good a \<Longrightarrow> md_type (di16_base a) = MT_DI16" "do16_good b \<Longrightarrow> md_type (do16_base b) = MT_DO16"
  "dido_good c \<Longrightarrow> md_type (dido_base c) = MT_DI8DO8" "crm_good d \<Longrightarrow> md_type (crm_base d) = MT_CRM"
  by (simp_all add: di16_good_def do16_good_def dido_good_def crm_good_def base_good_def)

lemma base_types [simp]:
  "md_type (ai6a_base (fst (ai6a_processing can csin ub rnd g issim a))) = md_type (ai6a_base a)"
  "md_type (ai6p_base (fst (ai6p_processing can csin ub rnd issim p))) = md_type (ai6p_base p)"
  "md_type (ao4_base (fst (ao4_processing can issim q))) = md_type (ao4_base q)"
  "md_type (fi4_base (fst (fi4_processing can csin ub now rnd issim f))) = md_type (fi4_base f)"
  by (simp_all add: ai6a_processing_def ai6p_processing_def ao4_processing_def fi4_processing_def pull_def case_prod_beta Let_def)

lemma new_types:
  "md_type (ai6a_base (ai6a_new n g)) = MT_AI6a" "md_type (ai6p_base (ai6p_new n g)) = MT_AI6p"
  "md_type (ao4_base (ao4_new n g)) = MT_AO4" "md_type (fi4_base (fi4_new now n g)) = MT_FI4" "md_type (cpu_new n g) = MT_CPU"
  by (simp_all add: ai6a_new_def ai6p_new_def ao4_new_def fi4_new_def cpu_new_def setModule_def base_module_def)

lemma obj_good_new: "new_module now g t n = Some x \<Longrightarrow> obj_good x"
  by (cases t) (auto simp: good_new crm_good_new analog_new_good new_types)

lemma obj_good_processing: "obj_good m \<Longrightarrow> keeps_length (ie_can e) \<Longrightarrow> obj_good (fst (obj_processing e m))"
  by (cases m) (simp_all add: with_obj_def case_prod_beta cpu_processing_def analog_cycle_good cycle_good crm_cycle_good)

lemma obj_good_set: "obj_good m \<Longrightarrow> obj_good (fst (obj_setValue m n t v))"
proof (cases m)
  case (M_AO4 q)
  assume "obj_good m"
  then show ?thesis using M_AO4 ao4.put_good [of q n t v] by (simp add: case_prod_beta ao4_setValue_def Let_def)
next
  case (M_DO16 q)
  assume "obj_good m"
  then show ?thesis using M_DO16 do16.put_good [of q n t v] by (simp add: case_prod_beta)
next
  case (M_DI8DO8 q)
  assume "obj_good m"
  then show ?thesis using M_DI8DO8 dido.put_good [of q n t v] by (simp add: case_prod_beta)
qed (simp_all add: cpu_setValue_def ai6_setValue_def di16_setValue_def fi4_setValue_def crm_setValue_def)

text \<open>The lists of modules the program can have: loaded, after rounds, after values were set.\<close>

inductive io_reach :: "io_object list \<Rightarrow> bool" where
  load: "io_reach (io_modules (snd (loadHardware now g ms \<lparr>io_modules = [], io_maxmap = \<lambda>_. 0\<rparr>)))"
| cycle: "io_reach ms \<Longrightarrow> (\<And>k. keeps_length (ie_can (env k))) \<Longrightarrow> io_reach (fst (manager_round env 0 ms))"
| assign: "io_reach ms \<Longrightarrow> i < length ms \<Longrightarrow> io_reach (ms[i := fst (obj_setValue (ms ! i) n t v)])"

lemma addModule_good: "addModule now g name mg = Inr mg' \<Longrightarrow> list_all obj_good (io_modules mg) \<Longrightarrow> list_all obj_good (io_modules mg')"
  by (auto simp: addModule_def io_push_def obj_good_new new_types split: if_splits option.splits)

lemma loadHardware_good: "list_all obj_good (io_modules mg) \<Longrightarrow> list_all obj_good (io_modules (snd (loadHardware now g ms mg)))"
  by (induction now g ms mg rule: loadHardware.induct) (auto simp: addModule_good split: sum.split)

lemma manager_round_good:
  "(\<And>k. keeps_length (ie_can (env k))) \<Longrightarrow> list_all obj_good ms \<Longrightarrow> list_all obj_good (fst (manager_round env k ms))"
  by (induction ms arbitrary: k) (simp_all add: case_prod_beta obj_good_processing)

lemma io_reach_good: "io_reach ms \<Longrightarrow> list_all obj_good ms"
proof (induction rule: io_reach.induct)
  case (assign ms i n t v)
  then show ?case by (auto simp: list_all_length nth_list_update_if obj_good_set)
qed (simp_all add: loadHardware_good manager_round_good)

lemma no_value [simp]:
  "snd (cpu_getValue m n t f) \<noteq> TRITONN_RESULT_OK" "snd (cpu_setValue m n t v) \<noteq> TRITONN_RESULT_OK"
  "snd (ai6_setValue cs n t v) \<noteq> TRITONN_RESULT_OK" "snd (di16_setValue a n t v) \<noteq> TRITONN_RESULT_OK"
  "snd (fi4_setValue b n t v) \<noteq> TRITONN_RESULT_OK" "snd (crm_setValue c n t v) \<noteq> TRITONN_RESULT_OK"
  by (simp_all add: cpu_getValue_def cpu_setValue_def ai6_setValue_def di16_setValue_def fi4_setValue_def crm_setValue_def module_codes)

lemma obj_getValue_code:
  "obj_good m \<Longrightarrow> snd (obj_getValue m n t TRITONN_RESULT_OK) = TRITONN_RESULT_OK \<longleftrightarrow> obj_kind (getType m) (unat n) = Some t"
  by (cases m)
    (simp_all add: getType_def good_types ai6.look_ok ao4.look_ok fi4.look_ok di16.look_ok do16.look_ok dido.look_ok crm.look_ok)

lemma set_codes:
  "ao4_good a \<Longrightarrow> snd (ao4_setValue a n t v) = TRITONN_RESULT_OK \<longleftrightarrow> kind_of AO4_COUNT CT_AO (unat n) = Some t"
  "do16_good b \<Longrightarrow> snd (do16_setValue b n t v) = TRITONN_RESULT_OK \<longleftrightarrow> do16_kind (unat n) = Some t"
  "dido_good c \<Longrightarrow> snd (dido_setValue c n t v) = TRITONN_RESULT_OK \<longleftrightarrow> dido_kind (unat n) = Some t \<and> t = CT_DO"
proof -
  show "ao4_good a \<Longrightarrow> snd (ao4_setValue a n t v) = TRITONN_RESULT_OK \<longleftrightarrow> kind_of AO4_COUNT CT_AO (unat n) = Some t"
    by (auto simp: ao4_good_def all_type_def kind_of_def ao4_setValue_def access_uniform module_codes Let_def)
  show "do16_good b \<Longrightarrow> snd (do16_setValue b n t v) = TRITONN_RESULT_OK \<longleftrightarrow> do16_kind (unat n) = Some t"
    by (auto simp: do16_good_def do16_kind_def do16_setValue_def placed_def do_at_def module_codes)
  show "dido_good c \<Longrightarrow> snd (dido_setValue c n t v) = TRITONN_RESULT_OK \<longleftrightarrow> dido_kind (unat n) = Some t \<and> t = CT_DO"
    by (auto simp: dido_kind_def dido_setValue_def dido_kind_at CHANNEL_DI_COUNT_def CHANNEL_DO_COUNT_def module_codes Let_def)
qed

lemma input_kinds:
  "kind_of AI6_COUNT CT_AI n \<noteq> Some CT_DO" "kind_of AI6_COUNT CT_AI n \<noteq> Some CT_AO" "di16_kind n \<noteq> Some CT_DO" "di16_kind n \<noteq> Some CT_AO"
  "kind_of FI4_COUNT CT_FI n \<noteq> Some CT_DO" "kind_of FI4_COUNT CT_FI n \<noteq> Some CT_AO" "crm_kind n \<noteq> Some CT_DO" "crm_kind n \<noteq> Some CT_AO"
  by (simp_all add: kind_of_def di16_kind_def crm_kind_def)

lemma output_kinds:
  "kind_of AO4_COUNT CT_AO n = Some t \<Longrightarrow> t = CT_AO" "do16_kind n = Some t \<Longrightarrow> t = CT_DO" "dido_kind n = Some t \<Longrightarrow> t \<in> {CT_DI, CT_DO}"
  by (simp_all add: kind_of_def do16_kind_def dido_kind_def split: if_splits)

lemma obj_setValue_code:
  "obj_good m \<Longrightarrow> snd (obj_setValue m n t v) = TRITONN_RESULT_OK
    \<longleftrightarrow> obj_kind (getType m) (unat n) = Some t \<and> t \<in> {CT_DO, CT_AO}"
  by (cases m) (auto simp: getType_def good_types set_codes input_kinds case_prod_beta dest: output_kinds)

text \<open>
  C37. No channel is ever used as one of another type. In every list of modules the program can have, loaded
  from any configuration, after any rounds of the manager and any writes, a data object that asks a module
  for a channel gets no fault exactly when the module has that channel and it is of the type asked for; and
  it writes without an error exactly when the channel is moreover an output, a refused write changing nothing.
\<close>

theorem channel_access_typed:
  assumes "io_reach ms" "m \<in> set ms"
  shows "(snd (obj_getValue m n t TRITONN_RESULT_OK) = TRITONN_RESULT_OK \<longleftrightarrow> obj_kind (getType m) (unat n) = Some t)
    \<and> (snd (obj_setValue m n t v) = TRITONN_RESULT_OK \<longleftrightarrow> obj_kind (getType m) (unat n) = Some t \<and> t \<in> {CT_DO, CT_AO})
    \<and> (snd (obj_setValue m n t v) \<noteq> TRITONN_RESULT_OK \<longrightarrow> fst (obj_setValue m n t v) = m)"
proof -
  have good: "obj_good m" using io_reach_good [OF assms(1)] assms(2) by (simp add: list_all_iff)
  have "snd (obj_setValue m n t v) \<noteq> TRITONN_RESULT_OK \<longrightarrow> fst (obj_setValue m n t v) = m"
    using good ao4.put_refused do16.put_refused dido.put_refused
    by (cases m) (auto simp: case_prod_beta cpu_setValue_def ai6_setValue_def di16_setValue_def fi4_setValue_def crm_setValue_def)
  then show ?thesis using obj_getValue_code [OF good] obj_setValue_code [OF good] by blast
qed

theorem channel_access_typed_witness:
  "snd (obj_setValue (M_DI8DO8 (dido_new \<lparr>sec = 0, usec = 0\<rparr> 0 [])) 9 CT_DO 1) = TRITONN_RESULT_OK
    \<and> snd (obj_setValue (M_DI8DO8 (dido_new \<lparr>sec = 0, usec = 0\<rparr> 0 [])) 3 CT_DI 1) \<noteq> TRITONN_RESULT_OK"
proof -
  let ?t = "\<lparr>sec = 0, usec = 0\<rparr>" and ?m = "M_DI8DO8 (dido_new \<lparr>sec = 0, usec = 0\<rparr> 0 [])"
  have "io_modules (snd (loadHardware ?t [] [(''cpu'', 0), (''di8do8'', 0)] \<lparr>io_modules = [], io_maxmap = \<lambda>_. 0\<rparr>)) = [M_CPU (cpu_new 0 []), ?m]"
    by (simp add: addModule_def module_names_def io_push_def TRITONN_RESULT_OK_def)
  then have "io_reach [M_CPU (cpu_new 0 []), ?m]" using io_reach.load [of ?t "[]" "[(''cpu'', 0), (''di8do8'', 0)]"] by simp
  note typed = channel_access_typed [OF this, of ?m]
  have "getType ?m = MT_DI8DO8" by (simp add: getType_def good_types good_new)
  then show ?thesis using typed [of 9 CT_DO 1] typed [of 3 CT_DI 1]
    by (simp add: dido_kind_def CHANNEL_DI_COUNT_def CHANNEL_DO_COUNT_def)
qed

end
