(* ===== verification/Network.thy ===== *)
theory Network
  imports Source "HOL-Library.Monad_Syntax"
begin

text \<open>
  How the data objects of a configuration calculate each other: \<^verbatim>\<open>rSource::calculate\<close>,
  \<^verbatim>\<open>getValue\<close>, \<^verbatim>\<open>getValueUnit\<close>, \<^verbatim>\<open>preCalculate\<close> and \<^verbatim>\<open>postCalculate\<close> of
  \<^verbatim>\<open>src/tritonn/data/source.cpp\<close>, the resolution of the links of
  \<^verbatim>\<open>src/tritonn/data_config.cpp\<close> and the scan of \<^verbatim>\<open>rDataManager::Proccesing\<close>. An object is
  a node of a list and a link names its source by the index. What a class does behind
  \<^verbatim>\<open>rSource::calculate\<close> is an argument here, the virtual function; the locale \<open>bodies\<close> is the
  contract it keeps. An object asks the objects behind its links to calculate first, so the
  calculation is recursive; it is written with fuel, and one more than the number of
  objects is shown to be enough, whatever cycles the links form.
\<close>

section \<open>Objects\<close>

record slink =
  sl_link :: rLink
  sl_source :: "nat option"

text \<open>An entry of \<^verbatim>\<open>m_outputs\<close> points to an own output or, for \<^verbatim>\<open>INOUTPUT\<close> links, to an input.\<close>

datatype outref = O_in nat | O_own rLink

record 'd node =
  n_alias :: string
  n_ID :: UDINT
  n_descr :: UDINT
  n_isCalc :: bool
  n_fault :: UDINT
  n_lockErr :: UDINT
  n_inputs :: "slink list"
  n_outputs :: "outref list"
  n_data :: 'd

type_synonym 'd net = "'d node list"

text \<open>
  What a scan does: an object's own calculation, the events sent, the halts of the program it asks
  for (with the error), and the values given to channels (module, channel, value).
\<close>

datatype act = Ran nat | Sent cevent | Halt UDINT | Wrote USINT USINT UDINT

type_synonym 'd calc = "nat \<Rightarrow> 'd net \<Rightarrow> ('d net \<times> act list) option"

text \<open>\<open>ne_oob\<close> and \<open>ne_base\<close> stand for memory the unit conversion reads uninitialised.\<close>

record net_env =
  ne_oob :: "lreal \<times> lreal"
  ne_base :: lreal

definition XmlName_FAULT :: string where "XmlName_FAULT = ''fault''"

fun out_link :: "'d node \<Rightarrow> outref \<Rightarrow> rLink" where
  "out_link n (O_in k) = sl_link (n_inputs n ! k)"
| "out_link n (O_own l) = l"

definition in_value :: "'d node \<Rightarrow> nat \<Rightarrow> lreal" where
  "in_value n k = l_value (sl_link (n_inputs n ! k))"

definition set_input :: "nat \<Rightarrow> rLink \<Rightarrow> 'd node \<Rightarrow> 'd node" where
  "set_input k l n = n\<lparr>n_inputs := (n_inputs n)[k := (n_inputs n ! k)\<lparr>sl_link := l\<rparr>]\<rparr>"

definition upd :: "nat \<Rightarrow> ('d node \<Rightarrow> 'd node) \<Rightarrow> 'd net \<Rightarrow> 'd net" where
  "upd i f ns = ns[i := f (ns ! i)]"

section \<open>Reading another object\<close>

definition getOutputByName :: "'d node \<Rightarrow> string \<Rightarrow> rLink option" where
  "getOutputByName n name = (case n_outputs n of [] \<Rightarrow> None
     | out # _ \<Rightarrow> if name = [] then Some (out_link n out)
         else find (\<lambda>l. name = l_ioName l) (List.map (out_link n) (n_outputs n)))"

definition send_latched :: "nat \<Rightarrow> UDINT \<Rightarrow> cevent \<Rightarrow> 'd net \<Rightarrow> 'd net \<times> act list" where
  "send_latched j flag ev ns = (case sendEventSetLE flag ev (n_lockErr (ns ! j)) of (_, le, evs) \<Rightarrow>
     (upd j (n_lockErr_update (\<lambda>_. le)) ns, List.map Sent evs))"

definition nevent :: "'d node \<Rightarrow> UDINT \<Rightarrow> cevent" where
  "nevent n eid = reinitEvent (n_ID n) (n_descr n) eid"

text \<open>\<^verbatim>\<open>getValue\<close> behind its call of \<^verbatim>\<open>calculate\<close>: value, error, and what it changes.\<close>

definition read_output :: "net_env \<Rightarrow> nat \<Rightarrow> string \<Rightarrow> UDINT \<Rightarrow> 'd net \<Rightarrow> lreal \<times> UDINT \<times> 'd net \<times> act list" where
  "read_output ne j name unit ns = (let n = ns ! j in
     if name = XmlName_FAULT then (lreal_of_word (n_fault n), 0, ns, [])
     else case getOutputByName n name of
       None \<Rightarrow> (case send_latched j SOURCE_LE_OUTPUT (ev_add (nevent n EID_SYSTEM_ERROUTVAL) (P_STRID unit)) ns of
                 (ns1, a) \<Rightarrow> (NaN, 1, ns1, a))
     | Some l \<Rightarrow> (case ConvertValue (ne_oob ne) (ne_base ne) (l_value l) (l_unit l) unit of (err, v) \<Rightarrow>
         if err = U_NONE then (v, 0, ns, [])
         else case send_latched j SOURCE_LE_UNIT
                (ev_adds (nevent n EID_SYSTEM_ERRUNIT) [P_STRID (l_unit l), P_STRID unit]) ns of
            (ns1, a) \<Rightarrow> (v, unit_error_code err, ns1, a)))"

definition source_getValue :: "net_env \<Rightarrow> 'd calc \<Rightarrow> nat \<Rightarrow> string \<Rightarrow> UDINT \<Rightarrow> 'd net
    \<Rightarrow> (lreal \<times> UDINT \<times> 'd net \<times> act list) option" where
  "source_getValue ne c j name unit ns = do {
     (ns1, a) \<leftarrow> (if \<not> n_isCalc (ns ! j) then c j ns else Some (ns, []));
     (case read_output ne j name unit ns1 of (v, err, ns2, b) \<Rightarrow> Some (v, err, ns2, a @ b)) }"

definition source_getValueUnit :: "nat \<Rightarrow> string \<Rightarrow> 'd net \<Rightarrow> UDINT \<times> 'd net \<times> act list" where
  "source_getValueUnit j name ns = (case getOutputByName (ns ! j) name of
     Some l \<Rightarrow> (l_unit l, ns, [])
   | None \<Rightarrow> (0xFFFFFFFF, send_latched j SOURCE_LE_OUTPUT (nevent (ns ! j) EID_SYSTEM_ERROUTPUT) ns))"

definition link_getSourceUnit :: "slink \<Rightarrow> 'd net \<Rightarrow> UDINT \<times> 'd net \<times> act list" where
  "link_getSourceUnit s ns = (case sl_source s of None \<Rightarrow> (U_any, ns, [])
     | Some j \<Rightarrow> source_getValueUnit j (l_param (sl_link s)) ns)"

section \<open>Calculating\<close>

text \<open>
  \<^verbatim>\<open>rLink::calculate\<close> for input \<open>k\<close> of object \<open>i\<close>. A link has no links of its own, so its own
  \<^verbatim>\<open>rSource::calculate\<close> does nothing here.
\<close>

definition calc_link :: "net_env \<Rightarrow> 'd calc \<Rightarrow> nat \<Rightarrow> nat \<Rightarrow> 'd net \<Rightarrow> ('d net \<times> act list) option" where
  "calc_link ne c i k ns = (let s = n_inputs (ns ! i) ! k; l = sl_link s in
     case sl_source s of None \<Rightarrow> Some (ns, [])
     | Some j \<Rightarrow> if has (l_setup l) LINK_DISABLE then Some (ns, []) else do {
         (v, err, ns1, a) \<leftarrow> source_getValue ne c j (l_param l) (l_unit l) ns;
         (case link_calculate (v, err) l of (_, l1, evs) \<Rightarrow>
            Some (upd i (set_input k l1) ns1, a @ List.map Sent evs)) })"

fun calc_links :: "net_env \<Rightarrow> 'd calc \<Rightarrow> nat \<Rightarrow> nat list \<Rightarrow> 'd net \<Rightarrow> ('d net \<times> act list) option" where
  "calc_links ne c i [] ns = Some (ns, [])"
| "calc_links ne c i (k # ks) ns = do {
     (ns1, a) \<leftarrow> calc_link ne c i k ns; (ns2, b) \<leftarrow> calc_links ne c i ks ns1; Some (ns2, a @ b) }"

text \<open>
  The virtual \<^verbatim>\<open>calculate\<close>: every class calls \<^verbatim>\<open>rSource::calculate\<close> first and returns when that
  says the object was calculated in this scan; then comes its \<open>body\<close>.
\<close>

fun calculate :: "net_env \<Rightarrow> ('d calc \<Rightarrow> 'd calc) \<Rightarrow> nat \<Rightarrow> 'd calc" where
  "calculate ne body 0 i ns = None"
| "calculate ne body (Suc f) i ns =
     (if n_isCalc (ns ! i) then Some (ns, [])
      else do {
        (ns1, a) \<leftarrow> calc_links ne (calculate ne body f) i [0..<length (n_inputs (ns ! i))]
                     (upd i (\<lambda>n. n\<lparr>n_isCalc := True, n_fault := 0\<rparr>) ns);
        (ns2, b) \<leftarrow> body (calculate ne body f) i ns1;
        Some (ns2, a @ Ran i # b) })"

definition preCalculate :: "'d net \<Rightarrow> 'd net" where
  "preCalculate ns = List.map (n_isCalc_update (\<lambda>_. False)) ns"

fun calculate_all :: "'d calc \<Rightarrow> nat list \<Rightarrow> 'd calc" where
  "calculate_all c [] i ns = Some (ns, [])"
| "calculate_all c (j # js) i ns = do {
     (ns1, a) \<leftarrow> c j ns; (ns2, b) \<leftarrow> calculate_all c js i ns1; Some (ns2, a @ b) }"

text \<open>
  One pass of \<^verbatim>\<open>rDataManager::Proccesing\<close> over the objects: \<open>live k\<close> is whether the
  program still runs when the turn of object \<open>k\<close> comes; a halt by this or another thread stops
  the loop.
\<close>

definition scan :: "net_env \<Rightarrow> ('d calc \<Rightarrow> 'd calc) \<Rightarrow> (nat \<Rightarrow> bool) \<Rightarrow> 'd net \<Rightarrow> ('d net \<times> act list) option" where
  "scan ne body live ns =
     calculate_all (calculate ne body (Suc (length ns))) (takeWhile live [0..<length ns]) 0 (preCalculate ns)"

text \<open>\<^verbatim>\<open>postCalculate\<close>: the limits of the outputs that are not inputs.\<close>

fun post_output :: "outref \<Rightarrow> outref \<times> cevent list" where
  "post_output (O_in k) = (O_in k, [])"
| "post_output (O_own l) = (case link_calculateLimit l of (l1, e) \<Rightarrow> (O_own l1, e))"

definition postCalculate :: "'d node \<Rightarrow> 'd node \<times> cevent list" where
  "postCalculate n = (n\<lparr>n_outputs := List.map (fst \<circ> post_output) (n_outputs n)\<rparr>,
     concat (List.map (snd \<circ> post_output) (n_outputs n)))"

section \<open>What a calculation leaves alone\<close>

text \<open>
  \<open>static\<close> is what no calculation changes. \<open>cls\<close> gives the objects a class calculates by itself
  (the streams of a station) and the inputs whose values it overwrites (the outputs' own links). \<open>frame X\<close>: outside of \<open>X\<close> an object that was calculated keeps everything
  but its fault latches.
\<close>

definition static_link :: "slink \<Rightarrow> nat option \<times> string \<times> UDINT \<times> UINT \<times> bool" where
  "static_link s = (sl_source s, l_param (sl_link s), l_unit (sl_link s), l_setup (sl_link s), l_valid (sl_link s))"

definition static :: "('d \<Rightarrow> nat list \<times> nat list) \<Rightarrow> 'd node
    \<Rightarrow> string \<times> (nat option \<times> string \<times> UDINT \<times> UINT \<times> bool) list \<times> nat list \<times> nat list" where
  "static cls n = (n_alias n, List.map static_link (n_inputs n), cls (n_data n))"

definition lk0 :: "'d node \<Rightarrow> 'd node" where "lk0 n = n\<lparr>n_lockErr := 0\<rparr>"

definition frame :: "('d \<Rightarrow> nat list \<times> nat list) \<Rightarrow> nat set \<Rightarrow> 'd net \<Rightarrow> 'd net \<Rightarrow> bool" where
  "frame cls X ns ns' \<longleftrightarrow> length ns' = length ns
     \<and> (\<forall>i<length ns. static cls (ns' ! i) = static cls (ns ! i)
          \<and> (n_isCalc (ns ! i) \<longrightarrow> n_isCalc (ns' ! i) \<and> (i \<in> X \<or> lk0 (ns' ! i) = lk0 (ns ! i))))"

text \<open>A link that is calculated, and one whose value the class does not overwrite.\<close>

definition linked :: "'d node \<Rightarrow> nat \<Rightarrow> bool" where
  "linked n k \<longleftrightarrow> k < length (n_inputs n) \<and> sl_source (n_inputs n ! k) \<noteq> None
     \<and> \<not> has (l_setup (sl_link (n_inputs n ! k))) LINK_DISABLE"

definition active :: "('d \<Rightarrow> nat list \<times> nat list) \<Rightarrow> 'd node \<Rightarrow> nat \<Rightarrow> bool" where
  "active cls n k \<longleftrightarrow> linked n k \<and> k \<notin> set (snd (cls (n_data n)))"

definition net_wf :: "('d \<Rightarrow> nat list \<times> nat list) \<Rightarrow> 'd net \<Rightarrow> bool" where
  "net_wf cls ns \<longleftrightarrow> (\<forall>i<length ns.
     (\<forall>k<length (n_inputs (ns ! i)). case sl_source (n_inputs (ns ! i) ! k) of
        None \<Rightarrow> \<not> l_valid (sl_link (n_inputs (ns ! i) ! k))
      | Some j \<Rightarrow> l_valid (sl_link (n_inputs (ns ! i) ! k)) \<and> j < length ns)
     \<and> (\<forall>j\<in>set (fst (cls (n_data (ns ! i)))). j < length ns))"

fun rans :: "act list \<Rightarrow> nat list" where
  "rans [] = []"
| "rans (Ran i # a) = i # rans a"
| "rans (Sent e # a) = rans a"
| "rans (Halt r # a) = rans a"
| "rans (Wrote m c v # a) = rans a"

definition fresh :: "'d net \<Rightarrow> 'd net \<Rightarrow> nat set" where
  "fresh ns ns' = {i. i < length ns \<and> n_isCalc (ns' ! i) \<and> \<not> n_isCalc (ns ! i)}"

definition uncalc :: "'d net \<Rightarrow> nat" where
  "uncalc ns = card {i. i < length ns \<and> \<not> n_isCalc (ns ! i)}"

text \<open>Each object that becomes calculated has its body run once, and no other has.\<close>

definition runs_fresh :: "'d net \<Rightarrow> 'd net \<Rightarrow> act list \<Rightarrow> bool" where
  "runs_fresh ns ns' a \<longleftrightarrow> distinct (rans a) \<and> set (rans a) = fresh ns ns'"

definition good :: "('d \<Rightarrow> nat list \<times> nat list) \<Rightarrow> 'd calc \<Rightarrow> bool" where
  "good cls c \<longleftrightarrow> (\<forall>i ns ns' a. net_wf cls ns \<longrightarrow> i < length ns \<longrightarrow> c i ns = Some (ns', a)
     \<longrightarrow> frame cls {} ns ns' \<and> runs_fresh ns ns' a \<and> n_isCalc (ns' ! i))"

definition ends :: "('d \<Rightarrow> nat list \<times> nat list) \<Rightarrow> nat \<Rightarrow> 'd calc \<Rightarrow> bool" where
  "ends cls n c \<longleftrightarrow> (\<forall>i ns. net_wf cls ns \<longrightarrow> i < length ns \<longrightarrow> uncalc ns < n \<longrightarrow> c i ns \<noteq> None)"

lemma rans_append [simp]: "rans (a @ b) = rans a @ rans b"
  by (induction a rule: rans.induct) auto

lemma rans_Sent [simp]: "rans (List.map Sent evs) = []"
  by (induction evs) auto

lemma upd_simps [simp]:
  "length (upd i f ns) = length ns"
  "i < length ns \<Longrightarrow> upd i f ns ! i = f (ns ! i)"
  "i \<noteq> j \<Longrightarrow> upd i f ns ! j = ns ! j"
  by (simp_all add: upd_def)

lemma upd_nth: "j < length ns \<Longrightarrow> upd i f ns ! j = (if j = i then f (ns ! i) else ns ! j)"
  by (simp add: upd_def nth_list_update_if)

lemma frame_refl [simp]: "frame cls X ns ns"
  by (simp add: frame_def)

lemma frame_trans: "frame cls X ns1 ns2 \<Longrightarrow> frame cls X ns2 ns3 \<Longrightarrow> frame cls X ns1 ns3"
  by (simp add: frame_def) metis

lemma frame_mono: "frame cls X ns ns' \<Longrightarrow> X \<subseteq> Y \<Longrightarrow> frame cls Y ns ns'"
  by (auto simp: frame_def)

lemma frame_length: "frame cls X ns ns' \<Longrightarrow> length ns' = length ns"
  by (simp add: frame_def)

lemma frame_static: "frame cls X ns ns' \<Longrightarrow> i < length ns \<Longrightarrow> static cls (ns' ! i) = static cls (ns ! i)"
  by (simp add: frame_def)

lemma frame_calc: "frame cls X ns ns' \<Longrightarrow> i < length ns \<Longrightarrow> n_isCalc (ns ! i) \<Longrightarrow> n_isCalc (ns' ! i)"
  by (simp add: frame_def)

lemma static_inputs:
  assumes "static cls n' = static cls n"
  shows "length (n_inputs n') = length (n_inputs n)"
    "k < length (n_inputs n) \<Longrightarrow> static_link (n_inputs n' ! k) = static_link (n_inputs n ! k)"
    "cls (n_data n') = cls (n_data n)"
proof -
  have m: "List.map static_link (n_inputs n') = List.map static_link (n_inputs n)"
    using assms by (simp add: static_def)
  show l: "length (n_inputs n') = length (n_inputs n)" using arg_cong [OF m, of length] by simp
  show "static_link (n_inputs n' ! k) = static_link (n_inputs n ! k)" if "k < length (n_inputs n)"
    using arg_cong [OF m, of "\<lambda>xs. xs ! k"] that l by simp
  show "cls (n_data n') = cls (n_data n)" using assms by (simp add: static_def)
qed

lemma static_active: "static cls n' = static cls n \<Longrightarrow> active cls n' k \<longleftrightarrow> active cls n k"
  using static_inputs [of cls n' n] by (auto simp: active_def linked_def static_link_def)

lemma frame_wf: "frame cls X ns ns' \<Longrightarrow> net_wf cls ns \<Longrightarrow> net_wf cls ns'"
proof -
  assume f: "frame cls X ns ns'" and w: "net_wf cls ns"
  have "(\<forall>k<length (n_inputs (ns' ! i)). case sl_source (n_inputs (ns' ! i) ! k) of
        None \<Rightarrow> \<not> l_valid (sl_link (n_inputs (ns' ! i) ! k))
      | Some j \<Rightarrow> l_valid (sl_link (n_inputs (ns' ! i) ! k)) \<and> j < length ns')
     \<and> (\<forall>j\<in>set (fst (cls (n_data (ns' ! i)))). j < length ns')" if i: "i < length ns" for i
  proof -
    note s = static_inputs [OF frame_static [OF f i]]
    have w': "(\<forall>k<length (n_inputs (ns ! i)). case sl_source (n_inputs (ns ! i) ! k) of
        None \<Rightarrow> \<not> l_valid (sl_link (n_inputs (ns ! i) ! k))
      | Some j \<Rightarrow> l_valid (sl_link (n_inputs (ns ! i) ! k)) \<and> j < length ns)
     \<and> (\<forall>j\<in>set (fst (cls (n_data (ns ! i)))). j < length ns)" using w i by (simp add: net_wf_def)
    show ?thesis
      using w' s frame_length [OF f] by (auto simp: static_link_def split: option.splits)
  qed
  then show ?thesis using frame_length [OF f] by (simp add: net_wf_def)
qed

lemma frame_uncalc: "frame cls X ns ns' \<Longrightarrow> uncalc ns' \<le> uncalc ns"
  unfolding uncalc_def by (rule card_mono) (auto simp: frame_def)

lemma fresh_trans:
  assumes "frame cls X ns1 ns2" "frame cls Y ns2 ns3"
  shows "fresh ns1 ns3 = fresh ns1 ns2 \<union> fresh ns2 ns3" "fresh ns1 ns2 \<inter> fresh ns2 ns3 = {}"
  using assms by (auto simp: fresh_def frame_def)

lemma runs_fresh_trans:
  assumes "frame cls X ns1 ns2" "frame cls Y ns2 ns3" "runs_fresh ns1 ns2 a" "runs_fresh ns2 ns3 b"
  shows "runs_fresh ns1 ns3 (a @ b)"
  using assms fresh_trans [OF assms(1,2)] by (auto simp: runs_fresh_def)

lemma runs_fresh_refl: "rans a = [] \<Longrightarrow> fresh ns ns' = {} \<Longrightarrow> runs_fresh ns ns' a"
  by (simp add: runs_fresh_def)

section \<open>Reading keeps the frame\<close>

text \<open>A reading may only latch an error at the object read.\<close>

definition latches_only :: "'d net \<Rightarrow> 'd net \<Rightarrow> bool" where
  "latches_only ns ns' \<longleftrightarrow> length ns' = length ns \<and> (\<forall>i<length ns. lk0 (ns' ! i) = lk0 (ns ! i))"

lemma lk0_fields:
  "lk0 n' = lk0 n \<Longrightarrow> n_isCalc n' = n_isCalc n \<and> static cls n' = static cls n \<and> n_inputs n' = n_inputs n
    \<and> n_outputs n' = n_outputs n \<and> n_fault n' = n_fault n \<and> n_data n' = n_data n \<and> n_alias n' = n_alias n"
proof -
  assume e: "lk0 n' = lk0 n"
  have "n_isCalc n' = n_isCalc n" "n_inputs n' = n_inputs n" "n_outputs n' = n_outputs n"
    "n_fault n' = n_fault n" "n_data n' = n_data n" "n_alias n' = n_alias n"
    using arg_cong [OF e, of n_isCalc] arg_cong [OF e, of n_inputs] arg_cong [OF e, of n_outputs]
      arg_cong [OF e, of n_fault] arg_cong [OF e, of n_data] arg_cong [OF e, of n_alias]
    by (simp_all add: lk0_def)
  then show ?thesis by (simp add: static_def)
qed

lemma latches_only_frame: "latches_only ns ns' \<Longrightarrow> frame cls X ns ns' \<and> fresh ns ns' = {}"
proof -
  assume l: "latches_only ns ns'"
  have "n_isCalc (ns' ! i) = n_isCalc (ns ! i) \<and> static cls (ns' ! i) = static cls (ns ! i)"
    if "i < length ns" for i
  proof -
    have "lk0 (ns' ! i) = lk0 (ns ! i)" using l that by (simp add: latches_only_def)
    from lk0_fields [OF this, of cls] show ?thesis by simp
  qed
  with l show ?thesis by (auto simp: latches_only_def frame_def fresh_def)
qed

lemma latches_only_refl [simp]: "latches_only ns ns"
  by (simp add: latches_only_def)

lemma send_latched_only: "send_latched j flag ev ns = (ns', a) \<Longrightarrow> latches_only ns ns' \<and> rans a = []"
  by (auto simp: send_latched_def latches_only_def upd_nth lk0_def split: prod.splits)

lemma read_output_only: "read_output ne j name unit ns = (v, err, ns', a) \<Longrightarrow> latches_only ns ns' \<and> rans a = []"
  by (auto simp: read_output_def Let_def dest!: send_latched_only
      split: if_splits option.splits prod.splits)

lemma source_getValueUnit_only:
  "source_getValueUnit j name ns = (u, ns', a) \<Longrightarrow> latches_only ns ns' \<and> rans a = []"
  by (auto simp: source_getValueUnit_def dest!: send_latched_only split: option.splits prod.splits)

lemma link_getSourceUnit_only:
  "link_getSourceUnit s ns = (u, ns', a) \<Longrightarrow> latches_only ns ns' \<and> rans a = []"
  by (auto simp: link_getSourceUnit_def dest!: source_getValueUnit_only split: option.splits)

lemma latches_only_trans: "latches_only a b \<Longrightarrow> latches_only b c \<Longrightarrow> latches_only a c"
  by (simp add: latches_only_def)

text \<open>The value read, as a function of the object.\<close>

definition out_value :: "net_env \<Rightarrow> 'd node \<Rightarrow> string \<Rightarrow> UDINT \<Rightarrow> lreal" where
  "out_value ne n name unit = (if name = XmlName_FAULT then lreal_of_word (n_fault n)
     else case getOutputByName n name of None \<Rightarrow> NaN
          | Some l \<Rightarrow> snd (ConvertValue (ne_oob ne) (ne_base ne) (l_value l) (l_unit l) unit))"

lemma out_value_lk0: "lk0 n' = lk0 n \<Longrightarrow> out_value ne n' name unit = out_value ne n name unit"
proof -
  assume "lk0 n' = lk0 n"
  then have f: "n_inputs n' = n_inputs n" "n_outputs n' = n_outputs n" "n_fault n' = n_fault n"
    using lk0_fields by blast+
  then have "out_link n' = out_link n" by (intro ext, rename_tac r, case_tac r) simp_all
  with f show ?thesis by (simp add: out_value_def getOutputByName_def split: list.split)
qed

lemma read_output_value: "read_output ne j name unit ns = (v, err, ns', a) \<Longrightarrow> v = out_value ne (ns ! j) name unit"
  by (auto simp: read_output_def out_value_def Let_def split: if_splits option.splits prod.splits)

section \<open>The contract of the links\<close>

definition clean :: "lreal \<Rightarrow> lreal" where
  "clean v = (if v = PInf \<or> v = NInf \<or> v = NaN then Fin 0 else v)"

lemma link_calculate_static:
  assumes "link_calculate (v, err) l = (r, l', evs)"
  shows "l_param l' = l_param l \<and> l_unit l' = l_unit l \<and> l_setup l' = l_setup l \<and> l_valid l' = l_valid l
    \<and> (l_valid l \<and> \<not> has (l_setup l) LINK_DISABLE \<longrightarrow> l_value l' = clean v)"
  using assms by (auto simp: link_calculate_def clean_def split: if_splits prod.splits)

lemma set_input_simps [simp]:
  "n_isCalc (set_input k l n) = n_isCalc n" "n_outputs (set_input k l n) = n_outputs n"
  "n_data (set_input k l n) = n_data n" "n_alias (set_input k l n) = n_alias n"
  "length (n_inputs (set_input k l n)) = length (n_inputs n)"
  "k' \<noteq> k \<Longrightarrow> n_inputs (set_input k l n) ! k' = n_inputs n ! k'"
  "k < length (n_inputs n) \<Longrightarrow> n_inputs (set_input k l n) ! k = (n_inputs n ! k)\<lparr>sl_link := l\<rparr>"
  by (simp_all add: set_input_def)

lemma set_input_static:
  assumes "static_link ((n_inputs n ! k)\<lparr>sl_link := l\<rparr>) = static_link (n_inputs n ! k)" "k < length (n_inputs n)"
  shows "static cls (set_input k l n) = static cls n"
proof -
  have "List.map static_link (n_inputs (set_input k l n)) = List.map static_link (n_inputs n)"
    by (rule nth_equalityI) (auto simp: set_input_def nth_list_update_if assms)
  then show ?thesis by (simp add: static_def)
qed

lemma goodD:
  "good cls c \<Longrightarrow> net_wf cls ns \<Longrightarrow> i < length ns \<Longrightarrow> c i ns = Some (ns', a) \<Longrightarrow>
    frame cls {} ns ns' \<and> runs_fresh ns ns' a \<and> n_isCalc (ns' ! i)"
  by (auto simp: good_def)

lemma getValue_good:
  assumes g: "good cls c" and w: "net_wf cls ns" and j: "j < length ns"
    and r: "source_getValue ne c j name unit ns = Some (v, err, ns', a)"
  shows "frame cls {} ns ns' \<and> runs_fresh ns ns' a \<and> n_isCalc (ns' ! j) \<and> v = out_value ne (ns' ! j) name unit"
proof -
  obtain ns1 a1 where 1: "(if \<not> n_isCalc (ns ! j) then c j ns else Some (ns, [])) = Some (ns1, a1)"
    and q: "(case read_output ne j name unit ns1 of (v, err, ns2, b) \<Rightarrow> Some (v, err, ns2, a1 @ b)) = Some (v, err, ns', a)"
    using r unfolding source_getValue_def by (auto simp: Option.bind_eq_Some_conv)
  obtain v1 e1 n1 b where "read_output ne j name unit ns1 = (v1, e1, n1, b)" by (rule prod_cases4)
  with q have 2: "read_output ne j name unit ns1 = (v, err, ns', b)" and a: "a = a1 @ b" by simp_all
  have c: "frame cls {} ns ns1 \<and> runs_fresh ns ns1 a1 \<and> n_isCalc (ns1 ! j)"
    using 1 goodD [OF g w j] by (auto split: if_splits simp: runs_fresh_def fresh_def)
  note l = read_output_only [OF 2]
  have j1: "j < length ns1" using c j frame_length by metis
  have f2: "frame cls {} ns1 ns'" "fresh ns1 ns' = {}" using l latches_only_frame by blast+
  have e: "lk0 (ns' ! j) = lk0 (ns1 ! j)" using l j1 by (simp add: latches_only_def)
  have "v = out_value ne (ns' ! j) name unit"
    using read_output_value [OF 2] out_value_lk0 [OF e] by simp
  moreover have "runs_fresh ns ns' a"
    unfolding a using runs_fresh_trans [OF _ f2(1)] c l runs_fresh_refl [OF _ f2(2)] by blast
  ultimately show ?thesis using c f2(1) frame_trans j1 frame_calc by blast
qed

lemma upd_own_frame:
  assumes "static cls (f (ns ! i)) = static cls (ns ! i)" "n_isCalc (ns ! i) \<longrightarrow> n_isCalc (f (ns ! i))"
  shows "frame cls {i} ns (upd i f ns)"
  using assms by (auto simp: frame_def upd_nth)

lemma wf_link:
  assumes "net_wf cls ns" "i < length ns" "k < length (n_inputs (ns ! i))"
    "sl_source (n_inputs (ns ! i) ! k) = Some j"
  shows "j < length ns" "l_valid (sl_link (n_inputs (ns ! i) ! k))"
proof -
  have "case sl_source (n_inputs (ns ! i) ! k) of None \<Rightarrow> \<not> l_valid (sl_link (n_inputs (ns ! i) ! k))
      | Some j \<Rightarrow> l_valid (sl_link (n_inputs (ns ! i) ! k)) \<and> j < length ns"
    using assms(1-3) unfolding net_wf_def by blast
  then show "j < length ns" "l_valid (sl_link (n_inputs (ns ! i) ! k))" using assms(4) by simp_all
qed

lemma calc_link_good:
  assumes g: "good cls c" and w: "net_wf cls ns" and i: "i < length ns" and k: "k < length (n_inputs (ns ! i))"
    and ci: "n_isCalc (ns ! i)" and r: "calc_link ne c i k ns = Some (ns', a)"
  shows "frame cls {i} ns ns' \<and> runs_fresh ns ns' a
    \<and> (\<forall>k'. k' \<noteq> k \<longrightarrow> n_inputs (ns' ! i) ! k' = n_inputs (ns ! i) ! k')
    \<and> (linked (ns ! i) k \<longrightarrow> (\<forall>j. sl_source (n_inputs (ns ! i) ! k) = Some j \<longrightarrow> n_isCalc (ns' ! j)
         \<and> (j \<noteq> i \<longrightarrow> in_value (ns' ! i) k = clean (out_value ne (ns' ! j)
              (l_param (sl_link (n_inputs (ns ! i) ! k))) (l_unit (sl_link (n_inputs (ns ! i) ! k)))))))"
proof (cases "linked (ns ! i) k")
  case False
  then have "ns' = ns" "a = []" using r k by (auto simp: calc_link_def linked_def Let_def split: option.splits)
  with False show ?thesis by (auto simp: runs_fresh_def fresh_def)
next
  case True
  let ?s = "n_inputs (ns ! i) ! k" and ?l = "sl_link (n_inputs (ns ! i) ! k)"
  obtain j where j: "sl_source ?s = Some j" using True by (auto simp: linked_def)
  have nd: "\<not> has (l_setup ?l) LINK_DISABLE" using True by (simp add: linked_def)
  obtain v err ns1 b where 1: "source_getValue ne c j (l_param ?l) (l_unit ?l) ns = Some (v, err, ns1, b)"
    and q: "(case link_calculate (v, err) ?l of (_, l1, evs) \<Rightarrow> Some (upd i (set_input k l1) ns1, b @ List.map Sent evs))
      = Some (ns', a)"
    using r j nd by (auto simp: calc_link_def Let_def Option.bind_eq_Some_conv)
  obtain rc l1 evs where 2: "link_calculate (v, err) ?l = (rc, l1, evs)" by (rule prod_cases3)
  with q have n: "ns' = upd i (set_input k l1) ns1" and a: "a = b @ List.map Sent evs" by simp_all
  note w1 = wf_link [OF w i k j]
  note g1 = getValue_good [OF g w w1(1) 1]
  note st = link_calculate_static [OF 2]
  have same: "lk0 (ns1 ! i) = lk0 (ns ! i)" using g1 i ci by (simp add: frame_def)
  have inp: "n_inputs (ns1 ! i) = n_inputs (ns ! i)" using lk0_fields [OF same] by blast
  have len: "length ns1 = length ns" using g1 frame_length by blast
  have s1: "static cls (set_input k l1 (ns1 ! i)) = static cls (ns1 ! i)"
    by (rule set_input_static) (use st inp k in \<open>simp_all add: static_link_def\<close>)
  have f1: "frame cls {i} ns1 ns'" unfolding n by (rule upd_own_frame) (simp_all add: s1)
  have fr: "frame cls {i} ns ns'" using g1 f1 frame_mono [of cls "{}" ns ns1 "{i}"] frame_trans by blast
  have "fresh ns1 ns' = {}" unfolding n fresh_def by (auto simp: upd_nth split: if_splits)
  then have rf: "runs_fresh ns ns' a"
    unfolding a using runs_fresh_trans [OF _ f1] g1 runs_fresh_refl [of "List.map Sent evs" ns1 ns'] by auto
  have val: "in_value (ns' ! i) k = clean v"
    using st w1(2) nd n i len k inp by (simp add: in_value_def)
  have oth: "n_inputs (ns' ! i) ! k' = n_inputs (ns ! i) ! k'" if "k' \<noteq> k" for k'
    using that n i len inp by simp
  have cj: "n_isCalc (ns' ! j)" using g1 n i len w1(1) by (auto simp: upd_nth)
  have "j \<noteq> i \<Longrightarrow> ns' ! j = ns1 ! j" using n by simp
  with g1 val have "j \<noteq> i \<longrightarrow> in_value (ns' ! i) k = clean (out_value ne (ns' ! j) (l_param ?l) (l_unit ?l))"
    by simp
  with fr rf oth cj j show ?thesis by auto
qed

text \<open>What the links behind object \<open>i\<close> gave, for the inputs \<open>ks\<close>.\<close>

definition fed :: "('d \<Rightarrow> nat list \<times> nat list) \<Rightarrow> net_env \<Rightarrow> 'd net \<Rightarrow> nat \<Rightarrow> nat \<Rightarrow> bool" where
  "fed cls ne ns i k \<longleftrightarrow> (active cls (ns ! i) k \<longrightarrow> (\<forall>j. sl_source (n_inputs (ns ! i) ! k) = Some j \<longrightarrow> n_isCalc (ns ! j)
     \<and> in_value (ns ! i) k = clean (out_value ne (ns ! j)
         (l_param (sl_link (n_inputs (ns ! i) ! k))) (l_unit (sl_link (n_inputs (ns ! i) ! k))))))"

definition no_loop :: "'d net \<Rightarrow> nat \<Rightarrow> bool" where
  "no_loop ns i \<longleftrightarrow> (\<forall>k<length (n_inputs (ns ! i)). sl_source (n_inputs (ns ! i) ! k) \<noteq> Some i)"

lemma static_source:
  assumes "static cls n' = static cls n" "k < length (n_inputs n)"
  shows "sl_source (n_inputs n' ! k) = sl_source (n_inputs n ! k)"
    "l_param (sl_link (n_inputs n' ! k)) = l_param (sl_link (n_inputs n ! k))"
    "l_unit (sl_link (n_inputs n' ! k)) = l_unit (sl_link (n_inputs n ! k))"
  using static_inputs(2) [OF assms] by (simp_all add: static_link_def)

text \<open>A fed input stays fed while neither it nor its source changes.\<close>

lemma fed_kept:
  assumes f: "frame cls X ns ns'" and w: "net_wf cls ns" and i: "i < length ns"
    and nl: "\<And>j. active cls (ns ! i) k \<Longrightarrow> sl_source (n_inputs (ns ! i) ! k) = Some j \<Longrightarrow> j \<notin> X"
    and v: "active cls (ns ! i) k \<Longrightarrow> in_value (ns' ! i) k = in_value (ns ! i) k" and fd: "fed cls ne ns i k"
  shows "fed cls ne ns' i k"
proof (cases "active cls (ns ! i) k")
  case False
  then show ?thesis using static_active [OF frame_static [OF f i], of k] by (simp add: fed_def)
next
  case True
  then have k: "k < length (n_inputs (ns ! i))" by (simp add: active_def linked_def)
  obtain j where j: "sl_source (n_inputs (ns ! i) ! k) = Some j" using True by (auto simp: active_def linked_def)
  note s = static_source [OF frame_static [OF f i] k]
  have jl: "j < length ns" using wf_link(1) [OF w i k j] .
  have jX: "j \<notin> X" using nl True j by blast
  have cj: "n_isCalc (ns ! j)" and val: "in_value (ns ! i) k = clean (out_value ne (ns ! j)
      (l_param (sl_link (n_inputs (ns ! i) ! k))) (l_unit (sl_link (n_inputs (ns ! i) ! k))))"
    using fd True j by (auto simp: fed_def)
  have "n_isCalc (ns' ! j)" "lk0 (ns' ! j) = lk0 (ns ! j)" using f jl cj jX by (auto simp: frame_def)
  with s j v True val out_value_lk0 [OF this(2), of ne] show ?thesis by (simp add: fed_def)
qed

lemma calc_links_good:
  assumes "good cls c" "net_wf cls ns" "i < length ns" "\<forall>k\<in>set ks. k < length (n_inputs (ns ! i))"
    "distinct ks" "n_isCalc (ns ! i)" "calc_links ne c i ks ns = Some (ns', a)"
  shows "frame cls {i} ns ns' \<and> runs_fresh ns ns' a \<and> n_isCalc (ns' ! i)
    \<and> (\<forall>k'. k' \<notin> set ks \<longrightarrow> n_inputs (ns' ! i) ! k' = n_inputs (ns ! i) ! k')
    \<and> (no_loop ns i \<longrightarrow> (\<forall>k\<in>set ks. fed cls ne ns' i k))"
  using assms
proof (induction ks arbitrary: ns ns' a)
  case Nil
  then show ?case by (simp add: runs_fresh_def fresh_def)
next
  case (Cons k ks)
  obtain ns1 a1 a2 where 1: "calc_link ne c i k ns = Some (ns1, a1)" and 2: "calc_links ne c i ks ns1 = Some (ns', a2)"
    and a: "a = a1 @ a2" using Cons.prems(7) by (auto simp: Option.bind_eq_Some_conv)
  have k: "k < length (n_inputs (ns ! i))" using Cons.prems(4) by simp
  note g = calc_link_good [OF Cons.prems(1,2,3) k Cons.prems(6) 1]
  then have f1: "frame cls {i} ns ns1" by blast
  note s1 = frame_static [OF f1 Cons.prems(3)]
  have len1: "length (n_inputs (ns1 ! i)) = length (n_inputs (ns ! i))" using static_inputs(1) [OF s1] .
  have i1: "i < length ns1" using frame_length [OF f1] Cons.prems(3) by simp
  have ks1: "\<forall>k\<in>set ks. k < length (n_inputs (ns1 ! i))" using Cons.prems(4) len1 by simp
  have d: "distinct ks" "k \<notin> set ks" using Cons.prems(5) by simp_all
  note IH = Cons.IH [OF Cons.prems(1) frame_wf [OF f1 Cons.prems(2)] i1 ks1 d(1)
      frame_calc [OF f1 Cons.prems(3,6)] 2]
  then have f2: "frame cls {i} ns1 ns'" by blast
  have same: "n_inputs (ns' ! i) ! k = n_inputs (ns1 ! i) ! k" using IH d(2) by blast
  have fd: "\<forall>k\<in>set (k # ks). fed cls ne ns' i k" if nl: "no_loop ns i"
  proof -
    have nl1: "no_loop ns1 i" using nl len1 static_source(1) [OF s1] by (simp add: no_loop_def)
    have "fed cls ne ns1 i k"
    proof -
      have "j \<noteq> i" if "sl_source (n_inputs (ns ! i) ! k) = Some j" for j
        using nl k that by (auto simp: no_loop_def)
      then show ?thesis
        using g static_active [OF s1, of k] static_source [OF s1 k] by (auto simp: fed_def active_def)
    qed
    then have "fed cls ne ns' i k"
      using fed_kept [OF f2 frame_wf [OF f1 Cons.prems(2)] i1, of k ne] nl1
      by (auto simp: in_value_def same no_loop_def active_def linked_def)
    with IH nl1 show ?thesis by simp
  qed
  have "runs_fresh ns ns' a" unfolding a using runs_fresh_trans [OF f1 f2] g IH by blast
  moreover have "\<forall>k'. k' \<notin> set (k # ks) \<longrightarrow> n_inputs (ns' ! i) ! k' = n_inputs (ns ! i) ! k'"
    using g IH by auto
  ultimately show ?case using frame_trans [OF f1 f2] IH fd by blast
qed

section \<open>The contract of a class\<close>

text \<open>
  Order: a ranking of the objects in which every source and every object calculated by hand comes
  below. \<open>settled P\<close>: the objects calculated so far, except those of \<open>P\<close> that are still
  at work, show on their inputs what their sources show.
\<close>

definition ranked :: "('d \<Rightarrow> nat list \<times> nat list) \<Rightarrow> (nat \<Rightarrow> nat) \<Rightarrow> 'd net \<Rightarrow> bool" where
  "ranked cls rank ns \<longleftrightarrow> (\<forall>i<length ns.
     (\<forall>k<length (n_inputs (ns ! i)). \<forall>j. sl_source (n_inputs (ns ! i) ! k) = Some j \<longrightarrow> rank j < rank i)
     \<and> (\<forall>j\<in>set (fst (cls (n_data (ns ! i)))). rank j < rank i))"

definition settled :: "('d \<Rightarrow> nat list \<times> nat list) \<Rightarrow> net_env \<Rightarrow> nat set \<Rightarrow> 'd net \<Rightarrow> bool" where
  "settled cls ne P ns \<longleftrightarrow> (\<forall>i<length ns. n_isCalc (ns ! i) \<longrightarrow> i \<notin> P \<longrightarrow> (\<forall>k. fed cls ne ns i k
     \<and> (active cls (ns ! i) k \<longrightarrow> (\<forall>j. sl_source (n_inputs (ns ! i) ! k) = Some j \<longrightarrow> j \<notin> P))))"

definition at_work :: "(nat \<Rightarrow> nat) \<Rightarrow> nat set \<Rightarrow> nat \<Rightarrow> 'd net \<Rightarrow> bool" where
  "at_work rank P r ns \<longleftrightarrow> (\<forall>p\<in>P. p < length ns \<and> n_isCalc (ns ! p) \<and> r < rank p)"

definition settles :: "('d \<Rightarrow> nat list \<times> nat list) \<Rightarrow> net_env \<Rightarrow> (nat \<Rightarrow> nat) \<Rightarrow> 'd calc \<Rightarrow> bool" where
  "settles cls ne rank c \<longleftrightarrow> (\<forall>P i ns ns' a. net_wf cls ns \<longrightarrow> ranked cls rank ns \<longrightarrow> i < length ns
     \<longrightarrow> at_work rank P (rank i) ns \<longrightarrow> settled cls ne P ns \<longrightarrow> c i ns = Some (ns', a) \<longrightarrow> settled cls ne P ns')"

lemma settlesD:
  "settles cls ne rank c \<Longrightarrow> net_wf cls ns \<Longrightarrow> ranked cls rank ns \<Longrightarrow> i < length ns
   \<Longrightarrow> at_work rank P (rank i) ns \<Longrightarrow> settled cls ne P ns \<Longrightarrow> c i ns = Some (ns', a) \<Longrightarrow> settled cls ne P ns'"
  unfolding settles_def by blast

lemma frame_ranked: "frame cls X ns ns' \<Longrightarrow> ranked cls rank ns \<Longrightarrow> ranked cls rank ns'"
proof -
  assume f: "frame cls X ns ns'" and r: "ranked cls rank ns"
  have "(\<forall>k<length (n_inputs (ns' ! i)). \<forall>j. sl_source (n_inputs (ns' ! i) ! k) = Some j \<longrightarrow> rank j < rank i)
     \<and> (\<forall>j\<in>set (fst (cls (n_data (ns' ! i)))). rank j < rank i)" if i: "i < length ns" for i
    using r i static_inputs [OF frame_static [OF f i]] static_source(1) [OF frame_static [OF f i]]
    by (simp add: ranked_def)
  then show ?thesis using frame_length [OF f] by (simp add: ranked_def)
qed

lemma frame_at_work: "frame cls X ns ns' \<Longrightarrow> at_work rank P r ns \<Longrightarrow> at_work rank P r ns'"
  by (simp add: at_work_def frame_def)

lemma settled_frame:
  assumes f: "frame cls X ns ns'" and w: "net_wf cls ns" and fr: "fresh ns ns' = {}" and X: "X \<subseteq> P"
    and s: "settled cls ne P ns"
  shows "settled cls ne P ns'"
proof -
  have "fed cls ne ns' i k \<and> (active cls (ns' ! i) k \<longrightarrow> (\<forall>j. sl_source (n_inputs (ns' ! i) ! k) = Some j \<longrightarrow> j \<notin> P))"
    if i: "i < length ns" and c': "n_isCalc (ns' ! i)" and iP: "i \<notin> P" for i k
  proof -
    have c: "n_isCalc (ns ! i)" using fr i c' by (auto simp: fresh_def)
    then have s': "fed cls ne ns i k" "active cls (ns ! i) k \<Longrightarrow> sl_source (n_inputs (ns ! i) ! k) = Some j \<Longrightarrow> j \<notin> P" for j
      using s i iP by (auto simp: settled_def)
    have "lk0 (ns' ! i) = lk0 (ns ! i)" using f i c iP X by (auto simp: frame_def)
    from lk0_fields [OF this] have inp: "n_inputs (ns' ! i) = n_inputs (ns ! i)" "n_data (ns' ! i) = n_data (ns ! i)" by blast+
    have act: "active cls (ns' ! i) k = active cls (ns ! i) k" by (simp add: active_def linked_def inp)
    have "fed cls ne ns' i k"
      by (rule fed_kept [OF f w i _ _ s'(1)]) (use s'(2) X in \<open>auto simp: in_value_def inp\<close>)
    with s'(2) act inp show ?thesis by auto
  qed
  then show ?thesis using frame_length [OF f] by (simp add: settled_def)
qed

lemma getValue_settles:
  assumes g: "good cls c" and c: "settles cls ne rank c" and w: "net_wf cls ns" and rk: "ranked cls rank ns"
    and j: "j < length ns" and aw: "at_work rank P (rank j) ns" and s: "settled cls ne P ns"
    and r: "source_getValue ne' c j name unit ns = Some (v, err, ns', a)"
  shows "settled cls ne P ns'"
proof -
  obtain ns1 a1 where 1: "(if \<not> n_isCalc (ns ! j) then c j ns else Some (ns, [])) = Some (ns1, a1)"
    and q: "(case read_output ne' j name unit ns1 of (v, err, ns2, b) \<Rightarrow> Some (v, err, ns2, a1 @ b)) = Some (v, err, ns', a)"
    using r unfolding source_getValue_def by (auto simp: Option.bind_eq_Some_conv)
  obtain v1 e1 n1 b where "read_output ne' j name unit ns1 = (v1, e1, n1, b)" by (rule prod_cases4)
  with q have l: "latches_only ns1 ns'" using read_output_only [of ne' j name unit ns1] by auto
  have "settled cls ne P ns1" using 1 s settlesD [OF c w rk j aw s] by (auto split: if_splits)
  moreover have "net_wf cls ns1" using 1 w goodD [OF g w j] frame_wf by (auto split: if_splits)
  ultimately show ?thesis using settled_frame [of cls "{}"] latches_only_frame [OF l] by blast
qed

lemma calc_link_settles:
  assumes g: "good cls c" and c: "settles cls ne rank c" and w: "net_wf cls ns" and rk: "ranked cls rank ns"
    and i: "i < length ns" and k: "k < length (n_inputs (ns ! i))" and ci: "n_isCalc (ns ! i)" and iP: "i \<in> P"
    and aw: "\<And>j. rank j < rank i \<Longrightarrow> at_work rank P (rank j) ns" and s: "settled cls ne P ns"
    and r: "calc_link ne c i k ns = Some (ns', a)"
  shows "settled cls ne P ns'"
proof (cases "linked (ns ! i) k")
  case False
  then have "ns' = ns" using r k by (auto simp: calc_link_def linked_def Let_def split: option.splits)
  with s show ?thesis by simp
next
  case True
  let ?s = "n_inputs (ns ! i) ! k" and ?l = "sl_link (n_inputs (ns ! i) ! k)"
  obtain j where j: "sl_source ?s = Some j" using True by (auto simp: linked_def)
  have nd: "\<not> has (l_setup ?l) LINK_DISABLE" using True by (simp add: linked_def)
  obtain v err ns1 b where 1: "source_getValue ne c j (l_param ?l) (l_unit ?l) ns = Some (v, err, ns1, b)"
    and q: "(case link_calculate (v, err) ?l of (_, l1, evs) \<Rightarrow> Some (upd i (set_input k l1) ns1, b @ List.map Sent evs))
      = Some (ns', a)"
    using r j nd by (auto simp: calc_link_def Let_def Option.bind_eq_Some_conv)
  obtain rc l1 evs where 2: "link_calculate (v, err) ?l = (rc, l1, evs)" by (rule prod_cases3)
  with q have n: "ns' = upd i (set_input k l1) ns1" by simp
  note w1 = wf_link [OF w i k j]
  have rj: "rank j < rank i" using rk i k j by (simp add: ranked_def)
  have s1: "settled cls ne P ns1" by (rule getValue_settles [OF g c w rk w1(1) aw [OF rj] s 1])
  note g1 = getValue_good [OF g w w1(1) 1]
  have same: "lk0 (ns1 ! i) = lk0 (ns ! i)" using g1 i ci by (simp add: frame_def)
  have inp: "n_inputs (ns1 ! i) = n_inputs (ns ! i)" using lk0_fields [OF same] by blast
  have st: "static cls (set_input k l1 (ns1 ! i)) = static cls (ns1 ! i)"
    by (rule set_input_static) (use link_calculate_static [OF 2] inp k in \<open>simp_all add: static_link_def\<close>)
  have f1: "frame cls {i} ns1 ns'" unfolding n by (rule upd_own_frame) (simp_all add: st)
  have "fresh ns1 ns' = {}" unfolding n fresh_def by (auto simp: upd_nth split: if_splits)
  with settled_frame [OF f1 _ _ _ s1] iP g1 frame_wf [OF _ w] show ?thesis by auto
qed

lemma calc_links_settles:
  assumes g: "good cls c" and c: "settles cls ne rank c"
  shows "net_wf cls ns \<Longrightarrow> ranked cls rank ns \<Longrightarrow> i < length ns \<Longrightarrow> \<forall>k\<in>set ks. k < length (n_inputs (ns ! i))
    \<Longrightarrow> n_isCalc (ns ! i) \<Longrightarrow> i \<in> P \<Longrightarrow> (\<And>j. rank j < rank i \<Longrightarrow> at_work rank P (rank j) ns) \<Longrightarrow> settled cls ne P ns
    \<Longrightarrow> calc_links ne c i ks ns = Some (ns', a) \<Longrightarrow> settled cls ne P ns'"
proof (induction ks arbitrary: ns a)
  case (Cons k ks)
  obtain ns1 a1 a2 where 1: "calc_link ne c i k ns = Some (ns1, a1)" and 2: "calc_links ne c i ks ns1 = Some (ns', a2)"
    using Cons.prems(9) by (auto simp: Option.bind_eq_Some_conv)
  have k: "k < length (n_inputs (ns ! i))" using Cons.prems(4) by simp
  have f1: "frame cls {i} ns ns1" using calc_link_good [OF g Cons.prems(1,3) k Cons.prems(5) 1] by blast
  have s1: "settled cls ne P ns1"
    by (rule calc_link_settles [OF g c Cons.prems(1-3) k Cons.prems(5-8) 1])
  have len1: "length (n_inputs (ns1 ! i)) = length (n_inputs (ns ! i))"
    using static_inputs(1) [OF frame_static [OF f1 Cons.prems(3)]] .
  show ?case
    by (rule Cons.IH [OF frame_wf [OF f1 Cons.prems(1)] frame_ranked [OF f1 Cons.prems(2)] _ _
          frame_calc [OF f1 Cons.prems(3,5)] Cons.prems(6) frame_at_work [OF f1 Cons.prems(7)] s1 2])
       (use Cons.prems(3,4) len1 frame_length [OF f1] in auto)
qed simp

lemma getValue_ends:
  assumes "ends cls n c" "net_wf cls ns" "j < length ns" "uncalc ns < n"
  shows "source_getValue ne c j name unit ns \<noteq> None"
proof -
  obtain ns1 a1 where 1: "(if \<not> n_isCalc (ns ! j) then c j ns else Some (ns, [])) = Some (ns1, a1)"
  proof (cases "n_isCalc (ns ! j)")
    case False
    have "c j ns \<noteq> None" using assms unfolding ends_def by blast
    with False that show ?thesis by auto
  qed (use that in simp)
  obtain v1 e1 n1 b where "read_output ne j name unit ns1 = (v1, e1, n1, b)" by (rule prod_cases4)
  with 1 show ?thesis unfolding source_getValue_def by simp
qed

text \<open>
  What the body of a class promises, given a calculation \<open>c\<close> of other objects that keeps the
  frame: it changes its own object only, keeps its links and the values they gave, ends when
  \<open>c\<close> ends, and asks \<open>c\<close> for the objects of its \<open>cls\<close> only.
\<close>

locale bodies =
  fixes ne :: net_env and cls :: "'d \<Rightarrow> nat list \<times> nat list" and body :: "'d calc \<Rightarrow> 'd calc"
  assumes body_frame: "good cls c \<Longrightarrow> net_wf cls ns \<Longrightarrow> i < length ns \<Longrightarrow> n_isCalc (ns ! i)
      \<Longrightarrow> body c i ns = Some (ns', a) \<Longrightarrow> frame cls {i} ns ns' \<and> runs_fresh ns ns' a
        \<and> (\<forall>k. active cls (ns ! i) k \<longrightarrow> in_value (ns' ! i) k = in_value (ns ! i) k)"
    and body_ends: "good cls c \<Longrightarrow> ends cls n c \<Longrightarrow> net_wf cls ns \<Longrightarrow> i < length ns \<Longrightarrow> n_isCalc (ns ! i)
      \<Longrightarrow> uncalc ns < n \<Longrightarrow> body c i ns \<noteq> None"
    and body_settles: "good cls c \<Longrightarrow> settles cls ne rank c \<Longrightarrow> net_wf cls ns \<Longrightarrow> ranked cls rank ns
      \<Longrightarrow> i < length ns \<Longrightarrow> n_isCalc (ns ! i) \<Longrightarrow> i \<in> P \<Longrightarrow> (\<And>j. rank j < rank i \<Longrightarrow> at_work rank P (rank j) ns)
      \<Longrightarrow> settled cls ne P ns \<Longrightarrow> body c i ns = Some (ns', a) \<Longrightarrow> settled cls ne P ns'"
begin

abbreviation start :: "nat \<Rightarrow> 'd net \<Rightarrow> 'd net" where
  "start i ns \<equiv> upd i (\<lambda>n. n\<lparr>n_isCalc := True, n_fault := 0\<rparr>) ns"

lemma start_frame: "i < length ns \<Longrightarrow> \<not> n_isCalc (ns ! i) \<Longrightarrow> frame cls {} ns (start i ns)"
  by (auto simp: frame_def upd_nth static_def)

lemma start_fresh: "i < length ns \<Longrightarrow> \<not> n_isCalc (ns ! i) \<Longrightarrow> fresh ns (start i ns) = {i}"
  by (auto simp: fresh_def upd_nth split: if_splits)

lemma start_uncalc: "i < length ns \<Longrightarrow> \<not> n_isCalc (ns ! i) \<Longrightarrow> uncalc (start i ns) < uncalc ns"
proof -
  assume i: "i < length ns" and c: "\<not> n_isCalc (ns ! i)"
  have "{j. j < length (start i ns) \<and> \<not> n_isCalc (start i ns ! j)} = {j. j < length ns \<and> \<not> n_isCalc (ns ! j)} - {i}"
    using i by (auto simp: upd_nth split: if_splits)
  moreover have "card ({j. j < length ns \<and> \<not> n_isCalc (ns ! j)} - {i}) < card {j. j < length ns \<and> \<not> n_isCalc (ns ! j)}"
    by (rule card_Diff1_less) (use i c in auto)
  ultimately show ?thesis unfolding uncalc_def by (simp only:)
qed

lemma frame_own:
  "frame cls {i} (start i ns) ns' \<Longrightarrow> i < length ns \<Longrightarrow> \<not> n_isCalc (ns ! i) \<Longrightarrow> frame cls {} ns ns'"
proof -
  assume f: "frame cls {i} (start i ns) ns'" and i: "i < length ns" and c: "\<not> n_isCalc (ns ! i)"
  have "static cls (ns' ! j) = static cls (ns ! j)
      \<and> (n_isCalc (ns ! j) \<longrightarrow> n_isCalc (ns' ! j) \<and> lk0 (ns' ! j) = lk0 (ns ! j))" if j: "j < length ns" for j
  proof (cases "j = i")
    case True
    have "static cls (ns' ! i) = static cls (start i ns ! i)" using frame_static [OF f, of i] i by simp
    then show ?thesis using True i c by (simp add: static_def)
  next
    case False
    from f j have "static cls (ns' ! j) = static cls (start i ns ! j)
      \<and> (n_isCalc (start i ns ! j) \<longrightarrow> n_isCalc (ns' ! j) \<and> (j \<in> {i} \<or> lk0 (ns' ! j) = lk0 (start i ns ! j)))"
      unfolding frame_def by (simp del: upd_simps(2,3))
    with False show ?thesis by simp
  qed
  then show ?thesis using frame_length [OF f] by (simp add: frame_def)
qed

lemma calculate_split:
  assumes "calculate ne body (Suc f) i ns = Some (ns', a)" "\<not> n_isCalc (ns ! i)"
  obtains ns1 a1 a2 where
    "calc_links ne (calculate ne body f) i [0..<length (n_inputs (ns ! i))] (start i ns) = Some (ns1, a1)"
    "body (calculate ne body f) i ns1 = Some (ns', a2)" "a = a1 @ Ran i # a2"
  using assms by (auto simp: Option.bind_eq_Some_conv)

lemma calculate_good: "good cls (calculate ne body f)"
proof (induction f)
  case 0
  then show ?case by (simp add: good_def)
next
  case (Suc f)
  let ?c = "calculate ne body f"
  have "frame cls {} ns ns' \<and> runs_fresh ns ns' a \<and> n_isCalc (ns' ! i)"
    if w: "net_wf cls ns" and i: "i < length ns" and r: "calculate ne body (Suc f) i ns = Some (ns', a)" for i ns ns' a
  proof (cases "n_isCalc (ns ! i)")
    case True
    then show ?thesis using r by (auto simp: runs_fresh_def fresh_def)
  next
    case False
    obtain ns1 a1 a2 where 1: "calc_links ne ?c i [0..<length (n_inputs (ns ! i))] (start i ns) = Some (ns1, a1)"
      and 2: "body ?c i ns1 = Some (ns', a2)" and a: "a = a1 @ Ran i # a2"
      by (rule calculate_split [OF r False])
    have f0: "frame cls {} ns (start i ns)" by (rule start_frame [OF i False])
    have L: "frame cls {i} (start i ns) ns1 \<and> runs_fresh (start i ns) ns1 a1 \<and> n_isCalc (ns1 ! i)"
      using calc_links_good [OF Suc frame_wf [OF f0 w] _ _ _ _ 1] i by simp
    have i1: "i < length ns1" using L i frame_length by fastforce
    have w1: "net_wf cls ns1" using L frame_wf f0 w by blast
    have B: "frame cls {i} ns1 ns' \<and> runs_fresh ns1 ns' a2" using body_frame [OF Suc w1 i1 _ 2] L by blast
    have fr: "frame cls {i} (start i ns) ns'" using L B frame_trans by blast
    have "runs_fresh (start i ns) ns' (a1 @ a2)" using runs_fresh_trans L B by blast
    then have d: "distinct (rans (a1 @ a2))" "set (rans (a1 @ a2)) = fresh (start i ns) ns'"
      by (simp_all add: runs_fresh_def)
    have "fresh ns ns' = insert i (fresh (start i ns) ns')" "i \<notin> fresh (start i ns) ns'"
      using fresh_trans [OF f0 fr] start_fresh [OF i False] by auto
    with d have "runs_fresh ns ns' a" by (auto simp: runs_fresh_def a)
    moreover have "n_isCalc (ns' ! i)" using B L i1 frame_calc by blast
    ultimately show ?thesis using frame_own [OF fr i False] by blast
  qed
  then show ?case unfolding good_def by blast
qed

lemma calc_link_ends:
  assumes "ends cls n c" "net_wf cls ns" "i < length ns" "k < length (n_inputs (ns ! i))" "uncalc ns < n"
  shows "calc_link ne c i k ns \<noteq> None"
proof -
  have "source_getValue ne c j (l_param (sl_link (n_inputs (ns ! i) ! k))) (l_unit (sl_link (n_inputs (ns ! i) ! k))) ns \<noteq> None"
    if "sl_source (n_inputs (ns ! i) ! k) = Some j" for j
    using getValue_ends [OF assms(1,2) wf_link(1) [OF assms(2,3,4) that] assms(5)] .
  then show ?thesis by (auto simp: calc_link_def Let_def split: option.splits prod.splits)
qed

lemma calc_links_ends:
  assumes g: "good cls c" and e: "ends cls n c"
  shows "net_wf cls ns \<Longrightarrow> i < length ns \<Longrightarrow> \<forall>k\<in>set ks. k < length (n_inputs (ns ! i)) \<Longrightarrow> n_isCalc (ns ! i)
    \<Longrightarrow> uncalc ns < n \<Longrightarrow> calc_links ne c i ks ns \<noteq> None"
proof (induction ks arbitrary: ns)
  case (Cons k ks)
  have k: "k < length (n_inputs (ns ! i))" using Cons.prems(3) by simp
  obtain ns1 a1 where 1: "calc_link ne c i k ns = Some (ns1, a1)"
    using calc_link_ends [OF e Cons.prems(1,2) k Cons.prems(5)] by auto
  have f1: "frame cls {i} ns ns1" using calc_link_good [OF g Cons.prems(1,2) k Cons.prems(4) 1] by blast
  have len1: "length (n_inputs (ns1 ! i)) = length (n_inputs (ns ! i))"
    using static_inputs(1) [OF frame_static [OF f1 Cons.prems(2)]] .
  have "calc_links ne c i ks ns1 \<noteq> None"
    by (rule Cons.IH [OF frame_wf [OF f1 Cons.prems(1)] _ _ frame_calc [OF f1 Cons.prems(2,4)]])
       (use Cons.prems len1 frame_length [OF f1] frame_uncalc [OF f1] in auto)
  with 1 show ?case by auto
qed simp

text \<open>Fuel as large as the number of objects not yet calculated is enough.\<close>

lemma calculate_ends: "ends cls f (calculate ne body f)"
proof (induction f)
  case (Suc f)
  let ?c = "calculate ne body f"
  have "calculate ne body (Suc f) i ns \<noteq> None"
    if w: "net_wf cls ns" and i: "i < length ns" and u: "uncalc ns < Suc f" for i ns
  proof (cases "n_isCalc (ns ! i)")
    case False
    let ?s = "start i ns"
    have f0: "frame cls {} ns ?s" by (rule start_frame [OF i False])
    note w0 = frame_wf [OF f0 w]
    have u0: "uncalc ?s < f" using start_uncalc [OF i False] u by simp
    have i0: "i < length ?s" "n_isCalc (?s ! i)" "length (n_inputs (?s ! i)) = length (n_inputs (ns ! i))"
      using i by simp_all
    obtain ns1 a1 where 1: "calc_links ne ?c i [0..<length (n_inputs (ns ! i))] ?s = Some (ns1, a1)"
      using calc_links_ends [OF calculate_good Suc w0 i0(1) _ i0(2) u0, of "[0..<length (n_inputs (ns ! i))]"]
      by (auto simp: i0(3))
    have L: "frame cls {i} ?s ns1" "n_isCalc (ns1 ! i)"
      using calc_links_good [OF calculate_good w0 i0(1) _ _ i0(2) 1] i0(3) by simp_all
    have "body ?c i ns1 \<noteq> None"
      by (rule body_ends [OF calculate_good Suc frame_wf [OF L(1) w0]])
         (use L i frame_length [OF L(1)] frame_uncalc [OF L(1)] u0 in auto)
    with 1 False show ?thesis by auto
  qed simp
  then show ?case unfolding ends_def by blast
qed (simp add: ends_def)

lemma calculate_settles: "settles cls ne rank (calculate ne body f)"
proof (induction f)
  case 0
  then show ?case by (simp add: settles_def)
next
  case (Suc f)
  let ?c = "calculate ne body f"
  note g = calculate_good [of f]
  have "settled cls ne P ns'"
    if w: "net_wf cls ns" and rk: "ranked cls rank ns" and i: "i < length ns"
      and aw: "at_work rank P (rank i) ns" and s: "settled cls ne P ns"
      and r: "calculate ne body (Suc f) i ns = Some (ns', a)" for P i ns ns' a
  proof (cases "n_isCalc (ns ! i)")
    case True
    then show ?thesis using r s by auto
  next
    case False
    let ?s = "start i ns" and ?Q = "insert i P"
    obtain ns1 a1 a2 where 1: "calc_links ne ?c i [0..<length (n_inputs (ns ! i))] ?s = Some (ns1, a1)"
      and 2: "body ?c i ns1 = Some (ns', a2)" by (rule calculate_split [OF r False])
    have f0: "frame cls {} ns ?s" by (rule start_frame [OF i False])
    note w0 = frame_wf [OF f0 w] and rk0 = frame_ranked [OF f0 rk]
    have i0: "i < length ?s" "n_isCalc (?s ! i)" "\<forall>k\<in>set [0..<length (n_inputs (ns ! i))]. k < length (n_inputs (?s ! i))"
      using i by simp_all
    have below: "at_work rank ?Q (rank j) ns2" if "rank j < rank i" "frame cls {i} ?s ns2" for j ns2
    proof -
      have "at_work rank ?Q (rank j) ?s" using aw that(1) i by (auto simp: at_work_def upd_nth)
      from frame_at_work [OF that(2) this] show ?thesis .
    qed
    have s0: "settled cls ne ?Q ?s"
    proof -
      have "fed cls ne ?s j k \<and> (active cls (?s ! j) k \<longrightarrow> (\<forall>m. sl_source (n_inputs (?s ! j) ! k) = Some m \<longrightarrow> m \<notin> ?Q))"
        if j: "j < length ns" and cj: "n_isCalc (?s ! j)" and jQ: "j \<notin> ?Q" for j k
      proof -
        have ji: "?s ! j = ns ! j" using jQ by simp
        have cj': "n_isCalc (ns ! j)" and jP: "j \<notin> P" using cj ji jQ by simp_all
        then have fd: "fed cls ne ns j k" "active cls (ns ! j) k \<Longrightarrow> sl_source (n_inputs (ns ! j) ! k) = Some m \<Longrightarrow> m \<notin> P" for m
          using s j unfolding settled_def by blast+
        have "m \<noteq> i" if "active cls (ns ! j) k" "sl_source (n_inputs (ns ! j) ! k) = Some m" for m
          using fd(1) that False by (auto simp: fed_def)
        moreover have "fed cls ne ?s j k" by (rule fed_kept [OF f0 w j _ _ fd(1)]) (simp_all add: ji)
        ultimately show ?thesis using fd(2) ji by auto
      qed
      then show ?thesis unfolding settled_def by (simp del: upd_simps(2,3) insert_iff)
    qed
    have L: "frame cls {i} ?s ns1 \<and> n_isCalc (ns1 ! i) \<and> (no_loop ?s i \<longrightarrow> (\<forall>k<length (n_inputs (ns ! i)). fed cls ne ns1 i k))"
      using calc_links_good [OF g w0 i0(1,3) _ i0(2) 1] by simp
    note f1 = conjunct1 [OF L]
    have s1: "settled cls ne ?Q ns1"
      by (rule calc_links_settles [OF g Suc w0 rk0 i0(1,3,2) _ _ s0 1]) (use below in auto)
    have i1: "i < length ns1" and c1: "n_isCalc (ns1 ! i)" using L i frame_length [OF f1] by simp_all
    note w1 = frame_wf [OF f1 w0] and rk1 = frame_ranked [OF f1 rk0]
    have s2: "settled cls ne ?Q ns'"
      by (rule body_settles [OF g Suc w1 rk1 i1 c1 _ _ s1 2]) (use below f1 in auto)
    have B: "frame cls {i} ns1 ns'" and keep: "active cls (ns1 ! i) k \<Longrightarrow> in_value (ns' ! i) k = in_value (ns1 ! i) k" for k
      using body_frame [OF g w1 i1 c1 2] by blast+
    have src: "m \<notin> ?Q" if "active cls (ns1 ! i) k" "sl_source (n_inputs (ns1 ! i) ! k) = Some m" for k m
    proof -
      have "rank m < rank i" using rk1 i1 that by (auto simp: ranked_def active_def linked_def)
      with aw show ?thesis by (auto simp: at_work_def)
    qed
    have own: "fed cls ne ns' i k" for k
    proof -
      have "rank j < rank i" if "k < length (n_inputs (?s ! i))" "sl_source (n_inputs (?s ! i) ! k) = Some j" for k j
        using rk0 i0(1) that unfolding ranked_def by blast
      then have "no_loop ?s i" unfolding no_loop_def by blast
      then have fk: "fed cls ne ns1 i k"
        using L static_inputs(1) [OF frame_static [OF f1 i0(1)]] i by (cases "active cls (ns1 ! i) k") (auto simp: active_def linked_def fed_def)
      show ?thesis by (rule fed_kept [OF B w1 i1 _ keep fk]) (use src in auto)
    qed
    have st: "static cls (ns' ! i) = static cls (ns1 ! i)" by (rule frame_static [OF B i1])
    have "fed cls ne ns' j k \<and> (active cls (ns' ! j) k \<longrightarrow> (\<forall>m. sl_source (n_inputs (ns' ! j) ! k) = Some m \<longrightarrow> m \<notin> P))"
      if j: "j < length ns'" and cj: "n_isCalc (ns' ! j)" and jP: "j \<notin> P" for j k
    proof (cases "j = i")
      case True
      have "m \<notin> P" if "active cls (ns' ! i) k" "sl_source (n_inputs (ns' ! i) ! k) = Some m" for m
      proof -
        have act: "active cls (ns1 ! i) k" using that(1) static_active [OF st] by simp
        then have "k < length (n_inputs (ns1 ! i))" by (simp add: active_def linked_def)
        from src [OF act] that(2) static_source(1) [OF st this] show ?thesis by simp
      qed
      with own True show ?thesis by blast
    next
      case False
      then have "j \<notin> ?Q" using jP by simp
      then show ?thesis using s2 j cj unfolding settled_def by blast
    qed
    then show ?thesis unfolding settled_def by blast
  qed
  then show ?case unfolding settles_def by blast
qed

lemma preCalculate_nth: "i < length ns \<Longrightarrow> preCalculate ns ! i = (ns ! i)\<lparr>n_isCalc := False\<rparr>"
  by (simp add: preCalculate_def)

lemma preCalculate_length [simp]: "length (preCalculate ns) = length ns"
  by (simp add: preCalculate_def)

lemma preCalculate_wf: "net_wf cls ns \<Longrightarrow> net_wf cls (preCalculate ns)"
  by (simp add: net_wf_def preCalculate_nth cong: option.case_cong)

lemma preCalculate_ranked: "ranked cls rank ns \<Longrightarrow> ranked cls rank (preCalculate ns)"
  by (simp add: ranked_def preCalculate_nth)

lemma preCalculate_settled: "settled cls ne P (preCalculate ns)"
  by (simp add: settled_def preCalculate_nth)

lemma calculate_all_good:
  assumes g: "good cls c"
  shows "net_wf cls ns \<Longrightarrow> \<forall>j\<in>set js. j < length ns \<Longrightarrow> calculate_all c js x ns = Some (ns', a)
    \<Longrightarrow> frame cls {} ns ns' \<and> runs_fresh ns ns' a \<and> (\<forall>j\<in>set js. n_isCalc (ns' ! j))"
proof (induction js arbitrary: ns a)
  case Nil
  then show ?case by (simp add: runs_fresh_def fresh_def)
next
  case (Cons j js)
  obtain ns1 a1 a2 where 1: "c j ns = Some (ns1, a1)" and 2: "calculate_all c js x ns1 = Some (ns', a2)" and a: "a = a1 @ a2"
    using Cons.prems(3) by (auto simp: Option.bind_eq_Some_conv)
  have j: "j < length ns" using Cons.prems(2) by simp
  note G = goodD [OF g Cons.prems(1) j 1]
  have l1: "length ns1 = length ns" using G frame_length by blast
  note IH = Cons.IH [OF frame_wf [OF conjunct1 [OF G] Cons.prems(1)] _ 2]
  have IH: "frame cls {} ns1 ns' \<and> runs_fresh ns1 ns' a2 \<and> (\<forall>j\<in>set js. n_isCalc (ns' ! j))"
    using IH Cons.prems(2) l1 by simp
  have "n_isCalc (ns' ! j)" using IH G j l1 frame_calc by metis
  then show ?case using G IH frame_trans runs_fresh_trans unfolding a by fastforce
qed

lemma calculate_all_ends:
  assumes g: "good cls c" and e: "ends cls n c"
  shows "net_wf cls ns \<Longrightarrow> \<forall>j\<in>set js. j < length ns \<Longrightarrow> uncalc ns < n \<Longrightarrow> calculate_all c js x ns \<noteq> None"
proof (induction js arbitrary: ns)
  case (Cons j js)
  have j: "j < length ns" using Cons.prems(2) by simp
  have "c j ns \<noteq> None" using e Cons.prems(1,3) j unfolding ends_def by blast
  then obtain ns1 a1 where 1: "c j ns = Some (ns1, a1)" by auto
  note f = conjunct1 [OF goodD [OF g Cons.prems(1) j 1]]
  have "calculate_all c js x ns1 \<noteq> None"
    by (rule Cons.IH [OF frame_wf [OF f Cons.prems(1)]])
       (use Cons.prems(2,3) frame_length [OF f] frame_uncalc [OF f] in auto)
  with 1 show ?case by auto
qed simp

lemma calculate_all_settles:
  assumes g: "good cls c" and c: "settles cls ne rank c"
  shows "net_wf cls ns \<Longrightarrow> ranked cls rank ns \<Longrightarrow> \<forall>j\<in>set js. j < length ns \<Longrightarrow> settled cls ne {} ns
    \<Longrightarrow> calculate_all c js x ns = Some (ns', a) \<Longrightarrow> settled cls ne {} ns'"
proof (induction js arbitrary: ns a)
  case (Cons j js)
  obtain ns1 a1 a2 where 1: "c j ns = Some (ns1, a1)" and 2: "calculate_all c js x ns1 = Some (ns', a2)"
    using Cons.prems(5) by (auto simp: Option.bind_eq_Some_conv)
  have j: "j < length ns" using Cons.prems(3) by simp
  note f = conjunct1 [OF goodD [OF g Cons.prems(1) j 1]]
  have s1: "settled cls ne {} ns1"
    by (rule settlesD [OF c Cons.prems(1,2) j _ Cons.prems(4) 1]) (simp add: at_work_def)
  show ?case
    by (rule Cons.IH [OF frame_wf [OF f Cons.prems(1)] frame_ranked [OF f Cons.prems(2)] _ s1 2])
       (use Cons.prems(3) frame_length [OF f] in auto)
qed simp

lemma live_prefix: "\<forall>j\<in>set (takeWhile live [0..<n]). j < n"
  by (auto dest: set_takeWhileD)

lemma live_all: "i < n \<Longrightarrow> \<forall>j\<le>i. live j \<Longrightarrow> i \<in> set (takeWhile live [0..<n])"
proof -
  assume i: "i < n" and l: "\<forall>j\<le>i. live j"
  have "takeWhile live ([0..<Suc i] @ [Suc i..<n]) = [0..<Suc i] @ takeWhile live [Suc i..<n]"
    by (rule takeWhile_append2) (use l in auto)
  moreover have "[0..<n] = [0..<Suc i] @ [Suc i..<n]" using upt_add_eq_append [of 0 "Suc i" "n - Suc i"] i by simp
  ultimately show ?thesis by simp
qed

text \<open>
  A scan always ends, whatever cycles the links form. It runs no object's own calculation twice and
  changes no link; without a halt it runs each object.
\<close>

lemma scan_once:
  assumes w: "net_wf cls ns"
  shows "\<exists>ns' a. scan ne body live ns = Some (ns', a) \<and> length ns' = length ns \<and> net_wf cls ns'
    \<and> (\<forall>i<length ns. static cls (ns' ! i) = static cls (ns ! i))
    \<and> distinct (rans a) \<and> set (rans a) = {i. i < length ns \<and> n_isCalc (ns' ! i)}
    \<and> (\<forall>i<length ns. (\<forall>j\<le>i. live j) \<longrightarrow> n_isCalc (ns' ! i))"
proof -
  let ?n0 = "preCalculate ns" and ?c = "calculate ne body (Suc (length ns))" and ?js = "takeWhile live [0..<length ns]"
  have js: "\<forall>j\<in>set ?js. j < length ?n0" using live_prefix by simp
  have "uncalc ?n0 \<le> card {i. i < length ns}"
    unfolding uncalc_def by (rule card_mono) auto
  then have u: "uncalc ?n0 < Suc (length ns)" by simp
  obtain ns' a where r: "scan ne body live ns = Some (ns', a)"
    using calculate_all_ends [OF calculate_good calculate_ends preCalculate_wf [OF w] js u, of 0]
    unfolding scan_def by auto
  have G: "frame cls {} ?n0 ns' \<and> runs_fresh ?n0 ns' a \<and> (\<forall>j\<in>set ?js. n_isCalc (ns' ! j))"
    by (rule calculate_all_good [OF calculate_good preCalculate_wf [OF w] js r [unfolded scan_def]])
  then have "fresh ?n0 ns' = {i. i < length ns \<and> n_isCalc (ns' ! i)}" by (auto simp: fresh_def preCalculate_nth)
  then have "distinct (rans a) \<and> set (rans a) = {i. i < length ns \<and> n_isCalc (ns' ! i)}" using G by (simp add: runs_fresh_def)
  moreover have "length ns' = length ns" using G frame_length by fastforce
  moreover have "\<forall>i<length ns. (\<forall>j\<le>i. live j) \<longrightarrow> n_isCalc (ns' ! i)" using G live_all by blast
  moreover have "\<forall>i<length ns. static cls (ns' ! i) = static cls (ns ! i)"
    using frame_static [OF conjunct1 [OF G]] by (simp add: preCalculate_nth static_def)
  ultimately show ?thesis using r G frame_wf preCalculate_wf [OF w] by blast
qed

text \<open>
  Without cycles the whole scan works on one state: at its end every input shows exactly what its
  source shows, whatever order the objects are listed in.
\<close>

lemma scan_consistent:
  assumes w: "net_wf cls ns" and rk: "ranked cls rank ns" and r: "scan ne body live ns = Some (ns', a)"
    and i: "i < length ns" "n_isCalc (ns' ! i)"
    and k: "active cls (ns' ! i) k" and j: "sl_source (n_inputs (ns' ! i) ! k) = Some j"
  shows "in_value (ns' ! i) k = clean (out_value ne (ns' ! j)
      (l_param (sl_link (n_inputs (ns' ! i) ! k))) (l_unit (sl_link (n_inputs (ns' ! i) ! k))))"
proof -
  obtain ns2 a2 where "scan ne body live ns = Some (ns2, a2)" "length ns2 = length ns"
    using scan_once [OF w] by blast
  then have c: "length ns' = length ns" using r by auto
  have "settled cls ne {} ns'"
    by (rule calculate_all_settles [OF calculate_good calculate_settles preCalculate_wf [OF w]
          preCalculate_ranked [OF rk] _ preCalculate_settled r [unfolded scan_def]]) (use live_prefix in simp)
  then have "fed cls ne ns' i k" using c i by (simp add: settled_def)
  with k j show ?thesis by (simp add: fed_def)
qed

end

section \<open>Bodies that touch their own object only\<close>

text \<open>Reading and writing the member behind an output.\<close>

definition out_v :: "'d node \<Rightarrow> nat \<Rightarrow> lreal" where
  "out_v n o' = l_value (out_link n (n_outputs n ! o'))"

definition put :: "nat \<Rightarrow> lreal \<Rightarrow> 'd node \<Rightarrow> 'd node" where
  "put o' v n = (case n_outputs n ! o' of
     O_own l \<Rightarrow> n\<lparr>n_outputs := (n_outputs n)[o' := O_own (l\<lparr>l_value := v\<rparr>)]\<rparr>
   | O_in k \<Rightarrow> set_input k ((sl_link (n_inputs n ! k))\<lparr>l_value := v\<rparr>) n)"

definition own_output :: "'d node \<Rightarrow> nat \<Rightarrow> bool" where
  "own_output n o' \<longleftrightarrow> (case n_outputs n ! o' of O_own l \<Rightarrow> True | O_in k \<Rightarrow> False)"

definition own_body :: "('d node \<Rightarrow> 'd node \<times> act list) \<Rightarrow> 'd calc" where
  "own_body g i ns = (case g (ns ! i) of (n', a) \<Rightarrow> Some (upd i (\<lambda>_. n') ns, a))"

definition keeps_links :: "('d \<Rightarrow> nat list \<times> nat list) \<Rightarrow> 'd node \<Rightarrow> 'd node \<Rightarrow> bool" where
  "keeps_links cls n n' \<longleftrightarrow> static cls n' = static cls n \<and> n_isCalc n' = n_isCalc n
     \<and> (\<forall>k. active cls n k \<longrightarrow> in_value n' k = in_value n k)"

lemma keeps_links_refl [simp]: "keeps_links cls n n"
  by (simp add: keeps_links_def)

lemma keeps_links_trans: "keeps_links cls n n1 \<Longrightarrow> keeps_links cls n1 n2 \<Longrightarrow> keeps_links cls n n2"
proof -
  assume a: "keeps_links cls n n1" "keeps_links cls n1 n2"
  then have "active cls n1 k = active cls n k" for k
    using static_active unfolding keeps_links_def by blast
  with a show ?thesis unfolding keeps_links_def by metis
qed

lemma static_cong: "n_inputs n' = n_inputs n \<Longrightarrow> n_alias n' = n_alias n \<Longrightarrow> cls (n_data n') = cls (n_data n)
    \<Longrightarrow> static cls n' = static cls n"
  by (simp add: static_def)

lemma keeps_links_same: "n_inputs n' = n_inputs n \<Longrightarrow> n_alias n' = n_alias n \<Longrightarrow> cls (n_data n') = cls (n_data n)
    \<Longrightarrow> n_isCalc n' = n_isCalc n \<Longrightarrow> keeps_links cls n n'"
  by (simp add: keeps_links_def static_def in_value_def)

lemma own_body_local:
  assumes "\<And>n. keeps_links cls n (fst (g n)) \<and> rans (snd (g n)) = []" "i < length ns" "n_isCalc (ns ! i)" "own_body g i ns = Some (ns', a)"
  shows "frame cls {i} ns ns' \<and> fresh ns ns' = {} \<and> rans a = []
    \<and> (\<forall>k. active cls (ns ! i) k \<longrightarrow> in_value (ns' ! i) k = in_value (ns ! i) k)"
proof -
  have n: "ns' = upd i (\<lambda>_. fst (g (ns ! i))) ns" "rans a = []"
    using assms(4) assms(1) [of "ns ! i"] by (auto simp: own_body_def split: prod.splits)
  have k: "keeps_links cls (ns ! i) (fst (g (ns ! i)))" using assms(1) by simp
  have "frame cls {i} ns ns'" unfolding n(1) by (rule upd_own_frame) (use k in \<open>auto simp: keeps_links_def\<close>)
  moreover have "fresh ns ns' = {}" unfolding n(1) fresh_def using k by (auto simp: upd_nth keeps_links_def split: if_splits)
  ultimately show ?thesis using n assms(2) k by (simp add: keeps_links_def)
qed

lemma put_own [simp]:
  "own_output n o' \<Longrightarrow> n_inputs (put o' v n) = n_inputs n"
  "n_data (put o' v n) = n_data n" "n_isCalc (put o' v n) = n_isCalc n" "n_alias (put o' v n) = n_alias n"
  "n_fault (put o' v n) = n_fault n" "n_lockErr (put o' v n) = n_lockErr n"
  "n_ID (put o' v n) = n_ID n" "n_descr (put o' v n) = n_descr n" "length (n_outputs (put o' v n)) = length (n_outputs n)"
  by (auto simp: put_def own_output_def set_input_def split: outref.splits)

lemma own_output_put [simp]: "own_output (put p v n) o' \<longleftrightarrow> own_output n o'"
  by (cases "o' = p"; cases "p < length (n_outputs n)")
    (auto simp: put_def own_output_def set_input_def nth_list_update_if list_update_beyond split: outref.splits)

lemma out_v_put:
  assumes "own_output n p" "own_output n o'" "p < length (n_outputs n)" "o' < length (n_outputs n)"
  shows "out_v (put p v n) o' = (if o' = p then v else out_v n o')"
  using assms by (auto simp: out_v_def put_def own_output_def nth_list_update_if split: outref.splits)

lemma postCalculate_keeps [simp]:
  "n_inputs (fst (postCalculate n)) = n_inputs n" "n_data (fst (postCalculate n)) = n_data n"
  "n_isCalc (fst (postCalculate n)) = n_isCalc n" "n_alias (fst (postCalculate n)) = n_alias n"
  "n_fault (fst (postCalculate n)) = n_fault n" "n_lockErr (fst (postCalculate n)) = n_lockErr n"
  by (simp_all add: postCalculate_def)

lemma link_calculateLimit_value: "link_calculateLimit l = (l', e) \<Longrightarrow> l_value l' = l_value l \<and> l_unit l' = l_unit l \<and> l_ioName l' = l_ioName l"
  by (auto simp: link_calculateLimit_def split: prod.splits)

text \<open>The limits do not change the values.\<close>

lemma postCalculate_out [simp]: "o' < length (n_outputs n) \<Longrightarrow> out_v (fst (postCalculate n)) o' = out_v n o'"
  by (cases "n_outputs n ! o'")
    (auto simp: out_v_def postCalculate_def dest: link_calculateLimit_value split: prod.splits)

lemma postCalculate_own [simp]: "o' < length (n_outputs n) \<Longrightarrow> own_output (fst (postCalculate n)) o' \<longleftrightarrow> own_output n o'"
  by (cases "n_outputs n ! o'") (auto simp: own_output_def postCalculate_def split: prod.splits)

lemma postCalculate_length [simp]: "length (n_outputs (fst (postCalculate n))) = length (n_outputs n)"
  by (simp add: postCalculate_def)

section \<open>Resolving the links\<close>

definition checkOutput :: "'d node \<Rightarrow> string \<Rightarrow> bool" where
  "checkOutput n name = (let low = List.map tolower_char name in
     low = XmlName_FAULT \<or> (\<exists>o'\<in>set (n_outputs n). low = l_ioName (out_link n o')))"

definition getSource :: "'d net \<Rightarrow> string \<Rightarrow> string \<Rightarrow> nat option" where
  "getSource ns alias param = (let low = List.map tolower_char alias in
     case find (\<lambda>j. low = n_alias (ns ! j)) [0..<length ns] of None \<Rightarrow> None
     | Some j \<Rightarrow> if param \<noteq> [] then (if checkOutput (ns ! j) param then Some j else None) else Some j)"

definition DATACFGERR_CHECKLINK :: UDINT where "DATACFGERR_CHECKLINK = 132"

text \<open>
  \<^verbatim>\<open>ResolveLinks\<close> over \<^verbatim>\<open>ListLink\<close>; a link is named by its object and its number there. The
  source it sets also makes the link valid.
\<close>

fun ResolveLinks :: "(nat \<times> nat) list \<Rightarrow> 'd net \<Rightarrow> UDINT \<times> 'd net" where
  "ResolveLinks [] ns = (TRITONN_RESULT_OK, ns)"
| "ResolveLinks ((i, k) # ls) ns = (let l = sl_link (n_inputs (ns ! i) ! k) in
     case getSource ns (l_alias l) (l_param l) of None \<Rightarrow> (DATACFGERR_CHECKLINK, ns)
     | Some j \<Rightarrow> ResolveLinks ls (upd i (\<lambda>n. n\<lparr>n_inputs := (n_inputs n)[k := \<lparr>sl_link = l\<lparr>l_valid := True\<rparr>, sl_source = Some j\<rparr>]\<rparr>) ns))"

end
