(* ===== verification/Ports.thy ===== *)
theory Ports
  imports Network
begin

text \<open>
  The inputs and outputs of a data object: \<^verbatim>\<open>rSource::initLink\<close> of
  \<^verbatim>\<open>src/tritonn/data/source.cpp\<close> registers them in the order of the calls, so an object of a class
  has a fixed \<open>shape\<close>; the unit codes of \<^verbatim>\<open>src/tritonn/units.h\<close>; writing several
  outputs; comparing a setting.
\<close>

section \<open>Units of measurement\<close>

definition U_C :: UDINT where "U_C = 16"
definition U_MPa :: UDINT where "U_MPa = 32"
definition U_bar :: UDINT where "U_bar = 35"
definition U_kg_m3 :: UDINT where "U_kg_m3 = 48"
definition U_sP :: UDINT where "U_sP = 64"
definition U_sSt :: UDINT where "U_sSt = 80"
definition U_t :: UDINT where "U_t = 96"
definition U_kg :: UDINT where "U_kg = 97"
definition U_m3 :: UDINT where "U_m3 = 112"
definition U_liter :: UDINT where "U_liter = 113"
definition U_t_h :: UDINT where "U_t_h = 128"
definition U_kg_h :: UDINT where "U_kg_h = 129"
definition U_m3_h :: UDINT where "U_m3_h = 144"
definition U_ltr_h :: UDINT where "U_ltr_h = 145"
definition U_imp_t :: UDINT where "U_imp_t = 160"
definition U_imp_kg :: UDINT where "U_imp_kg = 161"
definition U_imp_m3 :: UDINT where "U_imp_m3 = 176"
definition U_imp_ltr :: UDINT where "U_imp_ltr = 177"
definition U_Hz :: UDINT where "U_Hz = 192"
definition U_mksec :: UDINT where "U_mksec = 209"
definition U_imp :: UDINT where "U_imp = 514"
definition U_mA :: UDINT where "U_mA = 515"
definition U_1_C :: UDINT where "U_1_C = 517"
definition U_1_MPa :: UDINT where "U_1_MPa = 518"
definition U_perc_m :: UDINT where "U_perc_m = 519"
definition U_perc_v :: UDINT where "U_perc_v = 520"
definition U_UNDEF :: UDINT where "U_UNDEF = 999"

section \<open>Registering links\<close>

definition LINK_INOUTPUT :: UINT where "LINK_INOUTPUT = LINK_INPUT OR LINK_OUTPUT"

definition link_default :: rLink where
  "link_default = \<lparr>l_alias = [], l_fullTag = [], l_param = [], l_ioName = [], l_valid = False, l_unit = U_any,
     l_value = Fin 0, l_limit = limit_new, l_setup = 0, l_shadow = []\<rparr>"

definition initLink_of :: "rLink \<Rightarrow> UINT \<Rightarrow> UDINT \<Rightarrow> string \<Rightarrow> string \<Rightarrow> 'd node \<Rightarrow> 'd node" where
  "initLink_of l0 setup u name shadow n =
     (let l = (link_init setup u name l0)\<lparr>l_shadow := shadow\<rparr>;
          n1 = (if has setup LINK_INPUT then n\<lparr>n_inputs := n_inputs n @ [\<lparr>sl_link = l, sl_source = None\<rparr>]\<rparr> else n)
      in if has setup LINK_OUTPUT
         then n1\<lparr>n_outputs := n_outputs n1 @ [if has setup LINK_INPUT then O_in (length (n_inputs n)) else O_own l]\<rparr>
         else n1)"

definition initLink :: "UINT \<Rightarrow> UDINT \<Rightarrow> string \<Rightarrow> string \<Rightarrow> 'd node \<Rightarrow> 'd node" where
  "initLink = initLink_of link_default"

definition source_new :: "'d \<Rightarrow> 'd node" where
  "source_new d = \<lparr>n_alias = [], n_ID = 0, n_descr = 0, n_isCalc = False, n_fault = 0, n_lockErr = 0,
     n_inputs = [], n_outputs = [], n_data = d\<rparr>"

text \<open>A constructor: setup flags, unit, name and shadow of each link.\<close>

definition initLinks :: "(UINT \<times> UDINT \<times> string \<times> string) list \<Rightarrow> 'd node \<Rightarrow> 'd node" where
  "initLinks ls n = foldl (\<lambda>n (setup, u, name, shadow). initLink setup u name shadow n) n ls"

text \<open>How many inputs an object has and which of its outputs are inputs.\<close>

definition shape :: "'d node \<Rightarrow> nat \<times> nat option list" where
  "shape n = (length (n_inputs n), List.map (\<lambda>r. case r of O_in k \<Rightarrow> Some k | O_own l \<Rightarrow> None) (n_outputs n))"

text \<open>Only the flags of the calls decide the shape.\<close>

fun shape_of :: "UINT list \<Rightarrow> nat \<Rightarrow> nat \<times> nat option list" where
  "shape_of [] i = (i, [])"
| "shape_of (s # ss) i = (case shape_of ss (if has s LINK_INPUT then Suc i else i) of (m, os) \<Rightarrow>
     (m, if has s LINK_OUTPUT then (if has s LINK_INPUT then Some i else None) # os else os))"

lemma shape_initLink:
  "shape (initLink s u nm sh n) = (if has s LINK_INPUT then Suc (fst (shape n)) else fst (shape n),
     snd (shape n) @ (if has s LINK_OUTPUT then [if has s LINK_INPUT then Some (fst (shape n)) else None] else []))"
  by (simp add: shape_def initLink_def initLink_of_def Let_def)

lemma shape_initLinks:
  "shape (initLinks ls n) = (fst (shape_of (List.map fst ls) (fst (shape n))),
     snd (shape n) @ snd (shape_of (List.map fst ls) (fst (shape n))))"
  unfolding initLinks_def
  by (induction ls arbitrary: n) (auto simp: shape_initLink split: prod.splits)

lemma shape_source_new [simp]: "shape (source_new d) = (0, [])"
  by (simp add: shape_def source_new_def)

lemma shape_new: "shape (initLinks ls (source_new d)) = shape_of (List.map fst ls) 0"
  by (simp add: shape_initLinks)

lemma shape_own: "o' < length (snd (shape n)) \<Longrightarrow> own_output n o' \<longleftrightarrow> snd (shape n) ! o' = None"
  by (auto simp: shape_def own_output_def split: outref.splits)

lemma shape_length: "length (n_outputs n) = length (snd (shape n))" "length (n_inputs n) = fst (shape n)"
  by (simp_all add: shape_def)

lemma shape_put [simp]: "shape (put o' v n) = shape n"
proof (cases "n_outputs n ! o'")
  case (O_own l)
  show ?thesis
  proof (cases "o' < length (n_outputs n)")
    case True
    have "List.map (\<lambda>r. case r of O_in k \<Rightarrow> Some k | O_own l \<Rightarrow> None) ((n_outputs n)[o' := O_own (l\<lparr>l_value := v\<rparr>)])
      = List.map (\<lambda>r. case r of O_in k \<Rightarrow> Some k | O_own l \<Rightarrow> None) (n_outputs n)"
      by (rule nth_equalityI) (use O_own True in \<open>auto simp: nth_list_update_if\<close>)
    then show ?thesis by (simp add: shape_def put_def O_own)
  qed (simp add: shape_def put_def O_own list_update_beyond)
qed (simp add: shape_def put_def)

lemma shape_upd [simp]:
  "shape (n\<lparr>n_lockErr := a\<rparr>) = shape n" "shape (n\<lparr>n_fault := a\<rparr>) = shape n" "shape (n\<lparr>n_data := d\<rparr>) = shape n"
  "shape (n\<lparr>n_isCalc := b\<rparr>) = shape n"
  by (simp_all add: shape_def)

lemma shape_post [simp]: "shape (fst (postCalculate n)) = shape n"
  by (auto simp: shape_def postCalculate_def split: outref.splits prod.splits)

section \<open>Writing outputs\<close>

definition puts :: "(nat \<times> lreal) list \<Rightarrow> 'd node \<Rightarrow> 'd node" where
  "puts ps n = foldl (\<lambda>n (o', v). put o' v n) n ps"

lemma puts_simps [simp]: "puts [] n = n" "puts ((o', v) # ps) n = puts ps (put o' v n)"
  by (simp_all add: puts_def)

lemma puts_keeps [simp]:
  "n_data (puts ps n) = n_data n" "n_isCalc (puts ps n) = n_isCalc n" "n_alias (puts ps n) = n_alias n"
  "n_fault (puts ps n) = n_fault n" "n_lockErr (puts ps n) = n_lockErr n" "n_ID (puts ps n) = n_ID n"
  "n_descr (puts ps n) = n_descr n" "shape (puts ps n) = shape n"
  by (induction ps arbitrary: n) auto

lemma puts_inputs: "\<forall>(o', v)\<in>set ps. own_output n o' \<Longrightarrow> n_inputs (puts ps n) = n_inputs n"
  by (induction ps arbitrary: n) auto

lemma in_value_puts: "\<forall>(o', v)\<in>set ps. own_output n o' \<Longrightarrow> in_value (puts ps n) k = in_value n k"
  by (simp add: in_value_def puts_inputs)

lemma own_output_puts [simp]: "own_output (puts ps n) o' = own_output n o'"
proof (induction ps arbitrary: n)
  case (Cons pv ps)
  then show ?case by (cases pv) (simp only: puts_simps own_output_put)
qed simp

lemma puts_length [simp]: "length (n_outputs (puts ps n)) = length (n_outputs n)"
  by (induction ps arbitrary: n) auto

text \<open>The last write to an output counts.\<close>

lemma out_v_puts:
  "\<forall>(p, v)\<in>set ps. own_output n p \<and> p < length (n_outputs n) \<Longrightarrow> own_output n o' \<Longrightarrow> o' < length (n_outputs n)
   \<Longrightarrow> out_v (puts ps n) o' = (case map_of (rev ps) o' of None \<Rightarrow> out_v n o' | Some v \<Rightarrow> v)"
proof (induction ps arbitrary: n)
  case (Cons pv ps)
  obtain p v where pv: "pv = (p, v)" by force
  have "out_v (puts ps (put p v n)) o' = (case map_of (rev ps) o' of None \<Rightarrow> out_v (put p v n) o' | Some v \<Rightarrow> v)"
    by (rule Cons.IH) (use Cons.prems pv in auto)
  moreover have "out_v (put p v n) o' = (if o' = p then v else out_v n o')"
    using Cons.prems pv by (simp add: out_v_put)
  ultimately show ?case
    by (auto simp: pv map_add_def split: option.splits)
qed simp

lemma out_v_upd [simp]:
  "out_v (n\<lparr>n_lockErr := a\<rparr>) o' = out_v n o'" "out_v (n\<lparr>n_fault := b\<rparr>) o' = out_v n o'"
  "out_v (n\<lparr>n_data := d\<rparr>) o' = out_v n o'"
proof -
  have "out_link (n\<lparr>n_lockErr := a\<rparr>) r = out_link n r" "out_link (n\<lparr>n_fault := b\<rparr>) r = out_link n r"
    "out_link (n\<lparr>n_data := d\<rparr>) r = out_link n r" for r by (cases r; simp)+
  then show "out_v (n\<lparr>n_lockErr := a\<rparr>) o' = out_v n o'" "out_v (n\<lparr>n_fault := b\<rparr>) o' = out_v n o'"
    "out_v (n\<lparr>n_data := d\<rparr>) o' = out_v n o'" by (simp_all add: out_v_def)
qed

lemma own_output_upd [simp]:
  "own_output (n\<lparr>n_lockErr := a\<rparr>) o' = own_output n o'" "own_output (n\<lparr>n_fault := b\<rparr>) o' = own_output n o'"
  by (simp_all add: own_output_def)

text \<open>Some classes give their outputs another unit.\<close>

definition put_unit :: "nat \<Rightarrow> UDINT \<Rightarrow> 'd node \<Rightarrow> 'd node" where
  "put_unit o' u n = (case n_outputs n ! o' of
     O_own l \<Rightarrow> n\<lparr>n_outputs := (n_outputs n)[o' := O_own (l\<lparr>l_unit := u\<rparr>)]\<rparr>
   | O_in k \<Rightarrow> set_input k ((sl_link (n_inputs n ! k))\<lparr>l_unit := u\<rparr>) n)"

definition out_unit :: "'d node \<Rightarrow> nat \<Rightarrow> UDINT" where
  "out_unit n o' = l_unit (out_link n (n_outputs n ! o'))"

lemma put_unit_own [simp]:
  "own_output n o' \<Longrightarrow> n_inputs (put_unit o' u n) = n_inputs n"
  "n_data (put_unit o' u n) = n_data n" "n_isCalc (put_unit o' u n) = n_isCalc n" "n_alias (put_unit o' u n) = n_alias n"
  "n_fault (put_unit o' u n) = n_fault n" "n_lockErr (put_unit o' u n) = n_lockErr n"
  "n_ID (put_unit o' u n) = n_ID n" "n_descr (put_unit o' u n) = n_descr n"
  "length (n_outputs (put_unit o' u n)) = length (n_outputs n)" "own_output (put_unit p u n) o' \<longleftrightarrow> own_output n o'"
  by (cases "o' = p"; cases "p < length (n_outputs n)";
    auto simp: put_unit_def own_output_def set_input_def nth_list_update_if list_update_beyond split: outref.splits)+

lemma out_v_put_unit: "own_output n p \<Longrightarrow> own_output n o' \<Longrightarrow> out_v (put_unit p u n) o' = out_v n o'"
  by (cases "p < length (n_outputs n)"; cases "o' = p")
    (auto simp: out_v_def put_unit_def own_output_def list_update_beyond split: outref.splits)

section \<open>Quiet bodies\<close>

text \<open>
  What a body does that starts no other calculation: it changes its own object and at most latches
  errors elsewhere. Small steps compose.
\<close>

definition quiet :: "('d \<Rightarrow> nat list \<times> nat list) \<Rightarrow> nat \<Rightarrow> 'd net \<Rightarrow> 'd net \<Rightarrow> bool" where
  "quiet cls i ns ns' \<longleftrightarrow> frame cls {i} ns ns' \<and> fresh ns ns' = {}
     \<and> (\<forall>k. active cls (ns ! i) k \<longrightarrow> in_value (ns' ! i) k = in_value (ns ! i) k)"

lemma quiet_refl [simp]: "quiet cls i ns ns"
  by (simp add: quiet_def fresh_def)

lemma quiet_trans:
  assumes "quiet cls i ns ns1" "quiet cls i ns1 ns2" "i < length ns"
  shows "quiet cls i ns ns2"
proof -
  have f: "frame cls {i} ns ns1" "frame cls {i} ns1 ns2" using assms(1,2) by (auto simp: quiet_def)
  have "active cls (ns1 ! i) k = active cls (ns ! i) k" for k
    using static_active [OF frame_static [OF f(1) assms(3)]] .
  moreover have "fresh ns ns2 = {}" using assms(1,2) fresh_trans(1) [OF f] by (simp add: quiet_def)
  moreover note frame_trans [OF f]
  ultimately show ?thesis using assms(1,2) unfolding quiet_def by auto
qed

lemma quiet_upd:
  assumes "keeps_links cls (ns ! i) (f (ns ! i))" "i < length ns"
  shows "quiet cls i ns (upd i f ns)"
proof -
  have "frame cls {i} ns (upd i f ns)" by (rule upd_own_frame) (use assms in \<open>auto simp: keeps_links_def\<close>)
  moreover have "fresh ns (upd i f ns) = {}" unfolding fresh_def
    using assms by (auto simp: upd_nth keeps_links_def split: if_splits)
  ultimately show ?thesis using assms by (simp add: quiet_def keeps_links_def)
qed

lemma quiet_latch:
  assumes "latches_only ns ns'" "i < length ns"
  shows "quiet cls i ns ns'"
proof -
  have "lk0 (ns' ! i) = lk0 (ns ! i)" using assms by (simp add: latches_only_def)
  from lk0_fields [OF this, of cls] have "in_value (ns' ! i) k = in_value (ns ! i) k" for k by (simp add: in_value_def)
  with latches_only_frame [OF assms(1), of cls "{i}"] show ?thesis by (simp add: quiet_def)
qed

lemma quiet_length: "quiet cls i ns ns' \<Longrightarrow> length ns' = length ns"
  by (simp add: quiet_def frame_def)

lemma keeps_links_put: "own_output n o' \<Longrightarrow> keeps_links cls n (put o' v n)"
  by (rule keeps_links_same) simp_all

lemma keeps_links_put_unit: "own_output n o' \<Longrightarrow> keeps_links cls n (put_unit o' u n)"
  by (rule keeps_links_same) simp_all

section \<open>Settings\<close>

text \<open>\<^verbatim>\<open>Compare(COMPARE_LREAL_PREC, reinitEvent(eid))\<close>.\<close>

definition compare_setting :: "'d node \<Rightarrow> UDINT \<Rightarrow> lreal rCompared \<Rightarrow> lreal rCompared \<times> cevent list" where
  "compare_setting n eid c = (case cmp_Compare_LREAL_prec COMPARE_LREAL_PREC (nevent n eid) c of
     (_, c', _, out) \<Rightarrow> (c', out))"

end
