(* ===== verification/Density.thy ===== *)
theory Density
  imports Ports
begin

text \<open>
  The density of oil and water: \<^verbatim>\<open>src/tritonn/density.cpp\<close> and \<^verbatim>\<open>densitywater.cpp\<close>, the
  solartron densitometer \<^verbatim>\<open>data_denssol.cpp\<close> with its iteration to 15 degrees, the reduction of a
  density \<^verbatim>\<open>data_reduceddensity.cpp\<close>, the conversions of water content \<^verbatim>\<open>data/volwater.cpp\<close>
  and \<^verbatim>\<open>data/masswater.cpp\<close> and of viscosity \<^verbatim>\<open>data/dynamicviscosity.cpp\<close> and
  \<^verbatim>\<open>data/kinematicviscosity.cpp\<close>. Each \<open>_body\<close> is the part of \<^verbatim>\<open>calculate\<close> behind
  \<^verbatim>\<open>rSource::calculate\<close>; inputs and outputs are numbered in the order the constructor
  registers them. \<^verbatim>\<open>exp\<close> of the C library is an argument.
\<close>

section \<open>Products\<close>

datatype Product = PETROLEUM | GAZOLENE | TRANSITION | JETFUEL | FUELOIL | SMARTBENZENE | LUBRICANT

fun Product_code :: "Product \<Rightarrow> nat" where
  "Product_code PETROLEUM = 0"
| "Product_code GAZOLENE = 1"
| "Product_code TRANSITION = 2"
| "Product_code JETFUEL = 3"
| "Product_code FUELOIL = 4"
| "Product_code SMARTBENZENE = 5"
| "Product_code LUBRICANT = 6"

definition DENS_K0 :: "lreal list" where
  "DENS_K0 = List.map dround [6139723 / 10000, 34642280 / 100000, 26907440 / 10000, 5945418 / 10000, 1869696 / 10000, 0]"

definition DENS_K1 :: "lreal list" where
  "DENS_K1 = List.map dround [0, 43884 / 100000, 0, 0, 4862 / 10000, 6278 / 10000]"

definition DENS_K2 :: "lreal list" where
  "DENS_K2 = List.map dround [0, 0, - (33762 / 10000000), 0, 0, 0]"

definition CONVERGENCE :: lreal where "CONVERGENCE = dround (5 / 10000)"

text \<open>
  \<^verbatim>\<open>Limit[7][2]\<close> in memory order: minimum and maximum of each product. The code reads
  \<^verbatim>\<open>Limit[0][id]\<close> and \<^verbatim>\<open>Limit[1][id]\<close>, which the address arithmetic of C turns into entries
  \<open>id\<close> and \<open>2 + id\<close>.
\<close>

definition DENS_Limit :: "real list" where
  "DENS_Limit = [6112 / 10, 11638 / 10, 6112 / 10, 7709 / 10, 7709 / 10, 788, 788, 8387 / 10,
     8387 / 10, 11639 / 10, 6112 / 10, 11639 / 10, 8013 / 10, 11639 / 10]"

definition Limit_at :: "nat \<Rightarrow> nat \<Rightarrow> lreal" where
  "Limit_at r c = dround (DENS_Limit ! (2 * r + c))"

definition getTypeProduct :: "lreal \<Rightarrow> Product \<Rightarrow> nat" where
  "getTypeProduct dens product = (case product of
     PETROLEUM \<Rightarrow> 0 | GAZOLENE \<Rightarrow> 1 | TRANSITION \<Rightarrow> 2 | JETFUEL \<Rightarrow> 3 | FUELOIL \<Rightarrow> 4
   | SMARTBENZENE \<Rightarrow> (if dens < dround (7709 / 10) then 1 else if dens < dround 788 then 2
       else if dens < dround (8387 / 10) then 3 else 4)
   | LUBRICANT \<Rightarrow> 5)"

definition getDens20 :: "(lreal \<Rightarrow> lreal) \<Rightarrow> lreal \<Rightarrow> lreal \<Rightarrow> lreal" where
  "getDens20 ex dens15 b15 = dens15 * ex (- Fin 5 * b15 * (Fin 1 + Fin 4 * b15))"

definition getY :: "(lreal \<Rightarrow> lreal) \<Rightarrow> lreal \<Rightarrow> lreal \<Rightarrow> lreal" where
  "getY ex dens15 temp = dround (1 / 1000) * ex (- dround (162080 / 100000) + dround (21592 / 100000000) * temp
     + (Fin 870960 + dround (42092 / 10) * temp) / (dens15 * dens15))"

definition getY15 :: "(lreal \<Rightarrow> lreal) \<Rightarrow> lreal \<Rightarrow> lreal" where
  "getY15 ex dens15 = getY ex dens15 (Fin 15)"

definition getMinLimit :: "Product \<Rightarrow> lreal" where
  "getMinLimit product = (if Product_code product < 7 then Limit_at 0 (Product_code product) else Fin 0)"

definition getMaxLimit :: "Product \<Rightarrow> lreal" where
  "getMaxLimit product = (if Product_code product < 7 then Limit_at 1 (Product_code product) else Fin 0)"

section \<open>Water\<close>

text \<open>The table in grams per cubic metre, by tenths of a degree.\<close>

definition DENSWATER :: "nat list" where
  "DENSWATER = [999839, 999846, 999852, 999859, 999865, 999871, 999877, 999882, 999888, 999893,
     999898, 999903, 999908, 999913, 999917, 999921, 999925, 999929, 999933, 999936,
     999940, 999943, 999946, 999949, 999952, 999954, 999956, 999959, 999961, 999962,
     999964, 999966, 999967, 999968, 999969, 999970, 999971, 999971, 999972, 999972,
     999972, 999972, 999972, 999971, 999971, 999970, 999969, 999968, 999967, 999965,
     999964, 999962, 999960, 999958, 999956, 999954, 999951, 999949, 999946, 999943,
     999940, 999937, 999934, 999930, 999926, 999923, 999919, 999915, 999910, 999906,
     999901, 999897, 999892, 999887, 999882, 999877, 999871, 999866, 999860, 999854,
     999848, 999842, 999836, 999829, 999823, 999816, 999809, 999802, 999795, 999788,
     999781, 999773, 999765, 999758, 999750, 999742, 999734, 999725, 999717, 999708,
     999699, 999691, 999682, 999672, 999663, 999654, 999644, 999635, 999625, 999615,
     999605, 999595, 999584, 999574, 999563, 999553, 999542, 999531, 999520, 999509,
     999497, 999486, 999474, 999462, 999451, 999439, 999426, 999414, 999402, 999389,
     999377, 999364, 999351, 999338, 999325, 999312, 999299, 999285, 999272, 999258,
     999244, 999230, 999216, 999202, 999188, 999173, 999159, 999144, 999129, 999114,
     999099, 999084, 999069, 999054, 999038, 999022, 999007, 998991, 998975, 998958,
     998943, 998926, 998910, 999894, 998877, 998860, 998843, 998826, 998809, 998792,
     998775, 998757, 998740, 998722, 998704, 998686, 998668, 998650, 998632, 998614,
     998595, 998577, 998558, 998539, 998520, 998502, 998482, 998463, 998444, 998425,
     998405, 998385, 998366, 998346, 998326, 998306, 998286, 998265, 998245, 998224,
     998204, 998183, 998162, 998141, 998120, 998099, 998078, 998057, 998035, 998014,
     997992, 997971, 997949, 997927, 997905, 997883, 997860, 997838, 997816, 997793,
     997770, 997747, 997725, 997702, 997679, 997656, 997632, 997609, 997585, 997562,
     997538, 997515, 997491, 997467, 997443, 997419, 997394, 997370, 997345, 997321,
     997296, 997272, 997247, 997222, 997197, 997172, 997146, 997121, 997096, 997070,
     997045, 997019, 996993, 996967, 996941, 996915, 996889, 996863, 996836, 996810,
     996783, 996757, 996730, 996703, 996676, 996649, 996622, 996595, 996568, 996540,
     996513, 996485, 996458, 996430, 996402, 996374, 996346, 996318, 996290, 996262,
     996233, 996205, 996176, 996148, 996119, 996090, 996061, 996032, 996003, 995974,
     995945, 995915, 995886, 995856, 995827, 995797, 995767, 995737, 995707, 995677,
     995647, 995617, 995586, 995556, 995526, 995495, 995464, 995433, 995403, 995372,
     995341, 995310, 995278, 995247, 995216, 995184, 995153, 995121, 995090, 995058,
     995026, 994997, 994962, 994930, 994898, 994865, 994833, 994801, 994768, 994735,
     994703, 994670, 994637, 994604, 994571, 994538, 994505, 994472, 994438, 994405,
     994371, 994338, 994304, 994270, 994236, 994202, 994168, 994134, 994100, 994066,
     994032, 993997, 993963, 993928, 993893, 993859, 993824, 993789, 993754, 993719,
     993684, 993648, 993613, 993578, 993543, 993507, 993471, 993436, 993400, 993364,
     993328, 993292, 993256, 993220, 993184, 993148, 993111, 993075, 993038, 993002,
     992965, 992928, 992891, 992855, 992818, 992780, 992743, 992706, 992669, 992631,
     992594, 992557, 992519, 992481, 992444, 992406, 992368, 992330, 992292, 992254,
     992215, 992177, 992139, 992100, 992062, 992023, 991985, 991946, 991907, 992868,
     991830, 991791, 991751, 991712, 992673, 991634, 991594, 991555, 991515, 991476,
     991436, 991396, 991357, 991317, 991277, 991237, 991197, 991157, 991116, 991076,
     991036, 990995, 990955, 990914, 990873, 990833, 990792, 990751, 990710, 990669,
     990628, 990587, 990546, 990504, 990463, 990421, 990380, 990338, 990297, 990255,
     990213, 990171, 990129, 990087, 990045, 990003, 989961, 989919, 989876, 989834,
     989792, 989749, 989706, 989664, 989621, 989578, 989535, 989492, 989449, 989406,
     989363, 989320, 989276, 989233, 989190, 989146, 989103, 989059, 989015, 988971,
     988928, 988884, 988840, 988796, 988752, 988707, 988663, 988619, 988574, 988530,
     988485, 988441, 988396, 988352, 988307, 988262, 988217, 988172, 988127, 988082,
     988037, 987992, 987946, 987901, 987844, 987810, 987764, 987719, 987673, 987627,
     987581, 987536, 987490, 987444, 987398, 987351, 987305, 987259, 987213, 987166,
     987120, 987073, 987027, 986980, 986933, 986886, 986840, 986793, 986746, 986699,
     986652, 986604, 986557, 986510, 986463, 986415, 986368, 986320, 986272, 986225,
     986177, 986129, 986081, 986033, 985985, 985937, 985889, 985841, 985793, 985745,
     985696, 985648, 985599, 985551, 985502, 985454, 985405, 985356, 985307, 985258,
     985219, 985160, 985111, 985062, 985013, 984963, 984914, 984865, 984815, 984766,
     984716, 984666, 984617, 984567, 984517, 984467, 984417, 984367, 984317, 984267,
     984217, 984167, 984116, 984066, 984016, 983965, 983914, 983864, 983813, 983762,
     983712, 983661, 983610, 983559, 983508, 983457, 983406, 983354, 983303, 983252,
     983200, 983149, 983097, 983046, 982994, 982943, 982891, 982839, 982787, 982735,
     982683, 982631, 982579, 982527, 982475, 982422, 982370, 982318, 982265, 982213,
     982160, 982108, 982055, 982002, 981949, 981897, 981844, 981791, 981738, 981685,
     981631, 981578, 981525, 981472, 981418, 981365, 981311, 981258, 981204, 981151,
     981097, 981043, 980989, 980935, 980881, 980827, 980773, 980719, 980665, 980611,
     980557, 980502, 980443, 980393, 980339, 980284, 980230, 980175, 980120, 980065,
     980011, 979956, 979901, 979846, 979791, 979736, 979680, 979625, 979570, 979515,
     979459, 979403, 979348, 979293, 979237, 979181, 979126, 979070, 979014, 978958,
     978902, 978846, 978790, 978734, 978678, 978621, 978565, 978509, 978452, 978396,
     978339, 978283, 978226, 978170, 978113, 978056, 977999, 977942, 977885, 977828,
     977771, 977714, 977657, 977600, 977543, 977485, 977428, 977370, 977313, 977255,
     977198, 977140, 977082, 977025, 976967, 976909, 976851, 976793, 976735, 976677,
     976619, 976561, 976503, 976444, 976386, 976327, 976269, 976211, 976152, 976093,
     976035, 975976, 975917, 975858, 975800, 975741, 975682, 975623, 975564, 975504,
     975445, 975386, 975327, 975267, 975208, 975148, 975089, 975029, 974970, 974910,
     974850, 974791, 974731, 974671, 974611, 974551, 974491, 974431, 974371, 974311,
     974250, 974190, 974130, 974069, 974009, 973948, 973888, 973827, 973767, 973706,
     973645, 973584, 973524, 973463, 973402, 973341, 973280, 973218, 973157, 973096,
     973025, 972974, 972912, 972851, 972789, 972728, 972666, 972605, 972543, 972481,
     972419, 972358, 972296, 972234, 972172, 972110, 972048, 971986, 971923, 971861,
     971799, 971737, 971674, 971612, 971549, 971487, 971424, 971361, 971299, 971236,
     971173, 971110, 971048, 970985, 970922, 970859, 970796, 970732, 970669, 970606,
     970543, 970479, 970416, 970353, 970289, 970226, 970162, 970098, 970035, 969971,
     969907, 969843, 969772, 969715, 969652, 969587, 969523, 969459, 969395, 969331,
     969267, 969202, 969138, 969073, 969009, 968944, 968880, 968815, 968751, 968686,
     968621, 968556, 968491, 968427, 968362, 968297, 968232, 968166, 968101, 968036,
     967971, 967906, 967840, 967775, 967709, 967644, 967578, 967513, 967447, 967381,
     967316, 967250, 967184, 967118, 967052, 966986, 966920, 966854, 966788, 966722,
     966656, 966589, 966523, 966457, 966390, 966324, 966257, 966191, 966124, 966057,
     965991, 965924, 965857, 965790, 965730, 965656, 965589, 965522, 965455, 965388,
     965321, 965254, 965187, 965119, 965052, 964984, 964917, 964849, 964782, 964714,
     964647, 964579, 964511, 964443, 964376, 964308, 964240, 964172, 964104, 964036,
     963967, 963899, 963831, 963763, 963694, 963626, 963558, 963489, 963421, 963352,
     963284, 963215, 963146, 963077, 963009, 962940, 962871, 962802, 962733, 962664,
     962595, 962526, 962457, 962387, 962318, 962249, 962180, 962110, 962041, 961971,
     961902, 961832, 961762, 961693, 961623, 961553, 961483, 961414, 961344, 961274,
     961204, 961134, 961064, 960993, 960923, 960853, 960783, 960712, 960642, 960572,
     960501, 960431, 960360, 960289, 960219, 960148, 960077, 960006, 959936, 959865,
     959794, 959723, 959652, 959581, 959510, 959438, 959367, 959296, 959225, 959153,
     959082, 959010, 958939, 958867, 958796, 958724, 958653, 958581, 958509, 958431,
     958365]"

text \<open>\<open>ub\<close> is the platform's result of a cast that does not fit; \<^const>\<open>None\<close> is a read outside of the table.\<close>

definition getDensityOfWater :: "DINT \<Rightarrow> lreal \<Rightarrow> lreal option" where
  "getDensityOfWater ub tempwater =
     (let t1 = (if tempwater < Fin 0 then Fin 0 else tempwater);
          t2 = (if t1 > Fin 100 then Fin 100 else t1);
          temp = sint (cast_sword ub (t2 * Fin 10 + dround (1 / 2)) :: DINT)
      in if 0 \<le> temp \<and> nat temp < length DENSWATER then Some (dround (real (DENSWATER ! nat temp) / 1000)) else None)"

section \<open>Densitometer\<close>

definition DENSSOL_LE_PERIOD :: UDINT where "DENSSOL_LE_PERIOD = 0x00000001"
definition DENSSOL_LE_INPUTS :: UDINT where "DENSSOL_LE_INPUTS = 0x00000002"
definition DENSSOL_LE_VALUE :: UDINT where "DENSSOL_LE_VALUE = 0x00000004"
definition DENSSOL_LE_ITERATION :: UDINT where "DENSSOL_LE_ITERATION = 0x00000010"

record rDensSolCoef =
  K0 :: "lreal rCompared"
  K1 :: "lreal rCompared"
  K2 :: "lreal rCompared"
  K18 :: "lreal rCompared"
  K19 :: "lreal rCompared"
  K20A :: "lreal rCompared"
  K20B :: "lreal rCompared"
  K21A :: "lreal rCompared"
  K21B :: "lreal rCompared"

record rDensSol =
  ds_setCoef :: rDensSolCoef
  ds_curCoef :: rDensSolCoef
  ds_accept :: USINT
  ds_calibrT :: "lreal rCompared"
  ds_k0 :: lreal
  ds_k1 :: lreal
  ds_k2 :: lreal

definition denssol_compare :: "'d node \<Rightarrow> rDensSol \<Rightarrow> rDensSol \<times> cevent list" where
  "denssol_compare n s = (let k = ds_setCoef s;
     (t, e0) = compare_setting n EID_DENSSOL_CALIBR (ds_calibrT s);
     (a, e1) = compare_setting n EID_DENSSOL_K0 (K0 k);
     (b, e2) = compare_setting n EID_DENSSOL_K1 (K1 k);
     (c, e3) = compare_setting n EID_DENSSOL_K2 (K2 k);
     (d, e4) = compare_setting n EID_DENSSOL_K18 (K18 k);
     (e, e5) = compare_setting n EID_DENSSOL_K19 (K19 k);
     (f, e6) = compare_setting n EID_DENSSOL_K20A (K20A k);
     (g, e7) = compare_setting n EID_DENSSOL_K20B (K20B k);
     (h, e8) = compare_setting n EID_DENSSOL_K21A (K21A k);
     (i, e9) = compare_setting n EID_DENSSOL_K21B (K21B k)
     in (s\<lparr>ds_calibrT := t, ds_setCoef := \<lparr>K0 = a, K1 = b, K2 = c, K18 = d, K19 = e, K20A = f, K20B = g,
           K21A = h, K21B = i\<rparr>\<rparr>, e0 @ e1 @ e2 @ e3 @ e4 @ e5 @ e6 @ e7 @ e8 @ e9))"

definition denssol_accept :: "'d node \<Rightarrow> rDensSol \<Rightarrow> rDensSol \<times> cevent list" where
  "denssol_accept n s = (if ds_accept s \<noteq> 0
     then (s\<lparr>ds_curCoef := ds_setCoef s, ds_accept := 0\<rparr>, [nevent n EID_DENSSOL_ACCEPT]) else (s, []))"

text \<open>The density at the conditions of the measurement.\<close>

definition denssol_density :: "rDensSol \<Rightarrow> lreal \<Rightarrow> lreal \<Rightarrow> lreal \<Rightarrow> lreal" where
  "denssol_density s temp pres period = (let c = ds_curCoef s;
     dTemp = temp - Value (ds_calibrT s);
     K20 = Value (K20A c) + Value (K20B c) * pres;
     K21 = Value (K21A c) + Value (K21B c) * pres;
     d0 = Value (K0 c) + Value (K1 c) * period + Value (K2 c) * period * period;
     d1 = d0 * (Fin 1 + Value (K18 c) * dTemp) + Value (K19 c) * dTemp
     in d1 * (Fin 1 + K20 * pres) + K21 * pres)"

record dens_vars =
  v_dens15 :: lreal
  v_b :: lreal
  v_b15 :: lreal
  v_y :: lreal
  v_y15 :: lreal
  v_ctl :: lreal
  v_cpl :: lreal

text \<open>One pass of the inner loop, for the product group \<open>oil\<close>.\<close>

definition dens_step :: "(lreal \<Rightarrow> lreal) \<Rightarrow> nat \<Rightarrow> lreal \<Rightarrow> lreal \<Rightarrow> lreal \<Rightarrow> dens_vars \<Rightarrow> dens_vars" where
  "dens_step ex oil dens temp pres v = (let dTemp = temp - Fin 15; d = v_dens15 v; D15_2 = d * d;
     b15 = (DENS_K0 ! oil + DENS_K1 ! oil * d) / D15_2 + DENS_K2 ! oil;
     b = b15 + dround (16 / 10) * b15 * b15 * dTemp;
     y15 = getY15 ex d;
     y = getY ex d temp;
     cpl = Fin 1 / (Fin 1 - y * pres);
     ctl = ex (- b15 * dTemp * (Fin 1 + dround (8 / 10) * b15 * dTemp))
     in \<lparr>v_dens15 = (dens / cpl) / ctl, v_b = b, v_b15 = b15, v_y = y, v_y15 = y15, v_ctl = ctl, v_cpl = cpl\<rparr>)"

text \<open>The first value of \<^verbatim>\<open>OldD15\<close>.\<close>

definition DENS_OLD :: lreal where "DENS_OLD = - Fin 100000"

text \<open>
  The inner loop, with what is left of its 20 passes; \<open>old\<close> is \<^verbatim>\<open>OldD15\<close>. The count is not reset
  between products.
\<close>

fun dens_inner :: "(dens_vars \<Rightarrow> dens_vars) \<Rightarrow> nat \<Rightarrow> lreal \<Rightarrow> dens_vars \<Rightarrow> nat \<times> lreal \<times> dens_vars" where
  "dens_inner step 0 old v = (0, old, v)"
| "dens_inner step (Suc r) old v =
     (if abs (old - v_dens15 v) > CONVERGENCE then dens_inner step r (v_dens15 v) (step v) else (Suc r, old, v))"

record dens_result =
  r_vars :: dens_vars
  r_oil :: nat
  r_lockErr :: UDINT
  r_failed :: bool

text \<open>
  The outer loop: at most three products. \<open>\<^verbatim>\<open>oil_id\<close>\<close> at the end of the table gives the
  coefficients that stay in the object.
\<close>

fun dens_outer :: "(lreal \<Rightarrow> lreal) \<Rightarrow> Product \<Rightarrow> 'd node \<Rightarrow> lreal \<Rightarrow> lreal \<Rightarrow> lreal \<Rightarrow> nat \<Rightarrow> nat \<Rightarrow> nat
    \<Rightarrow> UDINT \<Rightarrow> dens_vars \<Rightarrow> nat \<Rightarrow> dens_result \<times> cevent list" where
  "dens_outer ex product n dens temp pres 0 r oil le v used = (\<lparr>r_vars = v, r_oil = used, r_lockErr = le, r_failed = False\<rparr>, [])"
| "dens_outer ex product n dens temp pres (Suc m) r oil le v used =
     (case dens_inner (dens_step ex oil dens temp pres) r (DENS_OLD) (v\<lparr>v_dens15 := dens\<rparr>) of (r1, _, v1) \<Rightarrow>
      case checkExpr (r1 = 0) DENSSOL_LE_ITERATION (nevent n EID_DENSSOL_FAULT_ITERATION)
             (nevent n EID_DENSSOL_GOOD_ITERATION) le of (failed, le1, out) \<Rightarrow>
      if failed \<noteq> 0 then (\<lparr>r_vars = v1, r_oil = oil, r_lockErr = le1, r_failed = True\<rparr>, out)
      else if oil = getTypeProduct (v_dens15 v1) product
      then (\<lparr>r_vars = v1, r_oil = oil, r_lockErr = le1, r_failed = False\<rparr>, out)
      else (case dens_outer ex product n dens temp pres m r1 (getTypeProduct (v_dens15 v1) product) le1 v1 oil of
              (res, out2) \<Rightarrow> (res, out @ out2)))"

definition dens_setFault :: "rDensSol \<Rightarrow> 'd node \<Rightarrow> rDensSol \<times> 'd node" where
  "dens_setFault s n = (s\<lparr>ds_k0 := NaN, ds_k1 := NaN, ds_k2 := NaN\<rparr>,
     (puts [(0, NaN), (3, NaN), (4, NaN), (5, NaN), (7, NaN), (9, NaN), (10, NaN), (6, NaN), (8, NaN)] n)\<lparr>n_fault := 1\<rparr>)"

definition dens_load :: "'d node \<Rightarrow> dens_vars" where
  "dens_load n = \<lparr>v_dens15 = out_v n 3, v_b = out_v n 5, v_b15 = out_v n 6, v_y = out_v n 7, v_y15 = out_v n 8,
     v_ctl = out_v n 9, v_cpl = out_v n 10\<rparr>"

definition dens_store :: "dens_vars \<Rightarrow> 'd node \<Rightarrow> 'd node" where
  "dens_store v n = puts [(3, v_dens15 v), (5, v_b v), (6, v_b15 v), (7, v_y v), (8, v_y15 v), (9, v_ctl v), (10, v_cpl v)] n"

definition limit_ok :: "Product \<Rightarrow> lreal \<Rightarrow> bool" where
  "limit_ok product d \<longleftrightarrow> Limit_at 0 (Product_code product) \<le> d \<and> d < Limit_at 1 (Product_code product)"

text \<open>From the check of the result to the end of \<^verbatim>\<open>calculate\<close>.\<close>

definition dens_finish :: "(lreal \<Rightarrow> lreal) \<Rightarrow> Product \<Rightarrow> 'd node \<Rightarrow> 'd node \<times> cevent list" where
  "dens_finish ex product n = (let d = out_v n 3; u = l_unit (out_link n (n_outputs n ! 3)) in
     case checkExpr (\<not> limit_ok product d) DENSSOL_LE_VALUE
            (ev_adds (nevent n EID_DENSSOL_FAULT_VALUE) [P_LREAL d, P_STRID u])
            (ev_adds (nevent n EID_DENSSOL_GOOD_VALUE) [P_LREAL d, P_STRID u]) (n_lockErr n) of (bad, le, out) \<Rightarrow>
     let n1 = put 4 (getDens20 ex d (out_v n 6)) (n\<lparr>n_lockErr := le, n_fault := (if bad \<noteq> 0 then 1 else n_fault n)\<rparr>)
     in case postCalculate n1 of (n2, out2) \<Rightarrow> (n2, out @ out2))"

text \<open>The part of \<^verbatim>\<open>calculate\<close> behind the check of the period.\<close>

definition denssol_calc :: "(lreal \<Rightarrow> lreal) \<Rightarrow> Product \<Rightarrow> rDensSol \<Rightarrow> 'd node \<Rightarrow> rDensSol \<times> 'd node \<times> cevent list" where
  "denssol_calc ex product s n = (let temp = in_value n 0; pres = in_value n 1;
     dens = denssol_density s temp pres (in_value n 2); n1 = put 0 dens n; oil = getTypeProduct dens product in
     case dens_outer ex product n1 dens temp pres 3 20 oil (n_lockErr n) (dens_load n1) oil of (res, o5) \<Rightarrow>
     let n2 = (dens_store (r_vars res) n1)\<lparr>n_lockErr := r_lockErr res\<rparr>;
         s2 = s\<lparr>ds_k0 := DENS_K0 ! r_oil res, ds_k1 := DENS_K1 ! r_oil res, ds_k2 := DENS_K2 ! r_oil res\<rparr> in
     if r_failed res then (case dens_setFault s2 n2 of (s', n') \<Rightarrow> (s', n', o5))
     else (case dens_finish ex product n2 of (n3, o6) \<Rightarrow> (s2, n3, o5 @ o6)))"

definition denssol_body :: "(lreal \<Rightarrow> lreal) \<Rightarrow> Product \<Rightarrow> rDensSol \<Rightarrow> 'd node \<Rightarrow> rDensSol \<times> 'd node \<times> cevent list" where
  "denssol_body ex product s0 n0 =
     (case denssol_compare n0 s0 of (s1, o1) \<Rightarrow> case denssol_accept n0 s1 of (s, o2) \<Rightarrow>
      case checkExpr False DENSSOL_LE_INPUTS (nevent n0 EID_DENSSOL_FAULT_INPUTS)
             (nevent n0 EID_DENSSOL_GOOD_INPUTS) (n_lockErr n0) of (_, le1, o3) \<Rightarrow>
      case checkExpr (in_value n0 2 < Fin 1) DENSSOL_LE_PERIOD (nevent n0 EID_DENSSOL_FAULT_PERIOD)
             (nevent n0 EID_DENSSOL_GOOD_PERIOD) le1 of (bad, le2, o4) \<Rightarrow>
      if bad \<noteq> 0 then (case dens_setFault s (n0\<lparr>n_lockErr := le2\<rparr>) of (s', n') \<Rightarrow> (s', n', o1 @ o2 @ o3 @ o4))
      else (case denssol_calc ex product s (n0\<lparr>n_lockErr := le2\<rparr>) of (s', n', o5) \<Rightarrow> (s', n', o1 @ o2 @ o3 @ o4 @ o5)))"

section \<open>Reduced density, water and viscosity\<close>

definition REDUCEDDENS_LE_DENSITY :: UDINT where "REDUCEDDENS_LE_DENSITY = 0x00000002"

definition reduceddens_body :: "(lreal \<Rightarrow> lreal) \<Rightarrow> Product \<Rightarrow> 'd node \<Rightarrow> 'd node \<times> cevent list" where
  "reduceddens_body ex product n = (let temp = in_value n 0; pres = in_value n 1; dens15 = in_value n 2; b15 = in_value n 3 in
     case checkExpr (\<not> (getMinLimit product \<le> dens15 \<and> dens15 < getMaxLimit product)) REDUCEDDENS_LE_DENSITY
            (ev_add (nevent n EID_RDCDDENS_FAULT_DENSITY) (P_LREAL dens15))
            (ev_add (nevent n EID_RDCDDENS_GOOD_DENSITY) (P_LREAL dens15)) (n_lockErr n) of (bad, le, out) \<Rightarrow>
     let dTemp = temp - Fin 15;
         b = b15 + dround (16 / 10) * b15 * b15 * dTemp;
         y = dround (1 / 1000) * ex (- dround (162080 / 100000) + dround (21592 / 100000000) * temp
               + (Fin 870960 + dround (42092 / 10) * temp) / (dens15 * dens15));
         cpl = Fin 1 / (Fin 1 - y * pres);
         ctl = ex (- b15 * dTemp * (Fin 1 + dround (8 / 10) * b15 * dTemp));
         n1 = puts [(8, b), (9, y), (7, cpl), (6, ctl), (4, dens15 * ctl * cpl), (5, getDens20 ex dens15 b15),
                    (10, getY15 ex dens15)]
                (n\<lparr>n_lockErr := le, n_fault := (if bad \<noteq> 0 then 1 else n_fault n)\<rparr>)
     in case postCalculate n1 of (n2, out2) \<Rightarrow> (n2, out @ out2))"

definition WATER_NOWATER :: UINT where "WATER_NOWATER = 0x0001"

record rWater =
  w_setup :: UINT
  w_waterDensity :: lreal

definition water_density :: "DINT \<Rightarrow> rWater \<Rightarrow> lreal \<Rightarrow> lreal option" where
  "water_density ub s temp = (if has (w_setup s) WATER_NOWATER then Some (Fin 1) else getDensityOfWater ub temp)"

definition volwater_body :: "DINT \<Rightarrow> rWater \<Rightarrow> 'd node \<Rightarrow> (rWater \<times> 'd node \<times> cevent list) option" where
  "volwater_body ub s n = (case water_density ub s (in_value n 2) of None \<Rightarrow> None | Some d \<Rightarrow>
     (case postCalculate (put 0 (in_value n 0 * in_value n 1 / d) n) of (n1, out) \<Rightarrow> Some (s\<lparr>w_waterDensity := d\<rparr>, n1, out)))"

definition masswater_body :: "DINT \<Rightarrow> rWater \<Rightarrow> 'd node \<Rightarrow> (rWater \<times> 'd node \<times> cevent list) option" where
  "masswater_body ub s n = (case water_density ub s (in_value n 2) of None \<Rightarrow> None | Some d \<Rightarrow>
     (case postCalculate (put 0 (in_value n 0 * d / in_value n 1) n) of (n1, out) \<Rightarrow> Some (s\<lparr>w_waterDensity := d\<rparr>, n1, out)))"

definition dynvisc_body :: "'d node \<Rightarrow> 'd node \<times> cevent list" where
  "dynvisc_body n = postCalculate (put 0 (in_value n 0 / in_value n 1 * Fin 1000) n)"

definition kinvisc_body :: "'d node \<Rightarrow> 'd node \<times> cevent list" where
  "kinvisc_body n = postCalculate (put 0 (in_value n 0 * in_value n 1 / Fin 1000) n)"

section \<open>Constructors\<close>

definition denssol_links :: "(UINT \<times> UDINT \<times> string \<times> string) list" where
  "denssol_links = [(LINK_OUTPUT, U_kg_m3, ''density'', ''''), (LINK_INOUTPUT, U_C, ''temperature'', ''''),
     (LINK_INOUTPUT, U_bar, ''pressure'', ''''), (LINK_INPUT, U_mksec, ''period'', ''''),
     (LINK_OUTPUT, U_kg_m3, ''density15'', ''''), (LINK_OUTPUT, U_kg_m3, ''density20'', ''''),
     (LINK_OUTPUT, U_1_C, ''b'', ''''), (LINK_OUTPUT, U_1_C, ''b15'', ''''), (LINK_OUTPUT, U_1_MPa, ''y'', ''''),
     (LINK_OUTPUT, U_1_MPa, ''y15'', ''''), (LINK_OUTPUT, U_DIMLESS, ''ctl'', ''''), (LINK_OUTPUT, U_DIMLESS, ''cpl'', '''')]"

definition reduceddens_links :: "(UINT \<times> UDINT \<times> string \<times> string) list" where
  "reduceddens_links = [(LINK_INOUTPUT, U_C, ''temperature'', ''''), (LINK_INOUTPUT, U_MPa, ''pressure'', ''''),
     (LINK_INOUTPUT, U_kg_m3, ''density15'', ''''), (LINK_INOUTPUT, U_1_C, ''b15'', ''density15''),
     (LINK_OUTPUT, U_kg_m3, ''density'', ''''), (LINK_OUTPUT, U_kg_m3, ''density20'', ''''),
     (LINK_OUTPUT, U_DIMLESS, ''ctl'', ''''), (LINK_OUTPUT, U_DIMLESS, ''cpl'', ''''), (LINK_OUTPUT, U_1_C, ''b'', ''''),
     (LINK_OUTPUT, U_1_MPa, ''y'', ''''), (LINK_OUTPUT, U_1_MPa, ''y15'', '''')]"

definition volwater_links :: "(UINT \<times> UDINT \<times> string \<times> string) list" where
  "volwater_links = [(LINK_OUTPUT, U_perc_v, ''result'', ''''), (LINK_INPUT, U_perc_m, ''masswater'', ''''),
     (LINK_INPUT, U_kg_m3, ''density'', ''''), (LINK_INPUT, U_C, ''temperature'', '''')]"

definition masswater_links :: "(UINT \<times> UDINT \<times> string \<times> string) list" where
  "masswater_links = [(LINK_OUTPUT, U_perc_m, ''result'', ''''), (LINK_INPUT, U_perc_v, ''volwater'', ''''),
     (LINK_INPUT, U_kg_m3, ''density'', ''''), (LINK_INPUT, U_C, ''temperature'', '''')]"

definition dynvisc_links :: "(UINT \<times> UDINT \<times> string \<times> string) list" where
  "dynvisc_links = [(LINK_OUTPUT, U_sP, ''result'', ''''), (LINK_INPUT, U_sSt, ''kinviscosity'', ''''),
     (LINK_INPUT, U_kg_m3, ''density'', '''')]"

definition kinvisc_links :: "(UINT \<times> UDINT \<times> string \<times> string) list" where
  "kinvisc_links = [(LINK_OUTPUT, U_sSt, ''result'', ''''), (LINK_INPUT, U_sP, ''dynviscosity'', ''''),
     (LINK_INPUT, U_kg_m3, ''density'', '''')]"

lemma link_flags [simp]:
  "has LINK_INPUT LINK_INPUT" "\<not> has LINK_INPUT LINK_OUTPUT" "has LINK_OUTPUT LINK_OUTPUT"
  "\<not> has LINK_OUTPUT LINK_INPUT" "has LINK_INOUTPUT LINK_INPUT" "has LINK_INOUTPUT LINK_OUTPUT"
  by (simp_all add: has_def LINK_INPUT_def LINK_OUTPUT_def LINK_INOUTPUT_def)

definition shaped :: "(UINT \<times> UDINT \<times> string \<times> string) list \<Rightarrow> 'd node \<Rightarrow> bool" where
  "shaped ls n \<longleftrightarrow> shape n = shape_of (List.map fst ls) 0"

lemma shaped_new: "shaped ls (initLinks ls (source_new d))"
  by (simp add: shaped_def shape_new)

lemma denssol_shape: "shaped denssol_links n \<Longrightarrow> shape n = (3, [None, Some 0, Some 1, None, None, None, None, None, None, None, None])"
  by (simp add: shaped_def denssol_links_def)

lemma less_Suc_cases: "(n :: nat) < Suc m \<longleftrightarrow> n < m \<or> n = m" by auto

lemma denssol_own:
  assumes "shaped denssol_links n" "o' \<in> {0, 3, 4, 5, 6, 7, 8, 9, 10}"
  shows "own_output n o'" "o' < length (n_outputs n)"
  using assms(2) shape_own [of o' n] shape_length(1) [of n] denssol_shape [OF assms(1)]
  by (auto simp: nth_Cons')

section \<open>The plausible range\<close>

text \<open>The range of a product as the comments of the table give it.\<close>

definition own_range :: "Product \<Rightarrow> lreal \<Rightarrow> bool" where
  "own_range product d \<longleftrightarrow> Limit_at (Product_code product) 0 \<le> d \<and> d < Limit_at (Product_code product) 1"

lemma dround_chain: "x \<le> of_int k \<Longrightarrow> of_int k < (y :: real) \<Longrightarrow> of_int (k + 1) \<le> y \<Longrightarrow> \<bar>k\<bar> < 2 ^ 52 \<Longrightarrow> dround x < dround y"
proof -
  assume a: "x \<le> of_int k" "of_int (k + 1) \<le> y" "\<bar>k\<bar> < 2 ^ 52"
  have "dround x \<le> Fin (of_int k)" using dround_mono [OF a(1)] dround_of_int [of k] a(3) by simp
  moreover have "Fin (of_int (k + 1)) \<le> dround y" using dround_mono [OF a(2)] dround_of_int [of "k + 1"] a(3) by simp
  moreover have "Fin (of_int k) < Fin (of_int (k + 1))" by simp
  ultimately show ?thesis using lreal_le_less_trans lreal_less_le_trans by blast
qed

lemma lreal_between: "a \<le> d \<Longrightarrow> d < b \<Longrightarrow> \<not> (b :: lreal) < a"
  by (meson lreal_le_less_trans lreal_less_asym)

lemma limit_not_own:
  assumes "product \<in> {PETROLEUM, GAZOLENE, TRANSITION, JETFUEL, FUELOIL}"
  shows "\<not> (limit_ok product d \<and> own_range product d)"
proof
  assume a: "limit_ok product d \<and> own_range product d"
  have refl: "Limit_at r c \<noteq> NaN" for r c by (simp add: Limit_at_def)
  have g: "dround (7709 / 10) < dround (11638 / 10)" by (rule dround_chain [of _ 771]) simp_all
  have f: "dround 788 < dround (8387 / 10)" by (rule dround_chain [of _ 788]) simp_all
  from assms consider "product = PETROLEUM" | "product = GAZOLENE" | "product = TRANSITION" | "product = JETFUEL"
    | "product = FUELOIL" by auto
  then show False
  proof cases
    case 1
    with a show False
      by (simp add: limit_ok_def own_range_def Limit_at_def DENS_Limit_def) (meson lreal_le_not_less)
  next
    case 2
    with a g show False
      by (simp add: limit_ok_def own_range_def Limit_at_def DENS_Limit_def)
        (meson lreal_le_less_trans lreal_less_asym lreal_le_not_less)
  next
    case 3
    with a show False
      by (simp add: limit_ok_def own_range_def Limit_at_def DENS_Limit_def) (meson lreal_le_not_less)
  next
    case 4
    with a show False
      by (simp add: limit_ok_def own_range_def Limit_at_def DENS_Limit_def) (meson lreal_le_not_less)
  next
    case 5
    with a f show False
      by (simp add: limit_ok_def own_range_def Limit_at_def DENS_Limit_def del: dround_numeral)
        (meson lreal_le_less_trans lreal_less_asym)
  qed
qed

section \<open>The iteration\<close>

lemma dens_inner_spec:
  "dens_inner step r old v = (r1, old1, v1) \<Longrightarrow>
     (0 < r1 \<longrightarrow> \<not> abs (old1 - v_dens15 v1) > CONVERGENCE)
     \<and> ((old1 = old \<and> v1 = v) \<or> (\<exists>v0. v1 = step v0 \<and> old1 = v_dens15 v0))
     \<and> (0 < r1 \<and> abs (old - v_dens15 v) > CONVERGENCE \<longrightarrow> (\<exists>v0. v1 = step v0 \<and> old1 = v_dens15 v0))"
proof (induction step r old v rule: dens_inner.induct)
  case (2 step r old v)
  show ?case
  proof (cases "abs (old - v_dens15 v) > CONVERGENCE")
    case True
    then have "dens_inner step r (v_dens15 v) (step v) = (r1, old1, v1)" using 2(2) by simp
    from 2(1) [OF True this] show ?thesis by blast
  qed (use 2(2) in simp)
qed simp

lemma getTypeProduct_less: "getTypeProduct d p < 6"
  by (cases p) (simp_all add: getTypeProduct_def)

lemma dens_step_dens: "dens_inner (dens_step ex oil dens temp pres) r (DENS_OLD) (v\<lparr>v_dens15 := dens\<rparr>) = (r1, old1, v1)
    \<Longrightarrow> 0 < r1 \<Longrightarrow> abs (DENS_OLD - dens) > CONVERGENCE
    \<Longrightarrow> \<exists>v0. v1 = dens_step ex oil dens temp pres v0 \<and> \<not> abs (v_dens15 v0 - v_dens15 v1) > CONVERGENCE"
  using dens_inner_spec [of "dens_step ex oil dens temp pres" r "DENS_OLD" "v\<lparr>v_dens15 := dens\<rparr>" r1 old1 v1] by auto

lemma checkExpr_code: "checkExpr b flag ef es le = (x, le', out) \<Longrightarrow> x \<noteq> 0 \<longleftrightarrow> b"
  by (auto simp: checkExpr_def split: if_splits)

text \<open>The exit of the loop, and what it means for numbers: the last two densities are numbers, and near.\<close>

definition loop_exit_at :: "(lreal \<Rightarrow> lreal) \<Rightarrow> lreal \<Rightarrow> lreal \<Rightarrow> lreal \<Rightarrow> dens_vars \<Rightarrow> bool" where
  "loop_exit_at ex dens temp pres v \<longleftrightarrow> (\<exists>oil<6. \<exists>v0. v = dens_step ex oil dens temp pres v0
     \<and> \<not> abs (v_dens15 v0 - v_dens15 v) > CONVERGENCE)"

definition converged_at :: "(lreal \<Rightarrow> lreal) \<Rightarrow> lreal \<Rightarrow> lreal \<Rightarrow> lreal \<Rightarrow> dens_vars \<Rightarrow> bool" where
  "converged_at ex dens temp pres v \<longleftrightarrow> (\<exists>oil<6. \<exists>v0 x y. v = dens_step ex oil dens temp pres v0
     \<and> v_dens15 v0 = Fin x \<and> v_dens15 v = Fin y \<and> abs (Fin x - Fin y) \<le> CONVERGENCE)"

lemma CONVERGENCE_small: "\<exists>c. CONVERGENCE = Fin c \<and> 0 \<le> c \<and> c \<le> 1"
  using dround_between [of "5 / 10000" 1 1] dround_of_int [of 1] by (simp add: CONVERGENCE_def)

text \<open>A density that passes the check of the range is a number, and not near the start value.\<close>

lemma limit_ok_Fin:
  assumes "limit_ok product d"
  obtains y where "d = Fin y" "0 \<le> y"
proof -
  have "0 \<le> DENS_Limit ! (2 * 0 + Product_code product)" by (cases product) (simp_all add: DENS_Limit_def)
  then have "Fin 0 \<le> Limit_at 0 (Product_code product)" unfolding Limit_at_def by (rule dround_nonneg)
  then have "Fin 0 \<le> d" using assms lreal_le_trans unfolding limit_ok_def by blast
  then show thesis using that assms unfolding limit_ok_def by (cases d) (auto elim: less_lreal.elims)
qed

lemma limit_ok_far: "limit_ok product d \<Longrightarrow> abs (DENS_OLD - d) > CONVERGENCE"
proof -
  assume "limit_ok product d"
  then obtain y where y: "d = Fin y" "0 \<le> y" by (rule limit_ok_Fin)
  obtain c where c: "CONVERGENCE = Fin c" "c \<le> 1" using CONVERGENCE_small by blast
  have "dround (- 100000 - y) \<le> Fin (- 100000)" using dround_mono [of "- 100000 - y" "- 100000"] dround_of_int [of "- 100000"] y(2) by simp
  then show ?thesis unfolding c(1) y(1) DENS_OLD_def using c(2) by (cases "dround (- 100000 - y)") simp_all
qed

lemma dens_step_NaN: "ex NaN = NaN \<Longrightarrow> v_dens15 v0 = NaN \<Longrightarrow> v_dens15 (dens_step ex oil dens temp pres v0) = NaN"
  by (simp add: dens_step_def Let_def)

lemma settled_converged:
  assumes ex: "ex NaN = NaN" and st: "loop_exit_at ex dens temp pres v" and l: "limit_ok product (v_dens15 v)"
  shows "converged_at ex dens temp pres v"
proof -
  obtain y where y: "v_dens15 v = Fin y" using l by (rule limit_ok_Fin)
  obtain c where c: "CONVERGENCE = Fin c" using CONVERGENCE_small by blast
  obtain oil v0 where o: "oil < 6" "v = dens_step ex oil dens temp pres v0"
    and near: "\<not> abs (v_dens15 v0 - Fin y) > CONVERGENCE"
    using st unfolding loop_exit_at_def y by blast
  have "v_dens15 v0 \<noteq> NaN" using dens_step_NaN [of ex, OF ex] o(2) y by auto
  then obtain x where x: "v_dens15 v0 = Fin x" using near by (cases "v_dens15 v0") (auto simp: c minus_lreal_def)
  have "abs (Fin x - Fin y) \<le> CONVERGENCE"
    using near unfolding x c by (cases "dround (x - y)") (use dround_not_NaN [of "x - y"] in auto)
  with o x y show ?thesis unfolding converged_at_def by blast
qed

lemma if_second: "(if b then p else if c then q else r) = s \<Longrightarrow> \<not> b \<Longrightarrow> c \<Longrightarrow> q = s"
  and if_third: "(if b then p else if c then q else r) = s \<Longrightarrow> \<not> b \<Longrightarrow> \<not> c \<Longrightarrow> r = s"
  by simp_all

lemma dens_outer_settled:
  assumes "abs (DENS_OLD - dens) > CONVERGENCE"
  shows "dens_outer ex product n dens temp pres m r oil le v used = (res, out) \<Longrightarrow> \<not> r_failed res \<Longrightarrow> oil < 6
    \<Longrightarrow> loop_exit_at ex dens temp pres v \<or> 0 < m \<Longrightarrow> loop_exit_at ex dens temp pres (r_vars res)"
proof (induction m arbitrary: r oil le v used res out)
  case (Suc m)
  obtain r1 old1 v1 where 1: "dens_inner (dens_step ex oil dens temp pres) r DENS_OLD (v\<lparr>v_dens15 := dens\<rparr>) = (r1, old1, v1)"
    by (rule prod_cases3)
  obtain x le1 o1 where 2: "checkExpr (r1 = 0) DENSSOL_LE_ITERATION (nevent n EID_DENSSOL_FAULT_ITERATION)
      (nevent n EID_DENSSOL_GOOD_ITERATION) le = (x, le1, o1)" by (rule prod_cases3)
  obtain res2 o2 where 3: "dens_outer ex product n dens temp pres m r1 (getTypeProduct (v_dens15 v1) product) le1 v1 oil
      = (res2, o2)" by force
  note body = Suc.prems(1) [unfolded dens_outer.simps 1 2 3 case_prod_conv]
  have x: "x = 0"
  proof (rule ccontr)
    assume "x \<noteq> 0"
    with body have "r_failed res" by auto
    with Suc.prems(2) show False by simp
  qed
  then have r1: "0 < r1" using checkExpr_code [OF 2] by simp
  have v1: "loop_exit_at ex dens temp pres v1"
    using dens_step_dens [OF 1 r1 assms] Suc.prems(3) unfolding loop_exit_at_def by blast
  show ?case
  proof (cases "oil = getTypeProduct (v_dens15 v1) product")
    case True
    have "(\<lparr>r_vars = v1, r_oil = oil, r_lockErr = le1, r_failed = False\<rparr>, o1) = (res, out)"
      by (rule if_second [OF body _ True]) (simp add: x)
    then have "res = \<lparr>r_vars = v1, r_oil = oil, r_lockErr = le1, r_failed = False\<rparr>" by (blast dest: Pair_inject)
    then have "r_vars res = v1" by simp
    then show ?thesis using v1 by simp
  next
    case False
    have "(res2, o1 @ o2) = (res, out)" by (rule if_third [OF body _ False]) (simp add: x)
    then have "res = res2" by (rule Pair_inject) (rule sym)
    then show ?thesis using Suc.IH [OF 3 _ getTypeProduct_less] v1 Suc.prems(2) by blast
  qed
qed simp

text \<open>When the measured density is near the start value, or no number, the loop is not entered.\<close>

lemma dens_inner_near: "\<not> abs (old - v_dens15 v) > CONVERGENCE \<Longrightarrow> dens_inner step r old v = (r, old, v)"
  by (cases r) simp_all

lemma dens_outer_near:
  assumes "\<not> abs (DENS_OLD - dens) > CONVERGENCE"
  shows "dens_outer ex product n dens temp pres m r oil le v used = (res, out) \<Longrightarrow> v_dens15 v = dens \<or> 0 < m
    \<Longrightarrow> v_dens15 (r_vars res) = dens"
proof (induction m arbitrary: r oil le v used res out)
  case (Suc m)
  have 1: "dens_inner (dens_step ex oil dens temp pres) r DENS_OLD (v\<lparr>v_dens15 := dens\<rparr>) = (r, DENS_OLD, v\<lparr>v_dens15 := dens\<rparr>)"
    by (rule dens_inner_near) (simp add: assms)
  obtain x le1 o1 where 2: "checkExpr (r = 0) DENSSOL_LE_ITERATION (nevent n EID_DENSSOL_FAULT_ITERATION)
      (nevent n EID_DENSSOL_GOOD_ITERATION) le = (x, le1, o1)" by (rule prod_cases3)
  obtain res2 o2 where 3: "dens_outer ex product n dens temp pres m r (getTypeProduct dens product) le1 (v\<lparr>v_dens15 := dens\<rparr>) oil
      = (res2, o2)" by force
  have "v_dens15 (r_vars res2) = dens" by (rule Suc.IH [OF 3]) simp
  then show ?case using Suc.prems(1) by (auto simp: 1 2 3 split: if_splits)
qed simp

section \<open>The densitometer as a whole\<close>

definition dens_own :: "nat list" where "dens_own = [0, 3, 4, 5, 6, 7, 8, 9, 10]"

lemma denssol_puts:
  assumes "shaped denssol_links n" "\<forall>(p, v)\<in>set ps. p \<in> set dens_own" "o' \<in> set dens_own"
  shows "out_v (puts ps n) o' = (case map_of (rev ps) o' of None \<Rightarrow> out_v n o' | Some v \<Rightarrow> v)"
proof (rule out_v_puts)
  have own: "own_output n p \<and> p < length (n_outputs n)" if "p \<in> set dens_own" for p
    using denssol_own [OF assms(1), of p] that unfolding dens_own_def by simp
  show "\<forall>(p, v)\<in>set ps. own_output n p \<and> p < length (n_outputs n)" using assms(2) own by fast
  show "own_output n o'" "o' < length (n_outputs n)" using own [OF assms(3)] by simp_all
qed

lemma shaped_keeps [simp]:
  "shaped ls (put o' v n) = shaped ls n" "shaped ls (puts ps n) = shaped ls n"
  "shaped ls (n\<lparr>n_lockErr := a\<rparr>) = shaped ls n" "shaped ls (n\<lparr>n_fault := b\<rparr>) = shaped ls n"
  "shaped ls (fst (postCalculate n)) = shaped ls n"
  by (simp_all add: shaped_def)

lemma dens_setFault_spec:
  assumes "shaped denssol_links n" "dens_setFault s n = (s', n')"
  shows "n_fault n' = 1 \<and> (\<forall>o'\<in>set dens_own. out_v n' o' = NaN)"
proof -
  have n': "n' = (puts [(0, NaN), (3, NaN), (4, NaN), (5, NaN), (7, NaN), (9, NaN), (10, NaN), (6, NaN), (8, NaN)] n)\<lparr>n_fault := 1\<rparr>"
    using assms(2) by (simp add: dens_setFault_def)
  have "out_v n' o' = NaN" if "o' \<in> set dens_own" for o'
    unfolding n' out_v_upd
    by (subst denssol_puts [OF assms(1) _ that]) (use that in \<open>auto simp: dens_own_def\<close>)
  then show ?thesis by (simp add: n')
qed

lemma dens_store_spec:
  assumes "shaped denssol_links n"
  shows "out_v (dens_store v n) 0 = out_v n 0" "dens_load (dens_store v n) = v" "shaped denssol_links (dens_store v n)"
    "n_fault (dens_store v n) = n_fault n"
proof -
  note P = denssol_puts [OF assms, of "[(3, v_dens15 v), (5, v_b v), (6, v_b15 v), (7, v_y v), (8, v_y15 v), (9, v_ctl v), (10, v_cpl v)]"]
  show "out_v (dens_store v n) 0 = out_v n 0" unfolding dens_store_def by (subst P) (simp_all add: dens_own_def)
  have "out_v (dens_store v n) 3 = v_dens15 v" "out_v (dens_store v n) 5 = v_b v" "out_v (dens_store v n) 6 = v_b15 v"
    "out_v (dens_store v n) 7 = v_y v" "out_v (dens_store v n) 8 = v_y15 v" "out_v (dens_store v n) 9 = v_ctl v"
    "out_v (dens_store v n) 10 = v_cpl v"
    unfolding dens_store_def by (subst P; simp add: dens_own_def)+
  then show "dens_load (dens_store v n) = v" by (simp add: dens_load_def)
  show "shaped denssol_links (dens_store v n)" "n_fault (dens_store v n) = n_fault n"
    using assms by (simp_all add: dens_store_def)
qed

lemma dens_finish_spec:
  assumes sh: "shaped denssol_links n" and r: "dens_finish ex product n = (n', out)"
  shows "out_v n' 0 = out_v n 0 \<and> dens_load n' = dens_load n \<and> out_v n' 4 = getDens20 ex (out_v n 3) (out_v n 6)
    \<and> n_fault n' = (if limit_ok product (out_v n 3) then n_fault n else 1)"
proof -
  let ?u = "l_unit (out_link n (n_outputs n ! 3))" and ?d = "out_v n 3"
  obtain bad le o1 where c: "checkExpr (\<not> limit_ok product ?d) DENSSOL_LE_VALUE
      (ev_adds (nevent n EID_DENSSOL_FAULT_VALUE) [P_LREAL ?d, P_STRID ?u])
      (ev_adds (nevent n EID_DENSSOL_GOOD_VALUE) [P_LREAL ?d, P_STRID ?u]) (n_lockErr n) = (bad, le, o1)"
    by (rule prod_cases3)
  let ?n0 = "n\<lparr>n_lockErr := le, n_fault := (if bad \<noteq> 0 then 1 else n_fault n)\<rparr>"
  have n': "n' = fst (postCalculate (put 4 (getDens20 ex ?d (out_v n 6)) ?n0))"
    using r by (auto simp: dens_finish_def Let_def c split: prod.splits)
  have sh0: "shaped denssol_links ?n0" using sh by simp
  note own = denssol_own [OF sh0]
  have len: "length (n_outputs n) = 11" using shape_length(1) [of n] denssol_shape [OF sh] by simp
  have o: "out_v n' o' = (if o' = 4 then getDens20 ex ?d (out_v n 6) else out_v n o')" if "o' \<in> set dens_own" for o'
  proof -
    have "out_v n' o' = out_v (put 4 (getDens20 ex ?d (out_v n 6)) ?n0) o'"
      unfolding n' by (rule postCalculate_out) (use that len in \<open>auto simp: dens_own_def\<close>)
    also have "\<dots> = (if o' = 4 then getDens20 ex ?d (out_v n 6) else out_v ?n0 o')"
      by (rule out_v_put) (use own that in \<open>auto simp: dens_own_def\<close>)
    finally show ?thesis by simp
  qed
  have "n_fault n' = (if limit_ok product ?d then n_fault n else 1)"
    using checkExpr_code [OF c] by (auto simp: n')
  with o [of 0] o [of 3] o [of 4] o [of 5] o [of 6] o [of 7] o [of 8] o [of 9] o [of 10] show ?thesis
    by (simp add: dens_own_def dens_load_def)
qed

lemma denssol_calc_cases:
  assumes sh: "shaped denssol_links n" and r: "denssol_calc ex product s n = (s', n', out)"
  obtains (failed) "n_fault n' = 1" "\<forall>o'\<in>set dens_own. out_v n' o' = NaN"
  | (good) "n_fault n' = (if limit_ok product (out_v n' 3) then n_fault n else 1)"
      "out_v n' 4 = getDens20 ex (out_v n' 3) (out_v n' 6)"
      "out_v n' 0 = denssol_density s (in_value n 0) (in_value n 1) (in_value n 2)"
      "limit_ok product (out_v n' 3) \<Longrightarrow> loop_exit_at ex (out_v n' 0) (in_value n 0) (in_value n 1) (dens_load n')"
proof -
  let ?t = "in_value n 0" and ?p = "in_value n 1"
  let ?d = "denssol_density s ?t ?p (in_value n 2)"
  let ?n1 = "put 0 ?d n" and ?oil = "getTypeProduct ?d product"
  obtain res o5 where 5: "dens_outer ex product ?n1 ?d ?t ?p 3 20 ?oil (n_lockErr n) (dens_load ?n1) ?oil = (res, o5)" by force
  let ?n2 = "(dens_store (r_vars res) ?n1)\<lparr>n_lockErr := r_lockErr res\<rparr>"
  let ?s2 = "s\<lparr>ds_k0 := DENS_K0 ! r_oil res, ds_k1 := DENS_K1 ! r_oil res, ds_k2 := DENS_K2 ! r_oil res\<rparr>"
  have sh1: "shaped denssol_links ?n1" using sh by simp
  have shs: "shaped denssol_links (dens_store (r_vars res) ?n1)" by (rule dens_store_spec(3) [OF sh1])
  have sh2: "shaped denssol_links ?n2" using shs by simp
  have body: "(if r_failed res then (case dens_setFault ?s2 ?n2 of (s', n') \<Rightarrow> (s', n', o5))
      else (case dens_finish ex product ?n2 of (n3, o6) \<Rightarrow> (?s2, n3, o5 @ o6))) = (s', n', out)"
    using r unfolding denssol_calc_def Let_def 5 case_prod_conv .
  show thesis
  proof (cases "r_failed res")
    case True
    then have "dens_setFault ?s2 ?n2 = (s', n')" using body by (simp split: prod.splits)
    from dens_setFault_spec [OF sh2 this] show thesis using that(1) by blast
  next
    case False
    then obtain o6 where "dens_finish ex product ?n2 = (n', o6)" using body by (simp split: prod.splits)
    note F = dens_finish_spec [OF sh2 this]
    have ld: "dens_load ?n2 = r_vars res" using dens_store_spec(2) [OF sh1, of "r_vars res"] by (simp add: dens_load_def)
    have d0: "out_v ?n1 0 = ?d" using out_v_put [of n 0 0 ?d] denssol_own [OF sh, of 0] by simp
    have 0: "out_v n' 0 = ?d" using F dens_store_spec(1) [OF sh1, of "r_vars res"] d0 by simp
    have v36: "out_v n' 3 = out_v ?n2 3" "out_v n' 6 = out_v ?n2 6" using F unfolding dens_load_def by simp_all
    show thesis
    proof (rule that(2))
      show "n_fault n' = (if limit_ok product (out_v n' 3) then n_fault n else 1)"
        using F v36 dens_store_spec(4) [OF sh1, of "r_vars res"] by simp
      show "out_v n' 4 = getDens20 ex (out_v n' 3) (out_v n' 6)" using F v36 by simp
      show "out_v n' 0 = ?d" by (rule 0)
      show "loop_exit_at ex (out_v n' 0) ?t ?p (dens_load n')" if ok: "limit_ok product (out_v n' 3)"
      proof -
        have "out_v n' 3 = v_dens15 (dens_load ?n2)" using v36(1) by (simp add: dens_load_def)
        also have "\<dots> = v_dens15 (r_vars res)" unfolding ld ..
        finally have "out_v n' 3 = v_dens15 (r_vars res)" .
        then have "out_v n' 3 = ?d" if "\<not> abs (DENS_OLD - ?d) > CONVERGENCE" using dens_outer_near [OF that 5] by simp
        then have "abs (DENS_OLD - ?d) > CONVERGENCE" using limit_ok_far [OF ok] by metis
        from dens_outer_settled [OF this 5 False getTypeProduct_less] F ld show ?thesis unfolding 0 by simp
      qed
    qed
  qed
qed

lemma denssol_body_cases:
  assumes sh: "shaped denssol_links n" and r: "denssol_body ex product s n = (s', n', out)"
  obtains (failed) "n_fault n' = 1" "\<forall>o'\<in>set dens_own. out_v n' o' = NaN"
  | (good) "n_fault n' = (if limit_ok product (out_v n' 3) then n_fault n else 1)"
      "out_v n' 4 = getDens20 ex (out_v n' 3) (out_v n' 6)"
      "limit_ok product (out_v n' 3) \<Longrightarrow> loop_exit_at ex (out_v n' 0) (in_value n 0) (in_value n 1) (dens_load n')"
proof -
  obtain s1 o1 where 1: "denssol_compare n s = (s1, o1)" by force
  obtain s2 o2 where 2: "denssol_accept n s1 = (s2, o2)" by force
  obtain x3 le1 o3 where 3: "checkExpr False DENSSOL_LE_INPUTS (nevent n EID_DENSSOL_FAULT_INPUTS)
             (nevent n EID_DENSSOL_GOOD_INPUTS) (n_lockErr n) = (x3, le1, o3)" by (rule prod_cases3)
  obtain bad le2 o4 where 4: "checkExpr (in_value n 2 < Fin 1) DENSSOL_LE_PERIOD (nevent n EID_DENSSOL_FAULT_PERIOD)
             (nevent n EID_DENSSOL_GOOD_PERIOD) le1 = (bad, le2, o4)" by (rule prod_cases3)
  let ?n = "n\<lparr>n_lockErr := le2\<rparr>"
  note body = r [unfolded denssol_body_def 1 2 3 4 case_prod_conv]
  have shn: "shaped denssol_links ?n" using sh by simp
  have inp: "in_value ?n k = in_value n k" for k by (simp add: in_value_def)
  show thesis
  proof (cases "bad = 0")
    case False
    then have "dens_setFault s2 ?n = (s', n')" using body by (simp split: prod.splits)
    from dens_setFault_spec [OF shn this] show thesis using that(1) by blast
  next
    case True
    obtain s3 n3 o5 where 5: "denssol_calc ex product s2 ?n = (s3, n3, o5)" by (rule prod_cases3)
    have n3: "n' = n3" using body True by (simp add: 5)
    from shn 5 [folded n3] show thesis
    proof (cases rule: denssol_calc_cases)
      case failed
      then show thesis by (rule that(1))
    next
      case good
      then show thesis using that(2) unfolding inp by simp
    qed
  qed
qed

section \<open>What the densitometer promises\<close>

text \<open>
  A calculation for the witnesses: an exponential that is constantly one and a density of 700 at
  every period.
\<close>

definition dens_sample :: rDensSol where
  "dens_sample = (let c = \<lparr>K0 = cmp_new (Fin 700), K1 = cmp_new (Fin 0), K2 = cmp_new (Fin 0), K18 = cmp_new (Fin 0),
       K19 = cmp_new (Fin 0), K20A = cmp_new (Fin 0), K20B = cmp_new (Fin 0), K21A = cmp_new (Fin 0), K21B = cmp_new (Fin 0)\<rparr>
     in \<lparr>ds_setCoef = c, ds_curCoef = c, ds_accept = 0, ds_calibrT = cmp_new (Fin 0), ds_k0 = Fin 0, ds_k1 = Fin 0, ds_k2 = Fin 0\<rparr>)"

definition dens_sample_node :: "unit node" where
  "dens_sample_node = (let n = initLinks denssol_links (source_new ())
     in set_input 2 ((sl_link (n_inputs n ! 2))\<lparr>l_value := Fin 1\<rparr>) n)"

lemma compare_setting_Value: "Value (fst (compare_setting n e c)) = Value c"
  by (auto simp: compare_setting_def cmp_Compare_LREAL_prec_def cmp_report_def Let_def split: prod.splits)

text \<open>An exponential that is one for every number, and bounds for the values it is given.\<close>

definition exp_one :: "lreal \<Rightarrow> lreal" where "exp_one x = (if x = NaN then NaN else Fin 1)"

definition bounded_by :: "int \<Rightarrow> lreal \<Rightarrow> bool" where
  "bounded_by k e \<longleftrightarrow> (\<exists>r. e = Fin r \<and> \<bar>r\<bar> \<le> of_int k)"

lemma bounded_dround: "\<bar>x\<bar> \<le> of_int k \<Longrightarrow> k < 2 ^ 53 \<Longrightarrow> bounded_by k (dround x)"
proof -
  assume a: "\<bar>x\<bar> \<le> of_int k" "k < 2 ^ 53"
  then have k: "\<bar>k\<bar> < 2 ^ 53" by linarith
  have "dround x \<le> Fin (of_int k)" "Fin (of_int (- k)) \<le> dround x"
    using dround_mono [of x "of_int k"] dround_mono [of "of_int (- k)" x] dround_of_int [OF k] dround_of_int [of "- k"] a k by simp_all
  then show ?thesis unfolding bounded_by_def by (cases "dround x") auto
qed

lemma bounded_Fin: "\<bar>r\<bar> \<le> of_int k \<Longrightarrow> bounded_by k (Fin r)"
  by (simp add: bounded_by_def)

lemma bounded_plus: "bounded_by a x \<Longrightarrow> bounded_by b y \<Longrightarrow> a + b < 2 ^ 53 \<Longrightarrow> bounded_by (a + b) (x + y)"
  unfolding bounded_by_def [of a] bounded_by_def [of b] by (auto intro!: bounded_dround)

lemma bounded_times: "bounded_by a x \<Longrightarrow> bounded_by b y \<Longrightarrow> a * b < 2 ^ 53 \<Longrightarrow> bounded_by (a * b) (x * y)"
proof -
  assume a: "bounded_by a x" "bounded_by b y" "a * b < 2 ^ 53"
  then obtain r t where r: "x = Fin r" "\<bar>r\<bar> \<le> of_int a" "y = Fin t" "\<bar>t\<bar> \<le> of_int b" by (auto simp: bounded_by_def)
  have "\<bar>r * t\<bar> \<le> of_int (a * b)" unfolding abs_mult of_int_mult by (rule mult_mono) (use r in linarith)+
  then show ?thesis using a(3) r by (simp add: bounded_dround)
qed

lemma bounded_uminus: "bounded_by a x \<Longrightarrow> bounded_by a (- x)"
  by (auto simp: bounded_by_def)

lemma bounded_divide: "bounded_by a x \<Longrightarrow> 1 \<le> d \<Longrightarrow> a < 2 ^ 53 \<Longrightarrow> bounded_by a (x / Fin d)"
proof -
  assume a: "bounded_by a x" "1 \<le> d" "a < 2 ^ 53"
  then obtain r where r: "x = Fin r" "\<bar>r\<bar> \<le> of_int a" by (auto simp: bounded_by_def)
  have "\<bar>r / d\<bar> \<le> \<bar>r\<bar> / 1" unfolding abs_divide by (rule divide_left_mono) (use a(2) in auto)
  then show ?thesis using a r by (auto intro!: bounded_dround)
qed

lemma bounded_number: "bounded_by k e \<Longrightarrow> exp_one e = Fin 1"
  by (auto simp: bounded_by_def exp_one_def)

lemma dens_step_one:
  assumes "oil \<in> {0, 2}" "v_dens15 v = Fin 700"
  shows "v_dens15 (dens_step exp_one oil (Fin 700) (Fin 0) (Fin 0) v) = Fin 700"
proof -
  let ?b15 = "(DENS_K0 ! oil + DENS_K1 ! oil * Fin 700) / (Fin 700 * Fin 700) + DENS_K2 ! oil"
  have K: "bounded_by 2691 (DENS_K0 ! oil)" "bounded_by 0 (DENS_K1 ! oil)" "bounded_by 1 (DENS_K2 ! oil)"
    using assms(1) by (auto simp: DENS_K0_def DENS_K1_def DENS_K2_def intro!: bounded_dround bounded_Fin)
  have q: "Fin 700 * Fin 700 = Fin 490000" by simp
  have "bounded_by ((2691 + 0 * 700) + 1) ?b15" unfolding q
    by (intro bounded_plus bounded_divide bounded_times K bounded_Fin) simp_all
  then have b: "bounded_by 2692 ?b15" by simp
  have "bounded_by (2692 * 15 * (1 + 1 * 2692 * 15)) (- ?b15 * Fin (- 15) * (Fin 1 + dround (8 / 10) * ?b15 * Fin (- 15)))"
    by (intro bounded_times bounded_plus bounded_uminus b bounded_Fin bounded_dround) simp_all
  then have ctl: "exp_one (- ?b15 * Fin (- 15) * (Fin 1 + dround (8 / 10) * ?b15 * Fin (- 15))) = Fin 1" by (rule bounded_number)
  have "bounded_by ((2 + 1 * 0) + (870960 + 4210 * 0)) (- dround (162080 / 100000) + dround (21592 / 100000000) * Fin 0
     + (Fin 870960 + dround (42092 / 10) * Fin 0) / Fin 490000)"
    by (intro bounded_plus bounded_divide bounded_times bounded_uminus bounded_Fin bounded_dround) simp_all
  then have "getY exp_one (Fin 700) (Fin 0) = dround (1 / 1000) * Fin 1" unfolding getY_def q by (simp only: bounded_number)
  moreover have "bounded_by (1 * 1 * 0) (dround (1 / 1000) * Fin 1 * Fin 0)"
    by (intro bounded_times bounded_Fin bounded_dround) simp_all
  ultimately have y: "getY exp_one (Fin 700) (Fin 0) * Fin 0 = Fin 0" by (auto simp: bounded_by_def)
  show ?thesis using ctl y by (simp add: dens_step_def Let_def assms(2))
qed

lemma dens_outer_one:
  assumes oil: "getTypeProduct (Fin 700) product = oil" "oil \<in> {0, 2}"
    and r: "dens_outer exp_one product n (Fin 700) (Fin 0) (Fin 0) 3 20 oil le v oil = (res, out)"
  shows "\<not> r_failed res \<and> v_dens15 (r_vars res) = Fin 700"
proof -
  let ?step = "dens_step exp_one oil (Fin 700) (Fin 0) (Fin 0)" and ?v = "v\<lparr>v_dens15 := Fin 700\<rparr>"
  obtain c where c: "CONVERGENCE = Fin c" "0 \<le> c" "c \<le> 1" using CONVERGENCE_small by blast
  have far: "abs (DENS_OLD - Fin 700) > CONVERGENCE" unfolding c(1) DENS_OLD_def using c(3) by simp
  have near: "\<not> abs (Fin 700 - Fin 700) > CONVERGENCE" unfolding c(1) using c(2) by simp
  have st: "v_dens15 (?step ?v) = Fin 700" by (rule dens_step_one [OF oil(2)]) simp
  have 1: "dens_inner ?step 20 DENS_OLD ?v = (19, Fin 700, ?step ?v)"
    using far near by (simp add: numeral_eq_Suc st)
  have 2: "checkExpr ((19 :: nat) = 0) f a b le = (0, fst (snd (checkExpr False f a b le)), snd (snd (checkExpr False f a b le)))"
    for f a b le by (simp add: checkExpr_def)
  have t: "oil = getTypeProduct (v_dens15 (?step ?v)) product" unfolding st using oil(1) ..
  have *: "dens_outer exp_one product n (Fin 700) (Fin 0) (Fin 0) (Suc 2) 20 oil le v oil = (res, out)"
    using r by (simp only: eval_nat_numeral)
  note body = * [unfolded dens_outer.simps 1 2 case_prod_conv]
  have "(\<lparr>r_vars = ?step ?v, r_oil = oil, r_lockErr = fst (snd (checkExpr False DENSSOL_LE_ITERATION
      (nevent n EID_DENSSOL_FAULT_ITERATION) (nevent n EID_DENSSOL_GOOD_ITERATION) le)), r_failed = False\<rparr>,
      snd (snd (checkExpr False DENSSOL_LE_ITERATION
      (nevent n EID_DENSSOL_FAULT_ITERATION) (nevent n EID_DENSSOL_GOOD_ITERATION) le))) = (res, out)"
    by (rule if_second [OF body _ t]) simp
  then show ?thesis using st by auto
qed

lemma dens_sample_shape: "shaped denssol_links dens_sample_node"
proof -
  have "shape (set_input k l n) = shape n" for k l and n :: "unit node" by (simp add: shape_def set_input_def)
  then show ?thesis using shaped_new [of denssol_links "()"] by (simp add: dens_sample_node_def Let_def shaped_def)
qed

lemma dens_sample_in: "in_value dens_sample_node 0 = Fin 0" "in_value dens_sample_node 1 = Fin 0" "in_value dens_sample_node 2 = Fin 1"
  by (simp_all add: dens_sample_node_def Let_def in_value_def set_input_def denssol_links_def initLinks_def initLink_def initLink_of_def
      source_new_def link_init_def link_default_def)

lemma dens_calc_one:
  assumes sh: "shaped denssol_links n" and i: "in_value n 0 = Fin 0" "in_value n 1 = Fin 0" "in_value n 2 = Fin 1"
    and d: "denssol_density s (Fin 0) (Fin 0) (Fin 1) = Fin 700"
    and oil: "getTypeProduct (Fin 700) product = oil" "oil \<in> {0, 2}"
    and r: "denssol_calc exp_one product s n = (s', n', out)"
  shows "out_v n' 0 = Fin 700 \<and> out_v n' 3 = Fin 700"
proof -
  let ?n1 = "put 0 (Fin 700) n"
  obtain res o6 where 6: "dens_outer exp_one product ?n1 (Fin 700) (Fin 0) (Fin 0) 3 20 oil (n_lockErr n) (dens_load ?n1) oil = (res, o6)"
    by force
  note R = dens_outer_one [OF oil 6]
  let ?n2 = "(dens_store (r_vars res) ?n1)\<lparr>n_lockErr := r_lockErr res\<rparr>"
  let ?s2 = "s\<lparr>ds_k0 := DENS_K0 ! r_oil res, ds_k1 := DENS_K1 ! r_oil res, ds_k2 := DENS_K2 ! r_oil res\<rparr>"
  have calc: "(if r_failed res then (case dens_setFault ?s2 ?n2 of (s', n') \<Rightarrow> (s', n', o6))
      else (case dens_finish exp_one product ?n2 of (n3, o8) \<Rightarrow> (?s2, n3, o6 @ o8))) = (s', n', out)"
    using r unfolding denssol_calc_def Let_def i d oil(1) 6 case_prod_conv .
  have sh1: "shaped denssol_links ?n1" using sh by simp
  have shs: "shaped denssol_links (dens_store (r_vars res) ?n1)" by (rule dens_store_spec(3) [OF sh1])
  then have sh2: "shaped denssol_links ?n2" by simp
  have nf: "\<not> r_failed res" using R by simp
  obtain o7 where "dens_finish exp_one product ?n2 = (n', o7)"
    using calc unfolding if_not_P [OF nf] by (simp split: prod.splits)
  note F = dens_finish_spec [OF sh2 this]
  have "dens_load n' = r_vars res" using F dens_store_spec(2) [OF sh1, of "r_vars res"] by (simp add: dens_load_def)
  then have "v_dens15 (dens_load n') = Fin 700" using R by simp
  then have "out_v n' 3 = Fin 700" by (simp add: dens_load_def)
  moreover have "out_v n' 0 = Fin 700"
    using F dens_store_spec(1) [OF sh1, of "r_vars res"] out_v_put [of n 0 0 "Fin 700"] denssol_own [OF sh, of 0] by simp
  ultimately show ?thesis by simp
qed

lemma dens_sample_run:
  assumes oil: "getTypeProduct (Fin 700) product = oil" "oil \<in> {0, 2}"
  obtains s' n' out where "denssol_body exp_one product dens_sample dens_sample_node = (s', n', out)"
    "out_v n' 0 = Fin 700" "out_v n' 3 = Fin 700"
proof -
  let ?m = dens_sample_node
  obtain s1 o1 where 1: "denssol_compare ?m dens_sample = (s1, o1)" by force
  have s1: "ds_curCoef s1 = ds_curCoef dens_sample" "Value (ds_calibrT s1) = Fin 0" "ds_accept s1 = 0"
    using 1 compare_setting_Value [of ?m EID_DENSSOL_CALIBR "ds_calibrT dens_sample"]
    by (auto simp: denssol_compare_def Let_def dens_sample_def cmp_new_def split: prod.splits)
  have 2: "denssol_accept ?m s1 = (s1, [])" using s1(3) by (simp add: denssol_accept_def)
  obtain x3 le1 o3 where 3: "checkExpr False DENSSOL_LE_INPUTS (nevent ?m EID_DENSSOL_FAULT_INPUTS)
             (nevent ?m EID_DENSSOL_GOOD_INPUTS) (n_lockErr ?m) = (x3, le1, o3)" by (rule prod_cases3)
  obtain bad le2 o4 where 4: "checkExpr (in_value ?m 2 < Fin 1) DENSSOL_LE_PERIOD (nevent ?m EID_DENSSOL_FAULT_PERIOD)
             (nevent ?m EID_DENSSOL_GOOD_PERIOD) le1 = (bad, le2, o4)" by (rule prod_cases3)
  have bad: "bad = 0" using checkExpr_code [OF 4] by (simp add: dens_sample_in)
  let ?n = "?m\<lparr>n_lockErr := le2\<rparr>"
  have shn: "shaped denssol_links ?n" using dens_sample_shape by simp
  have inp: "in_value ?n k = in_value ?m k" for k by (simp add: in_value_def)
  have d: "denssol_density s1 (Fin 0) (Fin 0) (Fin 1) = Fin 700"
    by (simp add: denssol_density_def Let_def s1 dens_sample_def cmp_new_def)
  obtain s3 n3 o5 where 5: "denssol_calc exp_one product s1 ?n = (s3, n3, o5)" by (rule prod_cases3)
  note R = dens_calc_one [OF shn trans [OF inp dens_sample_in(1)] trans [OF inp dens_sample_in(2)]
      trans [OF inp dens_sample_in(3)] d oil 5]
  have "denssol_body exp_one product dens_sample ?m = (if bad \<noteq> 0
      then (case dens_setFault s1 ?n of (s', n') \<Rightarrow> (s', n', o1 @ [] @ o3 @ o4))
      else (case denssol_calc exp_one product s1 ?n of (s', n', o5) \<Rightarrow> (s', n', o1 @ [] @ o3 @ o4 @ o5)))"
    unfolding denssol_body_def 1 2 3 4 case_prod_conv ..
  also have "\<dots> = (s3, n3, o1 @ [] @ o3 @ o4 @ o5)" using bad by (simp only: 5 case_prod_conv if_False refl not_True_eq_False)
  finally show thesis using that R by blast
qed

text \<open>C38. A densitometer either reports a fault, with all of its outputs NaN or a density at 15 degrees
  out of the range the code reads for its product; or its density at 15 degrees is a number within that
  range and the iteration converged to it: the density is one pass of the standard's formulas away from
  a number which differs from it by no more than the convergence limit, the outputs are those of that
  pass, and the density at 20 degrees follows from them. So a densitometer that was not faulty before
  and shows no fault has converged. The one thing asked of the C library is that \<^verbatim>\<open>exp\<close> of NaN is NaN.\<close>

theorem denssol_fault_or_converged:
  assumes "shaped denssol_links n" "denssol_body ex product s n = (s', n', out)" "ex NaN = NaN"
  shows "(n_fault n' = 1 \<and> ((\<forall>o'\<in>set dens_own. out_v n' o' = NaN) \<or> \<not> limit_ok product (out_v n' 3)))
    \<or> (n_fault n' = n_fault n \<and> limit_ok product (out_v n' 3)
       \<and> converged_at ex (out_v n' 0) (in_value n 0) (in_value n 1) (dens_load n')
       \<and> out_v n' 4 = getDens20 ex (out_v n' 3) (out_v n' 6))"
  using assms(1,2)
proof (cases rule: denssol_body_cases)
  case good
  have "v_dens15 (dens_load n') = out_v n' 3" by (simp add: dens_load_def)
  then show ?thesis using good settled_converged [of ex, OF assms(3), of _ _ _ "dens_load n'" product] by auto
qed simp

text \<open>The densitometer of a station whose product is the transition zone: no fault, and converged.\<close>

theorem denssol_fault_or_converged_witness:
  "\<exists>n'. n' = fst (snd (denssol_body exp_one TRANSITION dens_sample dens_sample_node))
    \<and> n_fault n' = n_fault dens_sample_node \<and> out_v n' 3 = Fin 700 \<and> converged_at exp_one (Fin 700) (Fin 0) (Fin 0) (dens_load n')"
proof -
  have oil: "getTypeProduct (Fin 700) TRANSITION = 2" "(2 :: nat) \<in> {0, 2}" by (simp_all add: getTypeProduct_def)
  obtain s' n' out where r: "denssol_body exp_one TRANSITION dens_sample dens_sample_node = (s', n', out)"
    "out_v n' 0 = Fin 700" "out_v n' 3 = Fin 700" by (rule dens_sample_run [OF oil])
  have "Limit_at 0 2 \<le> Fin 700" "Fin 700 < Limit_at 1 2"
    using dround_mono [of "6112 / 10" 700] dround_chain [of 700 700 "7709 / 10"] by (simp_all add: Limit_at_def DENS_Limit_def)
  then have ok: "limit_ok TRANSITION (out_v n' 3)" by (simp add: limit_ok_def r(3))
  have "\<not> (\<forall>o'\<in>set dens_own. out_v n' o' = NaN)" using r(2) by (simp add: dens_own_def)
  with denssol_fault_or_converged [OF dens_sample_shape r(1)] ok r show ?thesis
    unfolding dens_sample_in by (simp add: exp_one_def)
qed

text \<open>With the plausible ranges read in the order of the code, a densitometer set to one of the
  first five products is faulty whenever its density at 15 degrees lies in the range of its own
  product.\<close>

theorem denssol_own_range_faulty:
  assumes "shaped denssol_links n" "denssol_body ex product s n = (s', n', out)"
    "product \<in> {PETROLEUM, GAZOLENE, TRANSITION, JETFUEL, FUELOIL}" "own_range product (out_v n' 3)"
  shows "n_fault n' = 1"
  using assms(1,2)
proof (cases rule: denssol_body_cases)
  case good
  then show ?thesis using limit_not_own [OF assms(3)] assms(4) by auto
qed simp

theorem denssol_own_range_faulty_witness:
  "\<exists>s' n' out. denssol_body exp_one PETROLEUM dens_sample dens_sample_node = (s', n', out) \<and> out_v n' 3 = Fin 700
    \<and> n_fault n' = 1"
proof -
  obtain s' n' out where r: "denssol_body exp_one PETROLEUM dens_sample dens_sample_node = (s', n', out)"
    "out_v n' 3 = Fin 700"
    by (rule dens_sample_run [of PETROLEUM 0]) (simp_all add: getTypeProduct_def)
  have "own_range PETROLEUM (Fin 700)"
    using dround_mono [of "6112 / 10" 700] dround_chain [of 700 700 "11638 / 10"]
    by (simp add: own_range_def Limit_at_def DENS_Limit_def)
  then have "n_fault n' = 1" using denssol_own_range_faulty [OF dens_sample_shape r(1)] r(2) by simp
  then show ?thesis using r by blast
qed

section \<open>Water\<close>

lemma DENSWATER_length [simp]: "length DENSWATER = 1001"
  by (simp add: DENSWATER_def)

lemma water_cast:
  assumes "0 \<le> x" "x \<le> 100"
  shows "\<exists>k \<le> 1000. sint (cast_sword (ub :: DINT) (Fin x * Fin 10 + dround (1 / 2))) = int k"
proof -
  obtain a where a: "dround (x * 10) = Fin a" "0 \<le> a" "a \<le> 1000"
    using dround_between [of "x * 10" 1000 1000] assms by auto
  have "dround (2001 / 2) = Fin (2001 / 2)" by (rule dround_exact_small [of _ 2001 "- 1"]) simp_all
  then obtain b where b: "dround (a + 1 / 2) = Fin b" "0 \<le> b" "b \<le> 2001 / 2"
    using dround_between [of "a + 1 / 2" "2001 / 2" "2001 / 2"] a by auto
  have f: "0 \<le> \<lfloor>b\<rfloor>" "\<lfloor>b\<rfloor> \<le> 1000" using b by linarith+
  then have "cast_sword ub (Fin b) = of_int \<lfloor>b\<rfloor>" using b by (simp add: cast_sword_def ctrunc_def Let_def)
  moreover have "sint (of_int \<lfloor>b\<rfloor> :: DINT) = \<lfloor>b\<rfloor>"
    using f by (simp add: signed_of_int signed_take_bit_int_eq_self)
  moreover have "nat \<lfloor>b\<rfloor> \<le> 1000" "int (nat \<lfloor>b\<rfloor>) = \<lfloor>b\<rfloor>" using f by linarith+
  moreover have "Fin x * Fin 10 + dround (1 / 2) = Fin b" using a(1) b(1) by simp
  ultimately show ?thesis by metis
qed

text \<open>For every water temperature that is a number, the infinities included, the table is read
  inside of its bounds.\<close>

theorem water_density_total:
  assumes "t \<noteq> NaN"
  shows "\<exists>k < length DENSWATER. getDensityOfWater ub t = Some (dround (real (DENSWATER ! k) / 1000))"
proof -
  let ?c = "let t1 = (if t < Fin 0 then Fin 0 else t) in if t1 > Fin 100 then Fin 100 else t1"
  have "\<exists>x. ?c = Fin x \<and> 0 \<le> x \<and> x \<le> 100" using assms by (cases t) (auto simp: Let_def)
  then obtain x where x: "?c = Fin x" "0 \<le> x" "x \<le> 100" by blast
  obtain k where k: "k \<le> 1000" "sint (cast_sword (ub :: DINT) (Fin x * Fin 10 + dround (1 / 2))) = int k"
    using water_cast [OF x(2,3), of ub] by blast
  have "getDensityOfWater ub t = Some (dround (real (DENSWATER ! k) / 1000))"
    unfolding getDensityOfWater_def Let_def x(1) [unfolded Let_def] k(2) using k(1) by simp
  then show ?thesis using k(1) by (intro exI [of _ k]) simp
qed

theorem water_density_total_witness:
  "\<exists>k < length DENSWATER. getDensityOfWater 7 (Fin 20) = Some (dround (real (DENSWATER ! k) / 1000))"
  by (rule water_density_total) simp

end
