(* ===== verification/Selector.thy ===== *)
theory Selector
  imports Ports
begin

text \<open>
  The selector and the multi-selector, \<^verbatim>\<open>src/tritonn/data_selector.cpp\<close>: one of two or three
  inputs (of each group) is passed on, and a faulty one is left according to the mode. The loader
  refuses a fourth input, so an index of 4 is never formed; \<open>selector_fault\<close> reads no fault
  there. Inputs are numbered as \<^verbatim>\<open>generateIO\<close> registers them: by groups, then inputs, each
  value followed by its fault.
\<close>

section \<open>State\<close>

definition SEL_OFF :: UINT where "SEL_OFF = 0x0001"
definition SEL_NOEVENT :: UINT where "SEL_NOEVENT = 0x0004"
definition SEL_MULTI :: UINT where "SEL_MULTI = 0x8000"

definition NOCHANGE :: UINT where "NOCHANGE = 1"
definition TOERROR :: UINT where "TOERROR = 2"
definition CHANGEPREV :: UINT where "CHANGEPREV = 3"
definition CHANGENEXT :: UINT where "CHANGENEXT = 4"

definition MAX_INPUTS :: nat where "MAX_INPUTS = 4"
definition MAX_GROUPS :: nat where "MAX_GROUPS = 8"

definition SELECTOR_LE_NOCHANGE :: UDINT where "SELECTOR_LE_NOCHANGE = 0x00000001"

record rSelector =
  Keypad :: "lreal list"
  KpUnit :: "UDINT list"
  NameInput :: "string list"
  sel_setup :: "UINT rCompared"
  m_mode :: "UINT rCompared"
  m_select :: "16 word rCompared"
  CountInputs :: nat
  CountGroups :: nat

definition group_name :: "nat \<Rightarrow> string" where
  "group_name grp = ''#output_'' @ [char_of (48 + Suc grp)] @ ''_name''"

definition selector_new :: rSelector where
  "selector_new = \<lparr>Keypad = replicate MAX_GROUPS (Fin 0), KpUnit = replicate MAX_GROUPS U_any,
     NameInput = List.map group_name [0..<MAX_GROUPS], sel_setup = cmp_new 0, m_mode = cmp_new 0,
     m_select = cmp_new (- 1), CountInputs = MAX_INPUTS, CountGroups = MAX_GROUPS\<rparr>"

text \<open>The counts the loader lets through: \<open>n\<close> links in the list of inputs.\<close>

definition selector_count :: "nat \<Rightarrow> nat option" where
  "selector_count n = (if MAX_INPUTS \<le> n then None else if n < 2 then None else Some n)"

section \<open>Registering the links\<close>

definition input_name :: "nat \<Rightarrow> string" where "input_name ii = ''input_'' @ [char_of (48 + Suc ii)]"

text \<open>
  \<open>vin\<close>, \<open>fin\<close> and \<open>vout\<close> are the links as loaded; before the links are resolved
  \<^verbatim>\<open>getSourceUnit\<close> answers \<^verbatim>\<open>U_any\<close>.
\<close>

definition selector_generateIO :: "rSelector \<Rightarrow> (nat \<Rightarrow> nat \<Rightarrow> rLink) \<Rightarrow> (nat \<Rightarrow> nat \<Rightarrow> rLink) \<Rightarrow> (nat \<Rightarrow> rLink)
    \<Rightarrow> 'd node \<Rightarrow> 'd node" where
  "selector_generateIO s vin fin vout n0 =
     (let n = n0\<lparr>n_inputs := [], n_outputs := []\<rparr>; name = (\<lambda>grp. NameInput s ! grp) in
      if has (Value (sel_setup s)) SEL_MULTI
      then let n1 = foldl (\<lambda>n grp. initLink_of (vout grp) (LINK_OUTPUT OR LINK_VARNAME) (l_unit (vin 0 grp)) (name grp) '''' n)
                      n [0..<CountGroups s]
           in foldl (\<lambda>n grp. foldl (\<lambda>n ii. let i_name = name grp @ ''.'' @ input_name ii in
                  initLink_of (fin ii grp) (LINK_INPUT OR LINK_SIMPLE) U_DIMLESS (i_name @ ''.fault'') i_name
                    (initLink_of (vin ii grp) LINK_INPUT (l_unit (vin ii grp)) i_name '''' n))
                n [0..<CountInputs s]) n1 [0..<CountGroups s]
      else let n1 = foldl (\<lambda>n ii.
                  initLink_of (fin ii 0) (LINK_INPUT OR LINK_SIMPLE) U_DIMLESS (input_name ii @ ''.fault'') (input_name ii)
                    (initLink_of (vin ii 0) LINK_INPUT U_any (input_name ii) '''' n))
                n [0..<CountInputs s]
           in initLink_of (vout 0) LINK_OUTPUT U_any ''output'' '''' n1)"

text \<open>Where a value input is registered; its fault follows.\<close>

definition sel_index :: "rSelector \<Rightarrow> nat \<Rightarrow> nat \<Rightarrow> nat" where
  "sel_index s ii grp = 2 * (grp * CountInputs s + ii)"

section \<open>Calculation\<close>

definition selector_faults :: "rSelector \<Rightarrow> 'd node \<Rightarrow> nat list" where
  "selector_faults s n = List.map (\<lambda>ii. if ii < CountInputs s
       then length (List.filter (\<lambda>grp. \<not> deq (in_value n (sel_index s ii grp + 1)) (Fin 0)) [0..<CountGroups s]) else 0)
     [0..<MAX_INPUTS]"

definition selector_fault :: "nat list \<Rightarrow> 16 word \<Rightarrow> nat" where
  "selector_fault fg v = (if nat (sint v) < MAX_INPUTS then fg ! nat (sint v) else 0)"

definition selector_compare :: "'d node \<Rightarrow> rSelector \<Rightarrow> rSelector \<times> cevent list" where
  "selector_compare n s =
     (case cmp_Compare P_INT (nevent n EID_SELECTOR_SELECTED) (m_select s) of (_, sel, _, o1) \<Rightarrow>
      case cmp_Compare P_UINT (nevent n EID_SELECTOR_MODE) (m_mode s) of (_, mode, _, o2) \<Rightarrow>
      (s\<lparr>m_select := sel, m_mode := mode\<rparr>, o1 @ o2))"

text \<open>The fault set here is overwritten at the end of the calculation.\<close>

definition selector_check :: "'d node \<Rightarrow> rSelector \<Rightarrow> rSelector \<times> cevent list" where
  "selector_check n s = (let v = Value (m_select s) in
     if sint v \<ge> int (CountInputs s) \<or> sint v < -1
     then (s\<lparr>m_select := cmp_Init (- 1) (m_select s)\<rparr>, [ev_add (nevent n EID_SELECTOR_ERROR) (P_INT v)])
     else (s, []))"

definition set_select :: "16 word \<Rightarrow> rSelector \<Rightarrow> rSelector" where
  "set_select v s = s\<lparr>m_select := (m_select s)\<lparr>Value := v\<rparr>\<rparr>"

definition selector_next :: "UINT \<Rightarrow> nat \<Rightarrow> 16 word \<Rightarrow> 16 word" where
  "selector_next mode ci v = (let v1 = v + (if mode = CHANGENEXT then 1 else - 1);
     v2 = (if sint v1 < 0 then of_nat ci - 1 else v1)
     in if sint v2 > int ci then 0 else v2)"

text \<open>The do-while loop; \<open>r\<close> is how often it may still be repeated.\<close>

fun selector_seek :: "nat list \<Rightarrow> UINT \<Rightarrow> nat \<Rightarrow> nat \<Rightarrow> 16 word \<Rightarrow> 16 word" where
  "selector_seek fg mode ci 0 v = selector_next mode ci v"
| "selector_seek fg mode ci (Suc r) v =
     (let v' = selector_next mode ci v in if selector_fault fg v' \<noteq> 0 then selector_seek fg mode ci r v' else v')"

definition selector_auto :: "'d node \<Rightarrow> nat list \<Rightarrow> rSelector \<Rightarrow> UDINT \<Rightarrow> rSelector \<times> UDINT \<times> cevent list" where
  "selector_auto n fg s le = (let v = Value (m_select s); mode = Value (m_mode s) in
     if v = - 1 then (s, le, [])
     else if selector_fault fg v = 0
     then (case sendEventClearLE SELECTOR_LE_NOCHANGE (ev_add (nevent n EID_SELECTOR_CLEARERROR) (P_INT v)) le of
             (_, le', out) \<Rightarrow> (s, le', out))
     else if mode = NOCHANGE
     then (case sendEventSetLE SELECTOR_LE_NOCHANGE (ev_add (nevent n EID_SELECTOR_NOCHANGE) (P_INT v)) le of
             (_, le', out) \<Rightarrow> (s, le', out))
     else let (v1, o1) = (if mode = TOERROR then (- 1, [ev_add (nevent n EID_SELECTOR_TOFAULT) (P_INT v)]) else (v, []));
              v2 = selector_seek fg mode (CountInputs s) (CountInputs s - 3) v1;
              (v3, o2) = (if selector_fault fg v2 \<noteq> 0 then (- 1, [ev_add (nevent n EID_SELECTOR_NOTHINGNEXT) (P_INT v2)])
                          else (v2, [ev_add (nevent n EID_SELECTOR_TONEXT) (P_INT v2)]))
          in (set_select v3 s, le AND NOT SELECTOR_LE_NOCHANGE, o1 @ o2))"

text \<open>The selection of this scan.\<close>

definition selector_choose :: "'d node \<Rightarrow> rSelector \<Rightarrow> rSelector \<times> UDINT \<times> cevent list" where
  "selector_choose n s0 =
     (case selector_compare n s0 of (s1, o1) \<Rightarrow> case selector_check n s1 of (s2, o2) \<Rightarrow>
      case selector_auto n (selector_faults s0 n) s2 (n_lockErr n) of (s3, le, o3) \<Rightarrow> (s3, le, o1 @ o2 @ o3))"

definition selected_value :: "rSelector \<Rightarrow> 'd node \<Rightarrow> nat \<Rightarrow> lreal" where
  "selected_value s n grp = (let v = Value (m_select s) in
     if v = - 1 then Keypad s ! grp
     else if nat (sint v) < CountInputs s then in_value n (sel_index s (nat (sint v)) grp) else Fin 0)"

definition selected_unit :: "rSelector \<Rightarrow> nat \<Rightarrow> nat \<Rightarrow> 'd net \<Rightarrow> UDINT \<times> 'd net \<times> act list" where
  "selected_unit s i grp ns = (let v = Value (m_select s) in
     if v = - 1 then (KpUnit s ! grp, ns, [])
     else if nat (sint v) < CountInputs s
     then link_getSourceUnit (n_inputs (ns ! i) ! sel_index s (nat (sint v)) grp) ns else (U_any, ns, []))"

fun selector_outputs :: "rSelector \<Rightarrow> nat \<Rightarrow> nat list \<Rightarrow> 'd net \<Rightarrow> 'd net \<times> act list" where
  "selector_outputs s i [] ns = (ns, [])"
| "selector_outputs s i (grp # grps) ns =
     (let ns1 = upd i (\<lambda>n. put grp (selected_value s n grp) n) ns in
      case selected_unit s i grp ns1 of (u, ns2, a) \<Rightarrow>
      case selector_outputs s i grps (upd i (put_unit grp u) ns2) of (ns3, b) \<Rightarrow> (ns3, a @ b))"

definition selector_done :: "rSelector \<Rightarrow> nat list \<Rightarrow> 'd node \<Rightarrow> 'd node \<times> cevent list" where
  "selector_done s fg n = postCalculate (n\<lparr>n_fault := (if Value (m_select s) = - 1 then 1
     else of_nat (selector_fault fg (Value (m_select s))))\<rparr>)"

definition selector_body :: "(rSelector \<Rightarrow> 'd) \<Rightarrow> rSelector \<Rightarrow> nat \<Rightarrow> 'd net \<Rightarrow> 'd net \<times> act list" where
  "selector_body wrap s0 i ns =
     (if has (Value (sel_setup s0)) SEL_OFF then (ns, [])
      else case selector_choose (ns ! i) s0 of (s, le, o1) \<Rightarrow>
        case selector_outputs s i [0..<CountGroups s] (upd i (\<lambda>n. n\<lparr>n_lockErr := le, n_data := wrap s\<rparr>) ns) of (ns1, a) \<Rightarrow>
        case selector_done s (selector_faults s0 (ns ! i)) (ns1 ! i) of (n', o2) \<Rightarrow>
        (upd i (\<lambda>_. n') ns1, List.map Sent o1 @ a @ List.map Sent o2))"

section \<open>The selection\<close>

text \<open>The numbers of loaded inputs.\<close>

lemma selector_count_cases: "selector_count k = Some ci \<longleftrightarrow> ci = k \<and> (k = 2 \<or> k = 3)"
  by (auto simp: selector_count_def MAX_INPUTS_def)

lemma small_select:
  fixes v :: "16 word"
  assumes "- 1 \<le> sint v" "sint v < 3"
  shows "v = - 1 \<or> v = 0 \<or> v = 1 \<or> v = 2"
proof -
  have v: "v = word_of_int (sint v)" by simp
  have "sint v = - 1 \<or> sint v = 0 \<or> sint v = 1 \<or> sint v = 2" using assms by linarith
  then show ?thesis by (elim disjE) (use v in simp_all)
qed

lemma selector_next_range:
  assumes "ci = 2 \<or> ci = 3" "- 1 \<le> sint v" "sint v < int ci"
  shows "0 \<le> sint (selector_next mode ci v) \<and> sint (selector_next mode ci v) \<le> int ci
    \<and> (mode \<noteq> CHANGENEXT \<longrightarrow> sint (selector_next mode ci v) < int ci)"
proof -
  have "v = - 1 \<or> v = 0 \<or> v = 1 \<or> v = 2" by (rule small_select) (use assms in auto)
  with assms show ?thesis by (elim disjE) (simp_all add: selector_next_def Let_def)
qed

lemma selector_next_last:
  "selector_next CHANGENEXT 2 1 = 2" "selector_next CHANGENEXT 3 2 = 3"
  by (simp_all add: selector_next_def Let_def)

lemma selector_seek_once: "ci = 2 \<or> ci = 3 \<Longrightarrow> selector_seek fg mode ci (ci - 3) v = selector_next mode ci v"
  by auto

lemma selector_check_range:
  "selector_check n s = (s', out) \<Longrightarrow> 0 < CountInputs s \<Longrightarrow> - 1 \<le> sint (Value (m_select s')) \<and> sint (Value (m_select s')) < int (CountInputs s)
     \<and> CountInputs s' = CountInputs s \<and> m_mode s' = m_mode s"
  by (auto simp: selector_check_def cmp_Init_def Let_def split: if_splits)

lemma selector_compare_keeps:
  "selector_compare n s = (s', out) \<Longrightarrow> Value (m_select s') = Value (m_select s) \<and> Value (m_mode s') = Value (m_mode s)
     \<and> CountInputs s' = CountInputs s \<and> CountGroups s' = CountGroups s \<and> Keypad s' = Keypad s \<and> KpUnit s' = KpUnit s"
  by (auto simp: selector_compare_def cmp_Compare_def cmp_report_def Let_def split: if_splits prod.splits)

lemma selector_auto_cases:
  assumes "selector_auto n fg s le = (s', le', out)" "ci = CountInputs s" "ci = 2 \<or> ci = 3"
    "- 1 \<le> sint (Value (m_select s))" "sint (Value (m_select s)) < int ci"
  shows "- 1 \<le> sint (Value (m_select s')) \<and> sint (Value (m_select s')) \<le> int ci
    \<and> (Value (m_mode s) \<noteq> CHANGENEXT \<longrightarrow> sint (Value (m_select s')) < int ci)
    \<and> (Value (m_select s') = - 1 \<or> Value (m_mode s) = NOCHANGE \<or> selector_fault fg (Value (m_select s')) = 0)"
proof -
  let ?v = "Value (m_select s)" and ?m = "Value (m_mode s)"
  have R: "0 \<le> sint (selector_next ?m ci w) \<and> sint (selector_next ?m ci w) \<le> int ci
      \<and> (?m \<noteq> CHANGENEXT \<longrightarrow> sint (selector_next ?m ci w) < int ci)" if "w = ?v \<or> w = - 1" for w
    using selector_next_range [OF assms(3), of w ?m] that assms(3,4,5) by auto
  show ?thesis
    using assms(1,4,5) R [of ?v] R [of "- 1"] assms(2)
    by (auto simp: selector_auto_def Let_def selector_seek_once [OF assms(3) [unfolded assms(2)]] set_select_def split: if_splits prod.splits)
qed

lemma selector_choose_spec:
  assumes "selector_choose n s = (s', le, out)" "selector_count k = Some (CountInputs s)"
  shows "- 1 \<le> sint (Value (m_select s')) \<and> sint (Value (m_select s')) \<le> int (CountInputs s)
    \<and> (Value (m_mode s) \<noteq> CHANGENEXT \<longrightarrow> sint (Value (m_select s')) < int (CountInputs s))
    \<and> (Value (m_select s') = - 1 \<or> Value (m_mode s) = NOCHANGE \<or> selector_fault (selector_faults s n) (Value (m_select s')) = 0)"
proof -
  have ci: "CountInputs s = 2 \<or> CountInputs s = 3" using assms(2) by (auto simp: selector_count_cases)
  obtain s1 o1 where 1: "selector_compare n s = (s1, o1)" by force
  obtain s2 o2 where 2: "selector_check n s1 = (s2, o2)" by force
  obtain s3 le3 o3 where 3: "selector_auto n (selector_faults s n) s2 (n_lockErr n) = (s3, le3, o3)" by (rule prod_cases3)
  have s': "s' = s3" using assms(1) by (simp add: selector_choose_def 1 2 3)
  note k = selector_compare_keeps [OF 1]
  have c: "- 1 \<le> sint (Value (m_select s2)) \<and> sint (Value (m_select s2)) < int (CountInputs s)
     \<and> CountInputs s2 = CountInputs s \<and> Value (m_mode s2) = Value (m_mode s)"
    using selector_check_range [OF 2] k ci by auto
  from selector_auto_cases [OF 3, of "CountInputs s"] c ci show ?thesis unfolding s' by simp
qed

section \<open>The outputs\<close>

lemma selected_value_inputs: "n_inputs n' = n_inputs n \<Longrightarrow> selected_value s n' grp = selected_value s n grp"
  by (simp add: selected_value_def in_value_def Let_def)

lemma selected_unit_only: "selected_unit s i grp ns = (u, ns', a) \<Longrightarrow> latches_only ns ns' \<and> rans a = []"
  by (auto simp: selected_unit_def Let_def dest: link_getSourceUnit_only split: if_splits)

lemma latch_node: "latches_only ns ns' \<Longrightarrow> i < length ns \<Longrightarrow> n_inputs (ns' ! i) = n_inputs (ns ! i)
    \<and> n_outputs (ns' ! i) = n_outputs (ns ! i) \<and> n_data (ns' ! i) = n_data (ns ! i) \<and> n_isCalc (ns' ! i) = n_isCalc (ns ! i)
    \<and> n_fault (ns' ! i) = n_fault (ns ! i)"
  using lk0_fields [of "ns' ! i" "ns ! i" undefined] by (simp add: latches_only_def)

lemma own_output_cong: "n_outputs n' = n_outputs n \<Longrightarrow> own_output n' o' = own_output n o'"
  by (simp add: own_output_def)

text \<open>The loop over the groups writes the outputs and nothing else of its object.\<close>

lemma selector_outputs_spec:
  assumes "selector_outputs s i grps ns = (ns', a)" "i < length ns" "\<forall>g\<in>set grps. own_output (ns ! i) g"
  shows "quiet cls i ns ns' \<and> rans a = [] \<and> n_inputs (ns' ! i) = n_inputs (ns ! i) \<and> n_data (ns' ! i) = n_data (ns ! i)
    \<and> (\<forall>o'. own_output (ns' ! i) o' = own_output (ns ! i) o') \<and> length (n_outputs (ns' ! i)) = length (n_outputs (ns ! i))"
  using assms
proof (induction s i grps ns arbitrary: ns' a rule: selector_outputs.induct)
  case (2 s i grp grps ns)
  let ?ns1 = "upd i (\<lambda>n. put grp (selected_value s n grp) n) ns"
  obtain u ns2 a1 where u: "selected_unit s i grp ?ns1 = (u, ns2, a1)" by (rule prod_cases3)
  let ?ns3 = "upd i (put_unit grp u) ns2"
  obtain ns4 a2 where r: "selector_outputs s i grps ?ns3 = (ns4, a2)" by force
  have e: "ns' = ns4" "a = a1 @ a2" using 2(2) by (simp_all add: Let_def u r)
  have own: "own_output (ns ! i) grp" using 2(4) by simp
  have len1: "length ?ns1 = length ns" by simp
  have l: "latches_only ?ns1 ns2" "rans a1 = []" using selected_unit_only [OF u] by auto
  then have len2: "length ns2 = length ns" by (simp add: latches_only_def)
  note nd = latch_node [OF l(1), of i, unfolded len1, OF 2(3)]
  have own2: "own_output (ns2 ! i) o' = own_output (ns ! i) o'" for o'
    using nd own_output_cong [of "ns2 ! i" "?ns1 ! i"] 2(3) by simp
  have q1: "quiet cls i ns ?ns1" by (rule quiet_upd) (use keeps_links_put [OF own] 2(3) in auto)
  have q2: "quiet cls i ?ns1 ns2" by (rule quiet_latch) (use l 2(3) in auto)
  have q3: "quiet cls i ns2 ?ns3" by (rule quiet_upd) (use keeps_links_put_unit [OF own2 [THEN iffD2, OF own]] 2(3) len2 in auto)
  have i3: "i < length ?ns3" using 2(3) len2 by simp
  have IH: "quiet cls i ?ns3 ns4 \<and> rans a2 = [] \<and> n_inputs (ns4 ! i) = n_inputs (?ns3 ! i) \<and> n_data (ns4 ! i) = n_data (?ns3 ! i)
    \<and> (\<forall>o'. own_output (ns4 ! i) o' = own_output (?ns3 ! i) o') \<and> length (n_outputs (ns4 ! i)) = length (n_outputs (?ns3 ! i))"
    by (rule 2(1) [OF refl u [symmetric] refl r i3]) (use own2 2(3,4) len2 in auto)
  have "quiet cls i ns ns4"
    by (rule quiet_trans [OF quiet_trans [OF quiet_trans [OF q1 q2 2(3)] q3 2(3)] _ 2(3)]) (use IH in blast)
  then show ?case unfolding e using IH nd own own2 l(2) 2(3) len2 by simp
qed simp

lemma selector_outputs_values:
  assumes "selector_outputs s i grps ns = (ns', a)" "i < length ns" "\<forall>g\<in>set grps. own_output (ns ! i) g \<and> g < length (n_outputs (ns ! i))"
    "distinct grps" "own_output (ns ! i) g" "g < length (n_outputs (ns ! i))"
  shows "out_v (ns' ! i) g = (if g \<in> set grps then selected_value s (ns ! i) g else out_v (ns ! i) g)"
  using assms
proof (induction s i grps ns arbitrary: ns' a rule: selector_outputs.induct)
  case (2 s i grp grps ns)
  let ?ns1 = "upd i (\<lambda>n. put grp (selected_value s n grp) n) ns"
  obtain u ns2 a1 where u: "selected_unit s i grp ?ns1 = (u, ns2, a1)" by (rule prod_cases3)
  let ?ns3 = "upd i (put_unit grp u) ns2"
  obtain ns4 a2 where r: "selector_outputs s i grps ?ns3 = (ns4, a2)" by force
  have e: "ns' = ns4" using 2(2) by (simp add: Let_def u r)
  have own: "own_output (ns ! i) grp" "grp < length (n_outputs (ns ! i))" using 2(4) by simp_all
  have l: "latches_only ?ns1 ns2" using selected_unit_only [OF u] by auto
  then have len2: "length ns2 = length ns" by (simp add: latches_only_def)
  have nd: "n_inputs (ns2 ! i) = n_inputs (?ns1 ! i)" "n_outputs (ns2 ! i) = n_outputs (?ns1 ! i)"
    using latch_node [OF l, of i] 2(3) by simp_all
  have own2: "own_output (ns2 ! i) o' = own_output (ns ! i) o'" for o'
    using own_output_cong [OF nd(2)] 2(3) by simp
  have in2: "n_inputs (?ns3 ! i) = n_inputs (ns ! i)" using nd own own2 2(3) len2 by simp
  have v2: "out_v (?ns3 ! i) o' = (if o' = grp then selected_value s (ns ! i) grp else out_v (ns ! i) o')"
    if "own_output (ns ! i) o'" "o' < length (n_outputs (ns ! i))" for o'
  proof -
    have "out_v (?ns3 ! i) o' = out_v (ns2 ! i) o'"
      using out_v_put_unit [OF own2 [THEN iffD2, OF own(1)] own2 [THEN iffD2, OF that(1)]] 2(3) len2 by simp
    also have "\<dots> = out_v (?ns1 ! i) o'"
    proof -
      have "out_link (ns2 ! i) r = out_link (?ns1 ! i) r" for r using nd by (cases r) simp_all
      then show ?thesis using nd by (simp add: out_v_def)
    qed
    also have "\<dots> = (if o' = grp then selected_value s (ns ! i) grp else out_v (ns ! i) o')"
      using out_v_put [OF own(1) that(1) own(2) that(2)] 2(3) by simp
    finally show ?thesis .
  qed
  have len3: "length (n_outputs (?ns3 ! i)) = length (n_outputs (ns ! i))" using nd 2(3) len2 by simp
  have own3: "own_output (?ns3 ! i) o' = own_output (ns ! i) o'" for o' using own2 2(3) len2 by simp
  have "out_v (ns4 ! i) g = (if g \<in> set grps then selected_value s (?ns3 ! i) g else out_v (?ns3 ! i) g)"
    by (rule 2(1) [OF refl u [symmetric] refl r])
      (use 2(3-7) len2 len3 own3 in auto)
  then show ?case using v2 [OF 2(6,7)] 2(5) selected_value_inputs [OF in2] unfolding e by auto
qed simp

section \<open>The whole calculation\<close>

definition sel_shaped :: "rSelector \<Rightarrow> 'd node \<Rightarrow> bool" where
  "sel_shaped s n \<longleftrightarrow> (\<forall>g<CountGroups s. own_output n g \<and> g < length (n_outputs n))"

lemma selector_choose_groups:
  "selector_choose n s = (s', le, out) \<Longrightarrow> CountGroups s' = CountGroups s \<and> CountInputs s' = CountInputs s \<and> Keypad s' = Keypad s"
  by (auto simp: selector_choose_def selector_auto_def selector_check_def set_select_def Let_def
      dest!: selector_compare_keeps split: if_splits prod.splits)

lemma selector_body_spec:
  assumes r: "selector_body wrap s0 i ns = (ns', a)" and on: "\<not> has (Value (sel_setup s0)) SEL_OFF" and i: "i < length ns"
    and sh: "sel_shaped s0 (ns ! i)"
  obtains s le out where "selector_choose (ns ! i) s0 = (s, le, out)" "n_data (ns' ! i) = wrap s" "rans a = []"
    "n_fault (ns' ! i) = (if Value (m_select s) = - 1 then 1
       else of_nat (selector_fault (selector_faults s0 (ns ! i)) (Value (m_select s))))"
    "\<forall>g<CountGroups s0. out_v (ns' ! i) g = selected_value s (ns ! i) g"
    "\<And>cls. cls (wrap s) = cls (n_data (ns ! i)) \<Longrightarrow> quiet cls i ns ns'"
proof -
  obtain s le o1 where c: "selector_choose (ns ! i) s0 = (s, le, o1)" by (rule prod_cases3)
  note cg = selector_choose_groups [OF c]
  let ?f = "\<lambda>n. n\<lparr>n_lockErr := le, n_data := wrap s\<rparr>"
  let ?ns0 = "upd i ?f ns"
  obtain ns1 a1 where o: "selector_outputs s i [0..<CountGroups s] ?ns0 = (ns1, a1)" by force
  obtain n' o2 where d: "selector_done s (selector_faults s0 (ns ! i)) (ns1 ! i) = (n', o2)" by force
  have e: "ns' = upd i (\<lambda>_. n') ns1" "a = List.map Sent o1 @ a1 @ List.map Sent o2"
    using r on by (simp_all add: selector_body_def c o d)
  have own0: "own_output (?ns0 ! i) g \<longleftrightarrow> own_output (ns ! i) g" for g using i by (simp add: own_output_def)
  have sh0: "\<forall>g\<in>set [0..<CountGroups s]. own_output (?ns0 ! i) g \<and> g < length (n_outputs (?ns0 ! i))"
    using sh cg own0 i by (simp add: sel_shaped_def)
  have i0: "i < length ?ns0" using i by simp
  note S = selector_outputs_spec [OF o i0, of cls for cls]
  have S1: "quiet cls i ?ns0 ns1" "rans a1 = []" "n_inputs (ns1 ! i) = n_inputs (ns ! i)" "n_data (ns1 ! i) = wrap s"
    "length (n_outputs (ns1 ! i)) = length (n_outputs (ns ! i))" for cls
    using S [of cls] sh0 i by auto
  have len: "length ns1 = length ns" using quiet_length [OF S1(1)] i by simp
  let ?n1 = "(ns1 ! i)\<lparr>n_fault := (if Value (m_select s) = - 1 then 1
     else of_nat (selector_fault (selector_faults s0 (ns ! i)) (Value (m_select s))))\<rparr>"
  have n': "n' = fst (postCalculate ?n1)" using d by (simp add: selector_done_def split: prod.splits)
  have node: "ns' ! i = n'" using e(1) i len by simp
  show thesis
  proof (rule that [OF c])
    show "n_data (ns' ! i) = wrap s" unfolding node n' using S1(4) by simp
    show "rans a = []" using e(2) S1(2) by simp
    show "n_fault (ns' ! i) = (if Value (m_select s) = - 1 then 1
       else of_nat (selector_fault (selector_faults s0 (ns ! i)) (Value (m_select s))))" unfolding node n' by simp
    show "\<forall>g<CountGroups s0. out_v (ns' ! i) g = selected_value s (ns ! i) g"
    proof (intro allI impI)
      fix g assume g: "g < CountGroups s0"
      then have gl: "g < length (n_outputs ?n1)" using sh S1(5) by (simp add: sel_shaped_def)
      have "out_v (ns' ! i) g = out_v ?n1 g" unfolding node n' by (rule postCalculate_out [OF gl])
      also have "\<dots> = out_v (ns1 ! i) g" by simp
      also have "\<dots> = selected_value s (?ns0 ! i) g"
        using selector_outputs_values [OF o i0 sh0, of g] sh0 g cg by simp
      also have "\<dots> = selected_value s (ns ! i) g" by (rule selected_value_inputs) (use i in simp)
      finally show "out_v (ns' ! i) g = selected_value s (ns ! i) g" .
    qed
    show "quiet cls i ns ns'" if w: "cls (wrap s) = cls (n_data (ns ! i))" for cls
    proof -
      have q0: "quiet cls i ns ?ns0" by (rule quiet_upd) (use w i in \<open>auto intro: keeps_links_same\<close>)
      have q1: "quiet cls i ns1 ns'" unfolding e(1)
        by (rule quiet_upd) (use i len in \<open>auto simp: n' intro: keeps_links_same\<close>)
      show ?thesis by (rule quiet_trans [OF quiet_trans [OF q0 S1(1) i] q1 i])
    qed
  qed
qed

section \<open>What a selector promises\<close>

text \<open>After a calculation the selection is the keypad, an input or, when faults are left upwards,
  the number behind the last input; unless changes are forbidden it has no fault; the fault of the
  object counts the faults of the selection and each output shows its value.\<close>

theorem selector_selection:
  assumes "selector_body wrap s i ns = (ns', a)" "\<not> has (Value (sel_setup s)) SEL_OFF" "selector_count k = Some (CountInputs s)"
    "i < length ns" "sel_shaped s (ns ! i)"
  shows "\<exists>s'. n_data (ns' ! i) = wrap s' \<and> - 1 \<le> sint (Value (m_select s')) \<and> sint (Value (m_select s')) \<le> int (CountInputs s)
    \<and> (Value (m_mode s) \<noteq> CHANGENEXT \<longrightarrow> sint (Value (m_select s')) < int (CountInputs s))
    \<and> (Value (m_select s') = - 1 \<or> Value (m_mode s) = NOCHANGE \<or> selector_fault (selector_faults s (ns ! i)) (Value (m_select s')) = 0)
    \<and> n_fault (ns' ! i) = (if Value (m_select s') = - 1 then 1
        else of_nat (selector_fault (selector_faults s (ns ! i)) (Value (m_select s'))))
    \<and> (\<forall>g<CountGroups s. out_v (ns' ! i) g = selected_value s' (ns ! i) g)"
proof -
  obtain s' le out where B: "selector_choose (ns ! i) s = (s', le, out)" "n_data (ns' ! i) = wrap s'"
    "n_fault (ns' ! i) = (if Value (m_select s') = - 1 then 1
       else of_nat (selector_fault (selector_faults s (ns ! i)) (Value (m_select s'))))"
    "\<forall>g<CountGroups s. out_v (ns' ! i) g = selected_value s' (ns ! i) g"
    using selector_body_spec [OF assms(1,2,4,5)] by metis
  from selector_choose_spec [OF B(1) assms(3)] B(2-) show ?thesis by (intro exI [of _ s']) simp
qed

text \<open>When the last input fails, a selector told to go on to the next one selects the number
  behind it: its outputs become zero and it reports no fault.\<close>

theorem selector_next_past_end:
  assumes "selector_body wrap s i ns = (ns', a)" "\<not> has (Value (sel_setup s)) SEL_OFF" "selector_count k = Some (CountInputs s)"
    "i < length ns" "sel_shaped s (ns ! i)"
    "Value (m_mode s) = CHANGENEXT" "Value (m_select s) = of_nat (CountInputs s - 1)"
    "selector_fault (selector_faults s (ns ! i)) (Value (m_select s)) \<noteq> 0"
  shows "\<exists>s'. n_data (ns' ! i) = wrap s' \<and> Value (m_select s') = of_nat (CountInputs s) \<and> n_fault (ns' ! i) = 0
    \<and> (\<forall>g<CountGroups s. out_v (ns' ! i) g = Fin 0)"
proof -
  obtain s' le out where B: "selector_choose (ns ! i) s = (s', le, out)" "n_data (ns' ! i) = wrap s'"
    "n_fault (ns' ! i) = (if Value (m_select s') = - 1 then 1
       else of_nat (selector_fault (selector_faults s (ns ! i)) (Value (m_select s'))))"
    "\<forall>g<CountGroups s. out_v (ns' ! i) g = selected_value s' (ns ! i) g"
    using selector_body_spec [OF assms(1,2,4,5)] by metis
  let ?ci = "CountInputs s" and ?fg = "selector_faults s (ns ! i)"
  have ci: "?ci = 2 \<or> ?ci = 3" using assms(3) by (auto simp: selector_count_cases)
  obtain s1 o1 where 1: "selector_compare (ns ! i) s = (s1, o1)" by force
  note k = selector_compare_keeps [OF 1]
  have v: "sint (Value (m_select s)) = int ?ci - 1" "Value (m_select s) \<noteq> - 1"
    using assms(7) ci by (elim disjE; simp)+
  then have 2: "selector_check (ns ! i) s1 = (s1, [])" using k ci by (auto simp: selector_check_def Let_def)
  have beyond: "selector_fault ?fg (of_nat ?ci) = 0"
    using ci by (auto simp: selector_fault_def selector_faults_def MAX_INPUTS_def)
  have nx: "selector_next CHANGENEXT ?ci (Value (m_select s)) = of_nat ?ci"
    using ci assms(7) selector_next_last by (elim disjE) simp_all
  have md: "CHANGENEXT \<noteq> NOCHANGE" "CHANGENEXT \<noteq> TOERROR" by (simp_all add: CHANGENEXT_def NOCHANGE_def TOERROR_def)
  obtain le3 o3 where 3: "selector_auto (ns ! i) ?fg s1 (n_lockErr (ns ! i)) = (set_select (of_nat ?ci) s1, le3, o3)"
    using assms(6,8) v(2) k beyond nx md by (simp add: selector_auto_def Let_def selector_seek_once [OF ci])
  have s': "s' = set_select (of_nat ?ci) s1" using B(1) by (simp add: selector_choose_def 1 2 3)
  have sel: "Value (m_select s') = of_nat ?ci" by (simp add: s' set_select_def)
  have n1: "(of_nat ?ci :: 16 word) \<noteq> - 1" "nat (sint (of_nat ?ci :: 16 word)) = ?ci" using ci by (elim disjE; simp)+
  have "CountInputs s' = ?ci" using k by (simp add: s' set_select_def)
  with B(2-) sel n1 beyond show ?thesis by (intro exI [of _ s']) (simp add: selected_value_def)
qed

text \<open>In the mode that shall go to the substitute value, a faulty input is left for the last one
  when that is healthy.\<close>

lemma selector_error_takes_last:
  assumes "selector_choose n s = (s', le, out)" "selector_count k = Some (CountInputs s)" "Value (m_mode s) = TOERROR"
    "0 \<le> sint (Value (m_select s))" "sint (Value (m_select s)) < int (CountInputs s)"
    "selector_fault (selector_faults s n) (Value (m_select s)) \<noteq> 0"
    "selector_fault (selector_faults s n) (of_nat (CountInputs s - 1)) = 0"
  shows "Value (m_select s') = of_nat (CountInputs s - 1)"
proof -
  let ?ci = "CountInputs s" and ?fg = "selector_faults s n"
  have ci: "?ci = 2 \<or> ?ci = 3" using assms(2) by (auto simp: selector_count_cases)
  obtain s1 o1 where 1: "selector_compare n s = (s1, o1)" by force
  note k = selector_compare_keeps [OF 1]
  have v: "Value (m_select s) \<noteq> - 1" using assms(4) by auto
  have 2: "selector_check n s1 = (s1, [])" using k assms(4,5) by (simp add: selector_check_def Let_def)
  have md: "TOERROR \<noteq> NOCHANGE" "TOERROR \<noteq> CHANGENEXT" by (simp_all add: CHANGENEXT_def NOCHANGE_def TOERROR_def)
  have nx: "selector_next TOERROR ?ci (- 1) = of_nat (?ci - 1)"
    using ci md by (elim disjE) (simp_all add: selector_next_def Let_def)
  obtain le3 o3 where 3: "selector_auto n ?fg s1 (n_lockErr n) = (set_select (of_nat (?ci - 1)) s1, le3, o3)"
    using assms(3,6,7) v k nx md by (simp add: selector_auto_def Let_def selector_seek_once [OF ci])
  have "s' = set_select (of_nat (?ci - 1)) s1" using assms(1) by (simp add: selector_choose_def 1 2 3)
  then show ?thesis by (simp add: set_select_def)
qed

section \<open>Examples\<close>

definition sel_sample :: rSelector where
  "sel_sample = selector_new\<lparr>m_mode := cmp_new CHANGENEXT, m_select := cmp_new 1, CountInputs := 2, CountGroups := 1\<rparr>"

definition sel_sample_net :: "rSelector net" where
  "sel_sample_net = (let l = (\<lambda>v. link_default\<lparr>l_value := v\<rparr>) in
     [selector_generateIO sel_sample (\<lambda>ii grp. l (Fin 5)) (\<lambda>ii grp. l (if ii = 1 then Fin 1 else Fin 0)) (\<lambda>grp. link_default)
        (source_new sel_sample)])"

lemma sel_upt: "[0..<2 :: nat] = [0, 1]" "[0..<1 :: nat] = [0]" "[0..<4 :: nat] = [0, 1, 2, 3]"
  by (simp_all add: upt_rec)

lemma sel_sample_fields [simp]:
  "sel_setup sel_sample = cmp_new 0" "CountInputs sel_sample = 2" "CountGroups sel_sample = 1"
  "Value (m_select sel_sample) = 1" "Value (m_mode sel_sample) = CHANGENEXT"
  by (simp_all add: sel_sample_def selector_new_def cmp_new_def)

lemma sel_sample_off: "\<not> has (Value (cmp_new 0)) SEL_OFF" "\<not> has (Value (cmp_new 0)) SEL_MULTI"
  "Value (cmp_new (0 :: UINT)) AND x = 0"
  by (simp_all add: cmp_new_def has_def)

lemma sel_sample_node:
  "List.map (\<lambda>s. l_value (sl_link s)) (n_inputs (sel_sample_net ! 0)) = [Fin 5, Fin 0, Fin 5, Fin 1]"
  "\<exists>l. n_outputs (sel_sample_net ! 0) = [O_own l]" "length sel_sample_net = 1"
  by (simp_all add: sel_sample_net_def selector_generateIO_def sel_sample_off sel_upt initLink_of_def Let_def link_init_def
      has_def LINK_INPUT_def LINK_OUTPUT_def LINK_SIMPLE_def link_default_def source_new_def)

lemma sel_sample_in: "k < 4 \<Longrightarrow> in_value (sel_sample_net ! 0) k = [Fin 5, Fin 0, Fin 5, Fin 1] ! k"
  using arg_cong [OF sel_sample_node(1), of "\<lambda>xs. xs ! k"] arg_cong [OF sel_sample_node(1), of List.length]
  by (simp add: in_value_def)

lemma sel_sample_facts:
  "selector_count 2 = Some (CountInputs sel_sample)" "sel_shaped sel_sample (sel_sample_net ! 0)"
  "selector_fault (selector_faults sel_sample (sel_sample_net ! 0)) 1 = 1"
proof -
  show "selector_count 2 = Some (CountInputs sel_sample)" by (simp add: selector_count_def MAX_INPUTS_def)
  show "sel_shaped sel_sample (sel_sample_net ! 0)" using sel_sample_node(2) by (auto simp: sel_shaped_def own_output_def)
  show "selector_fault (selector_faults sel_sample (sel_sample_net ! 0)) 1 = 1"
    by (simp add: selector_fault_def selector_faults_def MAX_INPUTS_def sel_upt sel_index_def sel_sample_in)
qed

theorem selector_next_past_end_witness:
  "\<exists>ns' s'. fst (selector_body (\<lambda>x. x) sel_sample 0 sel_sample_net) = ns' \<and> n_data (ns' ! 0) = s'
    \<and> Value (m_select s') = 2 \<and> n_fault (ns' ! 0) = 0 \<and> out_v (ns' ! 0) 0 = Fin 0"
proof -
  obtain ns' a where r: "selector_body (\<lambda>x. x) sel_sample 0 sel_sample_net = (ns', a)" by force
  have "\<exists>s'. n_data (ns' ! 0) = s' \<and> Value (m_select s') = of_nat (CountInputs sel_sample) \<and> n_fault (ns' ! 0) = 0
    \<and> (\<forall>g<CountGroups sel_sample. out_v (ns' ! 0) g = Fin 0)"
    by (rule selector_next_past_end [OF r _ sel_sample_facts(1) _ sel_sample_facts(2)])
      (simp_all add: sel_sample_off sel_sample_node(3) sel_sample_facts(3) [simplified])
  then show ?thesis using r by simp
qed

theorem selector_selection_witness:
  "\<exists>ns' s'. fst (selector_body (\<lambda>x. x) (sel_sample\<lparr>m_mode := cmp_new CHANGEPREV\<rparr>) 0 sel_sample_net) = ns' \<and> n_data (ns' ! 0) = s'
    \<and> sint (Value (m_select s')) < 2 \<and> out_v (ns' ! 0) 0 = selected_value s' (sel_sample_net ! 0) 0"
proof -
  let ?s = "sel_sample\<lparr>m_mode := cmp_new CHANGEPREV\<rparr>"
  obtain ns' a where r: "selector_body (\<lambda>x. x) ?s 0 sel_sample_net = (ns', a)" by force
  have "\<not> has (Value (sel_setup ?s)) SEL_OFF" "selector_count 2 = Some (CountInputs ?s)" "0 < length sel_sample_net"
    "sel_shaped ?s (sel_sample_net ! 0)"
    using sel_sample_facts by (simp_all add: sel_sample_off sel_sample_node(3) sel_shaped_def)
  note T = selector_selection [OF r this]
  have "CHANGEPREV \<noteq> CHANGENEXT" "Value (m_mode ?s) = CHANGEPREV" "CountInputs ?s = 2" "CountGroups ?s = 1"
    by (simp_all add: CHANGEPREV_def CHANGENEXT_def cmp_new_def)
  with T r show ?thesis by auto
qed

end
