(* ===== verification/DataIo.thy ===== *)
theory DataIo
  imports Ports IoManager
begin

text \<open>
  The data objects behind the channels of the modules: counters \<^verbatim>\<open>src/tritonn/data/counter.cpp\<close>,
  discrete inputs and outputs \<^verbatim>\<open>di.cpp\<close>, \<^verbatim>\<open>do.cpp\<close>, analog inputs and outputs
  \<^verbatim>\<open>ai.cpp\<close>, \<^verbatim>\<open>ao.cpp\<close> with their scale, and the binding to a channel
  \<^verbatim>\<open>data_module.cpp\<close>. Each \<open>_body\<close> is the part of \<^verbatim>\<open>calculate\<close> behind
  \<^verbatim>\<open>rSource::calculate\<close>; \<open>io\<close> are the modules as they stand while the object is
  calculated. A value given to a channel is an action of the result, a halt too.
\<close>

section \<open>Binding to a channel\<close>

definition MODULE_FAULT :: USINT where "MODULE_FAULT = 0xFF"

record rDataModule =
  dm_module :: USINT
  dm_channel :: USINT
  dm_nochannel :: bool

definition module_new :: "bool \<Rightarrow> rDataModule" where
  "module_new nochannel = \<lparr>dm_module = MODULE_FAULT, dm_channel = MODULE_FAULT, dm_nochannel = nochannel\<rparr>"

definition isSetModule :: "rDataModule \<Rightarrow> bool" where
  "isSetModule d \<longleftrightarrow> dm_module d \<noteq> MODULE_FAULT \<and> (dm_channel d \<noteq> MODULE_FAULT \<or> dm_nochannel d)"

text \<open>The attributes as the loader reads them, with the default when one is missing.\<close>

definition module_load :: "USINT option \<Rightarrow> USINT option \<Rightarrow> rDataModule \<Rightarrow> rDataModule \<times> bool" where
  "module_load m c d = (let d1 = d\<lparr>dm_module := (case m of None \<Rightarrow> MODULE_FAULT | Some x \<Rightarrow> x),
       dm_channel := (case c of None \<Rightarrow> MODULE_FAULT | Some x \<Rightarrow> x)\<rparr> in (d1, isSetModule d1))"

definition module_halt :: "'d node \<Rightarrow> UDINT \<Rightarrow> rDataModule \<Rightarrow> UDINT \<Rightarrow> act list" where
  "module_halt n eid d reason = [Sent (ev_adds (nevent n eid) [P_USINT (dm_module d), P_USINT (dm_channel d)]), Halt reason]"

definition REALTIME_MODULELINK :: UDINT where "REALTIME_MODULELINK = 197"

definition module_of :: "io_manager \<Rightarrow> rDataModule \<Rightarrow> io_object option" where
  "module_of io d = getModuleInterface io (dm_module d) MT_UNDEF"

definition io_isFault :: "io_object \<Rightarrow> bool" where "io_isFault m = md_isFault (obj_base m)"

text \<open>The interface classes: what \<^verbatim>\<open>dynamic_cast\<close> lets through.\<close>

fun as_fi :: "io_object \<Rightarrow> rModuleFI4 option" where
  "as_fi (M_FI4 m) = Some m" | "as_fi _ = None"

fun as_ai :: "io_object \<Rightarrow> rIOAIChannel list option" where
  "as_ai (M_AI6a m) = Some (ai6a_channel m)" | "as_ai (M_AI6p m) = Some (ai6p_channel m)" | "as_ai _ = None"

fun as_ao :: "io_object \<Rightarrow> rModuleAO4 option" where
  "as_ao (M_AO4 m) = Some m" | "as_ao _ = None"

text \<open>\<^verbatim>\<open>postCalculate\<close> at the end of a calculation.\<close>

definition posted :: "'s \<Rightarrow> act list \<Rightarrow> 'd node \<Rightarrow> 's \<times> 'd node \<times> act list" where
  "posted s a n = (case postCalculate n of (n', ev) \<Rightarrow> (s, n', a @ List.map Sent ev))"

section \<open>Counters\<close>

definition CNT_OFF :: UINT where "CNT_OFF = 0x0001"

record rCounter =
  cn_mod :: rDataModule
  cn_count :: UDINT
  cn_setup :: "UINT rCompared"
  cn_isInit :: bool
  cn_countPrev :: UDINT
  cn_pullingCount :: UDINT

definition counter_links :: "(UINT \<times> UDINT \<times> string \<times> string) list" where
  "counter_links = [(LINK_OUTPUT OR LINK_MUSTVIRT, U_imp, ''impulse'', ''''),
     (LINK_OUTPUT OR LINK_MUSTVIRT, U_Hz, ''frequency'', ''''), (LINK_OUTPUT OR LINK_MUSTVIRT, U_mksec, ''period'', '''')]"

definition counter_getPeriod :: "lreal \<Rightarrow> lreal" where
  "counter_getPeriod freq = (if freq > dround (1 / 100) then Fin 1000000 / freq else Fin 0)"

definition counter_clear :: "'d node \<Rightarrow> 'd node" where
  "counter_clear n = puts [(1, Fin 0), (2, Fin 0), (0, Fin 0)] n"

text \<open>A count read from the module, with the number of its poll.\<close>

definition counter_take :: "UDINT \<Rightarrow> UDINT \<Rightarrow> rCounter \<Rightarrow> 'd node \<Rightarrow> rCounter \<times> 'd node" where
  "counter_take count curpulling s n =
     (if \<not> cn_isInit s then (s\<lparr>cn_countPrev := count, cn_isInit := True\<rparr>, put 0 (Fin 0) n)
      else if cn_pullingCount s \<noteq> curpulling
      then (s\<lparr>cn_countPrev := count, cn_pullingCount := curpulling\<rparr>, put 0 (lreal_of_word (count - cn_countPrev s)) n)
      else (s, n))"

definition counter_body :: "io_manager \<Rightarrow> rCounter \<Rightarrow> 'd node \<Rightarrow> rCounter \<times> 'd node \<times> act list" where
  "counter_body io s n =
     (if has (Value (cn_setup s)) CNT_OFF
      then posted (s\<lparr>cn_count := 0, cn_isInit := False\<rparr>) [] (puts [(1, Fin 0), (2, Fin 0), (0, Fin 0)] n)
      else let n0 = n\<lparr>n_fault := 0\<rparr> in
      if isSetModule (cn_mod s)
      then (case Option.bind (module_of io (cn_mod s)) as_fi of
          None \<Rightarrow> (s, counter_clear n0, module_halt n EID_COUNTER_MODULE (cn_mod s) REALTIME_MODULELINK)
        | Some m \<Rightarrow>
            if md_isFault (fi4_base m) then posted s [] (counter_clear n0)
            else let ch = dm_channel (cn_mod s);
                     count = fst (fi4_getValue m ch CT_FI 0); (freq, fault) = fi4_getFreq m ch CT_FI;
                     n1 = puts [(1, freq), (2, counter_getPeriod freq)] n0 in
                 if fault \<noteq> TRITONN_RESULT_OK then (s, counter_clear n1, module_halt n EID_COUNTER_MODULE (cn_mod s) fault)
                 else (case counter_take count (md_pulling (fi4_base m)) s n1 of (s1, n2) \<Rightarrow> posted s1 [] n2))
      else posted s [] n0)"

section \<open>Discrete inputs and outputs\<close>

datatype io_status = IS_UNDEF | IS_OFF | IS_NORMAL | IS_FAULT

definition MODE_PHIS :: UINT where "MODE_PHIS = 0"
definition MODE_KEYPAD :: UINT where "MODE_KEYPAD = 1"

text \<open>
  The events of a change of the mode: the flag \<open>on\<close> is latched in the mode, the flags
  \<open>others\<close> are released.
\<close>

definition mode_latch :: "bool \<Rightarrow> UDINT \<Rightarrow> UDINT \<Rightarrow> UDINT \<Rightarrow> 'd node \<Rightarrow> 'd node \<times> act list" where
  "mode_latch in_mode on others eid n =
     (if in_mode \<and> \<not> has (n_lockErr n) on
      then (n\<lparr>n_lockErr := (n_lockErr n OR on) AND NOT others\<rparr>, [Sent (nevent n eid)]) else (n, []))"

definition flag_events :: "'d node \<Rightarrow> UINT \<Rightarrow> (UINT \<times> UDINT) list \<Rightarrow> act list" where
  "flag_events n setup fs = List.map (\<lambda>(f, eid). Sent (nevent n eid)) (List.filter (\<lambda>(f, eid). has setup f) fs)"

definition DI_SETUP_OFF :: UINT where "DI_SETUP_OFF = 0x0001"

definition DI_SETUP_ON_EVENTS :: "(UINT \<times> UDINT) list" where
  "DI_SETUP_ON_EVENTS = [(0x0004, EID_DI_SUCCESS_ON), (0x0010, EID_DI_WARNING_ON), (0x0040, EID_DI_ALARM_ON)]"

definition DI_SETUP_OFF_EVENTS :: "(UINT \<times> UDINT) list" where
  "DI_SETUP_OFF_EVENTS = [(0x0008, EID_DI_SUCCESS_OFF), (0x0020, EID_DI_WARNING_OFF), (0x0080, EID_DI_ALARM_OFF)]"

definition DI_LE_KEYPAD_ON :: UDINT where "DI_LE_KEYPAD_ON = 0x00000001"
definition DI_LE_KEYPAD_OFF :: UDINT where "DI_LE_KEYPAD_OFF = 0x00000002"

record rDI =
  dI_mod :: rDataModule
  dI_keypad :: "USINT rCompared"
  dI_mode :: UINT
  dI_setup :: "UINT rCompared"
  dI_status :: io_status

definition di_links :: "(UINT \<times> UDINT \<times> string \<times> string) list" where
  "di_links = [(LINK_OUTPUT OR LINK_MUSTVIRT, U_DIMLESS, ''present'', ''''), (LINK_OUTPUT, U_DIMLESS, ''physical'', '''')]"

text \<open>From the latches of the mode to the end.\<close>

definition di_present :: "rDI \<Rightarrow> 'd node \<Rightarrow> lreal" where
  "di_present s n = (if dI_mode s = MODE_KEYPAD then lreal_of_word (Value (dI_keypad s))
     else if isSetModule (dI_mod s) then out_v n 1 else out_v n 0)"

definition di_finish :: "rDI \<Rightarrow> act list \<Rightarrow> 'd node \<Rightarrow> rDI \<times> 'd node \<times> act list" where
  "di_finish s a n =
     (case mode_latch (dI_mode s = MODE_KEYPAD) DI_LE_KEYPAD_ON DI_LE_KEYPAD_OFF EID_DI_KEYPAD_ON n of (n1, a1) \<Rightarrow>
      case mode_latch (dI_mode s = MODE_PHIS) DI_LE_KEYPAD_OFF DI_LE_KEYPAD_ON EID_DI_KEYPAD_OFF n1 of (n2, a2) \<Rightarrow>
      let v = di_present s n2; st = Value (dI_setup s);
          on = (if \<not> deq v (out_v n2 0) \<and> \<not> deq v (Fin 0) then flag_events n st DI_SETUP_ON_EVENTS else []);
          off = (if \<not> deq v (out_v n2 0) \<and> deq v (Fin 0) then flag_events n st DI_SETUP_OFF_EVENTS else [])
      in posted s (a @ a1 @ a2 @ on @ off) (put 0 v n2))"

definition di_body :: "io_manager \<Rightarrow> rDI \<Rightarrow> 'd node \<Rightarrow> rDI \<times> 'd node \<times> act list" where
  "di_body io s0 n =
     (if has (Value (dI_setup s0)) DI_SETUP_OFF
      then (s0\<lparr>dI_mode := MODE_PHIS, dI_status := IS_UNDEF\<rparr>, puts [(1, Fin 0), (0, Fin 0)] n, [])
      else case cmp_Compare P_USINT (nevent n EID_DI_NEW_SIMULATE) (dI_keypad s0) of (_, kp, _, e1) \<Rightarrow>
        case cmp_Compare P_UINT (nevent n EID_DI_NEW_SETUP) (dI_setup s0) of (_, st, _, e2) \<Rightarrow>
        let s = s0\<lparr>dI_keypad := kp, dI_setup := st, dI_status := IS_UNDEF\<rparr>; a = List.map Sent (e1 @ e2) in
        if isSetModule (dI_mod s)
        then (case module_of io (dI_mod s) of
            None \<Rightarrow> (s, n, a @ module_halt n EID_DI_MODULE (dI_mod s) REALTIME_MODULELINK)
          | Some m \<Rightarrow>
              if io_isFault m then di_finish s a n
              else (case obj_getValue m (dm_channel (dI_mod s)) CT_DI TRITONN_RESULT_OK of (v, fault) \<Rightarrow>
                let n1 = put 1 (lreal_of_word v) n; s1 = s\<lparr>dI_status := IS_NORMAL\<rparr> in
                if fault \<noteq> TRITONN_RESULT_OK then (s1, n1, a @ module_halt n EID_DI_MODULE (dI_mod s) fault)
                else di_finish s1 a n1))
        else di_finish s a n)"

definition DO_SETUP_OFF :: UINT where "DO_SETUP_OFF = 0x0001"

definition DO_SETUP_ON_EVENTS :: "(UINT \<times> UDINT) list" where
  "DO_SETUP_ON_EVENTS = [(0x0002, EID_DO_SUCCESS_ON), (0x0004, EID_DO_WARNING_ON), (0x0008, EID_DO_ALARM_ON)]"

definition DO_SETUP_OFF_EVENTS :: "(UINT \<times> UDINT) list" where
  "DO_SETUP_OFF_EVENTS = [(0x0010, EID_DO_SUCCESS_OFF), (0x0020, EID_DO_WARNING_OFF), (0x0040, EID_DO_ALARM_OFF)]"

definition DO_LE_KEYPAD_ON :: UDINT where "DO_LE_KEYPAD_ON = 0x00000001"
definition DO_LE_KEYPAD_OFF :: UDINT where "DO_LE_KEYPAD_OFF = 0x00000002"

record rDO =
  dO_mod :: rDataModule
  dO_mode :: UINT
  dO_setup :: "UINT rCompared"
  dO_status :: io_status
  dO_oldvalue :: lreal

definition do_links :: "(UINT \<times> UDINT \<times> string \<times> string) list" where
  "do_links = [(LINK_INOUTPUT OR LINK_WRITABLE, U_DIMLESS, ''present'', '''')]"

definition do_finish :: "rDO \<Rightarrow> act list \<Rightarrow> 'd node \<Rightarrow> rDO \<times> 'd node \<times> act list" where
  "do_finish s a n =
     (case mode_latch (dO_mode s = MODE_KEYPAD) DO_LE_KEYPAD_ON DO_LE_KEYPAD_OFF EID_DO_KEYPAD_ON n of (n1, a1) \<Rightarrow>
      case mode_latch (dO_mode s = MODE_PHIS) DO_LE_KEYPAD_OFF DO_LE_KEYPAD_ON EID_DO_KEYPAD_OFF n1 of (n2, a2) \<Rightarrow>
      let v = in_value n2 0; st = Value (dO_setup s);
          evs = (if \<not> deq v (dO_oldvalue s)
                 then flag_events n st (if \<not> deq v (Fin 0) then DO_SETUP_ON_EVENTS else DO_SETUP_OFF_EVENTS) else [])
      in posted (s\<lparr>dO_oldvalue := v\<rparr>) (a @ a1 @ a2 @ evs) n2)"

text \<open>\<open>ub\<close> is the platform's result of a cast that does not fit.\<close>

definition do_body :: "UDINT \<Rightarrow> io_manager \<Rightarrow> rDO \<Rightarrow> 'd node \<Rightarrow> rDO \<times> 'd node \<times> act list" where
  "do_body ub io s0 n =
     (if has (Value (dO_setup s0)) DO_SETUP_OFF
      then (s0\<lparr>dO_mode := MODE_PHIS, dO_status := IS_UNDEF\<rparr>, put 0 (Fin 0) n, [])
      else case cmp_Compare P_UINT (nevent n EID_DO_NEW_SETUP) (dO_setup s0) of (_, st, _, e1) \<Rightarrow>
        let s = s0\<lparr>dO_setup := st, dO_status := IS_NORMAL\<rparr>; a = List.map Sent e1; d = dO_mod s in
        if dO_mode s = MODE_PHIS \<and> isSetModule d
        then (case module_of io d of
            None \<Rightarrow> (s, n, a @ module_halt n EID_DO_MODULE d REALTIME_MODULELINK)
          | Some m \<Rightarrow>
              if io_isFault m then do_finish s a n
              else let v = cast_word ub (in_value n 0); fault = snd (obj_setValue m (dm_channel d) CT_DO v) in
                if fault \<noteq> TRITONN_RESULT_OK then (s, n, a @ module_halt n EID_DO_MODULE d fault)
                else do_finish s (a @ [Wrote (dm_module d) (dm_channel d) v]) n)
        else do_finish s a n)"

section \<open>Analog inputs and outputs\<close>

record rScale =
  sc_min :: "lreal rCompared"
  sc_max :: "lreal rCompared"

definition scale_new :: rScale where "scale_new = \<lparr>sc_min = cmp_new (Fin 0), sc_max = cmp_new (Fin 100)\<rparr>"

definition scale_getRange :: "rScale \<Rightarrow> lreal" where "scale_getRange s = Value (sc_max s) - Value (sc_min s)"

definition compare_event :: "cevent \<Rightarrow> lreal rCompared \<Rightarrow> lreal rCompared \<times> cevent list" where
  "compare_event ev c = (case cmp_Compare_LREAL_prec COMPARE_LREAL_PREC ev c of (_, c', _, out) \<Rightarrow> (c', out))"

datatype AI_Status = AI_UNDEF | AI_OFF | AI_NORMAL | AI_MIN | AI_MAX | AI_FAULT

definition AI_SETUP_OFF :: UINT where "AI_SETUP_OFF = 0x0001"
definition AI_SETUP_ERR_KEYPAD :: UINT where "AI_SETUP_ERR_KEYPAD = 0x0002"
definition AI_SETUP_ERR_LASTGOOD :: UINT where "AI_SETUP_ERR_LASTGOOD = 0x0004"
definition AI_SETUP_NOICE :: UINT where "AI_SETUP_NOICE = 0x2000"

definition MODE_MKEYPAD :: UINT where "MODE_MKEYPAD = 1"
definition MODE_LASTGOOD :: UINT where "MODE_LASTGOOD = 2"
definition MODE_AKEYPAD :: UINT where "MODE_AKEYPAD = 4"

definition AI_LE_SIM_AUTO :: UDINT where "AI_LE_SIM_AUTO = 0x00000002"
definition AI_LE_SIM_MANUAL :: UDINT where "AI_LE_SIM_MANUAL = 0x00000004"
definition AI_LE_SIM_OFF :: UDINT where "AI_LE_SIM_OFF = 0x00000008"
definition AI_LE_SIM_LAST :: UDINT where "AI_LE_SIM_LAST = 0x00000010"
definition AI_LE_CODE_FAULT :: UDINT where "AI_LE_CODE_FAULT = 0x00000020"

record rAI =
  aI_mod :: rDataModule
  aI_keypad :: "lreal rCompared"
  aI_scale :: rScale
  aI_mode :: UINT
  aI_setup :: "UINT rCompared"
  aI_status :: AI_Status
  aI_lastGood :: lreal

definition ai_links :: "(UINT \<times> UDINT \<times> string \<times> string) list" where
  "ai_links = [(LINK_OUTPUT OR LINK_MUSTVIRT, U_any, ''present'', ''''), (LINK_OUTPUT, U_any, ''physical'', ''''),
     (LINK_OUTPUT, U_mA, ''current'', '''')]"

definition ai_compare :: "'d node \<Rightarrow> rAI \<Rightarrow> rAI \<times> cevent list" where
  "ai_compare n s = (let u = P_STRID (out_unit n 0);
     (mn, e1) = compare_event (ev_add (nevent n EID_AI_NEW_MIN) u) (sc_min (aI_scale s));
     (mx, e2) = compare_event (ev_add (nevent n EID_AI_NEW_MAX) u) (sc_max (aI_scale s));
     (kp, e3) = compare_event (ev_add (nevent n EID_AI_NEW_SIMULATE) u) (aI_keypad s);
     (_, st, _, e4) = cmp_Compare P_UINT (nevent n EID_AI_NEW_SETUP) (aI_setup s)
     in (s\<lparr>aI_scale := \<lparr>sc_min = mn, sc_max = mx\<rparr>, aI_keypad := kp, aI_setup := st, aI_status := AI_UNDEF\<rparr>, e1 @ e2 @ e3 @ e4))"

text \<open>What the channel delivers: state, physical value and current, or the code of a fault.\<close>

definition ai_take_channel :: "rScale \<Rightarrow> rIOAIChannel list \<Rightarrow> USINT \<Rightarrow> (USINT \<times> lreal \<times> lreal) \<times> UDINT" where
  "ai_take_channel sc cs ch =
     (let adc = lreal_of_word (fst (ai6_getValue cs ch CT_AI 0)); range = lreal_of_word (fst (ai6_getRange cs ch CT_AI));
          mn = lreal_of_word (fst (ai6_getMinValue cs ch CT_AI)); state = fst (ai6_getState cs ch CT_AI);
          (cur, fault) = ai6_getCurrent cs ch CT_AI
      in ((state, Value (sc_min sc) + scale_getRange sc / range * (adc - mn), cur), fault))"

text \<open>A faulty channel: the mode may change by itself; \<^verbatim>\<open>setFault\<close>.\<close>

definition ai_substitute :: "rAI \<Rightarrow> rAI" where
  "ai_substitute s = s\<lparr>aI_mode := (if aI_mode s = MODE_PHIS
       then if has (Value (aI_setup s)) AI_SETUP_ERR_KEYPAD then MODE_AKEYPAD
            else if has (Value (aI_setup s)) AI_SETUP_ERR_LASTGOOD then MODE_LASTGOOD else aI_mode s
       else aI_mode s), aI_status := AI_FAULT\<rparr>"

definition ai_code_state :: "USINT \<Rightarrow> rAI \<Rightarrow> 'd node \<Rightarrow> rAI \<times> 'd node \<times> act list" where
  "ai_code_state state s n =
     (case checkExpr (state \<noteq> 0) AI_LE_CODE_FAULT (nevent n EID_AI_CH_FAULT) (nevent n EID_AI_CH_OK) (n_lockErr n) of (_, le, ev) \<Rightarrow>
      let n1 = n\<lparr>n_lockErr := le\<rparr> in
      if state \<noteq> 0 then (ai_substitute s, (put 0 NaN n1)\<lparr>n_fault := 1\<rparr>, List.map Sent ev) else (s, n1, List.map Sent ev))"

definition ai_latches :: "rAI \<Rightarrow> 'd node \<Rightarrow> 'd node \<times> act list" where
  "ai_latches s n =
     (case mode_latch (aI_mode s = MODE_MKEYPAD) AI_LE_SIM_MANUAL (AI_LE_SIM_OFF OR AI_LE_SIM_AUTO OR AI_LE_SIM_LAST) EID_AI_SIM_MANUAL n of (n1, a1) \<Rightarrow>
      case mode_latch (aI_mode s = MODE_AKEYPAD) AI_LE_SIM_AUTO (AI_LE_SIM_OFF OR AI_LE_SIM_MANUAL OR AI_LE_SIM_LAST) EID_AI_SIM_AUTO n1 of (n2, a2) \<Rightarrow>
      case mode_latch (aI_mode s = MODE_LASTGOOD) AI_LE_SIM_LAST (AI_LE_SIM_OFF OR AI_LE_SIM_AUTO OR AI_LE_SIM_MANUAL) EID_AI_SIM_LAST n2 of (n3, a3) \<Rightarrow>
      case mode_latch (aI_mode s = MODE_PHIS) AI_LE_SIM_OFF (AI_LE_SIM_MANUAL OR AI_LE_SIM_AUTO OR AI_LE_SIM_LAST) EID_AI_SIM_OFF n3 of (n4, a4) \<Rightarrow>
      (n4, a1 @ a2 @ a3 @ a4))"

definition ai_noice :: "rScale \<Rightarrow> lreal \<Rightarrow> lreal" where
  "ai_noice sc ph = (let d = Fin 2 * scale_getRange sc / Fin 100;
     p1 = (if ph < Value (sc_min sc) \<and> ph \<ge> Value (sc_min sc) - d then Value (sc_min sc) else ph)
     in if ph > Value (sc_max sc) \<and> p1 \<le> Value (sc_max sc) + d then Value (sc_max sc) else p1)"

definition ai_present :: "rAI \<Rightarrow> 'd node \<Rightarrow> lreal" where
  "ai_present s n = (if aI_mode s = MODE_MKEYPAD \<or> aI_mode s = MODE_AKEYPAD then Value (aI_keypad s)
     else if aI_mode s = MODE_LASTGOOD then aI_lastGood s
     else if isSetModule (aI_mod s)
     then if has (Value (aI_setup s)) AI_SETUP_NOICE then ai_noice (aI_scale s) (out_v n 1) else out_v n 1
     else out_v n 0)"

definition ai_bounds :: "AI_Status \<Rightarrow> rAI \<Rightarrow> 'd node \<Rightarrow> rAI \<times> act list" where
  "ai_bounds old s n = (let v = out_v n 0; u = P_STRID (out_unit n 0) in
     if aI_status s = AI_FAULT then (s, [])
     else if v > Value (sc_max (aI_scale s))
     then (s\<lparr>aI_status := AI_MAX\<rparr>, if old \<noteq> AI_MAX
       then [Sent (ev_adds (nevent n EID_AI_MAX) [u, P_LREAL v, P_LREAL (Value (sc_max (aI_scale s)))])] else [])
     else if v < Value (sc_min (aI_scale s))
     then (s\<lparr>aI_status := AI_MIN\<rparr>, if old \<noteq> AI_MIN
       then [Sent (ev_adds (nevent n EID_AI_MIN) [u, P_LREAL v, P_LREAL (Value (sc_min (aI_scale s)))])] else [])
     else (s\<lparr>aI_status := AI_NORMAL, aI_lastGood := (if aI_mode s = MODE_PHIS then v else aI_lastGood s)\<rparr>, []))"

definition ai_finish :: "AI_Status \<Rightarrow> rAI \<Rightarrow> act list \<Rightarrow> 'd node \<Rightarrow> rAI \<times> 'd node \<times> act list" where
  "ai_finish old s a n = (case ai_latches s n of (n1, a1) \<Rightarrow> let n2 = put 0 (ai_present s n1) n1 in
     case ai_bounds old s n2 of (s1, a2) \<Rightarrow> posted s1 (a @ a1 @ a2) n2)"

definition ai_body :: "io_manager \<Rightarrow> rAI \<Rightarrow> 'd node \<Rightarrow> rAI \<times> 'd node \<times> act list" where
  "ai_body io s0 n =
     (if has (Value (aI_setup s0)) AI_SETUP_OFF
      then (s0\<lparr>aI_mode := MODE_PHIS, aI_status := AI_UNDEF\<rparr>, puts [(1, NaN), (0, NaN)] n, [])
      else case ai_compare n s0 of (s, e) \<Rightarrow> let old = aI_status s0; a = List.map Sent e; d = aI_mod s in
        if isSetModule d
        then (case Option.bind (module_of io d) as_ai of
            None \<Rightarrow> (s, n, a @ module_halt n EID_AI_MODULE d REALTIME_MODULELINK)
          | Some cs \<Rightarrow>
              if (case module_of io d of Some m \<Rightarrow> io_isFault m | None \<Rightarrow> False)
              then (case ai_code_state 1 s n of (s1, n1, a1) \<Rightarrow> ai_finish old s1 (a @ a1) n1)
              else (case ai_take_channel (aI_scale s) cs (dm_channel d) of ((state, ph, cur), fault) \<Rightarrow>
                let n1 = puts [(1, ph), (2, cur)] n in
                if fault \<noteq> TRITONN_RESULT_OK then (s, n1, a @ module_halt n EID_AI_MODULE d fault)
                else (case ai_code_state state s n1 of (s1, n2, a1) \<Rightarrow> ai_finish old s1 (a @ a1) n2)))
        else ai_finish old s a n)"

definition AO_SETUP_OFF :: UINT where "AO_SETUP_OFF = 0x0001"
definition AO_LE_SIM :: UDINT where "AO_LE_SIM = 0x00000001"

record rAO =
  aO_mod :: rDataModule
  aO_phValue :: UINT
  aO_scale :: rScale
  aO_mode :: UINT
  aO_setup :: "UINT rCompared"

definition ao_links :: "(UINT \<times> UDINT \<times> string \<times> string) list" where
  "ao_links = [(LINK_INPUT OR LINK_WRITABLE, U_any, ''present'', '''')]"

definition ao_compare :: "'d node \<Rightarrow> rAO \<Rightarrow> rAO \<times> cevent list" where
  "ao_compare n s = (let u = P_STRID (l_unit (sl_link (n_inputs n ! 0)));
     (mn, e1) = compare_event (ev_add (nevent n EID_AO_NEW_MIN) u) (sc_min (aO_scale s));
     (mx, e2) = compare_event (ev_add (nevent n EID_AO_NEW_MAX) u) (sc_max (aO_scale s));
     (_, st, _, e3) = cmp_Compare P_UINT (nevent n EID_AO_NEW_SETUP) (aO_setup s)
     in (s\<lparr>aO_scale := \<lparr>sc_min = mn, sc_max = mx\<rparr>, aO_setup := st\<rparr>, e1 @ e2 @ e3))"

definition ao_code :: "UINT \<Rightarrow> rScale \<Rightarrow> UINT \<Rightarrow> UINT \<Rightarrow> lreal \<Rightarrow> UINT" where
  "ao_code ub sc minDAC rangeDAC v =
     minDAC + cast_word ub ((lreal_of_word rangeDAC / scale_getRange sc) * (v - Value (sc_min sc)))"

definition ao_body :: "UINT \<Rightarrow> io_manager \<Rightarrow> rAO \<Rightarrow> 'd node \<Rightarrow> rAO \<times> 'd node \<times> act list" where
  "ao_body ub io s0 n =
     (if has (Value (aO_setup s0)) AO_SETUP_OFF then (s0\<lparr>aO_mode := MODE_PHIS\<rparr>, set_input 0 ((sl_link (n_inputs n ! 0))\<lparr>l_value := Fin 0\<rparr>) n, [])
      else case ao_compare n s0 of (s, e) \<Rightarrow>
        case checkExpr (aO_mode s = MODE_KEYPAD) AO_LE_SIM (nevent n EID_AO_SIM_ON) (nevent n EID_AI_SIM_OFF) (n_lockErr n) of (_, le, e2) \<Rightarrow>
        let n1 = n\<lparr>n_lockErr := le\<rparr>; a = List.map Sent (e @ e2); d = aO_mod s in
        if isSetModule d \<and> aO_mode s = MODE_PHIS
        then (case Option.bind (module_of io d) as_ao of
            None \<Rightarrow> (s, n1, a @ module_halt n EID_AO_MODULE d REALTIME_MODULELINK)
          | Some m \<Rightarrow>
              if md_isFault (ao4_base m) then posted s a n1
              else let ch = dm_channel d; mn = fst (ao4_getMinValue m ch CT_AO); (rg, fault) = ao4_getRange m ch CT_AO in
                if fault \<noteq> TRITONN_RESULT_OK then (s, n1, a @ module_halt n EID_AO_MODULE d fault)
                else let v = ao_code ub (aO_scale s) mn rg (in_value n1 0); s1 = s\<lparr>aO_phValue := v\<rparr>;
                         r = snd (ao4_setValue m ch CT_AO (ucast v)) in
                  if r \<noteq> TRITONN_RESULT_OK then (s1, n1, a @ module_halt n EID_AO_MODULE d r)
                  else posted s1 (a @ [Wrote (dm_module d) ch (ucast v)]) n1)
        else posted s a n1)"

section \<open>What the bodies leave alone\<close>

lemma posted_simps: "posted s a n = (s, fst (postCalculate n), a @ List.map Sent (snd (postCalculate n)))"
  by (simp add: posted_def split: prod.splits)

lemma rans_Halt [simp]: "rans (module_halt n eid d r) = []"
  by (simp add: module_halt_def)

lemma rans_flag_events [simp]: "rans (flag_events n st fs) = []"
proof -
  have "rans (List.map (\<lambda>(f, eid). Sent (nevent n eid)) xs) = []" for xs by (induction xs) auto
  then show ?thesis by (simp add: flag_events_def)
qed

text \<open>\<open>calm n r\<close>: the result of a body that wrote outputs of its own and its fault latches only.\<close>

definition calm :: "'d node \<Rightarrow> 'd node \<Rightarrow> act list \<Rightarrow> bool" where
  "calm n n' a \<longleftrightarrow> n_inputs n' = n_inputs n \<and> n_alias n' = n_alias n \<and> n_isCalc n' = n_isCalc n \<and> n_data n' = n_data n
     \<and> rans a = [] \<and> shape n' = shape n"

lemma calm_refl: "rans a = [] \<Longrightarrow> calm n n a"
  by (simp add: calm_def)

lemma calm_trans: "calm n n1 a \<Longrightarrow> calm n1 n2 b \<Longrightarrow> calm n n2 (a @ b)"
  by (simp add: calm_def)

lemma calm_fields: "calm n (n\<lparr>n_lockErr := l, n_fault := f\<rparr>) []" "calm n (n\<lparr>n_lockErr := l\<rparr>) []" "calm n (n\<lparr>n_fault := f\<rparr>) []"
  by (simp_all add: calm_def shape_def)

lemma own_from_shape: "snd (shape n) = os \<Longrightarrow> o' < length os \<Longrightarrow> os ! o' = None \<Longrightarrow> own_output n o'"
  using shape_own [of o' n] by simp

lemma calm_put: "own_output n o' \<Longrightarrow> calm n (put o' v n) []"
  by (simp add: calm_def)

lemma calm_puts: "\<forall>(p, v)\<in>set ps. own_output n p \<Longrightarrow> calm n (puts ps n) []"
  by (simp add: calm_def puts_inputs)

lemma calm_posted: "calm n n1 a \<Longrightarrow> posted s a n1 = (s', n', a') \<Longrightarrow> calm n n' a' \<and> s' = s"
  by (auto simp: posted_simps calm_def)

lemma calm_latch: "mode_latch b on others eid n = (n', a) \<Longrightarrow> calm n n' a \<and> out_v n' o' = out_v n o' \<and> own_output n' o' = own_output n o'
    \<and> n_fault n' = n_fault n \<and> length (n_outputs n') = length (n_outputs n)"
  by (auto simp: mode_latch_def calm_def shape_def split: if_splits)

section \<open>Counting\<close>

lemma counter_shape: "shape n = shape_of (List.map fst counter_links) 0 \<Longrightarrow> shape n = (0, [None, None, None])"
  by (simp add: counter_links_def has_def LINK_INPUT_def LINK_OUTPUT_def LINK_MUSTVIRT_def)

text \<open>An object with three outputs of its own, as the constructors of counters and analog inputs make it.\<close>

definition own3 :: "'d node \<Rightarrow> bool" where "own3 n \<longleftrightarrow> shape n = (0, [None, None, None])"

lemma own3_own:
  assumes "own3 n" "o' < 3"
  shows "own_output n o'" "o' < length (n_outputs n)"
  using assms own_from_shape [of n "[None, None, None]" o'] shape_length(1) [of n]
  by (auto simp: own3_def less_Suc_eq numeral_3_eq_3)

lemma own3_out_puts:
  assumes "own3 n" "\<forall>(p, v)\<in>set ps. p < 3" "o' < 3"
  shows "out_v (puts ps n) o' = (case map_of (rev ps) o' of None \<Rightarrow> out_v n o' | Some v \<Rightarrow> v)"
  by (rule out_v_puts) (use assms own3_own [OF assms(1)] in auto)

lemma own3_keeps [simp]:
  "own3 (put o' v n) = own3 n" "own3 (puts ps n) = own3 n" "own3 (n\<lparr>n_fault := f\<rparr>) = own3 n"
  "own3 (n\<lparr>n_lockErr := l\<rparr>) = own3 n" "own3 (fst (postCalculate n)) = own3 n"
  by (simp_all add: own3_def)

lemma own3_out_put: "own3 n \<Longrightarrow> p < 3 \<Longrightarrow> o' < 3 \<Longrightarrow> out_v (put p v n) o' = (if o' = p then v else out_v n o')"
  using out_v_put [OF own3_own(1) own3_own(1) own3_own(2) own3_own(2)] by metis

lemma own3_post: "own3 n \<Longrightarrow> o' < 3 \<Longrightarrow> out_v (fst (postCalculate n)) o' = out_v n o'"
  by (rule postCalculate_out) (rule own3_own(2))

text \<open>What a healthy module delivers: count, number of its poll, frequency.\<close>

definition counter_reading :: "io_manager \<Rightarrow> rCounter \<Rightarrow> (UDINT \<times> UDINT \<times> lreal) option" where
  "counter_reading io s = (case Option.bind (module_of io (cn_mod s)) as_fi of
     None \<Rightarrow> None
   | Some m \<Rightarrow> if md_isFault (fi4_base m) \<or> snd (fi4_getFreq m (dm_channel (cn_mod s)) CT_FI) \<noteq> TRITONN_RESULT_OK then None
       else Some (fst (fi4_getValue m (dm_channel (cn_mod s)) CT_FI 0), md_pulling (fi4_base m),
                  fst (fi4_getFreq m (dm_channel (cn_mod s)) CT_FI)))"

text \<open>The number of impulses which the module itself keeps for the channel of a counter.\<close>

definition module_count :: "io_manager \<Rightarrow> rDataModule \<Rightarrow> UDINT" where
  "module_count io dm = (case Option.bind (module_of io dm) as_fi of
     None \<Rightarrow> 0 | Some m \<Rightarrow> fi_counter (fi4_channel m ! unat (dm_channel dm)))"

lemma counter_reading_count: "counter_reading io s = Some (c, q, f) \<Longrightarrow> c = module_count io (cn_mod s)"
  by (auto simp: counter_reading_def module_count_def fi4_getFreq_def fi4_getValue_def checked_def Let_def
      split: option.splits if_splits)

lemma counter_body_reading:
  assumes on: "\<not> has (Value (cn_setup s)) CNT_OFF" "isSetModule (cn_mod s)" and sh: "own3 n"
    and rd: "counter_reading io s = Some (count, poll, freq)" and r: "counter_body io s n = (s', n', a)"
  shows "s' = fst (counter_take count poll s n) \<and> own3 n'
    \<and> out_v n' 0 = (if \<not> cn_isInit s then Fin 0
        else if cn_pullingCount s \<noteq> poll then lreal_of_word (count - cn_countPrev s) else out_v n 0)"
proof -
  obtain m where m: "Option.bind (module_of io (cn_mod s)) as_fi = Some m" and f: "\<not> md_isFault (fi4_base m)"
    and ok: "snd (fi4_getFreq m (dm_channel (cn_mod s)) CT_FI) = TRITONN_RESULT_OK"
    and c: "count = fst (fi4_getValue m (dm_channel (cn_mod s)) CT_FI 0)" and p: "poll = md_pulling (fi4_base m)"
    and fr: "freq = fst (fi4_getFreq m (dm_channel (cn_mod s)) CT_FI)"
    using rd by (auto simp: counter_reading_def split: option.splits if_splits)
  have g: "fi4_getFreq m (dm_channel (cn_mod s)) CT_FI = (freq, TRITONN_RESULT_OK)" using ok fr by (metis prod.collapse)
  let ?n1 = "puts [(1, freq), (2, counter_getPeriod freq)] (n\<lparr>n_fault := 0\<rparr>)"
  obtain s1 n2 where t: "counter_take count poll s ?n1 = (s1, n2)" by force
  have body: "counter_body io s n = posted s1 [] n2"
    unfolding counter_body_def Let_def using on f
    by (simp add: m g c [symmetric] p [symmetric] t [unfolded One_nat_def] del: puts_simps)
  then have e: "s' = s1" "n' = fst (postCalculate n2)" using r by (simp_all add: posted_simps)
  have sh1: "own3 ?n1" using sh by simp
  have sh2: "own3 n2" using t sh1 by (auto simp: counter_take_def split: if_splits)
  have v1: "out_v ?n1 0 = out_v n 0" by (subst own3_out_puts) (use sh in auto)
  have "out_v n2 0 = (if \<not> cn_isInit s then Fin 0
      else if cn_pullingCount s \<noteq> poll then lreal_of_word (count - cn_countPrev s) else out_v n 0)"
    using t v1 own3_out_put [OF sh1, of 0 0] by (auto simp: counter_take_def split: if_splits)
  moreover have "s1 = fst (counter_take count poll s n)"
    using t by (auto simp: counter_take_def split: if_splits)
  ultimately show ?thesis using e sh2 own3_post [OF sh2, of 0] by simp
qed

text \<open>The scans of a counter, and the polls it sees.\<close>

fun counter_scans :: "io_manager list \<Rightarrow> rCounter \<Rightarrow> 'd node \<Rightarrow> lreal list \<times> rCounter \<times> 'd node" where
  "counter_scans [] s n = ([], s, n)"
| "counter_scans (io # ios) s n = (case counter_body io s n of (s1, n1, a) \<Rightarrow>
     case counter_scans ios s1 n1 of (outs, s2, n2) \<Rightarrow> (out_v n1 0 # outs, s2, n2))"

fun each_new :: "(UDINT \<times> UDINT \<times> lreal) option list \<Rightarrow> UDINT \<Rightarrow> bool" where
  "each_new [] p \<longleftrightarrow> True"
| "each_new (None # rs) p \<longleftrightarrow> False"
| "each_new (Some (c, q, f) # rs) p \<longleftrightarrow> p \<noteq> q \<and> each_new rs q"

text \<open>While each scan sees a new poll of a healthy module, a started counter shows numbers of
  impulses whose sum is the advance of the module's count modulo 2 to the 32: none is lost or
  counted twice, whenever the count wraps.\<close>

theorem counter_impulses:
  assumes "\<not> has (Value (cn_setup s)) CNT_OFF" "isSetModule (cn_mod s)" "own3 n" "cn_isInit s"
    "each_new (List.map (\<lambda>io. counter_reading io s) ios) (cn_pullingCount s)"
    "counter_scans ios s n = (outs, s', n')"
  shows "\<exists>ds. outs = List.map lreal_of_word ds \<and> sum_list ds = cn_countPrev s' - cn_countPrev s
    \<and> (ios \<noteq> [] \<longrightarrow> Some (cn_countPrev s') = map_option fst (counter_reading (last ios) s))"
  using assms
proof (induction ios arbitrary: s n outs)
  case (Cons io ios)
  obtain c q f where rd: "counter_reading io s = Some (c, q, f)" and q: "cn_pullingCount s \<noteq> q"
    and rest: "each_new (List.map (\<lambda>io. counter_reading io s) ios) q"
    using Cons.prems(5) by (cases "counter_reading io s") auto
  obtain s1 n1 a where 1: "counter_body io s n = (s1, n1, a)" by (rule prod_cases3)
  obtain outs2 s2 n2 where 2: "counter_scans ios s1 n1 = (outs2, s2, n2)" by (rule prod_cases3)
  have e: "outs = out_v n1 0 # outs2" "s2 = s'" using Cons.prems(6) by (simp_all add: 1 2)
  have s1: "s1 = s\<lparr>cn_countPrev := c, cn_pullingCount := q\<rparr>" and n1: "own3 n1" and v: "out_v n1 0 = lreal_of_word (c - cn_countPrev s)"
    using counter_body_reading [OF Cons.prems(1,2,3) rd 1] Cons.prems(4) q by (simp_all add: counter_take_def)
  have "cn_mod s1 = cn_mod s" by (simp add: s1)
  then have same: "counter_reading io' s1 = counter_reading io' s" for io' unfolding counter_reading_def by (simp only:)
  have "\<exists>ds. outs2 = List.map lreal_of_word ds \<and> sum_list ds = cn_countPrev s' - cn_countPrev s1
    \<and> (ios \<noteq> [] \<longrightarrow> Some (cn_countPrev s') = map_option fst (counter_reading (last ios) s1))"
  proof (rule Cons.IH)
    show "\<not> has (Value (cn_setup s1)) CNT_OFF" "isSetModule (cn_mod s1)" "cn_isInit s1" using Cons.prems(1,2,4) by (simp_all add: s1)
    show "own3 n1" by (rule n1)
    have "cn_pullingCount s1 = q" by (simp add: s1)
    then show "each_new (List.map (\<lambda>io. counter_reading io s1) ios) (cn_pullingCount s1)" using rest by (simp add: same)
    show "counter_scans ios s1 n1 = (outs2, s', n')" using 2 e(2) Cons.prems(6) by (simp add: 1)
  qed
  then obtain ds where ds: "outs2 = List.map lreal_of_word ds" "sum_list ds = cn_countPrev s' - c"
    "ios \<noteq> [] \<longrightarrow> Some (cn_countPrev s') = map_option fst (counter_reading (last ios) s)"
    unfolding same by (auto simp: s1)
  have "ios = [] \<Longrightarrow> cn_countPrev s' = c" using 2 e(2) by (auto simp: s1)
  then show ?case using ds v rd by (intro exI [of _ "(c - cn_countPrev s) # ds"]) (auto simp: e(1))
qed simp

text \<open>A scan which sees a new poll, or the first one, leaves the count of the module as the one to count from.\<close>

lemma counter_baseline:
  assumes "\<not> has (Value (cn_setup c0)) CNT_OFF" "isSetModule (cn_mod c0)" "own3 n0"
    and rd: "counter_reading io0 c0 = Some (k, q, f)" and q: "cn_isInit c0 \<longrightarrow> cn_pullingCount c0 \<noteq> q"
    and r: "counter_body io0 c0 n0 = (c, nc, a)"
  shows "\<not> has (Value (cn_setup c)) CNT_OFF" "isSetModule (cn_mod c)" "own3 nc" "cn_isInit c"
    "cn_mod c = cn_mod c0" "cn_countPrev c = module_count io0 (cn_mod c0)"
proof -
  note b = counter_body_reading [OF assms(1-3) rd r]
  show "\<not> has (Value (cn_setup c)) CNT_OFF" "isSetModule (cn_mod c)" "own3 nc" "cn_isInit c"
    "cn_mod c = cn_mod c0" "cn_countPrev c = module_count io0 (cn_mod c0)"
    using b q assms(1,2) counter_reading_count [OF rd] by (auto simp: counter_take_def)
qed

lemma counter_last_count:
  assumes "Some k = map_option fst (counter_reading io c)"
  shows "k = module_count io (cn_mod c)"
proof -
  obtain q f where "counter_reading io c = Some (k, q, f)" using assms by (cases "counter_reading io c") auto
  then show ?thesis by (rule counter_reading_count)
qed

text \<open>Between two polls the impulses are shown again.\<close>

lemma counter_repeats:
  assumes "\<not> has (Value (cn_setup s)) CNT_OFF" "isSetModule (cn_mod s)" "own3 n" "cn_isInit s"
    "counter_reading io s = Some (count, cn_pullingCount s, freq)" "counter_body io s n = (s', n', a)"
  shows "out_v n' 0 = out_v n 0 \<and> s' = s"
  using counter_body_reading [OF assms(1,2,3,5,6)] assms(4) by (simp add: counter_take_def)

definition counter_io :: "UDINT \<Rightarrow> UDINT \<Rightarrow> io_manager" where
  "counter_io count poll = (let m = fi4_new \<lparr>sec = 0, usec = 0\<rparr> 0 [] in
     \<lparr>io_modules = [M_FI4 (m\<lparr>fi4_base := (fi4_base m)\<lparr>md_pulling := poll\<rparr>,
        fi4_channel := List.map (fi_counter_update (\<lambda>_. count)) (fi4_channel m)\<rparr>)], io_maxmap = \<lambda>_. 0\<rparr>)"

definition counter_sample :: rCounter where
  "counter_sample = \<lparr>cn_mod = \<lparr>dm_module = 0, dm_channel = 0, dm_nochannel = False\<rparr>, cn_count = 0, cn_setup = cmp_new 0,
     cn_isInit = True, cn_countPrev = 0xFFFFFFFE, cn_pullingCount = 7\<rparr>"

lemma counter_io_reading: "\<exists>f. counter_reading (counter_io count poll) counter_sample = Some (count, poll, f)"
  by (simp add: counter_reading_def counter_io_def counter_sample_def module_of_def getModuleInterface_def Let_def
      fi4_getFreq_def fi4_getValue_def checked_def checkChannelAccess_def fi4_new_def FI4_COUNT_def fi_channel_at_def
      setModule_def base_module_def upt_rec fi_type_def fi_new_def base_channel_def)

lemma counter_sample_node: "own3 (initLinks counter_links (source_new ()))"
  using counter_shape [OF shape_new] by (simp add: own3_def)

theorem counter_impulses_witness:
  "\<exists>outs ds. fst (counter_scans [counter_io 3 8, counter_io 10 9] counter_sample (initLinks counter_links (source_new ()))) = outs
     \<and> outs = List.map lreal_of_word ds \<and> sum_list ds = (12 :: UDINT)"
proof -
  obtain outs s' n' where r: "counter_scans [counter_io 3 8, counter_io 10 9] counter_sample (initLinks counter_links (source_new ()))
    = (outs, s', n')" by (rule prod_cases3)
  obtain f g where rd: "counter_reading (counter_io 3 8) counter_sample = Some (3, 8, f)"
    "counter_reading (counter_io 10 9) counter_sample = Some (10, 9, g)" using counter_io_reading by blast
  have "\<not> has (Value (cn_setup counter_sample)) CNT_OFF" "isSetModule (cn_mod counter_sample)" "cn_isInit counter_sample"
    "cn_pullingCount counter_sample = 7" "cn_countPrev counter_sample = 0xFFFFFFFE"
    by (simp_all add: counter_sample_def cmp_new_def has_def isSetModule_def MODULE_FAULT_def)
  with counter_impulses [OF this(1,2) counter_sample_node this(3) _ r] rd r show ?thesis by auto
qed

section \<open>Analog inputs\<close>

lemma ai_compare_keeps:
  assumes "ai_compare n s = (s', e)"
  shows "aI_mod s' = aI_mod s \<and> aI_mode s' = aI_mode s \<and> aI_lastGood s' = aI_lastGood s \<and> Value (aI_keypad s') = Value (aI_keypad s)
    \<and> Value (aI_setup s') = Value (aI_setup s) \<and> Value (sc_min (aI_scale s')) = Value (sc_min (aI_scale s))
    \<and> Value (sc_max (aI_scale s')) = Value (sc_max (aI_scale s)) \<and> aI_status s' = AI_UNDEF"
  using assms by (auto simp: ai_compare_def compare_event_def cmp_Compare_LREAL_prec_def cmp_Compare_def cmp_report_def Let_def
      split: if_splits prod.splits)

lemma ai_latches_calm:
  assumes "ai_latches s n = (n', a)" "own3 n"
  shows "own3 n' \<and> rans a = [] \<and> (\<forall>o'. out_v n' o' = out_v n o') \<and> n_fault n' = n_fault n"
proof -
  have latch: "own3 n2 \<and> rans b = [] \<and> (\<forall>o'. out_v n2 o' = out_v n1 o') \<and> n_fault n2 = n_fault n1"
    if "mode_latch x y z eid n1 = (n2, b)" "own3 n1" for x y z eid n1 n2 b
    using calm_latch [OF that(1)] that(2) unfolding calm_def own3_def by metis
  show ?thesis using assms unfolding ai_latches_def by (auto split: prod.splits dest!: latch)
qed

lemma ai_bounds_keeps: "ai_bounds old s n = (s', a) \<Longrightarrow> aI_mode s' = aI_mode s \<and> (aI_status s = AI_FAULT \<longrightarrow> aI_status s' = AI_FAULT) \<and> rans a = []"
  by (auto simp: ai_bounds_def Let_def split: if_splits)

lemma ai_finish_spec:
  assumes r: "ai_finish old s a n = (s', n', a')" and sh: "own3 n"
  shows "own3 n' \<and> out_v n' 0 = ai_present s n \<and> out_v n' 1 = out_v n 1 \<and> n_fault n' = n_fault n \<and> aI_mode s' = aI_mode s
    \<and> (aI_status s = AI_FAULT \<longrightarrow> aI_status s' = AI_FAULT)"
proof -
  obtain n1 a1 where 1: "ai_latches s n = (n1, a1)" by force
  let ?n2 = "put 0 (ai_present s n1) n1"
  obtain s1 a2 where 2: "ai_bounds old s ?n2 = (s1, a2)" by force
  note L = ai_latches_calm [OF 1 sh]
  have e: "s' = s1" "n' = fst (postCalculate ?n2)" using r by (simp_all add: ai_finish_def Let_def 1 2 posted_simps)
  have sh1: "own3 n1" and sh2: "own3 ?n2" using L by simp_all
  have p: "ai_present s n1 = ai_present s n" using L by (simp add: ai_present_def)
  have "out_v n' 0 = ai_present s n" "out_v n' 1 = out_v n 1"
    unfolding e by (subst own3_post [OF sh2]; use own3_out_put [OF sh1, of 0] L p in simp)+
  with e L ai_bounds_keeps [OF 2] sh2 show ?thesis by simp
qed

lemma ai_state_spec:
  assumes "ai_code_state st s n = (s1, n1, a1)" "own3 n"
  shows "own3 n1 \<and> s1 = (if st \<noteq> 0 then ai_substitute s else s) \<and> out_v n1 1 = out_v n 1
    \<and> (st = 0 \<longrightarrow> out_v n1 0 = out_v n 0) \<and> n_fault n1 = (if st \<noteq> 0 then 1 else n_fault n)"
  using assms by (auto simp: ai_code_state_def Let_def own3_out_put split: prod.splits if_splits)

lemma ai_substitute_keeps [simp]:
  "aI_mod (ai_substitute s) = aI_mod s" "aI_keypad (ai_substitute s) = aI_keypad s" "aI_scale (ai_substitute s) = aI_scale s"
  "aI_setup (ai_substitute s) = aI_setup s" "aI_lastGood (ai_substitute s) = aI_lastGood s"
  by (simp_all add: ai_substitute_def)

text \<open>The value the mode of the object asks for, from what the scan found in its outputs.\<close>

definition ai_shown :: "rAI \<Rightarrow> UINT \<Rightarrow> lreal \<Rightarrow> lreal \<Rightarrow> lreal" where
  "ai_shown s mode before ph = (if mode = MODE_MKEYPAD \<or> mode = MODE_AKEYPAD then Value (aI_keypad s)
     else if mode = MODE_LASTGOOD then aI_lastGood s
     else if isSetModule (aI_mod s) then if has (Value (aI_setup s)) AI_SETUP_NOICE then ai_noice (aI_scale s) ph else ph
     else before)"

lemma ai_present_shown:
  assumes "aI_mod t = aI_mod s" "Value (aI_keypad t) = Value (aI_keypad s)" "aI_lastGood t = aI_lastGood s"
    "Value (aI_setup t) = Value (aI_setup s)" "Value (sc_min (aI_scale t)) = Value (sc_min (aI_scale s))"
    "Value (sc_max (aI_scale t)) = Value (sc_max (aI_scale s))"
  shows "ai_present t n = ai_shown s (aI_mode t) (out_v n 0) (out_v n 1)"
  unfolding ai_present_def ai_shown_def ai_noice_def scale_getRange_def assms by simp

lemma ai_finish_shown:
  assumes r: "ai_finish old t a n = (s', n', a')" and sh: "own3 n"
    and t: "aI_mod t = aI_mod s" "Value (aI_keypad t) = Value (aI_keypad s)" "aI_lastGood t = aI_lastGood s"
      "Value (aI_setup t) = Value (aI_setup s)" "Value (sc_min (aI_scale t)) = Value (sc_min (aI_scale s))"
      "Value (sc_max (aI_scale t)) = Value (sc_max (aI_scale s))"
  shows "aI_mode s' = aI_mode t \<and> n_fault n' = n_fault n \<and> out_v n' 0 = ai_shown s (aI_mode s') (out_v n 0) (out_v n' 1)"
  using ai_finish_spec [OF r sh] ai_present_shown [OF t] by simp

text \<open>
  C39. An analog input in operation shows the value of its mode: the keypad in manual and automatic
  substitution, the last good value, or the physical value, with the suppression of the noise at
  the ends of the scale. The NaN of \<^verbatim>\<open>setFault\<close> never stays: a faulty channel without
  substitution shows its last physical value, with the fault flag. The mode changes by itself only
  from the physical one and only on a fault.
\<close>

theorem ai_shows_mode:
  assumes on: "\<not> has (Value (aI_setup s)) AI_SETUP_OFF" and sh: "own3 n" and r: "ai_body io s n = (s', n', a)"
    and live: "\<forall>c. Halt c \<notin> set a"
  shows "(isSetModule (aI_mod s) \<or> aI_mode s' \<noteq> MODE_PHIS \<longrightarrow> out_v n' 0 = ai_shown s (aI_mode s') (out_v n 0) (out_v n' 1))
    \<and> (aI_mode s' \<noteq> aI_mode s \<longrightarrow> aI_mode s = MODE_PHIS \<and> n_fault n' = 1)"
proof -
  obtain t e where c: "ai_compare n s = (t, e)" by force
  note k = ai_compare_keeps [OF c]
  have no_mode: "aI_mode u = aI_mode t \<or> aI_mode t = MODE_PHIS" if "u = (if st \<noteq> 0 then ai_substitute t else t)" for u and st :: USINT
    using that by (auto simp: ai_substitute_def)
  have fin: ?thesis if st: "ai_code_state st t m = (t1, m1, a1)" and "own3 m" and "out_v m 0 = out_v n 0" and set: "isSetModule (aI_mod s)"
    and f: "ai_finish (aI_status s) t1 b m1 = (s', n', a)" for st m t1 m1 a1 b
  proof -
    note S = ai_state_spec [OF st \<open>own3 m\<close>]
    then have keep: "aI_mod t1 = aI_mod s" "Value (aI_keypad t1) = Value (aI_keypad s)" "aI_lastGood t1 = aI_lastGood s"
      "Value (aI_setup t1) = Value (aI_setup s)" "Value (sc_min (aI_scale t1)) = Value (sc_min (aI_scale s))"
      "Value (sc_max (aI_scale t1)) = Value (sc_max (aI_scale s))" using k by auto
    note F = ai_finish_shown [OF f _ keep]
    have "out_v n' 0 = ai_shown s (aI_mode s') (out_v n 0) (out_v n' 1)" using F S set by (simp add: ai_shown_def)
    moreover have "aI_mode s' \<noteq> aI_mode s \<longrightarrow> aI_mode s = MODE_PHIS \<and> n_fault n' = 1"
      using F S k by (auto simp: ai_substitute_def split: if_splits)
    ultimately show ?thesis by simp
  qed
  show ?thesis
  proof (cases "isSetModule (aI_mod s)")
    case False
    then have f: "ai_finish (aI_status s) t (List.map Sent e) n = (s', n', a)" using r on k by (simp add: ai_body_def c)
    have keep: "aI_mod t = aI_mod s" "Value (aI_keypad t) = Value (aI_keypad s)" "aI_lastGood t = aI_lastGood s"
      "Value (aI_setup t) = Value (aI_setup s)" "Value (sc_min (aI_scale t)) = Value (sc_min (aI_scale s))"
      "Value (sc_max (aI_scale t)) = Value (sc_max (aI_scale s))" using k by auto
    show ?thesis using ai_finish_shown [OF f sh keep] k by simp
  next
    case True
    then have set: "isSetModule (aI_mod t)" using k by simp
    obtain cs where cs: "Option.bind (module_of io (aI_mod t)) as_ai = Some cs"
      using r on live set by (cases "Option.bind (module_of io (aI_mod t)) as_ai")
        (auto simp: ai_body_def c k module_halt_def Let_def)
    show ?thesis
    proof (cases "case module_of io (aI_mod t) of Some m \<Rightarrow> io_isFault m | None \<Rightarrow> False")
      case f: True
      obtain t1 m1 a1 where st: "ai_code_state 1 t n = (t1, m1, a1)" by (rule prod_cases3)
      show ?thesis
        by (rule fin [OF st sh refl True]) (use r on set cs f st in \<open>simp add: ai_body_def c Let_def\<close>)
    next
      case f: False
      obtain st ph cur fault where ch: "ai_take_channel (aI_scale t) cs (dm_channel (aI_mod t)) = ((st, ph, cur), fault)"
        by (metis prod.exhaust)
      let ?m = "puts [(1, ph), (2, cur)] n"
      obtain t1 m1 a1 where st: "ai_code_state st t ?m = (t1, m1, a1)" by (rule prod_cases3)
      have ok: "fault = TRITONN_RESULT_OK"
        using r on live set cs f by (auto simp: ai_body_def c Let_def ch module_halt_def split: if_splits)
      have "own3 ?m" "out_v ?m 0 = out_v n 0" using sh own3_out_puts [OF sh, of "[(1, ph), (2, cur)]" 0] by simp_all
      then show ?thesis
        by (rule fin [OF st _ _ True]) (use r on set cs f st ch ok in \<open>simp add: ai_body_def c Let_def\<close>)
    qed
  qed
qed

text \<open>A failed module under an input that keeps its last good value.\<close>

definition ai_io :: io_manager where
  "ai_io = (let m = ai6p_new 0 [] in \<lparr>io_modules = [M_AI6p (m\<lparr>ai6p_base := (ai6p_base m)\<lparr>md_isFault := True\<rparr>\<rparr>)], io_maxmap = \<lambda>_. 0\<rparr>)"

definition ai_sample :: rAI where
  "ai_sample = \<lparr>aI_mod = \<lparr>dm_module = 0, dm_channel = 0, dm_nochannel = False\<rparr>, aI_keypad = cmp_new (Fin 0), aI_scale = scale_new,
     aI_mode = MODE_PHIS, aI_setup = cmp_new AI_SETUP_ERR_LASTGOOD, aI_status = AI_NORMAL, aI_lastGood = Fin 5\<rparr>"

lemma ai_finish_live:
  assumes "ai_finish old s a n = (s', n', a')"
  shows "Halt c \<in> set a' \<longleftrightarrow> Halt c \<in> set a"
proof -
  have l: "Halt c \<notin> set b" if "mode_latch x y z eid n1 = (n2, b)" for x y z eid n1 n2 b
    using that by (auto simp: mode_latch_def split: if_splits)
  have "Halt c \<notin> set b" if "ai_latches s n1 = (n2, b)" for n1 n2 b
  proof -
    note t = that [unfolded ai_latches_def]
    obtain n3 a3 where 3: "mode_latch (aI_mode s = MODE_MKEYPAD) AI_LE_SIM_MANUAL (AI_LE_SIM_OFF OR AI_LE_SIM_AUTO OR AI_LE_SIM_LAST) EID_AI_SIM_MANUAL n1 = (n3, a3)" by force
    obtain n4 a4 where 4: "mode_latch (aI_mode s = MODE_AKEYPAD) AI_LE_SIM_AUTO (AI_LE_SIM_OFF OR AI_LE_SIM_MANUAL OR AI_LE_SIM_LAST) EID_AI_SIM_AUTO n3 = (n4, a4)" by force
    obtain n5 a5 where 5: "mode_latch (aI_mode s = MODE_LASTGOOD) AI_LE_SIM_LAST (AI_LE_SIM_OFF OR AI_LE_SIM_AUTO OR AI_LE_SIM_MANUAL) EID_AI_SIM_LAST n4 = (n5, a5)" by force
    obtain n6 a6 where 6: "mode_latch (aI_mode s = MODE_PHIS) AI_LE_SIM_OFF (AI_LE_SIM_MANUAL OR AI_LE_SIM_AUTO OR AI_LE_SIM_LAST) EID_AI_SIM_OFF n5 = (n6, a6)" by force
    show ?thesis using t l [OF 3] l [OF 4] l [OF 5] l [OF 6] by (auto simp: 3 4 5 6)
  qed
  moreover have "Halt c \<notin> set b" if "ai_bounds old s n1 = (t, b)" for n1 t b
    using that by (auto simp: ai_bounds_def Let_def split: if_splits)
  ultimately show ?thesis using assms by (fastforce simp: ai_finish_def posted_simps Let_def split: prod.splits)
qed

lemma ai_sample_run:
  fixes n :: "'d node"
  assumes "ai_body ai_io ai_sample n = (s', n', a)" and sh: "own3 n"
  shows "(\<forall>c. Halt c \<notin> set a) \<and> aI_mode s' = MODE_LASTGOOD"
proof -
  obtain t e where c: "ai_compare n ai_sample = (t, e)" by force
  note k = ai_compare_keeps [OF c]
  obtain t1 m1 a1 where st: "ai_code_state 1 t n = (t1, m1, a1)" by (rule prod_cases3)
  have f: "ai_finish AI_NORMAL t1 (List.map Sent e @ a1) m1 = (s', n', a)"
  proof -
    obtain x cs where x: "module_of ai_io (aI_mod ai_sample) = Some x" "io_isFault x" "as_ai x = Some cs"
      by (simp add: ai_sample_def ai_io_def module_of_def getModuleInterface_def io_isFault_def Let_def)
    have on: "\<not> has (Value (aI_setup ai_sample)) AI_SETUP_OFF" "isSetModule (aI_mod ai_sample)" "aI_status ai_sample = AI_NORMAL"
      by (simp_all add: ai_sample_def cmp_new_def has_def AI_SETUP_OFF_def AI_SETUP_ERR_LASTGOOD_def isSetModule_def MODULE_FAULT_def)
    show ?thesis using assms k st x on by (simp add: ai_body_def c Let_def)
  qed
  have "aI_mode t1 = MODE_LASTGOOD" using ai_state_spec [OF st sh] k
    by (simp add: ai_substitute_def ai_sample_def cmp_new_def has_def AI_SETUP_ERR_KEYPAD_def AI_SETUP_ERR_LASTGOOD_def)
  moreover have "Halt c \<notin> set a1" for c using st by (auto simp: ai_code_state_def Let_def split: prod.splits if_splits)
  moreover have "own3 m1" using ai_state_spec [OF st sh] by simp
  ultimately show ?thesis using ai_finish_live [OF f] ai_finish_spec [OF f] by auto
qed

theorem ai_shows_mode_witness:
  "\<exists>s' (n' :: unit node) a. ai_body ai_io ai_sample (initLinks ai_links (source_new ())) = (s', n', a)
     \<and> aI_mode s' = MODE_LASTGOOD \<and> out_v n' 0 = Fin 5"
proof -
  let ?n = "initLinks ai_links (source_new ()) :: unit node"
  have sh: "own3 ?n" unfolding own3_def
    using shape_new [of ai_links "()"] by (simp add: ai_links_def has_def LINK_INPUT_def LINK_OUTPUT_def LINK_MUSTVIRT_def)
  obtain s' n' a where r: "ai_body ai_io ai_sample ?n = (s', n', a)" by (rule prod_cases3)
  note R = ai_sample_run [OF r sh]
  have on: "\<not> has (Value (aI_setup ai_sample)) AI_SETUP_OFF" "isSetModule (aI_mod ai_sample)" "aI_lastGood ai_sample = Fin 5"
    by (simp_all add: ai_sample_def cmp_new_def has_def AI_SETUP_OFF_def AI_SETUP_ERR_LASTGOOD_def isSetModule_def MODULE_FAULT_def)
  have "out_v n' 0 = ai_shown ai_sample MODE_LASTGOOD (out_v ?n 0) (out_v n' 1)"
    using ai_shows_mode [OF on(1) sh r] R on(2) by simp
  also have "\<dots> = Fin 5" by (simp add: ai_shown_def on MODE_LASTGOOD_def MODE_MKEYPAD_def MODE_AKEYPAD_def)
  finally show ?thesis using r R by blast
qed

end
