(* ===== verification/Works.thy ===== *)
theory Works
  imports Ports
begin

text \<open>
  What the body of a class may do that asks other objects to calculate: a sequence of own changes
  and calls, as an inductive relation. Its frame, its runs and the consistency of the inputs follow
  by rule induction once for all such bodies.
\<close>

inductive does :: "('d \<Rightarrow> nat list \<times> nat list) \<Rightarrow> 'd calc \<Rightarrow> nat \<Rightarrow> nat set \<Rightarrow> 'd net \<Rightarrow> 'd net \<Rightarrow> act list \<Rightarrow> bool"
  for cls c i J ns where
  does_nothing: "does cls c i J ns ns []"
| does_own: "does cls c i J ns ns1 a \<Longrightarrow> quiet cls i ns1 ns2 \<Longrightarrow> shape (ns2 ! i) = shape (ns1 ! i) \<Longrightarrow> rans b = []
    \<Longrightarrow> does cls c i J ns ns2 (a @ b)"
| does_call: "does cls c i J ns ns1 a \<Longrightarrow> j \<in> J \<Longrightarrow> c j ns1 = Some (ns2, b) \<Longrightarrow> does cls c i J ns ns2 (a @ b)"

lemma does_one: "quiet cls i ns ns' \<Longrightarrow> shape (ns' ! i) = shape (ns ! i) \<Longrightarrow> rans b = [] \<Longrightarrow> does cls c i J ns ns' b"
  using does_own [OF does_nothing] by fastforce

lemma does_call_one: "j \<in> J \<Longrightarrow> c j ns = Some (ns', b) \<Longrightarrow> does cls c i J ns ns' b"
  using does_call [of cls c i J ns ns "[]" j ns' b] does_nothing [of cls c i J ns] by simp

lemma does_trans:
  assumes "does cls c i J ns1 ns2 b" "does cls c i J ns ns1 a"
  shows "does cls c i J ns ns2 (a @ b)"
  using assms by (induction rule: does.induct) (auto intro: does.intros simp flip: append_assoc)

lemma does_keeps:
  assumes "does cls c i J ns ns' a" and g: "good cls c" and w: "net_wf cls ns" and i: "i < length ns" "n_isCalc (ns ! i)"
    and J: "\<forall>j\<in>J. j < length ns"
  shows "frame cls {i} ns ns' \<and> runs_fresh ns ns' a \<and> shape (ns' ! i) = shape (ns ! i)
    \<and> (\<forall>k. active cls (ns ! i) k \<longrightarrow> in_value (ns' ! i) k = in_value (ns ! i) k)"
  using assms(1)
proof (induction rule: does.induct)
  case does_nothing
  then show ?case by (simp add: runs_fresh_def fresh_def)
next
  case (does_own ns1 a ns2 b)
  note IH = does_own.IH
  have q: "frame cls {i} ns1 ns2" "fresh ns1 ns2 = {}" using does_own.hyps by (simp_all add: quiet_def)
  have "runs_fresh ns ns2 (a @ b)"
    using runs_fresh_trans [OF _ q(1)] IH runs_fresh_refl [OF does_own.hyps(4) q(2)] by blast
  moreover have "active cls (ns1 ! i) k = active cls (ns ! i) k" for k
    using static_active [OF frame_static [OF _ i(1)]] IH by blast
  ultimately show ?case using IH does_own.hyps frame_trans q(1) by (auto simp: quiet_def)
next
  case (does_call ns1 a j ns2 b)
  note IH = does_call.IH
  have w1: "net_wf cls ns1" and len: "length ns1 = length ns" using IH w frame_wf frame_length by blast+
  have j: "j < length ns1" using J does_call.hyps len by simp
  note C = goodD [OF g w1 j does_call.hyps(3)]
  have c1: "n_isCalc (ns1 ! i)" using IH i frame_calc by blast
  then have "lk0 (ns2 ! i) = lk0 (ns1 ! i)" using C i len by (auto simp: frame_def)
  from lk0_fields [OF this] have s: "n_inputs (ns2 ! i) = n_inputs (ns1 ! i)" "n_outputs (ns2 ! i) = n_outputs (ns1 ! i)" by blast+
  have "frame cls {i} ns ns2" using IH C frame_trans frame_mono by blast
  moreover have "runs_fresh ns ns2 (a @ b)" using IH C runs_fresh_trans by blast
  ultimately show ?case using IH s by (simp add: shape_def in_value_def)
qed

lemma does_settles:
  assumes "does cls c i J ns ns' a" and g: "good cls c" and st: "settles cls ne rank c" and w: "net_wf cls ns"
    and rk: "ranked cls rank ns" and i: "i < length ns" "n_isCalc (ns ! i)" and J: "\<forall>j\<in>J. j < length ns \<and> rank j < rank i"
    and P: "i \<in> P" and aw: "\<And>j. rank j < rank i \<Longrightarrow> at_work rank P (rank j) ns" and s: "settled cls ne P ns"
  shows "settled cls ne P ns'"
  using assms(1)
proof (induction rule: does.induct)
  case does_nothing
  then show ?case by (rule s)
next
  case (does_own ns1 a ns2 b)
  have "frame cls {i} ns ns1" using does_keeps [OF does_own.hyps(1) g w i] J by blast
  then show ?case using settled_frame [OF _ frame_wf [OF _ w]] does_own P by (auto simp: quiet_def)
next
  case (does_call ns1 a j ns2 b)
  have f: "frame cls {i} ns ns1" using does_keeps [OF does_call.hyps(1) g w i] J by blast
  have "j < length ns1" "rank j < rank i" using J does_call.hyps frame_length [OF f] by auto
  then show ?case
    using settlesD [OF st frame_wf [OF f w] frame_ranked [OF f rk] _ frame_at_work [OF f aw] does_call.IH does_call.hyps(3)] by blast
qed

text \<open>Reading another object is a call, when it has not been calculated, and at most a latch there.\<close>

lemma latches_only_shape: "latches_only ns ns' \<Longrightarrow> i < length ns \<Longrightarrow> shape (ns' ! i) = shape (ns ! i)"
  using lk0_fields [of "ns' ! i" "ns ! i"] by (auto simp: latches_only_def shape_def)

lemma does_getValue:
  assumes r: "source_getValue ne c j name u ns = Some (v, err, ns', a)" and j: "j \<in> J" and i: "i < length ns"
    and len: "\<And>ns1 b. c j ns = Some (ns1, b) \<Longrightarrow> length ns1 = length ns"
  shows "does cls c i J ns ns' a"
proof -
  obtain ns1 a1 where 1: "(if \<not> n_isCalc (ns ! j) then c j ns else Some (ns, [])) = Some (ns1, a1)"
    and q: "(case read_output ne j name u ns1 of (v, err, ns2, b) \<Rightarrow> Some (v, err, ns2, a1 @ b)) = Some (v, err, ns', a)"
    using r unfolding source_getValue_def by (auto simp: Option.bind_eq_Some_conv)
  obtain v1 e1 n1 b where "read_output ne j name u ns1 = (v1, e1, n1, b)" by (rule prod_cases4)
  with q have l: "latches_only ns1 ns'" "rans b = []" and a: "a = a1 @ b" by (auto dest: read_output_only)
  have d: "does cls c i J ns ns1 a1 \<and> length ns1 = length ns"
    using 1 does_call_one [OF j] len does_nothing by (fastforce split: if_splits)
  with i have i1: "i < length ns1" by simp
  show ?thesis unfolding a
    by (rule does_own [OF conjunct1 [OF d] quiet_latch [OF l(1) i1] latches_only_shape [OF l(1) i1] l(2)])
qed

section \<open>Own changes\<close>

lemma does_upd:
  assumes "keeps_links cls (ns ! i) (f (ns ! i))" "shape (f (ns ! i)) = shape (ns ! i)" "i < length ns"
  shows "does cls c i J ns (upd i f ns) []"
  by (rule does_one) (use assms quiet_upd in auto)

lemma keeps_links_put_in:
  assumes "n_outputs n ! p = O_in k" "\<not> active cls n k"
  shows "keeps_links cls n (put p v n)"
proof -
  let ?l = "(sl_link (n_inputs n ! k))\<lparr>l_value := v\<rparr>"
  have p: "put p v n = set_input k ?l n" using assms(1) by (simp add: put_def)
  have "static cls (set_input k ?l n) = static cls n"
  proof (cases "k < length (n_inputs n)")
    case True
    then show ?thesis by (intro set_input_static) (simp_all add: static_link_def)
  next
    case False
    then show ?thesis by (simp add: set_input_def list_update_beyond)
  qed
  moreover have "in_value (set_input k ?l n) k' = in_value n k'" if "active cls n k'" for k'
    using that assms(2) by (cases "k' = k") (simp_all add: in_value_def)
  ultimately show ?thesis unfolding p by (simp add: keeps_links_def)
qed

lemma keeps_links_puts:
  "\<forall>(p, v)\<in>set ps. own_output n p \<Longrightarrow> keeps_links cls n (puts ps n)"
  by (rule keeps_links_same) (simp_all add: puts_inputs)

lemma out_v_put_other:
  assumes "own_output n o'" "p \<noteq> o'"
  shows "out_v (put p v n) o' = out_v n o'"
proof (cases "n_outputs n ! p")
  case (O_in k)
  then show ?thesis using assms(1) by (auto simp: put_def out_v_def own_output_def set_input_def split: outref.splits)
next
  case (O_own l)
  then show ?thesis using assms
    by (cases "p < length (n_outputs n)") (auto simp: put_def out_v_def own_output_def list_update_beyond split: outref.splits)
qed

end
