(* ===== verification/Metering.thy ===== *)
theory Metering
  imports DataIo Total Works
begin

text \<open>
  Measuring lines and stations: the units of \<^verbatim>\<open>src/tritonn/data_objunits.cpp\<close>, the lines of
  \<^verbatim>\<open>src/tritonn/data/stream.cpp\<close> with their meter factor, flow rates and totals, and the
  stations of \<^verbatim>\<open>src/tritonn/data/station.cpp\<close>, which calculate their lines by themselves and
  sum them up.
\<close>

section \<open>Units of a station\<close>

record rObjUnit =
  ou_temperature :: UDINT
  ou_pressure :: UDINT
  ou_density :: UDINT
  ou_mass :: UDINT
  ou_volume :: UDINT

definition objunit_new :: rObjUnit where
  "objunit_new = \<lparr>ou_temperature = U_C, ou_pressure = U_MPa, ou_density = U_kg_m3, ou_mass = U_t, ou_volume = U_m3\<rparr>"

definition getFlowVolume :: "rObjUnit \<Rightarrow> UDINT" where
  "getFlowVolume u = (if ou_volume u = U_m3 then U_m3_h else if ou_volume u = U_liter then U_ltr_h else U_UNDEF)"

definition getFlowMass :: "rObjUnit \<Rightarrow> UDINT" where
  "getFlowMass u = (if ou_mass u = U_t then U_t_h else if ou_mass u = U_kg then U_kg_h else U_UNDEF)"

definition getMassKF :: "rObjUnit \<Rightarrow> UDINT" where
  "getMassKF u = (if ou_mass u = U_t then U_imp_t else if ou_mass u = U_kg then U_imp_kg else U_UNDEF)"

definition getVolumeKF :: "rObjUnit \<Rightarrow> UDINT" where
  "getVolumeKF u = (if ou_volume u = U_m3 then U_imp_m3 else if ou_volume u = U_liter then U_imp_ltr else U_UNDEF)"

section \<open>Lines\<close>

datatype flowmeter = CORIOLIS | TURBINE | ULTRASONIC

record rFactorPoint =
  fp_id :: UDINT
  fp_Hz :: "lreal rCompared"
  fp_Kf :: "lreal rCompared"

record rFlowFactor =
  KeypadKF :: "lreal rCompared"
  KeypadMF :: "lreal rCompared"
  fl_point :: "rFactorPoint list"

definition MAXPOINTS :: nat where "MAXPOINTS = 12"

definition STREAM_LE_ACCOUNTING :: UDINT where "STREAM_LE_ACCOUNTING = 0x00000002"
definition STREAM_LE_KEYPADKF :: UDINT where "STREAM_LE_KEYPADKF = 0x00000004"

record rStream =
  str_flowmeter :: flowmeter
  str_maintenance :: USINT
  str_linearization :: USINT
  str_resetTotals :: USINT
  str_curFactor :: rFlowFactor
  str_setFactor :: rFlowFactor
  str_curKF :: lreal
  str_acceptKF :: USINT
  str_total :: rTotal

definition stream_links :: "(UINT \<times> UDINT \<times> string \<times> string) list" where
  "stream_links = [(LINK_INPUT, U_imp, ''impulse'', ''''), (LINK_INPUT, U_Hz, ''frequency'', ''impulse''),
     (LINK_INOUTPUT, U_C, ''temperature'', ''''), (LINK_INOUTPUT, U_MPa, ''pressure'', ''''),
     (LINK_INOUTPUT, U_kg_m3, ''density'', ''''), (LINK_INOUTPUT, U_kg_m3, ''density15'', ''density''),
     (LINK_INOUTPUT, U_kg_m3, ''density20'', ''density''), (LINK_INOUTPUT, U_1_C, ''b15'', ''density''),
     (LINK_INOUTPUT, U_1_MPa, ''y15'', ''density''), (LINK_OUTPUT, U_t_h, ''flowrate.mass'', ''''),
     (LINK_OUTPUT, U_m3_h, ''flowrate.volume'', ''''), (LINK_OUTPUT, U_m3_h, ''flowrate.volume15'', ''''),
     (LINK_OUTPUT, U_m3_h, ''flowrate.volume20'', '''')]"

text \<open>The places of the links: inputs, and the outputs behind the seven that are inputs as well.\<close>

abbreviation "S_COUNTER \<equiv> 0 :: nat"
abbreviation "S_FREQ \<equiv> 1 :: nat"
abbreviation "S_DENS \<equiv> 4 :: nat"
abbreviation "S_DENS15 \<equiv> 5 :: nat"
abbreviation "S_DENS20 \<equiv> 6 :: nat"
abbreviation "S_FLOWMASS \<equiv> 7 :: nat"
abbreviation "S_FLOWVOLUME \<equiv> 8 :: nat"
abbreviation "S_FLOWVOLUME15 \<equiv> 9 :: nat"
abbreviation "S_FLOWVOLUME20 \<equiv> 10 :: nat"

subsection \<open>The factor of the meter\<close>

fun kf_points :: "lreal \<Rightarrow> rFactorPoint \<Rightarrow> rFactorPoint list \<Rightarrow> lreal" where
  "kf_points freq prev [] = Value (fp_Kf prev)"
| "kf_points freq prev (p # ps) =
     (if Value (fp_Hz p) \<le> Fin 0 then Value (fp_Kf prev)
      else if freq < Value (fp_Hz p)
      then let minKF = Value (fp_Kf prev); maxKF = Value (fp_Kf p); minHz = Value (fp_Hz prev); maxHz = Value (fp_Hz p)
           in minKF + ((maxKF - minKF) / (maxHz - minHz)) * (freq - minHz)
      else kf_points freq p ps)"

definition calcualateKF :: "rStream \<Rightarrow> lreal \<Rightarrow> lreal" where
  "calcualateKF s freq =
     (if freq \<le> Fin 0 then Fin 0
      else if str_linearization s = 0 then Value (KeypadKF (str_curFactor s))
      else if freq < Value (fp_Hz (hd (fl_point (str_curFactor s)))) then Value (fp_Kf (hd (fl_point (str_curFactor s))))
      else kf_points freq (hd (fl_point (str_curFactor s))) (tl (fl_point (str_curFactor s))))"

definition getUnitKF :: "rObjUnit \<Rightarrow> rStream \<Rightarrow> UDINT" where
  "getUnitKF u s = (if str_flowmeter s = CORIOLIS then getMassKF u else getVolumeKF u)"

subsection \<open>Totals and flow rates\<close>

text \<open>\<open>ub\<close> is the platform's result of a cast that does not fit, \<open>oob\<close> what \<^verbatim>\<open>Round\<close> reads behind its table.\<close>

record meter_env =
  me_oob :: lreal
  me_ub :: UDINT
  me_prec :: rPrecision

definition stream_increment :: "rStream \<Rightarrow> lreal \<Rightarrow> lreal \<Rightarrow> lreal \<Rightarrow> rBaseTotal \<Rightarrow> rBaseTotal" where
  "stream_increment s dens dens15 dens20 t =
     (let kf = str_curKF s; mf = Value (KeypadMF (str_curFactor s)); imp = lreal_of_word (m_count t) in
      if isValidDelim kf \<and> isValidDelim dens \<and> isValidDelim dens15 \<and> isValidDelim dens20
      then if str_flowmeter s = CORIOLIS
        then let m = imp / kf * mf in
          t\<lparr>Mass := m, Volume := m / dens * Fin 1000, Volume15 := m / dens15 * Fin 1000, Volume20 := m / dens20 * Fin 1000\<rparr>
        else let v = imp / kf * mf in
          t\<lparr>Volume := v, Mass := v * dens / Fin 1000, Volume15 := v * dens / dens15 / Fin 1000, Volume20 := v * dens / dens20 / Fin 1000\<rparr>
      else t)"

definition total_of :: "meter_env \<Rightarrow> rObjUnit \<Rightarrow> rTotal \<Rightarrow> rTotal \<times> cevent list" where
  "total_of me u t = total_calculate (me_oob me) (prec_get (ou_mass u) (me_prec me)) (prec_get (ou_volume u) (me_prec me)) t"

definition calcTotal :: "meter_env \<Rightarrow> rObjUnit \<Rightarrow> 'd node \<Rightarrow> rStream \<Rightarrow> rStream \<times> cevent list" where
  "calcTotal me u n s =
     (let t = (if str_maintenance s = 0
               then (let t1 = total_inc (cast_word (me_ub me) (in_value n S_COUNTER)) (str_total s)
                     in t1\<lparr>m_inc := stream_increment s (in_value n S_DENS) (in_value n S_DENS15) (in_value n S_DENS20) (m_inc t1)\<rparr>)
               else total_inc 0 (str_total s));
          (t2, ev) = total_of me u t
      in (s\<lparr>str_total := t2\<rparr>, ev))"

definition stream_flows :: "rStream \<Rightarrow> 'd node \<Rightarrow> 'd node" where
  "stream_flows s n =
     (let kf = str_curKF s; mf = Value (KeypadMF (str_curFactor s)); freq = in_value n S_FREQ;
          d = in_value n S_DENS; d15 = in_value n S_DENS15; d20 = in_value n S_DENS20 in
      if str_flowmeter s = CORIOLIS
      then if isValidDelim kf \<and> isValidDelim d
        then let m = freq / kf * Fin 3600 * mf in
          puts [(S_FLOWMASS, m), (S_FLOWVOLUME, m / d * Fin 1000 * mf), (S_FLOWVOLUME15, m / d15 * Fin 1000 * mf),
                (S_FLOWVOLUME20, m / d20 * Fin 1000 * mf)] n
        else n
      else if isValidDelim kf
        then let v = freq / kf * Fin 3600 * mf in
          puts [(S_FLOWVOLUME, v), (S_FLOWVOLUME15, v * d / d15 / Fin 1000), (S_FLOWVOLUME20, v * d / d20 / Fin 1000),
                (S_FLOWMASS, v * d / Fin 1000 * mf)] n
        else n)"

subsection \<open>The calculation of a line\<close>

fun compare_points :: "'d node \<Rightarrow> UDINT \<Rightarrow> rFactorPoint list \<Rightarrow> rFactorPoint list \<times> cevent list" where
  "compare_points n u [] = ([], [])"
| "compare_points n u (p # ps) =
     (case cmp_Compare_LREAL (ev_adds (nevent n EID_STREAM_POINT_HZ) [P_STRID U_Hz, P_UDINT (fp_id p + 1)]) (fp_Hz p) of (_, hz, _, e1) \<Rightarrow>
      case cmp_Compare_LREAL (ev_adds (nevent n EID_STREAM_POINT_KF) [P_UDINT u, P_UDINT (fp_id p + 1)]) (fp_Kf p) of (_, kf, _, e2) \<Rightarrow>
      case compare_points n u ps of (qs, e) \<Rightarrow> (p\<lparr>fp_Hz := hz, fp_Kf := kf\<rparr> # qs, e1 @ e2 @ e))"

definition stream_compare :: "rObjUnit \<Rightarrow> 'd node \<Rightarrow> rStream \<Rightarrow> rStream \<times> cevent list" where
  "stream_compare u n s =
     (let f = str_setFactor s in
      case cmp_Compare_LREAL (ev_add (nevent n EID_STREAM_KEYPADKF) (P_UDINT (getUnitKF u s))) (KeypadKF f) of (_, kf, _, e1) \<Rightarrow>
      case cmp_Compare_LREAL (nevent n EID_STREAM_KEYPADMF) (KeypadMF f) of (_, mf, _, e2) \<Rightarrow>
      case compare_points n (getUnitKF u s) (fl_point f) of (ps, e3) \<Rightarrow>
      (s\<lparr>str_setFactor := \<lparr>KeypadKF = kf, KeypadMF = mf, fl_point = ps\<rparr>\<rparr>, e1 @ e2 @ e3))"

definition stream_accept :: "'d node \<Rightarrow> rStream \<Rightarrow> rStream \<times> cevent list" where
  "stream_accept n s = (if str_acceptKF s \<noteq> 0
     then (s\<lparr>str_curFactor := str_setFactor s, str_acceptKF := 0\<rparr>, [nevent n EID_STREAM_ACCEPT]) else (s, []))"

definition stream_reset :: "'d node \<Rightarrow> rStream \<Rightarrow> rStream \<times> cevent list" where
  "stream_reset n s = (if str_resetTotals s \<noteq> 0
     then (s\<lparr>str_total := total_reset (str_total s), str_resetTotals := 0\<rparr>, [nevent n EID_STREAM_RESET_TOTALS]) else (s, []))"

definition stream_latches :: "rStream \<Rightarrow> 'd node \<Rightarrow> 'd node \<times> cevent list" where
  "stream_latches s n =
     (case checkExpr (str_maintenance s \<noteq> 0) STREAM_LE_ACCOUNTING (nevent n EID_STREAM_ACCOUNTING_ON)
        (nevent n EID_STREAM_ACCOUNTING_OFF) (n_lockErr n) of (_, l1, e1) \<Rightarrow>
      case checkExpr (str_linearization s \<noteq> 0) STREAM_LE_KEYPADKF (nevent n EID_STREAM_KEYPADKF_OFF)
        (nevent n EID_STREAM_KEYPADKF_ON) l1 of (_, l2, e2) \<Rightarrow> (n\<lparr>n_lockErr := l2\<rparr>, e1 @ e2))"

definition stream_body :: "meter_env \<Rightarrow> rObjUnit \<Rightarrow> rStream \<Rightarrow> 'd node \<Rightarrow> rStream \<times> 'd node \<times> act list" where
  "stream_body me u s n =
     (case stream_compare u n s of (s1, e1) \<Rightarrow> case stream_latches s1 n of (n1, e2) \<Rightarrow>
      case stream_accept n1 s1 of (s2, e3) \<Rightarrow> case stream_reset n1 s2 of (s3, e4) \<Rightarrow>
      case calcTotal me u n1 (s3\<lparr>str_curKF := calcualateKF s3 (in_value n1 S_FREQ)\<rparr>) of (s4, e5) \<Rightarrow>
      posted s4 (List.map Sent (e1 @ e2 @ e3 @ e4 @ e5)) (stream_flows s4 n1))"

section \<open>Stations\<close>

record rStation =
  stn_stream :: "nat list"
  stn_total :: rTotal
  stn_unit :: rObjUnit
  stn_resetTotals :: USINT

definition station_links :: "rObjUnit \<Rightarrow> (UINT \<times> UDINT \<times> string \<times> string) list" where
  "station_links u = [(LINK_INOUTPUT, ou_temperature u, ''temperature'', ''''), (LINK_INOUTPUT, ou_pressure u, ''pressure'', ''''),
     (LINK_INOUTPUT, ou_density u, ''density'', ''''), (LINK_OUTPUT, getFlowMass u, ''flowrate.mass'', ''''),
     (LINK_OUTPUT, getFlowVolume u, ''flowrate.volume'', ''''), (LINK_OUTPUT, getFlowVolume u, ''flowrate.volume15'', ''''),
     (LINK_OUTPUT, getFlowVolume u, ''flowrate.volume20'', '''')]"

abbreviation "T_FLOWMASS \<equiv> 3 :: nat"
abbreviation "T_FLOWVOLUME \<equiv> 4 :: nat"
abbreviation "T_FLOWVOLUME15 \<equiv> 5 :: nat"
abbreviation "T_FLOWVOLUME20 \<equiv> 6 :: nat"

definition addStream :: "nat \<Rightarrow> rStation \<Rightarrow> rStation \<times> nat" where
  "addStream j s = (s\<lparr>stn_stream := stn_stream s @ [j]\<rparr>, length (stn_stream s))"

definition getStreamCount :: "rStation \<Rightarrow> nat" where "getStreamCount s = length (stn_stream s)"

definition getStream :: "nat \<Rightarrow> rStation \<Rightarrow> nat option" where
  "getStream k s = (if k < length (stn_stream s) then Some (stn_stream s ! k) else None)"

definition base_add :: "rBaseTotal \<Rightarrow> rBaseTotal \<Rightarrow> rBaseTotal" where
  "base_add t s = \<lparr>Mass = Mass t + Mass s, Volume = Volume t + Volume s, Volume15 = Volume15 t + Volume15 s,
     Volume20 = Volume20 t + Volume20 s, m_count = m_count t + m_count s\<rparr>"

definition add_flows :: "'d node \<Rightarrow> 'd node \<Rightarrow> 'd node" where
  "add_flows sn n = puts [(T_FLOWMASS, out_v n T_FLOWMASS + out_v sn S_FLOWMASS), (T_FLOWVOLUME, out_v n T_FLOWVOLUME + out_v sn S_FLOWVOLUME),
     (T_FLOWVOLUME15, out_v n T_FLOWVOLUME15 + out_v sn S_FLOWVOLUME15), (T_FLOWVOLUME20, out_v n T_FLOWVOLUME20 + out_v sn S_FLOWVOLUME20)] n"

text \<open>
  \<open>line\<close> is the view of an object as a line. A line in repair is calculated and left out of the sums.
\<close>

definition in_service :: "('d \<Rightarrow> rStream option) \<Rightarrow> 'd node \<Rightarrow> rStream option" where
  "in_service line n = (case line (n_data n) of Some s \<Rightarrow> if str_maintenance s \<noteq> 0 then None else Some s | None \<Rightarrow> None)"

fun station_sum :: "('d \<Rightarrow> rStream option) \<Rightarrow> 'd calc \<Rightarrow> nat \<Rightarrow> nat list \<Rightarrow> rBaseTotal \<Rightarrow> 'd net
    \<Rightarrow> (rBaseTotal \<times> 'd net \<times> act list) option" where
  "station_sum line c i [] t ns = Some (t, ns, [])"
| "station_sum line c i (j # js) t ns = do {
     (ns1, a) \<leftarrow> c j ns;
     (t2, ns2, b) \<leftarrow> (case in_service line (ns1 ! j) of
        None \<Rightarrow> station_sum line c i js t ns1
      | Some s \<Rightarrow> station_sum line c i js (base_add t (m_inc (str_total s))) (upd i (add_flows (ns1 ! j)) ns1));
     Some (t2, ns2, a @ b) }"

text \<open>One of the three means weighted by mass; \<open>p\<close> is the output, \<open>on\<close> whether it is calculated.\<close>

definition mean_add :: "net_env \<Rightarrow> 'd calc \<Rightarrow> nat \<Rightarrow> nat \<Rightarrow> nat \<times> string \<times> bool \<Rightarrow> 'd net \<Rightarrow> ('d net \<times> act list) option" where
  "mean_add ne c i j m ns = (case m of (p, name, on) \<Rightarrow>
     if \<not> on then Some (ns, [])
     else if out_v (ns ! i) T_FLOWMASS > Fin 0 then do {
       (v, err, ns1, a) \<leftarrow> source_getValue ne c j name (out_unit (ns ! i) p) ns;
       Some (upd i (\<lambda>n. put p (out_v n p + v * (out_v (ns1 ! j) S_FLOWMASS / out_v n T_FLOWMASS)) n) ns1, a) }
     else Some (upd i (\<lambda>n. put p (out_v n p + Fin 0) n) ns, []))"

fun means_add :: "net_env \<Rightarrow> 'd calc \<Rightarrow> nat \<Rightarrow> nat \<Rightarrow> (nat \<times> string \<times> bool) list \<Rightarrow> 'd net \<Rightarrow> ('d net \<times> act list) option" where
  "means_add ne c i j [] ns = Some (ns, [])"
| "means_add ne c i j (m # ms) ns = do {
     (ns1, a) \<leftarrow> mean_add ne c i j m ns; (ns2, b) \<leftarrow> means_add ne c i j ms ns1; Some (ns2, a @ b) }"

fun station_means :: "('d \<Rightarrow> rStream option) \<Rightarrow> net_env \<Rightarrow> 'd calc \<Rightarrow> nat \<Rightarrow> (nat \<times> string \<times> bool) list \<Rightarrow> nat list \<Rightarrow> 'd net
    \<Rightarrow> ('d net \<times> act list) option" where
  "station_means line ne c i ms [] ns = Some (ns, [])"
| "station_means line ne c i ms (j # js) ns = do {
     (ns1, a) \<leftarrow> (if in_service line (ns ! j) = None then Some (ns, []) else means_add ne c i j ms ns);
     (ns2, b) \<leftarrow> station_means line ne c i ms js ns1; Some (ns2, a @ b) }"

text \<open>The means of the parameters without a link start from zero.\<close>

definition station_params :: "'d node \<Rightarrow> (nat \<times> string \<times> bool) list" where
  "station_params n = List.map (\<lambda>(p, name). (p, name, \<not> l_valid (sl_link (n_inputs n ! p))))
     [(0, ''temperature''), (1, ''pressure''), (2, ''density'')]"

definition zero_params :: "(nat \<times> string \<times> bool) list \<Rightarrow> 'd node \<Rightarrow> 'd node" where
  "zero_params ms n = puts (List.map (\<lambda>(p, name, on). (p, Fin 0)) (List.filter (\<lambda>(p, name, on). on) ms)) n"

definition station_body :: "('d \<Rightarrow> rStream option) \<Rightarrow> (rStation \<Rightarrow> 'd) \<Rightarrow> meter_env \<Rightarrow> net_env \<Rightarrow> 'd calc \<Rightarrow> rStation \<Rightarrow> 'd calc" where
  "station_body line wrap me ne c s i ns =
     (let (t, e) = (if stn_resetTotals s \<noteq> 0 then (total_reset (stn_total s), [nevent (ns ! i) EID_STATION_RESET_TOTALS])
                    else (stn_total s, []));
          ns0 = upd i (puts [(T_FLOWMASS, Fin 0), (T_FLOWVOLUME, Fin 0), (T_FLOWVOLUME15, Fin 0), (T_FLOWVOLUME20, Fin 0)]) ns
      in do {
       (inc, ns1, a) \<leftarrow> station_sum line c i (stn_stream s) total_clear_base ns0;
       (let ms = station_params (ns1 ! i) in do {
         (ns2, b) \<leftarrow> station_means line ne c i ms (stn_stream s) (upd i (zero_params ms) ns1);
         (let (t1, e1) = total_of me (stn_unit s) (t\<lparr>m_inc := inc\<rparr>)
          in Some (upd i (\<lambda>n. n\<lparr>n_data := wrap (s\<lparr>stn_total := t1, stn_resetTotals := 0\<rparr>)\<rparr>) ns2,
               List.map Sent e @ a @ b @ List.map Sent e1)) }) })"

section \<open>Impulses\<close>

lemma stream_compare_keeps:
  "stream_compare u n s = (s', e) \<Longrightarrow> str_maintenance s' = str_maintenance s \<and> str_resetTotals s' = str_resetTotals s
    \<and> str_total s' = str_total s \<and> str_curFactor s' = str_curFactor s \<and> str_acceptKF s' = str_acceptKF s
    \<and> str_flowmeter s' = str_flowmeter s \<and> str_linearization s' = str_linearization s"
  by (auto simp: stream_compare_def Let_def split: prod.splits)

lemma stream_latches_keeps:
  "stream_latches s n = (n', e) \<Longrightarrow> n_inputs n' = n_inputs n \<and> n_outputs n' = n_outputs n \<and> n_alias n' = n_alias n
    \<and> n_data n' = n_data n \<and> n_isCalc n' = n_isCalc n \<and> shape n' = shape n \<and> in_value n' k = in_value n k"
  by (auto simp: stream_latches_def in_value_def split: prod.splits)

lemma stream_increment_count [simp]: "m_count (stream_increment s d d15 d20 t) = m_count t"
  by (simp add: stream_increment_def Let_def)

lemma total_of_count:
  "total_of me u t = (t', e) \<Longrightarrow> m_count (m_raw t') = m_count (m_raw t) + m_count (m_inc t) \<and> m_inc t' = m_inc t"
  by (auto simp: total_of_def total_calculate_def total_checkMax_def Let_def split: prod.splits)

lemma calcTotal_count:
  assumes "calcTotal me u n s = (s', e)"
  shows "s' = s\<lparr>str_total := str_total s'\<rparr> \<and> m_count (m_raw (str_total s')) = m_count (m_raw (str_total s)) +
    (if str_maintenance s = 0 then cast_word (me_ub me) (in_value n S_COUNTER) else 0)"
  using assms total_of_count [where me = me and u = u]
  by (auto simp: calcTotal_def Let_def total_inc_def total_clear_base_def split: prod.splits if_splits)

lemma stream_body_count:
  assumes r: "stream_body me u s n = (s', n', a)"
  shows "str_maintenance s' = str_maintenance s \<and> str_resetTotals s' = 0
    \<and> m_count (m_raw (str_total s')) = (if str_resetTotals s \<noteq> 0 then 0 else m_count (m_raw (str_total s)))
      + (if str_maintenance s = 0 then cast_word (me_ub me) (in_value n S_COUNTER) else 0)"
proof -
  obtain s1 e1 where 1: "stream_compare u n s = (s1, e1)" by force
  obtain n1 e2 where 2: "stream_latches s1 n = (n1, e2)" by force
  obtain s2 e3 where 3: "stream_accept n1 s1 = (s2, e3)" by force
  obtain s3 e4 where 4: "stream_reset n1 s2 = (s3, e4)" by force
  let ?s = "s3\<lparr>str_curKF := calcualateKF s3 (in_value n1 S_FREQ)\<rparr>"
  obtain s4 e5 where 5: "calcTotal me u n1 ?s = (s4, e5)" by force
  have s': "s' = s4" using r by (simp add: stream_body_def 1 2 3 4 5 [unfolded One_nat_def] posted_simps)
  have k: "str_maintenance s2 = str_maintenance s \<and> str_resetTotals s2 = str_resetTotals s \<and> str_total s2 = str_total s"
    using stream_compare_keeps [OF 1] 3 by (auto simp: stream_accept_def split: if_splits)
  have k3: "str_maintenance s3 = str_maintenance s \<and> str_resetTotals s3 = 0
      \<and> m_count (m_raw (str_total s3)) = (if str_resetTotals s \<noteq> 0 then 0 else m_count (m_raw (str_total s)))"
    using 4 k by (auto simp: stream_reset_def total_reset_def total_clear_base_def split: if_splits)
  note c = calcTotal_count [OF 5]
  have "str_maintenance s4 = str_maintenance ?s" "str_resetTotals s4 = str_resetTotals ?s"
    using arg_cong [OF conjunct1 [OF c], of str_maintenance] arg_cong [OF conjunct1 [OF c], of str_resetTotals] by simp_all
  then show ?thesis using c k3 stream_latches_keeps [OF 2] s' by simp
qed

text \<open>The scans of a line: each starts from the object as its links left it.\<close>

fun stream_runs :: "meter_env \<Rightarrow> rObjUnit \<Rightarrow> rStream \<Rightarrow> 'd node list \<Rightarrow> rStream" where
  "stream_runs me u s [] = s"
| "stream_runs me u s (n # ns) = stream_runs me u (fst (stream_body me u s n)) ns"

lemma stream_runs_count:
  assumes "str_maintenance s = 0" "str_resetTotals s = 0" "List.map (\<lambda>n. in_value n S_COUNTER) ns = List.map lreal_of_word ds"
  shows "m_count (m_raw (str_total (stream_runs me u s ns))) = m_count (m_raw (str_total s)) + sum_list ds"
  using assms
proof (induction ns arbitrary: s ds)
  case (Cons n ns)
  obtain d ds' where ds: "ds = d # ds'" "in_value n S_COUNTER = lreal_of_word d"
    "List.map (\<lambda>n. in_value n S_COUNTER) ns = List.map lreal_of_word ds'" using Cons.prems(3) by (cases ds) auto
  obtain s' n' a where r: "stream_body me u s n = (s', n', a)" by (rule prod_cases3)
  note b = stream_body_count [OF r]
  have "str_maintenance s' = 0" "str_resetTotals s' = 0" using b Cons.prems(1) by simp_all
  from Cons.IH [OF this ds(3)] show ?case using b Cons.prems(1,2) ds by (simp add: r)
qed simp

text \<open>
  C4. From the module to the total: after a scan in which the counter saw the module (its first one, or
  one with a new poll), over any number of further scans which each see a new poll of the healthy
  module, the raw count of a line in service advances by exactly the impulses which the module itself
  counted between that scan and the last one, modulo 2 to the 32, wherever the count wraps; no impulse
  is lost or counted twice on the way.
\<close>

theorem impulses_reach_total:
  assumes "\<not> has (Value (cn_setup c0)) CNT_OFF" "isSetModule (cn_mod c0)" "own3 n0"
    and "counter_reading io0 c0 = Some (k, q, f)" "cn_isInit c0 \<longrightarrow> cn_pullingCount c0 \<noteq> q"
    and "counter_body io0 c0 n0 = (c, nc, a)"
    and "each_new (List.map (\<lambda>io. counter_reading io c) ios) (cn_pullingCount c)"
    and "counter_scans ios c nc = (outs, c', nc')"
    and "str_maintenance s = 0" "str_resetTotals s = 0" "List.map (\<lambda>n. in_value n S_COUNTER) ns = outs"
  shows "m_count (m_raw (str_total (stream_runs me u s ns))) = m_count (m_raw (str_total s))
    + (module_count (last (io0 # ios)) (cn_mod c0) - module_count io0 (cn_mod c0))"
proof -
  note b = counter_baseline [OF assms(1-6)]
  obtain ds where ds: "outs = List.map lreal_of_word ds" "sum_list ds = cn_countPrev c' - cn_countPrev c"
    and l: "ios \<noteq> [] \<longrightarrow> Some (cn_countPrev c') = map_option fst (counter_reading (last ios) c)"
    using counter_impulses [OF b(1-4) assms(7,8)] by blast
  have "cn_countPrev c' = module_count (last (io0 # ios)) (cn_mod c0)"
    using counter_last_count [of "cn_countPrev c'" "last ios" c] l b(5,6) assms(8) by (cases "ios = []") simp_all
  with stream_runs_count [OF assms(9,10), of ns ds] assms(11) ds b(6) show ?thesis by simp
qed

text \<open>When the data is calculated twice between two polls, each number is shown twice.\<close>

definition twice :: "'a list \<Rightarrow> 'a list" where "twice xs = concat (List.map (\<lambda>x. [x, x]) xs)"

lemma twice_simps [simp]: "twice [] = []" "twice (x # xs) = x # x # twice xs"
  by (simp_all add: twice_def)

lemma twice_map: "twice (List.map f xs) = List.map f (twice xs)"
  by (induction xs) simp_all

lemma twice_sum: "sum_list (twice ds) = 2 * sum_list (ds :: UDINT list)"
  by (induction ds) simp_all

lemma counter_scans_twice:
  assumes "\<not> has (Value (cn_setup s)) CNT_OFF" "isSetModule (cn_mod s)" "own3 n" "cn_isInit s"
    "each_new (List.map (\<lambda>io. counter_reading io s) ios) (cn_pullingCount s)"
    "counter_scans (twice ios) s n = (outs, s', n')"
  shows "\<exists>ds. outs = twice (List.map lreal_of_word ds) \<and> sum_list ds = cn_countPrev s' - cn_countPrev s
    \<and> (ios \<noteq> [] \<longrightarrow> Some (cn_countPrev s') = map_option fst (counter_reading (last ios) s))"
  using assms
proof (induction ios arbitrary: s n outs)
  case (Cons io ios)
  obtain c q f where rd: "counter_reading io s = Some (c, q, f)" and q: "cn_pullingCount s \<noteq> q"
    and rest: "each_new (List.map (\<lambda>io. counter_reading io s) ios) q"
    using Cons.prems(5) by (cases "counter_reading io s") auto
  obtain s1 n1 a where 1: "counter_body io s n = (s1, n1, a)" by (rule prod_cases3)
  have s1: "s1 = s\<lparr>cn_countPrev := c, cn_pullingCount := q\<rparr>" and n1: "own3 n1" and v: "out_v n1 0 = lreal_of_word (c - cn_countPrev s)"
    using counter_body_reading [OF Cons.prems(1,2,3) rd 1] Cons.prems(4) q by (simp_all add: counter_take_def)
  have "cn_mod s1 = cn_mod s" by (simp add: s1)
  then have same: "counter_reading io' s1 = counter_reading io' s" for io' unfolding counter_reading_def by (simp only:)
  have on: "\<not> has (Value (cn_setup s1)) CNT_OFF" "isSetModule (cn_mod s1)" "cn_isInit s1" using Cons.prems(1,2,4) by (simp_all add: s1)
  obtain s2 n2 b where 2: "counter_body io s1 n1 = (s2, n2, b)" by (rule prod_cases3)
  have rd1: "counter_reading io s1 = Some (c, cn_pullingCount s1, f)" using rd same by (simp add: s1)
  have s2: "s2 = s1" "out_v n2 0 = out_v n1 0" using counter_repeats [OF on(1,2) n1 on(3) rd1 2] by simp_all
  have n2: "own3 n2" using counter_body_reading [OF on(1,2) n1 rd1 2] by simp
  obtain outs2 s3 n3 where 3: "counter_scans (twice ios) s2 n2 = (outs2, s3, n3)" by (rule prod_cases3)
  have e: "outs = out_v n1 0 # out_v n2 0 # outs2" "s3 = s'" using Cons.prems(6) by (simp_all add: 1 2 3)
  have "\<exists>ds. outs2 = twice (List.map lreal_of_word ds) \<and> sum_list ds = cn_countPrev s' - cn_countPrev s1
    \<and> (ios \<noteq> [] \<longrightarrow> Some (cn_countPrev s') = map_option fst (counter_reading (last ios) s1))"
  proof (rule Cons.IH [OF on(1,2) n2 on(3)])
    have "cn_pullingCount s1 = q" by (simp add: s1)
    then show "each_new (List.map (\<lambda>io. counter_reading io s1) ios) (cn_pullingCount s1)" using rest by (simp add: same)
    show "counter_scans (twice ios) s1 n2 = (outs2, s', n')" using 3 e(2) s2 Cons.prems(6) by (simp add: 1 2)
  qed
  then obtain ds where "outs2 = twice (List.map lreal_of_word ds)" "sum_list ds = cn_countPrev s' - c"
    "ios \<noteq> [] \<longrightarrow> Some (cn_countPrev s') = map_option fst (counter_reading (last ios) s)"
    unfolding same by (auto simp: s1)
  moreover have "ios = [] \<Longrightarrow> cn_countPrev s' = c" using 3 e(2) s2 by (auto simp: s1)
  ultimately show ?case using v s2 rd by (intro exI [of _ "(c - cn_countPrev s) # ds"]) (auto simp: e(1))
qed (auto intro!: exI [of _ "[]"])

text \<open>
  When each poll of the module is seen by two scans, the raw count of the line advances by
  twice the advance of the module: the counter keeps showing the impulses of the last poll.
\<close>

theorem impulses_counted_twice:
  assumes "\<not> has (Value (cn_setup c0)) CNT_OFF" "isSetModule (cn_mod c0)" "own3 n0"
    and "counter_reading io0 c0 = Some (k, q, f)" "cn_isInit c0 \<longrightarrow> cn_pullingCount c0 \<noteq> q"
    and "counter_body io0 c0 n0 = (c, nc, a)"
    and "each_new (List.map (\<lambda>io. counter_reading io c) ios) (cn_pullingCount c)"
    and "counter_scans (twice ios) c nc = (outs, c', nc')"
    and "str_maintenance s = 0" "str_resetTotals s = 0" "List.map (\<lambda>n. in_value n S_COUNTER) ns = outs"
  shows "m_count (m_raw (str_total (stream_runs me u s ns))) = m_count (m_raw (str_total s))
    + 2 * (module_count (last (io0 # ios)) (cn_mod c0) - module_count io0 (cn_mod c0))"
proof -
  note b = counter_baseline [OF assms(1-6)]
  obtain ds where ds: "outs = twice (List.map lreal_of_word ds)" "sum_list ds = cn_countPrev c' - cn_countPrev c"
    and l: "ios \<noteq> [] \<longrightarrow> Some (cn_countPrev c') = map_option fst (counter_reading (last ios) c)"
    using counter_scans_twice [OF b(1-4) assms(7,8)] by blast
  have "cn_countPrev c' = module_count (last (io0 # ios)) (cn_mod c0)"
    using counter_last_count [of "cn_countPrev c'" "last ios" c] l b(5,6) assms(8) by (cases "ios = []") simp_all
  with stream_runs_count [OF assms(9,10), of ns "twice ds"] assms(11) ds b(6) show ?thesis by (simp add: twice_sum twice_map)
qed

section \<open>A station and its lines\<close>

definition station_shape :: "nat \<times> nat option list" where
  "station_shape = (3, [Some 0, Some 1, Some 2, None, None, None, None])"

lemma station_shape_links: "shape_of (List.map fst (station_links u)) 0 = station_shape"
  by (simp add: station_links_def station_shape_def has_def LINK_INPUT_def LINK_OUTPUT_def LINK_INOUTPUT_def)

lemma station_own:
  assumes "shape n = station_shape" "3 \<le> p" "p < 7"
  shows "own_output n p" "p < length (n_outputs n)"
proof -
  have "p = 3 \<or> p = 4 \<or> p = 5 \<or> p = 6" using assms(2,3) by auto
  then show "own_output n p" "p < length (n_outputs n)"
    using shape_own [of p n] shape_length(1) [of n] assms(1) by (auto simp: station_shape_def)
qed

lemma station_in:
  assumes "shape n = station_shape" "p < 3"
  shows "n_outputs n ! p = O_in p" "p < length (n_inputs n)"
proof -
  have "snd (shape n) ! p = Some p" "length (snd (shape n)) = 7" "fst (shape n) = 3"
    using assms by (auto simp: station_shape_def less_Suc_eq numeral_3_eq_3)
  then show "n_outputs n ! p = O_in p" "p < length (n_inputs n)"
    using assms(2) by (auto simp: shape_def split: outref.splits)
qed

lemma station_puts_own:
  assumes "shape n = station_shape" "\<forall>(p, v)\<in>set ps. 3 \<le> p \<and> p < 7"
  shows "keeps_links cls n (puts ps n)"
  by (rule keeps_links_puts) (use assms(2) station_own(1) [OF assms(1)] in fastforce)

lemma station_out_puts:
  assumes "shape n = station_shape" "\<forall>(p, v)\<in>set ps. 3 \<le> p \<and> p < 7" "3 \<le> p" "p < 7"
  shows "out_v (puts ps n) p = (case map_of (rev ps) p of None \<Rightarrow> out_v n p | Some v \<Rightarrow> v)"
  by (rule out_v_puts) (use assms(2-4) station_own [OF assms(1)] in fastforce)+

lemma add_flows_out:
  assumes "shape n = station_shape" "r < 4"
  shows "out_v (add_flows sn n) (3 + r) = out_v n (3 + r) + out_v sn (7 + r)"
proof -
  have "r = 0 \<or> r = 1 \<or> r = 2 \<or> r = 3" using assms(2) by auto
  then show ?thesis unfolding add_flows_def
    by (subst station_out_puts [OF assms(1)]) (auto simp: numeral_eq_Suc)
qed

lemma add_flows_keeps: "shape n = station_shape \<Longrightarrow> keeps_links cls n (add_flows sn n) \<and> shape (add_flows sn n) = shape n"
  unfolding add_flows_def by (intro conjI station_puts_own) auto

text \<open>The lines in service, and what they add to output \<open>3 + r\<close> of the station.\<close>

definition services :: "('d \<Rightarrow> rStream option) \<Rightarrow> 'd net \<Rightarrow> nat list \<Rightarrow> nat list" where
  "services line ns js = List.filter (\<lambda>j. case line (n_data (ns ! j)) of Some s \<Rightarrow> str_maintenance s = 0 | None \<Rightarrow> False) js"

definition line_inc :: "('d \<Rightarrow> rStream option) \<Rightarrow> 'd net \<Rightarrow> nat \<Rightarrow> rBaseTotal" where
  "line_inc line ns j = m_inc (str_total (the (line (n_data (ns ! j)))))"

lemma services_in: "services line ns js = List.filter (\<lambda>j. in_service line (ns ! j) \<noteq> None) js"
  unfolding services_def by (rule filter_cong) (auto simp: in_service_def split: option.splits)

lemma line_inc_in: "in_service line (ns ! j) = Some s \<Longrightarrow> line_inc line ns j = m_inc (str_total s)"
  by (auto simp: in_service_def line_inc_def split: option.splits if_splits)

lemma foldl_base_add:
  "Mass (foldl base_add t xs) = foldl (+) (Mass t) (List.map Mass xs)"
  "Volume (foldl base_add t xs) = foldl (+) (Volume t) (List.map Volume xs)"
  "Volume15 (foldl base_add t xs) = foldl (+) (Volume15 t) (List.map Volume15 xs)"
  "Volume20 (foldl base_add t xs) = foldl (+) (Volume20 t) (List.map Volume20 xs)"
  "m_count (foldl base_add t xs) = foldl (+) (m_count t) (List.map m_count xs)"
  by (induction xs arbitrary: t) (simp_all add: base_add_def)

lemma lk0_line: "lk0 n' = lk0 n \<Longrightarrow> in_service line n' = in_service line n \<and> out_v n' p = out_v n p"
proof -
  assume l: "lk0 n' = lk0 n"
  have e: "n_data n' = n_data n" "n_outputs n' = n_outputs n" "n_inputs n' = n_inputs n" using lk0_fields [OF l] by blast+
  then have "out_link n' r = out_link n r" for r by (cases r) simp_all
  with e show ?thesis by (simp add: in_service_def out_v_def)
qed

lemma services_frame:
  assumes f: "frame cls {i} ns ns'" and js: "\<forall>j\<in>set js. j < length ns \<and> n_isCalc (ns ! j) \<and> j \<noteq> i"
  shows "services line ns' js = services line ns js" "List.map (line_inc line ns') (services line ns js) = List.map (line_inc line ns) (services line ns js)"
    "List.map (\<lambda>j. out_v (ns' ! j) p) (services line ns js) = List.map (\<lambda>j. out_v (ns ! j) p) (services line ns js)"
proof -
  have "lk0 (ns' ! j) = lk0 (ns ! j)" if "j \<in> set js" for j using f js that by (auto simp: frame_def)
  then have e: "in_service line (ns' ! j) = in_service line (ns ! j) \<and> out_v (ns' ! j) p = out_v (ns ! j) p" "n_data (ns' ! j) = n_data (ns ! j)"
    if "j \<in> set js" for j
    using lk0_line lk0_fields that by blast+
  show "services line ns' js = services line ns js" unfolding services_in by (rule filter_cong) (use e in auto)
  show "List.map (line_inc line ns') (services line ns js) = List.map (line_inc line ns) (services line ns js)"
    "List.map (\<lambda>j. out_v (ns' ! j) p) (services line ns js) = List.map (\<lambda>j. out_v (ns ! j) p) (services line ns js)"
    using e by (auto simp: services_in line_inc_def)
qed

text \<open>The state in which a station is calculated.\<close>

definition at_station :: "('d \<Rightarrow> nat list \<times> nat list) \<Rightarrow> 'd net \<Rightarrow> nat \<Rightarrow> bool" where
  "at_station cls ns i \<longleftrightarrow> net_wf cls ns \<and> i < length ns \<and> n_isCalc (ns ! i) \<and> shape (ns ! i) = station_shape"

lemma at_station_does:
  assumes "does cls c i J ns ns' a" "good cls c" "at_station cls ns i" "\<forall>j\<in>J. j < length ns"
  shows "at_station cls ns' i" "length ns' = length ns" "frame cls {i} ns ns'"
  using does_keeps [OF assms(1,2)] assms(3,4) frame_wf frame_length frame_calc unfolding at_station_def by metis+

lemma station_sum_does:
  assumes g: "good cls c" and J: "\<forall>j\<in>J. j < length ns"
  shows "at_station cls ns i \<Longrightarrow> set js \<subseteq> J \<Longrightarrow> \<forall>j\<in>J. j < length ns \<Longrightarrow> station_sum line c i js t ns = Some (t', ns', a)
    \<Longrightarrow> does cls c i J ns ns' a \<and> (\<forall>j\<in>set js. n_isCalc (ns' ! j))
      \<and> (i \<notin> set js \<longrightarrow> t' = foldl base_add t (List.map (line_inc line ns') (services line ns' js))
        \<and> (\<forall>r<4. out_v (ns' ! i) (3 + r) = foldl (+) (out_v (ns ! i) (3 + r)) (List.map (\<lambda>j. out_v (ns' ! j) (7 + r)) (services line ns' js))))"
proof (induction js arbitrary: t ns a)
  case Nil
  then show ?case by (simp add: does_nothing services_in)
next
  case (Cons j js)
  obtain ns1 a1 where 1: "c j ns = Some (ns1, a1)"
    using Cons.prems(4) by (auto simp: Option.bind_eq_Some_conv)
  have j: "j \<in> J" "j < length ns" using Cons.prems(2,3) by auto
  have d1: "does cls c i J ns ns1 a1" using does_call_one [of j J c ns ns1 a1 cls i] j(1) 1 by blast
  note A1 = at_station_does [OF d1 g Cons.prems(1,3)]
  have cj: "n_isCalc (ns1 ! j)" and st1: "lk0 (ns1 ! i) = lk0 (ns ! i)"
    using goodD [OF g _ j(2) 1] Cons.prems(1) by (auto simp: at_station_def frame_def)
  have own1: "out_v (ns1 ! i) p = out_v (ns ! i) p" for p using lk0_line [OF st1] by blast
  have sub: "set js \<subseteq> J" "\<forall>j\<in>J. j < length ns1" using Cons.prems(2,3) A1(2) by auto
  show ?case
  proof (cases "in_service line (ns1 ! j)")
    case None
    obtain a2 where 2: "station_sum line c i js t ns1 = Some (t', ns', a2)" "a = a1 @ a2"
      using Cons.prems(4) by (auto simp: 1 None Option.bind_eq_Some_conv)
    note IH = Cons.IH [OF A1(1) sub 2(1)]
    then have d: "does cls c i J ns1 ns' a2" by blast
    have f: "frame cls {i} ns1 ns'" by (rule at_station_does(3) [OF d g A1(1) sub(2)])
    have cj': "n_isCalc (ns' ! j)" using frame_calc [OF f] j A1(2) cj by simp
    have "services line ns' (j # js) = services line ns' js" if "i \<noteq> j"
      using services_frame(1) [OF f, where js = "[j]" and line = line] that j A1(2) cj None by (simp add: services_in split: if_splits)
    with IH does_trans [OF d d1] cj' 2(2) own1 show ?thesis by auto
  next
    case (Some s)
    let ?ns2 = "upd i (add_flows (ns1 ! j)) ns1"
    obtain a2 where 2: "station_sum line c i js (base_add t (m_inc (str_total s))) ?ns2 = Some (t', ns', a2)" "a = a1 @ a2"
      using Cons.prems(4) by (auto simp: 1 Some Option.bind_eq_Some_conv)
    have sh: "shape (ns1 ! i) = station_shape" "i < length ns1" using A1(1) by (simp_all add: at_station_def)
    have dU: "does cls c i J ns1 ?ns2 []" using add_flows_keeps [OF sh(1)] does_upd sh(2) by blast
    note A2 = at_station_does [OF dU g A1(1) sub(2)]
    have sub2: "\<forall>j\<in>J. j < length ?ns2" using sub by simp
    note IH = Cons.IH [OF A2(1) sub(1) sub2 2(1)]
    then have d: "does cls c i J ?ns2 ns' a2" by blast
    have f2: "frame cls {i} ?ns2 ns'" by (rule at_station_does(3) [OF d g A2(1) sub2])
    have f: "frame cls {i} ns1 ns'" using frame_trans A2(3) f2 by blast
    have cj': "n_isCalc (ns' ! j)" using frame_calc [OF f] j A1(2) cj by simp
    have dd: "does cls c i J ns ns' (a1 @ a2)" using does_trans [OF does_trans [OF d dU] d1] by simp
    have sums: "t' = foldl base_add t (List.map (line_inc line ns') (services line ns' (j # js)))
        \<and> (\<forall>r<4. out_v (ns' ! i) (3 + r) = foldl (+) (out_v (ns ! i) (3 + r)) (List.map (\<lambda>j. out_v (ns' ! j) (7 + r)) (services line ns' (j # js))))"
      if "i \<notin> set (j # js)"
    proof -
      have ji: "\<forall>x\<in>set [j]. x < length ns1 \<and> n_isCalc (ns1 ! x) \<and> x \<noteq> i" using that j A1(2) cj by simp
      note F = services_frame [OF f ji, where line = line]
      have s1: "services line ns1 [j] = [j]" "line_inc line ns1 j = m_inc (str_total s)" using line_inc_in [OF Some] by (simp_all add: services_in Some)
      then have s: "services line ns' (j # js) = j # services line ns' js" "line_inc line ns' j = m_inc (str_total s)"
        "out_v (ns' ! j) p = out_v (ns1 ! j) p" for p
        using F by (auto simp: services_in split: if_splits)
      have "out_v (?ns2 ! i) (3 + r) = out_v (ns ! i) (3 + r) + out_v (ns1 ! j) (7 + r)" if "r < 4" for r
        using add_flows_out [OF sh(1) that] sh(2) own1 by simp
      with IH that s show ?thesis by simp
    qed
    show ?thesis using IH dd cj' 2(2) sums by auto
  qed
qed

subsection \<open>The means\<close>

text \<open>Parameters that may be written: their links are not calculated.\<close>

definition free_params :: "('d \<Rightarrow> nat list \<times> nat list) \<Rightarrow> 'd node \<Rightarrow> (nat \<times> string \<times> bool) list \<Rightarrow> bool" where
  "free_params cls n ms \<longleftrightarrow> (\<forall>(p, name, on)\<in>set ms. p < 3 \<and> (on \<longrightarrow> \<not> active cls n p))"

lemma free_params_static: "static cls n' = static cls n \<Longrightarrow> free_params cls n' ms = free_params cls n ms"
  unfolding free_params_def using static_active [of cls n' n] by (simp only:)

lemma station_params_free:
  assumes "at_station cls ns i"
  shows "free_params cls (ns ! i) (station_params (ns ! i))"
proof -
  have "\<not> active cls (ns ! i) p" if p: "p < 3" and v: "\<not> l_valid (sl_link (n_inputs (ns ! i) ! p))" for p
  proof
    assume "active cls (ns ! i) p"
    then obtain j where "p < length (n_inputs (ns ! i))" "sl_source (n_inputs (ns ! i) ! p) = Some j"
      by (auto simp: active_def linked_def)
    with wf_link(2) [of cls ns i p j] assms v show False by (simp add: at_station_def)
  qed
  then show ?thesis by (auto simp: free_params_def station_params_def)
qed

lemma station_put_param:
  assumes "shape n = station_shape" "p < 3" "\<not> active cls n p"
  shows "keeps_links cls n (put p v n) \<and> shape (put p v n) = shape n \<and> (\<forall>q. 3 \<le> q \<and> q < 7 \<longrightarrow> out_v (put p v n) q = out_v n q)"
  using keeps_links_put_in [OF station_in(1) [OF assms(1,2)] assms(3)] out_v_put_other [OF station_own(1) [OF assms(1)]] assms(2) by auto

lemma station_puts_param:
  "shape n = station_shape \<Longrightarrow> \<forall>(p, v)\<in>set ps. p < 3 \<and> \<not> active cls n p \<Longrightarrow>
   keeps_links cls n (puts ps n) \<and> shape (puts ps n) = shape n \<and> (\<forall>q. 3 \<le> q \<and> q < 7 \<longrightarrow> out_v (puts ps n) q = out_v n q)"
proof (induction ps arbitrary: n)
  case (Cons pv ps)
  obtain p v where pv: "pv = (p, v)" by force
  note P = station_put_param [OF Cons.prems(1), of p cls v]
  have p: "p < 3" "\<not> active cls n p" using Cons.prems(2) pv by auto
  have st: "static cls (put p v n) = static cls n" using P p by (simp add: keeps_links_def)
  have "keeps_links cls (put p v n) (puts ps (put p v n)) \<and> shape (puts ps (put p v n)) = shape (put p v n)
    \<and> (\<forall>q. 3 \<le> q \<and> q < 7 \<longrightarrow> out_v (puts ps (put p v n)) q = out_v (put p v n) q)"
    by (rule Cons.IH) (use P p Cons.prems static_active [OF st] in auto)
  with P p show ?case using keeps_links_trans by (auto simp: pv)
qed simp

lemma mean_add_does:
  assumes g: "good cls c" and A: "at_station cls ns i" and J: "\<forall>j\<in>J. j < length ns" and j: "j \<in> J"
    and m: "free_params cls (ns ! i) [m]" and r: "mean_add ne c i j m ns = Some (ns', a)"
  shows "does cls c i J ns ns' a \<and> (\<forall>q. 3 \<le> q \<and> q < 7 \<longrightarrow> out_v (ns' ! i) q = out_v (ns ! i) q)"
proof -
  obtain p name on where me: "m = (p, name, on)" by (rule prod_cases3)
  have p: "p < 3" and np: "on \<Longrightarrow> \<not> active cls (ns ! i) p" using m by (auto simp: free_params_def me)
  have sh: "shape (ns ! i) = station_shape" "i < length ns" using A by (simp_all add: at_station_def)
  have upd: "does cls c i J n1 (upd i (\<lambda>n. put p (f n) n) n1) [] \<and> (\<forall>q. 3 \<le> q \<and> q < 7 \<longrightarrow> out_v (upd i (\<lambda>n. put p (f n) n) n1 ! i) q = out_v (n1 ! i) q)"
    if "at_station cls n1 i" "\<not> active cls (n1 ! i) p" for n1 f
    using station_put_param [of "n1 ! i" p cls] that p does_upd [of cls n1 i "\<lambda>n. put p (f n) n"] by (simp add: at_station_def)
  show ?thesis
  proof (cases on)
    case False
    then show ?thesis using r by (simp add: mean_add_def me does_nothing)
  next
    case on: True
    show ?thesis
    proof (cases "out_v (ns ! i) T_FLOWMASS > Fin 0")
      case False
      have e: "ns' = upd i (\<lambda>n. put p (out_v n p + Fin 0) n) ns" "a = []" using r on False by (auto simp: mean_add_def me)
      show ?thesis unfolding e by (rule upd [OF A np [OF on]])
    next
      case True
      obtain v err ns1 where 1: "source_getValue ne c j name (out_unit (ns ! i) p) ns = Some (v, err, ns1, a)"
        and e: "ns' = upd i (\<lambda>n. put p (out_v n p + v * (out_v (ns1 ! j) S_FLOWMASS / out_v n T_FLOWMASS)) n) ns1"
        using r on True by (auto simp: mean_add_def me Option.bind_eq_Some_conv)
      have w: "net_wf cls ns" using A by (simp add: at_station_def)
      have len: "length n1 = length ns" if "c j ns = Some (n1, b)" for n1 b
        using goodD [OF g w _ that] j J frame_length by blast
      have d1: "does cls c i J ns ns1 a" by (rule does_getValue [OF 1 j sh(2) len])
      note A1 = at_station_does [OF d1 g A J]
      have "j < length ns" using j J by blast
      have "lk0 (ns1 ! i) = lk0 (ns ! i)" using getValue_good [OF g w \<open>j < length ns\<close> 1] A by (simp add: at_station_def frame_def)
      note same = lk0_line [OF this]
      have na: "\<not> active cls (ns1 ! i) p" using np [OF on] static_active [OF frame_static [OF A1(3) sh(2)]] by simp
      have U: "does cls c i J ns1 ns' [] \<and> (\<forall>q. 3 \<le> q \<and> q < 7 \<longrightarrow> out_v (ns' ! i) q = out_v (ns1 ! i) q)"
        unfolding e by (rule upd [OF A1(1) na])
      show ?thesis using does_trans [OF conjunct1 [OF U] d1] U same by auto
    qed
  qed
qed

lemma means_add_does:
  assumes g: "good cls c" and j: "j \<in> J"
  shows "at_station cls ns i \<Longrightarrow> \<forall>j\<in>J. j < length ns \<Longrightarrow> free_params cls (ns ! i) ms \<Longrightarrow> means_add ne c i j ms ns = Some (ns', a)
    \<Longrightarrow> does cls c i J ns ns' a \<and> (\<forall>q. 3 \<le> q \<and> q < 7 \<longrightarrow> out_v (ns' ! i) q = out_v (ns ! i) q)"
proof (induction ms arbitrary: ns a)
  case (Cons m ms)
  obtain ns1 a1 a2 where 1: "mean_add ne c i j m ns = Some (ns1, a1)" and 2: "means_add ne c i j ms ns1 = Some (ns', a2)" "a = a1 @ a2"
    using Cons.prems(4) by (auto simp: Option.bind_eq_Some_conv)
  have fm: "free_params cls (ns ! i) [m]" "free_params cls (ns ! i) ms" using Cons.prems(3) by (auto simp: free_params_def)
  note D = mean_add_does [OF g Cons.prems(1,2) j fm(1) 1]
  note A1 = at_station_does [OF conjunct1 [OF D] g Cons.prems(1,2)]
  have i: "i < length ns" using Cons.prems(1) by (simp add: at_station_def)
  have "does cls c i J ns1 ns' a2 \<and> (\<forall>q. 3 \<le> q \<and> q < 7 \<longrightarrow> out_v (ns' ! i) q = out_v (ns1 ! i) q)"
    by (rule Cons.IH [OF A1(1) _ _ 2(1)]) (use A1 Cons.prems(2) fm free_params_static [OF frame_static [OF A1(3) i]] in auto)
  then show ?case using D does_trans 2(2) by auto
qed (simp add: does_nothing)

lemma station_means_does:
  assumes g: "good cls c"
  shows "at_station cls ns i \<Longrightarrow> set js \<subseteq> J \<Longrightarrow> \<forall>j\<in>J. j < length ns \<Longrightarrow> free_params cls (ns ! i) ms
    \<Longrightarrow> station_means line ne c i ms js ns = Some (ns', a)
    \<Longrightarrow> does cls c i J ns ns' a \<and> (\<forall>q. 3 \<le> q \<and> q < 7 \<longrightarrow> out_v (ns' ! i) q = out_v (ns ! i) q)"
proof (induction js arbitrary: ns a)
  case (Cons j js)
  obtain ns1 a1 a2 where 1: "(if in_service line (ns ! j) = None then Some (ns, []) else means_add ne c i j ms ns) = Some (ns1, a1)"
    and 2: "station_means line ne c i ms js ns1 = Some (ns', a2)" "a = a1 @ a2"
    using Cons.prems(5) by (auto simp: Option.bind_eq_Some_conv)
  have j: "j \<in> J" "set js \<subseteq> J" using Cons.prems(2) by auto
  have D: "does cls c i J ns ns1 a1 \<and> (\<forall>q. 3 \<le> q \<and> q < 7 \<longrightarrow> out_v (ns1 ! i) q = out_v (ns ! i) q)"
    using 1 means_add_does [OF g j(1) Cons.prems(1,3,4)] by (auto simp: does_nothing split: if_splits)
  note A1 = at_station_does [OF conjunct1 [OF D] g Cons.prems(1,3)]
  have i: "i < length ns" using Cons.prems(1) by (simp add: at_station_def)
  have "does cls c i J ns1 ns' a2 \<and> (\<forall>q. 3 \<le> q \<and> q < 7 \<longrightarrow> out_v (ns' ! i) q = out_v (ns1 ! i) q)"
    by (rule Cons.IH [OF A1(1) j(2) _ _ 2(1)]) (use A1 Cons.prems free_params_static [OF frame_static [OF A1(3) i]] in auto)
  then show ?case using D does_trans 2(2) by auto
qed (simp add: does_nothing)

subsection \<open>The calculation of a station\<close>

text \<open>The two own changes of the body: the flow rates and the free parameters start from zero.\<close>

abbreviation zero_flows :: "'d node \<Rightarrow> 'd node" where
  "zero_flows \<equiv> puts [(T_FLOWMASS, Fin 0), (T_FLOWVOLUME, Fin 0), (T_FLOWVOLUME15, Fin 0), (T_FLOWVOLUME20, Fin 0)]"

lemma zero_flows_does:
  assumes "at_station cls ns i" "rans e = []"
  shows "does cls c i J ns (upd i zero_flows ns) e"
proof (rule does_one)
  have i: "i < length ns" "shape (ns ! i) = station_shape" using assms(1) by (simp_all add: at_station_def)
  have "keeps_links cls (ns ! i) (zero_flows (ns ! i))" by (rule station_puts_own [OF i(2)]) simp
  then show "quiet cls i ns (upd i zero_flows ns)" by (rule quiet_upd) (rule i(1))
  show "shape (upd i zero_flows ns ! i) = shape (ns ! i)" using i by simp
qed (rule assms(2))

lemma zero_params_does:
  assumes A: "at_station cls ns i" and ms: "ms = station_params (ns ! i)"
  shows "does cls c i J ns (upd i (zero_params ms) ns) []" "free_params cls (upd i (zero_params ms) ns ! i) ms"
    "3 \<le> q \<Longrightarrow> q < 7 \<Longrightarrow> out_v (upd i (zero_params ms) ns ! i) q = out_v (ns ! i) q"
proof -
  have i: "i < length ns" "shape (ns ! i) = station_shape" using A by (simp_all add: at_station_def)
  have fr: "free_params cls (ns ! i) ms" unfolding ms by (rule station_params_free [OF A])
  have Z: "keeps_links cls (ns ! i) (zero_params ms (ns ! i)) \<and> shape (zero_params ms (ns ! i)) = shape (ns ! i)
      \<and> (\<forall>q. 3 \<le> q \<and> q < 7 \<longrightarrow> out_v (zero_params ms (ns ! i)) q = out_v (ns ! i) q)"
    unfolding zero_params_def by (rule station_puts_param [OF i(2)]) (use fr in \<open>auto simp: free_params_def\<close>)
  then show "does cls c i J ns (upd i (zero_params ms) ns) []" using i by (intro does_upd) simp_all
  have "static cls (zero_params ms (ns ! i)) = static cls (ns ! i)" using Z by (simp add: keeps_links_def)
  from free_params_static [OF this] show "free_params cls (upd i (zero_params ms) ns ! i) ms" using fr i by simp
  show "3 \<le> q \<Longrightarrow> q < 7 \<Longrightarrow> out_v (upd i (zero_params ms) ns ! i) q = out_v (ns ! i) q" using Z i by simp
qed

lemma station_body_does:
  assumes g: "good cls c" and A: "at_station cls ns i" and cw: "\<And>x. cls (wrap x) = (stn_stream x, [])"
    and dn: "n_data (ns ! i) = wrap s" and r: "station_body line wrap me ne c s i ns = Some (ns', a)"
  shows "does cls c i (set (stn_stream s)) ns ns' a \<and> (\<forall>j\<in>set (stn_stream s). n_isCalc (ns' ! j))
    \<and> (\<exists>t. n_data (ns' ! i) = wrap (s\<lparr>stn_total := t, stn_resetTotals := 0\<rparr>)
      \<and> m_count (m_raw t) = (if stn_resetTotals s \<noteq> 0 then 0 else m_count (m_raw (stn_total s))) + m_count (m_inc t)
      \<and> (i \<notin> set (stn_stream s) \<longrightarrow>
          m_inc t = foldl base_add total_clear_base (List.map (line_inc line ns') (services line ns' (stn_stream s)))
        \<and> (\<forall>r<4. out_v (ns' ! i) (3 + r) = foldl (+) (Fin 0) (List.map (\<lambda>j. out_v (ns' ! j) (7 + r)) (services line ns' (stn_stream s))))))"
proof -
  let ?J = "set (stn_stream s)" and ?js = "stn_stream s"
  obtain t e where te: "(if stn_resetTotals s \<noteq> 0 then (total_reset (stn_total s), [nevent (ns ! i) EID_STATION_RESET_TOTALS])
                    else (stn_total s, [])) = (t, e)" by force
  let ?ns0 = "upd i zero_flows ns"
  obtain inc ns1 a1 where 1: "station_sum line c i ?js total_clear_base ?ns0 = Some (inc, ns1, a1)"
    using r by (auto simp: station_body_def te Let_def Option.bind_eq_Some_conv split: prod.splits)
  let ?ms = "station_params (ns1 ! i)"
  let ?ns2 = "upd i (zero_params ?ms) ns1"
  obtain t1 e1 where 3: "total_of me (stn_unit s) (t\<lparr>m_inc := inc\<rparr>) = (t1, e1)" by force
  obtain ns3 a2 where 2: "station_means line ne c i ?ms ?js ?ns2 = Some (ns3, a2)"
    using r by (auto simp: station_body_def te 1 3 Let_def Option.bind_eq_Some_conv)
  let ?f = "\<lambda>n. n\<lparr>n_data := wrap (s\<lparr>stn_total := t1, stn_resetTotals := 0\<rparr>)\<rparr>"
  have n': "ns' = upd i ?f ns3" and a: "a = List.map Sent e @ a1 @ a2 @ List.map Sent e1"
    using r by (simp_all add: station_body_def te Let_def 1 2 3)
  have i: "i < length ns" "shape (ns ! i) = station_shape" and w: "net_wf cls ns" using A by (simp_all add: at_station_def)
  have J: "\<forall>j\<in>?J. j < length ns" using w i dn cw by (auto simp: net_wf_def)
  have d0: "does cls c i ?J ns ?ns0 (List.map Sent e)" by (rule zero_flows_does [OF A]) simp
  note A0 = at_station_does [OF d0 g A J]
  have J0: "\<forall>j\<in>?J. j < length ?ns0" using J by simp
  have S: "does cls c i ?J ?ns0 ns1 a1 \<and> (\<forall>j\<in>set ?js. n_isCalc (ns1 ! j))
      \<and> (i \<notin> set ?js \<longrightarrow> inc = foldl base_add total_clear_base (List.map (line_inc line ns1) (services line ns1 ?js))
        \<and> (\<forall>r<4. out_v (ns1 ! i) (3 + r) = foldl (+) (out_v (?ns0 ! i) (3 + r)) (List.map (\<lambda>j. out_v (ns1 ! j) (7 + r)) (services line ns1 ?js))))"
    by (rule station_sum_does [OF g J0 A0(1) order_refl J0 1])
  note A1 = at_station_does [OF conjunct1 [OF S] g A0(1) J0]
  have i1: "i < length ns1" "shape (ns1 ! i) = station_shape" using A1(1) by (simp_all add: at_station_def)
  have J1: "\<forall>j\<in>?J. j < length ns1" using J0 A1(2) by simp
  note Z = zero_params_does [OF A1(1) refl]
  note d2 = Z(1) [of c ?J]
  note A2 = at_station_does [OF d2 g A1(1) J1]
  have J2: "\<forall>j\<in>?J. j < length ?ns2" using J1 by simp
  have M: "does cls c i ?J ?ns2 ns3 a2 \<and> (\<forall>q. 3 \<le> q \<and> q < 7 \<longrightarrow> out_v (ns3 ! i) q = out_v (?ns2 ! i) q)"
    by (rule station_means_does [OF g A2(1) order_refl J2 Z(2) 2])
  note A3 = at_station_does [OF conjunct1 [OF M] g A2(1) J2]
  have i3: "i < length ns3" using A3(1) by (simp add: at_station_def)
  have f3: "frame cls {i} ns ns3" using frame_trans A0(3) A1(3) A2(3) A3(3) by metis
  have "cls (n_data (ns3 ! i)) = cls (n_data (ns ! i))" by (rule static_inputs(3) [OF frame_static [OF f3 i(1)]])
  then have kd: "keeps_links cls (ns3 ! i) (?f (ns3 ! i))" by (intro keeps_links_same) (simp_all add: dn cw)
  have d4: "does cls c i ?J ns3 ns' (List.map Sent e1)" unfolding n'
    by (rule does_one) (use kd i3 quiet_upd [where f = ?f, OF kd i3] in auto)
  have d: "does cls c i ?J ns ns' a"
    using does_trans [OF does_trans [OF does_trans [OF does_trans [OF d4 conjunct1 [OF M]] d2] conjunct1 [OF S]] d0] by (simp add: a)
  have f13: "frame cls {i} ns1 ns3" using frame_trans A2(3) A3(3) by metis
  have "frame cls {i} ns3 ns'" unfolding n' by (rule upd_own_frame) (use kd in \<open>simp_all add: keeps_links_def\<close>)
  then have f1': "frame cls {i} ns1 ns'" using frame_trans f13 by metis
  have cj: "\<forall>j\<in>?J. n_isCalc (ns' ! j)" using S J1 frame_calc [OF f1'] by blast
  have out3: "out_v (ns' ! i) q = out_v (ns1 ! i) q" if "3 \<le> q" "q < 7" for q
    using M Z(3) [of q] that i3 by (simp add: n')
  have zero: "out_v (?ns0 ! i) (3 + r) = Fin 0" if "r < 4" for r
  proof -
    have "r = 0 \<or> r = 1 \<or> r = 2 \<or> r = 3" using that by auto
    moreover have "?ns0 ! i = zero_flows (ns ! i)" using i by simp
    ultimately show ?thesis by (simp only:, subst station_out_puts [OF i(2)]) auto
  qed
  have sums: "inc = foldl base_add total_clear_base (List.map (line_inc line ns') (services line ns' ?js))
      \<and> (\<forall>r<4. out_v (ns' ! i) (3 + r) = foldl (+) (Fin 0) (List.map (\<lambda>j. out_v (ns' ! j) (7 + r)) (services line ns' ?js)))"
    if "i \<notin> ?J"
  proof -
    have "\<forall>j\<in>set ?js. j < length ns1 \<and> n_isCalc (ns1 ! j) \<and> j \<noteq> i" using that S J1 by blast
    note F = services_frame [OF f1' this]
    have "inc = foldl base_add total_clear_base (List.map (line_inc line ns1) (services line ns1 ?js))" using S that by blast
    moreover have "out_v (ns' ! i) (3 + r) = foldl (+) (Fin 0) (List.map (\<lambda>j. out_v (ns1 ! j) (7 + r)) (services line ns1 ?js))" if "r < 4" for r
      using S \<open>i \<notin> ?J\<close> that zero out3 by simp
    ultimately show ?thesis by (simp only: F) blast
  qed
  have t1: "m_count (m_raw t1) = m_count (m_raw t) + m_count inc" "m_inc t1 = inc" using total_of_count [OF 3] by simp_all
  have "m_count (m_raw t) = (if stn_resetTotals s \<noteq> 0 then 0 else m_count (m_raw (stn_total s)))"
    using te by (auto simp: total_reset_def total_clear_base_def split: if_splits)
  moreover have "n_data (ns' ! i) = wrap (s\<lparr>stn_total := t1, stn_resetTotals := 0\<rparr>)" using i3 by (simp add: n')
  ultimately show ?thesis using d cj sums t1 by auto
qed

section \<open>Instances\<close>

definition total_zero :: rTotal where
  "total_zero = \<lparr>m_past = total_clear_base, m_raw = total_clear_base, m_inc = total_clear_base, m_present = total_clear_base,
     m_eventMass = Ev 0 [], m_eventVolume = Ev 0 [], m_eventVolume15 = Ev 0 [], m_eventVolume20 = Ev 0 []\<rparr>"

definition factor_zero :: rFlowFactor where
  "factor_zero = \<lparr>KeypadKF = cmp_new (Fin 100), KeypadMF = cmp_new (Fin 1),
     fl_point = List.map (\<lambda>k. \<lparr>fp_id = of_nat k, fp_Hz = cmp_new (Fin 0), fp_Kf = cmp_new (Fin 0)\<rparr>) [0..<MAXPOINTS]\<rparr>"

definition stream_sample :: rStream where
  "stream_sample = \<lparr>str_flowmeter = CORIOLIS, str_maintenance = 0, str_linearization = 0, str_resetTotals = 0,
     str_curFactor = factor_zero, str_setFactor = factor_zero, str_curKF = Fin 100, str_acceptKF = 0, str_total = total_zero\<rparr>"

definition meter_sample :: meter_env where
  "meter_sample = \<lparr>me_oob = Fin 1, me_ub = 0, me_prec = prec_new\<rparr>"

text \<open>A line as its link leaves it when the counter shows a value.\<close>

definition fed_line :: "lreal \<Rightarrow> unit node" where
  "fed_line v = (let n = initLinks stream_links (source_new ()) in set_input 0 ((sl_link (n_inputs n ! 0))\<lparr>l_value := v\<rparr>) n)"

lemma fed_line_value: "in_value (fed_line v) S_COUNTER = v"
proof -
  have "length (n_inputs (initLinks stream_links (source_new ()))) = 9"
    using shape_new [of stream_links "()"] shape_length(2) [of "initLinks stream_links (source_new ())"]
    by (simp add: stream_links_def has_def LINK_INPUT_def LINK_OUTPUT_def LINK_INOUTPUT_def)
  then show ?thesis by (simp add: fed_line_def Let_def in_value_def)
qed

lemma fed_lines: "List.map (\<lambda>n. in_value n S_COUNTER) (List.map fed_line vs) = vs"
  by (simp add: comp_def fed_line_value)

lemma counter_sample_facts:
  "\<not> has (Value (cn_setup counter_sample)) CNT_OFF" "isSetModule (cn_mod counter_sample)"
  "str_maintenance stream_sample = 0" "str_resetTotals stream_sample = 0" "m_count (m_raw (str_total stream_sample)) = 0"
  "cn_isInit counter_sample \<longrightarrow> cn_pullingCount counter_sample \<noteq> 8"
  by (auto simp: counter_sample_def cmp_new_def has_def isSetModule_def MODULE_FAULT_def stream_sample_def total_zero_def total_clear_base_def)

lemma counter_sample_counts: "module_count (counter_io k q) (cn_mod counter_sample) = k"
  using counter_io_reading [of k q] counter_reading_count by metis

text \<open>The polls 8, 9 and 10 of a module whose count wraps from 0xFFFFFFF0 over 3 to 10.\<close>

lemma counter_sample_scan:
  obtains c nc a where "counter_body (counter_io 0xFFFFFFF0 8) counter_sample (initLinks counter_links (source_new ())) = (c, nc, a)"
    "each_new (List.map (\<lambda>io. counter_reading io c) [counter_io 3 9, counter_io 10 10]) (cn_pullingCount c)"
proof -
  obtain c nc a where r: "counter_body (counter_io 0xFFFFFFF0 8) counter_sample (initLinks counter_links (source_new ())) = (c, nc, a)"
    by (rule prod_cases3)
  obtain f where rd: "counter_reading (counter_io 0xFFFFFFF0 8) counter_sample = Some (0xFFFFFFF0, 8, f)" using counter_io_reading by blast
  note b = counter_body_reading [OF counter_sample_facts(1,2) counter_sample_node rd r]
  have m: "cn_mod c = cn_mod counter_sample" "cn_pullingCount c = 8" using b by (simp_all add: counter_take_def counter_sample_def)
  have "counter_reading io c = counter_reading io counter_sample" for io unfolding counter_reading_def m(1) by (rule refl)
  then have "each_new (List.map (\<lambda>io. counter_reading io c) [counter_io 3 9, counter_io 10 10]) (cn_pullingCount c)"
    using counter_io_reading [of 3 9] counter_io_reading [of 10 10] m(2) by auto
  with r show thesis by (rule that)
qed

theorem impulses_reach_total_witness:
  "\<exists>outs c nc a c' n'. counter_body (counter_io 0xFFFFFFF0 8) counter_sample (initLinks counter_links (source_new ())) = (c, nc, a)
     \<and> counter_scans [counter_io 3 9, counter_io 10 10] c nc = (outs, c', n')
     \<and> m_count (m_raw (str_total (stream_runs meter_sample objunit_new stream_sample (List.map fed_line outs)))) = 26"
proof -
  obtain c nc a where 1: "counter_body (counter_io 0xFFFFFFF0 8) counter_sample (initLinks counter_links (source_new ())) = (c, nc, a)"
    and e: "each_new (List.map (\<lambda>io. counter_reading io c) [counter_io 3 9, counter_io 10 10]) (cn_pullingCount c)"
    by (rule counter_sample_scan)
  obtain outs c' n' where r: "counter_scans [counter_io 3 9, counter_io 10 10] c nc = (outs, c', n')" by (rule prod_cases3)
  obtain g where rd: "counter_reading (counter_io 0xFFFFFFF0 8) counter_sample = Some (0xFFFFFFF0, 8, g)" using counter_io_reading by blast
  note f = counter_sample_facts
  have "m_count (m_raw (str_total (stream_runs meter_sample objunit_new stream_sample (List.map fed_line outs)))) = 26"
    using impulses_reach_total [OF f(1,2) counter_sample_node rd f(6) 1 e r f(3,4) fed_lines]
    by (simp add: counter_sample_counts f(5))
  with 1 r show ?thesis by blast
qed

theorem impulses_counted_twice_witness:
  "\<exists>outs c nc a c' n'. counter_body (counter_io 0xFFFFFFF0 8) counter_sample (initLinks counter_links (source_new ())) = (c, nc, a)
     \<and> counter_scans (twice [counter_io 3 9, counter_io 10 10]) c nc = (outs, c', n')
     \<and> m_count (m_raw (str_total (stream_runs meter_sample objunit_new stream_sample (List.map fed_line outs)))) = 52"
proof -
  obtain c nc a where 1: "counter_body (counter_io 0xFFFFFFF0 8) counter_sample (initLinks counter_links (source_new ())) = (c, nc, a)"
    and e: "each_new (List.map (\<lambda>io. counter_reading io c) [counter_io 3 9, counter_io 10 10]) (cn_pullingCount c)"
    by (rule counter_sample_scan)
  obtain outs c' n' where r: "counter_scans (twice [counter_io 3 9, counter_io 10 10]) c nc = (outs, c', n')" by (rule prod_cases3)
  obtain g where rd: "counter_reading (counter_io 0xFFFFFFF0 8) counter_sample = Some (0xFFFFFFF0, 8, g)" using counter_io_reading by blast
  note f = counter_sample_facts
  have "m_count (m_raw (str_total (stream_runs meter_sample objunit_new stream_sample (List.map fed_line outs)))) = 52"
    using impulses_counted_twice [OF f(1,2) counter_sample_node rd f(6) 1 e r f(3,4) fed_lines]
    by (simp add: counter_sample_counts f(5))
  with 1 r show ?thesis by blast
qed

end
