(* ===== verification/Averages.thy ===== *)
theory Averages
  imports Ports
begin

text \<open>
  The average of up to four inputs, \<^verbatim>\<open>rAverage\<close> of \<^verbatim>\<open>src/tritonn/data/average.cpp\<close>, and the user's
  variable, \<^verbatim>\<open>rRVar\<close> of \<^verbatim>\<open>src/tritonn/data_rvar.cpp\<close>. As in the other theories of data objects each
  \<open>_body\<close> is the part of \<^verbatim>\<open>calculate\<close> behind \<^verbatim>\<open>rSource::calculate\<close>; the inputs 0 to 3 of the
  average are the values, 4 to 7 their faults.
\<close>

section \<open>The average\<close>

definition AVR_COUNT :: nat where "AVR_COUNT = 4"
definition AVR_NOAVRFAULT :: UINT where "AVR_NOAVRFAULT = 0"
definition AVR_CHECKFAULT :: UINT where "AVR_CHECKFAULT = 1"
definition AVR_NOCHECKFAULT :: UINT where "AVR_NOCHECKFAULT = 2"

record rAverage =
  avr_count :: UINT
  avr_setup :: UINT

definition average_new :: rAverage where
  "average_new = \<lparr>avr_count = 0, avr_setup = AVR_NOAVRFAULT\<rparr>"

definition average_links :: "(UINT \<times> UDINT \<times> string \<times> string) list" where
  "average_links = [(LINK_OUTPUT, U_any, ''output'', ''''), (LINK_INPUT, U_any, ''input_1'', ''''),
     (LINK_INPUT, U_any, ''input_2'', ''''), (LINK_INPUT, U_any, ''input_3'', ''''), (LINK_INPUT, U_any, ''input_4'', ''''),
     (LINK_INPUT, U_DIMLESS, ''fault_1'', ''input_1''), (LINK_INPUT, U_DIMLESS, ''fault_2'', ''input_2''),
     (LINK_INPUT, U_DIMLESS, ''fault_3'', ''input_3''), (LINK_INPUT, U_DIMLESS, ''fault_4'', ''input_4'')]"

text \<open>A fault is any value but zero, a NaN included.\<close>

definition avr_faulty :: "'d node \<Rightarrow> nat \<Rightarrow> bool" where
  "avr_faulty n k \<longleftrightarrow> \<not> deq (in_value n (4 + k)) (Fin 0)"

text \<open>The loop over the inputs: whether it broke off with a fault, the sum and the count.\<close>

fun avr_loop :: "UINT \<Rightarrow> 'd node \<Rightarrow> nat list \<Rightarrow> lreal \<Rightarrow> nat \<Rightarrow> bool \<times> lreal \<times> nat" where
  "avr_loop st n [] v c = (False, v, c)"
| "avr_loop st n (k # ks) v c = (if avr_faulty n k \<and> st = AVR_CHECKFAULT then (True, v, c)
     else if avr_faulty n k \<and> st = AVR_NOAVRFAULT then avr_loop st n ks v c
     else avr_loop st n ks (v + in_value n k) (Suc c))"

definition average_body :: "rAverage \<Rightarrow> 'd node \<Rightarrow> 'd node \<times> cevent list" where
  "average_body s n = (case avr_loop (avr_setup s) n [0..<unat (avr_count s)] (Fin 0) 0 of (bad, v, c) \<Rightarrow>
     let n1 = (if bad then n\<lparr>n_fault := 1\<rparr> else n)
     in postCalculate (put 0 (if n_fault n1 \<noteq> 0 \<or> c = 0 then NaN else v / Fin (real c)) n1))"

text \<open>
  \<^verbatim>\<open>check\<close>: the units of the sources in use agree, and the output takes the unit. Asking an
  object for an output it does not have sends an event.
\<close>

definition DATACFGERR_AVERAGE_DIFFUNITS :: UDINT where "DATACFGERR_AVERAGE_DIFFUNITS = 215"

fun avr_units :: "nat \<Rightarrow> UDINT \<Rightarrow> nat list \<Rightarrow> 'd net \<Rightarrow> UDINT \<times> 'd net \<times> act list" where
  "avr_units i u [] ns = (TRITONN_RESULT_OK, ns, [])"
| "avr_units i u (k # ks) ns = (case link_getSourceUnit (n_inputs (ns ! i) ! k) ns of (u', ns1, a) \<Rightarrow>
     if u \<noteq> u' then (DATACFGERR_AVERAGE_DIFFUNITS, ns1, a)
     else case avr_units i u ks ns1 of (e, ns2, b) \<Rightarrow> (e, ns2, a @ b))"

definition set_out_unit :: "nat \<Rightarrow> UDINT \<Rightarrow> 'd node \<Rightarrow> 'd node" where
  "set_out_unit p u n = (case n_outputs n ! p of
     O_own l \<Rightarrow> n\<lparr>n_outputs := (n_outputs n)[p := O_own (l\<lparr>l_unit := u\<rparr>)]\<rparr>
   | O_in k \<Rightarrow> set_input k ((sl_link (n_inputs n ! k))\<lparr>l_unit := u\<rparr>) n)"

definition average_check :: "rAverage \<Rightarrow> nat \<Rightarrow> 'd net \<Rightarrow> UDINT \<times> 'd net \<times> act list" where
  "average_check s i ns = (case link_getSourceUnit (n_inputs (ns ! i) ! 0) ns of (u, ns1, a) \<Rightarrow>
     case avr_units i u [1..<unat (avr_count s)] ns1 of (e, ns2, b) \<Rightarrow>
       if e \<noteq> TRITONN_RESULT_OK then (e, ns2, a @ b)
       else (TRITONN_RESULT_OK, upd i (set_out_unit 0 u) ns2, a @ b))"

section \<open>The variable\<close>

definition RVAR_CONST :: UINT where "RVAR_CONST = 1"
definition RVAR_LINK :: UINT where "RVAR_LINK = 2"

record rRVar =
  rv_setup :: UINT

definition rvar_new :: rRVar where "rvar_new = \<lparr>rv_setup = 0\<rparr>"

definition rvar_links :: "(UINT \<times> UDINT \<times> string \<times> string) list" where
  "rvar_links = [(LINK_INOUTPUT OR LINK_NONAME OR LINK_WRITABLE, U_any, ''value'', '''')]"

definition rvar_body :: "'d node \<Rightarrow> 'd node \<times> cevent list" where
  "rvar_body n = postCalculate n"

text \<open>What the configuration makes of the link of a variable that is not linked.\<close>

definition rvar_default :: "rRVar \<Rightarrow> lreal \<Rightarrow> rLink \<Rightarrow> rLink" where
  "rvar_default s v l = (let l1 = l\<lparr>l_value := v\<rparr>;
     l2 = (if has (rv_setup s) RVAR_CONST then l1\<lparr>l_setup := l_setup l1 AND NOT LINK_WRITABLE\<rparr> else l1)
     in l2\<lparr>l_setup := l_setup l2 OR LINK_DISABLE\<rparr>)"

section \<open>What the average shows\<close>

lemma avr_loop_spec:
  "avr_loop st n ks v c = (bad, v', c') \<Longrightarrow>
     (bad \<longleftrightarrow> st = AVR_CHECKFAULT \<and> (\<exists>k\<in>set ks. avr_faulty n k)) \<and>
     (\<not> bad \<longrightarrow> (let gs = List.filter (\<lambda>k. \<not> (avr_faulty n k \<and> st = AVR_NOAVRFAULT)) ks in
       v' = foldl (+) v (List.map (in_value n) gs) \<and> c' = c + length gs))"
proof (induction ks arbitrary: v c)
  case (Cons k ks)
  have d: "AVR_CHECKFAULT \<noteq> AVR_NOAVRFAULT" by (simp add: AVR_CHECKFAULT_def AVR_NOAVRFAULT_def)
  show ?case
  proof (cases "avr_faulty n k \<and> (st = AVR_CHECKFAULT \<or> st = AVR_NOAVRFAULT)")
    case True
    then show ?thesis using Cons.prems Cons.IH [of v c] d by (auto simp: Let_def)
  next
    case False
    then show ?thesis using Cons.prems Cons.IH [of "v + in_value n k" "Suc c"] by (auto simp: Let_def)
  qed
qed simp

lemma average_shape: "shape_of (List.map fst average_links) 0 = (8, [None])"
  by (simp add: average_links_def has_def LINK_INPUT_def LINK_OUTPUT_def)

lemma rvar_shape: "shape_of (List.map fst rvar_links) 0 = (1, [Some 0])"
  by (simp add: rvar_links_def has_def LINK_INPUT_def LINK_OUTPUT_def LINK_INOUTPUT_def LINK_NONAME_def LINK_WRITABLE_def)

text \<open>
  The output in the mode that skips faulty inputs and in the one that reports them. A fault link that
  is not connected reads zero.
\<close>

lemma average_shows:
  assumes sh: "shape n = (8, [None])" and f: "n_fault n = 0" and r: "average_body s n = (n', out)"
  shows "out_v n' 0 = (let bad = avr_setup s = AVR_CHECKFAULT \<and> (\<exists>k<unat (avr_count s). avr_faulty n k);
      ks = List.filter (\<lambda>k. \<not> (avr_faulty n k \<and> avr_setup s = AVR_NOAVRFAULT)) [0..<unat (avr_count s)]
    in if bad \<or> ks = [] then NaN else foldl (+) (Fin 0) (List.map (in_value n) ks) / Fin (real (length ks)))"
    "n_fault n' \<noteq> 0 \<longleftrightarrow> avr_setup s = AVR_CHECKFAULT \<and> (\<exists>k<unat (avr_count s). avr_faulty n k)"
proof -
  obtain bad v c where l: "avr_loop (avr_setup s) n [0..<unat (avr_count s)] (Fin 0) 0 = (bad, v, c)" by (rule prod_cases3)
  note L = avr_loop_spec [OF l]
  have bad: "bad \<longleftrightarrow> avr_setup s = AVR_CHECKFAULT \<and> (\<exists>k<unat (avr_count s). avr_faulty n k)"
    using L by (auto simp: Bex_def)
  let ?n = "if bad then n\<lparr>n_fault := 1\<rparr> else n" and ?v = "if bad \<or> c = 0 then NaN else v / Fin (real c)"
  have n': "n' = fst (postCalculate (put 0 ?v ?n))"
    using r f by (auto simp: average_body_def l Let_def)
  have own: "own_output n 0" "length (n_outputs n) = 1"
    using shape_own [of 0 n] sh by (auto simp: shape_def)
  have own': "own_output ?n 0" "length (n_outputs ?n) = 1" using own by (simp_all add: own_output_def)
  have "out_v n' 0 = ?v" using own' out_v_put [of ?n 0 0 ?v] by (simp add: n')
  then show "out_v n' 0 = (let bad = avr_setup s = AVR_CHECKFAULT \<and> (\<exists>k<unat (avr_count s). avr_faulty n k);
      ks = List.filter (\<lambda>k. \<not> (avr_faulty n k \<and> avr_setup s = AVR_NOAVRFAULT)) [0..<unat (avr_count s)]
    in if bad \<or> ks = [] then NaN else foldl (+) (Fin 0) (List.map (in_value n) ks) / Fin (real (length ks)))"
    unfolding Let_def bad [symmetric] using L by (auto simp: Let_def)
  show "n_fault n' \<noteq> 0 \<longleftrightarrow> avr_setup s = AVR_CHECKFAULT \<and> (\<exists>k<unat (avr_count s). avr_faulty n k)"
    unfolding bad [symmetric] using f by (simp add: n')
qed

end
