(* ===== verification/Plant.thy ===== *)
theory Plant
  imports Metering Density Selector Averages
begin

text \<open>
  The data objects of a configuration together: which class an object is of, what its virtual
  \<^verbatim>\<open>calculate\<close> does behind \<^verbatim>\<open>rSource::calculate\<close>, and the scan of all of them. The classes of
  the other theories are shown to keep the contract \<open>bodies\<close>, so that the results about a scan
  hold for the program's own objects.
\<close>

section \<open>The objects\<close>

text \<open>
  The classes \<^verbatim>\<open>rDataManager\<close> makes, with their state. A line knows its station by its index, a
  densitometer its product.
\<close>

datatype payload =
    K_Counter rCounter
  | K_DI rDI
  | K_DO rDO
  | K_AI rAI
  | K_AO rAO
  | K_DensSol Product rDensSol
  | K_ReducedDens Product
  | K_VolWater rWater
  | K_MassWater rWater
  | K_DynVisc
  | K_KinVisc
  | K_Selector rSelector
  | K_Stream nat rStream
  | K_Station rStation
  | K_Average rAverage
  | K_RVar rRVar

type_synonym pnode = "payload node"

text \<open>
  What a scan takes from outside: the modules as the objects find them, the memory and the casts
  that C leaves open, the exponential.
\<close>

record plant_env =
  pe_net :: net_env
  pe_io :: io_manager
  pe_meter :: meter_env
  pe_exp :: "lreal \<Rightarrow> lreal"
  pe_u32 :: UDINT
  pe_u16 :: UINT
  pe_s32 :: DINT

definition line_of :: "payload \<Rightarrow> rStream option" where
  "line_of p = (case p of K_Stream st s \<Rightarrow> Some s | _ \<Rightarrow> None)"

definition unit_at :: "payload net \<Rightarrow> nat \<Rightarrow> rObjUnit" where
  "unit_at ns j = (if j < length ns then case n_data (ns ! j) of K_Station s \<Rightarrow> stn_unit s | _ \<Rightarrow> objunit_new else objunit_new)"

text \<open>
  The objects a class calculates by itself and the inputs whose values it overwrites: an output that
  is switched off writes zero over its own input.
\<close>

definition plant_cls :: "payload \<Rightarrow> nat list \<times> nat list" where
  "plant_cls p = (case p of K_Station s \<Rightarrow> (stn_stream s, []) | K_DO d \<Rightarrow> ([], [0]) | K_AO d \<Rightarrow> ([], [0]) | _ \<Rightarrow> ([], []))"

text \<open>The links of the constructors; those of a selector depend on its setup and are made later.\<close>

definition class_links :: "rObjUnit \<Rightarrow> payload \<Rightarrow> (UINT \<times> UDINT \<times> string \<times> string) list" where
  "class_links u p = (case p of K_Counter c \<Rightarrow> counter_links | K_DI d \<Rightarrow> di_links | K_DO d \<Rightarrow> do_links | K_AI d \<Rightarrow> ai_links
     | K_AO d \<Rightarrow> ao_links | K_DensSol pr s \<Rightarrow> denssol_links | K_ReducedDens pr \<Rightarrow> reduceddens_links | K_VolWater w \<Rightarrow> volwater_links
     | K_MassWater w \<Rightarrow> masswater_links | K_DynVisc \<Rightarrow> dynvisc_links | K_KinVisc \<Rightarrow> kinvisc_links | K_Selector s \<Rightarrow> []
     | K_Stream st s \<Rightarrow> stream_links | K_Station s \<Rightarrow> station_links u | K_Average s \<Rightarrow> average_links | K_RVar s \<Rightarrow> rvar_links)"

text \<open>An object has the links its constructor made. This holds of every object there is.\<close>

definition made :: "pnode \<Rightarrow> bool" where
  "made n = (case n_data n of K_Selector s \<Rightarrow> sel_shaped s n
     | p \<Rightarrow> shape n = shape_of (List.map fst (class_links objunit_new p)) 0)"

section \<open>The calculation of an object\<close>

text \<open>The classes that calculate no other object: new state, new object, events.\<close>

definition sent3 :: "'s \<Rightarrow> pnode \<times> cevent list \<Rightarrow> 's \<times> pnode \<times> act list" where
  "sent3 p r = (p, fst r, List.map Sent (snd r))"

definition alone :: "plant_env \<Rightarrow> payload net \<Rightarrow> pnode \<Rightarrow> payload \<times> pnode \<times> act list" where
  "alone pe ns n = (case n_data n of
     K_Counter s \<Rightarrow> (case counter_body (pe_io pe) s n of (s', r) \<Rightarrow> (K_Counter s', r))
   | K_DI s \<Rightarrow> (case di_body (pe_io pe) s n of (s', r) \<Rightarrow> (K_DI s', r))
   | K_DO s \<Rightarrow> (case do_body (pe_u32 pe) (pe_io pe) s n of (s', r) \<Rightarrow> (K_DO s', r))
   | K_AI s \<Rightarrow> (case ai_body (pe_io pe) s n of (s', r) \<Rightarrow> (K_AI s', r))
   | K_AO s \<Rightarrow> (case ao_body (pe_u16 pe) (pe_io pe) s n of (s', r) \<Rightarrow> (K_AO s', r))
   | K_DensSol pr s \<Rightarrow> (case denssol_body (pe_exp pe) pr s n of (s', r) \<Rightarrow> sent3 (K_DensSol pr s') r)
   | K_ReducedDens pr \<Rightarrow> sent3 (K_ReducedDens pr) (reduceddens_body (pe_exp pe) pr n)
   | K_VolWater s \<Rightarrow> (case volwater_body (pe_s32 pe) s n of None \<Rightarrow> (K_VolWater s, n, []) | Some (s', r) \<Rightarrow> sent3 (K_VolWater s') r)
   | K_MassWater s \<Rightarrow> (case masswater_body (pe_s32 pe) s n of None \<Rightarrow> (K_MassWater s, n, []) | Some (s', r) \<Rightarrow> sent3 (K_MassWater s') r)
   | K_DynVisc \<Rightarrow> sent3 K_DynVisc (dynvisc_body n)
   | K_KinVisc \<Rightarrow> sent3 K_KinVisc (kinvisc_body n)
   | K_Average s \<Rightarrow> sent3 (K_Average s) (average_body s n)
   | K_RVar s \<Rightarrow> sent3 (K_RVar s) (rvar_body n)
   | K_Stream st s \<Rightarrow> (case stream_body (pe_meter pe) (unit_at ns st) s n of (s', r) \<Rightarrow> (K_Stream st s', r))
   | p \<Rightarrow> (p, n, []))"

text \<open>
  The virtual \<^verbatim>\<open>calculate\<close> behind \<^verbatim>\<open>rSource::calculate\<close>. Nothing is said of an object no
  constructor made. A table of water read outside of its bounds is undefined in C; the object is
  left alone then.
\<close>

definition plant_body :: "plant_env \<Rightarrow> payload calc \<Rightarrow> payload calc" where
  "plant_body pe c i ns = (if \<not> made (ns ! i) then Some (ns, [])
     else case n_data (ns ! i) of
       K_Selector s \<Rightarrow> Some (selector_body K_Selector s i ns)
     | K_Station s \<Rightarrow> station_body line_of K_Station (pe_meter pe) (pe_net pe) c s i ns
     | _ \<Rightarrow> (case alone pe ns (ns ! i) of (p, n', a) \<Rightarrow> Some (upd i (\<lambda>_. n'\<lparr>n_data := p\<rparr>) ns, a)))"

definition plant_scan :: "plant_env \<Rightarrow> (nat \<Rightarrow> bool) \<Rightarrow> payload net \<Rightarrow> (payload net \<times> act list) option" where
  "plant_scan pe = scan (pe_net pe) (plant_body pe)"

section \<open>The classes that calculate no other object\<close>

text \<open>\<open>still\<close>: the inputs outside of \<open>W\<close> keep their values, all inputs their links.\<close>

definition still :: "nat set \<Rightarrow> 'd node \<Rightarrow> 'd node \<Rightarrow> act list \<Rightarrow> bool" where
  "still W n n' a \<longleftrightarrow> List.map static_link (n_inputs n') = List.map static_link (n_inputs n) \<and> n_alias n' = n_alias n
     \<and> n_isCalc n' = n_isCalc n \<and> (\<forall>k. k \<notin> W \<longrightarrow> in_value n' k = in_value n k) \<and> rans a = []"

lemma still_same: "n_inputs n' = n_inputs n \<Longrightarrow> n_alias n' = n_alias n \<Longrightarrow> n_isCalc n' = n_isCalc n \<Longrightarrow> rans a = [] \<Longrightarrow> still W n n' a"
  by (simp add: still_def in_value_def)

lemma still_trans: "still W n1 n2 b \<Longrightarrow> still W n n1 a \<Longrightarrow> still W n n2 (a @ b)"
  by (simp add: still_def)

lemma still_keeps:
  assumes "still (set (snd (plant_cls (n_data n)))) n n' a" "plant_cls p = plant_cls (n_data n)"
  shows "keeps_links plant_cls n (n'\<lparr>n_data := p\<rparr>) \<and> rans a = []"
  using assms by (auto simp: still_def keeps_links_def static_def active_def in_value_def)

lemma still_upd:
  "own_output n p \<Longrightarrow> still W n (put p v n) []" "\<forall>(p, v)\<in>set ps. own_output n p \<Longrightarrow> still W n (puts ps n) []"
  "still W n (n\<lparr>n_lockErr := l\<rparr>) []" "still W n (n\<lparr>n_fault := f\<rparr>) []" "still W n n []"
  "still W n (fst (postCalculate n)) []"
  by (auto intro!: still_same simp: puts_inputs)

lemma own_lists:
  "shape n = (k, os) \<Longrightarrow> own_output n p \<longleftrightarrow> p < length os \<and> os ! p = None \<or> \<not> p < length os \<and> own_output n p"
  using shape_own [of p n] by auto

lemma counter_still:
  assumes r: "counter_body io s n = (s', n', a)" and sh: "shape n = (0, [None, None, None])"
  shows "still {} n n' a"
proof -
  have o: "own_output n 0" "own_output n (Suc 0)" "own_output n 2" by (subst own_lists [OF sh], simp)+
  show ?thesis
    by (rule still_same)
      (use r o in \<open>auto simp: counter_body_def counter_clear_def counter_take_def posted_simps puts_inputs Let_def
        split: if_splits option.splits prod.splits\<close>)
qed

lemma mode_latch_still: "mode_latch b x y eid n = (n', a) \<Longrightarrow> still W n n' a \<and> own_output n' p = own_output n p"
  by (auto simp: mode_latch_def split: if_splits intro!: still_same)

lemma di_finish_still:
  assumes r: "di_finish s a n = (s', n', b)" and o: "own_output n 0" and a: "rans a = []"
  shows "still {} n n' b"
proof -
  obtain n1 a1 where 1: "mode_latch (dI_mode s = MODE_KEYPAD) DI_LE_KEYPAD_ON DI_LE_KEYPAD_OFF EID_DI_KEYPAD_ON n = (n1, a1)" by force
  obtain n2 a2 where 2: "mode_latch (dI_mode s = MODE_PHIS) DI_LE_KEYPAD_OFF DI_LE_KEYPAD_ON EID_DI_KEYPAD_OFF n1 = (n2, a2)" by force
  note L = mode_latch_still [OF 1] mode_latch_still [OF 2]
  have "still {} n n2 (a1 @ a2)" "own_output n2 0" using still_trans L o by blast+
  then show ?thesis using r a by (auto simp: di_finish_def 1 2 Let_def posted_simps still_def in_value_def)
qed

lemma di_still:
  assumes r: "di_body io s n = (s', n', a)" and sh: "shape n = (0, [None, None])"
  shows "still {} n n' a"
proof -
  have o: "own_output n 0" "own_output n (Suc 0)" by (subst own_lists [OF sh], simp)+
  have fin: "still {} n n2 a2" if "di_finish s2 a1 n1 = (s3, n2, a2)" "n_inputs n1 = n_inputs n" "n_alias n1 = n_alias n"
    "n_isCalc n1 = n_isCalc n" "rans a1 = []" "own_output n1 0" for s2 a1 n1 s3 n2 a2
    using di_finish_still [OF that(1,6,5)] that by (simp add: still_def in_value_def)
  show ?thesis using r o
    by (auto simp: di_body_def Let_def puts_inputs intro: still_same elim!: fin split: if_splits option.splits prod.splits)
qed

lemma do_finish_still:
  assumes r: "do_finish s a n = (s', n', b)" and a: "rans a = []"
  shows "still W n n' b"
proof -
  obtain n1 a1 where 1: "mode_latch (dO_mode s = MODE_KEYPAD) DO_LE_KEYPAD_ON DO_LE_KEYPAD_OFF EID_DO_KEYPAD_ON n = (n1, a1)" by force
  obtain n2 a2 where 2: "mode_latch (dO_mode s = MODE_PHIS) DO_LE_KEYPAD_OFF DO_LE_KEYPAD_ON EID_DO_KEYPAD_OFF n1 = (n2, a2)" by force
  have "still W n n2 (a1 @ a2)" using still_trans mode_latch_still [OF 1] mode_latch_still [OF 2] by blast
  then show ?thesis using r a by (auto simp: do_finish_def 1 2 Let_def posted_simps still_def in_value_def)
qed

lemma set_value_still: "still {k} n (set_input k ((sl_link (n_inputs n ! k))\<lparr>l_value := v\<rparr>) n) []"
proof (cases "k < length (n_inputs n)")
  case True
  have "List.map static_link (n_inputs (set_input k ((sl_link (n_inputs n ! k))\<lparr>l_value := v\<rparr>) n)) = List.map static_link (n_inputs n)"
    by (rule nth_equalityI) (use True in \<open>auto simp: set_input_def nth_list_update_if static_link_def\<close>)
  then show ?thesis by (simp add: still_def in_value_def)
qed (simp add: set_input_def list_update_beyond still_same)

lemma do_still:
  assumes r: "do_body ub io s n = (s', n', a)" and sh: "shape n = (1, [Some 0])"
  shows "still {0} n n' a"
proof -
  have "n_outputs n ! 0 = O_in 0" using sh by (cases "n_outputs n") (auto simp: shape_def split: outref.splits)
  then have p: "still {0} n (put 0 (Fin 0) n) []" using set_value_still [of 0 n "Fin 0"] by (simp add: put_def)
  show ?thesis using r p
    by (auto simp: do_body_def Let_def intro: still_same elim!: do_finish_still split: if_splits option.splits prod.splits)
qed

lemma ao_still: "ao_body ub io s n = (s', n', a) \<Longrightarrow> still {0} n n' a"
  by (auto simp: ao_body_def Let_def posted_simps intro: still_same set_value_still split: if_splits option.splits prod.splits)

lemma ai_finish_still:
  assumes r: "ai_finish old s a n = (s', n', b)" and sh: "own3 n" and a: "rans a = []"
  shows "still {} n n' b"
proof -
  obtain n1 a1 where 1: "ai_latches s n = (n1, a1)" by force
  have S: "still {} n n1 a1"
    using 1 unfolding ai_latches_def by (auto split: prod.splits dest!: mode_latch_still intro!: still_trans)
  have "own3 n1" using ai_latches_calm [OF 1 sh] by blast
  then have o: "own_output n1 0" by (rule own3_own) simp
  obtain s1 a2 where 2: "ai_bounds old s (put 0 (ai_present s n1) n1) = (s1, a2)" by force
  show ?thesis using r S o a ai_bounds_keeps [OF 2] by (auto simp: ai_finish_def Let_def 1 2 posted_simps still_def in_value_def)
qed

lemma ai_still:
  assumes r: "ai_body io s n = (s', n', a)" and sh: "shape n = (0, [None, None, None])"
  shows "still {} n n' a"
proof -
  have o3: "own3 n" using sh by (simp add: own3_def)
  have o: "own_output n 0" "own_output n (Suc 0)" "own_output n 2" by (subst own_lists [OF sh], simp)+
  have fin: "still {} n n2 a2" if "ai_finish old s2 a1 n1 = (s3, n2, a2)" "n_inputs n1 = n_inputs n" "n_alias n1 = n_alias n"
    "n_isCalc n1 = n_isCalc n" "rans a1 = []" "own3 n1" for old s2 a1 n1 s3 n2 a2
    using ai_finish_still [OF that(1,6,5)] that by (simp add: still_def in_value_def)
  have code: "n_inputs n1 = n_inputs m \<and> n_alias n1 = n_alias m \<and> n_isCalc n1 = n_isCalc m \<and> rans a1 = [] \<and> own3 n1"
    if "ai_code_state st s1 m = (s2, n1, a1)" "own3 m" for st s1 m s2 n1 a1
    using that own3_own(1) [OF that(2), of 0] by (auto simp: ai_code_state_def Let_def split: if_splits prod.splits)
  show ?thesis using r o o3
    by (auto simp: ai_body_def Let_def puts_inputs intro: still_same elim!: fin dest!: code split: if_splits option.splits prod.splits)
qed

lemma shape_own_at: "shape n = (k, os) \<Longrightarrow> \<forall>p\<in>set ps. p < length os \<and> os ! p = None \<Longrightarrow> \<forall>p\<in>set ps. own_output n p"
  using shape_own [of _ n] by auto

lemma post_fields: "postCalculate m = (m', out) \<Longrightarrow> n_inputs m' = n_inputs m \<and> n_alias m' = n_alias m \<and> n_isCalc m' = n_isCalc m"
  using postCalculate_keeps [of m] by auto

text \<open>An object with the same links and the same identity.\<close>

definition same_links :: "'d node \<Rightarrow> 'd node \<Rightarrow> bool" where
  "same_links n n' \<longleftrightarrow> n_inputs n' = n_inputs n \<and> n_alias n' = n_alias n \<and> n_isCalc n' = n_isCalc n"

lemma same_links_upd [simp]:
  "same_links n (m\<lparr>n_lockErr := l\<rparr>) = same_links n m" "same_links n (m\<lparr>n_fault := f\<rparr>) = same_links n m"
  by (simp_all add: same_links_def)

lemma same_links_trans: "same_links n n1 \<Longrightarrow> same_links n1 n2 \<Longrightarrow> same_links n n2"
  by (simp add: same_links_def)

lemma dens_puts_links:
  assumes "shaped denssol_links n"
  shows "same_links n (put 0 v n)" "same_links n (put 4 v n)" "same_links n (dens_store w n)" "same_links n (snd (dens_setFault s n))"
proof -
  note own = denssol_own [OF assms]
  have "\<forall>(p, v)\<in>set [(3, v_dens15 w), (5, v_b w), (6, v_b15 w), (7, v_y w), (8, v_y15 w), (9, v_ctl w), (10, v_cpl w)]. own_output n p"
    using own by simp
  from puts_inputs [OF this] show "same_links n (dens_store w n)" by (simp add: same_links_def dens_store_def del: puts_simps)
  have "\<forall>(p, v)\<in>set [(0, NaN), (3, NaN), (4, NaN), (5, NaN), (7, NaN), (9, NaN), (10, NaN), (6, NaN), (8, NaN)]. own_output n p"
    using own by simp
  from puts_inputs [OF this] show "same_links n (snd (dens_setFault s n))" by (simp add: same_links_def dens_setFault_def del: puts_simps)
  show "same_links n (put 0 v n)" "same_links n (put 4 v n)" using own by (simp_all add: same_links_def)
qed

lemma dens_setFault_links: "dens_setFault s n = (s', n') \<Longrightarrow> shaped denssol_links n \<Longrightarrow> same_links n n'"
  using dens_puts_links(4) [of n s] by simp

lemma dens_finish_links:
  assumes r: "dens_finish ex pr n = (n', out)" and sh: "shaped denssol_links n"
  shows "same_links n n'"
proof -
  let ?u = "l_unit (out_link n (n_outputs n ! 3))" and ?d = "out_v n 3"
  obtain bad le o1 where c: "checkExpr (\<not> limit_ok pr ?d) DENSSOL_LE_VALUE
      (ev_adds (nevent n EID_DENSSOL_FAULT_VALUE) [P_LREAL ?d, P_STRID ?u])
      (ev_adds (nevent n EID_DENSSOL_GOOD_VALUE) [P_LREAL ?d, P_STRID ?u]) (n_lockErr n) = (bad, le, o1)"
    by (rule prod_cases3)
  let ?n0 = "n\<lparr>n_lockErr := le, n_fault := (if bad \<noteq> 0 then 1 else n_fault n)\<rparr>"
  have n': "n' = fst (postCalculate (put 4 (getDens20 ex ?d (out_v n 6)) ?n0))"
    using r by (auto simp: dens_finish_def Let_def c split: prod.splits)
  show ?thesis using dens_puts_links(2) [of ?n0] sh by (simp add: n' same_links_def)
qed

lemma denssol_calc_links:
  assumes r: "denssol_calc ex pr s n = (s', n', out)" and sh: "shaped denssol_links n"
  shows "same_links n n'"
proof -
  let ?t = "in_value n 0" and ?p = "in_value n 1"
  let ?d = "denssol_density s ?t ?p (in_value n 2)"
  let ?n1 = "put 0 ?d n" and ?oil = "getTypeProduct ?d pr"
  obtain res o5 where 5: "dens_outer ex pr ?n1 ?d ?t ?p 3 20 ?oil (n_lockErr n) (dens_load ?n1) ?oil = (res, o5)" by force
  let ?n2 = "(dens_store (r_vars res) ?n1)\<lparr>n_lockErr := r_lockErr res\<rparr>"
  have sh1: "shaped denssol_links ?n1" using sh by simp
  have sh2: "shaped denssol_links ?n2" using dens_store_spec(3) [OF sh1] by simp
  have "same_links ?n1 ?n2" using dens_puts_links(3) [OF sh1] by simp
  then have l: "same_links n ?n2" by (rule same_links_trans [OF dens_puts_links(1) [OF sh]])
  have "same_links ?n2 n'"
    using r dens_setFault_links [OF _ sh2] dens_finish_links [OF _ sh2]
    by (auto simp only: denssol_calc_def Let_def 5 case_prod_conv prod.inject snd_conv split: if_splits prod.splits)
  then show ?thesis by (rule same_links_trans [OF l])
qed

lemma denssol_still:
  assumes r: "denssol_body ex pr s n = (s', n', out)" and sh: "shaped denssol_links n"
  shows "still {} n n' (List.map Sent out)"
proof -
  obtain s1 o1 where 1: "denssol_compare n s = (s1, o1)" by force
  obtain s2 o2 where 2: "denssol_accept n s1 = (s2, o2)" by force
  obtain x3 le1 o3 where 3: "checkExpr False DENSSOL_LE_INPUTS (nevent n EID_DENSSOL_FAULT_INPUTS)
             (nevent n EID_DENSSOL_GOOD_INPUTS) (n_lockErr n) = (x3, le1, o3)" by (rule prod_cases3)
  obtain bad le2 o4 where 4: "checkExpr (in_value n 2 < Fin 1) DENSSOL_LE_PERIOD (nevent n EID_DENSSOL_FAULT_PERIOD)
             (nevent n EID_DENSSOL_GOOD_PERIOD) le1 = (bad, le2, o4)" by (rule prod_cases3)
  let ?n = "n\<lparr>n_lockErr := le2\<rparr>"
  have shn: "shaped denssol_links ?n" using sh by simp
  have "same_links ?n n'"
    using r [unfolded denssol_body_def 1 2 3 4 case_prod_conv] dens_setFault_links [OF _ shn] denssol_calc_links [OF _ shn]
    by (auto simp only: case_prod_conv prod.inject snd_conv split: if_splits prod.splits)
  then show ?thesis by (intro still_same) (simp_all add: same_links_def)
qed

lemma reduceddens_still:
  assumes r: "reduceddens_body ex pr n = (n', out)" and sh: "shape n = (4, [Some 0, Some 1, Some 2, Some 3, None, None, None, None, None, None, None])"
  shows "still {} n n' (List.map Sent out)"
proof -
  have o: "\<forall>p\<in>set [4, 5, 6, 7, 8, 9, 10]. own_output n p" by (rule shape_own_at [OF sh]) simp
  show ?thesis using r o
    by (auto simp: reduceddens_body_def puts_inputs Let_def intro!: still_same dest!: post_fields split: prod.splits)
qed

lemma first_still:
  assumes "own_output n 0" "postCalculate (put 0 v n) = (n', out)"
  shows "still {} n n' (List.map Sent out)"
  using assms postCalculate_keeps [of "put 0 v n"] by (intro still_same) simp_all

lemma water_still:
  assumes "own_output n 0"
  shows "volwater_body ub s n = Some (s', n', out) \<Longrightarrow> still {} n n' (List.map Sent out)"
    "masswater_body ub s n = Some (s', n', out) \<Longrightarrow> still {} n n' (List.map Sent out)"
  using first_still [OF assms] by (auto simp: volwater_body_def masswater_body_def split: option.splits prod.splits)

lemma visc_still:
  assumes "own_output n 0"
  shows "dynvisc_body n = (n', out) \<Longrightarrow> still {} n n' (List.map Sent out)"
    "kinvisc_body n = (n', out) \<Longrightarrow> still {} n n' (List.map Sent out)"
  using first_still [OF assms] by (simp_all add: dynvisc_body_def kinvisc_body_def)

lemma average_still:
  assumes "own_output n 0" "average_body s n = (n', out)"
  shows "still {} n n' (List.map Sent out)"
proof -
  obtain bad v c where l: "avr_loop (avr_setup s) n [0..<unat (avr_count s)] (Fin 0) 0 = (bad, v, c)" by (rule prod_cases3)
  define m where "m = (if bad then n\<lparr>n_fault := 1\<rparr> else n)"
  have n': "n' = fst (postCalculate (put 0 (if n_fault m \<noteq> 0 \<or> c = 0 then NaN else v / Fin (real c)) m))"
    using assms(2) unfolding average_body_def l case_prod_conv Let_def m_def by (metis fst_conv)
  have "own_output m 0" using assms(1) by (simp add: own_output_def m_def)
  then have "n_inputs n' = n_inputs m" "n_alias n' = n_alias m" "n_isCalc n' = n_isCalc m" unfolding n' by simp_all
  then show ?thesis by (intro still_same) (simp_all add: m_def)
qed

lemma stream_still:
  assumes r: "stream_body me u s n = (s', n', a)" and o: "\<forall>p\<in>set [7, 8, 9, 10]. own_output n p"
  shows "still {} n n' a"
proof -
  have flows: "n_inputs (stream_flows t m) = n_inputs m \<and> n_alias (stream_flows t m) = n_alias m \<and> n_isCalc (stream_flows t m) = n_isCalc m"
    if "\<forall>p\<in>set [7, 8, 9, 10]. own_output m p" for t m
    using that by (auto simp: stream_flows_def Let_def puts_inputs)
  have own: "n_outputs m = n_outputs n \<Longrightarrow> \<forall>p\<in>set [7, 8, 9, 10]. own_output m p" for m
    using o own_output_cong [of m n] by blast
  show ?thesis using r
    by (auto simp: stream_body_def posted_simps flows own intro!: still_same dest!: stream_latches_keeps split: prod.splits)
qed

section \<open>The contract of the classes\<close>

lemma made_shape:
  "made n \<Longrightarrow> n_data n = p \<Longrightarrow> (\<forall>s. p \<noteq> K_Selector s) \<Longrightarrow> shape n = shape_of (List.map fst (class_links objunit_new p)) 0"
  by (cases p) (simp_all add: made_def)

lemma class_shapes:
  "shape_of (List.map fst counter_links) 0 = (0, [None, None, None])" "shape_of (List.map fst di_links) 0 = (0, [None, None])"
  "shape_of (List.map fst do_links) 0 = (1, [Some 0])" "shape_of (List.map fst ai_links) 0 = (0, [None, None, None])"
  "shape_of (List.map fst reduceddens_links) 0 = (4, [Some 0, Some 1, Some 2, Some 3, None, None, None, None, None, None, None])"
  "shape_of (List.map fst volwater_links) 0 = (3, [None])" "shape_of (List.map fst masswater_links) 0 = (3, [None])"
  "shape_of (List.map fst dynvisc_links) 0 = (2, [None])" "shape_of (List.map fst kinvisc_links) 0 = (2, [None])"
  "shape_of (List.map fst stream_links) 0 = (9, [Some 2, Some 3, Some 4, Some 5, Some 6, Some 7, Some 8, None, None, None, None])"
  by (simp_all add: counter_links_def di_links_def do_links_def ai_links_def reduceddens_links_def volwater_links_def
      masswater_links_def dynvisc_links_def kinvisc_links_def stream_links_def has_def LINK_INPUT_def LINK_OUTPUT_def
      LINK_INOUTPUT_def LINK_MUSTVIRT_def LINK_WRITABLE_def)

lemma alone_still:
  assumes m: "made n" and r: "alone pe ns n = (p, n', a)" and one: "\<forall>s. n_data n \<noteq> K_Selector s" "\<forall>s. n_data n \<noteq> K_Station s"
  shows "still (set (snd (plant_cls (n_data n)))) n n' a \<and> plant_cls p = plant_cls (n_data n)"
proof (cases "n_data n")
  note sh = made_shape [OF m]
  have own: "shape n = (k, None # os) \<Longrightarrow> own_output n 0" for k os using shape_own_at [of n k "None # os" "[0]"] by simp
  {
    case (K_Counter x) then show ?thesis using r sh [OF K_Counter] counter_still
      by (auto simp: alone_def plant_cls_def class_links_def class_shapes split: prod.splits)
  next
    case (K_DI x) then show ?thesis using r sh [OF K_DI] di_still
      by (auto simp: alone_def plant_cls_def class_links_def class_shapes split: prod.splits)
  next
    case (K_DO x) then show ?thesis using r sh [OF K_DO] do_still
      by (auto simp: alone_def plant_cls_def class_links_def class_shapes split: prod.splits)
  next
    case (K_AI x) then show ?thesis using r sh [OF K_AI] ai_still
      by (auto simp: alone_def plant_cls_def class_links_def class_shapes split: prod.splits)
  next
    case (K_AO x) then show ?thesis using r ao_still
      by (auto simp: alone_def plant_cls_def split: prod.splits)
  next
    case (K_DensSol pr x) then show ?thesis using r sh [OF K_DensSol] denssol_still
      by (auto simp: alone_def plant_cls_def class_links_def shaped_def sent3_def split: prod.splits)
  next
    case (K_ReducedDens pr)
    have s: "shape n = (4, [Some 0, Some 1, Some 2, Some 3, None, None, None, None, None, None, None])"
      using sh [OF K_ReducedDens] by (simp add: class_links_def class_shapes)
    obtain m e where b: "reduceddens_body (pe_exp pe) pr n = (m, e)" by force
    show ?thesis using r reduceddens_still [OF b s] by (auto simp: alone_def K_ReducedDens plant_cls_def sent3_def b)
  next
    case (K_VolWater x)
    have s: "own_output n 0" using own sh [OF K_VolWater] by (simp add: class_links_def class_shapes)
    have c: "plant_cls (n_data n) = ([], [])" by (simp add: K_VolWater plant_cls_def)
    show ?thesis unfolding c using r water_still(1) [OF s, of "pe_s32 pe" x] still_upd(5)
      by (cases "volwater_body (pe_s32 pe) x n") (auto simp: alone_def K_VolWater plant_cls_def sent3_def)
  next
    case (K_MassWater x)
    have s: "own_output n 0" using own sh [OF K_MassWater] by (simp add: class_links_def class_shapes)
    have c: "plant_cls (n_data n) = ([], [])" by (simp add: K_MassWater plant_cls_def)
    show ?thesis unfolding c using r water_still(2) [OF s, of "pe_s32 pe" x] still_upd(5)
      by (cases "masswater_body (pe_s32 pe) x n") (auto simp: alone_def K_MassWater plant_cls_def sent3_def)
  next
    case K_DynVisc
    have s: "own_output n 0" using own sh [OF K_DynVisc] by (simp add: class_links_def class_shapes)
    obtain m e where b: "dynvisc_body n = (m, e)" by force
    show ?thesis using r visc_still(1) [OF s b] by (auto simp: alone_def K_DynVisc plant_cls_def sent3_def b)
  next
    case K_KinVisc
    have s: "own_output n 0" using own sh [OF K_KinVisc] by (simp add: class_links_def class_shapes)
    obtain m e where b: "kinvisc_body n = (m, e)" by force
    show ?thesis using r visc_still(2) [OF s b] by (auto simp: alone_def K_KinVisc plant_cls_def sent3_def b)
  next
    case (K_Average x)
    have s: "own_output n 0" using own sh [OF K_Average] by (simp add: class_links_def average_shape)
    obtain m e where b: "average_body x n = (m, e)" by force
    show ?thesis using r average_still [OF s b] by (auto simp: alone_def K_Average plant_cls_def sent3_def b)
  next
    case (K_RVar x)
    have "still {} n (fst (postCalculate n)) (List.map Sent e)" for e by (rule still_same) simp_all
    then show ?thesis using r by (auto simp: alone_def K_RVar plant_cls_def sent3_def rvar_body_def)
  next
    case (K_Stream st x)
    then have s: "shape n = (9, [Some 2, Some 3, Some 4, Some 5, Some 6, Some 7, Some 8, None, None, None, None])"
      using sh [OF K_Stream] by (simp add: class_links_def class_shapes)
    have "\<forall>p\<in>set [7, 8, 9, 10]. own_output n p" by (rule shape_own_at [OF s]) simp
    note S = stream_still [OF _ this]
    show ?thesis using r by (auto simp: alone_def K_Stream plant_cls_def split: prod.splits elim!: S)
  }
qed (use one in auto)

text \<open>A station ends when the lines it asks for do.\<close>

lemma station_sum_ends:
  assumes g: "good cls c" and e: "ends cls m c"
  shows "at_station cls ns i \<Longrightarrow> set js \<subseteq> J \<Longrightarrow> \<forall>j\<in>J. j < length ns \<Longrightarrow> uncalc ns < m \<Longrightarrow> station_sum line c i js t ns \<noteq> None"
proof (induction js arbitrary: t ns)
  case (Cons j js)
  have j: "j \<in> J" "j < length ns" using Cons.prems(2,3) by auto
  have "net_wf cls ns" using Cons.prems(1) by (simp add: at_station_def)
  then obtain ns1 a1 where 1: "c j ns = Some (ns1, a1)" using e j(2) Cons.prems(4) unfolding ends_def by fastforce
  have d1: "does cls c i J ns ns1 a1" by (rule does_call_one [of j J c ns ns1 a1 cls i]) (use j 1 in auto)
  note A1 = at_station_does [OF d1 g Cons.prems(1,3)]
  have J1: "\<forall>j\<in>J. j < length ns1" using Cons.prems(3) A1(2) by simp
  have u1: "uncalc ns1 < m" using frame_uncalc [OF A1(3)] Cons.prems(4) by simp
  have sh: "shape (ns1 ! i) = station_shape" "i < length ns1" using A1(1) by (simp_all add: at_station_def)
  have dU: "does cls c i J ns1 (upd i (add_flows (ns1 ! j)) ns1) []" using add_flows_keeps [OF sh(1)] does_upd sh(2) by blast
  note A2 = at_station_does [OF dU g A1(1) J1]
  have "\<exists>r. station_sum line c i js t' (upd i (add_flows (ns1 ! j)) ns1) = Some r" "\<exists>r. station_sum line c i js t' ns1 = Some r" for t'
    using Cons.IH [OF A2(1)] Cons.IH [OF A1(1)] Cons.prems(2) J1 u1 frame_uncalc [OF A2(3)] by auto
  then have "\<exists>r. (case in_service line (ns1 ! j) of None \<Rightarrow> station_sum line c i js t ns1
     | Some s \<Rightarrow> station_sum line c i js (base_add t (m_inc (str_total s))) (upd i (add_flows (ns1 ! j)) ns1)) = Some r"
    by (cases "in_service line (ns1 ! j)") simp_all
  then show ?case by (auto simp: 1)
qed simp

lemma mean_add_ends:
  assumes e: "ends cls m c" and A: "at_station cls ns i" and J: "\<forall>j\<in>J. j < length ns" "j \<in> J" and u: "uncalc ns < m"
  shows "mean_add ne c i j mm ns \<noteq> None"
proof -
  have w: "net_wf cls ns" "j < length ns" using A J by (auto simp: at_station_def)
  obtain p name on where mm: "mm = (p, name, on)" by (rule prod_cases3)
  obtain v err ns1 b where "source_getValue ne c j name (out_unit (ns ! i) p) ns = Some (v, err, ns1, b)"
    using getValue_ends [OF e w u, of ne name "out_unit (ns ! i) p"] by auto
  then show ?thesis by (simp add: mean_add_def mm)
qed

lemma means_add_ends:
  assumes g: "good cls c" and e: "ends cls m c" and j: "j \<in> J"
  shows "at_station cls ns i \<Longrightarrow> \<forall>j\<in>J. j < length ns \<Longrightarrow> uncalc ns < m \<Longrightarrow> free_params cls (ns ! i) ms
    \<Longrightarrow> means_add ne c i j ms ns \<noteq> None"
proof (induction ms arbitrary: ns)
  case (Cons mm ms)
  obtain ns1 a1 where 1: "mean_add ne c i j mm ns = Some (ns1, a1)"
    using mean_add_ends [OF e Cons.prems(1,2) j Cons.prems(3)] by fastforce
  have fm: "free_params cls (ns ! i) [mm]" "free_params cls (ns ! i) ms" using Cons.prems(4) by (auto simp: free_params_def)
  have i: "i < length ns" using Cons.prems(1) by (simp add: at_station_def)
  note D = conjunct1 [OF mean_add_does [OF g Cons.prems(1,2) j fm(1) 1]]
  note A1 = at_station_does [OF D g Cons.prems(1,2)]
  have "means_add ne c i j ms ns1 \<noteq> None"
    by (rule Cons.IH [OF A1(1)])
      (use A1 Cons.prems fm free_params_static [OF frame_static [OF A1(3) i]] frame_uncalc [OF A1(3)] in auto)
  then show ?case by (auto simp: 1)
qed simp

lemma station_means_ends:
  assumes g: "good cls c" and e: "ends cls m c"
  shows "at_station cls ns i \<Longrightarrow> set js \<subseteq> J \<Longrightarrow> \<forall>j\<in>J. j < length ns \<Longrightarrow> uncalc ns < m \<Longrightarrow> free_params cls (ns ! i) ms
    \<Longrightarrow> station_means line ne c i ms js ns \<noteq> None"
proof (induction js arbitrary: ns)
  case (Cons j js)
  have j: "j \<in> J" "set js \<subseteq> J" using Cons.prems(2) by auto
  obtain ns1 a1 where 1: "(if in_service line (ns ! j) = None then Some (ns, []) else means_add ne c i j ms ns) = Some (ns1, a1)"
    using means_add_ends [OF g e j(1) Cons.prems(1,3,4,5)] by fastforce
  have D: "does cls c i J ns ns1 a1"
    using 1 means_add_does [OF g j(1) Cons.prems(1,3,5)] by (auto simp: does_nothing split: if_splits)
  note A1 = at_station_does [OF D g Cons.prems(1,3)]
  have i: "i < length ns" using Cons.prems(1) by (simp add: at_station_def)
  have "station_means line ne c i ms js ns1 \<noteq> None"
    by (rule Cons.IH [OF A1(1) j(2)])
      (use A1 Cons.prems free_params_static [OF frame_static [OF A1(3) i]] frame_uncalc [OF A1(3)] in auto)
  with 1 show ?case by auto
qed simp

lemma station_body_ends:
  assumes g: "good cls c" and e: "ends cls m c" and A: "at_station cls ns i" and u: "uncalc ns < m"
    and J: "\<forall>j\<in>set (stn_stream s). j < length ns"
  shows "station_body line wrap me ne c s i ns \<noteq> None"
proof -
  let ?js = "stn_stream s"
  obtain t ev where te: "(if stn_resetTotals s \<noteq> 0 then (total_reset (stn_total s), [nevent (ns ! i) EID_STATION_RESET_TOTALS])
                    else (stn_total s, [])) = (t, ev)" by force
  let ?ns0 = "upd i zero_flows ns"
  have d0: "does cls c i (set ?js) ns ?ns0 []" by (rule zero_flows_does [OF A]) simp
  note A0 = at_station_does [OF d0 g A J]
  have J0: "\<forall>j\<in>set ?js. j < length ?ns0" using J by simp
  have u0: "uncalc ?ns0 < m" using frame_uncalc [OF A0(3)] u by simp
  obtain inc ns1 a1 where 1: "station_sum line c i ?js total_clear_base ?ns0 = Some (inc, ns1, a1)"
    using station_sum_ends [OF g e A0(1) order_refl J0 u0] by fastforce
  note S = conjunct1 [OF station_sum_does [OF g J0 A0(1) order_refl J0 1]]
  note A1 = at_station_does [OF S g A0(1) J0]
  have J1: "\<forall>j\<in>set ?js. j < length ns1" using J0 A1(2) by simp
  let ?ms = "station_params (ns1 ! i)"
  let ?ns2 = "upd i (zero_params ?ms) ns1"
  note Z = zero_params_does [OF A1(1) refl]
  note A2 = at_station_does [OF Z(1) g A1(1) J1]
  have J2: "\<forall>j\<in>set ?js. j < length ?ns2" using J1 by simp
  have u2: "uncalc ?ns2 < m" using frame_uncalc [OF A2(3)] frame_uncalc [OF A1(3)] u0 by simp
  obtain ns3 a2 where 2: "station_means line ne c i ?ms ?js ?ns2 = Some (ns3, a2)"
    using station_means_ends [OF g e A2(1) order_refl J2 u2 Z(2)] by fastforce
  obtain t1 e1 where "total_of me (stn_unit s) (t\<lparr>m_inc := inc\<rparr>) = (t1, e1)" by force
  then show ?thesis by (simp add: station_body_def te Let_def 1 2)
qed

section \<open>The scan of the plant\<close>

lemma made_station: "made n \<Longrightarrow> n_data n = K_Station s \<Longrightarrow> shape n = station_shape"
  using made_shape [of n "K_Station s"] station_shape_links [of objunit_new] by (simp add: class_links_def)

lemma plant_body_cases:
  assumes r: "plant_body pe c i ns = Some (ns', a)" and i: "i < length ns"
  obtains (quiet) "quiet plant_cls i ns ns'" "rans a = []"
  | (station) s where "n_data (ns ! i) = K_Station s" "shape (ns ! i) = station_shape"
      "station_body line_of K_Station (pe_meter pe) (pe_net pe) c s i ns = Some (ns', a)"
proof (cases "made (ns ! i)")
  case False
  then show thesis using r quiet by (simp add: plant_body_def)
next
  case m: True
  show thesis
  proof (cases "\<exists>s. n_data (ns ! i) = K_Station s")
    case True
    then obtain s where s: "n_data (ns ! i) = K_Station s" by blast
    show thesis using station [OF s made_station [OF m s]] r m by (simp add: plant_body_def s)
  next
    case ns: False
    show thesis
    proof (cases "\<exists>s. n_data (ns ! i) = K_Selector s")
      case True
      then obtain s where s: "n_data (ns ! i) = K_Selector s" by blast
      have r': "selector_body K_Selector s i ns = (ns', a)" using r m by (simp add: plant_body_def s)
      show thesis
      proof (cases "has (Value (sel_setup s)) SEL_OFF")
        case True
        then show thesis using r' quiet by (simp add: selector_body_def)
      next
        case on: False
        have sh: "sel_shaped s (ns ! i)" using m by (simp add: made_def s)
        show thesis
          by (rule selector_body_spec [OF r' on i sh]) (use quiet in \<open>simp add: plant_cls_def s\<close>)
      qed
    next
      case False
      obtain p n' b where al: "alone pe ns (ns ! i) = (p, n', b)" by (rule prod_cases3)
      have e: "ns' = upd i (\<lambda>_. n'\<lparr>n_data := p\<rparr>) ns" "a = b"
        using r m False ns by (auto simp: plant_body_def al split: payload.splits)
      have k: "keeps_links plant_cls (ns ! i) (n'\<lparr>n_data := p\<rparr>) \<and> rans b = []"
        by (rule still_keeps) (use alone_still [OF m al] False ns in auto)
      show thesis by (rule quiet) (use k quiet_upd [where f = "\<lambda>_. n'\<lparr>n_data := p\<rparr>", OF _ i] e in auto)
    qed
  qed
qed

text \<open>Every class keeps the contract, so the results of the locale hold of the program's objects.\<close>

lemma station_at:
  assumes "net_wf plant_cls ns" "i < length ns" "n_isCalc (ns ! i)" "n_data (ns ! i) = K_Station s" "shape (ns ! i) = station_shape"
  shows "at_station plant_cls ns i" "\<forall>j\<in>set (stn_stream s). j < length ns"
  using assms by (auto simp: at_station_def net_wf_def plant_cls_def)

lemma plant_does:
  assumes g: "good plant_cls c" and w: "net_wf plant_cls ns" and i: "i < length ns" "n_isCalc (ns ! i)"
    and r: "plant_body pe c i ns = Some (ns', a)"
  shows "frame plant_cls {i} ns ns' \<and> runs_fresh ns ns' a
    \<and> (\<forall>k. active plant_cls (ns ! i) k \<longrightarrow> in_value (ns' ! i) k = in_value (ns ! i) k)"
  using r i(1)
proof (cases rule: plant_body_cases)
  case quiet
  then show ?thesis using runs_fresh_refl [OF quiet(2)] by (auto simp: quiet_def)
next
  case (station s)
  note st = station_at [OF w i station(1,2)]
  have "does plant_cls c i (set (stn_stream s)) ns ns' a"
    using station_body_does [OF g st(1) _ station(1,3)] by (simp add: plant_cls_def)
  from does_keeps [OF this g w i st(2)] show ?thesis by blast
qed

lemma plant_settles:
  assumes g: "good plant_cls c" and ss: "settles plant_cls ne rank c" and w: "net_wf plant_cls ns" and rk: "ranked plant_cls rank ns"
    and i: "i < length ns" "n_isCalc (ns ! i)" and P: "i \<in> P" and aw: "\<And>j. rank j < rank i \<Longrightarrow> at_work rank P (rank j) ns"
    and s: "settled plant_cls ne P ns" and r: "plant_body pe c i ns = Some (ns', a)"
  shows "settled plant_cls ne P ns'"
  using r i(1)
proof (cases rule: plant_body_cases)
  case quiet
  then show ?thesis using settled_frame [OF _ w _ _ s] P by (auto simp: quiet_def)
next
  case (station st)
  note sa = station_at [OF w i station(1,2)]
  have d: "does plant_cls c i (set (stn_stream st)) ns ns' a"
    using station_body_does [OF g sa(1) _ station(1,3)] by (simp add: plant_cls_def)
  have "\<forall>j\<in>set (stn_stream st). j < length ns \<and> rank j < rank i"
    using sa(2) rk i(1) station(1) by (auto simp: ranked_def plant_cls_def)
  from does_settles [OF d g ss w rk i this P aw s] show ?thesis .
qed

lemma plant_body_ends:
  assumes g: "good plant_cls c" and e: "ends plant_cls m c" and w: "net_wf plant_cls ns" and i: "i < length ns" "n_isCalc (ns ! i)"
    and u: "uncalc ns < m"
  shows "plant_body pe c i ns \<noteq> None"
proof (cases "made (ns ! i) \<and> (\<exists>s. n_data (ns ! i) = K_Station s)")
  case True
  then obtain s where s: "n_data (ns ! i) = K_Station s" and m: "made (ns ! i)" by blast
  note st = station_at [OF w i s made_station [OF m s]]
  show ?thesis using station_body_ends [OF g e st(1) u st(2)] m by (simp add: plant_body_def s)
next
  case False
  obtain p n' b where "alone pe ns (ns ! i) = (p, n', b)" by (rule prod_cases3)
  with False show ?thesis by (auto simp: plant_body_def split: payload.splits)
qed

interpretation plant: bodies "pe_net pe" plant_cls "plant_body pe" for pe
  by unfold_locales (fact plant_does plant_body_ends plant_settles)+

section \<open>What the links leave alone\<close>

text \<open>Calculating the links of an object changes the values of its inputs only.\<close>

lemma calc_link_own:
  assumes g: "good cls c" and w: "net_wf cls ns" and i: "i < length ns" "n_isCalc (ns ! i)" and k: "k < length (n_inputs (ns ! i))"
    and r: "calc_link ne c i k ns = Some (ns', a)"
  shows "n_data (ns' ! i) = n_data (ns ! i) \<and> shape (ns' ! i) = shape (ns ! i)"
proof (cases "sl_source (n_inputs (ns ! i) ! k) = None \<or> has (l_setup (sl_link (n_inputs (ns ! i) ! k))) LINK_DISABLE")
  case True
  then show ?thesis using r by (auto simp: calc_link_def Let_def split: option.splits)
next
  case False
  then obtain j where j: "sl_source (n_inputs (ns ! i) ! k) = Some j" by auto
  let ?l = "sl_link (n_inputs (ns ! i) ! k)"
  obtain v err ns1 a1 where 1: "source_getValue ne c j (l_param ?l) (l_unit ?l) ns = Some (v, err, ns1, a1)"
    and q: "(case link_calculate (v, err) ?l of (_, l1, evs) \<Rightarrow> Some (upd i (set_input k l1) ns1, a1 @ List.map Sent evs)) = Some (ns', a)"
    using r False by (auto simp: calc_link_def Let_def j Option.bind_eq_Some_conv)
  obtain x l1 evs where "link_calculate (v, err) ?l = (x, l1, evs)" by (rule prod_cases3)
  with q have 2: "\<exists>l. ns' = upd i (set_input k l) ns1" by auto
  have f: "frame cls {} ns ns1" using getValue_good [OF g w wf_link(1) [OF w i(1) k j] 1] by blast
  then have "lk0 (ns1 ! i) = lk0 (ns ! i)" using i by (simp add: frame_def)
  from lk0_fields [OF this] have "n_data (ns1 ! i) = n_data (ns ! i)" "n_inputs (ns1 ! i) = n_inputs (ns ! i)"
    "n_outputs (ns1 ! i) = n_outputs (ns ! i)" by blast+
  then show ?thesis using 2 i frame_length [OF f] by (auto simp: shape_def)
qed

lemma calc_links_own:
  assumes g: "good cls c"
  shows "net_wf cls ns \<Longrightarrow> i < length ns \<Longrightarrow> n_isCalc (ns ! i) \<Longrightarrow> \<forall>k\<in>set ks. k < length (n_inputs (ns ! i))
    \<Longrightarrow> calc_links ne c i ks ns = Some (ns', a) \<Longrightarrow> n_data (ns' ! i) = n_data (ns ! i) \<and> shape (ns' ! i) = shape (ns ! i)"
proof (induction ks arbitrary: ns a)
  case (Cons k ks)
  have k: "k < length (n_inputs (ns ! i))" using Cons.prems(4) by simp
  obtain ns1 a1 a2 where 1: "calc_link ne c i k ns = Some (ns1, a1)" and 2: "calc_links ne c i ks ns1 = Some (ns', a2)"
    using Cons.prems(5) by (auto simp: Option.bind_eq_Some_conv)
  have f: "frame cls {i} ns ns1" using calc_link_good [OF g Cons.prems(1,2) k Cons.prems(3) 1] by blast
  note O1 = calc_link_own [OF g Cons.prems(1-3) k 1]
  have "length (n_inputs (ns1 ! i)) = length (n_inputs (ns ! i))" by (rule static_inputs(1) [OF frame_static [OF f Cons.prems(2)]])
  then have "n_data (ns' ! i) = n_data (ns1 ! i) \<and> shape (ns' ! i) = shape (ns1 ! i)"
    using Cons.IH [OF frame_wf [OF f Cons.prems(1)] _ frame_calc [OF f Cons.prems(2,3)] _ 2] Cons.prems(2,4) frame_length [OF f] by simp
  with O1 show ?case by simp
qed simp

section \<open>What the plant promises\<close>

text \<open>C1. A pass over the objects always ends, whatever cycles their links form. It runs no object's
  own calculation twice and changes no link, and without a halt it runs each object.\<close>

theorem plant_scan_once:
  assumes "net_wf plant_cls ns"
  shows "\<exists>ns' a. plant_scan pe live ns = Some (ns', a) \<and> length ns' = length ns \<and> net_wf plant_cls ns'
    \<and> (\<forall>i<length ns. static plant_cls (ns' ! i) = static plant_cls (ns ! i))
    \<and> distinct (rans a) \<and> set (rans a) = {i. i < length ns \<and> n_isCalc (ns' ! i)}
    \<and> (\<forall>i<length ns. (\<forall>j\<le>i. live j) \<longrightarrow> n_isCalc (ns' ! i))"
  unfolding plant_scan_def by (rule plant.scan_once [OF assms])

text \<open>C2. Without cycles a pass works on one state: at its end every input that is linked and not
  overwritten by its own class (as the inputs of discrete and analogue outputs are) shows what the output
  behind it shows, in its own unit; where that is NaN or an infinity the link shows 0 instead.\<close>

theorem plant_scan_consistent:
  assumes "net_wf plant_cls ns" "ranked plant_cls rank ns" "plant_scan pe live ns = Some (ns', a)" "i < length ns"
    "n_isCalc (ns' ! i)" "active plant_cls (ns' ! i) k" "sl_source (n_inputs (ns' ! i) ! k) = Some j"
  shows "in_value (ns' ! i) k = clean (out_value (pe_net pe) (ns' ! j)
      (l_param (sl_link (n_inputs (ns' ! i) ! k))) (l_unit (sl_link (n_inputs (ns' ! i) ! k))))"
  by (rule plant.scan_consistent [OF assms(1,2) assms(3) [unfolded plant_scan_def] assms(4-7)])

text \<open>C3. When a station is calculated all its lines are; the parts of its increment, its flow rates and
  the impulses its raw total gains are the sums over the lines that are not in repair.\<close>

theorem station_sums_lines:
  assumes w: "net_wf plant_cls ns" and i: "i < length ns" "\<not> n_isCalc (ns ! i)" and s: "n_data (ns ! i) = K_Station s" "made (ns ! i)"
    and own: "i \<notin> set (stn_stream s)" and r: "calculate (pe_net pe) (plant_body pe) f i ns = Some (ns', a)"
    and js: "js = services line_of ns' (stn_stream s)"
  shows "(\<forall>j\<in>set (stn_stream s). n_isCalc (ns' ! j))
    \<and> (\<exists>t. n_data (ns' ! i) = K_Station (s\<lparr>stn_total := t, stn_resetTotals := 0\<rparr>)
      \<and> Mass (m_inc t) = foldl (+) (Fin 0) (List.map (\<lambda>j. Mass (line_inc line_of ns' j)) js)
      \<and> Volume (m_inc t) = foldl (+) (Fin 0) (List.map (\<lambda>j. Volume (line_inc line_of ns' j)) js)
      \<and> Volume15 (m_inc t) = foldl (+) (Fin 0) (List.map (\<lambda>j. Volume15 (line_inc line_of ns' j)) js)
      \<and> Volume20 (m_inc t) = foldl (+) (Fin 0) (List.map (\<lambda>j. Volume20 (line_inc line_of ns' j)) js)
      \<and> m_count (m_raw t) = (if stn_resetTotals s \<noteq> 0 then 0 else m_count (m_raw (stn_total s)))
          + (\<Sum>j\<leftarrow>js. m_count (line_inc line_of ns' j)))
    \<and> (\<forall>k<4. out_v (ns' ! i) (3 + k) = foldl (+) (Fin 0) (List.map (\<lambda>j. out_v (ns' ! j) (7 + k)) js))"
proof -
  obtain m where f: "f = Suc m" using r by (cases f) auto
  let ?c = "calculate (pe_net pe) (plant_body pe) m" and ?s = "upd i (\<lambda>n. n\<lparr>n_isCalc := True, n_fault := 0\<rparr>) ns"
  note g = plant.calculate_good [of pe m]
  obtain ns1 a1 a2 where 1: "calc_links (pe_net pe) ?c i [0..<length (n_inputs (ns ! i))] ?s = Some (ns1, a1)"
    and 2: "plant_body pe ?c i ns1 = Some (ns', a2)" by (rule plant.calculate_split [OF r [unfolded f] i(2)])
  have w0: "net_wf plant_cls ?s" by (rule frame_wf [OF plant.start_frame [OF i] w])
  have i0: "i < length ?s" "n_isCalc (?s ! i)" "\<forall>k\<in>set [0..<length (n_inputs (ns ! i))]. k < length (n_inputs (?s ! i))"
    using i by simp_all
  have f1: "frame plant_cls {i} ?s ns1" using calc_links_good [OF g w0 i0(1,3) _ i0(2) 1] by simp
  have i1: "i < length ns1" "n_isCalc (ns1 ! i)" using frame_length [OF f1] frame_calc [OF f1 i0(1,2)] i by simp_all
  have d1: "n_data (ns1 ! i) = K_Station s" "shape (ns1 ! i) = shape (ns ! i)"
    using calc_links_own [OF g w0 i0(1,2,3) 1] i s(1) by simp_all
  have sh: "shape (ns1 ! i) = station_shape" using made_station [OF s(2,1)] d1 by simp
  have mk: "made (ns1 ! i)" using s d1 by (simp add: made_def)
  have b: "station_body line_of K_Station (pe_meter pe) (pe_net pe) ?c s i ns1 = Some (ns', a2)"
    using 2 mk by (simp add: plant_body_def d1)
  note A = station_at(1) [OF frame_wf [OF f1 w0] i1 d1(1) sh]
  obtain t where t: "n_data (ns' ! i) = K_Station (s\<lparr>stn_total := t, stn_resetTotals := 0\<rparr>)"
    "m_inc t = foldl base_add total_clear_base (List.map (line_inc line_of ns') js)"
    "m_count (m_raw t) = (if stn_resetTotals s \<noteq> 0 then 0 else m_count (m_raw (stn_total s))) + m_count (m_inc t)"
    and calc: "\<forall>j\<in>set (stn_stream s). n_isCalc (ns' ! j)"
    and outs: "\<forall>k<4. out_v (ns' ! i) (3 + k) = foldl (+) (Fin 0) (List.map (\<lambda>j. out_v (ns' ! j) (7 + k)) js)"
    using station_body_does [OF g A _ d1(1) b] own by (auto simp: plant_cls_def js)
  have "foldl (+) c xs = c + sum_list xs" for c :: UDINT and xs
    by (induction xs arbitrary: c) (simp_all add: add.assoc)
  then have inc: "Mass (m_inc t) = foldl (+) (Fin 0) (List.map (\<lambda>j. Mass (line_inc line_of ns' j)) js)"
    "Volume (m_inc t) = foldl (+) (Fin 0) (List.map (\<lambda>j. Volume (line_inc line_of ns' j)) js)"
    "Volume15 (m_inc t) = foldl (+) (Fin 0) (List.map (\<lambda>j. Volume15 (line_inc line_of ns' j)) js)"
    "Volume20 (m_inc t) = foldl (+) (Fin 0) (List.map (\<lambda>j. Volume20 (line_inc line_of ns' j)) js)"
    "m_count (m_inc t) = (\<Sum>j\<leftarrow>js. m_count (line_inc line_of ns' j))"
    by (simp_all add: t(2) foldl_base_add total_clear_base_def comp_def)
  show ?thesis using calc outs t(1,3) inc by auto
qed

section \<open>Instances\<close>

text \<open>A link as \<^verbatim>\<open>ResolveLinks\<close> leaves it.\<close>

definition link_to :: "nat \<Rightarrow> nat \<Rightarrow> string \<Rightarrow> pnode \<Rightarrow> pnode" where
  "link_to k j param n = n\<lparr>n_inputs := (n_inputs n)[k := \<lparr>sl_link = (sl_link (n_inputs n ! k))\<lparr>l_valid := True, l_param := param\<rparr>,
     sl_source = Some j\<rparr>]\<rparr>"

definition new_object :: "payload \<Rightarrow> pnode" where
  "new_object p = initLinks (class_links objunit_new p) (source_new p)"

definition plant_sample_env :: plant_env where
  "plant_sample_env = \<lparr>pe_net = \<lparr>ne_oob = (Fin 0, Fin 0), ne_base = Fin 0\<rparr>, pe_io = ai_io, pe_meter = meter_sample,
     pe_exp = (\<lambda>_. Fin 1), pe_u32 = 0, pe_u16 = 0, pe_s32 = 0\<rparr>"

lemma initLink_data: "n_data (initLink f u name shadow n) = n_data n" "n_isCalc (initLink f u name shadow n) = n_isCalc n"
  by (simp_all add: initLink_def initLink_of_def Let_def)

lemma initLinks_data [simp]: "n_data (initLinks ls n) = n_data n" "n_isCalc (initLinks ls n) = n_isCalc n"
  unfolding initLinks_def by (induction ls arbitrary: n) (auto simp: initLink_data)

text \<open>The objects of the constructors are the ones the calculation is about.\<close>

lemma new_object_facts:
  "n_data (new_object p) = p" "\<not> n_isCalc (new_object p)" "(\<forall>s. p \<noteq> K_Selector s) \<Longrightarrow> made (new_object p)"
proof -
  have d: "n_data (new_object q) = q" for q by (simp add: new_object_def source_new_def)
  then show "n_data (new_object p) = p" .
  show "\<not> n_isCalc (new_object p)" by (simp add: new_object_def source_new_def)
  have "shape (new_object p) = shape_of (List.map fst (class_links objunit_new p)) 0" by (simp add: new_object_def shape_new)
  then show "(\<forall>s. p \<noteq> K_Selector s) \<Longrightarrow> made (new_object p)" by (cases p) (simp_all add: made_def d)
qed

lemma initLink_inputs:
  "\<exists>new. n_inputs (initLink f u name shadow n) = n_inputs n @ new \<and> (\<forall>s\<in>set new. sl_source s = None \<and> \<not> l_valid (sl_link s))"
  by (cases "has f LINK_INPUT") (simp_all add: initLink_def initLink_of_def link_init_def link_default_def Let_def)

lemma new_inputs: "\<forall>s\<in>set (n_inputs (initLinks ls (source_new d))). sl_source s = None \<and> \<not> l_valid (sl_link s)"
proof -
  have "\<forall>s\<in>set (n_inputs n). sl_source s = None \<and> \<not> l_valid (sl_link s)
    \<Longrightarrow> \<forall>s\<in>set (n_inputs (initLinks ls n)). sl_source s = None \<and> \<not> l_valid (sl_link s)" for n :: "'a node"
  proof (induction ls arbitrary: n)
    case (Cons l ls)
    obtain f u name shadow where l: "l = (f, u, name, shadow)" by (rule prod_cases4)
    have "\<forall>s\<in>set (n_inputs (initLink f u name shadow n)). sl_source s = None \<and> \<not> l_valid (sl_link s)"
      using initLink_inputs [of f u name shadow n] Cons.prems by auto
    from Cons.IH [OF this] show ?case by (simp add: initLinks_def l)
  qed (simp add: initLinks_def)
  from this [of "source_new d"] show ?thesis by (simp add: source_new_def)
qed

text \<open>A net of new objects, some inputs of which are linked, is well formed.\<close>

definition linked_as :: "nat \<Rightarrow> pnode \<Rightarrow> bool" where
  "linked_as m n \<longleftrightarrow> (\<forall>s\<in>set (n_inputs n). case sl_source s of None \<Rightarrow> \<not> l_valid (sl_link s)
      | Some j \<Rightarrow> l_valid (sl_link s) \<and> j < m)
     \<and> (\<forall>j\<in>set (fst (plant_cls (n_data n))). j < m)"

lemma linked_new: "\<forall>j\<in>set (fst (plant_cls p)). j < m \<Longrightarrow> linked_as m (new_object p)"
  using new_inputs [of "class_links objunit_new p" p] by (simp add: linked_as_def new_object_def source_new_def)

lemma linked_link: "linked_as m n \<Longrightarrow> j < m \<Longrightarrow> linked_as m (link_to k j param n)"
  using set_update_subset_insert [of "n_inputs n" k] by (fastforce simp: linked_as_def link_to_def)

lemma linked_wf: "\<forall>n\<in>set ns. linked_as (length ns) n \<Longrightarrow> net_wf plant_cls ns"
proof -
  assume a: "\<forall>n\<in>set ns. linked_as (length ns) n"
  have "linked_as (length ns) (ns ! i)" if "i < length ns" for i using a that by simp
  then show ?thesis by (simp add: net_wf_def linked_as_def)
qed

text \<open>Two converters of viscosity that feed each other.\<close>

definition plant_cycle :: "payload net" where
  "plant_cycle = [link_to 0 1 ''result'' (new_object K_DynVisc), link_to 0 0 ''result'' (new_object K_KinVisc)]"

lemma plant_cycle_wf: "net_wf plant_cls plant_cycle"
  by (rule linked_wf) (auto simp: plant_cycle_def plant_cls_def intro!: linked_link linked_new)

theorem plant_scan_once_witness:
  "\<exists>ns' a. plant_scan plant_sample_env (\<lambda>_. True) plant_cycle = Some (ns', a) \<and> length ns' = length plant_cycle
    \<and> distinct (rans a) \<and> set (rans a) = {i. i < length plant_cycle \<and> n_isCalc (ns' ! i)}
    \<and> (\<forall>i<length plant_cycle. n_isCalc (ns' ! i))"
  using plant_scan_once [OF plant_cycle_wf, of plant_sample_env "\<lambda>_. True"] by auto

text \<open>A counter, a line that counts its impulses and the station of the line.\<close>

definition plant_sample :: "payload net" where
  "plant_sample = [new_object (K_Counter counter_sample), link_to 0 0 ''impulse'' (new_object (K_Stream 2 stream_sample)),
     new_object (K_Station \<lparr>stn_stream = [1], stn_total = total_zero, stn_unit = objunit_new, stn_resetTotals = 0\<rparr>)]"

lemma plant_sample_wf: "net_wf plant_cls plant_sample"
  by (rule linked_wf) (auto simp: plant_sample_def plant_cls_def intro!: linked_link linked_new)

lemma linked_ranked:
  assumes "\<forall>i<length ns. linked_as i (ns ! i)"
  shows "ranked plant_cls (\<lambda>i. i) ns"
proof -
  have "j < i" if "i < length ns" "k < length (n_inputs (ns ! i))" "sl_source (n_inputs (ns ! i) ! k) = Some j" for i k j
  proof -
    have "n_inputs (ns ! i) ! k \<in> set (n_inputs (ns ! i))" "linked_as i (ns ! i)" using that assms by simp_all
    with that(3) show ?thesis by (fastforce simp: linked_as_def)
  qed
  then show ?thesis using assms by (simp add: ranked_def linked_as_def)
qed

lemma plant_sample_ranked: "ranked plant_cls (\<lambda>i. i) plant_sample"
  by (rule linked_ranked)
    (auto simp: plant_sample_def plant_cls_def less_Suc_eq numeral_3_eq_3 intro!: linked_link linked_new)

lemma initLinks_first:
  "has f LINK_INPUT \<Longrightarrow> \<exists>new. n_inputs (initLinks ((f, u, name, shadow) # ls) (source_new d)) =
    \<lparr>sl_link = (link_init f u name link_default)\<lparr>l_shadow := shadow\<rparr>, sl_source = None\<rparr> # new"
proof -
  assume f: "has f LINK_INPUT"
  have "\<exists>new. n_inputs (initLinks ls n) = n_inputs n @ new" for n :: "'a node"
  proof (induction ls arbitrary: n)
    case (Cons l ls)
    obtain f u name shadow where l: "l = (f, u, name, shadow)" by (rule prod_cases4)
    show ?case using Cons.IH [of "initLink f u name shadow n"] initLink_inputs [of f u name shadow n]
      by (auto simp: initLinks_def l)
  qed (simp add: initLinks_def)
  from this [of "initLink f u name shadow (source_new d)"] show ?thesis
    using f by (auto simp: initLinks_def initLink_def initLink_of_def Let_def source_new_def)
qed

lemma plant_sample_link: "active plant_cls (plant_sample ! 1) 0 \<and> sl_source (n_inputs (plant_sample ! 1) ! 0) = Some 0"
proof -
  obtain new where "n_inputs (new_object (K_Stream 2 stream_sample)) =
      \<lparr>sl_link = (link_init LINK_INPUT U_imp ''impulse'' link_default)\<lparr>l_shadow := ''''\<rparr>, sl_source = None\<rparr> # new"
    using initLinks_first [of LINK_INPUT U_imp "''impulse''" "''''" "List.tl stream_links" "K_Stream 2 stream_sample"]
    by (auto simp: new_object_def class_links_def stream_links_def)
  then show ?thesis
    by (simp add: plant_sample_def link_to_def active_def linked_def plant_cls_def new_object_def source_new_def link_init_def
        has_def LINK_INPUT_def LINK_DISABLE_def)
qed

theorem plant_scan_consistent_witness:
  "\<exists>ns' a. plant_scan plant_sample_env (\<lambda>_. True) plant_sample = Some (ns', a)
    \<and> in_value (ns' ! 1) 0 = clean (out_value (pe_net plant_sample_env) (ns' ! 0)
        (l_param (sl_link (n_inputs (ns' ! 1) ! 0))) (l_unit (sl_link (n_inputs (ns' ! 1) ! 0))))"
proof -
  have one: "1 < length plant_sample" by (simp add: plant_sample_def)
  obtain ns' a where r: "plant_scan plant_sample_env (\<lambda>_. True) plant_sample = Some (ns', a)"
    and st: "static plant_cls (ns' ! 1) = static plant_cls (plant_sample ! 1)" and c: "n_isCalc (ns' ! 1)"
    using plant.scan_once [OF plant_sample_wf, of plant_sample_env "\<lambda>_. True"] one unfolding plant_scan_def by metis
  have k: "0 < length (n_inputs (plant_sample ! 1))" using plant_sample_link by (auto simp: active_def linked_def)
  have "active plant_cls (ns' ! 1) 0" "sl_source (n_inputs (ns' ! 1) ! 0) = Some 0"
    using plant_sample_link static_active [OF st] static_source(1) [OF st k] by simp_all
  from plant_scan_consistent [OF plant_sample_wf plant_sample_ranked r one c this] r show ?thesis by blast
qed

theorem station_sums_lines_witness:
  "\<exists>ns' a. calculate (pe_net plant_sample_env) (plant_body plant_sample_env) 4 2 plant_sample = Some (ns', a)
    \<and> n_isCalc (ns' ! 1) \<and> (\<exists>s. n_data (ns' ! 2) = K_Station s
      \<and> m_count (m_raw (stn_total s)) = (\<Sum>j\<leftarrow>services line_of ns' [1]. m_count (line_inc line_of ns' j)))"
proof -
  let ?s = "\<lparr>stn_stream = [1], stn_total = total_zero, stn_unit = objunit_new, stn_resetTotals = 0\<rparr>"
  have n: "plant_sample ! 2 = new_object (K_Station ?s)" "2 < length plant_sample" by (simp_all add: plant_sample_def)
  have m: "n_data (plant_sample ! 2) = K_Station ?s" "made (plant_sample ! 2)"
    by (simp_all add: n new_object_facts)
  have c: "\<not> n_isCalc (plant_sample ! 2)" by (simp add: n new_object_facts)
  have "uncalc plant_sample \<le> card {i. i < length plant_sample}" unfolding uncalc_def by (rule card_mono) auto
  then have u: "uncalc plant_sample < 4" by (simp add: plant_sample_def)
  have "calculate (pe_net plant_sample_env) (plant_body plant_sample_env) 4 2 plant_sample \<noteq> None"
    using plant.calculate_ends [of 4 plant_sample_env] plant_sample_wf n(2) u unfolding ends_def by blast
  then obtain ns' a where r: "calculate (pe_net plant_sample_env) (plant_body plant_sample_env) 4 2 plant_sample = Some (ns', a)" by auto
  have "2 \<notin> set (stn_stream ?s)" by simp
  from station_sums_lines [OF plant_sample_wf n(2) c m this r refl] r show ?thesis
    by (auto simp: total_zero_def total_clear_base_def)
qed

end
