(* ===== verification/Crc.thy ===== *)
theory Crc
  imports Prelude
begin

text \<open>
  The checksums of \<^verbatim>\<open>src/shared/crc32.h\<close>: the 32-bit checksum of the packets and the
  16-bit checksum of Modbus, each by a table the constructor fills. \<^verbatim>\<open>unsigned long\<close> is a word
  of any length \<open>'l\<close> of at least 32 bits, as the platforms have it.
\<close>

section \<open>The tables\<close>

text \<open>One bit of the division, the lowest bit first.\<close>

definition crc_shift :: "'l::len word \<Rightarrow> 'l word \<Rightarrow> 'l word" where
  "crc_shift poly c = (if c AND 1 \<noteq> 0 then drop_bit 1 c XOR poly else drop_bit 1 c)"

definition crc_entry :: "'l::len word \<Rightarrow> nat \<Rightarrow> 'l word" where
  "crc_entry poly ii = (crc_shift poly ^^ 8) (of_nat ii)"

record 'w rCRC32 =
  crc_poly :: 'w
  crc32_table :: "'w list"
  crc32_inv :: "'w list"

definition crc32_init :: "'l::len word \<Rightarrow> 'l word rCRC32" where
  "crc32_init poly = \<lparr>crc_poly = poly, crc32_table = List.map (crc_entry poly) [0..<256],
     crc32_inv = foldl (\<lambda>inv ii. let c = crc_entry poly ii in inv[unat (drop_bit 24 c AND 0xFF) := push_bit 8 c XOR of_nat ii])
       (replicate 256 0) [0..<256]\<rparr>"

definition CRC32_POLY :: "'l::len word" where "CRC32_POLY = 0xEDB88320"

section \<open>The checksum of a buffer\<close>

definition crc32_update :: "'l::len word rCRC32 \<Rightarrow> 'l word \<Rightarrow> 8 word \<Rightarrow> 'l word" where
  "crc32_update t crc byte = crc32_table t ! unat ((crc AND 0xFF) XOR ucast byte) XOR drop_bit 8 crc"

definition crc32_get :: "'l::len word rCRC32 \<Rightarrow> 8 word list \<Rightarrow> 'l word" where
  "crc32_get t buf = NOT (foldl (crc32_update t) 0xFFFFFFFF buf)"

text \<open>
  The search for the four bytes that lead from one checksum to another: the first entry whose
  highest byte is the one of the register is taken.
\<close>

definition crc32_find :: "'l::len word rCRC32 \<Rightarrow> 'l word \<Rightarrow> nat option" where
  "crc32_find t reg = List.find (\<lambda>i. crc32_table t ! i AND 0xFF000000 = reg AND 0xFF000000) [0..<256]"

definition reversed_step :: "'l::len word rCRC32 \<Rightarrow> 'l word \<Rightarrow> 'l word \<Rightarrow> nat \<Rightarrow> 'l word" where
  "reversed_step t reg_start reg_end ii = (case crc32_find t reg_end of
     None \<Rightarrow> reg_end
   | Some i \<Rightarrow> push_bit 8 (reg_end XOR crc32_table t ! i)
       XOR (of_nat i XOR drop_bit ((3 - ii) * 8) (drop_bit (ii * 8) 0xFF000000 AND reg_start)))"

definition getReversedBytes :: "'l::len word rCRC32 \<Rightarrow> 'l word \<Rightarrow> 'l word \<Rightarrow> 'l word" where
  "getReversedBytes t reg_start reg_end =
     foldl (reversed_step t (reg_start XOR 0xFFFFFFFF)) (reg_end XOR 0xFFFFFFFF) [0..<4]"

section \<open>Modbus\<close>

definition crc16_table :: "16 word list" where
  "crc16_table = List.map (crc_entry 0xA001) [0..<256]"

definition crc16_update :: "16 word \<Rightarrow> 8 word \<Rightarrow> 16 word" where
  "crc16_update Code buf = crc16_table ! unat ((Code AND 0xFF) XOR ucast buf) XOR drop_bit 8 Code"

definition crc16_get :: "8 word list \<Rightarrow> 16 word" where
  "crc16_get buf = NOT (foldl crc16_update 0xFFFF buf)"

definition modbus_bit :: "32 word \<Rightarrow> 32 word" where
  "modbus_bit Code = (let Flag = Code AND 1; Code1 = drop_bit 1 Code AND 0xFFFF in if Flag \<noteq> 0 then Code1 XOR 0xA001 else Code1)"

definition crc16_getModbus :: "8 word list \<Rightarrow> 16 word" where
  "crc16_getModbus buf = ucast (foldl (\<lambda>Code b. (modbus_bit ^^ 8) (Code XOR ucast b)) 0xFFFF buf)"

section \<open>The table against the division bit by bit\<close>

text \<open>The reference: the bits of the buffer are divided one by one, the lowest bit of a byte first.\<close>

definition crc_bit :: "'l::len word \<Rightarrow> 'l word \<Rightarrow> bool \<Rightarrow> 'l word" where
  "crc_bit poly c b = crc_shift poly (c XOR of_bool b)"

definition byte_bits :: "8 word \<Rightarrow> bool list" where
  "byte_bits b = List.map (bit b) [0..<8]"

definition crc_division :: "'l::len word \<Rightarrow> 'l word \<Rightarrow> bool list \<Rightarrow> 'l word" where
  "crc_division poly start bits = foldl (crc_bit poly) start bits"

lemma crc_shift_bit: "crc_shift poly c = (if bit c 0 then drop_bit 1 c XOR poly else drop_bit 1 c)"
  by (simp add: crc_shift_def and_one_eq odd_iff_mod_2_eq_one [symmetric] bit_0 of_bool_def)

lemma crc_shift_xor: "crc_shift poly (a XOR b) = crc_shift poly a XOR crc_shift poly b"
  by (auto simp: crc_shift_bit bit_xor_iff drop_bit_xor xor.assoc xor.commute xor.left_commute)

lemma crc_shift_even: "\<not> bit e 0 \<Longrightarrow> crc_shift poly e = drop_bit 1 e"
  by (simp add: crc_shift_bit)

lemma crc_shifts_xor: "(crc_shift poly ^^ n) (a XOR b) = (crc_shift poly ^^ n) a XOR (crc_shift poly ^^ n) b"
  by (induction n) (simp_all add: crc_shift_xor)

lemma crc_shifts_high: "(\<forall>k<n. \<not> bit e k) \<Longrightarrow> (crc_shift poly ^^ n) e = drop_bit n e"
proof (induction n arbitrary: e)
  case (Suc n)
  have "crc_shift poly e = drop_bit 1 e" using Suc.prems by (intro crc_shift_even) simp
  moreover have "(crc_shift poly ^^ n) (drop_bit 1 e) = drop_bit n (drop_bit 1 e)"
    using Suc.prems by (intro Suc.IH) (auto simp: bit_drop_bit_eq)
  ultimately show ?case by (simp add: funpow_swap1 [symmetric] drop_bit_drop_bit del: funpow.simps add: funpow_Suc_right)
qed simp


lemma take_bit_Suc_xor: "take_bit (Suc n) (b :: 'l::len word) = take_bit n b XOR push_bit n (of_bool (bit b n))"
  by (rule bit_word_eqI) (auto simp: bit_take_bit_iff bit_xor_iff bit_push_bit_iff less_Suc_eq bit_1_iff)

lemma crc_division_shifts:
  fixes b :: "'l::len word"
  assumes "n \<le> LENGTH('l)"
  shows "crc_division poly c (List.map (bit b) [0..<n]) = (crc_shift poly ^^ n) (c XOR take_bit n b)"
  using assms
proof (induction n)
  case (Suc n)
  let ?x = "of_bool (bit b n) :: 'l word"
  have hi: "(crc_shift poly ^^ n) (push_bit n ?x) = ?x"
  proof -
    have "(crc_shift poly ^^ n) (push_bit n ?x) = drop_bit n (push_bit n ?x)"
      by (rule crc_shifts_high) (simp add: bit_push_bit_iff)
    also have "\<dots> = ?x" using Suc.prems
      by (intro bit_word_eqI) (auto simp: bit_drop_bit_eq bit_push_bit_iff bit_1_iff)
    finally show ?thesis .
  qed
  have "crc_division poly c (List.map (bit b) [0..<Suc n]) = crc_shift poly ((crc_shift poly ^^ n) (c XOR take_bit n b) XOR ?x)"
    using Suc by (simp add: crc_division_def crc_bit_def)
  also have "\<dots> = crc_shift poly ((crc_shift poly ^^ n) (c XOR take_bit n b XOR push_bit n ?x))"
    by (simp only: crc_shifts_xor hi xor.assoc)
  finally show ?case by (simp add: take_bit_Suc_xor xor.assoc)
qed (simp add: crc_division_def)

lemma crc_byte:
  assumes "8 \<le> LENGTH('l)"
  shows "crc_division poly (c :: 'l::len word) (byte_bits b) = (crc_shift poly ^^ 8) (c XOR ucast b)"
proof -
  have "byte_bits b = List.map (bit (ucast b :: 'l word)) [0..<8]"
    using assms by (simp add: byte_bits_def bit_unsigned_iff)
  moreover have "take_bit 8 (ucast b :: 'l word) = ucast b"
    by (rule bit_word_eqI) (auto simp: bit_take_bit_iff bit_unsigned_iff dest: bit_imp_le_length)
  ultimately show ?thesis using crc_division_shifts [OF assms, of poly c "ucast b"] by simp
qed

lemma low_byte_bits: "8 \<le> LENGTH('l) \<Longrightarrow> bit (0xFF :: 'l::len word) n \<longleftrightarrow> n < 8"
proof -
  assume l: "8 \<le> LENGTH('l)"
  have "(0xFF :: 'l word) = mask 8" by (simp add: mask_eq_exp_minus_1)
  then have "bit (0xFF :: 'l word) n \<longleftrightarrow> bit (mask 8 :: 'l word) n" by (rule arg_cong)
  then show ?thesis using l by (auto simp: bit_mask_iff simp del: bit_numeral_word_iff)
qed

lemma table_step:
  assumes l: "8 \<le> LENGTH('l)"
  shows "List.map (crc_entry poly) [0..<256] ! unat ((c AND 0xFF) XOR ucast (b :: 8 word)) XOR drop_bit 8 (c :: 'l::len word)
    = (crc_shift poly ^^ 8) (c XOR ucast b)"
proof -
  let ?i = "(c AND 0xFF) XOR ucast b"
  define h where "h = c AND NOT 0xFF"
  have hb: "bit h n \<longleftrightarrow> bit c n \<and> \<not> n < 8" for n
    unfolding h_def bit_and_iff bit_not_iff low_byte_bits [OF l] by (auto dest: bit_imp_le_length)
  have "take_bit 8 ?i = ?i"
    by (rule bit_word_eqI) (auto simp: bit_take_bit_iff bit_xor_iff bit_and_iff low_byte_bits [OF l] bit_unsigned_iff simp del: bit_numeral_word_iff dest: bit_imp_le_length)
  then have "unat ?i < 2 ^ 8" by (metis unsigned_take_bit_eq take_bit_nat_less_exp)
  then have "List.map (crc_entry poly) [0..<256] ! unat ?i = (crc_shift poly ^^ 8) ?i" by (simp add: crc_entry_def)
  moreover have "drop_bit 8 c = (crc_shift poly ^^ 8) h"
  proof -
    have "(crc_shift poly ^^ 8) h = drop_bit 8 h" by (rule crc_shifts_high) (simp add: hb)
    also have "\<dots> = drop_bit 8 c" by (rule bit_word_eqI) (simp add: bit_drop_bit_eq hb)
    finally show ?thesis by simp
  qed
  moreover have "c XOR ucast b = ?i XOR h"
    by (rule bit_word_eqI) (auto simp: bit_xor_iff bit_and_iff hb low_byte_bits [OF l] bit_unsigned_iff simp del: bit_numeral_word_iff)
  ultimately show ?thesis by (simp add: crc_shifts_xor)
qed

lemma crc32_update_division:
  assumes "8 \<le> LENGTH('l)"
  shows "crc32_update (crc32_init poly) (c :: 'l::len word) b = crc_division poly c (byte_bits b)"
  using table_step [OF assms] by (simp add: crc32_update_def crc32_init_def crc_byte [OF assms])

lemma crc_division_append: "crc_division poly c (xs @ ys) = crc_division poly (crc_division poly c xs) ys"
  by (simp add: crc_division_def)

lemma crc_division_foldl: "crc_division poly c (concat (List.map byte_bits bs)) = foldl (\<lambda>c b. crc_division poly c (byte_bits b)) c bs"
  by (induction bs arbitrary: c) (simp_all add: crc_division_append, simp add: crc_division_def)

lemma crc16_division: "foldl crc16_update c bs = crc_division 0xA001 c (concat (List.map byte_bits bs))"
proof -
  have "crc16_update = (\<lambda>c b. crc_division 0xA001 c (byte_bits b))"
    by (intro ext) (simp add: crc16_update_def crc16_table_def table_step crc_byte)
  then show ?thesis by (simp add: crc_division_foldl)
qed

section \<open>The checksum does not depend on the platform\<close>

lemma crc_shift_ucast:
  assumes "32 \<le> LENGTH('l)"
  shows "crc_shift (ucast p) (ucast c :: 'l::len word) = ucast (crc_shift p (c :: 32 word))"
  by (rule bit_word_eqI)
    (use assms in \<open>auto simp: crc_shift_bit bit_xor_iff bit_drop_bit_eq bit_unsigned_iff min_def dest: bit_imp_le_length\<close>)

lemma crc_division_ucast:
  assumes "32 \<le> LENGTH('l)"
  shows "crc_division (ucast p) (ucast c :: 'l::len word) xs = ucast (crc_division p (c :: 32 word) xs)"
proof (induction xs arbitrary: c)
  case (Cons x xs)
  have "(ucast c :: 'l word) XOR of_bool x = ucast (c XOR of_bool x)"
    using assms by (cases x) (simp_all add: unsigned_xor_eq)
  then have "crc_bit (ucast p) (ucast c :: 'l word) x = ucast (crc_bit p c x)"
    by (simp add: crc_bit_def crc_shift_ucast [OF assms])
  then show ?case using Cons by (simp add: crc_division_def)
qed (simp add: crc_division_def)

text \<open>
  C40. The checksum of the packets: the table-driven loop gives, whatever the length of
  \<^verbatim>\<open>unsigned long\<close>, in its low 32 bits the remainder of the division bit by bit of the whole
  buffer, complemented.
\<close>

theorem crc32_table_division:
  assumes "32 \<le> LENGTH('l)"
  shows "ucast (crc32_get (crc32_init CRC32_POLY :: 'l::len word rCRC32) buf)
    = (NOT (crc_division CRC32_POLY 0xFFFFFFFF (concat (List.map byte_bits buf))) :: 32 word)"
proof -
  have l: "8 \<le> LENGTH('l)" using assms by simp
  have up: "(CRC32_POLY :: 'l word) = ucast (CRC32_POLY :: 32 word)" "(0xFFFFFFFF :: 'l word) = ucast (0xFFFFFFFF :: 32 word)"
    unfolding CRC32_POLY_def using assms by (simp_all add: unsigned_numeral take_bit_numeral_numeral take_bit_nat_def)
  have "foldl (crc32_update (crc32_init CRC32_POLY)) 0xFFFFFFFF buf
    = (ucast (crc_division CRC32_POLY (0xFFFFFFFF :: 32 word) (concat (List.map byte_bits buf))) :: 'l word)"
    unfolding up crc32_update_division [OF l, abs_def] crc_division_foldl [symmetric] by (rule crc_division_ucast [OF assms])
  moreover have "ucast (NOT (ucast w :: 'l word)) = NOT w" for w :: "32 word"
    by (rule bit_word_eqI) (use assms in \<open>auto simp: bit_unsigned_iff bit_not_iff\<close>)
  ultimately show ?thesis by (simp add: crc32_get_def)
qed

theorem crc32_table_division_witness:
  "ucast (crc32_get (crc32_init CRC32_POLY :: 64 word rCRC32) [0x31, 0x32, 0x33, 0x34, 0x35, 0x36, 0x37, 0x38, 0x39]) = (0xCBF43926 :: 32 word)"
proof -
  have le: "32 \<le> LENGTH(64)" by simp
  show ?thesis unfolding crc32_table_division [OF le] by code_simp
qed

section \<open>The two loops of Modbus\<close>

lemma modbus_bit_shift: "modbus_bit (ucast c) = ucast (crc_shift 0xA001 (c :: 16 word))"
proof -
  have "drop_bit 1 (ucast c :: 32 word) AND 0xFFFF = ucast (drop_bit 1 c)"
  proof -
    have m: "(0xFFFF :: 32 word) = mask 16" by (simp add: mask_eq_exp_minus_1)
    show ?thesis unfolding m
      by (rule bit_word_eqI) (auto simp: bit_and_iff bit_mask_iff bit_drop_bit_eq bit_unsigned_iff dest: bit_imp_le_length)
  qed
  moreover have "(ucast c :: 32 word) AND 1 \<noteq> 0 \<longleftrightarrow> c AND 1 \<noteq> 0"
    by (simp add: and_one_eq odd_iff_mod_2_eq_one [symmetric] flip: bit_0 add: bit_unsigned_iff)
  ultimately show ?thesis by (simp add: modbus_bit_def crc_shift_def Let_def unsigned_xor_eq)
qed

lemma modbus_shifts: "(modbus_bit ^^ n) (ucast c) = ucast ((crc_shift 0xA001 ^^ n) (c :: 16 word))"
  by (induction n) (simp_all add: modbus_bit_shift)

text \<open>
  The table of the 16-bit checksum and the bit loop \<^verbatim>\<open>getModbus\<close> agree up to the final
  complement, which only \<^verbatim>\<open>get\<close> makes: both are the division of the buffer.
\<close>

theorem crc16_table_loop: "crc16_getModbus buf = NOT (crc16_get buf)"
proof -
  have loop: "foldl (\<lambda>Code b. (modbus_bit ^^ 8) (Code XOR ucast b)) (ucast c) buf = ucast (foldl crc16_update c buf)" for c :: "16 word"
  proof (induction buf arbitrary: c)
    case (Cons b buf)
    have x: "(ucast c :: 32 word) XOR ucast b = ucast (c XOR ucast b)"
      by (rule bit_word_eqI) (auto simp: bit_xor_iff bit_unsigned_iff dest: bit_imp_le_length)
    have "(modbus_bit ^^ 8) (ucast c XOR ucast b) = ucast (crc16_update c b)"
      unfolding x modbus_shifts by (simp add: crc16_update_def crc16_table_def table_step)
    then show ?case using Cons by simp
  qed simp
  from loop [where c = "0xFFFF"] have "foldl (\<lambda>Code b. (modbus_bit ^^ 8) (Code XOR ucast b)) 0xFFFF buf = (ucast (foldl crc16_update 0xFFFF buf) :: 32 word)"
    by simp
  moreover have "ucast (ucast w :: 32 word) = w" for w :: "16 word"
    by (rule bit_word_eqI) (auto simp: bit_unsigned_iff)
  ultimately show ?thesis by (simp add: crc16_getModbus_def crc16_get_def)
qed

section \<open>The bytes that lead to a given checksum\<close>

text \<open>The step back of the division: the polynomial has its highest bit.\<close>

definition crc_unshift :: "32 word \<Rightarrow> 32 word \<Rightarrow> 32 word" where
  "crc_unshift poly y = (if bit y 31 then push_bit 1 (y XOR poly) OR 1 else push_bit 1 y)"

lemma bit_times_two: "bit (w * 2) n \<longleftrightarrow> 0 < n \<and> n < LENGTH('l) \<and> bit w (n - 1)" for w :: "'l::len word"
  using bit_double_iff [of w n] by (auto simp: mult.commute)

lemma crc_shift_unshift: "bit poly 31 \<Longrightarrow> crc_shift poly (crc_unshift poly y) = y"
proof (rule bit_word_eqI)
  fix n assume p: "bit poly 31" and "n < LENGTH(32)"
  then consider "n = 31" | "n < 31" by force
  then show "bit (crc_shift poly (crc_unshift poly y)) n = bit y n"
    by cases (auto simp: crc_shift_bit crc_unshift_def bit_xor_iff bit_or_iff bit_drop_bit_eq bit_times_two bit_1_iff p)
qed

lemma crc_shifts_surj: "bit poly 31 \<Longrightarrow> \<exists>x. (crc_shift poly ^^ n) x = (y :: 32 word)"
proof (induction n arbitrary: y)
  case (Suc n)
  from Suc.IH [OF Suc.prems, of "crc_unshift poly y"] obtain x where "(crc_shift poly ^^ n) x = crc_unshift poly y" by blast
  then have "(crc_shift poly ^^ Suc n) x = y" using crc_shift_unshift [OF Suc.prems] by simp
  then show ?case by blast
qed simp

definition high_byte :: "32 word \<Rightarrow> 32 word" where "high_byte w = drop_bit 24 w"

lemma high_byte_mask: "a AND 0xFF000000 = b AND 0xFF000000 \<longleftrightarrow> high_byte a = high_byte b"
proof -
  have m: "(0xFF000000 :: 32 word) = push_bit 24 (mask 8)" by (simp add: mask_eq_exp_minus_1 push_bit_eq_mult)
  have "w AND 0xFF000000 = push_bit 24 (high_byte w)" for w :: "32 word"
    unfolding m high_byte_def by (rule bit_word_eqI) (auto simp: bit_and_iff bit_push_bit_iff bit_mask_iff bit_drop_bit_eq)
  moreover have "high_byte (w AND 0xFF000000) = high_byte w" for w
    unfolding m high_byte_def by (rule bit_word_eqI) (auto simp: bit_and_iff bit_push_bit_iff bit_mask_iff bit_drop_bit_eq dest: bit_imp_le_length)
  ultimately show ?thesis by metis
qed

lemma crc32_find_ok:
  assumes "bit poly 31"
  obtains i where "crc32_find (crc32_init poly) reg = Some i" "i < 256" "high_byte (crc_entry poly i) = high_byte reg"
proof -
  obtain q where q: "(crc_shift poly ^^ 8) q = reg" using crc_shifts_surj [OF assms] by blast
  let ?i = "unat (q AND 0xFF)"
  have m: "(0xFF :: 32 word) = mask 8" by (simp add: mask_eq_exp_minus_1)
  have i: "?i < 256" unfolding m by (simp add: take_bit_eq_mask [symmetric] unsigned_take_bit_eq take_bit_nat_eq_self_iff)
      (use take_bit_nat_less_exp [of 8 "unat q"] in simp)
  have "reg = crc_entry poly ?i XOR drop_bit 8 q"
    using table_step [of poly q 0] i q by (simp add: crc_entry_def)
  then have "high_byte reg = high_byte (crc_entry poly ?i)"
    by (simp add: high_byte_def drop_bit_xor drop_bit_drop_bit)
  with i have "crc32_find (crc32_init poly) reg \<noteq> None"
    by (auto simp: crc32_find_def find_None_iff crc32_init_def high_byte_mask intro!: bexI [of _ ?i])
  then obtain i where i: "crc32_find (crc32_init poly) reg = Some i" by blast
  then have "i < 256" "high_byte (crc_entry poly i) = high_byte reg"
    by (auto simp: crc32_find_def find_Some_iff crc32_init_def high_byte_mask)
  with i that show ?thesis by blast
qed

text \<open>One step back with the byte zero; the byte of the start only joins the low byte.\<close>

definition zero_step :: "32 word \<Rightarrow> 32 word \<Rightarrow> 32 word" where
  "zero_step poly reg = reversed_step (crc32_init poly) 0 reg 0"

lemma zero_step_shifts:
  assumes p: "bit poly 31"
  shows "(crc_shift poly ^^ 8) (zero_step poly reg) = reg"
proof -
  obtain i where i: "crc32_find (crc32_init poly) reg = Some i" "i < 256" "high_byte (crc_entry poly i) = high_byte reg"
    by (rule crc32_find_ok [OF p])
  define w where "w = reg XOR crc_entry poly i"
  have z: "zero_step poly reg = push_bit 8 w XOR of_nat i"
    using i by (simp add: zero_step_def reversed_step_def crc32_init_def w_def)
  have "drop_bit 8 (push_bit 8 w) = w"
  proof (rule bit_word_eqI)
    fix n assume "n < LENGTH(32)"
    moreover have "bit w n \<longleftrightarrow> n < 24 \<and> bit w n"
    proof (cases "n < 24")
      case False
      then obtain k where "n = 24 + k" using le_Suc_ex by (metis not_less)
      then have "bit reg n = bit (high_byte reg) k" "bit (crc_entry poly i) n = bit (high_byte (crc_entry poly i)) k"
        by (simp_all add: high_byte_def bit_drop_bit_eq)
      with i(3) False show ?thesis by (simp add: bit_xor_iff w_def)
    qed simp
    ultimately show "bit (drop_bit 8 (push_bit 8 w)) n = bit w n"
      by (auto simp: bit_drop_bit_eq bit_push_bit_iff)
  qed
  moreover have "(crc_shift poly ^^ 8) (push_bit 8 w) = drop_bit 8 (push_bit 8 w)"
    by (rule crc_shifts_high) (simp add: bit_push_bit_iff)
  ultimately show ?thesis
    unfolding z crc_shifts_xor by (simp add: crc_entry_def xor.assoc w_def)
qed

lemma reversed_step_zero:
  assumes p: "bit poly 31" and acc: "high_byte acc = 0"
  shows "reversed_step (crc32_init poly) start (reg XOR acc) ii
    = zero_step poly reg XOR (push_bit 8 acc XOR drop_bit ((3 - ii) * 8) (drop_bit (ii * 8) 0xFF000000 AND start))"
proof -
  have h: "high_byte (reg XOR acc) = high_byte reg" using acc by (simp add: high_byte_def drop_bit_xor)
  have f: "crc32_find (crc32_init poly) (reg XOR acc) = crc32_find (crc32_init poly) reg"
    by (simp add: crc32_find_def high_byte_mask h)
  obtain i where i: "crc32_find (crc32_init poly) reg = Some i" by (rule crc32_find_ok [OF p])
  define inj where "inj = drop_bit ((3 - ii) * 8) (drop_bit (ii * 8) 0xFF000000 AND start)"
  show ?thesis unfolding zero_step_def reversed_step_def f i inj_def [symmetric]
    by (simp add: push_bit_xor ac_simps)
qed

definition byte_at :: "32 word \<Rightarrow> nat \<Rightarrow> 32 word" where
  "byte_at w k = take_bit 8 (drop_bit (8 * k) w)"

lemma bit_byte_at: "bit (byte_at w k) n \<longleftrightarrow> n < 8 \<and> bit w (8 * k + n)"
  by (simp add: byte_at_def bit_take_bit_iff bit_drop_bit_eq)

lemma injected_byte:
  assumes "ii < 4"
  shows "drop_bit ((3 - ii) * 8) (drop_bit (ii * 8) 0xFF000000 AND start) = byte_at start (3 - ii)"
proof -
  have m: "(0xFF000000 :: 32 word) = push_bit 24 (mask 8)" by (simp add: mask_eq_exp_minus_1 push_bit_eq_mult)
  have "bit (drop_bit ((3 - ii) * 8) (drop_bit (ii * 8) (push_bit 24 (mask 8)) AND start)) n \<longleftrightarrow> bit (byte_at start (3 - ii)) n" for n
    using assms by (auto simp: bit_drop_bit_eq bit_and_iff bit_push_bit_iff bit_mask_iff bit_byte_at mult.commute dest: bit_imp_le_length)
  then show ?thesis unfolding m by (intro bit_word_eqI) blast
qed

lemma bytes_joined:
  "push_bit 8 (push_bit 8 (push_bit 8 (byte_at w 3) XOR byte_at w 2) XOR byte_at w 1) XOR byte_at w 0 = w"
proof (rule bit_word_eqI)
  fix n assume "n < LENGTH(32)"
  then consider "n < 8" | "8 \<le> n" "n < 16" | "16 \<le> n" "n < 24" | "24 \<le> n" "n < 32" by force
  then show "bit (push_bit 8 (push_bit 8 (push_bit 8 (byte_at w 3) XOR byte_at w 2) XOR byte_at w 1) XOR byte_at w 0) n = bit w n"
    by cases (auto simp: bit_xor_iff bit_push_bit_iff bit_byte_at)
qed

lemma high_byte_zero: "(\<And>n. 24 \<le> n \<Longrightarrow> \<not> bit w n) \<Longrightarrow> high_byte w = 0"
  by (rule bit_word_eqI) (simp add: high_byte_def bit_drop_bit_eq)

lemma getReversedBytes_shifts:
  assumes p: "bit (poly :: 32 word) 31"
  shows "(crc_shift poly ^^ 32) ((reg_start XOR 0xFFFFFFFF) XOR getReversedBytes (crc32_init poly) reg_start reg_end) = reg_end XOR 0xFFFFFFFF"
proof -
  define S :: "32 word" where "S = reg_start XOR 0xFFFFFFFF"
  define E :: "32 word" where "E = reg_end XOR 0xFFFFFFFF"
  define a1 where "a1 = byte_at S 3"
  define a2 where "a2 = push_bit 8 a1 XOR byte_at S 2"
  define a3 where "a3 = push_bit 8 a2 XOR byte_at S 1"
  have low: "high_byte a1 = 0" "high_byte a2 = 0" "high_byte a3 = 0"
    by (rule high_byte_zero, auto simp: a1_def a2_def a3_def bit_xor_iff bit_push_bit_iff bit_byte_at)+
  have "high_byte 0 = 0" by (simp add: high_byte_def)
  note step = reversed_step_zero [OF p this, of S] reversed_step_zero [OF p low(1), of S] reversed_step_zero [OF p low(2), of S]
    reversed_step_zero [OF p low(3), of S]
  let ?z = "zero_step poly"
  let ?r = "reversed_step (crc32_init poly) S"
  have "?r E 0 = ?z E XOR a1" using step(1) [of E 0] injected_byte [of 0 S] by (simp add: a1_def)
  moreover have "?r (?z E XOR a1) 1 = ?z (?z E) XOR a2" using step(2) [of "?z E" 1] injected_byte [of 1 S] by (simp add: a2_def)
  moreover have "?r (?z (?z E) XOR a2) 2 = ?z (?z (?z E)) XOR a3" using step(3) [of "?z (?z E)" 2] injected_byte [of 2 S] by (simp add: a3_def)
  moreover have "?r (?z (?z (?z E)) XOR a3) 3 = ?z (?z (?z (?z E))) XOR S"
    using step(4) [of "?z (?z (?z E))" 3] injected_byte [of 3 S] bytes_joined [of S] by (simp add: a1_def a2_def a3_def)
  moreover have "[0..<4] = [0, 1, 2, 3::nat]" by (simp add: upt_rec)
  ultimately have r: "getReversedBytes (crc32_init poly) reg_start reg_end = ?z (?z (?z (?z E))) XOR S"
    by (simp add: getReversedBytes_def S_def E_def)
  have "S XOR (w XOR S) = w" for w by (metis xor.left_commute xor_self_eq xor.right_neutral)
  moreover have "(crc_shift poly ^^ 32) x = (crc_shift poly ^^ 8) ((crc_shift poly ^^ 8) ((crc_shift poly ^^ 8) ((crc_shift poly ^^ 8) x)))" for x
    using funpow_add [of 8 24 "crc_shift poly"] funpow_add [of 8 16 "crc_shift poly"] funpow_add [of 8 8 "crc_shift poly"] by simp
  ultimately show ?thesis
    unfolding r S_def [symmetric] E_def [symmetric] by (simp only: zero_step_shifts [OF p])
qed

lemma four_bytes: "concat (List.map (\<lambda>k. byte_bits (ucast (drop_bit (8 * k) r))) [0..<4]) = List.map (bit (r :: 32 word)) [0..<32]"
proof -
  have b: "byte_bits (ucast (drop_bit (8 * k) r)) = List.map (bit r) [8 * k..<8 * k + 8]" for k
    by (rule nth_equalityI) (auto simp: byte_bits_def bit_unsigned_iff bit_drop_bit_eq)
  have "[0..<4] = [0, 1, 2, 3::nat]" by (simp add: upt_rec)
  moreover have "[0..<32::nat] = [0..<8] @ [8..<16] @ [16..<24] @ [24..<32]"
    using upt_add_eq_append [of 0 8 24] upt_add_eq_append [of 8 16 16] upt_add_eq_append [of 16 24 8] by simp
  ultimately show ?thesis unfolding b by simp
qed

text \<open>
  \<^verbatim>\<open>getReversedBytes\<close> finds, for any buffer and any wished checksum, the four bytes which
  appended to the buffer, the lowest first, give that checksum: the checksum of the packets guards
  against noise, not against a writer.
\<close>

theorem crc32_any_checksum:
  "crc32_get (crc32_init CRC32_POLY :: 32 word rCRC32)
     (buf @ List.map (\<lambda>k. ucast (drop_bit (8 * k)
        (getReversedBytes (crc32_init CRC32_POLY) (crc32_get (crc32_init CRC32_POLY) buf) wished))) [0..<4]) = wished"
proof -
  let ?p = "CRC32_POLY :: 32 word"
  let ?st = "crc32_init ?p"
  let ?r = "getReversedBytes ?st (crc32_get ?st buf) wished"
  define reg where "reg = foldl (crc32_update ?st) 0xFFFFFFFF buf"
  have p: "bit ?p 31" by (simp add: CRC32_POLY_def)
  have f: "foldl (crc32_update ?st) c bs = crc_division ?p c (concat (List.map byte_bits bs))" for c bs
  proof -
    have "crc32_update ?st = (\<lambda>c b. crc_division ?p c (byte_bits b))" by (intro ext) (simp add: crc32_update_division)
    then show ?thesis by (simp add: crc_division_foldl)
  qed
  have n: "NOT w = w XOR 0xFFFFFFFF" for w :: "32 word"
  proof -
    have m: "(0xFFFFFFFF :: 32 word) = mask 32" by (simp add: mask_eq_exp_minus_1)
    show ?thesis unfolding m by (rule bit_word_eqI) (auto simp: bit_not_iff bit_xor_iff bit_mask_iff)
  qed
  have s: "crc32_get ?st buf XOR 0xFFFFFFFF = reg" by (simp add: crc32_get_def n reg_def xor.assoc)
  have "foldl (crc32_update ?st) reg (List.map (\<lambda>k. ucast (drop_bit (8 * k) ?r)) [0..<4])
    = (crc_shift ?p ^^ 32) (reg XOR ?r)"
    using crc_division_shifts [of 32 ?p reg ?r] four_bytes [of ?r] by (simp add: f comp_def take_bit_word_eq_self)
  also have "\<dots> = wished XOR 0xFFFFFFFF"
    using getReversedBytes_shifts [OF p, of "crc32_get ?st buf" wished] unfolding s .
  finally show ?thesis unfolding crc32_get_def foldl_append reg_def [symmetric] by (simp add: n xor.assoc)
qed

end
