(* ===== verification/Variables.thy ===== *)
theory Variables
  imports Source Event
begin

text \<open>
  The variables through which the outside sees and changes the program:
  \<^verbatim>\<open>rVariable\<close>, \<^verbatim>\<open>rVariableList\<close> and \<^verbatim>\<open>rVariableClass\<close> of
  \<^verbatim>\<open>src/tritonn/variable_*.cpp\<close> and the snapshots they are read and written with,
  \<^verbatim>\<open>src/tritonn/data_snapshot*.cpp\<close>. A variable points into memory, so the model has a
  memory of bytes; variables are objects named by their index, since two classes of variables
  mirror each other through pointers in both directions.
\<close>

section \<open>Memory\<close>

type_synonym mem = "nat \<Rightarrow> USINT"

definition mem_read :: "mem \<Rightarrow> nat \<Rightarrow> nat \<Rightarrow> bytes" where
  "mem_read m p n = List.map (\<lambda>k. m (p + k)) [0..<n]"

definition mem_write :: "nat \<Rightarrow> bytes \<Rightarrow> mem \<Rightarrow> mem" where
  "mem_write p bs m = (\<lambda>a. if p \<le> a \<and> a < p + length bs then bs ! (a - p) else m a)"

lemma length_mem_read [simp]: "length (mem_read m p n) = n"
  by (simp add: mem_read_def)

lemma mem_read_write: "mem_read (mem_write p bs m) p (length bs) = bs"
  by (rule nth_equalityI) (simp_all add: mem_read_def mem_write_def)

lemma mem_read_cong: "(\<And>a. p \<le> a \<Longrightarrow> a < p + n \<Longrightarrow> m' a = m a) \<Longrightarrow> mem_read m' p n = mem_read m p n"
  by (simp add: mem_read_def)

section \<open>Variables\<close>

definition VF_READONLY :: UINT where "VF_READONLY = 0x0001"
definition VF_SUWRITE :: UINT where "VF_SUWRITE = 0x0002"
definition VF_HIDE :: UINT where "VF_HIDE = 0x0004"
definition VF_EXTERNAL :: UINT where "VF_EXTERNAL = 0x4000"
definition VF_DUMP :: UINT where "VF_DUMP = 0x8000"

definition ACCESS_ADMIN :: UDINT where "ACCESS_ADMIN = 0x40000000"
definition ACCESS_SA :: UDINT where "ACCESS_SA = 0x80000000"
definition ACCESS_MASK_VIEWHIDE :: UDINT where "ACCESS_MASK_VIEWHIDE = ACCESS_SA OR ACCESS_ADMIN"

text \<open>The mirror of a variable in another class, and the two buffers of 8 bytes between them.\<close>

record rExternal =
  ex_var :: nat
  ex_write :: bytes
  ex_read :: bytes
  ex_isWrited :: bool

definition external_new :: "nat \<Rightarrow> rExternal" where
  "external_new v = \<lparr>ex_var = v, ex_write = replicate 8 0, ex_read = replicate 8 0, ex_isWrited = False\<rparr>"

text \<open>\<open>v_pointer\<close> 0 is the null pointer.\<close>

record rVariable =
  v_hash :: UDINT
  v_name :: string
  v_type :: TYPEID
  v_flags :: UINT
  v_unit :: UDINT
  v_access :: UDINT
  v_external :: "rExternal option"
  v_pointer :: nat

definition isReadonly :: "rVariable \<Rightarrow> bool" where "isReadonly v = has (v_flags v) VF_READONLY"
definition isHide :: "rVariable \<Rightarrow> bool" where "isHide v = has (v_flags v) VF_HIDE"
definition isSUWrite :: "rVariable \<Rightarrow> bool" where "isSUWrite v = has (v_flags v) VF_SUWRITE"
definition isExternal :: "rVariable \<Rightarrow> bool" where "isExternal v = has (v_flags v) VF_EXTERNAL"
definition isDumped :: "rVariable \<Rightarrow> bool" where "isDumped v = has (v_flags v) VF_DUMP"

definition v_size :: "rVariable \<Rightarrow> nat" where "v_size v = unat (getTypeSize (v_type v))"

text \<open>\<open>h\<close> is \<^verbatim>\<open>std::hash\<close> of strings.\<close>

definition variable_new :: "(string \<Rightarrow> UDINT) \<Rightarrow> string \<Rightarrow> TYPEID \<Rightarrow> UINT \<Rightarrow> nat \<Rightarrow> UDINT \<Rightarrow> UDINT \<Rightarrow> rVariable" where
  "variable_new h name t flags p u access = (let low = List.map tolower_char name in
     \<lparr>v_hash = h low, v_name = low, v_type = t, v_flags = flags, v_unit = u, v_access = access, v_external = None, v_pointer = p\<rparr>)"

text \<open>The memory, the variables there are, and whether the variables are to be saved.\<close>

record varworld =
  vw_mem :: mem
  vw_vars :: "rVariable list"
  vw_save :: bool

definition upd_var :: "nat \<Rightarrow> (rVariable \<Rightarrow> rVariable) \<Rightarrow> varworld \<Rightarrow> varworld" where
  "upd_var k f w = w\<lparr>vw_vars := (vw_vars w)[k := f (vw_vars w ! k)]\<rparr>"

text \<open>\<^verbatim>\<open>rVariable(rVariable *var)\<close>: a variable that mirrors \<open>k\<close>; both get new buffers.\<close>

definition variable_mirror :: "nat \<Rightarrow> varworld \<Rightarrow> varworld \<times> nat" where
  "variable_mirror k w = (let v = vw_vars w ! k; m = length (vw_vars w);
     v' = v\<lparr>v_external := Some (external_new k), v_pointer := 0, v_flags := v_flags v OR VF_EXTERNAL\<rparr>
     in (w\<lparr>vw_vars := (vw_vars w)[k := v\<lparr>v_external := Some (external_new m)\<rparr>] @ [v']\<rparr>, m))"

section \<open>Lists of variables\<close>

type_synonym varlist = "nat list"

definition list_find :: "(string \<Rightarrow> UDINT) \<Rightarrow> varworld \<Rightarrow> string \<Rightarrow> varlist \<Rightarrow> nat option" where
  "list_find h w name l = (let low = List.map tolower_char name in
     find (\<lambda>k. h low = v_hash (vw_vars w ! k) \<and> v_name (vw_vars w ! k) = low) l)"

definition list_add :: "(string \<Rightarrow> UDINT) \<Rightarrow> string \<Rightarrow> TYPEID \<Rightarrow> UINT \<Rightarrow> nat \<Rightarrow> UDINT \<Rightarrow> UDINT
    \<Rightarrow> varlist \<times> varworld \<Rightarrow> varlist \<times> varworld" where
  "list_add h name t flags p u access lw = (case lw of (l, w) \<Rightarrow>
     if list_find h w name l \<noteq> None then (l, w)
     else (l @ [length (vw_vars w)], w\<lparr>vw_vars := vw_vars w @ [variable_new h name t flags p u access]\<rparr>))"

section \<open>Items of snapshots\<close>

datatype item_status = SS_UNDEF | SS_NOTFOUND | SS_READONLY | SS_ACCESSDENIED | SS_TOASSIGN | SS_ASSIGNED | SS_TOWRITE
  | SS_WRITED | SS_ERROR

record rSnapshotItem =
  si_var :: "nat option"
  si_status :: item_status
  si_data :: bytes

text \<open>
  What C leaves to the platform: the width of \<^verbatim>\<open>long\<close>, casts between integers and the formats
  of floating numbers, and the parsing of the latter. \<open>pf_stof\<close> is \<open>None\<close> when the
  library throws.
\<close>

record platform =
  pf_long :: nat
  pf_real :: "int \<Rightarrow> 32 word"
  pf_lreal :: "int \<Rightarrow> 64 word"
  pf_real_int :: "32 word \<Rightarrow> int"
  pf_lreal_int :: "64 word \<Rightarrow> int"
  pf_widen :: "32 word \<Rightarrow> 64 word"
  pf_narrow :: "64 word \<Rightarrow> 32 word"
  pf_stof :: "string \<Rightarrow> 32 word option"
  pf_stod :: "string \<Rightarrow> 64 word option"

fun as_int :: "platform \<Rightarrow> rawparam \<Rightarrow> int" where
  "as_int pf (P_SINT v) = sint v"
| "as_int pf (P_USINT v) = uint v"
| "as_int pf (P_INT v) = sint v"
| "as_int pf (P_UINT v) = uint v"
| "as_int pf (P_DINT v) = sint v"
| "as_int pf (P_UDINT v) = uint v"
| "as_int pf (P_REAL v) = pf_real_int pf v"
| "as_int pf (P_LREAL v) = pf_lreal_int pf v"
| "as_int pf (P_STRID v) = uint v"

fun as_real :: "platform \<Rightarrow> rawparam \<Rightarrow> 32 word" where
  "as_real pf (P_REAL v) = v"
| "as_real pf (P_LREAL v) = pf_narrow pf v"
| "as_real pf p = pf_real pf (as_int pf p)"

fun as_lreal :: "platform \<Rightarrow> rawparam \<Rightarrow> 64 word" where
  "as_lreal pf (P_REAL v) = pf_widen pf v"
| "as_lreal pf (P_LREAL v) = v"
| "as_lreal pf p = pf_lreal pf (as_int pf p)"

text \<open>\<^verbatim>\<open>static_cast\<close> to a type; \<open>None\<close> is the default case of the switches.\<close>

fun cast_param :: "platform \<Rightarrow> TYPEID \<Rightarrow> rawparam \<Rightarrow> rawparam option" where
  "cast_param pf T_USINT p = Some (P_USINT (word_of_int (as_int pf p)))"
| "cast_param pf T_SINT p = Some (P_SINT (word_of_int (as_int pf p)))"
| "cast_param pf T_UINT p = Some (P_UINT (word_of_int (as_int pf p)))"
| "cast_param pf T_INT p = Some (P_INT (word_of_int (as_int pf p)))"
| "cast_param pf T_UDINT p = Some (P_UDINT (word_of_int (as_int pf p)))"
| "cast_param pf T_DINT p = Some (P_DINT (word_of_int (as_int pf p)))"
| "cast_param pf T_REAL p = Some (P_REAL (as_real pf p))"
| "cast_param pf T_LREAL p = Some (P_LREAL (as_lreal pf p))"
| "cast_param pf T_STRID p = Some (P_STRID (word_of_int (as_int pf p)))"
| "cast_param pf _ p = None"

definition clear_data :: bytes where "clear_data = replicate 8 0"

text \<open>\<open>junk\<close> is what the memory of the new item holds.\<close>

definition item_new :: "bytes \<Rightarrow> nat option \<Rightarrow> rSnapshotItem" where
  "item_new junk var = \<lparr>si_var = var, si_status = SS_TOASSIGN, si_data = junk\<rparr>"

definition item_fill :: "rawparam option \<Rightarrow> nat \<Rightarrow> bytes \<Rightarrow> rSnapshotItem" where
  "item_fill p k junk = (case p of None \<Rightarrow> \<lparr>si_var = Some k, si_status = SS_ERROR, si_data = clear_data\<rparr>
     | Some q \<Rightarrow> \<lparr>si_var = Some k, si_status = SS_TOWRITE, si_data = poke 0 (param_bytes q) junk\<rparr>)"

definition item_value :: "platform \<Rightarrow> varworld \<Rightarrow> bytes \<Rightarrow> nat option \<Rightarrow> rawparam \<Rightarrow> rSnapshotItem" where
  "item_value pf w junk var p = (case var of None \<Rightarrow> \<lparr>si_var = None, si_status = SS_NOTFOUND, si_data = junk\<rparr>
     | Some k \<Rightarrow> item_fill (cast_param pf (v_type (vw_vars w ! k)) p) k junk)"

section \<open>Values from texts\<close>

definition hex_digit :: "char \<Rightarrow> nat option" where
  "hex_digit c = (let n = of_char c :: nat in
     if 48 \<le> n \<and> n \<le> 57 then Some (n - 48) else if 97 \<le> n \<and> n \<le> 102 then Some (n - 87)
     else if 65 \<le> n \<and> n \<le> 70 then Some (n - 55) else None)"

text \<open>\<^verbatim>\<open>String_IsValidHex\<close>: at most eight digits.\<close>

fun valid_hex :: "string \<Rightarrow> nat \<Rightarrow> UDINT \<Rightarrow> UDINT option" where
  "valid_hex [] n v = Some v"
| "valid_hex (c # cs) n v = (if n \<ge> 8 then None else
     case hex_digit c of None \<Rightarrow> None | Some x \<Rightarrow> valid_hex cs (Suc n) (push_bit 4 v + of_nat x))"

definition is_space :: "char \<Rightarrow> bool" where
  "is_space c \<longleftrightarrow> (let n = of_char c :: nat in n = 32 \<or> (9 \<le> n \<and> n \<le> 13))"

definition is_digit :: "char \<Rightarrow> bool" where
  "is_digit c \<longleftrightarrow> (let n = of_char c :: nat in 48 \<le> n \<and> n \<le> 57)"

definition digits_value :: "string \<Rightarrow> nat" where
  "digits_value s = foldl (\<lambda>n c. 10 * n + (of_char c - 48)) 0 s"

text \<open>The number at the head of a text: its sign and its absolute value; \<open>None\<close> without digits.\<close>

definition parse_number :: "string \<Rightarrow> (bool \<times> nat) option" where
  "parse_number s0 = (let s = dropWhile is_space s0;
     neg = (s \<noteq> [] \<and> hd s = CHR ''-''); t = (if s \<noteq> [] \<and> (hd s = CHR ''-'' \<or> hd s = CHR ''+'') then List.tl s else s);
     ds = takeWhile is_digit t in if ds = [] then None else Some (neg, digits_value ds))"

text \<open>\<^verbatim>\<open>std::stol\<close> and \<^verbatim>\<open>std::stoul\<close>, which negates modulo the range of \<^verbatim>\<open>unsigned long\<close>.\<close>

definition stol :: "platform \<Rightarrow> string \<Rightarrow> int option" where
  "stol pf s = (case parse_number s of None \<Rightarrow> None | Some (neg, n) \<Rightarrow>
     let i = (if neg then - int n else int n) in
     if - (2 ^ (pf_long pf - 1)) \<le> i \<and> i < 2 ^ (pf_long pf - 1) then Some i else None)"

definition stoul :: "platform \<Rightarrow> string \<Rightarrow> int option" where
  "stoul pf s = (case parse_number s of None \<Rightarrow> None | Some (neg, n) \<Rightarrow>
     if n < 2 ^ pf_long pf then Some ((if neg then - int n else int n) mod 2 ^ pf_long pf) else None)"

text \<open>The result for a type; \<open>Inl\<close> stands for an exception, \<open>Inr None\<close> for the default case.\<close>

fun parse_typed :: "platform \<Rightarrow> TYPEID \<Rightarrow> string \<Rightarrow> unit + rawparam option" where
  "parse_typed pf T_USINT s = (case stoul pf s of None \<Rightarrow> Inl () | Some i \<Rightarrow> Inr (Some (P_USINT (word_of_int i))))"
| "parse_typed pf T_SINT s = (case stol pf s of None \<Rightarrow> Inl () | Some i \<Rightarrow> Inr (Some (P_SINT (word_of_int i))))"
| "parse_typed pf T_UINT s = (case stoul pf s of None \<Rightarrow> Inl () | Some i \<Rightarrow> Inr (Some (P_UINT (word_of_int i))))"
| "parse_typed pf T_INT s = (case stol pf s of None \<Rightarrow> Inl () | Some i \<Rightarrow> Inr (Some (P_INT (word_of_int i))))"
| "parse_typed pf T_UDINT s = (case stoul pf s of None \<Rightarrow> Inl () | Some i \<Rightarrow> Inr (Some (P_UDINT (word_of_int i))))"
| "parse_typed pf T_DINT s = (case stol pf s of None \<Rightarrow> Inl () | Some i \<Rightarrow> Inr (Some (P_DINT (word_of_int i))))"
| "parse_typed pf T_REAL s = (case pf_stof pf s of None \<Rightarrow> Inl () | Some v \<Rightarrow> Inr (Some (P_REAL v)))"
| "parse_typed pf T_LREAL s = (case pf_stod pf s of None \<Rightarrow> Inl () | Some v \<Rightarrow> Inr (Some (P_LREAL v)))"
| "parse_typed pf T_STRID s = (case stoul pf s of None \<Rightarrow> Inl () | Some i \<Rightarrow> Inr (Some (P_STRID (word_of_int i))))"
| "parse_typed pf _ s = Inr None"

definition is_hex_text :: "string \<Rightarrow> bool" where
  "is_hex_text s \<longleftrightarrow> length s \<ge> 3 \<and> s ! 0 = CHR ''0'' \<and> (s ! 1 = CHR ''x'' \<or> s ! 1 = CHR ''X'')"

text \<open>
  An item from a text. Without a variable the constructor returns before it sets anything; for a
  bad hexadecimal number it returns before it sets the data.
\<close>

definition item_text :: "platform \<Rightarrow> varworld \<Rightarrow> rSnapshotItem \<Rightarrow> nat option \<Rightarrow> string \<Rightarrow> rSnapshotItem" where
  "item_text pf w junk var s = (case var of None \<Rightarrow> junk
     | Some k \<Rightarrow> let t = v_type (vw_vars w ! k); c = takeWhile (\<lambda>x. x \<noteq> CHR 0x00) s in
         if is_hex_text s
         then (case valid_hex (drop 2 c) 0 0 of None \<Rightarrow> \<lparr>si_var = Some k, si_status = SS_TOWRITE, si_data = si_data junk\<rparr>
               | Some n \<Rightarrow> item_fill (cast_param pf t (if t \<in> {T_SINT, T_INT, T_DINT} then P_DINT n else P_UDINT n)) k (si_data junk))
         else (case parse_typed pf t c of Inl _ \<Rightarrow> \<lparr>si_var = Some k, si_status = SS_ERROR, si_data = clear_data\<rparr>
               | Inr p \<Rightarrow> item_fill p k (si_data junk)))"

definition item_buffer :: "varworld \<Rightarrow> rSnapshotItem \<Rightarrow> nat option \<Rightarrow> bytes \<Rightarrow> rSnapshotItem" where
  "item_buffer w junk var buf = (case var of None \<Rightarrow> junk
     | Some k \<Rightarrow> \<lparr>si_var = Some k, si_status = SS_TOWRITE, si_data = poke 0 (take (v_size (vw_vars w ! k)) buf) (si_data junk)\<rparr>)"

text \<open>The getters: the value as the type \<open>x\<close>, and the item, whose status they may change.\<close>

definition item_getValue :: "platform \<Rightarrow> varworld \<Rightarrow> TYPEID \<Rightarrow> rSnapshotItem \<Rightarrow> rawparam option \<times> rSnapshotItem" where
  "item_getValue pf w x it = (case si_var it of None \<Rightarrow> (cast_param pf x (P_UDINT 0), it)
     | Some k \<Rightarrow> if si_status it \<noteq> SS_ASSIGNED \<and> si_status it \<noteq> SS_WRITED then (cast_param pf x (P_UDINT 0), it)
         else (case param_read (v_type (vw_vars w ! k)) (si_data it) of
            None \<Rightarrow> (cast_param pf x (P_UDINT 0), it\<lparr>si_status := SS_ERROR\<rparr>)
          | Some p \<Rightarrow> (cast_param pf x p, it)))"

definition item_getSizeVar :: "varworld \<Rightarrow> rSnapshotItem \<Rightarrow> nat" where
  "item_getSizeVar w it = (case si_var it of None \<Rightarrow> 0 | Some k \<Rightarrow> v_size (vw_vars w ! k))"

definition item_getBuffer :: "varworld \<Rightarrow> rSnapshotItem \<Rightarrow> bytes option" where
  "item_getBuffer w it = (if si_status it \<noteq> SS_ASSIGNED then None else Some (take (item_getSizeVar w it) (si_data it)))"

section \<open>Reading and writing\<close>

text \<open>
  The flag of a mirror is only set together with its buffers, so a flagged variable without them is
  not in the program; the model lets it have memory.
\<close>

definition hidden_from :: "UDINT \<Rightarrow> rVariable \<Rightarrow> bool" where
  "hidden_from acc v \<longleftrightarrow> isHide v \<and> acc AND ACCESS_MASK_VIEWHIDE = 0"

definition class_get_item :: "UDINT \<Rightarrow> varworld \<Rightarrow> rSnapshotItem \<Rightarrow> rSnapshotItem" where
  "class_get_item acc w it = (case si_var it of None \<Rightarrow> it
     | Some k \<Rightarrow> let v = vw_vars w ! k in
         if si_status it \<noteq> SS_TOASSIGN then it
         else if hidden_from acc v then it\<lparr>si_status := SS_NOTFOUND\<rparr>
         else let n = v_size v;
                  src = (case v_external v of Some e \<Rightarrow> if isExternal v then take n (ex_read e) else mem_read (vw_mem w) (v_pointer v) n
                         | None \<Rightarrow> mem_read (vw_mem w) (v_pointer v) n)
              in it\<lparr>si_data := poke 0 src (si_data it), si_status := SS_ASSIGNED\<rparr>)"

definition class_get :: "UDINT \<Rightarrow> varworld \<Rightarrow> rSnapshotItem list \<Rightarrow> rSnapshotItem list" where
  "class_get acc w its = List.map (class_get_item acc w) its"

text \<open>Where a value goes: the buffer of a mirror or the memory behind the pointer.\<close>

definition var_store :: "nat \<Rightarrow> bytes \<Rightarrow> varworld \<Rightarrow> varworld" where
  "var_store k bs w = (let v = vw_vars w ! k in
     case v_external v of Some e \<Rightarrow>
       if isExternal v then upd_var k (\<lambda>v. v\<lparr>v_external := Some (e\<lparr>ex_write := poke 0 bs (ex_write e), ex_isWrited := True\<rparr>)\<rparr>) w
       else w\<lparr>vw_mem := mem_write (v_pointer v) bs (vw_mem w)\<rparr>
     | None \<Rightarrow> w\<lparr>vw_mem := mem_write (v_pointer v) bs (vw_mem w)\<rparr>)"

definition class_set_item :: "UDINT \<Rightarrow> rSnapshotItem \<Rightarrow> varworld \<Rightarrow> rSnapshotItem \<times> varworld" where
  "class_set_item acc it w = (case si_var it of None \<Rightarrow> (it, w)
     | Some k \<Rightarrow> let v = vw_vars w ! k in
         if si_status it \<noteq> SS_TOWRITE then (it, w)
         else if hidden_from acc v then (it\<lparr>si_status := SS_NOTFOUND\<rparr>, w)
         else if isReadonly v \<and> \<not> (isSUWrite v \<and> acc AND ACCESS_SA \<noteq> 0) then (it\<lparr>si_status := SS_READONLY\<rparr>, w)
         else if v_access v AND acc \<noteq> v_access v then (it\<lparr>si_status := SS_ACCESSDENIED\<rparr>, w)
         else let w1 = var_store k (take (v_size v) (si_data it)) w
              in (it\<lparr>si_status := SS_WRITED\<rparr>, w1\<lparr>vw_save := vw_save w1 \<or> isDumped v\<rparr>))"

fun class_set :: "UDINT \<Rightarrow> rSnapshotItem list \<Rightarrow> varworld \<Rightarrow> rSnapshotItem list \<times> varworld" where
  "class_set acc [] w = ([], w)"
| "class_set acc (it # its) w = (case class_set_item acc it w of (it', w1) \<Rightarrow>
     case class_set acc its w1 of (its', w2) \<Rightarrow> (it' # its', w2))"

definition class_getAllVariables :: "varworld \<Rightarrow> bytes \<Rightarrow> varlist \<Rightarrow> rSnapshotItem list" where
  "class_getAllVariables w junk l = List.map (\<lambda>k. item_new junk (Some k)) (List.filter (\<lambda>k. \<not> isHide (vw_vars w ! k)) l)"

section \<open>Snapshots\<close>

definition toAssign :: "rSnapshotItem \<Rightarrow> rSnapshotItem" where "toAssign it = it\<lparr>si_status := SS_TOASSIGN\<rparr>"
definition item_reset :: "rSnapshotItem \<Rightarrow> rSnapshotItem" where "item_reset it = it\<lparr>si_status := SS_UNDEF\<rparr>"

text \<open>The list of variables is that of the class of the snapshot, if it has one.\<close>

definition findVar :: "(string \<Rightarrow> UDINT) \<Rightarrow> varworld \<Rightarrow> varlist option \<Rightarrow> string \<Rightarrow> nat option" where
  "findVar h w cls name = (case cls of None \<Rightarrow> None | Some l \<Rightarrow> list_find h w name l)"

definition snapshot_add :: "rSnapshotItem \<Rightarrow> rSnapshotItem list \<Rightarrow> rSnapshotItem list" where
  "snapshot_add it its = its @ [item_reset it]"

definition snapshot_add_name :: "(string \<Rightarrow> UDINT) \<Rightarrow> varworld \<Rightarrow> varlist option \<Rightarrow> bytes \<Rightarrow> string \<Rightarrow> rSnapshotItem list
    \<Rightarrow> rSnapshotItem list \<times> nat option" where
  "snapshot_add_name h w cls junk name its = (let var = findVar h w cls name in (its @ [item_new junk var], var))"

definition snapshot_add_value :: "(string \<Rightarrow> UDINT) \<Rightarrow> platform \<Rightarrow> varworld \<Rightarrow> varlist option \<Rightarrow> bytes \<Rightarrow> string \<Rightarrow> rawparam
    \<Rightarrow> rSnapshotItem list \<Rightarrow> rSnapshotItem list \<times> nat option" where
  "snapshot_add_value h pf w cls junk name p its = (let var = findVar h w cls name in (its @ [item_value pf w junk var p], var))"

definition snapshot_add_text :: "(string \<Rightarrow> UDINT) \<Rightarrow> platform \<Rightarrow> varworld \<Rightarrow> varlist option \<Rightarrow> rSnapshotItem \<Rightarrow> string \<Rightarrow> string
    \<Rightarrow> rSnapshotItem list \<Rightarrow> rSnapshotItem list \<times> nat option" where
  "snapshot_add_text h pf w cls junk name s its = (let var = findVar h w cls name in (its @ [item_text pf w junk var s], var))"

definition snapshot_add_buffer :: "(string \<Rightarrow> UDINT) \<Rightarrow> varworld \<Rightarrow> varlist option \<Rightarrow> rSnapshotItem \<Rightarrow> string \<Rightarrow> bytes
    \<Rightarrow> rSnapshotItem list \<Rightarrow> rSnapshotItem list \<times> nat option" where
  "snapshot_add_buffer h w cls junk name buf its = (let var = findVar h w cls name in (its @ [item_buffer w junk var buf], var))"

definition snapshot_nth :: "rSnapshotItem list \<Rightarrow> UDINT \<Rightarrow> rSnapshotItem option" where
  "snapshot_nth its i = (if unat i \<ge> length its then None else Some (its ! unat i))"

definition snapshot_find :: "varworld \<Rightarrow> string \<Rightarrow> rSnapshotItem list \<Rightarrow> rSnapshotItem option" where
  "snapshot_find w name its = find (\<lambda>it. case si_var it of None \<Rightarrow> False | Some k \<Rightarrow> v_name (vw_vars w ! k) = name) its"

definition resetAssign :: "rSnapshotItem list \<Rightarrow> rSnapshotItem list" where
  "resetAssign its = List.map toAssign its"

definition snapshot_get :: "UDINT \<Rightarrow> bool \<Rightarrow> varworld \<Rightarrow> rSnapshotItem list \<Rightarrow> bool \<times> rSnapshotItem list" where
  "snapshot_get acc cls w its = (if \<not> cls then (False, its) else (True, class_get acc w its))"

definition snapshot_set :: "UDINT \<Rightarrow> bool \<Rightarrow> rSnapshotItem list \<Rightarrow> varworld \<Rightarrow> bool \<times> rSnapshotItem list \<times> varworld" where
  "snapshot_set acc cls its w = (if \<not> cls then (False, its, w) else (True, class_set acc its w))"

section \<open>Values of saved variables\<close>

text \<open>\<^verbatim>\<open>std::stoi\<close>: an \<^verbatim>\<open>int\<close> has 32 bits.\<close>

definition stoi :: "platform \<Rightarrow> string \<Rightarrow> int option" where
  "stoi pf s = (case stol pf s of None \<Rightarrow> None
     | Some i \<Rightarrow> if - (2 ^ 31) \<le> i \<and> i < 2 ^ 31 then Some i else None)"

fun parse_saved :: "platform \<Rightarrow> TYPEID \<Rightarrow> string \<Rightarrow> unit + rawparam option" where
  "parse_saved pf T_SINT s = (case stoi pf s of None \<Rightarrow> Inl () | Some i \<Rightarrow> Inr (Some (P_SINT (word_of_int i))))"
| "parse_saved pf T_INT s = (case stoi pf s of None \<Rightarrow> Inl () | Some i \<Rightarrow> Inr (Some (P_INT (word_of_int i))))"
| "parse_saved pf T_DINT s = (case stoi pf s of None \<Rightarrow> Inl () | Some i \<Rightarrow> Inr (Some (P_DINT (word_of_int i))))"
| "parse_saved pf T_STRID s = (case stoul pf s of None \<Rightarrow> Inl () | Some i \<Rightarrow> Inr (Some (P_UDINT (word_of_int i))))"
| "parse_saved pf t s = parse_typed pf t s"

text \<open>\<open>None\<close> is an exception. The text goes to the pointer, also for a mirror.\<close>

definition stringToValue :: "platform \<Rightarrow> nat \<Rightarrow> string \<Rightarrow> varworld \<Rightarrow> varworld option" where
  "stringToValue pf k s w = (let v = vw_vars w ! k in
     case parse_saved pf (v_type v) s of Inl _ \<Rightarrow> None
     | Inr None \<Rightarrow> Some w
     | Inr (Some p) \<Rightarrow> Some (w\<lparr>vw_mem := mem_write (v_pointer v) (param_bytes p) (vw_mem w)\<rparr>))"

section \<open>Mirrors in another class\<close>

text \<open>One variable of \<^verbatim>\<open>writeExt\<close>: the memory of \<open>k\<close> to the buffer its mirror is read from.\<close>

definition write_ext :: "nat \<Rightarrow> varworld \<Rightarrow> varworld" where
  "write_ext k w = (let v = vw_vars w ! k in
     case v_external v of None \<Rightarrow> w
     | Some e \<Rightarrow> if v_pointer v = 0 then w
         else let j = ex_var e; l = vw_vars w ! j in
           (case v_external l of None \<Rightarrow> w
            | Some le \<Rightarrow> if \<not> isExternal l \<or> ex_var le \<noteq> k then w
                else upd_var j (\<lambda>l. l\<lparr>v_external := Some (le\<lparr>ex_read := poke 0 (mem_read (vw_mem w) (v_pointer v) (v_size v)) (ex_read le)\<rparr>)\<rparr>) w))"

text \<open>One variable of \<^verbatim>\<open>readExt\<close>: what was written to its mirror, to the memory of \<open>k\<close>.\<close>

definition read_ext :: "nat \<Rightarrow> varworld \<Rightarrow> varworld" where
  "read_ext k w = (let v = vw_vars w ! k in
     case v_external v of None \<Rightarrow> w
     | Some e \<Rightarrow> let j = ex_var e; l = vw_vars w ! j in
         (case v_external l of None \<Rightarrow> w
          | Some le \<Rightarrow> if \<not> isExternal l \<or> ex_var le \<noteq> k \<or> \<not> ex_isWrited le then w
              else (upd_var j (\<lambda>l. l\<lparr>v_external := Some (le\<lparr>ex_isWrited := False\<rparr>)\<rparr>) w)
                     \<lparr>vw_mem := mem_write (v_pointer v) (take (v_size v) (ex_write le)) (vw_mem w)\<rparr>))"

text \<open>\<open>linked\<close> is whether the class is linked to another one.\<close>

definition class_processing :: "bool \<Rightarrow> varlist \<Rightarrow> varworld \<Rightarrow> varworld" where
  "class_processing linked l w = (if linked then fold read_ext l (fold write_ext l w) else w)"

text \<open>\<^verbatim>\<open>addExternal\<close>: the variables of \<open>ext\<close> whose names \<open>l\<close> does not have.\<close>

fun addExternal :: "(string \<Rightarrow> UDINT) \<Rightarrow> varlist \<Rightarrow> varlist \<times> varworld \<Rightarrow> varlist \<times> varworld" where
  "addExternal h [] lw = lw"
| "addExternal h (k # ks) (l, w) =
     (if list_find h w (v_name (vw_vars w ! k)) l \<noteq> None then addExternal h ks (l, w)
      else case variable_mirror k w of (w1, m) \<Rightarrow> addExternal h ks (l @ [m], w1))"

section \<open>Who may write what\<close>

definition set_allowed :: "UDINT \<Rightarrow> rVariable \<Rightarrow> bool" where
  "set_allowed acc v \<longleftrightarrow> \<not> hidden_from acc v \<and> (isReadonly v \<longrightarrow> isSUWrite v \<and> acc AND ACCESS_SA \<noteq> 0)
     \<and> v_access v AND acc = v_access v"

text \<open>What the setting leaves as it is: everything but the buffers of mirrors.\<close>

definition var_attrs :: "rVariable \<Rightarrow> rVariable" where
  "var_attrs v = v\<lparr>v_external := map_option (\<lambda>e. external_new (ex_var e)) (v_external v)\<rparr>"

lemma var_attrs_simps [simp]:
  "v_hash (var_attrs v) = v_hash v" "v_name (var_attrs v) = v_name v" "v_type (var_attrs v) = v_type v"
  "v_flags (var_attrs v) = v_flags v" "v_unit (var_attrs v) = v_unit v" "v_access (var_attrs v) = v_access v"
  "v_pointer (var_attrs v) = v_pointer v"
  "v_external (var_attrs v) = map_option (\<lambda>e. external_new (ex_var e)) (v_external v)"
  by (simp_all add: var_attrs_def)

lemma var_attrs_external [simp]:
  "map_option ex_var e = map_option ex_var (v_external v) \<Longrightarrow> var_attrs (v\<lparr>v_external := e\<rparr>) = var_attrs v"
  by (cases e; cases "v_external v") (simp_all add: var_attrs_def)

lemma set_allowed_attrs: "var_attrs v = var_attrs v' \<Longrightarrow> set_allowed acc v = set_allowed acc v'"
  unfolding set_allowed_def hidden_from_def isHide_def isReadonly_def isSUWrite_def
  by (metis var_attrs_simps(4,6))

definition same_attrs :: "varworld \<Rightarrow> varworld \<Rightarrow> bool" where
  "same_attrs w w' \<longleftrightarrow> List.map var_attrs (vw_vars w') = List.map var_attrs (vw_vars w)"

lemma same_attrs_refl [simp]: "same_attrs w w"
  by (simp add: same_attrs_def)

lemma same_attrs_trans: "same_attrs w w1 \<Longrightarrow> same_attrs w1 w2 \<Longrightarrow> same_attrs w w2"
  by (simp add: same_attrs_def)

lemma same_attrs_length: "same_attrs w w' \<Longrightarrow> length (vw_vars w') = length (vw_vars w)"
  unfolding same_attrs_def by (metis length_map)

lemma same_attrs_nth: "same_attrs w w' \<Longrightarrow> k < length (vw_vars w) \<Longrightarrow> var_attrs (vw_vars w' ! k) = var_attrs (vw_vars w ! k)"
  unfolding same_attrs_def by (metis length_map nth_map)

lemma upd_var_attrs: "var_attrs (f (vw_vars w ! k)) = var_attrs (vw_vars w ! k) \<Longrightarrow> same_attrs w (upd_var k f w)"
  by (cases "k < length (vw_vars w)")
    (simp_all add: same_attrs_def upd_var_def map_update list_update_same_conv list_update_beyond)

lemma same_attrs_mem [simp]: "same_attrs w (w'\<lparr>vw_mem := m\<rparr>) = same_attrs w w'" "same_attrs w (w'\<lparr>vw_save := s\<rparr>) = same_attrs w w'"
  by (simp_all add: same_attrs_def)

lemma var_store_attrs: "same_attrs w (var_store k bs w)"
  by (simp add: var_store_def Let_def upd_var_attrs split: option.splits)

lemma class_set_item_attrs: "class_set_item acc it w = (it', w') \<Longrightarrow> same_attrs w w'"
  by (auto simp: class_set_item_def Let_def var_store_attrs split: option.splits if_splits)

text \<open>A variable whose values go to the buffers, and the bytes behind the pointer of the others.\<close>

definition mirrored :: "rVariable \<Rightarrow> bool" where
  "mirrored v \<longleftrightarrow> isExternal v \<and> v_external v \<noteq> None"

lemma mirrored_attrs: "var_attrs v = var_attrs v' \<Longrightarrow> mirrored v = mirrored v'"
  unfolding mirrored_def isExternal_def by (metis option.map_disc_iff var_attrs_simps(4,8))

definition var_region :: "rVariable \<Rightarrow> nat set" where
  "var_region v = {v_pointer v ..< v_pointer v + v_size v}"

text \<open>What an item becomes, and which items change their variables.\<close>

definition set_verdict :: "UDINT \<Rightarrow> rVariable \<Rightarrow> item_status" where
  "set_verdict acc v = (if hidden_from acc v then SS_NOTFOUND
     else if isReadonly v \<and> \<not> (isSUWrite v \<and> acc AND ACCESS_SA \<noteq> 0) then SS_READONLY
     else if v_access v AND acc \<noteq> v_access v then SS_ACCESSDENIED else SS_WRITED)"

definition set_status :: "UDINT \<Rightarrow> varworld \<Rightarrow> rSnapshotItem \<Rightarrow> item_status" where
  "set_status acc w it = (case si_var it of None \<Rightarrow> si_status it
     | Some k \<Rightarrow> if si_status it \<noteq> SS_TOWRITE then si_status it else set_verdict acc (vw_vars w ! k))"

definition item_writes :: "UDINT \<Rightarrow> varworld \<Rightarrow> nat \<Rightarrow> rSnapshotItem \<Rightarrow> bool" where
  "item_writes acc w k it \<longleftrightarrow> si_var it = Some k \<and> si_status it = SS_TOWRITE \<and> set_allowed acc (vw_vars w ! k)"

lemma set_verdict_attrs: "var_attrs v = var_attrs v' \<Longrightarrow> set_verdict acc v = set_verdict acc v'"
proof -
  assume a: "var_attrs v = var_attrs v'"
  have "v_flags v = v_flags v'" "v_access v = v_access v'"
    using arg_cong[OF a, of v_flags] arg_cong[OF a, of v_access] by simp_all
  then show ?thesis
    by (simp only: set_verdict_def hidden_from_def isHide_def isReadonly_def isSUWrite_def)
qed

lemma set_status_attrs:
  assumes s: "same_attrs w w'" and k: "\<And>k. si_var it = Some k \<Longrightarrow> k < length (vw_vars w)"
  shows "set_status acc w' it = set_status acc w it"
proof (cases "si_var it")
  case (Some j)
  then show ?thesis using set_verdict_attrs[OF same_attrs_nth[OF s k]] by (simp add: set_status_def)
qed (simp add: set_status_def)

lemma item_writes_attrs: "same_attrs w w' \<Longrightarrow> k < length (vw_vars w) \<Longrightarrow> item_writes acc w' k it = item_writes acc w k it"
  unfolding item_writes_def using same_attrs_nth set_allowed_attrs by blast

lemma class_set_item_status: "class_set_item acc it w = (it', w') \<Longrightarrow> it' = it\<lparr>si_status := set_status acc w it\<rparr>"
  by (auto simp: class_set_item_def set_status_def set_verdict_def Let_def split: option.splits if_splits)

lemma mem_write_outside: "a \<notin> {p ..< p + length bs} \<Longrightarrow> mem_write p bs m a = m a"
  by (auto simp: mem_write_def)

lemma var_store_mem:
  "vw_mem (var_store k bs w) = (if mirrored (vw_vars w ! k) then vw_mem w else mem_write (v_pointer (vw_vars w ! k)) bs (vw_mem w))"
  by (simp add: var_store_def Let_def mirrored_def upd_var_def split: option.split)

lemma var_store_outside:
  assumes "a \<notin> var_region (vw_vars w ! k) \<or> mirrored (vw_vars w ! k)"
  shows "vw_mem (var_store k (take (v_size (vw_vars w ! k)) d) w) a = vw_mem w a"
proof (cases "mirrored (vw_vars w ! k)")
  case False
  then have "a \<notin> {v_pointer (vw_vars w ! k) ..< v_pointer (vw_vars w ! k) + length (take (v_size (vw_vars w ! k)) d)}"
    using assms by (auto simp: var_region_def)
  then show ?thesis using False by (simp only: var_store_mem mem_write_outside if_False not_False_eq_True)
qed (simp add: var_store_mem)

lemma class_set_item_changes:
  assumes c: "class_set_item acc it w = (it', w')"
  obtains "vw_mem w' = vw_mem w" "vw_vars w' = vw_vars w"
  | k where "item_writes acc w k it" "vw_mem w' = vw_mem (var_store k (take (v_size (vw_vars w ! k)) (si_data it)) w)"
      "vw_vars w' = vw_vars (var_store k (take (v_size (vw_vars w ! k)) (si_data it)) w)"
proof (cases "\<exists>k. item_writes acc w k it")
  case True
  then obtain k where k: "item_writes acc w k it" by blast
  then have "class_set_item acc it w = (it\<lparr>si_status := SS_WRITED\<rparr>,
      (let w1 = var_store k (take (v_size (vw_vars w ! k)) (si_data it)) w in w1\<lparr>vw_save := vw_save w1 \<or> isDumped (vw_vars w ! k)\<rparr>))"
    by (auto simp: item_writes_def set_allowed_def class_set_item_def Let_def)
  then show ?thesis using that(2)[OF k] c by (simp add: Let_def)
next
  case False
  then have "w' = w"
    using c by (auto simp: class_set_item_def item_writes_def set_allowed_def Let_def split: option.splits if_splits)
  then show ?thesis using that(1) by simp
qed

lemma class_set_item_mem:
  assumes c: "class_set_item acc it w = (it', w')" and ch: "vw_mem w' a \<noteq> vw_mem w a"
  shows "\<exists>k. item_writes acc w k it \<and> \<not> mirrored (vw_vars w ! k) \<and> a \<in> var_region (vw_vars w ! k)"
  using c
proof (rule class_set_item_changes)
  fix k assume k: "item_writes acc w k it" and m: "vw_mem w' = vw_mem (var_store k (take (v_size (vw_vars w ! k)) (si_data it)) w)"
  have "\<not> (a \<notin> var_region (vw_vars w ! k) \<or> mirrored (vw_vars w ! k))"
    using ch var_store_outside unfolding m by blast
  then show ?thesis using k by blast
qed (use ch in simp)

lemma class_set_item_vars:
  assumes c: "class_set_item acc it w = (it', w')" and ch: "vw_vars w' ! j \<noteq> vw_vars w ! j"
  shows "item_writes acc w j it \<and> mirrored (vw_vars w ! j)"
  using c
proof (rule class_set_item_changes)
  fix k assume k: "item_writes acc w k it" and v: "vw_vars w' = vw_vars (var_store k (take (v_size (vw_vars w ! k)) (si_data it)) w)"
  have "j = k \<and> mirrored (vw_vars w ! k)"
    using ch v by (cases "j = k") (auto simp: var_store_def Let_def upd_var_def mirrored_def split: option.splits if_splits)
  then show ?thesis using k by simp
qed (use ch in simp)

lemma var_region_attrs: "var_attrs v = var_attrs v' \<Longrightarrow> var_region v = var_region v'"
  unfolding var_region_def v_size_def by (metis var_attrs_simps(3,7))

lemmas attrs_eq = set_allowed_attrs mirrored_attrs var_region_attrs

definition items_in :: "varworld \<Rightarrow> rSnapshotItem list \<Rightarrow> bool" where
  "items_in w its \<longleftrightarrow> list_all (\<lambda>it. case si_var it of None \<Rightarrow> True | Some k \<Rightarrow> k < length (vw_vars w)) its"

lemma items_in_Cons: "items_in w (it # its) \<longleftrightarrow> (\<forall>k. si_var it = Some k \<longrightarrow> k < length (vw_vars w)) \<and> items_in w its"
  by (auto simp: items_in_def split: option.split)

lemma items_in_attrs: "same_attrs w w' \<Longrightarrow> items_in w' its = items_in w its"
  by (simp only: items_in_def same_attrs_length)

text \<open>Which item changes the memory at an address.\<close>

definition writes_at :: "UDINT \<Rightarrow> varworld \<Rightarrow> rSnapshotItem list \<Rightarrow> nat \<Rightarrow> bool" where
  "writes_at acc w its a \<longleftrightarrow> (\<exists>it \<in> set its. \<exists>k. item_writes acc w k it \<and> \<not> mirrored (vw_vars w ! k) \<and> a \<in> var_region (vw_vars w ! k))"

definition writes_buffer :: "UDINT \<Rightarrow> varworld \<Rightarrow> rSnapshotItem list \<Rightarrow> nat \<Rightarrow> bool" where
  "writes_buffer acc w its j \<longleftrightarrow> (\<exists>it \<in> set its. item_writes acc w j it \<and> mirrored (vw_vars w ! j))"

lemma writes_Cons:
  "writes_at acc w (it # its) a \<longleftrightarrow> (\<exists>k. item_writes acc w k it \<and> \<not> mirrored (vw_vars w ! k) \<and> a \<in> var_region (vw_vars w ! k)) \<or> writes_at acc w its a"
  "writes_buffer acc w (it # its) j \<longleftrightarrow> (item_writes acc w j it \<and> mirrored (vw_vars w ! j)) \<or> writes_buffer acc w its j"
  by (auto simp: writes_at_def writes_buffer_def)

lemma writes_attrs:
  assumes s: "same_attrs w w1" and i: "items_in w its"
  shows "writes_at acc w1 its a \<Longrightarrow> writes_at acc w its a" "writes_buffer acc w1 its j \<Longrightarrow> writes_buffer acc w its j"
proof -
  have eq: "item_writes acc w1 k it = item_writes acc w k it \<and> (item_writes acc w k it \<longrightarrow> mirrored (vw_vars w1 ! k) = mirrored (vw_vars w ! k)
      \<and> var_region (vw_vars w1 ! k) = var_region (vw_vars w ! k))" if "it \<in> set its" for it k
  proof (cases "si_var it = Some k")
    case True
    then have "k < length (vw_vars w)" using i that unfolding items_in_def list_all_iff by fastforce
    then show ?thesis using item_writes_attrs[OF s] attrs_eq[OF same_attrs_nth[OF s]] by blast
  qed (simp add: item_writes_def)
  show "writes_at acc w1 its a \<Longrightarrow> writes_at acc w its a" using eq unfolding writes_at_def by blast
  show "writes_buffer acc w1 its j \<Longrightarrow> writes_buffer acc w its j" using eq unfolding writes_buffer_def by blast
qed

lemma class_set_effect:
  "class_set acc its w = (its', w') \<Longrightarrow> items_in w its \<Longrightarrow>
    its' = List.map (\<lambda>it. it\<lparr>si_status := set_status acc w it\<rparr>) its \<and> same_attrs w w' \<and>
    (\<forall>a. vw_mem w' a \<noteq> vw_mem w a \<longrightarrow> writes_at acc w its a) \<and>
    (\<forall>j. vw_vars w' ! j \<noteq> vw_vars w ! j \<longrightarrow> writes_buffer acc w its j)"
proof (induction its arbitrary: w its')
  case (Cons it its)
  obtain it1 w1 where 1: "class_set_item acc it w = (it1, w1)" by fastforce
  obtain its2 where 2: "class_set acc its w1 = (its2, w')" and its': "its' = it1 # its2"
    using Cons.prems(1) 1 by (auto split: prod.splits)
  note s = class_set_item_attrs[OF 1]
  have i: "items_in w its" using Cons.prems(2) by (simp add: items_in_Cons)
  note IH = Cons.IH[OF 2, unfolded items_in_attrs[OF s], OF i]
  have st: "List.map (\<lambda>it. it\<lparr>si_status := set_status acc w1 it\<rparr>) its = List.map (\<lambda>it. it\<lparr>si_status := set_status acc w it\<rparr>) its"
    using i set_status_attrs[OF s] by (auto simp: items_in_def list_all_iff split: option.splits)
  have "writes_at acc w (it # its) a" if "vw_mem w' a \<noteq> vw_mem w a" for a
    using class_set_item_mem[OF 1, of a] IH that writes_attrs(1)[OF s i, of acc a]
    unfolding writes_Cons by metis
  moreover have "writes_buffer acc w (it # its) j" if "vw_vars w' ! j \<noteq> vw_vars w ! j" for j
    using class_set_item_vars[OF 1, of j] IH that writes_attrs(2)[OF s i, of acc j]
    unfolding writes_Cons by metis
  ultimately show ?case
    using IH st class_set_item_status[OF 1] same_attrs_trans[OF s] by (simp add: its')
qed simp

section \<open>The way of a written value\<close>

lemma cast_param_type: "cast_param pf t p = Some q \<Longrightarrow> param_type q = t"
  by (cases t) auto

lemma cast_param_size: "cast_param pf (v_type v) p = Some q \<Longrightarrow> param_size q = v_size v"
  by (simp add: param_size_def v_size_def cast_param_type)

lemma poke_0: "poke 0 ys xs = ys @ drop (length ys) xs"
  by (simp add: poke_def)

lemma class_set_single:
  assumes "set_allowed acc (vw_vars w ! k)"
  shows "snd (class_set acc [\<lparr>si_var = Some k, si_status = SS_TOWRITE, si_data = d\<rparr>] w)
    = (var_store k (take (v_size (vw_vars w ! k)) d) w)\<lparr>vw_save := vw_save w \<or> isDumped (vw_vars w ! k)\<rparr>"
proof -
  have "vw_save (var_store k bs w) = vw_save w" for bs
    by (simp add: var_store_def Let_def upd_var_def split: option.splits)
  then show ?thesis using assms by (auto simp: class_set_item_def set_allowed_def Let_def)
qed

text \<open>What a reader finds in a variable.\<close>

definition var_shows :: "UDINT \<Rightarrow> varworld \<Rightarrow> bytes \<Rightarrow> nat \<Rightarrow> bytes option" where
  "var_shows acc w junk k = item_getBuffer w (class_get_item acc w (item_new junk (Some k)))"

lemma var_shows_memory:
  assumes "\<not> mirrored (vw_vars w ! k)" "\<not> hidden_from acc (vw_vars w ! k)"
  shows "var_shows acc w junk k = Some (mem_read (vw_mem w) (v_pointer (vw_vars w ! k)) (v_size (vw_vars w ! k)))"
  using assms by (auto simp: var_shows_def class_get_item_def item_new_def item_getBuffer_def item_getSizeVar_def Let_def mirrored_def poke_0 split: option.splits)

lemma var_shows_mirror:
  assumes "v_external (vw_vars w ! k) = Some e" "isExternal (vw_vars w ! k)" "\<not> hidden_from acc (vw_vars w ! k)"
    "v_size (vw_vars w ! k) \<le> length (ex_read e)"
  shows "var_shows acc w junk k = Some (take (v_size (vw_vars w ! k)) (ex_read e))"
  using assms by (auto simp: var_shows_def class_get_item_def item_new_def item_getBuffer_def item_getSizeVar_def Let_def poke_0 min_def)

text \<open>\<open>k\<close> and its mirror \<open>m\<close> in another class.\<close>

definition paired :: "varworld \<Rightarrow> nat \<Rightarrow> nat \<Rightarrow> bool" where
  "paired w k m \<longleftrightarrow> k < length (vw_vars w) \<and> m < length (vw_vars w) \<and> k \<noteq> m \<and>
     map_option ex_var (v_external (vw_vars w ! k)) = Some m \<and> map_option ex_var (v_external (vw_vars w ! m)) = Some k \<and>
     isExternal (vw_vars w ! m) \<and> v_pointer (vw_vars w ! k) \<noteq> 0 \<and> v_type (vw_vars w ! m) = v_type (vw_vars w ! k)"

definition mirror_of :: "varworld \<Rightarrow> nat \<Rightarrow> rExternal" where
  "mirror_of w m = the (v_external (vw_vars w ! m))"

lemma pairedD:
  assumes "paired w k m"
  obtains e where "v_external (vw_vars w ! k) = Some e" "ex_var e = m" "v_external (vw_vars w ! m) = Some (mirror_of w m)"
    "ex_var (mirror_of w m) = k" "isExternal (vw_vars w ! m)" "v_pointer (vw_vars w ! k) \<noteq> 0" "m < length (vw_vars w)"
  using assms unfolding paired_def mirror_of_def by auto

lemma paired_attrs:
  assumes s: "same_attrs w w'" and p: "paired w k m"
  shows "paired w' k m"
proof -
  have l: "length (vw_vars w') = length (vw_vars w)" by (rule same_attrs_length[OF s])
  have k: "k < length (vw_vars w)" "m < length (vw_vars w)" using p by (auto simp: paired_def)
  note a = same_attrs_nth[OF s k(1)] and b = same_attrs_nth[OF s k(2)]
  have ext: "map_option ex_var (v_external x) = map_option ex_var (v_external (var_attrs x))" for x
    by (cases "v_external x") (simp_all add: external_new_def)
  have "v_pointer (vw_vars w' ! k) = v_pointer (vw_vars w ! k)" "v_type (vw_vars w' ! k) = v_type (vw_vars w ! k)"
    "v_type (vw_vars w' ! m) = v_type (vw_vars w ! m)" "v_flags (vw_vars w' ! m) = v_flags (vw_vars w ! m)"
    using arg_cong[OF a, of v_pointer] arg_cong[OF a, of v_type] arg_cong[OF b, of v_type] arg_cong[OF b, of v_flags] by simp_all
  then show ?thesis
    using p l unfolding paired_def ext[of "vw_vars w' ! k"] ext[of "vw_vars w' ! m"] ext[of "vw_vars w ! k"] ext[of "vw_vars w ! m"] a b isExternal_def
    by simp
qed

lemma mirror_of_upd: "mirror_of (upd_var j f w) m = (if m = j \<and> j < length (vw_vars w) then the (v_external (f (vw_vars w ! j))) else mirror_of w m)"
  by (cases "j < length (vw_vars w)"; cases "m = j") (simp_all add: mirror_of_def upd_var_def list_update_beyond)

lemma upd_var_mem [simp]: "vw_mem (upd_var j f w) = vw_mem w"
  by (simp add: upd_var_def)

lemma mirror_of_mem [simp]: "mirror_of (w\<lparr>vw_mem := x\<rparr>) m = mirror_of w m"
  by (simp add: mirror_of_def)

lemma write_ext_attrs: "same_attrs w (write_ext i w)"
  by (auto simp: write_ext_def Let_def split: option.splits intro!: upd_var_attrs)

lemma read_ext_attrs: "same_attrs w (read_ext i w)"
  by (auto simp: read_ext_def Let_def split: option.splits intro!: upd_var_attrs)

lemma write_ext_mem [simp]: "vw_mem (write_ext i w) = vw_mem w"
  by (simp add: write_ext_def Let_def split: option.splits)

lemma write_ext_mirror:
  assumes "paired w k m"
  shows "mirror_of (write_ext i w) m = (if i = k
    then (mirror_of w m)\<lparr>ex_read := poke 0 (mem_read (vw_mem w) (v_pointer (vw_vars w ! k)) (v_size (vw_vars w ! k))) (ex_read (mirror_of w m))\<rparr>
    else mirror_of w m)"
  using assms by (rule pairedD) (auto simp: write_ext_def Let_def mirror_of_upd split: option.splits)

lemma read_ext_mirror:
  assumes "paired w k m"
  shows "mirror_of (read_ext i w) m = (if i = k then (mirror_of w m)\<lparr>ex_isWrited := False\<rparr> else mirror_of w m)"
  using assms by (rule pairedD) (auto simp: read_ext_def Let_def mirror_of_upd split: option.splits)

lemma mem_write_take_outside: "a \<notin> {p ..< p + n} \<Longrightarrow> mem_write p (take n bs) m a = m a"
  by (auto simp: mem_write_def)

lemma read_ext_outside: "a \<notin> var_region (vw_vars w ! i) \<Longrightarrow> vw_mem (read_ext i w) a = vw_mem w a"
  unfolding var_region_def by (simp add: read_ext_def Let_def mem_write_take_outside split: option.splits del: atLeastLessThan_iff)

lemma read_ext_writes:
  assumes "paired w k m"
  shows "vw_mem (read_ext k w) = (if ex_isWrited (mirror_of w m)
    then mem_write (v_pointer (vw_vars w ! k)) (take (v_size (vw_vars w ! k)) (ex_write (mirror_of w m))) (vw_mem w) else vw_mem w)"
  using assms by (rule pairedD) (simp add: read_ext_def Let_def)

text \<open>A whole round of the class of \<open>k\<close>.\<close>

lemma fold_write_ext:
  assumes p: "paired w k m"
  shows "paired (fold write_ext l w) k m \<and> same_attrs w (fold write_ext l w) \<and> vw_mem (fold write_ext l w) = vw_mem w \<and>
    mirror_of (fold write_ext l w) m = (if k \<in> set l
      then (mirror_of w m)\<lparr>ex_read := poke 0 (mem_read (vw_mem w) (v_pointer (vw_vars w ! k)) (v_size (vw_vars w ! k))) (ex_read (mirror_of w m))\<rparr>
      else mirror_of w m)"
  using p
proof (induction l arbitrary: w)
  case (Cons i l)
  let ?w = "write_ext i w"
  note s = write_ext_attrs[of w i]
  have k: "k < length (vw_vars w)" using Cons.prems by (simp add: paired_def)
  have a: "v_pointer (vw_vars ?w ! k) = v_pointer (vw_vars w ! k)" "v_size (vw_vars ?w ! k) = v_size (vw_vars w ! k)"
    using arg_cong[OF same_attrs_nth[OF s k], of v_pointer] arg_cong[OF same_attrs_nth[OF s k], of v_type] by (simp_all add: v_size_def)
  have pp: "poke 0 x (poke 0 x y) = poke 0 x y" for x y :: bytes by (simp add: poke_0)
  show ?case
    using Cons.IH[OF paired_attrs[OF s Cons.prems], unfolded a] write_ext_mirror[OF Cons.prems, of i] same_attrs_trans[OF s]
    by (cases "i = k") (simp_all add: pp)
qed simp

definition others_apart :: "varworld \<Rightarrow> nat \<Rightarrow> varlist \<Rightarrow> bool" where
  "others_apart w k l \<longleftrightarrow> list_all (\<lambda>i. i = k \<or> (i < length (vw_vars w) \<and> var_region (vw_vars w ! i) \<inter> var_region (vw_vars w ! k) = {})) l"

lemma others_apart_attrs:
  assumes s: "same_attrs w w'" and k: "k < length (vw_vars w)" and o: "others_apart w k l"
  shows "others_apart w' k l"
proof -
  have "i < length (vw_vars w') \<and> var_region (vw_vars w' ! i) \<inter> var_region (vw_vars w' ! k) = {}"
    if "i < length (vw_vars w) \<and> var_region (vw_vars w ! i) \<inter> var_region (vw_vars w ! k) = {}" for i
    using that var_region_attrs[OF same_attrs_nth[OF s k]] var_region_attrs[OF same_attrs_nth[OF s]] same_attrs_length[OF s] by simp
  then show ?thesis using o unfolding others_apart_def list_all_iff by blast
qed

abbreviation at_pointer :: "varworld \<Rightarrow> nat \<Rightarrow> bytes" where
  "at_pointer w k \<equiv> mem_read (vw_mem w) (v_pointer (vw_vars w ! k)) (v_size (vw_vars w ! k))"

lemma same_attrs_pointer:
  assumes "same_attrs w w'" "k < length (vw_vars w)"
  shows "v_pointer (vw_vars w' ! k) = v_pointer (vw_vars w ! k)" "v_size (vw_vars w' ! k) = v_size (vw_vars w ! k)"
    "v_flags (vw_vars w' ! k) = v_flags (vw_vars w ! k)"
  using arg_cong[OF same_attrs_nth[OF assms], of v_pointer] arg_cong[OF same_attrs_nth[OF assms], of v_type]
    arg_cong[OF same_attrs_nth[OF assms], of v_flags] by (simp_all add: v_size_def)

lemma read_ext_at:
  assumes p: "paired w k m" and o: "others_apart w k [i]" and n: "v_size (vw_vars w ! k) \<le> length (ex_write (mirror_of w m))"
  shows "at_pointer (read_ext i w) k = (if i = k \<and> ex_isWrited (mirror_of w m)
    then take (v_size (vw_vars w ! k)) (ex_write (mirror_of w m)) else at_pointer w k)"
proof -
  have k: "k < length (vw_vars w)" using p by (simp add: paired_def)
  note [simp] = same_attrs_pointer[OF read_ext_attrs k]
  have own: "mem_read (mem_write q (take z bs) mm) q z = take z bs" if "z \<le> length bs" for q z and bs :: bytes and mm
    using mem_read_write[of q "take z bs" mm] that by simp
  show ?thesis
  proof (cases "i = k")
    case True
    then show ?thesis using read_ext_writes[OF p] own n by simp
  next
    case False
    then have "var_region (vw_vars w ! i) \<inter> var_region (vw_vars w ! k) = {}" using o by (simp add: others_apart_def)
    then have "vw_mem (read_ext i w) a = vw_mem w a" if "a \<in> var_region (vw_vars w ! k)" for a
      using that read_ext_outside by blast
    then show ?thesis using False by (auto simp: var_region_def intro!: mem_read_cong)
  qed
qed

lemma fold_read_ext:
  assumes "paired w k m" "others_apart w k l" "v_size (vw_vars w ! k) \<le> length (ex_write (mirror_of w m))"
  shows "same_attrs w (fold read_ext l w) \<and> mirror_of (fold read_ext l w) m
      = (if k \<in> set l then (mirror_of w m)\<lparr>ex_isWrited := False\<rparr> else mirror_of w m)
    \<and> at_pointer (fold read_ext l w) k = (if k \<in> set l \<and> ex_isWrited (mirror_of w m)
      then take (v_size (vw_vars w ! k)) (ex_write (mirror_of w m)) else at_pointer w k)"
  using assms
proof (induction l arbitrary: w)
  case (Cons i l)
  let ?w = "read_ext i w"
  note s = read_ext_attrs[of w i]
  have k: "k < length (vw_vars w)" using Cons.prems(1) by (simp add: paired_def)
  have o: "others_apart w k [i]" "others_apart w k l" using Cons.prems(2) by (simp_all add: others_apart_def)
  note m = read_ext_mirror[OF Cons.prems(1), of i]
  have n: "v_size (vw_vars ?w ! k) \<le> length (ex_write (mirror_of ?w m))"
    using Cons.prems(3) by (simp add: m same_attrs_pointer[OF s k])
  note IH = Cons.IH[OF paired_attrs[OF s Cons.prems(1)] others_apart_attrs[OF s k o(2)] n]
  show ?case
    using IH same_attrs_trans[OF s] read_ext_at[OF Cons.prems(1) o(1) Cons.prems(3)] m
    by (auto simp: same_attrs_pointer[OF s k])
qed simp

section \<open>Properties\<close>

text \<open>
  C8. Writing a snapshot with the rights \<open>acc\<close>: an item to be written ends as written exactly
  when its variable allows it, and otherwise tells why not; the other items keep their state. Memory
  changes only at addresses of variables that are to be written and allow it, the buffers only of such
  mirrors, and nothing else of any variable changes.
\<close>

theorem set_respects_access:
  assumes "class_set acc its w = (its', w')" "items_in w its"
  shows "List.map si_status its' = List.map (\<lambda>it. case si_var it of None \<Rightarrow> si_status it
      | Some k \<Rightarrow> if si_status it \<noteq> SS_TOWRITE then si_status it else set_verdict acc (vw_vars w ! k)) its
    \<and> (set_verdict acc v = SS_WRITED \<longleftrightarrow> \<not> (isHide v \<and> acc AND ACCESS_MASK_VIEWHIDE = 0)
      \<and> (\<not> isReadonly v \<or> (isSUWrite v \<and> acc AND ACCESS_SA \<noteq> 0)) \<and> v_access v AND acc = v_access v)
    \<and> (vw_mem w' a \<noteq> vw_mem w a \<longrightarrow> (\<exists>it k. it \<in> set its \<and> si_var it = Some k \<and> si_status it = SS_TOWRITE \<and>
      set_verdict acc (vw_vars w ! k) = SS_WRITED \<and> \<not> mirrored (vw_vars w ! k) \<and> a \<in> var_region (vw_vars w ! k)))
    \<and> (vw_vars w' ! j \<noteq> vw_vars w ! j \<longrightarrow> (\<exists>it. it \<in> set its \<and> si_var it = Some j \<and> si_status it = SS_TOWRITE \<and>
      set_verdict acc (vw_vars w ! j) = SS_WRITED \<and> mirrored (vw_vars w ! j)))
    \<and> List.map var_attrs (vw_vars w') = List.map var_attrs (vw_vars w)"
proof -
  note e = class_set_effect[OF assms]
  have v: "set_verdict acc v = SS_WRITED \<longleftrightarrow> set_allowed acc v" for v
    by (auto simp: set_verdict_def set_allowed_def)
  have "List.map si_status its' = List.map (\<lambda>it. case si_var it of None \<Rightarrow> si_status it
      | Some k \<Rightarrow> if si_status it \<noteq> SS_TOWRITE then si_status it else set_verdict acc (vw_vars w ! k)) its"
    using e by (simp add: set_status_def comp_def)
  then show ?thesis
    using e unfolding v set_allowed_def[of acc v] hidden_from_def[of acc v] writes_at_def writes_buffer_def item_writes_def same_attrs_def
    by blast
qed

definition ex_var_at :: "TYPEID \<Rightarrow> UINT \<Rightarrow> UDINT \<Rightarrow> nat \<Rightarrow> rVariable" where
  "ex_var_at t flags acc p = \<lparr>v_hash = 0, v_name = ''v'', v_type = t, v_flags = flags, v_unit = 0, v_access = acc, v_external = None, v_pointer = p\<rparr>"

definition ex_world :: varworld where
  "ex_world = \<lparr>vw_mem = (\<lambda>a. 0), vw_vars = [ex_var_at T_UINT VF_READONLY 0 100, ex_var_at T_UDINT 0 2 200, ex_var_at T_UINT VF_HIDE 0 300], vw_save = False\<rparr>"

definition ex_items :: "rSnapshotItem list" where
  "ex_items = List.map (\<lambda>k. \<lparr>si_var = Some k, si_status = SS_TOWRITE, si_data = replicate 8 7\<rparr>) [0, 1, 2]"

lemmas ex_world_simps = ex_var_at_def ex_world_def ex_items_def has_def isReadonly_def isHide_def isSUWrite_def
  VF_READONLY_def VF_SUWRITE_def VF_HIDE_def VF_EXTERNAL_def ACCESS_SA_def ACCESS_ADMIN_def ACCESS_MASK_VIEWHIDE_def

theorem set_respects_access_witness:
  "List.map si_status (fst (class_set 3 ex_items ex_world)) = [SS_READONLY, SS_WRITED, SS_NOTFOUND]
    \<and> vw_mem (snd (class_set 3 ex_items ex_world)) 100 = 0"
proof -
  have i: "items_in ex_world ex_items" by (simp add: ex_world_simps items_in_def)
  note t = set_respects_access[OF surjective_pairing i, of 3 _ 100]
  have "set_verdict 3 (vw_vars ex_world ! 0) = SS_READONLY" "set_verdict 3 (vw_vars ex_world ! 1) = SS_WRITED"
    "set_verdict 3 (vw_vars ex_world ! 2) = SS_NOTFOUND"
    by (simp_all add: ex_world_simps set_verdict_def hidden_from_def)
  moreover have "vw_mem (snd (class_set 3 ex_items ex_world)) 100 = vw_mem ex_world 100"
  proof (rule ccontr)
    assume "vw_mem (snd (class_set 3 ex_items ex_world)) 100 \<noteq> vw_mem ex_world 100"
    then obtain it k where k: "it \<in> set ex_items" "si_var it = Some k" "set_verdict 3 (vw_vars ex_world ! k) = SS_WRITED"
      "100 \<in> var_region (vw_vars ex_world ! k)" using t by blast
    then have "k = 0 \<or> k = 1 \<or> k = 2" by (auto simp: ex_items_def)
    then show False using k(3,4) calculation by (auto simp: var_region_def v_size_def ex_world_def ex_var_at_def)
  qed
  moreover have "vw_mem ex_world 100 = 0" by (simp add: ex_world_def)
  ultimately show ?thesis using t by (simp add: ex_items_def)
qed

text \<open>
  C9. What was written is read back: a value set through a snapshot into a variable of memory that allows
  it is what the next reader of the variable gets, in the type of the variable, and the bytes of the
  buffer are its bytes.
\<close>

theorem set_then_get:
  assumes k: "k < length (vw_vars w)" "\<not> mirrored (vw_vars w ! k)" "set_allowed acc (vw_vars w ! k)"
    and r: "\<not> hidden_from acc' (vw_vars w ! k)" and q: "cast_param pf (v_type (vw_vars w ! k)) p = Some q"
  shows "let w' = snd (class_set acc [item_value pf w junk (Some k) p] w); it = class_get_item acc' w' (item_new junk' (Some k))
    in si_status it = SS_ASSIGNED \<and> fst (item_getValue pf w' x it) = cast_param pf x q \<and> item_getBuffer w' it = Some (param_bytes q)"
proof -
  define w' where "w' = snd (class_set acc [item_value pf w junk (Some k) p] w)"
  let ?v = "vw_vars w ! k"
  have n: "v_size ?v = param_size q" using cast_param_size[OF q] by simp
  have "item_value pf w junk (Some k) p = \<lparr>si_var = Some k, si_status = SS_TOWRITE, si_data = poke 0 (param_bytes q) junk\<rparr>"
    by (simp add: item_value_def item_fill_def q)
  then have w': "w' = (var_store k (param_bytes q) w)\<lparr>vw_save := vw_save w \<or> isDumped ?v\<rparr>"
    using class_set_single[OF k(3)] by (simp add: w'_def n poke_0)
  have v: "vw_vars w' = vw_vars w"
    using k(2) by (simp add: w' var_store_def Let_def mirrored_def split: option.splits)
  have m: "mem_read (vw_mem w') (v_pointer ?v) (v_size ?v) = param_bytes q"
    using k(2) mem_read_write[of _ "param_bytes q"] by (simp add: w' var_store_mem n)
  have s: "class_get_item acc' w' (item_new junk' (Some k)) = \<lparr>si_var = Some k, si_status = SS_ASSIGNED, si_data = poke 0 (param_bytes q) junk'\<rparr>"
    using k(2) r m by (auto simp: class_get_item_def item_new_def v Let_def mirrored_def split: option.splits)
  have "param_read (v_type ?v) (poke 0 (param_bytes q) junk') = Some q"
    using param_read_bytes[of q] by (simp add: poke_0 cast_param_type[OF q, symmetric])
  then show ?thesis
    unfolding Let_def w'_def[symmetric] s by (simp add: item_getValue_def item_getBuffer_def item_getSizeVar_def v n poke_0)
qed

definition ex_platform :: platform where
  "ex_platform = \<lparr>pf_long = 32, pf_real = word_of_int, pf_lreal = word_of_int, pf_real_int = sint, pf_lreal_int = sint,
     pf_widen = ucast, pf_narrow = ucast, pf_stof = (\<lambda>s. None), pf_stod = (\<lambda>s. None)\<rparr>"

theorem set_then_get_witness:
  "let w' = snd (class_set 3 [item_value ex_platform ex_world (replicate 8 9) (Some 1) (P_INT (- 2))] ex_world);
     it = class_get_item 0 w' (item_new (replicate 8 5) (Some 1))
   in si_status it = SS_ASSIGNED \<and> fst (item_getValue ex_platform w' T_UINT it) = Some (P_UINT 65534)
     \<and> item_getBuffer w' it = Some (param_bytes (P_UDINT 4294967294))"
proof -
  have "cast_param ex_platform (v_type (vw_vars ex_world ! 1)) (P_INT (- 2)) = Some (P_UDINT 4294967294)"
    by (simp add: ex_world_def ex_var_at_def)
  note t = set_then_get[OF _ _ _ _ this, where x = T_UINT and acc = 3 and acc' = 0]
  have c: "cast_param ex_platform T_UINT (P_UDINT 4294967294) = Some (P_UINT 65534)" by simp
  show ?thesis
    by (rule t[unfolded c]) (simp_all add: ex_world_simps mirrored_def set_allowed_def hidden_from_def)
qed

text \<open>
  C10. A value written to the mirror \<open>m\<close> of the variable \<open>k\<close> of another class does not touch the
  memory; it arrives in the variable with the next round of that class. A reader of the mirror still
  gets the value the variable had before that round, and the written one after the following round.
\<close>

theorem mirror_write_arrives:
  assumes p: "paired w k m" and a: "set_allowed acc (vw_vars w ! m)" and l: "k \<in> set l" "others_apart w k l"
    and t: "isValueType (v_type (vw_vars w ! k))"
    and b: "length (ex_write (mirror_of w m)) = 8" "length (ex_read (mirror_of w m)) = 8" "length d = 8"
  shows "let w1 = snd (class_set acc [\<lparr>si_var = Some m, si_status = SS_TOWRITE, si_data = d\<rparr>] w);
      w2 = class_processing True l w1; w3 = class_processing True l w2 in
    vw_mem w1 = vw_mem w \<and> at_pointer w2 k = take (v_size (vw_vars w ! k)) d
    \<and> var_shows acc w2 junk m = Some (at_pointer w k) \<and> var_shows acc w3 junk m = Some (take (v_size (vw_vars w ! k)) d)"
proof -
  let ?n = "v_size (vw_vars w ! k)"
  have km: "k < length (vw_vars w)" "m < length (vw_vars w)" "isExternal (vw_vars w ! m)" "v_size (vw_vars w ! m) = ?n"
    using p by (auto simp: paired_def v_size_def)
  have n8: "?n \<le> 8" using t by (cases "v_type (vw_vars w ! k)") (simp_all add: v_size_def isValueType_def)
  have ext: "v_external (vw_vars w ! m) = Some (mirror_of w m)" using p by (rule pairedD)
  define w1 where "w1 = snd (class_set acc [\<lparr>si_var = Some m, si_status = SS_TOWRITE, si_data = d\<rparr>] w)"
  have w1: "w1 = (var_store m (take ?n d) w)\<lparr>vw_save := vw_save w \<or> isDumped (vw_vars w ! m)\<rparr>"
    using class_set_single[OF a] km(4) by (simp add: w1_def)
  have s1: "same_attrs w w1" using var_store_attrs by (simp add: w1)
  have m1: "vw_mem w1 = vw_mem w" using ext km(3) by (simp add: w1 var_store_mem mirrored_def)
  have e1: "mirror_of w1 m = (mirror_of w m)\<lparr>ex_write := poke 0 (take ?n d) (ex_write (mirror_of w m)), ex_isWrited := True\<rparr>"
  proof -
    define me where "me = mirror_of w m"
    have "v_external (vw_vars w ! m) = Some me" using ext by (simp add: me_def)
    then show ?thesis using km unfolding me_def[symmetric] by (simp add: w1 var_store_def Let_def mirror_of_def upd_var_def)
  qed
  have round: "at_pointer (class_processing True l u) k = (if ex_isWrited (mirror_of u m) then take ?n (ex_write (mirror_of u m)) else at_pointer u k)
      \<and> var_shows acc (class_processing True l u) junk m = Some (at_pointer u k)
      \<and> same_attrs w (class_processing True l u) \<and> ex_isWrited (mirror_of (class_processing True l u) m) = False
      \<and> length (ex_read (mirror_of (class_processing True l u) m)) = 8 \<and> length (ex_write (mirror_of (class_processing True l u) m)) = 8"
    if s: "same_attrs w u" and len: "length (ex_read (mirror_of u m)) = 8" "length (ex_write (mirror_of u m)) = 8" for u
  proof -
    note pu = paired_attrs[OF s p]
    define u1 where "u1 = fold write_ext l u"
    note f = fold_write_ext[OF pu, of l, folded u1_def]
    have su: "same_attrs w u1" using f same_attrs_trans[OF s] by blast
    note sz = same_attrs_pointer[OF s km(1)] same_attrs_pointer[OF su km(1)]
    have len1: "length (ex_write (mirror_of u1 m)) = 8" using f len by simp
    note g = fold_read_ext[OF conjunct1[OF f] others_apart_attrs[OF su km(1) l(2)]]
    define u2 where "u2 = fold read_ext l u1"
    have g': "same_attrs w u2" "mirror_of u2 m = (mirror_of u1 m)\<lparr>ex_isWrited := False\<rparr>"
      "at_pointer u2 k = (if ex_isWrited (mirror_of u1 m) then take ?n (ex_write (mirror_of u1 m)) else at_pointer u1 k)"
      using g n8 len1 l(1) same_attrs_trans[OF su] by (auto simp: sz u2_def)
    have r: "ex_read (mirror_of u2 m) = poke 0 (at_pointer u k) (ex_read (mirror_of u m))" using f g'(2) l(1) by simp
    have lr: "length (ex_read (mirror_of u2 m)) = 8" using r len n8 by (simp add: sz)
    note p2 = paired_attrs[OF g'(1) p]
    have "\<not> hidden_from acc (vw_vars u2 ! m)"
      using a same_attrs_pointer(3)[OF g'(1) km(2)] by (simp add: set_allowed_def hidden_from_def isHide_def)
    then have "var_shows acc u2 junk m = Some (take ?n (ex_read (mirror_of u2 m)))"
      using var_shows_mirror[of u2 m "mirror_of u2 m" acc junk] pairedD[OF p2] lr n8 km(4) same_attrs_pointer(2)[OF g'(1) km(2)]
      by (metis (no_types, lifting))
    then have sh: "var_shows acc u2 junk m = Some (at_pointer u k)" by (simp add: r poke_0 sz)
    have cp: "class_processing True l u = u2" by (simp add: class_processing_def u2_def u1_def)
    show ?thesis unfolding cp using g' sh lr f len1 l(1) by (auto simp: sz)
  qed
  have len: "length (ex_read (mirror_of w1 m)) = 8" "length (ex_write (mirror_of w1 m)) = 8" using e1 b n8 by simp_all
  note r1 = round[OF s1 len]
  note r2 = round[of "class_processing True l w1"]
  have "ex_write (mirror_of w1 m) = poke 0 (take ?n d) (ex_write (mirror_of w m))" "ex_isWrited (mirror_of w1 m)" by (simp_all add: e1)
  then have "at_pointer (class_processing True l w1) k = take ?n d" using r1 b(3) n8 by (simp add: poke_0)
  moreover have "at_pointer w1 k = at_pointer w k" using same_attrs_pointer[OF s1 km(1)] by (simp add: m1)
  ultimately show ?thesis unfolding Let_def w1_def[symmetric] using m1 r1 r2 by simp
qed

definition ex_mirrored :: varworld where
  "ex_mirrored = fst (variable_mirror 0 \<lparr>vw_mem = (\<lambda>a. 0), vw_vars = [ex_var_at T_UINT 0 0 100], vw_save = False\<rparr>)"

lemma ex_mirrored: "ex_mirrored = \<lparr>vw_mem = (\<lambda>a. 0), vw_vars = [(ex_var_at T_UINT 0 0 100)\<lparr>v_external := Some (external_new 1)\<rparr>,
    (ex_var_at T_UINT VF_EXTERNAL 0 0)\<lparr>v_external := Some (external_new 0)\<rparr>], vw_save = False\<rparr>"
  by (simp add: ex_mirrored_def variable_mirror_def Let_def ex_var_at_def)

theorem mirror_write_arrives_witness:
  "let w1 = snd (class_set 0 [\<lparr>si_var = Some 1, si_status = SS_TOWRITE, si_data = [1, 2, 3, 4, 5, 6, 7, 8]\<rparr>] ex_mirrored);
      w2 = class_processing True [0] w1; w3 = class_processing True [0] w2 in
    vw_mem w1 = vw_mem ex_mirrored \<and> at_pointer w2 0 = [1, 2]
    \<and> var_shows 0 w2 [] 1 = Some [0, 0] \<and> var_shows 0 w3 [] 1 = Some [1, 2]"
proof -
  have n: "v_size (vw_vars ex_mirrored ! 0) = 2" by (simp add: ex_mirrored ex_var_at_def v_size_def)
  have z: "at_pointer ex_mirrored 0 = [0, 0]"
    by (simp add: ex_mirrored ex_var_at_def v_size_def mem_read_def upt_rec)
  have d: "take (v_size (vw_vars ex_mirrored ! 0)) [1, 2, 3, 4, 5, 6, 7, 8 :: 8 word] = [1, 2]" by (simp add: n)
  show ?thesis
    unfolding z[symmetric] d[symmetric]
    by (rule mirror_write_arrives)
      (simp_all add: ex_mirrored ex_world_simps paired_def set_allowed_def hidden_from_def others_apart_def
        mirror_of_def external_new_def isExternal_def isValueType_def)
qed

end
