(* ===== verification/Reports.thy ===== *)
theory Reports
  imports Plant
begin

text \<open>
  The reports \<^verbatim>\<open>rReport\<close> of \<^verbatim>\<open>src/tritonn/data_report.cpp\<close>: the periods and how their end is
  found, starting and storing a report, and the weighted means of a cycle. The lines and stations a
  report takes totals from, and the objects behind its links, are those of the theory of the plant. The number of
  the week comes from the calendar library and is an argument; so are the readings of the clock, of
  which a cycle takes up to three, and the result of saving the file.
\<close>

section \<open>State\<close>

text \<open>\<^verbatim>\<open>struct tm\<close> with the full year; the months count from 0, the weekdays from Sunday.\<close>

record tm =
  tm_sec :: int
  tm_min :: int
  tm_hour :: int
  tm_mday :: int
  tm_mon :: int
  tm_year :: int
  tm_wday :: int
  tm_yday :: int

record rReportTime =
  rt_UNIX :: int
  rt_TM :: tm

record rep_item =
  ri_link :: slink
  ri_name :: string
  ri_value :: lreal

record rep_total =
  rt_source :: nat
  rt_name :: string
  rt_startTotal :: rBaseTotal
  rt_finalTotal :: rBaseTotal
  rt_unitMass :: UDINT
  rt_unitVolume :: UDINT
  rt_items :: "rep_item list"

datatype rep_type = PERIODIC | BATCH
datatype rep_status = RS_IDLE | RS_RUNNING | RS_WAITING | RS_COMPLETED
datatype rep_mark = RM_UNDEF | RM_ILLEGAL | RM_INCOMPLETE | RM_VALIDATE | RM_INPROGRESS
datatype rep_period = HOUR | HOUR_2 | HOUR_3 | HOUR_4 | HOUR_6 | HOUR_8 | HOUR_12 | DAYLY | WEEKLY | BIWEEKLY | MONTHLY
  | QUARTERLY | ANNUAL | MIN_5 | MIN_15

record rDataset =
  ds_mark :: rep_mark
  ds_timeStart :: rReportTime
  ds_FinalTime :: rReportTime
  ds_averageItems :: "rep_total list"
  ds_snapshotItems :: "rep_item list"

record rReport =
  rp_ID :: UDINT
  rp_descr :: UDINT
  rp_type :: rep_type
  rp_period :: rep_period
  rp_status :: rep_status
  rp_present :: rDataset
  rp_completed :: rDataset
  rp_PastTM :: tm

text \<open>What a cycle finds outside: the clock at its start, in \<open>store\<close> and in \<open>start\<close>.\<close>

record rep_env =
  re_now :: rReportTime
  re_stored :: rReportTime
  re_started :: rReportTime
  re_saved :: UDINT
  re_week :: "tm \<Rightarrow> UINT"

section \<open>Copies of a data set\<close>

definition item_copy :: "slink \<Rightarrow> rep_item \<Rightarrow> rep_item" where
  "item_copy l it = \<lparr>ri_link = l, ri_name = ri_name it, ri_value = Fin 0\<rparr>"

text \<open>\<open>l\<close> is a new link; \<open>memory\<close> what the totals of a new copy hold.\<close>

definition total_copy :: "slink \<Rightarrow> nat \<Rightarrow> rBaseTotal \<Rightarrow> rep_total \<Rightarrow> rep_total" where
  "total_copy l none mm t = \<lparr>rt_source = none, rt_name = rt_name t, rt_startTotal = mm, rt_finalTotal = mm,
     rt_unitMass = rt_unitMass t, rt_unitVolume = rt_unitVolume t, rt_items = List.map (item_copy l) (rt_items t)\<rparr>"

definition createFrom :: "slink \<Rightarrow> nat \<Rightarrow> rBaseTotal \<Rightarrow> rDataset \<Rightarrow> rDataset \<Rightarrow> rDataset" where
  "createFrom l none mm ds this = this\<lparr>ds_averageItems := List.map (total_copy l none mm) (ds_averageItems ds),
     ds_snapshotItems := List.map (item_copy l) (ds_snapshotItems ds)\<rparr>"

section \<open>Periods\<close>

definition uint_of :: "int \<Rightarrow> UINT" where "uint_of i = word_of_int i"

text \<open>The length of the period that runs, in seconds.\<close>

definition GetUNIXPeriod :: "rReport \<Rightarrow> UDINT" where
  "GetUNIXPeriod rp = (let ts = rt_TM (ds_timeStart (rp_present rp));
       dim = (\<lambda>k. ucast (DayInMonthShift (uint_of (tm_year ts)) (uint_of (tm_mon ts + k))) :: UDINT)
     in case rp_period rp of
       HOUR \<Rightarrow> 3600 | HOUR_2 \<Rightarrow> 3600 * 2 | HOUR_3 \<Rightarrow> 3600 * 3 | HOUR_4 \<Rightarrow> 3600 * 4 | HOUR_6 \<Rightarrow> 3600 * 6
     | HOUR_8 \<Rightarrow> 3600 * 8 | HOUR_12 \<Rightarrow> 3600 * 12 | DAYLY \<Rightarrow> 3600 * 24 | WEEKLY \<Rightarrow> 86400 * 7 | BIWEEKLY \<Rightarrow> 86400 * 14
     | MONTHLY \<Rightarrow> 86400 * dim 0
     | QUARTERLY \<Rightarrow> 86400 * dim 0 + 86400 * dim 1 + 86400 * dim 2
     | ANNUAL \<Rightarrow> 86400 * (ucast (IsLeapYear (uint_of (tm_year ts))) + 365)
     | MIN_5 \<Rightarrow> 60 * 5 | MIN_15 \<Rightarrow> 60 * 15)"

definition every_hours :: "int \<Rightarrow> tm \<Rightarrow> tm \<Rightarrow> bool" where
  "every_hours k past cur \<longleftrightarrow> tm_hour past \<noteq> tm_hour cur \<and> crem (tm_hour cur) k = 0"

text \<open>Whether a period ends between two moments.\<close>

definition period_ends :: "(tm \<Rightarrow> UINT) \<Rightarrow> rep_period \<Rightarrow> tm \<Rightarrow> tm \<Rightarrow> bool" where
  "period_ends week p past cur = (case p of
       HOUR \<Rightarrow> tm_hour past \<noteq> tm_hour cur
     | HOUR_2 \<Rightarrow> every_hours 2 past cur | HOUR_3 \<Rightarrow> every_hours 3 past cur | HOUR_4 \<Rightarrow> every_hours 4 past cur
     | HOUR_6 \<Rightarrow> every_hours 6 past cur | HOUR_8 \<Rightarrow> every_hours 8 past cur | HOUR_12 \<Rightarrow> every_hours 12 past cur
     | DAYLY \<Rightarrow> tm_mday past \<noteq> tm_mday cur
     | WEEKLY \<Rightarrow> tm_wday past \<noteq> tm_wday cur \<and> tm_wday cur = 1
     | BIWEEKLY \<Rightarrow> tm_wday past \<noteq> tm_wday cur \<and> tm_wday cur = 1 \<and> crem (int (unat (week cur)) - 1) 2 = 0
     | MONTHLY \<Rightarrow> tm_mon past \<noteq> tm_mon cur
     | QUARTERLY \<Rightarrow> tm_mon past \<noteq> tm_mon cur \<and> crem (tm_mon cur - 1) 3 = 0
     | ANNUAL \<Rightarrow> tm_year past \<noteq> tm_year cur
     | MIN_5 \<Rightarrow> tm_min past \<noteq> tm_min cur \<and> crem (tm_min cur) 5 = 0
     | MIN_15 \<Rightarrow> tm_min past \<noteq> tm_min cur \<and> crem (tm_min cur) 15 = 0)"

definition CheckFinishPeriodic :: "rep_env \<Rightarrow> rReport \<Rightarrow> bool \<times> rReport" where
  "CheckFinishPeriodic re rp = (period_ends (re_week re) (rp_period rp) (rp_PastTM rp) (rt_TM (re_now re)),
     rp\<lparr>rp_PastTM := rt_TM (re_now re)\<rparr>)"

section \<open>Starting and storing\<close>

definition getTotal :: "payload \<Rightarrow> rTotal option" where
  "getTotal p = (case p of K_Stream st s \<Rightarrow> Some (str_total s) | K_Station s \<Rightarrow> Some (stn_total s) | _ \<Rightarrow> None)"

text \<open>
  The present total behind \<^verbatim>\<open>m_source\<close>; \<^verbatim>\<open>resolveReports\<close> refuses a source without a total.
\<close>

definition present_of :: "payload net \<Rightarrow> nat \<Rightarrow> rBaseTotal" where
  "present_of ns j = (case getTotal (n_data (ns ! j)) of Some t \<Rightarrow> Total.m_present t | None \<Rightarrow> total_clear_base)"

definition rep_start :: "rep_env \<Rightarrow> bool \<Rightarrow> payload net \<Rightarrow> rReport \<Rightarrow> rReport" where
  "rep_start re first ns rp = rp\<lparr>rp_status := RS_RUNNING, rp_present := (rp_present rp)
     \<lparr>ds_timeStart := re_started re, ds_mark := (if first then RM_INCOMPLETE else RM_VALIDATE),
      ds_averageItems := List.map (\<lambda>t. t\<lparr>rt_startTotal := present_of ns (rt_source t), rt_finalTotal := present_of ns (rt_source t)\<rparr>)
        (ds_averageItems (rp_present rp))\<rparr>\<rparr>"

text \<open>The values of items go to their copies with the unit of the source, and become zero.\<close>

fun store_items :: "rep_item list \<Rightarrow> rep_item list \<Rightarrow> payload net \<Rightarrow> rep_item list \<times> rep_item list \<times> payload net \<times> act list" where
  "store_items (p # ps) (c # cs) ns = (case link_getSourceUnit (ri_link p) ns of (u, ns1, a) \<Rightarrow>
     case store_items ps cs ns1 of (ps', cs', ns2, b) \<Rightarrow>
       (p\<lparr>ri_value := Fin 0\<rparr> # ps',
        c\<lparr>ri_value := ri_value p, ri_link := (ri_link c)\<lparr>sl_link := (sl_link (ri_link c))\<lparr>l_unit := u\<rparr>\<rparr>\<rparr> # cs', ns2, a @ b))"
| "store_items ps cs ns = (ps, cs, ns, [])"

fun store_totals :: "rep_total list \<Rightarrow> rep_total list \<Rightarrow> payload net \<Rightarrow> rep_total list \<times> rep_total list \<times> payload net \<times> act list" where
  "store_totals (p # ps) (c # cs) ns = (case store_items (rt_items p) (rt_items c) ns of (its, ci, ns1, a) \<Rightarrow>
     case store_totals ps cs ns1 of (ps', cs', ns2, b) \<Rightarrow>
       (p\<lparr>rt_startTotal := total_clear_base, rt_finalTotal := total_clear_base, rt_items := its\<rparr> # ps',
        c\<lparr>rt_startTotal := rt_startTotal p, rt_finalTotal := rt_finalTotal p, rt_unitMass := rt_unitMass p,
          rt_unitVolume := rt_unitVolume p, rt_items := ci\<rparr> # cs', ns2, a @ b))"
| "store_totals ps cs ns = (ps, cs, ns, [])"

definition rep_event :: "rReport \<Rightarrow> UDINT \<Rightarrow> cevent" where
  "rep_event rp eid = reinitEvent (rp_ID rp) (rp_descr rp) eid"

definition SaveToXML :: "rep_env \<Rightarrow> rReport \<Rightarrow> act list" where
  "SaveToXML re rp = (if re_saved re \<noteq> TRITONN_RESULT_OK then [Sent (ev_add (rep_event rp EID_REPORT_CANTSAVE) (P_UDINT (re_saved re)))] else [])"

definition rep_store :: "rep_env \<Rightarrow> payload net \<Rightarrow> rReport \<Rightarrow> rReport \<times> payload net \<times> act list" where
  "rep_store re ns rp = (let p = (rp_present rp)\<lparr>ds_FinalTime := re_stored re\<rparr>; c = rp_completed rp in
     case store_totals (ds_averageItems p) (ds_averageItems c) ns of (pt, ct, ns1, a) \<Rightarrow>
     case store_items (ds_snapshotItems p) (ds_snapshotItems c) ns1 of (its, ci, ns2, b) \<Rightarrow>
       let rp' = rp\<lparr>rp_status := RS_COMPLETED, rp_present := p\<lparr>ds_averageItems := pt, ds_snapshotItems := its\<rparr>,
         rp_completed := c\<lparr>ds_mark := ds_mark p, ds_timeStart := ds_timeStart p, ds_FinalTime := ds_FinalTime p,
           ds_averageItems := ct, ds_snapshotItems := ci\<rparr>\<rparr>
       in (rp', ns2, a @ b @ [Sent (rep_event rp' EID_REPORT_GENERATED)] @ SaveToXML re rp'))"

section \<open>A cycle\<close>

definition set_mark :: "rep_mark \<Rightarrow> rReport \<Rightarrow> rReport" where
  "set_mark m rp = rp\<lparr>rp_present := (rp_present rp)\<lparr>ds_mark := m\<rparr>\<rparr>"

definition rep_periodic :: "rep_env \<Rightarrow> payload net \<Rightarrow> rReport \<Rightarrow> rReport \<times> payload net \<times> act list" where
  "rep_periodic re ns rp =
     (if rp_status rp = RS_RUNNING then
        (case CheckFinishPeriodic re rp of (fin, rp1) \<Rightarrow>
           if fin then (case rep_store re ns rp1 of (rp2, ns1, a) \<Rightarrow> (rep_start re False ns1 rp2, ns1, a)) else (rp1, ns, []))
      else if rp_status rp = RS_IDLE then
        (if rt_UNIX (ds_timeStart (rp_present rp)) \<noteq> 0 then
           (if rt_UNIX (re_now re) - rt_UNIX (ds_timeStart (rp_present rp)) \<ge> uint (GetUNIXPeriod rp)
            then (case rep_store re ns (set_mark RM_ILLEGAL rp) of (rp2, ns1, a) \<Rightarrow>
                (set_mark RM_INCOMPLETE (rep_start re False ns1 rp2), ns1, a))
            else (set_mark RM_INCOMPLETE (rp\<lparr>rp_status := RS_RUNNING\<rparr>), ns, []))
         else (rep_start re True ns rp, ns, []))
      else (rp, ns, []))"

text \<open>\<^verbatim>\<open>rLink::calculate\<close> for a link of an item.\<close>

definition rep_link :: "net_env \<Rightarrow> payload calc \<Rightarrow> slink \<Rightarrow> payload net \<Rightarrow> (slink \<times> payload net \<times> act list) option" where
  "rep_link ne c s ns = (let l = sl_link s in
     case sl_source s of None \<Rightarrow> Some (s, ns, [])
     | Some j \<Rightarrow> if has (l_setup l) LINK_DISABLE then Some (s, ns, []) else do {
         (v, err, ns1, a) \<leftarrow> source_getValue ne c j (l_param l) (l_unit l) ns;
         (case link_calculate (v, err) l of (_, l1, evs) \<Rightarrow> Some (s\<lparr>sl_link := l1\<rparr>, ns1, a @ List.map Sent evs)) })"

text \<open>The mean: \<open>inc\<close> since the last cycle, \<open>old\<close> and \<open>cur\<close> since the start of the report.\<close>

definition rep_mean :: "lreal \<Rightarrow> lreal \<Rightarrow> lreal \<Rightarrow> lreal \<Rightarrow> lreal \<Rightarrow> lreal" where
  "rep_mean inc old cur x v = (if cur \<le> Fin 0 then v else ((v * inc) + (x * old)) / cur)"

fun mean_items :: "net_env \<Rightarrow> payload calc \<Rightarrow> lreal \<Rightarrow> lreal \<Rightarrow> lreal \<Rightarrow> rep_item list \<Rightarrow> payload net
    \<Rightarrow> (rep_item list \<times> payload net \<times> act list) option" where
  "mean_items ne c inc old cur [] ns = Some ([], ns, [])"
| "mean_items ne c inc old cur (it # its) ns = do {
     (s, ns1, a) \<leftarrow> rep_link ne c (ri_link it) ns;
     (its', ns2, b) \<leftarrow> mean_items ne c inc old cur its ns1;
     Some (it\<lparr>ri_link := s, ri_value := rep_mean inc old cur (l_value (sl_link s)) (ri_value it)\<rparr> # its', ns2, a @ b) }"

fun mean_totals :: "net_env \<Rightarrow> payload calc \<Rightarrow> rep_total list \<Rightarrow> payload net \<Rightarrow> (rep_total list \<times> payload net \<times> act list) option" where
  "mean_totals ne c [] ns = Some ([], ns, [])"
| "mean_totals ne c (t # ts) ns = (let p = present_of ns (rt_source t);
       inc = total_sub (Mass p) (Mass (rt_finalTotal t)); old = total_sub (Mass (rt_finalTotal t)) (Mass (rt_startTotal t));
       cur = total_sub (Mass p) (Mass (rt_startTotal t)) in do {
     (its, ns1, a) \<leftarrow> mean_items ne c inc old cur (rt_items t) ns;
     (ts', ns2, b) \<leftarrow> mean_totals ne c ts ns1;
     Some (t\<lparr>rt_finalTotal := p, rt_items := its\<rparr> # ts', ns2, a @ b) })"

fun snap_items :: "net_env \<Rightarrow> payload calc \<Rightarrow> rep_item list \<Rightarrow> payload net \<Rightarrow> (rep_item list \<times> payload net \<times> act list) option" where
  "snap_items ne c [] ns = Some ([], ns, [])"
| "snap_items ne c (it # its) ns = do {
     (s, ns1, a) \<leftarrow> rep_link ne c (ri_link it) ns;
     (its', ns2, b) \<leftarrow> snap_items ne c its ns1;
     Some (it\<lparr>ri_link := s, ri_value := l_value (sl_link s)\<rparr> # its', ns2, a @ b) }"

text \<open>The part of \<^verbatim>\<open>calculate\<close> behind \<^verbatim>\<open>rSource::calculate\<close>; a report has no outputs of its own.\<close>

definition rep_body :: "net_env \<Rightarrow> payload calc \<Rightarrow> rep_env \<Rightarrow> rReport \<Rightarrow> payload net \<Rightarrow> (rReport \<times> payload net \<times> act list) option" where
  "rep_body ne c re rp ns =
     (case (if rp_type rp = PERIODIC then rep_periodic re ns rp else (rp, ns, [])) of (rp1, ns1, a) \<Rightarrow> do {
        (ts, ns2, b) \<leftarrow> mean_totals ne c (ds_averageItems (rp_present rp1)) ns1;
        (its, ns3, d) \<leftarrow> snap_items ne c (ds_snapshotItems (rp_present rp1)) ns2;
        Some (rp1\<lparr>rp_present := (rp_present rp1)\<lparr>ds_averageItems := ts, ds_snapshotItems := its\<rparr>\<rparr>, ns3, a @ b @ d) })"

definition rep_run :: "rep_env \<Rightarrow> payload net \<Rightarrow> rReport \<Rightarrow> rReport" where
  "rep_run re ns rp = rep_start re True ns rp"

section \<open>Reading a plant that is calculated\<close>

text \<open>Reports come after the pass over the objects, so no source they read is calculated for it.\<close>

definition calced :: "payload net \<Rightarrow> bool" where
  "calced ns \<longleftrightarrow> (\<forall>j<length ns. n_isCalc (ns ! j))"

lemma latches_calced: "latches_only ns ns' \<Longrightarrow> calced ns \<Longrightarrow> calced ns'"
  unfolding calced_def latches_only_def by (metis lk0_fields)

lemma latches_length: "latches_only ns ns' \<Longrightarrow> length ns' = length ns"
  by (simp add: latches_only_def)

lemma latches_present: "latches_only ns ns' \<Longrightarrow> j < length ns \<Longrightarrow> present_of ns' j = present_of ns j"
  unfolding present_of_def latches_only_def using lk0_fields by metis

text \<open>An item whose link has a source in the plant and a finite value.\<close>

definition item_ok :: "nat \<Rightarrow> rep_item \<Rightarrow> bool" where
  "item_ok n it \<longleftrightarrow> (case sl_source (ri_link it) of None \<Rightarrow> True | Some j \<Rightarrow> j < n) \<and> isfinite (l_value (sl_link (ri_link it)))"

lemma clean_finite: "isfinite (clean v)"
  by (cases v) (simp_all add: clean_def)

lemma rep_link_calced:
  assumes c: "calced ns" and ok: "item_ok (length ns) it"
  shows "\<exists>s ns' a. rep_link ne f (ri_link it) ns = Some (s, ns', a) \<and> latches_only ns ns' \<and> isfinite (l_value (sl_link s))
    \<and> sl_source s = sl_source (ri_link it)"
proof (cases "sl_source (ri_link it) = None \<or> has (l_setup (sl_link (ri_link it))) LINK_DISABLE")
  case True
  then show ?thesis using ok by (auto simp: rep_link_def Let_def item_ok_def split: option.splits)
next
  case False
  let ?l = "sl_link (ri_link it)"
  obtain j where j: "sl_source (ri_link it) = Some j" using False by auto
  then have i: "n_isCalc (ns ! j)" using ok c by (simp add: item_ok_def calced_def)
  obtain v err ns1 b where r: "read_output ne j (l_param ?l) (l_unit ?l) ns = (v, err, ns1, b)" by (rule prod_cases4)
  obtain e l1 evs where k: "link_calculate (v, err) ?l = (e, l1, evs)" by (rule prod_cases3)
  have "isfinite (l_value l1)"
  proof (cases "l_valid ?l")
    case True
    then show ?thesis using link_calculate_static [OF k] False clean_finite by simp
  next
    case v: False
    then have "l1 = ?l" using k by (simp add: link_calculate_def)
    then show ?thesis using ok by (simp add: item_ok_def)
  qed
  then show ?thesis using False i r k read_output_only [OF r] by (simp add: rep_link_def Let_def j source_getValue_def)
qed

definition averaged :: "lreal \<Rightarrow> lreal \<Rightarrow> lreal \<Rightarrow> rep_item \<Rightarrow> rep_item \<Rightarrow> bool" where
  "averaged inc old cur it it' \<longleftrightarrow> (\<exists>x. isfinite x \<and> x = l_value (sl_link (ri_link it')) \<and> ri_value it' = rep_mean inc old cur x (ri_value it))
     \<and> sl_source (ri_link it') = sl_source (ri_link it)"

lemma mean_items_calced:
  "calced ns \<Longrightarrow> list_all (item_ok (length ns)) its \<Longrightarrow> \<exists>its' ns' a. mean_items ne f inc old cur its ns = Some (its', ns', a)
    \<and> latches_only ns ns' \<and> list_all2 (averaged inc old cur) its its'"
proof (induction its arbitrary: ns)
  case (Cons it its)
  have ok: "item_ok (length ns) it" "list_all (item_ok (length ns)) its" using Cons.prems(2) by simp_all
  obtain s ns1 a where 1: "rep_link ne f (ri_link it) ns = Some (s, ns1, a)" "latches_only ns ns1" "isfinite (l_value (sl_link s))"
    "sl_source s = sl_source (ri_link it)" using rep_link_calced [OF Cons.prems(1) ok(1)] by blast
  obtain its' ns2 b where 2: "mean_items ne f inc old cur its ns1 = Some (its', ns2, b)" "latches_only ns1 ns2"
    "list_all2 (averaged inc old cur) its its'"
    using Cons.IH [OF latches_calced [OF 1(2) Cons.prems(1)]] ok(2) latches_length [OF 1(2)] by auto
  have "latches_only ns ns2" by (rule latches_only_trans [OF 1(2) 2(2)])
  moreover have "averaged inc old cur it (it\<lparr>ri_link := s, ri_value := rep_mean inc old cur (l_value (sl_link s)) (ri_value it)\<rparr>)"
    using 1(3,4) by (simp add: averaged_def)
  ultimately show ?case using 1(1) 2(1,3) by simp
qed simp

text \<open>What a cycle makes of a group of totals and means.\<close>

definition mass_inc :: "payload net \<Rightarrow> rep_total \<Rightarrow> lreal" where
  "mass_inc ns t = total_sub (Mass (present_of ns (rt_source t))) (Mass (rt_finalTotal t))"
definition mass_old :: "rep_total \<Rightarrow> lreal" where
  "mass_old t = total_sub (Mass (rt_finalTotal t)) (Mass (rt_startTotal t))"
definition mass_cur :: "payload net \<Rightarrow> rep_total \<Rightarrow> lreal" where
  "mass_cur ns t = total_sub (Mass (present_of ns (rt_source t))) (Mass (rt_startTotal t))"

definition group_cycle :: "payload net \<Rightarrow> rep_total \<Rightarrow> rep_total \<Rightarrow> bool" where
  "group_cycle ns t t' \<longleftrightarrow> rt_source t' = rt_source t \<and> rt_startTotal t' = rt_startTotal t
     \<and> rt_finalTotal t' = present_of ns (rt_source t)
     \<and> list_all2 (averaged (mass_inc ns t) (mass_old t) (mass_cur ns t)) (rt_items t) (rt_items t')"

definition group_ok :: "nat \<Rightarrow> rep_total \<Rightarrow> bool" where
  "group_ok n t \<longleftrightarrow> rt_source t < n \<and> list_all (item_ok n) (rt_items t)"

lemma group_cycle_latches:
  assumes "latches_only ns ns1" "group_ok (length ns) t" "group_cycle ns1 t t'"
  shows "group_cycle ns t t'"
  using assms latches_present [OF assms(1)] by (simp add: group_cycle_def group_ok_def mass_inc_def mass_cur_def)

lemma mean_totals_calced:
  "calced ns \<Longrightarrow> list_all (group_ok (length ns)) ts \<Longrightarrow> \<exists>ts' ns' a. mean_totals ne f ts ns = Some (ts', ns', a)
    \<and> latches_only ns ns' \<and> list_all2 (group_cycle ns) ts ts'"
proof (induction ts arbitrary: ns)
  case (Cons t ts)
  have ok: "group_ok (length ns) t" "list_all (group_ok (length ns)) ts" using Cons.prems by simp_all
  obtain its ns1 a where 1: "mean_items ne f (mass_inc ns t) (mass_old t) (mass_cur ns t) (rt_items t) ns = Some (its, ns1, a)"
    "latches_only ns ns1" "list_all2 (averaged (mass_inc ns t) (mass_old t) (mass_cur ns t)) (rt_items t) its"
    using mean_items_calced [OF Cons.prems(1)] ok(1) by (metis group_ok_def)
  obtain ts' ns2 b where 2: "mean_totals ne f ts ns1 = Some (ts', ns2, b)" "latches_only ns1 ns2" "list_all2 (group_cycle ns1) ts ts'"
    using Cons.IH [OF latches_calced [OF 1(2) Cons.prems(1)]] ok(2) latches_length [OF 1(2)] by auto
  have "list_all2 (group_cycle ns) ts ts'"
    by (rule list.rel_mono_strong [OF 2(3)]) (use group_cycle_latches [OF 1(2)] ok(2) in \<open>auto simp: list_all_iff\<close>)
  moreover have "mean_totals ne f (t # ts) ns
      = Some (t\<lparr>rt_finalTotal := present_of ns (rt_source t), rt_items := its\<rparr> # ts', ns2, a @ b)"
    using 1(1) 2(1) by (simp add: Let_def mass_inc_def mass_old_def mass_cur_def)
  moreover have "latches_only ns ns2" by (rule latches_only_trans [OF 1(2) 2(2)])
  moreover have "group_cycle ns t (t\<lparr>rt_finalTotal := present_of ns (rt_source t), rt_items := its\<rparr>)"
    using 1(3) by (simp add: group_cycle_def)
  ultimately show ?case by (simp del: mean_totals.simps)
qed simp

definition shown_ok :: "rep_item \<Rightarrow> rep_item \<Rightarrow> bool" where
  "shown_ok it it' \<longleftrightarrow> sl_source (ri_link it') = sl_source (ri_link it) \<and> isfinite (l_value (sl_link (ri_link it'))) \<and> ri_value it' = l_value (sl_link (ri_link it'))"

lemma snap_items_calced:
  "calced ns \<Longrightarrow> list_all (item_ok (length ns)) its \<Longrightarrow> \<exists>its' ns' a. snap_items ne f its ns = Some (its', ns', a)
    \<and> latches_only ns ns' \<and> list_all2 shown_ok its its'"
proof (induction its arbitrary: ns)
  case (Cons it its)
  have ok: "item_ok (length ns) it" "list_all (item_ok (length ns)) its" using Cons.prems(2) by simp_all
  obtain s ns1 a where 1: "rep_link ne f (ri_link it) ns = Some (s, ns1, a)" "latches_only ns ns1"
    "sl_source s = sl_source (ri_link it) \<and> isfinite (l_value (sl_link s))" using rep_link_calced [OF Cons.prems(1) ok(1)] by blast
  obtain its' ns2 b where 2: "snap_items ne f its ns1 = Some (its', ns2, b)" "latches_only ns1 ns2" "list_all2 shown_ok its its'"
    using Cons.IH [OF latches_calced [OF 1(2) Cons.prems(1)]] ok(2) latches_length [OF 1(2)] by auto
  have "latches_only ns ns2" by (rule latches_only_trans [OF 1(2) 2(2)])
  moreover have "shown_ok it (it\<lparr>ri_link := s, ri_value := l_value (sl_link s)\<rparr>)" using 1(3) by (simp add: shown_ok_def)
  ultimately show ?case using 1(1) 2(1,3) by simp
qed simp

section \<open>What storing does\<close>

text \<open>The copies of a report have the groups and items of the report.\<close>

definition same_groups :: "rDataset \<Rightarrow> rDataset \<Rightarrow> bool" where
  "same_groups p c \<longleftrightarrow> list_all2 (\<lambda>a b. length (rt_items a) = length (rt_items b)) (ds_averageItems p) (ds_averageItems c)
     \<and> length (ds_snapshotItems p) = length (ds_snapshotItems c)"

definition emptied :: "rep_item \<Rightarrow> rep_item \<Rightarrow> bool" where
  "emptied it it' \<longleftrightarrow> ri_link it' = ri_link it \<and> ri_value it' = Fin 0"

lemma store_items_spec:
  "store_items ps cs ns = (ps', cs', ns', a) \<Longrightarrow> length ps = length cs \<Longrightarrow>
     latches_only ns ns' \<and> list_all2 emptied ps ps' \<and> List.map ri_value cs' = List.map ri_value ps"
proof (induction ps cs ns arbitrary: ps' cs' ns' a rule: store_items.induct)
  case (1 p ps c cs ns)
  obtain u ns1 b where u: "link_getSourceUnit (ri_link p) ns = (u, ns1, b)" by (rule prod_cases3)
  obtain qs ds ns2 d where r: "store_items ps cs ns1 = (qs, ds, ns2, d)" by (rule prod_cases4)
  note I = "1.IH" [OF u [symmetric] refl r]
  have "latches_only ns ns1" using link_getSourceUnit_only [OF u] by simp
  then have "latches_only ns ns2" using I "1.prems"(2) latches_only_trans by fastforce
  then show ?case using I "1.prems" by (auto simp: u r emptied_def)
qed auto

definition restarted :: "rep_total \<Rightarrow> rep_total \<Rightarrow> bool" where
  "restarted t t' \<longleftrightarrow> rt_source t' = rt_source t \<and> list_all2 emptied (rt_items t) (rt_items t')"

definition archived :: "rep_total \<Rightarrow> rep_total \<Rightarrow> bool" where
  "archived t c \<longleftrightarrow> rt_startTotal c = rt_startTotal t \<and> rt_finalTotal c = rt_finalTotal t
     \<and> List.map ri_value (rt_items c) = List.map ri_value (rt_items t)"

lemma store_totals_spec:
  "store_totals ps cs ns = (ps', cs', ns', a) \<Longrightarrow> list_all2 (\<lambda>a b. length (rt_items a) = length (rt_items b)) ps cs \<Longrightarrow>
     latches_only ns ns' \<and> list_all2 restarted ps ps' \<and> list_all2 archived ps cs'"
proof (induction ps cs ns arbitrary: ps' cs' ns' a rule: store_totals.induct)
  case (1 p ps c cs ns)
  obtain is1 ci ns1 b where i: "store_items (rt_items p) (rt_items c) ns = (is1, ci, ns1, b)" by (rule prod_cases4)
  obtain qs ds ns2 d where r: "store_totals ps cs ns1 = (qs, ds, ns2, d)" by (rule prod_cases4)
  have len: "length (rt_items p) = length (rt_items c)" "list_all2 (\<lambda>a b. length (rt_items a) = length (rt_items b)) ps cs"
    using "1.prems"(2) by simp_all
  note I = "1.IH" [OF i [symmetric] refl refl r len(2)] and J = store_items_spec [OF i len(1)]
  have "latches_only ns ns2" using I J latches_only_trans by blast
  then show ?case using I J "1.prems"(1) by (auto simp: i r restarted_def archived_def)
qed auto

section \<open>A whole cycle\<close>

definition report_ok :: "nat \<Rightarrow> rReport \<Rightarrow> bool" where
  "report_ok n rp \<longleftrightarrow> list_all (group_ok n) (ds_averageItems (rp_present rp)) \<and> list_all (item_ok n) (ds_snapshotItems (rp_present rp))
     \<and> same_groups (rp_present rp) (rp_completed rp)"

abbreviation groups :: "rReport \<Rightarrow> rep_total list" where
  "groups rp \<equiv> ds_averageItems (rp_present rp)"
abbreviation done_groups :: "rReport \<Rightarrow> rep_total list" where
  "done_groups rp \<equiv> ds_averageItems (rp_completed rp)"

lemma emptied_ok: "emptied it it' \<Longrightarrow> item_ok n it' = item_ok n it"
  by (simp add: emptied_def item_ok_def)

lemma list_all2_imp_all: "list_all2 R xs ys \<Longrightarrow> list_all P xs \<Longrightarrow> (\<And>x y. R x y \<Longrightarrow> P x \<Longrightarrow> Q y) \<Longrightarrow> list_all Q ys"
  by (induction rule: list_all2_induct) auto

lemma restarted_ok: "restarted t t' \<Longrightarrow> group_ok n t \<Longrightarrow> group_ok n t'"
  using list_all2_imp_all [of emptied "rt_items t" "rt_items t'" "item_ok n" "item_ok n"]
  by (auto simp: restarted_def group_ok_def emptied_ok)

lemma list_all2_map_eq: "list_all2 R xs ys \<Longrightarrow> (\<And>x y. R x y \<Longrightarrow> g y = f x) \<Longrightarrow> List.map g ys = List.map f xs"
  by (induction rule: list_all2_induct) auto

text \<open>Storing and starting again, as at the end of a period.\<close>

lemma store_start:
  assumes r: "rep_store re ns rp = (rp1, ns1, a)" and ok: "report_ok (length ns) rp"
  shows "latches_only ns ns1 \<and> list_all2 archived (groups rp) (done_groups (rep_start re b ns2 rp1))
    \<and> List.map rt_source (groups (rep_start re b ns2 rp1)) = List.map rt_source (groups rp)
    \<and> list_all (\<lambda>t. rt_startTotal t = present_of ns2 (rt_source t) \<and> rt_finalTotal t = present_of ns2 (rt_source t)
        \<and> list_all (\<lambda>it. ri_value it = Fin 0) (rt_items t)) (groups (rep_start re b ns2 rp1))
    \<and> list_all (group_ok (length ns)) (groups (rep_start re b ns2 rp1))
    \<and> list_all (item_ok (length ns)) (ds_snapshotItems (rp_present (rep_start re b ns2 rp1)))
    \<and> List.map ri_value (ds_snapshotItems (rp_completed rp1)) = List.map ri_value (ds_snapshotItems (rp_present rp))
    \<and> ds_mark (rp_completed rp1) = ds_mark (rp_present rp) \<and> ds_timeStart (rp_completed rp1) = ds_timeStart (rp_present rp)"
proof -
  let ?p = "(rp_present rp)\<lparr>ds_FinalTime := re_stored re\<rparr>" and ?c = "rp_completed rp"
  obtain pt ct ns3 x where t: "store_totals (groups rp) (done_groups rp) ns = (pt, ct, ns3, x)" by (rule prod_cases4)
  obtain its ci ns4 y where i: "store_items (ds_snapshotItems (rp_present rp)) (ds_snapshotItems ?c) ns3 = (its, ci, ns4, y)" by (rule prod_cases4)
  have g: "list_all2 (\<lambda>a b. length (rt_items a) = length (rt_items b)) (groups rp) (done_groups rp)"
    "length (ds_snapshotItems (rp_present rp)) = length (ds_snapshotItems ?c)"
    using ok by (simp_all add: report_ok_def same_groups_def)
  note T = store_totals_spec [OF t g(1)] and I = store_items_spec [OF i g(2)]
  have rp1: "ns1 = ns4" "groups rp1 = pt" "done_groups rp1 = ct" "ds_snapshotItems (rp_present rp1) = its"
    "ds_snapshotItems (rp_completed rp1) = ci" "ds_mark (rp_completed rp1) = ds_mark (rp_present rp)"
    "ds_timeStart (rp_completed rp1) = ds_timeStart (rp_present rp)"
    using r t i by (auto simp: rep_store_def Let_def)
  have l: "latches_only ns ns4" using T I latches_only_trans by blast
  have res: "list_all2 restarted (groups rp) pt" using T by blast
  have src: "List.map rt_source pt = List.map rt_source (groups rp)"
    by (rule list_all2_map_eq [OF res]) (simp add: restarted_def)
  have gok: "list_all (group_ok (length ns)) pt"
    by (rule list_all2_imp_all [OF res, where P = "group_ok (length ns)"]) (use ok restarted_ok in \<open>auto simp: report_ok_def\<close>)
  have zero: "list_all (\<lambda>t. list_all (\<lambda>it. ri_value it = Fin 0) (rt_items t)) pt"
  proof (rule list_all2_imp_all [OF res, where P = "\<lambda>t. True"])
    fix a b assume "restarted a b"
    then have "list_all2 emptied (rt_items a) (rt_items b)" by (simp add: restarted_def)
    then show "list_all (\<lambda>it. ri_value it = Fin 0) (rt_items b)"
      by (rule list_all2_imp_all [where P = "\<lambda>t. True"]) (simp_all add: emptied_def list_all_iff)
  qed (simp add: list_all_iff)
  have iok: "list_all (item_ok (length ns)) its"
    by (rule list_all2_imp_all [of emptied _ _ "item_ok (length ns)"]) (use I ok emptied_ok in \<open>auto simp: report_ok_def\<close>)
  let ?g = "\<lambda>t. t\<lparr>rt_startTotal := present_of ns2 (rt_source t), rt_finalTotal := present_of ns2 (rt_source t)\<rparr>"
  have s: "groups (rep_start re b ns2 rp1) = List.map ?g pt" "done_groups (rep_start re b ns2 rp1) = ct"
    "ds_snapshotItems (rp_present (rep_start re b ns2 rp1)) = its"
    by (simp_all add: rep_start_def rp1)
  have "list_all2 archived (groups rp) ct" using T by blast
  moreover have "List.map rt_source (List.map ?g pt) = List.map rt_source (groups rp)" using src by (simp add: comp_def)
  moreover have "list_all (\<lambda>t. rt_startTotal t = present_of ns2 (rt_source t) \<and> rt_finalTotal t = present_of ns2 (rt_source t)
      \<and> list_all (\<lambda>it. ri_value it = Fin 0) (rt_items t)) (List.map ?g pt)"
    using zero by (simp add: list_all_iff)
  moreover have "list_all (group_ok (length ns)) (List.map ?g pt)" using gok by (simp add: list_all_iff group_ok_def)
  moreover have "List.map ri_value ci = List.map ri_value (ds_snapshotItems (rp_present rp))" using I by blast
  ultimately show ?thesis unfolding s rp1 using l iok by blast
qed

text \<open>The means and totals of a cycle, behind the handling of periods.\<close>

lemma rep_body_calced:
  assumes "(if rp_type rp = PERIODIC then rep_periodic re ns rp else (rp, ns, [])) = (rp1, ns1, a)"
    "calced ns1" "list_all (group_ok (length ns1)) (groups rp1)" "list_all (item_ok (length ns1)) (ds_snapshotItems (rp_present rp1))"
  shows "\<exists>rp' ns' b. rep_body ne f re rp ns = Some (rp', ns', b) \<and> latches_only ns1 ns' \<and> list_all2 (group_cycle ns1) (groups rp1) (groups rp')
    \<and> rp_completed rp' = rp_completed rp1 \<and> rp_status rp' = rp_status rp1 \<and> rp_period rp' = rp_period rp1 \<and> rp_PastTM rp' = rp_PastTM rp1
    \<and> rp_type rp' = rp_type rp1 \<and> ds_mark (rp_present rp') = ds_mark (rp_present rp1) \<and> ds_timeStart (rp_present rp') = ds_timeStart (rp_present rp1)"
proof -
  obtain ts ns2 x where 1: "mean_totals ne f (groups rp1) ns1 = Some (ts, ns2, x)" "latches_only ns1 ns2" "list_all2 (group_cycle ns1) (groups rp1) ts"
    using mean_totals_calced [OF assms(2,3)] by blast
  obtain its ns3 y where 2: "snap_items ne f (ds_snapshotItems (rp_present rp1)) ns2 = Some (its, ns3, y)" "latches_only ns2 ns3"
    using snap_items_calced [OF latches_calced [OF 1(2) assms(2)]] assms(4) latches_length [OF 1(2)] by metis
  have "latches_only ns1 ns3" by (rule latches_only_trans [OF 1(2) 2(2)])
  then show ?thesis using 1(3) by (simp add: rep_body_def assms(1) 1(1) 2(1))
qed

lemma averaged_ok: "averaged inc old cur it it' \<Longrightarrow> item_ok n it \<Longrightarrow> item_ok n it'"
  by (auto simp: averaged_def item_ok_def)

lemma group_cycle_ok:
  assumes "group_cycle ns t t'" "group_ok n t"
  shows "group_ok n t'" "length (rt_items t') = length (rt_items t)"
proof -
  have r: "list_all2 (averaged (mass_inc ns t) (mass_old t) (mass_cur ns t)) (rt_items t) (rt_items t')"
    using assms(1) by (simp add: group_cycle_def)
  have "list_all (item_ok n) (rt_items t')"
    by (rule list_all2_imp_all [OF r, where P = "item_ok n"]) (use assms(2) averaged_ok in \<open>auto simp: group_ok_def\<close>)
  then show "group_ok n t'" using assms by (simp add: group_ok_def group_cycle_def)
  show "length (rt_items t') = length (rt_items t)" using list_all2_lengthD [OF r] by simp
qed

text \<open>A cycle inside of a period.\<close>

lemma rep_cycle_inside:
  assumes ok: "report_ok (length ns) rp" and c: "calced ns" and run: "rp_type rp = PERIODIC" "rp_status rp = RS_RUNNING"
    and fin: "\<not> period_ends (re_week re) (rp_period rp) (rp_PastTM rp) (rt_TM (re_now re))"
  shows "\<exists>rp' ns' a. rep_body ne f re rp ns = Some (rp', ns', a) \<and> latches_only ns ns' \<and> list_all2 (group_cycle ns) (groups rp) (groups rp')
    \<and> rp_completed rp' = rp_completed rp \<and> rp_status rp' = RS_RUNNING \<and> rp_period rp' = rp_period rp \<and> rp_PastTM rp' = rt_TM (re_now re)
    \<and> rp_type rp' = PERIODIC \<and> ds_mark (rp_present rp') = ds_mark (rp_present rp)"
proof -
  let ?rp = "rp\<lparr>rp_PastTM := rt_TM (re_now re)\<rparr>"
  have p: "(if rp_type rp = PERIODIC then rep_periodic re ns rp else (rp, ns, [])) = (?rp, ns, [])"
    using run fin by (simp add: rep_periodic_def CheckFinishPeriodic_def)
  show ?thesis
    using rep_body_calced [OF p c, of ne f] ok run by (auto simp: report_ok_def)
qed

text \<open>A cycle that ends a period.\<close>

lemma rep_cycle_end:
  assumes ok: "list_all (group_ok (length ns)) (groups rp)" "list_all (item_ok (length ns)) (ds_snapshotItems (rp_present rp))"
      "same_groups (rp_present rp) (rp_completed rp)"
    and c: "calced ns" and run: "rp_type rp = PERIODIC" "rp_status rp = RS_RUNNING"
    and fin: "period_ends (re_week re) (rp_period rp) (rp_PastTM rp) (rt_TM (re_now re))"
  shows "\<exists>rp' ns' a. rep_body ne f re rp ns = Some (rp', ns', a) \<and> list_all2 archived (groups rp) (done_groups rp')
    \<and> List.map rt_source (groups rp') = List.map rt_source (groups rp)
    \<and> List.map rt_startTotal (groups rp') = List.map (\<lambda>t. present_of ns (rt_source t)) (groups rp)
    \<and> List.map rt_finalTotal (groups rp') = List.map (\<lambda>t. present_of ns (rt_source t)) (groups rp)
    \<and> rp_status rp' = RS_RUNNING \<and> ds_mark (rp_completed rp') = ds_mark (rp_present rp) \<and> ds_mark (rp_present rp') = RM_VALIDATE
    \<and> List.map ri_value (ds_snapshotItems (rp_completed rp')) = List.map ri_value (ds_snapshotItems (rp_present rp))"
proof -
  let ?rp = "rp\<lparr>rp_PastTM := rt_TM (re_now re)\<rparr>"
  obtain rp2 ns1 a where s: "rep_store re ns ?rp = (rp2, ns1, a)" by (rule prod_cases3)
  let ?r = "rep_start re False ns1 rp2"
  have p: "(if rp_type rp = PERIODIC then rep_periodic re ns rp else (rp, ns, [])) = (?r, ns1, a)"
    using run fin by (simp add: rep_periodic_def CheckFinishPeriodic_def s)
  have ok': "report_ok (length ns) ?rp" using ok by (simp add: report_ok_def)
  note S = store_start [OF s ok', of False ns1]
  have l: "latches_only ns ns1" using S by blast
  have cl: "calced ns1" "length ns1 = length ns" using latches_calced [OF l c] latches_length [OF l] by simp_all
  obtain rp' ns' b where b: "rep_body ne f re rp ns = Some (rp', ns', b)" "list_all2 (group_cycle ns1) (groups ?r) (groups rp')"
    "rp_completed rp' = rp_completed ?r" "rp_status rp' = rp_status ?r" "ds_mark (rp_present rp') = ds_mark (rp_present ?r)"
    using rep_body_calced [OF p cl(1), of ne f] S unfolding cl(2) by blast
  have src: "List.map rt_source (groups ?r) = List.map rt_source (groups rp)" using S by simp
  have lt: "list_all (\<lambda>t. rt_source t < length ns) (groups ?r)" using S by (simp add: list_all_iff group_ok_def)
  have pres: "List.map (\<lambda>t. present_of ns1 (rt_source t)) (groups ?r) = List.map (\<lambda>t. present_of ns (rt_source t)) (groups rp)"
  proof -
    have "List.map (\<lambda>t. present_of ns1 (rt_source t)) (groups ?r) = List.map (\<lambda>t. present_of ns (rt_source t)) (groups ?r)"
      using lt latches_present [OF l] by (auto simp: list_all_iff)
    also have "\<dots> = List.map (present_of ns) (List.map rt_source (groups ?r))" by simp
    also have "\<dots> = List.map (present_of ns) (List.map rt_source (groups rp))" by (simp only: src)
    finally show ?thesis by (simp add: comp_def)
  qed
  have start: "List.map rt_startTotal (groups ?r) = List.map (\<lambda>t. present_of ns1 (rt_source t)) (groups ?r)"
    using S by (auto simp: list_all_iff)
  have "List.map rt_source (groups rp') = List.map rt_source (groups ?r)"
    by (rule list_all2_map_eq [OF b(2)]) (simp add: group_cycle_def)
  moreover have "List.map rt_startTotal (groups rp') = List.map rt_startTotal (groups ?r)"
    by (rule list_all2_map_eq [OF b(2)]) (simp add: group_cycle_def)
  moreover have "List.map rt_finalTotal (groups rp') = List.map (\<lambda>t. present_of ns1 (rt_source t)) (groups ?r)"
    by (rule list_all2_map_eq [OF b(2)]) (simp add: group_cycle_def)
  moreover have "rp_status ?r = RS_RUNNING" "ds_mark (rp_present ?r) = RM_VALIDATE" by (simp_all add: rep_start_def)
  moreover have "rp_completed ?r = rp_completed rp2" by (simp add: rep_start_def)
  moreover have "ds_mark (rp_completed rp2) = ds_mark (rp_present rp)"
    "List.map ri_value (ds_snapshotItems (rp_completed rp2)) = List.map ri_value (ds_snapshotItems (rp_present rp))"
    "list_all2 archived (groups rp) (done_groups ?r)" using S by simp_all
  ultimately show ?thesis using b src start pres by auto
qed

lemma rep_body_ok:
  assumes r: "rep_body ne f re rp ns = Some (rp', ns', a)" and ok: "report_ok (length ns) rp" and c: "calced ns"
    and run: "rp_type rp = PERIODIC" "rp_status rp = RS_RUNNING"
    and fin: "\<not> period_ends (re_week re) (rp_period rp) (rp_PastTM rp) (rt_TM (re_now re))"
  shows "report_ok (length ns) rp'"
proof -
  let ?n = "length ns"
  have p: "(if rp_type rp = PERIODIC then rep_periodic re ns rp else (rp, ns, [])) = (rp\<lparr>rp_PastTM := rt_TM (re_now re)\<rparr>, ns, [])"
    using run fin by (simp add: rep_periodic_def CheckFinishPeriodic_def)
  have gs: "list_all (group_ok ?n) (groups rp)" "list_all (item_ok ?n) (ds_snapshotItems (rp_present rp))"
    "same_groups (rp_present rp) (rp_completed rp)" using ok by (simp_all add: report_ok_def)
  obtain ts ns2 x where 1: "mean_totals ne f (groups rp) ns = Some (ts, ns2, x)" "latches_only ns ns2" "list_all2 (group_cycle ns) (groups rp) ts"
    using mean_totals_calced [OF c gs(1)] by blast
  have n2: "length ns2 = ?n" by (rule latches_length [OF 1(2)])
  obtain its ns3 y where 2: "snap_items ne f (ds_snapshotItems (rp_present rp)) ns2 = Some (its, ns3, y)"
    "list_all2 shown_ok (ds_snapshotItems (rp_present rp)) its"
    using snap_items_calced [OF latches_calced [OF 1(2) c]] gs(2) n2 by metis
  have rp': "groups rp' = ts" "ds_snapshotItems (rp_present rp') = its" "rp_completed rp' = rp_completed rp"
    using r by (auto simp: rep_body_def p 1(1) 2(1))
  have "list_all (group_ok ?n) ts"
    by (rule list_all2_imp_all [OF 1(3), where P = "group_ok ?n"]) (use gs(1) group_cycle_ok in auto)
  moreover have "list_all (item_ok ?n) its"
    by (rule list_all2_imp_all [OF 2(2), where P = "item_ok ?n"]) (use gs(2) in \<open>auto simp: shown_ok_def item_ok_def\<close>)
  moreover have "List.map (length \<circ> rt_items) ts = List.map (length \<circ> rt_items) (groups rp)"
  proof -
    have "list_all2 (\<lambda>a b. group_cycle ns a b) (groups rp) ts" by (rule 1(3))
    then show ?thesis by (rule list_all2_map_eq) (auto simp: group_cycle_def dest: list_all2_lengthD)
  qed
  then have "same_groups (rp_present rp') (rp_completed rp')"
    using gs(3) list_all2_lengthD [OF 2(2)] unfolding same_groups_def rp'
    by (simp add: list_all2_conv_all_nth map_eq_conv) (metis (no_types, lifting) comp_apply length_map nth_map)
  ultimately show ?thesis by (simp add: report_ok_def rp')
qed

section \<open>Properties\<close>

text \<open>
  C5. The increment between the last cycle of a period and the cycle that finds its end is in no report:
  the completed report ends with the totals the last cycle saw, and the next one starts with those of
  this cycle.
\<close>

theorem report_boundary_lost:
  assumes ok: "report_ok (length ns0) rp" and c: "calced ns0" "calced ns1" "length ns1 = length ns0"
    and run: "rp_type rp = PERIODIC" "rp_status rp = RS_RUNNING"
    and fin: "\<not> period_ends (re_week re0) (rp_period rp) (rp_PastTM rp) (rt_TM (re_now re0))"
      "period_ends (re_week re1) (rp_period rp) (rt_TM (re_now re0)) (rt_TM (re_now re1))"
  shows "\<exists>rp1 rp2 n1 n2 a1 a2. rep_body ne f0 re0 rp ns0 = Some (rp1, n1, a1) \<and> rep_body ne f1 re1 rp1 ns1 = Some (rp2, n2, a2)
    \<and> List.map rt_startTotal (done_groups rp2) = List.map rt_startTotal (groups rp)
    \<and> List.map rt_finalTotal (done_groups rp2) = List.map (\<lambda>t. present_of ns0 (rt_source t)) (groups rp)
    \<and> List.map rt_startTotal (groups rp2) = List.map (\<lambda>t. present_of ns1 (rt_source t)) (groups rp)
    \<and> List.map rt_finalTotal (groups rp2) = List.map (\<lambda>t. present_of ns1 (rt_source t)) (groups rp)
    \<and> rp_status rp2 = RS_RUNNING \<and> ds_mark (rp_completed rp2) = ds_mark (rp_present rp) \<and> ds_mark (rp_present rp2) = RM_VALIDATE"
proof -
  obtain rp1 n1 a1 where 1: "rep_body ne f0 re0 rp ns0 = Some (rp1, n1, a1)" and g: "list_all2 (group_cycle ns0) (groups rp) (groups rp1)"
    and k: "rp_completed rp1 = rp_completed rp" "rp_status rp1 = RS_RUNNING" "rp_period rp1 = rp_period rp"
      "rp_PastTM rp1 = rt_TM (re_now re0)" "rp_type rp1 = PERIODIC" "ds_mark (rp_present rp1) = ds_mark (rp_present rp)"
    using rep_cycle_inside [OF ok c(1) run fin(1), of ne f0] by blast
  have ok1: "report_ok (length ns0) rp1" by (rule rep_body_ok [OF 1 ok c(1) run fin(1)])
  obtain rp2 n2 a2 where 2: "rep_body ne f1 re1 rp1 ns1 = Some (rp2, n2, a2)" and ar: "list_all2 archived (groups rp1) (done_groups rp2)"
    and s: "List.map rt_startTotal (groups rp2) = List.map (\<lambda>t. present_of ns1 (rt_source t)) (groups rp1)"
      "List.map rt_finalTotal (groups rp2) = List.map (\<lambda>t. present_of ns1 (rt_source t)) (groups rp1)"
      "rp_status rp2 = RS_RUNNING" "ds_mark (rp_completed rp2) = ds_mark (rp_present rp1)" "ds_mark (rp_present rp2) = RM_VALIDATE"
    using rep_cycle_end [of ns1 rp1 re1 ne f1] ok1 c(2,3) k fin(2) by (auto simp: report_ok_def)
  have "List.map rt_startTotal (done_groups rp2) = List.map rt_startTotal (groups rp1)"
    by (rule list_all2_map_eq [OF ar]) (simp add: archived_def)
  moreover have "List.map rt_finalTotal (done_groups rp2) = List.map rt_finalTotal (groups rp1)"
    by (rule list_all2_map_eq [OF ar]) (simp add: archived_def)
  moreover have "List.map rt_startTotal (groups rp1) = List.map rt_startTotal (groups rp)"
    by (rule list_all2_map_eq [OF g]) (simp add: group_cycle_def)
  moreover have "List.map rt_finalTotal (groups rp1) = List.map (\<lambda>t. present_of ns0 (rt_source t)) (groups rp)"
    by (rule list_all2_map_eq [OF g]) (simp add: group_cycle_def)
  moreover have "List.map (\<lambda>t. present_of ns1 (rt_source t)) (groups rp1) = List.map (\<lambda>t. present_of ns1 (rt_source t)) (groups rp)"
    by (rule list_all2_map_eq [OF g]) (simp add: group_cycle_def)
  ultimately show ?thesis using 1 2 s k by simp
qed

definition tm_at :: "int \<Rightarrow> int \<Rightarrow> tm" where
  "tm_at mon hour = \<lparr>tm_sec = 0, tm_min = 0, tm_hour = hour, tm_mday = 1, tm_mon = mon, tm_year = 2019, tm_wday = 1, tm_yday = 0\<rparr>"

definition env_at :: "int \<Rightarrow> rep_env" where
  "env_at hour = (let t = \<lparr>rt_UNIX = 1546300800 + 3600 * hour, rt_TM = tm_at 0 hour\<rparr> in
     \<lparr>re_now = t, re_stored = t, re_started = t, re_saved = TRITONN_RESULT_OK, re_week = (\<lambda>t. 1)\<rparr>)"

definition plant_with :: "real \<Rightarrow> payload net" where
  "plant_with m = [(source_new (K_Stream 0 (stream_sample\<lparr>str_total := total_zero\<lparr>Total.m_present := total_clear_base\<lparr>Mass := Fin m\<rparr>\<rparr>\<rparr>)))\<lparr>n_isCalc := True\<rparr>]"

definition item_const :: rep_item where
  "item_const = \<lparr>ri_link = \<lparr>sl_link = (sl_link (n_inputs (initLinks stream_links (source_new ())) ! 0))\<lparr>l_value := Fin 100\<rparr>, sl_source = None\<rparr>,
     ri_name = ''x'', ri_value = Fin 0\<rparr>"

definition hourly :: "rep_item list \<Rightarrow> rReport" where
  "hourly its = (let b = total_clear_base;
       g = \<lparr>rt_source = 0, rt_name = ''line'', rt_startTotal = b, rt_finalTotal = b, rt_unitMass = 0, rt_unitVolume = 0, rt_items = its\<rparr>;
       d = \<lparr>ds_mark = RM_VALIDATE, ds_timeStart = re_now (env_at 9), ds_FinalTime = re_now (env_at 9), ds_averageItems = [g], ds_snapshotItems = []\<rparr>
     in \<lparr>rp_ID = 0, rp_descr = 0, rp_type = PERIODIC, rp_period = HOUR, rp_status = RS_RUNNING, rp_present = d, rp_completed = d, rp_PastTM = tm_at 0 9\<rparr>)"

lemma hourly_ok: "list_all (item_ok 1) its \<Longrightarrow> report_ok (length (plant_with m)) (hourly its)"
  by (simp add: report_ok_def hourly_def Let_def group_ok_def same_groups_def plant_with_def)

lemma plant_with_facts: "calced (plant_with m)" "length (plant_with m) = 1" "Mass (present_of (plant_with m) 0) = Fin m"
  by (simp_all add: calced_def plant_with_def present_of_def getTotal_def source_new_def)

theorem report_boundary_lost_witness:
  "\<exists>rp1 rp2 n1 n2 a1 a2. rep_body (pe_net plant_sample_env) (calculate (pe_net plant_sample_env) (plant_body plant_sample_env) 4) (env_at 9) (hourly []) (plant_with 10) = Some (rp1, n1, a1)
    \<and> rep_body (pe_net plant_sample_env) (calculate (pe_net plant_sample_env) (plant_body plant_sample_env) 4) (env_at 10) rp1 (plant_with 13) = Some (rp2, n2, a2)
    \<and> List.map (Mass \<circ> rt_finalTotal) (done_groups rp2) = [Fin 10] \<and> List.map (Mass \<circ> rt_startTotal) (groups rp2) = [Fin 13]"
proof -
  have h: "rp_type (hourly []) = PERIODIC" "rp_status (hourly []) = RS_RUNNING" "List.map rt_source (groups (hourly [])) = [0]"
    by (simp_all add: hourly_def Let_def)
  have fin: "\<not> period_ends (re_week (env_at 9)) (rp_period (hourly [])) (rp_PastTM (hourly [])) (rt_TM (re_now (env_at 9)))"
    "period_ends (re_week (env_at 10)) (rp_period (hourly [])) (rt_TM (re_now (env_at 9))) (rt_TM (re_now (env_at 10)))"
    by (simp_all add: hourly_def env_at_def Let_def period_ends_def tm_at_def)
  have "length (plant_with 13) = length (plant_with 10)" by (simp add: plant_with_facts)
  from report_boundary_lost [OF hourly_ok plant_with_facts(1) plant_with_facts(1) this h(1,2) fin, of "pe_net plant_sample_env" "(calculate (pe_net plant_sample_env) (plant_body plant_sample_env) 4)" "(calculate (pe_net plant_sample_env) (plant_body plant_sample_env) 4)"]
  obtain rp1 rp2 n1 n2 a1 a2 where
    r: "rep_body (pe_net plant_sample_env) (calculate (pe_net plant_sample_env) (plant_body plant_sample_env) 4) (env_at 9) (hourly []) (plant_with 10) = Some (rp1, n1, a1)" "rep_body (pe_net plant_sample_env) (calculate (pe_net plant_sample_env) (plant_body plant_sample_env) 4) (env_at 10) rp1 (plant_with 13) = Some (rp2, n2, a2)"
    and t: "List.map rt_finalTotal (done_groups rp2) = List.map (\<lambda>t. present_of (plant_with 10) (rt_source t)) (groups (hourly []))"
      "List.map rt_startTotal (groups rp2) = List.map (\<lambda>t. present_of (plant_with 13) (rt_source t)) (groups (hourly []))"
    by auto
  have "List.map Mass (List.map rt_finalTotal (done_groups rp2)) = List.map (\<lambda>j. Mass (present_of (plant_with 10) j)) (List.map rt_source (groups (hourly [])))"
    "List.map Mass (List.map rt_startTotal (groups rp2)) = List.map (\<lambda>j. Mass (present_of (plant_with 13) j)) (List.map rt_source (groups (hourly [])))"
    unfolding t by simp_all
  then show ?thesis using r by (auto simp: h(3) plant_with_facts comp_def)
qed

lemma first_mean:
  assumes "0 \<le> a" "a \<le> b" "b \<le> MAX_real" "isfinite x"
  shows "rep_mean (total_sub (Fin b) (Fin a)) (total_sub (Fin a) (Fin a)) (total_sub (Fin b) (Fin a)) x (Fin 0) = Fin 0"
proof -
  obtain d where d: "dround (b - a) = Fin d" "0 \<le> d"
    using dround_between [OF _ _ dround_MAX, of "b - a"] assms by auto
  obtain y where y: "x = Fin y" using assms(4) by (cases x) auto
  show ?thesis using d by (simp add: rep_mean_def total_sub_def Let_def y)
qed

text \<open>A group as the start of a report leaves it, with a total that has not gone back.\<close>

definition just_started :: "payload net \<Rightarrow> rep_total \<Rightarrow> bool" where
  "just_started ns t \<longleftrightarrow> rt_finalTotal t = rt_startTotal t \<and> list_all (\<lambda>it. ri_value it = Fin 0) (rt_items t)
     \<and> (\<exists>a b. Mass (rt_startTotal t) = Fin a \<and> Mass (present_of ns (rt_source t)) = Fin b \<and> 0 \<le> a \<and> a \<le> b \<and> b \<le> MAX_real)"

lemma just_started_mean:
  assumes "group_cycle ns t t'" "just_started ns t"
  shows "list_all (\<lambda>it. ri_value it = Fin 0) (rt_items t')"
proof -
  obtain a b where m: "Mass (rt_startTotal t) = Fin a" "Mass (rt_finalTotal t) = Fin a" "Mass (present_of ns (rt_source t)) = Fin b"
    "0 \<le> a" "a \<le> b" "b \<le> MAX_real" using assms(2) by (auto simp: just_started_def)
  have "list_all2 (averaged (mass_inc ns t) (mass_old t) (mass_cur ns t)) (rt_items t) (rt_items t')"
    using assms(1) by (simp add: group_cycle_def)
  then show ?thesis
    by (rule list_all2_imp_all [where P = "\<lambda>it. ri_value it = Fin 0"])
      (use assms(2) first_mean [OF m(4-6)] in \<open>auto simp: averaged_def just_started_def mass_inc_def mass_old_def mass_cur_def m\<close>)
qed

text \<open>
  The weights of the means are exchanged: the history counts with the new increment, the new value
  with the old mass. So the first portion of a report leaves every mean at zero, whatever the quantity is.
\<close>

theorem report_first_mean_zero:
  assumes ok: "report_ok (length ns) rp" and c: "calced ns" and run: "rp_type rp = PERIODIC" "rp_status rp = RS_RUNNING"
    and fin: "\<not> period_ends (re_week re) (rp_period rp) (rp_PastTM rp) (rt_TM (re_now re))"
    and new: "list_all (just_started ns) (groups rp)"
  shows "\<exists>rp' ns' a. rep_body ne f re rp ns = Some (rp', ns', a)
    \<and> List.map rt_finalTotal (groups rp') = List.map (\<lambda>t. present_of ns (rt_source t)) (groups rp)
    \<and> list_all (\<lambda>t. list_all (\<lambda>it. ri_value it = Fin 0) (rt_items t)) (groups rp')"
proof -
  obtain rp' ns' a where 1: "rep_body ne f re rp ns = Some (rp', ns', a)" "list_all2 (group_cycle ns) (groups rp) (groups rp')"
    using rep_cycle_inside [OF ok c run fin, of ne f] by blast
  have "list_all (\<lambda>t. list_all (\<lambda>it. ri_value it = Fin 0) (rt_items t)) (groups rp')"
    by (rule list_all2_imp_all [OF 1(2) new]) (rule just_started_mean)
  moreover have "List.map rt_finalTotal (groups rp') = List.map (\<lambda>t. present_of ns (rt_source t)) (groups rp)"
    by (rule list_all2_map_eq [OF 1(2)]) (simp add: group_cycle_def)
  ultimately show ?thesis using 1(1) by blast
qed

theorem report_first_mean_zero_witness:
  "l_value (sl_link (ri_link item_const)) = Fin 100 \<and> (\<exists>rp' ns' a. rep_body (pe_net plant_sample_env) (calculate (pe_net plant_sample_env) (plant_body plant_sample_env) 4) (env_at 9) (hourly [item_const]) (plant_with 10) = Some (rp', ns', a)
    \<and> list_all (\<lambda>t. list_all (\<lambda>it. ri_value it = Fin 0) (rt_items t)) (groups rp'))"
proof -
  have h: "rp_type (hourly [item_const]) = PERIODIC" "rp_status (hourly [item_const]) = RS_RUNNING"
    by (simp_all add: hourly_def Let_def)
  have fin: "\<not> period_ends (re_week (env_at 9)) (rp_period (hourly [item_const])) (rp_PastTM (hourly [item_const])) (rt_TM (re_now (env_at 9)))"
    by (simp add: hourly_def env_at_def Let_def period_ends_def tm_at_def)
  have ok: "list_all (item_ok 1) [item_const]" by (simp add: item_ok_def item_const_def)
  have "list_all (just_started (plant_with 10)) (groups (hourly [item_const]))"
    using plant_with_facts(3) [of 10] by (simp add: just_started_def hourly_def Let_def total_clear_base_def item_const_def MAX_real_def)
  from report_first_mean_zero [OF hourly_ok [OF ok] plant_with_facts(1) h fin this, of "pe_net plant_sample_env" "(calculate (pe_net plant_sample_env) (plant_body plant_sample_env) 4)"]
  show ?thesis by (auto simp: item_const_def)
qed

text \<open>
  The months of the clock count from 0, the rules of the reports count them from 1: quarters end with
  the beginning of February, May, August and November, and the length of a month is that of the month before,
  zero in January.
\<close>

theorem report_calendar_shift:
  assumes "0 \<le> tm_mon t" "tm_mon t < 12" "rt_TM (ds_timeStart (rp_present rp)) = t" "rp_period rp = MONTHLY"
  shows "(period_ends week QUARTERLY past t \<longleftrightarrow> tm_mon past \<noteq> tm_mon t \<and> tm_mon t \<in> {1, 4, 7, 10})
    \<and> GetUNIXPeriod rp = 86400 * (if tm_mon t = 0 then 0 else ucast (month_days ! nat (tm_mon t - 1)))"
proof -
  have "tm_mon t = 0 \<or> tm_mon t = 1 \<or> tm_mon t = 2 \<or> tm_mon t = 3 \<or> tm_mon t = 4 \<or> tm_mon t = 5 \<or> tm_mon t = 6 \<or> tm_mon t = 7
    \<or> tm_mon t = 8 \<or> tm_mon t = 9 \<or> tm_mon t = 10 \<or> tm_mon t = 11" using assms(1,2) by presburger
  then show ?thesis using assms(3,4)
    by (elim disjE) (simp_all add: period_ends_def crem_def cdiv_def GetUNIXPeriod_def DayInMonthShift_def uint_of_def
        DayInMonth_norm.simps month_days_def leap_never)
qed

theorem report_calendar_shift_witness:
  "period_ends (\<lambda>t. 1) QUARTERLY (tm_at 3 9) (tm_at 4 0) \<and> \<not> period_ends (\<lambda>t. 1) QUARTERLY (tm_at 2 9) (tm_at 3 0)
    \<and> GetUNIXPeriod ((hourly [])\<lparr>rp_period := MONTHLY\<rparr>) = 0"
proof -
  let ?rp = "\<lambda>k. (hourly [])\<lparr>rp_period := MONTHLY, rp_present := (rp_present (hourly []))\<lparr>ds_timeStart := \<lparr>rt_UNIX = 0, rt_TM = tm_at k 0\<rparr>\<rparr>\<rparr>"
  have "rt_TM (ds_timeStart (rp_present ((hourly [])\<lparr>rp_period := MONTHLY\<rparr>))) = tm_at 0 9"
    by (simp add: hourly_def Let_def env_at_def)
  from report_calendar_shift [OF _ _ this] report_calendar_shift [of "tm_at 4 0" "?rp 4" "\<lambda>t. 1" "tm_at 3 9"]
    report_calendar_shift [of "tm_at 3 0" "?rp 3" "\<lambda>t. 1" "tm_at 2 9"]
  show ?thesis by (simp add: tm_at_def)
qed

end
