(* ===== verification/Packets.thy ===== *)
theory Packets
  imports Crc Container
begin

text \<open>
  The packets of the terminal: \<^verbatim>\<open>rPacketClient\<close> of \<^verbatim>\<open>src/shared/packet_client.cpp\<close>, its loop in
  \<^verbatim>\<open>rTermManager::ClientRecv\<close>, and the buffer of \<^verbatim>\<open>src/shared/tcpbuff_client.cpp\<close>. What the packets
  hold is made and read by a package that is not part of the sources: the model sends bytes and gives
  a handler the magic number and the bytes of a packet. \<open>'l\<close> is the \<^verbatim>\<open>unsigned long\<close> of the
  checksum.
\<close>

section \<open>The header\<close>

record rPacketHeader =
  hdr_magic :: UDINT
  hdr_version :: UINT
  hdr_flags :: UINT
  hdr_reserved :: UDINT
  hdr_dataSize :: UDINT
  hdr_crc32 :: UDINT

definition HEADER_SIZE :: nat where "HEADER_SIZE = 20"

definition header_front :: "rPacketHeader \<Rightarrow> bytes" where
  "header_front h = le_bytes 4 (hdr_magic h) @ le_bytes 2 (hdr_version h) @ le_bytes 2 (hdr_flags h)
     @ le_bytes 4 (hdr_reserved h) @ le_bytes 4 (hdr_dataSize h)"

definition header_bytes :: "rPacketHeader \<Rightarrow> bytes" where
  "header_bytes h = header_front h @ le_bytes 4 (hdr_crc32 h)"

definition header_read :: "bytes \<Rightarrow> rPacketHeader" where
  "header_read bs = \<lparr>hdr_magic = le_word (take 4 bs), hdr_version = le_word (take 2 (drop 4 bs)), hdr_flags = le_word (take 2 (drop 6 bs)),
     hdr_reserved = le_word (take 4 (drop 8 bs)), hdr_dataSize = le_word (take 4 (drop 12 bs)), hdr_crc32 = le_word (take 4 (drop 16 bs))\<rparr>"

definition packet_crc :: "'l::len itself \<Rightarrow> bytes \<Rightarrow> UDINT" where
  "packet_crc l bs = ucast (crc32_get (crc32_init (CRC32_POLY :: 'l word)) bs)"

text \<open>What \<^verbatim>\<open>send\<close> puts on the line.\<close>

definition packet_send :: "'l::len itself \<Rightarrow> UDINT \<Rightarrow> bytes \<Rightarrow> bytes" where
  "packet_send l magic arr = (let h = \<lparr>hdr_magic = magic, hdr_version = 0x0100, hdr_flags = 0, hdr_reserved = 0,
       hdr_dataSize = of_nat (length arr), hdr_crc32 = 0\<rparr>
     in header_bytes (h\<lparr>hdr_crc32 := packet_crc l (header_front h)\<rparr>) @ arr)"

section \<open>The client\<close>

record rPacketClient =
  pc_buff :: bytes
  pc_header :: rPacketHeader

definition clearHeader :: "rPacketClient \<Rightarrow> rPacketClient" where
  "clearHeader c = c\<lparr>pc_header := (pc_header c)\<lparr>hdr_magic := 0, hdr_dataSize := 0\<rparr>\<rparr>"

definition clearPacket :: "rPacketClient \<Rightarrow> rPacketClient" where
  "clearPacket c = clearHeader (c\<lparr>pc_buff := (if unat (hdr_dataSize (pc_header c)) \<ge> length (pc_buff c) then []
     else drop (unat (hdr_dataSize (pc_header c))) (pc_buff c))\<rparr>)"

definition packet_client_new :: "rPacketHeader \<Rightarrow> rPacketClient" where
  "packet_client_new memory = clearPacket \<lparr>pc_buff = [], pc_header = memory\<rparr>"

datatype recv = RECV_ERROR | RECV_NOTHING | RECV_DATA

definition checkBuffer :: "'l::len itself \<Rightarrow> rPacketClient \<Rightarrow> recv \<times> rPacketClient" where
  "checkBuffer l c =
     (if hdr_magic (pc_header c) = 0 \<or> hdr_dataSize (pc_header c) = 0 then
        (if length (pc_buff c) < HEADER_SIZE then (RECV_NOTHING, c)
         else let h = header_read (pc_buff c); c1 = c\<lparr>pc_header := h\<rparr> in
           if packet_crc l (header_front h) \<noteq> hdr_crc32 h then (RECV_ERROR, (clearHeader c1)\<lparr>pc_buff := []\<rparr>)
           else let c2 = c1\<lparr>pc_buff := drop HEADER_SIZE (pc_buff c)\<rparr>
                in (if length (pc_buff c2) < unat (hdr_dataSize h) then RECV_NOTHING else RECV_DATA, c2))
      else (if length (pc_buff c) < unat (hdr_dataSize (pc_header c)) then RECV_NOTHING else RECV_DATA, c))"

definition pc_append :: "bytes \<Rightarrow> rPacketClient \<Rightarrow> rPacketClient" where
  "pc_append bs c = c\<lparr>pc_buff := pc_buff c @ bs\<rparr>"

definition packet_Recv :: "'l::len itself \<Rightarrow> bytes \<Rightarrow> rPacketClient \<Rightarrow> recv \<times> rPacketClient" where
  "packet_Recv l bs c = checkBuffer l (pc_append bs c)"

text \<open>
  The loop of \<^verbatim>\<open>ClientRecv\<close> behind \<^verbatim>\<open>Recv\<close>: \<open>known\<close> are the magic numbers of the two kinds of
  packets, \<open>h\<close> handles one and says whether to go on. The result is false when the client is to
  be disconnected.
\<close>

definition pc_data :: "rPacketClient \<Rightarrow> bytes" where
  "pc_data c = take (unat (hdr_dataSize (pc_header c))) (pc_buff c)"

function recv_loop :: "'l::len itself \<Rightarrow> (UDINT \<Rightarrow> bool) \<Rightarrow> (UDINT \<Rightarrow> bytes \<Rightarrow> 's \<Rightarrow> bool \<times> 's) \<Rightarrow> rPacketClient \<Rightarrow> 's
    \<Rightarrow> bool \<times> rPacketClient \<times> 's" where
  "recv_loop l known h c s = (case checkBuffer l c of
     (RECV_ERROR, c1) \<Rightarrow> (False, c1, s)
   | (RECV_NOTHING, c1) \<Rightarrow> (True, c1, s)
   | (RECV_DATA, c1) \<Rightarrow> if \<not> known (hdr_magic (pc_header c1)) then (False, c1, s)
       else (case h (hdr_magic (pc_header c1)) (pc_data c1) s of
          (False, s1) \<Rightarrow> (False, c1, s1)
        | (True, s1) \<Rightarrow> recv_loop l known h (clearPacket c1) s1))"
  by pat_completeness auto

definition ClientRecv :: "'l::len itself \<Rightarrow> (UDINT \<Rightarrow> bool) \<Rightarrow> (UDINT \<Rightarrow> bytes \<Rightarrow> 's \<Rightarrow> bool \<times> 's) \<Rightarrow> bytes \<Rightarrow> rPacketClient \<Rightarrow> 's
    \<Rightarrow> bool \<times> rPacketClient \<times> 's" where
  "ClientRecv l known h bs c s = recv_loop l known h (pc_append bs c) s"

definition header_set :: "rPacketClient \<Rightarrow> bool" where
  "header_set c \<longleftrightarrow> hdr_magic (pc_header c) \<noteq> 0 \<and> hdr_dataSize (pc_header c) \<noteq> 0"

lemma clearPacket_not_set [simp]: "\<not> header_set (clearPacket c)"
  by (simp add: header_set_def clearPacket_def clearHeader_def)

lemma clearPacket_buff: "pc_buff (clearPacket c) = drop (unat (hdr_dataSize (pc_header c))) (pc_buff c)"
  by (simp add: clearPacket_def clearHeader_def)

lemma checkBuffer_data:
  assumes "checkBuffer l c = (RECV_DATA, c1)"
  shows "if header_set c then c1 = c \<and> unat (hdr_dataSize (pc_header c)) \<le> length (pc_buff c)
    else length (pc_buff c1) < length (pc_buff c)"
  using assms by (auto simp: checkBuffer_def header_set_def Let_def HEADER_SIZE_def split: if_splits)

termination recv_loop
proof (relation "measure (\<lambda>(l, known, h, c, s). 2 * length (pc_buff c) + (if header_set c then 1 else 0))")
  fix l :: "'l::len itself" and known :: "UDINT \<Rightarrow> bool" and h :: "UDINT \<Rightarrow> bytes \<Rightarrow> 's \<Rightarrow> bool \<times> 's" and c s x c1 q s1
  assume "(x, c1) = checkBuffer l c" "x = RECV_DATA"
  then have d: "checkBuffer l c = (RECV_DATA, c1)" by simp
  have "2 * length (pc_buff (clearPacket c1)) < 2 * length (pc_buff c) + (if header_set c then 1 else 0)"
    using checkBuffer_data [OF d] by (auto simp: clearPacket_buff split: if_splits)
  then show "((l, known, h, clearPacket c1, s1), (l, known, h, c, s))
    \<in> measure (\<lambda>(l, known, h, c, s). 2 * length (pc_buff c) + (if header_set c then 1 else 0))" by simp
qed simp

declare recv_loop.simps [simp del]

text \<open>The pieces the network delivers; after a false the client is gone.\<close>

fun client_feed :: "'l::len itself \<Rightarrow> (UDINT \<Rightarrow> bool) \<Rightarrow> (UDINT \<Rightarrow> bytes \<Rightarrow> 's \<Rightarrow> bool \<times> 's) \<Rightarrow> bytes list \<Rightarrow> rPacketClient \<Rightarrow> 's
    \<Rightarrow> bool \<times> rPacketClient \<times> 's" where
  "client_feed l known h [] c s = (True, c, s)"
| "client_feed l known h (bs # bss) c s = (case ClientRecv l known h bs c s of
     (False, c1, s1) \<Rightarrow> (False, c1, s1) | (True, c1, s1) \<Rightarrow> client_feed l known h bss c1 s1)"

section \<open>The buffer of plain clients\<close>

text \<open>
  \<^const>\<open>None\<close> is the null pointer. A length without data is only there when the constructor without arguments has left
  it as the memory was; what is copied in front of the new bytes then is nothing, here zeroes.
\<close>

record rTCPBufferClient =
  m_data :: "bytes option"
  m_len :: nat

definition dropBuffer :: "rTCPBufferClient \<Rightarrow> rTCPBufferClient" where
  "dropBuffer c = c\<lparr>m_data := None, m_len := 0\<rparr>"

definition resizeBuffer :: "bytes \<Rightarrow> rTCPBufferClient \<Rightarrow> rTCPBufferClient" where
  "resizeBuffer bs c = c\<lparr>m_data := Some ((case m_data c of None \<Rightarrow> replicate (m_len c) 0 | Some d \<Rightarrow> d) @ bs), m_len := m_len c + length bs\<rparr>"

definition popFrontBuffer :: "nat \<Rightarrow> rTCPBufferClient \<Rightarrow> rTCPBufferClient" where
  "popFrontBuffer k c = (case m_data c of None \<Rightarrow> c\<lparr>m_len := 0\<rparr>
     | Some d \<Rightarrow> let n = min k (m_len c) in if m_len c = n then dropBuffer c
         else c\<lparr>m_data := Some (drop n d), m_len := m_len c - n\<rparr>)"

text \<open>\<open>None\<close> is \<^verbatim>\<open>CLIENT_RECV_ERROR\<close>, which an empty piece gives.\<close>

definition buffer_Recv :: "bytes \<Rightarrow> rTCPBufferClient \<Rightarrow> bytes option option \<times> rTCPBufferClient" where
  "buffer_Recv bs c = (if bs = [] then (None, c) else let c1 = resizeBuffer bs c in (Some (m_data c1), c1))"

definition buffer_wf :: "rTCPBufferClient \<Rightarrow> bool" where
  "buffer_wf c \<longleftrightarrow> (case m_data c of None \<Rightarrow> m_len c = 0 | Some d \<Rightarrow> length d = m_len c)"

lemma buffer_wf_ops:
  "buffer_wf c \<Longrightarrow> buffer_wf (resizeBuffer bs c)" "buffer_wf c \<Longrightarrow> buffer_wf (popFrontBuffer n c)" "buffer_wf (dropBuffer c)"
  by (auto simp: buffer_wf_def resizeBuffer_def popFrontBuffer_def dropBuffer_def Let_def split: option.splits)

section \<open>Reassembly\<close>

lemma header_bytes_length [simp]: "length (header_bytes h) = HEADER_SIZE"
  by (simp add: header_bytes_def header_front_def HEADER_SIZE_def)

lemma header_read_bytes: "header_read (header_bytes h @ rest) = h"
proof -
  have w4: "le_word (le_bytes 4 w) = w" for w :: "32 word" by (rule le_word_le_bytes) simp
  have w2: "le_word (le_bytes 2 w) = w" for w :: "16 word" by (rule le_word_le_bytes) simp
  show ?thesis by (simp add: header_read_def header_bytes_def header_front_def w4 w2)
qed

text \<open>Which packets are still to come out of a client when the bytes \<open>bs\<close> are still to come in.\<close>

abbreviation packets :: "'l::len itself \<Rightarrow> (UDINT \<times> bytes) list \<Rightarrow> bytes" where
  "packets l ms \<equiv> concat (List.map (\<lambda>(m, d). packet_send l m d) ms)"

definition sendable :: "UDINT \<times> bytes \<Rightarrow> bool" where
  "sendable md \<longleftrightarrow> fst md \<noteq> 0 \<and> length (snd md) < 2 ^ 32"

definition awaits :: "'l::len itself \<Rightarrow> rPacketClient \<Rightarrow> (UDINT \<times> bytes) list \<Rightarrow> bytes \<Rightarrow> bool" where
  "awaits l c ms bs \<longleftrightarrow> list_all sendable ms \<and>
     (if header_set c then (\<exists>m d ms'. ms = (m, d) # ms' \<and> hdr_magic (pc_header c) = m \<and> unat (hdr_dataSize (pc_header c)) = length d
         \<and> pc_buff c @ bs = d @ packets l ms')
      else pc_buff c @ bs = packets l ms)"

lemma packet_send_split:
  "\<exists>h. packet_send l m d = header_bytes h @ d \<and> hdr_magic h = m \<and> hdr_dataSize h = of_nat (length d)
     \<and> packet_crc l (header_front h) = hdr_crc32 h"
  by (simp add: packet_send_def Let_def header_front_def) (rule exI, rule conjI, rule refl, simp)

lemma append_split: "xs @ ys = us @ vs \<Longrightarrow> length us \<le> length xs \<Longrightarrow> take (length us) xs = us \<and> drop (length us) xs @ ys = vs"
  by (auto simp: append_eq_append_conv2)

lemma checkBuffer_awaits:
  assumes a: "awaits l c ms bs"
  shows "case checkBuffer l c of
      (RECV_ERROR, c1) \<Rightarrow> False
    | (RECV_NOTHING, c1) \<Rightarrow> awaits l c1 ms bs \<and> (bs = [] \<longrightarrow> ms = [] \<and> pc_buff c1 = [])
    | (RECV_DATA, c1) \<Rightarrow> \<exists>m d ms'. ms = (m, d) # ms' \<and> hdr_magic (pc_header c1) = m \<and> pc_data c1 = d \<and> awaits l (clearPacket c1) ms' bs"
proof -
  have ok: "list_all sendable ms" using a by (simp add: awaits_def)
  text \<open>A header that is read, with its data in the buffer or not yet.\<close>
  have ready: "case (if length (pc_buff c2) < length d then RECV_NOTHING else RECV_DATA, c2) of
      (RECV_ERROR, c1) \<Rightarrow> False
    | (RECV_NOTHING, c1) \<Rightarrow> awaits l c1 ((m, d) # ms') bs \<and> (bs = [] \<longrightarrow> (m, d) # ms' = [] \<and> pc_buff c1 = [])
    | (RECV_DATA, c1) \<Rightarrow> \<exists>m' d' ms''. (m, d) # ms' = (m', d') # ms'' \<and> hdr_magic (pc_header c1) = m' \<and> pc_data c1 = d' \<and> awaits l (clearPacket c1) ms'' bs"
    if h: "hdr_magic (pc_header c2) = m" "unat (hdr_dataSize (pc_header c2)) = length d" "pc_buff c2 @ bs = d @ packets l ms'"
      "list_all sendable ((m, d) # ms')" for c2 m d ms'
  proof (cases "length (pc_buff c2) < length d")
    case True
    have "unat (hdr_dataSize (pc_header c2)) \<noteq> 0" using True h(2) by linarith
    then have "header_set c2" using h(1,4) by (auto simp: header_set_def sendable_def)
    then have "awaits l c2 ((m, d) # ms') bs" using h by (simp add: awaits_def)
    moreover have "bs \<noteq> []" using h(3) True by auto
    ultimately show ?thesis using True by simp
  next
    case False
    then have "take (length d) (pc_buff c2) = d \<and> drop (length d) (pc_buff c2) @ bs = packets l ms'"
      using append_split [OF h(3)] by simp
    then have "pc_data c2 = d" "awaits l (clearPacket c2) ms' bs"
      using h by (simp_all add: pc_data_def awaits_def clearPacket_buff)
    then show ?thesis using False h(1) by simp
  qed
  show ?thesis
  proof (cases "header_set c")
    case True
    then obtain m d ms' where m: "ms = (m, d) # ms'" "hdr_magic (pc_header c) = m" "unat (hdr_dataSize (pc_header c)) = length d"
      "pc_buff c @ bs = d @ packets l ms'" using a by (auto simp: awaits_def)
    have "checkBuffer l c = (if length (pc_buff c) < length d then RECV_NOTHING else RECV_DATA, c)"
      using True m(3) by (simp add: checkBuffer_def header_set_def)
    then show ?thesis using ready [OF m(2-4)] ok unfolding m(1) by (simp only:)
  next
    case False
    then have s: "pc_buff c @ bs = packets l ms" using a by (simp add: awaits_def)
    show ?thesis
    proof (cases "length (pc_buff c) < HEADER_SIZE")
      case True
      have "ms = []" if "bs = []"
      proof (cases ms)
        case (Cons md ms')
        obtain h where "packet_send l (fst md) (snd md) = header_bytes h @ snd md" using packet_send_split by blast
        then have "length (packets l ms) \<ge> HEADER_SIZE" by (simp add: Cons case_prod_beta)
        then show ?thesis using s that True by simp
      qed simp
      then have "bs = [] \<longrightarrow> ms = [] \<and> pc_buff c = []" using s by auto
      then show ?thesis using True False a by (auto simp: checkBuffer_def header_set_def)
    next
      case long: False
      then obtain md ms' where ms: "ms = md # ms'" using s by (cases ms) (auto simp: HEADER_SIZE_def)
      obtain m d where md: "md = (m, d)" by force
      obtain h where h: "packet_send l m d = header_bytes h @ d" "hdr_magic h = m" "hdr_dataSize h = of_nat (length d)"
        "packet_crc l (header_front h) = hdr_crc32 h" using packet_send_split by blast
      have "pc_buff c @ bs = header_bytes h @ (d @ packets l ms')" using s by (simp add: ms md h(1))
      from append_split [OF this] have t: "take HEADER_SIZE (pc_buff c) = header_bytes h" "drop HEADER_SIZE (pc_buff c) @ bs = d @ packets l ms'"
        using long by simp_all
      have r: "header_read (pc_buff c) = h"
        using header_read_bytes [of h "drop HEADER_SIZE (pc_buff c)"] t(1) append_take_drop_id [of HEADER_SIZE "pc_buff c"] by simp
      have len: "unat (hdr_dataSize h) = length d" using ok by (simp add: ms md sendable_def h(3) unat_of_nat)
      let ?c = "c\<lparr>pc_header := h, pc_buff := drop HEADER_SIZE (pc_buff c)\<rparr>"
      have b: "checkBuffer l c = (if length (pc_buff ?c) < length d then RECV_NOTHING else RECV_DATA, ?c)"
        using False long h(4) len by (simp add: checkBuffer_def header_set_def Let_def r)
      show ?thesis unfolding b ms md by (rule ready) (use h(2) len t(2) ok in \<open>simp_all add: ms md\<close>)
    qed
  qed
qed

definition accept :: "(UDINT \<Rightarrow> bytes \<Rightarrow> 's \<Rightarrow> 's) \<Rightarrow> UDINT \<Rightarrow> bytes \<Rightarrow> 's \<Rightarrow> bool \<times> 's" where
  "accept g m d s = (True, g m d s)"

lemma recv_loop_nothing: "checkBuffer l c = (RECV_NOTHING, c1) \<Longrightarrow> recv_loop l known h c s = (True, c1, s)"
  by (subst recv_loop.simps) simp

lemma recv_loop_data:
  "checkBuffer l c = (RECV_DATA, c1) \<Longrightarrow> known (hdr_magic (pc_header c1)) \<Longrightarrow>
    recv_loop l known (accept g) c s = recv_loop l known (accept g) (clearPacket c1) (g (hdr_magic (pc_header c1)) (pc_data c1) s)"
  by (subst recv_loop.simps) (simp add: accept_def)

lemma recv_loop_awaits:
  "awaits l c ms bs \<Longrightarrow> list_all (\<lambda>md. known (fst md)) ms \<Longrightarrow> \<exists>c' ds ms'. ms = ds @ ms'
     \<and> recv_loop l known (accept g) c s = (True, c', fold (\<lambda>(m, d). g m d) ds s)
     \<and> awaits l c' ms' bs \<and> (bs = [] \<longrightarrow> ms' = [] \<and> pc_buff c' = [])"
proof (induction ms arbitrary: c s)
  case Nil
  obtain r c1 where r: "checkBuffer l c = (r, c1)" by force
  note A = checkBuffer_awaits [OF Nil.prems(1), unfolded r case_prod_conv]
  have n: "r = RECV_NOTHING" using A by (cases r) simp_all
  show ?case using A recv_loop_nothing [of l c c1] r unfolding n
    by (intro exI [of _ c1] exI [of _ "[]"]) simp
next
  case (Cons md ms)
  obtain r c1 where r: "checkBuffer l c = (r, c1)" by force
  note A = checkBuffer_awaits [OF Cons.prems(1), unfolded r case_prod_conv]
  show ?case
  proof (cases r)
    case RECV_NOTHING
    then show ?thesis using A recv_loop_nothing [of l c c1] r
      by (intro exI [of _ c1] exI [of _ "[]"] exI [of _ "md # ms"]) simp
  next
    case RECV_DATA
    then obtain m d where m: "md = (m, d)" "hdr_magic (pc_header c1) = m" "pc_data c1 = d" "awaits l (clearPacket c1) ms bs"
      using A by auto
    have k: "known m" "list_all (\<lambda>md. known (fst md)) ms" using Cons.prems(2) m(1) by simp_all
    obtain c' ds ms' where i: "ms = ds @ ms'" "recv_loop l known (accept g) (clearPacket c1) (g m d s) = (True, c', fold (\<lambda>(m, d). g m d) ds (g m d s))"
      "awaits l c' ms' bs" "bs = [] \<longrightarrow> ms' = [] \<and> pc_buff c' = []"
      using Cons.IH [OF m(4) k(2), of "g m d s"] by blast
    have "recv_loop l known (accept g) c s = (True, c', fold (\<lambda>(m, d). g m d) (md # ds) s)"
      using recv_loop_data [of l c c1 known g s] r k(1) i(2) unfolding RECV_DATA m by simp
    then show ?thesis using i by (intro exI [of _ c'] exI [of _ "md # ds"] exI [of _ ms']) simp
  qed (use A in simp)
qed

lemma awaits_append: "awaits l c ms (bs @ bs') \<Longrightarrow> awaits l (pc_append bs c) ms bs'"
  by (simp add: awaits_def pc_append_def header_set_def split: if_splits)

lemma client_feed_awaits:
  "awaits l c ms (concat bss) \<Longrightarrow> list_all (\<lambda>md. known (fst md)) ms \<Longrightarrow> bss \<noteq> [] \<Longrightarrow> \<exists>c'.
     client_feed l known (accept g) bss c s = (True, c', fold (\<lambda>(m, d). g m d) ms s) \<and> pc_buff c' = []"
proof (induction bss arbitrary: c ms s)
  case (Cons bs bss)
  have a: "awaits l (pc_append bs c) ms (concat bss)" using awaits_append Cons.prems(1) by simp
  obtain c1 ds ms' where r: "ms = ds @ ms'" "recv_loop l known (accept g) (pc_append bs c) s = (True, c1, fold (\<lambda>(m, d). g m d) ds s)"
    "awaits l c1 ms' (concat bss)" "concat bss = [] \<longrightarrow> ms' = [] \<and> pc_buff c1 = []"
    using recv_loop_awaits [where known = known and g = g and s = s, OF a Cons.prems(2)] by (elim exE conjE)
  have c: "ClientRecv l known (accept g) bs c s = (True, c1, fold (\<lambda>(m, d). g m d) ds s)" by (simp add: ClientRecv_def r(2))
  show ?case
  proof (cases "bss = []")
    case True
    then have "ms' = []" "pc_buff c1 = []" using r(4) by simp_all
    then show ?thesis using True r(1) c by simp
  next
    case False
    have k: "list_all (\<lambda>md. known (fst md)) ms'" using Cons.prems(2) r(1) by simp
    obtain c' where i: "client_feed l known (accept g) bss c1 (fold (\<lambda>(m, d). g m d) ds s) = (True, c', fold (\<lambda>(m, d). g m d) ms' (fold (\<lambda>(m, d). g m d) ds s))"
      "pc_buff c' = []" using Cons.IH [OF r(3) k False] by blast
    then show ?thesis by (intro exI [of _ c']) (simp add: c r(1))
  qed
qed simp

section \<open>Properties\<close>

text \<open>
  C19. However the network cuts the bytes of packets that were sent, the client handles exactly these packets,
  each once and in order, and its buffer is empty at the end.
\<close>

theorem packets_reassembled:
  assumes "concat chunks = packets l ms" "chunks \<noteq> []" "list_all sendable ms" "list_all (\<lambda>md. known (fst md)) ms"
  shows "\<exists>c. client_feed l known (accept g) chunks (packet_client_new memory) s = (True, c, fold (\<lambda>(m, d). g m d) ms s) \<and> pc_buff c = []"
proof -
  have b: "pc_buff (packet_client_new memory) = []" "\<not> header_set (packet_client_new memory)"
    by (simp_all add: packet_client_new_def clearPacket_buff)
  have "awaits l (packet_client_new memory) ms (concat chunks)"
    using assms(1,3) b by (simp only: awaits_def if_False append_Nil not_False_eq_True)
  then show ?thesis by (rule client_feed_awaits [OF _ assms(4,2)])
qed

theorem packets_reassembled_witness:
  "\<exists>c. client_feed TYPE(32) (\<lambda>m. m = 7) (accept (\<lambda>m d s. s @ [d])) [take 3 (packets TYPE(32) [(7, [1, 2]), (7, [])]), drop 3 (packets TYPE(32) [(7, [1, 2]), (7, [])])]
     (packet_client_new (header_read [])) [] = (True, c, [[1, 2], []]) \<and> pc_buff c = []"
proof -
  let ?ms = "[(7, [1, 2]), (7, [])] :: (UDINT \<times> bytes) list"
  have c: "concat [take 3 (packets TYPE(32) ?ms), drop 3 (packets TYPE(32) ?ms)] = packets TYPE(32) ?ms"
    by (simp only: concat.simps append_take_drop_id append_Nil2)
  have m: "list_all sendable ?ms" "list_all (\<lambda>md. fst md = 7) ?ms" by (simp_all add: sendable_def)
  have f: "fold (\<lambda>(m, d) s. s @ [d]) ?ms [] = [[1, 2], []]" by simp
  show ?thesis using packets_reassembled [OF c _ m, of "\<lambda>m d s. s @ [d]" "header_read []" "[]"] unfolding f by simp
qed

end
