(* ===== verification/Users.thy ===== *)
theory Users
  imports Variables
begin

text \<open>
  The users of \<^verbatim>\<open>src/tritonn/users.cpp\<close>, how the configuration makes them
  (\<^verbatim>\<open>LoadUsers\<close> of \<^verbatim>\<open>data_config.cpp\<close>), and the hexadecimal texts of hashes
  (\<^verbatim>\<open>src/shared/stringex.cpp\<close>). The hash itself is SHA-1 of a library: an argument \<open>H\<close>.
\<close>

section \<open>Hexadecimal texts\<close>

text \<open>The loop of \<^verbatim>\<open>String_ToBuffer\<close> at character \<open>ii\<close> of at most \<open>cap\<close>.\<close>

fun to_buffer :: "string \<Rightarrow> nat \<Rightarrow> nat \<Rightarrow> bytes \<Rightarrow> int \<times> bytes" where
  "to_buffer [] ii cap buf = (if ii \<ge> cap then int (cap div 2) else int (ii div 2), buf)"
| "to_buffer (c # cs) ii cap buf = (if ii \<ge> cap then (int (cap div 2), buf)
     else case hex_digit c of None \<Rightarrow> (- 1, buf)
       | Some v \<Rightarrow> to_buffer cs (Suc ii) cap (buf[ii div 2 := (if odd ii then buf ! (ii div 2) OR of_nat v else push_bit 4 (of_nat v))]))"

text \<open>\<^const>\<open>None\<close> is the null pointer.\<close>

definition String_ToBuffer :: "string option \<Rightarrow> bytes \<Rightarrow> int \<times> bytes" where
  "String_ToBuffer str buf = (case str of None \<Rightarrow> (- 2, buf)
     | Some s \<Rightarrow> if buf = [] then (- 2, buf) else to_buffer (takeWhile (\<lambda>c. c \<noteq> CHR 0x00) s) 0 (2 * length buf) buf)"

definition hex_char :: "nat \<Rightarrow> char" where
  "hex_char n = char_of (if n < 10 then 48 + n else 55 + n)"

definition String_FromBuffer :: "bytes \<Rightarrow> string" where
  "String_FromBuffer bs = concat (List.map (\<lambda>b. [hex_char (unat (drop_bit 4 b)), hex_char (unat (b AND 15))]) bs)"

section \<open>Users\<close>

definition MAX_HASH_SIZE :: nat where "MAX_HASH_SIZE = 20"

datatype LoginResult = LR_UNDEF | LR_SUCCESS | LR_FAULT | LR_BLOCKED | LR_CHANGEPWD

definition UF_CHANGEPWD :: USINT where "UF_CHANGEPWD = 0x01"
definition UF_MASK_BLOCKED :: USINT where "UF_MASK_BLOCKED = 0xF0"

record rUser =
  u_Hash :: bytes
  u_Pwd :: bytes
  u_Name :: string
  u_IntAccess :: UDINT
  u_ExtAccess :: UDINT
  u_Status :: USINT
  u_Login :: UDINT
  u_LoginPwd :: bytes

definition bytes_of :: "string \<Rightarrow> bytes" where "bytes_of s = List.map of_char s"

definition GetStrHash :: "(bytes \<Rightarrow> bytes) \<Rightarrow> string \<Rightarrow> bytes" where "GetStrHash H s = H (bytes_of s)"

fun hash_loop :: "nat list \<Rightarrow> bytes \<Rightarrow> bytes \<Rightarrow> bool" where
  "hash_loop [] a b = True"
| "hash_loop (ii # iis) a b = (if a ! ii \<noteq> b ! ii then False else hash_loop iis a b)"

definition CmpHash :: "bytes \<Rightarrow> bytes \<Rightarrow> bool" where
  "CmpHash a b = hash_loop [0..<MAX_HASH_SIZE] a b"

text \<open>Null pointers: \<open>memory\<close> is what the password of a new user holds.\<close>

definition user_new :: "(bytes \<Rightarrow> bytes) \<Rightarrow> bytes \<Rightarrow> string \<Rightarrow> bytes option \<Rightarrow> UDINT \<Rightarrow> UDINT \<Rightarrow> UDINT \<Rightarrow> bytes option \<Rightarrow> rUser" where
  "user_new H memory name pwd intaccess extaccess login loginpwd = \<lparr>u_Hash = GetStrHash H name,
     u_Pwd = (case pwd of None \<Rightarrow> memory | Some p \<Rightarrow> p), u_Name = name, u_IntAccess = intaccess, u_ExtAccess = extaccess, u_Status = 0,
     u_Login = login, u_LoginPwd = (case loginpwd of None \<Rightarrow> replicate MAX_HASH_SIZE 0 | Some p \<Rightarrow> p)\<rparr>"

definition GetAccess :: "bool \<Rightarrow> rUser \<Rightarrow> UDINT" where
  "GetAccess external u = (if external then u_ExtAccess u else u_IntAccess u)"

definition CheckAccess :: "UDINT \<Rightarrow> bool \<Rightarrow> rUser \<Rightarrow> UDINT" where
  "CheckAccess acc external u = (if external then u_ExtAccess u AND acc else u_IntAccess u AND acc)"

definition FindHash :: "rUser list \<Rightarrow> bytes \<Rightarrow> rUser option" where
  "FindHash us h = find (\<lambda>u. CmpHash (u_Hash u) h) us"

definition Find :: "(bytes \<Rightarrow> bytes) \<Rightarrow> rUser list \<Rightarrow> string \<Rightarrow> rUser option" where
  "Find H us name = FindHash us (GetStrHash H name)"

definition FindLogin :: "rUser list \<Rightarrow> UDINT \<Rightarrow> rUser option" where
  "FindLogin us login = (if login = 0 then None else find (\<lambda>u. u_Login u = login) us)"

definition user_Add :: "(bytes \<Rightarrow> bytes) \<Rightarrow> bytes \<Rightarrow> string \<Rightarrow> bytes option \<Rightarrow> UDINT \<Rightarrow> UDINT \<Rightarrow> UDINT \<Rightarrow> bytes option
    \<Rightarrow> rUser list \<Rightarrow> UDINT \<times> rUser list" where
  "user_Add H memory name pwd ia ea login lpwd us =
     (if Find H us name \<noteq> None then (1, us) else (0, us @ [user_new H memory name pwd ia ea login lpwd]))"

definition user_Add_text :: "(bytes \<Rightarrow> bytes) \<Rightarrow> bytes \<Rightarrow> string \<Rightarrow> string \<Rightarrow> UDINT \<Rightarrow> UDINT \<Rightarrow> UDINT \<Rightarrow> bytes option
    \<Rightarrow> rUser list \<Rightarrow> UDINT \<times> rUser list" where
  "user_Add_text H memory name pwd ia ea login lpwd us =
     (if Find H us name \<noteq> None then (1, us) else (0, us @ [user_new H memory name (Some (GetStrHash H pwd)) ia ea login lpwd]))"

text \<open>A blocked user is told so before the password is looked at.\<close>

definition LoginHash :: "rUser list \<Rightarrow> bytes \<Rightarrow> bytes \<Rightarrow> rUser option \<times> LoginResult" where
  "LoginHash us name_hash pwd_hash = (case FindHash us name_hash of None \<Rightarrow> (None, LR_FAULT)
     | Some u \<Rightarrow> if u_Status u AND UF_MASK_BLOCKED \<noteq> 0 then (None, LR_BLOCKED)
         else if \<not> CmpHash (u_Pwd u) pwd_hash then (None, LR_FAULT)
         else (Some u, if u_Status u AND UF_CHANGEPWD \<noteq> 0 then LR_CHANGEPWD else LR_SUCCESS))"

definition user_Login :: "(bytes \<Rightarrow> bytes) \<Rightarrow> rUser list \<Rightarrow> string \<Rightarrow> bytes \<Rightarrow> rUser option \<times> LoginResult" where
  "user_Login H us name pwd = LoginHash us (GetStrHash H name) pwd"

definition LoginNumber :: "(bytes \<Rightarrow> bytes) \<Rightarrow> rUser list \<Rightarrow> UDINT \<Rightarrow> UDINT \<Rightarrow> rUser option \<times> LoginResult" where
  "LoginNumber H us login pwd = (case FindLogin us login of None \<Rightarrow> (None, LR_FAULT)
     | Some u \<Rightarrow> if u_Status u AND UF_MASK_BLOCKED \<noteq> 0 then (None, LR_BLOCKED)
         else if \<not> CmpHash (u_LoginPwd u) (H (le_bytes 4 pwd)) then (None, LR_FAULT)
         else (Some u, LR_SUCCESS))"

section \<open>The users of the configuration\<close>

text \<open>The elements a user has, each with the text it may have.\<close>

record user_xml =
  ux_name :: "string option"
  ux_password :: "string option option"
  ux_internal :: "string option option"
  ux_external :: "string option option"
  ux_login :: "string option option"
  ux_loginpwd :: "string option option"

definition DATACFGERR_USERS_PARSE :: UDINT where "DATACFGERR_USERS_PARSE = 164"

definition hex_value :: "string option \<Rightarrow> UDINT" where
  "hex_value t = (case t of None \<Rightarrow> 0 | Some s \<Rightarrow> case valid_hex (takeWhile (\<lambda>c. c \<noteq> CHR 0x00) s) 0 0 of None \<Rightarrow> 0 | Some n \<Rightarrow> n)"

definition atoi :: "string \<Rightarrow> int" where
  "atoi s = (case parse_number s of None \<Rightarrow> 0 | Some (neg, n) \<Rightarrow> if neg then - int n else int n)"

definition hash_text :: "string option \<Rightarrow> bytes" where
  "hash_text t = snd (String_ToBuffer t (replicate MAX_HASH_SIZE 0))"

definition rights_mask :: UDINT where "rights_mask = NOT (ACCESS_SA OR ACCESS_ADMIN)"

definition load_user :: "(bytes \<Rightarrow> bytes) \<Rightarrow> bytes \<Rightarrow> user_xml \<Rightarrow> rUser list \<Rightarrow> UDINT \<times> rUser list" where
  "load_user H memory x us = (case (ux_name x, ux_password x, ux_internal x, ux_external x, ux_login x, ux_loginpwd x) of
     (Some name, Some pwd, Some ia, Some ea, Some lg, Some lp) \<Rightarrow>
       (case lg of
          Some t \<Rightarrow> let login = word_of_int (atoi t) in
            if lp = None \<and> login \<noteq> 0 then (DATACFGERR_USERS_PARSE, us)
            else (TRITONN_RESULT_OK, snd (user_Add H memory name (Some (hash_text pwd)) (hex_value ia AND rights_mask)
                    (hex_value ea AND rights_mask) login (Some (hash_text lp)) us))
        | None \<Rightarrow> (TRITONN_RESULT_OK, snd (user_Add H memory name (Some (hash_text pwd)) (hex_value ia AND rights_mask)
                    (hex_value ea AND rights_mask) 0 (Some (replicate MAX_HASH_SIZE 0)) us)))
   | _ \<Rightarrow> (DATACFGERR_USERS_PARSE, us))"

fun LoadUsers :: "(bytes \<Rightarrow> bytes) \<Rightarrow> bytes \<Rightarrow> user_xml list \<Rightarrow> rUser list \<Rightarrow> UDINT \<times> rUser list" where
  "LoadUsers H memory [] us = (TRITONN_RESULT_OK, us)"
| "LoadUsers H memory (x # xs) us = (case load_user H memory x us of (e, us1) \<Rightarrow>
     if e \<noteq> TRITONN_RESULT_OK then (e, us1) else LoadUsers H memory xs us1)"


section \<open>The users the program begins with\<close>

definition ACCESS_WEB :: UDINT where "ACCESS_WEB = 0x20000000"
definition ACCESS_MASK_ADMIN :: UDINT where "ACCESS_MASK_ADMIN = 0xFFFFFFFF AND NOT (ACCESS_WEB OR ACCESS_SA)"

text \<open>What \<^verbatim>\<open>main\<close> adds before it loads the configuration.\<close>

definition main_users :: "(bytes \<Rightarrow> bytes) \<Rightarrow> bytes \<Rightarrow> rUser list" where
  "main_users H memory = snd (user_Add_text H memory ''oznadmin'' ''1'' ACCESS_MASK_ADMIN ACCESS_MASK_ADMIN 0 None
     (snd (user_Add_text H memory ''1'' ''1'' 0xFFFFFFFF 0xFFFFFFFF 0 None [])))"

section \<open>Hashes and their texts\<close>

lemma hash_loop_iff: "hash_loop ns a b \<longleftrightarrow> (\<forall>n \<in> set ns. a ! n = b ! n)"
  by (induction ns) auto

lemma CmpHash_iff: "length a = MAX_HASH_SIZE \<Longrightarrow> length b = MAX_HASH_SIZE \<Longrightarrow> CmpHash a b \<longleftrightarrow> a = b"
  by (auto simp: CmpHash_def hash_loop_iff list_eq_iff_nth_eq)

lemma hex_digit_hex_char: "n < 16 \<Longrightarrow> hex_digit (hex_char n) = Some n"
  by (auto simp: hex_digit_def hex_char_def Let_def)

lemma to_buffer_length [simp]: "length (snd (to_buffer cs ii cap buf)) = length buf"
  by (induction cs ii cap buf rule: to_buffer.induct) (auto split: option.splits)

lemma hash_text_length [simp]: "length (hash_text t) = MAX_HASH_SIZE"
  by (simp add: hash_text_def String_ToBuffer_def split: option.splits)

lemma hex_char_not_null: "n < 16 \<Longrightarrow> hex_char n \<noteq> CHR 0x00"
  using hex_digit_hex_char [of n] by (auto simp: hex_digit_def Let_def)

lemma nibbles:
  fixes b :: USINT
  shows "unat (drop_bit 4 b) < 16" "unat (b AND 15) < 16"
    "push_bit 4 (of_nat (unat (drop_bit 4 b))) OR of_nat (unat (b AND 15)) = b"
    "push_bit 4 (drop_bit 4 b) OR b AND 15 = b"
proof -
  have "unat b < 256" using unsigned_less [of b, where ?'a = nat] by simp
  moreover have "unat (drop_bit 4 b) = unat b div 16" by (simp add: drop_bit_eq_div unat_div)
  ultimately show "unat (drop_bit 4 b) < 16" by simp
  have m: "(15 :: USINT) = mask 4" by (simp add: mask_eq_exp_minus_1)
  have "b AND 15 \<le> 15" by (rule word_and_le1)
  then show "unat (b AND 15) < 16" by (simp add: word_le_nat_alt)
  show "push_bit 4 (drop_bit 4 b) OR b AND 15 = b"
    unfolding m by (rule bit_word_eqI) (auto simp: bit_simps)
  then show "push_bit 4 (of_nat (unat (drop_bit 4 b))) OR of_nat (unat (b AND 15)) = b" by simp
qed


lemma to_buffer_hex:
  "length bs \<le> length qs \<Longrightarrow> to_buffer (String_FromBuffer bs) (2 * length ps) (2 * (length ps + length qs)) (ps @ qs)
     = (int (length ps + length bs), ps @ bs @ drop (length bs) qs)"
proof (induction bs arbitrary: ps qs)
  case Nil
  then show ?case by (simp add: String_FromBuffer_def)
next
  case (Cons b bs)
  then obtain q qs' where q: "qs = q # qs'" "length bs \<le> length qs'" by (cases qs) auto
  have d: "Suc (2 * length ps) div 2 = length ps" by simp
  have step: "to_buffer (String_FromBuffer (b # bs)) (2 * length ps) (2 * (length ps + length qs)) (ps @ qs)
      = to_buffer (String_FromBuffer bs) (2 * length (ps @ [b])) (2 * (length (ps @ [b]) + length qs')) ((ps @ [b]) @ qs')"
    by (simp add: String_FromBuffer_def q(1) hex_digit_hex_char nibbles(1,2,4) d list_update_append nth_append)
  show ?case unfolding step using Cons.IH [OF q(2), of "ps @ [b]"] by (simp add: q(1))
qed

lemma hash_text_hex: "length bs = MAX_HASH_SIZE \<Longrightarrow> hash_text (Some (String_FromBuffer bs)) = bs"
proof -
  assume l: "length bs = MAX_HASH_SIZE"
  have t: "takeWhile (\<lambda>c. c \<noteq> CHR 0x00) (String_FromBuffer bs) = String_FromBuffer bs"
    by (auto simp: takeWhile_eq_all_conv String_FromBuffer_def hex_char_not_null nibbles(1,2))
  show ?thesis using to_buffer_hex [of bs "replicate MAX_HASH_SIZE 0" "[]"] l
    by (simp add: t hash_text_def String_ToBuffer_def MAX_HASH_SIZE_def)
qed


section \<open>The list of users\<close>

text \<open>What a user of the configuration has to have, and what becomes of it.\<close>

definition user_complete :: "user_xml \<Rightarrow> bool" where
  "user_complete x \<longleftrightarrow> ux_name x \<noteq> None \<and> ux_password x \<noteq> None \<and> ux_internal x \<noteq> None \<and> ux_external x \<noteq> None
     \<and> ux_login x \<noteq> None \<and> ux_loginpwd x \<noteq> None
     \<and> \<not> (\<exists>t. ux_login x = Some (Some t) \<and> word_of_int (atoi t) \<noteq> (0 :: UDINT) \<and> ux_loginpwd x = Some None)"

definition loaded_user :: "(bytes \<Rightarrow> bytes) \<Rightarrow> user_xml \<Rightarrow> rUser" where
  "loaded_user H x = \<lparr>u_Hash = GetStrHash H (the (ux_name x)), u_Pwd = hash_text (the (ux_password x)), u_Name = the (ux_name x),
     u_IntAccess = hex_value (the (ux_internal x)) AND rights_mask, u_ExtAccess = hex_value (the (ux_external x)) AND rights_mask,
     u_Status = 0, u_Login = (case the (ux_login x) of None \<Rightarrow> 0 | Some t \<Rightarrow> word_of_int (atoi t)),
     u_LoginPwd = (case the (ux_login x) of None \<Rightarrow> replicate MAX_HASH_SIZE 0 | Some t \<Rightarrow> hash_text (the (ux_loginpwd x)))\<rparr>"

definition insert_user :: "rUser \<Rightarrow> rUser list \<Rightarrow> rUser list" where
  "insert_user u us = (if FindHash us (u_Hash u) \<noteq> None then us else us @ [u])"

lemma load_user_eq:
  "load_user H memory x us = (if user_complete x then (TRITONN_RESULT_OK, insert_user (loaded_user H x) us) else (DATACFGERR_USERS_PARSE, us))"
  by (cases x) (auto simp: load_user_def user_complete_def loaded_user_def insert_user_def user_Add_def Find_def user_new_def Let_def
      split: option.splits)

lemma errors_differ: "DATACFGERR_USERS_PARSE \<noteq> TRITONN_RESULT_OK"
  by (simp add: DATACFGERR_USERS_PARSE_def TRITONN_RESULT_OK_def)

lemma LoadUsers_eq:
  "LoadUsers H memory xs us = (if list_all user_complete xs then TRITONN_RESULT_OK else DATACFGERR_USERS_PARSE,
     fold insert_user (List.map (loaded_user H) (takeWhile user_complete xs)) us)"
  by (induction xs arbitrary: us) (auto simp: load_user_eq errors_differ)

lemma FindHash_append: "FindHash (us @ vs) h = (case FindHash us h of None \<Rightarrow> FindHash vs h | Some u \<Rightarrow> Some u)"
  by (induction us) (simp_all add: FindHash_def)

lemma FindHash_Some: "FindHash us h = Some u \<Longrightarrow> u \<in> set us \<and> CmpHash (u_Hash u) h"
  by (auto simp: FindHash_def find_Some_iff)

lemma insert_user_keeps: "\<exists>vs. insert_user u us = us @ vs \<and> set vs \<subseteq> {u}"
  by (auto simp: insert_user_def)

lemma fold_insert_user: "\<exists>vs. fold insert_user ns us = us @ vs \<and> set vs \<subseteq> set ns"
proof (induction ns arbitrary: us)
  case (Cons n ns)
  obtain v1 where 1: "insert_user n us = us @ v1" "set v1 \<subseteq> {n}" using insert_user_keeps by blast
  obtain v2 where 2: "fold insert_user ns (us @ v1) = (us @ v1) @ v2" "set v2 \<subseteq> set ns" using Cons.IH by blast
  show ?case by (rule exI [of _ "v1 @ v2"]) (use 1 2 in auto)
qed simp

text \<open>Users the configuration can make.\<close>

definition powerless :: "rUser \<Rightarrow> bool" where
  "powerless u \<longleftrightarrow> u_Status u = 0 \<and> u_IntAccess u AND ACCESS_MASK_VIEWHIDE = 0 \<and> u_ExtAccess u AND ACCESS_MASK_VIEWHIDE = 0"

lemma rights_masked: "(r AND rights_mask) AND ACCESS_MASK_VIEWHIDE = 0"
  unfolding rights_mask_def ACCESS_MASK_VIEWHIDE_def by (rule bit_word_eqI) (auto simp: bit_simps)

lemma loaded_powerless: "powerless (loaded_user H x)"
  by (simp add: powerless_def loaded_user_def rights_masked)

lemma LoadUsers_users:
  assumes "LoadUsers H memory xs us = (e, us')"
  shows "\<exists>cs. us' = us @ cs \<and> set cs \<subseteq> loaded_user H ` set xs"
proof -
  obtain vs where v: "fold insert_user (List.map (loaded_user H) (takeWhile user_complete xs)) us = us @ vs"
    "set vs \<subseteq> set (List.map (loaded_user H) (takeWhile user_complete xs))" using fold_insert_user by blast
  then have "set vs \<subseteq> loaded_user H ` set xs" using set_takeWhileD by fastforce
  moreover have "us' = us @ vs" using assms v(1) by (simp add: LoadUsers_eq)
  ultimately show ?thesis by blast
qed


lemma CmpHash_trans: "CmpHash a b \<Longrightarrow> CmpHash b c \<Longrightarrow> CmpHash a c"
  by (simp add: CmpHash_def hash_loop_iff)

lemma FindHash_None: "FindHash us h = None \<longleftrightarrow> (\<forall>u \<in> set us. \<not> CmpHash (u_Hash u) h)"
  by (auto simp: FindHash_def find_None_iff)

lemma FindHash_single: "FindHash [u] h = (if CmpHash (u_Hash u) h then Some u else None)"
  by (simp add: FindHash_def)

lemma FindHash_insert: "FindHash (insert_user u us) h = FindHash (us @ [u]) h"
proof (cases "FindHash us (u_Hash u)")
  case None
  then show ?thesis by (simp add: insert_user_def)
next
  case (Some v)
  then have v: "v \<in> set us" "CmpHash (u_Hash v) (u_Hash u)" using FindHash_Some by blast+
  have "FindHash us h \<noteq> None" if "CmpHash (u_Hash u) h"
    using v CmpHash_trans [OF v(2) that] by (auto simp: FindHash_None)
  moreover have "insert_user u us = us" using Some by (simp add: insert_user_def)
  ultimately show ?thesis by (auto simp: FindHash_append FindHash_single split: option.splits)
qed

lemma FindHash_fold: "FindHash (fold insert_user ns us) h = FindHash (us @ ns) h"
  by (induction ns arbitrary: us) (simp_all add: FindHash_append FindHash_insert split: option.splits, simp add: FindHash_def)

abbreviation program_users :: "(bytes \<Rightarrow> bytes) \<Rightarrow> bytes \<Rightarrow> user_xml list \<Rightarrow> rUser list" where
  "program_users H memory xs \<equiv> snd (LoadUsers H memory xs (main_users H memory))"

definition main_user :: "(bytes \<Rightarrow> bytes) \<Rightarrow> string \<Rightarrow> UDINT \<Rightarrow> rUser" where
  "main_user H name rights = \<lparr>u_Hash = GetStrHash H name, u_Pwd = GetStrHash H ''1'', u_Name = name, u_IntAccess = rights,
     u_ExtAccess = rights, u_Status = 0, u_Login = 0, u_LoginPwd = replicate MAX_HASH_SIZE 0\<rparr>"

lemma main_users_eq: "main_users H memory = insert_user (main_user H ''oznadmin'' ACCESS_MASK_ADMIN) [main_user H ''1'' 0xFFFFFFFF]"
  by (simp add: main_users_def user_Add_text_def Find_def insert_user_def main_user_def user_new_def FindHash_def)

lemma program_users_Some:
  assumes "FindHash (program_users H memory xs) h = Some u"
  shows "u = main_user H ''1'' 0xFFFFFFFF \<or> u = main_user H ''oznadmin'' ACCESS_MASK_ADMIN \<or> powerless u"
proof -
  obtain cs where c: "program_users H memory xs = main_users H memory @ cs" "set cs \<subseteq> loaded_user H ` set xs"
    using LoadUsers_users [of H memory xs "main_users H memory"] by (metis prod.collapse)
  have "u \<in> set (main_users H memory) \<union> set cs" using FindHash_Some [OF assms] c(1) by auto
  moreover have "set (main_users H memory) \<subseteq> {main_user H ''1'' 0xFFFFFFFF, main_user H ''oznadmin'' ACCESS_MASK_ADMIN}"
    by (auto simp: main_users_eq insert_user_def)
  ultimately show ?thesis using c(2) loaded_powerless [of H] by auto
qed

lemma main_user_status [simp]: "u_Status (main_user H name r) = 0"
  by (simp add: main_user_def)

section \<open>Properties\<close>

text \<open>
  C20. Loading the users stops at the first that lacks an element, with an error, and keeps those before it. Of several
  users with one name the first is found, and a user that was there before is never replaced.
\<close>

theorem load_users_outcome:
  "case LoadUsers H memory xs us of (e, us') \<Rightarrow>
     e = (if list_all user_complete xs then TRITONN_RESULT_OK else DATACFGERR_USERS_PARSE)
     \<and> FindHash us' h = (case FindHash us h of Some u \<Rightarrow> Some u
          | None \<Rightarrow> FindHash (List.map (loaded_user H) (takeWhile user_complete xs)) h)"
  by (simp add: LoadUsers_eq FindHash_fold FindHash_append split: option.splits)

text \<open>
  C21. A login ends in success or in a fault, and in a fault whenever the name is unknown or the password is not that of the
  first user with this name: with the users the program makes, no login is ever blocked or asked for a new password.
\<close>

theorem login_outcome:
  "LoginHash (program_users H memory xs) name_hash pwd_hash = (case FindHash (program_users H memory xs) name_hash of
     None \<Rightarrow> (None, LR_FAULT)
   | Some u \<Rightarrow> if CmpHash (u_Pwd u) pwd_hash then (Some u, LR_SUCCESS) else (None, LR_FAULT))"
proof (cases "FindHash (program_users H memory xs) name_hash")
  case (Some u)
  have "u_Status u = 0" using program_users_Some [OF Some] by (auto simp: powerless_def)
  then show ?thesis using Some by (simp add: LoginHash_def)
qed (simp add: LoginHash_def)


lemma GetStrHash_eq [simp]: "GetStrHash H name = H (bytes_of name)"
  by (simp add: GetStrHash_def)

lemma main_rights: "0xFFFFFFFF AND ACCESS_MASK_VIEWHIDE \<noteq> 0" "ACCESS_MASK_ADMIN AND ACCESS_MASK_VIEWHIDE \<noteq> 0"
  by (simp_all add: ACCESS_MASK_VIEWHIDE_def ACCESS_MASK_ADMIN_def ACCESS_SA_def ACCESS_ADMIN_def ACCESS_WEB_def)

lemma main_found:
  assumes "\<And>x. length (H x) = MAX_HASH_SIZE" "length h = MAX_HASH_SIZE"
  shows "FindHash (main_users H memory) h = (if h = H (bytes_of ''1'') then Some (main_user H ''1'' 0xFFFFFFFF)
    else if h = H (bytes_of ''oznadmin'') then Some (main_user H ''oznadmin'' ACCESS_MASK_ADMIN) else None)"
proof -
  have u: "u_Hash (main_user H n r) = H (bytes_of n)" for n r by (simp add: main_user_def)
  show ?thesis using assms unfolding main_users_eq FindHash_insert by (auto simp: FindHash_def CmpHash_iff u)
qed

lemma privileged_iff:
  assumes H: "\<And>x. length (H x) = MAX_HASH_SIZE" and l: "length name_hash = MAX_HASH_SIZE" "length pwd_hash = MAX_HASH_SIZE"
  shows "(case fst (LoginHash (program_users H memory xs) name_hash pwd_hash) of
      None \<Rightarrow> False | Some u \<Rightarrow> GetAccess external u AND ACCESS_MASK_VIEWHIDE \<noteq> 0)
    = (name_hash \<in> {H (bytes_of ''1''), H (bytes_of ''oznadmin'')} \<and> pwd_hash = H (bytes_of ''1''))"
proof -
  obtain cs where c: "program_users H memory xs = main_users H memory @ cs" "set cs \<subseteq> loaded_user H ` set xs"
    using LoadUsers_users [of H memory xs "main_users H memory"] by (metis prod.collapse)
  have cs: "powerless u" if "FindHash cs name_hash = Some u" for u
    using FindHash_Some [OF that] c(2) loaded_powerless [of H] by auto
  have p: "u_Status u = 0 \<and> GetAccess external u AND ACCESS_MASK_VIEWHIDE = 0" if "FindHash cs name_hash = Some u" for u
    using cs [OF that] by (simp add: powerless_def GetAccess_def)
  have m: "GetAccess external (main_user H name r) = r" "u_Pwd (main_user H name r) = H (bytes_of ''1'')" for name r
    by (simp_all add: main_user_def GetAccess_def)
  show ?thesis
    unfolding LoginHash_def c(1) FindHash_append main_found [OF H l(1)]
    using p by (auto simp: m CmpHash_iff H l main_rights split: option.splits)
qed

text \<open>
  Whatever the configuration holds, the only logins that give the rights of the administrators are those with the names
  \<open>1\<close> and \<open>oznadmin\<close>, and these always do, with the password \<open>1\<close>.
\<close>

theorem privileged_logins:
  assumes H: "\<And>x. length (H x) = MAX_HASH_SIZE" and l: "length name_hash = MAX_HASH_SIZE" "length pwd_hash = MAX_HASH_SIZE"
  shows "(case fst (LoginHash (program_users H memory xs) name_hash pwd_hash) of
      None \<Rightarrow> False | Some u \<Rightarrow> GetAccess external u AND ACCESS_MASK_VIEWHIDE \<noteq> 0)
    = (name_hash \<in> {H (bytes_of ''1''), H (bytes_of ''oznadmin'')} \<and> pwd_hash = H (bytes_of ''1''))"
  using assms by (rule privileged_iff)

definition ex_hash :: "bytes \<Rightarrow> bytes" where
  "ex_hash bs = take MAX_HASH_SIZE (bs @ replicate MAX_HASH_SIZE 0)"

lemma ex_hash_length: "length (ex_hash x) = MAX_HASH_SIZE"
  by (simp add: ex_hash_def)

theorem privileged_logins_witness:
  "case fst (LoginHash (program_users ex_hash [] []) (ex_hash (bytes_of ''oznadmin'')) (ex_hash (bytes_of ''1''))) of
     None \<Rightarrow> False | Some u \<Rightarrow> GetAccess True u AND ACCESS_MASK_VIEWHIDE \<noteq> 0"
  using privileged_logins [where H = ex_hash and name_hash = "ex_hash (bytes_of ''oznadmin'')" and pwd_hash = "ex_hash (bytes_of ''1'')"
    and memory = "[]" and xs = "[]" and external = True]
  by (simp add: ex_hash_length)

end
