(* ===== verification/Files.thy ===== *)
theory Files
  imports Common
begin

text \<open>
  The text files of \<^verbatim>\<open>src/shared/simplefile.cpp\<close>, the elements of a parsed XML file with the getters of
  \<^verbatim>\<open>src/xml/xml_util.cpp\<close>, and the files with a hash of \<^verbatim>\<open>src/xml/xmlfile.cpp\<close>. The operating system is
  a record of what there is and of what it refuses; the XML parser is an argument.
\<close>

section \<open>Results\<close>

definition FILE_RESULT_NOTFOUND :: UDINT where "FILE_RESULT_NOTFOUND = 31"
definition FILE_RESULT_CANTOPEN :: UDINT where "FILE_RESULT_CANTOPEN = 32"
definition FILE_RESULT_IOERROR :: UDINT where "FILE_RESULT_IOERROR = 33"
definition FILE_RESULT_READONLY :: UDINT where "FILE_RESULT_READONLY = 34"
definition FILE_RESULT_BLOCKED :: UDINT where "FILE_RESULT_BLOCKED = 35"
definition FILE_RESULT_EACCESS :: UDINT where "FILE_RESULT_EACCESS = 36"
definition FILE_RESULT_ISDIR :: UDINT where "FILE_RESULT_ISDIR = 37"
definition FILE_RESULT_ISEMPTY :: UDINT where "FILE_RESULT_ISEMPTY = 38"
definition FILE_RESULT_EDIR :: UDINT where "FILE_RESULT_EDIR = 39"
definition FILE_RESULT_CANTDELETE :: UDINT where "FILE_RESULT_CANTDELETE = 40"
definition XMLFILE_RESULT_NFHASH :: UDINT where "XMLFILE_RESULT_NFHASH = 700"
definition XMLFILE_RESULT_NOTEQUAL :: UDINT where "XMLFILE_RESULT_NOTEQUAL = 702"

datatype errno = ENODEV | ENOENT | ENXIO | EPERM | EACCES | EISDIR | ETXTBSY | EWOULDBLOCK | EROFS | EOTHER

fun simpleFileErrno :: "errno \<Rightarrow> UDINT \<Rightarrow> UDINT" where
  "simpleFileErrno ENODEV deferrno = FILE_RESULT_NOTFOUND"
| "simpleFileErrno ENOENT deferrno = FILE_RESULT_NOTFOUND"
| "simpleFileErrno ENXIO deferrno = FILE_RESULT_NOTFOUND"
| "simpleFileErrno EPERM deferrno = FILE_RESULT_EACCESS"
| "simpleFileErrno EACCES deferrno = FILE_RESULT_EACCESS"
| "simpleFileErrno EISDIR deferrno = FILE_RESULT_ISDIR"
| "simpleFileErrno ETXTBSY deferrno = FILE_RESULT_BLOCKED"
| "simpleFileErrno EWOULDBLOCK deferrno = FILE_RESULT_BLOCKED"
| "simpleFileErrno EROFS deferrno = FILE_RESULT_READONLY"
| "simpleFileErrno EOTHER deferrno = deferrno"

section \<open>Files\<close>

datatype fop = F_READ | F_WRITE | F_UNLINK

text \<open>
  The texts and directories there are; why a name cannot be opened to be read or written, or deleted; which directories cannot
  be made, which files cannot be read to the end, and how much can be written.
\<close>

record files =
  fs_text :: "string \<Rightarrow> string option"
  fs_dir :: "string \<Rightarrow> bool"
  fs_fault :: "fop \<Rightarrow> string \<Rightarrow> errno option"
  fs_nodir :: "string \<Rightarrow> bool"
  fs_short :: "string \<Rightarrow> bool"
  fs_room :: "string \<Rightarrow> nat"

definition fs_exists :: "files \<Rightarrow> string \<Rightarrow> bool" where
  "fs_exists fs name \<longleftrightarrow> fs_text fs name \<noteq> None \<or> fs_dir fs name"

fun create_dirs :: "string \<Rightarrow> string \<Rightarrow> files \<Rightarrow> UDINT \<times> files" where
  "create_dirs path [] fs = (TRITONN_RESULT_OK, fs)"
| "create_dirs path (ch # cs) fs = (let path = path @ [ch] in
     if ch = CHR ''/'' \<and> \<not> fs_exists fs path then
       (if fs_nodir fs path then (FILE_RESULT_EDIR, fs) else create_dirs path cs (fs\<lparr>fs_dir := (fs_dir fs)(path := True)\<rparr>))
     else create_dirs path cs fs)"

definition simpleFileCreateDir :: "string \<Rightarrow> files \<Rightarrow> UDINT \<times> files" where
  "simpleFileCreateDir filename fs = create_dirs [] filename fs"

definition simpleFileDelete :: "string \<Rightarrow> files \<Rightarrow> UDINT \<times> files" where
  "simpleFileDelete filename fs = (case fs_fault fs F_UNLINK filename of Some e \<Rightarrow> (simpleFileErrno e FILE_RESULT_CANTDELETE, fs)
     | None \<Rightarrow> if fs_text fs filename = None then (simpleFileErrno ENOENT FILE_RESULT_CANTDELETE, fs)
         else (TRITONN_RESULT_OK, fs\<lparr>fs_text := (fs_text fs)(filename := None)\<rparr>))"

text \<open>The text ends at its first null.\<close>

definition simpleFileLoad :: "files \<Rightarrow> string \<Rightarrow> UDINT + string" where
  "simpleFileLoad fs filename = (case fs_fault fs F_READ filename of Some e \<Rightarrow> Inl (simpleFileErrno e FILE_RESULT_CANTOPEN)
     | None \<Rightarrow> case fs_text fs filename of None \<Rightarrow> Inl (simpleFileErrno ENOENT FILE_RESULT_CANTOPEN)
         | Some t \<Rightarrow> if t = [] then Inl FILE_RESULT_ISEMPTY else if fs_short fs filename then Inl FILE_RESULT_IOERROR
             else Inr (takeWhile (\<lambda>c. c \<noteq> CHR 0x00) t))"

text \<open>The modes \<^verbatim>\<open>wt\<close> and \<^verbatim>\<open>at\<close>: \<open>app\<close> tells them apart.\<close>

definition simpleFileSaveExt :: "string \<Rightarrow> string \<Rightarrow> bool \<Rightarrow> files \<Rightarrow> UDINT \<times> files" where
  "simpleFileSaveExt filename t app fs =
     (case (if fs_exists fs filename then (TRITONN_RESULT_OK, fs) else simpleFileCreateDir filename fs) of (r, fs1) \<Rightarrow>
       if r \<noteq> TRITONN_RESULT_OK then (r, fs1)
       else case fs_fault fs1 F_WRITE filename of Some e \<Rightarrow> (simpleFileErrno e FILE_RESULT_CANTOPEN, fs1)
         | None \<Rightarrow> let fw = take (fs_room fs1 filename) t;
               old = (if app then (case fs_text fs1 filename of None \<Rightarrow> [] | Some o1 \<Rightarrow> o1) else [])
             in (if length fw \<noteq> length t then FILE_RESULT_IOERROR else TRITONN_RESULT_OK,
                 fs1\<lparr>fs_text := (fs_text fs1)(filename := Some (old @ fw))\<rparr>))"

definition simpleFileSave :: "string \<Rightarrow> string \<Rightarrow> files \<Rightarrow> UDINT \<times> files" where
  "simpleFileSave filename t fs = simpleFileSaveExt filename t False fs"

definition simpleFileAppend :: "string \<Rightarrow> string \<Rightarrow> files \<Rightarrow> UDINT \<times> files" where
  "simpleFileAppend filename t fs = simpleFileSaveExt filename t True fs"

text \<open>\<open>e\<close> is \<^verbatim>\<open>errno\<close> behind \<^verbatim>\<open>rename\<close>, whose result is not looked at; \<open>ok\<close> says whether it worked.\<close>

definition simpleFileGuaranteedSave :: "errno \<Rightarrow> bool \<Rightarrow> string \<Rightarrow> string \<Rightarrow> files \<Rightarrow> UDINT \<times> files" where
  "simpleFileGuaranteedSave e ok filename t fs = (case simpleFileSave (filename @ ''.temp'') t fs of (r, fs1) \<Rightarrow>
     if r \<noteq> TRITONN_RESULT_OK then (r, fs1)
     else (simpleFileErrno e FILE_RESULT_CANTOPEN,
       if ok then fs1\<lparr>fs_text := (fs_text fs1)(filename @ ''.temp'' := None, filename := fs_text fs1 (filename @ ''.temp''))\<rparr> else fs1))"

section \<open>XML\<close>

datatype xelem = XElem (x_name: string) (x_attrs: "(string \<times> string) list") (x_text: "string option") (x_children: "xelem list")

record xml_lib =
  xl_parse :: "string \<Rightarrow> UDINT + xelem"
  xl_double :: "string \<Rightarrow> lreal option"
  xl_int :: "string \<Rightarrow> UDINT option"

definition x_child :: "xelem \<Rightarrow> string \<Rightarrow> xelem option" where
  "x_child e name = find (\<lambda>c. x_name c = name) (x_children e)"

text \<open>A getter gives the value and whether it has set the error.\<close>

definition getTextString :: "xelem option \<Rightarrow> string \<Rightarrow> string \<times> bool" where
  "getTextString e d = (case e of None \<Rightarrow> (d, True) | Some x \<Rightarrow> case x_text x of None \<Rightarrow> (d, True) | Some t \<Rightarrow> (t, False))"

definition getTextLREAL :: "xml_lib \<Rightarrow> xelem option \<Rightarrow> lreal \<Rightarrow> lreal \<times> bool" where
  "getTextLREAL xl e d = (case Option.bind (Option.bind e x_text) (xl_double xl) of None \<Rightarrow> (d, True) | Some v \<Rightarrow> (v, False))"

definition getTextUDINT :: "xml_lib \<Rightarrow> xelem option \<Rightarrow> UDINT \<Rightarrow> UDINT \<times> bool" where
  "getTextUDINT xl e d = (case Option.bind (Option.bind e x_text) (xl_int xl) of None \<Rightarrow> (d, True) | Some v \<Rightarrow> (v, False))"

text \<open>Narrower numbers: a value out of range is an error.\<close>

definition getTextUINT :: "xml_lib \<Rightarrow> xelem option \<Rightarrow> UINT \<Rightarrow> UINT \<times> bool" where
  "getTextUINT xl e d = (case getTextUDINT xl e (ucast d) of (v, err) \<Rightarrow> if err then (d, True) else if v > 0xFFFF then (d, True) else (ucast v, False))"

definition getTextUSINT :: "xml_lib \<Rightarrow> xelem option \<Rightarrow> USINT \<Rightarrow> USINT \<times> bool" where
  "getTextUSINT xl e d = (case getTextUDINT xl e (ucast d) of (v, err) \<Rightarrow> if err then (d, True) else if v > 0xFF then (d, True) else (ucast v, False))"

definition getTextBOOL :: "xml_lib \<Rightarrow> xelem option \<Rightarrow> bool \<Rightarrow> bool \<times> bool" where
  "getTextBOOL xl e d = (case getTextUDINT xl e (if d then 1 else 0) of (v, err) \<Rightarrow> if err then (d, True) else if v > 1 then (d, True) else (v = 1, False))"

definition MAX_STRHASH_SIZE :: nat where "MAX_STRHASH_SIZE = 40"

text \<open>The result, the document (the old one where none is parsed) and the hash of the file.\<close>

definition xmlDumpFile :: "xml_lib \<Rightarrow> files \<Rightarrow> string \<Rightarrow> xelem option \<Rightarrow> UDINT \<times> xelem option \<times> string" where
  "xmlDumpFile xl fs filename doc = (case simpleFileLoad fs filename of Inl e \<Rightarrow> (e, doc, [])
     | Inr t \<Rightarrow> case xl_parse xl t of Inl e \<Rightarrow> (e, None, [])
         | Inr rt \<Rightarrow> case map_of (x_attrs rt) ''hash'' of None \<Rightarrow> (XMLFILE_RESULT_NFHASH, Some rt, [])
             | Some h \<Rightarrow> if length h \<noteq> MAX_STRHASH_SIZE then (XMLFILE_RESULT_NFHASH, Some rt, h) else (TRITONN_RESULT_OK, Some rt, h))"

section \<open>Saving and loading\<close>

definition writable :: "files \<Rightarrow> string \<Rightarrow> nat \<Rightarrow> bool" where
  "writable fs name n \<longleftrightarrow> fs_exists fs name \<and> fs_fault fs F_WRITE name = None \<and> fs_fault fs F_READ name = None \<and> fs_room fs name \<ge> n \<and> \<not> fs_short fs name"

lemma save_writable:
  "writable fs name (length t) \<Longrightarrow> simpleFileSave name t fs = (TRITONN_RESULT_OK, fs\<lparr>fs_text := (fs_text fs)(name := Some t)\<rparr>)"
  by (simp add: simpleFileSave_def simpleFileSaveExt_def writable_def)

lemma load_saved:
  "fs_text fs name = Some t \<Longrightarrow> fs_fault fs F_READ name = None \<Longrightarrow> \<not> fs_short fs name \<Longrightarrow> t \<noteq> [] \<Longrightarrow> CHR 0x00 \<notin> set t \<Longrightarrow>
    simpleFileLoad fs name = Inr t"
  by (auto simp: simpleFileLoad_def takeWhile_eq_all_conv)

lemma file_results_ok: "FILE_RESULT_NOTFOUND \<noteq> TRITONN_RESULT_OK" "FILE_RESULT_CANTOPEN \<noteq> TRITONN_RESULT_OK"
  "FILE_RESULT_NOTFOUND \<noteq> XMLFILE_RESULT_NOTEQUAL" "XMLFILE_RESULT_NOTEQUAL \<noteq> TRITONN_RESULT_OK"
  by (simp_all add: FILE_RESULT_NOTFOUND_def FILE_RESULT_CANTOPEN_def XMLFILE_RESULT_NOTEQUAL_def TRITONN_RESULT_OK_def)

lemma errno_not_ok: "d \<noteq> TRITONN_RESULT_OK \<Longrightarrow> simpleFileErrno e d \<noteq> TRITONN_RESULT_OK"
  by (cases e) (simp_all add: FILE_RESULT_NOTFOUND_def FILE_RESULT_EACCESS_def FILE_RESULT_ISDIR_def FILE_RESULT_BLOCKED_def
      FILE_RESULT_READONLY_def TRITONN_RESULT_OK_def)

text \<open>The guaranteed save never says that it worked.\<close>

lemma guaranteed_save_fails: "fst (simpleFileGuaranteedSave e ok name t fs) \<noteq> TRITONN_RESULT_OK"
  by (auto simp: simpleFileGuaranteedSave_def errno_not_ok file_results_ok split: prod.split)

end
