(* ===== verification/XmlText.thy ===== *)
theory XmlText
  imports Files
begin

text \<open>
  What the program relies on in the XML library: that a file in which a tree is written out plainly is read as that tree.
  \<open>xml_text\<close> is the text of a tree, \<open>plain_xml\<close> says which trees need no escapes, and \<open>reads_plain\<close> is the promise. A small
  parser of such texts keeps it, so it can be kept.
\<close>

section \<open>Trees as texts\<close>

definition quote :: char where "quote = CHR 0x22"

definition attr_text :: "string \<times> string \<Rightarrow> string" where
  "attr_text a = '' '' @ fst a @ ''='' @ [quote] @ snd a @ [quote]"

fun xml_text :: "xelem \<Rightarrow> string" where
  "xml_text (XElem n as t cs) = ''<'' @ n @ concat (List.map attr_text as) @ ''>'' @ (case t of None \<Rightarrow> [] | Some s \<Rightarrow> s)
     @ concat (List.map xml_text cs) @ ''</'' @ n @ ''>''"

text \<open>Names begin with a letter; texts and values are not empty and have no markup and no white space.\<close>

definition is_letter :: "char \<Rightarrow> bool" where
  "is_letter c \<longleftrightarrow> (let k = of_char c :: nat in 97 \<le> k \<and> k \<le> 122 \<or> 65 \<le> k \<and> k \<le> 90 \<or> 128 \<le> k) \<or> c = CHR ''_'' \<or> c = CHR '':''"

definition name_char :: "char \<Rightarrow> bool" where
  "name_char c \<longleftrightarrow> is_letter c \<or> (let k = of_char c :: nat in 48 \<le> k \<and> k \<le> 57) \<or> c = CHR ''.'' \<or> c = CHR ''-''"

definition plain_char :: "char \<Rightarrow> bool" where
  "plain_char c \<longleftrightarrow> 32 < (of_char c :: nat) \<and> c \<notin> {CHR ''<'', CHR ''>'', CHR ''&'', quote}"

definition xml_name :: "string \<Rightarrow> bool" where
  "xml_name n \<longleftrightarrow> n \<noteq> [] \<and> is_letter (hd n) \<and> list_all name_char n"

definition plain_string :: "string \<Rightarrow> bool" where
  "plain_string t \<longleftrightarrow> t \<noteq> [] \<and> list_all plain_char t"

text \<open>Trees of a given depth: each element has a text or elements.\<close>

fun plain_xml :: "nat \<Rightarrow> xelem \<Rightarrow> bool" where
  "plain_xml 0 e = False"
| "plain_xml (Suc k) e = (xml_name (x_name e) \<and> list_all (\<lambda>(n, v). xml_name n \<and> plain_string v) (x_attrs e)
     \<and> distinct (List.map fst (x_attrs e)) \<and> (case x_text e of None \<Rightarrow> True | Some t \<Rightarrow> plain_string t \<and> x_children e = [])
     \<and> list_all (plain_xml k) (x_children e))"

text \<open>The library takes elements up to a depth of 100.\<close>

definition XML_DEPTH :: nat where "XML_DEPTH = 100"

definition reads_plain :: "xml_lib \<Rightarrow> bool" where
  "reads_plain xl \<longleftrightarrow> (\<forall>d. plain_xml XML_DEPTH d \<longrightarrow> xl_parse xl (xml_text d) = Inr d)"

lemma plain_xml_mono: "plain_xml k e \<Longrightarrow> k \<le> n \<Longrightarrow> plain_xml n e"
proof (induction k arbitrary: e n)
  case (Suc k)
  obtain m where n: "n = Suc m" "k \<le> m" using Suc.prems(2) by (cases n) auto
  have "list_all (plain_xml m) (x_children e)" using Suc.IH [OF _ n(2)] Suc.prems(1) by (auto simp: list_all_iff)
  then show ?case using Suc.prems(1) n(1) by simp
qed simp

lemma plain_node:
  "xml_name n \<Longrightarrow> list_all (\<lambda>(n, v). xml_name n \<and> plain_string v) as \<Longrightarrow> distinct (List.map fst as) \<Longrightarrow> (\<And>c. c \<in> set cs \<Longrightarrow> plain_xml k c)
   \<Longrightarrow> plain_xml (Suc k) (XElem n as None cs)"
  by (simp add: list_all_iff)

lemma char_facts:
  "\<not> name_char CHR '' ''" "\<not> name_char CHR ''>''" "\<not> name_char CHR ''=''" "\<not> name_char CHR ''<''" "\<not> name_char CHR ''/''" "\<not> name_char CHR 0x00"
  "\<not> plain_char CHR ''<''" "\<not> plain_char quote" "\<not> plain_char CHR 0x00" "CHR ''<'' \<noteq> CHR 0x00" "quote \<noteq> CHR 0x00"
  by (simp_all add: name_char_def is_letter_def plain_char_def quote_def Let_def)

text \<open>The text of a plain tree is one the program can keep in a file.\<close>

lemma attr_no_null: "xml_name (fst a) \<Longrightarrow> plain_string (snd a) \<Longrightarrow> CHR 0x00 \<notin> set (attr_text a)"
  using char_facts by (auto simp: attr_text_def xml_name_def plain_string_def list_all_iff)

lemma xml_text_no_null: "plain_xml k e \<Longrightarrow> CHR 0x00 \<notin> set (xml_text e)"
proof (induction k arbitrary: e)
  case (Suc k)
  obtain n as t cs where e: "e = XElem n as t cs" by (cases e)
  have "CHR 0x00 \<notin> set (attr_text a)" if "a \<in> set as" for a
    using Suc.prems that attr_no_null [of a] by (auto simp: e list_all_iff)
  moreover have "CHR 0x00 \<notin> set (xml_text c)" if "c \<in> set cs" for c
    using Suc.IH [of c] Suc.prems that by (auto simp: e list_all_iff)
  moreover have "CHR 0x00 \<notin> set n" using Suc.prems char_facts by (auto simp: e xml_name_def list_all_iff)
  moreover have "CHR 0x00 \<notin> set s" if "t = Some s" for s
    using Suc.prems that char_facts by (auto simp: e plain_string_def list_all_iff)
  ultimately show ?case by (auto simp: e split: option.split)
qed simp

lemma xml_text_length: "7 \<le> length (xml_text e) \<or> x_name e = []"
  by (cases e; cases "x_name e") auto

section \<open>A parser\<close>

fun parse_attrs :: "nat \<Rightarrow> string \<Rightarrow> (string \<times> string) list \<times> string" where
  "parse_attrs 0 s = ([], s)"
| "parse_attrs (Suc k) s = (if s = [] \<or> hd s \<noteq> CHR '' '' then ([], s)
     else let s1 = tl s; v = drop 2 (dropWhile name_char s1) in
       case parse_attrs k (tl (dropWhile plain_char v)) of (as, r) \<Rightarrow> ((takeWhile name_char s1, takeWhile plain_char v) # as, r))"

text \<open>An element, and elements up to a closing tag.\<close>

fun parse_elem :: "nat \<Rightarrow> string \<Rightarrow> (xelem \<times> string) option"
  and parse_elems :: "nat \<Rightarrow> string \<Rightarrow> (xelem list \<times> string) option" where
  "parse_elem 0 s = None"
| "parse_elem (Suc k) s = (let n = takeWhile name_char (tl s) in
     case parse_attrs k (dropWhile name_char (tl s)) of (as, s2) \<Rightarrow>
       let t = takeWhile plain_char (tl s2) in
       case parse_elems k (dropWhile plain_char (tl s2)) of None \<Rightarrow> None
       | Some (cs, s3) \<Rightarrow> Some (XElem n as (if t = [] then None else Some t) cs, drop (length n + 3) s3))"
| "parse_elems 0 s = None"
| "parse_elems (Suc k) s = (if take 2 s = ''</'' then Some ([], s)
     else case parse_elem k s of None \<Rightarrow> None
       | Some (c, s1) \<Rightarrow> (case parse_elems k s1 of None \<Rightarrow> None | Some (cs, s2) \<Rightarrow> Some (c # cs, s2)))"

definition parse_xml :: "string \<Rightarrow> UDINT + xelem" where
  "parse_xml s = (case parse_elem (length s) s of Some (e, []) \<Rightarrow> Inr e | _ \<Rightarrow> Inl 1)"

lemma take_name: "list_all p n \<Longrightarrow> \<not> p c \<Longrightarrow> takeWhile p (n @ c # r) = n \<and> dropWhile p (n @ c # r) = c # r"
  by (induction n) auto

lemma parse_attrs_text:
  "list_all (\<lambda>(n, v). xml_name n \<and> plain_string v) as \<Longrightarrow> length (concat (List.map attr_text as)) \<le> k
   \<Longrightarrow> parse_attrs k (concat (List.map attr_text as) @ CHR ''>'' # r) = (as, CHR ''>'' # r)"
proof (induction as arbitrary: k)
  case Nil
  then show ?case by (cases k) simp_all
next
  case (Cons a as)
  obtain n v where a: "a = (n, v)" by (cases a)
  have n: "list_all name_char n" and v: "list_all plain_char v" using Cons.prems(1) by (simp_all add: a xml_name_def plain_string_def)
  let ?s = "concat (List.map attr_text as) @ CHR ''>'' # r"
  have t: "attr_text a @ x = CHR '' '' # n @ CHR ''='' # quote # v @ quote # x" for x by (simp add: attr_text_def a)
  have la: "1 \<le> length (attr_text a)" by (simp add: attr_text_def)
  obtain j where j: "k = Suc j" "length (concat (List.map attr_text as)) \<le> j" using Cons.prems(2) la by (cases k) simp_all
  have i: "parse_attrs j ?s = (as, CHR ''>'' # r)" using Cons.IH [OF _ j(2)] Cons.prems(1) by simp
  have "parse_attrs (Suc j) (CHR '' '' # n @ CHR ''='' # quote # v @ quote # ?s) = (a # as, CHR ''>'' # r)"
    using take_name [OF n char_facts(3), of "quote # v @ quote # ?s"] take_name [OF v char_facts(8), of ?s] i
    by (simp add: a Let_def)
  then show ?case by (simp add: j(1) t)
qed

lemma parse_plain:
  "plain_xml d e \<Longrightarrow> length (xml_text e) \<le> k \<Longrightarrow> parse_elem k (xml_text e @ r) = Some (e, r)"
  "list_all (plain_xml d) cs \<Longrightarrow> length (concat (List.map xml_text cs)) < k
   \<Longrightarrow> parse_elems k (concat (List.map xml_text cs) @ CHR ''<'' # CHR ''/'' # r) = Some (cs, CHR ''<'' # CHR ''/'' # r)"
proof (induction k arbitrary: d e cs r)
  case 0
  { case 1 then show ?case by (cases e) simp }
  { case 2 then show ?case by simp }
next
  case (Suc k)
  { case 1
    obtain n as t ks where e: "e = XElem n as t ks" by (cases e)
    obtain d' where d: "d = Suc d'" using 1 by (cases d) simp_all
    have n: "list_all name_char n" and as: "list_all (\<lambda>(n, v). xml_name n \<and> plain_string v) as" and ks: "list_all (plain_xml d') ks"
      using 1 by (simp_all add: d e xml_name_def)
    let ?t = "case t of None \<Rightarrow> [] | Some s \<Rightarrow> s" and ?r = "CHR ''<'' # CHR ''/'' # n @ CHR ''>'' # r"
    let ?ks = "concat (List.map xml_text ks) @ ?r"
    have t: "list_all plain_char ?t" "(if ?t = [] then None else Some ?t) = t"
      using 1 by (auto simp: d e plain_string_def split: option.splits)
    have l: "length (concat (List.map attr_text as)) \<le> k" "length (concat (List.map xml_text ks)) < k"
      using 1(2) by (simp_all add: e)
    have h: "\<exists>z. ?ks = CHR ''<'' # z" by (cases ks; cases "hd ks") auto
    then obtain z where z: "?ks = CHR ''<'' # z" by blast
    have T: "takeWhile plain_char (?t @ ?ks) = ?t" "dropWhile plain_char (?t @ ?ks) = ?ks"
      unfolding z using take_name [OF t(1) char_facts(7)] by simp_all
    have A: "parse_attrs k (concat (List.map attr_text as) @ CHR ''>'' # ?t @ ?ks) = (as, CHR ''>'' # ?t @ ?ks)"
      by (rule parse_attrs_text [OF as l(1)])
    have K: "parse_elems k ?ks = Some (ks, ?r)" by (rule Suc.IH(2) [OF ks l(2)])
    have N: "takeWhile name_char (n @ concat (List.map attr_text as) @ CHR ''>'' # ?t @ ?ks) = n"
      "dropWhile name_char (n @ concat (List.map attr_text as) @ CHR ''>'' # ?t @ ?ks) = concat (List.map attr_text as) @ CHR ''>'' # ?t @ ?ks"
    proof -
      have "\<exists>c w. \<not> name_char c \<and> concat (List.map attr_text as) @ CHR ''>'' # ?t @ ?ks = c # w"
        using char_facts(1,2) by (cases as) (auto simp: attr_text_def)
      then obtain c w where c: "\<not> name_char c" "concat (List.map attr_text as) @ CHR ''>'' # ?t @ ?ks = c # w" by blast
      show "takeWhile name_char (n @ concat (List.map attr_text as) @ CHR ''>'' # ?t @ ?ks) = n"
        "dropWhile name_char (n @ concat (List.map attr_text as) @ CHR ''>'' # ?t @ ?ks) = concat (List.map attr_text as) @ CHR ''>'' # ?t @ ?ks"
        unfolding c(2) using take_name [OF n c(1)] by simp_all
    qed
    have "xml_text e @ r = CHR ''<'' # n @ concat (List.map attr_text as) @ CHR ''>'' # ?t @ ?ks" by (simp add: e)
    then have "parse_elem (Suc k) (xml_text e @ r) = Some (XElem n as (if ?t = [] then None else Some ?t) ks, drop (length n + 3) ?r)"
      by (simp only: parse_elem.simps list.sel N A T K Let_def case_prod_conv option.case)
    then show ?case unfolding t(2) by (simp add: e numeral_eq_Suc) }
  { case 2
    show ?case
    proof (cases cs)
      case (Cons c ks)
      obtain n as t es where c: "c = XElem n as t es" by (cases c)
      obtain d' where d: "d = Suc d'" using 2(1) Cons by (cases d) simp_all
      have "xml_name n" using 2(1) by (simp add: Cons c d)
      then obtain a n' where n: "n = a # n'" "a \<noteq> CHR ''/''" using char_facts(5) by (cases n) (auto simp: xml_name_def)
      let ?s = "concat (List.map xml_text ks) @ CHR ''<'' # CHR ''/'' # r"
      have p: "plain_xml d c" "list_all (plain_xml d) ks" using 2(1) by (simp_all add: Cons)
      have l: "length (xml_text c) \<le> k" "length (concat (List.map xml_text ks)) < k" using 2(2) by (simp_all add: Cons c)
      have "take 2 (xml_text c @ ?s) \<noteq> ''</''" using n by (simp add: c numeral_eq_Suc)
      then show ?thesis using Suc.IH(1) [OF p(1) l(1), of ?s] Suc.IH(2) [OF p(2) l(2), of r] by (simp add: Cons)
    qed simp }
qed

theorem parse_xml_text: "plain_xml d e \<Longrightarrow> parse_xml (xml_text e) = Inr e"
  using parse_plain(1) [of d e "length (xml_text e)" "[]"] by (simp add: parse_xml_def)

end
