(* ===== verification/Texts.thy ===== *)
theory Texts
  imports Variables XmlText
begin

text \<open>
  The values of variables as texts (\<^verbatim>\<open>valueToString\<close>, \<^verbatim>\<open>valueToXml\<close> and \<^verbatim>\<open>valueFromXml\<close> of
  \<^verbatim>\<open>src/tritonn/variable_item.cpp\<close>, \<^verbatim>\<open>getValueString\<close> of \<^verbatim>\<open>data_snapshot_item.cpp\<close>), and that the number
  a text was made from comes back. How the library prints floating numbers is an argument \<open>fl\<close>.
\<close>

section \<open>Numbers\<close>

fun dec :: "nat \<Rightarrow> string" where
  "dec n = (if n < 10 then [char_of (48 + n)] else dec (n div 10) @ [char_of (48 + n mod 10)])"

declare dec.simps [simp del]

definition dec_int :: "int \<Rightarrow> string" where
  "dec_int i = (if i < 0 then CHR ''-'' # dec (nat (- i)) else dec (nat i))"

fun param_text :: "(rawparam \<Rightarrow> string) \<Rightarrow> rawparam \<Rightarrow> string" where
  "param_text fl (P_USINT v) = dec (unat v)"
| "param_text fl (P_SINT v) = dec_int (sint v)"
| "param_text fl (P_UINT v) = dec (unat v)"
| "param_text fl (P_INT v) = dec_int (sint v)"
| "param_text fl (P_UDINT v) = dec (unat v)"
| "param_text fl (P_DINT v) = dec_int (sint v)"
| "param_text fl (P_REAL v) = fl (P_REAL v)"
| "param_text fl (P_LREAL v) = fl (P_LREAL v)"
| "param_text fl (P_STRID v) = dec (unat v)"

section \<open>Variables\<close>

text \<open>A flagged variable without buffers is not in the program.\<close>

definition value_bytes :: "varworld \<Rightarrow> rVariable \<Rightarrow> bytes" where
  "value_bytes w v = (if isExternal v then (case v_external v of None \<Rightarrow> [] | Some e \<Rightarrow> ex_read e)
     else mem_read (vw_mem w) (v_pointer v) (v_size v))"

definition valueToString :: "(rawparam \<Rightarrow> string) \<Rightarrow> varworld \<Rightarrow> rVariable \<Rightarrow> string" where
  "valueToString fl w v = (case param_read (v_type v) (value_bytes w v) of None \<Rightarrow> [] | Some p \<Rightarrow> param_text fl p)"

definition valueToXml :: "(rawparam \<Rightarrow> string) \<Rightarrow> varworld \<Rightarrow> rVariable \<Rightarrow> string" where
  "valueToXml fl w v = ''<'' @ v_name v @ ''>'' @ valueToString fl w v @ ''</'' @ v_name v @ ''>''"

text \<open>\<open>None\<close> is an exception that nobody catches.\<close>

definition valueFromXml :: "platform \<Rightarrow> xelem option \<Rightarrow> nat \<Rightarrow> varworld \<Rightarrow> varworld option" where
  "valueFromXml pf rt k w = (case rt of None \<Rightarrow> Some w
     | Some r \<Rightarrow> case x_child r (v_name (vw_vars w ! k)) of None \<Rightarrow> Some w
         | Some e \<Rightarrow> case getTextString (Some e) [] of (t, err) \<Rightarrow> if err then Some w else stringToValue pf k t w)"

text \<open>The text of an item: the value the variable has now.\<close>

definition item_getValueString :: "(rawparam \<Rightarrow> string) \<Rightarrow> varworld \<Rightarrow> rSnapshotItem \<Rightarrow> string \<times> rSnapshotItem" where
  "item_getValueString fl w it = (case si_var it of None \<Rightarrow> ([], it)
     | Some k \<Rightarrow> if si_status it \<noteq> SS_ASSIGNED \<and> si_status it \<noteq> SS_WRITED then ([], it)
         else let t = valueToString fl w (vw_vars w ! k) in (t, if t = [] then it\<lparr>si_status := SS_ERROR\<rparr> else it))"

section \<open>Numbers come back\<close>

lemma digit_char: "n < 10 \<Longrightarrow> of_char (char_of (48 + n) :: char) = (48 + n :: nat)"
  by simp

lemma dec_digits: "dec n \<noteq> [] \<and> list_all is_digit (dec n)"
proof (induction n rule: dec.induct)
  case (1 n)
  have d: "is_digit (char_of (48 + m :: nat))" if "m < 10" for m using that by (simp add: is_digit_def Let_def)
  show ?case by (subst (1 2) dec.simps) (use 1 d [of n] d [of "n mod 10"] in simp)
qed

lemma digits_value_snoc: "digits_value (s @ [c]) = 10 * digits_value s + (of_char c - 48)"
  by (simp add: digits_value_def)

lemma digits_value_dec: "digits_value (dec n) = n"
proof (induction n rule: dec.induct)
  case (1 n)
  show ?case
  proof (cases "n < 10")
    case True
    then show ?thesis by (subst dec.simps) (simp add: digits_value_def)
  next
    case False
    have "digits_value (dec n) = 10 * (n div 10) + n mod 10"
      by (subst dec.simps) (use False 1 in \<open>simp add: digits_value_snoc\<close>)
    then show ?thesis by simp
  qed
qed

lemma digit_not: "is_digit c \<Longrightarrow> \<not> is_space c \<and> c \<noteq> CHR ''-'' \<and> c \<noteq> CHR ''+''"
  by (auto simp: is_digit_def is_space_def Let_def)

lemma parse_digits:
  assumes "ds \<noteq> []" "list_all is_digit ds"
  shows "parse_number ds = Some (False, digits_value ds)" "parse_number (CHR ''-'' # ds) = Some (True, digits_value ds)"
proof -
  obtain c cs where d: "ds = c # cs" using assms(1) by (cases ds) auto
  have c: "is_digit c" using assms(2) d by simp
  have t: "takeWhile is_digit ds = ds" using assms(2) by (simp add: takeWhile_eq_all_conv list_all_iff)
  have s: "dropWhile is_space ds = ds" using digit_not [OF c] by (simp add: d)
  have h: "hd ds \<noteq> CHR ''-''" "hd ds \<noteq> CHR ''+''" using digit_not [OF c] by (simp_all add: d)
  show "parse_number ds = Some (False, digits_value ds)" by (simp add: parse_number_def Let_def s t h assms(1))
  have m: "\<not> is_space CHR ''-''" by (simp add: is_space_def)
  show "parse_number (CHR ''-'' # ds) = Some (True, digits_value ds)" by (simp add: parse_number_def Let_def m t assms(1))
qed

lemma parse_dec: "parse_number (dec n) = Some (False, n)" "parse_number (CHR ''-'' # dec n) = Some (True, n)"
  using parse_digits [of "dec n"] dec_digits [of n] by (simp_all add: digits_value_dec)

lemma stol_dec_int: "32 \<le> pf_long pf \<Longrightarrow> - (2 ^ 31) \<le> i \<Longrightarrow> i < 2 ^ 31 \<Longrightarrow> stol pf (dec_int i) = Some i"
proof -
  assume l: "32 \<le> pf_long pf" and i: "- (2 ^ 31) \<le> i" "i < 2 ^ 31"
  have "(2 :: int) ^ 31 \<le> 2 ^ (pf_long pf - 1)" using l by (intro power_increasing) auto
  then have "- (2 ^ (pf_long pf - 1)) \<le> i \<and> i < 2 ^ (pf_long pf - 1)" using i by linarith
  then show ?thesis by (simp add: stol_def dec_int_def parse_dec)
qed

lemma stoi_dec_int: "32 \<le> pf_long pf \<Longrightarrow> - (2 ^ 31) \<le> i \<Longrightarrow> i < 2 ^ 31 \<Longrightarrow> stoi pf (dec_int i) = Some i"
  using stol_dec_int [of pf i] by (simp add: stoi_def)

lemma stoul_dec: "32 \<le> pf_long pf \<Longrightarrow> n < 2 ^ 32 \<Longrightarrow> stoul pf (dec n) = Some (int n)"
proof -
  assume l: "32 \<le> pf_long pf" and n: "n < 2 ^ 32"
  have "(2 :: nat) ^ 32 \<le> 2 ^ pf_long pf" using l by (intro power_increasing) auto
  then have b: "n < 2 ^ pf_long pf" using n by linarith
  then have "int n < 2 ^ pf_long pf" using of_nat_less_iff [of n "2 ^ pf_long pf", where ?'a = int] by simp
  then show ?thesis using b by (simp add: stoul_def parse_dec)
qed

text \<open>
  Floating numbers are printed with six digits, so another number may come back: the one the text is read as. Of the
  platform nothing is asked but that its texts of the saved numbers are plain and can be read.
\<close>

fun reread :: "platform \<Rightarrow> (rawparam \<Rightarrow> string) \<Rightarrow> rawparam \<Rightarrow> rawparam" where
  "reread pf fl (P_REAL v) = P_REAL (the (pf_stof pf (fl (P_REAL v))))"
| "reread pf fl (P_LREAL v) = P_LREAL (the (pf_stod pf (fl (P_LREAL v))))"
| "reread pf fl p = p"

fun rereadable :: "platform \<Rightarrow> (rawparam \<Rightarrow> string) \<Rightarrow> rawparam \<Rightarrow> bool" where
  "rereadable pf fl (P_REAL v) = (plain_string (fl (P_REAL v)) \<and> pf_stof pf (fl (P_REAL v)) \<noteq> None)"
| "rereadable pf fl (P_LREAL v) = (plain_string (fl (P_LREAL v)) \<and> pf_stod pf (fl (P_LREAL v)) \<noteq> None)"
| "rereadable pf fl _ = True"

lemma sint_bounds:
  "- 2147483648 \<le> sint (a :: 8 word)" "sint (a :: 8 word) < 2147483648"
  "- 2147483648 \<le> sint (b :: 16 word)" "sint (b :: 16 word) < 2147483648"
  "- 2147483648 \<le> sint (c :: 32 word)" "sint (c :: 32 word) < 2147483648"
  using sint_greater_eq [of a] sint_less [of a] sint_greater_eq [of b] sint_less [of b] sint_greater_eq [of c] sint_less [of c] by simp_all

lemma unat_bounds: "unat (a :: 8 word) < 4294967296" "unat (b :: 16 word) < 4294967296" "unat (c :: 32 word) < 4294967296"
  using unsigned_less [of a, where ?'a = nat] unsigned_less [of b, where ?'a = nat] unsigned_less [of c, where ?'a = nat] by simp_all

lemma parse_saved_text:
  assumes "32 \<le> pf_long pf" "rereadable pf fl p"
  shows "\<exists>q. parse_saved pf (param_type p) (param_text fl p) = Inr (Some q) \<and> param_bytes q = param_bytes (reread pf fl p)"
  using assms by (cases p) (auto simp: stoi_dec_int stol_dec_int stoul_dec sint_bounds unat_bounds)

lemma le_bytes_le_word:
  assumes "8 * length bs \<le> LENGTH('a::len)"
  shows "le_bytes (length bs) (le_word bs :: 'a word) = bs"
proof (rule nth_equalityI)
  fix i assume "i < length (le_bytes (length bs) (le_word bs :: 'a word))"
  then have i: "i < length bs" by simp
  have "bit (le_bytes (length bs) (le_word bs :: 'a word) ! i) j = bit (bs ! i) j" if j: "j < 8" for j
  proof -
    have d: "(8 * i + j) div 8 = i" "(8 * i + j) mod 8 = j" "8 * i + j < 8 * length bs" using j i by auto
    then show ?thesis using assms j by (simp add: le_bytes_nth i bit_simps bit_le_word)
  qed
  then show "le_bytes (length bs) (le_word bs :: 'a word) ! i = bs ! i" by (intro bit_word_eqI) simp
qed simp

lemma param_bytes_read:
  assumes "isValueType t" "length bs = unat (getTypeSize t)"
  shows "\<exists>p. param_read t bs = Some p \<and> param_type p = t \<and> param_bytes p = bs"
  using assms le_bytes_le_word [of bs, where 'a = 8] le_bytes_le_word [of bs, where 'a = 16]
    le_bytes_le_word [of bs, where 'a = 32] le_bytes_le_word [of bs, where 'a = 64]
  by (cases t) (simp_all add: isValueType_def)

text \<open>The bytes that the text of a variable gives back: its own, except for floating numbers.\<close>

definition reread_bytes :: "platform \<Rightarrow> (rawparam \<Rightarrow> string) \<Rightarrow> varworld \<Rightarrow> rVariable \<Rightarrow> bytes" where
  "reread_bytes pf fl w v = (case param_read (v_type v) (value_bytes w v) of None \<Rightarrow> [] | Some p \<Rightarrow> param_bytes (reread pf fl p))"

definition saved_well :: "platform \<Rightarrow> (rawparam \<Rightarrow> string) \<Rightarrow> varworld \<Rightarrow> rVariable \<Rightarrow> bool" where
  "saved_well pf fl w v \<longleftrightarrow> \<not> isExternal v \<and> isValueType (v_type v)
     \<and> (case param_read (v_type v) (value_bytes w v) of None \<Rightarrow> False | Some p \<Rightarrow> rereadable pf fl p)"

lemma saved_param:
  assumes "saved_well pf fl w v"
  obtains p where "param_read (v_type v) (value_bytes w v) = Some p" "param_type p = v_type v" "param_bytes p = value_bytes w v"
    "rereadable pf fl p" "reread_bytes pf fl w v = param_bytes (reread pf fl p)" "valueToString fl w v = param_text fl p"
    "value_bytes w v = mem_read (vw_mem w) (v_pointer v) (v_size v)"
proof -
  have b: "value_bytes w v = mem_read (vw_mem w) (v_pointer v) (v_size v)" using assms by (simp add: value_bytes_def saved_well_def)
  obtain p where p: "param_read (v_type v) (value_bytes w v) = Some p" "param_type p = v_type v" "param_bytes p = value_bytes w v"
    using param_bytes_read [of "v_type v" "value_bytes w v"] assms by (auto simp: b saved_well_def v_size_def)
  show thesis by (rule that [OF p]) (use assms b p in \<open>simp_all add: saved_well_def reread_bytes_def valueToString_def\<close>)
qed

lemma text_restored:
  assumes "32 \<le> pf_long pf" "saved_well pf fl w (vw_vars w' ! k)"
  shows "stringToValue pf k (valueToString fl w (vw_vars w' ! k)) w'
    = Some (w'\<lparr>vw_mem := mem_write (v_pointer (vw_vars w' ! k)) (reread_bytes pf fl w (vw_vars w' ! k)) (vw_mem w')\<rparr>)"
proof -
  let ?v = "vw_vars w' ! k"
  obtain p where p: "param_type p = v_type ?v" "rereadable pf fl p" "reread_bytes pf fl w ?v = param_bytes (reread pf fl p)"
    "valueToString fl w ?v = param_text fl p" using saved_param [OF assms(2)] by metis
  obtain q where q: "parse_saved pf (v_type ?v) (param_text fl p) = Inr (Some q)" "param_bytes q = param_bytes (reread pf fl p)"
    using parse_saved_text [OF assms(1) p(2)] p(1) by auto
  show ?thesis by (simp add: stringToValue_def Let_def p(3,4) q)
qed

lemma reread_length: "length (param_bytes (reread pf fl p)) = length (param_bytes p)"
  by (cases p) simp_all

lemma reread_bytes_length: "saved_well pf fl w v \<Longrightarrow> length (reread_bytes pf fl w v) = v_size v"
  by (erule saved_param) (metis length_mem_read reread_length)

text \<open>All that is no floating number comes back as it was.\<close>

lemma reread_exact:
  assumes "saved_well pf fl w v" "v_type v \<noteq> T_REAL" "v_type v \<noteq> T_LREAL"
  shows "reread_bytes pf fl w v = mem_read (vw_mem w) (v_pointer v) (v_size v)"
  using assms(1)
proof (rule saved_param)
  fix p
  assume p: "param_type p = v_type v" "param_bytes p = value_bytes w v" "reread_bytes pf fl w v = param_bytes (reread pf fl p)"
    "value_bytes w v = mem_read (vw_mem w) (v_pointer v) (v_size v)"
  have "reread pf fl p = p" using p(1) assms(2,3) by (cases p) simp_all
  then show ?thesis using p by simp
qed

lemma dec_not_empty: "dec n \<noteq> []" "[] \<noteq> dec n" "dec_int i \<noteq> []" "[] \<noteq> dec_int i"
  using dec_digits by (auto simp: dec_int_def eq_commute [of "[]"])

lemma digit_plain: "is_digit c \<Longrightarrow> plain_char c" "plain_char CHR ''-''"
  by (auto simp: is_digit_def plain_char_def quote_def Let_def)

lemma dec_plain: "plain_string (dec n)" "plain_string (dec_int i)"
proof -
  show d: "plain_string (dec n)" for n using dec_digits [of n] digit_plain by (simp add: plain_string_def list_all_iff)
  show "plain_string (dec_int i)" using d digit_plain(2) by (simp add: dec_int_def plain_string_def)
qed

lemma text_plain: "saved_well pf fl w v \<Longrightarrow> plain_string (valueToString fl w v)"
proof (erule saved_param)
  fix p assume "rereadable pf fl p" "valueToString fl w v = param_text fl p"
  then show ?thesis by (cases p) (simp_all add: dec_plain)
qed

end
