(* ===== verification/Dump.thy ===== *)
theory Dump
  imports Texts Total Users
begin

text \<open>
  How the program starts, what it saves while it runs and restores at the next start:
  \<^verbatim>\<open>src/tritonn/data/manager_dump.cpp\<close>, the status of \<^verbatim>\<open>src/tritonn/data_manager.cpp\<close>, the totals as
  XML (\<^verbatim>\<open>total.cpp\<close>), and the command by which the operator decides about a dump that does not belong to
  the configuration (\<^verbatim>\<open>json_manager.cpp\<close>).
\<close>

section \<open>Totals as XML\<close>

definition tag :: "string \<Rightarrow> string \<Rightarrow> string" where
  "tag name t = ''<'' @ name @ ''>'' @ t @ ''</'' @ name @ ''>''"

text \<open>\<open>f15\<close> prints a number with 15 digits behind the point.\<close>

definition toXmlBase :: "(lreal \<Rightarrow> string) \<Rightarrow> string \<Rightarrow> rBaseTotal \<Rightarrow> string" where
  "toXmlBase f15 name t = tag name (tag ''mass'' (f15 (Mass t)) @ tag ''volume'' (f15 (Volume t)) @ tag ''volume15'' (f15 (Volume15 t))
     @ tag ''volume20'' (f15 (Volume20 t)) @ tag ''count'' (dec (unat (m_count t))))"

definition total_toXml :: "(lreal \<Rightarrow> string) \<Rightarrow> string \<Rightarrow> rTotal \<Rightarrow> string" where
  "total_toXml f15 name t = tag name (toXmlBase f15 ''past'' (m_past t) @ toXmlBase f15 ''raw'' (m_raw t)
     @ toXmlBase f15 ''inc'' (m_inc t) @ toXmlBase f15 ''present'' (m_present t))"

definition read_base :: "xml_lib \<Rightarrow> xelem option \<Rightarrow> rBaseTotal option" where
  "read_base xl e = (case e of None \<Rightarrow> None | Some r \<Rightarrow>
     (let (m, e1) = getTextLREAL xl (x_child r ''mass'') (Fin 0); (v, e2) = getTextLREAL xl (x_child r ''volume'') (Fin 0);
          (v15, e3) = getTextLREAL xl (x_child r ''volume15'') (Fin 0); (v20, e4) = getTextLREAL xl (x_child r ''volume20'') (Fin 0);
          (c, e5) = getTextUDINT xl (x_child r ''count'') 0
      in if e1 \<or> e2 \<or> e3 \<or> e4 \<or> e5 then None else Some \<lparr>Mass = m, Volume = v, Volume15 = v15, Volume20 = v20, m_count = c\<rparr>))"

definition total_xml :: "xml_lib \<Rightarrow> xelem \<Rightarrow> string \<Rightarrow> rTotal \<Rightarrow> bool \<times> rTotal" where
  "total_xml xl rt name t = total_fromXml (map_option (\<lambda>i. (read_base xl (x_child i ''past''), read_base xl (x_child i ''raw''),
     read_base xl (x_child i ''inc''), read_base xl (x_child i ''present''))) (x_child rt name)) t"

section \<open>State\<close>

datatype Live = LIVE_UNDEF | LIVE_STARTING | LIVE_REBOOT_COLD | LIVE_DUMP_TOTALS | LIVE_DUMP_VARS | LIVE_RUNNING | LIVE_HALT

definition HALT_CONFIGFILE :: UDINT where "HALT_CONFIGFILE = 0x00010000"
definition HALT_DUMP :: UDINT where "HALT_DUMP = 0x00070000"

definition FILE_CONF :: string where "FILE_CONF = ''./tritonn.conf''"
definition FILE_RESTART :: string where "FILE_RESTART = ''./tritonn.restart''"
definition FILE_DUMP_VARIABLES :: string where "FILE_DUMP_VARIABLES = ''./dump/variables.xml''"
definition FILE_DUMP_TOTALS :: string where "FILE_DUMP_TOTALS = ''./dump/totals.xml''"

record rDumpFile =
  df_prefix :: string
  df_suffix :: string
  df_doc :: "xelem option"
  df_filename :: string
  df_result :: UDINT

definition dumpfile_new :: rDumpFile where
  "dumpfile_new = \<lparr>df_prefix = [], df_suffix = [], df_doc = None, df_filename = [], df_result = TRITONN_RESULT_OK\<rparr>"

text \<open>
  The manager: \<open>dm_totals\<close> has the objects in their order, with their totals where they have any; the wish to
  save the variables is \<^const>\<open>vw_save\<close>; \<open>dm_finish\<close> tells the threads to end.
\<close>

record rDataManager =
  dm_live :: Live
  dm_halt :: bool
  dm_os :: files
  dm_world :: varworld
  dm_vars :: varlist
  dm_totals :: "(string \<times> rTotal option) list"
  dm_hash :: string
  dm_dumpVars :: rDumpFile
  dm_dumpTotals :: rDumpFile
  dm_events :: "(UDINT \<times> UDINT list) list"
  dm_finish :: bool

text \<open>The libraries and the platform.\<close>

record dump_lib =
  dl_xml :: xml_lib
  dl_pf :: platform
  dl_float :: "rawparam \<Rightarrow> string"
  dl_f15 :: "lreal \<Rightarrow> string"

definition setLiveStatus :: "Live \<Rightarrow> rDataManager \<Rightarrow> rDataManager" where
  "setLiveStatus s m = (if dm_live m \<noteq> LIVE_HALT then m\<lparr>dm_live := s\<rparr> else m)"

definition addEventUDINT :: "UDINT \<Rightarrow> UDINT \<Rightarrow> rDataManager \<Rightarrow> rDataManager" where
  "addEventUDINT eid v m = m\<lparr>dm_events := dm_events m @ [(eid, [v])]\<rparr>"

definition addEvent :: "UDINT \<Rightarrow> rDataManager \<Rightarrow> rDataManager" where
  "addEvent eid m = m\<lparr>dm_events := dm_events m @ [(eid, [])]\<rparr>"

definition os_do :: "(files \<Rightarrow> UDINT \<times> files) \<Rightarrow> rDataManager \<Rightarrow> rDataManager" where
  "os_do f m = m\<lparr>dm_os := snd (f (dm_os m))\<rparr>"

definition DoHalt :: "UDINT \<Rightarrow> UDINT \<Rightarrow> rDataManager \<Rightarrow> rDataManager" where
  "DoHalt hr reason m = (if dm_halt m then m
     else os_do (simpleFileSave FILE_RESTART ''cold'') (addEventUDINT EID_SYSTEM_HALT (hr OR reason) (m\<lparr>dm_halt := True, dm_live := LIVE_HALT\<rparr>)))"

definition RESTART_WARM :: USINT where "RESTART_WARM = 1"
definition RESTART_COLD :: USINT where "RESTART_COLD = 2"
definition RESTART_DEBUG :: USINT where "RESTART_DEBUG = 3"

text \<open>The last part of \<^verbatim>\<open>Restart\<close>, by the status the command found.\<close>

definition restart_finish :: "Live \<Rightarrow> string \<Rightarrow> rDataManager \<Rightarrow> UDINT \<times> rDataManager" where
  "restart_finish status filename m =
     (if status \<in> {LIVE_STARTING, LIVE_RUNNING, LIVE_HALT, LIVE_DUMP_TOTALS, LIVE_DUMP_VARS} then (0, m\<lparr>dm_finish := True\<rparr>)
      else if status = LIVE_REBOOT_COLD then
        (0, (if filename \<noteq> [] then os_do (simpleFileSave FILE_CONF filename) m else m)\<lparr>dm_finish := True\<rparr>)
      else (2, m\<lparr>dm_finish := True\<rparr>))"

definition Restart :: "USINT \<Rightarrow> string \<Rightarrow> rDataManager \<Rightarrow> UDINT \<times> rDataManager" where
  "Restart r filename m =
     (if r = RESTART_WARM then restart_finish (dm_live m) filename (addEvent EID_SYSTEM_RESTART_WARM m)
      else if r = RESTART_COLD then
        restart_finish (dm_live m) filename (addEvent EID_SYSTEM_RESTART_COLD (os_do (simpleFileSave FILE_RESTART ''cold'') m))
      else if r = RESTART_DEBUG then restart_finish (dm_live m) filename (os_do (simpleFileSave FILE_RESTART ''debug'') m)
      else (1, addEventUDINT EID_SYSTEM_RESTART_UNKNOW (ucast r) m))"

section \<open>The files of the dumps\<close>

definition checkFile :: "xml_lib \<Rightarrow> string \<Rightarrow> string \<Rightarrow> files \<Rightarrow> rDumpFile \<Rightarrow> rDumpFile \<times> (UDINT \<times> UDINT list) list" where
  "checkFile xl filename h fs df = (case xmlDumpFile xl fs filename (df_doc df) of (r, doc, strhash) \<Rightarrow>
     let df = df\<lparr>df_filename := filename\<rparr> in
     if r = FILE_RESULT_NOTFOUND then (df\<lparr>df_result := r, df_doc := None\<rparr>, [])
     else if r \<noteq> TRITONN_RESULT_OK then (df\<lparr>df_result := r, df_doc := None\<rparr>, [(EID_SYSTEM_DUMPERROR, [HALT_DUMP OR r])])
     else if strhash \<noteq> h then (df\<lparr>df_result := XMLFILE_RESULT_NOTEQUAL, df_doc := doc\<rparr>, [])
     else (df\<lparr>df_result := TRITONN_RESULT_OK, df_doc := doc\<rparr>, []))"

definition check_totals :: "dump_lib \<Rightarrow> rDataManager \<Rightarrow> rDataManager" where
  "check_totals lib m = (case checkFile (dl_xml lib) FILE_DUMP_TOTALS (dm_hash m) (dm_os m) (dm_dumpTotals m) of (df, evs) \<Rightarrow>
     m\<lparr>dm_dumpTotals := df, dm_events := dm_events m @ evs\<rparr>)"

definition check_vars :: "dump_lib \<Rightarrow> rDataManager \<Rightarrow> rDataManager" where
  "check_vars lib m = (case checkFile (dl_xml lib) FILE_DUMP_VARIABLES (dm_hash m) (dm_os m) (dm_dumpVars m) of (df, evs) \<Rightarrow>
     m\<lparr>dm_dumpVars := df, dm_events := dm_events m @ evs\<rparr>)"

definition vars_text :: "dump_lib \<Rightarrow> rDataManager \<Rightarrow> string" where
  "vars_text lib m = df_prefix (dm_dumpVars m) @ concat (List.map (\<lambda>k. let v = vw_vars (dm_world m) ! k in
     if isDumped v then valueToXml (dl_float lib) (dm_world m) v else []) (dm_vars m)) @ df_suffix (dm_dumpVars m)"

definition totals_text :: "dump_lib \<Rightarrow> rDataManager \<Rightarrow> string" where
  "totals_text lib m = df_prefix (dm_dumpTotals m) @ concat (List.map (\<lambda>(alias, t). case t of None \<Rightarrow> []
     | Some t \<Rightarrow> total_toXml (dl_f15 lib) alias t) (dm_totals m)) @ df_suffix (dm_dumpTotals m)"

definition save_dump :: "string \<Rightarrow> string \<Rightarrow> rDataManager \<Rightarrow> UDINT \<times> rDataManager" where
  "save_dump filename t m = (case simpleFileSave filename t (dm_os m) of (r, fs) \<Rightarrow> let m = m\<lparr>dm_os := fs\<rparr> in
     (r, if r \<noteq> TRITONN_RESULT_OK then DoHalt HALT_DUMP r (addEventUDINT EID_SYSTEM_DUMPERROR (HALT_DUMP OR r) m) else m))"

definition saveDataVariables :: "dump_lib \<Rightarrow> rDataManager \<Rightarrow> UDINT \<times> rDataManager" where
  "saveDataVariables lib m = save_dump FILE_DUMP_VARIABLES (vars_text lib m) (m\<lparr>dm_world := (dm_world m)\<lparr>vw_save := False\<rparr>\<rparr>)"

definition saveDataTotals :: "dump_lib \<Rightarrow> rDataManager \<Rightarrow> UDINT \<times> rDataManager" where
  "saveDataTotals lib m = save_dump FILE_DUMP_TOTALS (totals_text lib m) m"

text \<open>What the scan saves at its end; \<open>timer\<close> says whether the second for the totals is over.\<close>

definition scan_saves :: "dump_lib \<Rightarrow> bool \<Rightarrow> rDataManager \<Rightarrow> rDataManager" where
  "scan_saves lib timer m = (if dm_live m = LIVE_RUNNING then
     let m1 = (if vw_save (dm_world m) then snd (saveDataVariables lib m) else m) in if timer then snd (saveDataTotals lib m1) else m1
   else m)"

section \<open>Loading\<close>

fun load_vars :: "platform \<Rightarrow> xelem \<Rightarrow> varlist \<Rightarrow> varworld \<Rightarrow> varworld option" where
  "load_vars pf rt [] w = Some w"
| "load_vars pf rt (k # ks) w = (if isDumped (vw_vars w ! k)
     then case valueFromXml pf (Some rt) k w of None \<Rightarrow> None | Some w1 \<Rightarrow> load_vars pf rt ks w1
     else load_vars pf rt ks w)"

definition loadDataVariables :: "dump_lib \<Rightarrow> rDataManager \<Rightarrow> rDataManager option" where
  "loadDataVariables lib m = (case df_doc (dm_dumpVars m) of None \<Rightarrow> Some m
     | Some rt \<Rightarrow> case load_vars (dl_pf lib) rt (dm_vars m) (dm_world m) of None \<Rightarrow> None
         | Some w \<Rightarrow> Some (m\<lparr>dm_world := w, dm_dumpVars := (dm_dumpVars m)\<lparr>df_doc := None\<rparr>\<rparr>))"

definition loadDataTotals :: "dump_lib \<Rightarrow> rDataManager \<Rightarrow> rDataManager" where
  "loadDataTotals lib m = (case df_doc (dm_dumpTotals m) of None \<Rightarrow> m
     | Some rt \<Rightarrow> m\<lparr>dm_totals := List.map (\<lambda>(alias, t). (alias, map_option (\<lambda>t. snd (total_xml (dl_xml lib) rt alias t)) t)) (dm_totals m),
         dm_dumpTotals := (dm_dumpTotals m)\<lparr>df_doc := None\<rparr>\<rparr>)"

definition dump_prefix :: "string \<Rightarrow> string \<Rightarrow> string" where
  "dump_prefix name h = ''<'' @ name @ '' hash='' @ [CHR 0x22] @ h @ [CHR 0x22] @ ''>''"

definition set_prefixes :: "rDataManager \<Rightarrow> rDataManager" where
  "set_prefixes m = m\<lparr>dm_dumpVars := (dm_dumpVars m)\<lparr>df_prefix := dump_prefix ''variables'' (dm_hash m), df_suffix := ''</variables>''\<rparr>,
     dm_dumpTotals := (dm_dumpTotals m)\<lparr>df_prefix := dump_prefix ''totals'' (dm_hash m), df_suffix := ''</totals>''\<rparr>\<rparr>"

text \<open>A dump that cannot be read is deleted and ends the program's work.\<close>

definition bad_dump :: "UDINT \<Rightarrow> rDumpFile \<Rightarrow> rDataManager \<Rightarrow> rDataManager" where
  "bad_dump hr df m = DoHalt hr (df_result df) (addEventUDINT EID_SYSTEM_DUMPERROR (HALT_DUMP OR df_result df)
     (os_do (simpleFileDelete (df_filename df)) m))"

text \<open>\<open>None\<close> is an exception, which ends the process.\<close>

definition loadDumps :: "dump_lib \<Rightarrow> rDataManager \<Rightarrow> rDataManager option" where
  "loadDumps lib m0 = (let m = set_prefixes m0 in if dm_live m \<noteq> LIVE_STARTING then Some m
     else let m1 = check_totals lib m; r1 = df_result (dm_dumpTotals m1) in
       if r1 = XMLFILE_RESULT_NOTEQUAL then Some (setLiveStatus LIVE_DUMP_TOTALS m1)
       else if r1 \<noteq> TRITONN_RESULT_OK \<and> r1 \<noteq> FILE_RESULT_NOTFOUND then Some (bad_dump HALT_CONFIGFILE (dm_dumpTotals m1) m1)
       else let m2 = check_vars lib m1; r2 = df_result (dm_dumpVars m2) in
         if r2 = XMLFILE_RESULT_NOTEQUAL then Some (setLiveStatus LIVE_DUMP_VARS m2)
         else if r2 \<noteq> TRITONN_RESULT_OK \<and> r2 \<noteq> FILE_RESULT_NOTFOUND then Some (bad_dump HALT_DUMP (dm_dumpVars m2) m2)
         else map_option (setLiveStatus LIVE_RUNNING) (loadDataVariables lib (loadDataTotals lib m2)))"

definition forceLoadDumpVars :: "dump_lib \<Rightarrow> bool \<Rightarrow> rDataManager \<Rightarrow> rDataManager option" where
  "forceLoadDumpVars lib forceload m = (if dm_live m \<noteq> LIVE_DUMP_VARS then Some m
     else map_option (setLiveStatus LIVE_RUNNING) (if forceload then loadDataVariables lib m
       else Some (os_do (simpleFileDelete (df_filename (dm_dumpVars m))) m)))"

definition forceLoadDumpTotals :: "dump_lib \<Rightarrow> bool \<Rightarrow> rDataManager \<Rightarrow> rDataManager" where
  "forceLoadDumpTotals lib forceload m = (if dm_live m \<noteq> LIVE_DUMP_TOTALS then m
     else let m1 = (if forceload then loadDataTotals lib m else os_do (simpleFileDelete (df_filename (dm_dumpTotals m))) m);
              r = df_result (dm_dumpVars m1)
          in if r = TRITONN_RESULT_OK \<or> r = XMLFILE_RESULT_NOTEQUAL then setLiveStatus LIVE_DUMP_VARS m1 else setLiveStatus LIVE_STARTING m1)"

datatype json_answer = J_SUCCESS | J_ERROR UDINT

definition JSONERR_BADPARAM :: UDINT where "JSONERR_BADPARAM = 100"
definition JSONERR_NOTLOADDUMP :: UDINT where "JSONERR_NOTLOADDUMP = 109"

definition packetLoadDump :: "dump_lib \<Rightarrow> int option \<Rightarrow> rDataManager \<Rightarrow> (json_answer \<times> rDataManager) option" where
  "packetLoadDump lib jload m = (case jload of None \<Rightarrow> Some (J_ERROR JSONERR_BADPARAM, m)
     | Some isload \<Rightarrow>
         if dm_live m = LIVE_DUMP_TOTALS then Some (J_SUCCESS, forceLoadDumpTotals lib (isload \<noteq> 0) m)
         else if dm_live m = LIVE_DUMP_VARS then map_option (Pair J_SUCCESS) (forceLoadDumpVars lib (isload \<noteq> 0) m)
         else Some (J_ERROR JSONERR_NOTLOADDUMP, m))"

section \<open>The start\<close>

text \<open>
  \<^verbatim>\<open>LoadConfig\<close>: \<open>configure\<close> reads the configuration and makes the objects, interfaces and variables that
  the start needs; it gives the error of the file with its line, and that of the variables. The switches are those of the
  command line.
\<close>

record start_args =
  sa_force :: bool
  sa_config :: "string option"
  sa_nodump :: bool

definition getConfFile :: "start_args \<Rightarrow> rDataManager \<Rightarrow> UDINT \<times> string \<times> rDataManager" where
  "getConfFile sa m = (let m1 = (if sa_force sa then m else case simpleFileLoad (dm_os m) FILE_RESTART of Inl _ \<Rightarrow> m
         | Inr t \<Rightarrow> if t = ''cold'' \<or> t = ''debug'' then setLiveStatus LIVE_REBOOT_COLD m else m);
       m2 = os_do (simpleFileDelete FILE_RESTART) m1
     in case sa_config sa of Some c \<Rightarrow> (TRITONN_RESULT_OK, c, m2)
        | None \<Rightarrow> case simpleFileLoad (dm_os m2) FILE_CONF of
            Inl r \<Rightarrow> (r, [], DoHalt HALT_CONFIGFILE r (addEventUDINT EID_SYSTEM_CFGERROR (HALT_CONFIGFILE OR r) m2))
          | Inr c \<Rightarrow> (TRITONN_RESULT_OK, c, m2))"

definition CreateHaltEvent :: "UDINT \<Rightarrow> UDINT \<Rightarrow> rDataManager \<Rightarrow> rDataManager" where
  "CreateHaltEvent err lineno m = DoHalt HALT_CONFIGFILE err (m\<lparr>dm_events := dm_events m @ [(EID_SYSTEM_CFGERROR, [HALT_CONFIGFILE OR err, lineno])]\<rparr>)"

definition hash_cfg :: string where "hash_cfg = ''00112233445566778899aabbccddeeff00112233''"

definition LoadConfig :: "dump_lib \<Rightarrow> start_args \<Rightarrow> (string \<Rightarrow> rDataManager \<Rightarrow> UDINT \<times> UDINT \<times> rDataManager) \<Rightarrow> (rDataManager \<Rightarrow> UDINT \<times> rDataManager)
    \<Rightarrow> rDataManager \<Rightarrow> UDINT \<times> rDataManager option" where
  "LoadConfig lib sa load_file make_vars m0 = (case getConfFile sa (setLiveStatus LIVE_STARTING m0) of (r, conf, m) \<Rightarrow>
     if r \<noteq> TRITONN_RESULT_OK then (r, Some m)
     else case (if dm_live m = LIVE_STARTING then load_file conf m else (TRITONN_RESULT_OK, 0, m)) of (e, lineno, m1) \<Rightarrow>
       if e \<noteq> TRITONN_RESULT_OK then (e, Some (CreateHaltEvent e lineno m1))
       else case make_vars m1 of (e2, m2) \<Rightarrow>
         if e2 \<noteq> TRITONN_RESULT_OK then (e2, Some m2)
         else if dm_live m2 \<noteq> LIVE_STARTING then (e2, Some m2)
         else let m3 = m2\<lparr>dm_hash := hash_cfg\<rparr> in
           (e2, if sa_nodump sa then Some (setLiveStatus LIVE_RUNNING m3) else loadDumps lib m3))"

section \<open>What the dumps hold\<close>

definition leaf :: "string \<Rightarrow> string \<Rightarrow> xelem" where "leaf name t = XElem name [] (Some t) []"

definition base_elem :: "(lreal \<Rightarrow> string) \<Rightarrow> string \<Rightarrow> rBaseTotal \<Rightarrow> xelem" where
  "base_elem f15 name b = XElem name [] None [leaf ''mass'' (f15 (Mass b)), leaf ''volume'' (f15 (Volume b)), leaf ''volume15'' (f15 (Volume15 b)),
     leaf ''volume20'' (f15 (Volume20 b)), leaf ''count'' (dec (unat (m_count b)))]"

definition total_elem :: "(lreal \<Rightarrow> string) \<Rightarrow> string \<Rightarrow> rTotal \<Rightarrow> xelem" where
  "total_elem f15 alias t = XElem alias [] None [base_elem f15 ''past'' (m_past t), base_elem f15 ''raw'' (m_raw t),
     base_elem f15 ''inc'' (m_inc t), base_elem f15 ''present'' (m_present t)]"

definition dumped_vars :: "rDataManager \<Rightarrow> varlist" where
  "dumped_vars m = List.filter (\<lambda>k. isDumped (vw_vars (dm_world m) ! k)) (dm_vars m)"

definition some_totals :: "(string \<times> rTotal option) list \<Rightarrow> (string \<times> rTotal) list" where
  "some_totals ts = concat (List.map (\<lambda>(alias, t). case t of None \<Rightarrow> [] | Some t \<Rightarrow> [(alias, t)]) ts)"

definition vars_doc :: "dump_lib \<Rightarrow> rDataManager \<Rightarrow> xelem" where
  "vars_doc lib m = XElem ''variables'' [(''hash'', dm_hash m)] None (List.map (\<lambda>k. let v = vw_vars (dm_world m) ! k in
     leaf (v_name v) (valueToString (dl_float lib) (dm_world m) v)) (dumped_vars m))"

definition totals_doc :: "dump_lib \<Rightarrow> rDataManager \<Rightarrow> xelem" where
  "totals_doc lib m = XElem ''totals'' [(''hash'', dm_hash m)] None (List.map (\<lambda>(alias, t). total_elem (dl_f15 lib) alias t) (some_totals (dm_totals m)))"

text \<open>What the program writes is the text of these trees, element for element.\<close>

lemma leaf_text: "xml_text (leaf name t) = tag name t"
  by (simp add: leaf_def tag_def)

lemma base_text: "xml_text (base_elem f15 name b) = toXmlBase f15 name b"
  by (simp add: base_elem_def toXmlBase_def leaf_text) (simp add: tag_def)

lemma total_text: "xml_text (total_elem f15 alias t) = total_toXml f15 alias t"
  by (simp add: total_elem_def total_toXml_def base_text) (simp add: tag_def)

lemma some_totals_text:
  "concat (List.map (\<lambda>(alias, t). case t of None \<Rightarrow> [] | Some t \<Rightarrow> total_toXml f15 alias t) ts)
   = concat (List.map xml_text (List.map (\<lambda>(alias, t). total_elem f15 alias t) (some_totals ts)))"
proof (induction ts)
  case (Cons x ts)
  obtain a t where x: "x = (a, t)" by (cases x)
  have s: "some_totals (x # ts) = (case t of None \<Rightarrow> [] | Some t \<Rightarrow> [(a, t)]) @ some_totals ts" by (simp add: some_totals_def x)
  show ?case unfolding s using Cons.IH by (cases t) (simp_all add: x total_text)
qed (simp add: some_totals_def)

lemma prefix_of: "set_prefixes m = m \<Longrightarrow> df_prefix (dm_dumpVars m) = dump_prefix ''variables'' (dm_hash m) \<and> df_suffix (dm_dumpVars m) = ''</variables>''
    \<and> df_prefix (dm_dumpTotals m) = dump_prefix ''totals'' (dm_hash m) \<and> df_suffix (dm_dumpTotals m) = ''</totals>''"
  by (drule sym) (erule ssubst, simp add: set_prefixes_def)

lemma totals_text_doc: "set_prefixes m = m \<Longrightarrow> totals_text lib m = xml_text (totals_doc lib m)"
  using prefix_of [of m] by (simp add: totals_text_def totals_doc_def some_totals_text dump_prefix_def attr_text_def quote_def)

lemma dumped_text:
  "concat (List.map (\<lambda>k. let v = vw_vars w ! k in if isDumped v then valueToXml fl w v else []) ks)
   = concat (List.map xml_text (List.map (\<lambda>k. let v = vw_vars w ! k in leaf (v_name v) (valueToString fl w v))
       (List.filter (\<lambda>k. isDumped (vw_vars w ! k)) ks)))"
  by (induction ks) (simp_all add: Let_def leaf_text valueToXml_def tag_def)

lemma vars_text_doc: "set_prefixes m = m \<Longrightarrow> vars_text lib m = xml_text (vars_doc lib m)"
  using prefix_of [of m] by (simp add: vars_text_def vars_doc_def dumped_text dumped_vars_def dump_prefix_def attr_text_def quote_def)

text \<open>
  The promises of the libraries: numbers have their 32 bits, plain files and the decimal texts of integers are read. And what
  is read of a printed floating number: some number, by 15 digits behind the point the one nearby.
\<close>

definition library_reads :: "dump_lib \<Rightarrow> bool" where
  "library_reads lib \<longleftrightarrow> 32 \<le> pf_long (dl_pf lib) \<and> reads_plain (dl_xml lib) \<and> (\<forall>n. xl_int (dl_xml lib) (dec (unat n)) = Some n)"

definition reread_number :: "dump_lib \<Rightarrow> lreal \<Rightarrow> lreal" where
  "reread_number lib v = the (xl_double (dl_xml lib) (dl_f15 lib v))"

definition number_prints :: "dump_lib \<Rightarrow> lreal \<Rightarrow> bool" where
  "number_prints lib v \<longleftrightarrow> plain_string (dl_f15 lib v) \<and> xl_double (dl_xml lib) (dl_f15 lib v) \<noteq> None"

definition reread_base :: "dump_lib \<Rightarrow> rBaseTotal \<Rightarrow> rBaseTotal" where
  "reread_base lib b = \<lparr>Mass = reread_number lib (Mass b), Volume = reread_number lib (Volume b), Volume15 = reread_number lib (Volume15 b),
     Volume20 = reread_number lib (Volume20 b), m_count = m_count b\<rparr>"

definition base_prints :: "dump_lib \<Rightarrow> rBaseTotal \<Rightarrow> bool" where
  "base_prints lib b \<longleftrightarrow> (\<forall>v \<in> {Mass b, Volume b, Volume15 b, Volume20 b}. number_prints lib v)"

definition total_prints :: "dump_lib \<Rightarrow> rTotal \<Rightarrow> bool" where
  "total_prints lib t \<longleftrightarrow> base_prints lib (m_past t) \<and> base_prints lib (m_raw t) \<and> base_prints lib (m_inc t) \<and> base_prints lib (m_present t)"

definition total_reread :: "dump_lib \<Rightarrow> rTotal \<Rightarrow> rTotal \<Rightarrow> bool" where
  "total_reread lib t t' \<longleftrightarrow> m_past t' = reread_base lib (m_past t) \<and> m_raw t' = reread_base lib (m_raw t)
     \<and> m_inc t' = reread_base lib (m_inc t) \<and> m_present t' = reread_base lib (m_present t)"

lemma find_named:
  "x \<in> set xs \<Longrightarrow> distinct (List.map g xs) \<Longrightarrow> (\<And>y. x_name (f y) = g y) \<Longrightarrow> find (\<lambda>c. x_name c = g x) (List.map f xs) = Some (f x)"
  by (induction xs) auto

lemma read_base_elem:
  "library_reads lib \<Longrightarrow> base_prints lib b \<Longrightarrow> read_base (dl_xml lib) (Some (base_elem (dl_f15 lib) name b)) = Some (reread_base lib b)"
  by (auto simp: read_base_def base_elem_def x_child_def leaf_def getTextLREAL_def getTextUDINT_def base_prints_def number_prints_def
      library_reads_def reread_base_def reread_number_def)

lemma base_elem_name [simp]: "x_name (base_elem f name b) = name"
  by (simp add: base_elem_def)

lemma total_xml_elem:
  assumes "x_child rt alias = Some (total_elem (dl_f15 lib) alias t)" "library_reads lib" "total_prints lib t"
  shows "total_reread lib t (snd (total_xml (dl_xml lib) rt alias t0))"
  using assms by (simp add: total_xml_def total_fromXml_def total_fromXmlBase_def total_elem_def x_child_def total_prints_def
      read_base_elem total_reread_def)

lemma load_totals_doc:
  assumes "distinct (List.map fst (some_totals (dm_totals m)))" "\<And>a t. (a, t) \<in> set (some_totals (dm_totals m)) \<Longrightarrow> total_prints lib t"
    "(alias, Some t) \<in> set (dm_totals m)" "library_reads lib"
  shows "total_reread lib t (snd (total_xml (dl_xml lib) (totals_doc lib m) alias t0))"
proof (rule total_xml_elem)
  have i: "(alias, t) \<in> set (some_totals (dm_totals m))" using assms(3) by (force simp: some_totals_def)
  have "find (\<lambda>c. x_name c = fst (alias, t)) (List.map (\<lambda>(alias, t). total_elem (dl_f15 lib) alias t) (some_totals (dm_totals m)))
      = Some ((\<lambda>(alias, t). total_elem (dl_f15 lib) alias t) (alias, t))"
    by (rule find_named [OF i assms(1)]) (simp add: total_elem_def case_prod_beta)
  then show "x_child (totals_doc lib m) alias = Some (total_elem (dl_f15 lib) alias t)"
    by (simp add: x_child_def totals_doc_def)
  show "total_prints lib t" using assms(2) [OF i] .
qed (rule assms(4))

text \<open>Saved variables do not overlap, except that two names may stand for one.\<close>

definition apart :: "rVariable \<Rightarrow> rVariable \<Rightarrow> bool" where
  "apart v u \<longleftrightarrow> var_region v \<inter> var_region u = {} \<or> v_pointer v = v_pointer u \<and> v_type v = v_type u"

lemma reread_bytes_alias:
  "v_pointer v = v_pointer u \<Longrightarrow> v_type v = v_type u \<Longrightarrow> \<not> isExternal v \<Longrightarrow> \<not> isExternal u \<Longrightarrow> reread_bytes pf fl w v = reread_bytes pf fl w u"
  by (simp add: reread_bytes_def value_bytes_def v_size_def)

text \<open>Every loaded variable gets the bytes of its text, and nothing else is touched.\<close>

lemma load_vars_doc:
  assumes "32 \<le> pf_long pf"
    "\<And>k. k \<in> set ks \<Longrightarrow> isDumped (vw_vars w ! k) \<Longrightarrow>
       x_child rt (v_name (vw_vars w ! k)) = Some (leaf (v_name (vw_vars w ! k)) (valueToString fl w (vw_vars w ! k))) \<and> saved_well pf fl w (vw_vars w ! k)"
    "\<And>k j. k \<in> set ks \<Longrightarrow> j \<in> set ks \<Longrightarrow> isDumped (vw_vars w ! k) \<Longrightarrow> isDumped (vw_vars w ! j) \<Longrightarrow> apart (vw_vars w ! k) (vw_vars w ! j)"
    "vw_vars w' = vw_vars w"
  shows "\<exists>w2. load_vars pf rt ks w' = Some w2 \<and> vw_vars w2 = vw_vars w
    \<and> (\<forall>k\<in>set ks. isDumped (vw_vars w ! k) \<longrightarrow> mem_read (vw_mem w2) (v_pointer (vw_vars w ! k)) (v_size (vw_vars w ! k)) = reread_bytes pf fl w (vw_vars w ! k))
    \<and> (\<forall>a. (\<forall>k\<in>set ks. isDumped (vw_vars w ! k) \<longrightarrow> a \<notin> var_region (vw_vars w ! k)) \<longrightarrow> vw_mem w2 a = vw_mem w' a)"
  using assms(2,3,4)
proof (induction ks arbitrary: w')
  case (Cons k ks)
  let ?v = "vw_vars w ! k"
  note c = Cons.prems(1) [OF list.set_intros(2)] and d = Cons.prems(2) [OF list.set_intros(2) list.set_intros(2)]
  show ?case
  proof (cases "isDumped ?v")
    case False
    then show ?thesis using Cons.IH [OF c d Cons.prems(3)] Cons.prems(3) by simp
  next
    case True
    then have s: "saved_well pf fl w ?v" "x_child rt (v_name ?v) = Some (leaf (v_name ?v) (valueToString fl w ?v))" using Cons.prems(1) by simp_all
    let ?w1 = "w'\<lparr>vw_mem := mem_write (v_pointer ?v) (reread_bytes pf fl w ?v) (vw_mem w')\<rparr>"
    have "stringToValue pf k (valueToString fl w ?v) w' = Some ?w1"
      using text_restored [OF assms(1), of fl w w' k] s(1) Cons.prems(3) by simp
    then have l: "valueFromXml pf (Some rt) k w' = Some ?w1"
      using s(2) Cons.prems(3) by (simp add: valueFromXml_def leaf_def getTextString_def)
    note len = reread_bytes_length [OF s(1)]
    have m: "vw_mem ?w1 a = vw_mem w' a" if "a \<notin> var_region ?v" for a using that by (auto simp: mem_write_def var_region_def len)
    obtain w2 where i: "load_vars pf rt ks ?w1 = Some w2" "vw_vars w2 = vw_vars w"
      "\<And>j. j \<in> set ks \<Longrightarrow> isDumped (vw_vars w ! j) \<Longrightarrow> mem_read (vw_mem w2) (v_pointer (vw_vars w ! j)) (v_size (vw_vars w ! j)) = reread_bytes pf fl w (vw_vars w ! j)"
      "\<And>a. (\<forall>j\<in>set ks. isDumped (vw_vars w ! j) \<longrightarrow> a \<notin> var_region (vw_vars w ! j)) \<Longrightarrow> vw_mem w2 a = vw_mem ?w1 a"
      using Cons.IH [OF c d, of ?w1] Cons.prems(3) by auto
    have "mem_read (vw_mem w2) (v_pointer ?v) (v_size ?v) = reread_bytes pf fl w ?v"
    proof (cases "\<exists>j\<in>set ks. isDumped (vw_vars w ! j) \<and> v_pointer (vw_vars w ! j) = v_pointer ?v \<and> v_type (vw_vars w ! j) = v_type ?v")
      case True
      then obtain j where j: "j \<in> set ks" "isDumped (vw_vars w ! j)" "v_pointer (vw_vars w ! j) = v_pointer ?v" "v_type (vw_vars w ! j) = v_type ?v" by blast
      have "\<not> isExternal (vw_vars w ! j)" "\<not> isExternal ?v" using c [OF j(1,2)] s(1) by (simp_all add: saved_well_def)
      then show ?thesis using i(3) [OF j(1,2)] reread_bytes_alias [OF j(3,4)] j(3,4) by (simp add: v_size_def)
    next
      case False
      have "a \<notin> var_region (vw_vars w ! j)" if "a \<in> var_region ?v" "j \<in> set ks" "isDumped (vw_vars w ! j)" for a j
        using Cons.prems(2) [of k j] \<open>isDumped ?v\<close> False that by (auto simp: apart_def)
      then have "vw_mem w2 a = vw_mem ?w1 a" if "a \<in> var_region ?v" for a using i(4) that by blast
      then have "mem_read (vw_mem w2) (v_pointer ?v) (v_size ?v) = mem_read (vw_mem ?w1) (v_pointer ?v) (v_size ?v)"
        by (intro mem_read_cong) (simp add: var_region_def)
      also have "\<dots> = reread_bytes pf fl w ?v" using mem_read_write [of "v_pointer ?v" "reread_bytes pf fl w ?v"] by (simp add: len)
      finally show ?thesis .
    qed
    moreover have "load_vars pf rt (k # ks) w' = Some w2" using True l i(1) Cons.prems(3) by simp
    ultimately show ?thesis using i m True by (intro exI [of _ w2]) auto
  qed
qed simp

section \<open>After a restart\<close>

text \<open>
  A state that can be saved: the prefixes of the dumps are set, as the start does; the files can be written; names and the
  hash are plain; each name is there once; the floating numbers print as plain texts that can be read.
\<close>

definition dumpable :: "dump_lib \<Rightarrow> rDataManager \<Rightarrow> bool" where
  "dumpable lib m \<longleftrightarrow> set_prefixes m = m \<and> length (dm_hash m) = MAX_STRHASH_SIZE \<and> plain_string (dm_hash m)
     \<and> writable (dm_os m) FILE_DUMP_VARIABLES (length (vars_text lib m)) \<and> writable (dm_os m) FILE_DUMP_TOTALS (length (totals_text lib m))
     \<and> distinct (List.map (\<lambda>k. v_name (vw_vars (dm_world m) ! k)) (dumped_vars m)) \<and> distinct (List.map fst (some_totals (dm_totals m)))
     \<and> (\<forall>k \<in> set (dumped_vars m). xml_name (v_name (vw_vars (dm_world m) ! k)) \<and> saved_well (dl_pf lib) (dl_float lib) (dm_world m) (vw_vars (dm_world m) ! k))
     \<and> (\<forall>k \<in> set (dumped_vars m). \<forall>j \<in> set (dumped_vars m). apart (vw_vars (dm_world m) ! k) (vw_vars (dm_world m) ! j))
     \<and> (\<forall>(a, t) \<in> set (some_totals (dm_totals m)). xml_name a \<and> total_prints lib t)"

definition saved :: "dump_lib \<Rightarrow> rDataManager \<Rightarrow> rDataManager" where
  "saved lib m = snd (saveDataTotals lib (snd (saveDataVariables lib m)))"

text \<open>A new process with the same configuration on the same files.\<close>

definition restarted :: "rDataManager \<Rightarrow> rDataManager \<Rightarrow> bool" where
  "restarted m m' \<longleftrightarrow> dm_live m' = LIVE_STARTING \<and> dm_os m' = dm_os m \<and> dm_hash m' = dm_hash m \<and> dm_vars m' = dm_vars m
     \<and> vw_vars (dm_world m') = vw_vars (dm_world m)
     \<and> list_all2 (\<lambda>(a, t) (a', t'). a = a' \<and> (t = None \<longleftrightarrow> t' = None)) (dm_totals m') (dm_totals m)"

text \<open>The trees of a state that can be saved are plain.\<close>

lemma plain_tags: "xml_name ''variables'' \<and> xml_name ''totals'' \<and> xml_name ''hash'' \<and> xml_name ''mass'' \<and> xml_name ''volume''
    \<and> xml_name ''volume15'' \<and> xml_name ''volume20'' \<and> xml_name ''count'' \<and> xml_name ''past'' \<and> xml_name ''raw'' \<and> xml_name ''inc''
    \<and> xml_name ''present''"
  by (simp add: xml_name_def name_char_def is_letter_def Let_def)

lemma base_elem_plain: "xml_name name \<Longrightarrow> base_prints lib b \<Longrightarrow> plain_xml (Suc (Suc 0)) (base_elem (dl_f15 lib) name b)"
  using plain_tags by (simp add: base_elem_def leaf_def base_prints_def number_prints_def dec_plain)

lemma docs_plain:
  assumes "dumpable lib m"
  shows "plain_xml XML_DEPTH (vars_doc lib m)" "plain_xml XML_DEPTH (totals_doc lib m)"
proof -
  note R = assms [unfolded dumpable_def]
  have "plain_xml (Suc (Suc 0)) (vars_doc lib m)"
    using R plain_tags text_plain by (auto simp: vars_doc_def leaf_def list_all_iff Let_def)
  then show "plain_xml XML_DEPTH (vars_doc lib m)" by (rule plain_xml_mono) (simp add: XML_DEPTH_def)
  have "plain_xml (Suc (Suc (Suc 0))) (total_elem (dl_f15 lib) a t)" if "(a, t) \<in> set (some_totals (dm_totals m))" for a t
  proof -
    have "xml_name a" "total_prints lib t" using R that by auto
    then show ?thesis unfolding total_elem_def total_prints_def using base_elem_plain plain_tags by (intro plain_node) auto
  qed
  then have "plain_xml (Suc (Suc (Suc (Suc 0)))) (totals_doc lib m)"
    unfolding totals_doc_def using R plain_tags by (intro plain_node) auto
  then show "plain_xml XML_DEPTH (totals_doc lib m)" by (rule plain_xml_mono) (simp add: XML_DEPTH_def)
qed

lemma doc_not_empty: "xml_text e \<noteq> []"
  by (cases e) simp

lemma files_differ: "FILE_DUMP_VARIABLES \<noteq> FILE_DUMP_TOTALS" "FILE_DUMP_TOTALS \<noteq> FILE_DUMP_VARIABLES"
  by (simp_all add: FILE_DUMP_VARIABLES_def FILE_DUMP_TOTALS_def)

lemma save_dump_ok: "writable (dm_os m) name (length t) \<Longrightarrow>
    save_dump name t m = (TRITONN_RESULT_OK, m\<lparr>dm_os := (dm_os m)\<lparr>fs_text := (fs_text (dm_os m))(name := Some t)\<rparr>\<rparr>)"
  by (simp add: save_dump_def save_writable Let_def)

lemma writable_text: "writable (fs\<lparr>fs_text := (fs_text fs)(name' := Some t)\<rparr>) name n = (if name' = name then fs_fault fs F_WRITE name = None
    \<and> fs_fault fs F_READ name = None \<and> fs_room fs name \<ge> n \<and> \<not> fs_short fs name else writable fs name n)"
  by (simp add: writable_def fs_exists_def)

lemma saved_eq:
  assumes "dumpable lib m"
  shows "saved lib m = m\<lparr>dm_world := (dm_world m)\<lparr>vw_save := False\<rparr>, dm_os := (dm_os m)\<lparr>fs_text :=
    (fs_text (dm_os m))(FILE_DUMP_VARIABLES := Some (vars_text lib m), FILE_DUMP_TOTALS := Some (totals_text lib m))\<rparr>\<rparr>"
proof -
  let ?m = "m\<lparr>dm_world := (dm_world m)\<lparr>vw_save := False\<rparr>\<rparr>"
  let ?m1 = "?m\<lparr>dm_os := (dm_os m)\<lparr>fs_text := (fs_text (dm_os m))(FILE_DUMP_VARIABLES := Some (vars_text lib m))\<rparr>\<rparr>"
  have 1: "saveDataVariables lib m = (TRITONN_RESULT_OK, ?m1)"
    using save_dump_ok [of ?m FILE_DUMP_VARIABLES "vars_text lib m"] assms by (simp add: saveDataVariables_def dumpable_def)
  have t: "totals_text lib ?m1 = totals_text lib m" by (simp add: totals_text_def)
  have "writable (dm_os ?m1) FILE_DUMP_TOTALS (length (totals_text lib m))"
    using assms by (simp add: dumpable_def writable_text files_differ)
  from save_dump_ok [OF this] have "saveDataTotals lib ?m1 = (TRITONN_RESULT_OK,
      ?m1\<lparr>dm_os := (dm_os ?m1)\<lparr>fs_text := (fs_text (dm_os ?m1))(FILE_DUMP_TOTALS := Some (totals_text lib m))\<rparr>\<rparr>)"
    unfolding saveDataTotals_def t .
  then show ?thesis unfolding saved_def 1 snd_conv by simp
qed

lemma check_saved:
  assumes "fs_text fs name = Some t" "writable fs0 name n" "fs_fault fs = fs_fault fs0" "fs_short fs = fs_short fs0"
    "t \<noteq> []" "CHR 0x00 \<notin> set t" "xl_parse xl t = Inr d" "x_attrs d = [(''hash'', h)]" "length h = MAX_STRHASH_SIZE"
  shows "checkFile xl name h fs df = (df\<lparr>df_filename := name, df_result := TRITONN_RESULT_OK, df_doc := Some d\<rparr>, [])"
proof -
  have "simpleFileLoad fs name = Inr t" using assms by (intro load_saved) (simp_all add: writable_def)
  then show ?thesis using assms by (simp add: checkFile_def xmlDumpFile_def file_results_ok [symmetric] Let_def)
qed


lemma some_totals_mem: "(a, Some t) \<in> set ts \<Longrightarrow> (a, t) \<in> set (some_totals ts)"
  by (force simp: some_totals_def)

lemma check_saved_doc:
  assumes "library_reads lib" "plain_xml XML_DEPTH d" "x_attrs d = [(''hash'', h)]" "length h = MAX_STRHASH_SIZE"
    "fs_text fs name = Some (xml_text d)" "writable fs0 name n" "fs_fault fs = fs_fault fs0" "fs_short fs = fs_short fs0"
  shows "checkFile (dl_xml lib) name h fs df = (df\<lparr>df_filename := name, df_result := TRITONN_RESULT_OK, df_doc := Some d\<rparr>, [])"
  by (rule check_saved [OF assms(5-8) doc_not_empty xml_text_no_null [OF assms(2)] _ assms(3,4)])
    (use assms(1,2) in \<open>simp add: library_reads_def reads_plain_def\<close>)

lemma check_totals_saved:
  assumes "library_reads lib" "dumpable lib m" "dm_hash m' = dm_hash m" "fs_text (dm_os m') FILE_DUMP_TOTALS = Some (totals_text lib m)"
    "fs_fault (dm_os m') = fs_fault (dm_os m)" "fs_short (dm_os m') = fs_short (dm_os m)"
  shows "checkFile (dl_xml lib) FILE_DUMP_TOTALS (dm_hash m') (dm_os m') df
      = (df\<lparr>df_filename := FILE_DUMP_TOTALS, df_result := TRITONN_RESULT_OK, df_doc := Some (totals_doc lib m)\<rparr>, [])"
proof -
  have w: "writable (dm_os m) FILE_DUMP_TOTALS (length (totals_text lib m))" and h: "length (dm_hash m) = MAX_STRHASH_SIZE" and p: "set_prefixes m = m"
    using assms(2) by (simp_all add: dumpable_def)
  have t: "fs_text (dm_os m') FILE_DUMP_TOTALS = Some (xml_text (totals_doc lib m))" unfolding assms(4) totals_text_doc [OF p] ..
  show ?thesis unfolding assms(3)
    by (rule check_saved_doc [OF assms(1) docs_plain(2) [OF assms(2)] _ h t w assms(5,6)]) (simp add: totals_doc_def)
qed

lemma check_vars_saved:
  assumes "library_reads lib" "dumpable lib m" "dm_hash m' = dm_hash m" "fs_text (dm_os m') FILE_DUMP_VARIABLES = Some (vars_text lib m)"
    "fs_fault (dm_os m') = fs_fault (dm_os m)" "fs_short (dm_os m') = fs_short (dm_os m)"
  shows "checkFile (dl_xml lib) FILE_DUMP_VARIABLES (dm_hash m') (dm_os m') df
      = (df\<lparr>df_filename := FILE_DUMP_VARIABLES, df_result := TRITONN_RESULT_OK, df_doc := Some (vars_doc lib m)\<rparr>, [])"
proof -
  have w: "writable (dm_os m) FILE_DUMP_VARIABLES (length (vars_text lib m))" and h: "length (dm_hash m) = MAX_STRHASH_SIZE" and p: "set_prefixes m = m"
    using assms(2) by (simp_all add: dumpable_def)
  have t: "fs_text (dm_os m') FILE_DUMP_VARIABLES = Some (xml_text (vars_doc lib m))" unfolding assms(4) vars_text_doc [OF p] ..
  show ?thesis unfolding assms(3)
    by (rule check_saved_doc [OF assms(1) docs_plain(1) [OF assms(2)] _ h t w assms(5,6)]) (simp add: vars_doc_def)
qed

lemma load_saved_vars:
  assumes "library_reads lib" "dumpable lib m" "vw_vars w' = vw_vars (dm_world m)"
  shows "\<exists>w2. load_vars (dl_pf lib) (vars_doc lib m) (dm_vars m) w' = Some w2
    \<and> (\<forall>k \<in> set (dumped_vars m). mem_read (vw_mem w2) (v_pointer (vw_vars (dm_world m) ! k)) (v_size (vw_vars (dm_world m) ! k))
         = reread_bytes (dl_pf lib) (dl_float lib) (dm_world m) (vw_vars (dm_world m) ! k))
    \<and> (\<forall>a. (\<forall>k \<in> set (dumped_vars m). a \<notin> var_region (vw_vars (dm_world m) ! k)) \<longrightarrow> vw_mem w2 a = vw_mem w' a)"
proof -
  note R = assms(2) [unfolded dumpable_def]
  let ?v = "\<lambda>k. vw_vars (dm_world m) ! k"
  have in_dumped: "k \<in> set (dumped_vars m)" if "k \<in> set (dm_vars m)" "isDumped (?v k)" for k using that by (simp add: dumped_vars_def)
  have kids: "x_child (vars_doc lib m) (v_name (?v k)) = Some (leaf (v_name (?v k)) (valueToString (dl_float lib) (dm_world m) (?v k)))
      \<and> saved_well (dl_pf lib) (dl_float lib) (dm_world m) (?v k)" if k: "k \<in> set (dm_vars m)" "isDumped (?v k)" for k
    using find_named [OF in_dumped [OF k], where g = "\<lambda>k. v_name (?v k)" and
        f = "\<lambda>k. leaf (v_name (?v k)) (valueToString (dl_float lib) (dm_world m) (?v k))"] R in_dumped [OF k]
    by (simp add: x_child_def vars_doc_def Let_def leaf_def)
  have far: "apart (?v k) (?v j)" if "k \<in> set (dm_vars m)" "j \<in> set (dm_vars m)" "isDumped (?v k)" "isDumped (?v j)" for k j
    using R in_dumped that by blast
  have "32 \<le> pf_long (dl_pf lib)" using assms(1) by (simp add: library_reads_def)
  from load_vars_doc [where ks = "dm_vars m", OF this kids far assms(3)] show ?thesis by (auto simp: dumped_vars_def)
qed

lemma load_saved_totals:
  assumes "library_reads lib" "dumpable lib m" "list_all2 (\<lambda>(a, t) (a', t'). a = a' \<and> (t = None \<longleftrightarrow> t' = None)) ts (dm_totals m)"
  shows "list_all2 (\<lambda>(a', t') (a, t). a' = a \<and> rel_option (\<lambda>t' t. total_reread lib t t') t' t)
    (List.map (\<lambda>(alias, t). (alias, map_option (\<lambda>t. snd (total_xml (dl_xml lib) (totals_doc lib m) alias t)) t)) ts) (dm_totals m)"
  unfolding list_all2_map1 using assms(3)
proof (rule list.rel_mono_strong)
  fix x y :: "string \<times> rTotal option"
  assume xy: "y \<in> set (dm_totals m)" "(case x of (a, t) \<Rightarrow> \<lambda>(a', t'). a = a' \<and> (t = None \<longleftrightarrow> t' = None)) y"
  obtain a t t' where o: "x = (a, t)" "y = (a, t')" "t = None \<longleftrightarrow> t' = None" using xy(2) by (cases x; cases y) auto
  have "total_reread lib u (snd (total_xml (dl_xml lib) (totals_doc lib m) a t0))" if "t' = Some u" for u t0
    by (rule load_totals_doc) (use xy(1) o(2) that assms(1,2) in \<open>auto simp: dumpable_def\<close>)
  then show "(case case x of (alias, t) \<Rightarrow> (alias, map_option (\<lambda>t. snd (total_xml (dl_xml lib) (totals_doc lib m) alias t)) t) of
      (a', t') \<Rightarrow> \<lambda>(a, t). a' = a \<and> rel_option (\<lambda>t' t. total_reread lib t t') t' t) y"
    using o by (cases t; cases t') auto
qed


definition ex_base :: rBaseTotal where "ex_base = \<lparr>Mass = Fin 1, Volume = Fin 1, Volume15 = Fin 1, Volume20 = Fin 1, m_count = 0\<rparr>"

definition ex_rtotal :: "rBaseTotal \<Rightarrow> rTotal" where
  "ex_rtotal b = \<lparr>m_past = b, m_raw = b, m_inc = b, m_present = b, m_eventMass = Ev 0 [], m_eventVolume = Ev 0 [],
     m_eventVolume15 = Ev 0 [], m_eventVolume20 = Ev 0 []\<rparr>"

definition ex_files :: files where
  "ex_files = \<lparr>fs_text = (\<lambda>_. Some [CHR ''-'']), fs_dir = (\<lambda>_. True), fs_fault = (\<lambda>_ _. None), fs_nodir = (\<lambda>_. False),
     fs_short = (\<lambda>_. False), fs_room = (\<lambda>_. 1000)\<rparr>"

definition ex_manager :: "Live \<Rightarrow> USINT \<Rightarrow> rBaseTotal \<Rightarrow> rDataManager" where
  "ex_manager live v b = set_prefixes \<lparr>dm_live = live, dm_halt = False, dm_os = ex_files,
     dm_world = \<lparr>vw_mem = (\<lambda>a. v), vw_vars = [ex_var_at T_USINT VF_DUMP 0 100], vw_save = True\<rparr>, dm_vars = [0],
     dm_totals = [(''line'', Some (ex_rtotal b)), (''ai'', None)], dm_hash = hash_cfg, dm_dumpVars = dumpfile_new, dm_dumpTotals = dumpfile_new,
     dm_events = [], dm_finish = False\<rparr>"

text \<open>A library that parses plain files and decimal numbers, and knows one floating number.\<close>

definition ex_lib :: "xml_lib \<Rightarrow> dump_lib" where
  "ex_lib xl = \<lparr>dl_xml = xl, dl_pf = ex_platform, dl_float = (\<lambda>_. []), dl_f15 = (\<lambda>_. ''1'')\<rparr>"

definition ex_xml :: xml_lib where
  "ex_xml = \<lparr>xl_parse = parse_xml, xl_double = (\<lambda>_. Some (Fin 1)), xl_int = (\<lambda>s. Some (of_nat (digits_value s)))\<rparr>"

lemma ex_lib_sel: "dl_float (ex_lib xl) = (\<lambda>_. [])" "dl_f15 (ex_lib xl) = (\<lambda>_. ''1'')" "dl_xml (ex_lib xl) = xl" "dl_pf (ex_lib xl) = ex_platform"
  by (simp_all add: ex_lib_def)

lemma ex_library_reads: "library_reads (ex_lib ex_xml)"
  unfolding library_reads_def reads_plain_def ex_lib_sel using parse_xml_text
  by (simp add: ex_xml_def ex_platform_def digits_value_dec)

lemma ex_vars: "value_bytes (dm_world (ex_manager live v b)) (ex_var_at T_USINT VF_DUMP 0 100) = [v]"
  by (simp add: value_bytes_def ex_var_at_def isExternal_def has_def VF_EXTERNAL_def VF_DUMP_def mem_read_def v_size_def ex_manager_def set_prefixes_def)

lemma dec_digit: "n < 10 \<Longrightarrow> dec n = [char_of (48 + n)]"
  by (subst dec.simps) simp

lemma dec_no_null: "CHR 0x00 \<notin> set (dec n)"
  using dec_digits [of n] by (auto simp: list_all_iff is_digit_def)

lemma ex_manager_sel:
  "dm_world (ex_manager live v b) = \<lparr>vw_mem = (\<lambda>a. v), vw_vars = [ex_var_at T_USINT VF_DUMP 0 100], vw_save = True\<rparr>"
  "dm_vars (ex_manager live v b) = [0]" "dm_totals (ex_manager live v b) = [(''line'', Some (ex_rtotal b)), (''ai'', None)]"
  "dm_os (ex_manager live v b) = ex_files" "dm_hash (ex_manager live v b) = hash_cfg" "dm_live (ex_manager live v b) = live"
  "df_prefix (dm_dumpVars (ex_manager live v b)) = dump_prefix ''variables'' hash_cfg" "df_suffix (dm_dumpVars (ex_manager live v b)) = ''</variables>''"
  "df_prefix (dm_dumpTotals (ex_manager live v b)) = dump_prefix ''totals'' hash_cfg" "df_suffix (dm_dumpTotals (ex_manager live v b)) = ''</totals>''"
  by (simp_all add: ex_manager_def set_prefixes_def)

lemma ex_var_sel: "isDumped (ex_var_at T_USINT VF_DUMP 0 100)" "\<not> isExternal (ex_var_at T_USINT VF_DUMP 0 100)"
  "v_name (ex_var_at T_USINT VF_DUMP 0 100) = ''v''" "v_type (ex_var_at T_USINT VF_DUMP 0 100) = T_USINT"
  "v_pointer (ex_var_at T_USINT VF_DUMP 0 100) = 100" "v_size (ex_var_at T_USINT VF_DUMP 0 100) = 1"
  by (simp_all add: isDumped_def isExternal_def has_def ex_var_at_def VF_DUMP_def VF_EXTERNAL_def v_size_def)

lemma ex_text: "vars_text (ex_lib xl) (ex_manager live 5 b)
   = dump_prefix ''variables'' hash_cfg @ ''<v>'' @ dec 5 @ ''</v></variables>''"
  unfolding vars_text_def ex_manager_sel ex_lib_sel
  by (simp add: Let_def ex_var_sel valueToXml_def valueToString_def value_bytes_def mem_read_def)

lemma ex_base_text: "toXmlBase (\<lambda>_. ''1'') n ex_base = ''<'' @ n @ ''><mass>1</mass><volume>1</volume><volume15>1</volume15><volume20>1</volume20><count>''
   @ dec 0 @ ''</count></'' @ n @ ''>''"
  by (simp add: toXmlBase_def tag_def ex_base_def)

lemma ex_totals: "totals_text (ex_lib xl) (ex_manager live v ex_base) = dump_prefix ''totals'' hash_cfg @ ''<line>''
   @ toXmlBase (\<lambda>_. ''1'') ''past'' ex_base @ toXmlBase (\<lambda>_. ''1'') ''raw'' ex_base @ toXmlBase (\<lambda>_. ''1'') ''inc'' ex_base
   @ toXmlBase (\<lambda>_. ''1'') ''present'' ex_base @ ''</line></totals>''"
  unfolding totals_text_def ex_manager_sel ex_lib_sel by (simp add: total_toXml_def tag_def ex_rtotal_def)

lemma ex_dumpable: "dumpable (ex_lib ex_xml) (ex_manager LIVE_RUNNING 5 ex_base)"
proof -
  let ?lib = "ex_lib ex_xml" and ?m = "ex_manager LIVE_RUNNING 5 ex_base"
  note t = ex_text [of ex_xml LIVE_RUNNING ex_base] and u = ex_totals [of ex_xml LIVE_RUNNING 5]
  have d: "length (dec 5) = 1" "length (dec 0) = 1" by (simp_all add: dec_digit)
  have w: "writable ex_files name k" if "k \<le> 1000" for name k using that by (simp add: writable_def fs_exists_def ex_files_def)
  have wt: "writable ex_files name (length (vars_text ?lib ?m))" for name by (rule w) (simp add: t d dump_prefix_def hash_cfg_def)
  have wu: "writable ex_files name (length (totals_text ?lib ?m))" for name by (rule w) (simp add: u d dump_prefix_def hash_cfg_def ex_base_text)
  have v: "dumped_vars ?m = [0]" "some_totals (dm_totals ?m) = [(''line'', ex_rtotal ex_base)]"
    by (simp_all add: dumped_vars_def some_totals_def ex_manager_sel ex_var_sel)
  have p: "set_prefixes ?m = ?m" by (simp add: ex_manager_def set_prefixes_def)
  have n: "plain_string hash_cfg" "xml_name ''v''" "xml_name ''line''" "plain_string ''1''" by code_simp+
  have s: "saved_well (dl_pf ?lib) (dl_float ?lib) (dm_world ?m) (ex_var_at T_USINT VF_DUMP 0 100)"
    by (simp add: saved_well_def ex_var_sel isValueType_def value_bytes_def)
  have r: "total_prints ?lib (ex_rtotal ex_base)"
    by (simp add: total_prints_def base_prints_def number_prints_def ex_lib_sel n ex_rtotal_def ex_xml_def)
  show ?thesis unfolding dumpable_def v p using wt wu n s r
    by (simp add: ex_manager_sel ex_var_sel hash_cfg_def MAX_STRHASH_SIZE_def apart_def)
qed



section \<open>Dumps of another configuration\<close>

lemmas live_defs = setLiveStatus_def DoHalt_def bad_dump_def os_do_def addEventUDINT_def

lemma set_prefixes_sel [simp]:
  "dm_live (set_prefixes m) = dm_live m" "dm_halt (set_prefixes m) = dm_halt m" "dm_totals (set_prefixes m) = dm_totals m" "dm_world (set_prefixes m) = dm_world m"
  "dm_vars (set_prefixes m) = dm_vars m" "dm_os (set_prefixes m) = dm_os m" "df_result (dm_dumpVars (set_prefixes m)) = df_result (dm_dumpVars m)"
  "df_doc (dm_dumpVars (set_prefixes m)) = df_doc (dm_dumpVars m)" "df_filename (dm_dumpVars (set_prefixes m)) = df_filename (dm_dumpVars m)"
  by (simp_all add: set_prefixes_def)

lemma check_sel [simp]:
  "dm_halt (check_totals lib m) = dm_halt m" "dm_halt (check_vars lib m) = dm_halt m"
  "dm_live (check_totals lib m) = dm_live m" "dm_live (check_vars lib m) = dm_live m" "dm_totals (check_totals lib m) = dm_totals m"
  "dm_totals (check_vars lib m) = dm_totals m" "dm_world (check_totals lib m) = dm_world m" "dm_dumpVars (check_totals lib m) = dm_dumpVars m"
  "dm_os (check_totals lib m) = dm_os m" "dm_dumpTotals (check_vars lib m) = dm_dumpTotals m"
  by (simp_all add: check_totals_def check_vars_def split: prod.split)

lemma loaded_live: "loadDataVariables lib m = Some m' \<Longrightarrow> dm_live m' = dm_live m \<and> dm_totals m' = dm_totals m"
  by (auto simp: loadDataVariables_def split: option.splits)

lemma loadDataTotals_sel [simp]:
  "dm_live (loadDataTotals lib m) = dm_live m" "dm_world (loadDataTotals lib m) = dm_world m" "dm_dumpVars (loadDataTotals lib m) = dm_dumpVars m"
  "dm_os (loadDataTotals lib m) = dm_os m"
  by (simp_all add: loadDataTotals_def split: option.split)

text \<open>The statuses in which the start may end, and why.\<close>

lemma loadDumps_cases:
  assumes "loadDumps lib m = Some m1" "dm_live m = LIVE_STARTING" "\<not> dm_halt m"
  shows "dm_live m1 = LIVE_HALT \<or> dm_live m1 = LIVE_RUNNING
    \<or> m1 = setLiveStatus LIVE_DUMP_TOTALS (check_totals lib (set_prefixes m))
    \<or> m1 = setLiveStatus LIVE_DUMP_VARS (check_vars lib (check_totals lib (set_prefixes m)))"
proof -
  have h: "dm_live (bad_dump hr df x) = LIVE_HALT" if "\<not> dm_halt x" for hr df x using that by (simp add: live_defs)
  have l: "dm_live (setLiveStatus LIVE_RUNNING x) = LIVE_RUNNING \<or> dm_live (setLiveStatus LIVE_RUNNING x) = LIVE_HALT" for x
    by (auto simp: setLiveStatus_def)
  show ?thesis using assms h l unfolding loadDumps_def Let_def by (auto simp: split: if_splits)
qed

lemma setLive_sel [simp]:
  "dm_totals (setLiveStatus s m) = dm_totals m" "dm_world (setLiveStatus s m) = dm_world m" "dm_dumpVars (setLiveStatus s m) = dm_dumpVars m"
  "dm_os (setLiveStatus s m) = dm_os m"
  by (simp_all add: setLiveStatus_def)

lemma setLive_live: "dm_live (setLiveStatus s m) = (if dm_live m = LIVE_HALT then LIVE_HALT else s)"
  by (simp add: setLiveStatus_def)

text \<open>
  C23. When only the saved variables belong to another configuration, the totals are lost: the program waits for the
  operator before it has loaded the totals, whose dump it had accepted, and neither answer loads them later.
\<close>

theorem totals_lost:
  assumes "dm_live m = LIVE_STARTING" "df_result (dm_dumpTotals (check_totals lib (set_prefixes m))) = TRITONN_RESULT_OK"
    "df_result (dm_dumpVars (check_vars lib (check_totals lib (set_prefixes m)))) = XMLFILE_RESULT_NOTEQUAL"
    "loadDumps lib m = Some m1" "packetLoadDump lib (Some answer) m1 = Some (a, m2)"
  shows "dm_live m1 = LIVE_DUMP_VARS \<and> dm_live m2 = LIVE_RUNNING \<and> dm_totals m2 = dm_totals m"
proof -
  have m1: "m1 = setLiveStatus LIVE_DUMP_VARS (check_vars lib (check_totals lib (set_prefixes m)))"
    using assms(1-4) by (simp add: loadDumps_def Let_def file_results_ok [symmetric])
  then have l: "dm_live m1 = LIVE_DUMP_VARS" "dm_totals m1 = dm_totals m" using assms(1) by (simp_all add: setLive_live)
  show ?thesis
  proof (cases "answer = 0")
    case True
    then show ?thesis using assms(5) l by (auto simp: packetLoadDump_def forceLoadDumpVars_def setLive_live os_do_def)
  next
    case False
    then obtain m3 where "loadDataVariables lib m1 = Some m3" "m2 = setLiveStatus LIVE_RUNNING m3"
      using assms(5) l by (auto simp: packetLoadDump_def forceLoadDumpVars_def)
    then show ?thesis using loaded_live [of lib m1 m3] l by (simp add: setLive_live)
  qed
qed

text \<open>
  When the totals belong to another configuration, the saved variables are lost: their file is not even opened, so the
  second question, which always follows, decides about nothing. Whatever the operator answers, no variable changes.
\<close>

theorem variables_lost:
  assumes "dm_live m = LIVE_STARTING" "dm_dumpVars m = dumpfile_new"
    "df_result (dm_dumpTotals (check_totals lib (set_prefixes m))) = XMLFILE_RESULT_NOTEQUAL"
  shows "\<exists>m1 m2 m3. loadDumps lib m = Some m1 \<and> packetLoadDump lib (Some answer) m1 = Some (J_SUCCESS, m2)
    \<and> packetLoadDump lib (Some answer') m2 = Some (J_SUCCESS, m3)
    \<and> dm_live m1 = LIVE_DUMP_TOTALS \<and> dm_live m2 = LIVE_DUMP_VARS \<and> dm_live m3 = LIVE_RUNNING \<and> dm_world m3 = dm_world m"
proof -
  let ?m1 = "setLiveStatus LIVE_DUMP_TOTALS (check_totals lib (set_prefixes m))"
  have m1: "loadDumps lib m = Some ?m1" using assms(1,3) by (simp add: loadDumps_def Let_def)
  have l1: "dm_live ?m1 = LIVE_DUMP_TOTALS" using assms(1) by (simp add: setLive_live)
  have v: "df_result (dm_dumpVars ?m1) = TRITONN_RESULT_OK" "df_doc (dm_dumpVars ?m1) = None"
    using assms(2) by (simp_all add: dumpfile_new_def)
  obtain m2 where m2: "packetLoadDump lib (Some answer) ?m1 = Some (J_SUCCESS, m2)" "dm_live m2 = LIVE_DUMP_VARS" "dm_world m2 = dm_world m"
    "df_doc (dm_dumpVars m2) = None"
    using l1 v by (simp add: packetLoadDump_def forceLoadDumpTotals_def setLive_live os_do_def Let_def)
  have "\<exists>m3. packetLoadDump lib (Some answer') m2 = Some (J_SUCCESS, m3) \<and> dm_live m3 = LIVE_RUNNING \<and> dm_world m3 = dm_world m"
    using m2(2-4) by (simp add: packetLoadDump_def forceLoadDumpVars_def loadDataVariables_def setLive_live os_do_def)
  then show ?thesis using m1 l1 m2 by blast
qed

text \<open>Files whose texts are their names, and a parser that gives the file of the variables the hash \<open>h1\<close>, others \<open>h2\<close>.\<close>

definition ex_lost_lib :: "string \<Rightarrow> string \<Rightarrow> dump_lib" where
  "ex_lost_lib h1 h2 = ex_lib \<lparr>xl_parse = (\<lambda>s. Inr (XElem [] [(''hash'', if s = FILE_DUMP_VARIABLES then h1 else h2)] None [])),
     xl_double = (\<lambda>_. None), xl_int = (\<lambda>_. None)\<rparr>"

definition ex_lost :: rDataManager where
  "ex_lost = (ex_manager LIVE_STARTING 5 ex_base)\<lparr>dm_os := ex_files\<lparr>fs_text := (\<lambda>n. Some n)\<rparr>\<rparr>"

lemma ex_lost_check:
  "check_totals (ex_lost_lib h1 h2) (set_prefixes ex_lost) = (set_prefixes ex_lost)\<lparr>dm_dumpTotals := (dm_dumpTotals (set_prefixes ex_lost))
     \<lparr>df_filename := FILE_DUMP_TOTALS, df_result := (if h2 = hash_cfg then TRITONN_RESULT_OK else XMLFILE_RESULT_NOTEQUAL), df_doc := Some (XElem [] [(''hash'', h2)] None [])\<rparr>\<rparr>"
  "df_result (dm_dumpVars (check_vars (ex_lost_lib h1 h2) (m\<lparr>dm_os := ex_files\<lparr>fs_text := (\<lambda>n. Some n)\<rparr>, dm_hash := hash_cfg\<rparr>)))
     = (if h1 = hash_cfg then TRITONN_RESULT_OK else XMLFILE_RESULT_NOTEQUAL)"
  if "length h1 = 40" "length h2 = 40"
proof -
  have l: "simpleFileLoad (ex_files\<lparr>fs_text := (\<lambda>n. Some n)\<rparr>) FILE_DUMP_TOTALS = Inr FILE_DUMP_TOTALS"
    "simpleFileLoad (ex_files\<lparr>fs_text := (\<lambda>n. Some n)\<rparr>) FILE_DUMP_VARIABLES = Inr FILE_DUMP_VARIABLES"
    by (simp_all add: simpleFileLoad_def ex_files_def FILE_DUMP_TOTALS_def FILE_DUMP_VARIABLES_def)
  have s: "dm_os (set_prefixes ex_lost) = ex_files\<lparr>fs_text := (\<lambda>n. Some n)\<rparr>" "dm_hash (set_prefixes ex_lost) = hash_cfg"
    by (simp_all add: ex_lost_def ex_manager_def set_prefixes_def)
  show "check_totals (ex_lost_lib h1 h2) (set_prefixes ex_lost) = (set_prefixes ex_lost)\<lparr>dm_dumpTotals := (dm_dumpTotals (set_prefixes ex_lost))
     \<lparr>df_filename := FILE_DUMP_TOTALS, df_result := (if h2 = hash_cfg then TRITONN_RESULT_OK else XMLFILE_RESULT_NOTEQUAL), df_doc := Some (XElem [] [(''hash'', h2)] None [])\<rparr>\<rparr>"
    unfolding check_totals_def s checkFile_def xmlDumpFile_def l
    using that by (simp add: ex_lost_lib_def ex_lib_sel files_differ MAX_STRHASH_SIZE_def Let_def file_results_ok file_results_ok [symmetric])
  show "df_result (dm_dumpVars (check_vars (ex_lost_lib h1 h2) (m\<lparr>dm_os := ex_files\<lparr>fs_text := (\<lambda>n. Some n)\<rparr>, dm_hash := hash_cfg\<rparr>)))
     = (if h1 = hash_cfg then TRITONN_RESULT_OK else XMLFILE_RESULT_NOTEQUAL)"
    unfolding check_vars_def checkFile_def xmlDumpFile_def
    using that by (simp add: l ex_lost_lib_def ex_lib_sel MAX_STRHASH_SIZE_def Let_def file_results_ok file_results_ok [symmetric])
qed

definition other_hash :: string where "other_hash = ''ffffffffffffffffffffffffffffffffffffffff''"

lemma hash_lengths: "length hash_cfg = 40" "length other_hash = 40" "other_hash \<noteq> hash_cfg" "hash_cfg \<noteq> other_hash"
  by (simp_all add: hash_cfg_def other_hash_def)

lemma ex_lost_start: "dm_live ex_lost = LIVE_STARTING" "dm_dumpVars (ex_lost\<lparr>dm_dumpVars := dumpfile_new\<rparr>) = dumpfile_new"
  by (simp_all add: ex_lost_def ex_manager_sel)

theorem totals_lost_witness:
  "\<exists>m1 m2. loadDumps (ex_lost_lib other_hash hash_cfg) ex_lost = Some m1 \<and> packetLoadDump (ex_lost_lib other_hash hash_cfg) (Some 0) m1 = Some (J_SUCCESS, m2)
     \<and> dm_live m2 = LIVE_RUNNING \<and> dm_totals m2 = dm_totals ex_lost"
proof -
  let ?l = "ex_lost_lib other_hash hash_cfg"
  let ?m = "check_totals ?l (set_prefixes ex_lost)"
  have t: "df_result (dm_dumpTotals ?m) = TRITONN_RESULT_OK" by (simp add: ex_lost_check(1) hash_lengths)
  have "?m = ?m\<lparr>dm_os := ex_files\<lparr>fs_text := (\<lambda>n. Some n)\<rparr>, dm_hash := hash_cfg\<rparr>"
    by (simp add: ex_lost_check(1) hash_lengths) (simp add: ex_lost_def ex_manager_def set_prefixes_def)
  then have v: "df_result (dm_dumpVars (check_vars ?l ?m)) = XMLFILE_RESULT_NOTEQUAL"
    using ex_lost_check(2) [of other_hash hash_cfg ?m] by (simp add: hash_lengths)
  let ?m1 = "setLiveStatus LIVE_DUMP_VARS (check_vars ?l ?m)"
  have l: "loadDumps ?l ex_lost = Some ?m1"
    using t v by (simp add: loadDumps_def Let_def ex_lost_start file_results_ok [symmetric])
  have "dm_live ?m1 = LIVE_DUMP_VARS" by (simp add: setLive_live ex_lost_start)
  then obtain m2 where p: "packetLoadDump ?l (Some 0) ?m1 = Some (J_SUCCESS, m2)"
    by (simp add: packetLoadDump_def forceLoadDumpVars_def)
  show ?thesis using totals_lost [OF ex_lost_start(1) t v l p] l p by blast
qed

theorem variables_lost_witness:
  "\<exists>m1 m2 m3. loadDumps (ex_lost_lib hash_cfg other_hash) (ex_lost\<lparr>dm_dumpVars := dumpfile_new\<rparr>) = Some m1
     \<and> packetLoadDump (ex_lost_lib hash_cfg other_hash) (Some 1) m1 = Some (J_SUCCESS, m2)
     \<and> packetLoadDump (ex_lost_lib hash_cfg other_hash) (Some 1) m2 = Some (J_SUCCESS, m3) \<and> dm_live m3 = LIVE_RUNNING"
proof -
  let ?m = "ex_lost\<lparr>dm_dumpVars := dumpfile_new\<rparr>"
  have s: "set_prefixes ?m = set_prefixes ex_lost" by (simp add: ex_lost_def ex_manager_def set_prefixes_def dumpfile_new_def)
  have "df_result (dm_dumpTotals (check_totals (ex_lost_lib hash_cfg other_hash) (set_prefixes ?m))) = XMLFILE_RESULT_NOTEQUAL"
    unfolding s by (simp add: ex_lost_check(1) hash_lengths)
  then show ?thesis using variables_lost [OF _ ex_lost_start(2), of "ex_lost_lib hash_cfg other_hash" 1 1] ex_lost_start(1) by auto
qed

text \<open>
  C22. The start comes to an end: unless a saved text that is no number throws, the program runs or has halted after at most two
  answers of the operator.
\<close>

theorem start_settles:
  assumes "dm_live m = LIVE_STARTING" "\<not> dm_halt m" "dm_dumpVars m = dumpfile_new"
  shows "case loadDumps lib m of None \<Rightarrow> True | Some m1 \<Rightarrow> (case packetLoadDump lib (Some answer) m1 of None \<Rightarrow> True
    | Some (_, m2) \<Rightarrow> \<exists>a m3. packetLoadDump lib (Some answer') m2 = Some (a, m3) \<and> dm_live m3 \<in> {LIVE_RUNNING, LIVE_HALT})"
proof (cases "loadDumps lib m")
  case (Some m1)
  let ?t = "check_totals lib (set_prefixes m)"
  have settled: "\<exists>a m3. packetLoadDump lib (Some answer') m2 = Some (a, m3) \<and> dm_live m3 \<in> {LIVE_RUNNING, LIVE_HALT}"
    if "dm_live m2 \<in> {LIVE_RUNNING, LIVE_HALT}" for m2 using that by (auto simp: packetLoadDump_def)
  consider (idle) "dm_live m1 \<in> {LIVE_RUNNING, LIVE_HALT}" | (totals) "m1 = setLiveStatus LIVE_DUMP_TOTALS ?t"
    | (vars) "m1 = setLiveStatus LIVE_DUMP_VARS (check_vars lib ?t)" using loadDumps_cases [OF Some assms(1,2)] by auto
  then show ?thesis
  proof cases
    case idle
    then have "packetLoadDump lib (Some answer) m1 = Some (J_ERROR JSONERR_NOTLOADDUMP, m1)" by (auto simp: packetLoadDump_def)
    then show ?thesis using Some settled [OF idle] by simp
  next
    case totals
    have l: "dm_live m1 = LIVE_DUMP_TOTALS" "df_result (dm_dumpVars m1) = TRITONN_RESULT_OK" "df_doc (dm_dumpVars m1) = None"
      using assms by (simp_all add: totals setLive_live dumpfile_new_def)
    obtain m2 where m2: "packetLoadDump lib (Some answer) m1 = Some (J_SUCCESS, m2)" "dm_live m2 = LIVE_DUMP_VARS" "df_doc (dm_dumpVars m2) = None"
      using l by (simp add: packetLoadDump_def forceLoadDumpTotals_def setLive_live os_do_def Let_def)
    then show ?thesis using Some by (simp add: packetLoadDump_def forceLoadDumpVars_def loadDataVariables_def setLive_live os_do_def)
  next
    case vars
    have l: "dm_live m1 = LIVE_DUMP_VARS" using assms by (simp add: vars setLive_live)
    show ?thesis
    proof (cases "packetLoadDump lib (Some answer) m1")
      case (Some p)
      then have "dm_live (snd p) \<in> {LIVE_RUNNING, LIVE_HALT}"
        using l by (auto simp: packetLoadDump_def forceLoadDumpVars_def setLive_live)
      then show ?thesis using \<open>loadDumps lib m = Some m1\<close> Some settled by (auto split: prod.splits)
    qed (use Some in simp)
  qed
qed simp

theorem start_settles_witness:
  "case loadDumps (ex_lost_lib hash_cfg other_hash) (ex_lost\<lparr>dm_dumpVars := dumpfile_new\<rparr>) of None \<Rightarrow> True
   | Some m1 \<Rightarrow> (case packetLoadDump (ex_lost_lib hash_cfg other_hash) (Some 1) m1 of None \<Rightarrow> True
     | Some (_, m2) \<Rightarrow> \<exists>a m3. packetLoadDump (ex_lost_lib hash_cfg other_hash) (Some 0) m2 = Some (a, m3) \<and> dm_live m3 \<in> {LIVE_RUNNING, LIVE_HALT})"
  by (rule start_settles) (simp_all add: ex_lost_start, simp add: ex_lost_def ex_manager_def set_prefixes_def)

text \<open>
  After a halt the next start, if it is not forced, is a cold one: it loads no configuration, and the mark is gone, so that
  the start after it is a normal one.
\<close>

theorem halt_then_cold:
  assumes "\<not> dm_halt m" "writable (dm_os m) FILE_RESTART 4" "fs_fault (dm_os m) F_UNLINK FILE_RESTART = None"
    "dm_os m' = dm_os (DoHalt hr reason m)" "dm_live m' = LIVE_STARTING" "\<not> sa_force sa" "sa_config sa = Some c"
  shows "case getConfFile sa m' of (r, conf, m2) \<Rightarrow> r = TRITONN_RESULT_OK \<and> conf = c \<and> dm_live m2 = LIVE_REBOOT_COLD
    \<and> fs_text (dm_os m2) FILE_RESTART = None"
proof -
  have w: "writable (dm_os m) FILE_RESTART (length ''cold'')" using assms(2) by (simp add: numeral_eq_Suc)
  have s: "dm_os m' = (dm_os m)\<lparr>fs_text := (fs_text (dm_os m))(FILE_RESTART := Some ''cold'')\<rparr>"
    using assms(1,4) save_writable [OF w] by (simp add: DoHalt_def os_do_def addEventUDINT_def)
  have "simpleFileLoad (dm_os m') FILE_RESTART = Inr ''cold''"
    using assms(2) by (intro load_saved) (simp_all add: s writable_def)
  then show ?thesis using assms(3,5-7) by (simp add: getConfFile_def Let_def setLive_live os_do_def simpleFileDelete_def s)
qed

theorem halt_then_cold_witness:
  "case getConfFile \<lparr>sa_force = False, sa_config = Some ''c.xml'', sa_nodump = False\<rparr>
      ((ex_manager LIVE_STARTING 0 ex_base)\<lparr>dm_os := dm_os (DoHalt HALT_DUMP 31 (ex_manager LIVE_RUNNING 0 ex_base))\<rparr>) of
    (r, conf, m2) \<Rightarrow> r = TRITONN_RESULT_OK \<and> conf = ''c.xml'' \<and> dm_live m2 = LIVE_REBOOT_COLD \<and> fs_text (dm_os m2) FILE_RESTART = None"
  by (rule halt_then_cold [where m = "ex_manager LIVE_RUNNING 0 ex_base" and hr = HALT_DUMP and reason = 31])
    (simp_all add: ex_manager_sel, simp_all add: ex_manager_def set_prefixes_def ex_files_def writable_def fs_exists_def)

end
