(* ===== verification/Terminal.thy ===== *)
theory Terminal
  imports Packets Users Texts "HOL-Library.Sublist"
begin

text \<open>
  The server for the terminal, \<^verbatim>\<open>src/tritonn/term_manager.cpp\<close>: the login, the reading and writing of
  variables and what else a client may ask. How messages are put into bytes is a package outside the
  sources: what it reads from bytes, and its magic numbers, are arguments.
\<close>

section \<open>Messages\<close>

record rConfigInfo =
  ci_filename :: string
  ci_name :: string
  ci_version :: string
  ci_developer :: string
  ci_hash :: string

record rVersion =
  ver_major :: USINT
  ver_minor :: USINT
  ver_build :: UINT
  ver_hash :: UDINT

record rState =
  st_eventAlarm :: UDINT
  st_live :: USINT
  st_startReason :: USINT
  st_isSimulate :: USINT

record sys_time =
  tm_year :: int
  tm_mon :: int
  tm_mday :: int
  tm_hour :: int
  tm_min :: int
  tm_sec :: int

text \<open>The system variables the server tells about.\<close>

record sys_info =
  sy_conf :: rConfigInfo
  sy_version :: rVersion
  sy_state :: rState
  sy_time :: sys_time

text \<open>A request as the package gives it, with what its tests say of the message.\<close>

record data_msg =
  msg_userdata :: "UDINT option"
  msg_write :: "(string \<times> string option) list"
  msg_read :: "string list"
  msg_isWrite :: bool
  msg_isRead :: bool
  msg_needConf :: bool
  msg_needVersion :: bool
  msg_needDateTime :: bool

record data_answer =
  ans_userdata :: "UDINT option"
  ans_write :: "(string \<times> item_status \<times> string) list"
  ans_read :: "(string \<times> item_status \<times> string) list"
  ans_conf :: "rConfigInfo option"
  ans_version :: "rVersion option"
  ans_time :: "sys_time option"
  ans_state :: "rState option"

definition answer_new :: data_answer where
  "answer_new = \<lparr>ans_userdata = None, ans_write = [], ans_read = [], ans_conf = None, ans_version = None, ans_time = None, ans_state = None\<rparr>"

datatype term_msg = M_Login UDINT UDINT | M_Data data_answer

fun login_code :: "LoginResult \<Rightarrow> UDINT" where
  "login_code LR_UNDEF = 0"
| "login_code LR_SUCCESS = 1"
| "login_code LR_FAULT = 2"
| "login_code LR_BLOCKED = 3"
| "login_code LR_CHANGEPWD = 4"

section \<open>The server\<close>

text \<open>
  The readers give \<^const>\<open>None\<close> for a message that is not correct; the other arguments are those of
  the snapshots: the hash of names, the platform, how floating numbers are printed, the memory of a new item, the
  list of variables.
\<close>

record term_env =
  te_loginMagic :: UDINT
  te_dataMagic :: UDINT
  te_login :: "bytes \<Rightarrow> (string \<times> string) option"
  te_data :: "bytes \<Rightarrow> data_msg option"
  te_hash :: "string \<Rightarrow> UDINT"
  te_pf :: platform
  te_float :: "rawparam \<Rightarrow> string"
  te_junk :: rSnapshotItem
  te_list :: varlist
  te_sys :: sys_info

record rTermClient =
  t_user :: "rUser option"
  t_world :: varworld
  t_sent :: "term_msg list"

definition term_send :: "term_msg \<Rightarrow> rTermClient \<Rightarrow> rTermClient" where
  "term_send msg t = t\<lparr>t_sent := t_sent t @ [msg]\<rparr>"

definition addState :: "term_env \<Rightarrow> data_answer \<Rightarrow> data_answer" where
  "addState e a = a\<lparr>ans_state := Some (sy_state (te_sys e))\<rparr>"

definition addConfInfo :: "term_env \<Rightarrow> data_answer \<Rightarrow> data_answer" where
  "addConfInfo e a = a\<lparr>ans_conf := Some (sy_conf (te_sys e))\<rparr>"

definition addVersion :: "term_env \<Rightarrow> data_answer \<Rightarrow> data_answer" where
  "addVersion e a = a\<lparr>ans_version := Some (sy_version (te_sys e))\<rparr>"

definition addDateTime :: "term_env \<Rightarrow> data_answer \<Rightarrow> data_answer" where
  "addDateTime e a = (let sdt = sy_time (te_sys e) in a\<lparr>ans_time := Some (sdt\<lparr>tm_year := tm_year sdt + 1900, tm_mon := tm_mon sdt + 1\<rparr>)\<rparr>)"

definition sendDefaultMessage :: "term_env \<Rightarrow> rTermClient \<Rightarrow> rTermClient" where
  "sendDefaultMessage e t = term_send (M_Data (addState e (addVersion e (addConfInfo e answer_new)))) t"

text \<open>False stands for the end of the connection.\<close>

definition packetLogin :: "term_env \<Rightarrow> rUser list \<Rightarrow> bytes \<Rightarrow> rTermClient \<Rightarrow> bool \<times> rTermClient" where
  "packetLogin e us bs t = (if t_user t \<noteq> None then (False, t) else case te_login e bs of None \<Rightarrow> (False, t)
     | Some (user, pwd) \<Rightarrow> case LoginHash us (hash_text (Some user)) (hash_text (Some pwd)) of (u, r) \<Rightarrow>
         let t1 = t\<lparr>t_user := u\<rparr> in case u of None \<Rightarrow> (False, t1)
         | Some usr \<Rightarrow> if r \<noteq> LR_SUCCESS \<and> r \<noteq> LR_CHANGEPWD then (False, t1)
             else if GetAccess False usr AND ACCESS_SA = 0 \<and> GetAccess False usr AND ACCESS_ADMIN = 0 then (False, t1)
             else (True, sendDefaultMessage e (term_send (M_Login (login_code r) (GetAccess False usr)) t1)))"

text \<open>The status an item had goes into the answer, then its text, which may change the status.\<close>

definition item_answer :: "term_env \<Rightarrow> varworld \<Rightarrow> string \<Rightarrow> rSnapshotItem \<Rightarrow> string \<times> item_status \<times> string" where
  "item_answer e w name it = (name, si_status it, fst (item_getValueString (te_float e) w it))"

definition write_items :: "term_env \<Rightarrow> varworld \<Rightarrow> (string \<times> string option) list \<Rightarrow> rSnapshotItem list" where
  "write_items e w ws = foldl (\<lambda>its (name, v). fst (snapshot_add_text (te_hash e) (te_pf e) w (Some (te_list e)) (te_junk e) name
     (case v of None \<Rightarrow> [] | Some s \<Rightarrow> s) its)) [] ws"

definition read_items :: "term_env \<Rightarrow> varworld \<Rightarrow> string list \<Rightarrow> rSnapshotItem list" where
  "read_items e w ns = foldl (\<lambda>its name. fst (snapshot_add_name (te_hash e) w (Some (te_list e)) (si_data (te_junk e)) name its)) [] ns"

definition packetData :: "term_env \<Rightarrow> bytes \<Rightarrow> rTermClient \<Rightarrow> bool \<times> rTermClient" where
  "packetData e bs t = (case t_user t of None \<Rightarrow> (False, t) | Some u \<Rightarrow> case te_data e bs of None \<Rightarrow> (False, t)
     | Some msg \<Rightarrow>
         let acc = GetAccess False u; a0 = answer_new\<lparr>ans_userdata := msg_userdata msg\<rparr>;
           (w1, a1) = (if msg_isWrite msg then
               (case snapshot_set acc True (write_items e (t_world t) (msg_write msg)) (t_world t) of (_, its, w) \<Rightarrow>
                 (w, a0\<lparr>ans_write := List.map (\<lambda>((name, _), it). item_answer e w name it) (zip (msg_write msg) its)\<rparr>))
             else (t_world t, a0));
           a2 = (if msg_isRead msg then
               (case snapshot_get acc True w1 (read_items e w1 (msg_read msg)) of (_, its) \<Rightarrow>
                 a1\<lparr>ans_read := List.map (\<lambda>(name, it). item_answer e w1 name it) (zip (msg_read msg) its)\<rparr>)
             else a1);
           a3 = (if msg_needConf msg then addConfInfo e a2 else a2); a4 = (if msg_needVersion msg then addVersion e a3 else a3);
           a5 = (if msg_needDateTime msg then addDateTime e a4 else a4)
         in (True, term_send (M_Data (addState e a5)) (t\<lparr>t_world := w1\<rparr>)))"

definition term_known :: "term_env \<Rightarrow> UDINT \<Rightarrow> bool" where
  "term_known e m \<longleftrightarrow> m = te_dataMagic e \<or> m = te_loginMagic e"

definition term_handle :: "term_env \<Rightarrow> rUser list \<Rightarrow> UDINT \<Rightarrow> bytes \<Rightarrow> rTermClient \<Rightarrow> bool \<times> rTermClient" where
  "term_handle e us m bs t = (if m = te_loginMagic e then packetLogin e us bs t
     else if m = te_dataMagic e then packetData e bs t else (False, t))"


section \<open>Who can do anything\<close>

lemma checkBuffer_suffix: "checkBuffer l c = (r, c1) \<Longrightarrow> suffix (pc_buff c1) (pc_buff c)"
  by (auto simp: checkBuffer_def clearHeader_def Let_def suffix_drop split: if_splits)

lemma clearPacket_suffix: "suffix (pc_buff (clearPacket c)) (pc_buff c)"
  by (simp add: clearPacket_buff suffix_drop)

lemma pc_data_sublist: "suffix (pc_buff c) s \<Longrightarrow> sublist (pc_data c) s"
  by (metis pc_data_def prefix_imp_sublist sublist_order.order_trans suffix_imp_sublist take_is_prefix)

text \<open>What a handler keeps, whatever part of the stream it is given, the loop keeps: \<open>Q\<close> also when it gives up.\<close>

lemma recv_loop_keeps:
  fixes P Q :: "'s \<Rightarrow> bool"
  assumes "\<And>m d s ok s'. sublist d stream \<Longrightarrow> P s \<Longrightarrow> h m d s = (ok, s') \<Longrightarrow> Q s' \<and> (ok \<longrightarrow> P s')" "\<And>s. P s \<Longrightarrow> Q s"
  shows "suffix (pc_buff c) stream \<Longrightarrow> P s \<Longrightarrow> recv_loop l known h c s = (ok, c', s') \<Longrightarrow> Q s' \<and> (ok \<longrightarrow> P s') \<and> suffix (pc_buff c') stream"
  using assms
proof (induction l known h c s arbitrary: ok c' s' rule: recv_loop.induct)
  case (1 l known h c s)
  obtain r c1 where r: "checkBuffer l c = (r, c1)" by force
  have s1: "suffix (pc_buff c1) stream" using checkBuffer_suffix [OF r] 1(2) suffix_order.trans by blast
  show ?case
  proof (cases "r = RECV_DATA \<and> known (hdr_magic (pc_header c1))")
    case False
    have "recv_loop l known h c s = (r = RECV_NOTHING, c1, s)"
      by (subst recv_loop.simps) (use r False in \<open>cases r; simp\<close>)
    then show ?thesis using 1(3-6) s1 by auto
  next
    case True
    obtain ok1 sm where h: "h (hdr_magic (pc_header c1)) (pc_data c1) s = (ok1, sm)" by force
    have k: "Q sm \<and> (ok1 \<longrightarrow> P sm)" using 1(5) [OF pc_data_sublist [OF s1] 1(3) h] .
    have e: "recv_loop l known h c s = (if ok1 then recv_loop l known h (clearPacket c1) sm else (False, c1, sm))"
      by (subst recv_loop.simps) (use r True h in simp)
    show ?thesis
    proof (cases ok1)
      case False
      then show ?thesis using e k s1 1(4) by auto
    next
      case t: True
      have s2: "suffix (pc_buff (clearPacket c1)) stream" using clearPacket_suffix s1 suffix_order.trans by blast
      have p: "P sm" using k t by simp
      have "recv_loop l known h (clearPacket c1) sm = (ok, c', s')" using e t 1(4) by simp
      note ih = 1(1) [OF r [symmetric] _ _ h [symmetric] _ s2 p this]
      show ?thesis by (rule ih) (use True t 1(5,6) in blast)+
    qed
  qed
qed

lemma suffix_append_same: "suffix xs ys \<Longrightarrow> suffix (xs @ zs) (ys @ zs)"
  by (auto simp: suffix_def)

lemma client_feed_keeps:
  fixes P Q :: "'s \<Rightarrow> bool"
  assumes keeps: "\<And>m d s ok s'. sublist d stream \<Longrightarrow> P s \<Longrightarrow> h m d s = (ok, s') \<Longrightarrow> Q s' \<and> (ok \<longrightarrow> P s')" "\<And>s. P s \<Longrightarrow> Q s"
  shows "stream = seen @ concat bss \<Longrightarrow> suffix (pc_buff c) seen \<Longrightarrow> P s \<Longrightarrow> client_feed l known h bss c s = (ok, c', s') \<Longrightarrow> Q s'"
proof (induction bss arbitrary: seen c s)
  case (Cons bs bss)
  obtain ok1 c1 s1 where c: "ClientRecv l known h bs c s = (ok1, c1, s1)" using prod_cases3 by blast
  have b: "suffix (pc_buff (pc_append bs c)) (seen @ bs)" using suffix_append_same [OF Cons.prems(2)] by (simp add: pc_append_def)
  have st: "\<And>d. sublist d (seen @ bs) \<Longrightarrow> sublist d stream"
    using Cons.prems(1) by (metis append.assoc concat.simps(2) prefix_imp_sublist prefixI sublist_order.order_trans)
  have keeps': "\<And>m d s ok s'. sublist d (seen @ bs) \<Longrightarrow> P s \<Longrightarrow> h m d s = (ok, s') \<Longrightarrow> Q s' \<and> (ok \<longrightarrow> P s')"
    using keeps(1) st by blast
  have k: "Q s1 \<and> (ok1 \<longrightarrow> P s1) \<and> suffix (pc_buff c1) (seen @ bs)"
    by (rule recv_loop_keeps [where P = P and Q = Q and h = h and stream = "seen @ bs", OF keeps' keeps(2) b Cons.prems(3) c [unfolded ClientRecv_def]])
  show ?case
  proof (cases ok1)
    case True
    then show ?thesis using Cons.IH [of "seen @ bs" c1 s1] k Cons.prems(1,4) c by simp
  next
    case False
    then show ?thesis using k Cons.prems(4) c by auto
  qed
qed (use keeps(2) in auto)


lemma viewhide_split: "(x :: UDINT) AND ACCESS_MASK_VIEWHIDE = 0 \<longleftrightarrow> x AND ACCESS_SA = 0 \<and> x AND ACCESS_ADMIN = 0"
  unfolding ACCESS_MASK_VIEWHIDE_def by (auto simp: bit_eq_iff bit_simps)

definition knows_main_user :: "(bytes \<Rightarrow> bytes) \<Rightarrow> term_env \<Rightarrow> bytes \<Rightarrow> bool" where
  "knows_main_user H e stream \<longleftrightarrow> (\<exists>bs user pwd. sublist bs stream \<and> te_login e bs = Some (user, pwd)
     \<and> hash_text (Some user) \<in> {H (bytes_of ''1''), H (bytes_of ''oznadmin'')} \<and> hash_text (Some pwd) = H (bytes_of ''1''))"

lemma packetLogin_quiet:
  assumes H: "\<And>x. length (H x) = MAX_HASH_SIZE" and r: "packetLogin e (program_users H memory xs) bs t = (ok, t')"
    and s: "sublist bs stream" "\<not> knows_main_user H e stream"
  shows "\<not> ok \<and> t_world t' = t_world t \<and> t_sent t' = t_sent t"
proof (cases "t_user t = None")
  case True
  show ?thesis
  proof (cases "te_login e bs")
    case (Some up)
    obtain user pwd where up: "up = (user, pwd)" by force
    obtain u q where l: "LoginHash (program_users H memory xs) (hash_text (Some user)) (hash_text (Some pwd)) = (u, q)" by force
    have "(case u of None \<Rightarrow> False | Some v \<Rightarrow> GetAccess False v AND ACCESS_MASK_VIEWHIDE \<noteq> 0) \<longleftrightarrow>
        hash_text (Some user) \<in> {H (bytes_of ''1''), H (bytes_of ''oznadmin'')} \<and> hash_text (Some pwd) = H (bytes_of ''1'')"
      using privileged_iff [where H = H and name_hash = "hash_text (Some user)" and pwd_hash = "hash_text (Some pwd)" and external = False
        and memory = memory and xs = xs] H l by simp
    then have "u = None \<or> (\<exists>v. u = Some v \<and> GetAccess False v AND ACCESS_SA = 0 \<and> GetAccess False v AND ACCESS_ADMIN = 0)"
      using s Some up by (auto simp: knows_main_user_def viewhide_split split: option.splits)
    then show ?thesis using r True Some up l by (auto simp: packetLogin_def Let_def split: if_splits)
  qed (use r True in \<open>simp add: packetLogin_def\<close>)
qed (use r in \<open>simp add: packetLogin_def\<close>)

text \<open>
  C12. A client of the terminal's port sees and changes nothing before it has logged in as one of the two users of \<^verbatim>\<open>main\<close>: however
  its bytes are cut and whatever the configuration holds, as long as no part of them is a login with these names and their
  password, no variable changes and nothing is sent.
\<close>

theorem terminal_guarded:
  assumes H: "\<And>x. length (H x) = MAX_HASH_SIZE" and k: "\<not> knows_main_user H e (concat chunks)"
    and f: "client_feed l (term_known e) (term_handle e (program_users H memory xs)) chunks (packet_client_new hdr)
      \<lparr>t_user = None, t_world = w, t_sent = []\<rparr> = (ok, c, t)"
  shows "t_world t = w \<and> t_sent t = []"
proof (rule client_feed_keeps [where P = "\<lambda>t. t_user t = None \<and> t_world t = w \<and> t_sent t = []" and Q = "\<lambda>t. t_world t = w \<and> t_sent t = []",
    where stream = "concat chunks" and seen = "[]", OF _ _ _ _ _ f])
  fix m d t ok t'
  assume s: "sublist d (concat chunks)" "t_user t = None \<and> t_world t = w \<and> t_sent t = []"
    "term_handle e (program_users H memory xs) m d t = (ok, t')"
  have "packetData e d t = (False, t)" using s(2) by (simp add: packetData_def)
  then have "packetLogin e (program_users H memory xs) d t = (ok, t') \<or> \<not> ok \<and> t' = t"
    using s(3) unfolding term_handle_def by (metis prod.inject)
  then consider "packetLogin e (program_users H memory xs) d t = (ok, t')" | "\<not> ok" "t' = t" by blast
  then show "(t_world t' = w \<and> t_sent t' = []) \<and> (ok \<longrightarrow> t_user t' = None \<and> t_world t' = w \<and> t_sent t' = [])"
  proof cases
    case 1
    then show ?thesis using packetLogin_quiet [OF H 1 s(1) k] s(2) by simp
  next
    case 2
    then show ?thesis using s(2) by simp
  qed
qed (simp_all add: packet_client_new_def clearPacket_buff)


text \<open>A client that sends a login the package reads as the user \<open>1\<close> with a wrong password.\<close>

definition ex_login_env :: term_env where
  "ex_login_env = \<lparr>te_loginMagic = 7, te_dataMagic = 8, te_login = (\<lambda>_. Some (''31'', ''32'')), te_data = (\<lambda>_. None), te_hash = (\<lambda>_. 0),
     te_pf = ex_platform, te_float = (\<lambda>_. []), te_junk = \<lparr>si_var = None, si_status = SS_UNDEF, si_data = []\<rparr>, te_list = [],
     te_sys = \<lparr>sy_conf = \<lparr>ci_filename = [], ci_name = [], ci_version = [], ci_developer = [], ci_hash = []\<rparr>,
       sy_version = \<lparr>ver_major = 0, ver_minor = 0, ver_build = 0, ver_hash = 0\<rparr>,
       sy_state = \<lparr>st_eventAlarm = 0, st_live = 0, st_startReason = 0, st_isSimulate = 0\<rparr>,
       sy_time = \<lparr>tm_year = 0, tm_mon = 0, tm_mday = 0, tm_hour = 0, tm_min = 0, tm_sec = 0\<rparr>\<rparr>\<rparr>"

lemma ex_hash_1: "ex_hash (bytes_of ''1'') = 0x31 # replicate 19 0"
  by (simp add: ex_hash_def bytes_of_def MAX_HASH_SIZE_def numeral_eq_Suc)

lemma ex_wrong: "hash_text (Some ''32'') \<noteq> ex_hash (bytes_of ''1'')"
proof -
  have "hash_text (Some ''32'') = 0x32 # replicate 19 0"
    by (simp add: hash_text_def String_ToBuffer_def MAX_HASH_SIZE_def hex_digit_def numeral_eq_Suc)
  then show ?thesis by (simp add: ex_hash_1)
qed

theorem terminal_guarded_witness:
  "\<exists>ok c t. client_feed TYPE(32) (term_known ex_login_env) (term_handle ex_login_env (program_users ex_hash [] [])) [packet_send TYPE(32) 7 [1, 2]]
      (packet_client_new (header_read [])) \<lparr>t_user = None, t_world = ex_world, t_sent = []\<rparr> = (ok, c, t) \<and> t_world t = ex_world \<and> t_sent t = []"
proof -
  have k: "\<not> knows_main_user ex_hash ex_login_env (concat [packet_send TYPE(32) 7 [1, 2]])"
    by (simp add: knows_main_user_def ex_login_env_def ex_wrong)
  obtain ok c t where f: "client_feed TYPE(32) (term_known ex_login_env) (term_handle ex_login_env (program_users ex_hash [] [])) [packet_send TYPE(32) 7 [1, 2]]
      (packet_client_new (header_read [])) \<lparr>t_user = None, t_world = ex_world, t_sent = []\<rparr> = (ok, c, t)" using prod_cases3 by blast
  show ?thesis using terminal_guarded [OF ex_hash_length k f] f by blast
qed

text \<open>
  The login that \<^verbatim>\<open>main\<close> provides for works with every configuration: the hexadecimal hash of the name \<open>1\<close> twice gives
  all rights, and the client is told so and sent the state of the system.
\<close>

theorem main_user_admitted:
  assumes H: "\<And>x. length (H x) = MAX_HASH_SIZE" and m: "te_login e bs = Some (String_FromBuffer (H (bytes_of ''1'')), String_FromBuffer (H (bytes_of ''1'')))"
    and t: "t_user t = None"
  shows "\<exists>u. packetLogin e (program_users H memory xs) bs t
      = (True, sendDefaultMessage e (term_send (M_Login 1 0xFFFFFFFF) (t\<lparr>t_user := Some u\<rparr>)))"
proof -
  have h: "hash_text (Some (String_FromBuffer (H (bytes_of ''1'')))) = H (bytes_of ''1'')" by (rule hash_text_hex [OF H])
  obtain cs where c: "program_users H memory xs = main_users H memory @ cs"
    using LoadUsers_users [of H memory xs "main_users H memory"] by (metis prod.collapse)
  have "LoginHash (program_users H memory xs) (H (bytes_of ''1'')) (H (bytes_of ''1'')) = (Some (main_user H ''1'' 0xFFFFFFFF), LR_SUCCESS)"
    unfolding LoginHash_def c FindHash_append main_found [OF H H] by (simp add: main_user_def CmpHash_iff H)
  moreover have "GetAccess False (main_user H ''1'' 0xFFFFFFFF) = 0xFFFFFFFF" by (simp add: main_user_def GetAccess_def)
  ultimately show ?thesis using m t
    by (intro exI [of _ "main_user H ''1'' 0xFFFFFFFF"]) (simp add: packetLogin_def h ACCESS_SA_def)
qed

definition ex_main_env :: term_env where
  "ex_main_env = ex_login_env\<lparr>te_login := (\<lambda>_. Some (String_FromBuffer (ex_hash (bytes_of ''1'')), String_FromBuffer (ex_hash (bytes_of ''1''))))\<rparr>"

theorem main_user_admitted_witness:
  "fst (packetLogin ex_main_env (program_users ex_hash [] []) [] \<lparr>t_user = None, t_world = ex_world, t_sent = []\<rparr>)"
  using main_user_admitted [where H = ex_hash and e = ex_main_env and memory = "[]" and xs = "[]" and bs = "[]" and
      t = "\<lparr>t_user = None, t_world = ex_world, t_sent = []\<rparr>"] by (auto simp: ex_hash_length ex_main_env_def)

end
