(* ===== verification/TcpServer.thy ===== *)
theory TcpServer
  imports Types
begin

text \<open>
  The servers on TCP of \<^verbatim>\<open>src/shared/tcp_class.cpp\<close> and the sending of \<^verbatim>\<open>src/shared/tcp_client.cpp\<close>: one
  round of \<^verbatim>\<open>rTCPClass::Proccesing\<close> with what the operating system answers as an argument. What a
  server does with a new client and with bytes it receives are its virtual functions, arguments too. File
  descriptors below 64 are meant, for which \<^verbatim>\<open>select\<close> reports nothing above the one it is given.
\<close>

section \<open>The list of addresses\<close>

definition CheckWhiteIP :: "UDINT list \<Rightarrow> UDINT \<Rightarrow> bool" where
  "CheckWhiteIP white ip \<longleftrightarrow> white = [] \<or> ip \<in> set white"

definition AddWhiteIP :: "UDINT \<Rightarrow> UDINT list \<Rightarrow> UDINT \<times> UDINT list" where
  "AddWhiteIP ip white = (if ip \<in> set white then (2, white) else (1, white @ [ip]))"

text \<open>\<open>pton\<close> is \<^verbatim>\<open>inet_pton\<close>.\<close>

definition AddWhiteIP_text :: "(string \<Rightarrow> UDINT option) \<Rightarrow> string \<Rightarrow> UDINT list \<Rightarrow> UDINT \<times> UDINT list" where
  "AddWhiteIP_text pton strip white = (case pton strip of None \<Rightarrow> (0, white) | Some ip \<Rightarrow> AddWhiteIP ip white)"

section \<open>Sending\<close>

text \<open>
  The loop of \<^verbatim>\<open>rClientTCP::Send\<close>: \<open>rs\<close> are the results of \<^verbatim>\<open>send\<close>, a negative one for an error, kept
  in an unsigned variable. The result is that of the last call, with the bytes that went out;
  \<^const>\<open>None\<close> when the results do not suffice.
\<close>

fun client_Send :: "'b list \<Rightarrow> UDINT \<Rightarrow> UDINT \<Rightarrow> int list \<Rightarrow> (UDINT \<times> 'b list) option" where
  "client_Send buff size0 sendbytes [] = None"
| "client_Send buff size0 sendbytes (r # rs) =
     (let result = word_of_int r :: UDINT; went = (if r > 0 then take (nat r) (drop (unat sendbytes) buff) else []) in
      if result = 0 then Some (result, went)
      else let sendbytes' = sendbytes + result in
        if sendbytes' < size0 then map_option (\<lambda>(v, out). (v, went @ out)) (client_Send buff size0 sendbytes' rs)
        else Some (result, went))"

section \<open>A round of the server\<close>

definition ERRNO_EAGAIN :: int where "ERRNO_EAGAIN = 11"
definition ERRNO_EWOULDBLOCK :: int where "ERRNO_EWOULDBLOCK = 11"

datatype 'b recv_result = R_Data "'b list" | R_Closed | R_Error int

record 'b poll =
  po_select :: bool
  po_accept :: "(nat \<times> UDINT) option"
  po_nodelay :: bool
  po_read :: "nat \<Rightarrow> bool"
  po_except :: "nat \<Rightarrow> bool"
  po_recv :: "nat \<Rightarrow> 'b recv_result"

text \<open>Clients are kept with their descriptors; \<open>'s\<close> is the state of the server behind the sockets.\<close>

record ('c, 's) server =
  sv_socket :: nat
  sv_started :: bool
  sv_max :: nat
  sv_white :: "UDINT list"
  sv_clients :: "(nat \<times> 'c) list"
  sv_state :: 's

definition ReadFromClient :: "('b list \<Rightarrow> 'c \<Rightarrow> 's \<Rightarrow> bool \<times> 'c \<times> 's) \<Rightarrow> 'b recv_result \<Rightarrow> 'c \<Rightarrow> 's \<Rightarrow> bool \<times> 'c \<times> 's" where
  "ReadFromClient h r c s = (case r of R_Data bs \<Rightarrow> h bs c s | R_Closed \<Rightarrow> (False, c, s)
     | R_Error e \<Rightarrow> (e \<noteq> ERRNO_EAGAIN \<or> e \<noteq> ERRNO_EWOULDBLOCK, c, s))"

text \<open>Every client overwrites the maximum the clients before it gave.\<close>

definition server_maxfd :: "nat \<Rightarrow> (nat \<times> 'c) list \<Rightarrow> nat" where
  "server_maxfd sock cl = foldl (\<lambda>m c. max sock (fst c)) sock cl"

definition server_accept :: "'b poll \<Rightarrow> (nat \<Rightarrow> UDINT \<Rightarrow> 's \<Rightarrow> 'c) \<Rightarrow> ('c, 's) server \<Rightarrow> ('c, 's) server" where
  "server_accept po new sv = (case po_accept po of None \<Rightarrow> sv
     | Some (fd, ip) \<Rightarrow> if \<not> CheckWhiteIP (sv_white sv) ip then sv
         else let cl = sv_clients sv @ [(fd, new fd ip (sv_state sv))] in
           if length cl > sv_max sv then sv\<lparr>sv_clients := List.tl cl\<rparr>
           else if \<not> po_nodelay po then sv\<lparr>sv_clients := butlast cl\<rparr>
           else sv\<lparr>sv_clients := cl\<rparr>)"

fun serve_clients :: "('b list \<Rightarrow> 'c \<Rightarrow> 's \<Rightarrow> bool \<times> 'c \<times> 's) \<Rightarrow> (nat \<Rightarrow> bool) \<Rightarrow> (nat \<Rightarrow> bool) \<Rightarrow> (nat \<Rightarrow> 'b recv_result)
    \<Rightarrow> (nat \<times> 'c) list \<Rightarrow> 's \<Rightarrow> (nat \<times> 'c) list \<times> 's" where
  "serve_clients h rd ex recv [] s = ([], s)"
| "serve_clients h rd ex recv ((fd, c) # cl) s =
     (if ex fd then serve_clients h rd ex recv cl s
      else if rd fd then (case ReadFromClient h (recv fd) c s of (ok, c1, s1) \<Rightarrow>
        case serve_clients h rd ex recv cl s1 of (cl1, s2) \<Rightarrow> (if ok then (fd, c1) # cl1 else cl1, s2))
      else (case serve_clients h rd ex recv cl s of (cl1, s1) \<Rightarrow> ((fd, c) # cl1, s1)))"

text \<open>The sets hold the clients there were before the round, and what \<^verbatim>\<open>select\<close> was not asked about is not reported.\<close>

definition server_round :: "('b list \<Rightarrow> 'c \<Rightarrow> 's \<Rightarrow> bool \<times> 'c \<times> 's) \<Rightarrow> (nat \<Rightarrow> UDINT \<Rightarrow> 's \<Rightarrow> 'c) \<Rightarrow> 'b poll \<Rightarrow> ('c, 's) server
    \<Rightarrow> ('c, 's) server" where
  "server_round h new po sv = (if \<not> sv_started sv then sv
     else let asked = fst ` set (sv_clients sv); top = server_maxfd (sv_socket sv) (sv_clients sv);
       seen = (\<lambda>p fd. fd \<in> asked \<and> (po_select po \<longrightarrow> fd \<le> top \<and> p fd));
       sv1 = (if po_select po then server_accept po new sv else sv)
     in (case serve_clients h (seen (po_read po)) (seen (po_except po)) (po_recv po) (sv_clients sv1) (sv_state sv1) of
       (cl, s) \<Rightarrow> sv1\<lparr>sv_clients := cl, sv_state := s\<rparr>))"

text \<open>\<^verbatim>\<open>rTCPClass::Send\<close>: \<open>snd1\<close> sends to one client; the result counts those that did not take everything.\<close>

fun server_Send :: "('b list \<Rightarrow> 'c \<Rightarrow> UDINT \<times> 'c) \<Rightarrow> nat option \<Rightarrow> 'b list \<Rightarrow> (nat \<times> 'c) list \<Rightarrow> UDINT \<times> (nat \<times> 'c) list" where
  "server_Send snd1 only packet [] = (0, [])"
| "server_Send snd1 only packet ((fd, c) # cl) = (case server_Send snd1 only packet cl of (n, cl1) \<Rightarrow>
     if packet = [] \<or> (case only of None \<Rightarrow> False | Some f \<Rightarrow> f \<noteq> fd) then (n, (fd, c) # cl1)
     else case snd1 packet c of (r, c1) \<Rightarrow> (n + (if r \<noteq> of_nat (length packet) then 1 else 0), (fd, c1) # cl1))"

section \<open>Properties\<close>

lemma serve_clients_fewer: "length (fst (serve_clients h rd ex recv cl s)) \<le> length cl"
  by (induction h rd ex recv cl s rule: serve_clients.induct) (auto split: prod.splits intro: le_SucI)

lemma server_accept_bound: "length (sv_clients sv) \<le> sv_max sv \<Longrightarrow> length (sv_clients (server_accept po new sv)) \<le> sv_max sv"
  by (auto simp: server_accept_def Let_def split: option.splits)

lemma server_accept_max [simp]: "sv_max (server_accept po new sv) = sv_max sv" "sv_state (server_accept po new sv) = sv_state sv"
  by (auto simp: server_accept_def Let_def split: option.splits)

lemma server_round_max [simp]: "sv_max (server_round h new po sv) = sv_max sv"
  by (simp add: server_round_def Let_def split: prod.split)

definition round_seen :: "'b poll \<Rightarrow> ('c, 's) server \<Rightarrow> (nat \<Rightarrow> bool) \<Rightarrow> nat \<Rightarrow> bool" where
  "round_seen po sv p fd \<longleftrightarrow> fd \<in> fst ` set (sv_clients sv)
     \<and> (po_select po \<longrightarrow> fd \<le> server_maxfd (sv_socket sv) (sv_clients sv) \<and> p fd)"

lemma server_round_clients:
  "sv_clients (server_round h new po sv) = (if \<not> sv_started sv then sv_clients sv else
     let sv1 = (if po_select po then server_accept po new sv else sv)
     in fst (serve_clients h (round_seen po sv (po_read po)) (round_seen po sv (po_except po)) (po_recv po) (sv_clients sv1) (sv_state sv1)))"
  by (simp add: server_round_def Let_def round_seen_def [abs_def] split: prod.split)

text \<open>The number of clients stays within the limit of the server.\<close>

lemma clients_bounded:
  assumes "length (sv_clients sv) \<le> sv_max sv"
  shows "length (sv_clients (server_round h new po sv)) \<le> sv_max sv"
proof -
  define sv1 where "sv1 = (if po_select po then server_accept po new sv else sv)"
  have "length (sv_clients sv1) \<le> sv_max sv" using assms server_accept_bound [OF assms, of po new] by (simp add: sv1_def)
  then have f: "length (fst (serve_clients h rd ex recv (sv_clients sv1) (sv_state sv1))) \<le> sv_max sv" for rd ex recv
    by (rule le_trans [OF serve_clients_fewer])
  have "sv_clients (server_round h new po sv) = (if \<not> sv_started sv then sv_clients sv else
      fst (serve_clients h (round_seen po sv (po_read po)) (round_seen po sv (po_except po)) (po_recv po) (sv_clients sv1) (sv_state sv1)))"
    unfolding server_round_clients sv1_def Let_def ..
  then show ?thesis using assms f by (cases "sv_started sv") simp_all
qed

text \<open>
  What a server promises the class derived from it: the rounds do with its state only what the handler of received bytes
  does.
\<close>

locale tcp_handler =
  fixes handler :: "'b list \<Rightarrow> 'c \<Rightarrow> 's \<Rightarrow> bool \<times> 'c \<times> 's" and inv :: "'s \<Rightarrow> bool"
  assumes handler_keeps: "inv s \<Longrightarrow> handler bs c s = (ok, c1, s1) \<Longrightarrow> inv s1"
begin

lemma read_keeps: "inv s \<Longrightarrow> ReadFromClient handler r c s = (ok, c1, s1) \<Longrightarrow> inv s1"
  by (cases r) (auto simp: ReadFromClient_def dest: handler_keeps)

lemma serve_keeps: "inv s \<Longrightarrow> inv (snd (serve_clients handler rd ex rcv cl s))"
proof (induction cl arbitrary: s)
  case (Cons a cl)
  obtain fd c where a: "a = (fd, c)" by force
  show ?case
  proof (cases "rd fd \<and> \<not> ex fd")
    case True
    obtain ok c1 s1 where r: "ReadFromClient handler (rcv fd) c s = (ok, c1, s1)" using prod_cases3 by blast
    have "inv (snd (serve_clients handler rd ex rcv cl s1))" using Cons.IH read_keeps [OF Cons.prems r] .
    then show ?thesis using True by (auto simp: a r split: prod.split)
  next
    case False
    have "inv (snd (serve_clients handler rd ex rcv cl s))" using Cons.IH Cons.prems .
    then show ?thesis using False by (auto simp: a split: prod.split)
  qed
qed simp

lemma round_keeps: "inv (sv_state sv) \<Longrightarrow> inv (sv_state (server_round handler new po sv))"
  using serve_keeps [of "sv_state (if po_select po then server_accept po new sv else sv)"]
  by (auto simp: server_round_def Let_def split: prod.split dest!: arg_cong [where f = snd])

end

lemma server_maxfd_last: "cl \<noteq> [] \<Longrightarrow> server_maxfd sock cl = max sock (fst (last cl))"
  by (induction cl rule: rev_induct) (simp_all add: server_maxfd_def)

lemma serve_unseen: "\<not> rd fd \<Longrightarrow> \<not> ex fd \<Longrightarrow> (fd, c) \<in> set cl \<Longrightarrow> (fd, c) \<in> set (fst (serve_clients h rd ex recv cl s))"
proof (induction cl arbitrary: s)
  case (Cons a cl)
  obtain fd' c' where a: "a = (fd', c')" by force
  obtain ok c1 s1 where r: "ReadFromClient h (recv fd') c' s = (ok, c1, s1)" using prod_cases3 by blast
  obtain cl1 s2 where i: "serve_clients h rd ex recv cl s1 = (cl1, s2)" by force
  obtain cl2 s3 where j: "serve_clients h rd ex recv cl s = (cl2, s3)" by force
  have "(fd, c) \<in> set cl \<Longrightarrow> (fd, c) \<in> set cl1 \<and> (fd, c) \<in> set cl2" using Cons.IH [of s1] Cons.IH [of s] Cons.prems(1,2) i j by simp
  then show ?case using Cons.prems by (auto simp: a r i j)
qed simp

text \<open>
  A server with several clients can starve one: a client whose descriptor is above those of the socket and of the last
  client of the list is not watched, so whatever it sends, it stays as it is and nothing of it is read.
\<close>

theorem client_starved:
  assumes "sv_started sv" "po_select po" "po_accept po = None" "(fd, c) \<in> set (sv_clients sv)"
    "fd > sv_socket sv" "fd > fst (last (sv_clients sv))"
  shows "(fd, c) \<in> set (sv_clients (server_round h new po sv))"
proof -
  have "sv_clients sv \<noteq> []" using assms(4) by auto
  then have t: "\<not> fd \<le> server_maxfd (sv_socket sv) (sv_clients sv)" using assms(5,6) by (simp add: server_maxfd_last)
  have a: "server_accept po new sv = sv" using assms(3) by (simp add: server_accept_def)
  have "\<not> round_seen po sv p fd" for p using assms(2) t by (simp add: round_seen_def)
  then show ?thesis using assms(1,2,4) by (simp add: server_round_clients a serve_unseen)
qed

definition ex_poll :: "nat poll" where
  "ex_poll = \<lparr>po_select = True, po_accept = None, po_nodelay = True, po_read = (\<lambda>fd. True), po_except = (\<lambda>fd. False), po_recv = (\<lambda>fd. R_Data [5])\<rparr>"

text \<open>Two clients that keep what they are sent: the first, on the descriptor 9, gets nothing.\<close>

theorem client_starved_witness:
  "(9, []) \<in> set (sv_clients (server_round (\<lambda>bs c s. (True, c @ bs, s)) (\<lambda>fd ip s. []) ex_poll
     \<lparr>sv_socket = 3, sv_started = True, sv_max = 2, sv_white = [], sv_clients = [(9, []), (7, [])], sv_state = ()\<rparr>))"
  by (rule client_starved) (simp_all add: ex_poll_def)

text \<open>
  When the operating system takes a packet in parts and then cannot take more for a moment, a byte goes out twice: the
  error is added to the position as \<open>- 1\<close>, and the loop goes on one byte earlier.
\<close>

theorem send_repeats_byte:
  assumes n: "0 < n" "n < length packet" "length packet < 2 ^ 31"
  shows "client_Send packet (of_nat (length packet)) 0 [int n, - 1, int (length packet - n + 1)]
    = Some (of_nat (length packet - n + 1), take n packet @ drop (n - 1) packet)"
proof -
  obtain m where m: "n = Suc m" using n(1) by (cases n) auto
  have u: "unat (of_nat k :: UDINT) = k" if "k < 2 ^ 31" for k using that by (simp add: unat_of_nat)
  have b: "Suc m < 2 ^ 31" "m < 2 ^ 31" "length packet < 2 ^ 31" "length packet - m < 2 ^ 31" "Suc m < length packet" using n by (simp_all add: m)
  have l: "(of_nat (Suc m) :: UDINT) < of_nat (length packet)" "(of_nat m :: UDINT) < of_nat (length packet)"
    unfolding word_less_nat_alt u [OF b(1)] u [OF b(2)] u [OF b(3)] using b(5) by linarith+
  have z: "(of_nat (Suc m) :: UDINT) \<noteq> 0" "(of_nat (length packet - m) :: UDINT) \<noteq> 0"
    unfolding word_unat_eq_iff u [OF b(1)] u [OF b(4)] using b(5) by simp_all
  have e: "(of_nat m :: UDINT) + of_nat (length packet - m) = of_nat (length packet)"
    using n by (simp add: m flip: of_nat_add)
  have um: "unat (of_nat m :: UDINT) = m" using n by (intro u) (simp add: m)
  have c: "word_of_int (int (Suc m)) = (of_nat (Suc m) :: UDINT)" "word_of_int (int (length packet - m)) = (of_nat (length packet - m) :: UDINT)"
    "of_nat (Suc m) + word_of_int (- 1) = (of_nat m :: UDINT)" by simp_all
  have k: "length packet - n + 1 = length packet - m" using n by (simp add: m)
  have nm: "nat (1 + int m) = Suc m" by linarith
  show ?thesis unfolding k unfolding m using n l z
    by (simp only: client_Send.simps Let_def c e add_0 l z if_True if_False um) (simp add: m um nm)
qed

theorem send_repeats_byte_witness:
  "client_Send ''abc'' 3 0 [2, - 1, 2] = Some (2, ''abbc'')"
  using send_repeats_byte [of 2 "''abc''"] by simp

end
