(* ===== verification/EventManager.thy ===== *)
theory EventManager
  imports Users Texts TcpServer TickCount
begin

text \<open>
  The event manager of \<^verbatim>\<open>src/tritonn/event/manager.cpp\<close>: the lists of events, the alarm count, what the
  clients of the event port are sent, and how the text of an event is made from its template. Names of
  text identifiers, how floating numbers are printed, and how a time is, are arguments.
\<close>

section \<open>Numbers in templates\<close>

datatype pn_state = PN_NUMBER | PN_DOT | PN_EXP | PN_PREC

text \<open>The number, the precision and the exponent's form, which the caller presets.\<close>

record pn_out =
  pn_num :: UDINT
  pn_prec :: UDINT
  pn_exp :: UDINT

definition take_number :: "string \<Rightarrow> UDINT \<Rightarrow> UDINT" where
  "take_number s old = (if s \<noteq> [] then word_of_int (int (digits_value s)) else old)"

text \<open>The loop of \<^verbatim>\<open>parseNumber\<close> at position \<open>i\<close>; behind the text is its null.\<close>

definition at_char :: "string \<Rightarrow> nat \<Rightarrow> char" where
  "at_char str i = (if i < length str then str ! i else CHR 0x00)"

function parse_loop :: "string \<Rightarrow> pn_state \<Rightarrow> string \<Rightarrow> nat \<Rightarrow> pn_out \<Rightarrow> nat \<times> pn_out" where
  "parse_loop str st acc i o1 = (if at_char str i = CHR 0x00 then
       (i, if st = PN_NUMBER then o1\<lparr>pn_num := take_number acc (pn_num o1)\<rparr> else o1\<lparr>pn_prec := take_number acc (pn_prec o1)\<rparr>)
     else case st of
       PN_NUMBER \<Rightarrow>
         if at_char str i = CHR ''.'' then
           (if acc = [] then (0, o1) else parse_loop str PN_DOT [] i (o1\<lparr>pn_num := take_number acc (pn_num o1)\<rparr>))
         else if is_digit (at_char str i) then parse_loop str PN_NUMBER (acc @ [at_char str i]) (Suc i) o1
         else (i, o1\<lparr>pn_num := take_number acc (pn_num o1)\<rparr>)
     | PN_DOT \<Rightarrow>
         if at_char str (Suc i) = CHR ''e'' \<or> at_char str (Suc i) = CHR ''E'' then parse_loop str PN_EXP acc (Suc i) o1
         else if is_digit (at_char str (Suc i)) then parse_loop str PN_PREC acc (Suc i) o1
         else (i, o1)
     | PN_EXP \<Rightarrow>
         (let o2 = o1\<lparr>pn_exp := (if at_char str (Suc i) = CHR ''e'' then 1 else 2)\<rparr> in
          if is_digit (at_char str (Suc i)) then parse_loop str PN_PREC [] (Suc i) o2 else (Suc i, o2))
     | PN_PREC \<Rightarrow>
         if is_digit (at_char str i) then parse_loop str PN_PREC (acc @ [at_char str i]) (Suc i) o1
         else (i, o1\<lparr>pn_prec := take_number acc (pn_prec o1)\<rparr>))"
  by pat_completeness auto
termination
  by (relation "measure (\<lambda>(str, st, acc, i, o1). 2 * (length str - i) + (if st = PN_NUMBER then 1 else 0))")
    (auto simp: at_char_def split: if_splits)

declare parse_loop.simps [simp del]

definition parseNumber :: "string \<Rightarrow> pn_out \<Rightarrow> nat \<times> pn_out" where
  "parseNumber str o1 = parse_loop str PN_NUMBER [] 0 o1"

section \<open>Texts of events\<close>

text \<open>
  \<open>ef_float\<close> has the form (0 \<^verbatim>\<open>f\<close>, 1 \<^verbatim>\<open>e\<close>, 2 \<^verbatim>\<open>E\<close>) and the precision; \<open>ef_text\<close> is the text manager,
  \<open>ef_descr\<close> the templates.
\<close>

record event_texts =
  ef_float :: "UDINT \<Rightarrow> UDINT \<Rightarrow> rawparam \<Rightarrow> string"
  ef_text :: "UDINT \<Rightarrow> string option"
  ef_descr :: "UDINT \<Rightarrow> string option"
  ef_prec :: rPrecision
  ef_time :: "rDateTime \<Rightarrow> string"

text \<open>A parameter by its number: \<^const>\<open>None\<close> is the null pointer, also for a read behind the buffer of a received event.\<close>

definition event_param :: "rEvent \<Rightarrow> UDINT \<Rightarrow> (TYPEID \<times> bytes) option" where
  "event_param e ID = (case getParamByID ID e of Inr (Some (t, p)) \<Rightarrow> Some (t, drop p (Event.m_data e)) | _ \<Rightarrow> None)"

text \<open>The precision of the unit nearest before the parameter: \<open>js\<close> are the numbers to look at.\<close>

fun unit_prec :: "event_texts \<Rightarrow> rEvent \<Rightarrow> nat list \<Rightarrow> UDINT" where
  "unit_prec ef e [] = ucast PREC_DEFAULT"
| "unit_prec ef e (j # js) = (case event_param e (of_nat j) of
     Some (T_STRID, bs) \<Rightarrow> if (le_word (take 4 bs) :: UDINT) < MAX_UNITS_COUNT then ucast (prec_get (le_word (take 4 bs)) (ef_prec ef))
       else unit_prec ef e js
   | _ \<Rightarrow> unit_prec ef e js)"

definition no_prec :: UDINT where "no_prec = 0xFFFFFFFF"

definition parseParameter :: "event_texts \<Rightarrow> rEvent \<Rightarrow> string \<Rightarrow> string \<times> nat" where
  "parseParameter ef e str = (case parseNumber str \<lparr>pn_num = 0, pn_prec = no_prec, pn_exp = 0\<rparr> of (n, p) \<Rightarrow>
     (case event_param e (pn_num p - 1) of None \<Rightarrow> ''<?>''
      | Some (t, bs) \<Rightarrow>
          let prec = (if pn_prec p = no_prec \<and> (t = T_LREAL \<or> t = T_REAL) then unit_prec ef e (rev [0..<unat (pn_num p) - 1]) else pn_prec p) in
          if t = T_UNDEF then ''<undefine type>''
          else (case param_read t bs of
             Some (P_SINT v) \<Rightarrow> dec_int (sint v) | Some (P_USINT v) \<Rightarrow> dec (unat v) | Some (P_INT v) \<Rightarrow> dec_int (sint v)
           | Some (P_UINT v) \<Rightarrow> dec (unat v) | Some (P_DINT v) \<Rightarrow> dec_int (sint v) | Some (P_UDINT v) \<Rightarrow> dec (unat v)
           | Some (P_REAL v) \<Rightarrow> ef_float ef (pn_exp p) prec (P_REAL v) | Some (P_LREAL v) \<Rightarrow> ef_float ef (pn_exp p) prec (P_LREAL v)
           | Some (P_STRID v) \<Rightarrow> (case ef_text ef v of None \<Rightarrow> ''<unknow sid '' @ dec (unat v) @ ''>'' | Some s \<Rightarrow> s)
           | None \<Rightarrow> ''<unknow type>''), n))"

function describe :: "(string \<Rightarrow> string \<times> nat) \<Rightarrow> string \<Rightarrow> string" where
  "describe pp [] = []"
| "describe pp [c] = [c]"
| "describe pp (c # d # cs) = (if c \<noteq> CHR ''$'' then c # describe pp (d # cs)
     else if d = CHR ''$'' then CHR ''$'' # describe pp cs
     else if \<not> is_digit d then c # describe pp (d # cs)
     else (case pp (d # cs) of (t, n) \<Rightarrow> t @ describe pp (drop n (d # cs))))"
  by pat_completeness auto
termination
  by (relation "measure (\<lambda>(pp, s). length s)") auto

definition getDescr :: "event_texts \<Rightarrow> rEvent \<Rightarrow> string" where
  "getDescr ef e = (case ef_descr ef (m_EID e) of None \<Rightarrow> ''Event '' @ dec (unat (m_EID e)) @ '' does not exist''
     | Some t \<Rightarrow> if t = [] then ''Event '' @ dec (unat (m_EID e)) @ '' have not decription'' else describe (parseParameter ef e) t)"

section \<open>The manager\<close>

definition MAX_EVENT :: nat where "MAX_EVENT = 100"
definition MAX_ALARM :: UDINT where "MAX_ALARM = 3"
definition MAX_CLIENT :: nat where "MAX_CLIENT = 2"
definition SYSTEM_TIMER :: UDINT where "SYSTEM_TIMER = 24 * 60 * 60 * 100"
definition SEC_IN_DAY :: UDINT where "SEC_IN_DAY = 24 * 60 * 60"
definition DIR_EVENT :: string where "DIR_EVENT = ''./www/application/core/events/''"
definition EVENT_DELETE_DAYS :: UDINT where "EVENT_DELETE_DAYS = 366"

definition LOG_I :: UDINT where "LOG_I = 0x00000001"
definition LOG_W :: UDINT where "LOG_W = 0x00000002"
definition LOG_A :: UDINT where "LOG_A = 0x00000004"
definition LOG_EVENT :: UDINT where "LOG_EVENT = 0x00000080"

text \<open>What the system manager is asked for: to pack or to delete old files.\<close>

datatype sys_job = AddTarByTime string string UDINT string | AddDelByTime string string UDINT

record rEventManager =
  em_storage :: UDINT
  em_alarm :: UDINT
  em_list :: "rEvent list"
  em_archive :: "rEvent list"
  em_timer :: rTickCount
  em_log :: "(UDINT \<times> rDateTime \<times> string) list"
  em_os :: files
  em_jobs :: "sys_job list"

definition events_new :: "timeval \<Rightarrow> files \<Rightarrow> rEventManager" where
  "events_new now fs = \<lparr>em_storage = 92, em_alarm = 0, em_list = [], em_archive = [], em_timer = tick_start now SYSTEM_TIMER (tick_new now),
     em_log = [], em_os = fs, em_jobs = []\<rparr>"

fun hex_text :: "nat \<Rightarrow> nat \<Rightarrow> string" where
  "hex_text 0 n = []"
| "hex_text (Suc k) n = hex_text k (n div 16) @ [char_of (if n mod 16 < 10 then 48 + n mod 16 else 87 + n mod 16)]"

definition event_toString :: "event_texts \<Rightarrow> rEvent \<Rightarrow> string" where
  "event_toString ef e = ef_time ef (m_timestamp e) @ [CHR 0x09] @ hex_text 8 (unat (m_EID e)) @ [CHR 0x09] @ hex_text 2 (unat (Event.m_size e))
     @ [CHR 0x09] @ String_FromBuffer (Event.m_data e)"

definition event_save :: "event_texts \<Rightarrow> rEvent \<Rightarrow> files \<Rightarrow> files" where
  "event_save ef e fs = snd (simpleFileAppend (DIR_EVENT @ dec (unat ((ucast (tv_sec (m_timestamp e)) :: UDINT) div SEC_IN_DAY)) @ ''.event'')
     (event_toString ef e @ [CHR 0x0A]) fs)"

fun trim_archive :: "rEvent list \<Rightarrow> rEvent list" where
  "trim_archive [] = []"
| "trim_archive (e # es) = (if length (e # es) > MAX_EVENT then trim_archive es else e # es)"

definition log_mask :: "DINT \<Rightarrow> UDINT" where
  "log_mask t = (if t = ucast EMT_INFO \<or> t = ucast EMT_SUCCESS then LOG_EVENT OR LOG_I else if t = ucast EMT_WARNING then LOG_EVENT OR LOG_W
     else if t = ucast EMT_ERROR then LOG_EVENT OR LOG_A else LOG_EVENT)"

definition em_add :: "event_texts \<Rightarrow> rEvent \<Rightarrow> rEventManager \<Rightarrow> rEventManager" where
  "em_add ef e m = (if m_EID e = 0 then m
     else m\<lparr>em_archive := trim_archive (em_archive m) @ [e], em_list := em_list m @ [e],
       em_alarm := (if eid_getType (m_EID e) = ucast EMT_ERROR \<and> em_alarm m < MAX_ALARM then em_alarm m + 1 else em_alarm m),
       em_log := em_log m @ [(log_mask (eid_getType (m_EID e)), m_timestamp e, getDescr ef e)],
       em_os := event_save ef e (em_os m)\<rparr>)"

definition em_addEvent :: "event_texts \<Rightarrow> rDateTime \<Rightarrow> DINT \<Rightarrow> rEventManager \<Rightarrow> rEventManager" where
  "em_addEvent ef now eid m = em_add ef (event_new_eid now eid) m"

definition em_addEventUDINT :: "event_texts \<Rightarrow> rDateTime \<Rightarrow> DINT \<Rightarrow> UDINT \<Rightarrow> rEventManager \<Rightarrow> rEventManager" where
  "em_addEventUDINT ef now eid v m = em_add ef (snd (event_add (P_UDINT v) (event_new_eid now eid))) m"

definition em_confirm :: "rEventManager \<Rightarrow> rEventManager" where "em_confirm m = m\<lparr>em_alarm := 0\<rparr>"

definition setStorage :: "UDINT \<Rightarrow> rEventManager \<Rightarrow> rEventManager" where
  "setStorage days m = m\<lparr>em_storage := (if days > 180 then 180 else days)\<rparr>"

text \<open>\<open>snd1\<close> sends bytes to a client; a new client gets all events that wait.\<close>

definition em_NewClient :: "(bytes \<Rightarrow> 'c \<Rightarrow> UDINT \<times> 'c) \<Rightarrow> 'c \<Rightarrow> rEventManager \<Rightarrow> 'c" where
  "em_NewClient snd1 c m = snd (snd1 (concat (List.map event_bytes (em_list m))) c)"

text \<open>\<^verbatim>\<open>ClientRecv\<close> gives \<^verbatim>\<open>TRITONN_RESULT_OK\<close>, which is 0.\<close>

definition em_ClientRecv :: "bytes \<Rightarrow> 'c \<Rightarrow> rEventManager \<Rightarrow> bool \<times> 'c \<times> rEventManager" where
  "em_ClientRecv bs c m = (TRITONN_RESULT_OK \<noteq> 0, c, m)"

definition em_deliver :: "(bytes \<Rightarrow> 'c \<Rightarrow> UDINT \<times> 'c) \<Rightarrow> ('c, rEventManager) server \<Rightarrow> ('c, rEventManager) server" where
  "em_deliver snd1 sv = (if sv_clients sv = [] then sv
     else sv\<lparr>sv_clients := foldl (\<lambda>cl e. snd (server_Send snd1 None (event_bytes e) cl)) (sv_clients sv) (em_list (sv_state sv)),
       sv_state := (sv_state sv)\<lparr>em_list := []\<rparr>\<rparr>)"

definition em_timer_jobs :: "timeval \<Rightarrow> rDateTime \<Rightarrow> rEventManager \<Rightarrow> rEventManager" where
  "em_timer_jobs now dt m = (if \<not> tick_isFinished now (em_timer m) then m
     else m\<lparr>em_jobs := em_jobs m @ [AddTarByTime DIR_EVENT ''*.event'' (em_storage m) (dec (unat ((ucast (tv_sec dt) :: UDINT) div SEC_IN_DAY))),
         AddDelByTime DIR_EVENT ''*.event'' (em_storage m), AddDelByTime DIR_EVENT ''*.tar.gz'' EVENT_DELETE_DAYS],
       em_timer := tick_restart now (em_timer m)\<rparr>)"

definition em_round :: "(bytes \<Rightarrow> 'c \<Rightarrow> UDINT \<times> 'c) \<Rightarrow> (nat \<Rightarrow> 'c) \<Rightarrow> timeval \<Rightarrow> rDateTime \<Rightarrow> 8 word poll \<Rightarrow> ('c, rEventManager) server
    \<Rightarrow> ('c, rEventManager) server" where
  "em_round snd1 c0 now dt po sv = (let sv1 = em_deliver snd1 (server_round em_ClientRecv (\<lambda>fd ip m. em_NewClient snd1 (c0 fd) m) po sv)
     in sv1\<lparr>sv_state := em_timer_jobs now dt (sv_state sv1)\<rparr>)"

section \<open>Properties\<close>

lemma trim_archive_length: "length (trim_archive es) \<le> MAX_EVENT"
  by (induction es) auto

definition events_ok :: "rEventManager \<Rightarrow> bool" where
  "events_ok m \<longleftrightarrow> length (em_archive m) \<le> Suc MAX_EVENT \<and> em_alarm m \<le> MAX_ALARM \<and> em_storage m \<le> 180"

lemma events_ok_ops:
  "events_ok (events_new now fs)"
  "events_ok m \<Longrightarrow> events_ok (em_add ef e m)" "events_ok m \<Longrightarrow> events_ok (em_confirm m)" "events_ok m \<Longrightarrow> events_ok (setStorage days m)"
  "events_ok m \<Longrightarrow> events_ok (m\<lparr>em_list := es\<rparr>)" "events_ok m \<Longrightarrow> events_ok (em_timer_jobs now dt m)"
  using trim_archive_length inc_le [of "em_alarm m" MAX_ALARM]
  by (simp_all add: events_ok_def events_new_def em_add_def em_confirm_def setStorage_def em_timer_jobs_def MAX_ALARM_def not_less)

interpretation event_server: tcp_handler em_ClientRecv events_ok
  by unfold_locales (simp add: em_ClientRecv_def)

lemma server_Send_length: "length (snd (server_Send snd1 only packet cl)) = length cl"
  by (induction snd1 only packet cl rule: server_Send.induct) (auto split: prod.splits)

lemma em_deliver_ok:
  "events_ok (sv_state sv) \<Longrightarrow> events_ok (sv_state (em_deliver snd1 sv))"
  "length (sv_clients (em_deliver snd1 sv)) = length (sv_clients sv)" "sv_max (em_deliver snd1 sv) = sv_max sv"
proof -
  have "length (foldl (\<lambda>cl e. snd (server_Send snd1 None (event_bytes e) cl)) cl es) = length cl" for cl es
    by (induction es arbitrary: cl) (simp_all add: server_Send_length)
  then show "events_ok (sv_state sv) \<Longrightarrow> events_ok (sv_state (em_deliver snd1 sv))"
    "length (sv_clients (em_deliver snd1 sv)) = length (sv_clients sv)" "sv_max (em_deliver snd1 sv) = sv_max sv"
    by (simp_all add: em_deliver_def events_ok_ops)
qed

text \<open>What can happen to the event port: events and commands of the other parts, and its own rounds.\<close>

inductive em_reachable :: "(bytes \<Rightarrow> 'c \<Rightarrow> UDINT \<times> 'c) \<Rightarrow> (nat \<Rightarrow> 'c) \<Rightarrow> event_texts \<Rightarrow> ('c, rEventManager) server \<Rightarrow> bool"
  for snd1 c0 ef where
  start: "em_reachable snd1 c0 ef \<lparr>sv_socket = sock, sv_started = True, sv_max = MAX_CLIENT, sv_white = [], sv_clients = [], sv_state = events_new now fs\<rparr>"
| add: "em_reachable snd1 c0 ef sv \<Longrightarrow> em_reachable snd1 c0 ef (sv\<lparr>sv_state := em_add ef e (sv_state sv)\<rparr>)"
| confirm: "em_reachable snd1 c0 ef sv \<Longrightarrow> em_reachable snd1 c0 ef (sv\<lparr>sv_state := em_confirm (sv_state sv)\<rparr>)"
| storage: "em_reachable snd1 c0 ef sv \<Longrightarrow> em_reachable snd1 c0 ef (sv\<lparr>sv_state := setStorage days (sv_state sv)\<rparr>)"
| round: "em_reachable snd1 c0 ef sv \<Longrightarrow> em_reachable snd1 c0 ef (em_round snd1 c0 now dt po sv)"

lemma trim_archive_drop: "trim_archive es = drop (length es - MAX_EVENT) es"
  by (induction es) (auto simp: Suc_diff_le)

lemma drop_last_Suc:
  assumes "length a \<le> Suc n"
  shows "drop (length (drop (length a - n) a @ e # f) - Suc n) (drop (length a - n) a @ e # f) = drop (length (a @ e # f) - Suc n) (a @ e # f)"
proof (cases "length a \<le> n")
  case False
  then obtain x b where "a = x # b" "length b = n" using assms by (cases a) auto
  then show ?thesis by simp
qed simp

lemma em_adds_archive:
  "length (em_archive m) \<le> Suc MAX_EVENT \<Longrightarrow> em_archive (foldl (\<lambda>m e. em_add ef e m) m es)
     = (let all = em_archive m @ filter (\<lambda>e. m_EID e \<noteq> 0) es in drop (length all - Suc MAX_EVENT) all)"
proof (induction es arbitrary: m)
  case (Cons e es)
  let ?m = "em_add ef e m" and ?k = "length (em_archive m) - MAX_EVENT"
  show ?case
  proof (cases "m_EID e = 0")
    case True
    then show ?thesis using Cons by (simp add: em_add_def)
  next
    case False
    then have a: "em_archive ?m = drop ?k (em_archive m) @ [e]" by (simp add: em_add_def trim_archive_drop)
    have "length (em_archive ?m) \<le> Suc MAX_EVENT" using Cons.prems by (simp add: a)
    from Cons.IH [OF this] show ?thesis
      using drop_last_Suc [OF Cons.prems, of e "filter (\<lambda>e. m_EID e \<noteq> 0) es"] False unfolding a Let_def by simp
  qed
qed simp

text \<open>
  C24. Whatever events come and whatever the clients of the event port do, the count of alarms goes up to 3, files are kept
  for at most 180 days, there are at most two clients, and the archive keeps at most 101 events: one more than the limit of
  100 the program means to keep, as it makes room before it stores. The bound is reached: the archive is exactly the last
  101 of all events with an identifier, for whatever events are added to it from then on.
\<close>

theorem events_bounded:
  assumes "em_reachable snd1 c0 ef sv"
  shows "length (em_archive (sv_state sv)) \<le> Suc MAX_EVENT \<and> em_alarm (sv_state sv) \<le> MAX_ALARM \<and> em_storage (sv_state sv) \<le> 180
    \<and> length (sv_clients sv) \<le> MAX_CLIENT
    \<and> (\<forall>es. em_archive (foldl (\<lambda>m e. em_add ef e m) (sv_state sv) es)
         = (let all = em_archive (sv_state sv) @ filter (\<lambda>e. m_EID e \<noteq> 0) es in drop (length all - Suc MAX_EVENT) all))"
proof -
  have "events_ok (sv_state sv) \<and> sv_max sv = MAX_CLIENT \<and> length (sv_clients sv) \<le> sv_max sv"
    using assms
  proof induction
    case (round sv now dt po)
    then show ?case using clients_bounded [of sv em_ClientRecv "\<lambda>fd ip m. em_NewClient snd1 (c0 fd) m" po]
      by (simp add: em_round_def Let_def events_ok_ops em_deliver_ok event_server.round_keeps)
  qed (simp_all add: events_ok_ops)
  then show ?thesis by (intro conjI allI em_adds_archive) (simp_all add: events_ok_def)
qed

lemma trim_archive_short: "length es \<le> MAX_EVENT \<Longrightarrow> trim_archive es = es"
  by (cases es) auto

text \<open>A client that collects what it is sent.\<close>

definition collect :: "bytes \<Rightarrow> bytes \<Rightarrow> UDINT \<times> bytes" where
  "collect packet c = (of_nat (length packet), c @ packet)"

lemma collect_all: "server_Send collect None p cl = (0, List.map (\<lambda>(fd, c). (fd, c @ p)) cl)"
  by (induction cl) (auto simp: collect_def)

lemma collect_events: "foldl (\<lambda>cl e. snd (server_Send collect None (event_bytes e) cl)) cl es
    = List.map (\<lambda>(fd, c). (fd, c @ concat (List.map event_bytes es))) cl"
  by (induction es arbitrary: cl) (auto simp: collect_all)

text \<open>
  The first client of the event port gets every event that waited for it twice: once when it is accepted and once with the
  delivery of the same round, which empties the list.
\<close>

theorem first_client_twice:
  assumes "sv_started sv" "sv_clients sv = []" "po_select po" "po_accept po = Some (fd, ip)" "po_nodelay po"
    "CheckWhiteIP (sv_white sv) ip" "sv_max sv > 0"
  shows "sv_clients (em_round collect (\<lambda>fd. []) now dt po sv)
      = [(fd, concat (List.map event_bytes (em_list (sv_state sv))) @ concat (List.map event_bytes (em_list (sv_state sv))))]
    \<and> em_list (sv_state (em_round collect (\<lambda>fd. []) now dt po sv)) = []"
proof -
  let ?new = "\<lambda>fd ip m. em_NewClient collect ([] :: bytes) m"
  let ?b = "concat (List.map event_bytes (em_list (sv_state sv)))"
  have a: "server_accept po ?new sv = sv\<lparr>sv_clients := [(fd, ?b)]\<rparr>"
    using assms by (simp add: server_accept_def em_NewClient_def collect_def Let_def)
  have r: "server_round em_ClientRecv ?new po sv = sv\<lparr>sv_clients := [(fd, ?b)]\<rparr>"
    using assms(1-3) by (simp add: server_round_def Let_def a)
  show ?thesis by (simp add: em_round_def Let_def r em_deliver_def collect_events em_timer_jobs_def)
qed

lemma digit_facts: "is_digit c \<Longrightarrow> c \<noteq> CHR 0x00 \<and> c \<noteq> CHR ''.'' \<and> c \<noteq> CHR ''e'' \<and> c \<noteq> CHR ''E''"
  by (auto simp: is_digit_def Let_def)

lemma at_char_append: "at_char (pre @ c # rest) (length pre) = c"
  by (simp add: at_char_def)

lemma parse_loop_digits:
  assumes "st = PN_NUMBER \<or> st = PN_PREC"
  shows "list_all is_digit ds \<Longrightarrow> parse_loop (pre @ ds @ rest) st acc (length pre) o1
    = parse_loop (pre @ ds @ rest) st (acc @ ds) (length pre + length ds) o1"
proof (induction ds arbitrary: pre acc)
  case (Cons d ds)
  have c: "at_char (pre @ (d # ds) @ rest) (length pre) = d" by (simp add: at_char_append)
  have d: "is_digit d" using Cons.prems by simp
  have "parse_loop (pre @ (d # ds) @ rest) st acc (length pre) o1 = parse_loop (pre @ (d # ds) @ rest) st (acc @ [d]) (Suc (length pre)) o1"
    by (subst parse_loop.simps, unfold c) (use assms d digit_facts [OF d] in auto)
  also have "\<dots> = parse_loop ((pre @ [d]) @ ds @ rest) st (acc @ [d]) (length (pre @ [d])) o1" by simp
  also have "\<dots> = parse_loop ((pre @ [d]) @ ds @ rest) st ((acc @ [d]) @ ds) (length (pre @ [d]) + length ds) o1"
    by (rule Cons.IH) (use Cons.prems in simp)
  finally show ?case by simp
qed simp

text \<open>
  In the template of an event, \<open>$3.e2\<close> and \<open>$3.E2\<close> mean the same, the form with a capital letter: the letter is
  passed before it is looked at. The number and the precision are those written, and the text goes on behind them.
\<close>

theorem exponent_form_lost:
  assumes "ds \<noteq> []" "list_all is_digit ds" "ps \<noteq> []" "list_all is_digit ps" "ch = CHR ''e'' \<or> ch = CHR ''E''"
    "rest = [] \<or> \<not> is_digit (hd rest)"
  shows "parseNumber (ds @ [CHR ''.'', ch] @ ps @ rest) o1 = (length ds + 2 + length ps,
    o1\<lparr>pn_num := word_of_int (int (digits_value ds)), pn_exp := 2, pn_prec := word_of_int (int (digits_value ps))\<rparr>)"
proof -
  let ?s = "ds @ [CHR ''.'', ch] @ ps @ rest" and ?i = "length ds"
  obtain p qs where p: "ps = p # qs" "is_digit p" using assms(3,4) by (cases ps) auto
  have c: "at_char ?s ?i = CHR ''.''" "at_char ?s (Suc ?i) = ch" "at_char ?s (Suc (Suc ?i)) = p"
    by (simp_all add: at_char_def nth_append p)
  have z: "ch \<noteq> CHR 0x00" using assms(5) by auto
  let ?o = "o1\<lparr>pn_num := word_of_int (int (digits_value ds))\<rparr>"
  have "parseNumber ?s o1 = parse_loop ?s PN_NUMBER ds ?i o1"
    using parse_loop_digits [of PN_NUMBER ds "[]" "[CHR ''.'', ch] @ ps @ rest" "[]" o1] assms(2) by (simp add: parseNumber_def)
  also have "\<dots> = parse_loop ?s PN_DOT [] ?i ?o"
    by (subst parse_loop.simps, unfold c) (simp add: assms(1) take_number_def)
  also have "\<dots> = parse_loop ?s PN_EXP [] (Suc ?i) ?o"
    by (subst parse_loop.simps, unfold c) (use assms(5) in auto)
  also have "\<dots> = parse_loop ?s PN_PREC [] (Suc (Suc ?i)) (?o\<lparr>pn_exp := 2\<rparr>)"
    by (subst parse_loop.simps, unfold c) (use z p(2) digit_facts [OF p(2)] in \<open>simp add: Let_def\<close>)
  also have "\<dots> = parse_loop ?s PN_PREC ps (Suc (Suc ?i) + length ps) (?o\<lparr>pn_exp := 2\<rparr>)"
    using parse_loop_digits [of PN_PREC ps "ds @ [CHR ''.'', ch]" rest "[]" "?o\<lparr>pn_exp := 2\<rparr>"] assms(4) by simp
  also have "\<dots> = (length ds + 2 + length ps, ?o\<lparr>pn_exp := 2, pn_prec := word_of_int (int (digits_value ps))\<rparr>)"
  proof -
    have e: "at_char ?s (Suc (Suc ?i) + length ps) = (if rest = [] then CHR 0x00 else hd rest)"
      by (cases rest) (simp_all add: at_char_def nth_append)
    show ?thesis by (subst parse_loop.simps, unfold e) (use assms(3,6) in \<open>auto simp: take_number_def\<close>)
  qed
  finally show ?thesis by simp
qed

theorem exponent_form_lost_witness:
  "parseNumber ''3.e2;'' \<lparr>pn_num = 0, pn_prec = no_prec, pn_exp = 0\<rparr> = (4, \<lparr>pn_num = 3, pn_prec = 2, pn_exp = 2\<rparr>)"
proof -
  have "digits_value ''3'' = 3" "digits_value ''2'' = 2" by (simp_all add: digits_value_def)
  then show ?thesis using exponent_form_lost [of "''3''" "''2''" "CHR ''e''" "'';''" "\<lparr>pn_num = 0, pn_prec = no_prec, pn_exp = 0\<rparr>"]
    by (simp add: is_digit_def)
qed

definition ex_no_files :: files where
  "ex_no_files = \<lparr>fs_text = (\<lambda>_. None), fs_dir = (\<lambda>_. True), fs_fault = (\<lambda>_ _. None), fs_nodir = (\<lambda>_. False),
     fs_short = (\<lambda>_. False), fs_room = (\<lambda>_. 0)\<rparr>"

definition ex_event_server :: "(bytes, rEventManager) server" where
  "ex_event_server = \<lparr>sv_socket = 3, sv_started = True, sv_max = 2, sv_white = [], sv_clients = [],
     sv_state = (events_new \<lparr>sec = 0, usec = 0\<rparr> ex_no_files)\<lparr>em_list := [event_new]\<rparr>\<rparr>"

definition ex_accept :: "8 word poll" where
  "ex_accept = \<lparr>po_select = True, po_accept = Some (9, 1), po_nodelay = True, po_read = (\<lambda>fd. False), po_except = (\<lambda>fd. False),
     po_recv = (\<lambda>fd. R_Closed)\<rparr>"

theorem first_client_twice_witness:
  "sv_clients (em_round collect (\<lambda>fd. []) \<lparr>sec = 0, usec = 0\<rparr> dt_clear ex_accept ex_event_server)
    = [(9, event_bytes event_new @ event_bytes event_new)]"
  by (subst first_client_twice [THEN conjunct1]) (simp_all add: CheckWhiteIP_def ex_event_server_def ex_accept_def events_new_def)

definition ex_texts :: event_texts where
  "ex_texts = \<lparr>ef_float = (\<lambda>_ _ _. []), ef_text = (\<lambda>_. None), ef_descr = (\<lambda>_. None), ef_prec = \<lparr>m_defPrec = 3, m_unitPrec = []\<rparr>, ef_time = (\<lambda>_. [])\<rparr>"

lemma em_reachable_adds:
  "em_reachable snd1 c0 ef sv \<Longrightarrow> em_reachable snd1 c0 ef (sv\<lparr>sv_state := foldl (\<lambda>m e. em_add ef e m) (sv_state sv) es\<rparr>)"
proof (induction es arbitrary: sv)
  case (Cons e es)
  from Cons.IH [OF em_reachable.add [OF Cons.prems, of e]] show ?case by simp
qed simp

theorem events_bounded_witness:
  "\<exists>sv. em_reachable collect (\<lambda>fd. []) ex_texts sv \<and> em_archive (sv_state sv) = replicate 101 (event_new\<lparr>m_EID := 5\<rparr>)"
proof -
  let ?m = "events_new \<lparr>sec = 0, usec = 0\<rparr> ex_no_files" and ?es = "replicate 150 (event_new\<lparr>m_EID := 5\<rparr>)"
  let ?sv = "\<lparr>sv_socket = 3, sv_started = True, sv_max = MAX_CLIENT, sv_white = [], sv_clients = [], sv_state = ?m\<rparr> :: (bytes, rEventManager) server"
  have r: "em_reachable collect (\<lambda>fd. []) ex_texts ?sv" by (rule em_reachable.start)
  have "em_archive (foldl (\<lambda>m e. em_add ex_texts e m) (sv_state ?sv) ?es) = replicate 101 (event_new\<lparr>m_EID := 5\<rparr>)"
    using events_bounded [OF r] by (simp add: Let_def events_new_def MAX_EVENT_def)
  with em_reachable_adds [OF r, of ?es] show ?thesis by (intro exI [of _ "?sv\<lparr>sv_state := foldl (\<lambda>m e. em_add ex_texts e m) ?m ?es\<rparr>"]) simp
qed

end
