(* ===== verification/JsonServer.thy ===== *)
theory JsonServer
  imports Dump Terminal
begin

text \<open>
  The JSON server for the pages of the operator, \<^verbatim>\<open>src/tritonn/json_manager.cpp\<close> with its clients
  \<^verbatim>\<open>json_client.cpp\<close>: the pieces of a request, the sessions, and what each command does. The tree of a request is
  what the parser of \<^verbatim>\<open>cJSON.c\<close> makes of a text, an argument; the tree of an answer is the result, its printing is left
  out. \<^const>\<open>None\<close> as the result of a command is a null pointer that is read, which ends the process.
\<close>

section \<open>Trees\<close>

text \<open>Numbers have their value as \<^verbatim>\<open>int\<close> and as \<^verbatim>\<open>double\<close>.\<close>

datatype json = J_False | J_True | J_Null | J_Number DINT "64 word" | J_String string | J_Array "json list"
  | J_Object "(string \<times> json) list"

fun cJSON_children :: "json \<Rightarrow> json list" where
  "cJSON_children (J_Array js) = js"
| "cJSON_children (J_Object kvs) = List.map snd kvs"
| "cJSON_children _ = []"

definition cJSON_same :: "string \<Rightarrow> string \<Rightarrow> bool" where
  "cJSON_same a b \<longleftrightarrow> List.map tolower_char a = List.map tolower_char b"

fun cJSON_GetObjectItem :: "json \<Rightarrow> string \<Rightarrow> json option" where
  "cJSON_GetObjectItem (J_Object kvs) name = map_option snd (find (\<lambda>(k, j). cJSON_same k name) kvs)"
| "cJSON_GetObjectItem _ name = None"

fun valuestring :: "json \<Rightarrow> string option" where
  "valuestring (J_String s) = Some s"
| "valuestring _ = None"

fun valueint :: "json \<Rightarrow> DINT" where
  "valueint (J_Number i d) = i"
| "valueint J_True = 1"
| "valueint _ = 0"

datatype answer = A_Bool bool | A_Number int | A_Double "64 word" | A_String string | A_Array "answer list" | A_Object "(string \<times> answer) list"

section \<open>Clients\<close>

record rJSONClient =
  jc_Buff :: "string option"
  jc_Packet :: "string option"

definition json_client_new :: rJSONClient where "json_client_new = \<lparr>jc_Buff = None, jc_Packet = None\<rparr>"

text \<open>The loop of \<^verbatim>\<open>CheckBrace\<close> at character \<open>ii\<close>; a result of 0 also says that there is no end.\<close>

fun check_brace :: "string \<Rightarrow> nat \<Rightarrow> nat \<Rightarrow> nat \<Rightarrow> nat" where
  "check_brace [] ii op cl = 0"
| "check_brace (c # cs) ii op cl = (let op = (if c = CHR ''{'' then Suc op else op); cl = (if c = CHR ''}'' then Suc cl else cl) in
     if op \<noteq> 0 \<and> cl \<noteq> 0 \<and> op = cl then ii else check_brace cs (Suc ii) op cl)"

definition CheckBrace :: "string \<Rightarrow> nat" where "CheckBrace buff = check_brace buff 0 0 0"

text \<open>What came in behind the closing brace is thrown away.\<close>

definition json_Recv :: "string \<Rightarrow> rJSONClient \<Rightarrow> bool \<times> rJSONClient" where
  "json_Recv bs c = (let buff = (case jc_Buff c of None \<Rightarrow> bs | Some b \<Rightarrow> b @ bs); pos = CheckBrace buff in
     if pos \<noteq> 0 then (True, c\<lparr>jc_Packet := Some (take (pos + 1) buff), jc_Buff := None\<rparr>) else (False, c\<lparr>jc_Buff := Some buff\<rparr>))"

section \<open>Sessions\<close>

definition MAX_JSON_CLIENT :: nat where "MAX_JSON_CLIENT = 8"
definition MAX_JSON_IDLE :: UDINT where "MAX_JSON_IDLE = 30"
definition MAX_JSON_SESSION :: UDINT where "MAX_JSON_SESSION = 10 * 60"

record rActivity =
  act_Token :: DINT
  act_Session :: UDINT
  act_Idle :: UDINT
  act_User :: rUser

text \<open>
  What the server takes from elsewhere: the hash, the first number the generator gives for a seed, the hash of names,
  the libraries and the platform, the memory of new items and of the password, the system, the configurations there
  are (file, description, time, status, hash) and the text of the time.
\<close>

record json_env =
  je_H :: "bytes \<Rightarrow> bytes"
  je_rand :: "UDINT \<Rightarrow> DINT"
  je_hash :: "string \<Rightarrow> UDINT"
  je_lib :: dump_lib
  je_junk :: rSnapshotItem
  je_stack :: bytes
  je_sys :: sys_info
  je_confs :: "(string \<times> string \<times> string \<times> UDINT \<times> string) list"
  je_ts :: string

record rJSON =
  js_act :: "rActivity list"
  js_man :: rDataManager

definition activity_new :: "json_env \<Rightarrow> UDINT \<Rightarrow> rUser \<Rightarrow> rActivity" where
  "activity_new e now u = \<lparr>act_Token = je_rand e now, act_Session = now, act_Idle = now, act_User = u\<rparr>"

definition GetActivity :: "DINT \<Rightarrow> rActivity list \<Rightarrow> rActivity option" where
  "GetActivity token acts = find (\<lambda>a. act_Token a = token) acts"

fun DeleteActivity :: "DINT \<Rightarrow> rActivity list \<Rightarrow> rActivity list" where
  "DeleteActivity token [] = []"
| "DeleteActivity token (a # as) = (if act_Token a = token then as else a # DeleteActivity token as)"

fun UpdateIdle :: "DINT \<Rightarrow> UDINT \<Rightarrow> rActivity list \<Rightarrow> rActivity list" where
  "UpdateIdle token now [] = []"
| "UpdateIdle token now (a # as) = (if act_Token a = token then a\<lparr>act_Idle := now\<rparr> # as else a # UpdateIdle token now as)"

text \<open>What the thread does with the sessions in each of its rounds.\<close>

definition expire :: "UDINT \<Rightarrow> rActivity list \<Rightarrow> rActivity list" where
  "expire now acts = (let left = List.filter (\<lambda>a. \<not> (now - act_Idle a > MAX_JSON_IDLE \<or> now - act_Session a > MAX_JSON_SESSION)) acts
     in drop (length left - MAX_JSON_CLIENT) left)"

section \<open>Answers\<close>

definition JSONERR_UNKNOWMETHOD :: int where "JSONERR_UNKNOWMETHOD = 2"
definition JSONERR_ACCESSDENIED :: int where "JSONERR_ACCESSDENIED = 4"
definition JSONERR_BADREQ :: int where "JSONERR_BADREQ = 5"
definition JSONERR_LOGIN_FAULT :: int where "JSONERR_LOGIN_FAULT = 102"
definition JSONERR_LOGIN_BLOCKED :: int where "JSONERR_LOGIN_BLOCKED = 103"
definition JSONERR_LOGIN_OK :: int where "JSONERR_LOGIN_OK = 104"
definition JSONERR_LOGIN_CHANGEPWD :: int where "JSONERR_LOGIN_CHANGEPWD = 105"
definition JSONERR_TOKEN_FAULT :: int where "JSONERR_TOKEN_FAULT = 106"
definition JSONERR_NOTCOLDSTART :: int where "JSONERR_NOTCOLDSTART = 107"
definition JSONERR_CONFISEMPTY :: int where "JSONERR_CONFISEMPTY = 108"
definition ACCESS_REBOOT :: UDINT where "ACCESS_REBOOT = 0x00080000"

definition CreateErrorJSON :: "int \<Rightarrow> string \<Rightarrow> (string \<times> answer) list" where
  "CreateErrorJSON err msg = [(''error'', A_Object [(''error_id'', A_Number err), (''error_msg'', A_String msg)])]"

definition GetErrorJSON :: "int \<Rightarrow> string \<Rightarrow> answer" where
  "GetErrorJSON err msg = A_Object (CreateErrorJSON err msg)"

definition response :: "(string \<times> answer) list \<Rightarrow> answer" where
  "response fs = A_Object [(''response'', A_Object fs)]"

definition failure :: "int \<Rightarrow> (string \<times> answer) list" where
  "failure err = (''success'', A_Bool False) # CreateErrorJSON err []"

definition number :: "'a::len word \<Rightarrow> answer" where "number w = A_Number (uint w)"

fun status_code :: "item_status \<Rightarrow> int" where
  "status_code SS_UNDEF = 0"
| "status_code SS_NOTFOUND = 1"
| "status_code SS_READONLY = 2"
| "status_code SS_ACCESSDENIED = 3"
| "status_code SS_TOASSIGN = 4"
| "status_code SS_ASSIGNED = 5"
| "status_code SS_TOWRITE = 6"
| "status_code SS_WRITED = 7"
| "status_code SS_ERROR = 8"

section \<open>The seconds of a date\<close>

text \<open>The calendar library is used for one thing: \<open>timegm64\<close> of \<^verbatim>\<open>shared/time64.c\<close>, with \<^const>\<open>None\<close> as the null pointer.\<close>

definition IS_LEAP :: "int \<Rightarrow> nat" where
  "IS_LEAP n = (if (n + 1900) mod 400 = 0 \<or> ((n + 1900) mod 4 = 0 \<and> (n + 1900) mod 100 \<noteq> 0) then 1 else 0)"

definition length_of_year :: "int list" where "length_of_year = [365, 366]"

definition days_in_gregorian_cycle :: int where "days_in_gregorian_cycle = (365 * 400) + 100 - 4 + 1"

definition julian_days_by_month :: "int list list" where
  "julian_days_by_month = [[0, 31, 59, 90, 120, 151, 181, 212, 243, 273, 304, 334], [0, 31, 60, 91, 121, 152, 182, 213, 244, 274, 305, 335]]"

text \<open>The loops over the years, with the number of rounds; the quotient of negative numbers is cut off towards zero.\<close>

fun years_up :: "nat \<Rightarrow> int \<Rightarrow> int \<Rightarrow> int" where
  "years_up 0 year days = days"
| "years_up (Suc n) year days = years_up n (year + 1) (days + length_of_year ! IS_LEAP year)"

fun years_down :: "nat \<Rightarrow> int \<Rightarrow> int \<Rightarrow> int" where
  "years_down 0 year days = days"
| "years_down (Suc n) year days = years_down n (year - 1) (days - length_of_year ! IS_LEAP year)"

definition year_days :: "int \<Rightarrow> int \<times> int" where
  "year_days y = (let cycles = (if y > 100 then (y - 100) div 400 else if y < - 300 then - ((100 - y) div 400) else 0);
     y = y - cycles * 400; days = cycles * days_in_gregorian_cycle
   in (y, if y > 70 then years_up (nat (y - 70)) 70 days else if y < 70 then years_down (nat (70 - y)) 69 days else days))"

definition timegm64 :: "sys_time option \<Rightarrow> int option" where
  "timegm64 date = (case date of None \<Rightarrow> None | Some d \<Rightarrow> (case year_days (tm_year d) of (y, days) \<Rightarrow>
     if tm_mon d < 0 \<or> 12 \<le> tm_mon d then None
     else let days = days + julian_days_by_month ! IS_LEAP y ! nat (tm_mon d) + (tm_mday d - 1)
       in Some (days * 60 * 60 * 24 + tm_hour d * 60 * 60 + tm_min d * 60 + tm_sec d)))"

lemma timegm64_sample:
  "timegm64 (Some \<lparr>tm_year = 70, tm_mon = 0, tm_mday = 1, tm_hour = 0, tm_min = 0, tm_sec = 0\<rparr>) = Some 0"
  "timegm64 (Some \<lparr>tm_year = 108, tm_mon = 0, tm_mday = 1, tm_hour = 0, tm_min = 0, tm_sec = 0\<rparr>) = Some 1199145600"
  "timegm64 (Some \<lparr>tm_year = 69, tm_mon = 11, tm_mday = 31, tm_hour = 23, tm_min = 59, tm_sec = 59\<rparr>) = Some (- 1)"
  by code_simp+

section \<open>Reading and writing variables\<close>

definition get_answer :: "json_env \<Rightarrow> varworld \<Rightarrow> string \<Rightarrow> rSnapshotItem \<Rightarrow> answer" where
  "get_answer e w name it0 = (case (if si_status it0 = SS_ASSIGNED then item_getValue (dl_pf (je_lib e)) w T_LREAL it0 else (None, it0)) of (p, it) \<Rightarrow>
     let ok = (si_status it = SS_ASSIGNED) in
     A_Object [(''id'', A_String name), (''value'', A_Double (case p of Some (P_LREAL v) \<Rightarrow> v | _ \<Rightarrow> 0)), (''accessvisible'', A_Bool ok),
       (''accessedit'', A_Bool (ok \<and> (case si_var it of None \<Rightarrow> False | Some k \<Rightarrow> \<not> isReadonly (vw_vars w ! k)))), (''success'', A_Bool ok)])"

definition Packet_DataGet :: "json_env \<Rightarrow> json \<Rightarrow> rJSON \<Rightarrow> (answer \<times> rJSON) option" where
  "Packet_DataGet e rt st = (let hd = [(''command'', A_String ''data.get''), (''ts'', A_String (je_ts e))] in
     case cJSON_GetObjectItem rt ''ids'' of None \<Rightarrow> Some (response (hd @ failure (uint JSONERR_BADPARAM)), st)
     | Some jids \<Rightarrow> (case those (List.map valuestring (cJSON_children jids)) of None \<Rightarrow> None
         | Some names \<Rightarrow> let w = dm_world (js_man st);
             its = foldl (\<lambda>its n. fst (snapshot_add_name (je_hash e) w (Some (dm_vars (js_man st))) (si_data (je_junk e)) n its)) [] names
           in Some (response (hd @ [(''success'', A_Bool True),
               (''data'', A_Array (List.map (\<lambda>(n, it). get_answer e w n it) (zip names (snd (snapshot_get 0 True w its)))))]), st)))"

definition set_entry :: "json \<Rightarrow> (string \<times> string) option" where
  "set_entry jvar = (case (cJSON_GetObjectItem jvar ''id'', cJSON_GetObjectItem jvar ''value'') of
     (Some a, Some b) \<Rightarrow> (case (valuestring a, valuestring b) of (Some n, Some v) \<Rightarrow> Some (n, v) | _ \<Rightarrow> None) | _ \<Rightarrow> None)"

definition set_answer :: "string \<times> string \<Rightarrow> rSnapshotItem \<Rightarrow> answer" where
  "set_answer nv it = A_Object [(''id'', A_String (fst nv)), (''value'', A_String (snd nv)), (''success'', A_Bool (si_status it = SS_WRITED)),
     (''result'', A_Number (status_code (si_status it)))]"

text \<open>The time stamp comes from \<^verbatim>\<open>timegm64\<close>, called with a null pointer.\<close>

definition Packet_DataSet :: "json_env \<Rightarrow> json \<Rightarrow> rJSON \<Rightarrow> (answer \<times> rJSON) option" where
  "Packet_DataSet e rt st = (case timegm64 None of None \<Rightarrow> None | Some _ \<Rightarrow> let hd = [(''ts'', A_String (je_ts e)), (''command'', A_String ''data.set'')] in
     case (cJSON_GetObjectItem rt ''ids'', cJSON_GetObjectItem rt ''token'') of
       (Some jids, Some jtoken) \<Rightarrow> (case GetActivity (valueint jtoken) (js_act st) of
          None \<Rightarrow> Some (response (hd @ failure JSONERR_TOKEN_FAULT), st)
        | Some act \<Rightarrow> let local = (case cJSON_GetObjectItem rt ''local'' of None \<Rightarrow> True | Some j \<Rightarrow> valueint j \<noteq> 0) in
            (case those (List.map set_entry (cJSON_children jids)) of None \<Rightarrow> None
             | Some nvs \<Rightarrow> let m = js_man st; w = dm_world m;
                 its = foldl (\<lambda>its (n, v). fst (snapshot_add_text (je_hash e) (dl_pf (je_lib e)) w (Some (dm_vars m)) (je_junk e) n v its)) [] nvs
               in (case snapshot_set (GetAccess local (act_User act)) True its w of (_, its1, w1) \<Rightarrow>
                 Some (response (hd @ [(''success'', A_Bool True), (''data'', A_Array (List.map (\<lambda>(nv, it). set_answer nv it) (zip nvs its1)))]),
                   st\<lparr>js_man := m\<lparr>dm_world := w1\<rparr>\<rparr>))))
     | _ \<Rightarrow> Some (response (hd @ failure (uint JSONERR_BADPARAM)), st))"

section \<open>Logging in and out\<close>

definition Packet_Login :: "json_env \<Rightarrow> rUser list \<Rightarrow> UDINT \<Rightarrow> json \<Rightarrow> rJSON \<Rightarrow> (answer \<times> rJSON) option" where
  "Packet_Login e us now rt st = (let hd = [(''command'', A_String ''a.login'')] in
     case (cJSON_GetObjectItem rt ''username'', cJSON_GetObjectItem rt ''pwd'') of
       (Some juser, Some jpwd) \<Rightarrow> (case valuestring juser of None \<Rightarrow> None
        | Some name \<Rightarrow> (case user_Login (je_H e) us name (snd (String_ToBuffer (valuestring jpwd) (je_stack e))) of (u, r) \<Rightarrow> (case u of
            None \<Rightarrow> Some (response (hd @ failure (if r = LR_BLOCKED then JSONERR_LOGIN_BLOCKED else JSONERR_LOGIN_FAULT)), st)
          | Some usr \<Rightarrow> if GetAccess False usr AND ACCESS_WEB = 0 then Some (response (hd @ failure JSONERR_LOGIN_FAULT), st)
              else let act = activity_new e now usr in
                Some (response (hd @ [(''success'', A_Bool True), (''data'', A_Object [(''token'', A_Number (sint (act_Token act))),
                    (''access'', number (GetAccess False usr)),
                    (''result'', A_Number (if r = LR_CHANGEPWD then JSONERR_LOGIN_CHANGEPWD else JSONERR_LOGIN_OK))])]),
                  st\<lparr>js_act := js_act st @ [act]\<rparr>))))
     | _ \<Rightarrow> Some (response (hd @ failure (uint JSONERR_BADPARAM)), st))"

definition Packet_Logout :: "json \<Rightarrow> rJSON \<Rightarrow> answer \<times> rJSON" where
  "Packet_Logout rt st = (let hd = [(''command'', A_String ''a.logout'')] in
     case cJSON_GetObjectItem rt ''token'' of None \<Rightarrow> (response (hd @ failure (uint JSONERR_BADPARAM)), st)
     | Some jtoken \<Rightarrow> (response (hd @ [(''success'', A_Bool True), (''data'', A_Object [(''username'', A_String ''GUEST''), (''access'', A_Number 0)])]),
         st\<lparr>js_act := DeleteActivity (valueint jtoken) (js_act st)\<rparr>))"

definition Packet_Check :: "UDINT \<Rightarrow> json \<Rightarrow> rJSON \<Rightarrow> answer \<times> rJSON" where
  "Packet_Check now rt st = (let hd = [(''command'', A_String ''a.check'')] in
     case cJSON_GetObjectItem rt ''token'' of None \<Rightarrow> (response (hd @ failure (uint JSONERR_BADPARAM)), st)
     | Some jtoken \<Rightarrow> (case GetActivity (valueint jtoken) (js_act st) of None \<Rightarrow> (response (hd @ failure JSONERR_TOKEN_FAULT), st)
         | Some act \<Rightarrow> (response (hd @ [(''success'', A_Bool True), (''data'', A_Object [(''username'', A_String (u_Name (act_User act))),
               (''access'', number (GetAccess False (act_User act)))])]),
             st\<lparr>js_act := UpdateIdle (valueint jtoken) now (js_act st)\<rparr>)))"

section \<open>The system\<close>

definition Packet_Status :: "json_env \<Rightarrow> answer" where
  "Packet_Status e = (let sy = je_sys e; t = sy_time sy in response [(''command'', A_String ''i.status''),
     (''time'', A_Object [(''sec'', A_Number (tm_sec t)), (''min'', A_Number (tm_min t)), (''hour'', A_Number (tm_hour t)),
       (''day'', A_Number (tm_mday t)), (''mon'', A_Number (tm_mon t)), (''year'', A_Number (tm_year t))]),
     (''success'', A_Bool True), (''live'', number (st_live (sy_state sy))), (''alarm'', number (st_eventAlarm (sy_state sy)))])"

definition Packet_Conf :: "json_env \<Rightarrow> answer" where
  "Packet_Conf e = (let v = sy_version (je_sys e); c = sy_conf (je_sys e) in response [(''command'', A_String ''i.conf''),
     (''version'', A_Object [(''major'', number (ver_major v)), (''minor'', number (ver_minor v)), (''build'', number (ver_build v)),
       (''hash'', number (ver_hash v))]),
     (''config'', A_Object [(''file'', A_String (ci_filename c)), (''name'', A_String (ci_name c)), (''version'', A_String (ci_version c)),
       (''dev'', A_String (ci_developer c)), (''hash'', A_String (ci_hash c))]),
     (''success'', A_Bool True)])"

definition Packet_ListConf :: "json_env \<Rightarrow> rJSON \<Rightarrow> answer" where
  "Packet_ListConf e st = (let hd = [(''command'', A_String ''i.listconf'')] in
     if dm_live (js_man st) \<noteq> LIVE_REBOOT_COLD then response (hd @ failure JSONERR_NOTCOLDSTART)
     else response (hd @ [(''success'', A_Bool True), (''list'', A_Array (List.map (\<lambda>(file, descr, time, status, h).
       A_Object [(''file'', A_String file), (''name'', A_String descr), (''time'', A_String time), (''status'', number status), (''hash'', A_String h)])
       (je_confs e)))]))"

definition Packet_Restart :: "UDINT \<Rightarrow> json \<Rightarrow> rJSON \<Rightarrow> answer \<times> rJSON" where
  "Packet_Restart now rt st = (let hd = [(''command'', A_String ''i.restart'')] in
     case (cJSON_GetObjectItem rt ''token'', cJSON_GetObjectItem rt ''restart'', cJSON_GetObjectItem rt ''local'') of
       (Some jtoken, Some jrestart, Some jlocal) \<Rightarrow>
         let conf = (case cJSON_GetObjectItem rt ''config'' of None \<Rightarrow> [] | Some j \<Rightarrow> case valuestring j of None \<Rightarrow> [] | Some s \<Rightarrow> s);
           go = (\<lambda>st. case Restart (ucast (valueint jrestart)) conf (js_man st) of (r, m) \<Rightarrow>
             (response (hd @ [(''success'', A_Bool (r = 0))]), st\<lparr>js_man := m\<rparr>))
         in if dm_live (js_man st) \<noteq> LIVE_REBOOT_COLD then (case GetActivity (valueint jtoken) (js_act st) of
               None \<Rightarrow> (response (hd @ failure JSONERR_TOKEN_FAULT), st)
             | Some act \<Rightarrow> let st1 = st\<lparr>js_act := UpdateIdle (valueint jtoken) now (js_act st)\<rparr> in
                 if CheckAccess ACCESS_REBOOT (valueint jlocal \<noteq> 0) (act_User act) = 0 then (response (hd @ failure JSONERR_ACCESSDENIED), st1)
                 else if conf \<noteq> [] then (response (hd @ failure JSONERR_NOTCOLDSTART), st1)
                 else go st1)
           else if conf = [] then (response (hd @ failure JSONERR_CONFISEMPTY), st) else go st
     | _ \<Rightarrow> (response (hd @ failure (uint JSONERR_BADPARAM)), st))"

text \<open>The command about dumps answers under the name of another one.\<close>

definition Packet_LoadDump :: "json_env \<Rightarrow> json \<Rightarrow> rJSON \<Rightarrow> (answer \<times> rJSON) option" where
  "Packet_LoadDump e rt st = map_option (\<lambda>(a, m). (response ((''command'', A_String ''i.restart'') # (case a of
       J_SUCCESS \<Rightarrow> [(''success'', A_Bool True)] | J_ERROR err \<Rightarrow> failure (uint err))), st\<lparr>js_man := m\<rparr>))
     (packetLoadDump (je_lib e) (map_option (\<lambda>j. sint (valueint j)) (cJSON_GetObjectItem rt ''load'')) (js_man st))"

section \<open>Requests\<close>

definition Packet_REQ :: "json_env \<Rightarrow> rUser list \<Rightarrow> UDINT \<Rightarrow> json \<Rightarrow> rJSON \<Rightarrow> (answer \<times> rJSON) option" where
  "Packet_REQ e us now rt st = (case cJSON_GetObjectItem rt ''command'' of
     None \<Rightarrow> Some (GetErrorJSON JSONERR_UNKNOWMETHOD ''command not found'', st)
   | Some jcmd \<Rightarrow> (case valuestring jcmd of None \<Rightarrow> None | Some cmd \<Rightarrow>
       if cmd = ''data.get'' then Packet_DataGet e rt st
       else if cmd = ''data.set'' then Packet_DataSet e rt st
       else if cmd = ''a.login'' then Packet_Login e us now rt st
       else if cmd = ''a.logout'' then Some (Packet_Logout rt st)
       else if cmd = ''a.check'' then Some (Packet_Check now rt st)
       else if cmd = ''i.status'' then Some (Packet_Status e, st)
       else if cmd = ''i.conf'' then Some (Packet_Conf e, st)
       else if cmd = ''i.listconf'' then Some (Packet_ListConf e st, st)
       else if cmd = ''i.restart'' then Some (Packet_Restart now rt st)
       else if cmd = ''i.loaddump'' then Packet_LoadDump e rt st
       else Some (GetErrorJSON JSONERR_UNKNOWMETHOD ''unknow command'', st)))"

text \<open>\<open>parse\<close> is the parser; without a text it fails without an error to print, whose text is read all the same.\<close>

definition ParsingJSON :: "(string \<Rightarrow> json option) \<Rightarrow> json_env \<Rightarrow> rUser list \<Rightarrow> UDINT \<Rightarrow> string option \<Rightarrow> rJSON \<Rightarrow> (answer \<times> rJSON) option" where
  "ParsingJSON parse e us now packet st = (case packet of None \<Rightarrow> None
     | Some p \<Rightarrow> let txt = takeWhile (\<lambda>c. c \<noteq> CHR 0x00) p in (case parse txt of
         None \<Rightarrow> Some (GetErrorJSON JSONERR_BADREQ (if txt = [] \<or> txt ! 0 \<noteq> CHR ''{'' then ''First char is not open brace''
             else if last txt \<noteq> CHR ''}'' then ''Last char is not close brace'' else ''Unknow parse error''), st)
       | Some rt \<Rightarrow> (case cJSON_GetObjectItem rt ''request'' of
           None \<Rightarrow> Some (GetErrorJSON JSONERR_UNKNOWMETHOD ''request not found'', st)
         | Some req \<Rightarrow> Packet_REQ e us now req st)))"

text \<open>
  The test whether the request is complete asks for the wrong result of \<^verbatim>\<open>Recv\<close>, so every piece is answered. The result of
  the function is always 0, which ends the connection.
\<close>

definition json_ClientRecv :: "(string \<Rightarrow> json option) \<Rightarrow> json_env \<Rightarrow> rUser list \<Rightarrow> UDINT \<Rightarrow> string \<Rightarrow> rJSONClient \<Rightarrow> rJSON
    \<Rightarrow> (bool \<times> answer \<times> rJSONClient \<times> rJSON) option" where
  "json_ClientRecv parse e us now bs c st = (case json_Recv bs c of (_, c1) \<Rightarrow>
     map_option (\<lambda>(a, st1). (False, a, c1, st1)) (ParsingJSON parse e us now (jc_Packet c1) st))"

section \<open>Without a session\<close>

text \<open>What reaches the server: a first piece on a connection, which is also its last one, and the rounds of the thread.\<close>

datatype js_event = JE_Piece UDINT string | JE_Round UDINT

fun js_run :: "(string \<Rightarrow> json option) \<Rightarrow> json_env \<Rightarrow> rUser list \<Rightarrow> js_event list \<Rightarrow> rJSON \<Rightarrow> rJSON option" where
  "js_run parse e us [] st = Some st"
| "js_run parse e us (JE_Piece now bs # evs) st = (case json_ClientRecv parse e us now bs json_client_new st of None \<Rightarrow> None
     | Some (_, _, _, st1) \<Rightarrow> js_run parse e us evs st1)"
| "js_run parse e us (JE_Round now # evs) st = js_run parse e us evs (st\<lparr>js_act := expire now (js_act st)\<rparr>)"

text \<open>A request that names a user who may use the pages, with his password.\<close>

definition knows_web_user :: "json_env \<Rightarrow> rUser list \<Rightarrow> json \<Rightarrow> bool" where
  "knows_web_user e us rt \<longleftrightarrow> (\<exists>name jpwd u. cJSON_GetObjectItem rt ''username'' = Some (J_String name) \<and> cJSON_GetObjectItem rt ''pwd'' = Some jpwd
     \<and> u \<in> set us \<and> CmpHash (u_Hash u) (GetStrHash (je_H e) name) \<and> CmpHash (u_Pwd u) (snd (String_ToBuffer (valuestring jpwd) (je_stack e)))
     \<and> GetAccess False u AND ACCESS_WEB \<noteq> 0)"

lemma valuestring_Some [simp]: "valuestring j = Some s \<longleftrightarrow> j = J_String s"
  by (cases j) auto

lemma GetActivity_Nil [simp]: "GetActivity token [] = None"
  by (simp add: GetActivity_def)

lemma login_found: "LoginHash us nh ph = (Some u, r) \<Longrightarrow> u \<in> set us \<and> CmpHash (u_Hash u) nh \<and> CmpHash (u_Pwd u) ph"
  by (auto simp: LoginHash_def FindHash_def find_Some_iff split: option.splits if_splits)

lemma Packet_Login_denied:
  assumes "Packet_Login e us now rt st = Some (a, st1)" "\<not> knows_web_user e us rt"
  shows "st1 = st"
  using assms by (auto simp: Packet_Login_def user_Login_def knows_web_user_def Let_def split: option.splits prod.splits if_splits dest: login_found)

text \<open>
  What the server does for a request without a token: in the cold start it restarts with a configuration; while the program
  waits for an answer about a dump, it loads the dump or deletes it.
\<close>

inductive without_token :: "dump_lib \<Rightarrow> rDataManager \<Rightarrow> rDataManager \<Rightarrow> bool" for lib m where
  nothing: "without_token lib m m"
| restart: "without_token lib m m1 \<Longrightarrow> dm_live m1 = LIVE_REBOOT_COLD \<Longrightarrow> conf \<noteq> [] \<Longrightarrow> without_token lib m (snd (Restart r conf m1))"
| totals: "without_token lib m m1 \<Longrightarrow> dm_live m1 = LIVE_DUMP_TOTALS \<Longrightarrow> without_token lib m (forceLoadDumpTotals lib answer m1)"
| variables: "without_token lib m m1 \<Longrightarrow> dm_live m1 = LIVE_DUMP_VARS \<Longrightarrow> forceLoadDumpVars lib answer m1 = Some m2
    \<Longrightarrow> without_token lib m m2"

lemma Restart_keeps:
  "dm_live (snd (Restart r conf m)) = dm_live m" "dm_world (snd (Restart r conf m)) = dm_world m" "dm_totals (snd (Restart r conf m)) = dm_totals m"
  by (simp_all add: Restart_def restart_finish_def os_do_def addEvent_def addEventUDINT_def)

lemma without_token_effect:
  assumes "without_token lib m m1"
  shows "dm_live m \<notin> {LIVE_REBOOT_COLD, LIVE_DUMP_TOTALS, LIVE_DUMP_VARS} \<longrightarrow> m1 = m"
    "dm_live m = LIVE_REBOOT_COLD \<longrightarrow> dm_live m1 = LIVE_REBOOT_COLD \<and> dm_world m1 = dm_world m \<and> dm_totals m1 = dm_totals m"
  using assms by (induction rule: without_token.induct) (auto simp: Restart_keeps)

lemma Packet_REQ_denied:
  assumes "Packet_REQ e us now rt st = Some (a, st1)" "js_act st = []" "\<not> knows_web_user e us rt" "without_token (je_lib e) m (js_man st)"
  shows "js_act st1 = [] \<and> without_token (je_lib e) m (js_man st1)"
proof -
  have "Packet_DataGet e rt st = Some (a, st1) \<Longrightarrow> st1 = st" by (auto simp: Packet_DataGet_def Let_def split: option.splits)
  moreover have "Packet_DataSet e rt st = Some (a, st1) \<Longrightarrow> st1 = st" using assms(2) by (auto simp: Packet_DataSet_def Let_def split: option.splits)
  moreover have "Packet_Logout rt st = (a, st1) \<Longrightarrow> js_act st1 = [] \<and> js_man st1 = js_man st"
    using assms(2) by (auto simp: Packet_Logout_def Let_def split: option.splits)
  moreover have "Packet_Check now rt st = (a, st1) \<Longrightarrow> st1 = st" using assms(2) by (auto simp: Packet_Check_def Let_def split: option.splits)
  moreover have "Packet_Restart now rt st = (a, st1) \<Longrightarrow> js_act st1 = [] \<and> without_token (je_lib e) m (js_man st1)"
  proof -
    assume r: "Packet_Restart now rt st = (a, st1)"
    show ?thesis
    proof (cases "st1 = st")
      case False
      then obtain r conf where "dm_live (js_man st) = LIVE_REBOOT_COLD" "conf \<noteq> []" "st1 = st\<lparr>js_man := snd (Restart r conf (js_man st))\<rparr>"
        using r assms(2) by (auto simp: Packet_Restart_def Let_def split: option.splits prod.splits if_splits) (metis snd_conv)+
      then show ?thesis using without_token.restart [OF assms(4)] assms(2) by simp
    qed (use assms(2,4) in simp)
  qed
  moreover have "Packet_LoadDump e rt st = Some (a, st1) \<Longrightarrow> js_act st1 = [] \<and> without_token (je_lib e) m (js_man st1)"
    using assms(2,4) without_token.totals [OF assms(4)] without_token.variables [OF assms(4)]
    by (auto simp: Packet_LoadDump_def packetLoadDump_def split: option.splits if_splits)
  moreover have "Packet_Login e us now rt st = Some (a, st1) \<Longrightarrow> st1 = st" using Packet_Login_denied assms(3) by blast
  ultimately show ?thesis using assms by (auto simp: Packet_REQ_def split: option.splits if_splits)
qed

lemma json_Recv_new: "json_Recv bs json_client_new = (let pos = CheckBrace bs in
    if pos \<noteq> 0 then (True, \<lparr>jc_Buff = None, jc_Packet = Some (take (pos + 1) bs)\<rparr>) else (False, \<lparr>jc_Buff = Some bs, jc_Packet = None\<rparr>))"
  by (simp add: json_Recv_def json_client_new_def Let_def)

lemma packet_sublist: "sublist (takeWhile p (take n bs)) bs"
  by (meson prefix_imp_sublist prefix_order.trans take_is_prefix takeWhile_is_prefix)

definition no_web_login :: "(string \<Rightarrow> json option) \<Rightarrow> json_env \<Rightarrow> rUser list \<Rightarrow> string \<Rightarrow> bool" where
  "no_web_login parse e us bs \<longleftrightarrow> (\<forall>t rt req. sublist t bs \<longrightarrow> parse t = Some rt \<longrightarrow> cJSON_GetObjectItem rt ''request'' = Some req \<longrightarrow>
     \<not> knows_web_user e us req)"

lemma json_ClientRecv_denied:
  assumes "json_ClientRecv parse e us now bs json_client_new st = Some (ok, a, c, st1)" "js_act st = []"
    "no_web_login parse e us bs" "without_token (je_lib e) m (js_man st)"
  shows "js_act st1 = [] \<and> without_token (je_lib e) m (js_man st1)"
proof -
  obtain p where p: "jc_Packet (snd (json_Recv bs json_client_new)) = Some p" "sublist (takeWhile (\<lambda>c. c \<noteq> CHR 0x00) p) bs"
  proof (cases "CheckBrace bs = 0")
    case True
    then show ?thesis using assms(1) by (simp add: json_ClientRecv_def json_Recv_new ParsingJSON_def)
  next
    case False
    show ?thesis
    proof (rule that [of "take (CheckBrace bs + 1) bs"])
      show "jc_Packet (snd (json_Recv bs json_client_new)) = Some (take (CheckBrace bs + 1) bs)" using False by (simp add: json_Recv_new Let_def)
    qed (rule packet_sublist)
  qed
  have "ParsingJSON parse e us now (Some p) st = Some (a, st1)"
    using assms(1) p(1) by (auto simp: json_ClientRecv_def split: prod.splits)
  then show ?thesis using assms(2-4) p(2) Packet_REQ_denied [OF _ assms(2) _ assms(4)]
    by (auto simp: ParsingJSON_def no_web_login_def Let_def split: option.splits)
qed

lemma js_run_denied:
  assumes "js_run parse e us evs st = Some st1" "js_act st = []" "\<And>now bs. JE_Piece now bs \<in> set evs \<Longrightarrow> no_web_login parse e us bs"
    "without_token (je_lib e) m (js_man st)"
  shows "js_act st1 = [] \<and> without_token (je_lib e) m (js_man st1)"
  using assms
proof (induction evs arbitrary: st)
  case (Cons ev evs)
  show ?case
  proof (cases ev)
    case (JE_Piece now bs)
    obtain ok a c s where r: "json_ClientRecv parse e us now bs json_client_new st = Some (ok, a, c, s)"
      using Cons.prems(1) JE_Piece by (auto split: option.splits)
    have "js_act s = [] \<and> without_token (je_lib e) m (js_man s)"
      by (rule json_ClientRecv_denied [OF r Cons.prems(2) _ Cons.prems(4)]) (use Cons.prems(3) [of now bs] JE_Piece in simp)
    moreover have "js_run parse e us evs s = Some st1" using Cons.prems(1) JE_Piece r by simp
    ultimately show ?thesis using Cons.IH Cons.prems(3) by (meson list.set_intros(2))
  next
    case (JE_Round now)
    have "js_run parse e us evs (st\<lparr>js_act := expire now (js_act st)\<rparr>) = Some st1" using Cons.prems(1) JE_Round by simp
    moreover have "js_act (st\<lparr>js_act := expire now (js_act st)\<rparr>) = []" using Cons.prems(2) by (simp add: expire_def)
    ultimately show ?thesis using Cons.IH Cons.prems(3,4) by (metis list.set_intros(2) rJSON.select_convs(2) rJSON.surjective rJSON.update_convs(1))
  qed
qed simp

text \<open>
  C13. As long as nobody sends the name and the password of a user who may use the pages, the JSON server makes no session, whatever
  pieces come in, in whatever state the program is and however long it goes on. What it does for them is no more than what it does
  without a token, and that depends on the state of the program: in the cold start a restart with a configuration, by which no
  variable and no total changes; while the program waits for an answer about a dump, the loading or the deletion of that dump; in
  every other state, running included, nothing at all changes: no write, no restart, no load.
\<close>

theorem json_guarded:
  assumes "js_run parse e us evs st = Some st1" "js_act st = []"
    "\<And>now bs. JE_Piece now bs \<in> set evs \<Longrightarrow> no_web_login parse e us bs"
  shows "js_act st1 = [] \<and> without_token (je_lib e) (js_man st) (js_man st1)
    \<and> (dm_live (js_man st) \<notin> {LIVE_REBOOT_COLD, LIVE_DUMP_TOTALS, LIVE_DUMP_VARS} \<longrightarrow> st1 = st)
    \<and> (dm_live (js_man st) = LIVE_REBOOT_COLD \<longrightarrow> dm_world (js_man st1) = dm_world (js_man st) \<and> dm_totals (js_man st1) = dm_totals (js_man st))"
proof -
  have d: "js_act st1 = [] \<and> without_token (je_lib e) (js_man st) (js_man st1)"
    by (rule js_run_denied [OF assms(1,2) _ without_token.nothing]) (rule assms(3))
  have "js_man st1 = js_man st \<Longrightarrow> st1 = st" using d assms(2) by (cases st1, cases st) simp
  with d show ?thesis using without_token_effect [of "je_lib e" "js_man st" "js_man st1"] by blast
qed

text \<open>In those states the commands work for everyone, with any token or none.\<close>

theorem dump_command_unguarded:
  assumes "cJSON_GetObjectItem rt ''command'' = Some (J_String ''i.loaddump'')" "cJSON_GetObjectItem rt ''load'' = Some j"
    "dm_live (js_man st) = LIVE_DUMP_TOTALS"
  shows "\<exists>a. Packet_REQ e us now rt st = Some (a, st\<lparr>js_man := forceLoadDumpTotals (je_lib e) (sint (valueint j) \<noteq> 0) (js_man st)\<rparr>)"
  using assms by (simp add: Packet_REQ_def Packet_LoadDump_def packetLoadDump_def)

text \<open>The requests of a client: a login as the user \<open>1\<close> with a wrong password, or with his own.\<close>

definition ex_json_env :: json_env where
  "ex_json_env = \<lparr>je_H = ex_hash, je_rand = (\<lambda>t. ucast t), je_hash = (\<lambda>_. 0), je_lib = ex_lib ex_xml,
     je_junk = te_junk ex_login_env, je_stack = replicate MAX_HASH_SIZE 0, je_sys = te_sys ex_login_env, je_confs = [], je_ts = []\<rparr>"

definition ex_json :: rJSON where
  "ex_json = \<lparr>js_act = [], js_man = ex_manager LIVE_RUNNING 5 ex_base\<rparr>"

definition ex_login :: "string \<Rightarrow> json" where
  "ex_login pwd = J_Object [(''command'', J_String ''a.login''), (''username'', J_String ''1''), (''pwd'', J_String pwd)]"

definition ex_parse :: "string \<Rightarrow> json option" where
  "ex_parse t = (if t = ''{}'' then Some (J_Object [(''request'', ex_login ''32'')]) else None)"

lemma ex_login_sel: "cJSON_GetObjectItem (ex_login pwd) ''command'' = Some (J_String ''a.login'')"
  "cJSON_GetObjectItem (ex_login pwd) ''username'' = Some (J_String ''1'')" "cJSON_GetObjectItem (ex_login pwd) ''pwd'' = Some (J_String pwd)"
  by (simp_all add: ex_login_def cJSON_same_def tolower_char_def)

lemma ex_json_env_pwd: "snd (String_ToBuffer (Some pwd) (je_stack ex_json_env)) = hash_text (Some pwd)" "je_H ex_json_env = ex_hash"
  by (simp_all add: ex_json_env_def hash_text_def)

lemma ex_user_pwd: "u \<in> set (program_users ex_hash [] []) \<Longrightarrow> u_Pwd u = ex_hash (bytes_of ''1'')"
  by (auto simp: main_users_eq insert_user_def main_user_def GetStrHash_def split: if_splits)

lemma ex_wrong_web: "\<not> knows_web_user ex_json_env (program_users ex_hash [] []) (ex_login ''32'')"
proof -
  have "\<not> CmpHash (ex_hash (bytes_of ''1'')) (hash_text (Some ''32''))" using ex_wrong by (subst CmpHash_iff) (simp_all add: ex_hash_length hash_text_length)
  then show ?thesis by (auto simp: knows_web_user_def ex_login_sel ex_json_env_pwd ex_user_pwd)
qed

theorem json_guarded_witness:
  "js_run ex_parse ex_json_env (program_users ex_hash [] []) [JE_Piece 5 ''{}'', JE_Round 9] ex_json = Some ex_json"
proof -
  let ?us = "program_users ex_hash [] []" and ?evs = "[JE_Piece 5 ''{}'', JE_Round 9]"
  have "Packet_Login ex_json_env ?us 5 (ex_login ''32'') ex_json \<noteq> None"
    by (simp add: Packet_Login_def ex_login_sel Let_def split: option.splits prod.splits)
  then obtain a st1 where "Packet_Login ex_json_env ?us 5 (ex_login ''32'') ex_json = Some (a, st1)" by auto
  then have "\<exists>st1. js_run ex_parse ex_json_env ?us ?evs ex_json = Some st1"
    by (simp add: json_ClientRecv_def json_Recv_new CheckBrace_def ParsingJSON_def ex_parse_def cJSON_same_def tolower_char_def Packet_REQ_def ex_login_sel Let_def)
  then obtain st2 where r: "js_run ex_parse ex_json_env ?us ?evs ex_json = Some st2" ..
  have "no_web_login ex_parse ex_json_env ?us bs" for bs
    using ex_wrong_web by (auto simp: no_web_login_def ex_parse_def cJSON_same_def tolower_char_def split: if_splits)
  then have "st2 = ex_json" using json_guarded [OF r] by (simp add: ex_json_def ex_manager_sel)
  then show ?thesis using r by simp
qed

section \<open>Tokens\<close>

lemma Packet_Restart_acts:
  assumes "\<And>token. GetActivity token (js_act st) = GetActivity token (js_act st')" "js_man st = js_man st'"
  shows "map_prod id js_man (Packet_Restart now rt st) = map_prod id js_man (Packet_Restart now rt st')"
  using assms by (auto simp: Packet_Restart_def Let_def split: option.splits prod.splits)

lemma GetActivity_append: "GetActivity token (as @ [b]) = (case GetActivity token as of Some a \<Rightarrow> Some a
    | None \<Rightarrow> if act_Token b = token then Some b else None)"
  unfolding GetActivity_def by (induction as) auto

text \<open>
  C15. Two users who log in within one second get the same token, and with it the second works as the first: a restart
  he asks for is answered and done as if only the first were logged in, with the rights of the first.
\<close>

theorem same_second_logins:
  assumes "Packet_Login e us now r1 st = Some (a1, st1)" "js_act st1 = js_act st @ [x1]"
    "Packet_Login e us now r2 st1 = Some (a2, st2)" "js_act st2 = js_act st1 @ [x2]" "GetActivity (act_Token x1) (js_act st) = None"
  shows "act_Token x2 = act_Token x1 \<and> GetActivity (act_Token x2) (js_act st2) = Some x1
    \<and> map_prod id js_man (Packet_Restart now2 rt st2) = map_prod id js_man (Packet_Restart now2 rt st1)"
proof -
  have login: "act_Token x = je_rand e now \<and> js_man s1 = js_man s" if "Packet_Login e us now r s = Some (a, s1)" "js_act s1 = js_act s @ [x]" for r s a s1 x
    using that by (auto simp: Packet_Login_def activity_new_def Let_def split: option.splits prod.splits if_splits)
  have t: "act_Token x2 = act_Token x1" "js_man st2 = js_man st1" using login [OF assms(1,2)] login [OF assms(3,4)] by simp_all
  have g: "GetActivity token (js_act st2) = GetActivity token (js_act st1)" for token
    unfolding assms(4) GetActivity_append unfolding assms(2) GetActivity_append using t(1) by (auto split: option.splits)
  have "GetActivity (act_Token x2) (js_act st2) = Some x1" unfolding g t(1) assms(2) by (simp add: GetActivity_append assms(5))
  then show ?thesis using Packet_Restart_acts [of st2 st1 now2 rt] g t by simp
qed

lemma ex_right_login:
  "\<exists>a act. Packet_Login ex_json_env (program_users ex_hash [] []) now (ex_login ''31'') st = Some (a, st\<lparr>js_act := js_act st @ [act]\<rparr>)"
proof -
  have h: "hash_text (Some ''31'') = ex_hash (bytes_of ''1'')"
    by (simp add: ex_hash_1 hash_text_def String_ToBuffer_def MAX_HASH_SIZE_def hex_digit_def numeral_eq_Suc)
  have "LoginHash (program_users ex_hash [] []) (ex_hash (bytes_of ''1'')) (ex_hash (bytes_of ''1'')) = (Some (main_user ex_hash ''1'' 0xFFFFFFFF), LR_SUCCESS)"
    by (simp add: LoginHash_def main_found ex_hash_length main_user_def GetStrHash_def CmpHash_iff)
  then show ?thesis
    by (simp add: Packet_Login_def ex_login_sel ex_json_env_pwd user_Login_def GetStrHash_def h main_user_def GetAccess_def ACCESS_WEB_def Let_def) blast
qed

theorem same_second_logins_witness:
  "\<exists>a1 x1 a2 x2. let us = program_users ex_hash [] []; st1 = ex_json\<lparr>js_act := [x1]\<rparr>; st2 = ex_json\<lparr>js_act := [x1, x2]\<rparr> in
     Packet_Login ex_json_env us 7 (ex_login ''31'') ex_json = Some (a1, st1) \<and> Packet_Login ex_json_env us 7 (ex_login ''31'') st1 = Some (a2, st2)
     \<and> GetActivity (act_Token x2) (js_act st2) = Some x1"
proof -
  obtain a1 x1 where 1: "Packet_Login ex_json_env (program_users ex_hash [] []) 7 (ex_login ''31'') ex_json = Some (a1, ex_json\<lparr>js_act := [x1]\<rparr>)"
    using ex_right_login [of 7 ex_json] by (auto simp: ex_json_def)
  obtain a2 x2 where 2: "Packet_Login ex_json_env (program_users ex_hash [] []) 7 (ex_login ''31'') (ex_json\<lparr>js_act := [x1]\<rparr>)
      = Some (a2, ex_json\<lparr>js_act := [x1, x2]\<rparr>)"
    using ex_right_login [of 7 "ex_json\<lparr>js_act := [x1]\<rparr>"] by auto
  have e: "js_act ex_json = []" by (simp add: ex_json_def)
  have a: "js_act (ex_json\<lparr>js_act := [x1]\<rparr>) = js_act ex_json @ [x1]"
    "js_act (ex_json\<lparr>js_act := [x1, x2]\<rparr>) = js_act (ex_json\<lparr>js_act := [x1]\<rparr>) @ [x2]" by (simp_all add: e)
  have "GetActivity (act_Token x1) (js_act ex_json) = None" by (simp add: e)
  then have "GetActivity (act_Token x2) (js_act (ex_json\<lparr>js_act := [x1, x2]\<rparr>)) = Some x1"
    using same_second_logins [OF 1 a(1) 2 a(2)] by blast
  then show ?thesis using 1 2 unfolding Let_def by blast
qed

text \<open>What is left after a round of the thread.\<close>

lemma expire_bounds: "length (expire now acts) \<le> MAX_JSON_CLIENT" "a \<in> set (expire now acts) \<Longrightarrow> now - act_Idle a \<le> MAX_JSON_IDLE \<and> now - act_Session a \<le> MAX_JSON_SESSION"
  by (auto simp: expire_def Let_def not_less dest: in_set_dropD)

text \<open>An empty password leaves the buffer it is compared from as the memory was.\<close>

lemma empty_password: "snd (String_ToBuffer (Some []) buf) = buf"
  by (simp add: String_ToBuffer_def)

section \<open>Requests that end the process\<close>

text \<open>As many braces are closed as opened, and there is one: the request ends where this first holds.\<close>

definition balanced :: "string \<Rightarrow> bool" where
  "balanced t \<longleftrightarrow> count_list t (CHR ''{'') = count_list t (CHR ''}'') \<and> count_list t (CHR ''{'') \<noteq> 0"

definition whole_request :: "string \<Rightarrow> bool" where
  "whole_request t \<longleftrightarrow> balanced t \<and> (\<forall>k<length t. \<not> balanced (take k t))"

definition balanced_from :: "nat \<Rightarrow> nat \<Rightarrow> string \<Rightarrow> bool" where
  "balanced_from op cl t \<longleftrightarrow> op + count_list t (CHR ''{'') = cl + count_list t (CHR ''}'') \<and> op + count_list t (CHR ''{'') \<noteq> 0"

lemma balanced_from_Cons: "balanced_from op cl (c # t)
    = balanced_from (if c = CHR ''{'' then Suc op else op) (if c = CHR ''}'' then Suc cl else cl) t"
  by (auto simp: balanced_from_def)

lemma check_brace_Cons: "check_brace (c # cs) ii op cl = (if balanced_from op cl [c] then ii
    else check_brace cs (Suc ii) (if c = CHR ''{'' then Suc op else op) (if c = CHR ''}'' then Suc cl else cl))"
  by (auto simp: Let_def balanced_from_def)

lemma balanced_from_Nil: "balanced_from (if c = CHR ''{'' then Suc op else op) (if c = CHR ''}'' then Suc cl else cl) [] = balanced_from op cl [c]"
  by (simp only: balanced_from_Cons)

lemma check_brace_open:
  "(\<And>k. 0 < k \<Longrightarrow> k \<le> length cs \<Longrightarrow> \<not> balanced_from op cl (take k cs)) \<Longrightarrow> check_brace cs ii op cl = 0"
proof (induction cs arbitrary: ii op cl)
  case (Cons c cs)
  have "\<not> balanced_from op cl [c]" using Cons.prems [of 1] by simp
  moreover have "check_brace cs (Suc ii) (if c = CHR ''{'' then Suc op else op) (if c = CHR ''}'' then Suc cl else cl) = 0"
    using Cons.prems [of "Suc k" for k] by (intro Cons.IH) (auto simp only: balanced_from_Cons [symmetric] take_Suc_Cons list.size)
  ultimately show ?case by (simp only: check_brace_Cons if_False)
qed simp

lemma check_brace_whole:
  "cs \<noteq> [] \<Longrightarrow> balanced_from op cl cs \<Longrightarrow> (\<And>k. 0 < k \<Longrightarrow> k < length cs \<Longrightarrow> \<not> balanced_from op cl (take k cs))
   \<Longrightarrow> check_brace (cs @ rest) ii op cl = ii + (length cs - 1)"
proof (induction cs arbitrary: ii op cl)
  case (Cons c cs)
  show ?case
  proof (cases "cs = []")
    case True
    then show ?thesis using Cons.prems(2) by (simp only: append_Cons check_brace_Cons if_True) simp
  next
    case False
    have "\<not> balanced_from op cl [c]" using Cons.prems(3) [of 1] False by (cases cs) simp_all
    moreover have "check_brace (cs @ rest) (Suc ii) (if c = CHR ''{'' then Suc op else op) (if c = CHR ''}'' then Suc cl else cl)
        = Suc ii + (length cs - 1)"
      using Cons.prems(2) Cons.prems(3) [of "Suc k" for k] False
      by (intro Cons.IH) (auto simp only: balanced_from_Cons [symmetric] take_Suc_Cons list.size Suc_less_eq)
    ultimately have "check_brace (c # cs @ rest) ii op cl = Suc ii + (length cs - 1)" by (simp only: check_brace_Cons if_False)
    then show ?thesis using False by (cases cs) simp_all
  qed
qed simp

lemma whole_request_braces:
  assumes "whole_request t"
  shows "n < length t \<Longrightarrow> CheckBrace (take n t) = 0" "CheckBrace (t @ rest) = length t - 1" "2 \<le> length t"
proof -
  have b: "balanced_from 0 0 = balanced" by (intro ext) (simp add: balanced_from_def balanced_def)
  have n: "\<not> balanced (take k t)" if "k < length t" for k using assms that by (simp add: whole_request_def)
  show "CheckBrace (take n t) = 0" if "n < length t"
    unfolding CheckBrace_def by (rule check_brace_open) (use n that in \<open>simp add: b min_def\<close>)
  have "t \<noteq> []" using assms by (auto simp: whole_request_def balanced_def)
  then show "CheckBrace (t @ rest) = length t - 1" unfolding CheckBrace_def
    using check_brace_whole [of t 0 0 rest 0] n assms by (simp add: b whole_request_def)
  show "2 \<le> length t"
  proof (rule ccontr)
    assume "\<not> 2 \<le> length t"
    with \<open>t \<noteq> []\<close> obtain c where "t = [c]" by (cases t; cases "tl t") auto
    then show False using assms by (auto simp: whole_request_def balanced_def split: if_splits)
  qed
qed

lemma data_set_crashes: "Packet_DataSet e rt st = None"
  by (simp add: Packet_DataSet_def timegm64_def)

text \<open>
  C14. Requests that end the process, whoever sends them. A request is cut into pieces by the network: whenever the first piece does not
  reach the brace that closes the request, wherever the cut is and whatever inner braces the piece has, it is parsed although there
  is no text to parse, which ends the process; when it does reach that brace, the answer is that to the request, whatever came in
  behind it. And a request that asks to write variables, itself whole, ends the process too, as the time stamp of the answer is taken
  of a null pointer.
\<close>

theorem requests_that_crash:
  assumes "whole_request req"
  shows "(\<forall>n<length req. json_ClientRecv parse e us now (take n req) json_client_new st = None)
    \<and> (\<forall>rest. json_ClientRecv parse e us now (req @ rest) json_client_new st = json_ClientRecv parse e us now req json_client_new st)
    \<and> (\<forall>rt q. parse (takeWhile (\<lambda>c. c \<noteq> CHR 0x00) req) = Some rt \<and> cJSON_GetObjectItem rt ''request'' = Some q
        \<and> cJSON_GetObjectItem q ''command'' = Some (J_String ''data.set'') \<longrightarrow> json_ClientRecv parse e us now req json_client_new st = None)"
proof -
  note w = whole_request_braces [OF assms]
  have "json_ClientRecv parse e us now (req @ rest) json_client_new st
      = map_option (\<lambda>(a, st1). (False, a, \<lparr>jc_Buff = None, jc_Packet = Some req\<rparr>, st1)) (ParsingJSON parse e us now (Some req) st)" for rest
  proof -
    have "CheckBrace (req @ rest) + 1 = length req" "CheckBrace (req @ rest) \<noteq> 0" using w(2) [of rest] w(3) by simp_all
    then show ?thesis by (simp add: json_ClientRecv_def json_Recv_new Let_def)
  qed
  from this [of "[]"] this w(1) show ?thesis
    by (auto simp: json_ClientRecv_def json_Recv_new ParsingJSON_def Let_def Packet_REQ_def data_set_crashes)
qed

text \<open>The request to write two variables, with the braces of its list, cut within the list.\<close>

definition ex_request :: string where "ex_request = ''{ids:[{id:1},{id:2}]}''"

lemma ex_request_whole: "whole_request ex_request"
  by code_simp

theorem requests_that_crash_witness:
  "json_ClientRecv ex_parse ex_json_env [] 0 ''{ids:[{id:1}'' json_client_new ex_json = None
   \<and> json_ClientRecv (\<lambda>_. Some (J_Object [(''request'', J_Object [(''command'', J_String ''data.set'')])])) ex_json_env [] 0 ex_request
       json_client_new ex_json = None"
proof
  have "take 12 ex_request = ''{ids:[{id:1}''" "12 < length ex_request" by (simp_all add: ex_request_def)
  then show "json_ClientRecv ex_parse ex_json_env [] 0 ''{ids:[{id:1}'' json_client_new ex_json = None"
    using requests_that_crash [OF ex_request_whole] by metis
  show "json_ClientRecv (\<lambda>_. Some (J_Object [(''request'', J_Object [(''command'', J_String ''data.set'')])])) ex_json_env [] 0 ex_request
       json_client_new ex_json = None"
    using requests_that_crash [OF ex_request_whole] by (simp add: cJSON_same_def tolower_char_def)
qed

end
