(* ===== verification/Threads.thy ===== *)
theory Threads
  imports TickCount Lreal
begin

unbundle bit_operations_syntax

text \<open>
  The class all threads derive from, \<^verbatim>\<open>src/shared/thread_class.cpp\<close>, and the thread that watches the others,
  \<^verbatim>\<open>src/tritonn/threadmaster.cpp\<close>. Command, pause, delay and status are locked one by one, so what other
  threads do comes between any two accesses: the thread is a place in the code and its fields, and a run is a sequence of its own
  steps and those of the others. Sleeping is waiting for the next step of one's own.
\<close>

section \<open>A thread\<close>

datatype rThreadStatus = TS_UNDEF | TS_FINISHED | TS_RUNNING | TS_PAUSED | TS_ABORTED | TS_CLOSED

datatype rThreadCommand = TC_NONE | TC_FINISH | TC_RESTORE | TC_ABORT

definition THREAD_IS_WORK :: "rThreadStatus \<Rightarrow> bool" where
  "THREAD_IS_WORK x \<longleftrightarrow> x = TS_RUNNING \<or> x = TS_PAUSED"

record rThreadTimeInfo =
  ti_Work :: UDINT
  ti_Idle :: UDINT

record rThread =
  th_Pause :: "16 word"
  th_Delay :: UDINT
  th_TimeInfo :: "rThreadTimeInfo list"
  th_LastTick :: UDINT
  th_Status :: rThreadStatus
  th_Command :: rThreadCommand

text \<open>The memory of \<^verbatim>\<open>LastTick\<close> is not set.\<close>

definition thread_new :: "UDINT \<Rightarrow> rThread" where
  "thread_new junk = \<lparr>th_Pause = 0, th_Delay = 0, th_TimeInfo = [], th_LastTick = junk, th_Status = TS_UNDEF, th_Command = TC_NONE\<rparr>"

text \<open>Which access to a field comes next, with what was read before; in \<open>AT_BODY\<close> is the derived class.\<close>

datatype place = AT_COMMAND | AT_PAUSE rThreadCommand | AT_DELAY rThreadCommand "16 word" | AT_RESET rThreadCommand "16 word" UDINT
  | AT_RESET_PAUSE rThreadCommand "16 word" UDINT | AT_SWITCH rThreadCommand "16 word" UDINT | AT_WORK | AT_TIME | AT_BODY | AT_END rThreadStatus

definition idle_time :: "UDINT \<Rightarrow> rThread \<Rightarrow> rThread" where
  "idle_time now t = t\<lparr>th_TimeInfo := th_TimeInfo t @ [\<lparr>ti_Work = 0, ti_Idle = now - th_LastTick t\<rparr>], th_LastTick := now\<rparr>"

definition EndProccesing :: "UDINT \<Rightarrow> rThread \<Rightarrow> rThread" where
  "EndProccesing now t = (if th_TimeInfo t \<noteq> []
     then t\<lparr>th_TimeInfo := butlast (th_TimeInfo t) @ [(last (th_TimeInfo t))\<lparr>ti_Work := now - th_LastTick t\<rparr>], th_LastTick := now\<rparr>
     else t\<lparr>th_LastTick := now\<rparr>)"

fun own_step :: "UDINT \<Rightarrow> place \<Rightarrow> rThread \<Rightarrow> place \<times> rThread" where
  "own_step now AT_COMMAND t = (AT_PAUSE (th_Command t), t)"
| "own_step now (AT_PAUSE c) t = (AT_DELAY c (th_Pause t), t)"
| "own_step now (AT_DELAY c p) t = (AT_RESET c p (th_Delay t), t)"
| "own_step now (AT_RESET c p d) t = (AT_RESET_PAUSE c p d, t\<lparr>th_Command := TC_NONE\<rparr>)"
| "own_step now (AT_RESET_PAUSE c p d) t = (AT_SWITCH c p d, t\<lparr>th_Pause := 0\<rparr>)"
| "own_step now (AT_SWITCH c p d) t = (case c of
     TC_FINISH \<Rightarrow> (AT_END TS_FINISHED, t\<lparr>th_Status := TS_FINISHED\<rparr>)
   | TC_RESTORE \<Rightarrow> (AT_BODY, t\<lparr>th_Status := TS_RUNNING\<rparr>)
   | _ \<Rightarrow> if p \<noteq> 0 then (if p = - 1 then AT_COMMAND else AT_WORK, t\<lparr>th_Status := TS_PAUSED\<rparr>) else (AT_TIME, t\<lparr>th_Status := TS_RUNNING\<rparr>))"
| "own_step now AT_WORK t = (AT_TIME, t\<lparr>th_Status := TS_RUNNING\<rparr>)"
| "own_step now AT_TIME t = (AT_BODY, idle_time now t)"
| "own_step now AT_BODY t = (AT_COMMAND, EndProccesing now t)"
| "own_step now (AT_END s) t = (AT_END s, t)"

section \<open>The others\<close>

definition thread_Finish :: "rThread \<Rightarrow> rThread" where "thread_Finish t = t\<lparr>th_Command := TC_FINISH\<rparr>"

definition thread_Restore :: "rThread \<Rightarrow> rThread" where "thread_Restore t = t\<lparr>th_Command := TC_RESTORE\<rparr>"

definition thread_Closed :: "rThread \<Rightarrow> rThread" where
  "thread_Closed t = (if th_Status t = TS_FINISHED then t\<lparr>th_Status := TS_CLOSED\<rparr> else t)"

definition GetTimeInfo :: "rThread \<Rightarrow> rThreadTimeInfo list \<times> rThread" where
  "GetTimeInfo t = (th_TimeInfo t, t\<lparr>th_TimeInfo := []\<rparr>)"

datatype action = Own UDINT | Do_Finish | Do_Restore | Do_Pause "16 word" | Do_Delay UDINT | Do_GetTimeInfo

fun thread_act :: "action \<Rightarrow> place \<times> rThread \<Rightarrow> place \<times> rThread" where
  "thread_act (Own now) (l, t) = own_step now l t"
| "thread_act Do_Finish (l, t) = (l, thread_Finish t)"
| "thread_act Do_Restore (l, t) = (l, thread_Restore t)"
| "thread_act (Do_Pause p) (l, t) = (l, t\<lparr>th_Pause := p\<rparr>)"
| "thread_act (Do_Delay d) (l, t) = (l, t\<lparr>th_Delay := d\<rparr>)"
| "thread_act Do_GetTimeInfo (l, t) = (l, snd (GetTimeInfo t))"

abbreviation thread_run :: "action list \<Rightarrow> place \<times> rThread \<Rightarrow> place \<times> rThread" where
  "thread_run acts s \<equiv> fold thread_act acts s"

section \<open>Ending a thread\<close>

fun ended :: "place \<Rightarrow> bool" where
  "ended (AT_END s) = True"
| "ended _ = False"

text \<open>Between reading the command and resetting it, without having read that the thread shall end.\<close>

fun deaf :: "place \<Rightarrow> bool" where
  "deaf (AT_PAUSE c) = (c \<noteq> TC_FINISH)"
| "deaf (AT_DELAY c p) = (c \<noteq> TC_FINISH)"
| "deaf (AT_RESET c p d) = (c \<noteq> TC_FINISH)"
| "deaf _ = False"

text \<open>The command the thread has read and not yet followed.\<close>

fun in_hand :: "place \<Rightarrow> rThreadCommand" where
  "in_hand (AT_PAUSE c) = c"
| "in_hand (AT_DELAY c p) = c"
| "in_hand (AT_RESET c p d) = c"
| "in_hand (AT_RESET_PAUSE c p d) = c"
| "in_hand (AT_SWITCH c p d) = c"
| "in_hand _ = TC_NONE"

text \<open>How many of its own steps a thread that was told to end has left at most.\<close>

fun steps_left :: "place \<Rightarrow> nat" where
  "steps_left AT_COMMAND = 6"
| "steps_left (AT_PAUSE c) = 5"
| "steps_left (AT_DELAY c p) = 4"
| "steps_left (AT_RESET c p d) = 3"
| "steps_left (AT_RESET_PAUSE c p d) = (if c = TC_FINISH then 2 else 11)"
| "steps_left (AT_SWITCH c p d) = (if c = TC_FINISH then 1 else 10)"
| "steps_left AT_WORK = 9"
| "steps_left AT_TIME = 8"
| "steps_left AT_BODY = 7"
| "steps_left (AT_END s) = 0"

definition told :: "place \<times> rThread \<Rightarrow> bool" where
  "told s \<longleftrightarrow> (case s of (l, t) \<Rightarrow> in_hand l = TC_FINISH \<or> ended l \<or> th_Command t = TC_FINISH \<and> \<not> deaf l)"

definition untold :: "place \<times> rThread \<Rightarrow> bool" where
  "untold s \<longleftrightarrow> (case s of (l, t) \<Rightarrow> in_hand l \<noteq> TC_FINISH \<and> \<not> ended l \<and> (th_Command t = TC_FINISH \<longrightarrow> deaf l))"

abbreviation silent :: "action \<Rightarrow> bool" where "silent a \<equiv> a \<noteq> Do_Finish \<and> a \<noteq> Do_Restore"

definition own_steps :: "action list \<Rightarrow> nat" where
  "own_steps acts = length (filter (\<lambda>a. case a of Own _ \<Rightarrow> True | _ \<Rightarrow> False) acts)"

lemma idle_time_sel [simp]: "th_Command (idle_time now t) = th_Command t"
  by (simp add: idle_time_def)

lemma EndProccesing_sel [simp]: "th_Command (EndProccesing now t) = th_Command t"
  by (simp add: EndProccesing_def)

lemma own_step_told:
  assumes "told (l, t)"
  shows "told (own_step now l t)" "steps_left (fst (own_step now l t)) \<le> steps_left l - 1"
  using assms by (cases l; auto simp: told_def split: rThreadCommand.splits)+

lemma own_step_untold: "untold (l, t) \<Longrightarrow> untold (own_step now l t)"
  by (cases l) (auto simp: untold_def split: rThreadCommand.splits)

lemma thread_act_told:
  assumes "told s" "silent a"
  shows "told (thread_act a s)" "steps_left (fst (thread_act a s)) \<le> steps_left (fst s) - (case a of Own _ \<Rightarrow> 1 | _ \<Rightarrow> 0)"
  using assms own_step_told by (cases s; cases a; auto simp: told_def GetTimeInfo_def split: prod.splits)+

lemma thread_act_untold: "untold s \<Longrightarrow> a \<noteq> Do_Finish \<Longrightarrow> untold (thread_act a s)"
  using own_step_untold by (cases s; cases a) (auto simp: untold_def GetTimeInfo_def thread_Restore_def split: prod.splits)

lemma told_run:
  assumes "told s" "\<And>a. a \<in> set acts \<Longrightarrow> silent a"
  shows "told (thread_run acts s) \<and> steps_left (fst (thread_run acts s)) \<le> steps_left (fst s) - own_steps acts"
  using assms
proof (induction acts arbitrary: s)
  case (Cons a acts)
  have "told (thread_act a s)" "steps_left (fst (thread_act a s)) \<le> steps_left (fst s) - (case a of Own _ \<Rightarrow> 1 | _ \<Rightarrow> 0)"
    using thread_act_told [OF Cons.prems(1)] Cons.prems(2) by auto
  then show ?case using Cons.IH [of "thread_act a s"] Cons.prems(2) by (fastforce simp: own_steps_def split: action.splits)
qed (simp add: own_steps_def)

lemma untold_run: "untold s \<Longrightarrow> Do_Finish \<notin> set acts \<Longrightarrow> untold (thread_run acts s)"
proof (induction acts arbitrary: s)
  case (Cons a acts)
  then show ?case using thread_act_untold [OF Cons.prems(1), of a] by (metis fold_simps(2) list.set_intros)
qed simp

lemma steps_left_0: "steps_left l = 0 \<longleftrightarrow> ended l"
  by (cases l) auto

lemma steps_left_11: "steps_left l \<le> 11"
  by (cases l) auto

text \<open>
  C16. A thread that is told to end does so within eleven of its own steps, whatever pauses and delays are set meanwhile, exactly
  when it is not between reading and resetting its command; told there, it never ends, however long it runs.
\<close>

theorem finish_heard:
  assumes "\<And>a. a \<in> set acts \<Longrightarrow> silent a" "11 \<le> own_steps acts" "\<not> ended l"
  shows "ended (fst (thread_run acts (l, thread_Finish t))) \<longleftrightarrow> \<not> deaf l"
proof (cases "deaf l")
  case True
  then have "untold (l, thread_Finish t)" by (cases l) (auto simp: untold_def)
  then have "untold (thread_run acts (l, thread_Finish t))" using untold_run assms(1) by blast
  then show ?thesis using True by (auto simp: untold_def split: prod.splits)
next
  case False
  then have "told (l, thread_Finish t)" by (simp add: told_def thread_Finish_def)
  then have "steps_left (fst (thread_run acts (l, thread_Finish t))) \<le> steps_left l - own_steps acts" using told_run assms(1) by fastforce
  then have "steps_left (fst (thread_run acts (l, thread_Finish t))) = 0" using steps_left_11 [of l] assms(2) by linarith
  then show ?thesis using False steps_left_0 by blast
qed

theorem finish_heard_witness:
  "ended (fst (thread_run (replicate 11 (Own 5)) (AT_BODY, thread_Finish (thread_new 0))))
   \<and> \<not> ended (fst (thread_run (replicate 11 (Own 5)) (AT_PAUSE TC_NONE, thread_Finish (thread_new 0))))"
  using finish_heard [of "replicate 11 (Own 5)" AT_BODY "thread_new 0"] finish_heard [of "replicate 11 (Own 5)" "AT_PAUSE TC_NONE" "thread_new 0"]
  by (auto simp: own_steps_def)

section \<open>An endless pause\<close>

text \<open>
  The pause of minus one, which is meant to last until the thread is told to go on or to end, lasts for one round: with nothing else
  told, the thread works after thirteen of its own steps.
\<close>

theorem endless_pause_ends:
  assumes "th_Pause t = - 1" "th_Command t = TC_NONE" "length nows = 13"
  shows "fst (thread_run (List.map Own nows) (AT_COMMAND, t)) = AT_BODY \<and> th_Status (snd (thread_run (List.map Own nows) (AT_COMMAND, t))) = TS_RUNNING"
proof -
  have "\<exists>a b c d e f g. nows = [a, b, c, d, e, f, g] @ drop 7 nows \<and> length (drop 7 nows) = 6"
    using assms(3) by (auto simp: numeral_eq_Suc length_Suc_conv)
  then obtain a b c d e f g xs where n: "nows = [a, b, c, d, e, f, g] @ xs" "length xs = 6" by blast
  have 1: "thread_run (List.map Own [a, b, c, d, e, f, g]) (AT_COMMAND, t) = (AT_PAUSE TC_NONE, t\<lparr>th_Command := TC_NONE, th_Pause := 0, th_Status := TS_PAUSED\<rparr>)"
    by (simp add: assms(1,2))
  have 2: "fst (thread_run (List.map Own xs) (AT_PAUSE TC_NONE, u)) = AT_BODY \<and> th_Status (snd (thread_run (List.map Own xs) (AT_PAUSE TC_NONE, u))) = TS_RUNNING"
    if "th_Pause u = 0" "th_Command u = TC_NONE" for u
    using n(2) that by (auto simp: numeral_eq_Suc length_Suc_conv idle_time_def)
  show ?thesis unfolding n(1) map_append fold_append o_apply 1 by (rule 2) simp_all
qed

theorem endless_pause_ends_witness:
  "fst (thread_run (List.map Own (replicate 13 5)) (AT_COMMAND, (thread_new 0)\<lparr>th_Pause := - 1\<rparr>)) = AT_BODY"
  using endless_pause_ends [of "(thread_new 0)\<lparr>th_Pause := - 1\<rparr>" "replicate 13 5"] by (simp add: thread_new_def)

section \<open>The thread that watches the others\<close>

definition TMF_NONE :: UDINT where "TMF_NONE = 0"
definition TMF_DELETE :: UDINT where "TMF_DELETE = 2"
definition TMF_NOTRUN :: UDINT where "TMF_NOTRUN = 4"

record rThreadTimeAvr =
  WorkMax :: UDINT
  WorkMin :: UDINT
  WorkAverage :: UDINT
  WorkAvgMax :: UDINT
  IdleAverage :: UDINT
  IdleMax :: UDINT
  IdleMin :: UDINT

text \<open>The class that is watched is here its name with its fields.\<close>

record rInfo =
  in_name :: string
  in_flags :: UDINT
  in_status :: rThreadStatus
  in_class :: rThread
  in_timeAvr :: rThreadTimeAvr
  in_counter :: UDINT
  in_cntAvrMax :: UDINT
  in_timeInfo :: "rThreadTimeInfo list"

definition info_new :: "string \<Rightarrow> rThread \<Rightarrow> UDINT \<Rightarrow> rInfo" where
  "info_new name t flags = \<lparr>in_name = name, in_flags = flags, in_status = TS_UNDEF, in_class = t,
     in_timeAvr = \<lparr>WorkMax = 0, WorkMin = 0xFFFFFFFF, WorkAverage = 0, WorkAvgMax = 0, IdleAverage = 0, IdleMax = 0, IdleMin = 0xFFFFFFFF\<rparr>,
     in_counter = 0, in_cntAvrMax = 0, in_timeInfo = []\<rparr>"

definition running_mean :: "UDINT \<Rightarrow> UDINT \<Rightarrow> UDINT \<Rightarrow> UDINT \<Rightarrow> UDINT" where
  "running_mean ub old cnt v = cast_word ub ((lreal_of_word old * lreal_of_word cnt + lreal_of_word v) / lreal_of_word (cnt + 1))"

definition mean_of :: "UDINT list \<Rightarrow> UDINT" where
  "mean_of ws = (if ws = [] then 0 else of_nat (unat (sum_list ws) div length ws))"

definition calcThreadTimeInfo :: "UDINT \<Rightarrow> rInfo \<Rightarrow> rInfo" where
  "calcThreadTimeInfo ub i = (case GetTimeInfo (in_class i) of (vti, t) \<Rightarrow>
     let work = mean_of (List.map ti_Work vti); idle = mean_of (List.map ti_Idle vti); a = in_timeAvr i;
       a = a\<lparr>WorkMin := if work < WorkMin a then work else WorkMin a, WorkMax := if work > WorkMax a then work else WorkMax a,
         IdleMin := if idle < IdleMin a then idle else IdleMin a, IdleMax := if idle > IdleMax a then idle else IdleMax a,
         WorkAverage := running_mean ub (WorkAverage a) (in_counter i) work, IdleAverage := running_mean ub (IdleAverage a) (in_counter i) idle\<rparr>;
       high = (work > WorkAverage a \<or> in_cntAvrMax i = 0)
     in i\<lparr>in_class := t, in_counter := in_counter i + 1,
       in_timeAvr := if high then a\<lparr>WorkAvgMax := running_mean ub (WorkAvgMax a) (in_cntAvrMax i) work\<rparr> else a,
       in_cntAvrMax := if high then in_cntAvrMax i + 1 else in_cntAvrMax i, in_timeInfo := in_timeInfo i @ [\<lparr>ti_Work = work, ti_Idle = idle\<rparr>]\<rparr>)"

definition clear_notrun :: "rInfo \<Rightarrow> rInfo" where
  "clear_notrun i = i\<lparr>in_flags := in_flags i AND NOT TMF_NOTRUN\<rparr>"

text \<open>
  One pass over the threads, with what the clock says at each, the timer of ten seconds, and the thread found closed, which ends
  the pass.
\<close>

fun watch :: "UDINT \<Rightarrow> rTickCount \<Rightarrow> (rInfo \<times> timeval) list \<Rightarrow> rInfo list \<times> string option \<times> rTickCount" where
  "watch ub nt [] = ([], None, nt)"
| "watch ub nt ((i, now) # rest) = (let i = i\<lparr>in_status := th_Status (in_class i)\<rparr> in
     if \<not> THREAD_IS_WORK (in_status i) \<and> \<not> has (in_flags i) TMF_NOTRUN then (i # List.map fst rest, Some (in_name i), nt)
     else let i = (if THREAD_IS_WORK (in_status i) then clear_notrun i else i);
         (i, nt) = (if tick_isFinished now nt then (clear_notrun i, tick_stop nt) else (i, nt))
       in (case watch ub nt rest of (is, r, nt1) \<Rightarrow> (calcThreadTimeInfo ub i # is, r, nt1)))"

text \<open>A round of the thread: meanwhile the others have gone on, to what \<open>f\<close> says of them.\<close>

definition watch_round :: "UDINT \<Rightarrow> (string \<Rightarrow> rThread) \<times> (nat \<Rightarrow> timeval) \<Rightarrow> rInfo list \<times> string list \<times> rTickCount
    \<Rightarrow> rInfo list \<times> string list \<times> rTickCount" where
  "watch_round ub fc s = (case fc of (f, clock) \<Rightarrow> (case s of (is, rs, nt) \<Rightarrow>
     (case watch ub nt (zip (List.map (\<lambda>i. i\<lparr>in_class := f (in_name i)\<rparr>) is) (List.map clock [0..<length is])) of (is1, r, nt1) \<Rightarrow>
       (is1, (case r of None \<Rightarrow> rs | Some n \<Rightarrow> rs @ [n]), nt1))))"

text \<open>Threads among \<open>S\<close> that would be found closed.\<close>

definition lost :: "string set \<Rightarrow> rInfo list \<Rightarrow> rInfo list" where
  "lost S is = List.filter (\<lambda>i. in_name i \<in> S \<and> \<not> has (in_flags i) TMF_NOTRUN) is"

definition credit :: "rTickCount \<Rightarrow> nat" where
  "credit nt = (if tick_isStarted nt then 1 else 0)"

lemma calc_sel [simp]: "in_name (calcThreadTimeInfo ub i) = in_name i" "in_flags (calcThreadTimeInfo ub i) = in_flags i"
  by (simp_all add: calcThreadTimeInfo_def GetTimeInfo_def Let_def)

lemma clear_notrun_sel [simp]: "in_name (clear_notrun i) = in_name i" "in_status (clear_notrun i) = in_status i" "in_class (clear_notrun i) = in_class i"
  by (simp_all add: clear_notrun_def)

lemma credit_stop [simp]: "credit (tick_stop nt) = 0"
  by (simp add: credit_def tick_isStarted_def tick_stop_def)

lemma credit_finished: "tick_isFinished now nt \<Longrightarrow> credit nt = 1"
  by (simp add: credit_def tick_isStarted_def tick_isFinished_def)

lemma watch_names: "watch ub nt ps = (is, r, nt1) \<Longrightarrow> List.map in_name is = List.map (in_name \<circ> fst) ps"
  by (induction ub nt ps arbitrary: "is" r nt1 rule: watch.induct) (auto simp: Let_def split: if_splits prod.splits)

lemma watch_lost:
  assumes "watch ub nt ps = (is, r, nt1)" "\<And>i c. (i, c) \<in> set ps \<Longrightarrow> in_name i \<in> S \<Longrightarrow> th_Status (in_class i) = TS_UNDEF"
  shows "length (lost S is) + credit nt1 \<le> length (lost S (List.map fst ps)) + credit nt"
  using assms
proof (induction ps arbitrary: "is" r nt nt1)
  case (Cons p rest)
  obtain i now where p: "p = (i, now)" by force
  define j where "j = i\<lparr>in_status := th_Status (in_class i)\<rparr>"
  define k where "k = (if THREAD_IS_WORK (in_status j) then clear_notrun j else j)"
  have u: "in_name i \<in> S \<Longrightarrow> k = j" using Cons.prems(2) [of i now] by (simp add: p j_def k_def THREAD_IS_WORK_def)
  have l: "lost S (calcThreadTimeInfo ub k # xs) = (if in_name i \<in> S \<and> \<not> has (in_flags i) TMF_NOTRUN then [calcThreadTimeInfo ub k] else []) @ lost S xs" for xs
    using u by (auto simp: lost_def k_def j_def)
  have IH: "length (lost S js) + credit nt2 \<le> length (lost S (List.map fst rest)) + credit t" if "watch ub t rest = (js, r, nt2)" for t js r nt2
    using Cons.IH [OF that] Cons.prems(2) by auto
  consider (stop) "\<not> THREAD_IS_WORK (in_status j)" "\<not> has (in_flags i) TMF_NOTRUN"
    | (clear) "THREAD_IS_WORK (in_status j) \<or> has (in_flags i) TMF_NOTRUN" "tick_isFinished now nt"
    | (keep) "THREAD_IS_WORK (in_status j) \<or> has (in_flags i) TMF_NOTRUN" "\<not> tick_isFinished now nt" by blast
  then show ?case
  proof cases
    case stop
    then show ?thesis using Cons.prems(1) by (auto simp: p j_def lost_def)
  next
    case clear
    then obtain js where w: "watch ub (tick_stop nt) rest = (js, r, nt1)" "is = calcThreadTimeInfo ub (clear_notrun k) # js"
      using Cons.prems(1) by (auto simp: p j_def k_def Let_def split: prod.splits if_splits)
    have "length (lost S is) \<le> Suc (length (lost S js))" "length (lost S (List.map fst rest)) \<le> length (lost S (List.map fst (p # rest)))"
      by (auto simp: w(2) lost_def)
    then show ?thesis using IH [OF w(1)] credit_finished [OF clear(2)] by simp
  next
    case keep
    then obtain js where w: "watch ub nt rest = (js, r, nt1)" "is = calcThreadTimeInfo ub k # js"
      using Cons.prems(1) by (auto simp: p j_def k_def Let_def split: prod.splits if_splits)
    show ?thesis using IH [OF w(1)] unfolding w(2) l by (auto simp: p lost_def)
  qed
qed (simp add: lost_def)

text \<open>A thread found closed had lost its flag before the pass, and none gets it back.\<close>

lemma watch_keeps_lost:
  assumes "watch ub nt ps = (is, r, nt1)"
  shows "list_all2 (\<lambda>i j. in_name j = in_name i \<and> (\<not> has (in_flags i) TMF_NOTRUN \<longrightarrow> \<not> has (in_flags j) TMF_NOTRUN)) (List.map fst ps) is"
    "r = Some n \<Longrightarrow> \<exists>j \<in> set is. in_name j = n \<and> \<not> has (in_flags j) TMF_NOTRUN"
proof -
  have c: "\<not> has (in_flags (clear_notrun i)) TMF_NOTRUN" for i
    by (simp add: clear_notrun_def has_def and.assoc)
  show "list_all2 (\<lambda>i j. in_name j = in_name i \<and> (\<not> has (in_flags i) TMF_NOTRUN \<longrightarrow> \<not> has (in_flags j) TMF_NOTRUN)) (List.map fst ps) is"
    using assms
  proof (induction ps arbitrary: "is" r nt nt1)
    case (Cons p rest)
    then show ?case using c by (cases p) (fastforce simp: Let_def list_all2_refl split: if_splits prod.splits)
  qed simp
  show "r = Some n \<Longrightarrow> \<exists>j \<in> set is. in_name j = n \<and> \<not> has (in_flags j) TMF_NOTRUN"
    using assms
  proof (induction ps arbitrary: "is" r nt nt1)
    case (Cons p rest)
    then show ?case by (cases p) (fastforce simp: Let_def split: if_splits prod.splits)
  qed simp
qed

text \<open>
  C17. Of the threads that are added before they run and then never start, at most one is ever reported, however many there are and
  however long the program runs: the time they are given ends for one thread only.
\<close>

theorem never_started_unnoticed:
  assumes "\<And>i. i \<in> set is \<Longrightarrow> in_name i \<in> S \<Longrightarrow> has (in_flags i) TMF_NOTRUN"
    "\<And>f clock n. (f, clock) \<in> set rounds \<Longrightarrow> n \<in> S \<Longrightarrow> th_Status (f n) = TS_UNDEF"
  shows "\<exists>n. \<forall>m \<in> S. m \<in> set (fst (snd (fold (watch_round ub) rounds (is, [], nt)))) \<longrightarrow> m = n"
proof -
  define ok where "ok s = (case s of (is, rs, nt) \<Rightarrow> length (lost S is) + credit nt \<le> 1 \<and> (\<forall>m \<in> S. m \<in> set rs \<longrightarrow> m \<in> in_name ` set (lost S is)))"
    for s :: "rInfo list \<times> string list \<times> rTickCount"
  have step: "ok (watch_round ub (f, clock) s)" if "(f, clock) \<in> set rounds" "ok s" for f clock s
  proof -
    obtain js rs nt0 where s: "s = (js, rs, nt0)" by (rule prod_cases3)
    let ?g = "\<lambda>i. i\<lparr>in_class := f (in_name i)\<rparr>"
    let ?ps = "zip (List.map ?g js) (List.map clock [0..<length js])"
    obtain ks r nt1 where w: "watch ub nt0 ?ps = (ks, r, nt1)" by (rule prod_cases3)
    have fst: "List.map fst ?ps = List.map ?g js" by simp
    have "length (lost S (List.map ?g js)) = length (lost S js)" unfolding lost_def filter_map o_def by simp
    moreover have "th_Status (in_class i) = TS_UNDEF" if "(i, c) \<in> set ?ps" "in_name i \<in> S" for i c
    proof -
      have "i \<in> ?g ` set js" using set_zip_leftD [OF that(1)] by simp
      then obtain k where "i = ?g k" by blast
      then show ?thesis using assms(2) [OF \<open>(f, clock) \<in> set rounds\<close>, of "in_name i"] that(2) by simp
    qed
    ultimately have 1: "length (lost S ks) + credit nt1 \<le> 1"
      using watch_lost [OF w, of S] \<open>ok s\<close> unfolding fst ok_def s by simp
    have kept: "m \<in> in_name ` set (lost S ks)" if m: "m \<in> in_name ` set (lost S js)" for m
    proof -
      obtain a where a: "a < length js" "in_name (js ! a) = m" "m \<in> S" "\<not> has (in_flags (js ! a)) TMF_NOTRUN"
        using m by (auto simp: lost_def in_set_conv_nth)
      have "in_name (ks ! a) = m \<and> \<not> has (in_flags (ks ! a)) TMF_NOTRUN \<and> a < length ks"
        using watch_keeps_lost(1) [OF w] a unfolding fst by (auto simp: list_all2_conv_all_nth)
      then show ?thesis using a(3) by (auto simp: lost_def)
    qed
    have "m \<in> in_name ` set (lost S ks)" if "r = Some m" "m \<in> S" for m
      using watch_keeps_lost(2) [OF w that(1)] that(2) by (auto simp: lost_def)
    then show ?thesis using 1 kept \<open>ok s\<close> by (auto simp: ok_def s watch_round_def w split: option.splits)
  qed
  have "ok (is, [], nt)" using assms(1) by (auto simp: ok_def lost_def credit_def filter_empty_conv)
  moreover have "ok (watch_round ub fc s)" if "fc \<in> set rounds" "ok s" for fc s using step that by (cases fc) simp
  ultimately have inv: "ok (fold (watch_round ub) rounds (is, [], nt))"
    by (rule fold_invariant [where Q = "\<lambda>fc. fc \<in> set rounds", rotated 1])
  obtain js rs nt1 where e: "fold (watch_round ub) rounds (is, [], nt) = (js, rs, nt1)" by (rule prod_cases3)
  have f: "ok (js, rs, nt1)" using inv unfolding e .
  have "length (lost S js) \<le> 1" using f by (simp add: ok_def)
  then obtain n where n: "in_name ` set (lost S js) \<subseteq> {n}" by (cases "lost S js") auto
  have "\<forall>m \<in> S. m \<in> set rs \<longrightarrow> m \<in> in_name ` set (lost S js)" using f by (simp add: ok_def)
  then have "\<forall>m \<in> S. m \<in> set rs \<longrightarrow> m = n" using n by blast
  then show ?thesis unfolding e by auto
qed

theorem never_started_unnoticed_witness:
  "\<exists>n. \<forall>m \<in> {''modbus'', ''opcua''}. m \<in> set (fst (snd (fold (watch_round 0) (replicate 2 (\<lambda>_. thread_new 0, \<lambda>_. \<lparr>sec = 11, usec = 0\<rparr>))
     ([info_new ''modbus'' (thread_new 0) TMF_NOTRUN, info_new ''opcua'' (thread_new 0) TMF_NOTRUN], [],
       tick_start \<lparr>sec = 0, usec = 0\<rparr> 10000 (tick_new \<lparr>sec = 0, usec = 0\<rparr>))))) \<longrightarrow> m = n"
  by (rule never_started_unnoticed) (auto simp: info_new_def thread_new_def has_def TMF_NOTRUN_def)

text \<open>A thread that has done no round since the last pass counts as one that took no time: the least time is then 0 for ever.\<close>

lemma empty_pass_min:
  "th_TimeInfo (in_class i) = [] \<Longrightarrow> WorkMin (in_timeAvr (calcThreadTimeInfo ub i)) = 0 \<and> IdleMin (in_timeAvr (calcThreadTimeInfo ub i)) = 0"
  by (simp add: calcThreadTimeInfo_def GetTimeInfo_def mean_of_def Let_def word_gt_0)

lemma min_stays_0: "WorkMin (in_timeAvr i) = 0 \<Longrightarrow> WorkMin (in_timeAvr (calcThreadTimeInfo ub i)) = 0"
  by (simp add: calcThreadTimeInfo_def GetTimeInfo_def Let_def)

end
