(* ===== verification/Catalogue.thy ===== *)
theory Catalogue
  imports Files Source
begin

unbundle bit_operations_syntax

text \<open>
  The catalogue of texts, \<^verbatim>\<open>src/tritonn/text_class.cpp\<close>, with the record of the first error, \<^verbatim>\<open>error.cpp\<close>. A language has
  an address; the current language is kept as one and is not touched when languages are deleted. \<^const>\<open>None\<close> as the result
  of an operation is a read of freed memory or of a null pointer.
\<close>

section \<open>The first error\<close>

record rError =
  er_error :: UDINT
  er_lineno :: UDINT
  er_text :: string

definition error_new :: rError where "error_new = \<lparr>er_error = TRITONN_RESULT_OK, er_lineno = 0, er_text = []\<rparr>"

definition error_set :: "UDINT \<Rightarrow> UDINT \<Rightarrow> string \<Rightarrow> rError \<Rightarrow> UDINT \<times> rError" where
  "error_set e l t err = (if er_error err \<noteq> 0 \<or> e = 0 then (er_error err, err) else (e, \<lparr>er_error = e, er_lineno = l, er_text = t\<rparr>))"

definition error_clear :: "rError \<Rightarrow> rError" where
  "error_clear err = err\<lparr>er_error := TRITONN_RESULT_OK, er_lineno := 0, er_text := []\<rparr>"

section \<open>Languages\<close>

definition DATACFGERR_NOTSYSTEXTFILE :: UDINT where "DATACFGERR_NOTSYSTEXTFILE = 200"
definition DATACFGERR_LANG_STRUCT :: UDINT where "DATACFGERR_LANG_STRUCT = 500"
definition DATACFGERR_LANG_UNKNOW :: UDINT where "DATACFGERR_LANG_UNKNOW = 501"
definition DATACFGERR_LANG_DUPID :: UDINT where "DATACFGERR_LANG_DUPID = 502"
definition DATACFGERR_LANG_ID :: UDINT where "DATACFGERR_LANG_ID = 503"
definition SID_UNKNOW :: UDINT where "SID_UNKNOW = 0xFFFFFFFF"
definition TEXTLANG_SETUP_USED :: UDINT where "TEXTLANG_SETUP_USED = 1"

record rTextLang =
  lg_Name :: string
  lg_Setup :: UDINT
  lg_Texts :: "(UDINT \<times> string) list"

record rTextClass =
  tc_langs :: "(nat \<times> rTextLang) list"
  tc_CurLang :: "nat option"
  tc_next :: nat

definition catalogue_new :: rTextClass where "catalogue_new = \<lparr>tc_langs = [], tc_CurLang = None, tc_next = 0\<rparr>"

definition String_tolower :: "string \<Rightarrow> string" where "String_tolower s = List.map tolower_char s"

definition getLangPtr :: "string \<Rightarrow> rTextClass \<Rightarrow> nat option" where
  "getLangPtr name c = map_option fst (find (\<lambda>(a, l). String_tolower name = lg_Name l) (tc_langs c))"

text \<open>What is at an address; freed languages are not.\<close>

definition lang_at :: "nat \<Rightarrow> rTextClass \<Rightarrow> rTextLang option" where
  "lang_at a c = map_of (tc_langs c) a"

definition getCurLang :: "rTextClass \<Rightarrow> string option" where
  "getCurLang c = (case tc_CurLang c of None \<Rightarrow> Some [] | Some a \<Rightarrow> map_option lg_Name (lang_at a c))"

definition text_setCurLang :: "string \<Rightarrow> rTextClass \<Rightarrow> bool \<times> rTextClass" where
  "text_setCurLang name c = (case getLangPtr name c of None \<Rightarrow> (False, c) | Some a \<Rightarrow> (True, c\<lparr>tc_CurLang := Some a\<rparr>))"

section \<open>Texts\<close>

definition getPtr_in :: "UDINT \<Rightarrow> rTextLang option \<Rightarrow> string option" where
  "getPtr_in sid l = (case l of None \<Rightarrow> None | Some l \<Rightarrow> map_option snd (find (\<lambda>(i, t). i = sid) (lg_Texts l)))"

definition getPtr_lang :: "UDINT \<Rightarrow> string \<Rightarrow> rTextClass \<Rightarrow> string option" where
  "getPtr_lang sid name c = getPtr_in sid (Option.bind (getLangPtr name c) (\<lambda>a. lang_at a c))"

definition getPtr :: "UDINT \<Rightarrow> rTextClass \<Rightarrow> string option option" where
  "getPtr sid c = map_option (\<lambda>name. getPtr_lang sid name c) (getCurLang c)"

definition get_lang :: "UDINT \<Rightarrow> string \<Rightarrow> string \<Rightarrow> rTextClass \<Rightarrow> bool \<times> string" where
  "get_lang sid name text c = (case getPtr_lang sid name c of None \<Rightarrow> (False, text) | Some t \<Rightarrow> (True, t))"

definition text_get :: "UDINT \<Rightarrow> string \<Rightarrow> rTextClass \<Rightarrow> (bool \<times> string) option" where
  "text_get sid text c = map_option (\<lambda>name. get_lang sid name text c) (getCurLang c)"

definition getListLang :: "rTextClass \<Rightarrow> string list" where
  "getListLang c = List.map (lg_Name \<circ> snd) (tc_langs c)"

definition getListSID :: "string \<Rightarrow> rTextClass \<Rightarrow> (UDINT \<times> string) list" where
  "getListSID name c = (case Option.bind (getLangPtr name c) (\<lambda>a. lang_at a c) of None \<Rightarrow> [] | Some l \<Rightarrow> lg_Texts l)"

section \<open>Loading\<close>

text \<open>\<open>ln\<close> is the line of an element, \<open>num\<close> what \<^verbatim>\<open>strtoul\<close> makes of a text.\<close>

record text_xml =
  tx_ln :: "xelem \<Rightarrow> UDINT"
  tx_num :: "string \<Rightarrow> UDINT"

fun load_texts :: "text_xml \<Rightarrow> xelem list \<Rightarrow> rError \<Rightarrow> rTextLang \<Rightarrow> UDINT \<times> rError \<times> rTextLang" where
  "load_texts tx [] err l = (TRITONN_RESULT_OK, err, l)"
| "load_texts tx (x # xs) err l = (let sid = (case map_of (x_attrs x) ''id'' of None \<Rightarrow> SID_UNKNOW | Some v \<Rightarrow> tx_num tx v);
       text = (case x_text x of None \<Rightarrow> [] | Some t \<Rightarrow> t)
     in if sid = SID_UNKNOW then (case error_set DATACFGERR_LANG_ID (tx_ln tx x) [] err of (e, err) \<Rightarrow> (e, err, l))
        else if getPtr_in sid (Some l) \<noteq> None then (case error_set DATACFGERR_LANG_DUPID (tx_ln tx x) [] err of (e, err) \<Rightarrow> (e, err, l))
        else load_texts tx xs err (l\<lparr>lg_Texts := lg_Texts l @ [(sid, text)]\<rparr>))"

text \<open>The language a text element belongs to: its address, after a new one is made or the old one is marked.\<close>

definition lang_update :: "nat \<Rightarrow> rTextLang \<Rightarrow> rTextClass \<Rightarrow> rTextClass" where
  "lang_update a l c = c\<lparr>tc_langs := List.map (\<lambda>(b, k). if b = a then (b, l) else (b, k)) (tc_langs c)\<rparr>"

definition lang_for :: "string \<Rightarrow> bool \<Rightarrow> rTextClass \<Rightarrow> (nat \<times> rTextLang \<times> rTextClass) option" where
  "lang_for name create c = (case Option.bind (getLangPtr name c) (\<lambda>a. map_option (Pair a) (lang_at a c)) of
     Some (a, l) \<Rightarrow> let l = l\<lparr>lg_Setup := lg_Setup l OR TEXTLANG_SETUP_USED\<rparr> in Some (a, l, lang_update a l c)
   | None \<Rightarrow> if create then let l = \<lparr>lg_Name = name, lg_Setup = 0, lg_Texts = []\<rparr>; a = tc_next c in
       Some (a, l, c\<lparr>tc_langs := tc_langs c @ [(a, l)], tc_next := a + 1\<rparr>) else None)"

definition loadLang :: "text_xml \<Rightarrow> bool \<Rightarrow> xelem \<Rightarrow> rError \<Rightarrow> rTextClass \<Rightarrow> (UDINT \<times> rError \<times> rTextClass) option" where
  "loadLang tx create rt err c = (case map_of (x_attrs rt) ''value'' of None \<Rightarrow> None
     | Some v \<Rightarrow> Some (case lang_for (String_tolower v) create c of
         None \<Rightarrow> (case error_set DATACFGERR_LANG_UNKNOW (tx_ln tx rt) [] err of (e, err) \<Rightarrow> (e, err, c))
       | Some (a, l, c) \<Rightarrow> (case load_texts tx (List.filter (\<lambda>x. x_name x = ''str'') (x_children rt)) err l of
           (e, err, l) \<Rightarrow> (e, err, lang_update a l c))))"

fun load_langs :: "text_xml \<Rightarrow> bool \<Rightarrow> xelem list \<Rightarrow> rError \<Rightarrow> rTextClass \<Rightarrow> (UDINT \<times> rError \<times> rTextClass) option" where
  "load_langs tx create [] err c = Some (TRITONN_RESULT_OK, err, c)"
| "load_langs tx create (x # xs) err c = (case loadLang tx create x err c of None \<Rightarrow> None
     | Some (e, err, c) \<Rightarrow> if e \<noteq> TRITONN_RESULT_OK then Some (er_error err, err, c) else load_langs tx create xs err c)"

definition langs_of :: "xelem \<Rightarrow> xelem list" where
  "langs_of rt = List.filter (\<lambda>x. x_name x = ''lang'') (x_children rt)"

text \<open>\<open>doc\<close> is what the parser makes of the file: an error with its line and text, or the document.\<close>

definition loadSystem :: "text_xml \<Rightarrow> (UDINT \<times> UDINT \<times> string) + xelem \<Rightarrow> rError \<Rightarrow> rTextClass \<Rightarrow> (UDINT \<times> rError \<times> rTextClass) option" where
  "loadSystem tx doc err c = (case doc of
     Inl (e, l, t) \<Rightarrow> Some (case error_set e l t err of (e, err) \<Rightarrow> (e, err, c))
   | Inr d \<Rightarrow> (case x_child d ''strings'' of
       None \<Rightarrow> Some (case error_set DATACFGERR_NOTSYSTEXTFILE 0 [] err of (e, err) \<Rightarrow> (e, err, c))
     | Some rt \<Rightarrow> load_langs tx True (langs_of rt) err c))"

definition deleteUnused :: "rTextClass \<Rightarrow> nat \<times> rTextClass" where
  "deleteUnused c = (let left = List.filter (\<lambda>(a, l). lg_Setup l AND TEXTLANG_SETUP_USED \<noteq> 0) (tc_langs c)
     in (length (tc_langs c) - length left, c\<lparr>tc_langs := left\<rparr>))"

definition text_load :: "text_xml \<Rightarrow> xelem option \<Rightarrow> rError \<Rightarrow> rTextClass \<Rightarrow> (UDINT \<times> rError \<times> rTextClass) option" where
  "text_load tx rt err c = (case rt of
     None \<Rightarrow> Some (case error_set DATACFGERR_LANG_STRUCT 0 [] err of (e, err) \<Rightarrow> (e, err, c))
   | Some rt \<Rightarrow> (case load_langs tx False (langs_of rt) err c of None \<Rightarrow> None
       | Some (e, err, c) \<Rightarrow> if e \<noteq> TRITONN_RESULT_OK then Some (e, err, c) else Some (TRITONN_RESULT_OK, err, snd (deleteUnused c))))"

section \<open>What a catalogue keeps\<close>

definition lang_ok :: "rTextLang \<Rightarrow> bool" where
  "lang_ok l \<longleftrightarrow> String_tolower (lg_Name l) = lg_Name l \<and> distinct (List.map fst (lg_Texts l)) \<and> SID_UNKNOW \<notin> fst ` set (lg_Texts l)"

definition catalogue_ok :: "rTextClass \<Rightarrow> bool" where
  "catalogue_ok c \<longleftrightarrow> distinct (List.map fst (tc_langs c)) \<and> distinct (List.map (lg_Name \<circ> snd) (tc_langs c))
    \<and> (\<forall>(a, l) \<in> set (tc_langs c). a < tc_next c \<and> lang_ok l)"

lemma tolower_idem [simp]: "tolower_char (tolower_char c) = tolower_char c"
  by (simp add: tolower_char_def)

lemma String_tolower_idem [simp]: "String_tolower (String_tolower s) = String_tolower s"
  by (simp add: String_tolower_def)

lemma lang_at_Some: "catalogue_ok c \<Longrightarrow> lang_at a c = Some l \<longleftrightarrow> (a, l) \<in> set (tc_langs c)"
  by (simp add: lang_at_def catalogue_ok_def)

lemma getLangPtr_None: "getLangPtr name c = None \<longleftrightarrow> (\<forall>(a, l) \<in> set (tc_langs c). String_tolower name \<noteq> lg_Name l)"
  by (auto simp: getLangPtr_def find_None_iff)

lemma names_unique: "catalogue_ok c \<Longrightarrow> (a, k) \<in> set (tc_langs c) \<Longrightarrow> (b, l) \<in> set (tc_langs c) \<Longrightarrow> lg_Name k = lg_Name l \<Longrightarrow> a = b \<and> k = l"
  unfolding catalogue_ok_def distinct_map inj_on_def by fastforce

lemma find_SomeD: "find P xs = Some x \<Longrightarrow> x \<in> set xs \<and> P x"
  by (auto simp: find_Some_iff)

lemma getLangPtr_Some:
  assumes "catalogue_ok c"
  shows "getLangPtr name c = Some a \<longleftrightarrow> (\<exists>l. (a, l) \<in> set (tc_langs c) \<and> lg_Name l = String_tolower name)"
proof
  assume "getLangPtr name c = Some a"
  then obtain l where "find (\<lambda>(a, l). String_tolower name = lg_Name l) (tc_langs c) = Some (a, l)" by (auto simp: getLangPtr_def)
  then have "(a, l) \<in> set (tc_langs c)" "lg_Name l = String_tolower name" by (auto dest: find_SomeD)
  then show "\<exists>l. (a, l) \<in> set (tc_langs c) \<and> lg_Name l = String_tolower name" by blast
next
  assume "\<exists>l. (a, l) \<in> set (tc_langs c) \<and> lg_Name l = String_tolower name"
  then obtain l where l: "(a, l) \<in> set (tc_langs c)" "lg_Name l = String_tolower name" by blast
  then obtain b k where b: "find (\<lambda>(a, l). String_tolower name = lg_Name l) (tc_langs c) = Some (b, k)"
    by (cases "find (\<lambda>(a, l). String_tolower name = lg_Name l) (tc_langs c)") (force simp: find_None_iff)+
  then have "(b, k) \<in> set (tc_langs c)" "lg_Name k = String_tolower name" by (auto dest: find_SomeD)
  then show "getLangPtr name c = Some a" using names_unique [OF assms, of a l b k] l b by (simp add: getLangPtr_def)
qed

lemma lang_update_langs: "set (tc_langs (lang_update a l c)) = (\<lambda>(b, k). if b = a then (b, l) else (b, k)) ` set (tc_langs c)"
  by (simp add: lang_update_def)

lemma lang_update_sel [simp]: "tc_next (lang_update a l c) = tc_next c" "tc_CurLang (lang_update a l c) = tc_CurLang c"
  by (simp_all add: lang_update_def)

lemma lang_at_update: "lang_at b (lang_update a l c) = (if b = a \<and> lang_at a c \<noteq> None then Some l else lang_at b c)"
proof -
  have "map_of (List.map (\<lambda>(b, k). if b = a then (b, l) else (b, k)) xs) b = (if b = a \<and> map_of xs a \<noteq> None then Some l else map_of xs b)"
    for xs :: "(nat \<times> rTextLang) list" by (induction xs) auto
  then show ?thesis unfolding lang_at_def lang_update_def by simp
qed

lemma lang_update_ok:
  assumes "catalogue_ok c" "(a, k) \<in> set (tc_langs c)" "lg_Name l = lg_Name k" "lang_ok l"
  shows "catalogue_ok (lang_update a l c)"
proof -
  let ?f = "\<lambda>(b, k). if b = a then (b, l) else (b, k)" and ?L = "List.map (\<lambda>(b, k). if b = a then (b, l) else (b, k)) (tc_langs c)"
  have "\<And>b m. (b, m) \<in> set (tc_langs c) \<Longrightarrow> b = a \<Longrightarrow> m = k" using assms(1,2) unfolding catalogue_ok_def by (auto dest: eq_key_imp_eq_value)
  then have "List.map (lg_Name \<circ> snd) (List.map ?f (tc_langs c)) = List.map (lg_Name \<circ> snd) (tc_langs c)" using assms(3) by auto
  moreover have "List.map fst (List.map ?f (tc_langs c)) = List.map fst (tc_langs c)" by auto
  moreover have "b < tc_next c \<and> lang_ok m" if "(b, m) \<in> ?f ` set (tc_langs c)" for b m
    using that assms(1,4) unfolding catalogue_ok_def by (auto split: if_splits)
  then have "\<forall>(b, m) \<in> set ?L. b < tc_next c \<and> lang_ok m" unfolding set_map by blast
  ultimately have "distinct (List.map fst ?L)" "distinct (List.map (lg_Name \<circ> snd) ?L)" "\<forall>(b, m) \<in> set ?L. b < tc_next c \<and> lang_ok m"
    using assms(1) unfolding catalogue_ok_def by (simp_all del: map_map set_map)
  then show ?thesis unfolding catalogue_ok_def lang_update_def by simp
qed

lemma lang_ok_add:
  "lang_ok l \<Longrightarrow> sid \<noteq> SID_UNKNOW \<Longrightarrow> getPtr_in sid (Some l) = None \<Longrightarrow> lang_ok (l\<lparr>lg_Texts := lg_Texts l @ [(sid, t)]\<rparr>)"
  by (auto simp: lang_ok_def getPtr_in_def find_None_iff)

lemma load_texts_ok:
  assumes "load_texts tx xs err l = (e, err1, l1)" "lang_ok l"
  shows "lang_ok l1 \<and> lg_Name l1 = lg_Name l \<and> lg_Setup l1 = lg_Setup l"
  using assms
proof (induction xs arbitrary: err l)
  case (Cons x xs)
  let ?sid = "case map_of (x_attrs x) ''id'' of None \<Rightarrow> SID_UNKNOW | Some v \<Rightarrow> tx_num tx v"
  let ?l = "l\<lparr>lg_Texts := lg_Texts l @ [(?sid, case x_text x of None \<Rightarrow> [] | Some t \<Rightarrow> t)]\<rparr>"
  show ?case
  proof (cases "?sid \<noteq> SID_UNKNOW \<and> getPtr_in ?sid (Some l) = None")
    case True
    then have "load_texts tx xs err ?l = (e, err1, l1)" using Cons.prems(1) by (simp add: Let_def)
    from Cons.IH [OF this] show ?thesis using lang_ok_add [OF Cons.prems(2)] True by simp
  next
    case False
    then have "l1 = l" using Cons.prems(1) by (auto simp: Let_def split: if_splits prod.splits)
    then show ?thesis using Cons.prems(2) by simp
  qed
qed simp

text \<open>A language an element is about, and a language that was named.\<close>

definition names_lang :: "string \<Rightarrow> xelem \<Rightarrow> bool" where
  "names_lang n x \<longleftrightarrow> (case map_of (x_attrs x) ''value'' of None \<Rightarrow> False | Some v \<Rightarrow> String_tolower v = n)"

abbreviation used :: "rTextLang \<Rightarrow> bool" where "used l \<equiv> has (lg_Setup l) TEXTLANG_SETUP_USED"

lemma used_mark: "has (s OR TEXTLANG_SETUP_USED) TEXTLANG_SETUP_USED"
  by (simp add: has_or TEXTLANG_SETUP_USED_def has_def)

lemma lang_for_found:
  assumes "catalogue_ok c" "getLangPtr name c = Some a"
  obtains l where "(a, l) \<in> set (tc_langs c)" "lg_Name l = String_tolower name"
    "lang_for name create c = Some (a, l\<lparr>lg_Setup := lg_Setup l OR TEXTLANG_SETUP_USED\<rparr>, lang_update a (l\<lparr>lg_Setup := lg_Setup l OR TEXTLANG_SETUP_USED\<rparr>) c)"
proof -
  obtain l where l: "(a, l) \<in> set (tc_langs c)" "lg_Name l = String_tolower name" using assms getLangPtr_Some by blast
  then have "lang_at a c = Some l" using assms(1) by (simp add: lang_at_Some)
  then show ?thesis using that [OF l] assms(2) by (simp add: lang_for_def Let_def)
qed

lemma lang_for_new:
  assumes "catalogue_ok c" "getLangPtr (String_tolower v) c = None" "lang_for (String_tolower v) create c = Some (a, l, c1)"
  shows "catalogue_ok c1 \<and> lang_ok l \<and> tc_langs c1 = tc_langs c @ [(a, l)] \<and> tc_CurLang c1 = tc_CurLang c \<and> lg_Name l = String_tolower v \<and> a \<notin> fst ` set (tc_langs c)"
proof -
  have c1: "a = tc_next c" "l = \<lparr>lg_Name = String_tolower v, lg_Setup = 0, lg_Texts = []\<rparr>" "tc_langs c1 = tc_langs c @ [(a, l)]"
    "tc_next c1 = Suc (tc_next c)" "tc_CurLang c1 = tc_CurLang c"
    using assms(2,3) by (auto simp: lang_for_def Let_def split: if_splits)
  have l: "lang_ok l" by (simp add: c1(2) lang_ok_def)
  have "tc_next c \<notin> fst ` set (tc_langs c)" using assms(1) by (auto simp: catalogue_ok_def)
  moreover have "String_tolower v \<notin> (lg_Name \<circ> snd) ` set (tc_langs c)" using assms(2) by (auto simp: getLangPtr_None)
  ultimately show ?thesis using assms(1) l c1 by (auto simp: catalogue_ok_def)
qed

lemma loadLang_keeps:
  assumes "catalogue_ok c" "loadLang tx create x err c = Some (e, err1, c1)"
  shows "catalogue_ok c1 \<and> tc_CurLang c1 = tc_CurLang c
    \<and> (\<forall>(a, l) \<in> set (tc_langs c). \<exists>k. (a, k) \<in> set (tc_langs c1) \<and> lg_Name k = lg_Name l \<and> (used k \<longleftrightarrow> used l \<or> names_lang (lg_Name l) x))"
proof -
  obtain v where v: "map_of (x_attrs x) ''value'' = Some v" using assms(2) by (auto simp: loadLang_def split: option.splits)
  have n: "names_lang n x \<longleftrightarrow> n = String_tolower v" for n by (auto simp: names_lang_def v)
  show ?thesis
  proof (cases "lang_for (String_tolower v) create c")
    case None
    have "getLangPtr (String_tolower v) c = None"
    proof (rule ccontr)
      assume "getLangPtr (String_tolower v) c \<noteq> None"
      then obtain a where "getLangPtr (String_tolower v) c = Some a" by blast
      then show False by (rule lang_for_found [OF assms(1), where create = create]) (use None in simp)
    qed
    then have "\<not> names_lang (lg_Name l) x" if "(a, l) \<in> set (tc_langs c)" for a l using that unfolding n by (force simp: getLangPtr_None)
    moreover have "c1 = c" using assms(2) None by (auto simp: loadLang_def v split: prod.splits)
    ultimately show ?thesis using assms(1) by auto
  next
    case (Some p)
    obtain a l c2 where p: "lang_for (String_tolower v) create c = Some (a, l, c2)" using Some by (cases p) auto
    obtain e2 err2 k where t: "load_texts tx (List.filter (\<lambda>x. x_name x = ''str'') (x_children x)) err l = (e2, err2, k)" by (rule prod_cases3)
    have c1: "c1 = lang_update a k c2" using assms(2) p t by (auto simp: loadLang_def v)
    show ?thesis
    proof (cases "getLangPtr (String_tolower v) c")
      case None
      note new = lang_for_new [OF assms(1) None p]
      have k: "lang_ok k \<and> lg_Name k = lg_Name l" using load_texts_ok [OF t] new by simp
      have ok: "catalogue_ok c1" unfolding c1 by (rule lang_update_ok [of c2 a l]) (use new k in auto)
      have "(b, m) \<in> set (tc_langs c1) \<and> \<not> names_lang (lg_Name m) x" if "(b, m) \<in> set (tc_langs c)" for b m
        using that new None unfolding c1 n lang_update_langs by (force simp: getLangPtr_None image_iff)
      then show ?thesis using ok new unfolding c1 by (fastforce simp: n)
    next
      case (Some a')
      obtain l0 where l0: "(a, l0) \<in> set (tc_langs c)" "lg_Name l0 = String_tolower v" "l = l0\<lparr>lg_Setup := lg_Setup l0 OR TEXTLANG_SETUP_USED\<rparr>"
        "c2 = lang_update a l c"
        by (rule lang_for_found [OF assms(1) Some, where create = create]) (use p in auto)
      have ok0: "lang_ok l0" using assms(1) l0(1) by (auto simp: catalogue_ok_def)
      then have l: "lang_ok l" by (simp add: l0(3) lang_ok_def)
      have k: "lang_ok k" "lg_Name k = lg_Name l0" "used k" using load_texts_ok [OF t l] by (simp_all add: l0(3) used_mark)
      have c2: "catalogue_ok c2" unfolding l0(4) by (rule lang_update_ok [OF assms(1) l0(1)]) (use l l0(3) in simp_all)
      have al: "(a, l) \<in> set (tc_langs c2)" using l0(1) unfolding l0(4) lang_update_langs by force
      have ok: "catalogue_ok c1" unfolding c1 by (rule lang_update_ok [OF c2 al]) (use k l0(3) in simp_all)
      have "\<exists>k. (b, k) \<in> set (tc_langs c1) \<and> lg_Name k = lg_Name m \<and> (used k \<longleftrightarrow> used m \<or> names_lang (lg_Name m) x)"
        if bm: "(b, m) \<in> set (tc_langs c)" for b m
      proof (cases "b = a")
        case True
        have "m = l0" using bm l0(1) True assms(1) unfolding catalogue_ok_def by (auto dest: eq_key_imp_eq_value)
        moreover have "(a, k) \<in> set (tc_langs c1)" using al unfolding c1 lang_update_langs by force
        ultimately show ?thesis using k l0(2) True by (auto simp: n)
      next
        case False
        have "(b, m) \<in> set (tc_langs c1)" using bm False unfolding c1 l0(4) lang_update_langs by force
        moreover have "lg_Name m \<noteq> String_tolower v" using names_unique [OF assms(1) bm l0(1)] False l0(2) by auto
        ultimately show ?thesis by (auto simp: n)
      qed
      then show ?thesis using ok unfolding c1 l0(4) by auto
    qed
  qed
qed

lemma loadLang_error: "loadLang tx create x err c = Some (e, err1, c1) \<Longrightarrow> e \<noteq> TRITONN_RESULT_OK \<Longrightarrow> er_error err1 \<noteq> TRITONN_RESULT_OK"
proof -
  have set: "error_set n l [] er = (e, er1) \<Longrightarrow> e \<noteq> TRITONN_RESULT_OK \<Longrightarrow> er_error er1 \<noteq> TRITONN_RESULT_OK" for n l er er1
    by (auto simp: error_set_def split: if_splits)
  have texts: "load_texts tx xs er l = (e, er1, l1) \<Longrightarrow> e \<noteq> TRITONN_RESULT_OK \<Longrightarrow> er_error er1 \<noteq> TRITONN_RESULT_OK" for xs er l er1 l1
    by (induction xs arbitrary: er l) (use set in \<open>auto simp: Let_def split: if_splits prod.splits\<close>)
  assume "loadLang tx create x err c = Some (e, err1, c1)" "e \<noteq> TRITONN_RESULT_OK"
  then show ?thesis using set texts by (auto simp: loadLang_def split: option.splits prod.splits)
qed

text \<open>Loading keeps the catalogue in order whether it succeeds or not, and touches the current language in no case.\<close>

lemma load_langs_keeps:
  assumes "load_langs tx create xs err c = Some (e, err1, c1)" "catalogue_ok c"
  shows "catalogue_ok c1 \<and> tc_CurLang c1 = tc_CurLang c"
  using assms
proof (induction xs arbitrary: err c)
  case (Cons x xs)
  obtain f er c2 where l: "loadLang tx create x err c = Some (f, er, c2)" using Cons.prems(1) by (auto split: option.splits)
  have k: "catalogue_ok c2 \<and> tc_CurLang c2 = tc_CurLang c" using loadLang_keeps [OF Cons.prems(2) l] by simp
  show ?case
  proof (cases "f = TRITONN_RESULT_OK")
    case True
    then have "load_langs tx create xs er c2 = Some (e, err1, c1)" using Cons.prems(1) l by simp
    then show ?thesis using Cons.IH k by simp
  next
    case False
    then show ?thesis using Cons.prems(1) l k by simp
  qed
qed simp

lemma load_langs_used:
  assumes "load_langs tx create xs err c = Some (TRITONN_RESULT_OK, err1, c1)" "catalogue_ok c" "(a, l) \<in> set (tc_langs c)"
  shows "\<exists>k. (a, k) \<in> set (tc_langs c1) \<and> lg_Name k = lg_Name l \<and> (used k \<longleftrightarrow> used l \<or> (\<exists>x \<in> set xs. names_lang (lg_Name l) x))"
  using assms
proof (induction xs arbitrary: err c l)
  case (Cons x xs)
  obtain f er c2 where l: "loadLang tx create x err c = Some (f, er, c2)" using Cons.prems(1) by (auto split: option.splits)
  have "f = TRITONN_RESULT_OK" using Cons.prems(1) l loadLang_error [OF l] by (auto split: if_splits)
  then have r: "load_langs tx create xs er c2 = Some (TRITONN_RESULT_OK, err1, c1)" using Cons.prems(1) l by simp
  obtain k where k: "catalogue_ok c2" "(a, k) \<in> set (tc_langs c2)" "lg_Name k = lg_Name l" "used k \<longleftrightarrow> used l \<or> names_lang (lg_Name l) x"
    using loadLang_keeps [OF Cons.prems(2) l] Cons.prems(3) by blast
  from Cons.IH [OF r k(1,2)] show ?case using k(3,4) by auto
qed auto

lemma deleteUnused_ok: "catalogue_ok c \<Longrightarrow> catalogue_ok (snd (deleteUnused c))"
  by (auto simp: catalogue_ok_def deleteUnused_def Let_def distinct_map_filter)

text \<open>
  C18. Loading the texts of a configuration keeps the catalogue in order: no two languages share a name and no two texts of a language a
  number. But the language that is current stays alive only when the configuration names it; otherwise it is freed while it is
  still the current one, and the next text that is asked for reads freed memory.
\<close>

theorem current_language_freed:
  assumes "catalogue_ok c" "tc_CurLang c = Some a" "lang_at a c = Some l" "text_load tx (Some rt) err c = Some (TRITONN_RESULT_OK, err1, c1)"
  shows "catalogue_ok c1 \<and> tc_CurLang c1 = Some a
    \<and> getPtr sid c1 = (if used l \<or> (\<exists>x \<in> set (langs_of rt). names_lang (lg_Name l) x) then Some (getPtr_lang sid (lg_Name l) c1) else None)"
proof -
  obtain c2 where c2: "load_langs tx False (langs_of rt) err c = Some (TRITONN_RESULT_OK, err1, c2)" "c1 = snd (deleteUnused c2)"
    using assms(4) by (auto simp: text_load_def split: option.splits if_splits)
  have k: "catalogue_ok c2" "tc_CurLang c2 = Some a" using load_langs_keeps [OF c2(1) assms(1)] assms(2) by simp_all
  have c1: "catalogue_ok c1" "tc_CurLang c1 = Some a" "set (tc_langs c1) = {(a, l) \<in> set (tc_langs c2). used l}"
    using deleteUnused_ok [OF k(1)] k(2) by (auto simp: c2(2) deleteUnused_def Let_def has_def)
  obtain m where m: "(a, m) \<in> set (tc_langs c2)" "lg_Name m = lg_Name l" "used m \<longleftrightarrow> used l \<or> (\<exists>x \<in> set (langs_of rt). names_lang (lg_Name l) x)"
    using load_langs_used [OF c2(1) assms(1), of a l] assms(3) lang_at_Some [OF assms(1), of a l] by blast
  have "lang_at a c1 = (if used m then Some m else None)"
  proof (cases "used m")
    case True
    then show ?thesis using m(1) c1 by (simp add: lang_at_Some)
  next
    case False
    have "(a, n) \<notin> set (tc_langs c1)" for n
      using m(1) False k(1) unfolding c1(3) catalogue_ok_def by (auto dest: eq_key_imp_eq_value)
    then show ?thesis using False c1(1) lang_at_Some by (cases "lang_at a c1") auto
  qed
  then show ?thesis using c1(1,2) m(2,3) by (simp add: getPtr_def getCurLang_def)
qed

text \<open>Two languages of the system, with the first as the current one, and a configuration with texts in the second only.\<close>

definition ex_texts :: rTextClass where
  "ex_texts = \<lparr>tc_langs = [(0, \<lparr>lg_Name = ''ru'', lg_Setup = 0, lg_Texts = [(5, ''a'')]\<rparr>), (1, \<lparr>lg_Name = ''en'', lg_Setup = 0, lg_Texts = [(5, ''b'')]\<rparr>)],
     tc_CurLang = Some 0, tc_next = 2\<rparr>"

definition ex_custom :: xelem where
  "ex_custom = XElem ''strings'' [] None [XElem ''lang'' [(''value'', ''EN'')] None [XElem ''str'' [(''id'', ''7'')] (Some ''c'') []]]"

definition ex_text_xml :: text_xml where
  "ex_text_xml = \<lparr>tx_ln = (\<lambda>_. 0), tx_num = (\<lambda>_. 7)\<rparr>"

lemma ex_lower: "String_tolower ''EN'' = ''en''" "String_tolower ''en'' = ''en''" "String_tolower ''ru'' = ''ru''"
  by code_simp+

theorem current_language_freed_witness:
  "\<exists>err1 c1. text_load ex_text_xml (Some ex_custom) error_new ex_texts = Some (TRITONN_RESULT_OK, err1, c1) \<and> getPtr 5 c1 = None"
proof -
  have "text_load ex_text_xml (Some ex_custom) error_new ex_texts \<noteq> None \<and> fst (the (text_load ex_text_xml (Some ex_custom) error_new ex_texts)) = TRITONN_RESULT_OK"
    by (simp add: text_load_def langs_of_def loadLang_def lang_for_def getLangPtr_def lang_at_def lang_update_def getPtr_in_def SID_UNKNOW_def
        ex_text_xml_def ex_custom_def ex_texts_def ex_lower Let_def)
  then obtain err1 c1 where l: "text_load ex_text_xml (Some ex_custom) error_new ex_texts = Some (TRITONN_RESULT_OK, err1, c1)"
    by (cases "the (text_load ex_text_xml (Some ex_custom) error_new ex_texts)") auto
  have ok: "catalogue_ok ex_texts" by (simp add: catalogue_ok_def ex_texts_def lang_ok_def ex_lower SID_UNKNOW_def)
  have at: "lang_at 0 ex_texts = Some \<lparr>lg_Name = ''ru'', lg_Setup = 0, lg_Texts = [(5, ''a'')]\<rparr>" "tc_CurLang ex_texts = Some 0"
    by (simp_all add: lang_at_def ex_texts_def)
  have "getPtr 5 c1 = None" using current_language_freed [OF ok at(2,1) l, of 5]
    by (simp add: langs_of_def ex_custom_def names_lang_def ex_lower has_def)
  then show ?thesis using l by blast
qed

text \<open>The file of the system: the catalogue of a new program is in order, and stays so.\<close>

lemma catalogue_ok_new: "catalogue_ok catalogue_new"
  by (simp add: catalogue_ok_def catalogue_new_def)

lemma loadSystem_ok: "loadSystem tx doc err c = Some (e, err1, c1) \<Longrightarrow> catalogue_ok c \<Longrightarrow> catalogue_ok c1"
  by (auto simp: loadSystem_def dest: load_langs_keeps split: sum.splits option.splits prod.splits)

text \<open>A language that is not there leaves the current one as it is, freed or not.\<close>

lemma setCurLang_unknown: "getLangPtr name c = None \<Longrightarrow> text_setCurLang name c = (False, c)"
  by (simp add: text_setCurLang_def)

end
