(* ===== verification/Spec2Isabelle.thy ===== *)
theory Spec2Isabelle
  imports Sampler Prove Modbus Candrv IoManager Density Selector DataIo Plant Crc Variables Reports Packets Users Dump Terminal EventManager JsonServer Threads Catalogue
begin

text \<open>
  A verification development for Tritonn, the measuring computer in \<^verbatim>\<open>src/src/\<close>: the program
  reads the modules of a metering station, calculates quantities of oil, proves and samples, keeps totals
  and reports, and lets operators and other systems see and change its variables.

  \<^bold>\<open>The program and its parts.\<close> The theories follow the parts; each imports those it calls.

  \<^item> Hardware. The modules hang on a second processor. \<open>CLayout\<close> and \<open>CanTypes\<close> hold the blocks of
    \<^verbatim>\<open>candrv/rpmsg_connector_common.h\<close> byte by byte, \<open>Candrv\<close> the command function of
    \<^verbatim>\<open>src/redist/candrv/rpmsg_connector.c\<close>. \<open>Channels\<close> (\<^verbatim>\<open>tritonn/io/*_channel.cpp\<close>), \<open>IoBase\<close>, \<open>IoDiscrete\<close>,
    \<open>IoAnalog\<close>, \<open>IoCrm\<close> (\<^verbatim>\<open>tritonn/io/basemodule.cpp\<close> and \<^verbatim>\<open>module_*.cpp\<close>) and \<open>IoManager\<close>
    (\<^verbatim>\<open>manager.cpp\<close>) are the cycle of the modules and the access to their channels.
  \<^item> Data objects. \<open>Source\<close> (\<^verbatim>\<open>data/source.cpp\<close>, \<^verbatim>\<open>link.cpp\<close>) has faults, units and the links by which objects read each
    other, \<open>Network\<close> the recursive calculation through the links, \<open>Ports\<close> the inputs and outputs of an object,
    \<open>Works\<close> what a class may do, and then the classes: \<open>DataIo\<close> (inputs, outputs, counters), \<open>Metering\<close> (lines,
    stations), \<open>Density\<close>, \<open>Selector\<close>, \<open>Averages\<close>. \<open>Plant\<close> puts the classes together: the virtual \<^verbatim>\<open>calculate\<close> and the scan of
    \<^verbatim>\<open>data_manager.cpp\<close>. \<open>Prove\<close> and \<open>Sampler\<close> are the state machines of the prover and of the sampler, \<open>Reports\<close> the
    reports over the scan.
  \<^item> What they share. \<open>Limit\<close>, \<open>Compared\<close>, \<open>Total\<close>, \<open>Units\<close>, \<open>Common\<close>, \<open>TickCount\<close>, \<open>BitsArray\<close>, \<open>Types\<close>,
    and for the events \<open>Eid\<close>, \<open>Event\<close> and \<open>Container\<close>.
  \<^item> Threads. \<open>Threads\<close> is the class all threads derive from (\<^verbatim>\<open>shared/thread_class.cpp\<close>), with every interleaving of
    its steps and those of others, and the thread that watches them (\<^verbatim>\<open>threadmaster.cpp\<close>).
  \<^item> The outside. \<open>Variables\<close> are the variables and snapshots through which everything is read and written, \<open>Texts\<close>
    their values as texts, \<open>Catalogue\<close> the texts of each language. \<open>Modbus\<close> is the Modbus slave, \<open>TcpServer\<close> the server all ports are derived
    from, \<open>Packets\<close> and \<open>Crc\<close> the packets of the terminal, \<open>Users\<close> the users, \<open>Terminal\<close> the server for the
    terminal, \<open>JsonServer\<close> that for the pages of the operator, \<open>EventManager\<close> the store of events with its port. \<open>Files\<close> and \<open>Dump\<close> are the text files, the start of the
    program, its halt and restart and what it saves and restores; \<open>XmlText\<close> states what is asked of the XML library.

  \<^bold>\<open>How code becomes definitions.\<close> A class is a record with its fields, an operation a function from the old state
  to the new one together with its result; definitions have the names of the code, with a prefix where several
  classes use the same. Integers have their width (\<open>Prelude\<close> names the types), so they wrap as in the code.
  Floating numbers are the type of \<open>Lreal\<close>: real numbers with infinities and NaN, every result rounded to the format and
  compared as IEEE 754 has it, with one zero instead of two. Memory the code has not set is an argument. Events
  are appended to what an operation returns. A null pointer, a missing result or an exception is \<open>None\<close>, a
  write behind an array is a trap on the left of a sum. Libraries (SHA-1, the parsers of XML and JSON, protocol
  buffers, printing and reading of floating numbers, files, sockets) are arguments or records of functions,
  with what is assumed of them written as hypotheses of the theorems.

  \<^bold>\<open>Loops.\<close> The calculation through the links has fuel, one more than the number of objects, which \<open>plant_scan_once\<close> shows
  to be enough, because an object marks itself before it asks others. The loop of Modbus function 16 has fuel
  because it does not end: no amount of it gives a reply. Other loops that are not structural (the receive loops of \<open>Packets\<close>,
  the scan of parameters in \<open>Event\<close>, the templates in \<open>EventManager\<close>) have proofs of termination by a measure. The
  waiting for an answer in \<open>Candrv\<close> consumes the messages that come and gives up after 5000 attempts, as the code does.

  \<^bold>\<open>Interfaces.\<close> \<open>codec\<close> (writing and reading back) for the four widths, \<open>timer\<close> for the tick counter, \<open>latch\<close> for the
  reporting of faults, \<open>compared\<close> for settings, \<open>io_module\<close> (what a module promises about its channels) for all seven modules,
  \<open>bodies\<close> (what a class may do to the network) for the classes of \<open>Plant\<close>, and \<open>tcp_handler\<close> (what a server does with the
  state of the class derived from it) for the event port are locales, interpreted on the definitions of the component that
  provides them. \<open>sampler_reach\<close>, \<open>prove_reach\<close>, \<open>io_reach\<close> and \<open>em_reachable\<close> are the reachable states of the state machines.

  \<^bold>\<open>What is shown.\<close>

  \<^item> Scan: it ends for every configuration, calculates each object once, and without cycles leaves every input with the
    value of its source in its own unit; a station has the sums of its lines; the raw count of a line
    advances as the counter of its module does when polls and scans alternate, and twice as far with two scans for a poll.
  \<^item> State machines: the invariants of the sampler, from any memory it is constructed in, and of the prover, and the runs they never make; one pulse of an output; the range
    of an analogue input; faults reported once; channels reached with their type only.
  \<^item> Numbers: timers across the wrap of the tick, totals within their range, the densitometer faulty or converged to a number in its range, the
    table checksum equal to the division bit by bit.
  \<^item> Data: events and their parameters read back as written, against an abstract list of parameters; containers, variables
    and mirrors; the registers of Modbus byte by byte.
  \<^item> The outside: frames and packets put together however the network cuts them; no access to a variable or to the
    terminal without the rights for it; for the pages no session without a password, and what is done without a session: nothing while the
    program runs, a restart in the cold start, the answer about a dump while one is waited for; which requests end the process; how loading users and logging in fail; the limits of the event store, which keeps one event more than it means to.
  \<^item> Threads: when a thread told to end does so, and which threads that never start are noticed; the catalogue of texts, in
    order but with a current language that may have been freed.
  \<^item> Restart: the files that are saved are read as what was saved, exactly for integers and up to the printed digits for floating
    numbers; the start comes to an end; which totals and variables are lost
    when a dump belongs to another configuration.

  Some theorems state behaviour that its authors will not have meant (a command that is lost, a reply that
  is never sent, an increment that no report has). They are exact statements about the code as it is.

  \<^bold>\<open>Not modelled.\<close> The third-party sources (XML, OPC UA, protocol buffers, the test framework, of the calendar all but the seconds of
  a date, of JSON the parsing and printing), the
  locks of the components (each is the sequence of its operations), drawing and tools of the operator, the text of
  the manual and of logs, and the part of loading that takes values from an XML tree without deciding anything.
  The OPC UA server is calls of its library. Opening of sockets, the
  system clock and network settings are calls of the operating system.
\<close>

end
